(* ===== verification/Store_Contracts.thy ===== *)
theory Store_Contracts
  imports Py_Prelude
begin

text \<open>
  The contracts the routers rely on when they talk to a store, stated once for every
  backend: a table of records by key, a table of single-use codes, a registry of
  soft-revocable keys and the sliding request window. Each is a locale; the lemmas a
  client needs are proved inside it. The in-memory store and the SQLite store
  interpret all of them on their own operations.
\<close>

section \<open>Keyed records\<close>

locale record_table =
  fixes put :: "'r \<Rightarrow> 's \<Rightarrow> 's"
    and lookup :: "'s \<Rightarrow> string \<Rightarrow> 'e + 'r option"
    and key :: "'r \<Rightarrow> string"
  assumes lookup_put: "lookup (put r s) k = (if k = key r then Inr (Some r) else lookup s k)"
begin

lemma lookup_put_same [simp]: "lookup (put r s) (key r) = Inr (Some r)"
  by (simp add: lookup_put)

lemma lookup_put_other: "k \<noteq> key r \<Longrightarrow> lookup (put r s) k = lookup s k"
  by (simp add: lookup_put)

lemma put_put_lookup: "key r = key r' \<Longrightarrow> lookup (put r (put r' s)) k = lookup (put r s) k"
  by (simp add: lookup_put)

lemma fold_put_lookup:
  "k \<notin> key ` set rs \<Longrightarrow> lookup (fold put rs s) k = lookup s k"
  by (induction rs arbitrary: s) (auto simp: lookup_put)

end

text \<open>A table whose records can also be removed: bearer tokens.\<close>

locale revocable_table = record_table put lookup key
  for put :: "'r \<Rightarrow> 's \<Rightarrow> 's" and lookup :: "'s \<Rightarrow> string \<Rightarrow> 'e + 'r option" and key :: "'r \<Rightarrow> string" +
  fixes remove :: "string \<Rightarrow> 's \<Rightarrow> 's"
  assumes lookup_remove: "lookup (remove j s) k = (if k = j then Inr None else lookup s k)"
begin

text \<open>Exchanging one record for another: the old key is dead, the new one is live.\<close>

lemma exchange_old: "lookup (remove old (put r s)) old = Inr None"
  by (simp add: lookup_remove)

lemma exchange_new: "key r \<noteq> old \<Longrightarrow> lookup (remove old (put r s)) (key r) = Inr (Some r)"
  by (simp add: lookup_remove lookup_put)

lemma exchange_frame:
  "k \<noteq> key r \<Longrightarrow> k \<noteq> old \<Longrightarrow> lookup (remove old (put r s)) k = lookup s k"
  by (simp add: lookup_remove lookup_put)

lemma remove_idem: "lookup (remove j (remove j s)) k = lookup (remove j s) k"
  by (simp add: lookup_remove)

end

section \<open>Single-use codes\<close>

locale single_use_table = record_table put lookup key
  for put :: "'r \<Rightarrow> 's \<Rightarrow> 's" and lookup :: "'s \<Rightarrow> string \<Rightarrow> 'e + 'r option" and key :: "'r \<Rightarrow> string" +
  fixes consume :: "string \<Rightarrow> 's \<Rightarrow> 'e + 's"
    and used :: "'r \<Rightarrow> bool"
    and mark :: "'r \<Rightarrow> 'r"
    and ok :: "'s \<Rightarrow> bool"
  assumes used_mark: "used (mark r)"
    and ok_put: "ok s \<Longrightarrow> ok (put r s)"
    and lookup_total: "ok s \<Longrightarrow> \<exists>r. lookup s c = Inr r"
    and consume_unknown: "ok s \<Longrightarrow> lookup s c = Inr None \<Longrightarrow> consume c s = Inr s"
    and consume_known: "ok s \<Longrightarrow> lookup s c = Inr (Some r) \<Longrightarrow>
      \<exists>s'. consume c s = Inr s' \<and> ok s' \<and>
        (\<forall>k. lookup s' k = (if k = c then Inr (Some (mark r)) else lookup s k))"
begin

text \<open>A code can be redeemed when it is stored and not used up.\<close>

definition redeemable :: "'s \<Rightarrow> string \<Rightarrow> bool" where
  "redeemable s c \<longleftrightarrow> (\<exists>r. lookup s c = Inr (Some r) \<and> \<not> used r)"

lemma consume_total:
  assumes "ok s"
  shows "\<exists>s'. consume c s = Inr s' \<and> ok s'"
  using lookup_total [OF assms, of c] consume_unknown [OF assms, of c] consume_known [OF assms, of c] assms
  by (metis not_None_eq)

lemma consume_spends:
  assumes "ok s" "consume c s = Inr s'"
  shows "\<not> redeemable s' c"
proof -
  obtain r where r: "lookup s c = Inr r" using lookup_total [OF assms(1)] by blast
  show ?thesis
  proof (cases r)
    case None
    with r assms consume_unknown show ?thesis by (auto simp: redeemable_def)
  next
    case (Some r')
    with r consume_known [OF assms(1), of c r'] assms used_mark show ?thesis
      by (auto simp: redeemable_def)
  qed
qed

lemma consume_keeps_spent:
  assumes "ok s" "consume d s = Inr s'" "\<not> redeemable s c"
  shows "\<not> redeemable s' c"
proof -
  obtain r where r: "lookup s d = Inr r" using lookup_total [OF assms(1)] by blast
  show ?thesis
  proof (cases r)
    case None
    with r assms consume_unknown show ?thesis by auto
  next
    case (Some r')
    with r consume_known [OF assms(1), of d r'] assms used_mark show ?thesis
      by (auto simp: redeemable_def)
  qed
qed

text \<open>Once spent, a code stays spent through every later consumption.\<close>

lemma consumes_keep_spent:
  assumes "ok s" "\<not> redeemable s c"
  shows "\<exists>s'. foldl (\<lambda>m d. case m of Inl e \<Rightarrow> Inl e | Inr s \<Rightarrow> consume d s) (Inr s) ds = Inr s' \<and>
    ok s' \<and> \<not> redeemable s' c"
  using assms
proof (induction ds arbitrary: s)
  case Nil
  then show ?case by simp
next
  case (Cons d ds)
  then obtain s' where "consume d s = Inr s'" "ok s'" using consume_total by blast
  with Cons consume_keeps_spent show ?case by auto
qed

lemma put_keeps_spent:
  "key r \<noteq> c \<Longrightarrow> \<not> redeemable s c \<Longrightarrow> \<not> redeemable (put r s) c"
  by (auto simp: redeemable_def lookup_put)

end

section \<open>Soft-revocable keys\<close>

locale key_registry = record_table put lookup key
  for put :: "'r \<Rightarrow> 's \<Rightarrow> 's" and lookup :: "'s \<Rightarrow> string \<Rightarrow> 'e + 'r option" and key :: "'r \<Rightarrow> string" +
  fixes revoke :: "string \<Rightarrow> int \<Rightarrow> 's \<Rightarrow> 's"
    and revoked_at :: "'r \<Rightarrow> int option"
    and stamp :: "int \<Rightarrow> 'r \<Rightarrow> 'r"
  assumes revoked_at_stamp: "revoked_at (stamp t r) = Some t"
    and lookup_revoke: "lookup (revoke j t s) k =
      (case lookup s k of
         Inr (Some r) \<Rightarrow>
           if k = j \<and> revoked_at r = None then Inr (Some (stamp t r)) else Inr (Some r)
       | other \<Rightarrow> other)"
begin

definition active :: "'s \<Rightarrow> string \<Rightarrow> bool" where
  "active s k \<longleftrightarrow> (\<exists>r. lookup s k = Inr (Some r) \<and> revoked_at r = None)"

lemma revoke_deactivates: "\<not> active (revoke k t s) k"
  by (auto simp: active_def lookup_revoke revoked_at_stamp split: sum.splits option.splits if_splits)

lemma revoke_never_reactivates: "\<not> active s k \<Longrightarrow> \<not> active (revoke j t s) k"
  by (auto simp: active_def lookup_revoke revoked_at_stamp split: sum.splits option.splits if_splits)

lemma revoke_frame: "k \<noteq> j \<Longrightarrow> lookup (revoke j t s) k = lookup s k"
  by (auto simp: lookup_revoke split: sum.splits option.splits)

lemma revoke_keeps_row:
  "lookup s k = Inr (Some r) \<Longrightarrow> \<exists>r'. lookup (revoke j t s) k = Inr (Some r')"
  by (auto simp: lookup_revoke)

text \<open>The first revocation's time stays: a second one changes nothing.\<close>

lemma revoke_first_wins: "lookup (revoke j t' (revoke j t s)) k = lookup (revoke j t s) k"
  by (auto simp: lookup_revoke revoked_at_stamp split: sum.splits option.splits)

end

section \<open>The sliding request window\<close>

text \<open>
  The window of a bucket: entries older than sixty seconds are dropped from the front,
  then the request is appended. The count returned includes the request itself.
\<close>

definition slide :: "int \<Rightarrow> int list \<Rightarrow> int list" where
  "slide now w = dropWhile (\<lambda>t. t < now - 60) w @ [now]"

text \<open>The recent part of a history of requests, and the verdicts of a run.\<close>

definition recent :: "int \<Rightarrow> int list \<Rightarrow> int list" where
  "recent now h = filter (\<lambda>t. now - 60 \<le> t) h"

lemma dropWhile_sorted_filter:
  "sorted w \<Longrightarrow> dropWhile (\<lambda>t. t < (b :: int)) w = filter (\<lambda>t. b \<le> t) w"
proof (induction w)
  case Nil
  then show ?case by simp
next
  case (Cons x w)
  show ?case
  proof (cases "x < b")
    case True
    with Cons show ?thesis by simp
  next
    case False
    with Cons.prems have "\<forall>y \<in> set (x # w). b \<le> y" by auto
    then have "filter (\<lambda>t. b \<le> t) (x # w) = x # w" by (simp add: filter_id_conv)
    with False show ?thesis by simp
  qed
qed

lemma slide_recent:
  assumes "sorted (h @ [now])" "w = recent b h" "b \<le> now"
  shows "slide now w = recent now (h @ [now])"
proof -
  from assms(1) have "sorted h" by (simp add: sorted_append)
  then have "sorted (recent b h)" by (simp add: recent_def sorted_filter [where f = id, simplified])
  then have "slide now w = filter (\<lambda>t. now - 60 \<le> t) (recent b h) @ [now]"
    using assms(2) by (simp add: slide_def dropWhile_sorted_filter)
  moreover have "filter (\<lambda>t. now - 60 \<le> t) (recent b h) = recent now h"
    using assms(3) by (auto simp: recent_def intro!: filter_cong)
  ultimately show ?thesis by (simp add: recent_def)
qed

locale request_window =
  fixes hit :: "string \<Rightarrow> int \<Rightarrow> 's \<Rightarrow> 'e + int \<times> 's"
    and window :: "'s \<Rightarrow> string \<Rightarrow> int list"
    and ok :: "'s \<Rightarrow> bool"
  assumes record_slides: "ok s \<Longrightarrow> \<exists>s'. hit b now s = Inr (int (length (slide now (window s b))), s') \<and>
      ok s' \<and> (\<forall>c. window s' c = (if c = b then slide now (window s b) else window s c))"
begin

text \<open>Serving a sequence of requests of one bucket, with the limit of its tier.\<close>

fun serve :: "string \<Rightarrow> int \<Rightarrow> int list \<Rightarrow> 's \<Rightarrow> bool list" where
  "serve b rpm [] s = []"
| "serve b rpm (t # ts) s =
     (case hit b t s of
        Inl _ \<Rightarrow> []
      | Inr (n, s') \<Rightarrow> (n \<le> rpm) # serve b rpm ts s')"

lemma serve_verdicts:
  assumes "ok s" "sorted (h @ ts)" "window s b = recent c h" "\<forall>t \<in> set ts. c \<le> t"
  shows "length (serve b rpm ts s) = length ts \<and>
    (\<forall>i < length ts. serve b rpm ts s ! i \<longleftrightarrow>
       int (length (recent (ts ! i) (h @ take (Suc i) ts))) \<le> rpm)"
  using assms
proof (induction ts arbitrary: s h c)
  case Nil
  then show ?case by simp
next
  case (Cons t ts)
  from record_slides [OF Cons.prems(1), of b t] obtain s' where
    rec: "hit b t s = Inr (int (length (slide t (window s b))), s')" and ok': "ok s'"
    and win: "window s' b = slide t (window s b)"
    by fastforce
  have slide_eq: "slide t (window s b) = recent t (h @ [t])"
    using Cons.prems by (intro slide_recent) (auto simp: sorted_append)
  have IH: "length (serve b rpm ts s') = length ts \<and>
    (\<forall>i < length ts. serve b rpm ts s' ! i \<longleftrightarrow>
       int (length (recent (ts ! i) ((h @ [t]) @ take (Suc i) ts))) \<le> rpm)"
    using Cons.prems ok' win slide_eq
    by (intro Cons.IH [where c = t]) (auto simp: sorted_append)
  show ?case
  proof (intro conjI allI impI)
    show "length (serve b rpm (t # ts) s) = length (t # ts)"
      using IH rec by simp
  next
    fix i assume "i < length (t # ts)"
    then show "serve b rpm (t # ts) s ! i \<longleftrightarrow>
       int (length (recent ((t # ts) ! i) (h @ take (Suc i) (t # ts)))) \<le> rpm"
      using IH rec slide_eq by (cases i) auto
  qed
qed

end

end
