(* ===== verification/Store.thy ===== *)
theory Store
  imports Store_Contracts
begin

text \<open>
  The storage layer: the records of \<open>server/store/protocol.py\<close> and the
  in-memory implementation \<open>server/store/memory.py\<close>. The state
  \<open>StoreState\<close> is a record of dictionaries; every method of
  \<open>MemoryStore\<close> is a function on it, which returns the new state where the
  method writes. The interfaces that clients rely on (token table, single-use codes,
  signing keys, request windows) are locales at the end, interpreted on these
  operations; the persistent backend interprets them again in \<open>Sqlite_Store\<close>.
\<close>

section \<open>Records of the protocol\<close>

datatype identity =
    OrcidIdentity (orcid_id: string)
  | AgentIdentity (handle: string)
  | AnonymousIdentity (challenge_id: string)

record token_record =
  tr_token :: string
  tr_identity :: identity
  tr_issued_at_unix :: int
  tr_expires_at_unix :: int

record agent_record =
  ar_handle :: string
  ar_public_key_b64 :: string
  ar_contact :: "string option"
  ar_enrolled_at_unix :: int

record orcid_key_record =
  ok_orcid_id :: string
  ok_key_id :: string
  ok_public_key_b64 :: string
  ok_label :: string
  ok_created_at_unix :: int
  ok_revoked_at_unix :: "int option"

record idempotency_entry =
  ie_body_sha256 :: string
  ie_response_status :: int
  ie_response_body :: pydict
  ie_created_at_unix :: int

record challenge_record =
  ch_challenge_id :: string
  ch_challenge_type :: string
  ch_site_key :: string
  ch_issued_at_unix :: int
  ch_expires_at_unix :: int
  ch_consumed :: bool

record paste_code_entry =
  pc_code :: string
  pc_orcid_id :: string
  pc_issued_at_unix :: int
  pc_expires_at_unix :: int
  pc_consumed :: bool

record store_state =
  st_tokens :: "(string \<times> token_record) list"
  st_agents :: "(string \<times> agent_record) list"
  st_orcid_keys :: "(string \<times> orcid_key_record) list"
  st_challenges :: "(string \<times> challenge_record) list"
  st_paste_codes :: "(string \<times> paste_code_entry) list"
  st_papers :: "(string \<times> pydict) list"
  st_cirs :: "(string \<times> pydict) list"
  st_claims :: "(string \<times> pydict) list"
  st_annotations :: "(string \<times> pydict) list"
  st_latest_snapshot :: "pydict option"
  st_idempotency :: "((string \<times> string) \<times> idempotency_entry) list"
  st_rate_window :: "(string \<times> int list) list"
  st_sources :: "(string \<times> bytes) list"
  st_rendered_pdfs :: "(string \<times> bytes) list"
  st_snapshot_blobs :: "(string \<times> bytes) list"
  st_claim_views :: "(string \<times> int) list"

definition empty_store :: store_state where
  "empty_store =
     \<lparr>st_tokens = [], st_agents = [], st_orcid_keys = [], st_challenges = [],
      st_paste_codes = [], st_papers = [], st_cirs = [], st_claims = [],
      st_annotations = [], st_latest_snapshot = None, st_idempotency = [],
      st_rate_window = [], st_sources = [], st_rendered_pdfs = [],
      st_snapshot_blobs = [], st_claim_views = []\<rparr>"

section \<open>Tokens, agents and signing keys\<close>

definition add_token :: "token_record \<Rightarrow> store_state \<Rightarrow> store_state" where
  "add_token r s = s\<lparr>st_tokens := dict_set (tr_token r) r (st_tokens s)\<rparr>"

definition get_token :: "store_state \<Rightarrow> string \<Rightarrow> token_record option" where
  "get_token s t = dict_get (st_tokens s) t"

definition revoke_token :: "string \<Rightarrow> store_state \<Rightarrow> store_state" where
  "revoke_token t s = s\<lparr>st_tokens := dict_pop t (st_tokens s)\<rparr>"

definition add_agent :: "agent_record \<Rightarrow> store_state \<Rightarrow> store_state" where
  "add_agent r s = s\<lparr>st_agents := dict_set (ar_handle r) r (st_agents s)\<rparr>"

definition get_agent :: "store_state \<Rightarrow> string \<Rightarrow> agent_record option" where
  "get_agent s h = dict_get (st_agents s) h"

definition add_orcid_key :: "orcid_key_record \<Rightarrow> store_state \<Rightarrow> store_state" where
  "add_orcid_key r s = s\<lparr>st_orcid_keys := dict_set (ok_key_id r) r (st_orcid_keys s)\<rparr>"

definition get_orcid_key :: "store_state \<Rightarrow> string \<Rightarrow> orcid_key_record option" where
  "get_orcid_key s k = dict_get (st_orcid_keys s) k"

definition list_orcid_keys :: "store_state \<Rightarrow> string \<Rightarrow> bool \<Rightarrow> orcid_key_record list" where
  "list_orcid_keys s oid include_revoked =
     (let out = filter (\<lambda>r. ok_orcid_id r = oid) (dict_values (st_orcid_keys s))
      in if \<not> include_revoked then filter (\<lambda>r. ok_revoked_at_unix r = None) out else out)"

definition revoke_orcid_key :: "string \<Rightarrow> int \<Rightarrow> store_state \<Rightarrow> store_state" where
  "revoke_orcid_key k now s =
     (case dict_get (st_orcid_keys s) k of
        None \<Rightarrow> s
      | Some existing \<Rightarrow>
          if ok_revoked_at_unix existing \<noteq> None then s
          else s\<lparr>st_orcid_keys :=
                 dict_set k (existing\<lparr>ok_revoked_at_unix := Some now\<rparr>) (st_orcid_keys s)\<rparr>)"

section \<open>Challenges and paste codes\<close>

definition add_challenge :: "challenge_record \<Rightarrow> store_state \<Rightarrow> store_state" where
  "add_challenge r s = s\<lparr>st_challenges := dict_set (ch_challenge_id r) r (st_challenges s)\<rparr>"

definition get_challenge :: "store_state \<Rightarrow> string \<Rightarrow> challenge_record option" where
  "get_challenge s c = dict_get (st_challenges s) c"

definition consume_challenge :: "string \<Rightarrow> store_state \<Rightarrow> store_state" where
  "consume_challenge c s =
     (case dict_get (st_challenges s) c of
        None \<Rightarrow> s
      | Some r \<Rightarrow> s\<lparr>st_challenges := dict_set c (r\<lparr>ch_consumed := True\<rparr>) (st_challenges s)\<rparr>)"

definition add_paste_code :: "paste_code_entry \<Rightarrow> store_state \<Rightarrow> store_state" where
  "add_paste_code e s = s\<lparr>st_paste_codes := dict_set (pc_code e) e (st_paste_codes s)\<rparr>"

definition get_paste_code :: "store_state \<Rightarrow> string \<Rightarrow> paste_code_entry option" where
  "get_paste_code s c = dict_get (st_paste_codes s) c"

definition consume_paste_code :: "string \<Rightarrow> store_state \<Rightarrow> store_state" where
  "consume_paste_code c s =
     (case dict_get (st_paste_codes s) c of
        None \<Rightarrow> s
      | Some e \<Rightarrow> s\<lparr>st_paste_codes := dict_set c (e\<lparr>pc_consumed := True\<rparr>) (st_paste_codes s)\<rparr>)"

section \<open>Papers, claims, annotations\<close>

text \<open>\<open>paper["id"]\<close> raises \<open>KeyError\<close> on a record without an id; ids are strings.\<close>

definition item_id :: "pydict \<Rightarrow> pyexn + string" where
  "item_id d = (case dict_get d ''id'' of
      None \<Rightarrow> Inl KeyError
    | Some (PStr i) \<Rightarrow> Inr i
    | Some _ \<Rightarrow> Inl TypeError)"

definition add_paper :: "pydict \<Rightarrow> store_state \<Rightarrow> pyexn + store_state" where
  "add_paper p s = rbind (item_id p) (\<lambda>i. Inr (s\<lparr>st_papers := dict_set i p (st_papers s)\<rparr>))"

definition get_paper :: "store_state \<Rightarrow> string \<Rightarrow> pydict option" where
  "get_paper s i = dict_get (st_papers s) i"

definition list_papers :: "store_state \<Rightarrow> pydict list" where
  "list_papers s = dict_values (st_papers s)"

definition add_cir :: "pydict \<Rightarrow> store_state \<Rightarrow> pyexn + store_state" where
  "add_cir c s = rbind (item_id c) (\<lambda>i. Inr (s\<lparr>st_cirs := dict_set i c (st_cirs s)\<rparr>))"

definition get_cir :: "store_state \<Rightarrow> string \<Rightarrow> pydict option" where
  "get_cir s i = dict_get (st_cirs s) i"

definition add_claim :: "pydict \<Rightarrow> store_state \<Rightarrow> pyexn + store_state" where
  "add_claim c s = rbind (item_id c) (\<lambda>i. Inr (s\<lparr>st_claims := dict_set i c (st_claims s)\<rparr>))"

definition get_claim :: "store_state \<Rightarrow> string \<Rightarrow> pydict option" where
  "get_claim s i = dict_get (st_claims s) i"

definition list_claims :: "store_state \<Rightarrow> pydict list" where
  "list_claims s = dict_values (st_claims s)"

definition get_claim_views :: "store_state \<Rightarrow> string \<Rightarrow> int" where
  "get_claim_views s c = (case dict_get (st_claim_views s) c of None \<Rightarrow> 0 | Some n \<Rightarrow> n)"

definition bump_claim_view :: "string \<Rightarrow> store_state \<Rightarrow> int \<times> store_state" where
  "bump_claim_view c s =
     (let new_count = get_claim_views s c + 1
      in (new_count, s\<lparr>st_claim_views := dict_set c new_count (st_claim_views s)\<rparr>))"

definition list_claim_views :: "store_state \<Rightarrow> (string \<times> int) list" where
  "list_claim_views s = st_claim_views s"

definition add_annotation :: "pydict \<Rightarrow> store_state \<Rightarrow> pyexn + store_state" where
  "add_annotation a s =
     rbind (item_id a) (\<lambda>i. Inr (s\<lparr>st_annotations := dict_set i a (st_annotations s)\<rparr>))"

definition get_annotation :: "store_state \<Rightarrow> string \<Rightarrow> pydict option" where
  "get_annotation s i = dict_get (st_annotations s) i"

definition list_annotations :: "store_state \<Rightarrow> pydict list" where
  "list_annotations s = dict_values (st_annotations s)"

section \<open>Idempotency keys, blobs and snapshots\<close>

definition get_idempotency :: "store_state \<Rightarrow> string \<Rightarrow> string \<Rightarrow> idempotency_entry option" where
  "get_idempotency s t k = dict_get (st_idempotency s) (t, k)"

definition add_idempotency ::
  "string \<Rightarrow> string \<Rightarrow> idempotency_entry \<Rightarrow> store_state \<Rightarrow> store_state" where
  "add_idempotency t k e s = s\<lparr>st_idempotency := dict_set (t, k) e (st_idempotency s)\<rparr>"

definition save_source :: "string \<Rightarrow> bytes \<Rightarrow> store_state \<Rightarrow> string \<times> store_state" where
  "save_source i b s =
     (''/api/v0/papers/'' @ i @ ''/source'', s\<lparr>st_sources := dict_set i b (st_sources s)\<rparr>)"

definition load_source :: "store_state \<Rightarrow> string \<Rightarrow> bytes option" where
  "load_source s i = dict_get (st_sources s) i"

definition save_rendered_pdf :: "string \<Rightarrow> bytes \<Rightarrow> store_state \<Rightarrow> string \<times> store_state" where
  "save_rendered_pdf i b s =
     (''/api/v0/papers/'' @ i @ ''/pdf'', s\<lparr>st_rendered_pdfs := dict_set i b (st_rendered_pdfs s)\<rparr>)"

definition load_rendered_pdf :: "store_state \<Rightarrow> string \<Rightarrow> bytes option" where
  "load_rendered_pdf s i = dict_get (st_rendered_pdfs s) i"

definition latest_snapshot :: "store_state \<Rightarrow> pydict option" where
  "latest_snapshot s = st_latest_snapshot s"

definition set_latest_snapshot :: "pydict \<Rightarrow> store_state \<Rightarrow> store_state" where
  "set_latest_snapshot m s = s\<lparr>st_latest_snapshot := Some m\<rparr>"

definition save_snapshot_blob :: "string \<Rightarrow> bytes \<Rightarrow> store_state \<Rightarrow> string \<times> store_state" where
  "save_snapshot_blob i b s =
     (''/api/v0/snapshots/'' @ i, s\<lparr>st_snapshot_blobs := dict_set i b (st_snapshot_blobs s)\<rparr>)"

definition load_snapshot_blob :: "store_state \<Rightarrow> string \<Rightarrow> bytes option" where
  "load_snapshot_blob s i = dict_get (st_snapshot_blobs s) i"

section \<open>Request windows\<close>

definition record_request :: "string \<Rightarrow> int \<Rightarrow> store_state \<Rightarrow> int \<times> store_state" where
  "record_request b now s =
     (let w = (case dict_get (st_rate_window s) b of None \<Rightarrow> [] | Some w \<Rightarrow> w);
          w' = slide now w
      in (int (length w'), s\<lparr>st_rate_window := dict_set b w' (st_rate_window s)\<rparr>))"

section \<open>Corpus management\<close>

definition clear_corpus :: "store_state \<Rightarrow> store_state" where
  "clear_corpus s = s\<lparr>st_papers := [], st_cirs := [], st_claims := [], st_annotations := [],
     st_sources := [], st_rendered_pdfs := [], st_claim_views := []\<rparr>"

text \<open>
  The keys a paper's claims may carry in \<open>paper_id\<close>: its machine id, and its
  slug when the stored record has one. They are the elements of a Python set, so an
  unhashable value (a list or a dictionary) raises \<open>TypeError\<close>, when it is
  added and when it is looked up; membership is Python's equality.
\<close>

definition unhashable :: "pyval \<Rightarrow> bool" where
  "unhashable v = (is_list v \<or> is_dict v)"

definition owner_keys_of :: "pydict option \<Rightarrow> string \<Rightarrow> pyexn + pyval list" where
  "owner_keys_of paper pid =
     (case paper of
        None \<Rightarrow> Inr [PStr pid]
      | Some p \<Rightarrow>
          let slug = dget p ''id_slug''
          in if \<not> truthy slug then Inr [PStr pid]
             else if unhashable slug then Inl TypeError
             else Inr [PStr pid, slug])"

definition in_owner_keys :: "pyval list \<Rightarrow> pyval \<Rightarrow> pyexn + bool" where
  "in_owner_keys owners v =
     (if unhashable v then Inl TypeError else Inr (list_ex (\<lambda>k. py_eq v k) owners))"

fun stale_claim_ids :: "pyval list \<Rightarrow> (string \<times> pydict) list \<Rightarrow> pyexn + string list" where
  "stale_claim_ids owners [] = Inr []"
| "stale_claim_ids owners ((cid, c) # rest) =
     rbind (in_owner_keys owners (dget c ''paper_id'')) (\<lambda>hit.
     rbind (stale_claim_ids owners rest) (\<lambda>ids. Inr (if hit then cid # ids else ids)))"

definition drop_claim :: "string \<Rightarrow> store_state \<Rightarrow> store_state" where
  "drop_claim cid s =
     s\<lparr>st_claims := dict_pop cid (st_claims s), st_claim_views := dict_pop cid (st_claim_views s)\<rparr>"

definition replace_seed_paper :: "string \<Rightarrow> store_state \<Rightarrow> pyexn + store_state" where
  "replace_seed_paper pid s =
     rbind (owner_keys_of (dict_get (st_papers s) pid) pid) (\<lambda>owners.
     rbind (stale_claim_ids owners (st_claims s)) (\<lambda>stale.
       let s' = fold drop_claim stale s
       in Inr (s'\<lparr>st_papers := dict_pop pid (st_papers s'), st_cirs := dict_pop pid (st_cirs s'),
                st_sources := dict_pop pid (st_sources s'),
                st_rendered_pdfs := dict_pop pid (st_rendered_pdfs s')\<rparr>)))"

fun replace_seed_papers :: "string list \<Rightarrow> store_state \<Rightarrow> pyexn + store_state" where
  "replace_seed_papers [] s = Inr s"
| "replace_seed_papers (pid # pids) s =
     rbind (replace_seed_paper pid s) (replace_seed_papers pids)"

lemmas store_op_defs =
  add_token_def get_token_def revoke_token_def add_agent_def get_agent_def
  add_orcid_key_def get_orcid_key_def revoke_orcid_key_def
  add_challenge_def get_challenge_def consume_challenge_def
  add_paste_code_def get_paste_code_def consume_paste_code_def
  get_paper_def get_cir_def get_claim_def get_annotation_def
  list_papers_def list_claims_def list_annotations_def
  get_claim_views_def bump_claim_view_def list_claim_views_def
  get_idempotency_def add_idempotency_def save_source_def load_source_def
  save_rendered_pdf_def load_rendered_pdf_def latest_snapshot_def set_latest_snapshot_def
  save_snapshot_blob_def load_snapshot_blob_def record_request_def

section \<open>The in-memory store implements the contracts\<close>

interpretation mem_tokens: revocable_table add_token "\<lambda>s t. Inr (get_token s t) :: pyexn + _"
  tr_token revoke_token
  by unfold_locales (simp_all add: store_op_defs)

interpretation mem_agents: record_table add_agent "\<lambda>s h. Inr (get_agent s h) :: pyexn + _" ar_handle
  by unfold_locales (simp add: store_op_defs)

interpretation mem_challenges: single_use_table add_challenge
  "\<lambda>s c. Inr (get_challenge s c) :: pyexn + _" ch_challenge_id
  "\<lambda>c s. Inr (consume_challenge c s)" ch_consumed "\<lambda>r. r\<lparr>ch_consumed := True\<rparr>" "\<lambda>s. True"
  by unfold_locales (auto simp: store_op_defs split: option.splits)

interpretation mem_paste_codes: single_use_table add_paste_code
  "\<lambda>s c. Inr (get_paste_code s c) :: pyexn + _" pc_code
  "\<lambda>c s. Inr (consume_paste_code c s)" pc_consumed "\<lambda>r. r\<lparr>pc_consumed := True\<rparr>" "\<lambda>s. True"
  by unfold_locales (auto simp: store_op_defs split: option.splits)

interpretation mem_orcid_keys: key_registry add_orcid_key
  "\<lambda>s k. Inr (get_orcid_key s k) :: pyexn + _" ok_key_id revoke_orcid_key
  ok_revoked_at_unix "\<lambda>t r. r\<lparr>ok_revoked_at_unix := Some t\<rparr>"
  by unfold_locales (auto simp: store_op_defs split: option.splits)

definition rate_window_of :: "store_state \<Rightarrow> string \<Rightarrow> int list" where
  "rate_window_of s b = (case dict_get (st_rate_window s) b of None \<Rightarrow> [] | Some w \<Rightarrow> w)"

interpretation mem_window: request_window "\<lambda>b now s. Inr (record_request b now s) :: pyexn + _"
  rate_window_of "\<lambda>s. True"
  by unfold_locales (auto simp: record_request_def rate_window_of_def Let_def split: option.splits)

end
