(* ===== verification/Sqlite_Store.thy ===== *)
theory Sqlite_Store
  imports Store
begin

text \<open>
  The persistent backend, \<open>server/store/sqlite.py\<close>. A table is the list of its
  rows in rowid order, keyed by its primary key. \<open>INSERT OR REPLACE\<close> deletes a
  conflicting row and appends the new one, \<open>UPDATE\<close> and the upsert change a row
  in place, and a scan without \<open>ORDER BY\<close> reads the rows in that order. A column
  written by \<open>json.dumps\<close> and read by \<open>json.loads\<close> holds the JSON
  value itself. The lock and the commits make each method one step. The last section
  relates the backend to the in-memory store: they answer every sequence of calls alike,
  up to the order of listings.
\<close>

section \<open>Tables and rows\<close>

definition sql_replace :: "'k \<Rightarrow> 'r \<Rightarrow> ('k \<times> 'r) list \<Rightarrow> ('k \<times> 'r) list" where
  "sql_replace k r t = AList.delete k t @ [(k, r)]"

definition sql_update :: "'k \<Rightarrow> ('r \<Rightarrow> 'r) \<Rightarrow> ('k \<times> 'r) list \<Rightarrow> ('k \<times> 'r) list" where
  "sql_update k f t = map (\<lambda>(k', r). (k', if k' = k then f r else r)) t"

definition sql_delete :: "'k \<Rightarrow> ('k \<times> 'r) list \<Rightarrow> ('k \<times> 'r) list" where
  "sql_delete k t = AList.delete k t"

record token_row =
  tk_identity_type :: string
  tk_identity_payload :: pydict
  tk_issued_at_unix :: int
  tk_expires_at_unix :: int

record agent_row =
  ag_public_key_b64 :: string
  ag_contact :: "string option"
  ag_enrolled_at_unix :: int

record orcid_key_row =
  kr_orcid_id :: string
  kr_public_key_b64 :: string
  kr_label :: string
  kr_created_at_unix :: int
  kr_revoked_at_unix :: "int option"

text \<open>Challenges and paste codes: a JSON payload and the column the schema indexes.\<close>

record code_row =
  cr_payload :: pydict
  cr_expires_at_unix :: int

record sqlite_db =
  db_tokens :: "(string \<times> token_row) list"
  db_agents :: "(string \<times> agent_row) list"
  db_orcid_keys :: "(string \<times> orcid_key_row) list"
  db_challenges :: "(string \<times> code_row) list"
  db_paste_codes :: "(string \<times> code_row) list"
  db_papers :: "(string \<times> pydict) list"
  db_cirs :: "(string \<times> pydict) list"
  db_claims :: "(string \<times> pydict) list"
  db_annotations :: "(string \<times> pydict) list"
  db_meta :: "(string \<times> pyval) list"
  db_idempotency :: "((string \<times> string) \<times> idempotency_entry) list"
  db_rate_window :: "(string \<times> int list) list"
  db_sources :: "(string \<times> bytes) list"
  db_rendered_pdfs :: "(string \<times> bytes) list"
  db_snapshot_blobs :: "(string \<times> bytes) list"
  db_claim_views :: "(string \<times> int) list"

text \<open>A fresh database: the schema's tables and the version stamp.\<close>

definition sql_init :: sqlite_db where
  "sql_init =
     \<lparr>db_tokens = [], db_agents = [], db_orcid_keys = [], db_challenges = [],
      db_paste_codes = [], db_papers = [], db_cirs = [], db_claims = [],
      db_annotations = [], db_meta = [(''schema_version'', PStr ''1'')],
      db_idempotency = [], db_rate_window = [], db_sources = [], db_rendered_pdfs = [],
      db_snapshot_blobs = [], db_claim_views = []\<rparr>"

section \<open>URLs\<close>

definition parse_store_url :: "string \<Rightarrow> string option" where
  "parse_store_url url =
     (let prefix = ''sqlite:///''
      in if \<not> startswith url prefix then None
         else let rest = drop (length prefix) url
              in if rest = '':memory:'' then Some '':memory:'' else Some rest)"

text \<open>\<open>store_from_url\<close>: which backend a URL selects.\<close>

datatype backend = MemoryBackend | SqliteBackend (sqlite_path: string)

definition store_from_url :: "string \<Rightarrow> pyexn + backend" where
  "store_from_url url =
     (if url = ''memory://'' then Inr MemoryBackend
      else case parse_store_url url of
        Some path \<Rightarrow> Inr (SqliteBackend path)
      | None \<Rightarrow> Inl ValueError)"

section \<open>Serialised identities and codes\<close>

fun identity_type_str :: "identity \<Rightarrow> string" where
  "identity_type_str (OrcidIdentity _) = ''orcid''"
| "identity_type_str (AgentIdentity _) = ''agent''"
| "identity_type_str (AnonymousIdentity _) = ''anonymous''"

fun identity_to_dict :: "identity \<Rightarrow> pydict" where
  "identity_to_dict (OrcidIdentity i) = [(''orcid_id'', PStr i)]"
| "identity_to_dict (AgentIdentity h) = [(''handle'', PStr h)]"
| "identity_to_dict (AnonymousIdentity c) = [(''challenge_id'', PStr c)]"

text \<open>
  \<open>Cls(**payload)\<close> with one field: a missing or unexpected keyword raises
  \<open>TypeError\<close>. Python would accept a field of another type than the declared
  one; no writer produces it, and it is counted as the same error here.
\<close>

definition one_str_field :: "string \<Rightarrow> pydict \<Rightarrow> pyexn + string" where
  "one_str_field k d = (case d of
       [(k', PStr v)] \<Rightarrow> if k' = k then Inr v else Inl TypeError
     | _ \<Rightarrow> Inl TypeError)"

definition identity_from_dict :: "string \<Rightarrow> pydict \<Rightarrow> pyexn + identity" where
  "identity_from_dict ty payload =
     (if ty = ''orcid'' then rbind (one_str_field ''orcid_id'' payload) (Inr \<circ> OrcidIdentity)
      else if ty = ''agent'' then rbind (one_str_field ''handle'' payload) (Inr \<circ> AgentIdentity)
      else rbind (one_str_field ''challenge_id'' payload) (Inr \<circ> AnonymousIdentity))"

lemma identity_round_trip [simp]:
  "identity_from_dict (identity_type_str i) (identity_to_dict i) = Inr i"
  by (cases i) (simp_all add: identity_from_dict_def one_str_field_def)

definition challenge_to_dict :: "challenge_record \<Rightarrow> pydict" where
  "challenge_to_dict r =
     [(''challenge_id'', PStr (ch_challenge_id r)), (''challenge_type'', PStr (ch_challenge_type r)),
      (''site_key'', PStr (ch_site_key r)), (''issued_at_unix'', PInt (ch_issued_at_unix r)),
      (''expires_at_unix'', PInt (ch_expires_at_unix r)), (''consumed'', PBool (ch_consumed r))]"

definition challenge_from_dict :: "pydict \<Rightarrow> pyexn + challenge_record" where
  "challenge_from_dict d = (case d of
       [(k1, PStr c), (k2, PStr ty), (k3, PStr sk), (k4, PInt i), (k5, PInt e), (k6, PBool u)] \<Rightarrow>
         if [k1, k2, k3, k4, k5, k6] = [''challenge_id'', ''challenge_type'', ''site_key'',
              ''issued_at_unix'', ''expires_at_unix'', ''consumed'']
         then Inr \<lparr>ch_challenge_id = c, ch_challenge_type = ty, ch_site_key = sk,
                   ch_issued_at_unix = i, ch_expires_at_unix = e, ch_consumed = u\<rparr>
         else Inl TypeError
     | _ \<Rightarrow> Inl TypeError)"

lemma challenge_round_trip [simp]: "challenge_from_dict (challenge_to_dict r) = Inr r"
  by (simp add: challenge_from_dict_def challenge_to_dict_def)

definition paste_code_to_dict :: "paste_code_entry \<Rightarrow> pydict" where
  "paste_code_to_dict e =
     [(''code'', PStr (pc_code e)), (''orcid_id'', PStr (pc_orcid_id e)),
      (''issued_at_unix'', PInt (pc_issued_at_unix e)),
      (''expires_at_unix'', PInt (pc_expires_at_unix e)), (''consumed'', PBool (pc_consumed e))]"

definition paste_code_from_dict :: "pydict \<Rightarrow> pyexn + paste_code_entry" where
  "paste_code_from_dict d = (case d of
       [(k1, PStr c), (k2, PStr oid), (k3, PInt i), (k4, PInt e), (k5, PBool u)] \<Rightarrow>
         if [k1, k2, k3, k4, k5] =
              [''code'', ''orcid_id'', ''issued_at_unix'', ''expires_at_unix'', ''consumed'']
         then Inr \<lparr>pc_code = c, pc_orcid_id = oid, pc_issued_at_unix = i,
                   pc_expires_at_unix = e, pc_consumed = u\<rparr>
         else Inl TypeError
     | _ \<Rightarrow> Inl TypeError)"

lemma paste_code_round_trip [simp]: "paste_code_from_dict (paste_code_to_dict e) = Inr e"
  by (simp add: paste_code_from_dict_def paste_code_to_dict_def)

section \<open>Tokens, agents and signing keys\<close>

definition sql_add_token :: "token_record \<Rightarrow> sqlite_db \<Rightarrow> sqlite_db" where
  "sql_add_token r q = q\<lparr>db_tokens := sql_replace (tr_token r)
     \<lparr>tk_identity_type = identity_type_str (tr_identity r),
      tk_identity_payload = identity_to_dict (tr_identity r),
      tk_issued_at_unix = tr_issued_at_unix r,
      tk_expires_at_unix = tr_expires_at_unix r\<rparr> (db_tokens q)\<rparr>"

definition sql_get_token :: "sqlite_db \<Rightarrow> string \<Rightarrow> pyexn + token_record option" where
  "sql_get_token q t = (case dict_get (db_tokens q) t of
      None \<Rightarrow> Inr None
    | Some row \<Rightarrow>
        rbind (identity_from_dict (tk_identity_type row) (tk_identity_payload row)) (\<lambda>i.
          Inr (Some \<lparr>tr_token = t, tr_identity = i, tr_issued_at_unix = tk_issued_at_unix row,
                     tr_expires_at_unix = tk_expires_at_unix row\<rparr>)))"

definition sql_revoke_token :: "string \<Rightarrow> sqlite_db \<Rightarrow> sqlite_db" where
  "sql_revoke_token t q = q\<lparr>db_tokens := sql_delete t (db_tokens q)\<rparr>"

definition sql_add_agent :: "agent_record \<Rightarrow> sqlite_db \<Rightarrow> sqlite_db" where
  "sql_add_agent r q = q\<lparr>db_agents := sql_replace (ar_handle r)
     \<lparr>ag_public_key_b64 = ar_public_key_b64 r, ag_contact = ar_contact r,
      ag_enrolled_at_unix = ar_enrolled_at_unix r\<rparr> (db_agents q)\<rparr>"

definition sql_get_agent :: "sqlite_db \<Rightarrow> string \<Rightarrow> agent_record option" where
  "sql_get_agent q h = map_option (\<lambda>row.
      \<lparr>ar_handle = h, ar_public_key_b64 = ag_public_key_b64 row, ar_contact = ag_contact row,
       ar_enrolled_at_unix = ag_enrolled_at_unix row\<rparr>) (dict_get (db_agents q) h)"

definition sql_add_orcid_key :: "orcid_key_record \<Rightarrow> sqlite_db \<Rightarrow> sqlite_db" where
  "sql_add_orcid_key r q = q\<lparr>db_orcid_keys := sql_replace (ok_key_id r)
     \<lparr>kr_orcid_id = ok_orcid_id r, kr_public_key_b64 = ok_public_key_b64 r,
      kr_label = ok_label r, kr_created_at_unix = ok_created_at_unix r,
      kr_revoked_at_unix = ok_revoked_at_unix r\<rparr> (db_orcid_keys q)\<rparr>"

definition orcid_key_of_row :: "string \<times> orcid_key_row \<Rightarrow> orcid_key_record" where
  "orcid_key_of_row = (\<lambda>(k, row).
     \<lparr>ok_orcid_id = kr_orcid_id row, ok_key_id = k, ok_public_key_b64 = kr_public_key_b64 row,
      ok_label = kr_label row, ok_created_at_unix = kr_created_at_unix row,
      ok_revoked_at_unix = kr_revoked_at_unix row\<rparr>)"

definition sql_get_orcid_key :: "sqlite_db \<Rightarrow> string \<Rightarrow> orcid_key_record option" where
  "sql_get_orcid_key q k = map_option (\<lambda>row. orcid_key_of_row (k, row)) (dict_get (db_orcid_keys q) k)"

definition sql_list_orcid_keys :: "sqlite_db \<Rightarrow> string \<Rightarrow> bool \<Rightarrow> orcid_key_record list" where
  "sql_list_orcid_keys q oid include_revoked =
     (let rows = filter (\<lambda>(k, row). kr_orcid_id row = oid \<and>
                    (include_revoked \<or> kr_revoked_at_unix row = None)) (db_orcid_keys q)
      in map orcid_key_of_row (sort_key (\<lambda>(k, row). - kr_created_at_unix row) rows))"

definition sql_revoke_orcid_key :: "string \<Rightarrow> int \<Rightarrow> sqlite_db \<Rightarrow> sqlite_db" where
  "sql_revoke_orcid_key k now q = q\<lparr>db_orcid_keys :=
     sql_update k (\<lambda>row. if kr_revoked_at_unix row = None
        then row\<lparr>kr_revoked_at_unix := Some now\<rparr> else row) (db_orcid_keys q)\<rparr>"

section \<open>Challenges and paste codes\<close>

definition sql_add_challenge :: "challenge_record \<Rightarrow> sqlite_db \<Rightarrow> sqlite_db" where
  "sql_add_challenge r q = q\<lparr>db_challenges := sql_replace (ch_challenge_id r)
     \<lparr>cr_payload = challenge_to_dict r, cr_expires_at_unix = ch_expires_at_unix r\<rparr>
     (db_challenges q)\<rparr>"

definition sql_get_challenge :: "sqlite_db \<Rightarrow> string \<Rightarrow> pyexn + challenge_record option" where
  "sql_get_challenge q c = (case dict_get (db_challenges q) c of
      None \<Rightarrow> Inr None
    | Some row \<Rightarrow> rbind (challenge_from_dict (cr_payload row)) (Inr \<circ> Some))"

definition sql_consume_challenge :: "string \<Rightarrow> sqlite_db \<Rightarrow> pyexn + sqlite_db" where
  "sql_consume_challenge c q = rbind (sql_get_challenge q c) (\<lambda>existing.
     case existing of
       None \<Rightarrow> Inr q
     | Some r \<Rightarrow> Inr (sql_add_challenge (r\<lparr>ch_consumed := True\<rparr>) q))"

definition sql_add_paste_code :: "paste_code_entry \<Rightarrow> sqlite_db \<Rightarrow> sqlite_db" where
  "sql_add_paste_code e q = q\<lparr>db_paste_codes := sql_replace (pc_code e)
     \<lparr>cr_payload = paste_code_to_dict e, cr_expires_at_unix = pc_expires_at_unix e\<rparr>
     (db_paste_codes q)\<rparr>"

definition sql_get_paste_code :: "sqlite_db \<Rightarrow> string \<Rightarrow> pyexn + paste_code_entry option" where
  "sql_get_paste_code q c = (case dict_get (db_paste_codes q) c of
      None \<Rightarrow> Inr None
    | Some row \<Rightarrow> rbind (paste_code_from_dict (cr_payload row)) (Inr \<circ> Some))"

definition sql_consume_paste_code :: "string \<Rightarrow> sqlite_db \<Rightarrow> pyexn + sqlite_db" where
  "sql_consume_paste_code c q = rbind (sql_get_paste_code q c) (\<lambda>existing.
     case existing of
       None \<Rightarrow> Inr q
     | Some e \<Rightarrow> Inr (sql_add_paste_code (e\<lparr>pc_consumed := True\<rparr>) q))"

section \<open>Papers, claims, annotations\<close>

definition sql_add_paper :: "pydict \<Rightarrow> sqlite_db \<Rightarrow> pyexn + sqlite_db" where
  "sql_add_paper p q = rbind (item_id p) (\<lambda>i. Inr (q\<lparr>db_papers := sql_replace i p (db_papers q)\<rparr>))"

definition sql_get_paper :: "sqlite_db \<Rightarrow> string \<Rightarrow> pydict option" where
  "sql_get_paper q i = dict_get (db_papers q) i"

definition sql_list_papers :: "sqlite_db \<Rightarrow> pydict list" where
  "sql_list_papers q = map snd (db_papers q)"

definition sql_add_cir :: "pydict \<Rightarrow> sqlite_db \<Rightarrow> pyexn + sqlite_db" where
  "sql_add_cir p q = rbind (item_id p) (\<lambda>i. Inr (q\<lparr>db_cirs := sql_replace i p (db_cirs q)\<rparr>))"

definition sql_get_cir :: "sqlite_db \<Rightarrow> string \<Rightarrow> pydict option" where
  "sql_get_cir q i = dict_get (db_cirs q) i"

definition sql_add_claim :: "pydict \<Rightarrow> sqlite_db \<Rightarrow> pyexn + sqlite_db" where
  "sql_add_claim p q = rbind (item_id p) (\<lambda>i. Inr (q\<lparr>db_claims := sql_replace i p (db_claims q)\<rparr>))"

definition sql_get_claim :: "sqlite_db \<Rightarrow> string \<Rightarrow> pydict option" where
  "sql_get_claim q i = dict_get (db_claims q) i"

definition sql_list_claims :: "sqlite_db \<Rightarrow> pydict list" where
  "sql_list_claims q = map snd (db_claims q)"

definition sql_add_annotation :: "pydict \<Rightarrow> sqlite_db \<Rightarrow> pyexn + sqlite_db" where
  "sql_add_annotation p q =
     rbind (item_id p) (\<lambda>i. Inr (q\<lparr>db_annotations := sql_replace i p (db_annotations q)\<rparr>))"

definition sql_get_annotation :: "sqlite_db \<Rightarrow> string \<Rightarrow> pydict option" where
  "sql_get_annotation q i = dict_get (db_annotations q) i"

definition sql_list_annotations :: "sqlite_db \<Rightarrow> pydict list" where
  "sql_list_annotations q = map snd (db_annotations q)"

text \<open>The upsert of a view counter, and the count it then reads back.\<close>

definition sql_get_claim_views :: "sqlite_db \<Rightarrow> string \<Rightarrow> int" where
  "sql_get_claim_views q c = (case dict_get (db_claim_views q) c of None \<Rightarrow> 0 | Some n \<Rightarrow> n)"

definition sql_bump_claim_view :: "string \<Rightarrow> sqlite_db \<Rightarrow> int \<times> sqlite_db" where
  "sql_bump_claim_view c q =
     (let t = db_claim_views q;
          t' = (if dict_has t c then sql_update c (\<lambda>n. n + 1) t else t @ [(c, 1)]);
          q' = q\<lparr>db_claim_views := t'\<rparr>
      in (sql_get_claim_views q' c, q'))"

definition sql_list_claim_views :: "sqlite_db \<Rightarrow> (string \<times> int) list" where
  "sql_list_claim_views q = db_claim_views q"

section \<open>Blobs, idempotency keys, snapshots, request windows\<close>

definition sql_save_source :: "string \<Rightarrow> bytes \<Rightarrow> sqlite_db \<Rightarrow> string \<times> sqlite_db" where
  "sql_save_source i b q =
     (''/api/v0/papers/'' @ i @ ''/source'', q\<lparr>db_sources := sql_replace i b (db_sources q)\<rparr>)"

definition sql_load_source :: "sqlite_db \<Rightarrow> string \<Rightarrow> bytes option" where
  "sql_load_source q i = dict_get (db_sources q) i"

definition sql_save_rendered_pdf :: "string \<Rightarrow> bytes \<Rightarrow> sqlite_db \<Rightarrow> string \<times> sqlite_db" where
  "sql_save_rendered_pdf i b q =
     (''/api/v0/papers/'' @ i @ ''/pdf'',
      q\<lparr>db_rendered_pdfs := sql_replace i b (db_rendered_pdfs q)\<rparr>)"

definition sql_load_rendered_pdf :: "sqlite_db \<Rightarrow> string \<Rightarrow> bytes option" where
  "sql_load_rendered_pdf q i = dict_get (db_rendered_pdfs q) i"

definition sql_save_snapshot_blob :: "string \<Rightarrow> bytes \<Rightarrow> sqlite_db \<Rightarrow> string \<times> sqlite_db" where
  "sql_save_snapshot_blob i b q =
     (''/api/v0/snapshots/'' @ i, q\<lparr>db_snapshot_blobs := sql_replace i b (db_snapshot_blobs q)\<rparr>)"

definition sql_load_snapshot_blob :: "sqlite_db \<Rightarrow> string \<Rightarrow> bytes option" where
  "sql_load_snapshot_blob q i = dict_get (db_snapshot_blobs q) i"

definition sql_get_idempotency :: "sqlite_db \<Rightarrow> string \<Rightarrow> string \<Rightarrow> idempotency_entry option" where
  "sql_get_idempotency q t k = dict_get (db_idempotency q) (t, k)"

definition sql_add_idempotency ::
  "string \<Rightarrow> string \<Rightarrow> idempotency_entry \<Rightarrow> sqlite_db \<Rightarrow> sqlite_db" where
  "sql_add_idempotency t k e q = q\<lparr>db_idempotency := sql_replace (t, k) e (db_idempotency q)\<rparr>"

definition sql_latest_snapshot :: "sqlite_db \<Rightarrow> pyval option" where
  "sql_latest_snapshot q = dict_get (db_meta q) ''latest_snapshot''"

definition sql_set_latest_snapshot :: "pydict \<Rightarrow> sqlite_db \<Rightarrow> sqlite_db" where
  "sql_set_latest_snapshot m q =
     q\<lparr>db_meta := sql_replace ''latest_snapshot'' (PDict m) (db_meta q)\<rparr>"

definition sql_record_request :: "string \<Rightarrow> int \<Rightarrow> sqlite_db \<Rightarrow> int \<times> sqlite_db" where
  "sql_record_request b now q =
     (let w = (case dict_get (db_rate_window q) b of None \<Rightarrow> [] | Some w \<Rightarrow> w);
          w' = slide now w
      in (int (length w'), q\<lparr>db_rate_window := sql_replace b w' (db_rate_window q)\<rparr>))"

section \<open>Corpus management\<close>

definition sql_clear_corpus :: "sqlite_db \<Rightarrow> sqlite_db" where
  "sql_clear_corpus q = q\<lparr>db_papers := [], db_cirs := [], db_claims := [], db_annotations := [],
     db_sources := [], db_rendered_pdfs := [], db_claim_views := []\<rparr>"

text \<open>The scan of the claim rows, deleting as it goes; the rows were fetched before.\<close>

fun sql_drop_claims :: "pyval list \<Rightarrow> (string \<times> pydict) list \<Rightarrow> sqlite_db \<Rightarrow> pyexn + sqlite_db" where
  "sql_drop_claims owners [] q = Inr q"
| "sql_drop_claims owners ((cid, c) # rows) q =
     rbind (in_owner_keys owners (dget c ''paper_id'')) (\<lambda>hit.
       sql_drop_claims owners rows
         (if hit then q\<lparr>db_claims := sql_delete cid (db_claims q),
                        db_claim_views := sql_delete cid (db_claim_views q)\<rparr> else q))"

definition sql_replace_seed_paper :: "string \<Rightarrow> sqlite_db \<Rightarrow> pyexn + sqlite_db" where
  "sql_replace_seed_paper pid q =
     rbind (owner_keys_of (dict_get (db_papers q) pid) pid) (\<lambda>owners.
     rbind (sql_drop_claims owners (db_claims q) q) (\<lambda>q'.
       Inr (q'\<lparr>db_papers := sql_delete pid (db_papers q'), db_cirs := sql_delete pid (db_cirs q'),
              db_sources := sql_delete pid (db_sources q'),
              db_rendered_pdfs := sql_delete pid (db_rendered_pdfs q')\<rparr>)))"

fun sql_replace_seed_papers :: "string list \<Rightarrow> sqlite_db \<Rightarrow> pyexn + sqlite_db" where
  "sql_replace_seed_papers [] q = Inr q"
| "sql_replace_seed_papers (pid # pids) q =
     rbind (sql_replace_seed_paper pid q) (sql_replace_seed_papers pids)"

lemmas sql_op_defs =
  sql_add_token_def sql_get_token_def sql_revoke_token_def sql_add_agent_def sql_get_agent_def
  sql_add_orcid_key_def sql_get_orcid_key_def sql_revoke_orcid_key_def
  sql_add_challenge_def sql_get_challenge_def sql_consume_challenge_def
  sql_add_paste_code_def sql_get_paste_code_def sql_consume_paste_code_def

section \<open>Facts about tables\<close>

lemma dict_get_append_fresh: "dict_get (d @ [(k, v)]) k' =
    (case dict_get d k' of Some w \<Rightarrow> Some w | None \<Rightarrow> if k' = k then Some v else None)"
  by (simp add: map_add_def split: option.splits)

lemma dict_get_replace [dict_simps, simp]:
  "dict_get (sql_replace k r t) k' = (if k' = k then Some r else dict_get t k')"
  by (simp add: sql_replace_def map_add_def delete_conv' split: option.splits)

lemma dict_get_delete [dict_simps, simp]:
  "dict_get (sql_delete k t) k' = (if k' = k then None else dict_get t k')"
  by (simp add: sql_delete_def delete_conv')

lemma dict_get_sql_update [dict_simps, simp]:
  "dict_get (sql_update k f t) k' =
     (if k' = k then map_option f (dict_get t k) else dict_get t k')"
  by (induction t) (auto simp: sql_update_def)

lemma wf_sql_replace [intro, simp]: "wf_dict t \<Longrightarrow> wf_dict (sql_replace k r t)"
  by (auto simp: sql_replace_def AList.delete_eq image_iff intro: distinct_map_filter)

lemma wf_sql_delete [intro, simp]: "wf_dict t \<Longrightarrow> wf_dict (sql_delete k t)"
  by (simp add: sql_delete_def distinct_delete)

lemma wf_sql_update [intro, simp]: "wf_dict t \<Longrightarrow> wf_dict (sql_update k f t)"
proof -
  have "map fst (sql_update k f t) = map fst t" by (auto simp: sql_update_def)
  then show "wf_dict t \<Longrightarrow> wf_dict (sql_update k f t)" by metis
qed

section \<open>The persistent store implements the contracts\<close>

interpretation sql_tokens: revocable_table sql_add_token sql_get_token tr_token sql_revoke_token
  by unfold_locales (simp_all add: sql_op_defs)

interpretation sql_agents: record_table sql_add_agent "\<lambda>q h. Inr (sql_get_agent q h) :: pyexn + _"
  ar_handle
  by unfold_locales (simp add: sql_op_defs)

interpretation sql_orcid_keys: key_registry sql_add_orcid_key
  "\<lambda>q k. Inr (sql_get_orcid_key q k) :: pyexn + _" ok_key_id sql_revoke_orcid_key
  ok_revoked_at_unix "\<lambda>t r. r\<lparr>ok_revoked_at_unix := Some t\<rparr>"
  by unfold_locales
     (auto simp: sql_op_defs orcid_key_of_row_def option.map_comp o_def split: option.splits)

definition db_window_of :: "sqlite_db \<Rightarrow> string \<Rightarrow> int list" where
  "db_window_of q b = (case dict_get (db_rate_window q) b of None \<Rightarrow> [] | Some w \<Rightarrow> w)"

interpretation sql_window: request_window "\<lambda>b now q. Inr (sql_record_request b now q) :: pyexn + _"
  db_window_of "\<lambda>q. True"
  by unfold_locales (auto simp: sql_record_request_def db_window_of_def Let_def split: option.splits)

text \<open>
  The payloads the backend writes decode, and name their own row: the state invariant
  under which consuming a code works.
\<close>

definition coded_challenges :: "sqlite_db \<Rightarrow> bool" where
  "coded_challenges q = list_all (\<lambda>(k, row).
     case challenge_from_dict (cr_payload row) of
       Inl _ \<Rightarrow> False | Inr r \<Rightarrow> ch_challenge_id r = k) (db_challenges q)"

definition coded_paste_codes :: "sqlite_db \<Rightarrow> bool" where
  "coded_paste_codes q = list_all (\<lambda>(k, row).
     case paste_code_from_dict (cr_payload row) of
       Inl _ \<Rightarrow> False | Inr r \<Rightarrow> pc_code r = k) (db_paste_codes q)"

lemma list_all_sql_replace:
  "list_all P t \<Longrightarrow> P (k, r) \<Longrightarrow> list_all P (sql_replace k r t)"
  by (auto simp: sql_replace_def AList.delete_eq list_all_iff)

lemma coded_challengesD:
  "coded_challenges q \<Longrightarrow> dict_get (db_challenges q) c = Some row \<Longrightarrow>
    \<exists>r. challenge_from_dict (cr_payload row) = Inr r \<and> ch_challenge_id r = c"
  by (cases "challenge_from_dict (cr_payload row)") (auto simp: coded_challenges_def list_all_iff dest!: map_of_SomeD bspec)

lemma coded_paste_codesD:
  "coded_paste_codes q \<Longrightarrow> dict_get (db_paste_codes q) c = Some row \<Longrightarrow>
    \<exists>r. paste_code_from_dict (cr_payload row) = Inr r \<and> pc_code r = c"
  by (cases "paste_code_from_dict (cr_payload row)") (auto simp: coded_paste_codes_def list_all_iff dest!: map_of_SomeD bspec)

lemma coded_add_challenge: "coded_challenges q \<Longrightarrow> coded_challenges (sql_add_challenge r q)"
  by (simp add: coded_challenges_def sql_add_challenge_def list_all_sql_replace)

lemma coded_add_paste_code: "coded_paste_codes q \<Longrightarrow> coded_paste_codes (sql_add_paste_code e q)"
  by (simp add: coded_paste_codes_def sql_add_paste_code_def list_all_sql_replace)

interpretation sql_challenges: single_use_table sql_add_challenge sql_get_challenge ch_challenge_id
  sql_consume_challenge ch_consumed "\<lambda>r. r\<lparr>ch_consumed := True\<rparr>" coded_challenges
proof unfold_locales
  fix s c r
  assume ok: "coded_challenges s" and "sql_get_challenge s c = Inr (Some r)"
  then have c: "sql_get_challenge s c = Inr (Some r)" "ch_challenge_id r = c"
    using coded_challengesD [OF ok, of c]
    by (auto simp: sql_get_challenge_def split: option.splits)
  then show "\<exists>s'. sql_consume_challenge c s = Inr s' \<and> coded_challenges s' \<and>
    (\<forall>k. sql_get_challenge s' k =
      (if k = c then Inr (Some (r\<lparr>ch_consumed := True\<rparr>)) else sql_get_challenge s k))"
    using coded_add_challenge [OF ok]
    by (simp add: sql_consume_challenge_def) (simp add: sql_add_challenge_def sql_get_challenge_def)
next
  fix s c assume ok: "coded_challenges s"
  then show "\<exists>r. sql_get_challenge s c = Inr r"
    using coded_challengesD [OF ok, of c] by (fastforce simp: sql_get_challenge_def split: option.splits)
qed (simp_all add: coded_add_challenge, simp_all add: sql_op_defs)

interpretation sql_paste_codes: single_use_table sql_add_paste_code sql_get_paste_code pc_code
  sql_consume_paste_code pc_consumed "\<lambda>r. r\<lparr>pc_consumed := True\<rparr>" coded_paste_codes
proof unfold_locales
  fix s c r
  assume ok: "coded_paste_codes s" and "sql_get_paste_code s c = Inr (Some r)"
  then have c: "sql_get_paste_code s c = Inr (Some r)" "pc_code r = c"
    using coded_paste_codesD [OF ok, of c]
    by (auto simp: sql_get_paste_code_def split: option.splits)
  then show "\<exists>s'. sql_consume_paste_code c s = Inr s' \<and> coded_paste_codes s' \<and>
    (\<forall>k. sql_get_paste_code s' k =
      (if k = c then Inr (Some (r\<lparr>pc_consumed := True\<rparr>)) else sql_get_paste_code s k))"
    using coded_add_paste_code [OF ok]
    by (simp add: sql_consume_paste_code_def) (simp add: sql_add_paste_code_def sql_get_paste_code_def)
next
  fix s c assume ok: "coded_paste_codes s"
  then show "\<exists>r. sql_get_paste_code s c = Inr r"
    using coded_paste_codesD [OF ok, of c] by (fastforce simp: sql_get_paste_code_def split: option.splits)
qed (simp_all add: coded_add_paste_code, simp_all add: sql_op_defs)

end
