(* ===== verification/Store_Protocol.thy ===== *)
theory Store_Protocol
  imports Sqlite_Store
begin

text \<open>
  The \<open>Store\<close> protocol as a datatype of calls, what each backend answers to a
  call, and sessions of calls. Listings are answered as multisets: the protocol does
  not fix their order.
\<close>

section \<open>The protocol\<close>

datatype store_cmd =
    AddToken token_record | GetToken string | RevokeToken string
  | AddAgent agent_record | GetAgent string
  | AddOrcidKey orcid_key_record | GetOrcidKey string | ListOrcidKeys string bool
  | RevokeOrcidKey string int
  | AddChallenge challenge_record | GetChallenge string | ConsumeChallenge string
  | AddPasteCode paste_code_entry | GetPasteCode string | ConsumePasteCode string
  | AddPaper pydict | GetPaper string | ListPapers | AddCir pydict | GetCir string
  | AddClaim pydict | GetClaim string | ListClaims
  | BumpClaimView string | GetClaimViews string | ListClaimViews
  | AddAnnotation pydict | GetAnnotation string | ListAnnotations
  | GetIdempotency string string | AddIdempotency string string idempotency_entry
  | SaveSource string bytes | LoadSource string
  | SaveRenderedPdf string bytes | LoadRenderedPdf string
  | LatestSnapshot | SetLatestSnapshot pydict
  | SaveSnapshotBlob string bytes | LoadSnapshotBlob string
  | RecordRequest string int
  | ClearCorpus | ReplaceSeedPapers "string list"

datatype answer =
    ADone
  | AToken "token_record option"
  | AAgent "agent_record option"
  | AKey "orcid_key_record option"
  | AKeys "orcid_key_record multiset"
  | AChallenge "challenge_record option"
  | APasteCode "paste_code_entry option"
  | ADoc "pydict option"
  | ADocs "pydict multiset"
  | ACount int
  | ACounts "(string \<times> int) multiset"
  | AIdem "idempotency_entry option"
  | APath string
  | ABlob "bytes option"
  | ASnapshot "pyval option"

abbreviation answered :: "('s \<Rightarrow> answer) \<Rightarrow> 's \<Rightarrow> pyexn + answer \<times> 's" where
  "answered f s \<equiv> Inr (f s, s)"

abbreviation done_with :: "'s \<Rightarrow> pyexn + answer \<times> 's" where
  "done_with s \<equiv> Inr (ADone, s)"

text \<open>Each call, on the in-memory store.\<close>

fun mem_exec :: "store_cmd \<Rightarrow> store_state \<Rightarrow> pyexn + answer \<times> store_state" where
  "mem_exec (AddToken r) s = done_with (add_token r s)"
| "mem_exec (GetToken t) s = answered (\<lambda>s. AToken (get_token s t)) s"
| "mem_exec (RevokeToken t) s = done_with (revoke_token t s)"
| "mem_exec (AddAgent r) s = done_with (add_agent r s)"
| "mem_exec (GetAgent h) s = answered (\<lambda>s. AAgent (get_agent s h)) s"
| "mem_exec (AddOrcidKey r) s = done_with (add_orcid_key r s)"
| "mem_exec (GetOrcidKey k) s = answered (\<lambda>s. AKey (get_orcid_key s k)) s"
| "mem_exec (ListOrcidKeys i b) s = answered (\<lambda>s. AKeys (mset (list_orcid_keys s i b))) s"
| "mem_exec (RevokeOrcidKey k t) s = done_with (revoke_orcid_key k t s)"
| "mem_exec (AddChallenge r) s = done_with (add_challenge r s)"
| "mem_exec (GetChallenge c) s = answered (\<lambda>s. AChallenge (get_challenge s c)) s"
| "mem_exec (ConsumeChallenge c) s = done_with (consume_challenge c s)"
| "mem_exec (AddPasteCode e) s = done_with (add_paste_code e s)"
| "mem_exec (GetPasteCode c) s = answered (\<lambda>s. APasteCode (get_paste_code s c)) s"
| "mem_exec (ConsumePasteCode c) s = done_with (consume_paste_code c s)"
| "mem_exec (AddPaper d) s = rbind (add_paper d s) (\<lambda>s. done_with s)"
| "mem_exec (GetPaper i) s = answered (\<lambda>s. ADoc (get_paper s i)) s"
| "mem_exec ListPapers s = answered (\<lambda>s. ADocs (mset (list_papers s))) s"
| "mem_exec (AddCir d) s = rbind (add_cir d s) (\<lambda>s. done_with s)"
| "mem_exec (GetCir i) s = answered (\<lambda>s. ADoc (get_cir s i)) s"
| "mem_exec (AddClaim d) s = rbind (add_claim d s) (\<lambda>s. done_with s)"
| "mem_exec (GetClaim i) s = answered (\<lambda>s. ADoc (get_claim s i)) s"
| "mem_exec ListClaims s = answered (\<lambda>s. ADocs (mset (list_claims s))) s"
| "mem_exec (BumpClaimView c) s = (case bump_claim_view c s of (n, s') \<Rightarrow> Inr (ACount n, s'))"
| "mem_exec (GetClaimViews c) s = answered (\<lambda>s. ACount (get_claim_views s c)) s"
| "mem_exec ListClaimViews s = answered (\<lambda>s. ACounts (mset (list_claim_views s))) s"
| "mem_exec (AddAnnotation d) s = rbind (add_annotation d s) (\<lambda>s. done_with s)"
| "mem_exec (GetAnnotation i) s = answered (\<lambda>s. ADoc (get_annotation s i)) s"
| "mem_exec ListAnnotations s = answered (\<lambda>s. ADocs (mset (list_annotations s))) s"
| "mem_exec (GetIdempotency t k) s = answered (\<lambda>s. AIdem (get_idempotency s t k)) s"
| "mem_exec (AddIdempotency t k e) s = done_with (add_idempotency t k e s)"
| "mem_exec (SaveSource i b) s = (case save_source i b s of (p, s') \<Rightarrow> Inr (APath p, s'))"
| "mem_exec (LoadSource i) s = answered (\<lambda>s. ABlob (load_source s i)) s"
| "mem_exec (SaveRenderedPdf i b) s = (case save_rendered_pdf i b s of (p, s') \<Rightarrow> Inr (APath p, s'))"
| "mem_exec (LoadRenderedPdf i) s = answered (\<lambda>s. ABlob (load_rendered_pdf s i)) s"
| "mem_exec LatestSnapshot s = answered (\<lambda>s. ASnapshot (map_option PDict (latest_snapshot s))) s"
| "mem_exec (SetLatestSnapshot d) s = done_with (set_latest_snapshot d s)"
| "mem_exec (SaveSnapshotBlob i b) s = (case save_snapshot_blob i b s of (p, s') \<Rightarrow> Inr (APath p, s'))"
| "mem_exec (LoadSnapshotBlob i) s = answered (\<lambda>s. ABlob (load_snapshot_blob s i)) s"
| "mem_exec (RecordRequest b t) s = (case record_request b t s of (n, s') \<Rightarrow> Inr (ACount n, s'))"
| "mem_exec ClearCorpus s = done_with (clear_corpus s)"
| "mem_exec (ReplaceSeedPapers ids) s = rbind (replace_seed_papers ids s) (\<lambda>s. done_with s)"

text \<open>Each call, on the database.\<close>

fun sql_exec :: "store_cmd \<Rightarrow> sqlite_db \<Rightarrow> pyexn + answer \<times> sqlite_db" where
  "sql_exec (AddToken r) q = done_with (sql_add_token r q)"
| "sql_exec (GetToken t) q = rbind (sql_get_token q t) (\<lambda>r. Inr (AToken r, q))"
| "sql_exec (RevokeToken t) q = done_with (sql_revoke_token t q)"
| "sql_exec (AddAgent r) q = done_with (sql_add_agent r q)"
| "sql_exec (GetAgent h) q = answered (\<lambda>q. AAgent (sql_get_agent q h)) q"
| "sql_exec (AddOrcidKey r) q = done_with (sql_add_orcid_key r q)"
| "sql_exec (GetOrcidKey k) q = answered (\<lambda>q. AKey (sql_get_orcid_key q k)) q"
| "sql_exec (ListOrcidKeys i b) q = answered (\<lambda>q. AKeys (mset (sql_list_orcid_keys q i b))) q"
| "sql_exec (RevokeOrcidKey k t) q = done_with (sql_revoke_orcid_key k t q)"
| "sql_exec (AddChallenge r) q = done_with (sql_add_challenge r q)"
| "sql_exec (GetChallenge c) q = rbind (sql_get_challenge q c) (\<lambda>r. Inr (AChallenge r, q))"
| "sql_exec (ConsumeChallenge c) q = rbind (sql_consume_challenge c q) (\<lambda>q. done_with q)"
| "sql_exec (AddPasteCode e) q = done_with (sql_add_paste_code e q)"
| "sql_exec (GetPasteCode c) q = rbind (sql_get_paste_code q c) (\<lambda>r. Inr (APasteCode r, q))"
| "sql_exec (ConsumePasteCode c) q = rbind (sql_consume_paste_code c q) (\<lambda>q. done_with q)"
| "sql_exec (AddPaper d) q = rbind (sql_add_paper d q) (\<lambda>q. done_with q)"
| "sql_exec (GetPaper i) q = answered (\<lambda>q. ADoc (sql_get_paper q i)) q"
| "sql_exec ListPapers q = answered (\<lambda>q. ADocs (mset (sql_list_papers q))) q"
| "sql_exec (AddCir d) q = rbind (sql_add_cir d q) (\<lambda>q. done_with q)"
| "sql_exec (GetCir i) q = answered (\<lambda>q. ADoc (sql_get_cir q i)) q"
| "sql_exec (AddClaim d) q = rbind (sql_add_claim d q) (\<lambda>q. done_with q)"
| "sql_exec (GetClaim i) q = answered (\<lambda>q. ADoc (sql_get_claim q i)) q"
| "sql_exec ListClaims q = answered (\<lambda>q. ADocs (mset (sql_list_claims q))) q"
| "sql_exec (BumpClaimView c) q = (case sql_bump_claim_view c q of (n, q') \<Rightarrow> Inr (ACount n, q'))"
| "sql_exec (GetClaimViews c) q = answered (\<lambda>q. ACount (sql_get_claim_views q c)) q"
| "sql_exec ListClaimViews q = answered (\<lambda>q. ACounts (mset (sql_list_claim_views q))) q"
| "sql_exec (AddAnnotation d) q = rbind (sql_add_annotation d q) (\<lambda>q. done_with q)"
| "sql_exec (GetAnnotation i) q = answered (\<lambda>q. ADoc (sql_get_annotation q i)) q"
| "sql_exec ListAnnotations q = answered (\<lambda>q. ADocs (mset (sql_list_annotations q))) q"
| "sql_exec (GetIdempotency t k) q = answered (\<lambda>q. AIdem (sql_get_idempotency q t k)) q"
| "sql_exec (AddIdempotency t k e) q = done_with (sql_add_idempotency t k e q)"
| "sql_exec (SaveSource i b) q = (case sql_save_source i b q of (p, q') \<Rightarrow> Inr (APath p, q'))"
| "sql_exec (LoadSource i) q = answered (\<lambda>q. ABlob (sql_load_source q i)) q"
| "sql_exec (SaveRenderedPdf i b) q =
     (case sql_save_rendered_pdf i b q of (p, q') \<Rightarrow> Inr (APath p, q'))"
| "sql_exec (LoadRenderedPdf i) q = answered (\<lambda>q. ABlob (sql_load_rendered_pdf q i)) q"
| "sql_exec LatestSnapshot q = answered (\<lambda>q. ASnapshot (sql_latest_snapshot q)) q"
| "sql_exec (SetLatestSnapshot d) q = done_with (sql_set_latest_snapshot d q)"
| "sql_exec (SaveSnapshotBlob i b) q =
     (case sql_save_snapshot_blob i b q of (p, q') \<Rightarrow> Inr (APath p, q'))"
| "sql_exec (LoadSnapshotBlob i) q = answered (\<lambda>q. ABlob (sql_load_snapshot_blob q i)) q"
| "sql_exec (RecordRequest b t) q = (case sql_record_request b t q of (n, q') \<Rightarrow> Inr (ACount n, q'))"
| "sql_exec ClearCorpus q = done_with (sql_clear_corpus q)"
| "sql_exec (ReplaceSeedPapers ids) q = rbind (sql_replace_seed_papers ids q) (\<lambda>q. done_with q)"

text \<open>A session: the answers up to the first exception.\<close>

fun session :: "(store_cmd \<Rightarrow> 's \<Rightarrow> pyexn + answer \<times> 's) \<Rightarrow> store_cmd list \<Rightarrow> 's \<Rightarrow> (pyexn + answer) list" where
  "session exec [] s = []"
| "session exec (c # cs) s =
     (case exec c s of
        Inl e \<Rightarrow> [Inl e]
      | Inr (a, s') \<Rightarrow> Inr a # session exec cs s')"

end
