(* ===== verification/Store_Refinement.thy ===== *)
theory Store_Refinement
  imports Store_Protocol
begin

text \<open>
  The two backends behave alike. The relation \<open>same_store\<close> pairs an in-memory
  state with a database that holds the same rows, in any order; every call of the
  \<open>Store\<close> protocol, run on both, raises the same exception or returns the same
  answer and keeps the relation, so every session of calls is answered alike.
\<close>

section \<open>Equal tables\<close>

definition same_rows :: "('k \<times> 'v) list \<Rightarrow> ('k \<times> 'v) list \<Rightarrow> bool" where
  "same_rows d t \<longleftrightarrow> wf_dict d \<and> wf_dict t \<and> dict_get d = dict_get t"

definition encode_rows :: "('v \<Rightarrow> 'w) \<Rightarrow> ('k \<times> 'v) list \<Rightarrow> ('k \<times> 'w) list" where
  "encode_rows enc d = map (\<lambda>(k, r). (k, enc r)) d"

definition keyed :: "('v \<Rightarrow> 'k) \<Rightarrow> ('k \<times> 'v) list \<Rightarrow> bool" where
  "keyed key d \<longleftrightarrow> (\<forall>k r. dict_get d k = Some r \<longrightarrow> key r = k)"

lemma same_rows_nil [simp]: "same_rows [] []"
  by (simp add: same_rows_def)

lemma same_rows_get: "same_rows d t \<Longrightarrow> dict_get t k = dict_get d k"
  by (simp add: same_rows_def)

lemma same_rows_mset: "same_rows d t \<Longrightarrow> mset t = mset d"
proof -
  assume s: "same_rows d t"
  have "x \<in> set d \<longleftrightarrow> x \<in> set t" for x
    using s map_of_eq_Some_iff [of d "fst x" "snd x"] map_of_eq_Some_iff [of t "fst x" "snd x"]
    by (simp add: same_rows_def)
  with s have "set d = set t" "distinct d" "distinct t"
    by (auto simp: same_rows_def distinct_map)
  then show ?thesis by (metis set_eq_iff_mset_eq_distinct)
qed

lemma same_rows_set [intro]: "same_rows d t \<Longrightarrow> same_rows (dict_set k v d) (sql_replace k v t)"
  by (auto simp: same_rows_def fun_eq_iff)

lemma same_rows_pop [intro]: "same_rows d t \<Longrightarrow> same_rows (dict_pop k d) (sql_delete k t)"
  by (auto simp: same_rows_def fun_eq_iff)

lemma same_rows_update:
  "same_rows d t \<Longrightarrow> dict_get d k = Some v \<Longrightarrow> same_rows (dict_set k (f v) d) (sql_update k f t)"
  by (auto simp: same_rows_def fun_eq_iff)

lemma sql_update_absent: "dict_get t k = None \<Longrightarrow> sql_update k f t = t"
  by (induction t) (auto simp: sql_update_def split: if_splits)

lemma sql_update_same:
  "dict_get t k = Some v \<Longrightarrow> wf_dict t \<Longrightarrow> f v = v \<Longrightarrow> sql_update k f t = t"
proof (induction t)
  case Nil
  then show ?case by simp
next
  case (Cons p t)
  then show ?case
    using sql_update_absent [of t k f]
    by (cases p) (auto simp: sql_update_def map_of_eq_None_iff split: if_splits)
qed

lemma encode_rows_get [simp]: "dict_get (encode_rows enc d) k = map_option enc (dict_get d k)"
  by (simp add: encode_rows_def map_of_map)

lemma encode_rows_keys [simp]: "map fst (encode_rows enc d) = map fst d"
  by (simp add: encode_rows_def split_def)

lemma encode_rows_set: "encode_rows enc (dict_set k r d) = dict_set k (enc r) (encode_rows enc d)"
  by (induction d) (auto simp: encode_rows_def dict_set_def)

lemma encode_rows_pop: "encode_rows enc (dict_pop k d) = dict_pop k (encode_rows enc d)"
  by (induction d) (auto simp: encode_rows_def dict_pop_def AList.delete_eq)

lemma keyed_set [intro, simp]: "keyed key d \<Longrightarrow> key r = k \<Longrightarrow> keyed key (dict_set k r d)"
  by (simp add: keyed_def)

lemma keyed_pop [intro, simp]: "keyed key d \<Longrightarrow> keyed key (dict_pop k d)"
  by (simp add: keyed_def)

lemma keyedD: "keyed key d \<Longrightarrow> dict_get d k = Some r \<Longrightarrow> key r = k"
  by (simp add: keyed_def)

section \<open>The relation\<close>

definition token_to_row :: "token_record \<Rightarrow> token_row" where
  "token_to_row r = \<lparr>tk_identity_type = identity_type_str (tr_identity r),
      tk_identity_payload = identity_to_dict (tr_identity r),
      tk_issued_at_unix = tr_issued_at_unix r, tk_expires_at_unix = tr_expires_at_unix r\<rparr>"

definition agent_to_row :: "agent_record \<Rightarrow> agent_row" where
  "agent_to_row r = \<lparr>ag_public_key_b64 = ar_public_key_b64 r, ag_contact = ar_contact r,
      ag_enrolled_at_unix = ar_enrolled_at_unix r\<rparr>"

definition orcid_key_to_row :: "orcid_key_record \<Rightarrow> orcid_key_row" where
  "orcid_key_to_row r = \<lparr>kr_orcid_id = ok_orcid_id r, kr_public_key_b64 = ok_public_key_b64 r,
      kr_label = ok_label r, kr_created_at_unix = ok_created_at_unix r,
      kr_revoked_at_unix = ok_revoked_at_unix r\<rparr>"

definition challenge_to_row :: "challenge_record \<Rightarrow> code_row" where
  "challenge_to_row r = \<lparr>cr_payload = challenge_to_dict r, cr_expires_at_unix = ch_expires_at_unix r\<rparr>"

definition paste_code_to_row :: "paste_code_entry \<Rightarrow> code_row" where
  "paste_code_to_row e = \<lparr>cr_payload = paste_code_to_dict e, cr_expires_at_unix = pc_expires_at_unix e\<rparr>"

lemmas row_defs = token_to_row_def agent_to_row_def orcid_key_to_row_def challenge_to_row_def
  paste_code_to_row_def

text \<open>The auth tables, the corpus tables and the caches, related table by table.\<close>

definition same_auth :: "store_state \<Rightarrow> sqlite_db \<Rightarrow> bool" where
  "same_auth s q \<longleftrightarrow>
     same_rows (encode_rows token_to_row (st_tokens s)) (db_tokens q) \<and> keyed tr_token (st_tokens s) \<and>
     same_rows (encode_rows agent_to_row (st_agents s)) (db_agents q) \<and> keyed ar_handle (st_agents s) \<and>
     same_rows (encode_rows orcid_key_to_row (st_orcid_keys s)) (db_orcid_keys q) \<and>
       keyed ok_key_id (st_orcid_keys s) \<and>
     same_rows (encode_rows challenge_to_row (st_challenges s)) (db_challenges q) \<and>
       keyed ch_challenge_id (st_challenges s) \<and>
     same_rows (encode_rows paste_code_to_row (st_paste_codes s)) (db_paste_codes q) \<and>
       keyed pc_code (st_paste_codes s)"

definition same_corpus :: "store_state \<Rightarrow> sqlite_db \<Rightarrow> bool" where
  "same_corpus s q \<longleftrightarrow>
     same_rows (st_papers s) (db_papers q) \<and> same_rows (st_cirs s) (db_cirs q) \<and>
     same_rows (st_claims s) (db_claims q) \<and> same_rows (st_annotations s) (db_annotations q) \<and>
     same_rows (st_sources s) (db_sources q) \<and> same_rows (st_rendered_pdfs s) (db_rendered_pdfs q) \<and>
     same_rows (st_claim_views s) (db_claim_views q)"

definition same_caches :: "store_state \<Rightarrow> sqlite_db \<Rightarrow> bool" where
  "same_caches s q \<longleftrightarrow>
     same_rows (st_idempotency s) (db_idempotency q) \<and>
     same_rows (st_rate_window s) (db_rate_window q) \<and>
     same_rows (st_snapshot_blobs s) (db_snapshot_blobs q) \<and>
     map_option PDict (st_latest_snapshot s) = dict_get (db_meta q) ''latest_snapshot''"

definition same_store :: "store_state \<Rightarrow> sqlite_db \<Rightarrow> bool" where
  "same_store s q \<longleftrightarrow> same_auth s q \<and> same_corpus s q \<and> same_caches s q"

lemmas same_store_defs = same_store_def same_auth_def same_corpus_def same_caches_def

text \<open>The two outcomes of one call agree.\<close>

definition agree :: "pyexn + answer \<times> store_state \<Rightarrow> pyexn + answer \<times> sqlite_db \<Rightarrow> bool" where
  "agree x y = rel_sum (=) (\<lambda>(a, s) (b, q). a = b \<and> same_store s q) x y"

lemma agree_simps [simp]:
  "agree (Inr (a, s)) (Inr (b, q)) \<longleftrightarrow> a = b \<and> same_store s q"
  "agree (Inl e) (Inl e') \<longleftrightarrow> e = e'"
  by (simp_all add: agree_def)

lemma same_store_init: "same_store empty_store sql_init"
  by (simp add: same_store_defs empty_store_def sql_init_def encode_rows_def keyed_def)

section \<open>Auth tables\<close>

lemma encoded_get:
  "same_rows (encode_rows enc d) t \<Longrightarrow> dict_get t k = map_option enc (dict_get d k)"
  by (simp add: same_rows_def flip: encode_rows_get)

lemma same_auth_rows:
  assumes "same_auth s q"
  shows "dict_get (db_tokens q) k = map_option token_to_row (dict_get (st_tokens s) k)"
    "dict_get (db_agents q) k = map_option agent_to_row (dict_get (st_agents s) k)"
    "dict_get (db_orcid_keys q) k = map_option orcid_key_to_row (dict_get (st_orcid_keys s) k)"
    "dict_get (db_challenges q) k = map_option challenge_to_row (dict_get (st_challenges s) k)"
    "dict_get (db_paste_codes q) k = map_option paste_code_to_row (dict_get (st_paste_codes s) k)"
  using assms by (simp_all add: same_auth_def encoded_get)

lemma same_auth_keyed:
  assumes "same_auth s q"
  shows "dict_get (st_tokens s) k = Some t \<Longrightarrow> tr_token t = k"
    "dict_get (st_agents s) k = Some a \<Longrightarrow> ar_handle a = k"
    "dict_get (st_orcid_keys s) k = Some o' \<Longrightarrow> ok_key_id o' = k"
    "dict_get (st_challenges s) k = Some c \<Longrightarrow> ch_challenge_id c = k"
    "dict_get (st_paste_codes s) k = Some p \<Longrightarrow> pc_code p = k"
  using assms by (auto simp: same_auth_def dest: keyedD)

lemma same_get_token: "same_auth s q \<Longrightarrow> sql_get_token q t = Inr (get_token s t)"
  using same_auth_keyed(1) [of s q t]
  by (cases "dict_get (st_tokens s) t")
     (simp_all add: sql_get_token_def get_token_def same_auth_rows token_to_row_def)

lemma same_get_agent: "same_auth s q \<Longrightarrow> sql_get_agent q h = get_agent s h"
  using same_auth_keyed(2) [of s q h]
  by (cases "dict_get (st_agents s) h")
     (simp_all add: sql_get_agent_def get_agent_def same_auth_rows agent_to_row_def)

lemma same_get_orcid_key: "same_auth s q \<Longrightarrow> sql_get_orcid_key q k = get_orcid_key s k"
  using same_auth_keyed(3) [of s q k]
  by (cases "dict_get (st_orcid_keys s) k")
     (simp_all add: sql_get_orcid_key_def get_orcid_key_def same_auth_rows orcid_key_to_row_def
       orcid_key_of_row_def)

lemma same_get_challenge: "same_auth s q \<Longrightarrow> sql_get_challenge q c = Inr (get_challenge s c)"
  by (cases "dict_get (st_challenges s) c")
     (simp_all add: sql_get_challenge_def get_challenge_def same_auth_rows challenge_to_row_def)

lemma same_get_paste_code: "same_auth s q \<Longrightarrow> sql_get_paste_code q c = Inr (get_paste_code s c)"
  by (cases "dict_get (st_paste_codes s) c")
     (simp_all add: sql_get_paste_code_def get_paste_code_def same_auth_rows paste_code_to_row_def)

lemma orcid_key_row_round_trip:
  "ok_key_id r = k \<Longrightarrow> orcid_key_of_row (k, orcid_key_to_row r) = r"
  by (auto simp: orcid_key_of_row_def orcid_key_to_row_def)

lemma orcid_key_to_row_sel [simp]:
  "kr_orcid_id (orcid_key_to_row r) = ok_orcid_id r"
  "kr_revoked_at_unix (orcid_key_to_row r) = ok_revoked_at_unix r"
  by (simp_all add: orcid_key_to_row_def)

lemma list_rows_eq:
  assumes "\<And>k r. (k, r) \<in> set d \<Longrightarrow> ok_key_id r = k"
  shows "map orcid_key_of_row (filter (\<lambda>(k, row). kr_orcid_id row = i \<and> (b \<or> kr_revoked_at_unix row = None))
      (encode_rows orcid_key_to_row d)) =
    (let out = filter (\<lambda>r. ok_orcid_id r = i) (map snd d)
     in if \<not> b then filter (\<lambda>r. ok_revoked_at_unix r = None) out else out)"
  using assms
  by (induction d)
     (auto simp: encode_rows_def Let_def orcid_key_row_round_trip split: if_splits)

lemma same_list_orcid_keys:
  assumes "same_auth s q"
  shows "mset (sql_list_orcid_keys q i b) = mset (list_orcid_keys s i b)"
proof -
  let ?P = "\<lambda>(k, row). kr_orcid_id row = i \<and> (b \<or> kr_revoked_at_unix row = None)"
  have rows: "mset (db_orcid_keys q) = mset (encode_rows orcid_key_to_row (st_orcid_keys s))"
    and keys: "keyed ok_key_id (st_orcid_keys s)"
    and wf: "wf_dict (st_orcid_keys s)"
    using assms by (auto simp: same_auth_def same_rows_mset) (simp add: same_rows_def)
  have key: "\<And>k r. (k, r) \<in> set (st_orcid_keys s) \<Longrightarrow> ok_key_id r = k"
    using keys wf by (auto simp: keyed_def)
  have "mset (sql_list_orcid_keys q i b) =
      image_mset orcid_key_of_row (filter_mset ?P (mset (db_orcid_keys q)))"
    by (simp add: sql_list_orcid_keys_def Let_def)
  also have "\<dots> = mset (map orcid_key_of_row (filter ?P (encode_rows orcid_key_to_row (st_orcid_keys s))))"
    by (simp add: rows)
  also have "\<dots> = mset (list_orcid_keys s i b)"
    using list_rows_eq [of "st_orcid_keys s" i b] key
    by (simp add: list_orcid_keys_def dict_values_def Let_def)
  finally show ?thesis .
qed

lemma same_auth_fields:
  "same_auth s q \<Longrightarrow> st_tokens s' = st_tokens s \<Longrightarrow> st_agents s' = st_agents s \<Longrightarrow>
   st_orcid_keys s' = st_orcid_keys s \<Longrightarrow> st_challenges s' = st_challenges s \<Longrightarrow>
   st_paste_codes s' = st_paste_codes s \<Longrightarrow> db_tokens q' = db_tokens q \<Longrightarrow>
   db_agents q' = db_agents q \<Longrightarrow> db_orcid_keys q' = db_orcid_keys q \<Longrightarrow>
   db_challenges q' = db_challenges q \<Longrightarrow> db_paste_codes q' = db_paste_codes q \<Longrightarrow> same_auth s' q'"
  by (simp add: same_auth_def)

lemma same_add_token: "same_auth s q \<Longrightarrow> same_auth (add_token r s) (sql_add_token r q)"
  by (auto simp: same_auth_def add_token_def sql_add_token_def encode_rows_set simp flip: token_to_row_def)

lemma same_revoke_token: "same_auth s q \<Longrightarrow> same_auth (revoke_token t s) (sql_revoke_token t q)"
  by (auto simp: same_auth_def revoke_token_def sql_revoke_token_def encode_rows_pop)

lemma same_add_agent: "same_auth s q \<Longrightarrow> same_auth (add_agent r s) (sql_add_agent r q)"
  by (auto simp: same_auth_def add_agent_def sql_add_agent_def encode_rows_set simp flip: agent_to_row_def)

lemma same_add_orcid_key: "same_auth s q \<Longrightarrow> same_auth (add_orcid_key r s) (sql_add_orcid_key r q)"
  by (auto simp: same_auth_def add_orcid_key_def sql_add_orcid_key_def encode_rows_set
      simp flip: orcid_key_to_row_def)

lemma same_add_challenge: "same_auth s q \<Longrightarrow> same_auth (add_challenge r s) (sql_add_challenge r q)"
  by (auto simp: same_auth_def add_challenge_def sql_add_challenge_def encode_rows_set
      simp flip: challenge_to_row_def)

lemma same_add_paste_code: "same_auth s q \<Longrightarrow> same_auth (add_paste_code e s) (sql_add_paste_code e q)"
  by (auto simp: same_auth_def add_paste_code_def sql_add_paste_code_def encode_rows_set
      simp flip: paste_code_to_row_def)

lemma same_revoke_orcid_key:
  assumes "same_auth s q"
  shows "same_auth (revoke_orcid_key k t s) (sql_revoke_orcid_key k t q)"
proof -
  let ?f = "\<lambda>row. if kr_revoked_at_unix row = None then row\<lparr>kr_revoked_at_unix := Some t\<rparr> else row"
  have rows: "same_rows (encode_rows orcid_key_to_row (st_orcid_keys s)) (db_orcid_keys q)"
    using assms by (simp add: same_auth_def)
  have get: "dict_get (db_orcid_keys q) k = map_option orcid_key_to_row (dict_get (st_orcid_keys s) k)"
    using assms by (rule same_auth_rows)
  have wf: "wf_dict (db_orcid_keys q)" using rows by (simp add: same_rows_def)
  show ?thesis
  proof (cases "dict_get (st_orcid_keys s) k")
    case None
    with get have "sql_update k ?f (db_orcid_keys q) = db_orcid_keys q"
      by (intro sql_update_absent) simp
    with None assms show ?thesis by (simp add: revoke_orcid_key_def sql_revoke_orcid_key_def)
  next
    case (Some r)
    show ?thesis
    proof (cases "ok_revoked_at_unix r = None")
      case True
      have "same_rows (dict_set k (?f (orcid_key_to_row r))
          (encode_rows orcid_key_to_row (st_orcid_keys s))) (sql_update k ?f (db_orcid_keys q))"
        by (rule same_rows_update [OF rows]) (simp add: Some)
      moreover have "?f (orcid_key_to_row r) = orcid_key_to_row (r\<lparr>ok_revoked_at_unix := Some t\<rparr>)"
        using True by (simp add: orcid_key_to_row_def)
      ultimately show ?thesis
        using Some True assms same_auth_keyed(3) [OF assms Some]
        by (simp add: revoke_orcid_key_def sql_revoke_orcid_key_def same_auth_def encode_rows_set)
    next
      case False
      then have "sql_update k ?f (db_orcid_keys q) = db_orcid_keys q"
        using Some get wf by (intro sql_update_same) (auto simp: orcid_key_to_row_def)
      with Some False assms show ?thesis by (simp add: revoke_orcid_key_def sql_revoke_orcid_key_def)
    qed
  qed
qed

text \<open>Consuming a code is fetching it, marking it and storing it, on both sides.\<close>

lemma consume_challenge_add:
  "keyed ch_challenge_id (st_challenges s) \<Longrightarrow> consume_challenge c s =
    (case get_challenge s c of None \<Rightarrow> s | Some r \<Rightarrow> add_challenge (r\<lparr>ch_consumed := True\<rparr>) s)"
  by (auto simp: consume_challenge_def get_challenge_def add_challenge_def dest: keyedD split: option.splits)

lemma consume_paste_code_add:
  "keyed pc_code (st_paste_codes s) \<Longrightarrow> consume_paste_code c s =
    (case get_paste_code s c of None \<Rightarrow> s | Some r \<Rightarrow> add_paste_code (r\<lparr>pc_consumed := True\<rparr>) s)"
  by (auto simp: consume_paste_code_def get_paste_code_def add_paste_code_def dest: keyedD split: option.splits)

section \<open>Corpus tables\<close>

lemma same_corpus_rows:
  assumes "same_corpus s q"
  shows "same_rows (st_papers s) (db_papers q)" "same_rows (st_cirs s) (db_cirs q)"
    "same_rows (st_claims s) (db_claims q)" "same_rows (st_annotations s) (db_annotations q)"
    "same_rows (st_sources s) (db_sources q)" "same_rows (st_rendered_pdfs s) (db_rendered_pdfs q)"
    "same_rows (st_claim_views s) (db_claim_views q)"
  using assms by (simp_all add: same_corpus_def)

lemma same_bump_claim_view:
  assumes "same_corpus s q"
  shows "fst (sql_bump_claim_view c q) = fst (bump_claim_view c s) \<and>
    same_corpus (snd (bump_claim_view c s)) (snd (sql_bump_claim_view c q))"
proof -
  have rows: "same_rows (st_claim_views s) (db_claim_views q)"
    using assms by (rule same_corpus_rows)
  show ?thesis
  proof (cases "dict_get (st_claim_views s) c")
    case None
    with rows have q: "dict_get (db_claim_views q) c = None" by (simp add: same_rows_get)
    have "same_rows (dict_set c 1 (st_claim_views s)) (db_claim_views q @ [(c, 1)])"
      using rows None q
      by (auto simp: same_rows_def fun_eq_iff map_add_def map_of_eq_None_iff split: option.splits)
        (force simp: rev_image_eqI)+
    with None q assms show ?thesis
      by (simp add: bump_claim_view_def sql_bump_claim_view_def Let_def dict_has_def map_add_def
          get_claim_views_def sql_get_claim_views_def same_corpus_def)
  next
    case (Some n)
    with rows have q: "dict_get (db_claim_views q) c = Some n" by (simp add: same_rows_get)
    with rows Some assms same_rows_update [OF rows Some, of "\<lambda>n. n + 1"] show ?thesis
      by (simp add: bump_claim_view_def sql_bump_claim_view_def Let_def dict_has_def
          get_claim_views_def sql_get_claim_views_def same_corpus_def)
  qed
qed

text \<open>Dropping a paper's claims: both backends remove the rows the scan selects.\<close>

definition hashable_owner :: "pydict \<Rightarrow> bool" where
  "hashable_owner c \<longleftrightarrow> \<not> unhashable (dget c ''paper_id'')"

lemma stale_claim_ids_eq:
  "stale_claim_ids owners t =
    (if list_all (\<lambda>(cid, c). hashable_owner c) t
     then Inr (map fst (filter (\<lambda>(cid, c). list_ex (py_eq (dget c ''paper_id'')) owners) t))
     else Inl TypeError)"
  by (induction t) (auto simp: in_owner_keys_def hashable_owner_def)

definition drop_claim_rows :: "string list \<Rightarrow> sqlite_db \<Rightarrow> sqlite_db" where
  "drop_claim_rows ids q = fold (\<lambda>cid q. q\<lparr>db_claims := sql_delete cid (db_claims q),
      db_claim_views := sql_delete cid (db_claim_views q)\<rparr>) ids q"

lemma sql_drop_claims_eq:
  "sql_drop_claims owners t q =
    (if list_all (\<lambda>(cid, c). hashable_owner c) t
     then Inr (drop_claim_rows
       (map fst (filter (\<lambda>(cid, c). list_ex (py_eq (dget c ''paper_id'')) owners) t)) q)
     else Inl TypeError)"
  by (induction t arbitrary: q)
     (auto simp: in_owner_keys_def hashable_owner_def drop_claim_rows_def)

lemma fold_drop_claim:
  "fold drop_claim ids s = s\<lparr>st_claims := fold dict_pop ids (st_claims s),
     st_claim_views := fold dict_pop ids (st_claim_views s)\<rparr>"
  by (induction ids arbitrary: s) (auto simp: drop_claim_def)

lemma drop_claim_rows_eq:
  "drop_claim_rows ids q = q\<lparr>db_claims := fold sql_delete ids (db_claims q),
     db_claim_views := fold sql_delete ids (db_claim_views q)\<rparr>"
  unfolding drop_claim_rows_def by (induction ids arbitrary: q) auto

lemma dict_get_fold_pop:
  "dict_get (fold dict_pop ids d) k = (if k \<in> set ids then None else dict_get d k)"
  by (induction ids arbitrary: d) auto

lemma dict_get_fold_delete:
  "dict_get (fold sql_delete ids d) k = (if k \<in> set ids then None else dict_get d k)"
  by (induction ids arbitrary: d) auto

lemma wf_fold_pop: "wf_dict d \<Longrightarrow> wf_dict (fold dict_pop ids d)"
  by (induction ids arbitrary: d) auto

lemma wf_fold_delete: "wf_dict d \<Longrightarrow> wf_dict (fold sql_delete ids d)"
  by (induction ids arbitrary: d) auto

lemma same_rows_fold_drop:
  "same_rows d t \<Longrightarrow> set ids = set ids' \<Longrightarrow> same_rows (fold dict_pop ids d) (fold sql_delete ids' t)"
  by (auto simp: same_rows_def fun_eq_iff dict_get_fold_pop dict_get_fold_delete
      intro: wf_fold_pop wf_fold_delete)

lemma same_replace_seed_paper:
  assumes "same_corpus s q"
  shows "rel_sum (=) same_corpus (replace_seed_paper pid s) (sql_replace_seed_paper pid q)"
proof (cases "owner_keys_of (dict_get (st_papers s) pid) pid")
  case (Inl e)
  with assms show ?thesis
    by (simp add: replace_seed_paper_def sql_replace_seed_paper_def same_rows_get [OF same_corpus_rows(1)])
next
  case (Inr owners)
  have q_owners: "owner_keys_of (dict_get (db_papers q) pid) pid = Inr owners"
    using assms Inr by (simp add: same_rows_get [OF same_corpus_rows(1)])
  have claims: "mset (db_claims q) = mset (st_claims s)"
    using assms by (intro same_rows_mset same_corpus_rows)
  then have sets: "set (db_claims q) = set (st_claims s)" by (rule mset_eq_setD)
  show ?thesis
    using assms Inr q_owners sets
    by (simp add: replace_seed_paper_def sql_replace_seed_paper_def stale_claim_ids_eq
        sql_drop_claims_eq fold_drop_claim drop_claim_rows_eq Let_def list_all_iff
        same_corpus_def same_rows_pop same_rows_fold_drop)
qed

lemma same_replace_seed_papers:
  "same_corpus s q \<Longrightarrow>
    rel_sum (=) same_corpus (replace_seed_papers pids s) (sql_replace_seed_papers pids q)"
proof (induction pids arbitrary: s q)
  case Nil
  then show ?case by simp
next
  case (Cons pid pids)
  from same_replace_seed_paper [OF Cons.prems, of pid] show ?case
    by (cases rule: rel_sum.cases) (auto intro: Cons.IH)
qed

lemma replace_seed_frame:
  "replace_seed_papers pids s = Inr s' \<Longrightarrow>
    st_tokens s' = st_tokens s \<and> st_agents s' = st_agents s \<and> st_orcid_keys s' = st_orcid_keys s \<and>
    st_challenges s' = st_challenges s \<and> st_paste_codes s' = st_paste_codes s \<and>
    st_idempotency s' = st_idempotency s \<and> st_rate_window s' = st_rate_window s \<and>
    st_snapshot_blobs s' = st_snapshot_blobs s \<and> st_latest_snapshot s' = st_latest_snapshot s \<and>
    st_annotations s' = st_annotations s"
proof (induction pids arbitrary: s)
  case Nil
  then show ?case by simp
next
  case (Cons pid pids)
  then obtain s1 where s1: "replace_seed_paper pid s = Inr s1" "replace_seed_papers pids s1 = Inr s'"
    by (auto simp: rbind_Inr_iff)
  from s1(1) show ?case
    using Cons.IH [OF s1(2)]
    by (auto simp: replace_seed_paper_def rbind_Inr_iff Let_def fold_drop_claim)
qed

lemma sql_replace_seed_frame:
  "sql_replace_seed_papers pids q = Inr q' \<Longrightarrow>
    db_tokens q' = db_tokens q \<and> db_agents q' = db_agents q \<and> db_orcid_keys q' = db_orcid_keys q \<and>
    db_challenges q' = db_challenges q \<and> db_paste_codes q' = db_paste_codes q \<and>
    db_idempotency q' = db_idempotency q \<and> db_rate_window q' = db_rate_window q \<and>
    db_snapshot_blobs q' = db_snapshot_blobs q \<and> db_meta q' = db_meta q \<and>
    db_annotations q' = db_annotations q"
proof (induction pids arbitrary: q)
  case Nil
  then show ?case by simp
next
  case (Cons pid pids)
  then obtain q1 where q1: "sql_replace_seed_paper pid q = Inr q1" "sql_replace_seed_papers pids q1 = Inr q'"
    by (auto simp: rbind_Inr_iff)
  from q1(1) show ?case
    using Cons.IH [OF q1(2)]
    by (auto simp: sql_replace_seed_paper_def rbind_Inr_iff sql_drop_claims_eq drop_claim_rows_eq
        split: if_splits)
qed

section \<open>Every call\<close>

lemma same_store_auth: "same_store s q \<Longrightarrow> same_auth s q"
  and same_store_corpus: "same_store s q \<Longrightarrow> same_corpus s q"
  and same_store_caches: "same_store s q \<Longrightarrow> same_caches s q"
  by (simp_all add: same_store_def)

named_theorems same_steps \<open>one call, on both backends\<close>

lemma same_get_steps [same_steps]:
  assumes "same_store s q"
  shows "sql_get_token q t = Inr (get_token s t)" "sql_get_agent q t = get_agent s t"
    "sql_get_orcid_key q t = get_orcid_key s t" "sql_get_challenge q t = Inr (get_challenge s t)"
    "sql_get_paste_code q t = Inr (get_paste_code s t)"
    "mset (sql_list_orcid_keys q t b) = mset (list_orcid_keys s t b)"
  using same_store_auth [OF assms]
  by (simp_all add: same_get_token same_get_agent same_get_orcid_key same_get_challenge
      same_get_paste_code same_list_orcid_keys)

lemma same_other_tables:
  assumes "same_store s q"
    and "same_auth s' q'"
    and "\<exists>t a k c p. s' = s\<lparr>st_tokens := t, st_agents := a, st_orcid_keys := k, st_challenges := c,
      st_paste_codes := p\<rparr>"
    and "\<exists>t a k c p. q' = q\<lparr>db_tokens := t, db_agents := a, db_orcid_keys := k, db_challenges := c,
      db_paste_codes := p\<rparr>"
  shows "same_store s' q'"
  using assms by (auto simp: same_store_def same_corpus_def same_caches_def)

lemma store_auth_only:
  "\<exists>t a k c p. add_token tr s = s\<lparr>st_tokens := t, st_agents := a, st_orcid_keys := k, st_challenges := c, st_paste_codes := p\<rparr>"
  "\<exists>t a k c p. revoke_token x s = s\<lparr>st_tokens := t, st_agents := a, st_orcid_keys := k, st_challenges := c, st_paste_codes := p\<rparr>"
  "\<exists>t a k c p. add_agent ar s = s\<lparr>st_tokens := t, st_agents := a, st_orcid_keys := k, st_challenges := c, st_paste_codes := p\<rparr>"
  "\<exists>t a k c p. add_orcid_key kr s = s\<lparr>st_tokens := t, st_agents := a, st_orcid_keys := k, st_challenges := c, st_paste_codes := p\<rparr>"
  "\<exists>t a k c p. revoke_orcid_key x n s = s\<lparr>st_tokens := t, st_agents := a, st_orcid_keys := k, st_challenges := c, st_paste_codes := p\<rparr>"
  "\<exists>t a k c p. add_challenge cr s = s\<lparr>st_tokens := t, st_agents := a, st_orcid_keys := k, st_challenges := c, st_paste_codes := p\<rparr>"
  "\<exists>t a k c p. add_paste_code pr s = s\<lparr>st_tokens := t, st_agents := a, st_orcid_keys := k, st_challenges := c, st_paste_codes := p\<rparr>"
  by (cases s; simp add: store_op_defs split: option.split)+

lemma db_auth_only:
  "\<exists>t a k c p. sql_add_token tr q = q\<lparr>db_tokens := t, db_agents := a, db_orcid_keys := k, db_challenges := c, db_paste_codes := p\<rparr>"
  "\<exists>t a k c p. sql_revoke_token x q = q\<lparr>db_tokens := t, db_agents := a, db_orcid_keys := k, db_challenges := c, db_paste_codes := p\<rparr>"
  "\<exists>t a k c p. sql_add_agent ar q = q\<lparr>db_tokens := t, db_agents := a, db_orcid_keys := k, db_challenges := c, db_paste_codes := p\<rparr>"
  "\<exists>t a k c p. sql_add_orcid_key kr q = q\<lparr>db_tokens := t, db_agents := a, db_orcid_keys := k, db_challenges := c, db_paste_codes := p\<rparr>"
  "\<exists>t a k c p. sql_revoke_orcid_key x n q = q\<lparr>db_tokens := t, db_agents := a, db_orcid_keys := k, db_challenges := c, db_paste_codes := p\<rparr>"
  "\<exists>t a k c p. sql_add_challenge cr q = q\<lparr>db_tokens := t, db_agents := a, db_orcid_keys := k, db_challenges := c, db_paste_codes := p\<rparr>"
  "\<exists>t a k c p. sql_add_paste_code pr q = q\<lparr>db_tokens := t, db_agents := a, db_orcid_keys := k, db_challenges := c, db_paste_codes := p\<rparr>"
  by (cases q; simp add: sql_op_defs)+

lemma same_auth_steps [same_steps]:
  assumes "same_store s q"
  shows "same_store (add_token tr s) (sql_add_token tr q)"
    "same_store (revoke_token t s) (sql_revoke_token t q)"
    "same_store (add_agent ar s) (sql_add_agent ar q)"
    "same_store (add_orcid_key kr s) (sql_add_orcid_key kr q)"
    "same_store (revoke_orcid_key k n s) (sql_revoke_orcid_key k n q)"
    "same_store (add_challenge cr s) (sql_add_challenge cr q)"
    "same_store (add_paste_code pr s) (sql_add_paste_code pr q)"
  by (rule same_other_tables [OF assms _ store_auth_only(1) db_auth_only(1)]
        same_other_tables [OF assms _ store_auth_only(2) db_auth_only(2)]
        same_other_tables [OF assms _ store_auth_only(3) db_auth_only(3)]
        same_other_tables [OF assms _ store_auth_only(4) db_auth_only(4)]
        same_other_tables [OF assms _ store_auth_only(5) db_auth_only(5)]
        same_other_tables [OF assms _ store_auth_only(6) db_auth_only(6)]
        same_other_tables [OF assms _ store_auth_only(7) db_auth_only(7)],
      simp add: same_store_auth [OF assms] same_add_token same_revoke_token same_add_agent
        same_add_orcid_key same_revoke_orcid_key same_add_challenge same_add_paste_code)+

lemma same_consume_challenge [same_steps]:
  assumes "same_store s q"
  shows "agree (done_with (consume_challenge c s)) (rbind (sql_consume_challenge c q) (\<lambda>q. done_with q))"
proof -
  have "keyed ch_challenge_id (st_challenges s)"
    using assms by (simp add: same_store_def same_auth_def)
  then show ?thesis
    using assms same_auth_steps(6) [OF assms]
    by (simp add: sql_consume_challenge_def same_get_steps consume_challenge_add split: option.splits)
qed

lemma same_consume_paste_code [same_steps]:
  assumes "same_store s q"
  shows "agree (done_with (consume_paste_code c s)) (rbind (sql_consume_paste_code c q) (\<lambda>q. done_with q))"
proof -
  have "keyed pc_code (st_paste_codes s)"
    using assms by (simp add: same_store_def same_auth_def)
  then show ?thesis
    using assms same_auth_steps(7) [OF assms]
    by (simp add: sql_consume_paste_code_def same_get_steps consume_paste_code_add split: option.splits)
qed

lemma same_add_docs [same_steps]:
  assumes "same_store s q"
  shows "rel_sum (=) same_store (add_paper d s) (sql_add_paper d q)"
    "rel_sum (=) same_store (add_cir d s) (sql_add_cir d q)"
    "rel_sum (=) same_store (add_claim d s) (sql_add_claim d q)"
    "rel_sum (=) same_store (add_annotation d s) (sql_add_annotation d q)"
  using assms
  by (cases "item_id d"; auto simp: add_paper_def sql_add_paper_def add_cir_def sql_add_cir_def
      add_claim_def sql_add_claim_def add_annotation_def sql_add_annotation_def
      same_store_def same_auth_def same_corpus_def same_caches_def)+

lemma same_corpus_reads [same_steps]:
  assumes "same_store s q"
  shows "sql_get_paper q i = get_paper s i" "sql_get_cir q i = get_cir s i"
    "sql_get_claim q i = get_claim s i" "sql_get_annotation q i = get_annotation s i"
    "mset (sql_list_papers q) = mset (list_papers s)"
    "mset (sql_list_claims q) = mset (list_claims s)"
    "mset (sql_list_annotations q) = mset (list_annotations s)"
    "sql_get_claim_views q i = get_claim_views s i"
    "mset (sql_list_claim_views q) = mset (list_claim_views s)"
    "sql_load_source q i = load_source s i" "sql_load_rendered_pdf q i = load_rendered_pdf s i"
  using same_corpus_rows [OF same_store_corpus [OF assms]]
  by (simp_all add: sql_get_paper_def get_paper_def sql_get_cir_def get_cir_def sql_get_claim_def
      get_claim_def sql_get_annotation_def get_annotation_def sql_list_papers_def list_papers_def
      sql_list_claims_def list_claims_def sql_list_annotations_def list_annotations_def dict_values_def
      sql_get_claim_views_def get_claim_views_def sql_list_claim_views_def list_claim_views_def
      sql_load_source_def load_source_def sql_load_rendered_pdf_def load_rendered_pdf_def
      same_rows_get same_rows_mset)

lemma same_cache_reads [same_steps]:
  assumes "same_store s q"
  shows "sql_get_idempotency q t k = get_idempotency s t k"
    "sql_load_snapshot_blob q i = load_snapshot_blob s i"
    "sql_latest_snapshot q = map_option PDict (latest_snapshot s)"
  using same_store_caches [OF assms]
  by (simp_all add: same_caches_def sql_get_idempotency_def get_idempotency_def
      sql_load_snapshot_blob_def load_snapshot_blob_def sql_latest_snapshot_def latest_snapshot_def
      same_rows_get)

lemma same_blob_steps [same_steps]:
  assumes "same_store s q"
  shows "rel_prod (=) same_store (save_source i b s) (sql_save_source i b q)"
    "rel_prod (=) same_store (save_rendered_pdf i b s) (sql_save_rendered_pdf i b q)"
    "rel_prod (=) same_store (save_snapshot_blob i b s) (sql_save_snapshot_blob i b q)"
    "same_store (add_idempotency t k e s) (sql_add_idempotency t k e q)"
    "same_store (set_latest_snapshot d s) (sql_set_latest_snapshot d q)"
    "rel_prod (=) same_store (record_request i n s) (sql_record_request i n q)"
    "same_store (clear_corpus s) (sql_clear_corpus q)"
  using assms
  by (auto simp: save_source_def sql_save_source_def save_rendered_pdf_def sql_save_rendered_pdf_def
      save_snapshot_blob_def sql_save_snapshot_blob_def add_idempotency_def sql_add_idempotency_def
      set_latest_snapshot_def sql_set_latest_snapshot_def record_request_def sql_record_request_def
      clear_corpus_def sql_clear_corpus_def Let_def
      same_store_def same_auth_def same_corpus_def same_caches_def same_rows_get)

lemma same_bump_step [same_steps]:
  assumes "same_store s q"
  shows "rel_prod (=) same_store (bump_claim_view c s) (sql_bump_claim_view c q)"
proof -
  have "same_auth (snd (bump_claim_view c s)) (snd (sql_bump_claim_view c q))"
    "same_caches (snd (bump_claim_view c s)) (snd (sql_bump_claim_view c q))"
    using assms by (auto simp: same_store_def same_auth_def same_caches_def bump_claim_view_def
        sql_bump_claim_view_def Let_def)
  then show ?thesis
    using same_bump_claim_view [OF same_store_corpus [OF assms], of c]
    by (cases "bump_claim_view c s"; cases "sql_bump_claim_view c q") (auto simp: same_store_def)
qed

lemma same_replace_step [same_steps]:
  assumes "same_store s q"
  shows "rel_sum (=) same_store (replace_seed_papers ids s) (sql_replace_seed_papers ids q)"
proof (cases "replace_seed_papers ids s")
  case (Inl e)
  with same_replace_seed_papers [OF same_store_corpus [OF assms], of ids] show ?thesis
    by (auto elim: rel_sum.cases)
next
  case (Inr s')
  with same_replace_seed_papers [OF same_store_corpus [OF assms], of ids] obtain q' where
    q': "sql_replace_seed_papers ids q = Inr q'" and "same_corpus s' q'"
    by (auto elim: rel_sum.cases)
  with replace_seed_frame [OF Inr] sql_replace_seed_frame [OF q'] assms Inr show ?thesis
    by (simp add: same_store_def same_auth_def same_caches_def)
qed

lemma rel_sum_done:
  "rel_sum (=) same_store x y \<Longrightarrow>
    agree (rbind x (\<lambda>s. done_with s)) (rbind y (\<lambda>q. done_with q))"
  by (auto elim!: rel_sum.cases)

lemma rel_prod_agree:
  "rel_prod (=) same_store x y \<Longrightarrow>
    agree (case x of (a, s) \<Rightarrow> Inr (f a, s)) (case y of (b, q) \<Rightarrow> Inr (f b, q))"
  by (cases x; cases y) simp

lemma exec_agree:
  assumes "same_store s q"
  shows "agree (mem_exec c s) (sql_exec c q)"
  using assms
  by (cases c) (auto simp: same_steps rel_sum_done rel_prod_agree)

lemma session_agree: "same_store s q \<Longrightarrow> session mem_exec cs s = session sql_exec cs q"
proof (induction cs arbitrary: s q)
  case Nil
  then show ?case by simp
next
  case (Cons c cs)
  from exec_agree [OF Cons.prems, of c] show ?case
    by (cases "mem_exec c s"; cases "sql_exec c q") (auto simp: agree_def intro: Cons.IH)
qed

section \<open>Properties\<close>

text \<open>
  C16: From a fresh start and up to the first exception, the in-memory store and the SQLite store
  give the same answers to every sequence of calls, where the answer to a listing is the multiset
  of what is listed (SQLite promises no order), records are passed as values (the in-memory store
  hands out the records it holds, so a caller that changes one changes the store, which SQLite's
  copies rule out) and integers are unbounded (SQLite's columns hold 64 bits).
\<close>

theorem backends_agree: "session mem_exec cs empty_store = session sql_exec cs sql_init"
  by (rule session_agree [OF same_store_init])

text \<open>
  One call on related stores gives the same answer or the same exception, and leaves the
  stores related.
\<close>

lemma call_refines:
  assumes "same_store s q"
  shows "(\<exists>e. mem_exec c s = Inl e \<and> sql_exec c q = Inl e) \<or>
    (\<exists>a s' q'. mem_exec c s = Inr (a, s') \<and> sql_exec c q = Inr (a, q') \<and> same_store s' q')"
  using exec_agree [OF assms, of c]
  by (cases "mem_exec c s"; cases "sql_exec c q") (auto simp: agree_def)

lemma call_refines_witness:
  "\<exists>a s' q'. mem_exec (BumpClaimView ''c'') empty_store = Inr (a, s') \<and>
     sql_exec (BumpClaimView ''c'') sql_init = Inr (a, q') \<and> same_store s' q'"
proof -
  have "mem_exec (BumpClaimView ''c'') empty_store \<noteq> Inl e" for e
    by (simp add: bump_claim_view_def Let_def)
  with call_refines [OF same_store_init, of "BumpClaimView ''c''"] show ?thesis by blast
qed

lemma replace_seed_paper_result:
  assumes "replace_seed_paper pid s = Inr s'"
  shows "st_papers s' = dict_pop pid (st_papers s)" "st_cirs s' = dict_pop pid (st_cirs s)"
    "st_sources s' = dict_pop pid (st_sources s)" "st_rendered_pdfs s' = dict_pop pid (st_rendered_pdfs s)"
    and "\<exists>ids. st_claims s' = fold dict_pop ids (st_claims s) \<and>
      (\<forall>(c, d) \<in> set (st_claims s). dget d ''paper_id'' = PStr pid \<longrightarrow> c \<in> set ids)"
proof -
  from assms obtain owners ids where o: "owner_keys_of (dict_get (st_papers s) pid) pid = Inr owners"
    and ids: "stale_claim_ids owners (st_claims s) = Inr ids"
    and s': "s' = (fold drop_claim ids s)\<lparr>st_papers := dict_pop pid (st_papers s), st_cirs := dict_pop pid (st_cirs s),
       st_sources := dict_pop pid (st_sources s), st_rendered_pdfs := dict_pop pid (st_rendered_pdfs s)\<rparr>"
    by (auto simp: replace_seed_paper_def rbind_Inr_iff Let_def fold_drop_claim)
  show "st_papers s' = dict_pop pid (st_papers s)" "st_cirs s' = dict_pop pid (st_cirs s)"
    "st_sources s' = dict_pop pid (st_sources s)" "st_rendered_pdfs s' = dict_pop pid (st_rendered_pdfs s)"
    by (simp_all add: s')
  have "PStr pid \<in> set owners"
    using o by (auto simp: owner_keys_of_def Let_def split: option.splits if_splits)
  then have "\<forall>(c, d) \<in> set (st_claims s). dget d ''paper_id'' = PStr pid \<longrightarrow> c \<in> set ids"
    using ids by (force simp: stale_claim_ids_eq list_ex_iff image_iff split: if_splits)
  then show "\<exists>ids. st_claims s' = fold dict_pop ids (st_claims s) \<and>
      (\<forall>(c, d) \<in> set (st_claims s). dget d ''paper_id'' = PStr pid \<longrightarrow> c \<in> set ids)"
    by (intro exI [of _ ids]) (simp add: s' fold_drop_claim)
qed

lemma set_fold_pop: "set (fold dict_pop ids d) = {(k, v) \<in> set d. k \<notin> set ids}"
proof (induction ids arbitrary: d)
  case Nil
  then show ?case by auto
next
  case (Cons i ids)
  have "set (dict_pop i d) = {(k, v) \<in> set d. k \<noteq> i}" by (auto simp: dict_pop_def AList.delete_eq)
  with Cons show ?case by auto
qed

text \<open>
  Reseeding removes the named papers with their CIRs, sources and PDFs and every claim
  that names one of them as its paper; other papers and blobs stay as they are, the claims
  left are unchanged, and so are annotations, tokens, keys, codes and the latest snapshot.
\<close>

lemma reseed_removes_exactly:
  assumes "replace_seed_papers ids s = Inr s'"
  shows "(\<forall>p. get_paper s' p = (if p \<in> set ids then None else get_paper s p)) \<and>
    (\<forall>p. get_cir s' p = (if p \<in> set ids then None else get_cir s p)) \<and>
    (\<forall>p. load_source s' p = (if p \<in> set ids then None else load_source s p)) \<and>
    (\<forall>p. load_rendered_pdf s' p = (if p \<in> set ids then None else load_rendered_pdf s p)) \<and>
    set (st_claims s') \<subseteq> {(c, d) \<in> set (st_claims s). dget d ''paper_id'' \<notin> PStr ` set ids} \<and>
    st_annotations s' = st_annotations s \<and> st_tokens s' = st_tokens s \<and>
    st_orcid_keys s' = st_orcid_keys s \<and> st_latest_snapshot s' = st_latest_snapshot s"
proof -
  have "(\<forall>p. get_paper s' p = (if p \<in> set ids then None else get_paper s p)) \<and>
    (\<forall>p. get_cir s' p = (if p \<in> set ids then None else get_cir s p)) \<and>
    (\<forall>p. load_source s' p = (if p \<in> set ids then None else load_source s p)) \<and>
    (\<forall>p. load_rendered_pdf s' p = (if p \<in> set ids then None else load_rendered_pdf s p)) \<and>
    set (st_claims s') \<subseteq> {(c, d) \<in> set (st_claims s). dget d ''paper_id'' \<notin> PStr ` set ids}"
    using assms
  proof (induction ids arbitrary: s)
    case Nil
    then show ?case by auto
  next
    case (Cons pid ids)
    then obtain s1 where s1: "replace_seed_paper pid s = Inr s1" "replace_seed_papers ids s1 = Inr s'"
      by (auto simp: rbind_Inr_iff)
    note r = replace_seed_paper_result [OF s1(1)] and ih = Cons.IH [OF s1(2)]
    from r(5) have "set (st_claims s1) \<subseteq> {(c, d) \<in> set (st_claims s). dget d ''paper_id'' \<noteq> PStr pid}"
      by (force simp: set_fold_pop)
    with ih r(1-4) show ?case
      by (auto simp: get_paper_def get_cir_def load_source_def load_rendered_pdf_def)
  qed
  then show ?thesis using replace_seed_frame [OF assms] by simp
qed

definition seeded_store :: store_state where
  "seeded_store = empty_store\<lparr>
     st_papers := [(''p'', [(''id'', PStr ''p'')]), (''q'', [(''id'', PStr ''q'')])],
     st_claims := [(''c'', [(''paper_id'', PStr ''p'')])],
     st_annotations := [(''a'', [(''target_id'', PStr ''p'')])]\<rparr>"

lemma reseed_removes_exactly_witness:
  "\<exists>s'. replace_seed_papers [''p''] seeded_store = Inr s' \<and> get_paper s' ''p'' = None \<and>
    get_paper s' ''q'' \<noteq> None \<and> st_claims s' = [] \<and> st_annotations s' = st_annotations seeded_store"
proof -
  have "(case replace_seed_papers [''p''] seeded_store of Inl _ \<Rightarrow> False | Inr _ \<Rightarrow> True)" by code_simp
  then obtain s' where s': "replace_seed_papers [''p''] seeded_store = Inr s'" by (auto split: sum.splits)
  have q: "get_paper seeded_store ''q'' \<noteq> None" by code_simp
  have c: "st_claims seeded_store = [(''c'', [(''paper_id'', PStr ''p'')])]" by (simp add: seeded_store_def)
  have "{(c, d) \<in> set (st_claims seeded_store). dget d ''paper_id'' \<notin> PStr ` set [''p'']} = {}"
    by (auto simp: c dget_def)
  moreover have "set (st_claims s') \<subseteq> {(c, d) \<in> set (st_claims seeded_store). dget d ''paper_id'' \<notin> PStr ` set [''p'']}"
    using reseed_removes_exactly [OF s'] by blast
  ultimately have "set (st_claims s') = {}" by (metis subset_empty)
  with reseed_removes_exactly [OF s'] s' q show ?thesis by auto
qed

end
