(* ===== verification/Py_Order.thy ===== *)
theory Py_Order
  imports Py_Prelude
begin

text \<open>
  Comparing, iterating and printing Python values: the operators \<open><\<close> and
  \<open>></\<close> with the \<open>TypeError\<close> of unordered types, \<open>sorted\<close> and
  \<open>max\<close> on keys that may raise, \<open>repr\<close> and \<open>str\<close>, and iteration
  over a value.
\<close>

section \<open>Ordering\<close>

text \<open>
  \<open>v < w\<close>. Numbers and booleans compare as numbers, strings by code point, lists
  at their first unequal elements; every other pair raises.
\<close>

function (sequential) py_lt :: "pyval \<Rightarrow> pyval \<Rightarrow> pyexn + bool"
  and py_lt_list :: "pyval list \<Rightarrow> pyval list \<Rightarrow> pyexn + bool" where
  "py_lt (PStr s) (PStr t) = Inr (s < t)"
| "py_lt (PList xs) (PList ys) = py_lt_list xs ys"
| "py_lt v w = (case (as_num v, as_num w) of
      (Some m, Some n) \<Rightarrow> Inr (m < n)
    | _ \<Rightarrow> Inl TypeError)"
| "py_lt_list [] ys = Inr (ys \<noteq> [])"
| "py_lt_list (x # xs) [] = Inr False"
| "py_lt_list (x # xs) (y # ys) = (if py_eq x y then py_lt_list xs ys else py_lt x y)"
  by pat_completeness auto
termination
  by (relation "measure (\<lambda>a. case a of Inl (v, w) \<Rightarrow> size v | Inr (xs, ys) \<Rightarrow> size_list size xs)") auto

text \<open>\<open>v > w\<close> is the reflected comparison.\<close>

definition py_gt :: "pyval \<Rightarrow> pyval \<Rightarrow> pyexn + bool" where
  "py_gt v w = py_lt w v"

text \<open>
  \<open>max(xs, key=...)\<close> keeps the first of several maximal elements; it raises when a
  comparison it makes raises, and on an empty sequence.
\<close>

fun max_from :: "('a \<Rightarrow> pyval) \<Rightarrow> 'a \<Rightarrow> 'a list \<Rightarrow> pyexn + 'a" where
  "max_from key m [] = Inr m"
| "max_from key m (x # xs) =
     rbind (py_gt (key x) (key m)) (\<lambda>gt. max_from key (if gt then x else m) xs)"

definition py_max :: "('a \<Rightarrow> pyval) \<Rightarrow> 'a list \<Rightarrow> pyexn + 'a" where
  "py_max key xs = (case xs of [] \<Rightarrow> Inl ValueError | x # ys \<Rightarrow> max_from key x ys)"

text \<open>
  \<open>sorted(xs, key=..., reverse=...)\<close> is stable in both directions. Which pairs of
  keys the sort compares is the implementation's business, so the model raises as soon
  as any two keys are unordered; keys of one type never raise.
\<close>

definition comparable_keys :: "pyval list list \<Rightarrow> bool" where
  "comparable_keys ks =
     list_all (\<lambda>k. list_all (\<lambda>k'. case py_lt_list k k' of Inl _ \<Rightarrow> False | Inr _ \<Rightarrow> True) ks) ks"

definition key_lt :: "pyval list \<Rightarrow> pyval list \<Rightarrow> bool" where
  "key_lt k k' = (case py_lt_list k k' of Inl _ \<Rightarrow> False | Inr b \<Rightarrow> b)"

fun insert_by :: "('a \<Rightarrow> 'a \<Rightarrow> bool) \<Rightarrow> 'a \<Rightarrow> 'a list \<Rightarrow> 'a list" where
  "insert_by lt x [] = [x]"
| "insert_by lt x (y # ys) = (if lt y x then y # insert_by lt x ys else x # y # ys)"

text \<open>Insertion from the right keeps equal elements in their order.\<close>

definition sort_by :: "('a \<Rightarrow> 'a \<Rightarrow> bool) \<Rightarrow> 'a list \<Rightarrow> 'a list" where
  "sort_by lt xs = foldr (insert_by lt) xs []"

definition py_sorted :: "('a \<Rightarrow> pyval list) \<Rightarrow> bool \<Rightarrow> 'a list \<Rightarrow> pyexn + 'a list" where
  "py_sorted key reverse xs =
     (if comparable_keys (map key xs)
      then Inr (sort_by (\<lambda>x y. if reverse then key_lt (key y) (key x) else key_lt (key x) (key y)) xs)
      else Inl TypeError)"

lemma mset_insert_by [simp]: "mset (insert_by lt x xs) = add_mset x (mset xs)"
  by (induction xs) auto

lemma mset_sort_by [simp]: "mset (sort_by lt xs) = mset xs"
  unfolding sort_by_def by (induction xs) auto

lemma set_sort_by [simp]: "set (sort_by lt xs) = set xs"
  by (metis mset_sort_by set_mset_mset)

lemma length_sort_by [simp]: "length (sort_by lt xs) = length xs"
  by (metis mset_sort_by size_mset)

text \<open>The result has no inversion, for a comparison that is a strict weak order on the list.\<close>

lemma sorted_insert_by:
  assumes "\<forall>a \<in> S. \<forall>b \<in> S. lt a b \<longrightarrow> \<not> lt b a"
    and "\<forall>a \<in> S. \<forall>b \<in> S. \<forall>c \<in> S. \<not> lt a b \<longrightarrow> \<not> lt b c \<longrightarrow> \<not> lt a c"
    and "set xs \<subseteq> S" "x \<in> S" "sorted_wrt (\<lambda>a b. \<not> lt b a) xs"
  shows "sorted_wrt (\<lambda>a b. \<not> lt b a) (insert_by lt x xs)"
  using assms(3-)
proof (induction xs)
  case Nil
  then show ?case by simp
next
  case (Cons y ys)
  have set: "set (insert_by lt x ys) = insert x (set ys)"
    by (metis mset_insert_by set_mset_add_mset_insert set_mset_mset)
  show ?case
  proof (cases "lt y x")
    case True
    with Cons assms(1) show ?thesis by (auto simp: set)
  next
    case False
    have "\<not> lt z x" if "z \<in> set ys" for z
      using that False Cons.prems assms(2) by (metis list.set_intros subsetD sorted_wrt.simps(2))
    with False Cons.prems show ?thesis by auto
  qed
qed

lemma sorted_sort_by:
  assumes "\<forall>a \<in> set xs. \<forall>b \<in> set xs. lt a b \<longrightarrow> \<not> lt b a"
    and "\<forall>a \<in> set xs. \<forall>b \<in> set xs. \<forall>c \<in> set xs. \<not> lt a b \<longrightarrow> \<not> lt b c \<longrightarrow> \<not> lt a c"
  shows "sorted_wrt (\<lambda>a b. \<not> lt b a) (sort_by lt xs)"
proof -
  have "sorted_wrt (\<lambda>a b. \<not> lt b a) (foldr (insert_by lt) ys [])" if "set ys \<subseteq> set xs" for ys
    using that
  proof (induction ys)
    case Nil
    then show ?case by simp
  next
    case (Cons y ys)
    have "set (foldr (insert_by lt) ys []) = set ys"
      using set_sort_by [of lt ys] by (simp add: sort_by_def)
    with Cons show ?case
      by (auto intro!: sorted_insert_by [OF assms])
  qed
  then show ?thesis by (simp add: sort_by_def)
qed

section \<open>Iteration\<close>

definition py_iter :: "pyval \<Rightarrow> pyexn + pyval list" where
  "py_iter v = (case v of
      PList xs \<Rightarrow> Inr xs
    | PStr s \<Rightarrow> Inr (map (\<lambda>c. PStr [c]) s)
    | PDict d \<Rightarrow> Inr (map (\<lambda>(k, _). PStr k) d)
    | _ \<Rightarrow> Inl TypeError)"

text \<open>The method calls \<open>v.get(k)\<close> and \<open>v.startswith(p)\<close> on a value of any type.\<close>

definition py_get :: "pyval \<Rightarrow> string \<Rightarrow> pyexn + pyval" where
  "py_get v k = (case v of PDict d \<Rightarrow> Inr (dget d k) | _ \<Rightarrow> Inl AttributeError)"

definition py_startswith :: "pyval \<Rightarrow> string \<Rightarrow> pyexn + bool" where
  "py_startswith v p = (case v of PStr s \<Rightarrow> Inr (startswith s p) | _ \<Rightarrow> Inl AttributeError)"

text \<open>\<open>len(v)\<close> and \<open>x in v\<close> for a string \<open>x\<close>.\<close>

definition py_len :: "pyval \<Rightarrow> pyexn + int" where
  "py_len v = (case v of
      PList xs \<Rightarrow> Inr (int (length xs))
    | PStr s \<Rightarrow> Inr (int (length s))
    | PDict d \<Rightarrow> Inr (int (length d))
    | _ \<Rightarrow> Inl TypeError)"

definition str_in :: "string \<Rightarrow> pyval \<Rightarrow> pyexn + bool" where
  "str_in x v = (case v of
      PList xs \<Rightarrow> Inr (PStr x \<in> set xs)
    | PStr s \<Rightarrow> Inr (str_contains x s)
    | PDict d \<Rightarrow> Inr (dict_has d x)
    | _ \<Rightarrow> Inl TypeError)"

text \<open>
  \<open>int(v)\<close>: a string may have surrounding white space, a sign and single underscores
  between digits.
\<close>

definition int_of_str :: "string \<Rightarrow> int option" where
  "int_of_str s =
     (let t = str_strip s;
          (neg, body) = (case t of
              c # r \<Rightarrow> if c = CHR ''-'' then (True, r) else if c = CHR ''+'' then (False, r) else (False, t)
            | [] \<Rightarrow> (False, t));
          parts = split_on (CHR ''_'') body
      in if list_all (\<lambda>p. p \<noteq> [] \<and> list_all is_digit p) parts
         then Some (if neg then - int (nat_of_str (concat parts)) else int (nat_of_str (concat parts)))
         else None)"

definition py_int :: "pyval \<Rightarrow> pyexn + int" where
  "py_int v = (case v of
      PInt i \<Rightarrow> Inr i
    | PBool b \<Rightarrow> Inr (if b then 1 else 0)
    | PStr s \<Rightarrow> (case int_of_str s of Some i \<Rightarrow> Inr i | None \<Rightarrow> Inl ValueError)
    | _ \<Rightarrow> Inl TypeError)"

section \<open>Printing\<close>

definition hex_char :: "nat \<Rightarrow> char" where
  "hex_char n = (if n < 10 then digit_char n else char_of (n + 87))"

text \<open>One character of a string literal between quotes \<open>q\<close>.\<close>

definition repr_char :: "char \<Rightarrow> char \<Rightarrow> string" where
  "repr_char q c =
     (let n = (of_char c :: nat)
      in if c = q \<or> n = 92 then [char_of (92 :: nat), c]
         else if n = 9 then [char_of (92 :: nat), CHR ''t'']
         else if n = 10 then [char_of (92 :: nat), CHR ''n'']
         else if n = 13 then [char_of (92 :: nat), CHR ''r'']
         else if n < 32 \<or> (127 \<le> n \<and> n \<le> 160) \<or> n = 173
           then [char_of (92 :: nat), CHR ''x'', hex_char (n div 16), hex_char (n mod 16)]
         else [c])"

definition repr_str :: "string \<Rightarrow> string" where
  "repr_str s =
     (let sq = (char_of (39 :: nat) :: char); dq = char_of (34 :: nat);
          q = (if sq \<in> set s \<and> dq \<notin> set s then dq else sq)
      in [q] @ concat (map (repr_char q) s) @ [q])"

fun py_repr :: "pyval \<Rightarrow> string" where
  "py_repr PNone = ''None''"
| "py_repr (PBool b) = (if b then ''True'' else ''False'')"
| "py_repr (PInt i) = str_of_int i"
| "py_repr (PStr s) = repr_str s"
| "py_repr (PList xs) = ''['' @ join_on '', '' (map py_repr xs) @ '']''"
| "py_repr (PDict d) =
     ''{'' @ join_on '', '' (map (\<lambda>(k, v). repr_str k @ '': '' @ py_repr v) d) @ ''}''"

definition py_str :: "pyval \<Rightarrow> string" where
  "py_str v = (case v of PStr s \<Rightarrow> s | _ \<Rightarrow> py_repr v)"

lemma py_str_PStr [simp]: "py_str (PStr s) = s"
  by (simp add: py_str_def)

end
