(* ===== verification/Ids_Slug.thy ===== *)
theory Ids_Slug
  imports Py_Order Store
begin

text \<open>
  Identifiers: the UUIDv7 machine ids of \<open>server/ids.py\<close>, the citable slugs of
  \<open>server/papers/slug.py\<close> and the rewriting of a CIR's claim ids onto its slug in
  \<open>server/papers/claim_ids.py\<close>.
\<close>

unbundle bit_operations_syntax

section \<open>UUIDv7\<close>

text \<open>
  The arithmetic runs on Python's unbounded integers. The clock and the random bytes
  (\<open>os.urandom\<close>) are arguments.
\<close>

definition int_from_bytes :: "8 word list \<Rightarrow> int" where
  "int_from_bytes bs = foldl (\<lambda>n b. 256 * n + uint b) 0 bs"

definition uuid7 :: "int \<Rightarrow> 8 word list \<Rightarrow> 8 word list \<Rightarrow> int" where
  "uuid7 time_ns random2 random8 =
     (let ms = time_ns div 1000000;
          rand_a = int_from_bytes random2 AND 0x0FFF;
          rand_b = int_from_bytes random8 AND (push_bit 62 1 - 1);
          n = push_bit 80 (ms AND (push_bit 48 1 - 1));
          n = n OR push_bit 76 0x7;
          n = n OR push_bit 64 rand_a;
          n = n OR push_bit 62 2
      in n OR rand_b)"

section \<open>Slugs\<close>

text \<open>
  \<open>SLUG_PATTERN.match\<close>: the groups of \<open>^rrxiv:(\d{4})\.(\d{5})$\<close>. The
  \<open>$\<close> also matches before a final newline.
\<close>

definition slug_match :: "string \<Rightarrow> (string \<times> string) option" where
  "slug_match s =
     (let yymm = take 4 (drop 6 s); num = take 5 (drop 11 s); rest = drop 16 s
      in if startswith s ''rrxiv:'' \<and> length yymm = 4 \<and> list_all is_digit yymm \<and>
            take 1 (drop 10 s) = ''.'' \<and> length num = 5 \<and> list_all is_digit num \<and>
            (rest = [] \<or> rest = [char_of (10 :: nat)])
         then Some (yymm, num) else None)"

definition is_slug :: "string \<Rightarrow> bool" where
  "is_slug s = (slug_match s \<noteq> None)"

definition claim_owner_key :: "pydict \<Rightarrow> pyexn + string" where
  "claim_owner_key paper =
     (let slug = dget paper ''id_slug''
      in if truthy slug then Inr (py_str slug)
         else case dict_get paper ''id'' of None \<Rightarrow> Inl KeyError | Some v \<Rightarrow> Inr (py_str v))"

text \<open>The year and month, in UTC, of the instant \<open>when\<close>.\<close>

definition slug_yymm :: "nat \<Rightarrow> nat \<Rightarrow> string" where
  "slug_yymm year month = zpad 2 (str_of_nat (year mod 100)) @ zpad 2 (str_of_nat month)"

text \<open>The loop over the stored papers: a slug that is not a string raises in \<open>match\<close>.\<close>

fun max_counter :: "string \<Rightarrow> nat \<Rightarrow> pydict list \<Rightarrow> pyexn + nat" where
  "max_counter yymm mx [] = Inr mx"
| "max_counter yymm mx (paper # papers) =
     (let existing = dget paper ''id_slug''
      in if \<not> truthy existing then max_counter yymm mx papers
         else case existing of
           PStr s \<Rightarrow>
             (case slug_match s of
                None \<Rightarrow> max_counter yymm mx papers
              | Some (existing_yymm, existing_n) \<Rightarrow>
                  if existing_yymm \<noteq> yymm then max_counter yymm mx papers
                  else let n = nat_of_str existing_n
                       in max_counter yymm (if n > mx then n else mx) papers)
         | _ \<Rightarrow> Inl TypeError)"

definition mint_slug :: "pydict list \<Rightarrow> nat \<Rightarrow> nat \<Rightarrow> pyexn + string" where
  "mint_slug papers year month =
     (let yymm = slug_yymm year month
      in rbind (max_counter yymm 0 papers) (\<lambda>mx.
           Inr (''rrxiv:'' @ yymm @ ''.'' @ zpad 5 (str_of_nat (mx + 1)))))"

text \<open>
  \<open>find_paper_by_slug\<close>: the head of the lineage that carries the slug. The ids a
  candidate supersedes form a set, so an unhashable one raises.
\<close>

fun superseded_ids :: "pydict list \<Rightarrow> pyexn + pyval list" where
  "superseded_ids [] = Inr []"
| "superseded_ids (p # ps) =
     (let prev = dget p ''previous_version''
      in if \<not> truthy prev then superseded_ids ps
         else if unhashable prev then Inl TypeError
         else rbind (superseded_ids ps) (\<lambda>ids. Inr (prev # ids)))"

fun slug_heads :: "pyval list \<Rightarrow> pydict list \<Rightarrow> pyexn + pydict list" where
  "slug_heads old [] = Inr []"
| "slug_heads old (p # ps) =
     rbind (in_owner_keys old (dget p ''id'')) (\<lambda>sup.
     rbind (slug_heads old ps) (\<lambda>hs. Inr (if sup then hs else p # hs)))"

definition submitted_key :: "pydict \<Rightarrow> pyval" where
  "submitted_key p = py_or (dget p ''submitted_at'') (PStr [])"

definition find_paper_by_slug :: "pydict list \<Rightarrow> string \<Rightarrow> pyexn + pydict option" where
  "find_paper_by_slug papers slug =
     (let candidates = filter (\<lambda>p. py_eq (dget p ''id_slug'') (PStr slug)) papers
      in case candidates of
           [] \<Rightarrow> Inr None
         | [p] \<Rightarrow> Inr (Some p)
         | _ \<Rightarrow>
             rbind (superseded_ids candidates) (\<lambda>old.
             rbind (slug_heads old candidates) (\<lambda>heads.
               case heads of
                 [p] \<Rightarrow> Inr (Some p)
               | [] \<Rightarrow> rbind (py_max submitted_key candidates) (Inr \<circ> Some)
               | _ \<Rightarrow> rbind (py_max submitted_key heads) (Inr \<circ> Some))))"

section \<open>Claim ids onto the slug\<close>

definition rewrite_id :: "string \<Rightarrow> string \<Rightarrow> string \<Rightarrow> string" where
  "rewrite_id old new s = (if startswith s old then new @ drop (length old) s else s)"

text \<open>The edge list under one key: \<open>None\<close> when nothing changes, else the new list and the count.\<close>

definition rewrite_target :: "string \<Rightarrow> string \<Rightarrow> pyval \<Rightarrow> pyexn + pyval" where
  "rewrite_target old new t =
     rbind (py_startswith t old) (\<lambda>hit. Inr (PStr (if hit then rewrite_id old new (py_str t) else py_str t)))"

definition rewrite_edges :: "string \<Rightarrow> string \<Rightarrow> pyval \<Rightarrow> pyexn + (pyval list \<times> int) option" where
  "rewrite_edges old new edges =
     (if \<not> truthy edges then Inr None
      else rbind (py_iter edges) (\<lambda>ts.
           rbind (rmap (rewrite_target old new) ts) (\<lambda>ts'.
             if py_eq (PList ts') edges then Inr None
             else Inr (Some (ts', int (length (filter (\<lambda>(a, b). \<not> py_eq a b) (zip ts ts'))))))))"

fun rewrite_edge_keys :: "string \<Rightarrow> string \<Rightarrow> string list \<Rightarrow> pydict \<Rightarrow> int \<Rightarrow> pyexn + pydict \<times> int" where
  "rewrite_edge_keys old new [] c n = Inr (c, n)"
| "rewrite_edge_keys old new (key # keys) c n =
     rbind (rewrite_edges old new (dget c key)) (\<lambda>r.
       case r of
         None \<Rightarrow> rewrite_edge_keys old new keys c n
       | Some (ts, k) \<Rightarrow> rewrite_edge_keys old new keys (dict_set key (PList ts) c) (n + k))"

definition edge_keys :: "string list" where
  "edge_keys = [''depends_on'', ''supports'', ''contradicts'', ''extends'']"

text \<open>A string field that holds an id: \<open>id\<close> of a claim, \<open>target_id\<close> of an annotation.\<close>

definition rewrite_field :: "string \<Rightarrow> string \<Rightarrow> string \<Rightarrow> pydict \<Rightarrow> int \<Rightarrow> pyexn + pydict \<times> int" where
  "rewrite_field old new k c n =
     (let v = dget c k
      in if \<not> truthy v then Inr (c, n)
         else rbind (py_startswith v old) (\<lambda>hit.
           Inr (if hit then (dict_set k (PStr (rewrite_id old new (py_str v))) c, n + 1) else (c, n))))"

definition rewrite_claim :: "string \<Rightarrow> string \<Rightarrow> string \<Rightarrow> pyval \<Rightarrow> pyexn + pyval \<times> int" where
  "rewrite_claim owner old new v =
     (case v of
        PDict c \<Rightarrow>
          rbind (rewrite_field old new ''id'' c 0) (\<lambda>(c, n).
            let (c, n) = (if py_eq (dget c ''paper_id'') (PStr owner) then (c, n)
                          else (dict_set ''paper_id'' (PStr owner) c, n + 1))
            in rbind (rewrite_edge_keys old new edge_keys c n) (\<lambda>(c, n). Inr (PDict c, n)))
      | _ \<Rightarrow> Inl AttributeError)"

definition rewrite_annotation :: "string \<Rightarrow> string \<Rightarrow> pyval \<Rightarrow> pyexn + pyval \<times> int" where
  "rewrite_annotation old new v =
     (case v of
        PDict a \<Rightarrow> rbind (rewrite_field old new ''target_id'' a 0) (\<lambda>(a, n). Inr (PDict a, n))
      | _ \<Rightarrow> Inl AttributeError)"

text \<open>The first element of \<open>claims\<close>, by subscription.\<close>

definition py_first :: "pyval \<Rightarrow> pyexn + pyval" where
  "py_first v = (case v of
      PList (x # _) \<Rightarrow> Inr x
    | PStr (c # _) \<Rightarrow> Inr (PStr [c])
    | PList [] \<Rightarrow> Inl IndexError
    | PStr [] \<Rightarrow> Inl IndexError
    | PDict _ \<Rightarrow> Inl KeyError
    | _ \<Rightarrow> Inl TypeError)"

text \<open>
  \<open>canonicalise_claim_ids\<close> rewrites the CIR in place and returns the number of
  substitutions. A claim or annotation that cannot be rewritten raises; the callers drop
  the CIR then.
\<close>

definition canonicalise_claim_ids :: "pydict \<Rightarrow> string \<Rightarrow> pyexn + pydict \<times> int" where
  "canonicalise_claim_ids cir owner =
     (let claims = dget cir ''claims'' in
      if \<not> truthy claims then Inr (cir, 0)
      else rbind (py_first claims) (\<lambda>first.
           rbind (py_get first ''id'') (\<lambda>idv.
           let sample = py_or idv (PStr []) in
           rbind (py_startswith sample (owner @ '':'')) (\<lambda>canonical.
           if canonical then Inr (cir, 0)
           else
             let parts = split_once (CHR '':'') (py_str sample) in
             if length parts \<noteq> 2 then Inr (cir, 0)
             else
               let parser_prefix = hd parts in
               if parser_prefix = owner then Inr (cir, 0)
               else
                 let old = parser_prefix @ '':''; new = owner @ '':'' in
                 rbind (py_iter claims) (\<lambda>cs.
                 rbind (rmap (rewrite_claim owner old new) cs) (\<lambda>cs'.
                 let cir' = dict_set ''claims'' (PList (map fst cs')) cir;
                     anns = dget cir' ''annotations'';
                     n = sum_list (map snd cs') in
                 if \<not> truthy anns then Inr (cir', n)
                 else rbind (py_iter anns) (\<lambda>as.
                      rbind (rmap (rewrite_annotation old new) as) (\<lambda>as'.
                      Inr (dict_set ''annotations'' (PList (map fst as')) cir',
                           n + sum_list (map snd as'))))))))))"

section \<open>Layout of a UUIDv7\<close>

lemma push_or_add:
  assumes "0 \<le> b" "b < 2 ^ k"
  shows "push_bit k a OR b = a * 2 ^ k + (b :: int)"
proof -
  have "take_bit k b = b" using assms by (simp add: take_bit_int_eq_self)
  then have "\<not> bit b n" if "k \<le> n" for n
    using that bit_take_bit_iff [of k b n] by simp
  then have "push_bit k a + b = push_bit k a OR b"
    by (intro disjunctive_add) (auto simp: bit_push_bit_iff not_le)
  then show ?thesis by (simp add: push_bit_eq_mult)
qed

lemma push_or_push:
  assumes "0 \<le> b" "b < 2 ^ (k - j)" "j \<le> k"
  shows "(a * 2 ^ k) OR push_bit j b = a * 2 ^ k + b * (2 :: int) ^ j"
proof -
  have "b * 2 ^ j < 2 ^ (k - j) * 2 ^ j" using assms(2) by (intro mult_strict_right_mono) auto
  then have "push_bit j b < 2 ^ k" using assms(3) by (simp add: push_bit_eq_mult flip: power_add)
  moreover have "0 \<le> push_bit j b" using assms(1) by (simp add: push_bit_eq_mult)
  ultimately show ?thesis
    using push_or_add [of "push_bit j b" k a] by (simp add: push_bit_eq_mult)
qed

lemma and_low_bits: "x AND (push_bit k 1 - 1) = x mod (2 ^ k :: int)"
  by (simp add: push_bit_eq_mult take_bit_eq_mod flip: mask_eq_exp_minus_1 take_bit_eq_mask)

text \<open>The four fields, as a sum.\<close>

lemma uuid7_fields:
  "uuid7 t r2 r8 =
     ((t div 1000000) mod 2 ^ 48) * 2 ^ 80 + 7 * 2 ^ 76 + (int_from_bytes r2 mod 2 ^ 12) * 2 ^ 64
     + 2 * 2 ^ 62 + int_from_bytes r8 mod 2 ^ 62"
proof -
  let ?T = "(t div 1000000) mod 2 ^ 48 :: int" and ?A = "int_from_bytes r2 mod 2 ^ 12"
    and ?B = "int_from_bytes r8 mod 2 ^ 62"
  have A: "int_from_bytes r2 AND 0x0FFF = ?A"
    using and_low_bits [of "int_from_bytes r2" 12] by (simp add: push_bit_eq_mult)
  have 1: "push_bit 80 ?T OR push_bit 76 7 = (?T * 16 + 7) * 2 ^ 76"
    using push_or_push [of 7 80 76 ?T] by (simp add: push_bit_eq_mult)
  have 2: "(?T * 16 + 7) * 2 ^ 76 OR push_bit 64 ?A = ((?T * 16 + 7) * 2 ^ 12 + ?A) * 2 ^ 64"
    using push_or_push [of ?A 76 64 "?T * 16 + 7"] by simp
  have 3: "((?T * 16 + 7) * 2 ^ 12 + ?A) * 2 ^ 64 OR push_bit 62 2 =
      (((?T * 16 + 7) * 2 ^ 12 + ?A) * 4 + 2) * 2 ^ 62"
    using push_or_push [of 2 64 62 "(?T * 16 + 7) * 2 ^ 12 + ?A"] by simp
  have 4: "(((?T * 16 + 7) * 2 ^ 12 + ?A) * 4 + 2) * 2 ^ 62 OR ?B =
      (((?T * 16 + 7) * 2 ^ 12 + ?A) * 4 + 2) * 2 ^ 62 + ?B"
    using push_or_add [of ?B 62 "((?T * 16 + 7) * 2 ^ 12 + ?A) * 4 + 2"]
    by (simp add: push_bit_eq_mult)
  show ?thesis
    unfolding uuid7_def Let_def and_low_bits A 1 2 3 4 by simp
qed

lemma uuid7_parts:
  "uuid7 t r2 r8 div 2 ^ 80 = (t div 1000000) mod 2 ^ 48"
  "uuid7 t r2 r8 div 2 ^ 76 mod 2 ^ 4 = 7"
  "uuid7 t r2 r8 div 2 ^ 62 mod 2 ^ 2 = 2"
  "0 \<le> uuid7 t r2 r8" "uuid7 t r2 r8 < 2 ^ 128"
proof -
  define T where "T = (t div 1000000) mod 2 ^ 48"
  define A where "A = int_from_bytes r2 mod 2 ^ 12"
  define B where "B = int_from_bytes r8 mod 2 ^ 62"
  have T: "0 \<le> T" "T < 281474976710656" and A: "0 \<le> A" "A < 4096"
    and B: "0 \<le> B" "B < 4611686018427387904"
    by (simp_all add: T_def A_def B_def)
  have u: "uuid7 t r2 r8 = T * 2 ^ 80 + 7 * 2 ^ 76 + A * 2 ^ 64 + 2 * 2 ^ 62 + B"
    by (simp add: uuid7_fields T_def A_def B_def)
  have t: "(t div 1000000) mod 2 ^ 48 = T" by (simp add: T_def)
  have n: "uuid7 t r2 r8 = T * 1208925819614629174706176 + 528905046081400263933952 + A * 18446744073709551616 + 9223372036854775808 + B"
    unfolding u by simp
  show "uuid7 t r2 r8 div 2 ^ 80 = (t div 1000000) mod 2 ^ 48"
    unfolding t n using T A B by simp
  show "uuid7 t r2 r8 div 2 ^ 76 mod 2 ^ 4 = 7"
  proof -
    have "uuid7 t r2 r8 div 2 ^ 76 = T * 16 + 7" unfolding n using T A B by simp
    then show ?thesis by simp
  qed
  show "uuid7 t r2 r8 div 2 ^ 62 mod 2 ^ 2 = 2"
  proof -
    have "uuid7 t r2 r8 div 2 ^ 62 = 2 + (T * 65536 + 28672 + A) * 4" unfolding n using T A B by simp
    moreover have "(2 + K * 4) mod 2 ^ 2 = 2" for K :: int by simp
    ultimately show ?thesis by metis
  qed
  show "0 \<le> uuid7 t r2 r8" "uuid7 t r2 r8 < 2 ^ 128"
    unfolding n using T A B by simp_all
qed

lemma uuid7_increasing:
  assumes "0 \<le> t" "t div 1000000 < t' div 1000000" "t' div 1000000 < 2 ^ 48"
  shows "uuid7 t a b < uuid7 t' a' b'"
proof -
  let ?K = "2 ^ 80 :: int"
  have "0 \<le> t div 1000000" using assms(1) by (simp add: pos_imp_zdiv_nonneg_iff)
  then have "uuid7 t a b div ?K < uuid7 t' a' b' div ?K"
    unfolding uuid7_parts(1) using assms(2,3) by (subst (1 2) mod_pos_pos_trivial) linarith+
  then show ?thesis using zdiv_mono1 [of "uuid7 t' a' b'" "uuid7 t a b" ?K]
    by (meson linorder_not_le zero_less_numeral zero_less_power)
qed

text \<open>
  A minted machine id is a 128-bit version 7 UUID: the top 48 bits are the milliseconds
  of the clock modulo 2 to the 48, the version field is 7 and the variant field is binary 10,
  whatever the random bytes.
\<close>

lemma uuid7_layout:
  "0 \<le> uuid7 t r2 r8 \<and> uuid7 t r2 r8 < 2 ^ 128 \<and>
   uuid7 t r2 r8 div 2 ^ 80 = (t div 1000000) mod 2 ^ 48 \<and>
   uuid7 t r2 r8 div 2 ^ 76 mod 2 ^ 4 = 7 \<and> uuid7 t r2 r8 div 2 ^ 62 mod 2 ^ 2 = 2"
  by (intro conjI; rule uuid7_parts)

text \<open>
  Ids minted in a later millisecond are greater, until the 48-bit clock wraps.
\<close>

lemma uuid7_time_ordered:
  assumes "0 \<le> t" "t div 1000000 < t' div 1000000" "t' div 1000000 < 2 ^ 48"
  shows "uuid7 t a b < uuid7 t' a' b'"
  by (rule uuid7_increasing [OF assms])

lemma uuid7_time_ordered_witness:
  "uuid7 1700000000000000000 [255, 255] [255, 255, 255, 255, 255, 255, 255, 255] <
   uuid7 1700000000001000000 [0, 0] [0, 0, 0, 0, 0, 0, 0, 0]"
  by (rule uuid7_time_ordered) simp_all

section \<open>Minted slugs\<close>

lemma slug_match_slug:
  assumes "length y = 4" "list_all is_digit y" "length n = 5" "list_all is_digit n"
  shows "slug_match (''rrxiv:'' @ y @ ''.'' @ n) = Some (y, n)"
  using assms by (simp add: slug_match_def startswith_def Let_def)

lemma slug_matchD:
  assumes "slug_match s = Some (y, n)"
  shows "length y = 4 \<and> list_all is_digit y \<and> length n = 5 \<and> list_all is_digit n"
  using assms by (auto simp: slug_match_def Let_def split: if_splits)

lemma slug_yymm_length: "month < 100 \<Longrightarrow> length (slug_yymm year month) = 4"
  using str_of_nat_length [of "year mod 100" 2] str_of_nat_length [of month 2]
  by (simp add: slug_yymm_def zpad_length)

lemma slug_yymm_digits: "list_all is_digit (slug_yymm year month)"
  by (simp add: slug_yymm_def zpad_digits str_of_nat_digits)

lemma max_counter_bound:
  "max_counter yymm mx papers = Inr mx' \<Longrightarrow> mx \<le> mx' \<and>
    (\<forall>p \<in> set papers. \<forall>s n. dget p ''id_slug'' = PStr s \<longrightarrow> slug_match s = Some (yymm, n) \<longrightarrow>
      nat_of_str n \<le> mx')"
proof (induction papers arbitrary: mx)
  case Nil
  then show ?case by simp
next
  case (Cons p papers)
  show ?case
  proof (cases "truthy (dget p ''id_slug'')")
    case False
    with Cons show ?thesis by (auto simp: slug_match_def startswith_def Let_def)
  next
    case True
    with Cons.prems obtain s where s: "dget p ''id_slug'' = PStr s"
      by (auto simp: Let_def split: pyval.splits)
    show ?thesis
    proof (cases "\<exists>n. slug_match s = Some (yymm, n)")
      case False
      with True s Cons.prems have "max_counter yymm mx papers = Inr mx'"
        by (auto split: option.splits prod.splits if_splits)
      from Cons.IH [OF this] s False show ?thesis by auto
    next
      case True
      then obtain n where n: "slug_match s = Some (yymm, n)" by blast
      with \<open>truthy _\<close> s Cons.prems have
        "max_counter yymm (if nat_of_str n > mx then nat_of_str n else mx) papers = Inr mx'"
        by (simp add: Let_def)
      from Cons.IH [OF this] s n show ?thesis by (auto split: if_splits)
    qed
  qed
qed

lemma mint_slug_shape:
  assumes "mint_slug papers year month = Inr s"
  obtains mx where "max_counter (slug_yymm year month) 0 papers = Inr mx"
    "s = ''rrxiv:'' @ slug_yymm year month @ ''.'' @ zpad 5 (str_of_nat (mx + 1))"
  using assms by (auto simp: mint_slug_def Let_def rbind_Inr_iff)

lemma zpad_longer: "w \<le> length (zpad w s)"
  by (simp add: zpad_def)

text \<open>
  A minted slug with a five-digit counter is a well-formed slug that no stored paper
  carries.
\<close>

lemma mint_slug_fresh:
  assumes "mint_slug papers year month = Inr s" "month < 100" "length s = 16"
  shows "is_slug s \<and> (\<forall>p \<in> set papers. dget p ''id_slug'' \<noteq> PStr s)"
proof -
  obtain mx where mx: "max_counter (slug_yymm year month) 0 papers = Inr mx"
    and s: "s = ''rrxiv:'' @ slug_yymm year month @ ''.'' @ zpad 5 (str_of_nat (mx + 1))"
    using assms(1) by (rule mint_slug_shape)
  let ?n = "zpad 5 (str_of_nat (mx + 1))"
  have "length ?n = 5"
    using assms(3) slug_yymm_length [OF assms(2), of year] by (simp add: s)
  then have m: "slug_match s = Some (slug_yymm year month, ?n)"
    unfolding s using slug_yymm_length [OF assms(2), of year]
    by (intro slug_match_slug) (simp_all add: slug_yymm_digits zpad_digits str_of_nat_digits)
  have "dget p ''id_slug'' \<noteq> PStr s" if "p \<in> set papers" for p
  proof
    assume "dget p ''id_slug'' = PStr s"
    with max_counter_bound [OF mx] m that have "nat_of_str ?n \<le> mx" by blast
    then show False by simp
  qed
  with m show ?thesis by (simp add: is_slug_def)
qed

lemma mint_slug_fresh_witness:
  "is_slug ''rrxiv:2605.00042'' \<and> dget [(''id_slug'', PStr ''rrxiv:2605.00041'')] ''id_slug'' \<noteq> PStr ''rrxiv:2605.00042''"
proof -
  have "mint_slug [[(''id_slug'', PStr ''rrxiv:2605.00041'')]] 2026 5 = Inr ''rrxiv:2605.00042''"
    by code_simp
  from mint_slug_fresh [OF this] show ?thesis by simp
qed

text \<open>The sixth digit: past 99999 the minted slug is no slug, and the scan no longer sees it.\<close>

lemma digit_chars [simp]:
  "digit_char 0 = CHR ''0''" "digit_char (Suc 0) = CHR ''1''" "digit_char 2 = CHR ''2''"
  "digit_char 3 = CHR ''3''" "digit_char 4 = CHR ''4''" "digit_char 5 = CHR ''5''"
  "digit_char 6 = CHR ''6''" "digit_char 7 = CHR ''7''" "digit_char 8 = CHR ''8''"
  "digit_char 9 = CHR ''9''"
  by code_simp+

lemma mint_slug_overflow:
  "mint_slug [[(''id_slug'', PStr ''rrxiv:2605.99999'')], [(''id_slug'', PStr ''rrxiv:2605.100000'')]] 2026 5
     = Inr ''rrxiv:2605.100000''"
proof -
  have y: "slug_yymm 2026 5 = ''2605''" by code_simp
  have m: "slug_match ''rrxiv:2605.99999'' = Some (''2605'', ''99999'')" by code_simp
  have m': "slug_match ''rrxiv:2605.100000'' = None" by code_simp
  have n: "nat_of_str ''99999'' = 99999" by (simp add: nat_of_str_def digit_val_def)
  have s: "zpad 5 (str_of_nat 100000) = ''100000''" by (simp add: zpad_def str_of_nat.simps)
  show ?thesis by (simp add: mint_slug_def y m m' n s dget_def)
qed

section \<open>Head of a slug's lineage\<close>

lemma in_owner_keysD: "in_owner_keys old v = Inr b \<Longrightarrow> b \<longleftrightarrow> (\<exists>k \<in> set old. py_eq v k)"
  by (auto simp: in_owner_keys_def list_ex_iff split: if_splits)

lemma slug_heads_iff:
  "slug_heads old ps = Inr hs \<Longrightarrow> set hs = {p \<in> set ps. \<not> (\<exists>k \<in> set old. py_eq (dget p ''id'') k)}"
  by (induction ps arbitrary: hs) (auto simp: rbind_Inr_iff dest!: in_owner_keysD split: if_splits)

lemma superseded_ids_iff:
  "superseded_ids ps = Inr ids \<Longrightarrow>
    set ids = {v. \<exists>p \<in> set ps. dget p ''previous_version'' = v \<and> truthy v}"
  by (induction ps arbitrary: ids) (auto simp: rbind_Inr_iff Let_def split: if_splits)

lemma max_from_in: "max_from key m xs = Inr x \<Longrightarrow> x \<in> insert m (set xs)"
  by (induction xs arbitrary: m) (auto simp: rbind_Inr_iff split: if_splits)

lemma py_max_in: "py_max key xs = Inr x \<Longrightarrow> x \<in> set xs"
  by (auto simp: py_max_def split: list.splits dest: max_from_in)

text \<open>A candidate is superseded when another paper of the slug names it as its predecessor.\<close>

definition superseded :: "pydict list \<Rightarrow> pydict \<Rightarrow> bool" where
  "superseded ps p = (\<exists>q \<in> set ps. truthy (dget q ''previous_version'') \<and>
     py_eq (dget p ''id'') (dget q ''previous_version''))"

lemma slug_heads_superseded:
  "superseded_ids ps = Inr old \<Longrightarrow> slug_heads old ps = Inr hs \<Longrightarrow>
    set hs = {p \<in> set ps. \<not> superseded ps p}"
  by (auto simp: slug_heads_iff superseded_ids_iff superseded_def)

lemma find_paper_by_slug_result:
  assumes "find_paper_by_slug papers slug = Inr (Some p)"
  shows "p \<in> set papers \<and> dget p ''id_slug'' = PStr slug \<and>
    (let cs = filter (\<lambda>p. dget p ''id_slug'' = PStr slug) papers
     in 1 < length cs \<longrightarrow> (\<exists>q \<in> set cs. \<not> superseded cs q) \<longrightarrow> \<not> superseded cs p)"
proof -
  define cs where "cs = filter (\<lambda>p. dget p ''id_slug'' = PStr slug) papers"
  have split: "\<And>x y zs P. (case [x] of [] \<Rightarrow> P | _ \<Rightarrow> P) = P" by simp
  have main: "p \<in> set cs \<and> (1 < length cs \<longrightarrow> (\<exists>q \<in> set cs. \<not> superseded cs q) \<longrightarrow> \<not> superseded cs p)"
  proof (cases "1 < length cs")
    case False
    with assms show ?thesis
      by (cases cs) (auto simp: find_paper_by_slug_def simp flip: cs_def)
  next
    case True
    then obtain x y zs where cs: "cs = x # y # zs" by (cases cs; cases "tl cs") auto
    with assms obtain old hs where old: "superseded_ids cs = Inr old" and hs: "slug_heads old cs = Inr hs"
      and res: "(case hs of [p] \<Rightarrow> Inr (Some p) | [] \<Rightarrow> rbind (py_max submitted_key cs) (Inr \<circ> Some)
                 | _ \<Rightarrow> rbind (py_max submitted_key hs) (Inr \<circ> Some)) = Inr (Some p)"
      by (auto simp: find_paper_by_slug_def rbind_Inr_iff simp flip: cs_def)
    have set_hs: "set hs = {p \<in> set cs. \<not> superseded cs p}"
      using slug_heads_superseded [OF old hs] .
    show ?thesis
    proof (cases hs)
      case Nil
      with res set_hs show ?thesis by (auto simp: rbind_Inr_iff dest!: py_max_in)
    next
      case (Cons h hs')
      with res have "p \<in> set hs"
        by (cases hs') (auto simp: rbind_Inr_iff dest!: py_max_in)
      with set_hs show ?thesis by blast
    qed
  qed
  then show ?thesis by (auto simp: cs_def Let_def)
qed

text \<open>
  Looking a slug up returns a stored paper with that slug, and one that no other
  paper of the slug supersedes, whenever there are two papers of the slug and one is not
  superseded.
\<close>

lemma find_paper_by_slug_head:
  assumes "find_paper_by_slug papers slug = Inr (Some p)"
  shows "p \<in> set papers \<and> dget p ''id_slug'' = PStr slug \<and>
    (let cs = filter (\<lambda>p. dget p ''id_slug'' = PStr slug) papers
     in 1 < length cs \<longrightarrow> (\<exists>q \<in> set cs. \<not> superseded cs q) \<longrightarrow> \<not> superseded cs p)"
  by (rule find_paper_by_slug_result [OF assms])

lemma find_paper_by_slug_head_witness:
  "\<exists>p. p \<in> set [[(''id'', PStr ''b''), (''id_slug'', PStr ''s''), (''previous_version'', PStr ''a'')],
                [(''id'', PStr ''a''), (''id_slug'', PStr ''s'')]] \<and> dget p ''id'' = PStr ''b''"
proof -
  let ?ps = "[[(''id'', PStr ''b''), (''id_slug'', PStr ''s''), (''previous_version'', PStr ''a'')],
                [(''id'', PStr ''a''), (''id_slug'', PStr ''s'')]]"
  have "find_paper_by_slug ?ps ''s'' = Inr (Some (hd ?ps))" by code_simp
  from find_paper_by_slug_head [OF this] show ?thesis
    by (intro exI [where x = "hd ?ps"]) (simp add: dget_def)
qed

section \<open>What canonicalising does\<close>

text \<open>A claim of the shape the parser writes: string ids, lists of string targets.\<close>

definition str_list :: "pyval \<Rightarrow> bool" where
  "str_list v = (case v of PNone \<Rightarrow> True | PList xs \<Rightarrow> list_all is_str xs | _ \<Rightarrow> False)"

definition str_field :: "pyval \<Rightarrow> bool" where
  "str_field v = (v = PNone \<or> is_str v)"

definition well_formed_claim :: "pyval \<Rightarrow> bool" where
  "well_formed_claim v = (case v of
     PDict c \<Rightarrow> str_field (dget c ''id'') \<and> list_all (\<lambda>k. str_list (dget c k)) edge_keys
   | _ \<Rightarrow> False)"

text \<open>The specification: what becomes of one string field, one edge list, one claim.\<close>

definition moved_field :: "string \<Rightarrow> string \<Rightarrow> pyval \<Rightarrow> pyval" where
  "moved_field old new v = (case v of PStr s \<Rightarrow> PStr (rewrite_id old new s) | _ \<Rightarrow> v)"

definition moved_edges :: "string \<Rightarrow> string \<Rightarrow> pyval \<Rightarrow> pyval" where
  "moved_edges old new v = (case v of PList xs \<Rightarrow> PList (map (moved_field old new) xs) | _ \<Rightarrow> v)"

definition moved_claim :: "string \<Rightarrow> string \<Rightarrow> string \<Rightarrow> pydict \<Rightarrow> string \<Rightarrow> pyval" where
  "moved_claim owner old new c k =
     (if k = ''id'' then moved_field old new (dget c ''id'')
      else if k = ''paper_id'' then PStr owner
      else if k \<in> set edge_keys then moved_edges old new (dget c k)
      else dget c k)"

lemma py_eq_list_refl: "(\<And>x. x \<in> set xs \<Longrightarrow> py_eq x x) \<Longrightarrow> py_eq_list xs xs"
  by (induction xs) auto

lemma py_eq_strs: "list_all is_str xs \<Longrightarrow> list_all is_str ys \<Longrightarrow> py_eq_list xs ys \<longleftrightarrow> xs = ys"
proof (induction xs arbitrary: ys)
  case Nil
  then show ?case by (cases ys) auto
next
  case (Cons x xs)
  then show ?case by (cases ys) (auto simp: is_str_iff)
qed

lemma rewrite_field_ok:
  assumes "str_field (dget c k)" "old \<noteq> []"
  shows "\<exists>c' m. rewrite_field old new k c n = Inr (c', m) \<and>
    (\<forall>j. dget c' j = (if j = k then moved_field old new (dget c k) else dget c j))"
proof (cases "dget c k")
  case (PStr s)
  show ?thesis
  proof (cases "startswith s old")
    case True
    with assms(2) have "s \<noteq> []" by (auto simp: startswith_def)
    with True PStr show ?thesis
      by (auto simp: rewrite_field_def py_startswith_def moved_field_def rewrite_id_def)
  next
    case False
    with PStr show ?thesis
      by (cases "s = []") (auto simp: rewrite_field_def py_startswith_def moved_field_def rewrite_id_def)
  qed
qed (use assms in \<open>auto simp: str_field_def rewrite_field_def moved_field_def\<close>)

lemma rewrite_targets_strs:
  "list_all is_str xs \<Longrightarrow> rmap (rewrite_target old new) xs = Inr (map (moved_field old new) xs)"
  by (intro rmap_pure)
     (auto simp: list_all_iff is_str_iff rewrite_target_def py_startswith_def moved_field_def rewrite_id_def)

lemma moved_strs: "list_all is_str xs \<Longrightarrow> list_all is_str (map (moved_field old new) xs)"
  by (auto simp: list_all_iff is_str_iff moved_field_def)

lemma rewrite_edge_keys_ok:
  "list_all (\<lambda>k. str_list (dget c k)) ks \<Longrightarrow> distinct ks \<Longrightarrow>
    \<exists>c' m. rewrite_edge_keys old new ks c n = Inr (c', m) \<and>
      (\<forall>j. dget c' j = (if j \<in> set ks then moved_edges old new (dget c j) else dget c j))"
proof (induction ks arbitrary: c n)
  case Nil
  then show ?case by simp
next
  case (Cons k ks)
  then have k: "str_list (dget c k)" and ks: "list_all (\<lambda>k. str_list (dget c k)) ks" by auto
  have "\<exists>c1 n1. rewrite_edge_keys old new (k # ks) c n = rewrite_edge_keys old new ks c1 n1 \<and>
      (\<forall>j. dget c1 j = (if j = k then moved_edges old new (dget c k) else dget c j))"
  proof (cases "dget c k")
    case (PList xs)
    with k have xs: "list_all is_str xs" by (simp add: str_list_def)
    show ?thesis
      by (cases "map (moved_field old new) xs = xs"; cases "xs = []")
         (auto simp: PList rewrite_edges_def py_iter_def rewrite_targets_strs [OF xs]
           py_eq_strs [OF moved_strs [OF xs] xs] moved_edges_def)
  qed (use k in \<open>auto simp: str_list_def rewrite_edges_def moved_edges_def\<close>)
  then obtain c1 n1 where step: "rewrite_edge_keys old new (k # ks) c n = rewrite_edge_keys old new ks c1 n1"
    and c1: "\<And>j. dget c1 j = (if j = k then moved_edges old new (dget c k) else dget c j)"
    by blast
  have "list_all (\<lambda>k. str_list (dget c1 k)) ks"
    using ks Cons.prems(2) by (auto simp: list_all_iff c1)
  with Cons.IH [of c1 n1] Cons.prems(2) step c1 show ?case by auto
qed

lemma distinct_edge_keys: "distinct edge_keys"
  and id_not_edge: "''id'' \<notin> set edge_keys" and paper_not_edge: "''paper_id'' \<notin> set edge_keys"
  by (simp_all add: edge_keys_def)

text \<open>
  Canonicalising a parser-written claim succeeds; its id moves onto the slug, its
  paper id becomes the slug, every target of its four edge lists that carries the old prefix
  moves, and everything else in the claim (other papers' targets included) stays.
\<close>

lemma rewrite_claim_moves:
  assumes "well_formed_claim (PDict c)" "old \<noteq> []"
  shows "\<exists>c' n. rewrite_claim owner old new (PDict c) = Inr (PDict c', n) \<and>
    (\<forall>k. dget c' k = moved_claim owner old new c k)"
proof -
  from assms(1) have id: "str_field (dget c ''id'')"
    and edges: "list_all (\<lambda>k. str_list (dget c k)) edge_keys"
    by (auto simp: well_formed_claim_def)
  obtain c1 n1 where f: "rewrite_field old new ''id'' c 0 = Inr (c1, n1)"
    and c1: "\<And>j. dget c1 j = (if j = ''id'' then moved_field old new (dget c ''id'') else dget c j)"
    using rewrite_field_ok [OF id assms(2)] by blast
  obtain c2 n2 where p: "(if py_eq (dget c1 ''paper_id'') (PStr owner) then (c1, n1)
        else (dict_set ''paper_id'' (PStr owner) c1, n1 + 1)) = (c2, n2)"
    and c2: "\<And>j. dget c2 j = (if j = ''paper_id'' then PStr owner else dget c1 j)"
    by (cases "py_eq (dget c1 ''paper_id'') (PStr owner)") auto
  have "list_all (\<lambda>k. str_list (dget c2 k)) edge_keys"
    using edges id_not_edge paper_not_edge by (auto simp: list_all_iff c1 c2)
  from rewrite_edge_keys_ok [OF this distinct_edge_keys] obtain c3 n3 where
    "rewrite_edge_keys old new edge_keys c2 n2 = Inr (c3, n3)"
    and "\<And>j. dget c3 j = (if j \<in> set edge_keys then moved_edges old new (dget c2 j) else dget c2 j)"
    by blast
  with f p show ?thesis
    using id_not_edge paper_not_edge
    by (auto simp: rewrite_claim_def Let_def moved_claim_def c1 c2)
qed

lemma rewrite_claim_moves_witness:
  "\<exists>c' n. rewrite_claim ''rrxiv:2605.00007'' ''meta:'' ''rrxiv:2605.00007:'' (PDict
      [(''id'', PStr ''meta:claim:c1''), (''depends_on'', PList [PStr ''meta:claim:c2'', PStr ''other:claim:z''])])
     = Inr (PDict c', n) \<and> dget c' ''id'' = PStr ''rrxiv:2605.00007:claim:c1'' \<and>
    dget c' ''depends_on'' = PList [PStr ''rrxiv:2605.00007:claim:c2'', PStr ''other:claim:z'']"
proof -
  let ?c = "[(''id'', PStr ''meta:claim:c1''),
     (''depends_on'', PList [PStr ''meta:claim:c2'', PStr ''other:claim:z''])]"
  have "well_formed_claim (PDict ?c)" by code_simp
  from rewrite_claim_moves [OF this, of "''meta:''" "''rrxiv:2605.00007''" "''rrxiv:2605.00007:''"]
  obtain c' n where
    "rewrite_claim ''rrxiv:2605.00007'' ''meta:'' ''rrxiv:2605.00007:'' (PDict ?c) = Inr (PDict c', n)"
    "\<And>k. dget c' k = moved_claim ''rrxiv:2605.00007'' ''meta:'' ''rrxiv:2605.00007:'' ?c k"
    by auto
  moreover have "moved_claim ''rrxiv:2605.00007'' ''meta:'' ''rrxiv:2605.00007:'' ?c ''id'' =
      PStr ''rrxiv:2605.00007:claim:c1''"
    "moved_claim ''rrxiv:2605.00007'' ''meta:'' ''rrxiv:2605.00007:'' ?c ''depends_on'' =
      PList [PStr ''rrxiv:2605.00007:claim:c2'', PStr ''other:claim:z'']"
    by code_simp+
  ultimately show ?thesis by auto
qed

text \<open>What the first claim's id decides.\<close>

lemma canonical_fixpoint:
  assumes "dget cir ''claims'' = PList (PDict c # cs)" "dget c ''id'' = PStr i"
    "startswith i (owner @ '':'')"
  shows "canonicalise_claim_ids cir owner = Inr (cir, 0)"
proof -
  have "i \<noteq> []" using assms(3) by (auto simp: startswith_def)
  with assms show ?thesis
    by (simp add: canonicalise_claim_ids_def py_first_def py_get_def py_or_def py_startswith_def)
qed

lemma rewrite_claim_id:
  assumes "rewrite_claim owner old new v = Inr (w, n)" "old \<noteq> []"
  shows "\<exists>c c'. v = PDict c \<and> w = PDict c' \<and>
    (\<forall>i. dget c ''id'' = PStr i \<longrightarrow> startswith i old \<longrightarrow> dget c' ''id'' = PStr (rewrite_id old new i))"
proof -
  from assms obtain c where v: "v = PDict c"
    by (auto simp: rewrite_claim_def split: pyval.splits)
  have keys: "dget c' ''id'' = dget c ''id''"
    if "rewrite_edge_keys old new ks c n = Inr (c', m)" "''id'' \<notin> set ks" for ks c c' n m
    using that
    by (induction ks arbitrary: c n) (auto simp: rbind_Inr_iff split: option.splits prod.splits)
  from assms v show ?thesis
    by (auto simp: rewrite_claim_def rbind_Inr_iff Let_def id_not_edge rewrite_field_def
        py_startswith_def startswith_def split: prod.splits if_splits dest!: keys [OF _ id_not_edge])
qed

lemma colon_prefix:
  "CHR '':'' \<in> set i \<Longrightarrow> startswith i (hd (split_once (CHR '':'') i) @ '':'')"
  by (induction i) (auto simp: split_once_def startswith_def)

lemma canonicalise_run:
  assumes "canonicalise_claim_ids cir owner = Inr (cir', n)" "\<not> (cir' = cir \<and> n = 0)"
  obtains first rest i where "dget cir ''claims'' = PList (first # rest)"
    "\<exists>c. first = PDict c \<and> dget c ''id'' = PStr i" "length (split_once (CHR '':'') i) = 2"
    "\<exists>cs'. dget cir' ''claims'' = PList (map fst cs') \<and>
       rmap (rewrite_claim owner (hd (split_once (CHR '':'') i) @ '':'') (owner @ '':''))
         (first # rest) = Inr cs'"
proof -
  from assms obtain first idv b where claims: "truthy (dget cir ''claims'')"
    and f: "py_first (dget cir ''claims'') = Inr first" "py_get first ''id'' = Inr idv"
    "py_startswith (py_or idv (PStr [])) (owner @ '':'') = Inr b" "\<not> b"
    by (auto simp: canonicalise_claim_ids_def rbind_Inr_iff Let_def split: if_splits)
  from f(1,2) claims obtain c rest where cs: "dget cir ''claims'' = PList (first # rest)" "first = PDict c"
    by (auto simp: py_first_def py_get_def split: pyval.splits list.splits)
  from f(3) obtain i where i: "py_or idv (PStr []) = PStr i"
    by (auto simp: py_startswith_def split: pyval.splits)
  from assms f cs i have len: "length (split_once (CHR '':'') i) = 2"
    by (auto simp: canonicalise_claim_ids_def Let_def split: if_splits)
  then have "i \<noteq> []" by (auto simp: split_once_def)
  with i f(2) cs have "dget c ''id'' = PStr i"
    by (auto simp: py_or_def py_get_def split: if_splits)
  moreover have "\<exists>cs'. dget cir' ''claims'' = PList (map fst cs') \<and>
       rmap (rewrite_claim owner (hd (split_once (CHR '':'') i) @ '':'') (owner @ '':''))
         (first # rest) = Inr cs'"
    using assms f cs i len
    by (auto simp: canonicalise_claim_ids_def Let_def rbind_Inr_iff py_iter_def split: if_splits)
  ultimately show thesis using that cs len by blast
qed

text \<open>
  Canonicalising twice changes nothing the second time: the second run returns the
  CIR as it is and counts no substitution.
\<close>

lemma canonicalise_idempotent:
  assumes "canonicalise_claim_ids cir owner = Inr (cir', n)"
  shows "canonicalise_claim_ids cir' owner = Inr (cir', 0)"
proof (cases "cir' = cir \<and> n = 0")
  case True
  with assms show ?thesis by simp
next
  case False
  obtain first rest i where claims: "dget cir ''claims'' = PList (first # rest)"
    and i: "\<exists>c. first = PDict c \<and> dget c ''id'' = PStr i" "length (split_once (CHR '':'') i) = 2"
    and res: "\<exists>cs'. dget cir' ''claims'' = PList (map fst cs') \<and>
       rmap (rewrite_claim owner (hd (split_once (CHR '':'') i) @ '':'') (owner @ '':''))
         (first # rest) = Inr cs'"
    using assms False by (rule canonicalise_run)
  let ?old = "hd (split_once (CHR '':'') i) @ '':''"
  from res obtain w k ws where w: "rewrite_claim owner ?old (owner @ '':'') first = Inr (w, k)"
    and cir': "dget cir' ''claims'' = PList (w # ws)"
    by (auto simp: rbind_Inr_iff)
  have "CHR '':'' \<in> set i" using i(2) by (auto simp: split_once_def split: if_splits)
  then have "startswith i ?old"
    by (metis colon_prefix)
  with rewrite_claim_id [OF w] i(1) obtain c' where "w = PDict c'"
    "dget c' ''id'' = PStr (rewrite_id ?old (owner @ '':'') i)"
    by auto
  moreover have "startswith (rewrite_id ?old (owner @ '':'') i) (owner @ '':'')"
    using \<open>startswith i ?old\<close> by (simp add: rewrite_id_def startswith_def)
  ultimately show ?thesis using cir' canonical_fixpoint by blast
qed

lemma canonicalise_idempotent_witness:
  "canonicalise_claim_ids [(''claims'', PList [PDict [(''id'', PStr ''o:c1''), (''paper_id'', PStr ''o'')]])] ''o''
   = Inr ([(''claims'', PList [PDict [(''id'', PStr ''o:c1''), (''paper_id'', PStr ''o'')]])], 0)"
proof -
  have "canonicalise_claim_ids [(''claims'', PList [PDict [(''id'', PStr ''m:c1'')]])] ''o'' =
    Inr ([(''claims'', PList [PDict [(''id'', PStr ''o:c1''), (''paper_id'', PStr ''o'')]])], 2)"
    by code_simp
  from canonicalise_idempotent [OF this] show ?thesis .
qed

text \<open>
  A first claim that is keyed off another slug: its prefix up to the first colon is
  \<open>rrxiv\<close>, so every id and target under any slug is rewritten, other papers' too.
\<close>

lemma canonicalise_foreign_slug:
  "canonicalise_claim_ids [(''claims'', PList [PDict [(''id'', PStr ''rrxiv:2601.00001:c1''),
       (''paper_id'', PStr ''rrxiv:2605.00099''), (''supports'', PList [PStr ''rrxiv:2502.00007:x''])]])]
     ''rrxiv:2605.00099'' =
   Inr ([(''claims'', PList [PDict [(''id'', PStr ''rrxiv:2605.00099:2601.00001:c1''),
       (''paper_id'', PStr ''rrxiv:2605.00099''),
       (''supports'', PList [PStr ''rrxiv:2605.00099:2502.00007:x''])]])], 2)"
  by code_simp

end
