(* ===== verification/Replication.thy ===== *)
theory Replication
  imports Ids_Slug
begin

text \<open>
  The replication status of a claim, \<open>server/claims/replication.py\<close>: derived on
  every read from the annotations in the store, with a quorum looked up from the topics
  of the claim's paper.
\<close>

section \<open>The owning paper and its quorum\<close>

definition quorum_table :: "(string list \<times> int) list" where
  "quorum_table =
     [([''math'', ''cs.formal-verification''], 1),
      ([''cs.algorithms'', ''cs.systems'', ''crypto'', ''cs.crypto''], 2),
      ([''ml'', ''cs.nlp'', ''cs.cv'', ''rl'', ''cs.lg'', ''physics.experimental'',
        ''chem.experimental'', ''bio.experimental''], 3),
      ([''psychology'', ''social-sci'', ''economics'', ''econ''], 5)]"

definition default_quorum :: int where "default_quorum = 3"

definition paper_id_of_claim :: "string \<Rightarrow> string" where
  "paper_id_of_claim claim_id =
     (let parts = split_on (CHR '':'') claim_id;
          candidate = join_on '':'' (take 2 parts)
      in if 3 \<le> length parts \<and> is_slug candidate then candidate
         else if 2 \<le> length parts then hd parts
         else claim_id)"

definition resolve_owner_paper :: "store_state \<Rightarrow> pyval \<Rightarrow> pyexn + pydict option" where
  "resolve_owner_paper store paper_id =
     (case paper_id of
        PStr s \<Rightarrow> if is_slug s then find_paper_by_slug (list_papers store) s else Inr (get_paper store s)
      | _ \<Rightarrow> Inl TypeError)"

definition topic_lower :: "pyval \<Rightarrow> pyexn + string" where
  "topic_lower t = (case t of PStr s \<Rightarrow> Inr (str_lower s) | _ \<Rightarrow> Inl AttributeError)"

definition meets :: "string list \<Rightarrow> string list \<Rightarrow> bool" where
  "meets topics tags = list_ex (\<lambda>t. t \<in> set tags) topics"

fun table_quorum :: "string list \<Rightarrow> (string list \<times> int) list \<Rightarrow> int option" where
  "table_quorum topics [] = None"
| "table_quorum topics ((tags, q) # rows) = (if meets topics tags then Some q else table_quorum topics rows)"

definition topics_quorum :: "string list \<Rightarrow> int" where
  "topics_quorum topics =
     (let families = map (\<lambda>t. hd (split_once (CHR ''.'') t)) (filter (\<lambda>t. CHR ''.'' \<in> set t) topics)
      in case table_quorum topics quorum_table of
           Some q \<Rightarrow> q
         | None \<Rightarrow> (case table_quorum families quorum_table of Some q \<Rightarrow> q | None \<Rightarrow> default_quorum))"

definition quorum_for_claim :: "pyval \<Rightarrow> store_state \<Rightarrow> pyval \<Rightarrow> pyexn + int" where
  "quorum_for_claim claim_id store paper_id =
     rbind (if truthy paper_id then Inr paper_id
            else case claim_id of PStr s \<Rightarrow> Inr (PStr (paper_id_of_claim s)) | _ \<Rightarrow> Inl AttributeError) (\<lambda>owner.
     rbind (resolve_owner_paper store owner) (\<lambda>paper.
       let raw = (case paper of None \<Rightarrow> PNone | Some p \<Rightarrow> dget p ''topics'')
       in rbind (py_iter (py_or raw (PList []))) (\<lambda>ts.
          rbind (rmap topic_lower ts) (\<lambda>topics. Inr (topics_quorum topics)))))"

section \<open>Reading annotations\<close>

definition payload_of :: "pydict \<Rightarrow> pydict option" where
  "payload_of a = (case dget a ''structured_payload'' of PDict d \<Rightarrow> Some d | _ \<Rightarrow> None)"

definition outcome :: "pydict \<Rightarrow> pyval" where
  "outcome a = (case payload_of a of Some d \<Rightarrow> dget d ''outcome'' | None \<Rightarrow> PNone)"

definition reproduction_kind :: "pydict \<Rightarrow> pyval" where
  "reproduction_kind a =
     (case payload_of a of
        Some d \<Rightarrow> py_or (dget d ''reproduction_kind'') (PStr ''fresh_replication'')
      | None \<Rightarrow> PStr ''fresh_replication'')"

text \<open>A reply that lifts a retraction; the flag must be the boolean \<open>True\<close> itself.\<close>

definition lifts :: "pydict \<Rightarrow> pydict \<Rightarrow> bool" where
  "lifts retraction a =
     (py_eq (dget a ''in_reply_to'') (dget retraction ''id'') \<and>
      py_eq (dget a ''annotation_type'') (PStr ''comment'') \<and>
      (case payload_of a of Some d \<Rightarrow> dget d ''lifts_retraction'' = PBool True | None \<Rightarrow> False) \<and>
      py_eq (dget a ''created_by'') (dget retraction ''created_by''))"

definition is_lifted :: "pydict list \<Rightarrow> pydict \<Rightarrow> bool" where
  "is_lifted anns retraction =
     (truthy (dget retraction ''id'') \<and> list_ex (lifts retraction) anns)"

definition is_superseded :: "pydict list \<Rightarrow> pydict \<Rightarrow> bool" where
  "is_superseded anns a =
     (truthy (dget a ''id'') \<and> list_ex (\<lambda>b. py_eq (dget b ''supersedes'') (dget a ''id'')) anns)"

section \<open>The status\<close>

definition known_statuses :: "string list" where
  "known_statuses = [''untested'', ''partial'', ''replicated'', ''contradicted'', ''retracted'']"

definition count_if :: "('a \<Rightarrow> bool) \<Rightarrow> 'a list \<Rightarrow> int" where
  "count_if P xs = int (length (filter P xs))"

definition derive_replication_status ::
  "pyval \<Rightarrow> store_state \<Rightarrow> pyval \<Rightarrow> pyval \<Rightarrow> pyexn + string" where
  "derive_replication_status claim_id store authored_default paper_id =
     (let anns = list_annotations store;
          relevant = filter (\<lambda>a. py_eq (dget a ''target_id'') claim_id) anns
      in if list_ex (\<lambda>a. py_eq (dget a ''annotation_type'') (PStr ''claim_retraction'') \<and>
             \<not> is_superseded anns a \<and> \<not> is_lifted anns a) relevant
         then Inr ''retracted''
         else
           let reps = filter (\<lambda>a. py_eq (dget a ''annotation_type'') (PStr ''replication'')) relevant;
               reps = filter (\<lambda>a. \<not> is_superseded anns a) reps
           in if reps = [] then
                (case authored_default of
                   PStr s \<Rightarrow> if s \<in> set known_statuses then Inr s else Inr ''untested''
                 | _ \<Rightarrow> Inr ''untested'')
              else
                let supports = count_if (\<lambda>a. py_eq (outcome a) (PStr ''supports'')) reps;
                    contradicts = count_if (\<lambda>a. py_eq (outcome a) (PStr ''contradicts'')) reps;
                    partials = count_if (\<lambda>a. py_eq (outcome a) (PStr ''partial'')) reps;
                    independent_supports = count_if (\<lambda>a. py_eq (outcome a) (PStr ''supports'') \<and>
                      py_eq (reproduction_kind a) (PStr ''fresh_replication'')) reps
                in if 0 < contradicts \<and> supports \<le> contradicts then Inr ''contradicted''
                   else rbind (quorum_for_claim claim_id store paper_id) (\<lambda>quorum.
                     if quorum \<le> independent_supports then Inr ''replicated''
                     else if 0 < supports \<or> 0 < partials then Inr ''partial''
                     else Inr ''untested''))"

definition apply_derived_status :: "pydict \<Rightarrow> store_state \<Rightarrow> pyexn + pydict" where
  "apply_derived_status claim store =
     (let cid = dget claim ''id''
      in if truthy cid
         then rbind (derive_replication_status cid store (dget claim ''replication_status'')
                (dget claim ''paper_id''))
              (\<lambda>st. Inr (dict_set ''replication_status'' (PStr st) claim))
         else Inr claim)"

section \<open>Well-formed corpora\<close>

text \<open>
  The shape the submission path gives papers and annotations: string ids, an optional
  string slug, predecessor and date, an optional list of string topics.
\<close>

definition opt_str :: "pyval \<Rightarrow> bool" where
  "opt_str v = (v = PNone \<or> is_str v)"

definition wf_paper :: "pydict \<Rightarrow> bool" where
  "wf_paper p = (is_str (dget p ''id'') \<and> opt_str (dget p ''id_slug'') \<and>
     opt_str (dget p ''previous_version'') \<and> opt_str (dget p ''submitted_at'') \<and>
     (case dget p ''topics'' of PNone \<Rightarrow> True | PList ts \<Rightarrow> list_all is_str ts | _ \<Rightarrow> False))"

definition wf_papers :: "store_state \<Rightarrow> bool" where
  "wf_papers s = list_all wf_paper (list_papers s)"

lemma opt_str_hashable: "opt_str v \<Longrightarrow> \<not> unhashable v"
  by (auto simp: opt_str_def unhashable_def is_str_iff)

lemma superseded_ids_total: "list_all wf_paper ps \<Longrightarrow> \<exists>ids. superseded_ids ps = Inr ids"
  by (induction ps) (auto simp: Let_def wf_paper_def opt_str_hashable)

lemma slug_heads_total: "list_all wf_paper ps \<Longrightarrow> \<exists>hs. slug_heads old ps = Inr hs \<and> set hs \<subseteq> set ps"
  by (induction ps) (auto simp: in_owner_keys_def wf_paper_def unhashable_def is_str_iff)

lemma submitted_key_str: "wf_paper p \<Longrightarrow> is_str (submitted_key p)"
  by (auto simp: wf_paper_def opt_str_def submitted_key_def py_or_def)

lemma max_from_total:
  "is_str (key m) \<Longrightarrow> \<forall>x \<in> set xs. is_str (key x) \<Longrightarrow> \<exists>y. max_from key m xs = Inr y"
  by (induction xs arbitrary: m) (auto simp: py_gt_def is_str_iff)

lemma py_max_total: "xs \<noteq> [] \<Longrightarrow> \<forall>x \<in> set xs. is_str (key x) \<Longrightarrow> \<exists>y. py_max key xs = Inr y"
  using max_from_total [of key] by (cases xs) (auto simp: py_max_def)

lemma find_paper_by_slug_total:
  assumes "list_all wf_paper ps"
  shows "\<exists>r. find_paper_by_slug ps slug = Inr r \<and> (\<forall>p. r = Some p \<longrightarrow> p \<in> set ps)"
proof -
  define cs where "cs = filter (\<lambda>p. dget p ''id_slug'' = PStr slug) ps"
  have wf: "list_all wf_paper cs" "set cs \<subseteq> set ps" using assms by (auto simp: cs_def list_all_iff)
  obtain old where old: "superseded_ids cs = Inr old" using superseded_ids_total [OF wf(1)] by blast
  obtain hs where hs: "slug_heads old cs = Inr hs" "set hs \<subseteq> set cs"
    using slug_heads_total [OF wf(1)] by blast
  have keys: "\<forall>x \<in> set cs. is_str (submitted_key x)" "\<forall>x \<in> set hs. is_str (submitted_key x)"
    using wf(1) hs(2) submitted_key_str by (auto simp: list_all_iff)
  show ?thesis
  proof (cases cs)
    case Nil
    then show ?thesis by (simp add: find_paper_by_slug_def flip: cs_def)
  next
    case (Cons c cs')
    note c = Cons
    show ?thesis
    proof (cases cs')
      case Nil
      with c wf(2) show ?thesis by (simp add: find_paper_by_slug_def flip: cs_def)
    next
      case (Cons d ds)
      obtain m where m: "py_max submitted_key cs = Inr m" "m \<in> set cs"
        using py_max_total [OF _ keys(1)] c py_max_in by (metis list.discI)
      have "\<exists>r. (case hs of [p] \<Rightarrow> Inr (Some p)
          | [] \<Rightarrow> rbind (py_max submitted_key cs) (Inr \<circ> Some)
          | _ \<Rightarrow> rbind (py_max submitted_key hs) (Inr \<circ> Some)) = (Inr r :: pyexn + pydict option) \<and>
          (\<forall>p. r = Some p \<longrightarrow> p \<in> set cs)"
      proof (cases hs)
        case Nil
        with m show ?thesis by simp
      next
        case (Cons h hs')
        obtain k where "py_max submitted_key hs = Inr k" "k \<in> set hs"
          using py_max_total [OF _ keys(2)] Cons py_max_in by (metis list.discI)
        with Cons hs(2) show ?thesis by (cases hs') auto
      qed
      with c Cons old hs(1) wf(2) show ?thesis
        by (auto simp: find_paper_by_slug_def simp flip: cs_def)
    qed
  qed
qed

lemma get_paper_listed: "get_paper s i = Some p \<Longrightarrow> p \<in> set (list_papers s)"
  by (force simp: get_paper_def list_papers_def dict_values_def dest: map_of_SomeD)

lemma quorum_total:
  assumes "wf_papers s" "opt_str paper_id"
  shows "\<exists>q. quorum_for_claim (PStr c) s paper_id = Inr q"
proof -
  obtain owner where o: "(if truthy paper_id then Inr paper_id else Inr (PStr (paper_id_of_claim c))) =
     (Inr (PStr owner) :: pyexn + pyval)"
    using assms(2) by (cases "truthy paper_id") (auto simp: opt_str_def is_str_iff)
  have "\<exists>r. resolve_owner_paper s (PStr owner) = Inr r \<and> (\<forall>p. r = Some p \<longrightarrow> p \<in> set (list_papers s))"
  proof (cases "is_slug owner")
    case True
    then show ?thesis
      using find_paper_by_slug_total [OF assms(1) [unfolded wf_papers_def], of owner]
      by (simp add: resolve_owner_paper_def)
  next
    case False
    then show ?thesis using get_paper_listed [of s owner] by (simp add: resolve_owner_paper_def)
  qed
  then obtain r where r: "resolve_owner_paper s (PStr owner) = Inr r"
    and in_s: "\<And>p. r = Some p \<Longrightarrow> p \<in> set (list_papers s)"
    by blast
  have "\<exists>ts. (case r of None \<Rightarrow> PNone | Some p \<Rightarrow> dget p ''topics'') = PNone \<or>
      (case r of None \<Rightarrow> PNone | Some p \<Rightarrow> dget p ''topics'') = PList ts \<and> list_all is_str ts"
  proof (cases r)
    case (Some p)
    with in_s assms(1) have "wf_paper p" by (auto simp: wf_papers_def list_all_iff)
    then show ?thesis by (cases "dget p ''topics''") (simp_all add: wf_paper_def Some)
  qed simp
  then obtain ts where ts: "py_iter (py_or (case r of None \<Rightarrow> PNone | Some p \<Rightarrow> dget p ''topics'') (PList [])) = Inr ts"
    "list_all is_str ts"
  proof (elim exE disjE conjE)
    assume "(case r of None \<Rightarrow> PNone | Some p \<Rightarrow> dget p ''topics'') = PNone"
    then show thesis using that [of "[]"] by (simp add: py_or_def py_iter_def)
  next
    fix us assume "(case r of None \<Rightarrow> PNone | Some p \<Rightarrow> dget p ''topics'') = PList us" "list_all is_str us"
    then show thesis using that [of us] by (cases "us = []") (simp_all add: py_or_def py_iter_def)
  qed
  have "rmap topic_lower ts = Inr (map (\<lambda>t. str_lower (case t of PStr s \<Rightarrow> s | _ \<Rightarrow> [])) ts)"
    using ts(2) by (intro rmap_pure) (auto simp: topic_lower_def list_all_iff is_str_iff)
  with o r ts show ?thesis
    by (cases "truthy paper_id") (simp_all add: quorum_for_claim_def Let_def)
qed

section \<open>Properties of the status\<close>

lemma derive_known:
  "derive_replication_status c s d p = Inr st \<Longrightarrow> st \<in> set known_statuses"
  by (auto simp: derive_replication_status_def Let_def rbind_Inr_iff known_statuses_def
      split: if_splits pyval.splits)

text \<open>
  C28: On a well-formed corpus the status of every claim is derived without an
  exception, whatever the annotations are, and is one of the five published values.
\<close>

theorem derive_status_total:
  assumes "wf_papers s" "opt_str paper_id"
  shows "\<exists>st. derive_replication_status (PStr c) s authored paper_id = Inr st \<and> st \<in> set known_statuses"
proof -
  obtain q where "quorum_for_claim (PStr c) s paper_id = Inr q"
    using quorum_total [OF assms] by blast
  then have "\<exists>st. derive_replication_status (PStr c) s authored paper_id = Inr st"
    by (auto simp: derive_replication_status_def Let_def split: pyval.splits)
  with derive_known show ?thesis by blast
qed

theorem derive_status_total_witness:
  "\<exists>st. derive_replication_status (PStr ''rrxiv:2605.00001:c1'') empty_store PNone PNone = Inr st \<and>
    st \<in> set known_statuses"
  by (rule derive_status_total) (simp_all add: wf_papers_def list_papers_def empty_store_def
      dict_values_def opt_str_def)

text \<open>
  A retraction of the claim that no annotation supersedes and no reply of its author
  lifts wins over every replication, contradiction and authored status.
\<close>

lemma live_retraction_wins:
  assumes "a \<in> set (list_annotations s)" "dget a ''target_id'' = PStr c"
    "dget a ''annotation_type'' = PStr ''claim_retraction''"
    "\<not> is_superseded (list_annotations s) a" "\<not> is_lifted (list_annotations s) a"
  shows "derive_replication_status (PStr c) s authored paper_id = Inr ''retracted''"
  using assms by (auto simp: derive_replication_status_def Let_def list_ex_iff)

lemma live_retraction_wins_witness:
  "derive_replication_status (PStr ''p:c1'')
     (empty_store\<lparr>st_annotations := [(''a1'', [(''id'', PStr ''a1''), (''target_id'', PStr ''p:c1''),
        (''annotation_type'', PStr ''claim_retraction'')])]\<rparr>) (PStr ''replicated'') PNone = Inr ''retracted''"
  by (rule live_retraction_wins [where a = "[(''id'', PStr ''a1''), (''target_id'', PStr ''p:c1''),
        (''annotation_type'', PStr ''claim_retraction'')]"])
     (code_simp | simp add: list_annotations_def dict_values_def empty_store_def)+

text \<open>The evidence on a claim: its live retractions and its live replications.\<close>

definition live_retraction :: "pydict list \<Rightarrow> string \<Rightarrow> bool" where
  "live_retraction anns c = list_ex (\<lambda>a. dget a ''target_id'' = PStr c \<and>
     dget a ''annotation_type'' = PStr ''claim_retraction'' \<and> \<not> is_superseded anns a \<and>
     \<not> is_lifted anns a) anns"

definition live_reps :: "pydict list \<Rightarrow> string \<Rightarrow> pydict list" where
  "live_reps anns c = filter (\<lambda>a. dget a ''target_id'' = PStr c \<and>
     dget a ''annotation_type'' = PStr ''replication'' \<and> \<not> is_superseded anns a) anns"

definition reps_with :: "string \<Rightarrow> pydict list \<Rightarrow> int" where
  "reps_with o' reps = int (length (filter (\<lambda>a. outcome a = PStr o') reps))"

definition fresh_supports :: "pydict list \<Rightarrow> int" where
  "fresh_supports reps = int (length (filter (\<lambda>a. outcome a = PStr ''supports'' \<and>
     reproduction_kind a = PStr ''fresh_replication'') reps))"

lemma derive_status_evidence:
  "derive_replication_status (PStr c) s authored paper_id =
    (let anns = list_annotations s; reps = live_reps anns c in
     if live_retraction anns c then Inr ''retracted''
     else if reps = [] then
       (case authored of PStr t \<Rightarrow> if t \<in> set known_statuses then Inr t else Inr ''untested'' | _ \<Rightarrow> Inr ''untested'')
     else if 0 < reps_with ''contradicts'' reps \<and> reps_with ''supports'' reps \<le> reps_with ''contradicts'' reps
       then Inr ''contradicted''
     else rbind (quorum_for_claim (PStr c) s paper_id) (\<lambda>q.
       if q \<le> fresh_supports reps then Inr ''replicated''
       else if 0 < reps_with ''supports'' reps \<or> 0 < reps_with ''partial'' reps then Inr ''partial''
       else Inr ''untested''))"
proof -
  have r: "list_ex P (filter Q xs) \<longleftrightarrow> list_ex (\<lambda>a. Q a \<and> P a) xs" for P Q and xs :: "pydict list"
    by (auto simp: list_ex_iff)
  have f: "filter (\<lambda>a. \<not> is_superseded (list_annotations s) a)
      (filter (\<lambda>a. dget a ''annotation_type'' = PStr ''replication'')
        (filter (\<lambda>a. dget a ''target_id'' = PStr c) (list_annotations s))) =
      live_reps (list_annotations s) c"
    by (simp add: live_reps_def conj_ac)
  show ?thesis
    by (simp only: derive_replication_status_def Let_def py_eq_PStr r f live_retraction_def
        count_if_def reps_with_def fresh_supports_def)
qed

text \<open>
  The annotations a claim's status may depend on: those on the claim, and those that name another
  annotation they supersede or reply to.
\<close>

definition concerns :: "string \<Rightarrow> pydict \<Rightarrow> bool" where
  "concerns c a \<longleftrightarrow> dget a ''target_id'' = PStr c \<or> truthy (dget a ''supersedes'') \<or> truthy (dget a ''in_reply_to'')"


lemma list_ex_concerns:
  assumes "\<And>a. P a \<Longrightarrow> concerns c a" "filter (concerns c) xs = ys"
  shows "list_ex P xs \<longleftrightarrow> list_ex P ys"
  using assms by (auto simp: list_ex_iff)









text \<open>A mathematics paper, whose quorum is one, with one supporting replication.\<close>

definition euclid_store :: store_state where
  "euclid_store = empty_store\<lparr>
     st_papers := [(''u1'', [(''id'', PStr ''u1''), (''id_slug'', PStr ''rrxiv:2605.00009''),
       (''topics'', PList [PStr ''math.HO''])])],
     st_annotations := [(''a1'', [(''id'', PStr ''a1''), (''target_id'', PStr ''rrxiv:2605.00009:prop:I.47''),
       (''annotation_type'', PStr ''replication''),
       (''structured_payload'', PDict [(''outcome'', PStr ''supports'')])])]\<rparr>"


lemma split_on_slug:
  assumes "is_slug p" "CHR '':'' \<notin> set (drop 6 p)"
  shows "split_on (CHR '':'') (p @ CHR '':'' # l) = ''rrxiv'' # drop 6 p # split_on (CHR '':'') l"
proof -
  have "prefix ''rrxiv:'' p"
    using assms(1) by (auto simp: is_slug_def slug_match_def startswith_def Let_def split: if_splits)
  then have p: "p = ''rrxiv'' @ CHR '':'' # drop 6 p"
    by (auto simp: prefix_def)
  have "split_on (CHR '':'') (''rrxiv'' @ CHR '':'' # (drop 6 p @ CHR '':'' # l)) =
      ''rrxiv'' # drop 6 p # split_on (CHR '':'') l"
    using assms(2) split_on_append [of "CHR '':''" "''rrxiv''"] split_on_append [of "CHR '':''" "drop 6 p" l]
    by simp
  then show ?thesis using p by (metis append.assoc append_Cons)
qed

lemma set_drop_split: "set (drop n p) = set (take k (drop n p)) \<union> set (drop (n + k) p)"
  by (metis append_take_drop_id drop_drop add.commute set_append)

lemma slug_no_colon:
  assumes "is_slug p"
  shows "CHR '':'' \<notin> set (drop 6 p)"
proof -
  have digits: "CHR '':'' \<notin> set x" if "list_all is_digit x" for x
    using that by (auto simp: list_all_iff is_digit_def)
  from assms obtain y n where m: "slug_match p = Some (y, n)" by (auto simp: is_slug_def)
  then have f: "list_all is_digit (take 4 (drop 6 p))" "take 1 (drop 10 p) = ''.''"
    "list_all is_digit (take 5 (drop 11 p))" "drop 16 p = [] \<or> drop 16 p = [char_of (10 :: nat)]"
    by (simp_all add: slug_match_def Let_def split: if_splits)
  have "CHR '':'' \<noteq> char_of (10 :: nat)" by (simp add: char_of_def)
  with f have "CHR '':'' \<notin> set (drop 16 p)" by auto
  moreover have "CHR '':'' \<notin> set (take 1 (drop 10 p))" unfolding f(2) by simp
  moreover have "CHR '':'' \<notin> set (take 4 (drop 6 p))" "CHR '':'' \<notin> set (take 5 (drop 11 p))"
    using digits f by blast+
  ultimately show ?thesis
    using set_drop_split [of 6 p 4] set_drop_split [of 10 p 1] set_drop_split [of 11 p 5]
    by simp
qed

text \<open>
  For a claim id of the canonical form, slug, colon, label, the status does not
  depend on whether the caller passes the claim's paper id or leaves it to be read off the
  claim id: the claim endpoints and the paper statistics agree.
\<close>

lemma status_independent_of_caller:
  assumes "is_slug p"
  shows "derive_replication_status (PStr (p @ '':'' @ l)) s authored (PStr p) =
    derive_replication_status (PStr (p @ '':'' @ l)) s authored PNone"
proof -
  have "p \<noteq> []" using assms by (auto simp: is_slug_def slug_match_def startswith_def Let_def)
  have pre: "p = ''rrxiv'' @ CHR '':'' # drop 6 p"
    using assms by (auto simp: is_slug_def slug_match_def startswith_def Let_def prefix_def split: if_splits)
  have "paper_id_of_claim (p @ '':'' @ l) = p"
    using assms split_on_slug [OF assms slug_no_colon [OF assms], of l] pre
    by (cases "split_on (CHR '':'') l") (simp_all add: paper_id_of_claim_def Let_def)
  with \<open>p \<noteq> []\<close> have "quorum_for_claim (PStr (p @ '':'' @ l)) s (PStr p) =
      quorum_for_claim (PStr (p @ '':'' @ l)) s PNone"
    by (simp add: quorum_for_claim_def)
  then show ?thesis by (simp only: derive_status_evidence)
qed

lemma status_independent_of_caller_witness:
  "derive_replication_status (PStr (''rrxiv:2605.00009'' @ '':'' @ ''prop:I.47'')) euclid_store PNone (PStr ''rrxiv:2605.00009'') =
   derive_replication_status (PStr (''rrxiv:2605.00009'' @ '':'' @ ''prop:I.47'')) euclid_store PNone PNone"
proof (rule status_independent_of_caller)
  show "is_slug ''rrxiv:2605.00009''" by code_simp
qed

end
