(* ===== verification/Projection.thy ===== *)
theory Projection
  imports Replication
begin

text \<open>
  The list view of a paper, \<open>server/papers/projection.py\<close>: counts per replication
  status of its claims and the status of the paper as a whole.
\<close>

record stats =
  sg_claims :: int
  sg_replicated :: int
  sg_partial :: int
  sg_contradicted :: int
  sg_contested :: int
  sg_untested :: int
  sg_status :: string
  sg_computed_at :: string

text \<open>The loop over the claims: (replicated, partial, contradicted, retracted, untested).\<close>

type_synonym tallies = "int \<times> int \<times> int \<times> int \<times> int"

definition tally :: "string \<Rightarrow> tallies \<Rightarrow> tallies" where
  "tally rs = (\<lambda>(r, p, c, x, u).
     if rs = ''replicated'' then (r + 1, p, c, x, u)
     else if rs = ''partial'' then (r, p + 1, c, x, u)
     else if rs = ''contradicted'' then (r, p, c + 1, x, u)
     else if rs = ''retracted'' then (r, p, c, x + 1, u)
     else (r, p, c, x, u + 1))"

definition claim_status :: "store_state \<Rightarrow> pydict \<Rightarrow> pyexn + string" where
  "claim_status store claim =
     (if truthy (dget claim ''id'')
      then derive_replication_status (dget claim ''id'') store (dget claim ''replication_status'') PNone
      else Inr ''untested'')"

fun tally_claims :: "store_state \<Rightarrow> pydict list \<Rightarrow> tallies \<Rightarrow> pyexn + tallies" where
  "tally_claims store [] t = Inr t"
| "tally_claims store (c # cs) t =
     rbind (claim_status store c) (\<lambda>rs. tally_claims store cs (tally rs t))"

definition is_retraction_note :: "pydict \<Rightarrow> bool" where
  "is_retraction_note a =
     (py_eq (dget a ''annotation_type'') (PStr ''erratum'') \<and>
      (case dget a ''structured_payload'' of
         PDict d \<Rightarrow> dget d ''retracted'' = PBool True
       | _ \<Rightarrow> False))"

text \<open>\<open>any(a.get("target_id", "").startswith(...))\<close>, with its short circuit.\<close>

fun any_target_under :: "string \<Rightarrow> pydict list \<Rightarrow> pyexn + bool" where
  "any_target_under p [] = Inr False"
| "any_target_under p (a # as) =
     rbind (py_startswith (case dict_get a ''target_id'' of None \<Rightarrow> PStr [] | Some v \<Rightarrow> v) p) (\<lambda>hit.
       if hit then Inr True else any_target_under p as)"

definition rollup :: "bool \<Rightarrow> int \<Rightarrow> tallies \<Rightarrow> bool \<Rightarrow> string" where
  "rollup is_retracted n t has_any = (case t of (r, p, c, x, u) \<Rightarrow>
     if is_retracted then ''retracted''
     else if n = 0 \<or> (r = 0 \<and> p = 0 \<and> c = 0 \<and> \<not> has_any) then ''preprint''
     else if 0 < c \<and> 0 < r then ''contested''
     else if 0 < c then ''contradicted''
     else if 0 < r then ''replicated''
     else if 0 < p then ''partial''
     else ''untested'')"

definition compute_stats :: "string \<Rightarrow> store_state \<Rightarrow> string \<Rightarrow> pyexn + stats" where
  "compute_stats owner_key store now =
     (let claims = filter (\<lambda>c. py_eq (dget c ''paper_id'') (PStr owner_key)) (list_claims store) in
      rbind (tally_claims store claims (0, 0, 0, 0, 0)) (\<lambda>t.
        let anns = list_annotations store;
            paper_annotations = filter (\<lambda>a. py_eq (dget a ''target_id'') (PStr owner_key)) anns;
            is_retracted = list_ex is_retraction_note paper_annotations
        in rbind (if paper_annotations \<noteq> [] then Inr True else any_target_under (owner_key @ '':'') anns)
           (\<lambda>has_any.
             case t of (r, p, c, x, u) \<Rightarrow>
             Inr \<lparr>sg_claims = int (length claims), sg_replicated = r, sg_partial = p,
                  sg_contradicted = c, sg_contested = 0, sg_untested = u,
                  sg_status = rollup is_retracted (int (length claims)) t has_any,
                  sg_computed_at = now\<rparr>)))"

definition stats_dict :: "stats \<Rightarrow> pydict" where
  "stats_dict g =
     [(''claims'', PInt (sg_claims g)), (''replicated'', PInt (sg_replicated g)),
      (''partial'', PInt (sg_partial g)), (''contradicted'', PInt (sg_contradicted g)),
      (''contested'', PInt (sg_contested g)), (''untested'', PInt (sg_untested g)),
      (''status'', PStr (sg_status g)), (''computed_at'', PStr (sg_computed_at g))]"

definition to_list_item :: "pydict \<Rightarrow> store_state \<Rightarrow> string \<Rightarrow> pyexn + pydict" where
  "to_list_item paper store now =
     rbind (claim_owner_key paper) (\<lambda>owner.
     rbind (compute_stats owner store now) (\<lambda>g.
       Inr (dict_set ''stats'' (PDict (stats_dict g)) paper)))"

section \<open>Counts add up\<close>

fun tally_total :: "tallies \<Rightarrow> int" where
  "tally_total (r, p, c, x, u) = r + p + c + x + u"

lemma tally_total_tally: "tally_total (tally rs t) = tally_total t + 1"
  by (cases t) (simp add: tally_def)

lemma tally_claims_total:
  "tally_claims store cs t = Inr t' \<Longrightarrow> tally_total t' = tally_total t + int (length cs)"
proof (induction cs arbitrary: t)
  case Nil
  then show ?case by simp
next
  case (Cons c cs)
  then obtain rs where "tally_claims store cs (tally rs t) = Inr t'" by (auto simp: rbind_Inr_iff)
  from Cons.IH [OF this] show ?case by (simp add: tally_total_tally)
qed

definition tally_count :: "store_state \<Rightarrow> pydict list \<Rightarrow> string \<Rightarrow> int" where
  "tally_count store cs st = int (length (filter (\<lambda>c. claim_status store c = Inr st) cs))"

lemma tally_claims_counts:
  "tally_claims store cs (r, p, c, x, u) = Inr (r', p', c', x', u') \<Longrightarrow>
    r' = r + tally_count store cs ''replicated'' \<and> p' = p + tally_count store cs ''partial'' \<and>
    c' = c + tally_count store cs ''contradicted'' \<and> x' = x + tally_count store cs ''retracted''"
proof (induction cs arbitrary: r p c x u)
  case Nil
  then show ?case by (simp add: tally_count_def)
next
  case (Cons d cs)
  then obtain rs where rs: "claim_status store d = Inr rs"
    and rest: "tally_claims store cs (tally rs (r, p, c, x, u)) = Inr (r', p', c', x', u')"
    by (auto simp: rbind_Inr_iff)
  obtain r1 p1 c1 x1 u1 where t: "tally rs (r, p, c, x, u) = (r1, p1, c1, x1, u1)"
    by (cases "tally rs (r, p, c, x, u)") auto
  from Cons.IH [OF rest [unfolded t]] t rs show ?case
    by (auto simp: tally_def tally_count_def split: if_splits)
qed

section \<open>Properties of the statistics\<close>

lemma tally_untested:
  "tally_claims store cs (r, p, c, x, u) = Inr (r', p', c', x', u') \<Longrightarrow>
    u' = u + int (length cs) - (r' - r) - (p' - p) - (c' - c) - (x' - x)"
  using tally_claims_total [of store cs "(r, p, c, x, u)" "(r', p', c', x', u')"] by simp

definition claims_of :: "store_state \<Rightarrow> string \<Rightarrow> pydict list" where
  "claims_of s owner = filter (\<lambda>c. dget c ''paper_id'' = PStr owner) (list_claims s)"

text \<open>
  The statistics of a paper count each of its claims under the status the claim
  endpoints derive for it, the counts and the retracted claims add up to the number of
  claims, and the paper is contested only if a claim of it is replicated and one is
  contradicted.
\<close>

lemma stats_count_claims:
  assumes "compute_stats owner s now = Inr g"
  shows "sg_claims g = int (length (claims_of s owner)) \<and>
    sg_replicated g = tally_count s (claims_of s owner) ''replicated'' \<and>
    sg_partial g = tally_count s (claims_of s owner) ''partial'' \<and>
    sg_contradicted g = tally_count s (claims_of s owner) ''contradicted'' \<and>
    sg_replicated g + sg_partial g + sg_contradicted g + sg_untested g +
      tally_count s (claims_of s owner) ''retracted'' = sg_claims g \<and>
    (sg_status g = ''contested'' \<longrightarrow> 0 < sg_replicated g \<and> 0 < sg_contradicted g)"
proof -
  from assms obtain r p c x u b1 b2 where
    t: "tally_claims s (claims_of s owner) (0, 0, 0, 0, 0) = Inr (r, p, c, x, u)"
    and g: "sg_claims g = int (length (claims_of s owner))" "sg_replicated g = r" "sg_partial g = p"
      "sg_contradicted g = c" "sg_untested g = u"
      "sg_status g = rollup b1 (int (length (claims_of s owner))) (r, p, c, x, u) b2"
    by (fastforce simp: compute_stats_def claims_of_def Let_def rbind_Inr_iff split: prod.splits)
  from tally_claims_counts [OF t] tally_untested [OF t] g show ?thesis
    by (auto simp: rollup_def split: if_splits)
qed

definition one_claim_store :: store_state where
  "one_claim_store = euclid_store\<lparr>st_claims := [(''rrxiv:2605.00009:prop:I.47'',
     [(''id'', PStr ''rrxiv:2605.00009:prop:I.47''), (''paper_id'', PStr ''rrxiv:2605.00009'')])]\<rparr>"

lemma stats_count_claims_witness:
  "\<exists>g. compute_stats ''rrxiv:2605.00009'' one_claim_store ''now'' = Inr g \<and> sg_claims g = 1 \<and>
     sg_replicated g = tally_count one_claim_store (claims_of one_claim_store ''rrxiv:2605.00009'') ''replicated''"
proof -
  have "compute_stats ''rrxiv:2605.00009'' one_claim_store ''now'' = Inr
    \<lparr>sg_claims = 1, sg_replicated = 1, sg_partial = 0, sg_contradicted = 0, sg_contested = 0,
     sg_untested = 0, sg_status = ''replicated'', sg_computed_at = ''now''\<rparr>"
    by code_simp
  from this stats_count_claims [OF this] show ?thesis by simp
qed

end
