(* ===== verification/Codecs.thy ===== *)
theory Codecs
  imports Py_Order
begin

text \<open>
  The standard library's text encodings, as far as the program uses them: \<open>json.dumps\<close>
  with compact separators and sorted keys, \<open>json.loads\<close>, and URL-safe base64.
  Encoded text is ASCII. Code points above 255 and fractional numbers are outside the
  values of this development, so a text that spells one counts as undecodable.
\<close>

section \<open>JSON, written\<close>

definition bsl :: char where "bsl = char_of (92 :: nat)"
definition dq :: char where "dq = char_of (34 :: nat)"

definition json_char :: "char \<Rightarrow> string" where
  "json_char c =
     (let n = (of_char c :: nat)
      in if c = dq then [bsl, dq]
         else if c = bsl then [bsl, bsl]
         else if n = 10 then [bsl, CHR ''n'']
         else if n = 13 then [bsl, CHR ''r'']
         else if n = 9 then [bsl, CHR ''t'']
         else if n = 8 then [bsl, CHR ''b'']
         else if n = 12 then [bsl, CHR ''f'']
         else if n < 32 \<or> 126 < n
           then [bsl, CHR ''u'', CHR ''0'', CHR ''0'', hex_char (n div 16), hex_char (n mod 16)]
         else [c])"

definition json_str :: "string \<Rightarrow> string" where
  "json_str s = dq # concat (map json_char s) @ [dq]"

fun json_dumps :: "pyval \<Rightarrow> string" where
  "json_dumps PNone = ''null''"
| "json_dumps (PBool b) = (if b then ''true'' else ''false'')"
| "json_dumps (PInt i) = str_of_int i"
| "json_dumps (PStr s) = json_str s"
| "json_dumps (PList xs) = ''['' @ join_on '','' (map json_dumps xs) @ '']''"
| "json_dumps (PDict d) =
     ''{'' @ join_on '',''
       (map (\<lambda>(k, t). json_str k @ '':'' @ t)
         (sort_key fst (map (\<lambda>(k, v). (k, json_dumps v)) d))) @ ''}''"

section \<open>JSON, read\<close>

definition json_space :: "char \<Rightarrow> bool" where
  "json_space c = (c \<in> set [char_of (32 :: nat), char_of (9 :: nat), char_of (10 :: nat), char_of (13 :: nat)])"

definition skip_ws :: "string \<Rightarrow> string" where
  "skip_ws s = dropWhile json_space s"

definition hex_val :: "char \<Rightarrow> nat option" where
  "hex_val c =
     (let n = (of_char c :: nat)
      in if 48 \<le> n \<and> n \<le> 57 then Some (n - 48)
         else if 97 \<le> n \<and> n \<le> 102 then Some (n - 87)
         else if 65 \<le> n \<and> n \<le> 70 then Some (n - 55)
         else None)"

text \<open>The characters up to the closing quote, and what follows it.\<close>

fun read_str :: "string \<Rightarrow> (string \<times> string) option" where
  "read_str [] = None"
| "read_str (c # s) =
     (if c = dq then Some ([], s)
      else if c \<noteq> bsl then
        (if (of_char c :: nat) < 32 then None
         else map_option (\<lambda>(t, r). (c # t, r)) (read_str s))
      else case s of
        [] \<Rightarrow> None
      | e # s' \<Rightarrow>
          if e = CHR ''u'' then
            (case s' of
               h1 # h2 # h3 # h4 # s'' \<Rightarrow>
                 (case (hex_val h1, hex_val h2, hex_val h3, hex_val h4) of
                    (Some 0, Some 0, Some a, Some b) \<Rightarrow>
                      map_option (\<lambda>(t, r). (char_of (16 * a + b) # t, r)) (read_str s'')
                  | _ \<Rightarrow> None)
             | _ \<Rightarrow> None)
          else
            (case map_of [(dq, dq), (bsl, bsl), (CHR ''/'', CHR ''/''),
                (CHR ''n'', char_of (10 :: nat)), (CHR ''r'', char_of (13 :: nat)),
                (CHR ''t'', char_of (9 :: nat)), (CHR ''b'', char_of (8 :: nat)),
                (CHR ''f'', char_of (12 :: nat))] e of
               None \<Rightarrow> None
             | Some x \<Rightarrow> map_option (\<lambda>(t, r). (x # t, r)) (read_str s')))"

text \<open>A number without fraction and exponent; \<open>-0\<close> is the integer 0.\<close>

definition read_num :: "string \<Rightarrow> (int \<times> string) option" where
  "read_num s =
     (let (neg, s) = (case s of c # r \<Rightarrow> if c = CHR ''-'' then (True, r) else (False, s) | [] \<Rightarrow> (False, s));
          ds = takeWhile is_digit s; rest = dropWhile is_digit s;
          (ds, rest) = (case ds of c # c' # r \<Rightarrow> if c = CHR ''0'' then ([c], (c' # r) @ rest) else (ds, rest)
                        | _ \<Rightarrow> (ds, rest))
      in if ds = [] then None
         else case rest of
           c # _ \<Rightarrow> if c \<in> set ''.eE'' then None
                    else Some (if neg then - int (nat_of_str ds) else int (nat_of_str ds), rest)
         | [] \<Rightarrow> Some (if neg then - int (nat_of_str ds) else int (nat_of_str ds), rest))"

text \<open>
  The parser; the fuel bounds the nesting and the lengths, and the text's length is always
  enough for it. Of repeated keys the last value stays, in the first one's place.
\<close>

fun read_value :: "nat \<Rightarrow> string \<Rightarrow> (pyval \<times> string) option"
  and read_items :: "nat \<Rightarrow> string \<Rightarrow> (pyval list \<times> string) option"
  and read_fields :: "nat \<Rightarrow> pydict \<Rightarrow> string \<Rightarrow> (pydict \<times> string) option" where
  "read_value 0 s = None"
| "read_value (Suc n) s =
     (case skip_ws s of
        [] \<Rightarrow> None
      | c # r \<Rightarrow>
          if c = dq then map_option (\<lambda>(t, r). (PStr t, r)) (read_str r)
          else if c = CHR ''['' then
            (case skip_ws r of
               c' # r' \<Rightarrow> if c' = CHR '']'' then Some (PList [], r')
                          else map_option (\<lambda>(xs, r). (PList xs, r)) (read_items n r)
             | [] \<Rightarrow> None)
          else if c = CHR ''{'' then
            (case skip_ws r of
               c' # r' \<Rightarrow> if c' = CHR ''}'' then Some (PDict [], r')
                          else map_option (\<lambda>(d, r). (PDict d, r)) (read_fields n [] r)
             | [] \<Rightarrow> None)
          else if startswith (c # r) ''null'' then Some (PNone, drop 4 (c # r))
          else if startswith (c # r) ''true'' then Some (PBool True, drop 4 (c # r))
          else if startswith (c # r) ''false'' then Some (PBool False, drop 5 (c # r))
          else map_option (\<lambda>(i, r). (PInt i, r)) (read_num (c # r)))"
| "read_items 0 s = None"
| "read_items (Suc n) s =
     (case read_value n s of
        None \<Rightarrow> None
      | Some (v, r) \<Rightarrow>
          (case skip_ws r of
             c # r' \<Rightarrow>
               if c = CHR '']'' then Some ([v], r')
               else if c = CHR '','' then map_option (\<lambda>(vs, r). (v # vs, r)) (read_items n r')
               else None
           | [] \<Rightarrow> None))"
| "read_fields 0 d s = None"
| "read_fields (Suc n) d s =
     (case skip_ws s of
        c # r \<Rightarrow>
          if c \<noteq> dq then None
          else (case read_str r of
             None \<Rightarrow> None
           | Some (k, r1) \<Rightarrow>
               (case skip_ws r1 of
                  c1 # r2 \<Rightarrow>
                    if c1 \<noteq> CHR '':'' then None
                    else (case read_value n r2 of
                       None \<Rightarrow> None
                     | Some (v, r3) \<Rightarrow>
                         (case skip_ws r3 of
                            c3 # r4 \<Rightarrow>
                              if c3 = CHR ''}'' then Some (dict_set k v d, r4)
                              else if c3 = CHR '','' then read_fields n (dict_set k v d) r4
                              else None
                          | [] \<Rightarrow> None))
                | [] \<Rightarrow> None))
      | [] \<Rightarrow> None)"

text \<open>
  UTF-8 of the bytes: one-byte sequences, and the two-byte sequences of the code points
  128 to 255. \<open>json.loads\<close> accepts white space around the value and nothing else.
\<close>

fun utf8_decode :: "bytes \<Rightarrow> string option" where
  "utf8_decode [] = Some []"
| "utf8_decode (b # bs) =
     (let n = (of_char b :: nat)
      in if n < 128 then map_option (\<lambda>t. b # t) (utf8_decode bs)
         else case bs of
           b' # bs' \<Rightarrow>
             let m = (of_char b' :: nat)
             in if n \<in> {194, 195} \<and> 128 \<le> m \<and> m < 192
                then map_option (\<lambda>t. char_of ((n - 194) * 64 + m) # t) (utf8_decode bs')
                else None
         | [] \<Rightarrow> None)"

definition json_loads :: "bytes \<Rightarrow> pyval option" where
  "json_loads b =
     (case utf8_decode b of
        None \<Rightarrow> None
      | Some s \<Rightarrow>
          (case read_value (2 * length s + 2) s of
             Some (v, r) \<Rightarrow> if skip_ws r = [] then Some v else None
           | None \<Rightarrow> None))"

section \<open>URL-safe base64\<close>

text \<open>The alphabet: upper case, lower case, digits, \<open>-\<close> and \<open>_\<close>.\<close>

definition b64_char :: "nat \<Rightarrow> char" where
  "b64_char n =
     (if n < 26 then char_of (n + 65) else if n < 52 then char_of (n + 71)
      else if n < 62 then char_of (n - 4) else if n = 62 then char_of (45 :: nat)
      else char_of (95 :: nat))"

text \<open>The encoding, with its padding already stripped.\<close>

fun b64_encode :: "bytes \<Rightarrow> string" where
  "b64_encode [] = []"
| "b64_encode [a] =
     (let x = of_char a in [b64_char (x div 4), b64_char ((x mod 4) * 16)])"
| "b64_encode [a, b] =
     (let x = of_char a; y = of_char b
      in [b64_char (x div 4), b64_char ((x mod 4) * 16 + y div 16), b64_char ((y mod 16) * 4)])"
| "b64_encode (a # b # c # bs) =
     (let x = of_char a; y = of_char b; z = of_char c
      in [b64_char (x div 4), b64_char ((x mod 4) * 16 + y div 16),
          b64_char ((y mod 16) * 4 + z div 64), b64_char (z mod 64)] @ b64_encode bs)"

text \<open>
  Decoding reads \<open>+\<close> and \<open>/\<close> like their URL-safe replacements and skips any
  other character. The state is the position in a group of four, the bits left over, and
  the padding characters seen.
\<close>

definition b64_val :: "char \<Rightarrow> nat option" where
  "b64_val c =
     (let n = (of_char c :: nat)
      in if 65 \<le> n \<and> n \<le> 90 then Some (n - 65)
         else if 97 \<le> n \<and> n \<le> 122 then Some (n - 71)
         else if 48 \<le> n \<and> n \<le> 57 then Some (n + 4)
         else if n = 43 \<or> n = 45 then Some 62
         else if n = 47 \<or> n = 95 then Some 63
         else None)"

fun b64_scan :: "nat \<Rightarrow> nat \<Rightarrow> nat \<Rightarrow> string \<Rightarrow> bytes option" where
  "b64_scan pos left pads [] = (if pos = 0 then Some [] else None)"
| "b64_scan pos left pads (c # s) =
     (if (of_char c :: nat) = 61 then
        (if 2 \<le> pos then (if 4 \<le> pos + pads + 1 then Some [] else b64_scan pos left (pads + 1) s)
         else b64_scan pos left pads s)
      else case b64_val c of
        None \<Rightarrow> b64_scan pos left pads s
      | Some v \<Rightarrow>
          if pos = 0 then b64_scan 1 v 0 s
          else if pos = 1 then
            map_option (\<lambda>t. char_of (left * 4 + v div 16) # t) (b64_scan 2 (v mod 16) 0 s)
          else if pos = 2 then
            map_option (\<lambda>t. char_of (left * 16 + v div 4) # t) (b64_scan 3 (v mod 4) 0 s)
          else map_option (\<lambda>t. char_of (left * 64 + v) # t) (b64_scan 0 0 0 s))"

definition b64_decode :: "string \<Rightarrow> bytes option" where
  "b64_decode s = (if list_ex (\<lambda>c. 128 \<le> (of_char c :: nat)) s then None else b64_scan 0 0 0 s)"

text \<open>\<open>"=" * (-len(token) % 4)\<close>.\<close>

definition b64_padding :: "string \<Rightarrow> string" where
  "b64_padding s = replicate ((4 - length s mod 4) mod 4) (CHR ''='')"

section \<open>Round trip of base64\<close>

lemma b64_char_props:
  assumes "n < 64"
  shows "b64_val (b64_char n) = Some n" "(of_char (b64_char n) :: nat) \<noteq> 61"
    "(of_char (b64_char n) :: nat) < 128"
proof -
  have c: "(of_char (b64_char n) :: nat) =
     (if n < 26 then n + 65 else if n < 52 then n + 71 else if n < 62 then n - 4
      else if n = 62 then 45 else 95)"
    using assms by (simp add: b64_char_def of_char_of)
  show "b64_val (b64_char n) = Some n" "(of_char (b64_char n) :: nat) \<noteq> 61"
    "(of_char (b64_char n) :: nat) < 128"
    using assms by (auto simp: b64_val_def c Let_def)
qed

lemma equals_code: "of_char (CHR ''='') = (61 :: nat)"
  by simp

lemma b64_scan_char:
  assumes "v < 64"
  shows "b64_scan pos left pads (b64_char v # s) =
    (if pos = 0 then b64_scan 1 v 0 s
     else if pos = 1 then map_option (\<lambda>t. char_of (left * 4 + v div 16) # t) (b64_scan 2 (v mod 16) 0 s)
     else if pos = 2 then map_option (\<lambda>t. char_of (left * 16 + v div 4) # t) (b64_scan 3 (v mod 4) 0 s)
     else map_option (\<lambda>t. char_of (left * 64 + v) # t) (b64_scan 0 0 0 s))"
  using b64_char_props [OF assms] by simp

lemma of_char_lt: "(of_char c :: nat) < 256"
  by (metis nat_of_char_less_256)

lemma split6:
  fixes x y z :: nat
  assumes "x < 256" "y < 256" "z < 256"
  shows "x div 4 < 64" "x mod 4 * 16 + y div 16 < 64" "y mod 16 * 4 + z div 64 < 64" "z mod 64 < 64"
    "x div 4 * 4 + (x mod 4 * 16 + y div 16) div 16 = x"
    "(x mod 4 * 16 + y div 16) mod 16 = y div 16"
    "y div 16 * 16 + (y mod 16 * 4 + z div 64) div 4 = y"
    "(y mod 16 * 4 + z div 64) mod 4 = z div 64"
    "z div 64 * 64 + z mod 64 = z"
    "x mod 4 * 16 < 64" "y mod 16 * 4 < 64"
proof -
  have q: "x div 4 < 64" "y div 16 < 16" "z div 64 < 4" using assms by (auto simp: less_mult_imp_div_less)
  have m: "x mod 4 < 4" "y mod 16 < 16" "z mod 64 < 64" by auto
  show "x div 4 < 64" "x mod 4 * 16 + y div 16 < 64" "y mod 16 * 4 + z div 64 < 64" "z mod 64 < 64"
    "x mod 4 * 16 < 64" "y mod 16 * 4 < 64"
    using q m by linarith+
  have "(x mod 4 * 16 + y div 16) div 16 = x mod 4" "(y mod 16 * 4 + z div 64) div 4 = y mod 16"
    using q by (simp_all add: div_add1_eq)
  then show "x div 4 * 4 + (x mod 4 * 16 + y div 16) div 16 = x"
    "y div 16 * 16 + (y mod 16 * 4 + z div 64) div 4 = y"
    by simp_all
  show "(x mod 4 * 16 + y div 16) mod 16 = y div 16" "(y mod 16 * 4 + z div 64) mod 4 = z div 64"
    "z div 64 * 64 + z mod 64 = z"
    using q by simp_all
qed

lemma b64_bounds:
  "(of_char a :: nat) div 4 < 64" "(of_char a :: nat) mod 4 * 16 + of_char b div 16 < 64"
  "(of_char a :: nat) mod 16 * 4 + of_char b div 64 < 64" "(of_char a :: nat) mod 64 < 64"
  "(of_char a :: nat) mod 4 * 16 < 64" "(of_char a :: nat) mod 16 * 4 < 64"
  by (rule split6 [OF of_char_lt of_char_lt of_char_lt])+

lemma b64_joins:
  "(of_char a :: nat) div 4 * 4 + (of_char a mod 4 * 16 + of_char b div 16) div 16 = of_char a"
  "((of_char a :: nat) mod 4 * 16 + of_char b div 16) mod 16 = of_char b div 16"
  "(of_char b :: nat) div 16 * 16 + (of_char b mod 16 * 4 + of_char c div 64) div 4 = of_char b"
  "((of_char b :: nat) mod 16 * 4 + of_char c div 64) mod 4 = of_char c div 64"
  "(of_char c :: nat) div 64 * 64 + of_char c mod 64 = of_char c"
  by (rule split6 [OF of_char_lt of_char_lt of_char_lt])+

lemma b64_high_bits:
  "(of_char b :: nat) div 16 div 16 = 0" "(of_char b :: nat) div 16 mod 16 = of_char b div 16"
  "(of_char b :: nat) div 64 div 4 = 0" "(of_char b :: nat) div 64 mod 4 = of_char b div 64"
  using of_char_lt [of b] by (simp_all add: div_mult2_eq [symmetric] less_mult_imp_div_less)

lemma b64_scan_pad:
  "b64_scan pos left pads (CHR ''='' # s) =
    (if 2 \<le> pos then (if 4 \<le> pos + pads + 1 then Some [] else b64_scan pos left (pads + 1) s)
     else b64_scan pos left pads s)"
  by simp

lemmas b64_run = b64_scan_char b64_scan_pad b64_bounds b64_joins b64_high_bits

lemma b64_scan_encode:
  "b64_scan 0 0 0 (b64_encode bs @ replicate ((4 - length (b64_encode bs) mod 4) mod 4) (CHR ''='')) = Some bs"
proof (induction bs rule: b64_encode.induct)
  case 1
  then show ?case by simp
next
  case (2 a)
  show ?case by (simp add: Let_def b64_run numeral_2_eq_2 del: b64_scan.simps(2))
next
  case (3 a b)
  show ?case by (simp add: Let_def b64_run del: b64_scan.simps(2))
next
  case (4 a b c bs)
  have len: "length (b64_encode (a # b # c # bs)) mod 4 = length (b64_encode bs) mod 4"
    by (simp add: Let_def)
  show ?case
    unfolding len using "4.IH" [OF refl refl refl]
    by (simp add: Let_def b64_run del: b64_scan.simps(2))
qed

lemma b64_encode_ascii: "c \<in> set (b64_encode bs) \<Longrightarrow> (of_char c :: nat) < 128"
  by (induction bs rule: b64_encode.induct)
     (auto simp: Let_def intro!: b64_char_props(3) b64_bounds)

lemma b64_round_trip: "b64_decode (b64_encode bs @ b64_padding (b64_encode bs)) = Some bs"
  using b64_encode_ascii [of _ bs] b64_scan_encode [of bs]
  by (auto simp: b64_decode_def b64_padding_def list_ex_iff simp flip: not_less)

section \<open>Round trip of flat JSON\<close>

lemma hex_val_char [simp]: "n < 16 \<Longrightarrow> hex_val (hex_char n) = Some n"
  by (auto simp: hex_val_def hex_char_def digit_char_def of_char_of)

lemma special_codes [simp]: "of_char bsl = (92 :: nat)" "of_char dq = (34 :: nat)"
  by (simp_all add: bsl_def dq_def of_char_of)

lemma special_chars [simp]:
  "bsl \<noteq> dq" "dq \<noteq> bsl" "CHR ''u'' \<noteq> bsl" "CHR ''u'' \<noteq> dq" "CHR ''n'' \<noteq> dq" "CHR ''n'' \<noteq> bsl"
  "CHR ''r'' \<noteq> dq" "CHR ''r'' \<noteq> bsl" "CHR ''t'' \<noteq> dq" "CHR ''t'' \<noteq> bsl" "CHR ''b'' \<noteq> dq"
  "CHR ''b'' \<noteq> bsl" "CHR ''f'' \<noteq> dq" "CHR ''f'' \<noteq> bsl" "CHR ''0'' \<noteq> bsl" "CHR ''0'' \<noteq> dq"
  "bsl \<noteq> CHR ''u''" "dq \<noteq> CHR ''u''"
  by (auto simp: bsl_def dq_def char_of_def)

lemma char_of_eq: "(of_char c :: nat) = n \<Longrightarrow> char_of n = c"
  by auto

lemma read_str_json_char:
  "read_str (json_char c @ t) = map_option (\<lambda>(u, r). (c # u, r)) (read_str t)"
proof -
  define n where "n = (of_char c :: nat)"
  have hex: "char_of (16 * (n div 16) + n mod 16) = c" "n div 16 < 16"
    using of_char_lt [of c] by (simp_all add: n_def less_mult_imp_div_less)
  have h0: "hex_val (CHR ''0'') = Some 0" by (simp add: hex_val_def)
  consider "c = dq" | "c = bsl" | "n = 10" | "n = 13" | "n = 9" | "n = 8" | "n = 12"
    | "c \<noteq> dq" "c \<noteq> bsl" "n \<notin> {10, 13, 9, 8, 12}" "n < 32 \<or> 126 < n"
    | "c \<noteq> dq" "c \<noteq> bsl" "n \<notin> {10, 13, 9, 8, 12}" "\<not> (n < 32 \<or> 126 < n)"
    by blast
  then show ?thesis
  proof cases
    case 8
    then have "json_char c = [bsl, CHR ''u'', CHR ''0'', CHR ''0'', hex_char (n div 16), hex_char (n mod 16)]"
      by (simp add: json_char_def n_def Let_def)
    with hex h0 show ?thesis by simp
  next
    case 9
    then have "json_char c = [c]" by (simp add: json_char_def n_def Let_def)
    with 9 show ?thesis by (simp add: n_def)
  qed (auto simp: json_char_def n_def dest: char_of_eq)
qed

lemma read_str_json: "read_str (concat (map json_char s) @ dq # r) = Some (s, r)"
  by (induction s) (simp_all add: read_str_json_char del: read_str.simps(2), simp add: read_str.simps(2))

lemma str_of_nat_first: "str_of_nat n = c # r \<Longrightarrow> is_digit c \<and> (c = CHR ''0'' \<longrightarrow> r = [])"
proof (induction n arbitrary: c r rule: str_of_nat.induct)
  case (1 n)
  show ?case
  proof (cases "n < 10")
    case True
    with "1.prems" show ?thesis by (auto simp: str_of_nat.simps [of n])
  next
    case False
    obtain c' r' where q: "str_of_nat (n div 10) = c' # r'"
      by (cases "str_of_nat (n div 10)") auto
    with False "1.prems" have cr: "c = c'" "r = r' @ [digit_char (n mod 10)]"
      by (simp_all add: str_of_nat.simps [of n])
    have "c' \<noteq> CHR ''0''"
    proof
      assume z: "c' = CHR ''0''"
      with "1.IH" [OF False q] have "str_of_nat (n div 10) = ''0''" by (simp add: q)
      then have "nat_of_str (str_of_nat (n div 10)) = 0" by (simp add: nat_of_str_def digit_val_def)
      with False show False by simp
    qed
    with "1.IH" [OF False q] cr show ?thesis by simp
  qed
qed

lemma takeWhile_digits: "\<not> is_digit c \<Longrightarrow>
    takeWhile is_digit (str_of_nat n @ c # r) = str_of_nat n \<and> dropWhile is_digit (str_of_nat n @ c # r) = c # r"
  using str_of_nat_digits [of n] by (simp add: list_all_iff takeWhile_append2 dropWhile_append2)

text \<open>What may stand behind a value: a number ends before it.\<close>

definition ends_value :: "char \<Rightarrow> bool" where
  "ends_value c \<longleftrightarrow> \<not> is_digit c \<and> c \<notin> set ''.eE''"

lemma ends_value_simps [simp]:
  "ends_value (CHR '','')" "ends_value (CHR '']'')" "ends_value (CHR ''}'')" "ends_value (char_of (10 :: nat))"
  by (auto simp: ends_value_def is_digit_def char_of_def)

lemma read_num_nat:
  assumes "ends_value c"
  shows "read_num (str_of_nat n @ c # r) = Some (int n, c # r)"
    "read_num (CHR ''-'' # str_of_nat n @ c # r) = Some (- int n, c # r)"
proof -
  have c: "\<not> is_digit c" "c \<notin> set ''.eE''" using assms by (auto simp: ends_value_def)
  obtain d ds where d: "str_of_nat n = d # ds" by (cases "str_of_nat n") auto
  have dd: "is_digit d" "d = CHR ''0'' \<longrightarrow> ds = []" using str_of_nat_first [OF d] by auto
  have nm: "d \<noteq> CHR ''-''" using dd by (auto simp: is_digit_def)
  note tw = takeWhile_digits [OF c(1), of n r]
  have v: "nat_of_str (d # ds) = n" using nat_of_str_of_nat [of n] by (simp add: d)
  show "read_num (str_of_nat n @ c # r) = Some (int n, c # r)"
    using tw c nm dd v by (cases ds) (auto simp: read_num_def d Let_def)
  show "read_num (CHR ''-'' # str_of_nat n @ c # r) = Some (- int n, c # r)"
    using tw c dd v by (cases ds) (auto simp: read_num_def d Let_def)
qed

lemma read_num_int:
  "ends_value c \<Longrightarrow> read_num (str_of_int i @ c # r) = Some (i, c # r)"
  by (simp add: str_of_int_def read_num_nat)

text \<open>A value without structure, and the text the parser meets after it.\<close>

fun atomic :: "pyval \<Rightarrow> bool" where
  "atomic (PList _) = False"
| "atomic (PDict _) = False"
| "atomic _ = True"

lemma skip_ws_cons: "\<not> json_space c \<Longrightarrow> skip_ws (c # r) = c # r"
  by (simp add: skip_ws_def)

lemma json_space_code: "json_space c \<longleftrightarrow> (of_char c :: nat) \<in> {32, 9, 10, 13}"
  by (auto simp: json_space_def dest: char_of_eq)

lemma digit_not_special:
  assumes "is_digit c"
  shows "\<not> json_space c" "c \<noteq> dq" "c \<noteq> CHR ''[''" "c \<noteq> CHR ''{''" "c \<noteq> CHR ''n''" "c \<noteq> CHR ''t''" "c \<noteq> CHR ''f''"
  using assms by (auto simp: json_space_code is_digit_def Let_def)

lemma read_value_number:
  assumes "\<not> json_space c" "c \<noteq> dq" "c \<noteq> CHR ''[''" "c \<noteq> CHR ''{''" "c \<noteq> CHR ''n''" "c \<noteq> CHR ''t''" "c \<noteq> CHR ''f''"
  shows "read_value (Suc n) (c # r) = map_option (\<lambda>(i, r). (PInt i, r)) (read_num (c # r))"
  using assms by (simp add: skip_ws_cons startswith_def)

lemma read_value_int:
  assumes "ends_value c"
  shows "read_value (Suc n) (str_of_int i @ c # r) = Some (PInt i, c # r)"
proof -
  obtain d ds where d: "str_of_int i = d # ds" "is_digit d \<or> d = CHR ''-''"
  proof (cases "i < 0")
    case True
    then show thesis using that by (simp add: str_of_int_def)
  next
    case False
    then show thesis using that str_of_nat_first by (cases "str_of_nat (nat i)") (auto simp: str_of_int_def)
  qed
  have "\<not> json_space d" "d \<noteq> dq" "d \<noteq> CHR ''[''" "d \<noteq> CHR ''{''" "d \<noteq> CHR ''n''" "d \<noteq> CHR ''t''" "d \<noteq> CHR ''f''"
    using d(2) digit_not_special [of d] by (auto simp: json_space_code dq_def char_of_def)
  from read_value_number [OF this] read_num_int [OF assms, of i r] show ?thesis
    by (simp add: d(1) del: read_value.simps)
qed

lemma read_value_atomic:
  assumes "atomic v" "ends_value c"
  shows "read_value (Suc n) (json_dumps v @ c # r) = Some (v, c # r)"
proof (cases v)
  case (PInt i)
  with assms(2) show ?thesis by (simp add: read_value_int del: read_value.simps)
next
  case (PStr s)
  have "\<not> json_space dq" by (simp add: json_space_code)
  then show ?thesis by (simp add: PStr json_str_def skip_ws_cons read_str_json)
next
  case (PBool b)
  have "CHR ''f'' \<noteq> dq" "CHR ''t'' \<noteq> dq" by auto
  then show ?thesis by (cases b) (simp_all add: PBool skip_ws_def json_space_code startswith_def)
next
  case PNone
  have "CHR ''n'' \<noteq> dq" by auto
  then show ?thesis by (simp add: PNone skip_ws_def json_space_code startswith_def)
qed (use assms in auto)

lemma read_items_atomic:
  "list_all atomic xs \<Longrightarrow> xs \<noteq> [] \<Longrightarrow> length xs < n \<Longrightarrow>
    read_items n (join_on '','' (map json_dumps xs) @ CHR '']'' # r) = Some (xs, r)"
proof (induction xs arbitrary: n)
  case Nil
  then show ?case by simp
next
  case (Cons x xs)
  then obtain m where n: "n = Suc (Suc m)" by (cases n; cases "n - 1") auto
  have sep: "\<not> json_space (CHR '','')" "\<not> json_space (CHR '']'')" by (simp_all add: json_space_code)
  show ?case
  proof (cases xs)
    case Nil
    with Cons.prems sep show ?thesis
      by (simp add: n read_value_atomic skip_ws_cons del: read_value.simps)
  next
    case (Cons y ys)
    have "read_value (Suc m) (json_dumps x @ CHR '','' # join_on '','' (map json_dumps xs) @ CHR '']'' # r)
       = Some (x, CHR '','' # join_on '','' (map json_dumps xs) @ CHR '']'' # r)"
      using Cons.prems by (intro read_value_atomic) simp_all
    moreover have "read_items (Suc m) (join_on '','' (map json_dumps xs) @ CHR '']'' # r) = Some (xs, r)"
      using Cons.prems Cons by (intro Cons.IH) (simp_all add: n)
    ultimately show ?thesis
      using sep by (simp add: n Cons skip_ws_cons del: read_value.simps)
  qed
qed

lemma hex_char_ascii: "n < 16 \<Longrightarrow> (of_char (hex_char n) :: nat) < 128"
  by (auto simp: hex_char_def digit_char_def of_char_of)

lemma json_char_ascii: "c \<in> set (json_char d) \<Longrightarrow> (of_char c :: nat) < 128"
  using of_char_lt [of d]
  by (auto simp: json_char_def Let_def less_mult_imp_div_less intro: hex_char_ascii split: if_splits)

lemma str_of_int_ascii: "c \<in> set (str_of_int i) \<Longrightarrow> (of_char c :: nat) < 128"
  using str_of_nat_digits [of "nat i"] str_of_nat_digits [of "nat (- i)"]
  by (auto simp: str_of_int_def list_all_iff is_digit_def Let_def split: if_splits)

lemma json_dumps_ascii: "atomic v \<Longrightarrow> c \<in> set (json_dumps v) \<Longrightarrow> (of_char c :: nat) < 128"
  by (cases v) (auto simp: json_str_def dest: json_char_ascii str_of_int_ascii split: if_splits)

lemma set_join_on: "set (join_on sep xs) \<subseteq> set sep \<union> (\<Union> (set ` set xs))"
  by (induction sep xs rule: join_on.induct) auto

lemma utf8_decode_ascii: "(\<And>c. c \<in> set s \<Longrightarrow> (of_char c :: nat) < 128) \<Longrightarrow> utf8_decode s = Some s"
  by (induction s) (auto simp: Let_def)

lemma json_dumps_nonempty: "json_dumps v \<noteq> []"
  by (cases v) (auto simp: str_of_int_def json_str_def)

lemma length_join_on: "(\<And>x. x \<in> set xs \<Longrightarrow> x \<noteq> []) \<Longrightarrow> length xs \<le> length (join_on sep xs)"
proof (induction sep xs rule: join_on.induct)
  case (3 sep x y ys)
  have "x \<noteq> []" using "3.prems" by simp
  then have "1 \<le> length x" by (cases x) auto
  with 3 show ?case by simp
qed (auto simp: Suc_le_eq)

lemma atomic_first:
  assumes "atomic v"
  shows "\<exists>c r. json_dumps v = c # r \<and> \<not> json_space c \<and> c \<noteq> CHR '']''"
proof (cases v)
  case (PInt i)
  show ?thesis
  proof (cases "i < 0")
    case True
    then show ?thesis by (simp add: PInt str_of_int_def json_space_code)
  next
    case False
    obtain c r where c: "str_of_nat (nat i) = c # r" by (cases "str_of_nat (nat i)") auto
    then have "is_digit c" using str_of_nat_first by blast
    then have "\<not> json_space c" "c \<noteq> CHR '']''"
      by (auto simp: is_digit_def Let_def json_space_code)
    with False c show ?thesis by (simp add: PInt str_of_int_def)
  qed
next
  case (PStr s)
  have "\<not> json_space dq" "dq \<noteq> CHR '']''" by (auto simp: json_space_code dq_def char_of_def)
  then show ?thesis by (simp add: PStr json_str_def)
qed (use assms in \<open>auto simp: json_space_code\<close>)

lemma json_flat_round_trip:
  assumes "list_all atomic xs"
  shows "json_loads (json_dumps (PDict [(''k'', PList xs)])) = Some (PDict [(''k'', PList xs)])"
proof -
  let ?body = "join_on '','' (map json_dumps xs)"
  let ?s = "json_dumps (PDict [(''k'', PList xs)])"
  have dqk: "dq \<noteq> CHR ''}''" "CHR ''{'' \<noteq> dq" "CHR ''['' \<noteq> dq" "CHR ''k'' \<noteq> dq" "CHR ''k'' \<noteq> bsl"
    by (auto simp: dq_def bsl_def char_of_def)
  have k: "json_char (CHR ''k'') = ''k''" using dqk by (simp add: json_char_def)
  have s: "?s = CHR ''{'' # dq # CHR ''k'' # dq # CHR '':'' # CHR ''['' # ?body @ CHR '']'' # CHR ''}'' # []"
    by (simp add: json_str_def k)
  have body: "(of_char c :: nat) < 128" if "c \<in> set ?body" for c
  proof -
    from that set_join_on [of "'',''" "map json_dumps xs"]
    have "c = CHR '','' \<or> (\<exists>x \<in> set xs. c \<in> set (json_dumps x))" by auto
    with assms json_dumps_ascii show ?thesis by (auto simp: list_all_iff)
  qed
  have "(of_char c :: nat) < 128" if "c \<in> set ?s" for c
    using that body unfolding s by auto
  then have u: "utf8_decode ?s = Some ?s" by (rule utf8_decode_ascii)
  have len: "length xs \<le> length ?body"
    using length_join_on [of "map json_dumps xs" "'',''"] by (metis image_iff json_dumps_nonempty length_map list.set_map)
  have sp: "\<not> json_space (CHR ''{'')" "\<not> json_space dq" "\<not> json_space (CHR '':'')" "\<not> json_space (CHR ''['')"
    "\<not> json_space (CHR '']'')" "\<not> json_space (CHR ''}'')"
    by (simp_all add: json_space_code)
  obtain n where n: "2 * length ?s + 2 = Suc (Suc (Suc (Suc n)))" "length xs < n"
    using len by (simp add: s)
  have empty: "skip_ws [] = []" "dict_set k (v :: pyval) [] = [(k, v)]" for k :: string and v
    by (simp_all add: skip_ws_def dict_set_def)
  have key: "read_str (CHR ''k'' # dq # r) = Some (''k'', r)" for r
    using read_str_json [of "''k''" r] by (simp add: k)
  have val: "read_value (Suc (Suc n)) (CHR ''['' # ?body @ CHR '']'' # ''}'') = Some (PList xs, ''}'')"
  proof (cases "xs = []")
    case True
    with sp dqk show ?thesis by (simp add: skip_ws_cons)
  next
    case False
    obtain x ys where xs: "xs = x # ys" using False by (cases xs) auto
    from assms xs obtain c t where c: "json_dumps x = c # t" "\<not> json_space c" "c \<noteq> CHR '']''"
      using atomic_first [of x] by auto
    then obtain t' where body: "?body = c # t'" by (cases ys) (auto simp: xs)
    have items: "read_items (Suc n) (?body @ CHR '']'' # ''}'') = Some (xs, ''}'')"
      using assms False n(2) by (intro read_items_atomic) simp_all
    have v: "read_value (Suc (Suc n)) (CHR ''['' # ?body @ CHR '']'' # ''}'') =
        map_option (\<lambda>(xs, r). (PList xs, r)) (read_items (Suc n) (?body @ CHR '']'' # ''}''))"
      using sp dqk c by (simp add: skip_ws_cons body)
    show ?thesis unfolding v items by simp
  qed
  show ?thesis
    unfolding json_loads_def u option.case n(1)
    unfolding s using sp dqk val
    by (subst read_value.simps(2)) (simp add: skip_ws_cons key empty del: read_value.simps)
qed

end
