(* ===== verification/Server_Errors.thy ===== *)
theory Server_Errors
  imports Py_Order
begin

text \<open>
  Problem details, \<open>server/errors.py\<close>: the exception domain code raises, its
  constructors, and the response bodies the two handlers render. Server code returns
  \<open>exn + 'a\<close>: either a problem it raised or an exception of the interpreter that
  no handler knows.
\<close>

record problem =
  pb_status :: int
  pb_title :: string
  pb_detail :: string
  pb_type :: string
  pb_extra :: pydict
  pb_headers :: "(string \<times> string) list"

text \<open>
  Besides problems, routes raise the framework's own HTTP exception, with a status and a
  detail object, and let exceptions of the interpreter through.
\<close>

datatype exn = Problem problem | HttpException int pydict | Raised pyexn

definition problem_base :: string where
  "problem_base = ''https://rrxiv.com/errors/''"

definition slug_from_title :: "string \<Rightarrow> string" where
  "slug_from_title title = map (\<lambda>c. if c = CHR '' '' then CHR ''-'' else c) (str_lower title)"

definition problem_error :: "int \<Rightarrow> string \<Rightarrow> string \<Rightarrow> pydict \<Rightarrow> (string \<times> string) list \<Rightarrow> exn" where
  "problem_error status title detail extra headers = Problem
     \<lparr>pb_status = status, pb_title = title, pb_detail = detail,
      pb_type = problem_base @ slug_from_title title, pb_extra = extra, pb_headers = headers\<rparr>"

definition bad_request :: "string \<Rightarrow> pydict \<Rightarrow> exn" where
  "bad_request detail extra = problem_error 400 ''Bad Request'' detail extra []"

definition unauthorized :: "string \<Rightarrow> exn" where
  "unauthorized detail = problem_error 401 ''Unauthorized'' detail [] []"

definition forbidden :: "string \<Rightarrow> exn" where
  "forbidden detail = problem_error 403 ''Forbidden'' detail [] []"

definition not_found :: "string \<Rightarrow> exn" where
  "not_found detail = problem_error 404 ''Not Found'' detail [] []"

definition conflict :: "string \<Rightarrow> exn" where
  "conflict detail = problem_error 409 ''Idempotency Key Conflict'' detail [] []"

definition validation_error :: "string \<Rightarrow> pydict \<Rightarrow> exn" where
  "validation_error detail extra = problem_error 422 ''Validation Error'' detail extra []"

text \<open>
  What a request whose parameters or body break a declared bound is answered with, without the
  framework's own list of the errors.
\<close>

definition invalid_request :: exn where
  "invalid_request = validation_error ''request body or params failed validation'' []"

definition rate_limited :: "int \<Rightarrow> exn" where
  "rate_limited retry_after = problem_error 429 ''Rate Limited''
     (''retry after '' @ str_of_int retry_after @ '' seconds'') []
     [(''Retry-After'', str_of_int retry_after)]"

text \<open>The status of a response that ends in an exception: the problem's own, or 500.\<close>

definition exn_status :: "exn \<Rightarrow> int" where
  "exn_status e = (case e of Problem p \<Rightarrow> pb_status p | HttpException n _ \<Rightarrow> n | Raised _ \<Rightarrow> 500)"

text \<open>Interpreter exceptions passing through server code.\<close>

definition raising :: "pyexn + 'a \<Rightarrow> exn + 'a" where
  "raising m = (case m of Inl e \<Rightarrow> Inl (Raised e) | Inr a \<Rightarrow> Inr a)"

lemma raising_simps [simp]: "raising (Inl e) = Inl (Raised e)" "raising (Inr a) = Inr a"
  by (simp_all add: raising_def)

lemma raising_Inr_iff [simp]: "raising m = Inr a \<longleftrightarrow> m = Inr a"
  by (cases m) auto

section \<open>Rendering\<close>

definition problem_body :: "problem \<Rightarrow> string option \<Rightarrow> pydict" where
  "problem_body p rid =
     (let body = [(''type'', PStr (pb_type p)), (''title'', PStr (pb_title p)),
                  (''status'', PInt (pb_status p)), (''detail'', PStr (pb_detail p))];
          body = foldl (\<lambda>b (k, v). dict_set k v b) body (pb_extra p)
      in case rid of
           None \<Rightarrow> body
         | Some r \<Rightarrow> if r = [] then body else dict_set ''request_id'' (PStr r) body)"

definition validation_body :: "pyval \<Rightarrow> string option \<Rightarrow> pydict" where
  "validation_body errors rid =
     (let body = [(''type'', PStr (problem_base @ ''validation-error'')),
                  (''title'', PStr ''Validation Error''), (''status'', PInt 422),
                  (''detail'', PStr ''request body or params failed validation''),
                  (''errors'', errors)]
      in case rid of
           None \<Rightarrow> body
         | Some r \<Rightarrow> if r = [] then body else dict_set ''request_id'' (PStr r) body)"

lemma foldl_dict_set_get:
  "k \<notin> fst ` set e \<Longrightarrow> dict_get (foldl (\<lambda>b (k, v). dict_set k v b) b e) k = dict_get b k"
  by (induction e arbitrary: b) auto

text \<open>The standard members survive, unless an extension member overrides one.\<close>

lemma problem_body_members:
  assumes "fst ` set (pb_extra p) \<inter> {''type'', ''title'', ''status'', ''detail''} = {}"
  shows "dget (problem_body p rid) ''status'' = PInt (pb_status p)"
    "dget (problem_body p rid) ''type'' = PStr (pb_type p)"
    "dget (problem_body p rid) ''detail'' = PStr (pb_detail p)"
  using assms
  by (auto simp: problem_body_def Let_def dget_def foldl_dict_set_get split: option.splits)

end
