(* ===== verification/Pagination.thy ===== *)
theory Pagination
  imports Codecs Server_Errors
begin

text \<open>
  Cursor pagination, \<open>server/pagination.py\<close>. A cursor is the encoded key of the last
  item served; the next page starts at the first item strictly after it. The lemmas at
  the end show when following the cursors serves every item once.
\<close>

definition default_limit :: int where "default_limit = 50"
definition max_limit :: int where "max_limit = 200"

definition invalid_cursor :: "string \<Rightarrow> exn" where
  "invalid_cursor detail = bad_request detail [(''code'', PStr ''invalid_cursor'')]"

definition encode_cursor :: "pydict \<Rightarrow> string" where
  "encode_cursor payload = b64_encode (json_dumps (PDict payload))"

definition decode_cursor :: "string \<Rightarrow> exn + pydict" where
  "decode_cursor token =
     (case b64_decode (token @ b64_padding token) of
        None \<Rightarrow> Inl (invalid_cursor ''Cursor could not be decoded.'')
      | Some raw \<Rightarrow>
          (case json_loads raw of
             None \<Rightarrow> Inl (invalid_cursor ''Cursor could not be decoded.'')
           | Some (PDict d) \<Rightarrow> Inr d
           | Some _ \<Rightarrow> Inl (invalid_cursor ''Cursor payload must be an object.'')))"

definition clamp_limit :: "int option \<Rightarrow> exn + int" where
  "clamp_limit limit =
     (case limit of
        None \<Rightarrow> Inr default_limit
      | Some n \<Rightarrow>
          if n < 1 then Inl (bad_request ''limit must be >= 1'' [(''code'', PStr ''invalid_limit'')])
          else if max_limit < n then Inr max_limit
          else Inr n)"

definition safe_key :: "pyval \<Rightarrow> string" where
  "safe_key v = (if v = PNone then [] else py_repr v)"

text \<open>Keys that cannot be compared fall back to their printed forms.\<close>

definition strictly_after :: "pyval list \<Rightarrow> pyval list \<Rightarrow> bool \<Rightarrow> bool" where
  "strictly_after candidate anchor desc =
     (case (if desc then py_lt_list candidate anchor else py_lt_list anchor candidate) of
        Inr b \<Rightarrow> b
      | Inl _ \<Rightarrow>
          let cand = map safe_key candidate; anch = map safe_key anchor
          in if desc then cand < anch else anch < cand)"

text \<open>The loop that looks for the first item after the anchor; past the end when there is none.\<close>

fun first_after :: "('a \<Rightarrow> pyval list) \<Rightarrow> pyval list \<Rightarrow> bool \<Rightarrow> 'a list \<Rightarrow> nat" where
  "first_after key anchor desc [] = 0"
| "first_after key anchor desc (x # xs) =
     (if strictly_after (key x) anchor desc then 0 else Suc (first_after key anchor desc xs))"

definition page_start :: "('a \<Rightarrow> pyval list) \<Rightarrow> string option \<Rightarrow> bool \<Rightarrow> 'a list \<Rightarrow> exn + nat" where
  "page_start key cursor desc sorted_items =
     (case cursor of
        None \<Rightarrow> Inr 0
      | Some token \<Rightarrow>
          if token = [] then Inr 0
          else rbind (decode_cursor token) (\<lambda>payload.
            case dict_get payload ''k'' of
              None \<Rightarrow> Inl (invalid_cursor ''Cursor is incompatible with the requested sort order.'')
            | Some k \<Rightarrow> rbind (raising (py_iter k)) (\<lambda>anchor.
                Inr (first_after key anchor desc sorted_items))))"

text \<open>\<open>order\<close> is a literal at every call, so it is a flag here: true for descending.\<close>

definition paginate ::
  "'a list \<Rightarrow> string option \<Rightarrow> int option \<Rightarrow> ('a \<Rightarrow> pyval list) \<Rightarrow> bool \<Rightarrow> exn + 'a list \<times> string option" where
  "paginate items cursor limit key desc =
     rbind (clamp_limit limit) (\<lambda>page_size.
     rbind (raising (py_sorted key desc items)) (\<lambda>sorted_items.
     rbind (page_start key cursor desc sorted_items) (\<lambda>start.
       let stop = start + nat page_size;
           page = take (nat page_size) (drop start sorted_items)
       in Inr (page,
            if stop < length sorted_items \<and> page \<noteq> []
            then Some (encode_cursor [(''k'', PList (key (last page)))]) else None))))"

section \<open>Cursors\<close>

lemma cursor_round_trip:
  "list_all atomic ks \<Longrightarrow>
    decode_cursor (encode_cursor [(''k'', PList ks)]) = Inr [(''k'', PList ks)]"
  using json_flat_round_trip [of ks] b64_round_trip [of "json_dumps (PDict [(''k'', PList ks)])"]
  by (simp add: decode_cursor_def encode_cursor_def)

lemma b64_encode_empty: "b64_encode bs = [] \<longleftrightarrow> bs = []"
  by (cases bs rule: b64_encode.cases) (auto simp: Let_def)

lemma encode_cursor_nonempty [simp]: "encode_cursor d \<noteq> []"
  by (simp add: encode_cursor_def b64_encode_empty)

lemma clamp_limit_bounds: "clamp_limit limit = Inr n \<Longrightarrow> 1 \<le> n \<and> n \<le> 200"
  by (auto simp: clamp_limit_def default_limit_def max_limit_def split: option.splits if_splits)

section \<open>Keys of one shape\<close>

text \<open>
  The routers' keys: tuples of strings and integers, with the same types at every
  position (the shape: true for a string).
\<close>

fun shaped :: "bool list \<Rightarrow> pyval list \<Rightarrow> bool" where
  "shaped [] [] = True"
| "shaped (s # sh) (v # vs) = ((if s then is_str v else (\<exists>i. v = PInt i)) \<and> shaped sh vs)"
| "shaped _ _ = False"

lemma shaped_atomic: "shaped sh k \<Longrightarrow> list_all atomic k"
  by (induction sh k rule: shaped.induct) (auto simp: is_str_iff split: if_splits)

lemma shaped_cases:
  assumes "shaped (s # sh) k"
  obtains v vs where "k = v # vs" "shaped sh vs" "if s then is_str v else (\<exists>i. v = PInt i)"
  using assms by (cases k) auto

lemma shaped_compare:
  assumes "shaped sh a" "shaped sh b"
  shows "\<exists>r. py_lt_list a b = Inr r"
  using assms
proof (induction sh arbitrary: a b)
  case Nil
  then show ?case by (cases a; cases b) auto
next
  case (Cons s sh)
  then show ?case
    by (elim shaped_cases) (auto simp: is_str_iff split: if_splits)
qed

lemma key_lt_shaped:
  assumes "shaped (s # sh) (v # a)" "shaped (s # sh) (w # b)"
  shows "key_lt (v # a) (w # b) \<longleftrightarrow> (if v = w then key_lt a b else py_lt v w = Inr True)"
    "py_lt v w = Inr True \<longrightarrow> py_lt w v \<noteq> Inr True"
    "v \<noteq> w \<longrightarrow> py_lt v w = Inr True \<or> py_lt w v = Inr True"
  using assms by (auto simp: key_lt_def is_str_iff split: if_splits)

lemma key_lt_irrefl: "shaped sh a \<Longrightarrow> \<not> key_lt a a"
proof (induction sh a rule: shaped.induct)
  case (2 s sh v vs)
  then show ?case using key_lt_shaped(1) [of s sh v vs v vs] by simp
qed (simp_all add: key_lt_def)

lemma key_lt_total: "shaped sh a \<Longrightarrow> shaped sh b \<Longrightarrow> a \<noteq> b \<Longrightarrow> key_lt a b \<or> key_lt b a"
proof (induction sh arbitrary: a b)
  case Nil
  then show ?case by (cases a; cases b) auto
next
  case (Cons s sh)
  from Cons.prems obtain v vs w ws where "a = v # vs" "b = w # ws" "shaped sh vs" "shaped sh ws"
    by (elim shaped_cases)
  with Cons key_lt_shaped(1,3) [of s sh v vs w ws] key_lt_shaped(1) [of s sh w ws v vs] show ?case
    by auto
qed

lemma py_lt_trans:
  assumes "if s then is_str u else (\<exists>i. u = PInt i)" "if s then is_str v else (\<exists>i. v = PInt i)"
    "if s then is_str w else (\<exists>i. w = PInt i)" "py_lt u v = Inr True" "py_lt v w = Inr True"
  shows "py_lt u w = Inr True"
  using assms by (cases s) (auto simp: is_str_iff)

lemma key_lt_trans:
  "shaped sh a \<Longrightarrow> shaped sh b \<Longrightarrow> shaped sh c \<Longrightarrow> key_lt a b \<Longrightarrow> key_lt b c \<Longrightarrow> key_lt a c"
proof (induction sh arbitrary: a b c)
  case Nil
  then show ?case by (cases a; cases b) (auto simp: key_lt_def)
next
  case (Cons s sh)
  from Cons.prems(1-3) obtain u us v vs w ws where
    k: "a = u # us" "b = v # vs" "c = w # ws" and sh: "shaped sh us" "shaped sh vs" "shaped sh ws"
    and t: "if s then is_str u else (\<exists>i. u = PInt i)" "if s then is_str v else (\<exists>i. v = PInt i)"
      "if s then is_str w else (\<exists>i. w = PInt i)"
    by (elim shaped_cases)
  note uv = key_lt_shaped [of s sh u us v vs] and vw = key_lt_shaped [of s sh v vs w ws]
    and uw = key_lt_shaped [of s sh u us w ws]
  have shs: "shaped (s # sh) (u # us)" "shaped (s # sh) (v # vs)" "shaped (s # sh) (w # ws)"
    using Cons.prems k by auto
  from Cons.prems(4) have 1: "if u = v then key_lt us vs else py_lt u v = Inr True"
    using uv(1) shs k by simp
  from Cons.prems(5) have 2: "if v = w then key_lt vs ws else py_lt v w = Inr True"
    using vw(1) shs k by simp
  have "if u = w then key_lt us ws else py_lt u w = Inr True"
    using 1 2 Cons.IH [OF sh] py_lt_trans [OF t] uv(2) vw(2) shs by (auto split: if_splits)
  then show ?case using uw(1) shs k by simp
qed

lemma key_lt_asym: "shaped sh a \<Longrightarrow> shaped sh b \<Longrightarrow> key_lt a b \<Longrightarrow> \<not> key_lt b a"
  using key_lt_trans key_lt_irrefl by blast

section \<open>Following the cursors\<close>

text \<open>A client that asks for the next page until there is none; the fuel bounds the requests.\<close>

fun walk_pages :: "nat \<Rightarrow> 'a list \<Rightarrow> int option \<Rightarrow> ('a \<Rightarrow> pyval list) \<Rightarrow> bool \<Rightarrow> string option \<Rightarrow> exn + 'a list list" where
  "walk_pages 0 items limit key desc cursor = Inr []"
| "walk_pages (Suc n) items limit key desc cursor =
     rbind (paginate items cursor limit key desc) (\<lambda>(page, next_cursor).
       case next_cursor of
         None \<Rightarrow> Inr [page]
       | Some c \<Rightarrow> rbind (walk_pages n items limit key desc (Some c)) (\<lambda>ps. Inr (page # ps)))"

definition before :: "('a \<Rightarrow> pyval list) \<Rightarrow> bool \<Rightarrow> 'a \<Rightarrow> 'a \<Rightarrow> bool" where
  "before key desc x y = (if desc then key_lt (key y) (key x) else key_lt (key x) (key y))"

lemma strictly_after_before:
  assumes "shaped sh (key x)" "shaped sh (key y)"
  shows "strictly_after (key y) (key x) desc \<longleftrightarrow> before key desc x y"
  using shaped_compare [OF assms] shaped_compare [OF assms(2,1)]
  by (auto simp: strictly_after_def before_def key_lt_def)

lemma sort_strict:
  assumes "\<And>x. x \<in> set items \<Longrightarrow> shaped sh (key x)" "distinct (map key items)"
  shows "sorted_wrt (before key desc) (sort_by (before key desc) items)"
proof -
  let ?L = "sort_by (before key desc) items"
  have sh: "\<And>x. x \<in> set ?L \<Longrightarrow> shaped sh (key x)" using assms(1) by simp
  have "mset (map key ?L) = mset (map key items)" by simp
  then have d: "distinct (map key ?L)" using assms(2) mset_eq_imp_distinct_iff by blast
  have "sorted_wrt (\<lambda>a b. \<not> before key desc b a) ?L"
  proof (rule sorted_sort_by)
    show "\<forall>a \<in> set items. \<forall>b \<in> set items. before key desc a b \<longrightarrow> \<not> before key desc b a"
      using assms(1) by (auto simp: before_def dest: key_lt_asym [of sh, rotated 2])
    show "\<forall>a \<in> set items. \<forall>b \<in> set items. \<forall>c \<in> set items.
        \<not> before key desc a b \<longrightarrow> \<not> before key desc b c \<longrightarrow> \<not> before key desc a c"
      using assms(1) key_lt_total key_lt_trans unfolding before_def by (smt (verit, ccfv_threshold))
  qed
  then have nb: "\<not> before key desc (?L ! j) (?L ! i)" if "i < j" "j < length ?L" for i j
    using that by (simp add: sorted_wrt_iff_nth_less)
  have "before key desc (?L ! i) (?L ! j)" if ij: "i < j" "j < length ?L" for i j
  proof -
    have "key (?L ! i) \<noteq> key (?L ! j)"
      using d ij nth_eq_iff_index_eq [OF d, of i j] by simp
    moreover have "shaped sh (key (?L ! i))" "shaped sh (key (?L ! j))"
      using sh ij by (simp_all del: set_sort_by)
    ultimately show ?thesis
      using nb [OF ij] key_lt_total [of sh "key (?L ! i)" "key (?L ! j)"]
      by (auto simp: before_def)
  qed
  then show ?thesis by (simp add: sorted_wrt_iff_nth_less)
qed

lemma first_after_nth:
  assumes "\<And>x. x \<in> set L \<Longrightarrow> shaped sh (key x)" "sorted_wrt (before key desc) L" "n < length L"
  shows "first_after key (key (L ! n)) desc L = Suc n"
  using assms
proof (induction L arbitrary: n)
  case Nil
  then show ?case by simp
next
  case (Cons x xs)
  show ?case
  proof (cases n)
    case 0
    have "\<not> strictly_after (key x) (key x) desc"
      using Cons.prems(1) key_lt_irrefl by (subst strictly_after_before [of sh]) (auto simp: before_def)
    moreover have "first_after key (key x) desc xs = 0"
      using Cons.prems(1,2) by (cases xs) (auto simp: strictly_after_before [of sh])
    ultimately show ?thesis using 0 by simp
  next
    case (Suc m)
    with Cons.prems have m: "m < length xs" by simp
    then have b: "before key desc x (xs ! m)" using Cons.prems(2) by simp
    have "\<not> before key desc (xs ! m) x"
      using b Cons.prems(1) m key_lt_asym unfolding before_def by (metis list.set_intros nth_mem)
    then have "\<not> strictly_after (key x) (key (xs ! m)) desc"
      using Cons.prems(1) m by (subst strictly_after_before [of sh]) auto
    with Suc m Cons show ?thesis by simp
  qed
qed

lemma py_sorted_shaped:
  assumes "\<And>x. x \<in> set items \<Longrightarrow> shaped sh (key x)"
  shows "py_sorted key desc items = Inr (sort_by (before key desc) items)"
proof -
  have "comparable_keys (map key items)"
    using assms shaped_compare by (fastforce simp: comparable_keys_def list_all_iff)
  then show ?thesis by (simp add: py_sorted_def before_def [abs_def])
qed

lemma paginate_at:
  assumes "\<And>x. x \<in> set items \<Longrightarrow> shaped sh (key x)" "distinct (map key items)" "clamp_limit limit = Inr sz"
    and "L = sort_by (before key desc) items"
    and "n = 0 \<and> cursor = None \<or>
      (\<exists>m. n = Suc m \<and> m < length L \<and> cursor = Some (encode_cursor [(''k'', PList (key (L ! m)))]))"
  shows "paginate items cursor limit key desc = Inr (take (nat sz) (drop n L),
     if n + nat sz < length L then Some (encode_cursor [(''k'', PList (key (L ! (n + nat sz - 1))))])
     else None)"
proof -
  have sz: "0 < nat sz" using clamp_limit_bounds [OF assms(3)] by simp
  have sh: "\<And>x. x \<in> set L \<Longrightarrow> shaped sh (key x)" using assms(1,4) by simp
  have strict: "sorted_wrt (before key desc) L" using sort_strict [OF assms(1,2)] assms(4) by simp
  have start: "page_start key cursor desc L = Inr n"
  proof (cases "cursor = None")
    case True
    with assms(5) show ?thesis by (auto simp: page_start_def)
  next
    case False
    with assms(5) obtain m where m: "n = Suc m" "m < length L"
      "cursor = Some (encode_cursor [(''k'', PList (key (L ! m)))])" by auto
    have "list_all atomic (key (L ! m))" using sh m(2) shaped_atomic nth_mem by blast
    from cursor_round_trip [OF this] first_after_nth [OF sh strict m(2)] m show ?thesis
      by (simp add: page_start_def py_iter_def)
  qed
  have last: "last (take (nat sz) (drop n L)) = L ! (n + nat sz - 1)" if "n + nat sz < length L"
    using that sz by (subst last_conv_nth) auto
  have sorted: "py_sorted key desc items = Inr L"
    using py_sorted_shaped [OF assms(1)] assms(4) by simp
  show ?thesis
    using sz last by (auto simp add: paginate_def assms(3) start sorted Let_def)
qed

lemma walk_pages_from:
  assumes "\<And>x. x \<in> set items \<Longrightarrow> shaped sh (key x)" "distinct (map key items)" "clamp_limit limit = Inr sz"
    and "L = sort_by (before key desc) items"
    and "n = 0 \<and> cursor = None \<or>
      (\<exists>m. n = Suc m \<and> m < length L \<and> cursor = Some (encode_cursor [(''k'', PList (key (L ! m)))]))"
    and "length L - n < fuel"
  shows "\<exists>ps. walk_pages fuel items limit key desc cursor = Inr ps \<and> concat ps = drop n L"
  using assms(5,6)
proof (induction fuel arbitrary: n cursor)
  case 0
  then show ?case by simp
next
  case (Suc fuel)
  have sz: "0 < nat sz" using clamp_limit_bounds [OF assms(3)] by simp
  note page = paginate_at [OF assms(1-4) Suc.prems(1)]
  show ?case
  proof (cases "n + nat sz < length L")
    case False
    with page show ?thesis by simp
  next
    case True
    let ?c = "encode_cursor [(''k'', PList (key (L ! (n + nat sz - 1))))]"
    obtain ps where "walk_pages fuel items limit key desc (Some ?c) = Inr ps" "concat ps = drop (n + nat sz) L"
    proof (rule exE [OF Suc.IH [of "n + nat sz" "Some ?c"]])
      show "n + nat sz = 0 \<and> Some ?c = None \<or>
        (\<exists>m. n + nat sz = Suc m \<and> m < length L \<and> Some ?c = Some (encode_cursor [(''k'', PList (key (L ! m)))]))"
        using True sz by (intro disjI2 exI [where x = "n + nat sz - 1"]) simp
      show "length L - (n + nat sz) < fuel" using Suc.prems(2) True sz by simp
    qed blast
    moreover have "take (nat sz) (drop n L) @ drop (n + nat sz) L = drop n L"
      by (metis append_take_drop_id drop_drop add.commute)
    ultimately show ?thesis using page True by simp
  qed
qed

text \<open>
  Following the cursors from the first page to the last one serves every item
  exactly once, in the requested order, when the items' keys are distinct tuples of one
  shape; the number of items bounds the number of requests.
\<close>

lemma pages_serve_everything:
  assumes "\<forall>x \<in> set items. shaped sh (key x)" "distinct (map key items)" "clamp_limit limit = Inr sz"
  shows "\<exists>ps. walk_pages (Suc (length items)) items limit key desc None = Inr ps \<and>
    mset (concat ps) = mset items \<and> sorted_wrt (before key desc) (concat ps)"
proof -
  have sh: "\<And>x. x \<in> set items \<Longrightarrow> shaped sh (key x)" using assms(1) by blast
  let ?L = "sort_by (before key desc) items"
  have "\<exists>ps. walk_pages (Suc (length items)) items limit key desc None = Inr ps \<and> concat ps = drop 0 ?L"
    by (rule walk_pages_from [OF sh assms(2,3)]) auto
  then show ?thesis using sort_strict [OF sh assms(2), of desc] by auto
qed

lemma pages_serve_everything_witness:
  "\<exists>ps. walk_pages 4 [3, 1, 2] (Some 2) (\<lambda>i. [PInt i]) True None = Inr ps \<and> mset (concat ps) = {#1, 2, 3#}"
proof -
  have "\<forall>x \<in> set [3, 1, 2 :: int]. shaped [False] [PInt x]" by simp
  moreover have "distinct (map (\<lambda>i. [PInt i]) [3, 1, 2])" by simp
  moreover have "clamp_limit (Some 2) = Inr 2" by code_simp
  ultimately have "\<exists>ps. walk_pages (Suc (length [3, 1, 2 :: int])) [3, 1, 2] (Some 2) (\<lambda>i. [PInt i]) True None
      = Inr ps \<and> mset (concat ps) = mset [3, 1, 2] \<and> sorted_wrt (before (\<lambda>i. [PInt i]) True) (concat ps)"
    by (rule pages_serve_everything)
  then show ?thesis by (auto simp: add_mset_commute numeral_3_eq_3 [symmetric] simp del: walk_pages.simps)
qed

text \<open>Two items with one key at a page boundary: the second one is never served.\<close>

lemma tied_keys_lose_an_item:
  "walk_pages 3 [(1 :: int), 2] (Some 1) (\<lambda>_. [PStr ''k'']) True None = Inr [[1], []]"
  by code_simp

text \<open>A cursor whose \<open>k\<close> is no sequence escapes the handler for malformed cursors.\<close>

lemma non_sequence_cursor_raises:
  "paginate [1 :: int] (Some (encode_cursor [(''k'', PInt 5)])) None (\<lambda>i. [PInt i]) True = Inl (Raised TypeError)"
  by code_simp

end
