(* ===== verification/Claims_Router.thy ===== *)
theory Claims_Router
  imports Replication Pagination
begin

text \<open>
  The claims endpoints, \<open>server/claims/router.py\<close>. A handler is a function of the
  store and the validated parameters (the framework enforces the declared bounds on
  \<open>limit\<close>); reading one claim also bumps its view counter.
\<close>

definition list_claims_endpoint ::
  "store_state \<Rightarrow> string option \<Rightarrow> int option \<Rightarrow> exn + pydict list \<times> string option" where
  "list_claims_endpoint store cursor limit =
     rbind (raising (rmap (\<lambda>c. apply_derived_status c store) (list_claims store))) (\<lambda>items.
       paginate items cursor limit
         (\<lambda>c. [py_or (dget c ''paper_id'') (PStr []), py_or (dget c ''id'') (PStr [])]) True)"

section \<open>Most used claims\<close>

text \<open>How many times each id occurs among the \<open>depends_on\<close> targets of the corpus.\<close>

fun count_targets :: "pyval list \<Rightarrow> (string \<times> int) list \<Rightarrow> (string \<times> int) list" where
  "count_targets [] d = d"
| "count_targets (t # ts) d =
     (let tid = py_str t
      in count_targets ts (dict_set tid ((case dict_get d tid of None \<Rightarrow> 0 | Some n \<Rightarrow> n) + 1) d))"

fun dependents_of :: "pydict list \<Rightarrow> (string \<times> int) list \<Rightarrow> pyexn + (string \<times> int) list" where
  "dependents_of [] d = Inr d"
| "dependents_of (c # cs) d =
     rbind (py_iter (py_or (dget c ''depends_on'') (PList []))) (\<lambda>ts. dependents_of cs (count_targets ts d))"

text \<open>
  The score is \<open>dependents + replications + 0.5 * supports\<close>; it is kept doubled here,
  which orders the claims the same way.
\<close>

definition rank_claim :: "(string \<times> int) list \<Rightarrow> pydict \<Rightarrow> pyexn + int \<times> int \<times> pydict" where
  "rank_claim dependents claim =
     (let cid = py_str (dget claim ''id'') in
      rbind (case dget claim ''replications'' of
               PList xs \<Rightarrow> Inr (int (length xs))
             | v \<Rightarrow> py_int (py_or v (PInt 0))) (\<lambda>replications.
      rbind (py_len (py_or (dget claim ''supports'') (PList []))) (\<lambda>supports.
        let d = (case dict_get dependents cid of None \<Rightarrow> 0 | Some n \<Rightarrow> n)
        in Inr (2 * d + 2 * replications + supports, d, claim))))"

definition dget_default :: "pydict \<Rightarrow> string \<Rightarrow> pyval \<Rightarrow> pyval" where
  "dget_default d k v = (case dict_get d k of None \<Rightarrow> v | Some w \<Rightarrow> w)"

definition top_item :: "int \<times> int \<times> pydict \<Rightarrow> pydict" where
  "top_item = (\<lambda>(score, dep_count, claim).
     [(''id'', PStr (py_str (dget claim ''id''))),
      (''statement'', dget_default claim ''statement'' (PStr [])),
      (''dependents_count'', PInt dep_count), (''queries'', PInt dep_count)])"

definition list_top_claims :: "store_state \<Rightarrow> nat \<Rightarrow> pyexn + pydict list" where
  "list_top_claims store limit =
     rbind (dependents_of (list_claims store) []) (\<lambda>dependents.
     rbind (rmap (rank_claim dependents) (list_claims store)) (\<lambda>ranked.
       Inr (map top_item (take limit (sort_key (\<lambda>(score, _, _). - score) ranked)))))"

section \<open>One claim\<close>

definition get_claim_endpoint :: "string \<Rightarrow> store_state \<Rightarrow> exn + pydict \<times> store_state" where
  "get_claim_endpoint claim_id store =
     (case get_claim store claim_id of
        None \<Rightarrow> Inl (not_found (''claim '' @ claim_id @ '' not found''))
      | Some c \<Rightarrow>
          let (views, store') = bump_claim_view claim_id store
          in rbind (raising (apply_derived_status c store')) (\<lambda>payload.
               Inr (dict_set ''views_count'' (PInt views) payload, store')))"

section \<open>Edges\<close>

type_synonym edge = "string \<times> string \<times> string"

definition outgoing :: "store_state \<Rightarrow> string \<Rightarrow> string \<Rightarrow> string \<Rightarrow> pyexn + edge list" where
  "outgoing store claim_id field kind =
     (case get_claim store claim_id of
        None \<Rightarrow> Inr []
      | Some origin \<Rightarrow>
          rbind (py_iter (py_or (dget origin field) (PList []))) (\<lambda>ts.
            Inr (map (\<lambda>t. (claim_id, py_str t, kind)) ts)))"

fun incoming_from :: "pydict list \<Rightarrow> string \<Rightarrow> string \<Rightarrow> string \<Rightarrow> pyexn + edge list" where
  "incoming_from [] claim_id field kind = Inr []"
| "incoming_from (c # cs) claim_id field kind =
     rbind (str_in claim_id (py_or (dget c field) (PList []))) (\<lambda>hit.
     rbind (incoming_from cs claim_id field kind) (\<lambda>es.
       Inr (if hit then (py_str (py_or (dget c ''id'') (PStr [])), claim_id, kind) # es else es)))"

definition incoming :: "store_state \<Rightarrow> string \<Rightarrow> string \<Rightarrow> string \<Rightarrow> pyexn + edge list" where
  "incoming store claim_id field kind = incoming_from (list_claims store) claim_id field kind"

definition claim_depends_on :: "store_state \<Rightarrow> string \<Rightarrow> pyexn + edge list" where
  "claim_depends_on store i = outgoing store i ''depends_on'' ''depends_on''"

definition claim_dependents :: "store_state \<Rightarrow> string \<Rightarrow> pyexn + edge list" where
  "claim_dependents store i = incoming store i ''depends_on'' ''depends_on''"

definition claim_supports :: "store_state \<Rightarrow> string \<Rightarrow> pyexn + edge list" where
  "claim_supports store i = outgoing store i ''supports'' ''supports''"

definition claim_supported_by :: "store_state \<Rightarrow> string \<Rightarrow> pyexn + edge list" where
  "claim_supported_by store i = incoming store i ''supports'' ''supports''"

definition claim_contradicts :: "store_state \<Rightarrow> string \<Rightarrow> pyexn + edge list" where
  "claim_contradicts store i = outgoing store i ''contradicts'' ''contradicts''"

definition claim_contradicted_by :: "store_state \<Rightarrow> string \<Rightarrow> pyexn + edge list" where
  "claim_contradicted_by store i = incoming store i ''contradicts'' ''contradicts''"

definition claim_extends :: "store_state \<Rightarrow> string \<Rightarrow> pyexn + edge list" where
  "claim_extends store i = outgoing store i ''extends'' ''extends''"

definition claim_extended_by :: "store_state \<Rightarrow> string \<Rightarrow> pyexn + edge list" where
  "claim_extended_by store i = incoming store i ''extends'' ''extends''"

section \<open>The neighbourhood of a claim\<close>

record neighborhood =
  nb_origin :: string
  nb_edges :: "(string \<times> edge list) list"
  nb_claims :: "(string \<times> pydict) list"

definition neighborhood_keys :: "string list" where
  "neighborhood_keys = [''depends_on'', ''dependents'', ''supports'', ''supported_by'',
     ''contradicts'', ''contradicted_by'', ''extends'', ''extended_by'']"

definition neighbor_card :: "string \<Rightarrow> pydict \<Rightarrow> pydict" where
  "neighbor_card nid c =
     [(''id'', PStr nid), (''statement'', dget_default c ''statement'' (PStr [])),
      (''claim_type'', dget c ''claim_type''), (''replication_status'', dget c ''replication_status'')]"

definition neighbor_ids :: "string \<Rightarrow> edge list \<Rightarrow> string list" where
  "neighbor_ids origin es =
     sort (remdups (filter (\<lambda>i. i \<noteq> origin) (concat (map (\<lambda>(s, t, _). [s, t]) es))))"

definition claim_neighborhood :: "store_state \<Rightarrow> string \<Rightarrow> pyexn + neighborhood" where
  "claim_neighborhood store i =
     (case get_claim store i of
        None \<Rightarrow> Inr \<lparr>nb_origin = i, nb_edges = map (\<lambda>k. (k, [])) neighborhood_keys, nb_claims = []\<rparr>
      | Some _ \<Rightarrow>
          rbind (rmap (\<lambda>(k, f). rbind (f store i) (\<lambda>es. Inr (k, es)))
             [(''depends_on'', claim_depends_on), (''dependents'', claim_dependents),
              (''supports'', claim_supports), (''supported_by'', claim_supported_by),
              (''contradicts'', claim_contradicts), (''contradicted_by'', claim_contradicted_by),
              (''extends'', claim_extends), (''extended_by'', claim_extended_by)]) (\<lambda>edges.
            let ids = neighbor_ids i (concat (map snd edges))
            in Inr \<lparr>nb_origin = i, nb_edges = edges,
                    nb_claims = concat (map (\<lambda>nid. case get_claim store nid of
                        None \<Rightarrow> [] | Some c \<Rightarrow> [(nid, neighbor_card nid c)]) ids)\<rparr>))"

section \<open>Properties of the endpoints\<close>

lemma apply_derived_status_views:
  "apply_derived_status c (s\<lparr>st_claim_views := v\<rparr>) = apply_derived_status c s"
proof -
  have "list_annotations (s\<lparr>st_claim_views := v\<rparr>) = list_annotations s"
    "list_papers (s\<lparr>st_claim_views := v\<rparr>) = list_papers s"
    "get_paper (s\<lparr>st_claim_views := v\<rparr>) = get_paper s"
    by (simp_all add: list_annotations_def list_papers_def get_paper_def fun_eq_iff)
  note reads = this
  have "resolve_owner_paper (s\<lparr>st_claim_views := v\<rparr>) = resolve_owner_paper s"
    unfolding resolve_owner_paper_def reads ..
  then have q: "quorum_for_claim (PStr i) (s\<lparr>st_claim_views := v\<rparr>) p = quorum_for_claim (PStr i) s p"
    "quorum_for_claim w (s\<lparr>st_claim_views := v\<rparr>) p = quorum_for_claim w s p" for i w p
    by (simp_all only: quorum_for_claim_def)
  show ?thesis
    unfolding apply_derived_status_def derive_replication_status_def reads q ..
qed

text \<open>
  A served claim carries its derived status and its new view count, which is one more
  than before; no other counter and no other table changes.
\<close>

lemma get_claim_counts_view:
  assumes "get_claim_endpoint i s = Inr (payload, s')"
  shows "dget payload ''views_count'' = PInt (get_claim_views s i + 1) \<and>
    get_claim_views s' i = get_claim_views s i + 1 \<and>
    (\<forall>j. j \<noteq> i \<longrightarrow> get_claim_views s' j = get_claim_views s j) \<and>
    s'\<lparr>st_claim_views := st_claim_views s\<rparr> = s \<and>
    (\<exists>c p. get_claim s i = Some c \<and> apply_derived_status c s = Inr p \<and>
      (\<forall>k. k \<noteq> ''views_count'' \<longrightarrow> dget payload k = dget p k))"
proof -
  from assms obtain c p where c: "get_claim s i = Some c"
    and b: "bump_claim_view i s = (get_claim_views s i + 1, s')"
    and p: "apply_derived_status c s' = Inr p" "payload = dict_set ''views_count'' (PInt (get_claim_views s i + 1)) p"
    by (auto simp: get_claim_endpoint_def rbind_Inr_iff bump_claim_view_def Let_def split: option.splits)
  from b have s': "s' = s\<lparr>st_claim_views := dict_set i (get_claim_views s i + 1) (st_claim_views s)\<rparr>"
    by (simp add: bump_claim_view_def Let_def)
  with p(1) have "apply_derived_status c s = Inr p" by (simp add: apply_derived_status_views)
  with c p(2) show ?thesis by (simp add: s' get_claim_views_def)
qed

lemma get_claim_counts_view_witness:
  "get_claim_views (empty_store\<lparr>st_claims := [(''c'', [(''id'', PStr ''c'')])], st_claim_views := [(''c'', 1)]\<rparr>) ''c'' = 1"
proof -
  let ?s = "empty_store\<lparr>st_claims := [(''c'', [(''id'', PStr ''c'')])]\<rparr>"
  have "get_claim_endpoint ''c'' ?s = Inr ([(''id'', PStr ''c''), (''replication_status'', PStr ''untested''),
      (''views_count'', PInt 1)], ?s\<lparr>st_claim_views := [(''c'', 1)]\<rparr>)"
    by code_simp
  from get_claim_counts_view [OF this] show ?thesis
    by (simp add: get_claim_views_def empty_store_def)
qed

text \<open>Claims are stored under their own id, with their edges as lists of ids.\<close>

definition edges_ok :: "string \<Rightarrow> store_state \<Rightarrow> bool" where
  "edges_ok field s = list_all (\<lambda>(i, c). dget c ''id'' = PStr i \<and> i \<noteq> [] \<and>
     (case dget c field of PNone \<Rightarrow> True | PList ts \<Rightarrow> list_all is_str ts | _ \<Rightarrow> False)) (st_claims s)"

lemma edge_field_list:
  assumes "case v of PNone \<Rightarrow> True | PList ts \<Rightarrow> list_all is_str ts | _ \<Rightarrow> False"
  obtains ts where "py_or v (PList []) = PList ts" "list_all is_str ts"
proof (cases v)
  case (PList us)
  with assms that [of us] show thesis by (cases "us = []") (simp_all add: py_or_def)
qed (use assms that [of "[]"] in \<open>simp_all add: py_or_def\<close>)

lemma incoming_from_iff:
  assumes "list_all (\<lambda>c. (\<exists>i. dget c ''id'' = PStr i \<and> i \<noteq> []) \<and>
    (case dget c field of PNone \<Rightarrow> True | PList ts \<Rightarrow> list_all is_str ts | _ \<Rightarrow> False)) cs"
  shows "\<exists>es. incoming_from cs b field k = Inr es \<and>
    (\<forall>e. e \<in> set es \<longleftrightarrow> (\<exists>c \<in> set cs. \<exists>i ts. dget c ''id'' = PStr i \<and> e = (i, b, k) \<and>
       py_or (dget c field) (PList []) = PList ts \<and> PStr b \<in> set ts))"
  using assms
proof (induction cs)
  case Nil
  then show ?case by simp
next
  case (Cons c cs)
  then obtain i where i: "dget c ''id'' = PStr i" "i \<noteq> []" by auto
  obtain ts where ts: "py_or (dget c field) (PList []) = PList ts"
    using Cons.prems edge_field_list by auto
  from Cons obtain es where es: "incoming_from cs b field k = Inr es"
    and iff: "\<And>e. e \<in> set es \<longleftrightarrow> (\<exists>c \<in> set cs. \<exists>i ts. dget c ''id'' = PStr i \<and> e = (i, b, k) \<and>
       py_or (dget c field) (PList []) = PList ts \<and> PStr b \<in> set ts)"
    by auto
  have idv: "py_str (py_or (PStr i) (PStr [])) = i" by (simp add: py_or_def)
  show ?case using i ts es iff by (auto simp: str_in_def idv)
qed

text \<open>
  The two directions of a relation agree: claim \<open>a\<close> lists \<open>b\<close> among its
  outgoing edges exactly when \<open>b\<close> lists \<open>a\<close> among its incoming ones.
\<close>

lemma edges_are_inverse:
  assumes "edges_ok field s" "get_claim s a = Some c" "wf_dict (st_claims s)"
  shows "\<exists>es es'. outgoing s a field k = Inr es \<and> incoming s b field k = Inr es' \<and>
    ((a, b, k) \<in> set es \<longleftrightarrow> (a, b, k) \<in> set es')"
proof -
  have wf: "list_all (\<lambda>c. (\<exists>i. dget c ''id'' = PStr i \<and> i \<noteq> []) \<and>
    (case dget c field of PNone \<Rightarrow> True | PList ts \<Rightarrow> list_all is_str ts | _ \<Rightarrow> False)) (list_claims s)"
    using assms(1) by (auto simp: edges_ok_def list_claims_def dict_values_def list_all_iff)
  obtain es' where es': "incoming s b field k = Inr es'"
    and iff: "\<And>e. e \<in> set es' \<longleftrightarrow> (\<exists>c \<in> set (list_claims s). \<exists>i ts. dget c ''id'' = PStr i \<and> e = (i, b, k) \<and>
       py_or (dget c field) (PList []) = PList ts \<and> PStr b \<in> set ts)"
    using incoming_from_iff [OF wf, of b k] by (auto simp: incoming_def)
  have a: "(a, c) \<in> set (st_claims s)" using assms(2) by (simp add: get_claim_def map_of_SomeD)
  then have ida: "dget c ''id'' = PStr a"
    and f: "case dget c field of PNone \<Rightarrow> True | PList ts \<Rightarrow> list_all is_str ts | _ \<Rightarrow> False"
    using assms(1) by (auto simp: edges_ok_def list_all_iff)
  have uniq: "d = c" if "d \<in> set (list_claims s)" "dget d ''id'' = PStr a" for d
  proof -
    from that(1) obtain j where j: "(j, d) \<in> set (st_claims s)" by (auto simp: list_claims_def dict_values_def)
    with assms(1) that(2) have "j = a" by (auto simp: edges_ok_def list_all_iff)
    with j a assms(3) show ?thesis by (metis eq_key_imp_eq_value)
  qed
  have c_in: "c \<in> set (list_claims s)" using a by (force simp: list_claims_def dict_values_def)
  obtain ts where ts: "py_or (dget c field) (PList []) = PList ts" "list_all is_str ts"
    using f edge_field_list by blast
  have out: "outgoing s a field k = Inr (map (\<lambda>t. (a, py_str t, k)) ts)"
    using assms(2) ts(1) by (simp add: outgoing_def py_iter_def)
  have "(a, b, k) \<in> set (map (\<lambda>t. (a, py_str t, k)) ts) \<longleftrightarrow> PStr b \<in> set ts"
    using ts(2) by (force simp: list_all_iff is_str_iff)
  also have "\<dots> \<longleftrightarrow> (a, b, k) \<in> set es'"
  proof
    assume "PStr b \<in> set ts"
    with c_in ida ts(1) show "(a, b, k) \<in> set es'" unfolding iff by blast
  next
    assume "(a, b, k) \<in> set es'"
    then obtain d us where "d \<in> set (list_claims s)" "dget d ''id'' = PStr a"
      "py_or (dget d field) (PList []) = PList us" "PStr b \<in> set us"
      unfolding iff by blast
    with uniq [of d] ts(1) show "PStr b \<in> set ts" by simp
  qed
  finally show ?thesis using out es' by blast
qed

lemma edges_are_inverse_witness:
  "\<exists>es es'. outgoing (empty_store\<lparr>st_claims := [(''a'', [(''id'', PStr ''a''), (''supports'', PList [PStr ''b''])])]\<rparr>)
      ''a'' ''supports'' ''supports'' = Inr es \<and>
    incoming (empty_store\<lparr>st_claims := [(''a'', [(''id'', PStr ''a''), (''supports'', PList [PStr ''b''])])]\<rparr>)
      ''b'' ''supports'' ''supports'' = Inr es' \<and>
    ((''a'', ''b'', ''supports'') \<in> set es \<longleftrightarrow> (''a'', ''b'', ''supports'') \<in> set es')"
  by (rule edges_are_inverse [where c = "[(''id'', PStr ''a''), (''supports'', PList [PStr ''b''])]"])
     (code_simp | simp add: get_claim_def edges_ok_def dget_def)+

end
