(* ===== verification/Settings.thy ===== *)
theory Settings
  imports Py_Order
begin

text \<open>
  The configuration, \<open>server/settings.py\<close>: the defaults and their overrides from
  the process environment, a dictionary of strings.
\<close>

record settings =
  api_base :: string
  store_url :: string
  dev_mode :: bool
  orcid_client_id :: "string option"
  orcid_client_secret :: "string option"
  orcid_authorize_url :: string
  orcid_token_url :: string
  orcid_redirect_uri :: "string option"
  orcid_dev_id :: string
  hcaptcha_secret :: "string option"
  hcaptcha_site_key :: string
  signature_clock_skew_seconds :: int
  rate_limit_anonymous_read_rpm :: int
  rate_limit_orcid_read_rpm :: int
  rate_limit_agent_read_rpm :: int
  rate_limit_orcid_write_rpm :: int
  rate_limit_agent_write_rpm :: int
  challenge_ttl_seconds :: int
  token_ttl_seconds_orcid :: int
  token_ttl_seconds_agent :: int
  token_ttl_seconds_anonymous :: int
  idempotency_window_seconds :: int
  enable_cors :: bool
  cors_origins :: "string list"
  exclude_identities :: "string list"
  log_level :: string

definition default_settings :: settings where
  "default_settings =
     \<lparr>api_base = ''http://127.0.0.1:8000/api/v0'', store_url = ''memory://'', dev_mode = True,
      orcid_client_id = None, orcid_client_secret = None,
      orcid_authorize_url = ''https://orcid.org/oauth/authorize'',
      orcid_token_url = ''https://orcid.org/oauth/token'', orcid_redirect_uri = None,
      orcid_dev_id = ''0000-0001-0000-DEV1'', hcaptcha_secret = None,
      hcaptcha_site_key = ''10000000-ffff-ffff-ffff-000000000001'',
      signature_clock_skew_seconds = 300, rate_limit_anonymous_read_rpm = 120,
      rate_limit_orcid_read_rpm = 240, rate_limit_agent_read_rpm = 600,
      rate_limit_orcid_write_rpm = 60, rate_limit_agent_write_rpm = 60,
      challenge_ttl_seconds = 300, token_ttl_seconds_orcid = 3600 * 24,
      token_ttl_seconds_agent = 3600 * 24 * 30, token_ttl_seconds_anonymous = 3600,
      idempotency_window_seconds = 86400, enable_cors = True, cors_origins = [],
      exclude_identities = [], log_level = ''info''\<rparr>"

type_synonym environ = "(string \<times> string) list"

definition env_get :: "environ \<Rightarrow> string \<Rightarrow> string option" where
  "env_get env name = dict_get env (''RRXIV_'' @ name)"

definition get_str :: "environ \<Rightarrow> string \<Rightarrow> string option \<Rightarrow> string option" where
  "get_str env name dflt = (case env_get env name of None \<Rightarrow> dflt | Some v \<Rightarrow> Some v)"

definition get_str_required :: "environ \<Rightarrow> string \<Rightarrow> string \<Rightarrow> string" where
  "get_str_required env name dflt = (case env_get env name of None \<Rightarrow> dflt | Some v \<Rightarrow> v)"

definition get_bool :: "environ \<Rightarrow> string \<Rightarrow> bool \<Rightarrow> bool" where
  "get_bool env name dflt = (case env_get env name of
      None \<Rightarrow> dflt
    | Some v \<Rightarrow> str_lower v \<in> set [''1'', ''true'', ''yes'', ''on''])"

definition get_int :: "environ \<Rightarrow> string \<Rightarrow> int \<Rightarrow> pyexn + int" where
  "get_int env name dflt = (case env_get env name of
      None \<Rightarrow> Inr dflt
    | Some v \<Rightarrow> py_int (PStr v))"

definition comma_list :: "string \<Rightarrow> string list" where
  "comma_list s = filter (\<lambda>o'. o' \<noteq> []) (map str_strip (split_on (CHR '','') s))"

definition from_env :: "environ \<Rightarrow> pyexn + settings" where
  "from_env env =
     (let d = default_settings in
      rbind (get_int env ''SIGNATURE_CLOCK_SKEW_SECONDS'' (signature_clock_skew_seconds d)) (\<lambda>skew.
      rbind (get_int env ''RATE_LIMIT_ANONYMOUS_READ_RPM'' (rate_limit_anonymous_read_rpm d)) (\<lambda>anon_r.
      rbind (get_int env ''RATE_LIMIT_ORCID_READ_RPM'' (rate_limit_orcid_read_rpm d)) (\<lambda>orcid_r.
      rbind (get_int env ''RATE_LIMIT_AGENT_READ_RPM'' (rate_limit_agent_read_rpm d)) (\<lambda>agent_r.
      rbind (get_int env ''RATE_LIMIT_ORCID_WRITE_RPM'' (rate_limit_orcid_write_rpm d)) (\<lambda>orcid_w.
      rbind (get_int env ''RATE_LIMIT_AGENT_WRITE_RPM'' (rate_limit_agent_write_rpm d)) (\<lambda>agent_w.
      rbind (get_int env ''CHALLENGE_TTL_SECONDS'' (challenge_ttl_seconds d)) (\<lambda>chal.
      rbind (get_int env ''TOKEN_TTL_SECONDS_ORCID'' (token_ttl_seconds_orcid d)) (\<lambda>ttl_o.
      rbind (get_int env ''TOKEN_TTL_SECONDS_AGENT'' (token_ttl_seconds_agent d)) (\<lambda>ttl_a.
      rbind (get_int env ''TOKEN_TTL_SECONDS_ANONYMOUS'' (token_ttl_seconds_anonymous d)) (\<lambda>ttl_n.
      rbind (get_int env ''IDEMPOTENCY_WINDOW_SECONDS'' (idempotency_window_seconds d)) (\<lambda>idem.
      Inr
       \<lparr>api_base = get_str_required env ''API_BASE'' (api_base d),
        store_url = get_str_required env ''STORE_URL'' (store_url d),
        dev_mode = get_bool env ''DEV_MODE'' (dev_mode d),
        orcid_client_id = get_str env ''ORCID_CLIENT_ID'' (orcid_client_id d),
        orcid_client_secret = get_str env ''ORCID_CLIENT_SECRET'' (orcid_client_secret d),
        orcid_authorize_url = get_str_required env ''ORCID_AUTHORIZE_URL'' (orcid_authorize_url d),
        orcid_token_url = get_str_required env ''ORCID_TOKEN_URL'' (orcid_token_url d),
        orcid_redirect_uri = get_str env ''ORCID_REDIRECT_URI'' (orcid_redirect_uri d),
        orcid_dev_id = get_str_required env ''ORCID_DEV_ID'' (orcid_dev_id d),
        hcaptcha_secret = get_str env ''HCAPTCHA_SECRET'' (hcaptcha_secret d),
        hcaptcha_site_key = get_str_required env ''HCAPTCHA_SITE_KEY'' (hcaptcha_site_key d),
        signature_clock_skew_seconds = skew, rate_limit_anonymous_read_rpm = anon_r,
        rate_limit_orcid_read_rpm = orcid_r, rate_limit_agent_read_rpm = agent_r,
        rate_limit_orcid_write_rpm = orcid_w, rate_limit_agent_write_rpm = agent_w,
        challenge_ttl_seconds = chal, token_ttl_seconds_orcid = ttl_o,
        token_ttl_seconds_agent = ttl_a, token_ttl_seconds_anonymous = ttl_n,
        idempotency_window_seconds = idem,
        enable_cors = get_bool env ''ENABLE_CORS'' (enable_cors d),
        cors_origins = comma_list (get_str_required env ''CORS_ORIGINS'' []),
        exclude_identities = comma_list (get_str_required env ''EXCLUDE_IDENTITIES'' []),
        log_level = log_level d\<rparr>))))))))))))"

text \<open>An empty environment gives the defaults.\<close>

lemma from_env_empty: "from_env [] = Inr default_settings"
  by (simp add: from_env_def get_int_def get_str_def get_str_required_def get_bool_def env_get_def
      comma_list_def default_settings_def str_strip_def)

end
