(* ===== verification/Auth_Deps.thy ===== *)
theory Auth_Deps
  imports Settings Server_Errors Store
begin

text \<open>
  The authentication pipeline every route leans on, \<open>server/deps.py\<close>: bearer token
  to identity, tier checks and the sliding-window rate limit. The current time of a
  request is one argument, \<open>now\<close>. Metrics and error reporting are left out: they
  never change the outcome.
\<close>

record authed_request =
  au_identity :: identity
  au_token :: string

fun tier :: "identity \<Rightarrow> string" where
  "tier (OrcidIdentity _) = ''orcid''"
| "tier (AgentIdentity _) = ''agent''"
| "tier (AnonymousIdentity _) = ''anonymous''"

fun is_anonymous :: "identity \<Rightarrow> bool" where
  "is_anonymous (AnonymousIdentity _) = True"
| "is_anonymous _ = False"

text \<open>A token past its expiry is removed as a side effect.\<close>

definition identity_from_token :: "string \<Rightarrow> int \<Rightarrow> store_state \<Rightarrow> identity option \<times> store_state" where
  "identity_from_token token now s =
     (case get_token s token of
        None \<Rightarrow> (None, s)
      | Some r \<Rightarrow>
          if tr_expires_at_unix r < now then (None, revoke_token token s)
          else (Some (tr_identity r), s))"

definition is_write :: "string \<Rightarrow> bool" where
  "is_write http_method = (map (\<lambda>c. if CHR ''a'' \<le> c \<and> c \<le> CHR ''z'' then char_of ((of_char c :: nat) - 32) else c) http_method
     \<notin> set [''GET'', ''HEAD''])"

fun rpm_for :: "identity \<Rightarrow> string \<Rightarrow> settings \<Rightarrow> int" where
  "rpm_for (OrcidIdentity _) http_method cfg =
     (if is_write http_method then rate_limit_orcid_write_rpm cfg else rate_limit_orcid_read_rpm cfg)"
| "rpm_for (AgentIdentity _) http_method cfg =
     (if is_write http_method then rate_limit_agent_write_rpm cfg else rate_limit_agent_read_rpm cfg)"
| "rpm_for (AnonymousIdentity _) http_method cfg = rate_limit_anonymous_read_rpm cfg"

text \<open>\<open>authorization.split(" ", 1)[1].strip()\<close>, after the scheme check.\<close>

definition has_bearer :: "string \<Rightarrow> bool" where
  "has_bearer authorization = startswith (str_lower authorization) ''bearer ''"

definition bearer_token :: "string \<Rightarrow> string" where
  "bearer_token authorization = str_strip (split_once (CHR '' '') authorization ! 1)"

text \<open>
  A dependency changes the store even when it rejects: expired tokens go, and rejected
  requests count. So it returns its outcome together with the store.
\<close>

definition require_identity ::
  "bool \<Rightarrow> settings \<Rightarrow> string \<Rightarrow> string \<Rightarrow> int \<Rightarrow> store_state \<Rightarrow> (exn + authed_request) \<times> store_state" where
  "require_identity allow_anonymous cfg http_method authorization now s =
     (if authorization = [] \<or> \<not> has_bearer authorization
      then (Inl (unauthorized ''missing or invalid token''), s)
      else
        let token = bearer_token authorization;
            (ident, s1) = identity_from_token token now s
        in case ident of
             None \<Rightarrow> (Inl (unauthorized ''token not recognised or expired''), s1)
           | Some identity \<Rightarrow>
               if is_anonymous identity \<and> \<not> allow_anonymous
               then (Inl (forbidden ''anonymous identities cannot perform this action''), s1)
               else
                 let rpm = rpm_for identity http_method cfg;
                     (count, s2) = record_request token now s1
                 in if rpm < count then (Inl (rate_limited 1), s2)
                    else (Inr \<lparr>au_identity = identity, au_token = token\<rparr>, s2))"

definition optional_identity ::
  "settings \<Rightarrow> string \<Rightarrow> string \<Rightarrow> int \<Rightarrow> store_state \<Rightarrow> (exn + authed_request option) \<times> store_state" where
  "optional_identity cfg http_method authorization now s =
     (if authorization = [] then (Inr None, s)
      else if \<not> has_bearer authorization then (Inr None, s)
      else
        let token = bearer_token authorization;
            (ident, s1) = identity_from_token token now s
        in case ident of
             None \<Rightarrow> (Inr None, s1)
           | Some identity \<Rightarrow>
               let rpm = rpm_for identity http_method cfg;
                   (count, s2) = record_request token now s1
               in if rpm < count then (Inl (rate_limited 1), s2)
                  else (Inr (Some \<lparr>au_identity = identity, au_token = token\<rparr>), s2))"

section \<open>Who gets through\<close>

lemma record_request_other_tables:
  "record_request b now s = (n, s') \<Longrightarrow> get_token s' t = get_token s t"
  by (auto simp: record_request_def get_token_def Let_def)

lemma require_identity_live:
  assumes "require_identity allow cfg m auth now s = (Inr a, s')"
  shows "has_bearer auth \<and> au_token a = bearer_token auth \<and>
    (\<exists>r. get_token s (au_token a) = Some r \<and> now \<le> tr_expires_at_unix r \<and> tr_identity r = au_identity a) \<and>
    (is_anonymous (au_identity a) \<longrightarrow> allow) \<and>
    get_token s' (au_token a) = get_token s (au_token a)"
  using assms
  by (auto simp: require_identity_def identity_from_token_def Let_def
      split: if_splits option.splits prod.splits dest: record_request_other_tables)

text \<open>
  A request that passes authentication carries a bearer token that is stored and not
  expired, gets the identity the token was issued to, and is not anonymous where anonymous
  identities are not allowed; the token stays valid.
\<close>

lemma authed_means_live_token:
  assumes "require_identity allow cfg m auth now s = (Inr a, s')"
  shows "has_bearer auth \<and> au_token a = bearer_token auth \<and>
    (\<exists>r. get_token s (au_token a) = Some r \<and> now \<le> tr_expires_at_unix r \<and> tr_identity r = au_identity a) \<and>
    (is_anonymous (au_identity a) \<longrightarrow> allow) \<and>
    get_token s' (au_token a) = get_token s (au_token a)"
  by (rule require_identity_live [OF assms])

lemma authed_means_live_token_witness:
  "\<exists>r. get_token (add_token \<lparr>tr_token = ''tok'', tr_identity = AgentIdentity ''@a'', tr_issued_at_unix = 0,
      tr_expires_at_unix = 100\<rparr> empty_store) ''tok'' = Some r \<and> 50 \<le> tr_expires_at_unix r"
proof -
  let ?s = "add_token \<lparr>tr_token = ''tok'', tr_identity = AgentIdentity ''@a'', tr_issued_at_unix = 0,
      tr_expires_at_unix = 100\<rparr> empty_store"
  have "require_identity False default_settings ''POST'' ''Bearer tok'' 50 ?s =
    (Inr \<lparr>au_identity = AgentIdentity ''@a'', au_token = ''tok''\<rparr>,
     ?s\<lparr>st_rate_window := [(''tok'', [50])]\<rparr>)"
    by code_simp
  from authed_means_live_token [OF this] show ?thesis by auto
qed

text \<open>An expired token is rejected, and gone afterwards.\<close>

lemma expired_token_rejected:
  assumes "has_bearer auth" "get_token s (bearer_token auth) = Some r" "tr_expires_at_unix r < now"
  shows "require_identity allow cfg m auth now s =
    (Inl (unauthorized ''token not recognised or expired''), revoke_token (bearer_token auth) s)"
proof -
  have "auth \<noteq> []" using assms(1) by (auto simp: has_bearer_def startswith_def str_lower_def)
  with assms show ?thesis by (simp add: require_identity_def identity_from_token_def)
qed

section \<open>The rate limit\<close>

text \<open>One client that sends requests with one live token at given times; the verdicts.\<close>

fun send_requests ::
  "settings \<Rightarrow> string \<Rightarrow> string \<Rightarrow> int list \<Rightarrow> store_state \<Rightarrow> bool list" where
  "send_requests cfg m auth [] s = []"
| "send_requests cfg m auth (t # ts) s =
     (case require_identity True cfg m auth t s of
        (r, s') \<Rightarrow> (case r of Inl _ \<Rightarrow> False | Inr _ \<Rightarrow> True) # send_requests cfg m auth ts s')"

lemma send_requests_serve:
  assumes "has_bearer auth" "get_token s (bearer_token auth) = Some r" "\<forall>t \<in> set ts. t \<le> tr_expires_at_unix r"
  shows "send_requests cfg m auth ts s =
    mem_window.serve (bearer_token auth) (rpm_for (tr_identity r) m cfg) ts s"
  using assms
proof (induction ts arbitrary: s)
  case Nil
  then show ?case by simp
next
  case (Cons t ts)
  have ne: "auth \<noteq> []" using Cons.prems(1) by (auto simp: has_bearer_def startswith_def str_lower_def)
  obtain n s' where rec: "record_request (bearer_token auth) t s = (n, s')"
    by (cases "record_request (bearer_token auth) t s")
  have "get_token s' (bearer_token auth) = Some r"
    using record_request_other_tables [OF rec] Cons.prems(2) by simp
  with Cons ne rec show ?case
    by (simp add: require_identity_def identity_from_token_def not_less)
qed

text \<open>
  C36: The sliding window counts exactly: whatever stands in the token's window, of the requests a
  live token then sends, in order of time, one is accepted exactly when it and the token's requests
  of the sixty seconds before it are at most as many as the limit of the identity and the method.
  Requests that were rejected occupy the window like those that were served.
\<close>

theorem rate_limit_exact:
  assumes "has_bearer auth" "get_token s (bearer_token auth) = Some r"
    "\<forall>t \<in> set ts. t \<le> tr_expires_at_unix r" "sorted (rate_window_of s (bearer_token auth) @ ts)"
  shows "length (send_requests cfg m auth ts s) = length ts \<and>
    (\<forall>i < length ts. send_requests cfg m auth ts s ! i \<longleftrightarrow>
      int (length (filter (\<lambda>t. ts ! i - 60 \<le> t) (rate_window_of s (bearer_token auth) @ take (Suc i) ts)))
        \<le> rpm_for (tr_identity r) m cfg)"
proof (cases "rate_window_of s (bearer_token auth) @ ts")
  case Nil
  then show ?thesis by simp
next
  case (Cons c rest)
  let ?w = "rate_window_of s (bearer_token auth)"
  have least: "\<forall>t \<in> set (?w @ ts). c \<le> t" using assms(4) Cons by auto
  then have "c \<le> t" if "t \<in> set ?w" for t using that by simp
  then have "filter (\<lambda>t. c - 60 \<le> t) ?w = ?w" by (intro filter_True) force
  then have "?w = recent c ?w" by (simp add: recent_def)
  with assms(4) least have "length (mem_window.serve (bearer_token auth) (rpm_for (tr_identity r) m cfg) ts s) = length ts \<and>
    (\<forall>i < length ts. mem_window.serve (bearer_token auth) (rpm_for (tr_identity r) m cfg) ts s ! i \<longleftrightarrow>
      int (length (recent (ts ! i) (?w @ take (Suc i) ts))) \<le> rpm_for (tr_identity r) m cfg)"
    by (intro mem_window.serve_verdicts [where c = c]) auto
  then show ?thesis
    using send_requests_serve [OF assms(1-3), of cfg m] by (simp add: recent_def)
qed

text \<open>A limit of two, a window with one request in it: all but the first request are rejected.\<close>

theorem rate_limit_exact_witness:
  "send_requests (default_settings\<lparr>rate_limit_agent_read_rpm := 2\<rparr>) ''GET'' ''Bearer tok'' [0, 1, 2, 61]
     ((add_token \<lparr>tr_token = ''tok'', tr_identity = AgentIdentity ''@a'', tr_issued_at_unix = 0,
        tr_expires_at_unix = 100\<rparr> empty_store)\<lparr>st_rate_window := [(''tok'', [-30])]\<rparr>) = [True, False, False, False]"
proof -
  let ?s = "(add_token \<lparr>tr_token = ''tok'', tr_identity = AgentIdentity ''@a'', tr_issued_at_unix = 0,
      tr_expires_at_unix = 100\<rparr> empty_store)\<lparr>st_rate_window := [(''tok'', [-30])]\<rparr>"
  let ?cfg = "default_settings\<lparr>rate_limit_agent_read_rpm := 2\<rparr>"
  have 1: "has_bearer ''Bearer tok''" "bearer_token ''Bearer tok'' = ''tok''" by code_simp+
  have 2: "rpm_for (AgentIdentity ''@a'') ''GET'' ?cfg = 2" by code_simp
  have 3: "get_token ?s (bearer_token ''Bearer tok'') = Some \<lparr>tr_token = ''tok'',
      tr_identity = AgentIdentity ''@a'', tr_issued_at_unix = 0, tr_expires_at_unix = 100\<rparr>"
    by (simp add: 1 add_token_def get_token_def)
  have 4: "rate_window_of ?s (bearer_token ''Bearer tok'') = [-30]"
    by (simp add: rate_window_of_def 1)
  let ?ts = "[0, 1, 2, 61] :: int list"
  have 5: "\<forall>t \<in> set ?ts. t \<le> 100" "sorted ([-30] @ ?ts)" by simp_all
  have all: "length (send_requests ?cfg ''GET'' ''Bearer tok'' ?ts ?s) = 4"
    "\<forall>i < 4. send_requests ?cfg ''GET'' ''Bearer tok'' ?ts ?s ! i \<longleftrightarrow>
      int (length (filter (\<lambda>t. ?ts ! i - 60 \<le> t) ([-30] @ take (Suc i) ?ts))) \<le> 2"
    using rate_limit_exact [OF 1(1) 3, of ?ts ?cfg "''GET''"] 2 4 5 by simp_all
  show ?thesis
  proof (rule nth_equalityI)
    fix i assume "i < length (send_requests ?cfg ''GET'' ''Bearer tok'' ?ts ?s)"
    with all(1) consider "i = 0" | "i = 1" | "i = 2" | "i = 3" by linarith
    then show "send_requests ?cfg ''GET'' ''Bearer tok'' ?ts ?s ! i = [True, False, False, False] ! i"
      by cases (use all(2) [rule_format, of i] in \<open>simp_all add: eval_nat_numeral del: send_requests.simps\<close>)
  qed (simp add: all(1) del: send_requests.simps)
qed

end
