(* ===== verification/Auth_Router.thy ===== *)
theory Auth_Router
  imports Auth_Deps Codecs
begin

text \<open>
  The identity endpoints, \<open>server/auth/router.py\<close>: ORCID login and paste codes,
  bound signing keys, agent enrolment and key rotation, anonymous challenges, token
  refresh. A handler maps the request and the store to an outcome and the new store,
  which may have changed even when the outcome is an exception.

  Parameters stand for what the code calls and does not contain: Ed25519 verification
  (\<open>ed_verify key signature message\<close>, true when the library builds the key and
  accepts the signature), the replies of orcid.org and hcaptcha.com, and the random
  strings a handler draws. The time of the request is \<open>now\<close>. The text of a
  foreign exception that a detail quotes is left out.
\<close>

section \<open>Signed payloads\<close>

type_synonym ed_verify = "bytes \<Rightarrow> bytes \<Rightarrow> bytes \<Rightarrow> bool"

text \<open>\<open>base64.b64decode\<close>: the standard alphabet; other characters are skipped.\<close>

definition std_b64_decode :: "string \<Rightarrow> bytes option" where
  "std_b64_decode s = (if list_ex (\<lambda>c. 128 \<le> (of_char c :: nat)) s then None
     else b64_decode (filter (\<lambda>c. c \<noteq> CHR ''-'' \<and> c \<noteq> CHR ''_'') s))"

definition std_b64_encode :: "bytes \<Rightarrow> string" where
  "std_b64_encode b =
     (let s = b64_encode b
      in map (\<lambda>c. if c = CHR ''-'' then CHR ''+'' else if c = CHR ''_'' then CHR ''/'' else c) s @ b64_padding s)"

definition is_ascii :: "string \<Rightarrow> bool" where
  "is_ascii s = list_all (\<lambda>c. (of_char c :: nat) < 128) s"

definition possession_ok :: "ed_verify \<Rightarrow> string \<Rightarrow> string \<Rightarrow> string \<Rightarrow> bool" where
  "possession_ok ed_verify pub_b64 sig_b64 payload_b64 =
     (case (std_b64_decode pub_b64, std_b64_decode sig_b64) of
        (Some pub, Some sig) \<Rightarrow> is_ascii payload_b64 \<and> ed_verify pub sig payload_b64
      | _ \<Rightarrow> False)"

definition load_payload :: "string \<Rightarrow> pyval option" where
  "load_payload payload_b64 = Option.bind (std_b64_decode payload_b64) json_loads"

text \<open>\<open>isinstance(v, int)\<close> also holds of booleans.\<close>

definition in_window :: "int \<Rightarrow> settings \<Rightarrow> int \<Rightarrow> bool" where
  "in_window now cfg issued_at = (abs (now - issued_at) \<le> signature_clock_skew_seconds cfg)"

section \<open>Tokens\<close>

definition issue_token :: "string \<Rightarrow> identity \<Rightarrow> int \<Rightarrow> int \<Rightarrow> store_state \<Rightarrow> store_state" where
  "issue_token token identity ttl now s =
     add_token \<lparr>tr_token = token, tr_identity = identity, tr_issued_at_unix = now,
                tr_expires_at_unix = now + ttl\<rparr> s"

section \<open>ORCID login\<close>

text \<open>\<open>urllib.parse.quote_plus\<close>: percent-encoded UTF-8 outside the unreserved characters.\<close>

definition hex_upper :: "nat \<Rightarrow> char" where
  "hex_upper n = (if n < 10 then digit_char n else char_of (n + 55))"

definition utf8_bytes :: "char \<Rightarrow> nat list" where
  "utf8_bytes c = (let n = (of_char c :: nat) in if n < 128 then [n] else [192 + n div 64, 128 + n mod 64])"

definition quote_plus :: "string \<Rightarrow> string" where
  "quote_plus s = concat (map (\<lambda>c.
     let n = (of_char c :: nat) in
     if (48 \<le> n \<and> n \<le> 57) \<or> (65 \<le> n \<and> n \<le> 90) \<or> (97 \<le> n \<and> n \<le> 122) \<or> n \<in> {45, 46, 95, 126} then [c]
     else if n = 32 then ''+''
     else concat (map (\<lambda>b. [CHR ''%'', hex_upper (b div 16), hex_upper (b mod 16)]) (utf8_bytes c))) s)"

definition urlencode :: "(string \<times> string) list \<Rightarrow> string" where
  "urlencode kvs = join_on ''&'' (map (\<lambda>(k, v). quote_plus k @ ''='' @ quote_plus v) kvs)"

text \<open>The redirect URL; \<open>dev_hex\<close> is the eight random digits of a simulated code.\<close>

definition orcid_start :: "settings \<Rightarrow> string \<Rightarrow> string \<Rightarrow> string \<Rightarrow> string \<Rightarrow> exn + string" where
  "orcid_start cfg redirect_uri state scope dev_hex =
     (if dev_mode cfg then
        Inr (redirect_uri @ (if CHR ''?'' \<in> set redirect_uri then ''&'' else ''?'') @
             ''code=dev-'' @ dev_hex @ ''&state='' @ state)
      else case orcid_client_id cfg of
        None \<Rightarrow> Inl (bad_request ''server has no ORCID client_id configured; set RRXIV_ORCID_CLIENT_ID or enable dev mode'' [])
      | Some cid \<Rightarrow>
          if cid = [] then Inl (bad_request ''server has no ORCID client_id configured; set RRXIV_ORCID_CLIENT_ID or enable dev mode'' [])
          else Inr (orcid_authorize_url cfg @ ''?'' @ urlencode
            [(''client_id'', cid), (''response_type'', ''code''), (''scope'', scope),
             (''redirect_uri'', redirect_uri), (''state'', state)]))"

text \<open>A reply of a remote endpoint: unreachable, or a status with a body that may be JSON.\<close>

datatype reply = Unreachable | Replied int "pyval option"

definition truthy_opt :: "string option \<Rightarrow> bool" where
  "truthy_opt v = (v \<noteq> None \<and> v \<noteq> Some [])"

definition resolve_orcid_identity ::
  "(string \<Rightarrow> string \<Rightarrow> reply) \<Rightarrow> settings \<Rightarrow> string \<Rightarrow> string option \<Rightarrow> exn + string \<times> string option" where
  "resolve_orcid_identity orcid_post cfg code redirect_uri =
     (if dev_mode cfg \<and> startswith code ''dev-'' then Inr (orcid_dev_id cfg, None)
      else if \<not> (truthy_opt (orcid_client_id cfg) \<and> truthy_opt (orcid_client_secret cfg))
      then Inl (bad_request ''real ORCID code exchange requires both RRXIV_ORCID_CLIENT_ID and RRXIV_ORCID_CLIENT_SECRET; or run with --dev-mode for local development'' [])
      else
        let uri = (if truthy_opt redirect_uri then the redirect_uri
                   else case orcid_redirect_uri cfg of Some u \<Rightarrow> u | None \<Rightarrow> [])
        in case orcid_post code uri of
             Unreachable \<Rightarrow> Inl (unauthorized ''ORCID token endpoint unreachable'')
           | Replied status body \<Rightarrow>
               if 400 \<le> status then Inl (unauthorized (''ORCID token endpoint returned '' @ str_of_int status))
               else (case body of
                   None \<Rightarrow> Inl (Raised ValueError)
                 | Some v \<Rightarrow>
                     rbind (raising (py_get v ''orcid'')) (\<lambda>orcid.
                     if \<not> truthy orcid then Inl (unauthorized ''ORCID token response missing 'orcid' field'')
                     else rbind (raising (py_get v ''name'')) (\<lambda>raw_name.
                       let name = (if truthy raw_name then str_strip (py_str raw_name) else [])
                       in Inr (py_str orcid, if name = [] then None else Some name)))))"

record login_response =
  lg_token :: string
  lg_identity :: string
  lg_display_name :: "string option"
  lg_expires_in :: int

definition orcid_callback ::
  "(string \<Rightarrow> string \<Rightarrow> reply) \<Rightarrow> settings \<Rightarrow> string \<Rightarrow> string option \<Rightarrow> string \<Rightarrow> int \<Rightarrow> store_state
    \<Rightarrow> (exn + login_response) \<times> store_state" where
  "orcid_callback orcid_post cfg code redirect_uri fresh now s =
     (case resolve_orcid_identity orcid_post cfg code redirect_uri of
        Inl e \<Rightarrow> (Inl e, s)
      | Inr (oid, name) \<Rightarrow>
          (Inr \<lparr>lg_token = fresh, lg_identity = oid, lg_display_name = name,
                lg_expires_in = token_ttl_seconds_orcid cfg\<rparr>,
           issue_token fresh (OrcidIdentity oid) (token_ttl_seconds_orcid cfg) now s))"

text \<open>\<open>_mint_paste_code\<close>, from eight random hexadecimal digits in upper case.\<close>

definition mint_paste_code :: "string \<Rightarrow> string" where
  "mint_paste_code raw = ''RRXIV-'' @ take 4 raw @ ''-'' @ drop 4 raw"

text \<open>The paste page; its HTML shows the code, which is what is returned here.\<close>

definition orcid_render ::
  "(string \<Rightarrow> string \<Rightarrow> reply) \<Rightarrow> settings \<Rightarrow> string \<Rightarrow> string \<Rightarrow> string \<Rightarrow> int \<Rightarrow> store_state
    \<Rightarrow> (exn + string) \<times> store_state" where
  "orcid_render orcid_post cfg code url raw now s =
     (case resolve_orcid_identity orcid_post cfg code (Some (hd (split_once (CHR ''?'') url))) of
        Inl e \<Rightarrow> (Inl e, s)
      | Inr (oid, name) \<Rightarrow>
          (Inr (mint_paste_code raw),
           add_paste_code \<lparr>pc_code = mint_paste_code raw, pc_orcid_id = oid, pc_issued_at_unix = now,
             pc_expires_at_unix = now + 300, pc_consumed = False\<rparr> s))"

definition orcid_exchange_paste ::
  "settings \<Rightarrow> string \<Rightarrow> string \<Rightarrow> int \<Rightarrow> store_state \<Rightarrow> (exn + login_response) \<times> store_state" where
  "orcid_exchange_paste cfg code fresh now s =
     (case get_paste_code s code of
        None \<Rightarrow> (Inl (unauthorized ''paste code unknown, consumed, or expired''), s)
      | Some entry \<Rightarrow>
          if pc_consumed entry \<or> pc_expires_at_unix entry < now
          then (Inl (unauthorized ''paste code unknown, consumed, or expired''), s)
          else
            (Inr \<lparr>lg_token = fresh, lg_identity = pc_orcid_id entry, lg_display_name = None,
                  lg_expires_in = token_ttl_seconds_orcid cfg\<rparr>,
             issue_token fresh (OrcidIdentity (pc_orcid_id entry)) (token_ttl_seconds_orcid cfg) now
               (consume_paste_code code s)))"

section \<open>Bound signing keys\<close>

record key_bind_body =
  kb_public_key_b64 :: string
  kb_label :: string
  kb_payload_b64 :: string
  kb_signature_b64 :: string

text \<open>The checks on the decoded payload, in the order of the code.\<close>

definition check_key_payload :: "settings \<Rightarrow> string \<Rightarrow> key_bind_body \<Rightarrow> int \<Rightarrow> pydict \<Rightarrow> exn option" where
  "check_key_payload cfg oid body now payload =
     (if dget payload ''purpose'' \<noteq> PStr ''orcid_key_binding''
      then Some (validation_error (''payload.purpose must equal '' @ repr_str ''orcid_key_binding'') [])
      else if dget payload ''orcid_id'' \<noteq> PStr oid
      then Some (validation_error ''payload.orcid_id does not match the calling bearer's identity'' [])
      else if dget payload ''public_key_b64'' \<noteq> PStr (kb_public_key_b64 body)
      then Some (validation_error ''payload.public_key_b64 does not match request public_key_b64'' [])
      else case as_num (dget payload ''issued_at_unix'') of
        None \<Rightarrow> Some (validation_error ''payload.issued_at_unix missing or not an int'' [])
      | Some issued_at \<Rightarrow>
          if \<not> in_window now cfg issued_at then Some (unauthorized ''payload issued_at_unix out of window'')
          else if \<not> is_str (dget payload ''nonce'') \<or> \<not> truthy (dget payload ''nonce'')
          then Some (validation_error ''payload.nonce missing or empty'' [])
          else if startswith (kb_label body) ''@''
          then Some (validation_error ''label MUST NOT start with `@` (reserved for agent handles)'' [])
          else None)"

definition bind_orcid_key ::
  "ed_verify \<Rightarrow> settings \<Rightarrow> authed_request \<Rightarrow> key_bind_body \<Rightarrow> string \<Rightarrow> int \<Rightarrow> store_state
    \<Rightarrow> (exn + orcid_key_record) \<times> store_state" where
  "bind_orcid_key ed_verify cfg authed body fresh_hex now s =
     (case au_identity authed of
        OrcidIdentity oid \<Rightarrow>
          if \<not> possession_ok ed_verify (kb_public_key_b64 body) (kb_signature_b64 body) (kb_payload_b64 body)
          then (Inl (unauthorized ''proof-of-possession signature invalid''), s)
          else (case load_payload (kb_payload_b64 body) of
             None \<Rightarrow> (Inl (validation_error ''payload not valid base64-encoded JSON'' []), s)
           | Some (PDict payload) \<Rightarrow>
               (case check_key_payload cfg oid body now payload of
                  Some e \<Rightarrow> (Inl e, s)
                | None \<Rightarrow>
                    let r = \<lparr>ok_orcid_id = oid, ok_key_id = ''key:'' @ fresh_hex,
                             ok_public_key_b64 = kb_public_key_b64 body, ok_label = kb_label body,
                             ok_created_at_unix = now, ok_revoked_at_unix = None\<rparr>
                    in (Inr r, add_orcid_key r s))
           | Some _ \<Rightarrow> (Inl (Raised AttributeError), s))
      | _ \<Rightarrow> (Inl (forbidden ''only ORCID identities can bind keys; agents use /auth/agent/enroll''), s))"

definition list_orcid_keys_endpoint :: "authed_request \<Rightarrow> bool \<Rightarrow> store_state \<Rightarrow> exn + orcid_key_record list" where
  "list_orcid_keys_endpoint authed include_revoked s =
     (case au_identity authed of
        OrcidIdentity oid \<Rightarrow> Inr (list_orcid_keys s oid include_revoked)
      | _ \<Rightarrow> Inl (forbidden ''only ORCID identities can list ORCID-bound keys''))"

definition revoke_orcid_key_endpoint ::
  "authed_request \<Rightarrow> string \<Rightarrow> int \<Rightarrow> store_state \<Rightarrow> (exn + unit) \<times> store_state" where
  "revoke_orcid_key_endpoint authed key_id now s =
     (case au_identity authed of
        OrcidIdentity oid \<Rightarrow>
          (case get_orcid_key s key_id of
             None \<Rightarrow> (Inl (not_found (''key '' @ repr_str key_id @ '' not found'')), s)
           | Some existing \<Rightarrow>
               if ok_orcid_id existing \<noteq> oid
               then (Inl (not_found (''key '' @ repr_str key_id @ '' not found'')), s)
               else (Inr (), revoke_orcid_key key_id now s))
      | _ \<Rightarrow> (Inl (forbidden ''only ORCID identities can revoke ORCID-bound keys''), s))"

section \<open>Agents\<close>

record enroll_body =
  en_handle :: string
  en_public_key_b64 :: string
  en_payload_b64 :: string
  en_signature_b64 :: string
  en_contact :: "string option"

definition check_enroll_payload :: "settings \<Rightarrow> enroll_body \<Rightarrow> int \<Rightarrow> pydict \<Rightarrow> exn option" where
  "check_enroll_payload cfg body now payload =
     (case as_num (dget payload ''issued_at'') of
        None \<Rightarrow> Some (validation_error ''payload.issued_at missing or not an int'' [])
      | Some issued_at \<Rightarrow>
          if \<not> in_window now cfg issued_at then Some (unauthorized ''enrollment payload issued_at out of window'')
          else if dget payload ''handle'' \<noteq> PStr (en_handle body)
          then Some (validation_error ''payload.handle does not match request handle'' [])
          else if dget payload ''public_key_b64'' \<noteq> PStr (en_public_key_b64 body)
          then Some (validation_error ''payload.public_key_b64 does not match request public_key_b64'' [])
          else None)"

definition agent_enroll ::
  "ed_verify \<Rightarrow> settings \<Rightarrow> enroll_body \<Rightarrow> string \<Rightarrow> int \<Rightarrow> store_state
    \<Rightarrow> (exn + login_response) \<times> store_state" where
  "agent_enroll ed_verify cfg body fresh now s =
     (if get_agent s (en_handle body) \<noteq> None
      then (Inl (forbidden (''handle '' @ repr_str (en_handle body) @ '' already taken'')), s)
      else if \<not> possession_ok ed_verify (en_public_key_b64 body) (en_signature_b64 body) (en_payload_b64 body)
      then (Inl (unauthorized ''enrollment signature invalid''), s)
      else case load_payload (en_payload_b64 body) of
        None \<Rightarrow> (Inl (validation_error ''payload not valid base64-encoded JSON'' []), s)
      | Some (PDict payload) \<Rightarrow>
          (case check_enroll_payload cfg body now payload of
             Some e \<Rightarrow> (Inl e, s)
           | None \<Rightarrow>
               (Inr \<lparr>lg_token = fresh, lg_identity = en_handle body, lg_display_name = None,
                     lg_expires_in = token_ttl_seconds_agent cfg\<rparr>,
                issue_token fresh (AgentIdentity (en_handle body)) (token_ttl_seconds_agent cfg) now
                  (add_agent \<lparr>ar_handle = en_handle body, ar_public_key_b64 = en_public_key_b64 body,
                     ar_contact = (if truthy_opt (en_contact body) then en_contact body else None),
                     ar_enrolled_at_unix = now\<rparr> s)))
      | Some _ \<Rightarrow> (Inl (Raised AttributeError), s))"

text \<open>
  What the framework checks of the two bodies before their endpoints run, answering 422: the handle
  against the pattern \<open>^@[a-z0-9][-a-z0-9]{0,31}$\<close>, the contact, when one is given, as an e-mail
  address, of which the e-mail library gives its normal form, and the length of a key's label.
\<close>

definition handle_char :: "char \<Rightarrow> bool" where
  "handle_char c \<longleftrightarrow> is_digit c \<or> c \<in> set ''abcdefghijklmnopqrstuvwxyz''"

definition handle_ok :: "string \<Rightarrow> bool" where
  "handle_ok h \<longleftrightarrow>
     (case h of
        c # d # r \<Rightarrow> c = CHR ''@'' \<and> handle_char d \<and> length r \<le> 31 \<and> list_all (\<lambda>x. x = CHR ''-'' \<or> handle_char x) r
      | _ \<Rightarrow> False)"

type_synonym email_lib = "string \<Rightarrow> string option"

definition valid_enroll :: "email_lib \<Rightarrow> enroll_body \<Rightarrow> enroll_body option" where
  "valid_enroll email body =
     (if \<not> handle_ok (en_handle body) then None
      else case en_contact body of
          None \<Rightarrow> Some body
        | Some c \<Rightarrow> (case email c of None \<Rightarrow> None | Some n \<Rightarrow> Some (body\<lparr>en_contact := Some n\<rparr>)))"

definition enroll_endpoint ::
  "email_lib \<Rightarrow> ed_verify \<Rightarrow> settings \<Rightarrow> enroll_body \<Rightarrow> string \<Rightarrow> int \<Rightarrow> store_state
    \<Rightarrow> (exn + login_response) \<times> store_state" where
  "enroll_endpoint email ed_verify cfg body fresh now s =
     (case valid_enroll email body of
        None \<Rightarrow> (Inl invalid_request, s)
      | Some valid \<Rightarrow> agent_enroll ed_verify cfg valid fresh now s)"

definition label_ok :: "string \<Rightarrow> bool" where
  "label_ok label \<longleftrightarrow> length label \<le> 64"

definition bind_endpoint ::
  "ed_verify \<Rightarrow> settings \<Rightarrow> authed_request \<Rightarrow> key_bind_body \<Rightarrow> string \<Rightarrow> int \<Rightarrow> store_state
    \<Rightarrow> (exn + orcid_key_record) \<times> store_state" where
  "bind_endpoint ed_verify cfg authed body fresh_hex now s =
     (if \<not> label_ok (kb_label body) then (Inl invalid_request, s)
      else bind_orcid_key ed_verify cfg authed body fresh_hex now s)"

record rotate_body =
  ro_new_public_key_b64 :: string
  ro_payload_b64 :: string
  ro_new_signature_b64 :: string

definition check_rotation_payload :: "settings \<Rightarrow> string \<Rightarrow> rotate_body \<Rightarrow> int \<Rightarrow> pydict \<Rightarrow> exn option" where
  "check_rotation_payload cfg hdl body now payload =
     (if dget payload ''handle'' \<noteq> PStr hdl
      then Some (validation_error ''rotation_payload.handle does not match path'' [])
      else if dget payload ''new_public_key_b64'' \<noteq> PStr (ro_new_public_key_b64 body)
      then Some (validation_error ''rotation_payload.new_public_key_b64 does not match request'' [])
      else case as_num (dget payload ''issued_at'') of
        None \<Rightarrow> Some (validation_error ''rotation_payload.issued_at missing or not int'' [])
      | Some issued_at \<Rightarrow>
          if \<not> in_window now cfg issued_at then Some (unauthorized ''rotation_payload.issued_at out of window'')
          else None)"

definition agent_rotate_key ::
  "ed_verify \<Rightarrow> settings \<Rightarrow> string \<Rightarrow> rotate_body \<Rightarrow> string \<Rightarrow> int \<Rightarrow> store_state
    \<Rightarrow> (exn + agent_record) \<times> store_state" where
  "agent_rotate_key ed_verify cfg hdl body authorization now s =
     (if \<not> has_bearer authorization then (Inl (unauthorized ''missing bearer token''), s)
      else case get_token s (bearer_token authorization) of
        None \<Rightarrow> (Inl (unauthorized ''token not recognised''), s)
      | Some r \<Rightarrow>
          (case tr_identity r of
             AgentIdentity h \<Rightarrow>
               if h \<noteq> hdl
               then (Inl (forbidden (''bearer identity '' @ repr_str h @ '' does not match path handle '' @ repr_str hdl)), s)
               else if \<not> possession_ok ed_verify (ro_new_public_key_b64 body) (ro_new_signature_b64 body) (ro_payload_b64 body)
               then (Inl (unauthorized ''new-key signature invalid''), s)
               else (case load_payload (ro_payload_b64 body) of
                  None \<Rightarrow> (Inl (validation_error ''rotation_payload not valid base64-encoded JSON'' []), s)
                | Some (PDict payload) \<Rightarrow>
                    (case check_rotation_payload cfg hdl body now payload of
                       Some e \<Rightarrow> (Inl e, s)
                     | None \<Rightarrow>
                         (case get_agent s hdl of
                            None \<Rightarrow> (Inl (unauthorized ''agent not enrolled''), s)
                          | Some existing \<Rightarrow>
                              let a = \<lparr>ar_handle = hdl, ar_public_key_b64 = ro_new_public_key_b64 body,
                                       ar_contact = ar_contact existing,
                                       ar_enrolled_at_unix = ar_enrolled_at_unix existing\<rparr>
                              in (Inr a, add_agent a s)))
                | Some _ \<Rightarrow> (Inl (Raised AttributeError), s))
           | _ \<Rightarrow> (Inl (forbidden ''only agent identities can rotate keys''), s)))"

section \<open>Anonymous attestation\<close>

definition anonymous_challenge :: "settings \<Rightarrow> string \<Rightarrow> int \<Rightarrow> store_state \<Rightarrow> challenge_record \<times> store_state" where
  "anonymous_challenge cfg fresh_hex now s =
     (let c = \<lparr>ch_challenge_id = ''chal-'' @ fresh_hex, ch_challenge_type = ''hcaptcha'',
               ch_site_key = hcaptcha_site_key cfg, ch_issued_at_unix = now,
               ch_expires_at_unix = now + challenge_ttl_seconds cfg, ch_consumed = False\<rparr>
      in (c, add_challenge c s))"

definition error_codes :: "pyval \<Rightarrow> pyexn + string" where
  "error_codes v = rbind (py_iter (py_or v (PList []))) (\<lambda>xs.
     if list_all is_str xs then Inr (join_on '','' (map py_str xs)) else Inl TypeError)"

definition verify_with_hcaptcha :: "(string \<Rightarrow> reply) \<Rightarrow> settings \<Rightarrow> string \<Rightarrow> exn + unit" where
  "verify_with_hcaptcha siteverify cfg response =
     (if dev_mode cfg then Inr ()
      else if \<not> truthy_opt (hcaptcha_secret cfg)
      then Inl (bad_request ''production hCaptcha integration requires RRXIV_HCAPTCHA_SECRET; or run with --dev-mode'' [])
      else case siteverify response of
        Unreachable \<Rightarrow> Inl (unauthorized ''hCaptcha verify endpoint unreachable'')
      | Replied status body \<Rightarrow>
          if 400 \<le> status then Inl (unauthorized (''hCaptcha verify HTTP '' @ str_of_int status))
          else (case body of
             None \<Rightarrow> Inl (Raised ValueError)
           | Some v \<Rightarrow>
               rbind (raising (py_get v ''success'')) (\<lambda>ok.
               if truthy ok then Inr ()
               else rbind (raising (py_get v ''error-codes'')) (\<lambda>raw.
                 rbind (raising (error_codes raw)) (\<lambda>codes.
                   Inl (unauthorized (''hCaptcha rejected response: '' @ (if codes = [] then ''unknown'' else codes))))))))"

definition anonymous_verify ::
  "(string \<Rightarrow> reply) \<Rightarrow> settings \<Rightarrow> string \<Rightarrow> string \<Rightarrow> string \<Rightarrow> int \<Rightarrow> store_state
    \<Rightarrow> (exn + string \<times> int) \<times> store_state" where
  "anonymous_verify siteverify cfg chal_id response fresh now s =
     (if str_strip response = [] then (Inl (bad_request ''response must not be empty'' []), s)
      else case get_challenge s chal_id of
        None \<Rightarrow> (Inl (unauthorized ''challenge unknown, consumed, or expired''), s)
      | Some c \<Rightarrow>
          if ch_consumed c \<or> ch_expires_at_unix c < now
          then (Inl (unauthorized ''challenge unknown, consumed, or expired''), s)
          else
            let s1 = consume_challenge chal_id s
            in case verify_with_hcaptcha siteverify cfg response of
                 Inl e \<Rightarrow> (Inl e, s1)
               | Inr _ \<Rightarrow>
                   (Inr (fresh, token_ttl_seconds_anonymous cfg),
                    issue_token fresh (AnonymousIdentity chal_id) (token_ttl_seconds_anonymous cfg) now s1))"

definition anonymous_render :: "string \<Rightarrow> store_state \<Rightarrow> exn + unit" where
  "anonymous_render chal_id s =
     (case get_challenge s chal_id of
        None \<Rightarrow> Inl (not_found ''challenge unknown or already consumed'')
      | Some c \<Rightarrow> if ch_consumed c then Inl (not_found ''challenge unknown or already consumed'') else Inr ())"

section \<open>Refresh\<close>

definition refresh_token ::
  "settings \<Rightarrow> string \<Rightarrow> string \<Rightarrow> int \<Rightarrow> store_state \<Rightarrow> (exn + string \<times> int) \<times> store_state" where
  "refresh_token cfg authorization fresh now s =
     (if \<not> has_bearer authorization then (Inl (unauthorized ''missing bearer token''), s)
      else
        let old_token = bearer_token authorization
        in case get_token s old_token of
             None \<Rightarrow> (Inl (unauthorized ''token not recognised''), s)
           | Some r \<Rightarrow>
               if tr_expires_at_unix r < now then (Inl (unauthorized ''token expired; re-login from scratch''), s)
               else (case tr_identity r of
                  AnonymousIdentity _ \<Rightarrow> (Inl (forbidden ''anonymous tokens cannot be refreshed''), s)
                | OrcidIdentity _ \<Rightarrow>
                    (Inr (fresh, token_ttl_seconds_orcid cfg),
                     revoke_token old_token
                       (issue_token fresh (tr_identity r) (token_ttl_seconds_orcid cfg) now s))
                | AgentIdentity _ \<Rightarrow>
                    (Inr (fresh, token_ttl_seconds_agent cfg),
                     revoke_token old_token
                       (issue_token fresh (tr_identity r) (token_ttl_seconds_agent cfg) now s))))"

section \<open>Codes are redeemed once\<close>

lemma issue_token_codes [simp]:
  "get_paste_code (issue_token tok i ttl now s) c = get_paste_code s c"
  "get_challenge (issue_token tok i ttl now s) c = get_challenge s c"
  by (simp_all add: issue_token_def add_token_def get_paste_code_def get_challenge_def)

lemma redeemable_issue_token [simp]:
  "mem_paste_codes.redeemable (issue_token tok i ttl now s) c = mem_paste_codes.redeemable s c"
  "mem_challenges.redeemable (issue_token tok i ttl now s) c = mem_challenges.redeemable s c"
  by (simp_all add: mem_paste_codes.redeemable_def mem_challenges.redeemable_def)

lemma exchange_needs_redeemable:
  assumes "orcid_exchange_paste cfg c tok now s = (Inr r, s')"
  shows "mem_paste_codes.redeemable s c \<and> \<not> mem_paste_codes.redeemable s' c"
proof -
  from assms have "mem_paste_codes.redeemable s c"
    by (auto simp: orcid_exchange_paste_def mem_paste_codes.redeemable_def split: option.splits if_splits)
  moreover have "\<not> mem_paste_codes.redeemable (consume_paste_code c s) c"
    by (rule mem_paste_codes.consume_spends [where s = s]) simp_all
  ultimately show ?thesis
    using assms by (auto simp: orcid_exchange_paste_def split: option.splits if_splits)
qed

lemma exchange_keeps_spent:
  assumes "orcid_exchange_paste cfg d tok now s = (r, s')" "\<not> mem_paste_codes.redeemable s c"
  shows "\<not> mem_paste_codes.redeemable s' c"
proof -
  have "\<not> mem_paste_codes.redeemable (consume_paste_code d s) c"
    by (rule mem_paste_codes.consume_keeps_spent [OF _ _ assms(2), of d]) simp_all
  moreover have "s' \<in> {s} \<union> {issue_token tok i ttl now (consume_paste_code d s) | i ttl. True}"
    using assms(1) by (auto simp: orcid_exchange_paste_def split: option.splits if_splits)
  ultimately show ?thesis using assms(2) by auto
qed

text \<open>A sequence of exchanges: (code, fresh token, time); the codes that were accepted.\<close>

fun redeem_all :: "settings \<Rightarrow> (string \<times> string \<times> int) list \<Rightarrow> store_state \<Rightarrow> string list" where
  "redeem_all cfg [] s = []"
| "redeem_all cfg ((c, tok, now) # rs) s =
     (case orcid_exchange_paste cfg c tok now s of
        (Inl _, s') \<Rightarrow> redeem_all cfg rs s'
      | (Inr _, s') \<Rightarrow> c # redeem_all cfg rs s')"

lemma redeem_all_spent: "\<not> mem_paste_codes.redeemable s c \<Longrightarrow> c \<notin> set (redeem_all cfg rs s)"
proof (induction rs arbitrary: s)
  case Nil
  then show ?case by simp
next
  case (Cons a rs)
  obtain d tok now where a: "a = (d, tok, now)" by (cases a)
  obtain r s' where e: "orcid_exchange_paste cfg d tok now s = (r, s')"
    by (cases "orcid_exchange_paste cfg d tok now s")
  have "\<not> mem_paste_codes.redeemable s' c" using exchange_keeps_spent [OF e Cons.prems] .
  from Cons.IH [OF this] show ?case
    using exchange_needs_redeemable [of cfg d tok now s _ s'] Cons.prems e
    by (cases r) (auto simp: a)
qed

text \<open>
  C15: However often and in whatever order paste codes are sent to the exchange endpoint,
  no code is accepted twice.
\<close>

theorem paste_code_single_use:
  "distinct (redeem_all cfg attempts s)"
proof (induction attempts arbitrary: s)
  case Nil
  then show ?case by simp
next
  case (Cons a rs)
  obtain c tok now where a: "a = (c, tok, now)" by (cases a)
  obtain r s' where e: "orcid_exchange_paste cfg c tok now s = (r, s')"
    by (cases "orcid_exchange_paste cfg c tok now s")
  show ?case
  proof (cases r)
    case (Inl x)
    with e Cons show ?thesis by (simp add: a)
  next
    case (Inr x)
    with exchange_needs_redeemable [of cfg c tok now s x s'] e have "\<not> mem_paste_codes.redeemable s' c" by simp
    with redeem_all_spent [of s' c cfg rs] Inr e Cons show ?thesis by (simp add: a)
  qed
qed

lemma verify_needs_redeemable:
  assumes "anonymous_verify sv cfg c resp tok now s = (Inr r, s')"
  shows "mem_challenges.redeemable s c \<and> \<not> mem_challenges.redeemable s' c"
proof -
  from assms have "mem_challenges.redeemable s c"
    by (auto simp: anonymous_verify_def mem_challenges.redeemable_def split: option.splits if_splits)
  moreover have "\<not> mem_challenges.redeemable (consume_challenge c s) c"
    by (rule mem_challenges.consume_spends [where s = s]) simp_all
  ultimately show ?thesis
    using assms by (auto simp: anonymous_verify_def Let_def split: option.splits if_splits sum.splits)
qed

lemma verify_keeps_spent:
  assumes "anonymous_verify sv cfg d resp tok now s = (r, s')" "\<not> mem_challenges.redeemable s c"
  shows "\<not> mem_challenges.redeemable s' c"
proof -
  have "\<not> mem_challenges.redeemable (consume_challenge d s) c"
    by (rule mem_challenges.consume_keeps_spent [OF _ _ assms(2), of d]) simp_all
  moreover have "s' \<in> {s, consume_challenge d s} \<union>
      {issue_token tok i ttl now (consume_challenge d s) | i ttl. True}"
    using assms(1) by (auto simp: anonymous_verify_def Let_def split: option.splits if_splits sum.splits)
  ultimately show ?thesis using assms(2) by auto
qed

text \<open>A sequence of attempts: (challenge, response, fresh token, time); the challenges accepted.\<close>

fun verify_all ::
  "(string \<Rightarrow> reply) \<Rightarrow> settings \<Rightarrow> (string \<times> string \<times> string \<times> int) list \<Rightarrow> store_state \<Rightarrow> string list" where
  "verify_all sv cfg [] s = []"
| "verify_all sv cfg ((c, resp, tok, now) # rs) s =
     (case anonymous_verify sv cfg c resp tok now s of
        (Inl _, s') \<Rightarrow> verify_all sv cfg rs s'
      | (Inr _, s') \<Rightarrow> c # verify_all sv cfg rs s')"

lemma verify_all_spent: "\<not> mem_challenges.redeemable s c \<Longrightarrow> c \<notin> set (verify_all sv cfg rs s)"
proof (induction rs arbitrary: s)
  case Nil
  then show ?case by simp
next
  case (Cons a rs)
  obtain d resp tok now where a: "a = (d, resp, tok, now)" by (cases a)
  obtain r s' where e: "anonymous_verify sv cfg d resp tok now s = (r, s')"
    by (cases "anonymous_verify sv cfg d resp tok now s")
  have "\<not> mem_challenges.redeemable s' c" using verify_keeps_spent [OF e Cons.prems] .
  from Cons.IH [OF this] show ?case
    using verify_needs_redeemable [of sv cfg d resp tok now s _ s'] Cons.prems e
    by (cases r) (auto simp: a)
qed

text \<open>
  No challenge buys two anonymous tokens, whatever is sent to the verification
  endpoint and in whatever order, and whatever the captcha service answers.
\<close>

lemma challenge_single_use:
  "distinct (verify_all sv cfg attempts s)"
proof (induction attempts arbitrary: s)
  case Nil
  then show ?case by simp
next
  case (Cons a rs)
  obtain c resp tok now where a: "a = (c, resp, tok, now)" by (cases a)
  obtain r s' where e: "anonymous_verify sv cfg c resp tok now s = (r, s')"
    by (cases "anonymous_verify sv cfg c resp tok now s")
  show ?case
  proof (cases r)
    case (Inl x)
    with e Cons show ?thesis by (simp add: a)
  next
    case (Inr x)
    with verify_needs_redeemable [of sv cfg c resp tok now s x s'] e
    have "\<not> mem_challenges.redeemable s' c" by simp
    with verify_all_spent [of s' c sv cfg rs] Inr e Cons show ?thesis by (simp add: a)
  qed
qed

section \<open>Refresh\<close>

text \<open>
  Refreshing swaps one token for another: the caller's token was live and is dead
  afterwards, the fresh one is bound to the same identity with a full lifetime, and every
  other token is as before. Anonymous tokens are never refreshed.
\<close>

lemma refresh_swaps_token:
  assumes "refresh_token cfg auth fresh now s = (Inr (tok, ttl), s')" "fresh \<noteq> bearer_token auth"
  shows "tok = fresh \<and> (\<exists>r. get_token s (bearer_token auth) = Some r \<and> now \<le> tr_expires_at_unix r \<and>
      \<not> is_anonymous (tr_identity r) \<and>
      get_token s' fresh = Some \<lparr>tr_token = fresh, tr_identity = tr_identity r,
        tr_issued_at_unix = now, tr_expires_at_unix = now + ttl\<rparr>) \<and>
    get_token s' (bearer_token auth) = None \<and>
    (\<forall>t. t \<noteq> fresh \<longrightarrow> t \<noteq> bearer_token auth \<longrightarrow> get_token s' t = get_token s t)"
proof -
  let ?old = "bearer_token auth"
  from assms(1) obtain r where r: "get_token s ?old = Some r" "now \<le> tr_expires_at_unix r"
    "\<not> is_anonymous (tr_identity r)" "tok = fresh"
    and s': "s' = revoke_token ?old (issue_token fresh (tr_identity r) ttl now s)"
    by (auto simp: refresh_token_def Let_def not_less split: if_splits option.splits identity.splits)
  let ?r = "\<lparr>tr_token = fresh, tr_identity = tr_identity r, tr_issued_at_unix = now,
     tr_expires_at_unix = now + ttl\<rparr>"
  show ?thesis
    using r mem_tokens.exchange_new [of ?r ?old s] mem_tokens.exchange_old [of ?old ?r s]
      mem_tokens.exchange_frame [of _ ?r ?old s] assms(2)
    by (auto simp: s' issue_token_def)
qed

lemma refresh_swaps_token_witness:
  "get_token (snd (refresh_token default_settings ''Bearer tok'' ''new'' 50
     (add_token \<lparr>tr_token = ''tok'', tr_identity = AgentIdentity ''@a'', tr_issued_at_unix = 0,
        tr_expires_at_unix = 100\<rparr> empty_store))) ''tok'' = None"
proof -
  let ?s = "add_token \<lparr>tr_token = ''tok'', tr_identity = AgentIdentity ''@a'', tr_issued_at_unix = 0,
      tr_expires_at_unix = 100\<rparr> empty_store"
  obtain r s' where e: "refresh_token default_settings ''Bearer tok'' ''new'' 50 ?s = (r, s')"
    by (cases "refresh_token default_settings ''Bearer tok'' ''new'' 50 ?s")
  have "fst (refresh_token default_settings ''Bearer tok'' ''new'' 50 ?s) = Inr (''new'', 2592000)"
    by code_simp
  moreover have b: "bearer_token ''Bearer tok'' = ''tok''" by code_simp
  ultimately show ?thesis
    using refresh_swaps_token [of default_settings "''Bearer tok''" "''new''" 50 ?s "''new''" 2592000 s'] e
    by (simp add: b)
qed

section \<open>Key rotation and enrolment\<close>

text \<open>
  Rotating a key changes only the agent that the bearer belongs to and only its key;
  the new key is the one the request's signature proves possession of.
\<close>

lemma rotation_frame:
  assumes "agent_rotate_key ed_verify cfg h body auth now s = (Inr a, s')"
  shows "(\<exists>r. get_token s (bearer_token auth) = Some r \<and> tr_identity r = AgentIdentity h) \<and>
    possession_ok ed_verify (ro_new_public_key_b64 body) (ro_new_signature_b64 body) (ro_payload_b64 body) \<and>
    (\<exists>old. get_agent s h = Some old \<and>
      get_agent s' h = Some (old\<lparr>ar_handle := h, ar_public_key_b64 := ro_new_public_key_b64 body\<rparr>)) \<and>
    (\<forall>g. g \<noteq> h \<longrightarrow> get_agent s' g = get_agent s g) \<and> (\<forall>t. get_token s' t = get_token s t)"
  using assms
  by (auto simp: agent_rotate_key_def Let_def add_agent_def get_agent_def get_token_def
      split: if_splits option.splits identity.splits pyval.splits)

text \<open>A rotation request, its payload and the JSON text in it.\<close>

definition example_payload :: pydict where
  "example_payload = [(''handle'', PStr ''@a''), (''issued_at'', PInt 50), (''new_public_key_b64'', PStr ''aGk='')]"

definition example_text :: string where
  "example_text = json_dumps (PDict example_payload)"

definition example_b64 :: string where
  "example_b64 = ''eyJoYW5kbGUiOiJAYSIsImlzc3VlZF9hdCI6NTAsIm5ld19wdWJsaWNfa2V5X2I2NCI6ImFHaz0ifQ==''"

definition rotate_example :: rotate_body where
  "rotate_example = \<lparr>ro_new_public_key_b64 = ''aGk='', ro_payload_b64 = example_b64,
     ro_new_signature_b64 = ''aGk=''\<rparr>"

lemma example_b64_decoded: "std_b64_decode example_b64 = Some example_text"
  by code_simp

lemma example_json_value: "read_value 118 example_text = Some (PDict example_payload, [])"
  by code_simp

lemma example_json_utf8: "utf8_decode example_text = Some example_text"
  by code_simp

lemma example_json_length: "length example_text = 58"
  by code_simp

lemma rotate_example_payload: "load_payload (ro_payload_b64 rotate_example) = Some (PDict example_payload)"
  by (simp add: load_payload_def rotate_example_def example_b64_decoded json_loads_def example_json_utf8
      example_json_length example_json_value skip_ws_def)

lemma rotate_example_possession:
  "possession_ok (\<lambda>_ _ _. True) (ro_new_public_key_b64 rotate_example)
     (ro_new_signature_b64 rotate_example) (ro_payload_b64 rotate_example)"
  by code_simp

lemma rotate_example_check:
  "check_rotation_payload default_settings ''@a'' rotate_example 50 example_payload = None"
  by code_simp

lemma rotation_frame_witness:
  "\<exists>old. get_agent (add_agent \<lparr>ar_handle = ''@a'', ar_public_key_b64 = ''b2xk'', ar_contact = None,
      ar_enrolled_at_unix = 0\<rparr> (add_token \<lparr>tr_token = ''tok'', tr_identity = AgentIdentity ''@a'',
      tr_issued_at_unix = 0, tr_expires_at_unix = 100\<rparr> empty_store)) ''@a'' = Some old"
proof -
  let ?s = "add_agent \<lparr>ar_handle = ''@a'', ar_public_key_b64 = ''b2xk'', ar_contact = None,
      ar_enrolled_at_unix = 0\<rparr> (add_token \<lparr>tr_token = ''tok'', tr_identity = AgentIdentity ''@a'',
      tr_issued_at_unix = 0, tr_expires_at_unix = 100\<rparr> empty_store)"
  obtain r s' where e: "agent_rotate_key (\<lambda>_ _ _. True) default_settings ''@a'' rotate_example ''Bearer tok'' 50 ?s = (r, s')"
    by (cases "agent_rotate_key (\<lambda>_ _ _. True) default_settings ''@a'' rotate_example ''Bearer tok'' 50 ?s")
  have "fst (agent_rotate_key (\<lambda>_ _ _. True) default_settings ''@a'' rotate_example ''Bearer tok'' 50 ?s) =
      Inr \<lparr>ar_handle = ''@a'', ar_public_key_b64 = ''aGk='', ar_contact = None, ar_enrolled_at_unix = 0\<rparr>"
  proof -
    have h: "has_bearer ''Bearer tok''" "bearer_token ''Bearer tok'' = ''tok''" by code_simp+
    have pub: "ro_new_public_key_b64 rotate_example = ''aGk=''" by (simp add: rotate_example_def)
    show ?thesis
      using rotate_example_possession
      by (simp add: agent_rotate_key_def h rotate_example_payload rotate_example_check pub
          get_token_def add_agent_def add_token_def get_agent_def empty_store_def Let_def)
  qed
  with rotation_frame [of "\<lambda>_ _ _. True" default_settings "''@a''" rotate_example "''Bearer tok''" 50 ?s _ s'] e
  show ?thesis by auto
qed

end
