(* ===== verification/Signature_Middleware.thy ===== *)
theory Signature_Middleware
  imports Auth_Router
begin

text \<open>
  Signed writes: the server-side check of \<open>client/signatures.py\<close> and the middleware
  \<open>server/auth/signature_middleware.py\<close> that runs before the routes. What the
  http-message-signatures library and the cryptography package do is a parameter: reading
  the \<open>rrxiv\<close> entry of Signature-Input, building a public key from its bytes, and
  verifying a request with a key resolver, which yields the labels of the signatures it
  accepted. SHA-256 is a parameter, too.
\<close>

record request =
  rq_method :: string
  rq_headers :: "(string \<times> string) list"
  rq_body :: bytes

text \<open>Header names are lower case, as the server hands them over.\<close>

definition header :: "request \<Rightarrow> string \<Rightarrow> string option" where
  "header rq name = dict_get (rq_headers rq) name"

text \<open>The entry labelled \<open>rrxiv\<close> in Signature-Input: its \<open>created\<close> and \<open>keyid\<close>.\<close>

datatype sig_entry = Malformed | NoEntry | Entry "int option" "string option"

record 'k sig_lib =
  read_input :: "string \<Rightarrow> sig_entry"
  load_key :: "bytes \<Rightarrow> 'k option"
  http_verify :: "(string \<Rightarrow> 'k option) \<Rightarrow> request \<Rightarrow> string list option"
  sha256 :: "bytes \<Rightarrow> bytes"

definition default_clock_skew_seconds :: int where "default_clock_skew_seconds = 300"

definition content_digest :: "'k sig_lib \<Rightarrow> bytes \<Rightarrow> string" where
  "content_digest lib body = ''sha-256=:'' @ std_b64_encode (sha256 lib body) @ '':''"

text \<open>The components a client covers, by what the request has.\<close>

definition components_for_request :: "request \<Rightarrow> string list" where
  "components_for_request rq =
     [''@method'', ''@target-uri'', ''@authority''] @
     (if rq_body rq \<noteq> [] then [''content-digest'', ''content-type''] else []) @
     (if header rq ''idempotency-key'' \<noteq> None then [''idempotency-key''] else [])"

section \<open>Verification\<close>

record verified_signature =
  vs_keyid :: string
  vs_created_unix :: int

text \<open>The failures with a reason, and an exception of the header parser that passes through.\<close>

datatype sig_error = SigError string | SigRaised pyexn

definition given :: "string option \<Rightarrow> bool" where
  "given v = (v \<noteq> None \<and> v \<noteq> Some [])"

definition verify_request_signature ::
  "'k sig_lib \<Rightarrow> request \<Rightarrow> (string \<Rightarrow> 'k option) \<Rightarrow> int \<Rightarrow> int \<Rightarrow> sig_error + verified_signature" where
  "verify_request_signature lib rq lookup skew now =
     (let sig_input = header rq ''signature-input''; sig = header rq ''signature'';
          sent = header rq ''content-digest''
      in if \<not> given sig_input \<or> \<not> given sig
         then Inl (SigError ''missing Signature-Input or Signature header'')
         else if rq_body rq \<noteq> [] \<and> \<not> given sent
         then Inl (SigError ''body present but Content-Digest missing'')
         else if rq_body rq \<noteq> [] \<and> str_strip (the sent) \<noteq> content_digest lib (rq_body rq)
         then Inl (SigError ''Content-Digest mismatch'')
         else case read_input lib (the sig_input) of
           Malformed \<Rightarrow> Inl (SigRaised ValueError)
         | NoEntry \<Rightarrow> Inl (SigError ''missing created parameter on signature'')
         | Entry None _ \<Rightarrow> Inl (SigError ''missing created parameter on signature'')
         | Entry (Some created) keyid \<Rightarrow>
             if skew < abs (now - created)
             then Inl (SigError ''signature created timestamp out of window'')
             else (case keyid of
                None \<Rightarrow> Inl (SigError ''missing keyid parameter on signature'')
              | Some k \<Rightarrow>
                  (case http_verify lib lookup rq of
                     None \<Rightarrow> Inl (SigError ''signature verification failed'')
                   | Some labels \<Rightarrow>
                       if ''rrxiv'' \<in> set labels
                       then Inr \<lparr>vs_keyid = k, vs_created_unix = created\<rparr>
                       else Inl (SigError (''no signature with label '' @ repr_str ''rrxiv'' @ '' present'')))))"

section \<open>The middleware\<close>

text \<open>
  \<open>lookup\<close>: a \<open>key:\<close> id names a bound ORCID key that is not revoked, anything
  else an agent.
\<close>

definition key_lookup :: "'k sig_lib \<Rightarrow> store_state \<Rightarrow> string \<Rightarrow> 'k option" where
  "key_lookup lib s keyid =
     (let pub_b64 =
        (if startswith keyid ''key:'' then
           (case get_orcid_key s keyid of
              None \<Rightarrow> None
            | Some r \<Rightarrow> if ok_revoked_at_unix r \<noteq> None then None else Some (ok_public_key_b64 r))
         else map_option ar_public_key_b64 (get_agent s keyid))
      in case pub_b64 of
           None \<Rightarrow> None
         | Some b64 \<Rightarrow> Option.bind (std_b64_decode b64) (load_key lib))"

text \<open>The check that the signing key belongs to the bearer's identity.\<close>

definition mismatch_reason :: "store_state \<Rightarrow> identity \<Rightarrow> string \<Rightarrow> string option" where
  "mismatch_reason s ident keyid =
     (case ident of
        AgentIdentity h \<Rightarrow>
          if startswith keyid ''key:''
          then Some (''agent bearer cannot use ORCID-bound keyid '' @ repr_str keyid)
          else if keyid \<noteq> h
          then Some (''signature keyid '' @ repr_str keyid @ '' does not match agent handle '' @ repr_str h)
          else None
      | OrcidIdentity oid \<Rightarrow>
          if \<not> startswith keyid ''key:''
          then Some (''ORCID bearer cannot use agent keyid '' @ repr_str keyid)
          else (case get_orcid_key s keyid of
             None \<Rightarrow> Some (''key '' @ repr_str keyid @ '' not found'')
           | Some r \<Rightarrow>
               if ok_revoked_at_unix r \<noteq> None then Some (''key '' @ repr_str keyid @ '' is revoked'')
               else if ok_orcid_id r \<noteq> oid
               then Some (''key '' @ repr_str keyid @ '' not bound to bearer's ORCID iD'')
               else None)
      | AnonymousIdentity _ \<Rightarrow> Some ''anonymous identities cannot sign requests'')"

text \<open>
  What happens to a request: it goes on to the routes as it is, it goes on with a verified
  signature, it is answered with a problem, or the middleware raises.
\<close>

datatype verdict = Pass | PassVerified string | Respond int string | Crash pyexn

definition upper_method :: "string \<Rightarrow> string" where
  "upper_method m = map (\<lambda>c. if CHR ''a'' \<le> c \<and> c \<le> CHR ''z'' then char_of ((of_char c :: nat) - 32) else c) m"

definition signature_middleware :: "'k sig_lib \<Rightarrow> settings \<Rightarrow> request \<Rightarrow> int \<Rightarrow> store_state \<Rightarrow> verdict" where
  "signature_middleware lib cfg rq now s =
     (if upper_method (rq_method rq) \<in> set [''GET'', ''HEAD'', ''OPTIONS''] then Pass
      else
        let authorization = (case header rq ''authorization'' of None \<Rightarrow> [] | Some v \<Rightarrow> v)
        in if \<not> has_bearer authorization then Pass
           else case get_token s (bearer_token authorization) of
             None \<Rightarrow> Pass
           | Some r \<Rightarrow>
               if tr_expires_at_unix r < now then Pass
               else
                 let ident = tr_identity r; has_signature = (header rq ''signature'' \<noteq> None)
                 in if (case ident of AgentIdentity _ \<Rightarrow> False | _ \<Rightarrow> True) \<and> \<not> has_signature then Pass
                    else (case verify_request_signature lib rq (key_lookup lib s)
                            (signature_clock_skew_seconds cfg) now of
                       Inl (SigError reason) \<Rightarrow> Respond 401 (''signature: '' @ reason)
                     | Inl (SigRaised e) \<Rightarrow> Crash e
                     | Inr v \<Rightarrow>
                         (case mismatch_reason s ident (vs_keyid v) of
                            Some reason \<Rightarrow> Respond 403 reason
                          | None \<Rightarrow> PassVerified (vs_keyid v))))"

section \<open>What a verified request guarantees\<close>

text \<open>
  The library's documented behaviour: when it accepts the signature labelled
  \<open>rrxiv\<close>, the resolver had a key for that entry's \<open>keyid\<close>, and the request
  carries a signature by that key.
\<close>

definition lib_sound :: "'k sig_lib \<Rightarrow> ('k \<Rightarrow> request \<Rightarrow> bool) \<Rightarrow> bool" where
  "lib_sound lib signed_by \<longleftrightarrow> (\<forall>lookup rq labels created k.
     http_verify lib lookup rq = Some labels \<longrightarrow> ''rrxiv'' \<in> set labels \<longrightarrow>
     read_input lib (the (header rq ''signature-input'')) = Entry created (Some k) \<longrightarrow>
     (\<exists>key. lookup k = Some key \<and> signed_by key rq))"

lemma verified_signature_facts:
  assumes "verify_request_signature lib rq lookup skew now = Inr v"
  shows "\<exists>labels. http_verify lib lookup rq = Some labels \<and> ''rrxiv'' \<in> set labels \<and>
    read_input lib (the (header rq ''signature-input'')) = Entry (Some (vs_created_unix v)) (Some (vs_keyid v)) \<and>
    abs (now - vs_created_unix v) \<le> skew \<and>
    (rq_body rq \<noteq> [] \<longrightarrow> (\<exists>sent. header rq ''content-digest'' = Some sent \<and>
       str_strip sent = content_digest lib (rq_body rq)))"
  using assms
  by (auto simp: verify_request_signature_def Let_def given_def
      split: if_splits sig_entry.splits option.splits)

lemma agent_write_signed:
  assumes "lib_sound lib signed_by"
    and "upper_method (rq_method rq) \<notin> {''GET'', ''HEAD'', ''OPTIONS''}"
    and "header rq ''authorization'' = Some auth" "has_bearer auth"
    and "get_token s (bearer_token auth) = Some r" "now \<le> tr_expires_at_unix r"
    and "tr_identity r = AgentIdentity h"
    and "signature_middleware lib cfg rq now s \<in> {Pass, PassVerified kid}"
  shows "kid = h \<and> signature_middleware lib cfg rq now s = PassVerified h \<and>
    (\<exists>a pub key created. get_agent s h = Some a \<and> std_b64_decode (ar_public_key_b64 a) = Some pub \<and>
      load_key lib pub = Some key \<and> signed_by key rq \<and>
      read_input lib (the (header rq ''signature-input'')) = Entry (Some created) (Some h) \<and>
      abs (now - created) \<le> signature_clock_skew_seconds cfg) \<and>
    (rq_body rq \<noteq> [] \<longrightarrow> (\<exists>sent. header rq ''content-digest'' = Some sent \<and>
       str_strip sent = content_digest lib (rq_body rq)))"
proof -
  obtain v where v: "verify_request_signature lib rq (key_lookup lib s) (signature_clock_skew_seconds cfg) now = Inr v"
    and none: "mismatch_reason s (AgentIdentity h) (vs_keyid v) = None"
    and out: "signature_middleware lib cfg rq now s = PassVerified (vs_keyid v)"
    using assms(2-)
    by (auto simp: signature_middleware_def Let_def split: sum.splits sig_error.splits option.splits)
  from none have k: "vs_keyid v = h" "\<not> startswith h ''key:''"
    by (auto simp: mismatch_reason_def split: if_splits)
  with out assms(8) have kid: "kid = h" by auto
  from verified_signature_facts [OF v] obtain labels where
    lib: "http_verify lib (key_lookup lib s) rq = Some labels" "''rrxiv'' \<in> set labels"
    and entry: "read_input lib (the (header rq ''signature-input'')) = Entry (Some (vs_created_unix v)) (Some h)"
    and rest: "abs (now - vs_created_unix v) \<le> signature_clock_skew_seconds cfg"
      "rq_body rq \<noteq> [] \<longrightarrow> (\<exists>sent. header rq ''content-digest'' = Some sent \<and>
         str_strip sent = content_digest lib (rq_body rq))"
    using k by auto
  from assms(1) lib entry obtain key where key: "key_lookup lib s h = Some key" "signed_by key rq"
    unfolding lib_sound_def by blast
  from key(1) k(2) obtain a pub where "get_agent s h = Some a"
    "std_b64_decode (ar_public_key_b64 a) = Some pub" "load_key lib pub = Some key"
    by (auto simp: key_lookup_def bind_eq_Some_conv split: option.splits)
  with key entry rest kid out k show ?thesis by blast
qed

text \<open>
  C7: A write with a live agent token reaches the routes only with a fresh signature made
  with the key that is registered for that very agent at that moment, and with a body that
  matches the digest it was sent with.
\<close>

theorem agent_write_is_signed:
  assumes "lib_sound lib signed_by"
    and "upper_method (rq_method rq) \<notin> {''GET'', ''HEAD'', ''OPTIONS''}"
    and "header rq ''authorization'' = Some auth" "has_bearer auth"
    and "get_token s (bearer_token auth) = Some r" "now \<le> tr_expires_at_unix r"
    and "tr_identity r = AgentIdentity h"
    and "signature_middleware lib cfg rq now s \<in> {Pass, PassVerified kid}"
  shows "kid = h \<and> signature_middleware lib cfg rq now s = PassVerified h \<and>
    (\<exists>a pub key created. get_agent s h = Some a \<and> std_b64_decode (ar_public_key_b64 a) = Some pub \<and>
      load_key lib pub = Some key \<and> signed_by key rq \<and>
      read_input lib (the (header rq ''signature-input'')) = Entry (Some created) (Some h) \<and>
      abs (now - created) \<le> signature_clock_skew_seconds cfg) \<and>
    (rq_body rq \<noteq> [] \<longrightarrow> (\<exists>sent. header rq ''content-digest'' = Some sent \<and>
       str_strip sent = content_digest lib (rq_body rq)))"
  by (rule agent_write_signed [OF assms])

text \<open>A library that accepts everything, with every key and every request counted as signed.\<close>

definition easy_lib :: "unit sig_lib" where
  "easy_lib = \<lparr>read_input = (\<lambda>_. Entry (Some 100) (Some ''@a'')), load_key = (\<lambda>_. Some ()),
     http_verify = (\<lambda>lookup rq. if lookup ''@a'' = None then None else Some [''rrxiv'']), sha256 = (\<lambda>_. [])\<rparr>"

definition agent_store :: store_state where
  "agent_store = add_agent \<lparr>ar_handle = ''@a'', ar_public_key_b64 = ''aGk='', ar_contact = None, ar_enrolled_at_unix = 0\<rparr>
     (add_token \<lparr>tr_token = ''tok'', tr_identity = AgentIdentity ''@a'', tr_issued_at_unix = 0,
        tr_expires_at_unix = 1000\<rparr> empty_store)"

definition signed_request :: request where
  "signed_request = \<lparr>rq_method = ''POST'', rq_headers = [(''authorization'', ''Bearer tok''),
     (''signature-input'', ''x''), (''signature'', ''y'')], rq_body = []\<rparr>"

theorem agent_write_is_signed_witness:
  "\<exists>a pub key. get_agent agent_store ''@a'' = Some a \<and> std_b64_decode (ar_public_key_b64 a) = Some pub \<and>
    load_key easy_lib pub = Some key"
proof -
  have 1: "lib_sound easy_lib (\<lambda>_ _. True)"
    by (auto simp: lib_sound_def easy_lib_def split: if_splits)
  have 2: "signature_middleware easy_lib default_settings signed_request 100 agent_store = PassVerified ''@a''"
    by code_simp
  have 3: "get_token agent_store (bearer_token ''Bearer tok'') = Some \<lparr>tr_token = ''tok'',
      tr_identity = AgentIdentity ''@a'', tr_issued_at_unix = 0, tr_expires_at_unix = 1000\<rparr>"
    by code_simp
  have 4: "has_bearer ''Bearer tok''" "header signed_request ''authorization'' = Some ''Bearer tok''"
    "upper_method (rq_method signed_request) = ''POST''"
    by code_simp+
  from agent_write_is_signed [OF 1 _ 4(2,1) 3, of 100 "''@a''" default_settings "''@a''"] 2 4(3)
  show ?thesis by auto
qed

text \<open>
  A revoked ORCID key signs nothing any more: no request passes the middleware under a
  key id whose record is revoked, with whatever token and library.
\<close>

lemma revoked_key_never_passes:
  assumes "get_orcid_key s kid = Some r" "startswith kid ''key:''"
  shows "signature_middleware lib cfg rq now (revoke_orcid_key kid t s) \<noteq> PassVerified kid"
proof
  assume p: "signature_middleware lib cfg rq now (revoke_orcid_key kid t s) = PassVerified kid"
  have "\<not> mem_orcid_keys.active (revoke_orcid_key kid t s) kid"
    by (rule mem_orcid_keys.revoke_deactivates)
  then have rev: "\<And>r. get_orcid_key (revoke_orcid_key kid t s) kid = Some r \<Longrightarrow> ok_revoked_at_unix r \<noteq> None"
    by (auto simp: mem_orcid_keys.active_def)
  from p obtain ident where "mismatch_reason (revoke_orcid_key kid t s) ident kid = None"
    by (auto simp: signature_middleware_def Let_def
        split: if_splits option.splits sum.splits sig_error.splits)
  with rev assms(2) show False
    by (cases ident) (auto simp: mismatch_reason_def split: option.splits if_splits)
qed

lemma revoked_key_never_passes_witness:
  "signature_middleware easy_lib default_settings signed_request 100
     (revoke_orcid_key ''key:1'' 50 (add_orcid_key \<lparr>ok_orcid_id = ''o'', ok_key_id = ''key:1'',
        ok_public_key_b64 = [], ok_label = [], ok_created_at_unix = 0, ok_revoked_at_unix = None\<rparr> empty_store))
     \<noteq> PassVerified ''key:1''"
  by (rule revoked_key_never_passes) (simp_all add: add_orcid_key_def get_orcid_key_def startswith_def)

text \<open>
  An expired bearer of an agent passes the middleware without any signature, and the
  rotation endpoint, which looks at no expiry, then accepts it: the old key is not needed.
\<close>

lemma expired_bearer_rotates_key:
  assumes "header rq ''authorization'' = Some auth" "has_bearer auth"
    "get_token s (bearer_token auth) = Some r" "tr_identity r = AgentIdentity h" "tr_expires_at_unix r < now"
    and "possession_ok ed_verify (ro_new_public_key_b64 body) (ro_new_signature_b64 body) (ro_payload_b64 body)"
    "load_payload (ro_payload_b64 body) = Some (PDict payload)"
    "check_rotation_payload cfg h body now payload = None" "get_agent s h = Some a"
  shows "signature_middleware lib cfg rq now s = Pass \<and>
    (\<exists>a' s'. agent_rotate_key ed_verify cfg h body auth now s = (Inr a', s') \<and>
       map_option ar_public_key_b64 (get_agent s' h) = Some (ro_new_public_key_b64 body))"
  using assms
  by (simp add: signature_middleware_def agent_rotate_key_def Let_def add_agent_def get_agent_def)

end
