(* ===== verification/Annotations.thy ===== *)
theory Annotations
  imports Pagination Auth_Deps
begin

text \<open>
  Annotations: threads (\<open>server/annotations/threads.py\<close>) and the endpoints of
  \<open>server/annotations/router.py\<close>, listing, reading, creating one and creating
  up to a hundred. Validation against the pydantic model is a parameter: no result when
  the object is valid, otherwise the errors as JSON. So are the random digits of a minted
  id and the hash of the raw request body. Tags, breadcrumbs and metrics are left out.
\<close>

section \<open>Threads\<close>

definition paper_id_of_target :: "string \<Rightarrow> string \<Rightarrow> string option" where
  "paper_id_of_target target_id target_type =
     (if target_type = ''paper'' then Some target_id
      else if CHR '':'' \<in> set target_id then Some (hd (split_once (CHR '':'') target_id))
      else None)"

definition text_field :: "pydict \<Rightarrow> string \<Rightarrow> string" where
  "text_field d k = py_str (py_or (dget d k) (PStr []))"

definition reply_error :: "string \<Rightarrow> string \<Rightarrow> exn" where
  "reply_error code message = HttpException 400 [(''code'', PStr code), (''message'', PStr message)]"

definition find_annotation :: "store_state \<Rightarrow> pyval \<Rightarrow> pyexn + pydict option" where
  "find_annotation s v =
     (case v of
        PStr i \<Rightarrow> Inr (get_annotation s i)
      | _ \<Rightarrow> if unhashable v then Inl TypeError else Inr None)"

text \<open>The artefacts of the new annotation and of the one it replies to must be the same.\<close>

definition artefact_mismatch :: "pydict \<Rightarrow> pydict \<Rightarrow> exn option" where
  "artefact_mismatch body target =
     (let new_paper = paper_id_of_target (text_field body ''target_id'') (text_field body ''target_type'');
          old_paper = paper_id_of_target (text_field target ''target_id'') (text_field target ''target_type'')
      in case (new_paper, old_paper) of
           (Some n, Some p) \<Rightarrow>
             if n \<noteq> [] \<and> p \<noteq> [] \<and> n \<noteq> p
             then Some (reply_error ''in_reply_to_artefact_mismatch''
               (''in_reply_to target lives on paper '' @ repr_str p @
                '' but this annotation targets paper '' @ repr_str n))
             else None
         | _ \<Rightarrow> None)"

definition claim_mismatch :: "pydict \<Rightarrow> pydict \<Rightarrow> exn option" where
  "claim_mismatch body target =
     (if dget body ''target_type'' = PStr ''claim'' \<and> dget target ''target_type'' = PStr ''claim'' \<and>
         \<not> py_eq (dget body ''target_id'') (dget target ''target_id'')
      then Some (reply_error ''in_reply_to_artefact_mismatch''
        (''in_reply_to target lives on claim '' @ py_repr (dget target ''target_id'') @
         '' but this annotation targets claim '' @ py_repr (dget body ''target_id'')))
      else None)"

definition validate_in_reply_to :: "store_state \<Rightarrow> pydict \<Rightarrow> exn option" where
  "validate_in_reply_to s body =
     (let target_id = dget body ''in_reply_to''
      in if \<not> truthy target_id then None
         else case find_annotation s target_id of
           Inl e \<Rightarrow> Some (Raised e)
         | Inr None \<Rightarrow> Some (reply_error ''in_reply_to_not_found''
             (''annotation '' @ py_repr target_id @ '' does not exist''))
         | Inr (Some target) \<Rightarrow>
             if truthy (dget body ''id'') \<and> py_eq (dget body ''id'') target_id
             then Some (reply_error ''in_reply_to_self'' ''annotation cannot reply to itself'')
             else (case artefact_mismatch body target of
                Some e \<Rightarrow> Some e
              | None \<Rightarrow> claim_mismatch body target))"

definition created_key :: "pydict \<Rightarrow> pyval list" where
  "created_key a = [py_or (dget a ''created_at'') (PStr []), py_or (dget a ''id'') (PStr [])]"

definition list_direct_replies :: "store_state \<Rightarrow> string \<Rightarrow> pyexn + pydict list" where
  "list_direct_replies s ann_id =
     py_sorted created_key False (filter (\<lambda>a. dget a ''in_reply_to'' = PStr ann_id) (list_annotations s))"

section \<open>Reading\<close>

definition filter_field :: "string \<Rightarrow> string option \<Rightarrow> pydict list \<Rightarrow> pydict list" where
  "filter_field k v items = (case v of None \<Rightarrow> items | Some t \<Rightarrow> filter (\<lambda>a. dget a k = PStr t) items)"

definition filter_identity_type :: "string option \<Rightarrow> pydict list \<Rightarrow> pydict list" where
  "filter_identity_type v items = (case v of
      None \<Rightarrow> items
    | Some t \<Rightarrow> filter (\<lambda>a. case dget a ''created_by'' of
          PDict d \<Rightarrow> dget d ''identity_type'' = PStr t | _ \<Rightarrow> False) items)"

definition list_annotations_endpoint ::
  "store_state \<Rightarrow> string option \<Rightarrow> string option \<Rightarrow> string option \<Rightarrow> string option \<Rightarrow> string option \<Rightarrow> int option
    \<Rightarrow> exn + pydict list \<times> string option" where
  "list_annotations_endpoint s target_id target_type annotation_type identity_type cursor limit =
     paginate
       (filter_identity_type identity_type
         (filter_field ''annotation_type'' annotation_type
           (filter_field ''target_type'' target_type
             (filter_field ''target_id'' target_id (list_annotations s)))))
       cursor limit created_key True"

definition get_annotation_endpoint :: "store_state \<Rightarrow> string \<Rightarrow> exn + pydict" where
  "get_annotation_endpoint s i = (case get_annotation s i of
      None \<Rightarrow> Inl (not_found (''annotation '' @ i @ '' not found''))
    | Some a \<Rightarrow> Inr a)"

definition get_annotation_replies ::
  "store_state \<Rightarrow> string \<Rightarrow> string option \<Rightarrow> int option \<Rightarrow> exn + pydict list \<times> string option" where
  "get_annotation_replies s i cursor limit =
     (if get_annotation s i = None then Inl (not_found (''annotation '' @ i @ '' not found''))
      else rbind (raising (list_direct_replies s i)) (\<lambda>items. paginate items cursor limit created_key False))"

section \<open>Creating\<close>

definition claim_segment_char :: "char \<Rightarrow> bool" where
  "claim_segment_char c =
     (let n = (of_char c :: nat)
      in (65 \<le> n \<and> n \<le> 90) \<or> (97 \<le> n \<and> n \<le> 122) \<or> is_digit c \<or> n = 95 \<or> n = 46 \<or> n = 45)"

text \<open>
  \<open>^[A-Za-z0-9_.\-]+:[A-Za-z0-9_.:\-]+$\<close>; the first segment has no colon, so it ends at
  the first one.
\<close>

definition claim_id_matches :: "string \<Rightarrow> bool" where
  "claim_id_matches s =
     (let t = (if s \<noteq> [] \<and> last s = char_of (10 :: nat) then butlast s else s)
      in case split_once (CHR '':'') t of
           [a, b] \<Rightarrow> a \<noteq> [] \<and> list_all claim_segment_char a \<and> b \<noteq> [] \<and>
             list_all (\<lambda>c. claim_segment_char c \<or> c = CHR '':'') b
         | _ \<Rightarrow> False)"

text \<open>The existence and shape of the target: \<open>None\<close> when it is fine.\<close>

definition check_target :: "store_state \<Rightarrow> pydict \<Rightarrow> exn option" where
  "check_target s body =
     (let target_type = dget body ''target_type''; target_id = dget body ''target_id''
      in if target_type = PStr ''claim'' then
           (case target_id of
              PStr t \<Rightarrow>
                if \<not> claim_id_matches t
                then Some (validation_error (''target_id '' @ repr_str t @
                  '' for target_type=claim must match <paper_id>:c<n>'') [])
                else if get_claim s t = None then Some (not_found (''claim '' @ t @ '' not found''))
                else None
            | v \<Rightarrow> Some (validation_error (''target_id '' @ py_repr v @
                '' for target_type=claim must match <paper_id>:c<n>'') []))
         else if target_type = PStr ''paper'' then
           (case target_id of
              PStr t \<Rightarrow> if get_paper s t = None then Some (not_found (''paper '' @ t @ '' not found'')) else None
            | v \<Rightarrow> Some (not_found (''paper '' @ py_str v @ '' not found'')))
         else None)"

type_synonym validator = "pydict \<Rightarrow> pyval option"

definition with_id :: "string \<Rightarrow> pydict \<Rightarrow> pydict" where
  "with_id fresh_hex body =
     (if \<not> truthy (dget body ''id'') then dict_set ''id'' (PStr (''ann-'' @ fresh_hex)) body else body)"

definition create_annotation ::
  "validator \<Rightarrow> authed_request \<Rightarrow> pydict \<Rightarrow> string option \<Rightarrow> string \<Rightarrow> string \<Rightarrow> int \<Rightarrow> store_state
    \<Rightarrow> (exn + pydict) \<times> store_state" where
  "create_annotation validate auth body0 idempotency_key body_hash fresh_hex now s =
     (if is_anonymous (au_identity auth)
      then (Inl (forbidden ''anonymous identities cannot create annotations''), s)
      else
        let ikey = (case idempotency_key of Some k \<Rightarrow> if k = [] then None else Some k | None \<Rightarrow> None);
            existing = (case ikey of None \<Rightarrow> None | Some k \<Rightarrow> get_idempotency s (au_token auth) k)
        in case existing of
             Some e \<Rightarrow>
               if ie_body_sha256 e \<noteq> body_hash
               then (Inl (conflict (''idempotency key '' @ repr_str (the ikey) @
                  '' previously used with a different request body'')), s)
               else (Inr (ie_response_body e), s)
           | None \<Rightarrow>
               let body = with_id fresh_hex body0
               in if \<not> dict_has body ''created_by''
                  then (Inl (bad_request ''annotation.created_by is required'' []), s)
                  else (case validate body of
                     Some errors \<Rightarrow>
                       (Inl (validation_error ''annotation failed schema validation'' [(''errors'', errors)]), s)
                   | None \<Rightarrow>
                       (case check_target s body of
                          Some e \<Rightarrow> (Inl e, s)
                        | None \<Rightarrow>
                            (case validate_in_reply_to s body of
                               Some e \<Rightarrow> (Inl e, s)
                             | None \<Rightarrow>
                                 (case add_annotation body s of
                                    Inl e \<Rightarrow> (Inl (Raised e), s)
                                  | Inr s1 \<Rightarrow>
                                      (Inr body,
                                       case ikey of
                                         None \<Rightarrow> s1
                                       | Some k \<Rightarrow> add_idempotency (au_token auth) k
                                           \<lparr>ie_body_sha256 = body_hash, ie_response_status = 201,
                                            ie_response_body = body, ie_created_at_unix = now\<rparr> s1))))))"

section \<open>Creating in bulk\<close>

record bulk_result =
  br_index :: nat
  br_status :: int
  br_payload :: pyval

text \<open>
  \<open>str(e)\<close>. The one exception of the interpreter that can occur is the look-up of an
  unhashable \<open>in_reply_to\<close>, whose text names the type.
\<close>

definition exn_text :: "pyval \<Rightarrow> exn \<Rightarrow> string" where
  "exn_text v e = (case e of
      Problem p \<Rightarrow> pb_detail p
    | HttpException n d \<Rightarrow> str_of_int n @ '': '' @ py_repr (PDict d)
    | Raised _ \<Rightarrow> ''unhashable type: '' @ repr_str (if is_list v then ''list'' else ''dict''))"

text \<open>
  One item: the entry of the results and the new store, or an exception nothing catches
  (storing under an id that is no string).
\<close>

definition bulk_item ::
  "validator \<Rightarrow> nat \<Rightarrow> string \<Rightarrow> pyval \<Rightarrow> store_state \<Rightarrow> pyexn + bulk_result \<times> store_state" where
  "bulk_item validate idx fresh_hex item s =
     (let failed = (\<lambda>status err. Inr (\<lparr>br_index = idx, br_status = status, br_payload = err\<rparr>, s)) in
      case item of
        PDict d \<Rightarrow>
          let body = with_id fresh_hex d
          in if \<not> dict_has body ''created_by'' then failed 400 (PStr ''annotation.created_by is required'')
             else (case validate body of
                Some errors \<Rightarrow> failed 422 errors
              | None \<Rightarrow>
                  (case check_target s body of
                     Some e \<Rightarrow> failed (exn_status e) (PStr (exn_text (dget body ''in_reply_to'') e))
                   | None \<Rightarrow>
                       (case validate_in_reply_to s body of
                          Some e \<Rightarrow> failed 400 (PStr (exn_text (dget body ''in_reply_to'') e))
                        | None \<Rightarrow>
                            rbind (add_annotation body s) (\<lambda>s1.
                              Inr (\<lparr>br_index = idx, br_status = 201, br_payload = PDict body\<rparr>, s1)))))
      | _ \<Rightarrow> failed 422 (PStr ''annotation must be an object''))"

fun bulk_items ::
  "validator \<Rightarrow> (nat \<Rightarrow> string) \<Rightarrow> nat \<Rightarrow> pyval list \<Rightarrow> store_state
    \<Rightarrow> (pyexn + bulk_result list) \<times> store_state" where
  "bulk_items validate fresh idx [] s = (Inr [], s)"
| "bulk_items validate fresh idx (x # xs) s =
     (case bulk_item validate idx (fresh idx) x s of
        Inl e \<Rightarrow> (Inl e, s)
      | Inr (r, s1) \<Rightarrow>
          (case bulk_items validate fresh (Suc idx) xs s1 of
             (Inl e, s2) \<Rightarrow> (Inl e, s2)
           | (Inr rs, s2) \<Rightarrow> (Inr (r # rs), s2)))"

definition bulk_max_per_request :: nat where "bulk_max_per_request = 100"

definition create_annotations_bulk ::
  "validator \<Rightarrow> authed_request \<Rightarrow> pydict \<Rightarrow> (nat \<Rightarrow> string) \<Rightarrow> store_state
    \<Rightarrow> (exn + bulk_result list) \<times> store_state" where
  "create_annotations_bulk validate auth body fresh s =
     (if is_anonymous (au_identity auth)
      then (Inl (forbidden ''anonymous identities cannot create annotations''), s)
      else case dget body ''annotations'' of
        PList raw \<Rightarrow>
          if raw = [] then (Inr [], s)
          else if bulk_max_per_request < length raw
          then (Inl (bad_request (''bulk accepts at most '' @ str_of_nat bulk_max_per_request @
             '' annotations per request (got '' @ str_of_nat (length raw) @ ''); split into multiple calls'') []), s)
          else (case bulk_items validate fresh 0 raw s of (r, s1) \<Rightarrow> (raising r, s1))
      | _ \<Rightarrow> (Inl (bad_request ''body must have an 'annotations' array'' []), s))"

section \<open>Properties\<close>

lemma add_annotation_stores:
  assumes "add_annotation b s = Inr s'"
  shows "\<exists>i. dget b ''id'' = PStr i \<and> s' = s\<lparr>st_annotations := dict_set i b (st_annotations s)\<rparr>"
  using assms
  by (auto simp: add_annotation_def item_id_def dget_def rbind_Inr_iff split: option.splits pyval.splits)

text \<open>
  A created annotation is valid, its target exists, it is stored under its id exactly
  as returned, and no other annotation, paper or claim changes.
\<close>

lemma created_annotation_stored:
  assumes "create_annotation validate auth body0 None h fresh now s = (Inr b, s')"
  shows "\<not> is_anonymous (au_identity auth) \<and> validate b = None \<and> check_target s b = None \<and>
    (\<exists>i. dget b ''id'' = PStr i \<and> get_annotation s' i = Some b \<and>
      (\<forall>j. j \<noteq> i \<longrightarrow> get_annotation s' j = get_annotation s j)) \<and>
    st_papers s' = st_papers s \<and> st_claims s' = st_claims s"
proof -
  from assms have b: "\<not> is_anonymous (au_identity auth)" "validate b = None" "check_target s b = None"
    "add_annotation b s = Inr s'"
    by (auto simp: create_annotation_def Let_def split: if_splits option.splits sum.splits)
  from add_annotation_stores [OF b(4)] b show ?thesis by (auto simp: get_annotation_def)
qed

definition example_auth :: authed_request where
  "example_auth = \<lparr>au_identity = AgentIdentity ''@a'', au_token = ''tok''\<rparr>"

definition example_paper_store :: store_state where
  "example_paper_store = empty_store\<lparr>st_papers := [(''p1'', [(''id'', PStr ''p1'')])]\<rparr>"

definition example_comment :: pydict where
  "example_comment = [(''created_by'', PStr ''@a''), (''target_type'', PStr ''paper''), (''target_id'', PStr ''p1'')]"

lemma created_annotation_stored_witness:
  "get_annotation (snd (create_annotation (\<lambda>_. None) example_auth example_comment None ''h'' ''1'' 0 example_paper_store))
     ''ann-1'' \<noteq> None"
proof -
  obtain r s' where e: "create_annotation (\<lambda>_. None) example_auth example_comment None ''h'' ''1'' 0 example_paper_store = (r, s')"
    by (cases "create_annotation (\<lambda>_. None) example_auth example_comment None ''h'' ''1'' 0 example_paper_store")
  have "fst (create_annotation (\<lambda>_. None) example_auth example_comment None ''h'' ''1'' 0 example_paper_store) =
      Inr (example_comment @ [(''id'', PStr ''ann-1'')])"
    by code_simp
  with e created_annotation_stored [of "\<lambda>_. None" example_auth example_comment "''h''" "''1''" 0 example_paper_store
      "example_comment @ [(''id'', PStr ''ann-1'')]" s']
  show ?thesis by (auto simp: example_comment_def dget_def)
qed

text \<open>
  Repeating a create with the same idempotency key and the same raw body returns the
  first response and stores nothing, whatever time has passed; the same key with another
  body is a 409.
\<close>

lemma idempotency_replay:
  assumes "create_annotation validate auth body0 (Some k) h fresh now s = (Inr b, s')" "k \<noteq> []"
  shows "create_annotation validate auth body1 (Some k) h fresh' now' s' = (Inr b, s') \<and>
    (h' \<noteq> h \<longrightarrow> (\<exists>e. create_annotation validate auth body1 (Some k) h' fresh' now' s' = (Inl e, s') \<and>
       exn_status e = 409))"
proof -
  have "\<not> is_anonymous (au_identity auth)"
    using assms by (auto simp: create_annotation_def split: if_splits)
  moreover have "\<exists>e. get_idempotency s' (au_token auth) k = Some e \<and> ie_body_sha256 e = h \<and>
      ie_response_body e = b"
  proof (cases "get_idempotency s (au_token auth) k")
    case None
    with assms show ?thesis
      by (auto simp: create_annotation_def Let_def get_idempotency_def add_idempotency_def
          split: if_splits option.splits sum.splits)
  next
    case (Some e)
    with assms show ?thesis by (auto simp: create_annotation_def Let_def split: if_splits)
  qed
  ultimately show ?thesis
    using assms(2)
    by (auto simp: create_annotation_def Let_def conflict_def problem_error_def exn_status_def)
qed

lemma idempotency_replay_witness:
  "fst (create_annotation (\<lambda>_. None) example_auth [] (Some ''k'') ''h'' ''2'' 99
     (snd (create_annotation (\<lambda>_. None) example_auth example_comment (Some ''k'') ''h'' ''1'' 0 example_paper_store)))
   = Inr (example_comment @ [(''id'', PStr ''ann-1'')])"
proof -
  obtain r s' where e: "create_annotation (\<lambda>_. None) example_auth example_comment (Some ''k'') ''h'' ''1'' 0 example_paper_store = (r, s')"
    by (cases "create_annotation (\<lambda>_. None) example_auth example_comment (Some ''k'') ''h'' ''1'' 0 example_paper_store")
  have "fst (create_annotation (\<lambda>_. None) example_auth example_comment (Some ''k'') ''h'' ''1'' 0 example_paper_store) =
      Inr (example_comment @ [(''id'', PStr ''ann-1'')])"
    by code_simp
  with e idempotency_replay [of "\<lambda>_. None" example_auth example_comment "''k''" "''h''" "''1''" 0 example_paper_store
      "example_comment @ [(''id'', PStr ''ann-1'')]" s' "[]" "''2''" 99]
  show ?thesis by simp
qed

text \<open>
  The bulk endpoint treats each item as the singleton endpoint would: an item gets
  status 201 exactly when posting it alone succeeds, with the same body and the same
  change of the store, and an item that fails alone changes nothing.
\<close>

lemma bulk_item_as_singleton:
  assumes "\<not> is_anonymous (au_identity auth)" "bulk_item validate idx fresh (PDict d) s = Inr (r, s1)"
  shows "(\<exists>res. create_annotation validate auth d None h fresh now s = (res, s1) \<and>
    (br_status r = 201 \<longleftrightarrow> (\<exists>b. res = Inr b)) \<and> (\<forall>b. res = Inr b \<longrightarrow> br_payload r = PDict b)) \<and>
    (br_status r \<noteq> 201 \<longrightarrow> s1 = s)"
proof -
  have target: "exn_status e \<noteq> 201" if "check_target s b = Some e" for b e
    using that by (auto simp: check_target_def Let_def validation_error_def not_found_def problem_error_def
        exn_status_def split: if_splits pyval.splits)
  show ?thesis
    using assms target
    by (auto simp: bulk_item_def create_annotation_def Let_def rbind_Inr_iff
        split: if_splits option.splits sum.splits)
qed

lemma bulk_item_as_singleton_witness:
  "\<exists>r s1. bulk_item (\<lambda>_. None) 0 ''1'' (PDict example_comment) example_paper_store = Inr (r, s1) \<and>
    br_status r = 201"
proof -
  have "(case bulk_item (\<lambda>_. None) 0 ''1'' (PDict example_comment) example_paper_store of
      Inr _ \<Rightarrow> True | Inl _ \<Rightarrow> False)"
    by code_simp
  then obtain r s1 where e: "bulk_item (\<lambda>_. None) 0 ''1'' (PDict example_comment) example_paper_store = Inr (r, s1)"
    by (auto split: sum.splits)
  have "fst (create_annotation (\<lambda>_. None) example_auth example_comment None ''h'' ''1'' 0 example_paper_store) =
      Inr (example_comment @ [(''id'', PStr ''ann-1'')])"
    by code_simp
  moreover have "\<not> is_anonymous (au_identity example_auth)" by code_simp
  ultimately show ?thesis
    using bulk_item_as_singleton [OF _ e, of example_auth "''h''" 0] e by auto
qed

text \<open>
  The owner of a slug-keyed target is read as \<open>rrxiv\<close>: a comment on a paper that
  replies to an annotation on one of its own claims is rejected, and a note on a section of
  another paper is accepted as a reply.
\<close>

definition slug_thread_store :: store_state where
  "slug_thread_store = empty_store\<lparr>st_annotations := [(''a1'', [(''id'', PStr ''a1''),
     (''target_type'', PStr ''claim''), (''target_id'', PStr ''rrxiv:2605.00001:c1'')])]\<rparr>"

lemma slug_thread_same_paper_rejected:
  "validate_in_reply_to slug_thread_store [(''id'', PStr ''a2''), (''in_reply_to'', PStr ''a1''),
     (''target_type'', PStr ''paper''), (''target_id'', PStr ''rrxiv:2605.00001'')] \<noteq> None"
  by code_simp

lemma slug_thread_other_paper_accepted:
  "validate_in_reply_to slug_thread_store [(''id'', PStr ''a2''), (''in_reply_to'', PStr ''a1''),
     (''target_type'', PStr ''section''), (''target_id'', PStr ''rrxiv:2605.00002:sec:1'')] = None"
  by code_simp

end
