(* ===== verification/Claim_Graph.thy ===== *)
theory Claim_Graph
  imports Py_Order
begin

text \<open>
  The claim graph of \<open>graph.py\<close>: a directed multigraph over claim ids with four
  kinds of edges, its construction from claim records, the views on it, the bounded
  traversals \<open>dependencies\<close> and \<open>dependents\<close>, and its three renderings.
  The cycle search is in \<open>Graph_Cycles\<close>.

  A Python set is iterated in an order the program does not choose. The traversal visits
  its frontier in the order the nodes were added, and \<open>dependencies_are_reachable\<close>
  shows that the result depends on no order.
\<close>

section \<open>Edges and claims\<close>

datatype edge_kind = Depends_On | Supports | Contradicts | Extends

fun kind_name :: "edge_kind \<Rightarrow> string" where
  "kind_name Depends_On = ''depends_on''"
| "kind_name Supports = ''supports''"
| "kind_name Contradicts = ''contradicts''"
| "kind_name Extends = ''extends''"

definition all_edge_kinds :: "edge_kind list" where
  "all_edge_kinds = [Depends_On, Supports, Contradicts, Extends]"

lemma kind_name_inj [simp]: "kind_name k = kind_name l \<longleftrightarrow> k = l"
  by (cases k; cases l) simp_all

text \<open>Kinds are string literals, so they compare as their names.\<close>

instantiation edge_kind :: linorder
begin

definition less_eq_edge_kind :: "edge_kind \<Rightarrow> edge_kind \<Rightarrow> bool" where
  "less_eq_edge_kind k l \<longleftrightarrow> kind_name k \<le> kind_name l"

definition less_edge_kind :: "edge_kind \<Rightarrow> edge_kind \<Rightarrow> bool" where
  "less_edge_kind k l \<longleftrightarrow> kind_name k < kind_name l"

instance
proof
  fix k l m :: edge_kind
  show "k < l \<longleftrightarrow> k \<le> l \<and> \<not> l \<le> k"
    unfolding less_edge_kind_def less_eq_edge_kind_def by (rule less_le_not_le)
  show "k \<le> k" by (simp add: less_eq_edge_kind_def)
  show "k \<le> l \<Longrightarrow> l \<le> m \<Longrightarrow> k \<le> m" unfolding less_eq_edge_kind_def by (rule order_trans)
  show "k \<le> l \<Longrightarrow> l \<le> k \<Longrightarrow> k = l"
    unfolding less_eq_edge_kind_def by (metis antisym kind_name_inj)
  show "k \<le> l \<or> l \<le> k" unfolding less_eq_edge_kind_def by (rule linear)
qed

end

datatype graph_edge = GraphEdge (source: string) (target: string) (kind: edge_kind)

abbreviation edge_key :: "graph_edge \<Rightarrow> string \<times> string \<times> edge_kind" where
  "edge_key e \<equiv> (source e, target e, kind e)"

lemma edge_key_inj [simp]: "edge_key d = edge_key e \<longleftrightarrow> d = e"
  by (cases d; cases e) simp

text \<open>The order the renderings sort edges by: source, target, kind.\<close>

instantiation graph_edge :: linorder
begin

definition less_eq_graph_edge :: "graph_edge \<Rightarrow> graph_edge \<Rightarrow> bool" where
  "less_eq_graph_edge d e \<longleftrightarrow> edge_key d \<le> edge_key e"

definition less_graph_edge :: "graph_edge \<Rightarrow> graph_edge \<Rightarrow> bool" where
  "less_graph_edge d e \<longleftrightarrow> edge_key d < edge_key e"

instance
proof
  fix d e f :: graph_edge
  show "d < e \<longleftrightarrow> d \<le> e \<and> \<not> e \<le> d"
    unfolding less_graph_edge_def less_eq_graph_edge_def by (rule less_le_not_le)
  show "d \<le> d" unfolding less_eq_graph_edge_def by (rule order_refl)
  show "d \<le> e \<Longrightarrow> e \<le> f \<Longrightarrow> d \<le> f" unfolding less_eq_graph_edge_def by (rule order_trans)
  show "d \<le> e \<Longrightarrow> e \<le> d \<Longrightarrow> d = e"
    unfolding less_eq_graph_edge_def by (metis antisym edge_key_inj)
  show "d \<le> e \<or> e \<le> d" unfolding less_eq_graph_edge_def by (rule linear)
qed

end

text \<open>The fields of a \<open>Claim\<close> the graph reads; the others travel as they are.\<close>

record claim_record =
  cl_id :: string
  cl_depends_on :: "string list option"
  cl_supports :: "string list option"
  cl_contradicts :: "string list option"
  cl_extends :: "string list option"
  cl_rest :: pydict

record claim_graph =
  g_nodes :: "string set"
  g_claims :: "(string \<times> claim_record) list"
  g_out :: "(string \<times> graph_edge list) list"
  g_in :: "(string \<times> graph_edge list) list"

definition empty_graph :: claim_graph where
  "empty_graph = \<lparr>g_nodes = {}, g_claims = [], g_out = [], g_in = []\<rparr>"

section \<open>Construction\<close>

text \<open>\<open>adj[k].append(e)\<close> on a \<open>defaultdict(list)\<close>, and \<open>adj.get(k, [])\<close>.\<close>

definition adj_get :: "(string \<times> graph_edge list) list \<Rightarrow> string \<Rightarrow> graph_edge list" where
  "adj_get adj k = (case dict_get adj k of None \<Rightarrow> [] | Some es \<Rightarrow> es)"

definition adj_append :: "string \<Rightarrow> graph_edge \<Rightarrow> (string \<times> graph_edge list) list \<Rightarrow> (string \<times> graph_edge list) list" where
  "adj_append k e adj = dict_set k (adj_get adj k @ [e]) adj"

fun add_targets :: "string \<Rightarrow> edge_kind \<Rightarrow> string list \<Rightarrow> claim_graph \<Rightarrow> claim_graph" where
  "add_targets cid knd [] g = g"
| "add_targets cid knd (t # ts) g =
     add_targets cid knd ts
       (g\<lparr>g_out := adj_append cid (GraphEdge cid t knd) (g_out g),
          g_in := adj_append t (GraphEdge cid t knd) (g_in g)\<rparr>)"

definition or_empty :: "'a list option \<Rightarrow> 'a list" where
  "or_empty v = (case v of None \<Rightarrow> [] | Some xs \<Rightarrow> xs)"

definition graph_add_claim :: "claim_record \<Rightarrow> claim_graph \<Rightarrow> claim_graph" where
  "graph_add_claim c g =
     (let cid = cl_id c;
          g0 = g\<lparr>g_nodes := insert cid (g_nodes g), g_claims := dict_set cid c (g_claims g)\<rparr>;
          g1 = add_targets cid Depends_On (or_empty (cl_depends_on c)) g0;
          g2 = add_targets cid Supports (or_empty (cl_supports c)) g1;
          g3 = add_targets cid Contradicts (or_empty (cl_contradicts c)) g2
      in add_targets cid Extends (or_empty (cl_extends c)) g3)"

definition from_claims :: "claim_record list \<Rightarrow> claim_graph" where
  "from_claims cs = fold graph_add_claim cs empty_graph"

section \<open>Views\<close>

abbreviation kind_ok :: "edge_kind option \<Rightarrow> graph_edge \<Rightarrow> bool" where
  "kind_ok knd e \<equiv> (knd = None \<or> knd = Some (kind e))"

definition claim_of :: "claim_graph \<Rightarrow> string \<Rightarrow> claim_record option" where
  "claim_of g cid = dict_get (g_claims g) cid"

definition edges :: "claim_graph \<Rightarrow> edge_kind option \<Rightarrow> graph_edge list" where
  "edges g knd = filter (kind_ok knd) (concat (dict_values (g_out g)))"

definition graph_outgoing :: "claim_graph \<Rightarrow> string \<Rightarrow> edge_kind option \<Rightarrow> graph_edge list" where
  "graph_outgoing g cid knd = filter (kind_ok knd) (adj_get (g_out g) cid)"

definition graph_incoming :: "claim_graph \<Rightarrow> string \<Rightarrow> edge_kind option \<Rightarrow> graph_edge list" where
  "graph_incoming g cid knd = filter (kind_ok knd) (adj_get (g_in g) cid)"

definition adjacency :: "claim_graph \<Rightarrow> (string \<times> graph_edge list) list" where
  "adjacency g = g_out g"

definition dangling_targets :: "claim_graph \<Rightarrow> string set" where
  "dangling_targets g = target ` set (edges g None) - g_nodes g"

section \<open>Traversal\<close>

datatype direction = Outward | Inward

definition step_edges :: "claim_graph \<Rightarrow> edge_kind \<Rightarrow> direction \<Rightarrow> string \<Rightarrow> graph_edge list" where
  "step_edges g knd d node =
     (case d of Outward \<Rightarrow> graph_outgoing g node (Some knd) | Inward \<Rightarrow> graph_incoming g node (Some knd))"

definition neighbour :: "direction \<Rightarrow> graph_edge \<Rightarrow> string" where
  "neighbour d e = (case d of Outward \<Rightarrow> target e | Inward \<Rightarrow> source e)"

fun visit_edges :: "direction \<Rightarrow> string \<Rightarrow> graph_edge list \<Rightarrow> string set \<times> string list \<Rightarrow> string set \<times> string list" where
  "visit_edges d start [] acc = acc"
| "visit_edges d start (e # es) (seen, next_frontier) =
     (let n = neighbour d e
      in if n \<notin> seen \<and> n \<noteq> start then visit_edges d start es (insert n seen, next_frontier @ [n])
         else visit_edges d start es (seen, next_frontier))"

fun visit_frontier ::
  "claim_graph \<Rightarrow> edge_kind \<Rightarrow> direction \<Rightarrow> string \<Rightarrow> string list \<Rightarrow> string set \<times> string list \<Rightarrow> string set \<times> string list" where
  "visit_frontier g knd d start [] acc = acc"
| "visit_frontier g knd d start (node # nodes) acc =
     visit_frontier g knd d start nodes (visit_edges d start (step_edges g knd d node) acc)"

text \<open>The nodes one step away from a set of nodes.\<close>

definition step_rel :: "claim_graph \<Rightarrow> edge_kind \<Rightarrow> direction \<Rightarrow> (string \<times> string) set" where
  "step_rel g knd d = {(a, neighbour d e) | a e. e \<in> set (step_edges g knd d a)}"

lemma visit_edges_result:
  "visit_edges d start es (seen, nf) = (seen', nf') \<Longrightarrow>
   seen' = seen \<union> (neighbour d ` set es - {start}) \<and>
   set nf' = set nf \<union> (neighbour d ` set es - {start} - seen)"
proof (induction es arbitrary: seen nf)
  case Nil
  then show ?case by simp
next
  case (Cons e es)
  show ?case
  proof (cases "neighbour d e \<notin> seen \<and> neighbour d e \<noteq> start")
    case True
    with Cons.prems have "visit_edges d start es (insert (neighbour d e) seen, nf @ [neighbour d e]) = (seen', nf')"
      by (simp add: Let_def)
    from Cons.IH [OF this] True show ?thesis by auto
  next
    case False
    with Cons.prems have "visit_edges d start es (seen, nf) = (seen', nf')"
      by (auto simp add: Let_def split: if_splits)
    from Cons.IH [OF this] False show ?thesis by auto
  qed
qed

lemma visit_frontier_result:
  "visit_frontier g knd d start fs (seen, nf) = (seen', nf') \<Longrightarrow>
   seen' = seen \<union> (step_rel g knd d `` set fs - {start}) \<and>
   set nf' = set nf \<union> (step_rel g knd d `` set fs - {start} - seen)"
proof (induction fs arbitrary: seen nf)
  case Nil
  then show ?case by simp
next
  case (Cons f fs)
  obtain s1 n1 where v: "visit_edges d start (step_edges g knd d f) (seen, nf) = (s1, n1)"
    by (cases "visit_edges d start (step_edges g knd d f) (seen, nf)")
  have im: "step_rel g knd d `` insert f A = neighbour d ` set (step_edges g knd d f) \<union> step_rel g knd d `` A" for A
    by (auto simp: step_rel_def)
  from v Cons.prems have "visit_frontier g knd d start fs (s1, n1) = (seen', nf')"
    by simp
  from Cons.IH [OF this] visit_edges_result [OF v] im [of "set fs"] show ?case by auto
qed

definition all_edges :: "claim_graph \<Rightarrow> graph_edge set" where
  "all_edges g = set (concat (map snd (g_out g)) @ concat (map snd (g_in g)))"

definition ends :: "claim_graph \<Rightarrow> string set" where
  "ends g = source ` all_edges g \<union> target ` all_edges g"

lemma finite_ends [simp]: "finite (ends g)"
  by (simp add: ends_def all_edges_def)

lemma adj_get_edges: "e \<in> set (adj_get adj k) \<Longrightarrow> e \<in> set (concat (map snd adj))"
  by (cases "dict_get adj k") (auto simp: adj_get_def intro!: bexI dest: map_of_SomeD)

lemma step_rel_ends: "step_rel g knd d `` A \<subseteq> ends g"
proof -
  have "neighbour d e \<in> ends g" if "e \<in> set (step_edges g knd d a)" for a e
  proof -
    from that have "e \<in> all_edges g"
      unfolding all_edges_def set_append
      by (auto simp: step_edges_def graph_outgoing_def graph_incoming_def split: direction.splits dest!: adj_get_edges)
    then show ?thesis by (cases d) (auto simp: neighbour_def ends_def)
  qed
  then show ?thesis by (auto simp: step_rel_def)
qed

text \<open>
  The loop of \<open>_reach\<close>. It ends because every round that leaves a frontier has moved
  at least one end of an edge into \<open>seen\<close>.
\<close>

function reach_loop ::
  "claim_graph \<Rightarrow> edge_kind \<Rightarrow> direction \<Rightarrow> string \<Rightarrow> int option \<Rightarrow> nat \<Rightarrow> string set \<Rightarrow> string list \<Rightarrow> string set" where
  "reach_loop g knd d start depth steps seen frontier =
     (if frontier = [] then seen
      else if (case depth of None \<Rightarrow> False | Some m \<Rightarrow> m \<le> int steps) then seen
      else case visit_frontier g knd d start frontier (seen, []) of
        (seen', next_frontier) \<Rightarrow> reach_loop g knd d start depth (Suc steps) seen' next_frontier)"
  by auto
termination
proof (relation "measure (\<lambda>(g, knd, d, start, depth, steps, seen, frontier).
    2 * card (ends g - seen) + (if frontier = [] then 0 else 1))", goal_cases)
  case 1
  then show ?case by simp
next
  case (2 g knd d start depth steps seen frontier seen' nf)
  then have r: "visit_frontier g knd d start frontier (seen, []) = (seen', nf)" by simp
  note v = visit_frontier_result [OF r]
  have "card (ends g - seen') < card (ends g - seen)" if "nf \<noteq> []"
  proof (rule psubset_card_mono)
    from that v obtain n where "n \<in> set nf" by (cases nf) auto
    with v step_rel_ends [of g knd d "set frontier"] have "n \<in> ends g" "n \<notin> seen" "n \<in> seen'" by auto
    then show "ends g - seen' \<subset> ends g - seen" using v by auto
  qed simp
  moreover have "card (ends g - seen') \<le> card (ends g - seen)"
    using v by (intro card_mono) auto
  ultimately show ?case using r \<open>frontier \<noteq> []\<close> by (cases "nf = []") auto
qed

declare reach_loop.simps [simp del]

definition reach :: "claim_graph \<Rightarrow> string \<Rightarrow> edge_kind \<Rightarrow> direction \<Rightarrow> int option \<Rightarrow> string set" where
  "reach g start knd d depth = reach_loop g knd d start depth 0 {} [start]"

definition dependencies :: "claim_graph \<Rightarrow> string \<Rightarrow> int option \<Rightarrow> string set" where
  "dependencies g cid depth = reach g cid Depends_On Outward depth"

definition dependents :: "claim_graph \<Rightarrow> string \<Rightarrow> int option \<Rightarrow> string set" where
  "dependents g cid depth = reach g cid Depends_On Inward depth"

text \<open>The ball of radius \<open>k\<close>: the nodes reached in at most \<open>k\<close> steps.\<close>

definition ball :: "('a \<times> 'a) set \<Rightarrow> 'a \<Rightarrow> nat \<Rightarrow> 'a set" where
  "ball R a k = {b. \<exists>j\<le>k. (a, b) \<in> R ^^ j}"

lemma ball_0 [simp]: "ball R a 0 = {a}"
  by (auto simp: ball_def)

lemma ball_Suc: "ball R a (Suc k) = ball R a k \<union> R `` ball R a k"
proof (intro equalityI subsetI)
  fix b
  assume "b \<in> ball R a (Suc k)"
  then obtain j where j: "j \<le> Suc k" "(a, b) \<in> R ^^ j" by (auto simp: ball_def)
  show "b \<in> ball R a k \<union> R `` ball R a k"
  proof (cases "j = Suc k")
    case True
    with j obtain c where "(a, c) \<in> R ^^ k" "(c, b) \<in> R" by auto
    then show ?thesis by (auto simp: ball_def)
  next
    case False
    with j show ?thesis by (auto simp: ball_def)
  qed
next
  fix b
  assume "b \<in> ball R a k \<union> R `` ball R a k"
  then consider j where "j \<le> k" "(a, b) \<in> R ^^ j" | j c where "j \<le> k" "(a, c) \<in> R ^^ j" "(c, b) \<in> R"
    by (auto simp: ball_def)
  then show "b \<in> ball R a (Suc k)"
  proof cases
    case 1
    then show ?thesis by (auto simp: ball_def intro: le_SucI)
  next
    case 2
    then have "(a, b) \<in> R ^^ Suc j" by auto
    with 2 show ?thesis by (auto simp: ball_def simp del: relpow.simps)
  qed
qed

lemma ball_mono: "k \<le> l \<Longrightarrow> ball R a k \<subseteq> ball R a l"
  unfolding ball_def by (blast intro: order_trans)

lemma ball_closed:
  assumes "R `` ball R a k \<subseteq> ball R a k" "k \<le> l"
  shows "ball R a l = ball R a k"
  using assms(2)
proof (induction l rule: dec_induct)
  case base
  then show ?case ..
next
  case (step l)
  with assms(1) show ?case by (auto simp: ball_Suc)
qed

definition ball_of :: "('a \<times> 'a) set \<Rightarrow> 'a \<Rightarrow> int option \<Rightarrow> 'a set" where
  "ball_of R a depth = {b. \<exists>j. (case depth of None \<Rightarrow> True | Some m \<Rightarrow> int j \<le> m) \<and> (a, b) \<in> R ^^ j}"

lemma ball_of_Some: "0 \<le> m \<Longrightarrow> ball_of R a (Some m) = ball R a (nat m)"
  by (auto simp: ball_of_def ball_def le_nat_iff)

lemma ball_of_closed:
  assumes "R `` ball R a k \<subseteq> ball R a k" "\<forall>m. depth = Some m \<longrightarrow> int k \<le> m"
  shows "ball_of R a depth = ball R a k"
proof -
  have le: "ball_of R a depth \<subseteq> ball R a k"
  proof
    fix b
    assume "b \<in> ball_of R a depth"
    then obtain j where j: "(a, b) \<in> R ^^ j" by (auto simp: ball_of_def)
    then have "b \<in> ball R a (max j k)" unfolding ball_def by (blast intro: max.cobounded1)
    then show "b \<in> ball R a k" using ball_closed [OF assms(1), of "max j k"] by simp
  qed
  have "ball R a k \<subseteq> ball_of R a depth"
  proof
    fix b
    assume "b \<in> ball R a k"
    then obtain j where "j \<le> k" "(a, b) \<in> R ^^ j" by (auto simp: ball_def)
    moreover from this assms(2) have "case depth of None \<Rightarrow> True | Some m \<Rightarrow> int j \<le> m"
      by (cases depth) auto
    ultimately show "b \<in> ball_of R a depth" by (auto simp: ball_of_def)
  qed
  with le show ?thesis by auto
qed

lemma reach_loop_ball:
  assumes "insert start seen = ball (step_rel g knd d) start k" "start \<notin> seen"
    and "set frontier \<subseteq> ball (step_rel g knd d) start k"
    and "step_rel g knd d `` (ball (step_rel g knd d) start k - set frontier) \<subseteq> ball (step_rel g knd d) start k"
    and "\<forall>m. depth = Some m \<longrightarrow> int k \<le> m"
  shows "reach_loop g knd d start depth k seen frontier = ball_of (step_rel g knd d) start depth - {start}"
  using assms
proof (induction g knd d start depth k seen frontier rule: reach_loop.induct)
  case (1 g knd d start depth k seen frontier)
  let ?R = "step_rel g knd d"
  have seen: "seen = ball ?R start k - {start}" using "1.prems" by auto
  obtain seen' nf where v: "visit_frontier g knd d start frontier (seen, []) = (seen', nf)"
    by (cases "visit_frontier g knd d start frontier (seen, [])")
  note r = visit_frontier_result [OF v]
  consider (finished) "frontier = []" | (deep) m where "frontier \<noteq> []" "depth = Some m" "m \<le> int k"
    | (more) "frontier \<noteq> []" "\<forall>m. depth = Some m \<longrightarrow> int (Suc k) \<le> m"
    by (cases depth) force+
  then show ?case
  proof cases
    case finished
    with "1.prems" have "ball_of ?R start depth = ball ?R start k"
      by (intro ball_of_closed) auto
    with finished seen show ?thesis by (simp add: reach_loop.simps [of g])
  next
    case deep
    with "1.prems" have m: "m = int k" by auto
    with deep seen show ?thesis by (simp add: reach_loop.simps [of g] ball_of_Some)
  next
    case more
    have split: "ball ?R start (Suc k) = ball ?R start k \<union> ?R `` set frontier"
    proof -
      have "?R `` ball ?R start k \<subseteq> ?R `` (ball ?R start k - set frontier) \<union> ?R `` set frontier"
        by auto
      with "1.prems"(3,4) show ?thesis unfolding ball_Suc by (auto simp: Image_def)
    qed
    have nd: "\<not> (case depth of None \<Rightarrow> False | Some m \<Rightarrow> m \<le> int k)"
      using more by (cases depth) force+
    have "reach_loop g knd d start depth (Suc k) seen' nf = ball_of ?R start depth - {start}"
    proof (rule "1.IH" [OF more(1) nd v [symmetric]])
      show "insert start seen' = ball ?R start (Suc k)" "start \<notin> seen'"
        using r split seen "1.prems"(1) by auto
      show "set nf \<subseteq> ball ?R start (Suc k)" using r split by auto
      have "ball ?R start (Suc k) - set nf \<subseteq> ball ?R start k"
        using r split "1.prems"(1) by auto
      then show "?R `` (ball ?R start (Suc k) - set nf) \<subseteq> ball ?R start (Suc k)"
        by (auto simp: ball_Suc)
    qed (use more in auto)
    with more nd v show ?thesis by (simp add: reach_loop.simps [of g knd d start depth k])
  qed
qed

lemma reach_ball: "reach g start knd d depth = ball_of (step_rel g knd d) start depth - {start}"
proof (cases "\<exists>m. depth = Some m \<and> m < 0")
  case True
  then obtain m where m: "depth = Some m" "m < 0" by blast
  have "reach_loop g knd d start depth 0 {} [start] = {}"
    using m by (subst reach_loop.simps) simp
  moreover have "ball_of (step_rel g knd d) start depth = {}" using m by (auto simp: ball_of_def)
  ultimately show ?thesis by (simp add: reach_def)
next
  case False
  then show ?thesis unfolding reach_def by (intro reach_loop_ball) (auto simp: not_less)
qed

lemma reach_iff: "b \<in> reach g start knd d depth \<longleftrightarrow>
    b \<noteq> start \<and> (\<exists>j. (case depth of None \<Rightarrow> True | Some m \<Rightarrow> int j \<le> m) \<and> (start, b) \<in> step_rel g knd d ^^ j)"
  by (auto simp: reach_ball ball_of_def)

section \<open>The invariant of a graph\<close>

definition keyed_by :: "(graph_edge \<Rightarrow> string) \<Rightarrow> (string \<times> graph_edge list) list \<Rightarrow> bool" where
  "keyed_by f adj \<longleftrightarrow> wf_dict adj \<and> (\<forall>(k, es) \<in> set adj. \<forall>e \<in> set es. f e = k)"

definition wf_graph :: "claim_graph \<Rightarrow> bool" where
  "wf_graph g \<longleftrightarrow> finite (g_nodes g) \<and> wf_dict (g_claims g) \<and> fst ` set (g_claims g) = g_nodes g \<and>
     keyed_by source (g_out g) \<and> keyed_by target (g_in g) \<and>
     mset (concat (dict_values (g_out g))) = mset (concat (dict_values (g_in g)))"

lemma adj_append_edges:
  "mset (concat (dict_values (adj_append k e adj))) = add_mset e (mset (concat (dict_values adj)))"
proof -
  have "mset (concat (dict_values (dict_set k (adj_get adj k @ [e]) adj))) =
      add_mset e (mset (concat (dict_values adj)))" if "es = adj_get adj k" for es
    unfolding dict_set_def dict_values_def adj_get_def by (induction adj) (auto split: prod.splits)
  then show ?thesis by (simp add: adj_append_def)
qed

lemma keyed_by_append:
  assumes "keyed_by f adj" "f e = k"
  shows "keyed_by f (adj_append k e adj)"
proof -
  have get: "\<forall>d \<in> set (adj_get adj k). f d = k"
    using assms by (cases "dict_get adj k") (auto simp: adj_get_def keyed_by_def dest: map_of_SomeD)
  have "\<forall>d \<in> set es'. f d = k'" if "(k', es') \<in> set (adj_append k e adj)" for k' es'
  proof -
    have "wf_dict (adj_append k e adj)" using assms by (simp add: adj_append_def keyed_by_def)
    from map_of_is_SomeI [OF this that] have "dict_get (adj_append k e adj) k' = Some es'" .
    then have "es' = adj_get adj k @ [e] \<and> k' = k \<or> dict_get adj k' = Some es'"
      by (auto simp: adj_append_def split: if_splits)
    with get assms show ?thesis by (auto simp: keyed_by_def dest!: map_of_SomeD)
  qed
  with assms show ?thesis by (auto simp: keyed_by_def adj_append_def)
qed

lemma keyed_by_get:
  assumes "keyed_by f adj"
  shows "adj_get adj k = filter (\<lambda>e. f e = k) (concat (dict_values adj))"
  using assms
proof (induction adj)
  case Nil
  then show ?case by (simp add: adj_get_def dict_values_def)
next
  case (Cons p adj)
  obtain k' es where p: "p = (k', es)" by (cases p)
  from Cons.prems p have k: "keyed_by f adj" "k' \<notin> fst ` set adj" "\<forall>e \<in> set es. f e = k'"
    by (auto simp: keyed_by_def)
  have rest: "filter (\<lambda>e. f e = k') (concat (dict_values adj)) = []" 
    using k(1,2) by (force simp: keyed_by_def dict_values_def filter_empty_conv)
  show ?case
  proof (cases "k' = k")
    case True
    with p k rest show ?thesis by (simp add: adj_get_def dict_values_def)
  next
    case False
    with k(3) have "filter (\<lambda>e. f e = k) es = []" by (auto simp: filter_empty_conv)
    with False p Cons.IH [OF k(1)] show ?thesis by (simp add: adj_get_def dict_values_def)
  qed
qed

lemma wf_empty_graph [simp]: "wf_graph empty_graph"
  by (simp add: wf_graph_def empty_graph_def keyed_by_def dict_values_def)

lemma add_targets_wf: "wf_graph g \<Longrightarrow> wf_graph (add_targets cid knd ts g)"
proof (induction ts arbitrary: g)
  case Nil
  then show ?case by simp
next
  case (Cons t ts)
  let ?g = "g\<lparr>g_out := adj_append cid (GraphEdge cid t knd) (g_out g),
     g_in := adj_append t (GraphEdge cid t knd) (g_in g)\<rparr>"
  have "wf_graph ?g"
    using Cons.prems by (simp add: wf_graph_def keyed_by_append adj_append_edges)
  from Cons.IH [OF this] show ?case by simp
qed

lemma add_claim_wf: "wf_graph g \<Longrightarrow> wf_graph (graph_add_claim c g)"
proof -
  assume "wf_graph g"
  then have "wf_graph (g\<lparr>g_nodes := insert (cl_id c) (g_nodes g), g_claims := dict_set (cl_id c) c (g_claims g)\<rparr>)"
    by (simp add: wf_graph_def dict_set_keys)
  then show ?thesis by (simp add: graph_add_claim_def Let_def add_targets_wf)
qed

lemma from_claims_wf: "wf_graph (from_claims cs)"
proof -
  have "wf_graph g \<Longrightarrow> wf_graph (fold graph_add_claim cs g)" for g
    by (induction cs arbitrary: g) (simp_all add: add_claim_wf)
  then show ?thesis by (simp add: from_claims_def)
qed

text \<open>The edges a claim declares.\<close>

definition claim_edges :: "claim_record \<Rightarrow> graph_edge list" where
  "claim_edges c =
     map (\<lambda>t. GraphEdge (cl_id c) t Depends_On) (or_empty (cl_depends_on c)) @
     map (\<lambda>t. GraphEdge (cl_id c) t Supports) (or_empty (cl_supports c)) @
     map (\<lambda>t. GraphEdge (cl_id c) t Contradicts) (or_empty (cl_contradicts c)) @
     map (\<lambda>t. GraphEdge (cl_id c) t Extends) (or_empty (cl_extends c))"

lemma add_targets_frame [simp]:
  "g_nodes (add_targets cid knd ts g) = g_nodes g" "g_claims (add_targets cid knd ts g) = g_claims g"
  by (induction ts arbitrary: g) auto

lemma add_targets_edges:
  "mset (concat (dict_values (g_out (add_targets cid knd ts g)))) =
   mset (map (\<lambda>t. GraphEdge cid t knd) ts) + mset (concat (dict_values (g_out g)))"
  by (induction ts arbitrary: g) (simp_all add: adj_append_edges)

lemma add_claim_edges:
  "mset (concat (dict_values (g_out (graph_add_claim c g)))) =
   mset (claim_edges c) + mset (concat (dict_values (g_out g)))"
  by (simp add: graph_add_claim_def Let_def add_targets_edges claim_edges_def)

lemma from_claims_edges: "mset (edges (from_claims cs) None) = mset (concat (map claim_edges cs))"
proof -
  have "mset (concat (dict_values (g_out (fold graph_add_claim cs g)))) =
      mset (concat (map claim_edges cs)) + mset (concat (dict_values (g_out g)))" for g
    by (induction cs arbitrary: g) (simp_all add: add_claim_edges)
  then show ?thesis
    by (simp add: edges_def from_claims_def) (simp add: empty_graph_def dict_values_def)
qed

lemma from_claims_nodes: "g_nodes (from_claims cs) = cl_id ` set cs"
proof -
  have "g_nodes (fold graph_add_claim cs g) = cl_id ` set cs \<union> g_nodes g" for g
    by (induction cs arbitrary: g) (auto simp: graph_add_claim_def Let_def)
  then show ?thesis by (simp add: from_claims_def empty_graph_def)
qed

text \<open>The edges of one kind as a relation, read off the list of all edges.\<close>

definition edge_rel :: "claim_graph \<Rightarrow> edge_kind \<Rightarrow> (string \<times> string) set" where
  "edge_rel g knd = {(source e, target e) | e. e \<in> set (edges g (Some knd))}"

lemma wf_outgoing: "wf_graph g \<Longrightarrow> graph_outgoing g cid knd = filter (\<lambda>e. source e = cid) (edges g knd)"
  by (simp add: graph_outgoing_def edges_def wf_graph_def keyed_by_get [of source] conj_commute)

lemma wf_incoming:
  assumes "wf_graph g"
  shows "mset (graph_incoming g cid knd) = mset (filter (\<lambda>e. target e = cid) (edges g knd))"
proof -
  have "graph_incoming g cid knd = filter (kind_ok knd) (filter (\<lambda>e. target e = cid) (concat (dict_values (g_in g))))"
    using assms by (simp add: graph_incoming_def wf_graph_def keyed_by_get [of target])
  moreover have "mset (concat (dict_values (g_in g))) = mset (concat (dict_values (g_out g)))"
    using assms by (simp add: wf_graph_def)
  ultimately show ?thesis by (simp add: edges_def filter_filter_mset conj_commute)
qed

lemma step_rel_outward: "wf_graph g \<Longrightarrow> step_rel g knd Outward = edge_rel g knd"
  by (auto simp: step_rel_def step_edges_def neighbour_def wf_outgoing edge_rel_def)

lemma step_rel_inward:
  assumes "wf_graph g"
  shows "step_rel g knd Inward = (edge_rel g knd)\<inverse>"
proof -
  have "set (graph_incoming g cid (Some knd)) = {e \<in> set (edges g (Some knd)). target e = cid}" for cid
    using wf_incoming [OF assms, of cid "Some knd", THEN arg_cong [where f = set_mset]] by auto
  then show ?thesis by (auto simp: step_rel_def step_edges_def neighbour_def edge_rel_def)
qed


lemma relpow_converse_iff:
  fixes R :: "('a \<times> 'a) set"
  shows "(a, b) \<in> (R\<inverse>) ^^ n \<longleftrightarrow> (b, a) \<in> R ^^ n"
proof (induction n arbitrary: b)
  case 0
  then show ?case by auto
next
  case (Suc n)
  have "(b, a) \<in> R ^^ Suc n \<longleftrightarrow> (\<exists>c. (b, c) \<in> R \<and> (c, a) \<in> R ^^ n)"
    by (blast dest: relpow_Suc_D2 intro: relpow_Suc_I2)
  with Suc show ?case by auto
qed

section \<open>Properties\<close>

text \<open>
  A graph built from claims has exactly the declared edges, with multiplicity, and its
  two adjacency maps are views of that one list: the outgoing (incoming) edges of a node are
  the edges with that source (target).
\<close>

lemma graph_has_declared_edges:
  "mset (edges (from_claims cs) None) = mset (concat (map claim_edges cs)) \<and>
   graph_outgoing (from_claims cs) cid knd = filter (\<lambda>e. source e = cid) (edges (from_claims cs) knd) \<and>
   mset (graph_incoming (from_claims cs) cid knd) = mset (filter (\<lambda>e. target e = cid) (edges (from_claims cs) knd)) \<and>
   dangling_targets (from_claims cs) = target ` set (concat (map claim_edges cs)) - cl_id ` set cs"
proof -
  have "set (edges (from_claims cs) None) = set (concat (map claim_edges cs))"
    using mset_eq_setD [OF from_claims_edges] .
  then show ?thesis
    by (simp add: from_claims_edges wf_outgoing wf_incoming from_claims_wf dangling_targets_def from_claims_nodes)
qed

text \<open>
  C21: \<open>dependencies\<close> returns the claims other than the start reached over
  \<open>depends_on\<close> edges in at most \<open>depth\<close> steps, all of them when there is no
  bound, also when the graph has cycles.
\<close>

theorem dependencies_are_reachable:
  "d \<in> dependencies (from_claims cs) cid depth \<longleftrightarrow>
     d \<noteq> cid \<and> (\<exists>j. (case depth of None \<Rightarrow> True | Some m \<Rightarrow> int j \<le> m) \<and>
       (cid, d) \<in> edge_rel (from_claims cs) Depends_On ^^ j)"
  by (simp only: dependencies_def reach_iff step_rel_outward from_claims_wf)

text \<open>\<open>dependents\<close> and \<open>dependencies\<close> are each other's inverse at every depth.\<close>

lemma dependents_mirror_dependencies:
  "d \<in> dependents (from_claims cs) cid depth \<longleftrightarrow> cid \<in> dependencies (from_claims cs) d depth"
  by (auto simp: dependents_def dependencies_def reach_iff step_rel_outward step_rel_inward from_claims_wf
      relpow_converse_iff)

section \<open>Renderings\<close>

text \<open>\<open>s.replace(c, r)\<close> for a single character.\<close>

definition replace_char :: "char \<Rightarrow> string \<Rightarrow> string \<Rightarrow> string" where
  "replace_char c r s = concat (map (\<lambda>x. if x = c then r else [x]) s)"

definition mermaid_arrow :: "edge_kind \<Rightarrow> string" where
  "mermaid_arrow knd = (case knd of Contradicts \<Rightarrow> ''-.->'' | _ \<Rightarrow> ''-->'')"

definition mermaid_id :: "string \<Rightarrow> string" where
  "mermaid_id cid =
     replace_char (CHR ''.'') ''_'' (replace_char (CHR ''-'') ''_'' (replace_char (CHR '':'') ''__'' cid))"

abbreviation dquote :: string where "dquote \<equiv> [char_of (34 :: nat)]"
abbreviation backslash :: string where "backslash \<equiv> [char_of (92 :: nat)]"

definition escape_quotes :: "string \<Rightarrow> string" where
  "escape_quotes s = replace_char (char_of (34 :: nat)) (backslash @ dquote) s"

definition edge_dict :: "graph_edge \<Rightarrow> pyval" where
  "edge_dict e = PDict [(''source'', PStr (source e)), (''target'', PStr (target e)),
     (''kind'', PStr (kind_name (kind e)))]"

definition to_dict :: "claim_graph \<Rightarrow> pydict" where
  "to_dict g =
     [(''nodes'', PList (map PStr (sorted_list_of_set (g_nodes g)))),
      (''edges'', PList (map edge_dict (sort (edges g None)))),
      (''dangling_targets'', PList (map PStr (sorted_list_of_set (dangling_targets g))))]"

definition to_mermaid :: "claim_graph \<Rightarrow> string" where
  "to_mermaid g = join_on [char_of (10 :: nat)]
     ([''flowchart LR''] @
      map (\<lambda>cid. ''    '' @ mermaid_id cid @ ''['' @ dquote @ escape_quotes cid @ dquote @ '']'')
        (sorted_list_of_set (g_nodes g)) @
      map (\<lambda>e. ''    '' @ mermaid_id (source e) @ '' '' @ mermaid_arrow (kind e) @ ''|'' @
          kind_name (kind e) @ ''| '' @ mermaid_id (target e))
        (sort (edges g None)))"

definition to_dot :: "claim_graph \<Rightarrow> string" where
  "to_dot g = join_on [char_of (10 :: nat)]
     ([''digraph claims {'', ''    rankdir='' @ dquote @ ''LR'' @ dquote @ '';'', ''    node [shape=box];''] @
      map (\<lambda>cid. ''    '' @ dquote @ escape_quotes cid @ dquote @ '';'') (sorted_list_of_set (g_nodes g)) @
      map (\<lambda>e. ''    '' @ dquote @ escape_quotes (source e) @ dquote @ '' -> '' @ dquote @
          escape_quotes (target e) @ dquote @ '' [label='' @ dquote @ kind_name (kind e) @ dquote @ ''];'')
        (sort (edges g None)) @
      [''}''])"

text \<open>
  Two claims of one paper whose labels differ in a dot and a hyphen get the same Mermaid
  node.
\<close>

lemma mermaid_id_collision: "mermaid_id ''p:c-1'' = mermaid_id ''p:c.1''"
  by code_simp

text \<open>
  The exported graph does not depend on the order in which the claims were added.
\<close>

lemma to_dict_order_independent:
  assumes "mset cs = mset ds"
  shows "to_dict (from_claims cs) = to_dict (from_claims ds)"
proof -
  have "mset (concat (map claim_edges cs)) = mset (concat (map claim_edges ds))"
    using arg_cong [OF assms, of "\<lambda>M. \<Sum>\<^sub># (image_mset (\<lambda>c. mset (claim_edges c)) M)"]
    by (simp add: mset_concat comp_def flip: sum_mset_sum_list)
  then have e: "mset (edges (from_claims cs) None) = mset (edges (from_claims ds) None)"
    by (simp only: from_claims_edges)
  have "sort (edges (from_claims cs) None) = sort (edges (from_claims ds) None)"
    using e by (intro properties_for_sort) simp_all
  moreover have "g_nodes (from_claims cs) = g_nodes (from_claims ds)"
    using mset_eq_setD [OF assms] by (simp add: from_claims_nodes)
  moreover from this have "dangling_targets (from_claims cs) = dangling_targets (from_claims ds)"
    using mset_eq_setD [OF e] by (simp add: dangling_targets_def)
  ultimately show ?thesis by (simp add: to_dict_def)
qed

definition example_claim :: "string \<Rightarrow> string list \<Rightarrow> claim_record" where
  "example_claim cid deps = \<lparr>cl_id = cid, cl_depends_on = Some deps, cl_supports = None,
     cl_contradicts = None, cl_extends = None, cl_rest = []\<rparr>"

lemma to_dict_order_independent_witness:
  "to_dict (from_claims [example_claim ''a'' [''b''], example_claim ''b'' [''z'']]) =
   to_dict (from_claims [example_claim ''b'' [''z''], example_claim ''a'' [''b'']])"
  by (rule to_dict_order_independent) simp

lemma to_dict_example:
  "to_dict (from_claims [example_claim ''b'' [''z''], example_claim ''a'' [''b'']]) =
    [(''nodes'', PList [PStr ''a'', PStr ''b'']),
     (''edges'', PList [edge_dict (GraphEdge ''a'' ''b'' Depends_On), edge_dict (GraphEdge ''b'' ''z'' Depends_On)]),
     (''dangling_targets'', PList [PStr ''z''])]"
  by code_simp

lemma dependencies_example:
  "dependencies (from_claims [example_claim ''a'' [''b''], example_claim ''b'' [''a'', ''z'']]) ''a'' (Some 1) = {''b''}"
  by code_simp

end
