(* ===== verification/Graph_Cycles.thy ===== *)
theory Graph_Cycles
  imports Claim_Graph
begin

text \<open>
  The cycle search of \<open>graph.py\<close>: \<open>find_cycles\<close> with its three-colour depth
  first search and \<open>assert_no_cycles\<close>. The search is recursive, so it runs in the
  interpreter's recursion limit: the first argument of \<open>dfs\<close> is the number of
  nested calls left and \<open>None\<close> is the \<open>RecursionError\<close>. A depth of the
  number of nodes is always enough. The order in which the set of nodes is iterated is an
  argument of \<open>find_cycles\<close>.
\<close>

section \<open>The search\<close>

datatype color = Unvisited | In_Progress | Done

record dfs_state =
  d_color :: "(string \<times> color) list"
  d_stack :: "string list"
  d_cycles :: "string list list"

fun dfs_edges :: "(string \<Rightarrow> dfs_state \<Rightarrow> dfs_state option) \<Rightarrow> graph_edge list \<Rightarrow> dfs_state \<Rightarrow> dfs_state option" where
  "dfs_edges rec [] st = Some st"
| "dfs_edges rec (e # es) st =
     (let v = target e;
          st0 = st\<lparr>d_color := dict_setdefault v Unvisited (d_color st)\<rparr>
      in case dict_get (d_color st0) v of
           Some In_Progress \<Rightarrow>
             dfs_edges rec es
               (if v \<in> set (d_stack st0)
                then st0\<lparr>d_cycles := d_cycles st0 @ [dropWhile (\<lambda>x. x \<noteq> v) (d_stack st0)]\<rparr>
                else st0)
         | Some Unvisited \<Rightarrow>
             (case rec v st0 of None \<Rightarrow> None | Some st1 \<Rightarrow> dfs_edges rec es st1)
         | _ \<Rightarrow> dfs_edges rec es st0)"

primrec dfs :: "nat \<Rightarrow> claim_graph \<Rightarrow> edge_kind \<Rightarrow> string \<Rightarrow> dfs_state \<Rightarrow> dfs_state option" where
  "dfs 0 g knd u st = None"
| "dfs (Suc depth) g knd u st =
     (case dfs_edges (dfs depth g knd) (graph_outgoing g u (Some knd))
             (st\<lparr>d_color := dict_set u In_Progress (d_color st), d_stack := d_stack st @ [u]\<rparr>) of
        None \<Rightarrow> None
      | Some st1 \<Rightarrow>
          Some (st1\<lparr>d_stack := butlast (d_stack st1), d_color := dict_set u Done (d_color st1)\<rparr>))"

fun dfs_roots :: "nat \<Rightarrow> claim_graph \<Rightarrow> edge_kind \<Rightarrow> string list \<Rightarrow> dfs_state \<Rightarrow> dfs_state option" where
  "dfs_roots depth g knd [] st = Some st"
| "dfs_roots depth g knd (n # ns) st =
     (if dict_get (d_color st) n = Some Unvisited
      then (case dfs depth g knd n st of None \<Rightarrow> None | Some st1 \<Rightarrow> dfs_roots depth g knd ns st1)
      else dfs_roots depth g knd ns st)"

definition find_cycles :: "nat \<Rightarrow> claim_graph \<Rightarrow> edge_kind \<Rightarrow> string list \<Rightarrow> string list list option" where
  "find_cycles depth g knd order =
     map_option d_cycles
       (dfs_roots depth g knd order
         \<lparr>d_color = map (\<lambda>n. (n, Unvisited)) order, d_stack = [], d_cycles = []\<rparr>)"

text \<open>The exception keeps the kind and the first cycle found.\<close>

datatype cycle_error = CycleError edge_kind "string list" | RecursionError

definition cycle_message :: "edge_kind \<Rightarrow> string list \<Rightarrow> string" where
  "cycle_message knd c = ''Cycle in '' @ kind_name knd @ '' edges: '' @ join_on '' -> '' (c @ [hd c])"

definition assert_no_cycles :: "nat \<Rightarrow> claim_graph \<Rightarrow> edge_kind \<Rightarrow> string list \<Rightarrow> cycle_error + unit" where
  "assert_no_cycles depth g knd order =
     (case find_cycles depth g knd order of
        None \<Rightarrow> Inl RecursionError
      | Some [] \<Rightarrow> Inr ()
      | Some (c # _) \<Rightarrow> Inl (CycleError knd c))"

section \<open>Cycles\<close>

abbreviation walk :: "('a \<times> 'a) set \<Rightarrow> 'a list \<Rightarrow> bool" where
  "walk R xs \<equiv> successively (\<lambda>a b. (a, b) \<in> R) xs"

text \<open>A closed walk that visits no node twice; it closes with its first node.\<close>

definition simple_cycle :: "('a \<times> 'a) set \<Rightarrow> 'a list \<Rightarrow> bool" where
  "simple_cycle R c \<longleftrightarrow> c \<noteq> [] \<and> distinct c \<and> walk R c \<and> (last c, hd c) \<in> R"

lemma walk_rtrancl: "walk R (a # xs) \<Longrightarrow> (a, last (a # xs)) \<in> R\<^sup>*"
proof (induction xs arbitrary: a)
  case Nil
  then show ?case by simp
next
  case (Cons b xs)
  then have "(a, b) \<in> R" "(b, last (b # xs)) \<in> R\<^sup>*" by auto
  then show ?case by simp
qed

lemma simple_cycle_not_acyclic:
  assumes "simple_cycle R c"
  shows "\<not> acyclic R"
proof -
  from assms obtain a xs where c: "c = a # xs" by (cases c) (auto simp: simple_cycle_def)
  with assms have "(a, last c) \<in> R\<^sup>*" "(last c, a) \<in> R"
    using walk_rtrancl [of R a xs] by (auto simp: simple_cycle_def)
  then have "(a, a) \<in> R\<^sup>+" by (rule rtrancl_into_trancl1)
  then show ?thesis by (auto simp: acyclic_def)
qed

lemma dropWhile_cycle:
  assumes "walk R xs" "distinct xs" "v \<in> set xs" "(last xs, v) \<in> R"
  shows "simple_cycle R (dropWhile (\<lambda>x. x \<noteq> v) xs)"
proof -
  obtain ys zs where xs: "xs = ys @ v # zs" "v \<notin> set ys"
    using split_list_first [OF assms(3)] by auto
  then have "dropWhile (\<lambda>x. x \<noteq> v) xs = v # zs" by (auto simp: dropWhile_append3)
  moreover have "walk R (v # zs)" using assms(1) xs by (auto simp: successively_append_iff)
  ultimately show ?thesis using assms xs by (auto simp: simple_cycle_def)
qed

text \<open>Adding a node whose targets lie in a closed acyclic set keeps it closed and acyclic.\<close>

lemma acyclic_insert_source:
  assumes "R `` D \<subseteq> D" "acyclic (R \<inter> D \<times> D)" "R `` {u} \<subseteq> D" "u \<notin> D"
  shows "acyclic (R \<inter> insert u D \<times> insert u D)"
proof -
  let ?S = "R \<inter> insert u D \<times> insert u D"
  have stay: "b \<in> D \<and> (a, b) \<in> (R \<inter> D \<times> D)\<^sup>+" if "(a, b) \<in> ?S\<^sup>+" "a \<in> D" for a b
    using that
  proof (induction rule: trancl_induct)
    case (base b)
    with assms(1) show ?case by auto
  next
    case (step b c)
    with assms(1) have "(b, c) \<in> R \<inter> D \<times> D" by auto
    with step show ?case by (auto intro: trancl_into_trancl)
  qed
  have "(a, a) \<notin> ?S\<^sup>+" for a
  proof
    assume a: "(a, a) \<in> ?S\<^sup>+"
    then obtain b where ab: "(a, b) \<in> ?S" "b = a \<or> (b, a) \<in> ?S\<^sup>+"
      by (meson tranclD rtranclD)
    show False
    proof (cases "a \<in> D")
      case True
      from stay [OF a True] assms(2) show False by (auto simp: acyclic_def)
    next
      case False
      with ab assms(3) have "a = u" "b \<in> D" by auto
      with ab stay [of b a] assms(4) False show False by auto
    qed
  qed
  then show ?thesis by (simp add: acyclic_def)
qed

section \<open>The invariant of the search\<close>

definition done_set :: "dfs_state \<Rightarrow> string set" where
  "done_set st = {v. dict_get (d_color st) v = Some Done}"

definition colored :: "dfs_state \<Rightarrow> string set" where
  "colored st = {v. dict_get (d_color st) v \<noteq> None}"

definition dfs_inv :: "(string \<times> string) set \<Rightarrow> dfs_state \<Rightarrow> bool" where
  "dfs_inv R st \<longleftrightarrow>
     (\<forall>v. dict_get (d_color st) v = Some In_Progress \<longleftrightarrow> v \<in> set (d_stack st)) \<and>
     distinct (d_stack st) \<and> walk R (d_stack st) \<and>
     (\<forall>c \<in> set (d_cycles st). simple_cycle R c) \<and>
     (d_cycles st = [] \<longrightarrow> R `` done_set st \<subseteq> done_set st \<and> acyclic (R \<inter> done_set st \<times> done_set st))"

lemma dfs_inv_stack: "dfs_inv R st \<Longrightarrow> v \<in> set (d_stack st) \<longleftrightarrow> dict_get (d_color st) v = Some In_Progress"
  by (simp add: dfs_inv_def)

text \<open>What a run of part of the search may change.\<close>

definition dfs_step :: "dfs_state \<Rightarrow> dfs_state \<Rightarrow> bool" where
  "dfs_step st st' \<longleftrightarrow> d_stack st' = d_stack st \<and> done_set st \<subseteq> done_set st' \<and>
     colored st \<subseteq> colored st' \<and> (\<exists>cs. d_cycles st' = d_cycles st @ cs)"

lemma dfs_step_refl [simp]: "dfs_step st st"
  by (simp add: dfs_step_def)

lemma dfs_step_trans: "dfs_step a b \<Longrightarrow> dfs_step b c \<Longrightarrow> dfs_step a c"
  by (auto simp: dfs_step_def)

text \<open>A call on a node that may be pushed: it is not on the stack and the top has an edge to it.\<close>

definition pushable :: "(string \<times> string) set \<Rightarrow> string \<Rightarrow> dfs_state \<Rightarrow> bool" where
  "pushable R u st \<longleftrightarrow> dict_get (d_color st) u = Some Unvisited \<and>
     (d_stack st = [] \<or> (last (d_stack st), u) \<in> R)"

definition dfs_spec :: "(string \<times> string) set \<Rightarrow> (string \<Rightarrow> dfs_state \<Rightarrow> dfs_state option) \<Rightarrow> bool" where
  "dfs_spec R rec \<longleftrightarrow>
     (\<forall>u st st'. rec u st = Some st' \<longrightarrow> dfs_inv R st \<longrightarrow> pushable R u st \<longrightarrow>
        dfs_inv R st' \<and> dfs_step st st' \<and> u \<in> done_set st')"

lemma setdefault_get:
  "dict_get (dict_setdefault v Unvisited d) w =
     (if w = v \<and> dict_get d v = None then Some Unvisited else dict_get d w)"
  by (auto simp: dict_setdefault_def dict_has_def)

lemma done_set_setdefault [simp]:
  "done_set (st\<lparr>d_color := dict_setdefault v Unvisited (d_color st)\<rparr>) = done_set st"
  by (auto simp: done_set_def setdefault_get)

lemma dfs_inv_setdefault:
  "dfs_inv R st \<Longrightarrow> dfs_inv R (st\<lparr>d_color := dict_setdefault v Unvisited (d_color st)\<rparr>)"
  by (simp add: dfs_inv_def setdefault_get) (metis option.simps(3))

lemma dfs_step_setdefault: "dfs_step st (st\<lparr>d_color := dict_setdefault v Unvisited (d_color st)\<rparr>)"
  by (auto simp: dfs_step_def colored_def setdefault_get)

lemma dfs_edges_spec:
  assumes "dfs_spec R rec"
  shows "dfs_edges rec es st = Some st' \<Longrightarrow> dfs_inv R st \<Longrightarrow> d_stack st \<noteq> [] \<Longrightarrow>
    \<forall>e \<in> set es. (last (d_stack st), target e) \<in> R \<Longrightarrow>
    dfs_inv R st' \<and> dfs_step st st' \<and> (d_cycles st' = [] \<longrightarrow> target ` set es \<subseteq> done_set st')"
proof (induction es arbitrary: st)
  case Nil
  then show ?case by simp
next
  case (Cons e es)
  let ?v = "target e"
  let ?st0 = "st\<lparr>d_color := dict_setdefault ?v Unvisited (d_color st)\<rparr>"
  have inv0: "dfs_inv R ?st0" and step0: "dfs_step st ?st0"
    using Cons.prems by (simp_all add: dfs_inv_setdefault dfs_step_setdefault)
  have rest: "dfs_inv R st' \<and> dfs_step st st' \<and> (d_cycles st' = [] \<longrightarrow> target ` set (e # es) \<subseteq> done_set st')"
    if "dfs_edges rec es s1 = Some st'" "dfs_inv R s1" "dfs_step st s1" "d_cycles s1 = [] \<Longrightarrow> ?v \<in> done_set s1" for s1
  proof -
    have "dfs_inv R st' \<and> dfs_step s1 st' \<and> (d_cycles st' = [] \<longrightarrow> target ` set es \<subseteq> done_set st')"
      using Cons.prems that by (intro Cons.IH) (auto simp: dfs_step_def)
    with that show ?thesis using dfs_step_trans [of st s1 st'] by (auto simp: dfs_step_def)
  qed
  consider (onstack) "dict_get (d_color ?st0) ?v = Some In_Progress" | (new) "dict_get (d_color ?st0) ?v = Some Unvisited"
    | (old) "dict_get (d_color ?st0) ?v = Some Done"
    using setdefault_get [of ?v "d_color st" ?v]
    by (cases "dict_get (d_color ?st0) ?v") (auto split: if_splits intro: color.exhaust)
  then show ?case
  proof cases
    case onstack
    then have v: "?v \<in> set (d_stack ?st0)" using inv0 by (auto simp: dfs_inv_def)
    let ?s1 = "?st0\<lparr>d_cycles := d_cycles ?st0 @ [dropWhile (\<lambda>x. x \<noteq> ?v) (d_stack ?st0)]\<rparr>"
    have "simple_cycle R (dropWhile (\<lambda>x. x \<noteq> ?v) (d_stack ?st0))"
      using inv0 v Cons.prems by (intro dropWhile_cycle) (auto simp: dfs_inv_def)
    with inv0 have "dfs_inv R ?s1" by (simp add: dfs_inv_def)
    moreover have "dfs_edges rec es ?s1 = Some st'" using Cons.prems(1) onstack v by (simp add: Let_def)
    moreover have "dfs_step st ?s1" using step0 by (simp add: dfs_step_def done_set_def colored_def)
    ultimately show ?thesis by (intro rest) auto
  next
    case new
    with Cons.prems(1) obtain s1 where s1: "rec ?v ?st0 = Some s1" "dfs_edges rec es s1 = Some st'"
      by (auto simp: Let_def split: option.splits)
    have "pushable R ?v ?st0" using new Cons.prems by (simp add: pushable_def)
    with assms s1 inv0 have "dfs_inv R s1 \<and> dfs_step ?st0 s1 \<and> ?v \<in> done_set s1" by (auto simp: dfs_spec_def)
    then show ?thesis using s1(2) dfs_step_trans [OF step0] by (intro rest) auto
  next
    case old
    then have "dfs_edges rec es ?st0 = Some st'" using Cons.prems(1) by (simp add: Let_def)
    then show ?thesis using inv0 step0 old by (intro rest) (auto simp: done_set_def)
  qed
qed


lemma done_set_finish:
  "done_set (st\<lparr>d_stack := s, d_color := dict_set u Done (d_color st)\<rparr>) = insert u (done_set st)"
  by (auto simp: done_set_def)

lemma colored_set [simp]:
  "colored (st\<lparr>d_stack := s, d_color := dict_set u c d\<rparr>) = insert u {v. dict_get d v \<noteq> None}"
  "colored (st\<lparr>d_color := dict_set u c d, d_stack := s\<rparr>) = insert u {v. dict_get d v \<noteq> None}"
  by (auto simp: colored_def)

lemma dfs_inv_push:
  assumes "dfs_inv R st" "pushable R u st"
  shows "dfs_inv R (st\<lparr>d_color := dict_set u In_Progress (d_color st), d_stack := d_stack st @ [u]\<rparr>)"
    and "done_set (st\<lparr>d_color := dict_set u In_Progress (d_color st), d_stack := d_stack st @ [u]\<rparr>) = done_set st"
proof -
  show d: "done_set (st\<lparr>d_color := dict_set u In_Progress (d_color st), d_stack := d_stack st @ [u]\<rparr>) = done_set st"
    using assms(2) by (auto simp: done_set_def pushable_def)
  have "u \<notin> set (d_stack st)" using assms dfs_inv_stack [OF assms(1), of u] by (auto simp: pushable_def)
  then show "dfs_inv R (st\<lparr>d_color := dict_set u In_Progress (d_color st), d_stack := d_stack st @ [u]\<rparr>)"
    using assms unfolding dfs_inv_def d by (auto simp: pushable_def successively_append_iff)
qed

lemma dfs_inv_pop:
  assumes "dfs_inv R st" "d_stack st = s @ [u]" "d_cycles st = [] \<longrightarrow> R `` {u} \<subseteq> done_set st"
  shows "dfs_inv R (st\<lparr>d_stack := s, d_color := dict_set u Done (d_color st)\<rparr>)"
proof -
  have u: "u \<notin> done_set st" "u \<notin> set s" "distinct s" "walk R s"
  proof -
    show "u \<notin> done_set st" using dfs_inv_stack [OF assms(1), of u] assms(2) by (simp add: done_set_def)
    show "u \<notin> set s" "distinct s" "walk R s"
      using assms(1,2) by (simp_all add: dfs_inv_def successively_append_iff)
  qed
  have "R `` insert u (done_set st) \<subseteq> insert u (done_set st) \<and>
      acyclic (R \<inter> insert u (done_set st) \<times> insert u (done_set st))" if "d_cycles st = []"
    using that assms u acyclic_insert_source [of R "done_set st" u] by (auto simp: dfs_inv_def)
  then show ?thesis
    using assms(1,2) u unfolding dfs_inv_def done_set_finish by (auto split: if_splits)
qed

lemma dfs_satisfies_spec:
  assumes "wf_graph g"
  shows "dfs_spec (edge_rel g knd) (dfs n g knd)"
proof (induction n)
  case 0
  then show ?case by (simp add: dfs_spec_def)
next
  case (Suc n)
  let ?R = "edge_rel g knd"
  show ?case
    unfolding dfs_spec_def
  proof (intro allI impI)
    fix u st st'
    assume a: "dfs (Suc n) g knd u st = Some st'" "dfs_inv ?R st" "pushable ?R u st"
    let ?s0 = "st\<lparr>d_color := dict_set u In_Progress (d_color st), d_stack := d_stack st @ [u]\<rparr>"
    from a obtain s1 where s1: "dfs_edges (dfs n g knd) (graph_outgoing g u (Some knd)) ?s0 = Some s1"
      and st': "st' = s1\<lparr>d_stack := butlast (d_stack s1), d_color := dict_set u Done (d_color s1)\<rparr>"
      by (auto split: option.splits)
    have out: "\<forall>e \<in> set (graph_outgoing g u (Some knd)). (u, target e) \<in> ?R"
      "target ` set (graph_outgoing g u (Some knd)) = ?R `` {u}"
      using assms by (auto simp: wf_outgoing edge_rel_def)
    note e = dfs_edges_spec [OF Suc s1 dfs_inv_push(1) [OF a(2,3)]]
    have e: "dfs_inv ?R s1" "dfs_step ?s0 s1" "d_cycles s1 = [] \<longrightarrow> ?R `` {u} \<subseteq> done_set s1"
      using e out by auto
    then have "d_stack s1 = d_stack st @ [u]" by (simp add: dfs_step_def)
    with st' have st'': "st' = s1\<lparr>d_stack := d_stack st, d_color := dict_set u Done (d_color s1)\<rparr>" by simp
    have "dfs_inv ?R st'"
      unfolding st'' using e \<open>d_stack s1 = d_stack st @ [u]\<close> by (intro dfs_inv_pop)
    moreover have "colored st \<subseteq> colored ?s0" "colored s1 \<subseteq> colored st'" by (auto simp: st' colored_def)
    then have "dfs_step st st'"
      unfolding dfs_step_def using e(2) dfs_inv_push(2) [OF a(2,3)]
      by (auto simp: dfs_step_def st'' done_set_finish simp del: colored_set)
    moreover have "u \<in> done_set st'" unfolding st'' done_set_finish by simp
    ultimately show "dfs_inv ?R st' \<and> dfs_step st st' \<and> u \<in> done_set st'" by blast
  qed
qed


lemma dfs_roots_spec:
  assumes "wf_graph g"
  shows "dfs_roots depth g knd ns st = Some st' \<Longrightarrow> dfs_inv (edge_rel g knd) st \<Longrightarrow> d_stack st = [] \<Longrightarrow>
    set ns \<subseteq> colored st \<Longrightarrow>
    dfs_inv (edge_rel g knd) st' \<and> d_stack st' = [] \<and> done_set st \<subseteq> done_set st' \<and> set ns \<subseteq> done_set st'"
proof (induction ns arbitrary: st)
  case Nil
  then show ?case by simp
next
  case (Cons n ns)
  let ?R = "edge_rel g knd"
  show ?case
  proof (cases "dict_get (d_color st) n = Some Unvisited")
    case True
    with Cons.prems obtain s1 where s1: "dfs depth g knd n st = Some s1" "dfs_roots depth g knd ns s1 = Some st'"
      by (auto split: option.splits)
    have "pushable ?R n st" using True Cons.prems by (simp add: pushable_def)
    with dfs_satisfies_spec [OF assms, of knd depth] s1 Cons.prems
    have n: "dfs_inv ?R s1" "dfs_step st s1" "n \<in> done_set s1" unfolding dfs_spec_def by blast+
    then have "dfs_inv ?R st' \<and> d_stack st' = [] \<and> done_set s1 \<subseteq> done_set st' \<and> set ns \<subseteq> done_set st'"
      using Cons.prems s1 by (intro Cons.IH) (auto simp: dfs_step_def)
    with n show ?thesis by (auto simp: dfs_step_def)
  next
    case False
    have "dict_get (d_color st) n \<noteq> Some In_Progress"
      using Cons.prems dfs_inv_stack [of ?R st n] by simp
    with False Cons.prems(4) have n: "n \<in> done_set st"
      by (cases "dict_get (d_color st) n") (auto simp: done_set_def colored_def intro: color.exhaust)
    have "dfs_inv ?R st' \<and> d_stack st' = [] \<and> done_set st \<subseteq> done_set st' \<and> set ns \<subseteq> done_set st'"
      using Cons.prems False by (intro Cons.IH) auto
    with n show ?thesis by auto
  qed
qed


text \<open>What the search returns, whenever it returns.\<close>

lemma find_cycles_sound:
  assumes "wf_graph g" "find_cycles depth g knd order = Some cs"
  shows "\<forall>c \<in> set cs. simple_cycle (edge_rel g knd) c"
    and "source ` set (edges g (Some knd)) \<subseteq> set order \<Longrightarrow> cs = [] \<Longrightarrow> acyclic (edge_rel g knd)"
proof -
  let ?R = "edge_rel g knd"
  let ?s0 = "\<lparr>d_color = map (\<lambda>n. (n, Unvisited)) order, d_stack = [], d_cycles = []\<rparr>"
  from assms(2) obtain st where st: "dfs_roots depth g knd order ?s0 = Some st" "cs = d_cycles st"
    by (auto simp: find_cycles_def)
  have get: "dict_get (map (\<lambda>n. (n, Unvisited)) ns) v = (if v \<in> set ns then Some Unvisited else None)" for ns v
    by (induction ns) auto
  have "done_set ?s0 = {}" by (auto simp: done_set_def get)
  then have "dfs_inv ?R ?s0" unfolding dfs_inv_def by (simp add: get acyclic_def)
  then have r: "dfs_inv ?R st" "set order \<subseteq> done_set st"
    using dfs_roots_spec [OF assms(1) st(1)] by (auto simp: get colored_def)
  from r st show "\<forall>c \<in> set cs. simple_cycle ?R c" by (simp add: dfs_inv_def)
  assume "source ` set (edges g (Some knd)) \<subseteq> set order" "cs = []"
  with r st have d: "?R `` done_set st \<subseteq> done_set st" "acyclic (?R \<inter> done_set st \<times> done_set st)"
      "Domain ?R \<subseteq> done_set st"
    by (auto simp: dfs_inv_def edge_rel_def)
  then have "?R \<inter> done_set st \<times> done_set st = ?R" by auto
  with d show "acyclic ?R" by simp
qed


section \<open>Enough depth\<close>

text \<open>The nodes of a graph, declared or dangling.\<close>

definition all_nodes :: "claim_graph \<Rightarrow> string set" where
  "all_nodes g = g_nodes g \<union> target ` set (edges g None)"

lemma finite_all_nodes: "wf_graph g \<Longrightarrow> finite (all_nodes g)"
  by (simp add: all_nodes_def wf_graph_def)

definition dfs_total :: "claim_graph \<Rightarrow> edge_kind \<Rightarrow> nat \<Rightarrow> bool" where
  "dfs_total g knd depth \<longleftrightarrow>
     (\<forall>u st. dfs_inv (edge_rel g knd) st \<longrightarrow> pushable (edge_rel g knd) u st \<longrightarrow> u \<in> all_nodes g \<longrightarrow>
        card (all_nodes g - set (d_stack st)) \<le> depth \<longrightarrow> dfs depth g knd u st \<noteq> None)"

lemma dfs_edges_total:
  assumes "wf_graph g" "dfs_total g knd depth"
  shows "dfs_inv (edge_rel g knd) st \<Longrightarrow> d_stack st \<noteq> [] \<Longrightarrow>
    \<forall>e \<in> set es. (last (d_stack st), target e) \<in> edge_rel g knd \<Longrightarrow>
    card (all_nodes g - set (d_stack st)) \<le> depth \<Longrightarrow> dfs_edges (dfs depth g knd) es st \<noteq> None"
proof (induction es arbitrary: st)
  case Nil
  then show ?case by simp
next
  case (Cons e es)
  let ?R = "edge_rel g knd" and ?v = "target e"
  let ?st0 = "st\<lparr>d_color := dict_setdefault ?v Unvisited (d_color st)\<rparr>"
  have inv0: "dfs_inv ?R ?st0" using Cons.prems by (simp add: dfs_inv_setdefault)
  have step: "dfs_edges (dfs depth g knd) [e] st = Some s1 \<Longrightarrow> dfs_edges (dfs depth g knd) es s1 \<noteq> None" for s1
    using dfs_edges_spec [OF dfs_satisfies_spec [OF assms(1), of knd depth], of "[e]" st s1] Cons.prems
    by (intro Cons.IH) (auto simp: dfs_step_def)
  have one: "dfs_edges (dfs depth g knd) [e] st \<noteq> None"
  proof (cases "dict_get (d_color ?st0) ?v = Some Unvisited")
    case True
    have "?v \<in> all_nodes g" using Cons.prems(3) by (auto simp: edge_rel_def all_nodes_def edges_def)
    moreover have "pushable ?R ?v ?st0" using True Cons.prems by (simp add: pushable_def)
    ultimately have "dfs depth g knd ?v ?st0 \<noteq> None"
      using assms(2) inv0 Cons.prems(4) unfolding dfs_total_def by force
    with True show ?thesis by (auto simp: Let_def)
  next
    case False
    then show ?thesis by (auto simp: Let_def split: option.splits color.splits)
  qed
  have split: "dfs_edges (dfs depth g knd) (e # es) st =
      (case dfs_edges (dfs depth g knd) [e] st of None \<Rightarrow> None | Some s1 \<Rightarrow> dfs_edges (dfs depth g knd) es s1)"
    by (simp add: Let_def split: option.split color.split)
  from one step show ?case unfolding split by (auto split: option.splits)
qed

lemma dfs_is_total:
  assumes "wf_graph g"
  shows "dfs_total g knd depth"
proof (induction depth)
  case 0
  have "u \<in> set (d_stack st)" if "u \<in> all_nodes g" "card (all_nodes g - set (d_stack st)) = 0" for u st
    using that finite_all_nodes [OF assms] by auto
  then show ?case
    by (auto simp: dfs_total_def pushable_def dest!: dfs_inv_stack)
next
  case (Suc depth)
  show ?case
    unfolding dfs_total_def
  proof (intro allI impI)
    fix u :: string and st :: dfs_state
    let ?R = "edge_rel g knd"
    let ?s0 = "st\<lparr>d_color := dict_set u In_Progress (d_color st), d_stack := d_stack st @ [u]\<rparr>"
    assume a: "dfs_inv ?R st" "pushable ?R u st" "u \<in> all_nodes g"
      "card (all_nodes g - set (d_stack st)) \<le> Suc depth"
    have "u \<notin> set (d_stack st)" using dfs_inv_stack [OF a(1), of u] a(2) by (simp add: pushable_def)
    then have "card (all_nodes g - set (d_stack ?s0)) < card (all_nodes g - set (d_stack st))"
      using a(3) finite_all_nodes [OF assms] by (intro psubset_card_mono) auto
    with a(4) have "card (all_nodes g - set (d_stack ?s0)) \<le> depth" by simp
    then have "dfs_edges (dfs depth g knd) (graph_outgoing g u (Some knd)) ?s0 \<noteq> None"
      using assms dfs_inv_push(1) [OF a(1,2)]
      by (intro dfs_edges_total [OF assms Suc]) (auto simp: wf_outgoing edge_rel_def)
    then show "dfs (Suc depth) g knd u st \<noteq> None" by auto
  qed
qed

lemma dfs_roots_total:
  assumes "wf_graph g" "card (all_nodes g) \<le> depth"
  shows "dfs_inv (edge_rel g knd) st \<Longrightarrow> d_stack st = [] \<Longrightarrow> set ns \<subseteq> all_nodes g \<Longrightarrow>
    dfs_roots depth g knd ns st \<noteq> None"
proof (induction ns arbitrary: st)
  case Nil
  then show ?case by simp
next
  case (Cons n ns)
  show ?case
  proof (cases "dict_get (d_color st) n = Some Unvisited")
    case True
    then have p: "pushable (edge_rel g knd) n st" using Cons.prems by (simp add: pushable_def)
    with Cons.prems assms(2) obtain s1 where s1: "dfs depth g knd n st = Some s1"
      using dfs_is_total [OF assms(1), of knd depth] by (force simp: dfs_total_def)
    then have "dfs_inv (edge_rel g knd) s1 \<and> d_stack s1 = []"
      using dfs_satisfies_spec [OF assms(1), of knd depth] Cons.prems p
      by (auto simp: dfs_spec_def dfs_step_def)
    with True s1 Cons show ?thesis by simp
  next
    case False
    with Cons show ?thesis by simp
  qed
qed

lemma find_cycles_total:
  assumes "wf_graph g" "card (all_nodes g) \<le> depth" "set order \<subseteq> all_nodes g"
  shows "find_cycles depth g knd order \<noteq> None"
proof -
  let ?s0 = "\<lparr>d_color = map (\<lambda>n. (n, Unvisited)) order, d_stack = [], d_cycles = []\<rparr>"
  have get: "dict_get (map (\<lambda>n. (n, Unvisited)) ns) v = (if v \<in> set ns then Some Unvisited else None)" for ns v
    by (induction ns) auto
  have "done_set ?s0 = {}" by (auto simp: done_set_def get)
  then have "dfs_inv (edge_rel g knd) ?s0" unfolding dfs_inv_def by (simp add: get acyclic_def)
  then show ?thesis using dfs_roots_total [OF assms(1,2), of knd ?s0 order] assms(3) by (simp add: find_cycles_def)
qed


section \<open>Properties\<close>

lemma from_claims_sources: "source ` set (edges (from_claims cs) (Some knd)) \<subseteq> g_nodes (from_claims cs)"
proof -
  have "set (edges (from_claims cs) (Some knd)) \<subseteq> set (edges (from_claims cs) None)"
    by (auto simp: edges_def)
  also have "\<dots> = set (concat (map claim_edges cs))"
    using mset_eq_setD [OF from_claims_edges] .
  finally show ?thesis by (force simp: from_claims_nodes claim_edges_def)
qed

lemma find_cycles_result:
  assumes "set order = g_nodes (from_claims cs)" "card (all_nodes (from_claims cs)) \<le> depth"
  shows "\<exists>found. find_cycles depth (from_claims cs) knd order = Some found \<and>
    (\<forall>c \<in> set found. simple_cycle (edge_rel (from_claims cs) knd) c) \<and>
    (found = [] \<longleftrightarrow> acyclic (edge_rel (from_claims cs) knd))"
proof -
  have "find_cycles depth (from_claims cs) knd order \<noteq> None"
    using assms by (intro find_cycles_total from_claims_wf) (auto simp: all_nodes_def)
  then obtain found where f: "find_cycles depth (from_claims cs) knd order = Some found" by blast
  note s = find_cycles_sound [OF from_claims_wf f]
  have "acyclic (edge_rel (from_claims cs) knd)" if "found = []"
    using s(2) that from_claims_sources assms(1) by simp
  moreover have "\<not> acyclic (edge_rel (from_claims cs) knd)" if "found \<noteq> []"
    using s(1) that simple_cycle_not_acyclic by (cases found) auto
  ultimately show ?thesis using f s(1) by blast
qed

text \<open>
  C22: With a recursion depth of the number of nodes the search returns, whatever order the
  nodes are visited in; everything it reports is a simple cycle of the chosen kind, and it
  reports nothing exactly when the edges of that kind are acyclic.
\<close>

theorem find_cycles_decides:
  assumes "set order = g_nodes (from_claims cs)" "card (all_nodes (from_claims cs)) \<le> depth"
  shows "\<exists>found. find_cycles depth (from_claims cs) knd order = Some found \<and>
    (\<forall>c \<in> set found. simple_cycle (edge_rel (from_claims cs) knd) c) \<and>
    (found = [] \<longleftrightarrow> acyclic (edge_rel (from_claims cs) knd))"
  by (rule find_cycles_result [OF assms])

definition example_loop :: "claim_record list" where
  "example_loop = [example_claim ''a'' [''b'', ''c''], example_claim ''b'' [''c''], example_claim ''c'' [''a'']]"

lemma example_loop_nodes:
  "g_nodes (from_claims example_loop) = {''a'', ''b'', ''c''}" "all_nodes (from_claims example_loop) = {''a'', ''b'', ''c''}"
  by code_simp+

theorem find_cycles_decides_witness:
  "\<exists>found. find_cycles 3 (from_claims example_loop) Depends_On [''a'', ''b'', ''c''] = Some found \<and>
    (\<forall>c \<in> set found. simple_cycle (edge_rel (from_claims example_loop) Depends_On) c) \<and>
    (found = [] \<longleftrightarrow> acyclic (edge_rel (from_claims example_loop) Depends_On))"
  by (rule find_cycles_decides) (simp_all add: example_loop_nodes)

text \<open>
  C23: \<open>assert_no_cycles\<close> passes exactly on acyclic graphs, and the exception it raises
  otherwise carries a real cycle of the kind asked for.
\<close>

theorem assert_no_cycles_exact:
  assumes "set order = g_nodes (from_claims cs)" "card (all_nodes (from_claims cs)) \<le> depth"
  shows "(assert_no_cycles depth (from_claims cs) knd order = Inr () \<and> acyclic (edge_rel (from_claims cs) knd)) \<or>
    (\<exists>c. assert_no_cycles depth (from_claims cs) knd order = Inl (CycleError knd c) \<and>
       simple_cycle (edge_rel (from_claims cs) knd) c)"
proof -
  from find_cycles_result [OF assms, of knd] obtain found where
    f: "find_cycles depth (from_claims cs) knd order = Some found"
      "\<forall>c \<in> set found. simple_cycle (edge_rel (from_claims cs) knd) c"
      "found = [] \<longleftrightarrow> acyclic (edge_rel (from_claims cs) knd)"
    by blast
  then show ?thesis by (cases found) (auto simp: assert_no_cycles_def)
qed

theorem assert_no_cycles_exact_witness:
  "assert_no_cycles 3 (from_claims example_loop) Depends_On [''a'', ''b'', ''c''] \<noteq> Inl RecursionError"
  using assert_no_cycles_exact [of "[''a'', ''b'', ''c'']" example_loop 3 Depends_On]
  by (auto simp: example_loop_nodes)

text \<open>
  The search reports a cycle per back edge, not every simple cycle: from \<open>a\<close> it
  finds the long cycle and has finished \<open>c\<close> when it meets the edge that closes the
  short one.
\<close>

lemma short_cycle_missed:
  "find_cycles 3 (from_claims example_loop) Depends_On [''a'', ''b'', ''c''] = Some [[''a'', ''b'', ''c'']]"
  by code_simp

lemma short_cycle_is_simple: "simple_cycle (edge_rel (from_claims example_loop) Depends_On) [''a'', ''c'']"
proof -
  have "edges (from_claims example_loop) (Some Depends_On) =
      [GraphEdge ''a'' ''b'' Depends_On, GraphEdge ''a'' ''c'' Depends_On,
       GraphEdge ''b'' ''c'' Depends_On, GraphEdge ''c'' ''a'' Depends_On]"
    by code_simp
  then have e: "GraphEdge ''a'' ''c'' Depends_On \<in> set (edges (from_claims example_loop) (Some Depends_On))"
    "GraphEdge ''c'' ''a'' Depends_On \<in> set (edges (from_claims example_loop) (Some Depends_On))"
    by simp_all
  have "(source e, target e) \<in> edge_rel g knd" if "e \<in> set (edges g (Some knd))" for e g knd
    using that by (auto simp: edge_rel_def)
  from this [OF e(1)] this [OF e(2)] show ?thesis by (simp add: simple_cycle_def)
qed

text \<open>An acyclic chain longer than the recursion limit is an error, not a result.\<close>

lemma deep_chain_overflows:
  "assert_no_cycles 2 (from_claims [example_claim ''a'' [''b''], example_claim ''b'' [''c''], example_claim ''c'' []])
     Depends_On [''a'', ''b'', ''c''] = Inl RecursionError"
  by code_simp

end
