(* ===== verification/Lineage.thy ===== *)
theory Lineage
  imports Ids_Slug Server_Errors
begin

text \<open>
  Version lineages: the chain of \<open>previous_version\<close> pointers between stored papers.
  \<open>papers_in_same_lineage\<close> of \<open>server/papers/diff.py\<close>, which walks at most 64
  steps, and \<open>get_paper_versions\<close> of \<open>server/submissions/router.py\<close>, which
  walks until it meets a paper twice. Both must end whatever pointers a store holds.
\<close>

section \<open>Looking papers up\<close>

text \<open>\<open>store.get_paper(v)\<close> for a value read out of a record.\<close>

definition get_paper_value :: "store_state \<Rightarrow> pyval \<Rightarrow> pyexn + pydict option" where
  "get_paper_value s v =
     (case v of PStr i \<Rightarrow> Inr (get_paper s i) | _ \<Rightarrow> if unhashable v then Inl TypeError else Inr None)"

definition resolve_paper :: "store_state \<Rightarrow> string \<Rightarrow> pyexn + pydict option" where
  "resolve_paper s ident =
     (if is_slug ident then find_paper_by_slug (list_papers s) ident else Inr (get_paper s ident))"

section \<open>The same lineage\<close>

text \<open>
  \<open>_chain\<close>: the ids met on at most \<open>n\<close> steps. An id that is not a string
  is printed.
\<close>

fun chain_from :: "store_state \<Rightarrow> nat \<Rightarrow> pyval \<Rightarrow> pyexn + string list" where
  "chain_from s 0 cur = Inr []"
| "chain_from s (Suc n) cur =
     rbind (get_paper_value s cur) (\<lambda>paper.
       case paper of
         None \<Rightarrow> Inr []
       | Some p \<Rightarrow>
           if p = [] then Inr []
           else
             let pid = py_str (py_or (dget p ''id'') cur); prev = dget p ''previous_version''
             in if \<not> truthy prev then Inr [pid]
                else rbind (chain_from s n prev) (\<lambda>ids. Inr (pid # ids)))"

definition max_depth :: nat where "max_depth = 64"

definition papers_in_same_lineage :: "store_state \<Rightarrow> string \<Rightarrow> string \<Rightarrow> pyexn + bool" where
  "papers_in_same_lineage s a b =
     (if a = b then Inr True
      else rbind (chain_from s max_depth (PStr a)) (\<lambda>ca.
           rbind (chain_from s max_depth (PStr b)) (\<lambda>cb.
             Inr (a \<in> set cb \<or> b \<in> set ca \<or> list_ex (\<lambda>i. i \<in> set cb) ca))))"

section \<open>The versions of a paper\<close>

definition version_item :: "pydict \<Rightarrow> pydict" where
  "version_item p =
     [(''id'', dget p ''id''), (''version'', dget p ''version''),
      (''submitted_at'', dget p ''submitted_at''), (''previous_version'', dget p ''previous_version'')]"

text \<open>
  The loop, newest first. The ids already visited are a set; every turn adds the id of a
  stored paper, or of the paper it starts from, so it ends.
\<close>

definition stored_ids :: "store_state \<Rightarrow> pyval set" where
  "stored_ids s = (\<lambda>p. dget p ''id'') ` set (list_papers s)"

definition linked_paper :: "store_state \<Rightarrow> pydict \<Rightarrow> pyexn + pydict option" where
  "linked_paper s p =
     (let prev = dget p ''previous_version''
      in if \<not> truthy prev \<or> py_eq prev (dget p ''id'') then Inr None else get_paper_value s prev)"

lemma stored_paper_listed: "get_paper s i = Some p \<Longrightarrow> p \<in> set (list_papers s)"
  by (force simp: get_paper_def list_papers_def dict_values_def dest: map_of_SomeD)

lemma get_paper_value_Some: "get_paper_value s v = Inr (Some p) \<longleftrightarrow> (\<exists>i. v = PStr i \<and> get_paper s i = Some p)"
  by (cases v) (auto simp: get_paper_value_def)

lemma linked_paper_stored: "linked_paper s p = Inr (Some q) \<Longrightarrow> dget q ''id'' \<in> stored_ids s"
  by (auto simp: linked_paper_def Let_def stored_ids_def get_paper_value_Some split: if_splits
      dest!: stored_paper_listed)

lemma py_eq_self: "\<not> unhashable v \<Longrightarrow> py_eq v v"
  by (cases v) (auto simp: unhashable_def)

lemma finite_stored_ids [simp]: "finite (stored_ids s)"
  by (simp add: stored_ids_def)

function version_walk :: "store_state \<Rightarrow> pyval list \<Rightarrow> pydict \<Rightarrow> pyexn + pydict list" where
  "version_walk s visited p =
     (let pid = dget p ''id''
      in if \<not> truthy pid then Inr []
         else if unhashable pid then Inl TypeError
         else if list_ex (py_eq pid) visited then Inr []
         else case linked_paper s p of
           Inl e \<Rightarrow> Inl e
         | Inr None \<Rightarrow> Inr [version_item p]
         | Inr (Some q) \<Rightarrow> rbind (version_walk s (pid # visited) q) (\<lambda>items. Inr (version_item p # items)))"
  by auto
termination
proof (relation "measure (\<lambda>(s, visited, p). card (stored_ids s - set visited) +
    (if dget p ''id'' \<in> stored_ids s then 0 else 1))", goal_cases)
  case 1
  then show ?case by simp
next
  case (2 s visited p pid x q)
  then have q: "dget q ''id'' \<in> stored_ids s" by (simp add: linked_paper_stored)
  have fresh: "pid \<notin> set visited" using 2 py_eq_self [of pid] by (auto simp: list_ex_iff)
  show ?case
  proof (cases "dget p ''id'' \<in> stored_ids s")
    case True
    with 2 fresh have "card (stored_ids s - set (pid # visited)) < card (stored_ids s - set visited)"
      by (intro psubset_card_mono) auto
    with True q show ?thesis using 2 by simp
  next
    case False
    with 2 have "stored_ids s - set (pid # visited) = stored_ids s - set visited" by auto
    with False q show ?thesis by simp
  qed
qed

declare version_walk.simps [simp del]

definition get_paper_versions :: "store_state \<Rightarrow> string \<Rightarrow> exn + pydict list" where
  "get_paper_versions s ident =
     rbind (raising (resolve_paper s ident)) (\<lambda>paper.
       case paper of
         None \<Rightarrow> Inl (not_found (''paper '' @ ident @ '' not found''))
       | Some p \<Rightarrow> rbind (raising (version_walk s [] p)) (\<lambda>items. Inr (rev items)))"

section \<open>Papers are stored under their ids\<close>

definition ids_match :: "store_state \<Rightarrow> bool" where
  "ids_match s \<longleftrightarrow> (\<forall>(i, p) \<in> set (st_papers s). dget p ''id'' = PStr i)"

lemma ids_match_empty: "ids_match empty_store"
  by (simp add: ids_match_def empty_store_def)

lemma ids_match_add_paper:
  assumes "ids_match s" "add_paper p s = Inr s'"
  shows "ids_match s'"
proof -
  from assms(2) obtain i where i: "dget p ''id'' = PStr i" "s' = s\<lparr>st_papers := dict_set i p (st_papers s)\<rparr>"
    by (auto simp: add_paper_def item_id_def dget_def rbind_Inr_iff split: option.splits pyval.splits)
  have "set (dict_set i p d) \<subseteq> insert (i, p) (set d)" for d :: "(string \<times> pydict) list"
    unfolding dict_set_def by (induction d) auto
  with assms(1) i show ?thesis by (force simp: ids_match_def)
qed

lemma ids_matchD: "ids_match s \<Longrightarrow> get_paper s i = Some p \<Longrightarrow> dget p ''id'' = PStr i"
  by (auto simp: ids_match_def get_paper_def dest!: map_of_SomeD)

section \<open>The lineage relation\<close>





lemma chain_error: "chain_from s n v = Inl e \<Longrightarrow> e = TypeError"
  by (induction n arbitrary: v)
     (auto simp: get_paper_value_def rbind_Inl_iff Let_def split: pyval.splits if_splits option.splits)

section \<open>Properties\<close>

text \<open>Being in one lineage is symmetric, also when a broken pointer raises.\<close>

lemma lineage_symmetric: "papers_in_same_lineage s a b = papers_in_same_lineage s b a"
proof (cases "chain_from s max_depth (PStr a)")
  case a: (Inl e)
  then show ?thesis
    using chain_error [OF a]
    by (cases "chain_from s max_depth (PStr b)") (auto simp: papers_in_same_lineage_def dest: chain_error)
next
  case a: (Inr ca)
  then show ?thesis
    by (cases "chain_from s max_depth (PStr b)") (auto simp: papers_in_same_lineage_def list_ex_iff)
qed


definition two_versions :: store_state where
  "two_versions = empty_store\<lparr>st_papers :=
     [(''v1'', [(''id'', PStr ''v1'')]),
      (''v2'', [(''id'', PStr ''v2''), (''previous_version'', PStr ''v1'')])]\<rparr>"

lemma two_versions_ids: "ids_match two_versions"
  by (simp add: ids_match_def two_versions_def dget_def)



section \<open>The versions endpoint\<close>

lemma version_walk_ids:
  "version_walk s visited p = Inr items \<Longrightarrow> ids_match s \<Longrightarrow> p \<in> set (list_papers s) \<Longrightarrow>
    distinct (map (\<lambda>v. dget v ''id'') items) \<and>
    set (map (\<lambda>v. dget v ''id'') items) \<subseteq> stored_ids s - set visited \<and>
    (items = [] \<or> hd items = version_item p) \<and>
    successively (\<lambda>newer older. dget newer ''previous_version'' = dget older ''id'') items"
proof (induction s visited p arbitrary: items rule: version_walk.induct)
  case (1 s visited p)
  let ?pid = "dget p ''id''"
  have stored: "?pid \<in> stored_ids s" using "1.prems"(3) by (auto simp: stored_ids_def)
  have item: "dget (version_item p) ''id'' = ?pid" "dget (version_item p) ''previous_version'' = dget p ''previous_version''"
    by (simp_all add: version_item_def dget_def)
  consider (stop) "items = []" | (single) "items = [version_item p]" "\<not> list_ex (py_eq ?pid) visited" "\<not> unhashable ?pid"
    | (more) q rest where "truthy ?pid" "\<not> unhashable ?pid" "\<not> list_ex (py_eq ?pid) visited"
      "linked_paper s p = Inr (Some q)" "version_walk s (?pid # visited) q = Inr rest" "items = version_item p # rest"
    using "1.prems"(1)
    by (subst (asm) version_walk.simps) (auto simp: Let_def rbind_Inr_iff split: if_splits sum.splits option.splits)
  then show ?case
  proof cases
    case stop
    then show ?thesis by simp
  next
    case single
    then have "?pid \<notin> set visited" using py_eq_self [of ?pid] by (auto simp: list_ex_iff)
    with single stored item show ?thesis by simp
  next
    case more
    have q: "q \<in> set (list_papers s)" "dget p ''previous_version'' = dget q ''id''"
    proof -
      from more(4) obtain i where "get_paper s i = Some q" "dget p ''previous_version'' = PStr i"
        by (auto simp: linked_paper_def Let_def get_paper_value_Some split: if_splits)
      with "1.prems"(2) show "q \<in> set (list_papers s)" "dget p ''previous_version'' = dget q ''id''"
        by (auto dest: stored_paper_listed ids_matchD)
    qed
    have fresh: "?pid \<notin> set visited" using more(2,3) py_eq_self [of ?pid] by (auto simp: list_ex_iff)
    have "distinct (map (\<lambda>v. dget v ''id'') rest) \<and>
      set (map (\<lambda>v. dget v ''id'') rest) \<subseteq> stored_ids s - set (?pid # visited) \<and>
      (rest = [] \<or> hd rest = version_item q) \<and>
      successively (\<lambda>newer older. dget newer ''previous_version'' = dget older ''id'') rest"
      using more "1.prems"(2) q(1) by (intro "1.IH") auto
    moreover have "dget (version_item q) ''id'' = dget q ''id''" by (simp add: version_item_def dget_def)
    ultimately show ?thesis
      using more(6) item q(2) fresh stored by (cases rest) auto
  qed
qed

lemma py_eq_text: "py_eq (PStr i) v \<longleftrightarrow> v = PStr i"
  by (cases v) auto

lemma listed_id: "ids_match s \<Longrightarrow> p \<in> set (list_papers s) \<Longrightarrow> \<exists>i. dget p ''id'' = PStr i"
  by (force simp: ids_match_def list_papers_def dict_values_def)

lemma version_walk_complete:
  "version_walk s visited p = Inr items \<Longrightarrow> ids_match s \<Longrightarrow> p \<in> set (list_papers s) \<Longrightarrow>
    (items = [] \<longleftrightarrow> dget p ''id'' = PStr [] \<or> dget p ''id'' \<in> set visited) \<and>
    set items \<subseteq> version_item ` set (list_papers s) \<and>
    (\<forall>i q. items \<noteq> [] \<longrightarrow> dget (last items) ''previous_version'' = PStr i \<longrightarrow> i \<noteq> [] \<longrightarrow> get_paper s i = Some q \<longrightarrow>
      PStr i \<in> set visited \<union> set (map (\<lambda>v. dget v ''id'') items))"
proof (induction s visited p arbitrary: items rule: version_walk.induct)
  case (1 s visited p)
  obtain k where id: "dget p ''id'' = PStr k"
    using listed_id [OF "1.prems"(2,3)] by blast
  have item: "dget (version_item p) ''id'' = dget p ''id''" "dget (version_item p) ''previous_version'' = dget p ''previous_version''"
    by (simp_all add: version_item_def dget_def)
  have seen: "list_ex (py_eq (PStr k)) visited \<longleftrightarrow> PStr k \<in> set visited" by (auto simp: list_ex_iff py_eq_text)
  consider (stop) "items = []" "k = [] \<or> PStr k \<in> set visited"
    | (single) "items = [version_item p]" "k \<noteq> []" "PStr k \<notin> set visited" "linked_paper s p = Inr None"
    | (more) q rest where "k \<noteq> []" "PStr k \<notin> set visited"
      "linked_paper s p = Inr (Some q)" "version_walk s (PStr k # visited) q = Inr rest" "items = version_item p # rest"
    using "1.prems"(1)
    by (subst (asm) version_walk.simps) (auto simp: Let_def rbind_Inr_iff id seen unhashable_def split: if_splits sum.splits option.splits)
  then show ?case
  proof cases
    case stop
    then show ?thesis by (auto simp: id)
  next
    case single
    have "i = k" if "dget p ''previous_version'' = PStr i" "i \<noteq> []" "get_paper s i = Some q" for i q
      using single(4) that by (auto simp: linked_paper_def Let_def id get_paper_value_def split: if_splits)
    with single "1.prems"(3) item show ?thesis by (auto simp: id)
  next
    case more
    have q: "q \<in> set (list_papers s)" "dget q ''id'' = dget p ''previous_version''" "dget q ''id'' \<noteq> PStr k" "dget q ''id'' \<noteq> PStr []"
    proof -
      from more(3) obtain i where "get_paper s i = Some q" "dget p ''previous_version'' = PStr i" "i \<noteq> k" "i \<noteq> []"
        by (auto simp: linked_paper_def Let_def get_paper_value_Some id py_eq_text split: if_splits)
      with "1.prems"(2) show "q \<in> set (list_papers s)" "dget q ''id'' = dget p ''previous_version''"
         "dget q ''id'' \<noteq> PStr k" "dget q ''id'' \<noteq> PStr []"
        by (auto dest: stored_paper_listed ids_matchD)
    qed
    have hash: "\<not> unhashable (PStr k)" "truthy (PStr k)" "\<not> list_ex (py_eq (PStr k)) visited"
      using more(1,2) seen by (auto simp: unhashable_def)
    have "(rest = [] \<longleftrightarrow> dget q ''id'' = PStr [] \<or> dget q ''id'' \<in> set (PStr k # visited)) \<and>
      set rest \<subseteq> version_item ` set (list_papers s) \<and>
      (\<forall>i r. rest \<noteq> [] \<longrightarrow> dget (last rest) ''previous_version'' = PStr i \<longrightarrow> i \<noteq> [] \<longrightarrow> get_paper s i = Some r \<longrightarrow>
        PStr i \<in> set (PStr k # visited) \<union> set (map (\<lambda>v. dget v ''id'') rest))"
      using more hash "1.prems"(2) q(1) by (intro "1.IH" [OF id [symmetric]]) auto
    with more item q "1.prems"(3) show ?thesis by (cases "rest = []") (auto simp: id)
  qed
qed
lemma resolve_paper_listed:
  "resolve_paper s ident = Inr (Some p) \<Longrightarrow> p \<in> set (list_papers s)"
  using find_paper_by_slug_result [of "list_papers s" ident p] stored_paper_listed [of s ident p]
  by (auto simp: resolve_paper_def split: if_splits)

text \<open>
  C38: The versions of a paper are its whole chain: stored papers without repetition, oldest first,
  each the previous version of the next one, ending with the paper asked for; and nothing is left
  out at the old end, where the previous version is absent, not stored, or in the list already,
  because the pointers form a cycle. The list is empty only for a paper whose identifier is empty.
\<close>

theorem versions_form_chain:
  assumes "ids_match s" "get_paper_versions s ident = Inr items"
  shows "\<exists>p. resolve_paper s ident = Inr (Some p) \<and> (items = [] \<longleftrightarrow> dget p ''id'' = PStr []) \<and>
    (items \<noteq> [] \<longrightarrow> last items = version_item p \<and>
      (\<forall>i q. dget (hd items) ''previous_version'' = PStr i \<longrightarrow> i \<noteq> [] \<longrightarrow> get_paper s i = Some q \<longrightarrow>
        PStr i \<in> set (map (\<lambda>v. dget v ''id'') items))) \<and>
    set items \<subseteq> version_item ` set (list_papers s) \<and>
    distinct (map (\<lambda>v. dget v ''id'') items) \<and> length items \<le> length (list_papers s) \<and>
    successively (\<lambda>older newer. dget newer ''previous_version'' = dget older ''id'') items"
proof -
  from assms(2) obtain p walk where p: "resolve_paper s ident = Inr (Some p)"
    and w: "version_walk s [] p = Inr walk" "items = rev walk"
    by (auto simp: get_paper_versions_def rbind_Inr_iff split: option.splits)
  note v = version_walk_ids [OF w(1) assms(1) resolve_paper_listed [OF p]]
  note whole = version_walk_complete [OF w(1) assms(1) resolve_paper_listed [OF p]]
  have "length walk = card (set (map (\<lambda>v. dget v ''id'') walk))"
    using v distinct_card [of "map (\<lambda>v. dget v ''id'') walk"] by simp
  also have "\<dots> \<le> card (stored_ids s)" using v by (intro card_mono) auto
  also have "\<dots> \<le> length (list_papers s)"
    unfolding stored_ids_def by (rule order_trans [OF card_image_le card_length]) simp
  finally have "length items \<le> length (list_papers s)" using w(2) by simp
  moreover have "distinct (map (\<lambda>v. dget v ''id'') items) \<and>
      successively (\<lambda>older newer. dget newer ''previous_version'' = dget older ''id'') items"
    using v w(2) by (auto simp: rev_map simp flip: rev_map)
  moreover have "items \<noteq> [] \<longrightarrow> last items = version_item p" using v w(2) by (auto simp: last_rev)
  ultimately show ?thesis
    using p whole w(2) by (intro exI [of _ p]) (simp add: hd_rev)
qed

text \<open>Of two versions both are served, although only the newer one was asked for.\<close>

theorem versions_form_chain_witness:
  "\<exists>items. get_paper_versions two_versions ''v2'' = Inr items \<and> map (\<lambda>v. dget v ''id'') items = [PStr ''v1'', PStr ''v2''] \<and>
    last items = version_item [(''id'', PStr ''v2''), (''previous_version'', PStr ''v1'')]"
proof -
  have e: "get_paper_versions two_versions ''v2'' = Inr
      [version_item [(''id'', PStr ''v1'')], version_item [(''id'', PStr ''v2''), (''previous_version'', PStr ''v1'')]]"
    by code_simp
  have "map (\<lambda>v. dget v ''id'') [version_item [(''id'', PStr ''v1'')],
      version_item [(''id'', PStr ''v2''), (''previous_version'', PStr ''v1'')]] = [PStr ''v1'', PStr ''v2'']"
    by code_simp
  with versions_form_chain [OF two_versions_ids e] e show ?thesis by auto
qed

end
