(* ===== verification/Cir_Model.thy ===== *)
theory Cir_Model
  imports Py_Order
begin

text \<open>
  The validated model of a paper's structure, as far as the two diffs read it: a record per
  class of \<open>models/_generated\<close>, its fields typed, with an enumeration as the string
  of its value (the classes are \<open>StrEnum\<close>). A citation and an annotation are
  represented by their ids.
\<close>

record figure_model =
  fg_path :: string
  fg_caption :: "string option"

record claim_model =
  cm_id :: string
  cm_statement :: string
  cm_claim_type :: string
  cm_evidence_type :: string
  cm_proof :: "string option"
  cm_figures :: "figure_model list option"
  cm_depends_on :: "string list option"
  cm_supports :: "string list option"
  cm_contradicts :: "string list option"
  cm_extends :: "string list option"
  cm_source_location :: pyval
  cm_replication_status :: "string option"
  cm_canonical :: "bool option"

record cir_model =
  cir_title :: string
  cir_abstract :: string
  cir_license :: string
  cir_version :: string
  cir_previous_version :: "string option"
  cir_topics :: "string list option"
  cir_claims :: "claim_model list option"
  cir_citation_ids :: "string list option"
  cir_annotation_ids :: "string list option"

definition listed :: "'a list option \<Rightarrow> 'a list" where
  "listed v = (case v of None \<Rightarrow> [] | Some xs \<Rightarrow> xs)"

definition text_or_empty :: "string option \<Rightarrow> string" where
  "text_or_empty v = (case v of None \<Rightarrow> [] | Some s \<Rightarrow> s)"

text \<open>A field of a claim as a value, an absent one as \<open>None\<close>.\<close>

definition opt_text :: "string option \<Rightarrow> pyval" where
  "opt_text v = (case v of None \<Rightarrow> PNone | Some s \<Rightarrow> PStr s)"

definition opt_bool :: "bool option \<Rightarrow> pyval" where
  "opt_bool v = (case v of None \<Rightarrow> PNone | Some b \<Rightarrow> PBool b)"

lemma opt_text_inj [simp]: "opt_text v = opt_text w \<longleftrightarrow> v = w"
  by (cases v; cases w) (auto simp: opt_text_def)

lemma opt_bool_inj [simp]: "opt_bool v = opt_bool w \<longleftrightarrow> v = w"
  by (cases v; cases w) (auto simp: opt_bool_def)

end
