(* ===== verification/Cir_Diff.thy ===== *)
theory Cir_Diff
  imports Cir_Model
begin

text \<open>
  The offline diff of two CIR documents, \<open>diff.py\<close>: changed top-level fields, topics,
  claims, edges, citations and annotations. The text summary for the terminal is left out:
  it needs a character outside the code points of this development.
\<close>

section \<open>The report\<close>

record field_change =
  fc_field :: string
  fc_before :: pyval
  fc_after :: pyval

record claim_change =
  cc_claim_id :: string
  cc_fields :: "field_change list"

type_synonym edge_triple = "string \<times> string \<times> string"

record cir_diff =
  cd_field_changes :: "field_change list"
  cd_topic_added :: "string list"
  cd_topic_removed :: "string list"
  cd_claim_added :: "string list"
  cd_claim_removed :: "string list"
  cd_claim_changed :: "claim_change list"
  cd_edge_added :: "edge_triple list"
  cd_edge_removed :: "edge_triple list"
  cd_citation_added :: "string list"
  cd_citation_removed :: "string list"
  cd_annotation_added :: "string list"
  cd_annotation_removed :: "string list"

definition is_empty_diff :: "cir_diff \<Rightarrow> bool" where
  "is_empty_diff d \<longleftrightarrow>
     cd_field_changes d = [] \<and> cd_topic_added d = [] \<and> cd_topic_removed d = [] \<and>
     cd_claim_added d = [] \<and> cd_claim_removed d = [] \<and> cd_claim_changed d = [] \<and>
     cd_edge_added d = [] \<and> cd_edge_removed d = [] \<and> cd_citation_added d = [] \<and>
     cd_citation_removed d = [] \<and> cd_annotation_added d = [] \<and> cd_annotation_removed d = []"

definition field_change_dict :: "field_change \<Rightarrow> pyval" where
  "field_change_dict fc =
     PDict [(''field'', PStr (fc_field fc)), (''before'', fc_before fc), (''after'', fc_after fc)]"

definition strs :: "string list \<Rightarrow> pyval" where
  "strs xs = PList (map PStr xs)"

definition triple_list :: "edge_triple \<Rightarrow> pyval" where
  "triple_list e = (case e of (s, t, k) \<Rightarrow> strs [s, t, k])"

definition diff_to_dict :: "cir_diff \<Rightarrow> pydict" where
  "diff_to_dict d =
     [(''field_changes'', PList (map field_change_dict (cd_field_changes d))),
      (''topic_added'', strs (cd_topic_added d)), (''topic_removed'', strs (cd_topic_removed d)),
      (''claim_added'', strs (cd_claim_added d)), (''claim_removed'', strs (cd_claim_removed d)),
      (''claim_changed'', PList (map (\<lambda>cc. PDict [(''claim_id'', PStr (cc_claim_id cc)),
          (''fields'', PList (map field_change_dict (cc_fields cc)))]) (cd_claim_changed d))),
      (''edge_added'', PList (map triple_list (cd_edge_added d))),
      (''edge_removed'', PList (map triple_list (cd_edge_removed d))),
      (''citation_added'', strs (cd_citation_added d)), (''citation_removed'', strs (cd_citation_removed d)),
      (''annotation_added'', strs (cd_annotation_added d)), (''annotation_removed'', strs (cd_annotation_removed d))]"

section \<open>Comparing\<close>

definition top_level_fields :: "(string \<times> (cir_model \<Rightarrow> pyval)) list" where
  "top_level_fields =
     [(''title'', PStr \<circ> cir_title), (''abstract'', PStr \<circ> cir_abstract), (''license'', PStr \<circ> cir_license),
      (''version'', PStr \<circ> cir_version), (''previous_version'', opt_text \<circ> cir_previous_version)]"

definition claim_fields :: "(string \<times> (claim_model \<Rightarrow> pyval)) list" where
  "claim_fields =
     [(''statement'', PStr \<circ> cm_statement), (''claim_type'', PStr \<circ> cm_claim_type),
      (''evidence_type'', PStr \<circ> cm_evidence_type), (''replication_status'', opt_text \<circ> cm_replication_status),
      (''canonical'', opt_bool \<circ> cm_canonical)]"

text \<open>The values of these fields are strings, booleans and \<open>None\<close>, so unequal ones print differently.\<close>

definition changed_fields :: "(string \<times> ('m \<Rightarrow> pyval)) list \<Rightarrow> 'm \<Rightarrow> 'm \<Rightarrow> field_change list" where
  "changed_fields fs before after =
     map (\<lambda>(f, get). \<lparr>fc_field = f, fc_before = get before, fc_after = get after\<rparr>)
       (filter (\<lambda>(f, get). get before \<noteq> get after) fs)"

definition diff_claim :: "claim_model \<Rightarrow> claim_model \<Rightarrow> claim_change option" where
  "diff_claim before after =
     (let fs = changed_fields claim_fields before after
      in if fs = [] then None else Some \<lparr>cc_claim_id = cm_id before, cc_fields = fs\<rparr>)"

definition claims_by_id :: "claim_model list option \<Rightarrow> (string \<times> claim_model) list" where
  "claims_by_id cs = fold (\<lambda>c d. dict_set (cm_id c) c d) (listed cs) []"

definition edges_of :: "claim_model \<Rightarrow> edge_triple set" where
  "edges_of c =
     (\<lambda>t. (cm_id c, t, ''depends_on'')) ` set (listed (cm_depends_on c)) \<union>
     (\<lambda>t. (cm_id c, t, ''supports'')) ` set (listed (cm_supports c)) \<union>
     (\<lambda>t. (cm_id c, t, ''contradicts'')) ` set (listed (cm_contradicts c)) \<union>
     (\<lambda>t. (cm_id c, t, ''extends'')) ` set (listed (cm_extends c))"

definition cir_edges :: "cir_model \<Rightarrow> edge_triple set" where
  "cir_edges c = \<Union> (edges_of ` set (listed (cir_claims c)))"

definition changed_claims :: "cir_model \<Rightarrow> cir_model \<Rightarrow> claim_change list" where
  "changed_claims before after =
     (let bs = claims_by_id (cir_claims before); cs = claims_by_id (cir_claims after)
      in List.map_filter (\<lambda>cid. diff_claim (the (dict_get bs cid)) (the (dict_get cs cid)))
           (sorted_list_of_set (fst ` set bs \<inter> fst ` set cs)))"

definition diff_cir :: "cir_model \<Rightarrow> cir_model \<Rightarrow> cir_diff" where
  "diff_cir before after =
     (let bt = set (listed (cir_topics before)); ta = set (listed (cir_topics after));
          bi = fst ` set (claims_by_id (cir_claims before)); ai = fst ` set (claims_by_id (cir_claims after));
          be = cir_edges before; ae = cir_edges after;
          bc = set (listed (cir_citation_ids before)); ac = set (listed (cir_citation_ids after));
          bn = set (listed (cir_annotation_ids before)); an = set (listed (cir_annotation_ids after))
      in \<lparr>cd_field_changes = changed_fields top_level_fields before after,
          cd_topic_added = sorted_list_of_set (ta - bt), cd_topic_removed = sorted_list_of_set (bt - ta),
          cd_claim_added = sorted_list_of_set (ai - bi), cd_claim_removed = sorted_list_of_set (bi - ai),
          cd_claim_changed = changed_claims before after,
          cd_edge_added = sorted_list_of_set (ae - be), cd_edge_removed = sorted_list_of_set (be - ae),
          cd_citation_added = sorted_list_of_set (ac - bc), cd_citation_removed = sorted_list_of_set (bc - ac),
          cd_annotation_added = sorted_list_of_set (an - bn), cd_annotation_removed = sorted_list_of_set (bn - an)\<rparr>)"

section \<open>The other way round\<close>

definition swap_change :: "field_change \<Rightarrow> field_change" where
  "swap_change fc = \<lparr>fc_field = fc_field fc, fc_before = fc_after fc, fc_after = fc_before fc\<rparr>"

definition swap_diff :: "cir_diff \<Rightarrow> cir_diff" where
  "swap_diff d =
     \<lparr>cd_field_changes = map swap_change (cd_field_changes d),
      cd_topic_added = cd_topic_removed d, cd_topic_removed = cd_topic_added d,
      cd_claim_added = cd_claim_removed d, cd_claim_removed = cd_claim_added d,
      cd_claim_changed = map (\<lambda>cc. cc\<lparr>cc_fields := map swap_change (cc_fields cc)\<rparr>) (cd_claim_changed d),
      cd_edge_added = cd_edge_removed d, cd_edge_removed = cd_edge_added d,
      cd_citation_added = cd_citation_removed d, cd_citation_removed = cd_citation_added d,
      cd_annotation_added = cd_annotation_removed d, cd_annotation_removed = cd_annotation_added d\<rparr>"

lemma changed_fields_swap: "changed_fields fs b a = map swap_change (changed_fields fs a b)"
proof -
  have flip: "filter (\<lambda>(f, get). get b \<noteq> get a) fs = filter (\<lambda>(f, get). get a \<noteq> get b) fs"
    by (rule filter_cong) auto
  show ?thesis
    unfolding changed_fields_def flip map_map
    by (rule map_cong [OF refl]) (simp add: swap_change_def split: prod.splits)
qed

definition keyed_claims :: "(string \<times> claim_model) list \<Rightarrow> bool" where
  "keyed_claims d \<longleftrightarrow> (\<forall>cid c. dict_get d cid = Some c \<longrightarrow> cm_id c = cid)"

lemma keyed_claims_set: "keyed_claims d \<Longrightarrow> keyed_claims (dict_set (cm_id c) c d)"
  unfolding keyed_claims_def dict_get_set by (metis option.inject)

lemma keyed_claims_by_id: "keyed_claims (claims_by_id cs)"
proof -
  have step: "keyed_claims d \<Longrightarrow> keyed_claims (fold (\<lambda>c d. dict_set (cm_id c) c d) xs d)" for xs d
    by (induction xs arbitrary: d) (simp_all add: keyed_claims_set)
  have "keyed_claims []" by (simp add: keyed_claims_def)
  from step [OF this] show ?thesis unfolding claims_by_id_def .
qed

lemma claims_by_id_get: "dict_get (claims_by_id cs) cid = Some c \<Longrightarrow> cm_id c = cid"
  using keyed_claims_by_id [of cs] unfolding keyed_claims_def by blast

lemma diff_claim_swap:
  "cm_id a = cm_id b \<Longrightarrow>
   diff_claim b a = map_option (\<lambda>cc. cc\<lparr>cc_fields := map swap_change (cc_fields cc)\<rparr>) (diff_claim a b)"
  by (simp add: diff_claim_def Let_def changed_fields_swap [of claim_fields b a])

lemma map_filter_cong: "(\<And>x. x \<in> set xs \<Longrightarrow> f x = map_option h (g x)) \<Longrightarrow>
    List.map_filter f xs = map h (List.map_filter g xs)"
  by (induction xs) (auto simp: map_filter_simps split: option.splits)

lemma changed_claims_swap:
  "changed_claims b a = map (\<lambda>cc. cc\<lparr>cc_fields := map swap_change (cc_fields cc)\<rparr>) (changed_claims a b)"
proof -
  let ?bs = "claims_by_id (cir_claims b)" and ?as = "claims_by_id (cir_claims a)"
  have "diff_claim (the (dict_get ?bs cid)) (the (dict_get ?as cid)) =
      map_option (\<lambda>cc. cc\<lparr>cc_fields := map swap_change (cc_fields cc)\<rparr>)
        (diff_claim (the (dict_get ?as cid)) (the (dict_get ?bs cid)))"
    if "cid \<in> fst ` set ?as \<inter> fst ` set ?bs" for cid
  proof (rule diff_claim_swap)
    from that obtain c d where "dict_get ?as cid = Some c" "dict_get ?bs cid = Some d"
      by (metis Int_iff map_of_eq_None_iff not_None_eq)
    then show "cm_id (the (dict_get ?as cid)) = cm_id (the (dict_get ?bs cid))"
      using claims_by_id_get by auto
  qed
  then show ?thesis
    unfolding changed_claims_def Let_def Int_commute [of "fst ` set ?bs"]
    by (intro map_filter_cong) simp
qed

text \<open>
  Diffing the other way round gives the same report with additions and removals
  exchanged and every change reversed.
\<close>

lemma diff_cir_antisymmetric: "diff_cir after before = swap_diff (diff_cir before after)"
  by (simp add: diff_cir_def swap_diff_def Let_def changed_fields_swap [of top_level_fields after before]
      changed_claims_swap [of after before])

section \<open>An empty diff\<close>

lemma changed_fields_empty:
  "changed_fields fs a b = [] \<longleftrightarrow> (\<forall>(f, get) \<in> set fs. get a = get b)"
  by (auto simp: changed_fields_def filter_empty_conv)

definition same_claim :: "claim_model \<Rightarrow> claim_model \<Rightarrow> bool" where
  "same_claim a b \<longleftrightarrow> cm_statement a = cm_statement b \<and> cm_claim_type a = cm_claim_type b \<and>
     cm_evidence_type a = cm_evidence_type b \<and> cm_replication_status a = cm_replication_status b \<and>
     cm_canonical a = cm_canonical b"

lemma diff_claim_None: "diff_claim a b = None \<longleftrightarrow> same_claim a b"
  by (auto simp: diff_claim_def Let_def changed_fields_empty claim_fields_def same_claim_def)

lemma map_filter_empty: "List.map_filter f xs = [] \<longleftrightarrow> (\<forall>x \<in> set xs. f x = None)"
  by (induction xs) (auto simp: map_filter_simps split: option.splits)

lemma both_empty:
  fixes A B :: "'a :: linorder set"
  assumes "finite A" "finite B"
  shows "sorted_list_of_set (B - A) = [] \<and> sorted_list_of_set (A - B) = [] \<and> P \<longleftrightarrow> A = B \<and> P"
    and "sorted_list_of_set (B - A) = [] \<and> sorted_list_of_set (A - B) = [] \<longleftrightarrow> A = B"
  using assms by auto

lemma finite_cir_edges [simp]: "finite (cir_edges c)"
  by (simp add: cir_edges_def edges_of_def)

definition claims_agree :: "cir_model \<Rightarrow> cir_model \<Rightarrow> bool" where
  "claims_agree a b \<longleftrightarrow>
    (\<forall>cid c d. dict_get (claims_by_id (cir_claims a)) cid = Some c \<longrightarrow>
       dict_get (claims_by_id (cir_claims b)) cid = Some d \<longrightarrow> same_claim c d)"

lemma changed_claims_empty: "changed_claims a b = [] \<longleftrightarrow> claims_agree a b"
proof -
  have "(\<forall>cid \<in> fst ` set as \<inter> fst ` set bs. same_claim (the (dict_get as cid)) (the (dict_get bs cid))) \<longleftrightarrow>
      (\<forall>cid c d. dict_get as cid = Some c \<longrightarrow> dict_get bs cid = Some d \<longrightarrow> same_claim c d)" for as bs
    unfolding dom_map_of_conv_image_fst [symmetric] by (metis (no_types, opaque_lifting) IntI Int_iff domD domI option.sel)
  then show ?thesis by (simp add: claims_agree_def changed_claims_def Let_def map_filter_empty diff_claim_None)
qed

text \<open>
  A diff is empty exactly when the two documents agree on the tracked fields, on the sets
  of topics, claim ids, edges, citations and annotations, and on the tracked fields of every
  claim.
\<close>

lemma empty_diff_iff:
  "is_empty_diff (diff_cir a b) \<longleftrightarrow>
    cir_title a = cir_title b \<and> cir_abstract a = cir_abstract b \<and> cir_license a = cir_license b \<and>
    cir_version a = cir_version b \<and> cir_previous_version a = cir_previous_version b \<and>
    set (listed (cir_topics a)) = set (listed (cir_topics b)) \<and>
    dom (dict_get (claims_by_id (cir_claims a))) = dom (dict_get (claims_by_id (cir_claims b))) \<and>
    claims_agree a b \<and> cir_edges a = cir_edges b \<and>
    set (listed (cir_citation_ids a)) = set (listed (cir_citation_ids b)) \<and>
    set (listed (cir_annotation_ids a)) = set (listed (cir_annotation_ids b))"
proof -
  have tops: "changed_fields top_level_fields a b = [] \<longleftrightarrow>
      cir_title a = cir_title b \<and> cir_abstract a = cir_abstract b \<and> cir_license a = cir_license b \<and>
      cir_version a = cir_version b \<and> cir_previous_version a = cir_previous_version b"
    by (auto simp: changed_fields_empty top_level_fields_def)
  show ?thesis
    unfolding is_empty_diff_def diff_cir_def Let_def dom_map_of_conv_image_fst
    by (simp only: cir_diff.simps tops changed_claims_empty both_empty finite_set finite_imageI finite_cir_edges conj_assoc)
qed

end
