(* ===== verification/Revision_Diff.thy ===== *)
theory Revision_Diff
  imports Cir_Model
begin

text \<open>
  The semantic diff between two versions of a paper, \<open>server/papers/diff.py\<close>: matching
  the claims of two CIRs by local id and then by statement, word-level hunks, and the
  report.

  The hunks come from the standard library's \<open>SequenceMatcher\<close> without junk, which
  is modelled here: the longest matching block, the earliest of several, then the same to
  its left and right.
\<close>

section \<open>Matching claims\<close>

definition claim_local_id :: "string \<Rightarrow> string option" where
  "claim_local_id cid = (if cid = [] \<or> CHR '':'' \<notin> set cid then None else Some (split_once (CHR '':'') cid ! 1))"

definition bucket_add :: "string \<Rightarrow> 'a \<Rightarrow> (string \<times> 'a list) list \<Rightarrow> (string \<times> 'a list) list" where
  "bucket_add k x d = dict_set k ((case dict_get d k of None \<Rightarrow> [] | Some xs \<Rightarrow> xs) @ [x]) d"

definition bucket :: "(string \<times> 'a list) list \<Rightarrow> string \<Rightarrow> 'a list" where
  "bucket d k = (case dict_get d k of None \<Rightarrow> [] | Some xs \<Rightarrow> xs)"

definition index_by_local :: "claim_model list \<Rightarrow> (string \<times> claim_model list) list" where
  "index_by_local claims =
     fold (\<lambda>c d. case claim_local_id (cm_id c) of None \<Rightarrow> d | Some k \<Rightarrow> bucket_add k c d) claims []"

text \<open>The first pass, over the buckets of the older version in their order.\<close>

definition match_by_local :: "claim_model list \<Rightarrow> claim_model list \<Rightarrow> (claim_model \<times> claim_model) list" where
  "match_by_local prev cur =
     concat (map (\<lambda>(k, ps). case (ps, bucket (index_by_local cur) k) of
        ([p], [c]) \<Rightarrow> [(p, c)] | _ \<Rightarrow> []) (index_by_local prev))"

text \<open>The second pass takes a claim out of its statement's bucket when it is alone there.\<close>

fun match_by_statement ::
  "(string \<times> claim_model list) list \<Rightarrow> claim_model list \<Rightarrow> (claim_model \<times> claim_model) list" where
  "match_by_statement d [] = []"
| "match_by_statement d (c # cs) =
     (case bucket d (cm_statement c) of
        [p] \<Rightarrow> (p, c) # match_by_statement (dict_set (cm_statement c) [] d) cs
      | _ \<Rightarrow> match_by_statement d cs)"

definition ids_out :: "string list \<Rightarrow> claim_model list \<Rightarrow> claim_model list" where
  "ids_out ids cs = filter (\<lambda>c. cm_id c \<notin> set ids) cs"

definition match_claims ::
  "claim_model list \<Rightarrow> claim_model list
    \<Rightarrow> (claim_model \<times> claim_model) list \<times> claim_model list \<times> claim_model list" where
  "match_claims prev cur =
     (let first = match_by_local prev cur;
          prev_ids = map (cm_id \<circ> fst) first; curr_ids = map (cm_id \<circ> snd) first;
          by_stmt = fold (\<lambda>c. bucket_add (cm_statement c) c) (ids_out prev_ids prev) [];
          second = match_by_statement by_stmt (ids_out curr_ids cur);
          matched = first @ second
      in (matched, ids_out (map (cm_id \<circ> fst) matched) prev, ids_out (map (cm_id \<circ> snd) matched) cur))"

section \<open>Word hunks\<close>

text \<open>\<open>re.findall(r"\S+\s*|\s+", s)\<close>.\<close>

function tokenise :: "string \<Rightarrow> string list" where
  "tokenise s =
     (if s = [] then []
      else if is_space (hd s) then takeWhile is_space s # tokenise (dropWhile is_space s)
      else
        let r = dropWhile (\<lambda>c. \<not> is_space c) s
        in (takeWhile (\<lambda>c. \<not> is_space c) s @ takeWhile is_space r) # tokenise (dropWhile is_space r))"
  by auto
termination
proof (relation "measure length", goal_cases)
  case 1
  then show ?case by simp
next
  case (2 s)
  then show ?case using length_dropWhile_le [of is_space "tl s"] by (cases s) auto
next
  case (3 s r)
  then have "length r < length s"
    using length_dropWhile_le [of "\<lambda>c. \<not> is_space c" "tl s"] by (cases s) auto
  then show ?case using length_dropWhile_le [of is_space r] by simp
qed

declare tokenise.simps [simp del]

text \<open>The run of equal elements that ends at the end of two lists.\<close>

fun run_length :: "'a list \<Rightarrow> 'a list \<Rightarrow> nat" where
  "run_length (x # xs) (y # ys) = (if x = y then Suc (run_length xs ys) else 0)"
| "run_length _ _ = 0"

definition run_ending_at :: "'a list \<Rightarrow> 'a list \<Rightarrow> nat \<Rightarrow> nat \<Rightarrow> nat" where
  "run_ending_at xs ys i j = run_length (rev (take (Suc i) xs)) (rev (take (Suc j) ys))"

text \<open>
  \<open>find_longest_match\<close>: the start of the block in both lists and its size. A longer
  run replaces the best one so far; positions are tried from left to right.
\<close>

definition longest_match :: "'a list \<Rightarrow> 'a list \<Rightarrow> nat \<times> nat \<times> nat" where
  "longest_match xs ys =
     fold (\<lambda>(i, j) (bi, bj, bk).
        let k = run_ending_at xs ys i j
        in if bk < k then (Suc i - k, Suc j - k, k) else (bi, bj, bk))
       (List.product [0..<length xs] [0..<length ys]) (0, 0, 0)"

lemma run_length_le: "run_length us vs \<le> length us \<and> run_length us vs \<le> length vs"
  by (induction us vs rule: run_length.induct) auto

lemma run_length_take: "take (run_length us vs) us = take (run_length us vs) vs"
  by (induction us vs rule: run_length.induct) auto

definition block_at :: "'a list \<Rightarrow> 'a list \<Rightarrow> nat \<times> nat \<times> nat \<Rightarrow> bool" where
  "block_at xs ys b = (case b of (i, j, k) \<Rightarrow>
     i + k \<le> length xs \<and> j + k \<le> length ys \<and> take k (drop i xs) = take k (drop j ys))"

lemma run_block:
  assumes "i < length xs" "j < length ys"
  shows "block_at xs ys (Suc i - run_ending_at xs ys i j, Suc j - run_ending_at xs ys i j, run_ending_at xs ys i j)"
proof -
  let ?k = "run_ending_at xs ys i j"
  have k: "?k \<le> Suc i" "?k \<le> Suc j"
    using run_length_le [of "rev (take (Suc i) xs)" "rev (take (Suc j) ys)"] assms
    by (auto simp: run_ending_at_def)
  have tail: "take k (drop (Suc m - k) zs) = rev (take k (rev (take (Suc m) zs)))"
    if "k \<le> Suc m" "m < length zs" for k m and zs :: "'a list"
    using that by (simp add: take_rev drop_take)
  have "take ?k (rev (take (Suc i) xs)) = take ?k (rev (take (Suc j) ys))"
    unfolding run_ending_at_def by (rule run_length_take)
  with k assms show ?thesis by (simp add: block_at_def tail)
qed

lemma longest_match_block: "block_at xs ys (longest_match xs ys)"
proof -
  have "block_at xs ys (fold (\<lambda>(i, j) (bi, bj, bk).
        let k = run_ending_at xs ys i j
        in if bk < k then (Suc i - k, Suc j - k, k) else (bi, bj, bk)) ps b)"
    if "set ps \<subseteq> {0..<length xs} \<times> {0..<length ys}" "block_at xs ys b" for ps b
    using that
  proof (induction ps arbitrary: b)
    case Nil
    then show ?case by simp
  next
    case (Cons p ps)
    obtain i j where p: "p = (i, j)" by (cases p)
    obtain bi bj bk where b: "b = (bi, bj, bk)" by (cases b)
    from Cons.prems p have "i < length xs" "j < length ys" by auto
    with Cons p b run_block [of i xs j ys] show ?case by (auto simp: Let_def)
  qed
  then show ?thesis by (auto simp: longest_match_def block_at_def)
qed

text \<open>
  The matching blocks and what lies between them. A piece is a run of equal tokens or a
  stretch of the older text replaced by one of the newer.
\<close>

datatype 'a piece = Same "'a list" | Change "'a list" "'a list"

function matching_pieces :: "'a list \<Rightarrow> 'a list \<Rightarrow> 'a piece list" where
  "matching_pieces xs ys =
     (case longest_match xs ys of (i, j, k) \<Rightarrow>
        if k = 0 then [Change xs ys]
        else matching_pieces (take i xs) (take j ys) @ [Same (take k (drop i xs))] @
             matching_pieces (drop (i + k) xs) (drop (j + k) ys))"
  by auto
termination
proof (relation "measure (\<lambda>(xs, ys). length xs + length ys)", goal_cases)
  case 1
  then show ?case by simp
next
  case (2 xs ys i j k)
  then show ?case using longest_match_block [of xs ys] by (auto simp: block_at_def)
next
  case (3 xs ys i j k)
  then show ?case using longest_match_block [of xs ys] by (auto simp: block_at_def)
qed

declare matching_pieces.simps [simp del]

text \<open>\<open>get_opcodes\<close>: empty stretches give nothing, adjacent equal runs are one.\<close>

fun join_pieces :: "'a piece list \<Rightarrow> 'a piece list" where
  "join_pieces (Change [] [] # ps) = join_pieces ps"
| "join_pieces (Same xs # ps) =
     (case join_pieces ps of Same ys # qs \<Rightarrow> Same (xs @ ys) # qs | qs \<Rightarrow> Same xs # qs)"
| "join_pieces (p # ps) = p # join_pieces ps"
| "join_pieces [] = []"

fun piece_hunks :: "string piece \<Rightarrow> (string \<times> string) list" where
  "piece_hunks (Same xs) = (if concat xs = [] then [] else [(''equal'', concat xs)])"
| "piece_hunks (Change xs ys) =
     (if concat xs = [] then [] else [(''removed'', concat xs)]) @
     (if concat ys = [] then [] else [(''added'', concat ys)])"

definition word_diff_hunks :: "string \<Rightarrow> string \<Rightarrow> (string \<times> string) list" where
  "word_diff_hunks before after =
     (if before = after then [(''equal'', before)]
      else concat (map piece_hunks (join_pieces (matching_pieces (tokenise before) (tokenise after)))))"

definition hunks_dict :: "(string \<times> string) list \<Rightarrow> pyval" where
  "hunks_dict hs =
     PDict [(''hunks'', PList (map (\<lambda>(k, t). PDict [(''kind'', PStr k), (''text'', PStr t)]) hs))]"

section \<open>Reading the hunks back\<close>

definition text_of :: "string list \<Rightarrow> (string \<times> string) list \<Rightarrow> string" where
  "text_of kinds hs = concat (map snd (filter (\<lambda>h. fst h \<in> set kinds) hs))"

fun old_side :: "'a piece \<Rightarrow> 'a list" where
  "old_side (Same xs) = xs" | "old_side (Change xs ys) = xs"

fun new_side :: "'a piece \<Rightarrow> 'a list" where
  "new_side (Same xs) = xs" | "new_side (Change xs ys) = ys"

lemma tokenise_concat: "concat (tokenise s) = s"
proof (induction s rule: tokenise.induct)
  case (1 s)
  show ?case
  proof (cases "s = []")
    case True
    then show ?thesis by (simp add: tokenise.simps)
  next
    case ne: False
    show ?thesis
    proof (cases "is_space (hd s)")
      case True
      with ne "1.IH"(1) show ?thesis by (subst tokenise.simps) simp
    next
      case False
      with ne "1.IH"(2) [OF ne False refl] show ?thesis by (subst tokenise.simps) (simp add: Let_def)
    qed
  qed
qed

lemma matching_pieces_sides:
  "concat (map old_side (matching_pieces xs ys)) = xs \<and> concat (map new_side (matching_pieces xs ys)) = ys"
proof (induction xs ys rule: matching_pieces.induct)
  case (1 xs ys)
  obtain i j k where m: "longest_match xs ys = (i, j, k)" by (cases "longest_match xs ys")
  show ?case
  proof (cases "k = 0")
    case True
    with m show ?thesis by (simp add: matching_pieces.simps [of xs ys])
  next
    case False
    have b: "i + k \<le> length xs" "j + k \<le> length ys" "take k (drop i xs) = take k (drop j ys)"
      using longest_match_block [of xs ys] m by (auto simp: block_at_def)
    have split: "take i zs @ take k (drop i zs) @ drop (i + k) zs = zs" for i and zs :: "'a list"
      by (metis append_take_drop_id drop_drop add.commute)
    show ?thesis
      using m False "1.IH" [OF m [symmetric] refl False] b(3) split [of i xs] split [of j ys]
      by (simp add: matching_pieces.simps [of xs ys])
  qed
qed

lemma join_pieces_sides:
  "concat (map old_side (join_pieces ps)) = concat (map old_side ps)"
  "concat (map new_side (join_pieces ps)) = concat (map new_side ps)"
  by (induction ps rule: join_pieces.induct) (auto split: list.splits piece.splits)

lemma piece_hunks_sides:
  "text_of [''equal'', ''removed''] (piece_hunks p) = concat (old_side p)"
  "text_of [''equal'', ''added''] (piece_hunks p) = concat (new_side p)"
  by (cases p; simp add: text_of_def)+

lemma text_of_concat: "text_of ks (concat hss) = concat (map (text_of ks) hss)"
  by (induction hss) (auto simp: text_of_def)

text \<open>
  C39: The word hunks of two texts give both texts back: the equal and removed hunks spell the
  older one, the equal and added hunks the newer one.
\<close>

theorem hunks_restore_texts:
  "text_of [''equal'', ''removed''] (word_diff_hunks before after) = before \<and>
   text_of [''equal'', ''added''] (word_diff_hunks before after) = after"
proof (cases "before = after")
  case True
  then show ?thesis by (simp add: word_diff_hunks_def text_of_def)
next
  case False
  have c: "concat (map (\<lambda>p. concat (f p)) ps) = concat (concat (map f ps))" for f and ps :: "string piece list"
    by (induction ps) auto
  show ?thesis
    using False matching_pieces_sides [of "tokenise before" "tokenise after"]
    by (simp add: word_diff_hunks_def text_of_concat comp_def piece_hunks_sides c join_pieces_sides tokenise_concat)
qed

section \<open>The report\<close>

text \<open>
  A tracked field after normalisation: edges sorted, figures sorted by path, a source
  location as the dictionary it dumps to.
\<close>

definition sorted_edges :: "string list option \<Rightarrow> pyval" where
  "sorted_edges v = (case v of None \<Rightarrow> PNone | Some xs \<Rightarrow> PList (map PStr (sort xs)))"

definition sorted_figures :: "figure_model list option \<Rightarrow> pyval" where
  "sorted_figures v = (case v of
      None \<Rightarrow> PNone
    | Some fs \<Rightarrow> PList (map (\<lambda>f. PList [PStr (fg_path f), opt_text (fg_caption f)]) (sort_key fg_path fs)))"

definition tracked_fields :: "(string \<times> (claim_model \<Rightarrow> pyval)) list" where
  "tracked_fields =
     [(''statement'', \<lambda>c. PStr (cm_statement c)), (''proof'', \<lambda>c. opt_text (cm_proof c)),
      (''claim_type'', \<lambda>c. PStr (cm_claim_type c)), (''evidence_type'', \<lambda>c. PStr (cm_evidence_type c)),
      (''figures'', \<lambda>c. sorted_figures (cm_figures c)), (''depends_on'', \<lambda>c. sorted_edges (cm_depends_on c)),
      (''supports'', \<lambda>c. sorted_edges (cm_supports c)), (''contradicts'', \<lambda>c. sorted_edges (cm_contradicts c)),
      (''extends'', \<lambda>c. sorted_edges (cm_extends c)), (''source_location'', cm_source_location)]"

definition local_or_empty :: "claim_model \<Rightarrow> pyval" where
  "local_or_empty c = PStr (text_or_empty (claim_local_id (cm_id c)))"

definition fields_changed :: "claim_model \<Rightarrow> claim_model \<Rightarrow> string list" where
  "fields_changed prev cur = map fst (filter (\<lambda>(f, get). \<not> py_eq (get prev) (get cur)) tracked_fields)"

definition modified_claim_payload :: "claim_model \<Rightarrow> claim_model \<Rightarrow> pydict option" where
  "modified_claim_payload prev cur =
     (let changed = fields_changed prev cur
      in if changed = [] then None
         else Some
           ([(''from_claim_id'', PStr (cm_id prev)), (''to_claim_id'', PStr (cm_id cur)),
             (''local_id'', local_or_empty cur), (''fields_changed'', PList (map PStr changed))] @
            (if ''statement'' \<in> set changed
             then [(''statement_diff'', hunks_dict (word_diff_hunks (cm_statement prev) (cm_statement cur)))] else []) @
            (if ''proof'' \<in> set changed
             then [(''proof_diff'', hunks_dict (word_diff_hunks (text_or_empty (cm_proof prev)) (text_or_empty (cm_proof cur))))]
             else [])))"

definition version_ref :: "pydict \<Rightarrow> pyval" where
  "version_ref paper =
     PDict [(''paper_id'', PStr (py_str (py_or (dget paper ''id'') (py_or (dget paper ''paper_id'') (PStr []))))),
            (''version'', PStr (py_str (py_or (dget paper ''version'') (PStr [])))),
            (''id_slug'', dget paper ''id_slug'')]"

definition compute_revision_diff :: "pydict \<Rightarrow> cir_model \<Rightarrow> pydict \<Rightarrow> cir_model \<Rightarrow> string \<Rightarrow> pydict" where
  "compute_revision_diff prev_paper prev_cir cur_paper cur_cir now =
     (let abstract_changed = (cir_abstract prev_cir \<noteq> cir_abstract cur_cir);
          prev_topics = set (listed (cir_topics prev_cir)); cur_topics = set (listed (cir_topics cur_cir));
          topics_added = sorted_list_of_set (cur_topics - prev_topics);
          topics_removed = sorted_list_of_set (prev_topics - cur_topics);
          (matched, gone, fresh) = match_claims (listed (cir_claims prev_cir)) (listed (cir_claims cur_cir));
          payloads = map (\<lambda>(p, c). modified_claim_payload p c) matched;
          modified = map PDict (List.map_filter id payloads)
      in [(''from'', version_ref prev_paper), (''to'', version_ref cur_paper),
          (''abstract_changed'', PBool abstract_changed),
          (''abstract_diff'', if abstract_changed
             then hunks_dict (word_diff_hunks (cir_abstract prev_cir) (cir_abstract cur_cir)) else PNone),
          (''topics_changed'', PBool (topics_added \<noteq> [] \<or> topics_removed \<noteq> [])),
          (''topics_added'', PList (map PStr topics_added)), (''topics_removed'', PList (map PStr topics_removed)),
          (''claims'', PDict
            [(''added'', PList (map (\<lambda>c. PDict [(''claim_id'', PStr (cm_id c)), (''local_id'', local_or_empty c),
                (''statement'', PStr (cm_statement c)), (''claim_type'', PStr (cm_claim_type c))]) fresh)),
             (''removed'', PList (map (\<lambda>c. PDict [(''claim_id'', PStr (cm_id c)), (''local_id'', local_or_empty c),
                (''statement'', PStr (cm_statement c))]) gone)),
             (''modified'', PList modified),
             (''unchanged_count'', PInt (int (length (filter (\<lambda>p. p = None) payloads))))]),
          (''computed_at'', PStr now)])"

section \<open>Matching is a partial matching\<close>

lemma bucket_add_get: "bucket (bucket_add k x d) k' = (if k' = k then bucket d k @ [x] else bucket d k')"
  by (simp add: bucket_def bucket_add_def)

lemma bucket_add_wf: "wf_dict d \<Longrightarrow> wf_dict (bucket_add k x d)"
  by (simp add: bucket_add_def)

lemma index_bucket: "bucket (index_by_local cs) k = filter (\<lambda>c. claim_local_id (cm_id c) = Some k) cs"
proof -
  have "bucket (fold (\<lambda>c d. case claim_local_id (cm_id c) of None \<Rightarrow> d | Some k \<Rightarrow> bucket_add k c d) cs d) k =
      bucket d k @ filter (\<lambda>c. claim_local_id (cm_id c) = Some k) cs" for d
    by (induction cs arbitrary: d) (auto simp: bucket_add_get split: option.splits)
  then show ?thesis by (simp add: index_by_local_def) (simp add: bucket_def)
qed

lemma index_wf: "wf_dict (index_by_local cs)"
proof -
  have "wf_dict d \<Longrightarrow> wf_dict (fold (\<lambda>c d. case claim_local_id (cm_id c) of None \<Rightarrow> d | Some k \<Rightarrow> bucket_add k c d) cs d)" for d
    by (induction cs arbitrary: d) (auto simp: bucket_add_wf split: option.splits)
  then show ?thesis by (simp add: index_by_local_def)
qed

text \<open>The pair two one-element lists make.\<close>

definition single_pair :: "'a list \<Rightarrow> 'b list \<Rightarrow> ('a \<times> 'b) list" where
  "single_pair xs ys = (case (xs, ys) of ([x], [y]) \<Rightarrow> [(x, y)] | _ \<Rightarrow> [])"

definition with_local :: "string \<Rightarrow> claim_model list \<Rightarrow> claim_model list" where
  "with_local k cs = filter (\<lambda>c. claim_local_id (cm_id c) = Some k) cs"

lemma match_by_local_keys:
  "match_by_local prev cur =
    concat (map (\<lambda>k. single_pair (with_local k prev) (with_local k cur)) (map fst (index_by_local prev)))"
proof -
  have "(k, ps) \<in> set (index_by_local prev) \<Longrightarrow> ps = with_local k prev" for k ps
    using map_of_is_SomeI [OF index_wf, of k ps prev] index_bucket [of prev k] by (simp add: bucket_def with_local_def)
  then have eq: "map (\<lambda>(k, ps). case (ps, bucket (index_by_local cur) k) of ([p], [c]) \<Rightarrow> [(p, c)] | _ \<Rightarrow> []) (index_by_local prev) =
      map (\<lambda>(k, ps). single_pair (with_local k prev) (with_local k cur)) (index_by_local prev)"
    by (intro map_cong refl) (auto simp: single_pair_def index_bucket with_local_def)
  show ?thesis unfolding match_by_local_def eq by (simp add: comp_def case_prod_unfold)
qed

lemma mset_concat_keyed:
  assumes "distinct ks" "\<And>k. mset (g k) \<subseteq># M" "\<And>k x. x \<in> set (g k) \<Longrightarrow> key x = Some k"
  shows "mset (concat (map g ks)) \<subseteq># M"
proof (rule mset_subset_eqI)
  fix x
  have zero: "count (mset (g k)) x = 0" if "key x \<noteq> Some k" for k
    using assms(3) that by (metis count_mset_0_iff)
  have "count (mset (concat (map g ks))) x \<le> count M x"
    using assms(1)
  proof (induction ks)
    case Nil
    then show ?case by simp
  next
    case (Cons k ks)
    show ?case
    proof (cases "key x = Some k")
      case True
      have "count (mset (concat (map g ks))) x = 0"
        using Cons.prems True assms(3) by (force simp: count_mset_0_iff)
      moreover have "count (mset (g k)) x \<le> count M x" by (rule mset_subset_eq_count [OF assms(2)])
      moreover have "count (mset (concat (map g (k # ks)))) x =
          count (mset (g k)) x + count (mset (concat (map g ks))) x" by simp
      ultimately show ?thesis by linarith
    next
      case False
      have "count (mset (concat (map g (k # ks)))) x =
          count (mset (g k)) x + count (mset (concat (map g ks))) x" by simp
      with zero [OF False] Cons.IH Cons.prems show ?thesis by (metis add_0 distinct.simps(2))
    qed
  qed
  then show "count (mset (concat (map g ks))) x \<le> count M x" .
qed

lemma single_pair_subset:
  "mset (map fst (single_pair xs ys)) \<subseteq># mset xs" "mset (map snd (single_pair xs ys)) \<subseteq># mset ys"
  by (auto simp: single_pair_def split: list.splits)

lemma single_pair_set: "(x, y) \<in> set (single_pair xs ys) \<Longrightarrow> x \<in> set xs \<and> y \<in> set ys"
  by (auto simp: single_pair_def split: list.splits)

lemma match_by_local_subset:
  "mset (map fst (match_by_local prev cur)) \<subseteq># mset prev"
  "mset (map snd (match_by_local prev cur)) \<subseteq># mset cur"
proof -
  let ?g = "\<lambda>k. single_pair (with_local k prev) (with_local k cur)"
  let ?ks = "map fst (index_by_local prev)"
  have f: "mset (map fst (?g k)) \<subseteq># mset prev" "mset (map snd (?g k)) \<subseteq># mset cur" for k
    using single_pair_subset [of "with_local k prev" "with_local k cur"]
    by (auto simp: with_local_def intro: subset_mset.order_trans multiset_filter_subset)
  have key: "x \<in> set (map fst (?g k)) \<or> x \<in> set (map snd (?g k)) \<Longrightarrow> claim_local_id (cm_id x) = Some k" for x k
    by (auto simp: with_local_def dest!: single_pair_set)
  have split: "map h (concat (map ?g ks)) = concat (map (\<lambda>k. map h (?g k)) ks)" for h :: "claim_model \<times> claim_model \<Rightarrow> claim_model" and ks
    by (simp add: map_concat comp_def)
  show "mset (map fst (match_by_local prev cur)) \<subseteq># mset prev"
    unfolding match_by_local_keys split
    by (rule mset_concat_keyed [where key = "\<lambda>c. claim_local_id (cm_id c)"]) (use f key index_wf in auto)
  show "mset (map snd (match_by_local prev cur)) \<subseteq># mset cur"
    unfolding match_by_local_keys split
    by (rule mset_concat_keyed [where key = "\<lambda>c. claim_local_id (cm_id c)"]) (use f key index_wf in auto)
qed

definition bucketed :: "(string \<times> 'a list) list \<Rightarrow> 'a multiset" where
  "bucketed d = (\<Sum>(k, xs) \<leftarrow> d. mset xs)"

lemma bucketed_add: "bucketed (bucket_add k x d) = add_mset x (bucketed d)"
proof -
  have "bucketed (dict_set k (xs @ [x]) d) = add_mset x (bucketed d)" if "xs = bucket d k" for xs
    using that unfolding bucketed_def dict_set_def bucket_def by (induction d) auto
  then show ?thesis by (simp add: bucket_add_def bucket_def)
qed

lemma bucketed_take:
  "bucket d k = [x] \<Longrightarrow> bucketed d = add_mset x (bucketed (dict_set k [] d))"
  unfolding bucketed_def dict_set_def bucket_def by (induction d) (auto split: if_splits)

lemma bucketed_build: "bucketed (fold (\<lambda>c. bucket_add (f c) c) cs d) = mset cs + bucketed d"
  by (induction cs arbitrary: d) (auto simp: bucketed_add)

lemma match_by_statement_subset:
  "mset (map fst (match_by_statement d cs)) \<subseteq># bucketed d \<and> mset (map snd (match_by_statement d cs)) \<subseteq># mset cs"
proof (induction cs arbitrary: d)
  case Nil
  then show ?case by simp
next
  case (Cons c cs)
  show ?case
  proof (cases "\<exists>p. bucket d (cm_statement c) = [p]")
    case True
    then obtain p where p: "bucket d (cm_statement c) = [p]" by blast
    with Cons.IH [of "dict_set (cm_statement c) [] d"] bucketed_take [OF p] show ?thesis by simp
  next
    case False
    then have "match_by_statement d (c # cs) = match_by_statement d cs"
      by (auto split: list.splits)
    with Cons.IH [of d] show ?thesis by (auto intro: subset_mset.order_trans)
  qed
qed

lemma ids_out_complement:
  assumes "distinct (map cm_id cs)" "mset xs \<subseteq># mset cs"
  shows "mset cs = mset xs + mset (ids_out (map cm_id xs) cs)"
proof -
  have d: "distinct cs" using assms(1) by (simp add: distinct_map)
  have sub: "set xs \<subseteq> set cs" using assms(2) by (metis mset_subset_eqD set_mset_mset subsetI)
  have "distinct xs"
    unfolding distinct_count_atmost_1
  proof
    fix a
    have "count (mset xs) a \<le> count (mset cs) a" using assms(2) by (rule mset_subset_eq_count)
    moreover have "count (mset cs) a \<le> 1" using d by (simp add: distinct_count_atmost_1)
    ultimately have "count (mset xs) a \<le> 1" by linarith
    moreover have "count (mset xs) a = 0 \<longleftrightarrow> a \<notin> set xs" by (rule count_mset_0_iff)
    ultimately show "count (mset xs) a = (if a \<in> set xs then 1 else 0)" by presburger
  qed
  have inj: "inj_on cm_id (set cs)" using assms(1) by (simp add: distinct_map)
  have "cm_id c \<in> set (map cm_id xs) \<longleftrightarrow> c \<in> set xs" if "c \<in> set cs" for c
    using inj sub that by (auto simp: inj_on_def)
  then have "ids_out (map cm_id xs) cs = filter (\<lambda>c. c \<notin> set xs) cs"
    unfolding ids_out_def by (intro filter_cong refl) auto
  moreover have "mset xs = mset (filter (\<lambda>c. c \<in> set xs) cs)"
    using \<open>distinct xs\<close> d sub by (intro set_eq_iff_mset_eq_distinct [THEN iffD1]) auto
  moreover have "mset cs = mset (filter P cs) + mset (filter (\<lambda>c. \<not> P c) cs)" for P
    by (induction cs) auto
  ultimately show ?thesis by metis
qed

text \<open>
  When the claim ids within each version are distinct, the matching is one: every claim
  of the older version is matched exactly once or reported removed, every claim of the newer
  version is matched exactly once or reported added.
\<close>

lemma matching_partitions:
  assumes "match_claims prev cur = (matched, gone, fresh)"
    and "distinct (map cm_id prev)" "distinct (map cm_id cur)"
  shows "mset prev = mset (map fst matched) + mset gone \<and> mset cur = mset (map snd matched) + mset fresh"
proof -
  define first where "first = match_by_local prev cur"
  define left where "left = ids_out (map cm_id (map fst first)) prev"
  define right where "right = ids_out (map cm_id (map snd first)) cur"
  define second where "second = match_by_statement (fold (\<lambda>c. bucket_add (cm_statement c) c) left []) right"
  have m: "matched = first @ second" "gone = ids_out (map cm_id (map fst matched)) prev"
    "fresh = ids_out (map cm_id (map snd matched)) cur"
    using assms(1) by (auto simp: match_claims_def Let_def first_def left_def right_def second_def)
  have sec: "mset (map fst second) \<subseteq># mset left" "mset (map snd second) \<subseteq># mset right"
    using match_by_statement_subset [of "fold (\<lambda>c. bucket_add (cm_statement c) c) left []" right]
    by (simp_all add: second_def bucketed_build) (simp add: bucketed_def)
  have "mset prev = mset (map fst first) + mset left"
    unfolding left_def first_def by (intro ids_out_complement assms match_by_local_subset)
  then have "mset (map fst matched) \<subseteq># mset prev" using sec m(1) by simp
  moreover have "mset cur = mset (map snd first) + mset right"
    unfolding right_def first_def by (intro ids_out_complement assms match_by_local_subset)
  then have "mset (map snd matched) \<subseteq># mset cur" using sec m(1) by simp
  ultimately show ?thesis unfolding m(2,3) using assms(2,3) by (blast intro: ids_out_complement)
qed

definition plain_claim :: "string \<Rightarrow> string \<Rightarrow> claim_model" where
  "plain_claim i st = \<lparr>cm_id = i, cm_statement = st, cm_claim_type = ''empirical'', cm_evidence_type = ''proof'',
     cm_proof = None, cm_figures = None, cm_depends_on = None, cm_supports = None, cm_contradicts = None,
     cm_extends = None, cm_source_location = PNone, cm_replication_status = None, cm_canonical = None\<rparr>"

lemma matching_partitions_witness:
  "\<exists>matched gone fresh.
    match_claims [plain_claim ''a:x'' ''S'', plain_claim ''a:y'' ''T''] [plain_claim ''b:x'' ''S2'', plain_claim ''b:z'' ''T''] =
      (matched, gone, fresh) \<and>
    mset [plain_claim ''a:x'' ''S'', plain_claim ''a:y'' ''T''] = mset (map fst matched) + mset gone"
proof -
  have d: "distinct (map cm_id [plain_claim ''a:x'' ''S'', plain_claim ''a:y'' ''T''])"
    "distinct (map cm_id [plain_claim ''b:x'' ''S2'', plain_claim ''b:z'' ''T''])"
    by (simp_all add: plain_claim_def)
  obtain matched gone fresh where
    m: "match_claims [plain_claim ''a:x'' ''S'', plain_claim ''a:y'' ''T''] [plain_claim ''b:x'' ''S2'', plain_claim ''b:z'' ''T''] =
      (matched, gone, fresh)"
    by (cases "match_claims [plain_claim ''a:x'' ''S'', plain_claim ''a:y'' ''T''] [plain_claim ''b:x'' ''S2'', plain_claim ''b:z'' ''T'']")
  from matching_partitions [OF m d] m show ?thesis by blast
qed

text \<open>
  Claim ids are keyed by the paper's slug, which has a colon of its own, so the part of the
  slug after it is taken for the start of the local id.
\<close>

lemma slug_local_id: "claim_local_id ''rrxiv:2605.00001:prop:I.1'' = Some ''2605.00001:prop:I.1''"
  by code_simp

end
