(* ===== verification/Py_Filter.thy ===== *)
theory Py_Filter
  imports Py_Order
begin

text \<open>
  Comprehensions and searches whose condition may raise, indexing a record, and sorting by a
  single value: shared by the read endpoints.
\<close>

text \<open>\<open>any(f(x) for x in xs)\<close> and \<open>[x for x in xs if f(x)]\<close>.\<close>

fun rany :: "('a \<Rightarrow> 'e + bool) \<Rightarrow> 'a list \<Rightarrow> 'e + bool" where
  "rany f [] = Inr False"
| "rany f (x # xs) = rbind (f x) (\<lambda>b. if b then Inr True else rany f xs)"

fun rfilter :: "('a \<Rightarrow> 'e + bool) \<Rightarrow> 'a list \<Rightarrow> 'e + 'a list" where
  "rfilter f [] = Inr []"
| "rfilter f (x # xs) = rbind (f x) (\<lambda>b. rbind (rfilter f xs) (\<lambda>ys. Inr (if b then x # ys else ys)))"

lemma rfilter_Inr:
  "rfilter f xs = Inr ys \<longleftrightarrow>
    (\<forall>x \<in> set xs. \<exists>b. f x = Inr b) \<and> ys = filter (\<lambda>x. f x = Inr True) xs"
proof (induction xs arbitrary: ys)
  case Nil
  then show ?case by auto
next
  case (Cons x xs)
  show ?case
  proof (cases "f x")
    case (Inl e)
    then show ?thesis by simp
  next
    case (Inr b)
    then show ?thesis by (simp add: rbind_Inr_iff Cons.IH) blast
  qed
qed

lemma rany_Inr_True: "rany f xs = Inr True \<Longrightarrow> \<exists>x \<in> set xs. f x = Inr True"
  by (induction xs) (auto simp: rbind_Inr_iff split: if_splits)

lemma rmap_Inr: "rmap f xs = Inr ys \<longleftrightarrow> list_all2 (\<lambda>x y. f x = Inr y) xs ys"
proof (induction xs arbitrary: ys)
  case Nil
  then show ?case by auto
next
  case (Cons x xs)
  then show ?case by (cases ys) (auto simp: rbind_Inr_iff)
qed

text \<open>\<open>d[k]\<close> on a dictionary.\<close>

definition dindex :: "pydict \<Rightarrow> string \<Rightarrow> pyexn + pyval" where
  "dindex d k = (case dict_get d k of None \<Rightarrow> Inl KeyError | Some v \<Rightarrow> Inr v)"

text \<open>\<open>v.lower()\<close> and \<open>p in v.lower()\<close>.\<close>

definition py_lower :: "pyval \<Rightarrow> pyexn + string" where
  "py_lower v = (case v of PStr s \<Rightarrow> Inr (str_lower s) | _ \<Rightarrow> Inl AttributeError)"

definition in_lower :: "string \<Rightarrow> pyval \<Rightarrow> pyexn + bool" where
  "in_lower needle v = rbind (py_lower v) (\<lambda>s. Inr (str_contains needle s))"

text \<open>\<open>v >= w\<close>.\<close>

definition py_ge :: "pyval \<Rightarrow> pyval \<Rightarrow> pyexn + bool" where
  "py_ge v w = rbind (py_lt v w) (\<lambda>lt. Inr (\<not> lt))"

text \<open>
  \<open>xs.sort(key=...)\<close> for a key that is one value. With two elements or more every
  key is compared with another one, so a key that has no order raises.
\<close>

definition orders :: "pyval \<Rightarrow> pyval \<Rightarrow> bool" where
  "orders v w = (case py_lt v w of Inl _ \<Rightarrow> False | Inr _ \<Rightarrow> True)"

definition value_lt :: "pyval \<Rightarrow> pyval \<Rightarrow> bool" where
  "value_lt v w = (case py_lt v w of Inl _ \<Rightarrow> False | Inr b \<Rightarrow> b)"

definition py_sorted_by :: "('a \<Rightarrow> pyval) \<Rightarrow> bool \<Rightarrow> 'a list \<Rightarrow> pyexn + 'a list" where
  "py_sorted_by key reverse xs =
     (if length xs < 2 \<or> list_all (\<lambda>x. list_all (\<lambda>y. orders (key x) (key y)) xs) xs
      then Inr (sort_by (\<lambda>x y. if reverse then value_lt (key y) (key x) else value_lt (key x) (key y)) xs)
      else Inl TypeError)"

lemma py_sorted_by_set: "py_sorted_by key rv xs = Inr ys \<Longrightarrow> mset ys = mset xs"
  by (auto simp: py_sorted_by_def split: if_splits)

text \<open>A conditional step of a pipeline: nothing happens when the parameter is missing or empty.\<close>

definition when_given :: "string option \<Rightarrow> (string \<Rightarrow> 'a \<Rightarrow> 'e + 'a) \<Rightarrow> 'a \<Rightarrow> 'e + 'a" where
  "when_given v f x = (case v of None \<Rightarrow> Inr x | Some s \<Rightarrow> if s = [] then Inr x else f s x)"

end
