(* ===== verification/Scopes.thy ===== *)
theory Scopes
  imports Py_Filter
begin

text \<open>
  Discovery scopes, \<open>server/papers/scopes.py\<close>: predicates on list items by name. Reading
  a timestamp, \<open>datetime.fromisoformat\<close>, is a parameter: nothing when it raises, else
  the local time in microseconds and the offset from UTC, if the text has one.
\<close>

type_synonym parse_iso = "string \<Rightarrow> (int \<times> int option) option"

definition scopes :: "(string \<times> string \<times> string) list" where
  "scopes =
     [(''all'', ''Everything'', ''Full corpus, no filter''),
      (''active'', ''Active replications'', ''Currently being replicated''),
      (''agent'', ''Agent-flagged'', ''Surfaced by an LLM reviewer''),
      (''human'', ''Human-discussed'', ''Active human commentary''),
      (''contested'', ''Contested'', ''Conflicting replication evidence''),
      (''fresh'', ''Fresh'', ''Submitted in the last 7 days'')]"

definition scope_stats :: "pydict \<Rightarrow> pyval" where
  "scope_stats item = py_or (dget item ''stats'') (PDict [])"

text \<open>\<open>int(s.get(k) or 0) > n\<close>.\<close>

definition stat_above :: "pyval \<Rightarrow> string \<Rightarrow> int \<Rightarrow> pyexn + bool" where
  "stat_above s k n = rbind (py_get s k) (\<lambda>v. rbind (py_int (py_or v (PInt 0))) (\<lambda>i. Inr (n < i)))"

definition is_active :: "pydict \<Rightarrow> pyexn + bool" where
  "is_active item =
     (let s = scope_stats item
      in rbind (py_get s ''status'') (\<lambda>st.
           if st = PStr ''untested'' then stat_above s ''claims'' 4 else Inr False))"

text \<open>A case-insensitive search for one of several words.\<close>

definition mentions :: "string list \<Rightarrow> pyval \<Rightarrow> pyexn + bool" where
  "mentions words v =
     (case v of PStr s \<Rightarrow> Inr (list_ex (\<lambda>w. str_contains w (str_lower s)) words) | _ \<Rightarrow> Inl TypeError)"

definition is_agent :: "pydict \<Rightarrow> pyexn + bool" where
  "is_agent item =
     rbind (mentions [''agent'', ''commentary'', ''claim''] (py_or (dget item ''title'') (PStr []))) (\<lambda>t.
       if t then Inr True else mentions [''agent''] (py_or (dget item ''abstract'') (PStr [])))"

definition is_human :: "pydict \<Rightarrow> pyexn + bool" where
  "is_human item =
     (let s = scope_stats item
      in rbind (stat_above s ''contested'' 0) (\<lambda>c. if c then Inr True else stat_above s ''replicated'' 0))"

definition is_contested :: "pydict \<Rightarrow> pyexn + bool" where
  "is_contested item =
     (let s = scope_stats item
      in rbind (py_get s ''status'') (\<lambda>st.
           if st = PStr ''contested'' then Inr True else stat_above s ''contradicted'' 0))"

definition seven_days :: int where "seven_days = 7 * 24 * 60 * 60 * 1000000"

definition zulu :: "string \<Rightarrow> string" where
  "zulu s = concat (map (\<lambda>c. if c = CHR ''Z'' then ''+00:00'' else [c]) s)"

definition is_fresh :: "parse_iso \<Rightarrow> int \<Rightarrow> pydict \<Rightarrow> pyexn + bool" where
  "is_fresh parse now item =
     (let submitted_at = dget item ''submitted_at''
      in if \<not> truthy submitted_at then Inr False
         else case submitted_at of
           PStr s \<Rightarrow>
             (case parse (zulu s) of
                None \<Rightarrow> Inr False
              | Some (local, offset) \<Rightarrow>
                  Inr (now - seven_days \<le> local - (case offset of None \<Rightarrow> 0 | Some z \<Rightarrow> z)))
         | _ \<Rightarrow> Inl AttributeError)"

definition scope_predicate :: "parse_iso \<Rightarrow> int \<Rightarrow> string \<Rightarrow> pydict \<Rightarrow> pyexn + bool" where
  "scope_predicate parse now scope =
     (if scope = ''active'' then is_active
      else if scope = ''agent'' then is_agent
      else if scope = ''human'' then is_human
      else if scope = ''contested'' then is_contested
      else if scope = ''fresh'' then is_fresh parse now
      else (\<lambda>_. Inr True))"

definition filter_by_scope :: "parse_iso \<Rightarrow> int \<Rightarrow> pydict list \<Rightarrow> string \<Rightarrow> pyexn + pydict list" where
  "filter_by_scope parse now items scope = rfilter (scope_predicate parse now scope) items"

text \<open>An unknown scope filters nothing.\<close>

lemma unknown_scope: "scope \<notin> fst ` set scopes \<Longrightarrow> filter_by_scope parse now items scope = Inr items"
  by (auto simp: scopes_def filter_by_scope_def scope_predicate_def rfilter_Inr)

end
