(* ===== verification/Search.thy ===== *)
theory Search
  imports Scopes Projection Pagination
begin

text \<open>
  Search, \<open>server/search/router.py\<close>: a needle and targeted filters over the stored
  papers and claims. The time of the request is a parameter, both as the text that the
  statistics carry and as the instant the scope of fresh papers is measured from.
\<close>

section \<open>Needles\<close>

definition csv_or_split :: "string \<Rightarrow> string list" where
  "csv_or_split value = filter (\<lambda>v. v \<noteq> []) (map str_strip (split_on (CHR '','') value))"

definition authors_of :: "pydict \<Rightarrow> pyexn + pyval list" where
  "authors_of item = py_iter (py_or (dget item ''authors'') (PList []))"

definition name_matches :: "string \<Rightarrow> pyval \<Rightarrow> pyexn + bool" where
  "name_matches needle author =
     (let name = (case author of PDict d \<Rightarrow> dget d ''name'' | _ \<Rightarrow> PStr (py_str author))
      in if truthy name then in_lower needle name else Inr False)"

definition paper_matches :: "pydict \<Rightarrow> string \<Rightarrow> pyexn + bool" where
  "paper_matches paper needle =
     (if list_ex (\<lambda>f. str_contains needle (str_lower (py_str (py_or (dget paper f) (PStr []))))) [''title'', ''abstract'']
      then Inr True
      else rbind (authors_of paper) (\<lambda>authors.
           rbind (rany (name_matches needle) authors) (\<lambda>hit.
             if hit then Inr True
             else rbind (py_iter (py_or (dget paper ''topics'') (PList []))) (\<lambda>topics.
               Inr (list_ex (\<lambda>t. str_contains needle (str_lower (py_str t))) topics)))))"

definition author_matches :: "string \<Rightarrow> string \<Rightarrow> pyval \<Rightarrow> pyexn + bool" where
  "author_matches needle_lower needle_raw author =
     (let name = (case author of PDict d \<Rightarrow> py_or (dget d ''name'') (PStr []) | _ \<Rightarrow> PStr (py_str author));
          orcid = (case author of PDict d \<Rightarrow> py_or (dget d ''orcid'') (PStr []) | _ \<Rightarrow> PStr [])
      in rbind (in_lower needle_lower name) (\<lambda>hit.
           if hit then Inr True else if truthy orcid then str_in needle_raw orcid else Inr False))"

definition author_match :: "pydict \<Rightarrow> string \<Rightarrow> pyexn + bool" where
  "author_match item needle = rbind (authors_of item) (rany (author_matches (str_lower needle) needle))"

definition author_has :: "string \<Rightarrow> string \<Rightarrow> pyval \<Rightarrow> bool" where
  "author_has k v author = (case author of PDict d \<Rightarrow> dget d k = PStr v | _ \<Rightarrow> False)"

definition has_orcid :: "pydict \<Rightarrow> string \<Rightarrow> pyexn + bool" where
  "has_orcid item i = rbind (authors_of item) (\<lambda>as. Inr (list_ex (author_has ''orcid'' i) as))"

definition has_agent_handle :: "pydict \<Rightarrow> string \<Rightarrow> pyexn + bool" where
  "has_agent_handle item h = rbind (authors_of item) (\<lambda>as. Inr (list_ex (author_has ''agent_handle'' h) as))"

text \<open>The models of one author: the declared list, or one made from the legacy flat fields.\<close>

definition provenance_models :: "pyval \<Rightarrow> pydict list" where
  "provenance_models author =
     (case author of
        PDict d \<Rightarrow>
          (case dget d ''provenance'' of
             PDict prov \<Rightarrow>
               (case dget prov ''models'' of
                  PList ms \<Rightarrow> concat (map (\<lambda>m. case m of PDict e \<Rightarrow> [e] | _ \<Rightarrow> []) ms)
                | _ \<Rightarrow>
                    let slug = dget prov ''model_slug''; family = dget prov ''model_family'';
                        synth = (if truthy slug then [(''name'', slug), (''release_pin'', slug)] else []) @
                                (if truthy family then [(''family'', family)] else [])
                    in if synth = [] then [] else [synth])
           | _ \<Rightarrow> [])
      | _ \<Rightarrow> [])"

definition iter_provenance_models :: "pydict \<Rightarrow> pyexn + pydict list" where
  "iter_provenance_models item = rbind (authors_of item) (\<lambda>as. Inr (concat (map provenance_models as)))"

definition has_model_family :: "pydict \<Rightarrow> string \<Rightarrow> pyexn + bool" where
  "has_model_family item family_lower =
     rbind (iter_provenance_models item) (rany (\<lambda>m.
       rbind (py_lower (py_or (dget m ''family'') (PStr []))) (\<lambda>f. Inr (f = family_lower))))"

definition has_model_name_substring :: "pydict \<Rightarrow> string \<Rightarrow> pyexn + bool" where
  "has_model_name_substring item needle_lower =
     rbind (iter_provenance_models item) (rany (\<lambda>m. in_lower needle_lower (py_or (dget m ''name'') (PStr []))))"

section \<open>Filters\<close>

type_synonym pool_step = "pydict list \<Rightarrow> pyexn + pydict list"

text \<open>A filter with several values keeps the items that one of them matches.\<close>

definition any_of :: "(pydict \<Rightarrow> string \<Rightarrow> pyexn + bool) \<Rightarrow> string list \<Rightarrow> pool_step" where
  "any_of f vs pool = (if vs = [] then Inr pool else rfilter (\<lambda>item. rany (f item) vs) pool)"

definition by_topic :: "string \<Rightarrow> pool_step" where
  "by_topic t = rfilter (\<lambda>item. str_in t (py_or (dget item ''topics'') (PList [])))"

definition by_orcid :: "string \<Rightarrow> pool_step" where
  "by_orcid v = any_of has_orcid (csv_or_split v)"

definition by_agent_handle :: "string \<Rightarrow> pool_step" where
  "by_agent_handle v = any_of has_agent_handle (csv_or_split v)"

definition by_model_family :: "string \<Rightarrow> pool_step" where
  "by_model_family v = any_of has_model_family (map str_lower (csv_or_split v))"

definition by_model_name :: "string \<Rightarrow> pool_step" where
  "by_model_name v = any_of has_model_name_substring (map str_lower (csv_or_split v))"

definition by_author :: "string \<Rightarrow> pool_step" where
  "by_author v = any_of author_match (csv_or_split v)"

definition stat_of :: "pydict \<Rightarrow> string \<Rightarrow> pyexn + pyval" where
  "stat_of item k = py_get (py_or (dget item ''stats'') (PDict [])) k"

definition stat_int :: "pydict \<Rightarrow> string \<Rightarrow> pyexn + int" where
  "stat_int item k = rbind (stat_of item k) (\<lambda>v. py_int (py_or v (PInt 0)))"

definition by_status :: "string \<Rightarrow> pool_step" where
  "by_status st = rfilter (\<lambda>item. rbind (stat_of item ''status'') (\<lambda>v. Inr (v = PStr st)))"

definition by_claims_min :: "int \<Rightarrow> pool_step" where
  "by_claims_min n = rfilter (\<lambda>item. rbind (stat_int item ''claims'') (\<lambda>i. Inr (n \<le> i)))"

definition submitted_or_empty :: "pydict \<Rightarrow> pyval" where
  "submitted_or_empty item = py_or (dget item ''submitted_at'') (PStr [])"

definition by_submitted_from :: "string \<Rightarrow> pool_step" where
  "by_submitted_from d = rfilter (\<lambda>item. py_ge (submitted_or_empty item) (PStr d))"

definition by_submitted_to :: "string \<Rightarrow> pool_step" where
  "by_submitted_to d = rfilter (\<lambda>item. py_ge (PStr (d @ ''T23:59:59Z'')) (submitted_or_empty item))"

text \<open>The order asked for; anything else keeps the order of the corpus.\<close>

definition sort_pool :: "string option \<Rightarrow> pool_step" where
  "sort_pool order pool =
     (let by_int = (\<lambda>key. rbind (rmap (\<lambda>x. rbind (key x) (\<lambda>i. Inr (i, x))) pool) (\<lambda>keyed.
            Inr (map snd (sort_by (\<lambda>a b. fst b < fst a) keyed))))
      in if order = Some ''newest'' then py_sorted_by submitted_or_empty True pool
         else if order = Some ''replicated'' then by_int (\<lambda>x. stat_int x ''replicated'')
         else if order = Some ''contested''
           then by_int (\<lambda>x. rbind (stat_int x ''contested'') (\<lambda>c.
                  rbind (stat_int x ''contradicted'') (\<lambda>d. Inr (c + d))))
         else Inr pool)"

section \<open>The endpoints\<close>

record search_query =
  sq_q :: string
  sq_limit :: int
  sq_cursor :: "string option"
  sq_scope :: "string option"
  sq_topic :: "string option"
  sq_author :: "string option"
  sq_orcid :: "string option"
  sq_agent_handle :: "string option"
  sq_model_family :: "string option"
  sq_model_name :: "string option"
  sq_status :: "string option"
  sq_claims_min :: "int option"
  sq_submitted_from :: "string option"
  sq_submitted_to :: "string option"
  sq_sort :: "string option"

fun matching_items :: "store_state \<Rightarrow> string \<Rightarrow> string \<Rightarrow> pydict list \<Rightarrow> pyexn + pydict list" where
  "matching_items s now needle [] = Inr []"
| "matching_items s now needle (p # ps) =
     rbind (if needle = [] then Inr True else paper_matches p needle) (\<lambda>hit.
       if hit then rbind (to_list_item p s now) (\<lambda>item.
                   rbind (matching_items s now needle ps) (\<lambda>items. Inr (item # items)))
       else matching_items s now needle ps)"

definition paper_key :: "pydict \<Rightarrow> pyval list" where
  "paper_key p = [py_or (dget p ''submitted_at'') (PStr []), py_or (dget p ''id'') (PStr [])]"

definition filter_pool :: "parse_iso \<Rightarrow> int \<Rightarrow> search_query \<Rightarrow> pool_step" where
  "filter_pool parse now_us q pool =
     rbind (when_given (sq_topic q) by_topic pool) (\<lambda>pool.
     rbind (when_given (sq_author q) by_author pool) (\<lambda>pool.
     rbind (when_given (sq_orcid q) by_orcid pool) (\<lambda>pool.
     rbind (when_given (sq_agent_handle q) by_agent_handle pool) (\<lambda>pool.
     rbind (when_given (sq_model_family q) by_model_family pool) (\<lambda>pool.
     rbind (when_given (sq_model_name q) by_model_name pool) (\<lambda>pool.
     rbind (when_given (sq_status q) by_status pool) (\<lambda>pool.
     rbind (case sq_claims_min q of None \<Rightarrow> Inr pool | Some n \<Rightarrow> by_claims_min n pool) (\<lambda>pool.
     rbind (when_given (sq_submitted_from q) by_submitted_from pool) (\<lambda>pool.
     rbind (when_given (sq_submitted_to q) by_submitted_to pool) (\<lambda>pool.
       when_given (sq_scope q) (\<lambda>sc pool. filter_by_scope parse now_us pool sc) pool))))))))))"

text \<open>
  The bounds the framework checks before the endpoint runs; a request outside them is answered with
  422.
\<close>

definition needle_limit_ok :: "string \<Rightarrow> int \<Rightarrow> bool" where
  "needle_limit_ok q limit \<longleftrightarrow> length q \<le> 200 \<and> 1 \<le> limit \<and> limit \<le> 200"

definition query_ok :: "search_query \<Rightarrow> bool" where
  "query_ok q \<longleftrightarrow> needle_limit_ok (sq_q q) (sq_limit q) \<and> (case sq_claims_min q of None \<Rightarrow> True | Some n \<Rightarrow> 0 \<le> n)"

definition search_papers ::
  "store_state \<Rightarrow> parse_iso \<Rightarrow> int \<Rightarrow> string \<Rightarrow> search_query \<Rightarrow> exn + pydict list \<times> string option" where
  "search_papers s parse now_us now q =
     (if \<not> query_ok q then Inl invalid_request
      else rbind (raising (matching_items s now (str_lower (str_strip (sq_q q))) (list_papers s))) (\<lambda>pool.
           rbind (raising (filter_pool parse now_us q pool)) (\<lambda>pool.
           rbind (raising (sort_pool (sq_sort q) pool)) (\<lambda>pool.
             paginate pool (sq_cursor q) (Some (sq_limit q)) paper_key True))))"

definition statement_matches :: "string \<Rightarrow> pydict \<Rightarrow> pyexn + bool" where
  "statement_matches needle claim =
     (if needle = [] then Inr True else in_lower needle (py_or (dget claim ''statement'') (PStr [])))"

definition claim_key :: "pydict \<Rightarrow> pyval list" where
  "claim_key c = [py_or (dget c ''paper_id'') (PStr []), py_or (dget c ''id'') (PStr [])]"

definition search_claims ::
  "store_state \<Rightarrow> string \<Rightarrow> int \<Rightarrow> string option \<Rightarrow> exn + pydict list \<times> string option" where
  "search_claims s q limit cursor =
     (if \<not> needle_limit_ok q limit then Inl invalid_request
      else rbind (raising (rfilter (statement_matches (str_lower (str_strip q))) (list_claims s))) (\<lambda>matches.
           paginate matches cursor (Some limit) claim_key True))"

section \<open>What the filters keep\<close>

text \<open>
  A step that, when it does not raise, keeps exactly the items with a property, in their
  order. Steps compose, so the order in which an endpoint applies its filters matters only
  for the exceptions.
\<close>

definition keeps :: "pool_step \<Rightarrow> (pydict \<Rightarrow> bool) \<Rightarrow> bool" where
  "keeps step P \<longleftrightarrow> (\<forall>pool kept. step pool = Inr kept \<longrightarrow> kept = filter P pool)"

lemma keepsD: "keeps step P \<Longrightarrow> step pool = Inr kept \<Longrightarrow> kept = filter P pool"
  by (simp add: keeps_def)

named_theorems keeps_intros \<open>what the filters keep\<close>

lemma keeps_rfilter [keeps_intros]: "keeps (rfilter f) (\<lambda>x. f x = Inr True)"
  by (simp add: keeps_def rfilter_Inr)

lemma keeps_id: "keeps Inr (\<lambda>_. True)"
  by (simp add: keeps_def)

lemma keeps_then:
  assumes "keeps a P" "keeps b Q"
  shows "keeps (\<lambda>pool. rbind (a pool) b) (\<lambda>x. P x \<and> Q x)"
  unfolding keeps_def
proof (intro allI impI)
  fix pool kept
  assume "rbind (a pool) b = Inr kept"
  then obtain mid where "a pool = Inr mid" "b mid = Inr kept" by (auto simp: rbind_Inr_iff)
  with assms have "kept = filter Q (filter P pool)" by (auto dest: keepsD)
  then show "kept = filter (\<lambda>x. P x \<and> Q x) pool" by (simp add: conj_commute)
qed

definition given :: "string option \<Rightarrow> (string \<Rightarrow> bool) \<Rightarrow> bool" where
  "given v P = (case v of None \<Rightarrow> True | Some t \<Rightarrow> t = [] \<or> P t)"

lemma keeps_when_given [keeps_intros]:
  assumes "\<And>t. keeps (f t) (P t)"
  shows "keeps (when_given v f) (\<lambda>x. given v (\<lambda>t. P t x))"
  using assms keeps_id by (cases v) (auto simp: keeps_def when_given_def given_def)

lemma rany_False: "rany f xs = Inr False \<Longrightarrow> x \<in> set xs \<Longrightarrow> f x = Inr False"
  by (induction xs) (auto simp: rbind_Inr_iff split: if_splits)

lemma keeps_any_of [keeps_intros]:
  "keeps (any_of f vs) (\<lambda>x. vs = [] \<or> (\<exists>v \<in> set vs. f x v = Inr True))"
  unfolding keeps_def
proof (intro allI impI)
  fix pool kept
  assume "any_of f vs pool = Inr kept"
  then show "kept = filter (\<lambda>x. vs = [] \<or> (\<exists>v \<in> set vs. f x v = Inr True)) pool"
  proof (cases "vs = []")
    case False
    with \<open>any_of f vs pool = Inr kept\<close>
    have all: "\<forall>x \<in> set pool. \<exists>b. rany (f x) vs = Inr b"
      and kept: "kept = filter (\<lambda>x. rany (f x) vs = Inr True) pool"
      by (auto simp: any_of_def rfilter_Inr)
    have "rany (f x) vs = Inr True \<longleftrightarrow> (\<exists>v \<in> set vs. f x v = Inr True)" if "x \<in> set pool" for x
      using all that rany_Inr_True [of "f x" vs] rany_False [of "f x" vs] by (metis (full_types) Inr_inject)
    with False kept show ?thesis by (simp cong: filter_cong)
  qed (simp add: any_of_def)
qed

text \<open>The declarative reading of the parameters of a search.\<close>

definition one_of :: "(pydict \<Rightarrow> string \<Rightarrow> pyexn + bool) \<Rightarrow> string list \<Rightarrow> pydict \<Rightarrow> bool" where
  "one_of f vs item \<longleftrightarrow> vs = [] \<or> (\<exists>v \<in> set vs. f item v = Inr True)"

definition submitted_from_ok :: "string \<Rightarrow> pydict \<Rightarrow> bool" where
  "submitted_from_ok d item \<longleftrightarrow> py_ge (submitted_or_empty item) (PStr d) = Inr True"

definition submitted_to_ok :: "string \<Rightarrow> pydict \<Rightarrow> bool" where
  "submitted_to_ok d item \<longleftrightarrow> py_ge (PStr (d @ ''T23:59:59Z'')) (submitted_or_empty item) = Inr True"

definition has_topic :: "string \<Rightarrow> pydict \<Rightarrow> bool" where
  "has_topic t item \<longleftrightarrow> str_in t (py_or (dget item ''topics'') (PList [])) = Inr True"

definition in_scope :: "parse_iso \<Rightarrow> int \<Rightarrow> string \<Rightarrow> pydict \<Rightarrow> bool" where
  "in_scope parse now_us sc item \<longleftrightarrow> scope_predicate parse now_us sc item = Inr True"

definition wanted :: "parse_iso \<Rightarrow> int \<Rightarrow> search_query \<Rightarrow> pydict \<Rightarrow> bool" where
  "wanted parse now_us q item \<longleftrightarrow>
     given (sq_topic q) (\<lambda>t. has_topic t item) \<and>
     given (sq_author q) (\<lambda>v. one_of author_match (csv_or_split v) item) \<and>
     given (sq_orcid q) (\<lambda>v. one_of has_orcid (csv_or_split v) item) \<and>
     given (sq_agent_handle q) (\<lambda>v. one_of has_agent_handle (csv_or_split v) item) \<and>
     given (sq_model_family q) (\<lambda>v. one_of has_model_family (map str_lower (csv_or_split v)) item) \<and>
     given (sq_model_name q) (\<lambda>v. one_of has_model_name_substring (map str_lower (csv_or_split v)) item) \<and>
     given (sq_status q) (\<lambda>st. stat_of item ''status'' = Inr (PStr st)) \<and>
     (case sq_claims_min q of None \<Rightarrow> True | Some n \<Rightarrow> \<exists>i. stat_int item ''claims'' = Inr i \<and> n \<le> i) \<and>
     given (sq_submitted_from q) (\<lambda>d. submitted_from_ok d item) \<and>
     given (sq_submitted_to q) (\<lambda>d. submitted_to_ok d item) \<and>
     given (sq_scope q) (\<lambda>sc. in_scope parse now_us sc item)"

lemma keeps_by_topic [keeps_intros]: "keeps (by_topic t) (has_topic t)"
  unfolding by_topic_def has_topic_def by (rule keeps_rfilter)

lemma keeps_one_of: "keeps (any_of f vs) (one_of f vs)"
  unfolding one_of_def by (rule keeps_any_of)

lemma keeps_by_author [keeps_intros]: "keeps (by_author v) (one_of author_match (csv_or_split v))"
  unfolding by_author_def by (rule keeps_one_of)

lemma keeps_by_orcid [keeps_intros]: "keeps (by_orcid v) (one_of has_orcid (csv_or_split v))"
  unfolding by_orcid_def by (rule keeps_one_of)

lemma keeps_by_agent_handle [keeps_intros]:
  "keeps (by_agent_handle v) (one_of has_agent_handle (csv_or_split v))"
  unfolding by_agent_handle_def by (rule keeps_one_of)

lemma keeps_by_model_family [keeps_intros]:
  "keeps (by_model_family v) (one_of has_model_family (map str_lower (csv_or_split v)))"
  unfolding by_model_family_def by (rule keeps_one_of)

lemma keeps_by_model_name [keeps_intros]:
  "keeps (by_model_name v) (one_of has_model_name_substring (map str_lower (csv_or_split v)))"
  unfolding by_model_name_def by (rule keeps_one_of)

lemma keeps_by_status [keeps_intros]: "keeps (by_status st) (\<lambda>x. stat_of x ''status'' = Inr (PStr st))"
  using keeps_rfilter [of "\<lambda>x. rbind (stat_of x ''status'') (\<lambda>v. Inr (v = PStr st))"]
  by (simp add: by_status_def [abs_def] rbind_Inr_iff)

lemma keeps_by_claims_min [keeps_intros]:
  "keeps (\<lambda>pool. case n of None \<Rightarrow> Inr pool | Some n \<Rightarrow> by_claims_min n pool)
    (\<lambda>x. case n of None \<Rightarrow> True | Some n \<Rightarrow> \<exists>i. stat_int x ''claims'' = Inr i \<and> n \<le> i)"
proof (cases n)
  case None
  then show ?thesis by (simp add: keeps_def)
next
  case (Some k)
  then show ?thesis
    using keeps_rfilter [of "\<lambda>x. rbind (stat_int x ''claims'') (\<lambda>i. Inr (k \<le> i))"]
    by (simp add: by_claims_min_def [abs_def] rbind_Inr_iff)
qed

lemma keeps_by_submitted_from [keeps_intros]: "keeps (by_submitted_from d) (submitted_from_ok d)"
  unfolding by_submitted_from_def submitted_from_ok_def by (rule keeps_rfilter)

lemma keeps_by_submitted_to [keeps_intros]: "keeps (by_submitted_to d) (submitted_to_ok d)"
  unfolding by_submitted_to_def submitted_to_ok_def by (rule keeps_rfilter)

lemma keeps_by_scope [keeps_intros]:
  "keeps (\<lambda>pool. filter_by_scope parse now_us pool sc) (in_scope parse now_us sc)"
  unfolding filter_by_scope_def in_scope_def by (rule keeps_rfilter)

lemma filter_pool_keeps: "keeps (filter_pool parse now_us q) (wanted parse now_us q)"
  unfolding filter_pool_def [abs_def] wanted_def [abs_def] by (intro keeps_then keeps_intros)


section \<open>What a search serves\<close>

lemma paginate_whole:
  assumes "paginate items None limit key desc = Inr (page, None)"
  shows "mset page = mset items"
proof -
  from assms obtain n ordered where n: "clamp_limit limit = Inr n" and s: "py_sorted key desc items = Inr ordered"
    and page: "page = take (nat n) ordered" and stop: "nat n < length ordered \<longrightarrow> page = []"
    by (auto simp: paginate_def page_start_def rbind_Inr_iff Let_def split: if_splits)
  have "page = ordered" using clamp_limit_bounds [OF n] page stop by (cases "nat n < length ordered") auto
  moreover have "mset ordered = mset items" using s by (auto simp: py_sorted_def split: if_splits)
  ultimately show ?thesis by simp
qed

lemma keyed_items:
  "rmap (\<lambda>x. rbind (key x) (\<lambda>i. Inr (i, x))) pool = Inr keyed \<Longrightarrow> image_mset snd (mset keyed) = mset pool"
  by (induction pool arbitrary: keyed) (auto simp: rbind_Inr_iff)

lemma sort_pool_mset: "sort_pool order pool = Inr ordered \<Longrightarrow> mset ordered = mset pool"
  by (auto simp: sort_pool_def Let_def rbind_Inr_iff py_sorted_by_set dest!: keyed_items split: if_splits)

lemma matching_items_rmap:
  "matching_items s now needle ps = Inr items \<Longrightarrow>
    rmap (\<lambda>p. to_list_item p s now)
      (filter (\<lambda>p. needle = [] \<or> paper_matches p needle = Inr True) ps) = Inr items"
  by (induction ps arbitrary: items) (auto simp: rbind_Inr_iff split: if_splits)

text \<open>
  C37: When everything a search finds fits on one page, it serves, each as often as it is
  stored, exactly the list items of the stored papers that the needle matches and that
  meet every filter of the request.
\<close>

theorem search_exact:
  assumes "search_papers s parse now_us now q = Inr (items, None)" "sq_cursor q = None"
  shows "\<exists>found. rmap (\<lambda>p. to_list_item p s now)
      (filter (\<lambda>p. str_lower (str_strip (sq_q q)) = [] \<or>
        paper_matches p (str_lower (str_strip (sq_q q))) = Inr True) (list_papers s)) = Inr found \<and>
    mset items = mset (filter (wanted parse now_us q) found)"
proof -
  from assms obtain found pool ordered where
    found: "matching_items s now (str_lower (str_strip (sq_q q))) (list_papers s) = Inr found"
    and pool: "filter_pool parse now_us q found = Inr pool" and ordered: "sort_pool (sq_sort q) pool = Inr ordered"
    and page: "paginate ordered None (Some (sq_limit q)) paper_key True = Inr (items, None)"
    by (auto simp: search_papers_def rbind_Inr_iff split: if_splits)
  have "mset items = mset pool" using paginate_whole [OF page] sort_pool_mset [OF ordered] by simp
  with matching_items_rmap [OF found] keepsD [OF filter_pool_keeps pool] show ?thesis by auto
qed

definition search_store :: store_state where
  "search_store = empty_store\<lparr>st_papers :=
     [(''a'', [(''id'', PStr ''a''), (''title'', PStr ''Primes''), (''topics'', PList [PStr ''nt'']),
               (''submitted_at'', PStr ''2026-01-02'')]),
      (''b'', [(''id'', PStr ''b''), (''title'', PStr ''Prime gaps''), (''topics'', PList [PStr ''nt'']),
               (''submitted_at'', PStr ''2026-01-01'')]),
      (''c'', [(''id'', PStr ''c''), (''title'', PStr ''Knots''), (''topics'', PList [PStr ''top''])])]\<rparr>"

definition plain_query :: "string \<Rightarrow> search_query" where
  "plain_query needle = \<lparr>sq_q = needle, sq_limit = 20, sq_cursor = None, sq_scope = None, sq_topic = Some ''nt'',
     sq_author = None, sq_orcid = None, sq_agent_handle = None, sq_model_family = None, sq_model_name = None,
     sq_status = None, sq_claims_min = None, sq_submitted_from = Some ''2026-01-02'', sq_submitted_to = None,
     sq_sort = Some ''replicated''\<rparr>"

theorem search_exact_witness:
  "\<exists>items. search_papers search_store (\<lambda>_. None) 0 ''t'' (plain_query ''PRIME'') = Inr (items, None) \<and>
    length items = 1 \<and> list_all (wanted (\<lambda>_. None) 0 (plain_query ''PRIME'')) items"
proof -
  obtain items where i: "search_papers search_store (\<lambda>_. None) 0 ''t'' (plain_query ''PRIME'') = Inr (items, None)"
    and n: "length items = 1"
    by (rule that [of "[dict_set ''stats'' (PDict (stats_dict \<lparr>sg_claims = 0, sg_replicated = 0, sg_partial = 0,
        sg_contradicted = 0, sg_contested = 0, sg_untested = 0, sg_status = ''preprint'', sg_computed_at = ''t''\<rparr>))
      [(''id'', PStr ''a''), (''title'', PStr ''Primes''), (''topics'', PList [PStr ''nt'']),
       (''submitted_at'', PStr ''2026-01-02'')]]"]) code_simp+
  have "sq_cursor (plain_query ''PRIME'') = None" by (simp add: plain_query_def)
  from search_exact [OF i this] obtain found where
    "mset items = mset (filter (wanted (\<lambda>_. None) 0 (plain_query ''PRIME'')) found)" by blast
  then have "set items = set (filter (wanted (\<lambda>_. None) 0 (plain_query ''PRIME'')) found)"
    by (metis set_mset_mset)
  with i n show ?thesis by (auto simp: list_all_iff)
qed

section \<open>The order asked for\<close>

lemma strict_order_unique:
  assumes "sorted_wrt R xs" "sorted_wrt R ys" "mset xs = mset ys"
    and "\<And>x y. x \<in> set xs \<Longrightarrow> y \<in> set xs \<Longrightarrow> R x y \<Longrightarrow> \<not> R y x"
  shows "xs = ys"
  using assms
proof (induction xs arbitrary: ys)
  case Nil
  then show ?case by simp
next
  case (Cons x xs)
  from Cons.prems(3) obtain y zs where ys: "ys = y # zs" by (cases ys) auto
  have sets: "set (x # xs) = set ys" using Cons.prems(3) by (metis set_mset_mset)
  have "x = y"
  proof (rule ccontr)
    assume "x \<noteq> y"
    with sets ys have "y \<in> set xs" "x \<in> set zs" by auto
    then have "R x y" "R y x" using Cons.prems(1,2) ys by auto
    with Cons.prems(4) \<open>y \<in> set xs\<close> show False by simp
  qed
  moreover have "xs = zs"
  proof (rule Cons.IH)
    show "mset xs = mset zs" using Cons.prems(3) ys \<open>x = y\<close> by simp
    show "sorted_wrt R xs" "sorted_wrt R zs" using Cons.prems(1,2) ys by simp_all
  next
    fix a b
    assume "a \<in> set xs" "b \<in> set xs" "R a b"
    with Cons.prems(4) show "\<not> R b a" by simp
  qed
  ultimately show ?case using ys by simp
qed

lemma py_sorted_mset:
  assumes "\<And>x. x \<in> set xs \<Longrightarrow> shaped sh (key x)" "distinct (map key xs)" "mset xs = mset ys"
  shows "py_sorted key desc xs = py_sorted key desc ys"
proof -
  have sets: "set xs = set ys" using assms(3) by (metis set_mset_mset)
  have "mset (map key xs) = mset (map key ys)" using assms(3) by simp
  then have d: "distinct (map key ys)" using assms(2) mset_eq_imp_distinct_iff by blast
  have "sort_by (before key desc) xs = sort_by (before key desc) ys"
  proof (rule strict_order_unique)
    show "sorted_wrt (before key desc) (sort_by (before key desc) xs)" using assms(1,2) by (rule sort_strict)
    show "sorted_wrt (before key desc) (sort_by (before key desc) ys)"
      using assms(1) sets d by (intro sort_strict) auto
    show "mset (sort_by (before key desc) xs) = mset (sort_by (before key desc) ys)" using assms(3) by simp
  qed (use assms(1) in \<open>auto simp: before_def dest: key_lt_asym [of sh, rotated 2] split: if_splits\<close>)
  moreover have "py_sorted key desc xs = Inr (sort_by (before key desc) xs)" using assms(1) by (rule py_sorted_shaped)
  moreover have "py_sorted key desc ys = Inr (sort_by (before key desc) ys)"
    using assms(1) sets by (intro py_sorted_shaped) auto
  ultimately show ?thesis by simp
qed

text \<open>Papers whose sort keys are strings, no two alike.\<close>

definition plain_papers :: "store_state \<Rightarrow> bool" where
  "plain_papers s \<longleftrightarrow>
     (\<forall>p \<in> set (list_papers s). opt_str (dget p ''submitted_at'') \<and> opt_str (dget p ''id'')) \<and>
     distinct (map paper_key (list_papers s))"

lemma list_item_key: "to_list_item p s now = Inr item \<Longrightarrow> paper_key item = paper_key p"
  by (auto simp: to_list_item_def rbind_Inr_iff paper_key_def)

lemma rmap_list_items:
  "rmap (\<lambda>p. to_list_item p s now) ps = Inr items \<Longrightarrow> map paper_key items = map paper_key ps"
  by (induction ps arbitrary: items) (auto simp: rbind_Inr_iff list_item_key)

lemma plain_pool:
  assumes "plain_papers s" "rmap (\<lambda>p. to_list_item p s now) (filter P (list_papers s)) = Inr found"
  shows "distinct (map paper_key (filter Q found))"
    and "x \<in> set (filter Q found) \<Longrightarrow> shaped [True, True] (paper_key x)"
proof -
  note keys = rmap_list_items [OF assms(2)]
  have d: "distinct (map paper_key (filter P (list_papers s)))"
    using assms(1) by (auto simp: plain_papers_def intro: distinct_map_filter)
  then show "distinct (map paper_key (filter Q found))"
    by (metis keys distinct_map_filter)
  assume "x \<in> set (filter Q found)"
  then have "paper_key x \<in> set (map paper_key (filter P (list_papers s)))"
    by (simp flip: keys)
  then obtain p where p: "p \<in> set (list_papers s)" "paper_key x = paper_key p" by auto
  with assms(1) have "opt_str (dget p ''submitted_at'')" "opt_str (dget p ''id'')"
    by (auto simp: plain_papers_def)
  with p(2) show "shaped [True, True] (paper_key x)"
    by (cases "dget p ''submitted_at''"; cases "dget p ''id''") (auto simp: paper_key_def opt_str_def py_or_def)
qed

text \<open>
  The order asked for does not reach the client: two searches that differ only in
  \<open>sort\<close> serve the same page in the same order, newest first, because the paging
  sorts again.
\<close>

lemma sort_has_no_effect:
  assumes "plain_papers s"
    and "search_papers s parse now_us now (q\<lparr>sq_sort := a\<rparr>) = Inr r"
    and "search_papers s parse now_us now (q\<lparr>sq_sort := b\<rparr>) = Inr r'"
  shows "r = r'"
proof -
  let ?needle = "str_lower (str_strip (sq_q q))"
  have pools: "filter_pool parse now_us (q\<lparr>sq_sort := c\<rparr>) = filter_pool parse now_us q" for c
    by (simp add: filter_pool_def [abs_def])
  from assms(2,3) obtain found pool as bs where
    found: "matching_items s now ?needle (list_papers s) = Inr found"
    and pool: "filter_pool parse now_us q found = Inr pool"
    and ab: "sort_pool a pool = Inr as" "sort_pool b pool = Inr bs"
    and page: "paginate as (sq_cursor q) (Some (sq_limit q)) paper_key True = Inr r"
      "paginate bs (sq_cursor q) (Some (sq_limit q)) paper_key True = Inr r'"
    by (auto simp: search_papers_def rbind_Inr_iff pools split: if_splits)
  note plain = plain_pool [OF assms(1) matching_items_rmap [OF found], where Q = "wanted parse now_us q"]
  note pool' = keepsD [OF filter_pool_keeps pool]
  have "py_sorted paper_key True pool = py_sorted paper_key True as"
    using plain pool' sort_pool_mset [OF ab(1)] by (intro py_sorted_mset [of _ "[True, True]"]) auto
  moreover have "py_sorted paper_key True pool = py_sorted paper_key True bs"
    using plain pool' sort_pool_mset [OF ab(2)] by (intro py_sorted_mset [of _ "[True, True]"]) auto
  ultimately have "paginate as (sq_cursor q) (Some (sq_limit q)) paper_key True =
      paginate bs (sq_cursor q) (Some (sq_limit q)) paper_key True"
    by (simp add: paginate_def)
  with page show ?thesis by simp
qed

lemma sort_has_no_effect_witness:
  "\<exists>r. search_papers search_store (\<lambda>_. None) 0 ''t'' (plain_query []\<lparr>sq_sort := Some ''replicated''\<rparr>) = Inr r \<and>
    search_papers search_store (\<lambda>_. None) 0 ''t'' (plain_query []\<lparr>sq_sort := Some ''newest''\<rparr>) = Inr r"
proof -
  have plain: "plain_papers search_store" by code_simp
  have "\<not> isl (search_papers search_store (\<lambda>_. None) 0 ''t'' (plain_query []\<lparr>sq_sort := Some ''replicated''\<rparr>))"
    "\<not> isl (search_papers search_store (\<lambda>_. None) 0 ''t'' (plain_query []\<lparr>sq_sort := Some ''newest''\<rparr>))"
    by code_simp+
  then obtain r r' where
    "search_papers search_store (\<lambda>_. None) 0 ''t'' (plain_query []\<lparr>sq_sort := Some ''replicated''\<rparr>) = Inr r"
    "search_papers search_store (\<lambda>_. None) 0 ''t'' (plain_query []\<lparr>sq_sort := Some ''newest''\<rparr>) = Inr r'"
    by (metis isl_def sum.exhaust)
  with sort_has_no_effect [OF plain this] show ?thesis by blast
qed

end
