(* ===== verification/Papers_Router.thy ===== *)
theory Papers_Router
  imports Search Lineage Revision_Diff
begin

text \<open>
  The papers endpoints, \<open>server/papers/router.py\<close>: the listing, one paper, its
  structure, its claims, related papers, statistics, the diff of two versions and errata.
  The validation of a stored structure is a parameter: the list of errors, or the model.
\<close>

section \<open>Listing\<close>

record list_query =
  lq_scope :: "string option"
  lq_topic :: "string option"
  lq_orcid :: "string option"
  lq_agent_handle :: "string option"
  lq_model_family :: "string option"
  lq_model_name :: "string option"
  lq_cursor :: "string option"
  lq_limit :: "int option"
  lq_include_superseded :: bool

definition pointed_at :: "pydict list \<Rightarrow> string list" where
  "pointed_at papers =
     concat (map (\<lambda>p. case dget p ''previous_version'' of PStr v \<Rightarrow> if v = [] then [] else [v] | _ \<Rightarrow> []) papers)"

text \<open>\<open>p.get("id") not in superseded_ids\<close>.\<close>

definition not_among :: "string list \<Rightarrow> pydict \<Rightarrow> pyexn + bool" where
  "not_among ids p =
     (let i = dget p ''id'' in if unhashable i then Inl TypeError else Inr (i \<notin> PStr ` set ids))"

definition listed_papers :: "store_state \<Rightarrow> bool \<Rightarrow> pyexn + pydict list" where
  "listed_papers s include_superseded =
     (let all_papers = list_papers s
      in if include_superseded then Inr all_papers else rfilter (not_among (pointed_at all_papers)) all_papers)"

definition list_papers_endpoint ::
  "store_state \<Rightarrow> parse_iso \<Rightarrow> int \<Rightarrow> string \<Rightarrow> list_query \<Rightarrow> exn + pydict list \<times> string option" where
  "list_papers_endpoint s parse now_us now q =
     rbind (raising (listed_papers s (lq_include_superseded q))) (\<lambda>papers.
     rbind (raising (rmap (\<lambda>p. to_list_item p s now) papers)) (\<lambda>items.
     rbind (raising
       (rbind (when_given (lq_topic q) by_topic items) (\<lambda>items.
        rbind (when_given (lq_scope q) (\<lambda>sc pool. filter_by_scope parse now_us pool sc) items) (\<lambda>items.
        rbind (when_given (lq_orcid q) by_orcid items) (\<lambda>items.
        rbind (when_given (lq_agent_handle q) by_agent_handle items) (\<lambda>items.
        rbind (when_given (lq_model_family q) by_model_family items) (\<lambda>items.
          when_given (lq_model_name q) by_model_name items))))))) (\<lambda>items.
       paginate items (lq_cursor q) (lq_limit q) paper_key True)))"

section \<open>One paper\<close>

definition found_paper :: "store_state \<Rightarrow> string \<Rightarrow> exn + pydict" where
  "found_paper s ident =
     rbind (raising (resolve_paper s ident)) (\<lambda>paper.
       case paper of None \<Rightarrow> Inl (not_found (''paper '' @ ident @ '' not found'')) | Some p \<Rightarrow> Inr p)"

definition get_paper_endpoint :: "store_state \<Rightarrow> string \<Rightarrow> string \<Rightarrow> string option \<Rightarrow> exn + pydict" where
  "get_paper_endpoint s now ident include =
     rbind (found_paper s ident) (\<lambda>p.
       let includes = (case include of None \<Rightarrow> [] | Some v \<Rightarrow> if v = [] then [] else split_on (CHR '','') v)
       in if ''stats'' \<in> set includes then raising (to_list_item p s now) else Inr p)"

definition get_cir_endpoint :: "store_state \<Rightarrow> string \<Rightarrow> exn + pydict" where
  "get_cir_endpoint s ident =
     rbind (found_paper s ident) (\<lambda>p.
     rbind (raising (item_id p)) (\<lambda>i.
       Inr (case get_cir s i of
              Some cir \<Rightarrow> cir
            | None \<Rightarrow> dict_setdefault ''annotations'' (PList []) p)))"

definition list_claims_for_paper :: "store_state \<Rightarrow> string \<Rightarrow> exn + pydict list" where
  "list_claims_for_paper s ident =
     rbind (found_paper s ident) (\<lambda>p.
     rbind (raising (claim_owner_key p)) (\<lambda>owner_key.
       raising (rmap (\<lambda>c. apply_derived_status c s)
         (filter (\<lambda>c. dget c ''paper_id'' = PStr owner_key) (list_claims s)))))"

definition get_paper_stats :: "store_state \<Rightarrow> string \<Rightarrow> string \<Rightarrow> exn + pydict" where
  "get_paper_stats s now ident =
     rbind (found_paper s ident) (\<lambda>p.
     rbind (raising (claim_owner_key p)) (\<lambda>owner_key.
     rbind (raising (compute_stats owner_key s now)) (\<lambda>g. Inr (stats_dict g))))"

section \<open>Related papers\<close>

text \<open>\<open>set(xs)\<close>: values that compare equal are one element.\<close>

definition py_set :: "pyval list \<Rightarrow> pyexn + pyval list" where
  "py_set xs =
     (if list_ex unhashable xs then Inl TypeError
      else Inr (foldl (\<lambda>acc x. if list_ex (py_eq x) acc then acc else acc @ [x]) [] xs))"

definition topic_set :: "pydict \<Rightarrow> pyexn + pyval list" where
  "topic_set p = rbind (py_iter (py_or (dget p ''topics'') (PList []))) py_set"

text \<open>
  The score of a paper, a fraction, as its numerator and denominator. Fractions of sets
  with fewer than \<open>2 ^ 26\<close> elements are ordered alike as floating-point numbers.
\<close>

definition overlap :: "pyval list \<Rightarrow> pyval list \<Rightarrow> int \<times> int" where
  "overlap xs ys =
     (let common = length (filter (\<lambda>x. list_ex (py_eq x) ys) xs)
      in (int common, int (length xs + length ys - common)))"

definition better :: "(int \<times> int) \<times> 'a \<Rightarrow> (int \<times> int) \<times> 'a \<Rightarrow> bool" where
  "better a b = (fst (fst b) * snd (fst a) < fst (fst a) * snd (fst b))"

fun scored_papers :: "string \<Rightarrow> pyval list \<Rightarrow> pydict list \<Rightarrow> pyexn + ((int \<times> int) \<times> pydict) list" where
  "scored_papers canonical_id target_topics [] = Inr []"
| "scored_papers canonical_id target_topics (p # ps) =
     rbind (item_id p) (\<lambda>i.
       if i = canonical_id then scored_papers canonical_id target_topics ps
       else rbind (topic_set p) (\<lambda>other_topics.
         let score = overlap target_topics other_topics
         in rbind (scored_papers canonical_id target_topics ps) (\<lambda>rest.
              Inr (if 0 < fst score then (score, p) # rest else rest))))"

definition list_related_papers :: "store_state \<Rightarrow> string \<Rightarrow> string \<Rightarrow> nat \<Rightarrow> exn + pydict list" where
  "list_related_papers s now ident limit =
     rbind (found_paper s ident) (\<lambda>p.
     rbind (raising (item_id p)) (\<lambda>canonical_id.
     rbind (raising (topic_set p)) (\<lambda>target_topics.
     rbind (raising (scored_papers canonical_id target_topics (list_papers s))) (\<lambda>scored.
       raising (rmap (\<lambda>(_, q). to_list_item q s now) (take limit (sort_by better scored)))))))"

section \<open>Two versions\<close>

definition cir_or_paper :: "store_state \<Rightarrow> string \<Rightarrow> pydict \<Rightarrow> pydict" where
  "cir_or_paper s i p = (case get_cir s i of None \<Rightarrow> p | Some c \<Rightarrow> if c = [] then p else c)"

definition get_revision_diff ::
  "store_state \<Rightarrow> (pydict \<Rightarrow> pyval + cir_model) \<Rightarrow> string \<Rightarrow> string \<Rightarrow> string \<Rightarrow> exn + pydict" where
  "get_revision_diff s validate now ident from_ident =
     rbind (raising (resolve_paper s ident)) (\<lambda>cur.
     rbind (raising (resolve_paper s from_ident)) (\<lambda>prev.
       case cur of None \<Rightarrow> Inl (not_found (''paper '' @ ident @ '' not found'')) | Some cur \<Rightarrow>
       (case prev of None \<Rightarrow> Inl (not_found (''paper '' @ from_ident @ '' not found'')) | Some prev \<Rightarrow>
          rbind (raising (item_id prev)) (\<lambda>pi.
          rbind (raising (item_id cur)) (\<lambda>ci.
          rbind (raising (papers_in_same_lineage s pi ci)) (\<lambda>same.
            if \<not> same then
              Inl (HttpException 400
                [(''code'', PStr ''papers_not_in_same_lineage''),
                 (''message'', PStr (''papers '' @ pi @ '' and '' @ ci @
                    '' do not share a `previous_version` chain; cannot compute a revision diff''))])
            else
              let invalid = (\<lambda>errors. Inl (validation_error
                    (''a paper in this version lineage has a stored CIR that does not '' @
                     ''validate against the current schema; cannot compute a revision diff'')
                    [(''errors'', errors)]))
              in case validate (cir_or_paper s pi prev) of
                   Inl errors \<Rightarrow> invalid errors
                 | Inr prev_cir \<Rightarrow>
                     (case validate (cir_or_paper s ci cur) of
                        Inl errors \<Rightarrow> invalid errors
                      | Inr cur_cir \<Rightarrow> Inr (compute_revision_diff prev prev_cir cur cur_cir now))))))))"

section \<open>Errata\<close>

definition erratum_for :: "string \<Rightarrow> pydict \<Rightarrow> bool" where
  "erratum_for owner_key a =
     (dget a ''annotation_type'' = PStr ''erratum'' \<and>
      (dget a ''target_id'' = PStr owner_key \<or>
       startswith (case dict_get a ''target_id'' of None \<Rightarrow> [] | Some v \<Rightarrow> py_str v) (owner_key @ '':'')))"

definition list_errata ::
  "store_state \<Rightarrow> string \<Rightarrow> string option \<Rightarrow> int \<Rightarrow> exn + pydict list \<times> string option" where
  "list_errata s ident cursor limit =
     rbind (found_paper s ident) (\<lambda>p.
     rbind (raising (claim_owner_key p)) (\<lambda>owner_key.
       paginate (filter (erratum_for owner_key) (list_annotations s)) cursor (Some limit)
         (\<lambda>a. [py_or (dget a ''created_at'') (PStr []), py_or (dget a ''id'') (PStr [])]) True))"

section \<open>The listing\<close>

definition listed_ok :: "parse_iso \<Rightarrow> int \<Rightarrow> list_query \<Rightarrow> pydict \<Rightarrow> bool" where
  "listed_ok parse now_us q item \<longleftrightarrow>
     given (lq_topic q) (\<lambda>t. has_topic t item) \<and>
     given (lq_scope q) (\<lambda>sc. in_scope parse now_us sc item) \<and>
     given (lq_orcid q) (\<lambda>v. one_of has_orcid (csv_or_split v) item) \<and>
     given (lq_agent_handle q) (\<lambda>v. one_of has_agent_handle (csv_or_split v) item) \<and>
     given (lq_model_family q) (\<lambda>v. one_of has_model_family (map str_lower (csv_or_split v)) item) \<and>
     given (lq_model_name q) (\<lambda>v. one_of has_model_name_substring (map str_lower (csv_or_split v)) item)"

lemma list_papers_pool:
  assumes "list_papers_endpoint s parse now_us now q = Inr r"
  obtains papers items where "listed_papers s (lq_include_superseded q) = Inr papers"
    "rmap (\<lambda>p. to_list_item p s now) papers = Inr items"
    "paginate (filter (listed_ok parse now_us q) items) (lq_cursor q) (lq_limit q) paper_key True = Inr r"
proof -
  let ?steps = "\<lambda>items. rbind (when_given (lq_topic q) by_topic items) (\<lambda>items.
        rbind (when_given (lq_scope q) (\<lambda>sc pool. filter_by_scope parse now_us pool sc) items) (\<lambda>items.
        rbind (when_given (lq_orcid q) by_orcid items) (\<lambda>items.
        rbind (when_given (lq_agent_handle q) by_agent_handle items) (\<lambda>items.
        rbind (when_given (lq_model_family q) by_model_family items) (\<lambda>items.
          when_given (lq_model_name q) by_model_name items)))))"
  have keep: "keeps ?steps (listed_ok parse now_us q)"
    unfolding listed_ok_def [abs_def] by (intro keeps_then keeps_intros)
  from assms obtain papers items kept where l: "listed_papers s (lq_include_superseded q) = Inr papers"
    and i: "rmap (\<lambda>p. to_list_item p s now) papers = Inr items"
    and k: "?steps items = Inr kept" and p: "paginate kept (lq_cursor q) (lq_limit q) paper_key True = Inr r"
    by (auto simp: list_papers_endpoint_def rbind_Inr_iff)
  from that [OF l i] keepsD [OF keep k] p show thesis by simp
qed

lemma paginate_subset:
  assumes "paginate items cursor limit key desc = Inr (page, c)"
  shows "set page \<subseteq> set items"
proof -
  from assms obtain ordered n m where "py_sorted key desc items = Inr ordered" "page = take n (drop m ordered)"
    by (auto simp: paginate_def rbind_Inr_iff Let_def)
  then show ?thesis
    by (auto simp: py_sorted_def dest!: in_set_takeD in_set_dropD split: if_splits)
qed

lemma rmap_member: "rmap f xs = Inr ys \<Longrightarrow> y \<in> set ys \<Longrightarrow> \<exists>x \<in> set xs. f x = Inr y"
  by (induction xs arbitrary: ys) (auto simp: rbind_Inr_iff)

lemma pointed_at_iff:
  "v \<in> set (pointed_at ps) \<longleftrightarrow> v \<noteq> [] \<and> (\<exists>p \<in> set ps. dget p ''previous_version'' = PStr v)"
  by (force simp: pointed_at_def split: pyval.splits if_splits)

text \<open>
  The default listing serves list items of stored papers that no stored paper names as
  its previous version, and only items that meet every filter of the request.
\<close>

lemma default_listing_heads:
  assumes "list_papers_endpoint s parse now_us now q = Inr (page, c)" "\<not> lq_include_superseded q"
    and "item \<in> set page"
  shows "listed_ok parse now_us q item \<and>
    (\<exists>p \<in> set (list_papers s). to_list_item p s now = Inr item \<and>
      \<not> (\<exists>v r. v \<noteq> [] \<and> r \<in> set (list_papers s) \<and> dget r ''previous_version'' = PStr v \<and> dget p ''id'' = PStr v))"
proof -
  from assms(1) obtain papers items where l: "listed_papers s (lq_include_superseded q) = Inr papers"
    and i: "rmap (\<lambda>p. to_list_item p s now) papers = Inr items"
    and p: "paginate (filter (listed_ok parse now_us q) items) (lq_cursor q) (lq_limit q) paper_key True = Inr (page, c)"
    by (rule list_papers_pool)
  from paginate_subset [OF p] assms(3) have ok: "listed_ok parse now_us q item" "item \<in> set items" by auto
  from rmap_member [OF i ok(2)] obtain p where pp: "p \<in> set papers" "to_list_item p s now = Inr item" by blast
  from l assms(2) have "p \<in> set (list_papers s) \<and> not_among (pointed_at (list_papers s)) p = Inr True"
    using pp(1) by (auto simp: listed_papers_def Let_def rfilter_Inr)
  then have "p \<in> set (list_papers s)" "dget p ''id'' \<notin> PStr ` set (pointed_at (list_papers s))"
    by (auto simp: not_among_def Let_def split: if_splits)
  moreover have "v \<in> set (pointed_at (list_papers s))"
    if "v \<noteq> []" "r \<in> set (list_papers s)" "dget r ''previous_version'' = PStr v" for v r
    using that by (auto simp: pointed_at_iff)
  ultimately show ?thesis using ok(1) pp(2) by blast
qed

definition default_query :: list_query where
  "default_query = \<lparr>lq_scope = None, lq_topic = None, lq_orcid = None, lq_agent_handle = None,
     lq_model_family = None, lq_model_name = None, lq_cursor = None, lq_limit = None, lq_include_superseded = False\<rparr>"

lemma default_listing_heads_witness:
  "\<exists>item. (\<exists>c. list_papers_endpoint two_versions (\<lambda>_. None) 0 ''t'' default_query = Inr ([item], c)) \<and>
    (\<exists>p \<in> set (list_papers two_versions). to_list_item p two_versions ''t'' = Inr item \<and> dget p ''id'' \<noteq> PStr ''v1'')"
proof -
  have "case list_papers_endpoint two_versions (\<lambda>_. None) 0 ''t'' default_query of
      Inl _ \<Rightarrow> False | Inr (page, c) \<Rightarrow> length page = 1" by code_simp
  then obtain item c where page: "list_papers_endpoint two_versions (\<lambda>_. None) 0 ''t'' default_query = Inr ([item], c)"
    by (auto simp: length_Suc_conv split: sum.splits prod.splits)
  have "\<not> lq_include_superseded default_query" by (simp add: default_query_def)
  from default_listing_heads [OF page this, of item] obtain p where
    p: "p \<in> set (list_papers two_versions)" "to_list_item p two_versions ''t'' = Inr item"
    and heads: "\<not> (\<exists>v r. v \<noteq> [] \<and> r \<in> set (list_papers two_versions) \<and>
      dget r ''previous_version'' = PStr v \<and> dget p ''id'' = PStr v)" by auto
  have "\<exists>r \<in> set (list_papers two_versions). dget r ''previous_version'' = PStr ''v1''" by code_simp
  with heads have "dget p ''id'' \<noteq> PStr ''v1''" by fastforce
  with p page show ?thesis by blast
qed

text \<open>The search that asks for what a listing asks for.\<close>

definition search_of :: "list_query \<Rightarrow> int \<Rightarrow> search_query" where
  "search_of q n = \<lparr>sq_q = [], sq_limit = n, sq_cursor = lq_cursor q, sq_scope = lq_scope q, sq_topic = lq_topic q,
     sq_author = None, sq_orcid = lq_orcid q, sq_agent_handle = lq_agent_handle q,
     sq_model_family = lq_model_family q, sq_model_name = lq_model_name q, sq_status = None,
     sq_claims_min = None, sq_submitted_from = None, sq_submitted_to = None, sq_sort = None\<rparr>"

text \<open>
  A listing with every version and a search without a needle, given the same filters,
  limit and cursor, serve the same page, although they filter in different orders.
\<close>

lemma listing_agrees_with_search:
  assumes "list_papers_endpoint s parse now_us now (q\<lparr>lq_include_superseded := True, lq_limit := Some n\<rparr>) = Inr r"
    and "search_papers s parse now_us now (search_of q n) = Inr r'"
  shows "r = r'"
proof -
  let ?q = "q\<lparr>lq_include_superseded := True, lq_limit := Some n\<rparr>"
  from assms(1) obtain papers items where l: "listed_papers s (lq_include_superseded ?q) = Inr papers"
    and i: "rmap (\<lambda>p. to_list_item p s now) papers = Inr items"
    and p: "paginate (filter (listed_ok parse now_us ?q) items) (lq_cursor ?q) (lq_limit ?q) paper_key True = Inr r"
    by (rule list_papers_pool)
  have strip: "str_lower (str_strip []) = []" by (simp add: str_strip_def str_lower_def)
  from assms(2) obtain found pool where found: "matching_items s now [] (list_papers s) = Inr found"
    and pool: "filter_pool parse now_us (search_of q n) found = Inr pool"
    and page: "paginate pool (lq_cursor q) (Some n) paper_key True = Inr r'"
    by (auto simp: search_papers_def rbind_Inr_iff search_of_def strip sort_pool_def Let_def split: if_splits)
  have "found = items" using matching_items_rmap [OF found] l i by (simp add: listed_papers_def)
  moreover have "wanted parse now_us (search_of q n) = listed_ok parse now_us ?q"
    by (auto simp: fun_eq_iff wanted_def listed_ok_def search_of_def given_def)
  ultimately have "pool = filter (listed_ok parse now_us ?q) items"
    using keepsD [OF filter_pool_keeps pool] by simp
  with p page show ?thesis by simp
qed

lemma listing_agrees_with_search_witness:
  "\<exists>r. list_papers_endpoint search_store (\<lambda>_. None) 0 ''t''
      (default_query\<lparr>lq_topic := Some ''nt'', lq_include_superseded := True, lq_limit := Some 1\<rparr>) = Inr r \<and>
    search_papers search_store (\<lambda>_. None) 0 ''t'' (search_of (default_query\<lparr>lq_topic := Some ''nt''\<rparr>) 1) = Inr r"
proof -
  have "\<not> isl (list_papers_endpoint search_store (\<lambda>_. None) 0 ''t''
      (default_query\<lparr>lq_topic := Some ''nt'', lq_include_superseded := True, lq_limit := Some 1\<rparr>))"
    "\<not> isl (search_papers search_store (\<lambda>_. None) 0 ''t'' (search_of (default_query\<lparr>lq_topic := Some ''nt''\<rparr>) 1))"
    by code_simp+
  then obtain r r' where r: "list_papers_endpoint search_store (\<lambda>_. None) 0 ''t''
      (default_query\<lparr>lq_topic := Some ''nt'', lq_include_superseded := True, lq_limit := Some 1\<rparr>) = Inr r"
    "search_papers search_store (\<lambda>_. None) 0 ''t'' (search_of (default_query\<lparr>lq_topic := Some ''nt''\<rparr>) 1) = Inr r'"
    by (metis isl_def sum.exhaust)
  then show ?thesis using listing_agrees_with_search [OF _ r(2)] by auto
qed

section \<open>Related papers\<close>

definition topics_overlap :: "pydict \<Rightarrow> pydict \<Rightarrow> int \<times> int" where
  "topics_overlap p q =
     (case (topic_set p, topic_set q) of (Inr xs, Inr ys) \<Rightarrow> overlap xs ys | _ \<Rightarrow> (0, 0))"

definition similarity :: "pydict \<Rightarrow> pydict \<Rightarrow> rat" where
  "similarity p q = of_int (fst (topics_overlap p q)) / of_int (snd (topics_overlap p q))"

lemma overlap_bounds: "0 \<le> fst (overlap xs ys)" "0 \<le> snd (overlap xs ys)"
    "0 < fst (overlap xs ys) \<Longrightarrow> 0 < snd (overlap xs ys)"
proof -
  define n where "n = length (filter (\<lambda>x. list_ex (py_eq x) ys) xs)"
  have o: "overlap xs ys = (int n, int (length xs + length ys - n))" by (simp add: overlap_def n_def Let_def del: of_nat_diff)
  have n: "n \<le> length xs" by (simp add: n_def)
  have ys: "ys = [] \<Longrightarrow> n = 0" by (simp add: n_def)
  show "0 \<le> fst (overlap xs ys)" "0 \<le> snd (overlap xs ys)" by (simp_all add: o)
  assume "0 < fst (overlap xs ys)"
  then have "0 < n" "ys \<noteq> []" using o ys by auto
  then have "0 < length ys" by simp
  with n have "n < length xs + length ys" by linarith
  then show "0 < snd (overlap xs ys)" by (simp add: o)
qed

lemma scored_papers_Inr:
  assumes "scored_papers i tt ps = Inr scored" "topic_set p = Inr tt"
  shows "map snd scored = filter (\<lambda>q. dget q ''id'' \<noteq> PStr i \<and> 0 < similarity p q) ps \<and>
    (\<forall>(sc, q) \<in> set scored. sc = topics_overlap p q \<and> 0 < fst sc \<and> 0 < snd sc)"
  using assms(1)
proof (induction ps arbitrary: scored)
  case Nil
  then show ?case by simp
next
  case (Cons q ps)
  from Cons.prems obtain j where j: "item_id q = Inr j" by (auto simp: rbind_Inr_iff)
  then have idq: "dget q ''id'' = PStr j" by (auto simp: item_id_def dget_def split: option.splits pyval.splits)
  show ?case
  proof (cases "j = i")
    case True
    with Cons j idq show ?thesis by simp
  next
    case False
    with Cons.prems j obtain ot rest where ot: "topic_set q = Inr ot" and rest: "scored_papers i tt ps = Inr rest"
      and sc: "scored = (if 0 < fst (overlap tt ot) then (overlap tt ot, q) # rest else rest)"
      by (auto simp: rbind_Inr_iff Let_def)
    have o: "topics_overlap p q = overlap tt ot" by (simp add: topics_overlap_def assms(2) ot)
    have "0 < similarity p q \<longleftrightarrow> 0 < fst (overlap tt ot)"
      using overlap_bounds [of tt ot] by (auto simp: similarity_def o zero_less_divide_iff)
    with Cons.IH [OF rest] sc o False idq overlap_bounds [of tt ot] show ?thesis by auto
  qed
qed

lemma better_similarity:
  assumes "sc = topics_overlap p q" "0 < snd sc" "sc' = topics_overlap p r" "0 < snd sc'"
  shows "better (sc, q) (sc', r) \<longleftrightarrow> similarity p r < similarity p q"
  using assms by (simp add: better_def similarity_def divide_less_eq less_divide_eq field_simps flip: of_int_mult)

text \<open>
  The related papers of a paper are list items of other papers that share a topic with
  it, at most the limit; no paper left out is more similar, in the Jaccard index of the
  topics, than one served, and one is left out only when the limit is reached.
\<close>

lemma related_are_best:
  assumes "list_related_papers s now ident limit = Inr items"
  shows "\<exists>p chosen left_out. resolve_paper s ident = Inr (Some p) \<and>
    mset (chosen @ left_out) =
      mset (filter (\<lambda>q. dget q ''id'' \<noteq> dget p ''id'' \<and> 0 < similarity p q) (list_papers s)) \<and>
    rmap (\<lambda>q. to_list_item q s now) chosen = Inr items \<and>
    length chosen \<le> limit \<and> (left_out = [] \<or> length chosen = limit) \<and>
    sorted_wrt (\<lambda>q r. similarity p r \<le> similarity p q) (chosen @ left_out)"
proof -
  from assms obtain p i tt scored where p: "resolve_paper s ident = Inr (Some p)" and i: "item_id p = Inr i"
    and tt: "topic_set p = Inr tt" and sc: "scored_papers i tt (list_papers s) = Inr scored"
    and items: "rmap (\<lambda>(_, q). to_list_item q s now) (take limit (sort_by better scored)) = Inr items"
    by (auto simp: list_related_papers_def found_paper_def rbind_Inr_iff split: option.splits)
  define ranked where "ranked = sort_by better scored"
  note s = scored_papers_Inr [OF sc tt]
  have idp: "dget p ''id'' = PStr i" using i by (auto simp: item_id_def dget_def split: option.splits pyval.splits)
  have bs: "better a b \<longleftrightarrow> similarity p (snd b) < similarity p (snd a)" if "a \<in> set scored" "b \<in> set scored" for a b
    using that s better_similarity [of "fst a" p "snd a" "fst b" "snd b"] by fastforce
  have "sorted_wrt (\<lambda>a b. \<not> better b a) ranked"
    unfolding ranked_def by (rule sorted_sort_by) (auto simp: bs)
  then have "sorted_wrt (\<lambda>a b. similarity p (snd b) \<le> similarity p (snd a)) ranked"
    by (rule sorted_wrt_mono_rel [rotated]) (auto simp: ranked_def bs)
  then have order: "sorted_wrt (\<lambda>q r. similarity p r \<le> similarity p q) (map snd ranked)"
    by (simp add: sorted_wrt_map)
  have "mset (map snd ranked) = mset (map snd scored)" by (simp add: ranked_def)
  then have all: "mset (map snd ranked) =
      mset (filter (\<lambda>q. dget q ''id'' \<noteq> dget p ''id'' \<and> 0 < similarity p q) (list_papers s))"
    using s idp by simp
  have "rmap (\<lambda>q. to_list_item q s now) (map snd xs) = rmap (\<lambda>(_, q). to_list_item q s now) xs"
    for xs :: "((int \<times> int) \<times> pydict) list" by (induction xs) (auto simp: case_prod_unfold)
  then have "rmap (\<lambda>q. to_list_item q s now) (take limit (map snd ranked)) = Inr items"
    using items by (simp add: ranked_def take_map)
  with p all order show ?thesis
    by (intro exI [of _ p] exI [of _ "take limit (map snd ranked)"] exI [of _ "drop limit (map snd ranked)"]) auto
qed

lemma related_are_best_witness:
  "\<exists>items chosen. list_related_papers search_store ''t'' ''a'' 3 = Inr items \<and> length chosen \<le> 3 \<and>
    rmap (\<lambda>q. to_list_item q search_store ''t'') chosen = Inr items"
proof -
  have "\<not> isl (list_related_papers search_store ''t'' ''a'' 3)" by code_simp
  then obtain items where items: "list_related_papers search_store ''t'' ''a'' 3 = Inr items"
    by (metis isl_def sum.exhaust)
  from related_are_best [OF this] items show ?thesis by blast
qed

end
