(* ===== verification/Submissions.thy ===== *)
theory Submissions
  imports Papers_Router Auth_Deps Codecs
begin

text \<open>
  Submitting papers and revisions, and the downloads of what was submitted,
  \<open>server/submissions/router.py\<close>. A submission first prepares the structure it would
  store (hash, schema, id, slug, canonical claim ids, revision diff) without touching the
  store, then persists it. Parameters: the parser of the uploaded JSON, the digest, the
  schema validation (its errors, or the model's \<open>id\<close> and the model), the ids the
  server would mint one after the other, and the clock. A validated structure is an object
  whose \<open>id_slug\<close> is a string or missing.
\<close>

section \<open>Requests\<close>

record submission =
  sm_cir :: bytes
  sm_bundle :: bytes
  sm_pdf :: "bytes option"
  sm_previous_version :: "string option"
  sm_revision_summary :: "string option"
  sm_dry_run :: "string option"
  sm_client_compile_hash :: "string option"
  sm_idempotency_key :: "string option"

record submit_env =
  se_decode_json :: "bytes \<Rightarrow> string + pyval"
  se_sha256 :: "bytes \<Rightarrow> string"
  se_validate :: "pyval \<Rightarrow> pyval + string \<times> cir_model"
  se_fresh_id :: "nat \<Rightarrow> string"
  se_fresh_hex :: string
  se_year :: nat
  se_month :: nat
  se_now :: string
  se_now_unix :: int

text \<open>\<open>if v:\<close> for an optional text.\<close>

definition nonempty :: "string option \<Rightarrow> string option" where
  "nonempty v = (case v of None \<Rightarrow> None | Some t \<Rightarrow> if t = [] then None else Some t)"

definition is_dry_run :: "submission \<Rightarrow> bool" where
  "is_dry_run r =
     (str_lower (case sm_dry_run r of None \<Rightarrow> [] | Some v \<Rightarrow> v) \<in> set [''true'', ''1'', ''yes''])"

section \<open>Preparing\<close>

definition check_bundle_hash :: "submit_env \<Rightarrow> submission \<Rightarrow> exn + unit" where
  "check_bundle_hash env r =
     (case nonempty (sm_client_compile_hash r) of
        None \<Rightarrow> Inr ()
      | Some expected \<Rightarrow>
          let actual = se_sha256 env (sm_bundle r)
          in if str_lower actual \<noteq> str_lower expected then
               Inl (HttpException 400
                 [(''code'', PStr ''bundle_hash_mismatch''),
                  (''message'', PStr (''client_compile_hash does not match the SHA-256 of '' @
                     ''the uploaded bundle (got '' @ actual @ '', expected '' @ expected @ '')''))])
             else Inr ())"

definition read_cir :: "submit_env \<Rightarrow> submission \<Rightarrow> exn + pydict \<times> string \<times> cir_model" where
  "read_cir env r =
     (case se_decode_json env (sm_cir r) of
        Inl e \<Rightarrow> Inl (bad_request (''cir is not valid UTF-8 JSON: '' @ e) [])
      | Inr data \<Rightarrow>
          (case se_validate env data of
             Inl errors \<Rightarrow> Inl (validation_error ''cir failed schema validation'' [(''errors'', errors)])
           | Inr (cir_id, cir_obj) \<Rightarrow>
               (case data of PDict d \<Rightarrow> Inr (d, cir_id, cir_obj) | _ \<Rightarrow> Inl (Raised TypeError))))"

text \<open>Minting until no stored paper has the id; nothing when the fuel runs out.\<close>

fun mint_unused :: "nat \<Rightarrow> store_state \<Rightarrow> (nat \<Rightarrow> string) \<Rightarrow> nat \<Rightarrow> string option" where
  "mint_unused 0 s fresh n = None"
| "mint_unused (Suc fuel) s fresh n =
     (if get_paper s (fresh n) = None then Some (fresh n) else mint_unused fuel s fresh (Suc n))"

definition assign_paper_id :: "submit_env \<Rightarrow> store_state \<Rightarrow> string option \<Rightarrow> string \<Rightarrow> string option" where
  "assign_paper_id env s previous_version cir_id =
     (case previous_version of
        Some prev \<Rightarrow>
          let (paper_id, n) = (if cir_id = [] then (se_fresh_id env 0, 1) else (cir_id, 0))
          in Some (if paper_id = prev then se_fresh_id env n else paper_id)
      | None \<Rightarrow> mint_unused (Suc (length (st_papers s))) s (se_fresh_id env) 0)"

definition assign_slug :: "submit_env \<Rightarrow> store_state \<Rightarrow> string option \<Rightarrow> pydict \<Rightarrow> pyexn + pydict" where
  "assign_slug env s previous_version data =
     (let minted = (\<lambda>_ :: unit. rbind (mint_slug (list_papers s) (se_year env) (se_month env)) (\<lambda>slug.
            Inr (dict_set ''id_slug'' (PStr slug) data)))
      in if truthy (dget data ''id_slug'') then Inr data
         else case previous_version of
           None \<Rightarrow> minted ()
         | Some prev \<Rightarrow>
             (case get_paper s prev of
                None \<Rightarrow> minted ()
              | Some prior \<Rightarrow>
                  if truthy (dget prior ''id_slug'') then Inr (dict_set ''id_slug'' (dget prior ''id_slug'') data)
                  else minted ()))"

definition canonicalised :: "pydict \<Rightarrow> pyexn + pydict" where
  "canonicalised data =
     (let slug = dget data ''id_slug''
      in if truthy slug then rbind (canonicalise_claim_ids data (py_str slug)) (\<lambda>(d, _). Inr d) else Inr data)"

definition submission_diff ::
  "submit_env \<Rightarrow> store_state \<Rightarrow> string option \<Rightarrow> pydict \<Rightarrow> cir_model \<Rightarrow> exn + pyval" where
  "submission_diff env s previous_version data cir_obj =
     (case previous_version of
        None \<Rightarrow> Inr PNone
      | Some prev \<Rightarrow>
          (case get_paper s prev of
             None \<Rightarrow> Inl (HttpException 400
                [(''code'', PStr ''previous_version_not_found''),
                 (''message'', PStr (''previous_version '' @ repr_str prev @ '' does not '' @ ''exist in the corpus''))])
           | Some prior \<Rightarrow>
               rbind (raising (item_id prior)) (\<lambda>i.
                 case se_validate env (PDict (cir_or_paper s i prior)) of
                   Inl errors \<Rightarrow> Inl (validation_error
                      (''the previous_version's stored CIR does not validate against '' @
                       ''the current schema; cannot compute a revision diff'') [(''errors'', errors)])
                 | Inr (_, prior_cir) \<Rightarrow>
                     Inr (PDict (compute_revision_diff prior prior_cir data cir_obj (se_now env))))))"

text \<open>
  Everything before the dry-run check: the paper's id, its structure and the diff. Nothing
  at all when minting does not end.
\<close>

definition prepare_submission ::
  "submit_env \<Rightarrow> authed_request \<Rightarrow> submission \<Rightarrow> store_state \<Rightarrow> (exn + string \<times> pydict \<times> pyval) option" where
  "prepare_submission env auth r s =
     (let previous_version = nonempty (sm_previous_version r)
      in if is_anonymous (au_identity auth)
         then Some (Inl (forbidden ''anonymous identities cannot submit papers''))
         else case rbind (check_bundle_hash env r) (\<lambda>_. read_cir env r) of
           Inl e \<Rightarrow> Some (Inl e)
         | Inr (data, cir_id, cir_obj) \<Rightarrow>
             (case assign_paper_id env s previous_version cir_id of
                None \<Rightarrow> None
              | Some paper_id \<Rightarrow>
                  let data = dict_set ''id'' (PStr paper_id) data;
                      data = (case previous_version of
                          None \<Rightarrow> data | Some prev \<Rightarrow> dict_set ''previous_version'' (PStr prev) data)
                  in Some
                    (rbind (raising (rbind (assign_slug env s previous_version data) canonicalised)) (\<lambda>data.
                     rbind (submission_diff env s previous_version data cir_obj) (\<lambda>diff.
                       Inr (paper_id, data, diff))))))"

section \<open>Persisting\<close>

definition source_field :: "string \<Rightarrow> string \<Rightarrow> pydict \<Rightarrow> pydict" where
  "source_field k uri data =
     (case dget data ''source'' of
        PDict d \<Rightarrow> dict_set ''source'' (PDict (dict_set k (PStr uri) d)) data
      | _ \<Rightarrow> data)"

definition default_format :: "pydict \<Rightarrow> pydict" where
  "default_format data =
     (case dget data ''source'' of
        PDict d \<Rightarrow> dict_set ''source'' (PDict (dict_setdefault ''format'' (PStr ''latex'') d)) data
      | _ \<Rightarrow> data)"

definition paper_metadata :: "pydict \<Rightarrow> pydict" where
  "paper_metadata data =
     filter (\<lambda>(k, _). k \<notin> set [''claims'', ''citations'', ''annotations'', ''sections'', ''figures'']) data"

fun add_claims :: "pyval list \<Rightarrow> store_state \<Rightarrow> (pyexn + unit) \<times> store_state" where
  "add_claims [] s = (Inr (), s)"
| "add_claims (PDict c # cs) s =
     (case add_claim c s of Inl e \<Rightarrow> (Inl e, s) | Inr s' \<Rightarrow> add_claims cs s')"
| "add_claims (_ # cs) s = add_claims cs s"

text \<open>No identity has a field \<open>orcid\<close>: only agents are recognised here.\<close>

definition summary_author :: "identity \<Rightarrow> pydict" where
  "summary_author i =
     [(''identity_type'', PStr ''agent''),
      (''identity'', PStr (case i of AgentIdentity h \<Rightarrow> h | _ \<Rightarrow> ''unknown''))]"

definition revision_summary_annotation ::
  "submit_env \<Rightarrow> string \<Rightarrow> string \<Rightarrow> string \<Rightarrow> identity \<Rightarrow> pydict" where
  "revision_summary_annotation env new_paper_id previous_version_id summary identity =
     [(''id'', PStr (''ann-'' @ se_fresh_hex env)), (''target_id'', PStr new_paper_id),
      (''target_type'', PStr ''paper''), (''annotation_type'', PStr ''revision_summary''),
      (''content'', PStr summary),
      (''structured_payload'', PDict [(''previous_version_id'', PStr previous_version_id),
         (''summary'', PStr summary), (''highlights'', PList [])]),
      (''created_at'', PStr (se_now env)), (''created_by'', PDict (summary_author identity))]"

definition dry_run_body :: "pydict \<Rightarrow> pyval \<Rightarrow> pydict" where
  "dry_run_body data diff =
     [(''paper_id'', PNone), (''id_slug'', dget data ''id_slug''), (''version'', dget data ''version''),
      (''previous_version'', dget data ''previous_version''),
      (''revision_diff'', diff), (''would_persist'', PBool True), (''dry_run'', PBool True)]"

definition persisted_body :: "string \<Rightarrow> string \<Rightarrow> pydict \<Rightarrow> pyval \<Rightarrow> pydict" where
  "persisted_body paper_id uri data diff =
     [(''paper_id'', PStr paper_id), (''id_slug'', dget data ''id_slug''), (''version'', dget data ''version''),
      (''previous_version'', dget data ''previous_version''), (''retrieval_uri'', PStr uri),
      (''revision_diff'', diff), (''would_persist'', PBool True), (''dry_run'', PBool False)]"

definition persist_submission ::
  "submit_env \<Rightarrow> authed_request \<Rightarrow> submission \<Rightarrow> string \<Rightarrow> pydict \<Rightarrow> pyval \<Rightarrow> store_state
    \<Rightarrow> (pyexn + pydict) \<times> store_state" where
  "persist_submission env auth r paper_id data0 diff s0 =
     (let (source_uri, s1) = save_source paper_id (sm_bundle r) s0;
          data1 = default_format (source_field ''uri'' source_uri (dict_setdefault ''source'' (PDict []) data0));
          (data, s2) = (case nonempty (sm_pdf r) of
              None \<Rightarrow> (data1, s1)
            | Some pdf \<Rightarrow>
                let (pdf_uri, s2) = save_rendered_pdf paper_id pdf s1
                in (source_field ''rendered_pdf_uri'' pdf_uri data1, s2))
      in case add_paper (paper_metadata data) s2 of
           Inl e \<Rightarrow> (Inl e, s2)
         | Inr s3 \<Rightarrow>
         (case add_cir data s3 of
            Inl e \<Rightarrow> (Inl e, s3)
          | Inr s4 \<Rightarrow>
          (case py_iter (py_or (dget data ''claims'') (PList [])) of
             Inl e \<Rightarrow> (Inl e, s4)
           | Inr claims \<Rightarrow>
           (case add_claims claims s4 of
              (Inl e, s5) \<Rightarrow> (Inl e, s5)
            | (Inr _, s5) \<Rightarrow>
              (case (case (nonempty (sm_previous_version r), nonempty (sm_revision_summary r)) of
                       (Some prev, Some summary) \<Rightarrow>
                         add_annotation (revision_summary_annotation env paper_id prev summary (au_identity auth)) s5
                     | _ \<Rightarrow> Inr s5) of
                 Inl e \<Rightarrow> (Inl e, s5)
               | Inr s6 \<Rightarrow>
                   let body = persisted_body paper_id source_uri data diff
                   in (Inr body,
                       case nonempty (sm_idempotency_key r) of
                         None \<Rightarrow> s6
                       | Some k \<Rightarrow> add_idempotency (au_token auth) k
                           \<lparr>ie_body_sha256 = [], ie_response_status = 201, ie_response_body = body,
                            ie_created_at_unix = se_now_unix env\<rparr> s6))))))"

definition submit_paper ::
  "submit_env \<Rightarrow> authed_request \<Rightarrow> submission \<Rightarrow> store_state \<Rightarrow> ((exn + int \<times> pydict) \<times> store_state) option" where
  "submit_paper env auth r s =
     (case prepare_submission env auth r s of
        None \<Rightarrow> None
      | Some (Inl e) \<Rightarrow> Some (Inl e, s)
      | Some (Inr (paper_id, data, diff)) \<Rightarrow>
          Some
            (if is_dry_run r then (Inr (200, dry_run_body data diff), s)
             else case (case nonempty (sm_idempotency_key r) of
                 None \<Rightarrow> None | Some k \<Rightarrow> get_idempotency s (au_token auth) k) of
               Some e \<Rightarrow> (Inr (201, ie_response_body e), s)
             | None \<Rightarrow>
                 (case persist_submission env auth r paper_id data diff s of
                    (Inl e, s') \<Rightarrow> (Inl (Raised e), s')
                  | (Inr body, s') \<Rightarrow> (Inr (201, body), s'))))"

section \<open>Downloads\<close>

text \<open>
  An archive as the standard library's reader presents it: its members in order, or the text
  of the error. The guess of a media type from a file name is a parameter too.
\<close>

record tar_member =
  tm_name :: string
  tm_size :: int
  tm_isfile :: bool
  tm_content :: "bytes option"

type_synonym tar_reader = "bytes \<Rightarrow> string + tar_member list"

record download =
  dl_content :: bytes
  dl_media_type :: string
  dl_disposition :: string

definition lower_ends :: "string \<Rightarrow> string list \<Rightarrow> bool" where
  "lower_ends path exts = list_ex (\<lambda>e. endswith (str_lower path) e) exts"

definition source_kind_by_ext :: "(string \<times> string) list" where
  "source_kind_by_ext =
     [(''.tex'', ''tex''), (''.cls'', ''cls''), (''.sty'', ''sty''), (''.bib'', ''bib''), (''.bbl'', ''bib''),
      (''.png'', ''image''), (''.jpg'', ''image''), (''.jpeg'', ''image''), (''.pdf'', ''image''), (''.svg'', ''image'')]"

definition classify_source_file :: "string \<Rightarrow> string" where
  "classify_source_file path =
     (case filter (\<lambda>(ext, _). endswith (str_lower path) ext) source_kind_by_ext of
        [] \<Rightarrow> ''other'' | (_, k) # _ \<Rightarrow> k)"

definition base_name :: "string \<Rightarrow> string" where
  "base_name path = last (split_on (CHR ''/'') path)"

definition is_noise_file :: "string \<Rightarrow> bool" where
  "is_noise_file path =
     (startswith (base_name path) ''._'' \<or>
      base_name path \<in> set [''.DS_Store'', ''Thumbs.db'', ''.gitkeep''] \<or>
      str_contains ''/__MACOSX/'' (''/'' @ path @ ''/''))"

definition source_sort_key :: "string \<Rightarrow> nat" where
  "source_sort_key path =
     (if base_name (str_lower path) \<in> set [''main.tex'', ''main-flat.tex'', ''paper.tex''] then 0
      else if lower_ends path [''.tex''] then 1
      else if lower_ends path [''.cls'', ''.sty''] then 2
      else if lower_ends path [''.bib''] then 3
      else 4)"

definition manifest_files :: "tar_member list \<Rightarrow> (string \<times> int \<times> string) list" where
  "manifest_files members =
     sort_key (\<lambda>(path, _, _). (source_sort_key path, path))
       (map (\<lambda>m. (tm_name m, tm_size m, classify_source_file (tm_name m)))
         (filter (\<lambda>m. tm_isfile m \<and> \<not> is_noise_file (tm_name m)) members))"

definition stored_source :: "store_state \<Rightarrow> string \<Rightarrow> exn + pydict \<times> string \<times> bytes" where
  "stored_source s ident =
     rbind (found_paper s ident) (\<lambda>p.
     rbind (raising (item_id p)) (\<lambda>i.
       case load_source s i of
         None \<Rightarrow> Inl (not_found (''paper '' @ ident @ '' has no source archive''))
       | Some b \<Rightarrow> Inr (p, i, b)))"

definition file_stem :: "pydict \<Rightarrow> string \<Rightarrow> string" where
  "file_stem p i = py_str (py_or (dget p ''id_slug'') (PStr i))"

definition dquoted :: "string \<Rightarrow> string" where
  "dquoted t = [char_of (34 :: nat)] @ t @ [char_of (34 :: nat)]"

definition get_paper_source :: "store_state \<Rightarrow> string \<Rightarrow> exn + download" where
  "get_paper_source s ident =
     rbind (stored_source s ident) (\<lambda>(p, i, b).
       Inr \<lparr>dl_content = b, dl_media_type = ''application/gzip'',
            dl_disposition = ''attachment; filename='' @ dquoted (file_stem p i @ ''.tar.gz'')\<rparr>)"

definition get_paper_pdf :: "store_state \<Rightarrow> string \<Rightarrow> exn + download" where
  "get_paper_pdf s ident =
     rbind (found_paper s ident) (\<lambda>p.
     rbind (raising (item_id p)) (\<lambda>i.
       case load_rendered_pdf s i of
         None \<Rightarrow> Inl (not_found (''paper '' @ ident @ '' has no rendered PDF''))
       | Some b \<Rightarrow> Inr \<lparr>dl_content = b, dl_media_type = ''application/pdf'',
            dl_disposition = ''inline; filename='' @ dquoted (file_stem p i @ ''.pdf'')\<rparr>))"

definition unreadable :: "string \<Rightarrow> string \<Rightarrow> exn" where
  "unreadable ident e = not_found (''paper '' @ ident @ '' source archive is unreadable: '' @ e)"

definition get_paper_source_manifest ::
  "tar_reader \<Rightarrow> store_state \<Rightarrow> string \<Rightarrow> exn + string \<times> (string \<times> int \<times> string) list" where
  "get_paper_source_manifest read_tar s ident =
     rbind (stored_source s ident) (\<lambda>(p, i, b).
       case read_tar b of
         Inl e \<Rightarrow> Inl (unreadable ident e)
       | Inr members \<Rightarrow> Inr (i, manifest_files members))"

text \<open>
  \<open>tar.getmember\<close>: the last member of that name; trailing slashes of the name asked
  for are ignored.
\<close>

definition getmember :: "tar_member list \<Rightarrow> string \<Rightarrow> tar_member option" where
  "getmember members name =
     find (\<lambda>m. tm_name m = rev (dropWhile (\<lambda>c. c = CHR ''/'') (rev name))) (rev members)"

definition top_level :: "tar_member list \<Rightarrow> string list" where
  "top_level members =
     sort (remdups (map (\<lambda>m. hd (split_on (CHR ''/'') (tm_name m)))
       (filter (\<lambda>m. CHR ''/'' \<in> set (tm_name m)) members)))"

fun first_member :: "tar_member list \<Rightarrow> string list \<Rightarrow> tar_member option" where
  "first_member members [] = None"
| "first_member members (name # names) =
     (case getmember members name of Some m \<Rightarrow> Some m | None \<Rightarrow> first_member members names)"

definition resolve_archive_member :: "tar_member list \<Rightarrow> string \<Rightarrow> tar_member option" where
  "resolve_archive_member members path =
     first_member members (path # map (\<lambda>top. top @ ''/'' @ path) (top_level members))"

text \<open>Well-formed UTF-8, by the table of byte sequences.\<close>

definition byte_in :: "nat \<Rightarrow> nat \<Rightarrow> char \<Rightarrow> bool" where
  "byte_in lo hi c = (let n = (of_char c :: nat) in lo \<le> n \<and> n \<le> hi)"

fun utf8_valid :: "bytes \<Rightarrow> bool" where
  "utf8_valid [] = True"
| "utf8_valid (a # r) =
     (if byte_in 0 127 a then utf8_valid r
      else case r of
        [] \<Rightarrow> False
      | b # r1 \<Rightarrow>
          if byte_in 194 223 a then byte_in 128 191 b \<and> utf8_valid r1
          else case r1 of
            [] \<Rightarrow> False
          | c # r2 \<Rightarrow>
              if byte_in 224 239 a then
                byte_in (if byte_in 224 224 a then 160 else 128) (if byte_in 237 237 a then 159 else 191) b \<and>
                byte_in 128 191 c \<and> utf8_valid r2
              else case r2 of
                [] \<Rightarrow> False
              | d # r3 \<Rightarrow>
                  byte_in 240 244 a \<and>
                  byte_in (if byte_in 240 240 a then 144 else 128) (if byte_in 244 244 a then 143 else 191) b \<and>
                  byte_in 128 191 c \<and> byte_in 128 191 d \<and> utf8_valid r3)"

definition get_paper_source_file ::
  "tar_reader \<Rightarrow> (string \<Rightarrow> string option) \<Rightarrow> store_state \<Rightarrow> string \<Rightarrow> string \<Rightarrow> exn + bytes \<times> string" where
  "get_paper_source_file read_tar guess_type s ident path =
     rbind (stored_source s ident) (\<lambda>(p, i, b).
       let absent = not_found (''path '' @ repr_str path @ '' is not in the archive'')
       in if ''..'' \<in> set (split_on (CHR ''/'') path) then Inl absent
          else case read_tar b of
            Inl e \<Rightarrow> Inl (unreadable ident e)
          | Inr members \<Rightarrow>
              (case resolve_archive_member members path of
                 None \<Rightarrow> Inl absent
               | Some m \<Rightarrow>
                   if \<not> tm_isfile m then Inl (not_found (''path '' @ repr_str path @ '' is not a regular file''))
                   else case tm_content m of
                     None \<Rightarrow> Inl (not_found (''path '' @ repr_str path @ '' could not be read''))
                   | Some content \<Rightarrow>
                       let guessed = (case guess_type path of None \<Rightarrow> [] | Some g \<Rightarrow> g);
                           k = classify_source_file path
                       in Inr (content,
                            if guessed \<noteq> [] \<and> (startswith guessed ''image/'' \<or> guessed = ''application/pdf'')
                            then guessed
                            else if k \<in> set [''tex'', ''cls'', ''sty'', ''bib'', ''other''] \<and>
                                length content < 5000000 \<and> utf8_valid content
                            then ''text/plain; charset=utf-8''
                            else ''application/octet-stream'')))"

section \<open>Minting ends\<close>

lemma mint_unused_spec:
  "mint_unused fuel s fresh n = Some i \<Longrightarrow> get_paper s i = None \<and> i \<in> range fresh"
  by (induction fuel arbitrary: n) (auto split: if_splits)

lemma mint_unused_None:
  "mint_unused fuel s fresh n = None \<Longrightarrow> \<forall>k<fuel. get_paper s (fresh (n + k)) \<noteq> None"
proof (induction fuel arbitrary: n)
  case 0
  then show ?case by simp
next
  case (Suc fuel)
  then have first: "get_paper s (fresh n) \<noteq> None" and "mint_unused fuel s fresh (Suc n) = None"
    by (auto split: if_splits)
  from Suc.IH [OF this(2)] first show ?case
    by (metis add.right_neutral add_Suc_shift less_Suc_eq_0_disj)
qed

text \<open>The stored papers cannot use up more distinct ids than there are papers.\<close>

lemma mint_unused_total:
  assumes "inj fresh"
  shows "mint_unused (Suc (length (st_papers s))) s fresh 0 \<noteq> None"
proof
  let ?n = "length (st_papers s)"
  assume "mint_unused (Suc ?n) s fresh 0 = None"
  from mint_unused_None [OF this] have all: "\<forall>k<Suc ?n. get_paper s (fresh k) \<noteq> None" by simp
  then have "fresh ` {..<Suc ?n} \<subseteq> fst ` set (st_papers s)"
    by (auto simp: get_paper_def map_of_eq_None_iff)
  then have "card (fresh ` {..<Suc ?n}) \<le> card (fst ` set (st_papers s))" by (intro card_mono) auto
  also have "\<dots> \<le> ?n" by (metis card_length length_map list.set_map)
  finally show False using card_image [of fresh "{..<Suc ?n}"] assms by (simp add: inj_on_def)
qed

lemma submit_paper_total:
  assumes "inj (se_fresh_id env)"
  shows "submit_paper env auth r s \<noteq> None"
proof -
  have "assign_paper_id env s prev cir_id \<noteq> None" for prev cir_id
    using mint_unused_total [OF assms, of s] by (auto simp: assign_paper_id_def Let_def split: option.splits)
  then have ids: "\<exists>i. assign_paper_id env s prev cir_id = Some i" for prev cir_id by blast
  have "prepare_submission env auth r s \<noteq> None"
  proof (cases "rbind (check_bundle_hash env r) (\<lambda>_. read_cir env r)")
    case (Inl e)
    then show ?thesis by (simp add: prepare_submission_def Let_def)
  next
    case (Inr a)
    obtain data cir_id cir_obj where "a = (data, cir_id, cir_obj)" by (cases a) auto
    moreover from ids obtain i where "assign_paper_id env s (nonempty (sm_previous_version r)) cir_id = Some i"
      by blast
    ultimately show ?thesis using Inr by (simp add: prepare_submission_def Let_def)
  qed
  then show ?thesis by (auto simp: submit_paper_def split: option.splits sum.splits)
qed

text \<open>
  When the server never mints an id twice, every submission gets an answer: the loop
  that looks for an unused id ends, whatever the store holds.
\<close>

lemma submission_answers:
  assumes "inj (se_fresh_id env)"
  shows "submit_paper env auth r s \<noteq> None"
  by (rule submit_paper_total [OF assms])

definition decode_modelled :: "bytes \<Rightarrow> string + pyval" where
  "decode_modelled b = (case json_loads b of None \<Rightarrow> Inl ''Expecting value'' | Some v \<Rightarrow> Inr v)"

definition plain_cir :: cir_model where
  "plain_cir = \<lparr>cir_title = ''T'', cir_abstract = ''A'', cir_license = ''CC'', cir_version = ''1'',
     cir_previous_version = None, cir_topics = None, cir_claims = None, cir_citation_ids = None,
     cir_annotation_ids = None\<rparr>"

definition example_env :: submit_env where
  "example_env = \<lparr>se_decode_json = decode_modelled, se_sha256 = id,
     se_validate = (\<lambda>v. case v of PDict d \<Rightarrow>
        (case dget d ''id'' of PStr i \<Rightarrow> Inr (i, plain_cir) | _ \<Rightarrow> Inl (PStr ''id'')) | _ \<Rightarrow> Inl (PStr ''object'')),
     se_fresh_id = (\<lambda>n. ''p'' @ str_of_nat n), se_fresh_hex = ''00'', se_year = 2026, se_month = 5,
     se_now = ''t'', se_now_unix = 0\<rparr>"

lemma example_env_mints: "inj (se_fresh_id example_env)"
  by (auto simp: inj_on_def example_env_def dest: arg_cong [where f = nat_of_str])

text \<open>A submission whose structure is an object with an id, a version and one claim.\<close>

definition quoted_json :: "string \<Rightarrow> bytes" where
  "quoted_json t = map (\<lambda>c. if c = CHR ''~'' then char_of (34 :: nat) else c) t"

definition example_submission :: submission where
  "example_submission = \<lparr>sm_cir = quoted_json ''{~id~: ~mine~, ~version~: ~1~, ~claims~: [{~id~: ~tmp:c1~}]}'',
     sm_bundle = ''tar'', sm_pdf = None, sm_previous_version = None, sm_revision_summary = None,
     sm_dry_run = None, sm_client_compile_hash = None, sm_idempotency_key = None\<rparr>"

definition alice :: authed_request where
  "alice = \<lparr>au_identity = OrcidIdentity ''0000-0002'', au_token = ''tok''\<rparr>"

lemma submission_answers_witness:
  "\<exists>res s'. submit_paper example_env alice example_submission empty_store = Some (res, s')"
  using submission_answers [OF example_env_mints, of alice example_submission empty_store] by auto

lemma example_submission_accepted:
  "\<exists>body s'. submit_paper example_env alice example_submission empty_store = Some (Inr (201, body), s') \<and>
    dget body ''paper_id'' = PStr ''p0'' \<and> get_claim s' ''rrxiv:2605.00001:c1'' \<noteq> None"
proof -
  have "case submit_paper example_env alice example_submission empty_store of
      Some (Inr (n, body), s') \<Rightarrow> n = 201 \<and> dget body ''paper_id'' = PStr ''p0'' \<and>
        get_claim s' ''rrxiv:2605.00001:c1'' \<noteq> None
    | _ \<Rightarrow> False" by code_simp
  then obtain res s' where "submit_paper example_env alice example_submission empty_store = Some (res, s')"
    "case res of Inr (n, body) \<Rightarrow> n = 201 \<and> dget body ''paper_id'' = PStr ''p0'' \<and>
        get_claim s' ''rrxiv:2605.00001:c1'' \<noteq> None | _ \<Rightarrow> False"
    by (auto split: option.splits sum.splits prod.splits)
  then show ?thesis by (cases res) auto
qed

section \<open>What a submission writes\<close>

lemma dget_source_field [simp]: "k \<noteq> ''source'' \<Longrightarrow> dget (source_field f uri d) k = dget d k"
  by (simp add: source_field_def split: pyval.splits)

lemma dget_default_format [simp]: "k \<noteq> ''source'' \<Longrightarrow> dget (default_format d) k = dget d k"
  by (simp add: default_format_def split: pyval.splits)

lemma dget_setdefault [simp]: "k' \<noteq> k \<Longrightarrow> dget (dict_setdefault k v d) k' = dget d k'"
  by (simp add: dict_setdefault_def)

lemma map_of_filter_keys: "map_of (filter (\<lambda>(k, _). P k) d) k = (if P k then map_of d k else None)"
  by (induction d) auto

lemma item_id_dget: "dget d ''id'' = PStr i \<Longrightarrow> item_id d = Inr i"
  by (auto simp: item_id_def dget_def split: option.splits)

lemma item_id_metadata: "dget d ''id'' = PStr i \<Longrightarrow> item_id (paper_metadata d) = Inr i"
  by (rule item_id_dget) (simp add: paper_metadata_def dget_def map_of_filter_keys)

lemma add_claims_frame: "add_claims cs s = (res, s') \<Longrightarrow> \<exists>d. s' = s\<lparr>st_claims := d\<rparr>"
proof (induction cs s rule: add_claims.induct)
  case (1 s)
  then show ?case by (auto intro: exI [of _ "st_claims s"])
next
  case (2 c cs s)
  show ?case
  proof (cases "add_claim c s")
    case (Inl e)
    with 2(2) show ?thesis by (auto intro: exI [of _ "st_claims s"])
  next
    case (Inr s1)
    with 2 have "\<exists>d. s' = s1\<lparr>st_claims := d\<rparr>" by auto
    moreover from Inr obtain d where "s1 = s\<lparr>st_claims := d\<rparr>" by (auto simp: add_claim_def rbind_Inr_iff)
    ultimately show ?thesis by auto
  qed
qed auto

text \<open>
  Persisting under an id touches, of the papers, structures and archives, the entries of
  that id only, and writes them all when it succeeds.
\<close>

definition same_elsewhere :: "string \<Rightarrow> store_state \<Rightarrow> store_state \<Rightarrow> bool" where
  "same_elsewhere i s s' \<longleftrightarrow> (\<forall>j. j \<noteq> i \<longrightarrow> get_paper s' j = get_paper s j \<and> get_cir s' j = get_cir s j \<and>
     load_source s' j = load_source s j \<and> load_rendered_pdf s' j = load_rendered_pdf s j)"

definition source_path :: "string \<Rightarrow> string" where
  "source_path i = ''/api/v0/papers/'' @ i @ ''/source''"

definition pdf_path :: "string \<Rightarrow> string" where
  "pdf_path i = ''/api/v0/papers/'' @ i @ ''/pdf''"

lemma save_source_path: "save_source i b s = (source_path i, s\<lparr>st_sources := dict_set i b (st_sources s)\<rparr>)"
  by (simp only: save_source_def source_path_def)

lemma save_rendered_pdf_path:
  "save_rendered_pdf i b s = (pdf_path i, s\<lparr>st_rendered_pdfs := dict_set i b (st_rendered_pdfs s)\<rparr>)"
  by (simp only: save_rendered_pdf_def pdf_path_def)

definition stamped :: "submission \<Rightarrow> string \<Rightarrow> pydict \<Rightarrow> pydict" where
  "stamped r i data0 =
     (let data1 = default_format (source_field ''uri'' (source_path i)
            (dict_setdefault ''source'' (PDict []) data0))
      in if nonempty (sm_pdf r) = None then data1
         else source_field ''rendered_pdf_uri'' (pdf_path i) data1)"

lemma stamped_dget [simp]: "k \<noteq> ''source'' \<Longrightarrow> dget (stamped r i d) k = dget d k"
  by (simp add: stamped_def Let_def)

definition uploaded :: "submission \<Rightarrow> string \<Rightarrow> store_state \<Rightarrow> store_state" where
  "uploaded r i s =
     (let s1 = s\<lparr>st_sources := dict_set i (sm_bundle r) (st_sources s)\<rparr>
      in case nonempty (sm_pdf r) of None \<Rightarrow> s1
         | Some pdf \<Rightarrow> s1\<lparr>st_rendered_pdfs := dict_set i pdf (st_rendered_pdfs s)\<rparr>)"

definition recorded :: "submission \<Rightarrow> string \<Rightarrow> pydict \<Rightarrow> store_state \<Rightarrow> store_state" where
  "recorded r i d s =
     (uploaded r i s)\<lparr>st_papers := dict_set i (paper_metadata (stamped r i d)) (st_papers s),
        st_cirs := dict_set i (stamped r i d) (st_cirs s)\<rparr>"

lemma persist_recorded:
  assumes "dget d ''id'' = PStr i"
  shows "persist_submission env auth r i d diff s =
    (case py_iter (py_or (dget d ''claims'') (PList [])) of
       Inl e \<Rightarrow> (Inl e, recorded r i d s)
     | Inr claims \<Rightarrow>
        (case add_claims claims (recorded r i d s) of
           (Inl e, s5) \<Rightarrow> (Inl e, s5)
         | (Inr _, s5) \<Rightarrow>
           let s6 = (case (nonempty (sm_previous_version r), nonempty (sm_revision_summary r)) of
                 (Some prev, Some summary) \<Rightarrow>
                   s5\<lparr>st_annotations := dict_set (''ann-'' @ se_fresh_hex env)
                     (revision_summary_annotation env i prev summary (au_identity auth)) (st_annotations s5)\<rparr>
               | _ \<Rightarrow> s5);
               body = persisted_body i (source_path i) (stamped r i d) diff
           in (Inr body, case nonempty (sm_idempotency_key r) of None \<Rightarrow> s6
                 | Some k \<Rightarrow> add_idempotency (au_token auth) k
                     \<lparr>ie_body_sha256 = [], ie_response_status = 201, ie_response_body = body,
                      ie_created_at_unix = se_now_unix env\<rparr> s6)))"
proof -
  have ids: "item_id (paper_metadata (stamped r i d)) = Inr i" "item_id (stamped r i d) = Inr i"
    using assms by (auto intro: item_id_metadata item_id_dget)
  have claims: "dget (stamped r i d) ''claims'' = dget d ''claims''" by simp
  have ann: "item_id (revision_summary_annotation env i p sm (au_identity auth)) = Inr (''ann-'' @ se_fresh_hex env)"
    for p sm by (simp add: item_id_def revision_summary_annotation_def)
  show ?thesis
  proof (cases "nonempty (sm_pdf r)")
    case None
    then have st: "default_format (source_field ''uri'' (source_path i)
            (dict_setdefault ''source'' (PDict []) d)) = stamped r i d" by (simp add: stamped_def)
    show ?thesis
      using None ids ann
      by (simp add: persist_submission_def Let_def save_source_path st add_paper_def add_cir_def recorded_def
          uploaded_def add_annotation_def claims split: sum.splits prod.splits option.splits)
  next
    case (Some pdf)
    then have st: "source_field ''rendered_pdf_uri'' (pdf_path i)
          (default_format (source_field ''uri'' (source_path i)
            (dict_setdefault ''source'' (PDict []) d))) = stamped r i d" by (simp add: stamped_def Let_def)
    show ?thesis
      using Some ids ann
      by (simp add: persist_submission_def Let_def save_source_path save_rendered_pdf_path st add_paper_def
          add_cir_def recorded_def uploaded_def add_annotation_def claims split: sum.splits prod.splits option.splits)
  qed
qed

lemma recorded_gets:
  "get_paper (recorded r i d s) j = (if j = i then Some (paper_metadata (stamped r i d)) else get_paper s j)"
  "get_cir (recorded r i d s) j = (if j = i then Some (stamped r i d) else get_cir s j)"
  "load_source (recorded r i d s) j = (if j = i then Some (sm_bundle r) else load_source s j)"
  "load_rendered_pdf (recorded r i d s) j =
    (if j = i \<and> nonempty (sm_pdf r) \<noteq> None then nonempty (sm_pdf r) else load_rendered_pdf s j)"
  by (simp_all add: recorded_def uploaded_def get_paper_def get_cir_def load_source_def load_rendered_pdf_def
      Let_def split: option.splits)

definition agree_on_corpus :: "store_state \<Rightarrow> store_state \<Rightarrow> bool" where
  "agree_on_corpus s s' \<longleftrightarrow> st_papers s' = st_papers s \<and> st_cirs s' = st_cirs s \<and> st_sources s' = st_sources s \<and>
     st_rendered_pdfs s' = st_rendered_pdfs s"

lemma persist_corpus:
  assumes "dget d ''id'' = PStr i" "persist_submission env auth r i d diff s = (res, s')"
  shows "agree_on_corpus (recorded r i d s) s'"
proof -
  have claims: "agree_on_corpus (recorded r i d s) s5"
    if "add_claims cs (recorded r i d s) = (x, s5)" for cs x s5
    using add_claims_frame [OF that] by (auto simp: agree_on_corpus_def)
  show ?thesis
  proof (cases "py_iter (py_or (dget d ''claims'') (PList []))")
    case (Inl e)
    with assms show ?thesis by (auto simp: persist_recorded agree_on_corpus_def)
  next
    case (Inr cs)
    obtain x s5 where c: "add_claims cs (recorded r i d s) = (x, s5)" by fastforce
    note c' = claims [OF c]
    show ?thesis
    proof (cases x)
      case (Inl e)
      with assms Inr c c' show ?thesis by (auto simp: persist_recorded)
    next
      case x: (Inr u)
      with assms Inr c have "s' = (let s6 = (case (nonempty (sm_previous_version r), nonempty (sm_revision_summary r)) of
                 (Some prev, Some summary) \<Rightarrow>
                   s5\<lparr>st_annotations := dict_set (''ann-'' @ se_fresh_hex env)
                     (revision_summary_annotation env i prev summary (au_identity auth)) (st_annotations s5)\<rparr>
               | _ \<Rightarrow> s5)
          in case nonempty (sm_idempotency_key r) of None \<Rightarrow> s6
                 | Some k \<Rightarrow> add_idempotency (au_token auth) k
                     \<lparr>ie_body_sha256 = [], ie_response_status = 201,
                      ie_response_body = persisted_body i (source_path i) (stamped r i d) diff,
                      ie_created_at_unix = se_now_unix env\<rparr> s6)"
        by (simp add: persist_recorded Let_def)
      with c' show ?thesis
        by (auto simp: agree_on_corpus_def add_idempotency_def Let_def split: option.splits)
    qed
  qed
qed

lemma canonicalise_keeps:
  assumes "canonicalise_claim_ids cir owner = Inr (cir', n)" "k \<noteq> ''claims''" "k \<noteq> ''annotations''"
  shows "dget cir' k = dget cir k"
  using assms
  by (auto simp: canonicalise_claim_ids_def Let_def rbind_Inr_iff split: if_splits)

lemma canonicalised_keeps:
  assumes "canonicalised d = Inr d'" "k \<noteq> ''claims''" "k \<noteq> ''annotations''"
  shows "dget d' k = dget d k"
  using assms canonicalise_keeps [of d _ d' _ k]
  by (auto simp: canonicalised_def Let_def rbind_Inr_iff split: if_splits)

lemma assign_slug_keeps:
  "assign_slug env s prev d = Inr d' \<Longrightarrow> k \<noteq> ''id_slug'' \<Longrightarrow> dget d' k = dget d k"
  by (auto simp: assign_slug_def Let_def rbind_Inr_iff split: if_splits option.splits)

lemma prepared:
  assumes "prepare_submission env auth r s = Some (Inr (i, d, diff))"
  shows "dget d ''id'' = PStr i" and "nonempty (sm_previous_version r) = None \<Longrightarrow> get_paper s i = None"
    and "\<not> is_anonymous (au_identity auth)"
proof -
  let ?prev = "nonempty (sm_previous_version r)"
  let ?d0 = "\<lambda>data. case ?prev of None \<Rightarrow> dict_set ''id'' (PStr i) data
    | Some prev \<Rightarrow> dict_set ''previous_version'' (PStr prev) (dict_set ''id'' (PStr i) data)"
  from assms obtain data cir_id d1 where a: "assign_paper_id env s ?prev cir_id = Some i"
    and d1: "assign_slug env s ?prev (?d0 data) = Inr d1" "canonicalised d1 = Inr d"
    by (auto simp: prepare_submission_def Let_def rbind_Inr_iff split: if_splits sum.splits option.splits)
  have "dget (?d0 data) ''id'' = PStr i" by (simp split: option.splits)
  then show "dget d ''id'' = PStr i"
    using canonicalised_keeps [OF d1(2), of "''id''"] assign_slug_keeps [OF d1(1), of "''id''"] by simp
  show "get_paper s i = None" if "nonempty (sm_previous_version r) = None"
    using a that by (auto simp: assign_paper_id_def dest: mint_unused_spec simp del: mint_unused.simps)
  show "\<not> is_anonymous (au_identity auth)"
    using assms by (auto simp: prepare_submission_def Let_def)
qed

text \<open>
  C30: Submitting a new paper, whether it succeeds or fails on the way, leaves the record,
  structure and archives of every stored paper as they were, whatever id the client wrote
  into the structure.
\<close>

theorem new_submission_keeps_corpus:
  assumes "submit_paper env auth r s = Some (res, s')" "nonempty (sm_previous_version r) = None"
    and "get_paper s i \<noteq> None"
  shows "get_paper s' i = get_paper s i \<and> get_cir s' i = get_cir s i \<and>
    load_source s' i = load_source s i \<and> load_rendered_pdf s' i = load_rendered_pdf s i"
proof (cases "s' = s")
  case True
  then show ?thesis by simp
next
  case False
  with assms(1) obtain j d diff x where
    p: "prepare_submission env auth r s = Some (Inr (j, d, diff))"
    and w: "persist_submission env auth r j d diff s = (x, s')"
    by (auto simp: submit_paper_def split: option.splits sum.splits prod.splits if_splits)
  have "j \<noteq> i" using prepared(2) [OF p assms(2)] assms(3) by auto
  moreover have "agree_on_corpus (recorded r j d s) s'" using prepared(1) [OF p] w by (rule persist_corpus)
  ultimately show ?thesis
    using recorded_gets [of r j d s i]
    by (auto simp: agree_on_corpus_def get_paper_def get_cir_def load_source_def load_rendered_pdf_def)
qed

definition squatted_store :: store_state where
  "squatted_store = empty_store\<lparr>st_papers := [(''mine'', [(''id'', PStr ''mine''), (''title'', PStr ''Theirs'')])]\<rparr>"

theorem new_submission_keeps_corpus_witness:
  "\<exists>res s'. submit_paper example_env alice example_submission squatted_store = Some (res, s') \<and>
    get_paper s' ''mine'' = Some [(''id'', PStr ''mine''), (''title'', PStr ''Theirs'')]"
proof -
  have "submit_paper example_env alice example_submission squatted_store \<noteq> None" by code_simp
  then obtain res s' where s': "submit_paper example_env alice example_submission squatted_store = Some (res, s')"
    by auto
  have "nonempty (sm_previous_version example_submission) = None" by code_simp
  moreover have "get_paper squatted_store ''mine'' = Some [(''id'', PStr ''mine''), (''title'', PStr ''Theirs'')]"
    by code_simp
  ultimately show ?thesis using new_submission_keeps_corpus [OF s', of "''mine''"] s' by simp
qed

lemma add_claims_stored:
  assumes "add_claims cs s = (Inr u, s')"
  shows "\<forall>c. PDict c \<in> set cs \<longrightarrow> (\<exists>i c'. dget c ''id'' = PStr i \<and> PDict c' \<in> set cs \<and>
    dget c' ''id'' = PStr i \<and> get_claim s' i = Some c')"
    and "\<forall>i. (\<forall>c. PDict c \<in> set cs \<longrightarrow> dget c ''id'' \<noteq> PStr i) \<longrightarrow> get_claim s' i = get_claim s i"
proof -
  have "(\<forall>c. PDict c \<in> set cs \<longrightarrow> (\<exists>i c'. dget c ''id'' = PStr i \<and> PDict c' \<in> set cs \<and>
      dget c' ''id'' = PStr i \<and> get_claim s' i = Some c')) \<and>
    (\<forall>i. (\<forall>c. PDict c \<in> set cs \<longrightarrow> dget c ''id'' \<noteq> PStr i) \<longrightarrow> get_claim s' i = get_claim s i)"
    using assms
  proof (induction cs s rule: add_claims.induct)
    case (1 s)
    then show ?case by simp
  next
    case (2 c cs s)
    then obtain s1 where s1: "add_claim c s = Inr s1" and rest: "add_claims cs s1 = (Inr u, s')"
      by (auto split: sum.splits)
    from s1 obtain i where i: "dget c ''id'' = PStr i" and g: "\<And>j. get_claim s1 j = (if j = i then Some c else get_claim s j)"
      by (auto simp: add_claim_def item_id_def dget_def rbind_Inr_iff get_claim_def split: option.splits pyval.splits)
    note IH = "2.IH" [OF s1 rest]
    show ?case
    proof (intro conjI allI impI)
      fix c1
      assume c1: "PDict c1 \<in> set (PDict c # cs)"
      show "\<exists>i c'. dget c1 ''id'' = PStr i \<and> PDict c' \<in> set (PDict c # cs) \<and> dget c' ''id'' = PStr i \<and> get_claim s' i = Some c'"
      proof (cases "PDict c1 \<in> set cs")
        case True
        with IH show ?thesis by (meson list.set_intros(2))
      next
        case False
        with c1 have "c1 = c" by simp
        show ?thesis
        proof (cases "\<exists>c2. PDict c2 \<in> set cs \<and> dget c2 ''id'' = PStr i")
          case True
          then obtain c2 where c2: "PDict c2 \<in> set cs" "dget c2 ''id'' = PStr i" by blast
          with IH obtain c' where "PDict c' \<in> set cs" "dget c' ''id'' = PStr i" "get_claim s' i = Some c'"
            by (metis pyval.inject(3))
          with \<open>c1 = c\<close> i show ?thesis by auto
        next
          case False
          with IH have "get_claim s' i = get_claim s1 i" by blast
          with \<open>c1 = c\<close> i g show ?thesis by auto
        qed
      qed
    next
      fix j
      assume j: "\<forall>c1. PDict c1 \<in> set (PDict c # cs) \<longrightarrow> dget c1 ''id'' \<noteq> PStr j"
      with IH have "get_claim s' j = get_claim s1 j" by simp
      with j i g show "get_claim s' j = get_claim s j" by auto
    qed
  qed auto
  then show "\<forall>c. PDict c \<in> set cs \<longrightarrow> (\<exists>i c'. dget c ''id'' = PStr i \<and> PDict c' \<in> set cs \<and>
      dget c' ''id'' = PStr i \<and> get_claim s' i = Some c')"
    and "\<forall>i. (\<forall>c. PDict c \<in> set cs \<longrightarrow> dget c ''id'' \<noteq> PStr i) \<longrightarrow> get_claim s' i = get_claim s i"
    by blast+
qed

lemma persist_success:
  assumes "dget d ''id'' = PStr i" "persist_submission env auth r i d diff s = (Inr body, s')"
  shows "body = persisted_body i (source_path i) (stamped r i d) diff"
    and "\<exists>cs u s5. py_iter (py_or (dget d ''claims'') (PList [])) = Inr cs \<and>
      add_claims cs (recorded r i d s) = (Inr u, s5) \<and> st_claims s' = st_claims s5"
  using assms
  by (auto simp: persist_recorded Let_def add_idempotency_def split: sum.splits prod.splits option.splits)

text \<open>
  What the server makes of the structure that was sent: its own identifier, the previous version it
  was told, a slug when there was none, claim ids under the slug; everything else is as sent.
\<close>

definition server_fields :: "string set" where
  "server_fields = {''id'', ''id_slug'', ''previous_version'', ''source'', ''claims'', ''annotations''}"

definition claims_rewritten :: "pydict \<Rightarrow> pydict \<Rightarrow> bool" where
  "claims_rewritten sent cir \<longleftrightarrow> (\<exists>can.
     (if truthy (dget cir ''id_slug'') then (\<exists>n. canonicalise_claim_ids sent (py_str (dget cir ''id_slug'')) = Inr (can, n))
      else can = sent) \<and>
     dget cir ''claims'' = dget can ''claims'' \<and> dget cir ''annotations'' = dget can ''annotations'')"

lemma canonicalise_cong:
  assumes "canonicalise_claim_ids d owner = Inr (e, n)"
    and same: "dget d' ''claims'' = dget d ''claims''" "dget d' ''annotations'' = dget d ''annotations''"
  shows "\<exists>e'. canonicalise_claim_ids d' owner = Inr (e', n) \<and>
    dget e' ''claims'' = dget e ''claims'' \<and> dget e' ''annotations'' = dget e ''annotations''"
proof (cases "truthy (dget d ''claims'')")
  case False
  with assms(1) show ?thesis by (simp add: canonicalise_claim_ids_def same)
next
  case claims: True
  then obtain first idv canonical where 1: "py_first (dget d ''claims'') = Inr first" "py_get first ''id'' = Inr idv"
    "py_startswith (py_or idv (PStr [])) (owner @ '':'') = Inr canonical"
    using assms(1) by (simp add: canonicalise_claim_ids_def Let_def) (elim rbind_Inr_iff [THEN iffD1, elim_format] exE conjE, blast)
  let ?sample = "py_or idv (PStr [])" and ?parts = "split_once (CHR '':'') (py_str (py_or idv (PStr [])))"
  show ?thesis
  proof (cases "canonical \<or> length ?parts \<noteq> 2 \<or> hd ?parts = owner")
    case True
    then consider "canonical" | "\<not> canonical" "length ?parts \<noteq> 2" | "\<not> canonical" "length ?parts = 2" "hd ?parts = owner"
      by blast
    then have "e = d \<and> n = 0" "canonicalise_claim_ids d' owner = Inr (d', 0)"
      using assms(1) claims 1 by (cases; simp add: canonicalise_claim_ids_def Let_def same)+
    with same show ?thesis by simp
  next
    case False
    let ?old = "hd ?parts @ '':''" and ?new = "owner @ '':''"
    from assms(1) claims 1 False have "rbind (py_iter (dget d ''claims'')) (\<lambda>cs.
                 rbind (rmap (rewrite_claim owner ?old ?new) cs) (\<lambda>cs'.
                 let cir' = dict_set ''claims'' (PList (map fst cs')) d;
                     anns = dget cir' ''annotations'';
                     n = sum_list (map snd cs') in
                 if \<not> truthy anns then Inr (cir', n)
                 else rbind (py_iter anns) (\<lambda>as.
                      rbind (rmap (rewrite_annotation ?old ?new) as) (\<lambda>as'.
                      Inr (dict_set ''annotations'' (PList (map fst as')) cir',
                           n + sum_list (map snd as')))))) = Inr (e, n)"
      by (simp add: canonicalise_claim_ids_def Let_def)
    then obtain cs cs' where cs: "py_iter (dget d ''claims'') = Inr cs" "rmap (rewrite_claim owner ?old ?new) cs = Inr cs'"
      and rest: "(let cir' = dict_set ''claims'' (PList (map fst cs')) d; anns = dget cir' ''annotations''; n = sum_list (map snd cs') in
                 if \<not> truthy anns then Inr (cir', n)
                 else rbind (py_iter anns) (\<lambda>as.
                      rbind (rmap (rewrite_annotation ?old ?new) as) (\<lambda>as'.
                      Inr (dict_set ''annotations'' (PList (map fst as')) cir', n + sum_list (map snd as'))))) = Inr (e, n)"
      by (simp only: rbind_Inr_iff) blast
    show ?thesis
    proof (cases "truthy (dget d ''annotations'')")
      case True
      with rest obtain as as' where "py_iter (dget d ''annotations'') = Inr as" "rmap (rewrite_annotation ?old ?new) as = Inr as'"
        "e = dict_set ''annotations'' (PList (map fst as')) (dict_set ''claims'' (PList (map fst cs')) d)" "n = sum_list (map snd cs') + sum_list (map snd as')"
        by (auto simp: Let_def rbind_Inr_iff)
      with claims 1 False cs True show ?thesis by (simp add: canonicalise_claim_ids_def Let_def same)
    next
      case no: False
      with rest have "e = dict_set ''claims'' (PList (map fst cs')) d" "n = sum_list (map snd cs')" by (simp_all add: Let_def)
      with claims 1 False cs no show ?thesis by (simp add: canonicalise_claim_ids_def Let_def same)
    qed
  qed
qed

lemma claims_rewritten_cong:
  assumes "dget x ''id_slug'' = dget y ''id_slug''" "dget x ''claims'' = dget y ''claims''"
    "dget x ''annotations'' = dget y ''annotations''"
  shows "claims_rewritten sent x \<longleftrightarrow> claims_rewritten sent y"
  by (simp only: claims_rewritten_def assms)

lemma canonicalised_gets:
  assumes "canonicalised d = Inr d'" "k \<noteq> ''claims''" "k \<noteq> ''annotations''"
  shows "dict_get d' k = dict_get d k"
  using assms by (auto simp: canonicalised_def canonicalise_claim_ids_def Let_def rbind_Inr_iff split: if_splits)

lemma assign_slug_gets:
  "assign_slug env s prev d = Inr d' \<Longrightarrow> k \<noteq> ''id_slug'' \<Longrightarrow> dict_get d' k = dict_get d k"
  by (auto simp: assign_slug_def Let_def rbind_Inr_iff split: if_splits option.splits)

lemma dget_of: "dict_get d k = dict_get e k' \<Longrightarrow> dget d k = dget e k'"
  by (simp add: dget_def)

lemma prepared_from:
  assumes "prepare_submission env auth r s = Some (Inr (i, d, diff))"
  shows "\<exists>sent. se_decode_json env (sm_cir r) = Inr (PDict sent) \<and>
    (\<forall>k. k \<notin> server_fields - {''source''} \<longrightarrow> dict_get d k = dict_get sent k) \<and>
    dget d ''previous_version'' = (case nonempty (sm_previous_version r) of None \<Rightarrow> dget sent ''previous_version'' | Some p \<Rightarrow> PStr p) \<and>
    (truthy (dget sent ''id_slug'') \<longrightarrow> dget d ''id_slug'' = dget sent ''id_slug'') \<and> claims_rewritten sent d"
proof -
  let ?prev = "nonempty (sm_previous_version r)"
  let ?d0 = "\<lambda>data. case ?prev of None \<Rightarrow> dict_set ''id'' (PStr i) data
    | Some prev \<Rightarrow> dict_set ''previous_version'' (PStr prev) (dict_set ''id'' (PStr i) data)"
  from assms obtain data cid m d1 where read: "read_cir env r = Inr (data, cid, m)"
    and d1: "assign_slug env s ?prev (?d0 data) = Inr d1" "canonicalised d1 = Inr d"
    by (auto simp: prepare_submission_def Let_def rbind_Inr_iff split: if_splits sum.splits option.splits)
  have sent: "se_decode_json env (sm_cir r) = Inr (PDict data)"
    using read by (auto simp: read_cir_def split: sum.splits pyval.splits prod.splits)
  have base: "dict_get (?d0 data) k = dict_get data k" if "k \<noteq> ''id''" "k \<noteq> ''previous_version''" for k
    using that by (simp split: option.splits)
  have slugged: "dict_get d1 k = dict_get (?d0 data) k" if "k \<noteq> ''id_slug''" for k using assign_slug_gets [OF d1(1) that] .
  have kept: "dict_get d k = dict_get d1 k" if "k \<noteq> ''claims''" "k \<noteq> ''annotations''" for k
    using canonicalised_gets [OF d1(2) that] .
  have plain: "dict_get d k = dict_get data k" if "k \<notin> server_fields - {''source''}" for k
    using that kept [of k] slugged [of k] base [of k] by (auto simp: server_fields_def)
  have prev: "dget d ''previous_version'' = (case ?prev of None \<Rightarrow> dget data ''previous_version'' | Some p \<Rightarrow> PStr p)"
    using kept [of "''previous_version''"] slugged [of "''previous_version''"] by (simp add: dget_def split: option.splits)
  have own: "dget d1 ''id_slug'' = dget data ''id_slug''" if "truthy (dget data ''id_slug'')"
    using d1(1) that dget_of [OF base [of "''id_slug''"]] by (auto simp: assign_slug_def)
  have lists: "dget data ''claims'' = dget d1 ''claims''" "dget data ''annotations'' = dget d1 ''annotations''"
    using slugged [of "''claims''"] slugged [of "''annotations''"] base [of "''claims''"] base [of "''annotations''"]
    by (simp_all add: dget_def)
  have "claims_rewritten data d"
  proof (cases "truthy (dget d1 ''id_slug'')")
    case True
    with d1(2) obtain n where "canonicalise_claim_ids d1 (py_str (dget d1 ''id_slug'')) = Inr (d, n)"
      by (auto simp: canonicalised_def Let_def rbind_Inr_iff)
    from canonicalise_cong [OF this lists] True dget_of [OF kept [of "''id_slug''"]] show ?thesis
      by (auto simp: claims_rewritten_def)
  next
    case False
    with d1(2) have "d = d1" by (simp add: canonicalised_def Let_def)
    with False lists show ?thesis by (simp add: claims_rewritten_def)
  qed
  with sent plain prev own dget_of [OF kept [of "''id_slug''"]] show ?thesis by (intro exI [of _ data]) simp
qed

lemma source_field_get: "k \<noteq> ''source'' \<Longrightarrow> dict_get (source_field f uri d) k = dict_get d k"
  "k \<noteq> ''source'' \<Longrightarrow> dict_get (default_format d) k = dict_get d k"
  by (simp_all add: source_field_def default_format_def split: pyval.split)

lemma stamped_get: "k \<noteq> ''source'' \<Longrightarrow> dict_get (stamped r i d) k = dict_get d k"
  by (simp add: stamped_def Let_def source_field_get dict_setdefault_def)

lemma stamped_source:
  assumes "dict_get d ''source'' = dict_get e ''source''"
  shows "dget (stamped r i d) ''source'' = dget (stamped r i e) ''source''"
proof -
  let ?arrangement = "\<lambda>d. default_format (source_field ''uri'' (source_path i) (dict_setdefault ''source'' (PDict []) d))"
  have field: "dget (source_field k uri x) ''source'' = dget (source_field k uri y) ''source''"
    "dget (default_format x) ''source'' = dget (default_format y) ''source''"
    if "dget x ''source'' = dget y ''source''" for x y k uri
    using that by (simp_all add: source_field_def default_format_def split: pyval.split)
  have "dget (dict_setdefault ''source'' (PDict []) d) ''source'' = dget (dict_setdefault ''source'' (PDict []) e) ''source''"
    using assms by (simp add: dict_setdefault_def dict_has_def dget_def)
  then have same: "dget (?arrangement d) ''source'' = dget (?arrangement e) ''source''" by (rule field(2) [OF field(1)])
  show ?thesis
  proof (cases "nonempty (sm_pdf r) = None")
    case True
    show ?thesis unfolding stamped_def Let_def if_P [OF True] by (rule same)
  next
    case False
    show ?thesis unfolding stamped_def Let_def if_not_P [OF False] by (rule field(1) [OF same])
  qed
qed

text \<open>
  C35: What an accepted, persisted submission sent can be read back under the id of the answer: the
  archive and the rendered PDF byte for byte; the structure that was sent, field by field, but for
  the identifier, which is the answer's, the slug, which is the sent one when there was one, the
  previous version the form named, the address of the archive in the source, and the claim ids,
  which are rewritten to the slug; the paper record as that structure without its five lists; and
  every claim of the structure, the last one of an id. The submission carries no idempotency key,
  which would answer with an earlier submission.
\<close>

theorem submission_roundtrip:
  assumes "submit_paper env auth r s = Some (Inr (201, body), s')"
    and "nonempty (sm_idempotency_key r) = None"
  shows "\<exists>i sent cir. dget body ''paper_id'' = PStr i \<and> se_decode_json env (sm_cir r) = Inr (PDict sent) \<and>
    get_cir s' i = Some cir \<and> dget cir ''id'' = PStr i \<and>
    (\<forall>k. k \<notin> server_fields \<longrightarrow> dict_get cir k = dict_get sent k) \<and>
    (truthy (dget sent ''id_slug'') \<longrightarrow> dget cir ''id_slug'' = dget sent ''id_slug'') \<and>
    dget cir ''previous_version'' = (case nonempty (sm_previous_version r) of None \<Rightarrow> dget sent ''previous_version'' | Some p \<Rightarrow> PStr p) \<and>
    dget cir ''source'' = dget (stamped r i sent) ''source'' \<and> claims_rewritten sent cir \<and>
    get_paper s' i = Some (paper_metadata cir) \<and> load_source s' i = Some (sm_bundle r) \<and>
    (nonempty (sm_pdf r) = None \<or> load_rendered_pdf s' i = nonempty (sm_pdf r)) \<and>
    (\<exists>claims. py_iter (py_or (dget cir ''claims'') (PList [])) = Inr claims \<and>
      (\<forall>c. PDict c \<in> set claims \<longrightarrow> (\<exists>j c'. dget c ''id'' = PStr j \<and> PDict c' \<in> set claims \<and>
        dget c' ''id'' = PStr j \<and> get_claim s' j = Some c')))"
proof -
  from assms obtain i d diff where p: "prepare_submission env auth r s = Some (Inr (i, d, diff))"
    and w: "persist_submission env auth r i d diff s = (Inr body, s')"
    by (auto simp: submit_paper_def split: option.splits sum.splits prod.splits if_splits)
  note id = prepared(1) [OF p]
  note ok = persist_success [OF id w]
  have "agree_on_corpus (recorded r i d s) s'" using id w by (rule persist_corpus)
  then have gets: "get_cir s' i = Some (stamped r i d)" "get_paper s' i = Some (paper_metadata (stamped r i d))"
    "load_source s' i = Some (sm_bundle r)"
    "nonempty (sm_pdf r) = None \<or> load_rendered_pdf s' i = nonempty (sm_pdf r)"
    using recorded_gets [of r i d s i]
    by (auto simp: agree_on_corpus_def get_paper_def get_cir_def load_source_def load_rendered_pdf_def)
  from ok(2) obtain cs u s5 where cs: "py_iter (py_or (dget d ''claims'') (PList [])) = Inr cs"
    and add: "add_claims cs (recorded r i d s) = (Inr u, s5)" and claims: "st_claims s' = st_claims s5" by blast
  have get: "get_claim s' j = get_claim s5 j" for j using claims by (simp add: get_claim_def)
  have body: "dget body ''paper_id'' = PStr i" using ok(1) by (simp add: persisted_body_def dget_def)
  from prepared_from [OF p] obtain sent where sent: "se_decode_json env (sm_cir r) = Inr (PDict sent)"
    "\<And>k. k \<notin> server_fields - {''source''} \<Longrightarrow> dict_get d k = dict_get sent k"
    "dget d ''previous_version'' = (case nonempty (sm_previous_version r) of None \<Rightarrow> dget sent ''previous_version'' | Some p \<Rightarrow> PStr p)"
    "truthy (dget sent ''id_slug'') \<longrightarrow> dget d ''id_slug'' = dget sent ''id_slug''" "claims_rewritten sent d" by blast
  have plain: "dict_get (stamped r i d) k = dict_get sent k" if "k \<notin> server_fields" for k
    using that sent(2) [of k] stamped_get [of k r i d] by (cases "k = ''source''") (auto simp: server_fields_def)
  have source: "dget (stamped r i d) ''source'' = dget (stamped r i sent) ''source''"
    using sent(2) [of "''source''"] by (intro stamped_source) (simp add: server_fields_def)
  have rewritten: "claims_rewritten sent (stamped r i d)"
    using sent(5) by (rule claims_rewritten_cong [THEN iffD1, rotated 3]) simp_all
  show ?thesis
    using body gets id cs add_claims_stored(1) [OF add] sent(1,3,4) plain source rewritten
    by (intro exI [of _ i] exI [of _ sent] exI [of _ "stamped r i d"]) (simp add: get)
qed

text \<open>The title that was sent is read back, under the identifier of the answer.\<close>

theorem submission_roundtrip_witness:
  "\<exists>body s' i cir. submit_paper example_env alice example_submission empty_store = Some (Inr (201, body), s') \<and>
    dget body ''paper_id'' = PStr i \<and> load_source s' i = Some ''tar'' \<and> get_cir s' i = Some cir \<and>
    dget cir ''version'' = PStr ''1'' \<and> dget cir ''id'' = PStr i \<and> i \<noteq> ''mine''"
proof -
  from example_submission_accepted obtain body s' where
    s: "submit_paper example_env alice example_submission empty_store = Some (Inr (201, body), s')" "dget body ''paper_id'' = PStr ''p0''"
    by blast
  have k: "nonempty (sm_idempotency_key example_submission) = None" "sm_bundle example_submission = ''tar''" by code_simp+
  have sent: "case se_decode_json example_env (sm_cir example_submission) of
      Inr (PDict d) \<Rightarrow> dget d ''version'' = PStr ''1'' | _ \<Rightarrow> False" by code_simp
  have plain: "''version'' \<notin> server_fields" by (simp add: server_fields_def)
  from submission_roundtrip [OF s(1) k(1)] obtain i d cir where
    i: "dget body ''paper_id'' = PStr i" and d: "se_decode_json example_env (sm_cir example_submission) = Inr (PDict d)"
    and cir: "get_cir s' i = Some cir" "dget cir ''id'' = PStr i" and src: "load_source s' i = Some (sm_bundle example_submission)"
    and gets: "\<forall>k. k \<notin> server_fields \<longrightarrow> dict_get cir k = dict_get d k" by blast
  from gets plain have "dict_get cir ''version'' = dict_get d ''version''" by blast
  then have "dget cir ''version'' = dget d ''version''" by (rule dget_of)
  with sent d have "dget cir ''version'' = PStr ''1''" by simp
  moreover have "i \<noteq> ''mine''" using i s(2) by auto
  ultimately show ?thesis using s(1) i cir src k(2) by auto
qed

text \<open>
  A dry run answers what the real submission would have answered about the slug, the
  version, the previous version and the diff, and changes nothing.
\<close>

lemma dry_run_foretells:
  assumes "submit_paper env auth r s = Some (Inr (201, body), s')"
    and "nonempty (sm_idempotency_key r) = None" "str_lower v \<in> {''true'', ''1'', ''yes''}"
  shows "\<exists>dry. submit_paper env auth (r\<lparr>sm_dry_run := Some v\<rparr>) s = Some (Inr (200, dry), s) \<and>
    list_all (\<lambda>k. dget dry k = dget body k)
      [''id_slug'', ''version'', ''previous_version'', ''revision_diff'', ''would_persist'']"
proof -
  from assms(1,2) obtain i d diff where p: "prepare_submission env auth r s = Some (Inr (i, d, diff))"
    and w: "persist_submission env auth r i d diff s = (Inr body, s')"
    by (auto simp: submit_paper_def split: option.splits sum.splits prod.splits if_splits)
  have same: "prepare_submission env auth (r\<lparr>sm_dry_run := Some v\<rparr>) s = prepare_submission env auth r s"
  proof -
    have "check_bundle_hash env (r\<lparr>sm_dry_run := Some v\<rparr>) = check_bundle_hash env r"
      "read_cir env (r\<lparr>sm_dry_run := Some v\<rparr>) = read_cir env r"
      "sm_previous_version (r\<lparr>sm_dry_run := Some v\<rparr>) = sm_previous_version r"
      by (simp_all add: check_bundle_hash_def read_cir_def split: option.split)
    then show ?thesis unfolding prepare_submission_def by (simp only:)
  qed
  have "is_dry_run (r\<lparr>sm_dry_run := Some v\<rparr>)" using assms(3) by (auto simp: is_dry_run_def)
  then have "submit_paper env auth (r\<lparr>sm_dry_run := Some v\<rparr>) s = Some (Inr (200, dry_run_body d diff), s)"
    by (simp add: submit_paper_def same p)
  moreover have "body = persisted_body i (source_path i) (stamped r i d) diff"
    using persist_success(1) [OF prepared(1) [OF p] w] .
  ultimately show ?thesis by (simp add: dry_run_body_def persisted_body_def dget_def [of "_ # _"])
qed

lemma dry_run_foretells_witness:
  "\<exists>dry body s'. submit_paper example_env alice example_submission empty_store = Some (Inr (201, body), s') \<and>
    submit_paper example_env alice (example_submission\<lparr>sm_dry_run := Some ''Yes''\<rparr>) empty_store =
      Some (Inr (200, dry), empty_store) \<and> dget dry ''id_slug'' = dget body ''id_slug''"
proof -
  from example_submission_accepted obtain body s' where
    s: "submit_paper example_env alice example_submission empty_store = Some (Inr (201, body), s')" by blast
  have k: "nonempty (sm_idempotency_key example_submission) = None" by code_simp
  have v: "str_lower ''Yes'' \<in> {''true'', ''1'', ''yes''}" by code_simp
  from dry_run_foretells [OF s k v] s show ?thesis by auto
qed

section \<open>Where submissions still overwrite\<close>

text \<open>
  A revision keeps the id its structure names, so it overwrites a stored paper that is not
  its previous version.
\<close>

definition two_papers :: store_state where
  "two_papers = empty_store\<lparr>st_papers :=
     [(''mine'', [(''id'', PStr ''mine''), (''title'', PStr ''Theirs'')]),
      (''old'', [(''id'', PStr ''old''), (''id_slug'', PStr ''rrxiv:2605.00007'')])]\<rparr>"

lemma revision_overwrites_other_paper:
  "case submit_paper example_env alice (example_submission\<lparr>sm_previous_version := Some ''old''\<rparr>) two_papers of
     Some (Inr (n, _), s') \<Rightarrow> n = 201 \<and> get_paper s' ''mine'' \<noteq> get_paper two_papers ''mine''
   | _ \<Rightarrow> False"
  by code_simp

text \<open>A new paper that names the slug of a stored one takes over that paper's claims.\<close>

definition slug_squatter :: submission where
  "slug_squatter = example_submission\<lparr>sm_cir :=
     quoted_json ''{~id~: ~x~, ~id_slug~: ~rrxiv:2605.00007~, ~claims~: [{~id~: ~rrxiv:2605.00007:c1~, ~statement~: ~false~}]}''\<rparr>"

definition claimed_store :: store_state where
  "claimed_store = two_papers\<lparr>st_claims :=
     [(''rrxiv:2605.00007:c1'', [(''id'', PStr ''rrxiv:2605.00007:c1''), (''statement'', PStr ''true'')])]\<rparr>"

lemma new_paper_overwrites_claim:
  "case submit_paper example_env alice slug_squatter claimed_store of
     Some (Inr (n, _), s') \<Rightarrow> n = 201 \<and>
       get_claim s' ''rrxiv:2605.00007:c1'' \<noteq> get_claim claimed_store ''rrxiv:2605.00007:c1''
   | _ \<Rightarrow> False"
  by code_simp

text \<open>The summary of a revision by a person is signed by an unknown agent.\<close>

lemma orcid_summary_unattributed:
  "dget (revision_summary_annotation env i prev summary (OrcidIdentity orcid)) ''created_by'' =
    PDict [(''identity_type'', PStr ''agent''), (''identity'', PStr ''unknown'')]"
  by (simp add: revision_summary_annotation_def summary_author_def dget_def)

section \<open>Archives\<close>

text \<open>A file served is a regular member of the archive, and its path does not climb.\<close>

lemma served_file_is_member:
  assumes "get_paper_source_file read_tar guess s ident path = Inr (content, media)"
  shows "\<exists>p i b members m. stored_source s ident = Inr (p, i, b) \<and> read_tar b = Inr members \<and>
    m \<in> set members \<and> tm_isfile m \<and> tm_content m = Some content \<and> ''..'' \<notin> set (split_on (CHR ''/'') path)"
proof -
  have find: "find P ms = Some m \<Longrightarrow> m \<in> set ms" for P m and ms :: "tar_member list"
    by (induction ms) (auto split: if_splits)
  have first: "first_member members names = Some m \<Longrightarrow> m \<in> set members" for members names m
    by (induction names) (auto simp: getmember_def split: option.splits dest: find)
  have member: "resolve_archive_member members path = Some m \<Longrightarrow> m \<in> set members" for members m
    unfolding resolve_archive_member_def by (rule first)
  from assms obtain p i b members m where "stored_source s ident = Inr (p, i, b)" "read_tar b = Inr members"
    "resolve_archive_member members path = Some m" "tm_isfile m" "tm_content m = Some content"
    "''..'' \<notin> set (split_on (CHR ''/'') path)"
    by (auto simp: get_paper_source_file_def rbind_Inr_iff Let_def split: if_splits sum.splits option.splits)
  with member show ?thesis by blast
qed

end
