(* ===== verification/Authors.thy ===== *)
theory Authors
  imports Search
begin

text \<open>
  Author profiles, \<open>server/authors/router.py\<close>: the authors of all papers, grouped by
  agent handle, ORCID iD or lower-case name, and the endpoints on the groups. The records of
  one group are merged in the order of the papers and of the authors of a paper.
\<close>

section \<open>Identities\<close>

definition orcid_digits :: "string \<Rightarrow> bool" where
  "orcid_digits s =
     (length s = 19 \<and> s ! 4 = CHR ''-'' \<and> s ! 9 = CHR ''-'' \<and> s ! 14 = CHR ''-'' \<and>
      list_all (\<lambda>i. is_digit (s ! i)) [0, 1, 2, 3, 5, 6, 7, 8, 10, 11, 12, 13, 15, 16, 17] \<and>
      (is_digit (s ! 18) \<or> s ! 18 = CHR ''X''))"

text \<open>The end of the pattern also matches before a final line break.\<close>

definition is_orcid :: "string \<Rightarrow> bool" where
  "is_orcid s = (orcid_digits s \<or> (s \<noteq> [] \<and> last s = char_of (10 :: nat) \<and> orcid_digits (butlast s)))"

definition is_agent_handle :: "string \<Rightarrow> bool" where
  "is_agent_handle s = (startswith s ''agent:'' \<or> startswith s ''@'')"

text \<open>\<open>v and _is_agent_handle(v)\<close>, \<open>v and _is_orcid(v)\<close>: the text, if it is one.\<close>

definition handle_of :: "pyval \<Rightarrow> pyexn + string option" where
  "handle_of v =
     (if \<not> truthy v then Inr None
      else case v of PStr h \<Rightarrow> Inr (if is_agent_handle h then Some h else None) | _ \<Rightarrow> Inl AttributeError)"

definition orcid_of :: "pyval \<Rightarrow> pyexn + string option" where
  "orcid_of v =
     (if \<not> truthy v then Inr None
      else case v of PStr i \<Rightarrow> Inr (if is_orcid i then Some i else None) | _ \<Rightarrow> Inl TypeError)"

definition field_or_empty :: "string \<Rightarrow> pydict \<Rightarrow> pyval" where
  "field_or_empty k d = py_or (dget d k) (PStr [])"

definition author_key :: "pydict \<Rightarrow> pyexn + string \<times> string" where
  "author_key a =
     rbind (handle_of (field_or_empty ''agent_handle'' a)) (\<lambda>h.
       case h of Some i \<Rightarrow> Inr (i, ''agent'') | None \<Rightarrow>
       rbind (orcid_of (field_or_empty ''orcid'' a)) (\<lambda>o'.
         case o' of Some i \<Rightarrow> Inr (i, ''human'') | None \<Rightarrow>
         rbind (py_lower (field_or_empty ''name'' a)) (\<lambda>n. Inr (''name:'' @ n, ''name''))))"

definition opt_value :: "string option \<Rightarrow> pyval" where
  "opt_value v = (case v of None \<Rightarrow> PNone | Some t \<Rightarrow> PStr t)"

definition author_is_agent :: "pydict \<Rightarrow> bool" where
  "author_is_agent a = (truthy (dget a ''is_agent'') \<or> truthy (field_or_empty ''agent_handle'' a))"

section \<open>One authorship\<close>

text \<open>
  What one author of one paper contributes to the record of its key. An author is compared
  with every author of the paper: the one that is the same object has the same key, which
  skips it too.
\<close>

record authorship =
  as_key :: string
  as_type :: string
  as_name :: pyval
  as_orcid :: "string option"
  as_handle :: "string option"
  as_is_agent :: bool
  as_paper_id :: string
  as_co_authors :: "(string \<times> pydict) list"
  as_models :: "(string \<times> pydict) list"
  as_legacy_model :: "(string \<times> pydict) option"

definition dicts_in :: "pyval list \<Rightarrow> pydict list" where
  "dicts_in vs = concat (map (\<lambda>v. case v of PDict d \<Rightarrow> [d] | _ \<Rightarrow> []) vs)"

definition co_author :: "string \<Rightarrow> pydict \<Rightarrow> pyexn + (string \<times> pydict) list" where
  "co_author key other =
     rbind (author_key other) (\<lambda>(other_key, _).
       if other_key = key then Inr []
       else rbind (orcid_of (field_or_empty ''orcid'' other)) (\<lambda>orcid.
            rbind (handle_of (field_or_empty ''agent_handle'' other)) (\<lambda>handle.
              Inr [(other_key,
                [(''key'', PStr other_key), (''name'', field_or_empty ''name'' other),
                 (''orcid'', opt_value orcid), (''agent_handle'', opt_value handle),
                 (''is_agent'', PBool (author_is_agent other))])])))"

definition model_key :: "pydict \<Rightarrow> string" where
  "model_key m =
     (let pin = py_str (field_or_empty ''release_pin'' m)
      in if pin \<noteq> [] then pin else str_lower (py_str (field_or_empty ''name'' m)))"

definition declared_models :: "pydict \<Rightarrow> (string \<times> pydict) list" where
  "declared_models a =
     (case dget a ''provenance'' of
        PDict prov \<Rightarrow>
          (case dget prov ''models'' of
             PList ms \<Rightarrow> filter (\<lambda>(k, _). k \<noteq> []) (map (\<lambda>m. (model_key m, m)) (dicts_in ms))
           | _ \<Rightarrow> [])
      | _ \<Rightarrow> [])"

definition legacy_model :: "pydict \<Rightarrow> (string \<times> pydict) option" where
  "legacy_model a =
     (case dget a ''provenance'' of
        PDict prov \<Rightarrow>
          if is_list (dget prov ''models'') \<or> \<not> truthy (dget prov ''model_slug'') then None
          else Some (py_str (dget prov ''model_slug''),
            [(''name'', dget prov ''model_slug''), (''release_pin'', dget prov ''model_slug''),
             (''family'', dget prov ''model_family'')])
      | _ \<Rightarrow> None)"

definition authorship_of :: "pydict \<Rightarrow> pydict list \<Rightarrow> pydict \<Rightarrow> pyexn + authorship" where
  "authorship_of paper authors a =
     rbind (author_key a) (\<lambda>(key, identity_type).
     rbind (orcid_of (field_or_empty ''orcid'' a)) (\<lambda>orcid.
     rbind (handle_of (field_or_empty ''agent_handle'' a)) (\<lambda>handle.
     rbind (item_id paper) (\<lambda>pid.
     rbind (rmap (co_author key) authors) (\<lambda>cos.
       Inr \<lparr>as_key = key, as_type = identity_type, as_name = field_or_empty ''name'' a, as_orcid = orcid,
            as_handle = handle, as_is_agent = author_is_agent a, as_paper_id = pid,
            as_co_authors = concat cos, as_models = declared_models a,
            as_legacy_model = legacy_model a\<rparr>)))))"

definition paper_authorships :: "pydict \<Rightarrow> pyexn + authorship list" where
  "paper_authorships paper =
     rbind (authors_of paper) (\<lambda>vs. rmap (authorship_of paper (dicts_in vs)) (dicts_in vs))"

section \<open>Records\<close>

record author_record =
  ar_key :: string
  ar_identity_type :: string
  ar_name :: pyval
  ar_orcid :: "string option"
  ar_handle :: "string option"
  ar_is_agent :: bool
  ar_paper_ids :: "string list"
  ar_co_authors :: "(string \<times> pydict) list"
  ar_models :: "(string \<times> pydict) list"

text \<open>A model declared again replaces the record only when it has more fields.\<close>

definition add_model :: "string \<times> pydict \<Rightarrow> (string \<times> pydict) list \<Rightarrow> (string \<times> pydict) list" where
  "add_model km d = (case km of (k, m) \<Rightarrow>
     (case dict_get d k of
        None \<Rightarrow> dict_set k m d
      | Some existing \<Rightarrow> if existing = [] \<or> length existing < length m then dict_set k m d else d))"

definition fresh_record :: "authorship \<Rightarrow> author_record" where
  "fresh_record a = \<lparr>ar_key = as_key a, ar_identity_type = as_type a, ar_name = as_name a, ar_orcid = as_orcid a,
     ar_handle = as_handle a, ar_is_agent = as_is_agent a, ar_paper_ids = [], ar_co_authors = [], ar_models = []\<rparr>"

definition merge_authorship :: "authorship \<Rightarrow> author_record \<Rightarrow> author_record" where
  "merge_authorship a r =
     r\<lparr>ar_paper_ids := ar_paper_ids r @ [as_paper_id a],
       ar_name := (if truthy (ar_name r) then ar_name r else as_name a),
       ar_co_authors := fold (\<lambda>(k, c). dict_set k c) (as_co_authors a) (ar_co_authors r),
       ar_models :=
         (let ms = fold add_model (as_models a) (ar_models r)
          in case as_legacy_model a of None \<Rightarrow> ms | Some (k, m) \<Rightarrow> dict_set k m ms)\<rparr>"

type_synonym author_records = "(string \<times> author_record) list"

definition add_authorship :: "authorship \<Rightarrow> author_records \<Rightarrow> author_records" where
  "add_authorship a recs =
     (let r = (case dict_get recs (as_key a) of None \<Rightarrow> fresh_record a | Some r \<Rightarrow> r)
      in dict_set (as_key a) (merge_authorship a r) recs)"

definition author_records :: "store_state \<Rightarrow> pyexn + author_records" where
  "author_records s =
     rbind (rmap paper_authorships (list_papers s)) (\<lambda>xss. Inr (fold add_authorship (concat xss) []))"

section \<open>Endpoints\<close>

definition summarise_record :: "author_record \<Rightarrow> pydict" where
  "summarise_record r =
     [(''key'', PStr (ar_key r)), (''identity_type'', PStr (ar_identity_type r)), (''name'', ar_name r),
      (''orcid'', opt_value (ar_orcid r)), (''agent_handle'', opt_value (ar_handle r)),
      (''is_agent'', PBool (ar_is_agent r)), (''paper_count'', PInt (int (length (ar_paper_ids r))))]"

definition author_sort_key :: "pydict \<Rightarrow> pyexn + pyval list" where
  "author_sort_key a =
     rbind (py_lower (field_or_empty ''name'' a)) (\<lambda>n.
       case dget a ''paper_count'' of PInt i \<Rightarrow> Inr [PInt (- i), PStr n] | _ \<Rightarrow> Inl TypeError)"

text \<open>Sorting and paging compute every key, so a name that is no text raises in either.\<close>

definition list_authors ::
  "store_state \<Rightarrow> string option \<Rightarrow> int option \<Rightarrow> string option \<Rightarrow> exn + pydict list \<times> string option" where
  "list_authors s cursor limit identity_type =
     rbind (raising (author_records s)) (\<lambda>recs.
       let items = map (\<lambda>(_, r). summarise_record r) recs;
           items = (case identity_type of None \<Rightarrow> items
             | Some t \<Rightarrow> if t = [] then items else filter (\<lambda>i. dget i ''identity_type'' = PStr t) items)
       in rbind (raising (rmap author_sort_key items)) (\<lambda>keys.
          rbind (raising (py_sorted snd False (zip items keys))) (\<lambda>ordered.
          rbind (paginate ordered cursor limit snd False) (\<lambda>(page, next_cursor).
            Inr (map fst page, next_cursor)))))"

definition resolve_record :: "store_state \<Rightarrow> string \<Rightarrow> pyexn + author_record option \<times> string" where
  "resolve_record s ident =
     rbind (author_records s) (\<lambda>recs.
       Inr (if is_agent_handle ident then (dict_get recs ident, ''agent'')
            else if is_orcid ident then (dict_get recs ident, ''human'')
            else (case dict_get recs ident of
                Some r \<Rightarrow> Some r | None \<Rightarrow> dict_get recs (''name:'' @ str_lower ident), ''name'')))"

definition papers_with_ids :: "store_state \<Rightarrow> string list \<Rightarrow> pyexn + pydict list" where
  "papers_with_ids s ids = rfilter (\<lambda>p. rbind (item_id p) (\<lambda>i. Inr (i \<in> set ids))) (list_papers s)"

fun claims_under :: "store_state \<Rightarrow> string list \<Rightarrow> pydict list \<Rightarrow> pyexn + pydict list" where
  "claims_under s owner_keys [] = Inr []"
| "claims_under s owner_keys (c # cs) =
     (let v = dget c ''paper_id''
      in if unhashable v then Inl TypeError
         else if v \<in> PStr ` set owner_keys
         then rbind (apply_derived_status c s) (\<lambda>c'. rbind (claims_under s owner_keys cs) (\<lambda>rest. Inr (c' # rest)))
         else claims_under s owner_keys cs)"

definition sorted_by_name :: "pydict list \<Rightarrow> pyexn + pydict list" where
  "sorted_by_name ds =
     rbind (rmap (\<lambda>d. py_lower (field_or_empty ''name'' d)) ds) (\<lambda>names.
       Inr (map fst (sort_by (\<lambda>a b. snd a < snd b) (zip ds names))))"

definition empty_profile :: "string \<Rightarrow> string \<Rightarrow> pydict" where
  "empty_profile ident identity_type =
     [(''key'', PStr ident), (''identity_type'', PStr identity_type), (''name'', PStr ident),
      (''orcid'', if is_orcid ident then PStr ident else PNone),
      (''agent_handle'', if is_agent_handle ident then PStr ident else PNone),
      (''is_agent'', PBool (is_agent_handle ident)), (''paper_count'', PInt 0), (''claim_count'', PInt 0),
      (''papers'', PList []), (''claims'', PList []), (''co_authors'', PList []), (''models'', PList [])]"

definition profile :: "author_record \<Rightarrow> pydict list \<Rightarrow> pydict list \<Rightarrow> pydict list \<Rightarrow> pydict list \<Rightarrow> pydict" where
  "profile r papers claims co_authors models =
     [(''key'', PStr (ar_key r)), (''identity_type'', PStr (ar_identity_type r)), (''name'', ar_name r),
      (''orcid'', opt_value (ar_orcid r)), (''agent_handle'', opt_value (ar_handle r)),
      (''is_agent'', PBool (ar_is_agent r)), (''paper_count'', PInt (int (length papers))),
      (''claim_count'', PInt (int (length claims))), (''papers'', PList (map PDict papers)),
      (''claims'', PList (map PDict claims)), (''co_authors'', PList (map PDict co_authors)),
      (''models'', PList (map PDict models))]"

definition get_author :: "store_state \<Rightarrow> string \<Rightarrow> string \<Rightarrow> pyexn + pydict" where
  "get_author s now ident =
     rbind (resolve_record s ident) (\<lambda>(found, identity_type).
       case found of
         None \<Rightarrow> Inr (empty_profile ident identity_type)
       | Some r \<Rightarrow>
           rbind (papers_with_ids s (ar_paper_ids r)) (\<lambda>authored.
           rbind (rmap (\<lambda>p. to_list_item p s now) authored) (\<lambda>items.
           rbind (py_sorted_by (\<lambda>p. py_or (dget p ''submitted_at'') (PStr [])) True items) (\<lambda>papers.
           rbind (rmap claim_owner_key authored) (\<lambda>owner_keys.
           rbind (claims_under s owner_keys (list_claims s)) (\<lambda>claims.
           rbind (sorted_by_name (map snd (ar_co_authors r))) (\<lambda>co_authors.
           rbind (sorted_by_name (map snd (ar_models r))) (\<lambda>models.
             Inr (profile r papers claims co_authors models)))))))))"

definition list_author_papers ::
  "store_state \<Rightarrow> string \<Rightarrow> string \<Rightarrow> string option \<Rightarrow> int option \<Rightarrow> exn + pydict list \<times> string option" where
  "list_author_papers s now ident cursor limit =
     rbind (raising (resolve_record s ident)) (\<lambda>(found, _).
       case found of
         None \<Rightarrow> Inr ([], None)
       | Some r \<Rightarrow>
           rbind (raising (papers_with_ids s (ar_paper_ids r))) (\<lambda>authored.
           rbind (raising (rmap (\<lambda>p. to_list_item p s now) authored)) (\<lambda>papers.
             paginate papers cursor limit paper_key True)))"

definition list_author_claims ::
  "store_state \<Rightarrow> string \<Rightarrow> string option \<Rightarrow> int option \<Rightarrow> exn + pydict list \<times> string option" where
  "list_author_claims s ident cursor limit =
     rbind (raising (resolve_record s ident)) (\<lambda>(found, _).
       case found of
         None \<Rightarrow> Inr ([], None)
       | Some r \<Rightarrow>
           rbind (raising (papers_with_ids s (ar_paper_ids r))) (\<lambda>authored.
           rbind (raising (rmap claim_owner_key authored)) (\<lambda>owner_keys.
           rbind (raising (claims_under s owner_keys (list_claims s))) (\<lambda>claims.
             paginate claims cursor limit claim_key True))))"

section \<open>What a record holds\<close>

definition authored_by :: "string \<Rightarrow> pydict \<Rightarrow> bool" where
  "authored_by k p \<longleftrightarrow> (\<exists>vs d t. authors_of p = Inr vs \<and> PDict d \<in> set vs \<and> author_key d = Inr (k, t))"

lemma set_dicts_in [simp]: "d \<in> set (dicts_in vs) \<longleftrightarrow> PDict d \<in> set vs"
  by (force simp: dicts_in_def split: pyval.splits)

lemma authorship_ofD:
  assumes "authorship_of p ds d = Inr a"
  shows "\<exists>t. author_key d = Inr (as_key a, t)" and "item_id p = Inr (as_paper_id a)"
    and "\<exists>cos. rmap (co_author (as_key a)) ds = Inr cos \<and> as_co_authors a = concat cos"
  using assms by (auto simp: authorship_of_def rbind_Inr_iff)

lemma co_author_keys:
  "co_author k d = Inr cs \<Longrightarrow> \<exists>k' t. author_key d = Inr (k', t) \<and> fst ` set cs = (if k' = k then {} else {k'})"
  by (auto simp: co_author_def rbind_Inr_iff split: if_splits)

lemma rmap_set:
  assumes "rmap f xs = Inr ys"
  shows "y \<in> set ys \<longleftrightarrow> (\<exists>x \<in> set xs. f x = Inr y)"
  using assms by (induction xs arbitrary: ys) (auto simp: rbind_Inr_iff)

lemma rmap_defined: "rmap f xs = Inr ys \<Longrightarrow> x \<in> set xs \<Longrightarrow> \<exists>y \<in> set ys. f x = Inr y"
  by (induction xs arbitrary: ys) (auto simp: rbind_Inr_iff)

lemma paper_authorships_keys:
  assumes "paper_authorships p = Inr as"
  shows "(\<exists>a \<in> set as. as_key a = k) \<longleftrightarrow> authored_by k p"
    and "a \<in> set as \<Longrightarrow> item_id p = Inr (as_paper_id a)"
    and "a \<in> set as \<Longrightarrow> k \<in> fst ` set (as_co_authors a) \<longleftrightarrow> k \<noteq> as_key a \<and> authored_by k p"
proof -
  from assms obtain vs where vs: "authors_of p = Inr vs"
    and as: "rmap (authorship_of p (dicts_in vs)) (dicts_in vs) = Inr as"
    by (auto simp: paper_authorships_def rbind_Inr_iff)
  have by_key: "authored_by j p \<longleftrightarrow> (\<exists>d t. PDict d \<in> set vs \<and> author_key d = Inr (j, t))" for j
    using vs by (auto simp: authored_by_def)
  show "(\<exists>a \<in> set as. as_key a = k) \<longleftrightarrow> authored_by k p"
  proof
    assume "\<exists>a \<in> set as. as_key a = k"
    then obtain a d where "PDict d \<in> set vs" "authorship_of p (dicts_in vs) d = Inr a" "as_key a = k"
      using as by (auto simp: rmap_set)
    then show "authored_by k p" using by_key authorship_ofD(1) by blast
  next
    assume "authored_by k p"
    then obtain d t where d: "PDict d \<in> set vs" "author_key d = Inr (k, t)" using by_key by blast
    then obtain a where a: "a \<in> set as" "authorship_of p (dicts_in vs) d = Inr a"
      using rmap_defined [OF as, of d] by auto
    with authorship_ofD(1) [OF a(2)] d(2) show "\<exists>a \<in> set as. as_key a = k" by auto
  qed
  assume "a \<in> set as"
  then obtain d where d: "PDict d \<in> set vs" "authorship_of p (dicts_in vs) d = Inr a"
    using as by (auto simp: rmap_set)
  show "item_id p = Inr (as_paper_id a)" using authorship_ofD(2) [OF d(2)] .
  obtain cos where cos: "rmap (co_author (as_key a)) (dicts_in vs) = Inr cos" "as_co_authors a = concat cos"
    using authorship_ofD(3) [OF d(2)] by blast
  show "k \<in> fst ` set (as_co_authors a) \<longleftrightarrow> k \<noteq> as_key a \<and> authored_by k p"
  proof
    assume "k \<in> fst ` set (as_co_authors a)"
    then obtain cs where "cs \<in> set cos" and k: "k \<in> fst ` set cs" using cos(2) by auto
    then obtain e where e: "PDict e \<in> set vs" "co_author (as_key a) e = Inr cs"
      using rmap_set [OF cos(1)] by auto
    from co_author_keys [OF e(2)] obtain k' t where "author_key e = Inr (k', t)"
      and cs: "fst ` set cs = (if k' = as_key a then {} else {k'})" by blast
    moreover have "k' = k" "k \<noteq> as_key a" using k unfolding cs by (simp_all split: if_splits)
    ultimately show "k \<noteq> as_key a \<and> authored_by k p" using e(1) by_key by blast
  next
    assume k: "k \<noteq> as_key a \<and> authored_by k p"
    then obtain e t where e: "PDict e \<in> set vs" "author_key e = Inr (k, t)" using by_key by blast
    then obtain cs where cs: "cs \<in> set cos" "co_author (as_key a) e = Inr cs"
      using rmap_defined [OF cos(1), of e] by auto
    from co_author_keys [OF cs(2)] e(2) k have "fst ` set cs = {k}" by auto
    then have "k \<in> fst ` set cs" by simp
    with cs(1) cos(2) show "k \<in> fst ` set (as_co_authors a)" by (auto simp: image_iff)
  qed
qed

section \<open>Merging\<close>

lemma fold_add_authorship:
  "dict_get (fold add_authorship as recs) k =
    (let mine = filter (\<lambda>a. as_key a = k) as
     in case dict_get recs k of
          Some r \<Rightarrow> Some (fold merge_authorship mine r)
        | None \<Rightarrow> if mine = [] then None else Some (fold merge_authorship mine (fresh_record (hd mine))))"
  by (induction as arbitrary: recs) (auto simp: add_authorship_def Let_def split: option.splits)

lemma fold_merge_papers:
  "ar_paper_ids (fold merge_authorship as r) = ar_paper_ids r @ map as_paper_id as"
  by (induction as arbitrary: r) (simp_all add: merge_authorship_def)

lemma fold_set_keys: "fst ` set (fold (\<lambda>(k, c). dict_set k c) cs d) = fst ` set cs \<union> fst ` set d"
  by (induction cs arbitrary: d) (simp_all add: dict_set_keys case_prod_unfold)

lemma fold_merge_co_authors:
  "fst ` set (ar_co_authors (fold merge_authorship as r)) =
    (\<Union>a \<in> set as. fst ` set (as_co_authors a)) \<union> fst ` set (ar_co_authors r)"
  by (induction as arbitrary: r) (auto simp: merge_authorship_def fold_set_keys)

definition co_keys :: "authorship \<Rightarrow> string set" where
  "co_keys a = fst ` set (as_co_authors a)"

definition authorships :: "store_state \<Rightarrow> pyexn + authorship list" where
  "authorships s = rbind (rmap paper_authorships (list_papers s)) (\<lambda>xss. Inr (concat xss))"

lemma authorships_of_paper:
  assumes "authorships s = Inr as"
  shows "p \<in> set (list_papers s) \<Longrightarrow> authored_by k p \<Longrightarrow> \<exists>a \<in> set as. as_key a = k \<and>
      item_id p = Inr (as_paper_id a) \<and> co_keys a = {j. j \<noteq> k \<and> authored_by j p}"
    and "a \<in> set as \<Longrightarrow> \<exists>p \<in> set (list_papers s). authored_by (as_key a) p \<and>
      item_id p = Inr (as_paper_id a) \<and> co_keys a = {j. j \<noteq> as_key a \<and> authored_by j p}"
proof -
  from assms obtain xss where xss: "rmap paper_authorships (list_papers s) = Inr xss" "as = concat xss"
    by (auto simp: authorships_def rbind_Inr_iff)
  have facts: "item_id p = Inr (as_paper_id a) \<and> co_keys a = {j. j \<noteq> as_key a \<and> authored_by j p}"
    if "paper_authorships p = Inr xs" "a \<in> set xs" for p xs a
    using paper_authorships_keys(2,3) [OF that] by (auto simp: co_keys_def)
  {
    assume "p \<in> set (list_papers s)" "authored_by k p"
    then obtain xs a where "xs \<in> set xss" "paper_authorships p = Inr xs" "a \<in> set xs" "as_key a = k"
      using rmap_defined [OF xss(1)] paper_authorships_keys(1) by blast
    with facts xss(2) show "\<exists>a \<in> set as. as_key a = k \<and> item_id p = Inr (as_paper_id a) \<and>
        co_keys a = {j. j \<noteq> k \<and> authored_by j p}" by (intro bexI [of _ a]) auto
  next
    assume "a \<in> set as"
    then obtain xs p where p: "p \<in> set (list_papers s)" "paper_authorships p = Inr xs" "a \<in> set xs"
      using xss rmap_set [OF xss(1)] by auto
    moreover have "authored_by (as_key a) p" using paper_authorships_keys(1) [OF p(2)] p(3) by blast
    ultimately show "\<exists>p \<in> set (list_papers s). authored_by (as_key a) p \<and> item_id p = Inr (as_paper_id a) \<and>
        co_keys a = {j. j \<noteq> as_key a \<and> authored_by j p}" using facts [OF p(2,3)] by blast
  }
qed

lemma author_records_get:
  assumes "author_records s = Inr recs"
  shows "\<exists>as. authorships s = Inr as \<and>
    (dict_get recs k = None \<longleftrightarrow> (\<forall>a \<in> set as. as_key a \<noteq> k)) \<and>
    (\<forall>r. dict_get recs k = Some r \<longrightarrow> set (ar_paper_ids r) = as_paper_id ` {a \<in> set as. as_key a = k} \<and>
      fst ` set (ar_co_authors r) = (\<Union>a \<in> {a \<in> set as. as_key a = k}. co_keys a))"
proof -
  from assms obtain as where as: "authorships s = Inr as" and recs: "recs = fold add_authorship as []"
    by (auto simp: author_records_def authorships_def rbind_Inr_iff)
  let ?mine = "filter (\<lambda>a. as_key a = k) as"
  have get: "dict_get recs k = (if ?mine = [] then None
      else Some (fold merge_authorship ?mine (fresh_record (hd ?mine))))"
    by (simp add: recs fold_add_authorship Let_def)
  show ?thesis
    using as unfolding get
    by (auto simp: filter_empty_conv fold_merge_papers fold_merge_co_authors fresh_record_def co_keys_def
        split: if_splits)
qed

text \<open>
  There is a record of an identity exactly when a stored paper has an author of that
  identity, and the record lists exactly the papers that have one; its co-authors are exactly
  the other identities that share a paper with it, so being co-authors is mutual.
\<close>

lemma author_record_exact:
  assumes "author_records s = Inr recs"
  shows "case dict_get recs k of
      None \<Rightarrow> \<not> (\<exists>p \<in> set (list_papers s). authored_by k p)
    | Some r \<Rightarrow> (\<exists>p \<in> set (list_papers s). authored_by k p) \<and>
        set (ar_paper_ids r) = {i. \<exists>p \<in> set (list_papers s). authored_by k p \<and> item_id p = Inr i} \<and>
        fst ` set (ar_co_authors r) = {j. j \<noteq> k \<and> (\<exists>p \<in> set (list_papers s). authored_by k p \<and> authored_by j p)}"
proof -
  from author_records_get [OF assms, of k] obtain as where as: "authorships s = Inr as"
    and none: "dict_get recs k = None \<longleftrightarrow> (\<forall>a \<in> set as. as_key a \<noteq> k)"
    and some: "\<forall>r. dict_get recs k = Some r \<longrightarrow> set (ar_paper_ids r) = as_paper_id ` {a \<in> set as. as_key a = k} \<and>
      fst ` set (ar_co_authors r) = (\<Union>a \<in> {a \<in> set as. as_key a = k}. co_keys a)"
    by (elim exE conjE) (rule that)
  note facts = authorships_of_paper [OF as]
  have any: "(\<exists>a \<in> set as. as_key a = k) \<longleftrightarrow> (\<exists>p \<in> set (list_papers s). authored_by k p)"
    using facts by blast
  have ids: "as_paper_id ` {a \<in> set as. as_key a = k} =
      {i. \<exists>p \<in> set (list_papers s). authored_by k p \<and> item_id p = Inr i}"
    using facts by (fastforce simp: image_iff)
  have cos: "(\<Union>a \<in> {a \<in> set as. as_key a = k}. co_keys a) =
      {j. j \<noteq> k \<and> (\<exists>p \<in> set (list_papers s). authored_by k p \<and> authored_by j p)}"
    using facts by fastforce
  show ?thesis
  proof (cases "dict_get recs k")
    case None
    with none any show ?thesis by auto
  next
    case (Some r)
    with none any have "\<exists>p \<in> set (list_papers s). authored_by k p" by auto
    with some Some ids cos show ?thesis by simp
  qed
qed

definition coauthored :: store_state where
  "coauthored = empty_store\<lparr>st_papers :=
     [(''p1'', [(''id'', PStr ''p1''), (''authors'', PList
        [PDict [(''name'', PStr ''Ada''), (''orcid'', PStr ''0000-0001-2345-6789'')],
         PDict [(''name'', PStr ''Bot''), (''agent_handle'', PStr ''agent:bot'')]])]),
      (''p2'', [(''id'', PStr ''p2''), (''authors'', PList [PDict [(''name'', PStr ''Carl'')]])])]\<rparr>"

lemma author_record_exact_witness:
  "\<exists>recs r. author_records coauthored = Inr recs \<and> dict_get recs ''agent:bot'' = Some r \<and>
    ''0000-0001-2345-6789'' \<in> fst ` set (ar_co_authors r) \<and>
    (\<exists>p \<in> set (list_papers coauthored). authored_by ''agent:bot'' p)"
proof -
  have "case author_records coauthored of Inl _ \<Rightarrow> False
    | Inr recs \<Rightarrow> (case dict_get recs ''agent:bot'' of None \<Rightarrow> False
        | Some r \<Rightarrow> ''0000-0001-2345-6789'' \<in> set (map fst (ar_co_authors r)))" by code_simp
  then obtain recs r where recs: "author_records coauthored = Inr recs" and r: "dict_get recs ''agent:bot'' = Some r"
    and co: "''0000-0001-2345-6789'' \<in> fst ` set (ar_co_authors r)"
    by (auto split: sum.splits option.splits)
  from author_record_exact [OF recs, of "''agent:bot''"] recs r co show ?thesis by simp
qed

text \<open>
  An author listed twice on one paper is counted twice in the listing, but the profile counts
  the paper once.
\<close>

definition repeated_author :: store_state where
  "repeated_author = empty_store\<lparr>st_papers :=
     [(''p1'', [(''id'', PStr ''p1''), (''authors'', PList
        [PDict [(''name'', PStr ''Ada'')], PDict [(''name'', PStr ''ADA'')]])])]\<rparr>"

lemma paper_counts_disagree:
  "case (list_authors repeated_author None None None, get_author repeated_author ''t'' ''Ada'') of
     (Inr ([item], _), Inr p) \<Rightarrow> dget item ''paper_count'' = PInt 2 \<and> dget p ''paper_count'' = PInt 1
   | _ \<Rightarrow> False"
  by code_simp

end
