(* ===== verification/Model_Registry.thy ===== *)
theory Model_Registry
  imports Search
begin

text \<open>
  The model registry, \<open>server/models/router.py\<close>: the curated file, read again when its
  modification time changes, and the counts of the corpus for each of its entries. What the
  file system shows of the path found is a parameter of a request.
\<close>

section \<open>Loading\<close>

text \<open>
  The path given by the environment is the only candidate when there is one; which paths are
  files is a parameter, as are the default paths, which depend on where the package is.
\<close>

definition resolve_registry_path :: "(string \<Rightarrow> bool) \<Rightarrow> string list \<Rightarrow> string option \<Rightarrow> string option" where
  "resolve_registry_path is_file defaults env_path =
     (case env_path of
        Some p \<Rightarrow> if p \<noteq> [] then (if is_file p then Some p else None)
                  else find (\<lambda>p. p \<noteq> [] \<and> is_file p) defaults
      | None \<Rightarrow> find (\<lambda>p. p \<noteq> [] \<and> is_file p) defaults)"

text \<open>A configured file that is missing is never replaced by a default one.\<close>

lemma configured_path_exclusive:
  "env_path = Some p \<Longrightarrow> p \<noteq> [] \<Longrightarrow> resolve_registry_path is_file defaults env_path \<in> {None, Some p}"
  by (simp add: resolve_registry_path_def)

text \<open>No file, a file whose status cannot be read, or its time and its parsed content.\<close>

datatype registry_file = No_File | Stat_Fails | Registry_File int "pyval option"

type_synonym registry_cache = "(int \<times> pyval) option"

definition empty_registry :: pyval where
  "empty_registry = PDict [(''version'', PStr ''0.0.0''), (''updated_at'', PNone), (''entries'', PList [])]"

definition without_comment :: "pyval \<Rightarrow> pyval" where
  "without_comment e = (case e of PDict d \<Rightarrow> PDict (dict_pop ''$comment'' d) | _ \<Rightarrow> e)"

definition clean_registry :: "pyval \<Rightarrow> pyval" where
  "clean_registry raw =
     (case raw of
        PDict d \<Rightarrow>
          let d = dict_pop ''$schema'' (dict_pop ''$comment'' d)
          in PDict (case dget d ''entries'' of
               PList es \<Rightarrow> dict_set ''entries'' (PList (map without_comment es)) d
             | _ \<Rightarrow> d)
      | _ \<Rightarrow> raw)"

definition load_registry :: "registry_file \<Rightarrow> registry_cache \<Rightarrow> pyval \<times> registry_cache" where
  "load_registry file cache =
     (case file of
        No_File \<Rightarrow> (empty_registry, cache)
      | Stat_Fails \<Rightarrow> (empty_registry, cache)
      | Registry_File mtime content \<Rightarrow>
          (case cache of
             Some (t, v) \<Rightarrow>
               if t = mtime then (v, cache)
               else (case content of None \<Rightarrow> (empty_registry, cache)
                 | Some raw \<Rightarrow> (clean_registry raw, Some (mtime, clean_registry raw)))
           | None \<Rightarrow>
               (case content of None \<Rightarrow> (empty_registry, cache)
                | Some raw \<Rightarrow> (clean_registry raw, Some (mtime, clean_registry raw)))))"

section \<open>Counting\<close>

record usage =
  us_papers_count :: int
  us_last_seen_at :: pyval

type_synonym buckets = "(string \<times> usage) list"

definition registry_key :: "pydict \<Rightarrow> string" where
  "registry_key m =
     (let pin = str_strip (py_str (py_or (dget m ''release_pin'') (PStr [])))
      in if pin \<noteq> [] then pin else str_lower (str_strip (py_str (py_or (dget m ''name'') (PStr [])))))"

text \<open>The distinct keys of a paper, in the order of their first model.\<close>

fun first_keys :: "string list \<Rightarrow> string list \<Rightarrow> string list" where
  "first_keys seen [] = []"
| "first_keys seen (k # ks) = (if k = [] \<or> k \<in> set seen then first_keys seen ks else k # first_keys (k # seen) ks)"

definition paper_model_keys :: "pydict \<Rightarrow> pyexn + string list" where
  "paper_model_keys p = rbind (iter_provenance_models p) (\<lambda>ms. Inr (first_keys [] (map registry_key ms)))"

definition count_use :: "pyval \<Rightarrow> string \<Rightarrow> buckets \<Rightarrow> pyexn + buckets" where
  "count_use submitted k b =
     (let u = (case dict_get b k of None \<Rightarrow> \<lparr>us_papers_count = 0, us_last_seen_at = PNone\<rparr> | Some u \<Rightarrow> u);
          n = us_papers_count u + 1
      in rbind (if \<not> truthy submitted then Inr False
                else if us_last_seen_at u = PNone then Inr True
                else py_gt submitted (us_last_seen_at u)) (\<lambda>later.
           Inr (dict_set k \<lparr>us_papers_count = n,
             us_last_seen_at = (if later then submitted else us_last_seen_at u)\<rparr> b)))"

fun count_uses :: "pyval \<Rightarrow> string list \<Rightarrow> buckets \<Rightarrow> pyexn + buckets" where
  "count_uses submitted [] b = Inr b"
| "count_uses submitted (k # ks) b = rbind (count_use submitted k b) (count_uses submitted ks)"

fun corpus_aggregation :: "pydict list \<Rightarrow> buckets \<Rightarrow> pyexn + buckets" where
  "corpus_aggregation [] b = Inr b"
| "corpus_aggregation (p # ps) b =
     rbind (paper_model_keys p) (\<lambda>ks.
     rbind (count_uses (py_or (dget p ''submitted_at'') (PStr [])) ks b) (corpus_aggregation ps))"

section \<open>The endpoint\<close>

definition augmented_entry :: "buckets \<Rightarrow> pydict \<Rightarrow> pydict" where
  "augmented_entry b e =
     (let pin = py_str (py_or (dget e ''release_pin'') (PStr []));
          name_lc = str_lower (py_str (py_or (dget e ''name'') (PStr [])));
          u = (case dict_get b pin of Some u \<Rightarrow> Some u | None \<Rightarrow> dict_get b name_lc)
      in dict_set ''last_seen_at'' (case u of None \<Rightarrow> PNone | Some u \<Rightarrow> us_last_seen_at u)
           (dict_set ''papers_count'' (PInt (case u of None \<Rightarrow> 0 | Some u \<Rightarrow> us_papers_count u)) e))"

definition entry_key :: "pydict \<Rightarrow> pyexn + int \<times> string" where
  "entry_key e =
     rbind (py_int (py_or (dget e ''display_order'') (PInt 9999))) (\<lambda>i.
       Inr (i, str_lower (py_str (py_or (dget e ''name'') (PStr [])))))"

definition sort_entries :: "pydict list \<Rightarrow> pyexn + pydict list" where
  "sort_entries es = rbind (rmap entry_key es) (\<lambda>keys. Inr (map fst (sort_by (\<lambda>a b. snd a < snd b) (zip es keys))))"

definition get_model_registry ::
  "registry_file \<Rightarrow> registry_cache \<Rightarrow> store_state \<Rightarrow> (pyexn + pydict) \<times> registry_cache" where
  "get_model_registry file cache s =
     (let (reg, cache') = load_registry file cache
      in (rbind (corpus_aggregation (list_papers s) []) (\<lambda>b.
          case reg of
            PDict d \<Rightarrow>
              rbind (py_iter (py_or (case dict_get d ''entries'' of None \<Rightarrow> PList [] | Some v \<Rightarrow> v) (PList []))) (\<lambda>vs.
              rbind (sort_entries (map (augmented_entry b)
                  (concat (map (\<lambda>v. case v of PDict e \<Rightarrow> [e] | _ \<Rightarrow> []) vs)))) (\<lambda>entries.
                Inr [(''version'', case dict_get d ''version'' of None \<Rightarrow> PStr ''0.0.0'' | Some v \<Rightarrow> v),
                     (''updated_at'', dget d ''updated_at''), (''entries'', PList (map PDict entries))]))
          | _ \<Rightarrow> Inl AttributeError), cache'))"

section \<open>The counts\<close>

definition uses_model :: "string \<Rightarrow> pydict \<Rightarrow> bool" where
  "uses_model k p \<longleftrightarrow> (\<exists>ks. paper_model_keys p = Inr ks \<and> k \<in> set ks)"

definition submitted_of :: "pydict \<Rightarrow> pyval" where
  "submitted_of p = py_or (dget p ''submitted_at'') (PStr [])"

text \<open>The latest of the texts that are not empty.\<close>

definition latest :: "pyval list \<Rightarrow> pyval" where
  "latest vs = (let ts = {t. PStr t \<in> set vs \<and> t \<noteq> []} in if ts = {} then PNone else PStr (Max ts))"

definition later_of :: "pyval \<Rightarrow> pyval \<Rightarrow> pyval" where
  "later_of old v = (if \<not> truthy v then old else if old = PNone then v else if value_lt old v then v else old)"

definition use_step :: "pydict \<Rightarrow> usage option \<Rightarrow> usage option" where
  "use_step p u = Some \<lparr>us_papers_count = (case u of None \<Rightarrow> 0 | Some u \<Rightarrow> us_papers_count u) + 1,
     us_last_seen_at = later_of (case u of None \<Rightarrow> PNone | Some u \<Rightarrow> us_last_seen_at u) (submitted_of p)\<rparr>"

lemma first_keys_spec:
  "set (first_keys seen ks) = set ks - set seen - {[]}" "distinct (first_keys seen ks)"
  by (induction seen ks rule: first_keys.induct) auto

lemma count_use_step:
  assumes "count_use (submitted_of p) k b = Inr b'"
  shows "dict_get b' j = (if j = k then use_step p (dict_get b k) else dict_get b j)"
proof -
  define u where "u = (case dict_get b k of None \<Rightarrow> \<lparr>us_papers_count = 0, us_last_seen_at = PNone\<rparr> | Some u \<Rightarrow> u)"
  from assms obtain later where
    l: "(if \<not> truthy (submitted_of p) then Inr False
         else if us_last_seen_at u = PNone then Inr True
         else py_gt (submitted_of p) (us_last_seen_at u)) = Inr later"
    and b': "b' = dict_set k \<lparr>us_papers_count = us_papers_count u + 1,
      us_last_seen_at = (if later then submitted_of p else us_last_seen_at u)\<rparr> b"
    unfolding count_use_def Let_def rbind_Inr_iff u_def [symmetric] by blast
  have "(if later then submitted_of p else us_last_seen_at u) = later_of (us_last_seen_at u) (submitted_of p)"
    using l by (auto simp: later_of_def value_lt_def py_gt_def split: if_splits)
  with b' show ?thesis by (simp add: use_step_def u_def split: option.split)
qed

lemma count_uses_step:
  assumes "count_uses (submitted_of p) ks b = Inr b'" "distinct ks"
  shows "dict_get b' j = (if j \<in> set ks then use_step p (dict_get b j) else dict_get b j)"
  using assms by (induction ks arbitrary: b) (auto simp: rbind_Inr_iff count_use_step)

lemma corpus_aggregation_step:
  "corpus_aggregation ps b = Inr b' \<Longrightarrow> dict_get b' k = fold use_step (filter (uses_model k) ps) (dict_get b k)"
proof (induction ps arbitrary: b)
  case Nil
  then show ?case by simp
next
  case (Cons p ps)
  then obtain ks b1 where ks: "paper_model_keys p = Inr ks"
    and b1: "count_uses (submitted_of p) ks b = Inr b1" and rest: "corpus_aggregation ps b1 = Inr b'"
    by (auto simp: rbind_Inr_iff submitted_of_def)
  have "distinct ks" using ks first_keys_spec(2) by (auto simp: paper_model_keys_def rbind_Inr_iff)
  from count_uses_step [OF b1 this, of k] Cons.IH [OF rest] ks show ?case
    by (simp add: uses_model_def)
qed

lemma later_of_latest:
  assumes "opt_str (dget p ''submitted_at'')"
  shows "later_of (latest vs) (submitted_of p) = latest (vs @ [submitted_of p])"
proof -
  let ?T = "{t. PStr t \<in> set vs \<and> t \<noteq> []}"
  have fin: "finite ?T" by (rule finite_subset [of _ "(\<lambda>v. case v of PStr t \<Rightarrow> t | _ \<Rightarrow> []) ` set vs"]) force+
  have "is_str (submitted_of p)"
    using assms by (cases "dget p ''submitted_at''") (auto simp: submitted_of_def py_or_def opt_str_def)
  then obtain t where t: "submitted_of p = PStr t" by (auto simp: is_str_iff)
  show ?thesis
  proof (cases "t = []")
    case True
    then have "{u. PStr u \<in> set (vs @ [submitted_of p]) \<and> u \<noteq> []} = ?T" by (auto simp: t)
    with True show ?thesis by (simp add: t later_of_def latest_def)
  next
    case False
    then have "{u. PStr u \<in> set (vs @ [submitted_of p]) \<and> u \<noteq> []} = insert t ?T" by (auto simp: t)
    then have new: "latest (vs @ [submitted_of p]) = PStr (Max (insert t ?T))" by (simp add: latest_def)
    show ?thesis
    proof (cases "?T = {}")
      case True
      with new False show ?thesis by (simp add: t later_of_def latest_def)
    next
      case ne: False
      have m: "Max (insert t ?T) = max t (Max ?T)" using fin ne by (rule Max_insert)
      have "later_of (PStr (Max ?T)) (PStr t) = PStr (max t (Max ?T))"
        using False by (auto simp: later_of_def value_lt_def max_def)
      moreover have "latest vs = PStr (Max ?T)" using ne by (simp add: latest_def)
      ultimately show ?thesis using new m by (simp add: t)
    qed
  qed
qed

lemma fold_use_step:
  assumes "list_all (\<lambda>p. opt_str (dget p ''submitted_at'')) ps" "ps \<noteq> []"
  shows "fold use_step ps None =
    Some \<lparr>us_papers_count = int (length ps), us_last_seen_at = latest (map submitted_of ps)\<rparr>"
  using assms
proof (induction ps rule: rev_induct)
  case Nil
  then show ?case by simp
next
  case (snoc p ps)
  then have p: "opt_str (dget p ''submitted_at'')" by simp
  show ?case
  proof (cases "ps = []")
    case True
    then show ?thesis using later_of_latest [OF p, of "[]"] by (simp add: use_step_def latest_def)
  next
    case False
    with snoc have "fold use_step ps None =
      Some \<lparr>us_papers_count = int (length ps), us_last_seen_at = latest (map submitted_of ps)\<rparr>" by simp
    then show ?thesis by (simp add: use_step_def [of p] later_of_latest [OF p])
  qed
qed

text \<open>
  The registry counts, for each release or model name, the stored papers with an agent
  author that declares it, each once, and remembers the latest time one was submitted.
\<close>

lemma registry_counts_papers:
  assumes "corpus_aggregation (list_papers s) [] = Inr b"
    and "list_all (\<lambda>p. opt_str (dget p ''submitted_at'')) (list_papers s)"
  shows "dict_get b k =
    (let users = filter (uses_model k) (list_papers s)
     in if users = [] then None
        else Some \<lparr>us_papers_count = int (length users), us_last_seen_at = latest (map submitted_of users)\<rparr>)"
proof -
  have "list_all (\<lambda>p. opt_str (dget p ''submitted_at'')) (filter (uses_model k) (list_papers s))"
    using assms(2) by (auto simp: list_all_iff)
  with corpus_aggregation_step [OF assms(1), of k] fold_use_step show ?thesis by (simp add: Let_def)
qed

definition modelled_papers :: store_state where
  "modelled_papers =
     (let agent = PDict [(''name'', PStr ''Bot''), (''provenance'', PDict [(''models'',
            PList [PDict [(''name'', PStr '' Claude '')], PDict [(''name'', PStr ''claude'')]])])]
      in empty_store\<lparr>st_papers :=
        [(''p1'', [(''id'', PStr ''p1''), (''submitted_at'', PStr ''2026-02''), (''authors'', PList [agent])]),
         (''p2'', [(''id'', PStr ''p2''), (''submitted_at'', PStr ''2026-01''), (''authors'', PList [agent, agent])])]\<rparr>)"

lemma registry_counts_papers_witness:
  "\<exists>b. corpus_aggregation (list_papers modelled_papers) [] = Inr b \<and>
    dict_get b ''claude'' = Some \<lparr>us_papers_count = 2, us_last_seen_at = PStr ''2026-02''\<rparr> \<and>
    length (filter (uses_model ''claude'') (list_papers modelled_papers)) = 2"
proof -
  have "case corpus_aggregation (list_papers modelled_papers) [] of Inl _ \<Rightarrow> False
    | Inr b \<Rightarrow> dict_get b ''claude'' = Some \<lparr>us_papers_count = 2, us_last_seen_at = PStr ''2026-02''\<rparr>" by code_simp
  then obtain b where b: "corpus_aggregation (list_papers modelled_papers) [] = Inr b"
    and c: "dict_get b ''claude'' = Some \<lparr>us_papers_count = 2, us_last_seen_at = PStr ''2026-02''\<rparr>"
    by (auto split: sum.splits)
  have "list_all (\<lambda>p. opt_str (dget p ''submitted_at'')) (list_papers modelled_papers)" by code_simp
  from registry_counts_papers [OF b this, of "''claude''"] b c show ?thesis by (auto simp: Let_def split: if_splits)
qed

section \<open>The cache\<close>

text \<open>
  After a request that could read the file, the cache holds the registry of the time of the
  file, and every later request at that time gets the same registry.
\<close>

lemma registry_cached:
  assumes "load_registry (Registry_File t (Some raw)) cache = (v, cache')" "cache = None \<or> fst (the cache) \<noteq> t"
  shows "v = clean_registry raw \<and> load_registry (Registry_File t content) cache' = (v, cache')"
  using assms by (auto simp: load_registry_def split: option.splits prod.splits)

text \<open>An entry whose place is zero is sorted as if it had none.\<close>

lemma first_place_sorts_last:
  "sort_entries [[(''name'', PStr ''a''), (''display_order'', PInt 0)], [(''name'', PStr ''b''), (''display_order'', PInt 5)]] =
    Inr [[(''name'', PStr ''b''), (''display_order'', PInt 5)], [(''name'', PStr ''a''), (''display_order'', PInt 0)]]"
  by code_simp

end
