(* ===== verification/Pulse.thy ===== *)
theory Pulse
  imports Papers_Router Settings
begin

text \<open>
  The community pulse, \<open>server/stats/pulse.py\<close>: activity in a window of time, health and
  growth of the corpus, leaderboards and cohorts. Reading a timestamp and rounding a quotient
  to four places are parameters; instants are microseconds since 1970 in UTC.
\<close>

type_synonym rate = "int \<Rightarrow> int \<Rightarrow> pyval"

section \<open>Windows and dates\<close>

definition day_us :: int where "day_us = 86400000000"

definition windows :: "(string \<times> int option) list" where
  "windows = [(''7d'', Some (7 * day_us)), (''30d'', Some (30 * day_us)), (''90d'', Some (90 * day_us)), (''all'', None)]"

definition parse_window :: "string option \<Rightarrow> string" where
  "parse_window raw =
     (case raw of
        None \<Rightarrow> ''7d''
      | Some r \<Rightarrow> let cleaned = str_lower (str_strip r) in if dict_has windows cleaned then cleaned else ''7d'')"

text \<open>A timestamp: the instant, and the local time whose calendar day counts.\<close>

definition parse_ts :: "parse_iso \<Rightarrow> pyval \<Rightarrow> (int \<times> int) option" where
  "parse_ts parse v =
     (case v of
        PStr s \<Rightarrow>
          if s = [] then None
          else (case parse (if last s = CHR ''Z'' then butlast s @ ''+00:00'' else s) of
              None \<Rightarrow> None
            | Some (local, offset) \<Rightarrow> Some (local - (case offset of None \<Rightarrow> 0 | Some z \<Rightarrow> z), local))
      | _ \<Rightarrow> None)"

definition written_at :: "parse_iso \<Rightarrow> pydict \<Rightarrow> (int \<times> int) option" where
  "written_at parse r = parse_ts parse (py_or (dget r ''created_at'') (dget r ''submitted_at''))"

definition in_window :: "parse_iso \<Rightarrow> int option \<Rightarrow> pydict \<Rightarrow> bool" where
  "in_window parse cutoff r =
     (case cutoff of None \<Rightarrow> True | Some c \<Rightarrow>
       (case written_at parse r of None \<Rightarrow> False | Some (instant, _) \<Rightarrow> c \<le> instant))"

section \<open>Who wrote a record\<close>

definition created_by_descriptor :: "pydict \<Rightarrow> (string \<times> string) option" where
  "created_by_descriptor r =
     (case dget r ''created_by'' of
        PDict d \<Rightarrow>
          (case (dget d ''identity_type'', py_or (dget d ''identity'') (py_or (dget d ''orcid_id'') (dget d ''handle''))) of
             (PStr k, PStr i) \<Rightarrow> Some (k, i)
           | _ \<Rightarrow> None)
      | _ \<Rightarrow> None)"

definition paper_author_identities :: "pydict \<Rightarrow> pyexn + string list" where
  "paper_author_identities p =
     rbind (authors_of p) (\<lambda>as.
       Inr (concat (map (\<lambda>a. case a of
           PDict d \<Rightarrow>
             (case py_or (dget d ''orcid_id'') (py_or (dget d ''identity'') (dget d ''handle'')) of
                PStr i \<Rightarrow> if i = [] then [] else [i] | _ \<Rightarrow> [])
         | _ \<Rightarrow> []) as)))"

definition filter_excluded :: "string list \<Rightarrow> pydict list \<Rightarrow> pydict list" where
  "filter_excluded exclude rs =
     filter (\<lambda>r. case created_by_descriptor r of None \<Rightarrow> True | Some (_, i) \<Rightarrow> i \<notin> set exclude) rs"

section \<open>Counters\<close>

type_synonym counter = "(string \<times> int) list"

definition count_one :: "string \<Rightarrow> counter \<Rightarrow> counter" where
  "count_one k d = dict_set k ((case dict_get d k of None \<Rightarrow> 0 | Some n \<Rightarrow> n) + 1) d"

definition counter_of :: "string list \<Rightarrow> counter" where
  "counter_of ks = fold count_one ks []"

definition count_in :: "counter \<Rightarrow> string \<Rightarrow> int" where
  "count_in d k = (case dict_get d k of None \<Rightarrow> 0 | Some n \<Rightarrow> n)"

definition counter_dict :: "counter \<Rightarrow> pyval" where
  "counter_dict d = PDict (map (\<lambda>(k, n). (k, PInt n)) d)"

text \<open>Equal counts keep the order in which the keys were met.\<close>

definition most_common :: "nat \<Rightarrow> counter \<Rightarrow> counter" where
  "most_common n d = take n (sort_by (\<lambda>a b. snd b < snd a) d)"

definition texts :: "pyval list \<Rightarrow> string list" where
  "texts vs = concat (map (\<lambda>v. case v of PStr t \<Rightarrow> [t] | _ \<Rightarrow> []) vs)"

section \<open>The corpus\<close>

record core_data =
  cd_papers :: "pydict list"
  cd_claims :: "pydict list"
  cd_annotations :: "pydict list"
  cd_head_ids :: "string list"

definition gather :: "store_state \<Rightarrow> pyexn + core_data" where
  "gather s =
     rbind (rfilter (not_among (pointed_at (list_papers s))) (list_papers s)) (\<lambda>heads.
     rbind (rmap item_id heads) (\<lambda>ids.
       Inr \<lparr>cd_papers = list_papers s, cd_claims = list_claims s, cd_annotations = list_annotations s,
            cd_head_ids = remdups ids\<rparr>))"

definition head_papers :: "core_data \<Rightarrow> pyexn + pydict list" where
  "head_papers d = rfilter (\<lambda>p. rbind (item_id p) (\<lambda>i. Inr (i \<in> set (cd_head_ids d)))) (cd_papers d)"

section \<open>Activity\<close>

record activity =
  av_annotations :: "pydict list"
  av_papers :: "pydict list"
  av_revisions :: "pydict list"

definition activity_of :: "parse_iso \<Rightarrow> int option \<Rightarrow> string list \<Rightarrow> core_data \<Rightarrow> pyexn + activity" where
  "activity_of parse cutoff exclude d =
     rbind (head_papers d) (\<lambda>heads.
       Inr \<lparr>av_annotations = filter_excluded exclude (filter (in_window parse cutoff) (cd_annotations d)),
            av_papers = filter_excluded exclude (filter (in_window parse cutoff) heads),
            av_revisions = filter (\<lambda>p. in_window parse cutoff p \<and>
              (case dget p ''previous_version'' of PStr v \<Rightarrow> v \<noteq> [] | _ \<Rightarrow> False)) (cd_papers d)\<rparr>)"

text \<open>The distinct identities of one kind among the writers of records.\<close>

definition writers :: "string \<Rightarrow> pydict list \<Rightarrow> string list" where
  "writers k rs =
     remdups (concat (map (\<lambda>r. case created_by_descriptor r of
       Some (kd, i) \<Rightarrow> if kd = k then [i] else [] | None \<Rightarrow> []) rs))"

definition types_of :: "activity \<Rightarrow> counter" where
  "types_of a = counter_of (texts (map (\<lambda>r. dget r ''annotation_type'') (av_annotations a)))"

definition pulse_section :: "activity \<Rightarrow> pydict" where
  "pulse_section a =
     (let by_type = types_of a
      in [(''distinct_human_authors'', PInt (int (length (writers ''orcid'' (av_annotations a @ av_papers a))))),
          (''distinct_agent_authors'', PInt (int (length (writers ''agent'' (av_annotations a @ av_papers a))))),
          (''submissions_count'', PInt (int (length (av_papers a)))),
          (''revisions_count'', PInt (int (length (av_revisions a)))),
          (''annotations_by_type'', counter_dict by_type),
          (''annotations_total'', PInt (sum_list (map snd by_type))),
          (''replications_posted'', PInt (count_in by_type ''replication'')),
          (''retractions_posted'', PInt (count_in by_type ''claim_retraction'' + count_in by_type ''paper_retraction''))])"

section \<open>Which paper an annotation is about\<close>

text \<open>The tables: the authors of an owner key, the owner key of an id, the owner key of a claim.\<close>

record owner_tables =
  ot_authors :: "(string \<times> string list) list"
  ot_owner :: "(string \<times> string) list"
  ot_claims :: "(string \<times> string) list"

fun author_table :: "pydict list \<Rightarrow> pyexn + (string \<times> string list) list" where
  "author_table [] = Inr []"
| "author_table (p # ps) =
     rbind (claim_owner_key p) (\<lambda>k. rbind (paper_author_identities p) (\<lambda>ids.
       rbind (author_table ps) (\<lambda>rest. Inr ((k, ids) # rest))))"

fun owner_table :: "pydict list \<Rightarrow> (string \<times> string) list \<Rightarrow> pyexn + (string \<times> string) list" where
  "owner_table [] t = Inr t"
| "owner_table (p # ps) t =
     rbind (claim_owner_key p) (\<lambda>k.
       owner_table ps (case dget p ''id'' of
         PStr i \<Rightarrow> dict_set i k (dict_set k k t) | _ \<Rightarrow> dict_set k k t))"

definition claim_table :: "pydict list \<Rightarrow> (string \<times> string) list" where
  "claim_table cs =
     fold (\<lambda>c t. case (dget c ''id'', dget c ''paper_id'') of (PStr i, PStr p) \<Rightarrow> dict_set i p t | _ \<Rightarrow> t) cs []"

definition owner_tables_of :: "core_data \<Rightarrow> pyexn + owner_tables" where
  "owner_tables_of d =
     rbind (author_table (cd_papers d)) (\<lambda>as.
     rbind (owner_table (cd_papers d) []) (\<lambda>ow.
       Inr \<lparr>ot_authors = fold (\<lambda>(k, v). dict_set k v) as [], ot_owner = ow,
            ot_claims = claim_table (cd_claims d)\<rparr>))"

text \<open>\<open>target_id.split(":claim:", 1)[0]\<close>, and whether the separator occurs.\<close>

definition claim_mark :: string where "claim_mark = '':claim:''"

fun before_claim :: "string \<Rightarrow> string" where
  "before_claim [] = []"
| "before_claim (c # s) = (if prefix claim_mark (c # s) then [] else c # before_claim s)"

definition resolve_paper_id :: "owner_tables \<Rightarrow> string \<Rightarrow> pyval \<Rightarrow> string option" where
  "resolve_paper_id t target_id target_type =
     (if target_type = PStr ''paper'' then
        Some (case dict_get (ot_owner t) target_id of None \<Rightarrow> target_id | Some k \<Rightarrow> k)
      else case dict_get (ot_claims t) target_id of
        Some p \<Rightarrow> Some p
      | None \<Rightarrow> if str_contains claim_mark target_id then Some (before_claim target_id) else None)"

definition annotated_paper :: "owner_tables \<Rightarrow> pydict \<Rightarrow> string option" where
  "annotated_paper t a =
     (case dget a ''target_id'' of PStr i \<Rightarrow> resolve_paper_id t i (dget a ''target_type'') | _ \<Rightarrow> None)"

text \<open>An annotation on a paper by someone who is not among its authors.\<close>

definition third_party :: "owner_tables \<Rightarrow> pydict \<Rightarrow> bool" where
  "third_party t a =
     (case (created_by_descriptor a, annotated_paper t a) of
        (Some (_, i), Some p) \<Rightarrow>
          i \<notin> set (case dict_get (ot_authors t) p of None \<Rightarrow> [] | Some ids \<Rightarrow> ids)
      | _ \<Rightarrow> False)"

section \<open>Health\<close>

text \<open>\<open>rd n m\<close> is \<open>round(n / m, 4)\<close>; the \<open>0.0\<close> of an empty corpus is \<open>rd 0 1\<close>.\<close>

definition quotient :: "rate \<Rightarrow> int \<Rightarrow> int \<Rightarrow> pyval" where
  "quotient rd n m = (if m = 0 then rd 0 1 else rd n m)"

definition statuses :: "pydict list \<Rightarrow> counter" where
  "statuses cs = counter_of (texts (map (\<lambda>c. py_or (dget c ''replication_status'') (PStr ''untested'')) cs))"

definition replications :: "pydict list \<Rightarrow> pydict list" where
  "replications as = filter (\<lambda>a. dget a ''annotation_type'' = PStr ''replication'') as"

definition health_section :: "rate \<Rightarrow> core_data \<Rightarrow> owner_tables \<Rightarrow> pydict" where
  "health_section rd d t =
     (let as = cd_annotations d; total = int (length (cd_claims d));
          by_status = statuses (cd_claims d);
          attributed = filter (\<lambda>a. created_by_descriptor a \<noteq> None) as
      in [(''total_papers_head'', PInt (int (length (cd_head_ids d)))), (''total_claims'', PInt total),
          (''total_annotations'', PInt (int (length as))),
          (''replication_coverage_rate'', quotient rd (count_in by_status ''replicated'') total),
          (''partial_replication_rate'', quotient rd (count_in by_status ''partial'') total),
          (''contradiction_rate'', quotient rd (count_in by_status ''contradicted'') total),
          (''third_party_annotation_rate'',
             quotient rd (int (length (filter (third_party t) as))) (int (length attributed))),
          (''agent_participation_rate'',
             quotient rd (int (length (filter (\<lambda>a. case created_by_descriptor a of Some (k, _) \<Rightarrow> k = ''agent'' | None \<Rightarrow> False) as)))
               (int (length as))),
          (''reproduction_kind_breakdown'', counter_dict (counter_of (texts (map (\<lambda>a.
             case dget a ''structured_payload'' of PDict p \<Rightarrow> dget p ''reproduction_kind'' | _ \<Rightarrow> PNone) (replications as)))))])"

section \<open>Growth\<close>

definition lifetime_writers :: "string \<Rightarrow> string list \<Rightarrow> core_data \<Rightarrow> string list" where
  "lifetime_writers k exclude d =
     filter (\<lambda>i. i \<notin> set exclude) (writers k (cd_annotations d @ cd_papers d))"

definition agent_like :: "pydict \<Rightarrow> string \<Rightarrow> bool" where
  "agent_like a h =
     (dget a ''role'' = PStr ''agent'' \<or> truthy (dget a ''is_agent'') \<or> startswith h ''@'' \<or> startswith h ''agent:'')"

definition author_orcids :: "string list \<Rightarrow> pydict \<Rightarrow> string list" where
  "author_orcids exclude a =
     (case py_or (dget a ''orcid'') (dget a ''orcid_id'') of
        PStr i \<Rightarrow> if i \<noteq> [] \<and> i \<notin> set exclude then [i] else [] | _ \<Rightarrow> [])"

definition author_handles :: "string list \<Rightarrow> pydict \<Rightarrow> string list" where
  "author_handles exclude a =
     (case py_or (dget a ''agent_handle'') (dget a ''handle'') of
        PStr h \<Rightarrow> if h \<noteq> [] \<and> h \<notin> set exclude \<and> agent_like a h then [h] else [] | _ \<Rightarrow> [])"

definition listed_authors :: "core_data \<Rightarrow> pyexn + pydict list" where
  "listed_authors d =
     rbind (rmap authors_of (cd_papers d)) (\<lambda>vss.
       Inr (concat (map (\<lambda>v. case v of PDict a \<Rightarrow> [a] | _ \<Rightarrow> []) (concat vss))))"

definition engaged :: "core_data \<Rightarrow> owner_tables \<Rightarrow> string \<Rightarrow> bool" where
  "engaged d t owner_key =
     list_ex (\<lambda>a. annotated_paper t a = Some owner_key \<and> third_party t a) (cd_annotations d)"

definition edge_list :: "pydict \<Rightarrow> string \<Rightarrow> pyval list" where
  "edge_list c k = (case py_or (dget c k) (PList []) of PList es \<Rightarrow> es | _ \<Rightarrow> [])"

definition total_edges :: "pydict list \<Rightarrow> int" where
  "total_edges cs =
     sum_list (map (\<lambda>c. sum_list (map (\<lambda>k. int (length (edge_list c k)))
       [''depends_on'', ''supports'', ''contradicts'', ''extends''])) cs)"

definition cross_paper_extends :: "pydict list \<Rightarrow> int" where
  "cross_paper_extends cs =
     int (length (concat (map (\<lambda>c. case dget c ''paper_id'' of
         PStr owner \<Rightarrow> filter (\<lambda>t. before_claim t \<noteq> [] \<and> before_claim t \<noteq> owner) (texts (edge_list c ''extends''))
       | _ \<Rightarrow> []) cs)))"

definition growth_section :: "rate \<Rightarrow> string list \<Rightarrow> core_data \<Rightarrow> owner_tables \<Rightarrow> pyexn + pydict" where
  "growth_section rd exclude d t =
     rbind (listed_authors d) (\<lambda>as.
     rbind (head_papers d) (\<lambda>heads.
     rbind (rmap claim_owner_key heads) (\<lambda>keys.
       Inr [(''unique_human_identities_ever'', PInt (int (length (remdups
               (lifetime_writers ''orcid'' exclude d @ concat (map (author_orcids exclude) as)))))),
            (''unique_agent_identities_ever'', PInt (int (length (remdups
               (lifetime_writers ''agent'' exclude d @ concat (map (author_handles exclude) as)))))),
            (''papers_with_third_party_engagement'', PInt (int (length (filter (engaged d t) keys)))),
            (''claim_graph_density'', quotient rd (total_edges (cd_claims d)) (int (length (cd_claims d)))),
            (''cross_paper_extends_count'', PInt (cross_paper_extends (cd_claims d)))])))"

section \<open>Leaderboards\<close>

fun papers_by_owner :: "pydict list \<Rightarrow> (string \<times> pydict) list \<Rightarrow> pyexn + (string \<times> pydict) list" where
  "papers_by_owner [] t = Inr t"
| "papers_by_owner (p # ps) t = rbind (claim_owner_key p) (\<lambda>k. papers_by_owner ps (dict_set k p t))"

definition paper_summary :: "pydict \<Rightarrow> int \<Rightarrow> pyexn + pydict" where
  "paper_summary p n =
     rbind (authors_of p) (\<lambda>as.
     rbind (item_id p) (\<lambda>i.
       Inr [(''id'', PStr i), (''id_slug'', dget p ''id_slug''), (''title'', dget p ''title''),
            (''authors'', PList (filter truthy
               (concat (map (\<lambda>a. case a of PDict d \<Rightarrow> [dget d ''name''] | _ \<Rightarrow> []) as)))),
            (''annotations'', PInt n)]))"

definition somes :: "'a option list \<Rightarrow> 'a list" where
  "somes xs = concat (map (\<lambda>x. case x of None \<Rightarrow> [] | Some y \<Rightarrow> [y]) xs)"

definition top_papers :: "core_data \<Rightarrow> owner_tables \<Rightarrow> pyexn + pydict list" where
  "top_papers d t =
     rbind (papers_by_owner (cd_papers d) []) (\<lambda>by_owner.
       rmap (\<lambda>(p, n). paper_summary p n)
         (somes (map (\<lambda>(k, n). map_option (\<lambda>p. (p, n)) (dict_get by_owner k))
           (most_common 5 (counter_of (somes (map (annotated_paper t) (cd_annotations d))))))))"

definition top_views :: "(string \<times> int) list \<Rightarrow> pydict list \<Rightarrow> (string \<times> int) list" where
  "top_views views claims =
     take 5 (sort_by (\<lambda>a b. snd b < snd a)
       (filter (\<lambda>(i, n). i \<in> set (texts (map (\<lambda>c. dget c ''id'') claims)) \<and> 0 < n) views))"

definition head_topics :: "core_data \<Rightarrow> pyexn + string list" where
  "head_topics d =
     rbind (head_papers d) (\<lambda>heads.
     rbind (rmap (\<lambda>p. py_iter (py_or (dget p ''topics'') (PList []))) heads) (\<lambda>tss.
       Inr (filter (\<lambda>t. t \<noteq> []) (texts (concat tss)))))"

definition ranked :: "string \<Rightarrow> string \<Rightarrow> counter \<Rightarrow> pyval" where
  "ranked k n d = PList (map (\<lambda>(i, c). PDict [(k, PStr i), (n, PInt c)]) d)"

definition leaderboards_section :: "(string \<times> int) list \<Rightarrow> core_data \<Rightarrow> owner_tables \<Rightarrow> pyexn + pydict" where
  "leaderboards_section views d t =
     rbind (top_papers d t) (\<lambda>papers.
     rbind (head_topics d) (\<lambda>topics.
       Inr [(''top_papers_by_annotations'', PList (map PDict papers)),
            (''top_claims_by_replications'', ranked ''id'' ''replications''
               (most_common 5 (counter_of (texts (map (\<lambda>a. dget a ''target_id'') (replications (cd_annotations d))))))),
            (''top_claims_by_views'', ranked ''id'' ''views'' (top_views views (cd_claims d))),
            (''top_topics'', ranked ''topic'' ''count'' (most_common 5 (counter_of topics)))]))"

section \<open>Cohorts\<close>

text \<open>
  The ISO week of a local time: the year of the Thursday of its week, and the number of that
  Thursday in its year. Days count from 1 January 1970, a Thursday.
\<close>

definition year_of_day :: "int \<Rightarrow> int" where
  "year_of_day z =
     (let z' = z + 719468; era = z' div 146097; doe = z' mod 146097;
          yoe = (doe - doe div 1460 + doe div 36524 - doe div 146096) div 365;
          doy = doe - (365 * yoe + yoe div 4 - yoe div 100)
      in yoe + era * 400 + (if (5 * doy + 2) div 153 < 10 then 0 else 1))"

definition first_day :: "int \<Rightarrow> int" where
  "first_day y =
     (let y' = y - 1; yoe = y' mod 400
      in y' div 400 * 146097 + (yoe * 365 + yoe div 4 - yoe div 100 + 306) - 719468)"

definition iso_week :: "int \<Rightarrow> int \<times> int" where
  "iso_week local =
     (let day = local div day_us; thursday = day - (day + 3) mod 7 + 3; y = year_of_day thursday
      in (y, (thursday - first_day y) div 7 + 1))"

definition iso_week_key :: "int \<Rightarrow> string" where
  "iso_week_key local = (case iso_week local of (y, w) \<Rightarrow> zpad 4 (str_of_int y) @ ''-W'' @ zpad 2 (str_of_int w))"

text \<open>The writes that count: who, and when.\<close>

definition dated_write :: "parse_iso \<Rightarrow> string list \<Rightarrow> pydict \<Rightarrow> ((string \<times> string) \<times> int \<times> int) option" where
  "dated_write parse exclude r =
     (case created_by_descriptor r of
        None \<Rightarrow> None
      | Some (k, i) \<Rightarrow>
          if i \<in> set exclude \<or> k \<notin> set [''orcid'', ''agent''] then None
          else map_option (\<lambda>ts. ((k, i), ts)) (written_at parse r))"

definition note_first ::
  "(string \<times> string) \<times> int \<times> int \<Rightarrow> ((string \<times> string) \<times> int \<times> int) list \<Rightarrow> ((string \<times> string) \<times> int \<times> int) list" where
  "note_first w seen =
     (case dict_get seen (fst w) of
        None \<Rightarrow> dict_set (fst w) (snd w) seen
      | Some old \<Rightarrow> if fst (snd w) < fst old then dict_set (fst w) (snd w) seen else seen)"

definition first_seen :: "((string \<times> string) \<times> int \<times> int) list \<Rightarrow> ((string \<times> string) \<times> int \<times> int) list" where
  "first_seen ws = fold note_first ws []"

definition week_order :: "int \<Rightarrow> string list" where
  "week_order now = foldl (\<lambda>ws w. if w \<in> set ws then ws else ws @ [w]) []
     (map (\<lambda>n. iso_week_key (now - int n * 7 * day_us)) (rev [0..<8]))"

definition week_actives :: "int \<Rightarrow> string \<Rightarrow> ((string \<times> string) \<times> int \<times> int) list \<Rightarrow> string \<Rightarrow> int" where
  "week_actives now k ws week =
     int (length (remdups (map (\<lambda>w. snd (fst w))
       (filter (\<lambda>w. fst (fst w) = k \<and> now - 56 * day_us \<le> fst (snd w) \<and> iso_week_key (snd (snd w)) = week) ws))))"

definition weekly :: "int \<Rightarrow> string \<Rightarrow> ((string \<times> string) \<times> int \<times> int) list \<Rightarrow> pyval" where
  "weekly now k ws =
     PList (map (\<lambda>w. PDict [(''iso_week'', PStr w), (''distinct_identities'', PInt (week_actives now k ws w))]) (week_order now))"

definition cohorts_section :: "parse_iso \<Rightarrow> int \<Rightarrow> string list \<Rightarrow> core_data \<Rightarrow> pydict" where
  "cohorts_section parse now exclude d =
     (let ws = somes (map (dated_write parse exclude) (cd_papers d @ cd_annotations d))
      in [(''first_write_by_iso_week'', counter_dict (counter_of (map (\<lambda>f. iso_week_key (snd (snd f))) (first_seen ws)))),
          (''weekly_active_humans'', weekly now ''orcid'' ws), (''weekly_active_agents'', weekly now ''agent'' ws)])"

section \<open>The snapshot\<close>

definition window_cutoff :: "int \<Rightarrow> string \<Rightarrow> int option" where
  "window_cutoff now window = (case dict_get windows window of Some (Some delta) \<Rightarrow> Some (now - delta) | _ \<Rightarrow> None)"

definition compute_pulse ::
  "parse_iso \<Rightarrow> rate \<Rightarrow> store_state \<Rightarrow> string \<Rightarrow> string list \<Rightarrow> int \<Rightarrow> string \<Rightarrow> pyexn + pydict" where
  "compute_pulse parse rd s window exclude now computed_at =
     rbind (gather s) (\<lambda>d.
     rbind (activity_of parse (window_cutoff now window) exclude d) (\<lambda>a.
     rbind (owner_tables_of d) (\<lambda>t.
     rbind (growth_section rd exclude d t) (\<lambda>growth.
     rbind (leaderboards_section (list_claim_views s) d t) (\<lambda>boards.
       Inr [(''window'', PStr window), (''computed_at'', PStr computed_at),
            (''pulse'', PDict (pulse_section a)), (''health'', PDict (health_section rd d t)),
            (''growth'', PDict growth), (''leaderboards'', PDict boards),
            (''cohorts'', PDict (cohorts_section parse now exclude d))])))))"

lemma iso_week_example: "iso_week_key (20453 * day_us) = ''2026-W01''"
  by code_simp

section \<open>Counters and windows\<close>

lemma count_in_counter: "count_in (fold count_one ks d) k = count_in d k + int (count_list ks k)"
  by (induction ks arbitrary: d) (auto simp: count_one_def count_in_def split: option.splits)

lemma counter_total:
  "wf_dict d \<Longrightarrow> wf_dict (fold count_one ks d) \<and> sum_list (map snd (fold count_one ks d)) = sum_list (map snd d) + int (length ks)"
proof (induction ks arbitrary: d)
  case Nil
  then show ?case by simp
next
  case (Cons k ks)
  have "sum_list (map snd (count_one k d)) = sum_list (map snd d) + 1"
    using Cons.prems by (induction d) (auto simp: count_one_def dict_set_def map_of_eq_None_iff image_iff split: option.splits if_splits)
  moreover have "wf_dict (count_one k d)" using Cons.prems by (simp add: count_one_def)
  ultimately show ?case using Cons.IH by simp
qed

text \<open>One cutoff reaches at least as far back as another.\<close>

definition wider :: "int option \<Rightarrow> int option \<Rightarrow> bool" where
  "wider c c' = (case (c, c') of (None, _) \<Rightarrow> True | (Some _, None) \<Rightarrow> False | (Some a, Some b) \<Rightarrow> a \<le> b)"

lemma in_window_wider: "wider c c' \<Longrightarrow> in_window parse c' r \<Longrightarrow> in_window parse c r"
  by (auto simp: wider_def in_window_def split: option.splits)

lemma filter_narrower: "(\<And>x. P x \<Longrightarrow> Q x) \<Longrightarrow> subseq (filter P xs) (filter Q xs)"
  by (induction xs) auto

lemma writers_subset: "set xs \<subseteq> set ys \<Longrightarrow> length (writers k xs) \<le> length (writers k ys)"
proof -
  assume "set xs \<subseteq> set ys"
  then have "set (writers k xs) \<subseteq> set (writers k ys)" by (auto simp: writers_def)
  then have "card (set (writers k xs)) \<le> card (set (writers k ys))" by (intro card_mono) auto
  moreover have "card (set (writers k zs)) = length (writers k zs)" for zs
    unfolding writers_def by (intro distinct_card) simp
  ultimately show ?thesis by simp
qed

lemma count_texts_mono:
  "subseq xs ys \<Longrightarrow> count_list (texts (map f xs)) k \<le> count_list (texts (map f ys)) k"
proof (induction rule: list_emb.induct)
  case (list_emb_Cons xs ys y)
  then show ?case by (auto simp: texts_def split: pyval.splits)
next
  case (list_emb_Cons2 x y xs ys)
  then show ?case by (auto simp: texts_def split: pyval.splits)
qed (auto simp: texts_def)

text \<open>
  A window that reaches further back never reports less: every submission, revision and
  annotation of the shorter window is in the longer one, and so every count of the section,
  of distinct people, of agents and of each type of annotation, is at least as large.
\<close>

lemma pulse_windows_nest:
  assumes "activity_of parse c exclude d = Inr a" "activity_of parse c' exclude d = Inr a'" "wider c c'"
  shows "subseq (av_annotations a') (av_annotations a) \<and> subseq (av_papers a') (av_papers a) \<and>
    subseq (av_revisions a') (av_revisions a) \<and>
    length (writers k (av_annotations a' @ av_papers a')) \<le> length (writers k (av_annotations a @ av_papers a)) \<and>
    count_in (types_of a') t \<le> count_in (types_of a) t"
proof -
  note w = in_window_wider [OF assms(3)]
  from assms(1,2) obtain heads where
    a: "av_annotations a = filter_excluded exclude (filter (in_window parse c) (cd_annotations d))"
      "av_papers a = filter_excluded exclude (filter (in_window parse c) heads)"
    and a': "av_annotations a' = filter_excluded exclude (filter (in_window parse c') (cd_annotations d))"
      "av_papers a' = filter_excluded exclude (filter (in_window parse c') heads)"
    and rev: "av_revisions a = filter (\<lambda>p. in_window parse c p \<and>
        (case dget p ''previous_version'' of PStr v \<Rightarrow> v \<noteq> [] | _ \<Rightarrow> False)) (cd_papers d)"
      "av_revisions a' = filter (\<lambda>p. in_window parse c' p \<and>
        (case dget p ''previous_version'' of PStr v \<Rightarrow> v \<noteq> [] | _ \<Rightarrow> False)) (cd_papers d)"
    by (auto simp: activity_of_def rbind_Inr_iff)
  have anns: "subseq (av_annotations a') (av_annotations a)"
    unfolding a a' filter_excluded_def filter_filter by (rule filter_narrower) (auto dest: w)
  have papers: "subseq (av_papers a') (av_papers a)"
    unfolding a a' filter_excluded_def filter_filter by (rule filter_narrower) (auto dest: w)
  have revs: "subseq (av_revisions a') (av_revisions a)"
    unfolding rev by (rule filter_narrower) (auto dest: w)
  have "set (av_annotations a' @ av_papers a') \<subseteq> set (av_annotations a @ av_papers a)"
    using anns papers by (auto dest: list_emb_set)
  then have "length (writers k (av_annotations a' @ av_papers a')) \<le> length (writers k (av_annotations a @ av_papers a))"
    by (rule writers_subset)
  moreover have "count_in (types_of a') t \<le> count_in (types_of a) t"
    using count_texts_mono [OF anns, of "\<lambda>r. dget r ''annotation_type''" t]
    by (simp add: types_of_def counter_of_def count_in_counter)
  ultimately show ?thesis using anns papers revs by blast
qed

text \<open>A paper of the year before and an annotation of today: only the longer window has the paper.\<close>

definition today_reader :: parse_iso where
  "today_reader s = (if s = ''today'' then Some (400 * day_us, Some 0) else if s = ''old'' then Some (day_us, None) else None)"

definition small_corpus :: core_data where
  "small_corpus = \<lparr>cd_papers = [[(''id'', PStr ''p''), (''created_at'', PStr ''old'')]], cd_claims = [],
     cd_annotations = [[(''annotation_type'', PStr ''comment''), (''created_at'', PStr ''today''),
       (''created_by'', PDict [(''identity_type'', PStr ''agent''), (''identity'', PStr ''@bot'')])]],
     cd_head_ids = [''p'']\<rparr>"

lemma pulse_windows_nest_witness:
  "subseq (av_papers \<lparr>av_annotations = cd_annotations small_corpus, av_papers = [], av_revisions = []\<rparr>)
     (av_papers \<lparr>av_annotations = cd_annotations small_corpus, av_papers = cd_papers small_corpus, av_revisions = []\<rparr>)"
proof -
  have "activity_of today_reader None [] small_corpus =
      Inr \<lparr>av_annotations = cd_annotations small_corpus, av_papers = cd_papers small_corpus, av_revisions = []\<rparr>"
    by code_simp
  moreover have "activity_of today_reader (Some (393 * day_us)) [] small_corpus =
      Inr \<lparr>av_annotations = cd_annotations small_corpus, av_papers = [], av_revisions = []\<rparr>"
    by code_simp
  moreover have "wider None (Some (393 * day_us))" by (simp add: wider_def)
  ultimately show ?thesis
    using pulse_windows_nest [of today_reader None "[]" small_corpus _ "Some (393 * day_us)"] by blast
qed

text \<open>
  The schema names an author by \<open>orcid\<close>, which the table of authors does not read: the
  author's own annotation counts as one of a third party.
\<close>

lemma own_annotation_third_party:
  "(case owner_tables_of \<lparr>cd_papers = [[(''id'', PStr ''p''), (''id_slug'', PStr ''s''),
        (''authors'', PList [PDict [(''name'', PStr ''A''), (''orcid'', PStr ''0000-0001-0000-0001'')]])]],
      cd_claims = [], cd_annotations = [], cd_head_ids = [''p'']\<rparr> of
    Inl _ \<Rightarrow> False
  | Inr t \<Rightarrow> third_party t [(''target_type'', PStr ''paper''), (''target_id'', PStr ''p''),
      (''created_by'', PDict [(''identity_type'', PStr ''orcid''), (''identity'', PStr ''0000-0001-0000-0001'')])])"
  by code_simp

section \<open>The cache and the endpoint\<close>

text \<open>
  The cache of \<open>server/stats/cache.py\<close>: a key is the window, the set of excluded
  identities and the numbers of papers and annotations; an entry is when it was computed, on
  the monotonic clock in microseconds, and the snapshot.
\<close>

type_synonym pulse_key = "string \<times> string set \<times> nat \<times> nat"

type_synonym pulse_cache = "(pulse_key \<times> int \<times> pydict) list"

definition ttl_us :: int where "ttl_us = 60000000"

definition get_or_compute :: "int \<Rightarrow> pulse_key \<Rightarrow> pyexn + pydict \<Rightarrow> pulse_cache \<Rightarrow> (pyexn + pydict) \<times> pulse_cache" where
  "get_or_compute now key fresh cache =
     (let recompute = (case fresh of Inl e \<Rightarrow> (Inl e, cache) | Inr v \<Rightarrow> (Inr v, dict_set key (now, v) cache))
      in case dict_get cache key of
           Some (ts, value) \<Rightarrow> if now - ts < ttl_us then (Inr value, cache) else recompute
         | None \<Rightarrow> recompute)"

definition pulse_key_of :: "settings \<Rightarrow> store_state \<Rightarrow> string option \<Rightarrow> pulse_key" where
  "pulse_key_of cfg s window =
     (parse_window window, set (exclude_identities cfg), length (list_papers s), length (list_annotations s))"

definition stats_pulse ::
  "parse_iso \<Rightarrow> rate \<Rightarrow> settings \<Rightarrow> store_state \<Rightarrow> string option \<Rightarrow> int \<Rightarrow> int \<Rightarrow> string \<Rightarrow> pulse_cache \<Rightarrow>
   (pyexn + pydict) \<times> pulse_cache" where
  "stats_pulse parse rd cfg s window monotonic now computed_at cache =
     get_or_compute monotonic (pulse_key_of cfg s window)
       (compute_pulse parse rd s (parse_window window) (exclude_identities cfg) now computed_at) cache"

text \<open>An answer is computed now, and then remembered, or it is an entry less than a minute old.\<close>

lemma stats_pulse_answer:
  assumes "stats_pulse parse rd cfg s window monotonic now computed_at cache = (Inr v, cache')"
  shows "(compute_pulse parse rd s (parse_window window) (exclude_identities cfg) now computed_at = Inr v \<and>
      dict_get cache' (pulse_key_of cfg s window) = Some (monotonic, v)) \<or>
    (\<exists>ts. dict_get cache (pulse_key_of cfg s window) = Some (ts, v) \<and> monotonic - ts < ttl_us \<and> cache' = cache)"
  using assms by (auto simp: stats_pulse_def get_or_compute_def Let_def split: option.splits if_splits sum.splits)

text \<open>A new paper or annotation is seen at once: the entries of another count are not read.\<close>

lemma stats_pulse_other_count:
  assumes "length (list_papers s) \<noteq> length (list_papers s')"
    and "stats_pulse parse rd cfg s window m now computed_at [] = (Inr v, cache)"
  shows "fst (stats_pulse parse rd cfg s' window m' now' computed_at' cache) =
    compute_pulse parse rd s' (parse_window window) (exclude_identities cfg) now' computed_at'"
  using assms by (auto simp: stats_pulse_def get_or_compute_def pulse_key_of_def Let_def
      split: option.splits if_splits sum.splits)

end
