(* ===== verification/Snapshots.thy ===== *)
theory Snapshots
  imports Auth_Router Projection Scopes
begin

text \<open>
  Snapshots and discovery, \<open>server/snapshots/router.py\<close> and
  \<open>server/discovery/router.py\<close>: the archive of the corpus and its manifest, the topics and
  the counts of the corpus. Packing files into a compressed archive and the digest are
  parameters.
\<close>

section \<open>The archive\<close>

text \<open>\<open>json.dumps(v, sort_keys=True)\<close> with the default separators.\<close>

fun json_spaced :: "pyval \<Rightarrow> string" where
  "json_spaced PNone = ''null''"
| "json_spaced (PBool b) = (if b then ''true'' else ''false'')"
| "json_spaced (PInt i) = str_of_int i"
| "json_spaced (PStr s) = json_str s"
| "json_spaced (PList xs) = ''['' @ join_on '', '' (map json_spaced xs) @ '']''"
| "json_spaced (PDict d) =
     ''{'' @ join_on '', ''
       (map (\<lambda>(k, t). json_str k @ '': '' @ t)
         (sort_key fst (map (\<lambda>(k, v). (k, json_spaced v)) d))) @ ''}''"

type_synonym archive_file = "string \<times> bytes"

definition json_file :: "string \<Rightarrow> string \<Rightarrow> pydict \<Rightarrow> archive_file" where
  "json_file folder i d = (folder @ ''/'' @ i @ ''.json'', json_spaced (PDict d))"

text \<open>\<open>f"papers/{paper['id']}.json"\<close>: any value of the key is printed.\<close>

definition item_file :: "string \<Rightarrow> pydict \<Rightarrow> pyexn + archive_file" where
  "item_file folder d = rbind (dindex d ''id'') (\<lambda>i. Inr (json_file folder (py_str i) d))"

definition cir_files :: "store_state \<Rightarrow> pydict \<Rightarrow> pyexn + archive_file list" where
  "cir_files s p =
     rbind (dindex p ''id'') (\<lambda>i.
       if unhashable i then Inl TypeError
       else case (case i of PStr t \<Rightarrow> get_cir s t | _ \<Rightarrow> None) of
         None \<Rightarrow> Inr [] | Some cir \<Rightarrow> Inr [json_file ''cirs'' (py_str i) cir])"

definition snapshot_files :: "store_state \<Rightarrow> pyexn + archive_file list" where
  "snapshot_files s =
     rbind (rmap (item_file ''papers'') (list_papers s)) (\<lambda>ps.
     rbind (rmap (item_file ''claims'') (list_claims s)) (\<lambda>cs.
     rbind (rmap (item_file ''annotations'') (list_annotations s)) (\<lambda>as.
     rbind (rmap (cir_files s) (list_papers s)) (\<lambda>css.
       Inr (ps @ cs @ as @ concat css)))))"

section \<open>The endpoints\<close>

record archiver =
  ac_pack :: "archive_file list \<Rightarrow> bytes"
  ac_sha256 :: "bytes \<Rightarrow> bytes"

definition snapshot_manifest :: "archiver \<Rightarrow> string \<Rightarrow> int \<Rightarrow> bytes \<Rightarrow> store_state \<Rightarrow> pydict" where
  "snapshot_manifest ac i now payload s =
     [(''snapshot_id'', PStr i), (''created_at_unix'', PInt now),
      (''content_digest'', PStr (''sha-256=:'' @ std_b64_encode (ac_sha256 ac payload) @ '':'')),
      (''size_bytes'', PInt (int (length payload))),
      (''counts'', PDict [(''papers'', PInt (int (length (list_papers s)))),
        (''claims'', PInt (int (length (list_claims s)))),
        (''annotations'', PInt (int (length (list_annotations s))))]),
      (''blob_uri'', PStr (''/api/v0/snapshots/'' @ i @ ''/blob''))]"

text \<open>\<open>POST /snapshots\<close>; \<open>fresh_hex\<close> is the twelve random digits of the id.\<close>

definition create_snapshot ::
  "archiver \<Rightarrow> authed_request \<Rightarrow> string \<Rightarrow> int \<Rightarrow> store_state \<Rightarrow> (exn + pydict) \<times> store_state" where
  "create_snapshot ac auth fresh_hex now s =
     (if is_anonymous (au_identity auth)
      then (Inl (forbidden ''anonymous identities cannot create snapshots''), s)
      else case snapshot_files s of
        Inl e \<Rightarrow> (Inl (Raised e), s)
      | Inr files \<Rightarrow>
          let i = ''snap-'' @ fresh_hex; payload = ac_pack ac files;
              manifest = snapshot_manifest ac i now payload s;
              (_, s1) = save_snapshot_blob i payload s
          in (Inr manifest, set_latest_snapshot manifest s1))"

definition latest_snapshot_endpoint :: "store_state \<Rightarrow> exn + pydict" where
  "latest_snapshot_endpoint s =
     (case latest_snapshot s of None \<Rightarrow> Inl (not_found ''no snapshot has been published'') | Some m \<Rightarrow> Inr m)"

text \<open>No store has a method \<open>list_snapshots\<close>, so only the latest one is listed.\<close>

definition list_snapshots :: "store_state \<Rightarrow> pydict list" where
  "list_snapshots s = (case latest_snapshot s of None \<Rightarrow> [] | Some m \<Rightarrow> [m])"

definition snapshot_blob :: "store_state \<Rightarrow> string \<Rightarrow> exn + bytes" where
  "snapshot_blob s i =
     (case load_snapshot_blob s i of
        None \<Rightarrow> Inl (not_found (''snapshot '' @ i @ '' not found'')) | Some b \<Rightarrow> Inr b)"

section \<open>Discovery\<close>

definition paper_topics :: "pydict \<Rightarrow> pyexn + string list" where
  "paper_topics p =
     rbind (py_iter (py_or (dget p ''topics'') (PList []))) (\<lambda>ts.
       Inr (concat (map (\<lambda>t. case t of PStr x \<Rightarrow> if x = [] then [] else [x] | _ \<Rightarrow> []) ts)))"

definition topic_uses :: "store_state \<Rightarrow> pyexn + string list" where
  "topic_uses s = rbind (rmap paper_topics (list_papers s)) (\<lambda>tss. Inr (concat tss))"

text \<open>\<open>sorted(counter.keys())\<close>, and the items by falling count, then by topic.\<close>

definition list_topics :: "store_state \<Rightarrow> pyexn + string list" where
  "list_topics s = rbind (topic_uses s) (\<lambda>ts. Inr (sort (remdups ts)))"

definition list_topics_with_counts :: "store_state \<Rightarrow> pyexn + (string \<times> nat) list" where
  "list_topics_with_counts s =
     rbind (topic_uses s) (\<lambda>ts.
       Inr (sort_key (\<lambda>(t, n). (- int n, t)) (map (\<lambda>t. (t, count_list ts t)) (remdups ts))))"

definition list_scopes :: "(string \<times> string \<times> string) list" where "list_scopes = scopes"

definition superseded_ids :: "store_state \<Rightarrow> string list" where
  "superseded_ids s =
     concat (map (\<lambda>p. case dget p ''previous_version'' of PStr v \<Rightarrow> if v = [] then [] else [v] | _ \<Rightarrow> []) (list_papers s))"

definition agent_authors :: "pydict \<Rightarrow> pyexn + nat" where
  "agent_authors p =
     rbind (py_iter (py_or (dget p ''authors'') (PList []))) (\<lambda>as.
       Inr (length (filter (\<lambda>a. case a of PDict d \<Rightarrow> truthy (dget d ''is_agent'') | _ \<Rightarrow> False) as)))"

text \<open>The status of a paper, and whether it is untested with more than four claims.\<close>

definition paper_status :: "store_state \<Rightarrow> string \<Rightarrow> pydict \<Rightarrow> pyexn + string \<times> bool" where
  "paper_status s now p =
     rbind (claim_owner_key p) (\<lambda>k.
     rbind (compute_stats k s now) (\<lambda>g.
       Inr (sg_status g, sg_status g = ''untested'' \<and>
         4 < length (filter (\<lambda>c. py_eq (dget c ''paper_id'') (PStr k)) (list_claims s)))))"

definition of_type :: "string \<Rightarrow> pydict list \<Rightarrow> nat" where
  "of_type t as = length (filter (\<lambda>a. dget a ''annotation_type'' = PStr t) as)"

definition reported_statuses :: "string list" where
  "reported_statuses = [''preprint'', ''untested'', ''replicated'', ''contested'', ''retracted'']"

definition corpus_stats :: "store_state \<Rightarrow> string \<Rightarrow> pyexn + pydict" where
  "corpus_stats s now =
     (if list_ex (\<lambda>p. unhashable (dget p ''id'')) (list_papers s) then Inl TypeError else
     rbind (rmap agent_authors (list_papers s)) (\<lambda>agents.
     rbind (rmap (paper_status s now) (list_papers s)) (\<lambda>sts.
       Inr [(''papers'', PInt (int (length (list_papers s)))),
            (''head_papers'', PInt (int (length (filter (\<lambda>p. dget p ''id'' \<notin> PStr ` set (superseded_ids s)) (list_papers s))))),
            (''claims'', PInt (int (length (list_claims s)))),
            (''annotations'', PInt (int (length (list_annotations s)))),
            (''replications'', PInt (int (of_type ''replication'' (list_annotations s)))),
            (''contradictions'', PInt (int (of_type ''contradiction'' (list_annotations s)))),
            (''retractions'', PInt (int (length (filter is_retraction_note (list_annotations s))))),
            (''active_studies'', PInt (int (length (filter snd sts)))),
            (''agent_authored_papers'', PInt (int (sum_list agents))),
            (''by_status'', PDict (map (\<lambda>t. (t, PInt (int (count_list (map fst sts) t)))) reported_statuses)),
            (''computed_at'', PStr now)])))"

section \<open>What a snapshot holds\<close>

definition named_file :: "string \<Rightarrow> pydict \<Rightarrow> archive_file" where
  "named_file folder d = json_file folder (py_str (dget d ''id'')) d"

text \<open>The files of a corpus: one for each record, and the structures of the stored papers.\<close>

definition corpus_files :: "store_state \<Rightarrow> archive_file set" where
  "corpus_files s =
     named_file ''papers'' ` set (list_papers s) \<union> named_file ''claims'' ` set (list_claims s) \<union>
     named_file ''annotations'' ` set (list_annotations s) \<union>
     {json_file ''cirs'' i cir | p i cir. p \<in> set (list_papers s) \<and> dget p ''id'' = PStr i \<and> get_cir s i = Some cir}"

lemma rmap_item_file: "rmap (item_file folder) ds = Inr fs \<Longrightarrow> fs = map (named_file folder) ds"
  by (induction ds arbitrary: fs)
     (auto simp: rbind_Inr_iff item_file_def dindex_def named_file_def dget_def split: option.splits)

lemma rmap_cir_files:
  "rmap (cir_files s) ps = Inr css \<Longrightarrow>
    set (concat css) = {json_file ''cirs'' i cir | p i cir. p \<in> set ps \<and> dget p ''id'' = PStr i \<and> get_cir s i = Some cir}"
proof (induction ps arbitrary: css)
  case Nil
  then show ?case by simp
next
  case (Cons p ps)
  then obtain fs css' where fs: "cir_files s p = Inr fs" and css': "rmap (cir_files s) ps = Inr css'" "css = fs # css'"
    by (auto simp: rbind_Inr_iff)
  have "set fs = {json_file ''cirs'' i cir | i cir. dget p ''id'' = PStr i \<and> get_cir s i = Some cir}"
    using fs by (auto simp: cir_files_def rbind_Inr_iff dindex_def dget_def split: option.splits pyval.splits if_splits)
  then show ?case using Cons.IH [OF css'(1)] by (auto simp: css'(2))
qed

lemma snapshot_files_corpus:
  assumes "snapshot_files s = Inr files"
  shows "set files = corpus_files s"
proof -
  from assms obtain ps cs as css where f: "files = ps @ cs @ as @ concat css"
    and parts: "rmap (item_file ''papers'') (list_papers s) = Inr ps" "rmap (item_file ''claims'') (list_claims s) = Inr cs"
      "rmap (item_file ''annotations'') (list_annotations s) = Inr as" "rmap (cir_files s) (list_papers s) = Inr css"
    by (auto simp: snapshot_files_def rbind_Inr_iff)
  show ?thesis
    unfolding f corpus_files_def set_append rmap_cir_files [OF parts(4), symmetric]
    by (simp add: parts(1-3) [THEN rmap_item_file] Un_assoc)
qed

text \<open>
  A snapshot is complete: what its identifier downloads unpacks to exactly one file for
  every paper, claim and annotation of the corpus and for the structure of every paper, its
  digest and size are those of the manifest, it is the latest one, and the corpus is as before.
\<close>

lemma snapshot_is_complete:
  assumes "create_snapshot ac auth fresh_hex now s = (Inr m, s')"
    and "\<forall>files. unpack (ac_pack ac files) = files"
  shows "\<exists>i b. dget m ''snapshot_id'' = PStr i \<and> snapshot_blob s' i = Inr b \<and>
    set (unpack b) = corpus_files s \<and>
    dget m ''content_digest'' = PStr (''sha-256=:'' @ std_b64_encode (ac_sha256 ac b) @ '':'') \<and>
    dget m ''size_bytes'' = PInt (int (length b)) \<and> latest_snapshot_endpoint s' = Inr m \<and>
    corpus_files s' = corpus_files s \<and> \<not> is_anonymous (au_identity auth)"
proof -
  from assms(1) obtain files where named: "\<not> is_anonymous (au_identity auth)" and files: "snapshot_files s = Inr files"
    and m: "m = snapshot_manifest ac (''snap-'' @ fresh_hex) now (ac_pack ac files) s"
    and s': "s' = set_latest_snapshot m (snd (save_snapshot_blob (''snap-'' @ fresh_hex) (ac_pack ac files) s))"
    by (auto simp: create_snapshot_def Let_def split: if_splits sum.splits prod.splits)
  let ?i = "''snap-'' @ fresh_hex"
  have blob: "snapshot_blob s' ?i = Inr (ac_pack ac files)"
    by (simp add: s' snapshot_blob_def load_snapshot_blob_def set_latest_snapshot_def save_snapshot_blob_def)
  have same: "corpus_files s' = corpus_files s"
    by (simp add: s' corpus_files_def set_latest_snapshot_def save_snapshot_blob_def list_papers_def list_claims_def
        list_annotations_def get_cir_def)
  have latest: "latest_snapshot_endpoint s' = Inr m"
    by (simp add: s' latest_snapshot_endpoint_def latest_snapshot_def set_latest_snapshot_def)
  have fields: "dget m ''snapshot_id'' = PStr ?i"
    "dget m ''content_digest'' = PStr (''sha-256=:'' @ std_b64_encode (ac_sha256 ac (ac_pack ac files)) @ '':'')"
    "dget m ''size_bytes'' = PInt (int (length (ac_pack ac files)))"
    by (simp_all add: m snapshot_manifest_def dget_def)
  from snapshot_files_corpus [OF files] assms(2) have "set (unpack (ac_pack ac files)) = corpus_files s" by simp
  with named blob same latest fields show ?thesis by blast
qed

text \<open>An archive format that can be read back: each character after a mark, each text closed.\<close>

definition mark :: char where "mark = CHR ''1''"
definition close_text :: char where "close_text = CHR ''0''"

fun put_text :: "string \<Rightarrow> string" where
  "put_text [] = [close_text]"
| "put_text (c # s) = mark # c # put_text s"

fun get_text :: "string \<Rightarrow> string \<times> string" where
  "get_text (a # b # s) = (if a = mark then (case get_text s of (t, r) \<Rightarrow> (b # t, r)) else ([], b # s))"
| "get_text s = ([], [])"

fun put_files :: "archive_file list \<Rightarrow> bytes" where
  "put_files [] = []"
| "put_files ((n, b) # fs) = put_text n @ put_text b @ put_files fs"

fun get_files :: "nat \<Rightarrow> bytes \<Rightarrow> archive_file list" where
  "get_files 0 s = []"
| "get_files (Suc k) s =
     (if s = [] then [] else case get_text s of (n, r) \<Rightarrow> (case get_text r of (b, r') \<Rightarrow> (n, b) # get_files k r'))"

lemma get_put_text: "get_text (put_text t @ r) = (t, r)"
  by (induction t) (cases r; simp add: mark_def close_text_def)+

lemma put_text_nonempty [simp]: "put_text t \<noteq> []"
  by (cases t) simp_all

lemma get_put_files: "length fs \<le> k \<Longrightarrow> get_files k (put_files fs) = fs"
proof (induction fs arbitrary: k rule: put_files.induct)
  case 1
  then show ?case by (cases k) simp_all
next
  case (2 n b fs)
  then obtain j where "k = Suc j" "length fs \<le> j" by (cases k) auto
  with "2.IH" show ?case by (simp add: get_put_text)
qed

lemma put_files_length: "length fs \<le> length (put_files fs)"
proof (induction fs rule: put_files.induct)
  case (2 n b fs)
  then show ?case by (cases n) simp_all
qed simp

definition plain_archiver :: archiver where
  "plain_archiver = \<lparr>ac_pack = put_files, ac_sha256 = take 4\<rparr>"

definition one_paper :: store_state where
  "one_paper = empty_store\<lparr>st_papers := [(''p'', [(''id'', PStr ''p'')])], st_cirs := [(''p'', [(''id'', PStr ''p''), (''version'', PStr ''1'')])]\<rparr>"
text \<open>The index lists the latest snapshot only, also when several were published.\<close>

lemma only_latest_listed:
  "create_snapshot ac auth hx now s = (Inr m, s') \<Longrightarrow> list_snapshots s' = [m]"
  by (auto simp: create_snapshot_def list_snapshots_def latest_snapshot_def set_latest_snapshot_def Let_def
      split: if_splits sum.splits prod.splits)

section \<open>The counts of discovery\<close>

text \<open>A paper with a contradicted claim is in none of the statuses that are reported.\<close>

definition contradicted_corpus :: store_state where
  "contradicted_corpus = empty_store\<lparr>st_papers := [(''p'', [(''id'', PStr ''p''), (''authors'', PList
       [PDict [(''name'', PStr ''A''), (''is_agent'', PBool True)], PDict [(''name'', PStr ''B''), (''is_agent'', PBool True)]])])],
     st_claims := [(''p:c1'', [(''id'', PStr ''p:c1''), (''paper_id'', PStr ''p'')])],
     st_annotations := [(''a'', [(''id'', PStr ''a''), (''target_id'', PStr ''p:c1''), (''annotation_type'', PStr ''contradiction''),
       (''created_by'', PDict [])]),
       (''b'', [(''id'', PStr ''b''), (''target_id'', PStr ''p:c1''), (''annotation_type'', PStr ''replication''),
       (''structured_payload'', PDict [(''outcome'', PStr ''contradicts''), (''reproduction_kind'', PStr ''fresh'')])])]\<rparr>"

lemma contradicted_paper_uncounted:
  "case corpus_stats contradicted_corpus ''now'' of Inl _ \<Rightarrow> False | Inr g \<Rightarrow>
     dget g ''papers'' = PInt 1 \<and> dget g ''agent_authored_papers'' = PInt 2 \<and>
     (case dget g ''by_status'' of PDict d \<Rightarrow> list_all (\<lambda>(_, n). n = PInt 0) d | _ \<Rightarrow> False)"
  by code_simp

lemma topics_sorted_distinct:
  "list_topics s = Inr ts \<Longrightarrow> sorted ts \<and> distinct ts \<and> (\<forall>us. topic_uses s = Inr us \<longrightarrow> set ts = set us)"
  by (auto simp: list_topics_def rbind_Inr_iff)

definition carol :: authed_request where
  "carol = \<lparr>au_identity = OrcidIdentity ''0000-0002'', au_token = ''t''\<rparr>"

lemma snapshot_is_complete_witness:
  "\<exists>s' i b. snapshot_blob s' i = Inr b \<and>
    named_file ''papers'' [(''id'', PStr ''p'')] \<in> set (get_files (length b) b)"
proof -
  have "\<not> is_anonymous (au_identity carol)" by (simp add: carol_def)
  moreover have "\<exists>fs. snapshot_files one_paper = Inr fs"
    by (simp add: snapshot_files_def one_paper_def list_papers_def list_claims_def list_annotations_def dict_values_def
        empty_store_def item_file_def cir_files_def dindex_def unhashable_def get_cir_def)
  ultimately have "\<exists>m s'. create_snapshot plain_archiver carol ''00'' 7 one_paper = (Inr m, s')"
    by (auto simp: create_snapshot_def Let_def split: prod.split)
  then obtain m s' where c: "create_snapshot plain_archiver carol ''00'' 7 one_paper = (Inr m, s')" by blast
  have "get_files (length (put_files fs)) (put_files fs) = fs" for fs
    by (rule get_put_files [OF put_files_length])
  then have "\<forall>fs. (\<lambda>b. get_files (length b) b) (ac_pack plain_archiver fs) = fs" by (simp add: plain_archiver_def)
  from snapshot_is_complete [OF c this] obtain i b where
    r: "snapshot_blob s' i = Inr b" "set (get_files (length b) b) = corpus_files one_paper"
    by blast
  moreover have "named_file ''papers'' [(''id'', PStr ''p'')] \<in> corpus_files one_paper"
    by (auto simp: corpus_files_def one_paper_def list_papers_def dict_values_def)
  ultimately show ?thesis by auto
qed

end
