(* ===== verification/Tex_Match.thy ===== *)
theory Tex_Match
  imports Py_Order
begin

text \<open>
  The string matching the LaTeX parser does with regular expressions, as functions. A matcher
  looks at the front of a text and returns, when it matches there, what the match captured and
  the rest of the text behind it. \<open>sub_all\<close> is \<open>re.sub\<close> and \<open>find_all\<close> is
  \<open>re.finditer\<close>: they try every position from left to right and go on behind a match.
  A match that consumes nothing is no match here; no pattern of the parser can match the empty
  text. \<open>replace_all\<close> is \<open>str.replace\<close>.
\<close>

type_synonym 'a matcher = "string \<Rightarrow> ('a \<times> string) option"

definition backslash_char :: char where
  "backslash_char = char_of (92 :: nat)"

definition newline :: char where
  "newline = char_of (10 :: nat)"

text \<open>\<open>\\name\<close>, \<open>\s*\<close>, \<open>[^...]*\<close> followed by a closing character.\<close>

definition macro_named :: "string \<Rightarrow> string \<Rightarrow> string option" where
  "macro_named name s =
     (if startswith s (backslash_char # name) then Some (drop (Suc (length name)) s) else None)"

definition skip_space :: "string \<Rightarrow> string" where
  "skip_space s = dropWhile is_space s"

definition enclosed :: "char \<Rightarrow> (char \<Rightarrow> bool) \<Rightarrow> char \<Rightarrow> string matcher" where
  "enclosed left inner right s =
     (case s of
        [] \<Rightarrow> None
      | c # r \<Rightarrow>
          if c \<noteq> left then None
          else case dropWhile inner r of
              d # r' \<Rightarrow> if d = right then Some (takeWhile inner r, r') else None
            | [] \<Rightarrow> None)"

text \<open>\<open>\{([^{}]*)\}\<close> and \<open>\[([^\]]*)\]\<close>.\<close>

definition flat_group :: "string matcher" where
  "flat_group = enclosed (CHR ''{'') (\<lambda>c. c \<noteq> CHR ''{'' \<and> c \<noteq> CHR ''}'') (CHR ''}'')"

definition bracketed :: "string matcher" where
  "bracketed = enclosed (CHR ''['') (\<lambda>c. c \<noteq> CHR '']'') (CHR '']'')"

text \<open>An alternation: the first alternative with which the pattern matches.\<close>

fun first_match :: "('b \<Rightarrow> 'a option) \<Rightarrow> 'b list \<Rightarrow> 'a option" where
  "first_match f [] = None"
| "first_match f (x # xs) = (case f x of None \<Rightarrow> first_match f xs | Some a \<Rightarrow> Some a)"

text \<open>\<open>\\(?:a|b|...)\s*\{([^{}]*)\}\<close>.\<close>

definition macro_group :: "string list \<Rightarrow> string matcher" where
  "macro_group names s = first_match (\<lambda>n. Option.bind (macro_named n s) (\<lambda>r. flat_group (skip_space r))) names"

function sub_all :: "string matcher \<Rightarrow> string \<Rightarrow> string" where
  "sub_all m s =
     (case s of
        [] \<Rightarrow> []
      | c # r \<Rightarrow>
          case m s of
            None \<Rightarrow> c # sub_all m r
          | Some (out, r') \<Rightarrow> if length r' < length s then out @ sub_all m r' else c # sub_all m r)"
  by pat_completeness auto
termination
  by (relation "measure (\<lambda>(m, s). length s)") auto

function find_all :: "'a matcher \<Rightarrow> string \<Rightarrow> 'a list" where
  "find_all m s =
     (case s of
        [] \<Rightarrow> []
      | c # r \<Rightarrow>
          case m s of
            None \<Rightarrow> find_all m r
          | Some (a, r') \<Rightarrow> if length r' < length s then a # find_all m r' else find_all m r)"
  by pat_completeness auto
termination
  by (relation "measure (\<lambda>(m, s). length s)") auto

declare sub_all.simps [simp del] find_all.simps [simp del]

text \<open>\<open>re.search\<close>: the first match.\<close>

fun find_first :: "'a matcher \<Rightarrow> string \<Rightarrow> 'a option" where
  "find_first m [] = None"
| "find_first m (c # r) = (case m (c # r) of Some (a, _) \<Rightarrow> Some a | None \<Rightarrow> find_first m r)"

definition plain_match :: "string \<Rightarrow> string \<Rightarrow> string matcher" where
  "plain_match old new s = (if startswith s old then Some (new, drop (length old) s) else None)"

definition replace_all :: "string \<Rightarrow> string \<Rightarrow> string \<Rightarrow> string" where
  "replace_all old new s = sub_all (plain_match old new) s"

text \<open>
  \<open>str.splitlines\<close>: the line boundaries among the code points 0 to 255; a carriage return
  and the newline after it are one boundary.
\<close>

definition line_break :: "char \<Rightarrow> bool" where
  "line_break c =
     (let n = (of_char c :: nat) in (10 \<le> n \<and> n \<le> 13) \<or> (28 \<le> n \<and> n \<le> 30) \<or> n = 133)"

fun lines_from :: "string \<Rightarrow> string \<Rightarrow> string list" where
  "lines_from cur [] = (if cur = [] then [] else [cur])"
| "lines_from cur (c # cs) =
     (if line_break c
      then cur # lines_from [] (if of_char c = (13 :: nat) \<and> cs \<noteq> [] \<and> hd cs = newline then tl cs else cs)
      else lines_from (cur @ [c]) cs)"

definition splitlines :: "string \<Rightarrow> string list" where
  "splitlines s = lines_from [] s"

text \<open>\<open>s.partition(c)\<close>: the part before, whether \<open>c\<close> occurs, and the part behind.\<close>

definition str_partition :: "char \<Rightarrow> string \<Rightarrow> string \<times> bool \<times> string" where
  "str_partition c s = (takeWhile (\<lambda>x. x \<noteq> c) s, c \<in> set s, tl (dropWhile (\<lambda>x. x \<noteq> c) s))"

section \<open>Facts about matching\<close>

lemma cut_before: "c \<notin> set s \<Longrightarrow> takeWhile (\<lambda>x. x \<noteq> c) (s @ c # d) = s"
  by (induction s) auto

lemma cut_behind: "c \<notin> set s \<Longrightarrow> dropWhile (\<lambda>x. x \<noteq> c) (s @ c # d) = c # d"
  by (induction s) auto

lemma sub_all_Nil [simp]: "sub_all m [] = []"
  by (subst sub_all.simps) simp

lemma sub_all_nowhere: "(\<And>t. suffix t s \<Longrightarrow> m t = None) \<Longrightarrow> sub_all m s = s"
proof (induction s)
  case (Cons c r)
  have "sub_all m r = r" by (rule Cons.IH) (simp add: Cons.prems suffix_Cons)
  moreover have "m (c # r) = None" by (rule Cons.prems) simp
  ultimately show ?case by (subst sub_all.simps) simp
qed simp

text \<open>A matcher that never writes more than it reads makes a text no longer.\<close>

definition shrinking :: "string matcher \<Rightarrow> bool" where
  "shrinking m \<longleftrightarrow> (\<forall>s out r. m s = Some (out, r) \<longrightarrow> length out + length r \<le> length s)"

lemma sub_all_length: "shrinking m \<Longrightarrow> length (sub_all m s) \<le> length s"
proof (induction m s rule: sub_all.induct)
  case (1 m s)
  show ?case
  proof (cases s)
    case Nil
    then show ?thesis by simp
  next
    case (Cons c r)
    show ?thesis
    proof (cases "m s")
      case None
      with 1(1) [OF Cons None] 1(4) show ?thesis by (subst sub_all.simps) (simp add: Cons)
    next
      case (Some p)
      obtain out r' where p: "p = (out, r')" by (cases p)
      have le: "length out + length r' \<le> length s" using 1(4) Some p by (auto simp: shrinking_def)
      show ?thesis
      proof (cases "length r' < length s")
        case True
        with 1(2) [OF Cons Some p [symmetric] True] 1(4) le have "length (out @ sub_all m r') \<le> length s" by simp
        moreover have "sub_all m s = out @ sub_all m r'"
          using Cons Some p True by (subst sub_all.simps) simp
        ultimately show ?thesis by simp
      next
        case False
        with 1(3) [OF Cons Some p [symmetric] False] 1(4) have "length (c # sub_all m r) \<le> length s" by (simp add: Cons)
        moreover have "sub_all m s = c # sub_all m r"
          using Cons Some p False by (subst sub_all.simps) simp
        ultimately show ?thesis by simp
      qed
    qed
  qed
qed

lemma lines_from_line: "list_all (\<lambda>c. \<not> line_break c) l \<Longrightarrow> lines_from cur (l @ s) = lines_from (cur @ l) s"
  by (induction l arbitrary: cur) auto

lemma line_break_newline [simp]: "line_break newline"
  by (simp add: line_break_def newline_def Let_def of_char_of)

lemma of_char_newline [simp]: "of_char newline = (10 :: nat)"
  by (simp add: newline_def of_char_of)

lemma splitlines_line:
  "list_all (\<lambda>c. \<not> line_break c) l \<Longrightarrow> splitlines (l @ newline # s) = l # splitlines s"
  by (simp add: splitlines_def lines_from_line)

text \<open>A text written line by line is read back line by line.\<close>

definition unlines :: "string list \<Rightarrow> string" where
  "unlines ls = concat (map (\<lambda>l. l @ [newline]) ls)"

lemma unlines_simps [simp]: "unlines [] = []" "unlines (l # ls) = l @ newline # unlines ls"
  by (simp_all add: unlines_def)

lemma splitlines_unlines:
  "(\<And>l. l \<in> set ls \<Longrightarrow> list_all (\<lambda>c. \<not> line_break c) l) \<Longrightarrow> splitlines (unlines ls) = ls"
  by (induction ls) (simp_all add: splitlines_line splitlines_def [of "[]"])

end
