(* ===== verification/Tex_Walk.thy ===== *)
theory Tex_Walk
  imports Tex_Match
begin

text \<open>
  The walk over the nodes of a LaTeX source (\<open>parser/tex.py\<close>). The nodes are those of the
  \<open>pylatexenc\<close> library, with the attributes the walk reads; parsing a text into nodes is the
  parameter of \<open>parse_tex\<close>. An index the code carries from one helper to the next is the
  distance from the node at hand.
\<close>

section \<open>Nodes\<close>

datatype tex_node =
    CharsNode (chars: string) (verbatim: string)
  | GroupNode "string \<times> string" "tex_node list" (verbatim: string)
  | MacroNode (macroname: string) "tex_node option list" nat (verbatim: string)
  | EnvNode string "tex_node option list" "tex_node list" nat (verbatim: string)
  | OtherNode (verbatim: string)

definition tex_env_names :: "string list" where
  "tex_env_names = [''claim'', ''evidence'', ''observation'', ''scope'', ''openquestion'', ''rrxivremark'']"

definition tex_env_to_sidecar_kind :: "string \<Rightarrow> string" where
  "tex_env_to_sidecar_kind name = (if name = ''rrxivremark'' then ''remark'' else name)"

record tex_author =
  ta_name :: string
  ta_affil_indices :: "int list"

record tex_section =
  sec_level :: nat
  sec_title :: string
  sec_label :: "string option"
  sec_offset :: nat

record tex_environment =
  te_name :: string
  te_title :: "string option"
  te_label :: "string option"
  te_body :: string
  te_offset :: nat
  te_end :: nat
  te_inputs :: "string list"

record tex_citation =
  tc_keys :: "string list"
  tc_offset :: nat

record tex_metadata =
  tm_id :: "string option"
  tm_version :: "string option"
  tm_protocol :: "string option"
  tm_license :: "string option"
  tm_topics :: "string list"

record tex_found =
  tf_title :: "string option"
  tf_authors :: "tex_author list"
  tf_affils :: "(int \<times> string) list"
  tf_abstract :: "string option"
  tf_metadata :: tex_metadata
  tf_sections :: "tex_section list"
  tf_envs :: "tex_environment list"
  tf_bib_files :: "string list"

record tex_document = tex_found +
  td_citations :: "tex_citation list"

section \<open>Arguments\<close>

definition group_inner_text :: "tex_node list \<Rightarrow> string" where
  "group_inner_text ns = str_strip (concat (map verbatim ns))"

fun delimited :: "string \<times> string \<Rightarrow> tex_node option list \<Rightarrow> string option" where
  "delimited d [] = None"
| "delimited d (Some (GroupNode d' ns v) # args) = (if d' = d then Some (group_inner_text ns) else delimited d args)"
| "delimited d (_ # args) = delimited d args"

fun macro_arg :: "string \<times> string \<Rightarrow> tex_node \<Rightarrow> string option" where
  "macro_arg d (MacroNode name args pos v) = delimited d args"
| "macro_arg d _ = None"

fun sibling_group_arg :: "nat \<Rightarrow> tex_node list \<Rightarrow> string option \<times> nat" where
  "sibling_group_arg j (CharsNode c v # ns) = (if str_strip c = [] then sibling_group_arg (Suc j) ns else (None, j))"
| "sibling_group_arg j (GroupNode d inner v # ns) = (Some (group_inner_text inner), j)"
| "sibling_group_arg j _ = (None, j)"

fun sibling_optional_arg :: "nat \<Rightarrow> tex_node list \<Rightarrow> string option \<times> nat" where
  "sibling_optional_arg j (CharsNode c v # ns) =
     (let t = str_lstrip c
      in if t = [] then sibling_optional_arg (Suc j) ns
         else if startswith t ''['' \<and> CHR '']'' \<in> set t
         then (Some (takeWhile (\<lambda>x. x \<noteq> CHR '']'') (tl t)), j)
         else (None, j))"
| "sibling_optional_arg j _ = (None, j)"

text \<open>The argument of the first node of a list, and how far behind it it was found.\<close>

fun next_group_arg :: "tex_node list \<Rightarrow> string option \<times> nat" where
  "next_group_arg [] = (None, 0)"
| "next_group_arg (n # ns) =
     (case macro_arg (''{'', ''}'') n of Some a \<Rightarrow> (Some a, 0) | None \<Rightarrow> sibling_group_arg 1 ns)"

fun next_optional_arg :: "tex_node list \<Rightarrow> string option \<times> nat" where
  "next_optional_arg [] = (None, 0)"
| "next_optional_arg (n # ns) =
     (case macro_arg (''['', '']'') n of Some a \<Rightarrow> (Some a, 0) | None \<Rightarrow> sibling_optional_arg 1 ns)"

definition is_macro :: "string list \<Rightarrow> tex_node \<Rightarrow> bool" where
  "is_macro names n = (case n of MacroNode name _ _ _ \<Rightarrow> name \<in> set names | _ \<Rightarrow> False)"

fun children :: "tex_node \<Rightarrow> tex_node list" where
  "children (GroupNode _ ns _) = ns"
| "children (EnvNode _ _ ns _ _) = ns"
| "children _ = []"

fun position :: "tex_node \<Rightarrow> nat" where
  "position (MacroNode _ _ pos _) = pos"
| "position (EnvNode _ _ _ pos _) = pos"
| "position _ = 0"

lemma children_smaller: "size_list size (children n) \<le> size n"
  by (cases n) simp_all

section \<open>Scans of a subtree\<close>

function scan_label_in_nodes :: "tex_node list \<Rightarrow> string option" where
  "scan_label_in_nodes [] = None"
| "scan_label_in_nodes (n # ns) =
     (case (if is_macro [''label''] n then fst (next_group_arg (n # ns)) else None) of
        Some a \<Rightarrow> Some a
      | None \<Rightarrow>
          (case scan_label_in_nodes (children n) of
             Some a \<Rightarrow> Some a
           | None \<Rightarrow> scan_label_in_nodes ns))"
  by pat_completeness auto
termination
  by (relation "measure (size_list size)") (auto simp: less_Suc_eq_le trans_le_add1 children_smaller)

definition comma_parts :: "string \<Rightarrow> string list" where
  "comma_parts s = filter (\<lambda>k. k \<noteq> []) (map str_strip (split_on (CHR '','') s))"

definition cite_of :: "tex_node list \<Rightarrow> tex_citation list" where
  "cite_of nodes =
     (if nodes \<noteq> [] \<and> is_macro [''cite''] (hd nodes)
      then case fst (next_group_arg nodes) of
          Some a \<Rightarrow> if comma_parts a = [] then [] else [\<lparr>tc_keys = comma_parts a, tc_offset = position (hd nodes)\<rparr>]
        | None \<Rightarrow> []
      else [])"

function scan_cites_in_nodes :: "tex_node list \<Rightarrow> tex_citation list" where
  "scan_cites_in_nodes [] = []"
| "scan_cites_in_nodes (n # ns) = cite_of (n # ns) @ scan_cites_in_nodes (children n) @ scan_cites_in_nodes ns"
  by pat_completeness auto
termination
  by (relation "measure (size_list size)") (auto simp: less_Suc_eq_le trans_le_add1 children_smaller)

definition input_of :: "tex_node list \<Rightarrow> string list" where
  "input_of nodes =
     (if nodes \<noteq> [] \<and> is_macro [''input'', ''include''] (hd nodes)
      then case fst (next_group_arg nodes) of
          Some a \<Rightarrow> if a = [] then [] else [str_strip a]
        | None \<Rightarrow> []
      else [])"

function scan_inputs_in_nodes :: "tex_node list \<Rightarrow> string list" where
  "scan_inputs_in_nodes [] = []"
| "scan_inputs_in_nodes (n # ns) = input_of (n # ns) @ scan_inputs_in_nodes (children n) @ scan_inputs_in_nodes ns"
  by pat_completeness auto
termination
  by (relation "measure (size_list size)") (auto simp: less_Suc_eq_le trans_le_add1 children_smaller)

section \<open>Environments\<close>

fun bracket_arg :: "tex_node option list \<Rightarrow> string option" where
  "bracket_arg [] = None"
| "bracket_arg (None # args) = bracket_arg args"
| "bracket_arg (Some a # args) =
     (let t = str_strip (verbatim a)
      in if startswith t ''['' \<and> endswith t '']'' then Some (str_strip (butlast (tl t))) else bracket_arg args)"

definition bracket_prefix :: "string \<Rightarrow> string option" where
  "bracket_prefix t =
     (if startswith t ''['' \<and> CHR '']'' \<in> set t then Some (takeWhile (\<lambda>x. x \<noteq> CHR '']'') (tl t)) else None)"

definition env_optional_title :: "tex_node option list \<Rightarrow> tex_node list \<Rightarrow> string option" where
  "env_optional_title args ns =
     (case bracket_arg args of
        Some t \<Rightarrow> Some t
      | None \<Rightarrow> (case ns of CharsNode c v # _ \<Rightarrow> bracket_prefix (str_lstrip c) | _ \<Rightarrow> None))"

definition node_body_text :: "tex_node list \<Rightarrow> string" where
  "node_body_text ns = concat (map verbatim ns)"

text \<open>The body loses a leading title; an empty title counts as none.\<close>

definition environment_of :: "string \<Rightarrow> tex_node option list \<Rightarrow> tex_node list \<Rightarrow> nat \<Rightarrow> string \<Rightarrow> tex_environment" where
  "environment_of name args ns pos source =
     (let opt_title = env_optional_title args ns;
          body = str_strip (node_body_text ns);
          body = (if (case opt_title of Some t \<Rightarrow> t \<noteq> [] | None \<Rightarrow> False) \<and> startswith body ''['' \<and> CHR '']'' \<in> set body
                  then str_lstrip (tl (dropWhile (\<lambda>x. x \<noteq> CHR '']'') body)) else body)
      in \<lparr>te_name = name, te_title = opt_title, te_label = scan_label_in_nodes ns, te_body = body,
          te_offset = pos, te_end = pos + length source, te_inputs = scan_inputs_in_nodes ns\<rparr>)"

section \<open>The walk\<close>

text \<open>
  \<open>str.isdigit\<close> also accepts the three superscript digits of this range of characters, which
  \<open>int\<close> refuses.
\<close>

definition py_isdigit :: "string \<Rightarrow> bool" where
  "py_isdigit s \<longleftrightarrow> s \<noteq> [] \<and> list_all (\<lambda>c. is_digit c \<or> of_char c \<in> {178, 179, 185 :: nat}) s"

definition to_int :: "string \<Rightarrow> pyexn + int" where
  "to_int s = (case int_of_str s of Some i \<Rightarrow> Inr i | None \<Rightarrow> Inl ValueError)"

definition section_level :: "string \<Rightarrow> nat option" where
  "section_level name = map_of [(''section'', 1), (''subsection'', 2), (''subsubsection'', 3), (''paragraph'', 4)] name"

fun label_in_window :: "nat \<Rightarrow> tex_node list \<Rightarrow> string option" where
  "label_in_window (Suc k) (n # ns) =
     (if is_macro [''label''] n then fst (next_group_arg (n # ns)) else label_in_window k ns)"
| "label_in_window _ _ = None"

text \<open>A macro whose argument is recorded: what it records and how many nodes are skipped.\<close>

definition with_arg :: "tex_node list \<Rightarrow> tex_found \<Rightarrow> (string \<Rightarrow> tex_found) \<Rightarrow> pyexn + tex_found \<times> nat" where
  "with_arg nodes q f = (case next_group_arg nodes of (Some a, j) \<Rightarrow> Inr (f a, j) | (None, _) \<Rightarrow> Inr (q, 0))"

definition author_step :: "tex_node list \<Rightarrow> tex_found \<Rightarrow> pyexn + tex_found \<times> nat" where
  "author_step nodes q =
     (case next_optional_arg nodes of
        (Some optional, j) \<Rightarrow>
          rbind (rmap to_int (filter py_isdigit (map str_strip (split_on (CHR '','') optional)))) (\<lambda>indices.
            case next_group_arg (drop j nodes) of
              (Some a, k) \<Rightarrow> Inr (q\<lparr>tf_authors := tf_authors q @ [\<lparr>ta_name = a, ta_affil_indices = indices\<rparr>]\<rparr>, j + k)
            | (None, _) \<Rightarrow> Inr (q, 0))
      | (None, _) \<Rightarrow>
          with_arg nodes q (\<lambda>a. q\<lparr>tf_authors := tf_authors q @ [\<lparr>ta_name = a, ta_affil_indices = []\<rparr>]\<rparr>))"

definition affil_step :: "tex_node list \<Rightarrow> tex_found \<Rightarrow> pyexn + tex_found \<times> nat" where
  "affil_step nodes q =
     (case next_optional_arg nodes of
        (Some optional, j) \<Rightarrow>
          if \<not> py_isdigit (str_strip optional) then Inr (q, j)
          else (case next_group_arg (drop j nodes) of
                  (Some a, k) \<Rightarrow>
                    rbind (to_int (str_strip optional)) (\<lambda>i. Inr (q\<lparr>tf_affils := dict_set i a (tf_affils q)\<rparr>, j + k))
                | (None, _) \<Rightarrow> Inr (q, 0))
      | (None, _) \<Rightarrow> Inr (q, 0))"

definition section_step :: "nat \<Rightarrow> tex_node list \<Rightarrow> tex_found \<Rightarrow> pyexn + tex_found \<times> nat" where
  "section_step level nodes q =
     (case next_group_arg nodes of
        (Some a, j) \<Rightarrow>
          Inr (q\<lparr>tf_sections := tf_sections q @
                  [\<lparr>sec_level = level, sec_title = a, sec_label = label_in_window 12 (drop (Suc j) nodes),
                    sec_offset = position (hd nodes)\<rparr>]\<rparr>, j)
      | (None, _) \<Rightarrow> Inr (q, 0))"

definition macro_step :: "string \<Rightarrow> tex_node list \<Rightarrow> tex_found \<Rightarrow> pyexn + tex_found \<times> nat" where
  "macro_step name nodes q =
     (if name = ''title'' then with_arg nodes q (\<lambda>a. q\<lparr>tf_title := Some a\<rparr>)
      else if name = ''author'' then author_step nodes q
      else if name = ''affil'' then affil_step nodes q
      else if name = ''rrxivid'' then with_arg nodes q (\<lambda>a. q\<lparr>tf_metadata := (tf_metadata q)\<lparr>tm_id := Some a\<rparr>\<rparr>)
      else if name = ''rrxivversion'' then with_arg nodes q (\<lambda>a. q\<lparr>tf_metadata := (tf_metadata q)\<lparr>tm_version := Some a\<rparr>\<rparr>)
      else if name = ''rrxivprotocolversion'' then with_arg nodes q (\<lambda>a. q\<lparr>tf_metadata := (tf_metadata q)\<lparr>tm_protocol := Some a\<rparr>\<rparr>)
      else if name = ''rrxivlicense'' then with_arg nodes q (\<lambda>a. q\<lparr>tf_metadata := (tf_metadata q)\<lparr>tm_license := Some a\<rparr>\<rparr>)
      else if name = ''rrxivtopics'' then with_arg nodes q (\<lambda>a. q\<lparr>tf_metadata := (tf_metadata q)\<lparr>tm_topics := comma_parts a\<rparr>\<rparr>)
      else case section_level name of
          Some level \<Rightarrow> section_step level nodes q
        | None \<Rightarrow>
            if name = ''bibliography'' then with_arg nodes q (\<lambda>a. q\<lparr>tf_bib_files := tf_bib_files q @ [a]\<rparr>)
            else Inr (q, 0))"

lemma size_drop: "size_list size (drop k ns) \<le> size_list size ns"
proof (induction ns arbitrary: k)
  case (Cons n ns)
  show ?case
  proof (cases k)
    case (Suc j)
    with Cons [of j] show ?thesis by simp
  qed simp
qed simp

function walk :: "tex_node list \<Rightarrow> tex_found \<Rightarrow> pyexn + tex_found" where
  "walk [] q = Inr q"
| "walk (EnvNode name args inner pos source # ns) q =
     (if name = ''abstract'' then walk ns (q\<lparr>tf_abstract := Some (str_strip (node_body_text inner))\<rparr>)
      else if name \<in> set tex_env_names
      then walk ns (q\<lparr>tf_envs := tf_envs q @ [environment_of name args inner pos source]\<rparr>)
      else if name = ''document''
      then (case walk inner q of Inl e \<Rightarrow> Inl e | Inr q' \<Rightarrow> walk ns q')
      else walk ns q)"
| "walk (MacroNode name args pos source # ns) q =
     (case macro_step name (MacroNode name args pos source # ns) q of
        Inl e \<Rightarrow> Inl e
      | Inr (q', k) \<Rightarrow> walk (drop k ns) q')"
| "walk (CharsNode c source # ns) q = walk ns q"
| "walk (GroupNode d inner source # ns) q = walk ns q"
| "walk (OtherNode source # ns) q = walk ns q"
  by pat_completeness auto
termination
  by (relation "measure (\<lambda>(ns, q). size_list size ns)")
     (auto simp: less_Suc_eq_le intro: le_trans [OF size_drop])

definition nothing_found :: tex_found where
  "nothing_found =
     \<lparr>tf_title = None, tf_authors = [], tf_affils = [], tf_abstract = None,
      tf_metadata = \<lparr>tm_id = None, tm_version = None, tm_protocol = None, tm_license = None, tm_topics = []\<rparr>,
      tf_sections = [], tf_envs = [], tf_bib_files = []\<rparr>"

definition document_of :: "tex_found \<Rightarrow> tex_citation list \<Rightarrow> tex_document" where
  "document_of q cites = tex_found.extend (q\<lparr>tf_envs := sort_key te_offset (tf_envs q)\<rparr>) (tex_document.fields cites)"

definition parse_tex :: "(string \<Rightarrow> tex_node list) \<Rightarrow> string \<Rightarrow> pyexn + tex_document" where
  "parse_tex get_latex_nodes tex_source =
     (let nodes = get_latex_nodes tex_source
      in rbind (walk nodes nothing_found) (\<lambda>q. Inr (document_of q (scan_cites_in_nodes nodes))))"

end
