(* ===== verification/Tex_Inputs.thy ===== *)
theory Tex_Inputs
  imports Tex_Walk
begin

text \<open>
  Reading a paper of several files (\<open>read_tex_resolving_inputs\<close> of \<open>parser/tex.py\<close>), and
  what the walk of \<open>Tex_Walk\<close> finds. A path is the list of the components of an absolute
  path; the files are a parameter.
\<close>

section \<open>Included files\<close>

type_synonym path = "string list"

datatype reading = Content string | OsError | DecodeError

record file_system =
  fs_read :: "path \<Rightarrow> reading"
  fs_is_file :: "path \<Rightarrow> bool"

definition path_name :: "path \<Rightarrow> string" where
  "path_name p = (if p = [] then [] else last p)"

definition path_join :: "path \<Rightarrow> string \<Rightarrow> path" where
  "path_join p target =
     (let parts = filter (\<lambda>c. c \<noteq> [] \<and> c \<noteq> ''.'') (split_on (CHR ''/'') target)
      in if startswith target ''/'' then parts else p @ parts)"

text \<open>The name without its suffix: a dot neither first nor last starts one.\<close>

definition stem :: "string \<Rightarrow> string" where
  "stem name =
     (let ext = takeWhile (\<lambda>c. c \<noteq> CHR ''.'') (rev name); i = length name - length ext - 1
      in if CHR ''.'' \<in> set name \<and> 0 < i \<and> ext \<noteq> [] then take i name else name)"

definition with_suffix :: "string \<Rightarrow> path \<Rightarrow> pyexn + path" where
  "with_suffix ext p = (if path_name p = [] then Inl ValueError else Inr (butlast p @ [stem (path_name p) @ ext]))"

text \<open>The matches of a pattern with their source, and the characters between them.\<close>

function tokens :: "'a matcher \<Rightarrow> string \<Rightarrow> (char + 'a \<times> string) list" where
  "tokens m s =
     (case s of
        [] \<Rightarrow> []
      | c # r \<Rightarrow>
          case m s of
            None \<Rightarrow> Inl c # tokens m r
          | Some (a, r') \<Rightarrow>
              if length r' < length s then Inr (a, take (length s - length r') s) # tokens m r'
              else Inl c # tokens m r)"
  by pat_completeness auto
termination
  by (relation "measure (\<lambda>(m, s). length s)") auto

declare tokens.simps [simp del]

text \<open>\<open>\\(?:input|include)\s*\{([^}]+)\}\<close>.\<close>

definition input_match :: "string matcher" where
  "input_match s =
     first_match (\<lambda>n. Option.bind (macro_named n s) (\<lambda>r.
       case enclosed (CHR ''{'') (\<lambda>c. c \<noteq> CHR ''}'') (CHR ''}'') (skip_space r) of
         Some (t, r') \<Rightarrow> if t = [] then None else Some (t, r')
       | None \<Rightarrow> None)) [''input'', ''include'']"

definition figure_path :: "string \<Rightarrow> bool" where
  "figure_path t = (startswith t ''figures/'' \<or> startswith t ''fig/'')"

definition resolve_target :: "file_system \<Rightarrow> path \<Rightarrow> string \<Rightarrow> pyexn + path option" where
  "resolve_target fs p target =
     (let base = path_join (butlast p) target
      in rbind (with_suffix ''.tex'' base) (\<lambda>q. Inr (find (fs_is_file fs) [base, q])))"

definition missing_input :: "string \<Rightarrow> string" where
  "missing_input target = ''% rrxiv-parser: missing '' @ backslash_char # ''input{'' @ target @ ''}'' @ [newline]"

definition missing_file :: "path \<Rightarrow> string" where
  "missing_file p = ''% rrxiv-parser: missing '' @ path_name p @ [newline]"

definition skipped_file :: "nat \<Rightarrow> path \<Rightarrow> string" where
  "skipped_file max_depth p =
     ''% rrxiv-parser: skipped '' @ path_name p @ '' (cycle or depth>'' @ str_of_nat max_depth @ '')'' @ [newline]"

definition replace_piece :: "file_system \<Rightarrow> path \<Rightarrow> (path \<Rightarrow> pyexn + string) \<Rightarrow> char + string \<times> string \<Rightarrow> pyexn + string" where
  "replace_piece fs p read piece =
     (case piece of
        Inl c \<Rightarrow> Inr [c]
      | Inr (target, source) \<Rightarrow>
          let t = str_strip target
          in if figure_path t then Inr source
             else rbind (resolve_target fs p t) (\<lambda>chosen.
               case chosen of None \<Rightarrow> Inr (missing_input t) | Some q \<Rightarrow> read q))"

definition replace_all_inputs :: "file_system \<Rightarrow> path \<Rightarrow> (path \<Rightarrow> pyexn + string) \<Rightarrow> string \<Rightarrow> pyexn + string" where
  "replace_all_inputs fs p read txt =
     rbind (rmap (replace_piece fs p read) (tokens input_match txt)) (\<lambda>outs. Inr (concat outs))"

text \<open>The recursive reader; the number counts the levels that are left.\<close>

fun read_level :: "file_system \<Rightarrow> nat \<Rightarrow> nat \<Rightarrow> path list \<Rightarrow> path \<Rightarrow> pyexn + string" where
  "read_level fs max_depth 0 seen p = Inr (skipped_file max_depth p)"
| "read_level fs max_depth (Suc k) seen p =
     (if p \<in> set seen then Inr (skipped_file max_depth p)
      else case fs_read fs p of
          OsError \<Rightarrow> Inr (missing_file p)
        | DecodeError \<Rightarrow> Inl ValueError
        | Content txt \<Rightarrow> replace_all_inputs fs p (read_level fs max_depth k (p # seen)) txt)"

definition default_max_depth :: nat where
  "default_max_depth = 16"

definition read_tex_resolving_inputs :: "file_system \<Rightarrow> nat \<Rightarrow> path \<Rightarrow> pyexn + string" where
  "read_tex_resolving_inputs fs max_depth root_path = read_level fs max_depth (Suc max_depth) [] root_path"

definition parse_tex_file :: "file_system \<Rightarrow> (string \<Rightarrow> tex_node list) \<Rightarrow> path \<Rightarrow> pyexn + tex_document" where
  "parse_tex_file fs get_latex_nodes p =
     rbind (read_tex_resolving_inputs fs default_max_depth p) (parse_tex get_latex_nodes)"

section \<open>Plain inlining\<close>

text \<open>
  What including means: no memory of the files read and no bound but that of the recursion,
  which fails when the files are nested deeper.
\<close>

fun inlined :: "file_system \<Rightarrow> nat \<Rightarrow> path \<Rightarrow> pyexn + string" where
  "inlined fs 0 p = Inl ValueError"
| "inlined fs (Suc n) p =
     (case fs_read fs p of
        OsError \<Rightarrow> Inr (missing_file p)
      | DecodeError \<Rightarrow> Inl ValueError
      | Content txt \<Rightarrow> replace_all_inputs fs p (inlined fs n) txt)"

lemma rmap_transfer:
  "(\<And>x y. x \<in> set xs \<Longrightarrow> f x = Inr y \<Longrightarrow> g x = Inr y) \<Longrightarrow> rmap f xs = Inr ys \<Longrightarrow> rmap g xs = Inr ys"
  by (induction xs arbitrary: ys) (auto simp: rbind_Inr_iff)

lemma replace_piece_transfer:
  "(\<And>q t. r q = Inr t \<Longrightarrow> r' q = Inr t) \<Longrightarrow> replace_piece fs p r x = Inr y \<Longrightarrow> replace_piece fs p r' x = Inr y"
  by (auto simp: replace_piece_def Let_def rbind_Inr_iff split: sum.splits prod.splits option.splits if_splits)

lemma replace_all_inputs_transfer:
  assumes "\<And>q t. r q = Inr t \<Longrightarrow> r' q = Inr t" "replace_all_inputs fs p r txt = Inr y"
  shows "replace_all_inputs fs p r' txt = Inr y"
  using assms(2) rmap_transfer [of _ "replace_piece fs p r" "replace_piece fs p r'"] replace_piece_transfer [of r r', OF assms(1)]
  by (auto simp: replace_all_inputs_def rbind_Inr_iff)

lemma inlined_Suc: "inlined fs n p = Inr t \<Longrightarrow> inlined fs (Suc n) p = Inr t"
proof (induction n arbitrary: p t)
  case (Suc n)
  show ?case
  proof (cases "fs_read fs p")
    case (Content body)
    have "replace_all_inputs fs p (inlined fs (Suc n)) body = Inr t"
      by (rule replace_all_inputs_transfer [of "inlined fs n"]) (use Suc Content in auto)
    then show ?thesis by (subst inlined.simps) (simp add: Content)
  qed (use Suc.prems in simp_all)
qed simp

lemma inlined_mono: "inlined fs n p = Inr t \<Longrightarrow> n \<le> m \<Longrightarrow> inlined fs m p = Inr t"
  by (induction m) (auto simp: le_Suc_eq simp del: inlined.simps intro: inlined_Suc)

lemma read_level_inlined:
  assumes "inlined fs n p = Inr t" "n \<le> k" "\<forall>s \<in> set seen. \<forall>t. inlined fs n s \<noteq> Inr t"
  shows "read_level fs max_depth k seen p = Inr t"
  using assms
proof (induction n arbitrary: k seen p t rule: less_induct)
  case (less n)
  define m where "m = (LEAST i. inlined fs i p = Inr t)"
  have m: "inlined fs m p = Inr t" unfolding m_def by (rule LeastI [of _ n]) (rule less.prems(1))
  have mn: "m \<le> n" unfolding m_def by (rule Least_le) (rule less.prems(1))
  then obtain i where i: "m = Suc i" using m by (cases m) auto
  have not_yet: "inlined fs i p \<noteq> Inr u" for u
  proof
    assume u: "inlined fs i p = Inr u"
    then have "u = t" using inlined_Suc [OF u] m i by simp
    with u have "m \<le> i" unfolding m_def by (intro Least_le) simp
    with i show False by simp
  qed
  obtain j where j: "k = Suc j" "i \<le> j" using less.prems(2) mn i by (cases k) auto
  have "p \<notin> set seen" using less.prems(1,3) by blast
  moreover have "replace_all_inputs fs p (read_level fs max_depth j (p # seen)) body = Inr t"
    if "fs_read fs p = Content body" for body
  proof (rule replace_all_inputs_transfer [of "inlined fs i"])
    show "replace_all_inputs fs p (inlined fs i) body = Inr t" using m i that by simp
    fix q u assume q: "inlined fs i q = Inr u"
    have "\<forall>s \<in> set (p # seen). \<forall>t. inlined fs i s \<noteq> Inr t"
      using not_yet less.prems(3) inlined_mono [of fs i _ _ n] mn i by (auto simp: Suc_le_eq dest: less_imp_le)
    with q j(2) mn i show "read_level fs max_depth j (p # seen) q = Inr u"
      by (intro less.IH [of i]) auto
  qed
  ultimately show ?case using m i j by (cases "fs_read fs p") auto
qed

text \<open>C24: A paper whose files are nested at most seventeen deep is read as plain inlining of its
  files: the memory of the files read and the bound on the depth change nothing.\<close>

theorem inputs_inlined:
  assumes "inlined fs 17 p = Inr t"
  shows "read_tex_resolving_inputs fs default_max_depth p = Inr t"
  unfolding read_tex_resolving_inputs_def
  by (rule read_level_inlined [OF assms]) (simp_all add: default_max_depth_def)

definition two_files :: file_system where
  "two_files =
     \<lparr>fs_read = (\<lambda>p. if p = [''a'', ''main.tex''] then Content (''x'' @ backslash_char # ''input{sub/b}y'')
                     else if p = [''a'', ''sub'', ''b.tex''] then Content ''in'' else OsError),
      fs_is_file = (\<lambda>p. p = [''a'', ''sub'', ''b.tex''])\<rparr>"

theorem inputs_inlined_witness:
  "read_tex_resolving_inputs two_files default_max_depth [''a'', ''main.tex''] = Inr ''xiny''"
  by (rule inputs_inlined) code_simp

text \<open>A cycle of inclusions is cut where a file comes back.\<close>

definition self_including :: file_system where
  "self_including =
     \<lparr>fs_read = (\<lambda>p. Content (''x'' @ backslash_char # ''input{main}'')), fs_is_file = (\<lambda>p. p = [''main.tex''])\<rparr>"

lemma cycle_cut:
  "read_tex_resolving_inputs self_including default_max_depth [''main.tex''] = Inr (''x'' @ skipped_file 16 [''main.tex''])"
  by code_simp

section \<open>What the walk finds\<close>

text \<open>The semantic environments in the document's own text, in order.\<close>

function visible :: "tex_node list \<Rightarrow> tex_environment list" where
  "visible [] = []"
| "visible (n # ns) =
     (case n of
        EnvNode name args inner pos source \<Rightarrow>
          if name \<in> set tex_env_names then [environment_of name args inner pos source]
          else if name = ''document'' then visible inner else []
      | _ \<Rightarrow> []) @ visible ns"
  by pat_completeness auto
termination
  by (relation "measure (size_list size)") auto

lemma visible_other [simp]:
  "visible (CharsNode c v # ns) = visible ns" "visible (GroupNode d inner v # ns) = visible ns"
  "visible (MacroNode name args pos v # ns) = visible ns" "visible (OtherNode v # ns) = visible ns"
  by simp_all

lemma sibling_group_skips:
  "sibling_group_arg j ns = (Some a, j') \<Longrightarrow> \<exists>i. j' = j + i \<and> visible (drop (Suc i) ns) = visible ns"
proof (induction j ns rule: sibling_group_arg.induct)
  case (1 j c v ns)
  show ?case
  proof (cases "str_strip c = []")
    case True
    with 1 obtain i where "j' = Suc j + i" "visible (drop (Suc i) ns) = visible ns" by auto
    then show ?thesis by (intro exI [of _ "Suc i"]) simp
  qed (use 1 in simp)
qed auto

lemma sibling_optional_skips:
  "sibling_optional_arg j ns = (Some a, j') \<Longrightarrow> \<exists>i. j' = j + i \<and> visible (drop (Suc i) ns) = visible ns"
proof (induction j ns rule: sibling_optional_arg.induct)
  case (1 j c v ns)
  show ?case
  proof (cases "str_lstrip c = []")
    case True
    with 1 obtain i where "j' = Suc j + i" "visible (drop (Suc i) ns) = visible ns" by auto
    then show ?thesis by (intro exI [of _ "Suc i"]) simp
  next
    case False
    with 1(2) show ?thesis by (intro exI [of _ 0]) (auto simp: Let_def split: if_splits)
  qed
qed auto

lemma group_arg_skips: "next_group_arg nodes = (Some a, k) \<Longrightarrow> visible (drop k (tl nodes)) = visible (tl nodes)"
  by (cases nodes) (auto split: option.splits dest: sibling_group_skips)

lemma optional_arg_skips: "next_optional_arg nodes = (Some a, k) \<Longrightarrow> visible (drop k (tl nodes)) = visible (tl nodes)"
  by (cases nodes) (auto split: option.splits dest: sibling_optional_skips)

lemma both_args_skip:
  assumes "next_optional_arg nodes = (Some a, j)" "next_group_arg (drop j nodes) = (Some b, k)"
  shows "visible (drop (j + k) (tl nodes)) = visible (tl nodes)"
proof -
  have "tl (drop j nodes) = drop j (tl nodes)" by (rule tl_drop)
  then show ?thesis
    using group_arg_skips [OF assms(2)] optional_arg_skips [OF assms(1)] by (simp add: add.commute)
qed

text \<open>A step keeps the environments found and skips none.\<close>

definition skips_none :: "tex_node list \<Rightarrow> tex_found \<Rightarrow> tex_found \<times> nat \<Rightarrow> bool" where
  "skips_none nodes q r \<longleftrightarrow> tf_envs (fst r) = tf_envs q \<and> visible (drop (snd r) (tl nodes)) = visible (tl nodes)"

lemma with_arg_skips:
  "with_arg nodes q f = Inr r \<Longrightarrow> (\<And>a. tf_envs (f a) = tf_envs q) \<Longrightarrow> skips_none nodes q r"
  by (auto simp: with_arg_def skips_none_def split: prod.splits option.splits dest: group_arg_skips)

lemma author_step_skips:
  assumes "author_step nodes q = Inr r"
  shows "skips_none nodes q r"
proof (cases "fst (next_optional_arg nodes)")
  case None
  then have "with_arg nodes q (\<lambda>a. q\<lparr>tf_authors := tf_authors q @ [\<lparr>ta_name = a, ta_affil_indices = []\<rparr>]\<rparr>) = Inr r"
    using assms by (cases "next_optional_arg nodes") (simp add: author_step_def)
  then show ?thesis by (rule with_arg_skips) simp
next
  case (Some optional)
  then obtain j where j: "next_optional_arg nodes = (Some optional, j)" by (cases "next_optional_arg nodes") simp
  obtain b k where k: "next_group_arg (drop j nodes) = (b, k)" by (cases "next_group_arg (drop j nodes)")
  show ?thesis
  proof (cases b)
    case None
    with assms j k show ?thesis by (auto simp: author_step_def rbind_Inr_iff skips_none_def)
  next
    case (Some name)
    with assms j k both_args_skip [of nodes optional j name k] show ?thesis
      by (auto simp: author_step_def rbind_Inr_iff skips_none_def)
  qed
qed

lemma affil_step_skips: "affil_step nodes q = Inr r \<Longrightarrow> skips_none nodes q r"
  by (auto simp: affil_step_def rbind_Inr_iff skips_none_def split: prod.splits option.splits if_splits
      dest: both_args_skip optional_arg_skips)

lemma section_step_skips: "section_step level nodes q = Inr r \<Longrightarrow> skips_none nodes q r"
  by (auto simp: section_step_def skips_none_def split: prod.splits option.splits dest: group_arg_skips)

lemma macro_step_skips: "macro_step name nodes q = Inr r \<Longrightarrow> skips_none nodes q r"
  unfolding macro_step_def
  by (auto split: if_splits option.splits intro: with_arg_skips author_step_skips affil_step_skips section_step_skips)
     (auto simp: skips_none_def)

lemma walk_finds: "walk ns q = Inr q' \<Longrightarrow> tf_envs q' = tf_envs q @ visible ns"
proof (induction ns q arbitrary: q' rule: walk.induct)
  case (2 name args inner pos source ns q)
  have names: "''abstract'' \<notin> set tex_env_names" "''document'' \<notin> set tex_env_names" by code_simp+
  consider "name = ''abstract''" | "name \<in> set tex_env_names" | "name = ''document''"
    | "name \<noteq> ''abstract''" "name \<notin> set tex_env_names" "name \<noteq> ''document''" by blast
  then show ?case
  proof cases
    case 1
    have "walk ns (q\<lparr>tf_abstract := Some (str_strip (node_body_text inner))\<rparr>) = Inr q'" using "2.prems" 1 by simp
    from "2.IH"(1) [OF 1 this] 1 names show ?thesis by simp
  next
    case 2
    then have other: "name \<noteq> ''abstract''" using names by blast
    have "walk ns (q\<lparr>tf_envs := tf_envs q @ [environment_of name args inner pos source]\<rparr>) = Inr q'"
      using "2.prems" 2 other by simp
    from "2.IH"(2) [OF other 2 this] 2 show ?thesis by simp
  next
    case 3
    then have other: "name \<noteq> ''abstract''" "name \<notin> set tex_env_names" using names by auto
    obtain q1 where q1: "walk inner q = Inr q1" "walk ns q1 = Inr q'"
      using "2.prems" other 3 by (auto split: sum.splits)
    from "2.IH"(3) [OF other 3 q1(1)] "2.IH"(4) [OF other 3 q1] other 3 show ?thesis by simp
  next
    case 4
    then have "walk ns q = Inr q'" using "2.prems" by simp
    from "2.IH"(5) [OF 4 this] 4 show ?thesis by simp
  qed
next
  case (3 name args pos source ns q)
  then obtain q1 k where step: "macro_step name (MacroNode name args pos source # ns) q = Inr (q1, k)"
    and rest: "walk (drop k ns) q1 = Inr q'" by (auto split: sum.splits)
  have "tf_envs q' = tf_envs q1 @ visible (drop k ns)" by (rule "3.IH" [OF step refl rest])
  moreover have "tf_envs q1 = tf_envs q" "visible (drop k ns) = visible ns"
    using macro_step_skips [OF step] by (simp_all add: skips_none_def)
  ultimately show ?case by (simp only: visible_other)
qed simp_all

text \<open>C25: Parsing finds every semantic environment in the text of the document: no argument of a
  macro hides one, and they come sorted by their position.\<close>

theorem environments_found:
  assumes "parse_tex get_latex_nodes txt = Inr d"
  shows "tf_envs d = sort_key te_offset (visible (get_latex_nodes txt))"
proof -
  obtain q where q: "walk (get_latex_nodes txt) nothing_found = Inr q"
    and d: "d = document_of q (scan_cites_in_nodes (get_latex_nodes txt))"
    using assms by (auto simp: parse_tex_def Let_def rbind_Inr_iff)
  have "tf_envs nothing_found = []" by (simp add: nothing_found_def)
  with walk_finds [OF q] show ?thesis
    by (simp add: d document_of_def tex_found.defs tex_document.defs)
qed

definition example_nodes :: "tex_node list" where
  "example_nodes =
     [MacroNode ''title'' [Some (GroupNode (''{'', ''}'') [CharsNode ''T'' ''T''] ''{T}'')] 0 ''T'',
      EnvNode ''document'' [] [MacroNode ''author'' [] 5 ''a'', CharsNode ''[1]'' ''[1]'', GroupNode (''{'', ''}'') [CharsNode ''A'' ''A''] ''{A}'',
        EnvNode ''claim'' [] [CharsNode ''c'' ''c''] 9 ''claim''] 3 ''doc'']"

theorem environments_found_witness:
  "case parse_tex (\<lambda>_. example_nodes) [] of Inl _ \<Rightarrow> False
     | Inr d \<Rightarrow> tf_envs d = sort_key te_offset (visible example_nodes) \<and> map te_name (tf_envs d) = [''claim'']"
proof -
  have "(case parse_tex (\<lambda>_. example_nodes) [] of Inl _ \<Rightarrow> False | Inr _ \<Rightarrow> True)" by code_simp
  then obtain d where d: "parse_tex (\<lambda>_. example_nodes) [] = Inr d" by (auto split: sum.splits)
  have "map te_name (sort_key te_offset (visible example_nodes)) = [''claim'']" by code_simp
  with environments_found [OF d] d show ?thesis by simp
qed

text \<open>A superscript digit as the number of an affiliation stops the parser.\<close>

lemma superscript_raises:
  "walk [MacroNode ''author'' [Some (GroupNode (''['', '']'') [CharsNode [char_of (178 :: nat)] [char_of (178 :: nat)]] [])] 0 []] nothing_found = Inl ValueError"
  by code_simp

end
