(* ===== verification/Seed_Store.thy ===== *)
theory Seed_Store
  imports Submissions Tex_Inputs Store_Refinement
begin

text \<open>
  Loading a corpus of structures into a store: \<open>rrxiv seed-store\<close> (\<open>cli/seed.py\<close>) and the first
  boot of \<open>rrxiv serve\<close> (\<open>cli/serve.py\<close>). The directory tree, the JSON decoder, the clock and
  the progress output are parameters or left out. \<open>shared\<close> says whether the store keeps the
  objects it is given, as the one in memory does, or a copy, as the one on disk: the loader
  changes the claims of a structure after it has stored the structure.
\<close>

record seed_fs =
  sf_content :: "path \<Rightarrow> bytes option"
  sf_entries :: "path \<Rightarrow> string list option"

datatype decoded = BadText | BadJson | Decoded pyval

record seed_env =
  sd_fs :: seed_fs
  sd_decode :: "bytes \<Rightarrow> decoded"
  sd_today :: string
  sd_year :: nat
  sd_month :: nat

definition is_file :: "seed_fs \<Rightarrow> path \<Rightarrow> bool" where
  "is_file fs p \<longleftrightarrow> sf_content fs p \<noteq> None"

definition is_dir :: "seed_fs \<Rightarrow> path \<Rightarrow> bool" where
  "is_dir fs p \<longleftrightarrow> sf_entries fs p \<noteq> None"

section \<open>Discovery\<close>

definition is_paper_repo_root :: "seed_fs \<Rightarrow> path \<Rightarrow> bool" where
  "is_paper_repo_root fs p \<longleftrightarrow> is_file fs (p @ [''paper'', ''main.tex'']) \<and> is_file fs (p @ [''rrxiv-meta.json''])"

definition repo_cir :: "seed_fs \<Rightarrow> path \<Rightarrow> path" where
  "repo_cir fs rt =
     (let built = rt @ [''build'', ''main.cir.json'']
      in if is_file fs built then built else rt @ [''rrxiv-meta.json''])"

definition cir_of_entry :: "seed_fs \<Rightarrow> path \<Rightarrow> path option" where
  "cir_of_entry fs p =
     (if is_file fs p \<and> endswith (path_name p) ''.cir.json'' then Some p
      else if is_dir fs p \<and> is_file fs (p @ [''cir.json'']) then Some (p @ [''cir.json''])
      else if is_dir fs p \<and> is_paper_repo_root fs p then Some (repo_cir fs p)
      else None)"

definition iter_cir_files :: "seed_fs \<Rightarrow> path \<Rightarrow> path list" where
  "iter_cir_files fs rt =
     (if is_paper_repo_root fs rt then [repo_cir fs rt]
      else case sf_entries fs rt of
          None \<Rightarrow> []
        | Some names \<Rightarrow> List.map_filter (\<lambda>n. cir_of_entry fs (rt @ [n])) (sort names))"

definition paper_repo_root :: "seed_fs \<Rightarrow> path \<Rightarrow> path option" where
  "paper_repo_root fs p =
     (if path_name p = ''main.cir.json'' \<and> path_name (butlast p) = ''build'' \<and> is_paper_repo_root fs (butlast (butlast p))
      then Some (butlast (butlast p))
      else if path_name p = ''rrxiv-meta.json'' \<and> is_paper_repo_root fs (butlast p) then Some (butlast p)
      else None)"

fun first_file :: "seed_fs \<Rightarrow> path list \<Rightarrow> bytes option" where
  "first_file fs [] = None"
| "first_file fs (p # ps) = (case sf_content fs p of Some b \<Rightarrow> Some b | None \<Rightarrow> first_file fs ps)"

text \<open>\<open>name[: -len(".cir.json")]\<close>.\<close>

definition cir_stem :: "path \<Rightarrow> string" where
  "cir_stem p = take (length (path_name p) - 9) (path_name p)"

definition sibling_source :: "seed_fs \<Rightarrow> path \<Rightarrow> bytes option" where
  "sibling_source fs p =
     (case paper_repo_root fs p of
        Some rt \<Rightarrow> first_file fs [rt @ [''build'', ''source.tar.gz''], rt @ [''build'', ''main.source.tar.gz'']]
      | None \<Rightarrow>
          if path_name (butlast p) \<noteq> [] \<and> path_name p = ''cir.json''
          then first_file fs [butlast p @ [''source.tar.gz''], butlast p @ [''source.tgz'']]
          else first_file fs [butlast p @ [cir_stem p @ ''.source.tar.gz''], butlast p @ [cir_stem p @ ''.tar.gz'']])"

definition sibling_pdf :: "seed_fs \<Rightarrow> path \<Rightarrow> bytes option" where
  "sibling_pdf fs p =
     (case paper_repo_root fs p of
        Some rt \<Rightarrow> first_file fs [rt @ [''build'', ''main.pdf'']]
      | None \<Rightarrow>
          if path_name p = ''cir.json'' then first_file fs [butlast p @ [''paper.pdf''], butlast p @ [''rendered.pdf'']]
          else first_file fs [butlast p @ [cir_stem p @ ''.pdf''], butlast p @ [cir_stem p @ ''.rendered.pdf'']])"

section \<open>Reading a structure\<close>

text \<open>
  \<open>OddKey\<close>: an id or a slug that is neither falsy nor a string. The tables of the model have
  strings for keys, so what the store would do with it is left out.
\<close>

datatype seed_error = NoSuchFile | NotUtf8 | NotJson | OddKey | SeedRaised pyexn

definition seed_raise :: "pyexn + 'a \<Rightarrow> seed_error + 'a" where
  "seed_raise r = (case r of Inl e \<Rightarrow> Inl (SeedRaised e) | Inr a \<Rightarrow> Inr a)"

definition read_json :: "seed_env \<Rightarrow> path \<Rightarrow> seed_error + pyval" where
  "read_json env p =
     (case sf_content (sd_fs env) p of
        None \<Rightarrow> Inl NoSuchFile
      | Some b \<Rightarrow> (case sd_decode env b of BadText \<Rightarrow> Inl NotUtf8 | BadJson \<Rightarrow> Inl NotJson | Decoded v \<Rightarrow> Inr v))"

definition as_object :: "pyval \<Rightarrow> seed_error + pydict" where
  "as_object v = (case v of PDict d \<Rightarrow> Inr d | _ \<Rightarrow> Inl (SeedRaised AttributeError))"

definition meta_id :: "path \<Rightarrow> pydict \<Rightarrow> pyval" where
  "meta_id p cir = py_or (py_or (dget cir ''id'') (dget cir ''id_slug'')) (PStr (path_name (butlast p)))"

definition seed_paper_id :: "seed_env \<Rightarrow> path \<Rightarrow> seed_error + string option" where
  "seed_paper_id env p =
     (case read_json env p of
        Inl NoSuchFile \<Rightarrow> Inr None
      | Inl NotJson \<Rightarrow> Inr None
      | Inl e \<Rightarrow> Inl e
      | Inr v \<Rightarrow>
          rbind (as_object v) (\<lambda>cir.
            let pid = (if path_name p = ''rrxiv-meta.json'' then meta_id p cir else dget cir ''id'')
            in Inr (if truthy pid then Some (py_str pid) else None)))"

definition promote_meta :: "seed_env \<Rightarrow> path \<Rightarrow> pydict \<Rightarrow> pydict" where
  "promote_meta env p cir =
     (let d = dict_setdefault ''id'' (meta_id p cir) cir;
          d = foldl (\<lambda>d k. dict_setdefault k (PList []) d) d [''claims'', ''annotations'', ''citations'', ''sections'', ''figures''];
          d = dict_setdefault ''source'' (PDict [(''format'', PStr ''latex''), (''uri'', PNone)]) d
      in dict_setdefault ''submitted_at'' (PStr (sd_today env)) d)"

text \<open>The structure with its slug, minted when it has none, and whether it was minted.\<close>

definition with_slug :: "seed_env \<Rightarrow> pydict list \<Rightarrow> pydict \<Rightarrow> seed_error + pydict \<times> string \<times> nat" where
  "with_slug env papers cir =
     (if \<not> truthy (dget cir ''id_slug'') then
        rbind (seed_raise (mint_slug papers (sd_year env) (sd_month env))) (\<lambda>slug. Inr (dict_set ''id_slug'' (PStr slug) cir, slug, 1))
      else case dget cir ''id_slug'' of PStr slug \<Rightarrow> Inr (cir, slug, 0) | _ \<Rightarrow> Inl OddKey)"

text \<open>What will be stored and under which id, or nothing when the file has no id.\<close>

definition read_seed :: "seed_env \<Rightarrow> path \<Rightarrow> pydict list \<Rightarrow> seed_error + (string \<times> string \<times> pydict \<times> nat) option" where
  "read_seed env p papers =
     rbind (read_json env p) (\<lambda>v.
     rbind (as_object v) (\<lambda>cir.
       let cir = (if path_name p = ''rrxiv-meta.json'' then promote_meta env p cir else cir)
       in if \<not> truthy (dget cir ''id'') then Inr None
          else case dget cir ''id'' of
              PStr pid \<Rightarrow>
                rbind (with_slug env papers cir) (\<lambda>(cir, slug, minted).
                rbind (seed_raise (canonicalise_claim_ids cir slug)) (\<lambda>(cir, rewrites). Inr (Some (pid, slug, cir, minted))))
            | _ \<Rightarrow> Inl OddKey))"

section \<open>Loading\<close>

text \<open>\<open>cir.setdefault("source", {})\<close>, then the address and the default format.\<close>

definition stamp_source :: "string \<Rightarrow> string \<Rightarrow> pydict \<Rightarrow> pyexn + pydict" where
  "stamp_source k uri cir =
     (let cir = dict_setdefault ''source'' (PDict []) cir
      in case dget cir ''source'' of
           PDict d \<Rightarrow> Inr (dict_set ''source'' (PDict (dict_setdefault ''format'' (PStr ''latex'') (dict_set k (PStr uri) d))) cir)
         | _ \<Rightarrow> Inl TypeError)"

text \<open>The loop over the claims, with the claims as the loop leaves them.\<close>

fun load_claims :: "string \<Rightarrow> pyval list \<Rightarrow> store_state \<Rightarrow> (pyexn + nat) \<times> pyval list \<times> store_state" where
  "load_claims owner [] s = (Inr 0, [], s)"
| "load_claims owner (v # vs) s =
     (case v of
        PDict c \<Rightarrow>
          let c' = dict_set ''paper_id'' (PStr owner) c
          in (case add_claim c' s of
                Inl e \<Rightarrow> (Inl e, PDict c' # vs, s)
              | Inr s' \<Rightarrow>
                  (case load_claims owner vs s' of
                     (r, ws, s'') \<Rightarrow> (rbind r (\<lambda>n. Inr (Suc n)), PDict c' # ws, s'')))
      | _ \<Rightarrow> (Inl TypeError, v # vs, s))"

fun load_annotations :: "pyval list \<Rightarrow> store_state \<Rightarrow> (pyexn + nat) \<times> store_state" where
  "load_annotations [] s = (Inr 0, s)"
| "load_annotations (v # vs) s =
     (case v of
        PDict a \<Rightarrow>
          (case add_annotation a s of
             Inl e \<Rightarrow> (Inl e, s)
           | Inr s' \<Rightarrow> (case load_annotations vs s' of (r, s'') \<Rightarrow> (rbind r (\<lambda>n. Inr (Suc n)), s'')))
      | _ \<Rightarrow> (Inl TypeError, s))"

text \<open>A structure in memory shares its claims with the loop.\<close>

definition share_claims :: "bool \<Rightarrow> string \<Rightarrow> pyval list \<Rightarrow> store_state \<Rightarrow> store_state" where
  "share_claims shared pid claims s =
     (case get_cir s pid of
        Some cir \<Rightarrow>
          if shared \<and> is_list (dget cir ''claims'')
          then s\<lparr>st_cirs := dict_set pid (dict_set ''claims'' (PList claims) cir) (st_cirs s)\<rparr> else s
      | None \<Rightarrow> s)"

record load_counts =
  lc_paper_id :: string
  lc_slug :: string
  lc_claims :: nat
  lc_annotations :: nat
  lc_sources :: nat
  lc_pdfs :: nat
  lc_slugs_minted :: nat

definition save_files ::
  "seed_fs \<Rightarrow> path \<Rightarrow> string \<Rightarrow> pydict \<Rightarrow> store_state \<Rightarrow> (pyexn + pydict \<times> nat \<times> nat) \<times> store_state" where
  "save_files fs p pid cir s =
     (case (case sibling_source fs p of
              None \<Rightarrow> (Inr (cir, 0), s)
            | Some b \<Rightarrow> (case save_source pid b s of (uri, s') \<Rightarrow> (rbind (stamp_source ''uri'' uri cir) (\<lambda>c. Inr (c, 1)), s'))) of
        (Inl e, s1) \<Rightarrow> (Inl e, s1)
      | (Inr (cir1, sources), s1) \<Rightarrow>
          (case sibling_pdf fs p of
             None \<Rightarrow> (Inr (cir1, sources, 0), s1)
           | Some b \<Rightarrow>
               (case save_rendered_pdf pid b s1 of
                  (uri, s2) \<Rightarrow> (rbind (stamp_source ''rendered_pdf_uri'' uri cir1) (\<lambda>c. Inr (c, sources, 1)), s2))))"

text \<open>The records of a structure: the paper, the structure, its claims, its annotations.\<close>

definition store_records :: "bool \<Rightarrow> string \<Rightarrow> string \<Rightarrow> pydict \<Rightarrow> store_state \<Rightarrow> (pyexn + nat \<times> nat) \<times> store_state" where
  "store_records shared pid owner cir s =
     (case rbind (add_paper (paper_metadata cir) s) (add_cir cir) of
        Inl e \<Rightarrow> (Inl e, s)
      | Inr s1 \<Rightarrow>
          (case py_iter (py_or (dget cir ''claims'') (PList [])) of
             Inl e \<Rightarrow> (Inl e, s1)
           | Inr claims \<Rightarrow>
               (case load_claims owner claims s1 of
                  (r, claims', s2) \<Rightarrow>
                    let s3 = share_claims shared pid claims' s2
                    in (case r of
                          Inl e \<Rightarrow> (Inl e, s3)
                        | Inr n \<Rightarrow>
                            (case py_iter (py_or (dget cir ''annotations'') (PList [])) of
                               Inl e \<Rightarrow> (Inl e, s3)
                             | Inr anns \<Rightarrow>
                                 (case load_annotations anns s3 of (r, s4) \<Rightarrow> (rbind r (\<lambda>m. Inr (n, m)), s4)))))))"

definition load_cir_into_store ::
  "bool \<Rightarrow> seed_env \<Rightarrow> path \<Rightarrow> store_state \<Rightarrow> (seed_error + load_counts option) \<times> store_state" where
  "load_cir_into_store shared env p s =
     (case read_seed env p (list_papers s) of
        Inl e \<Rightarrow> (Inl e, s)
      | Inr None \<Rightarrow> (Inr None, s)
      | Inr (Some (pid, slug, cir, minted)) \<Rightarrow>
          (case save_files (sd_fs env) p pid cir s of
             (Inl e, s1) \<Rightarrow> (Inl (SeedRaised e), s1)
           | (Inr (cir', sources, pdfs), s1) \<Rightarrow>
               (case store_records shared pid slug cir' s1 of
                  (Inl e, s2) \<Rightarrow> (Inl (SeedRaised e), s2)
                | (Inr (n, m), s2) \<Rightarrow>
                    (Inr (Some \<lparr>lc_paper_id = pid, lc_slug = slug, lc_claims = n, lc_annotations = m, lc_sources = sources,
                            lc_pdfs = pdfs, lc_slugs_minted = minted\<rparr>), s2))))"

section \<open>The commands\<close>

fun load_files :: "bool \<Rightarrow> seed_env \<Rightarrow> path list \<Rightarrow> store_state \<Rightarrow> (seed_error + load_counts list) \<times> store_state" where
  "load_files shared env [] s = (Inr [], s)"
| "load_files shared env (p # ps) s =
     (case load_cir_into_store shared env p s of
        (Inl e, s') \<Rightarrow> (Inl e, s')
      | (Inr c, s') \<Rightarrow>
          (case load_files shared env ps s' of
             (r, s'') \<Rightarrow> (rbind r (\<lambda>cs. Inr (case c of Some x \<Rightarrow> x # cs | None \<Rightarrow> cs)), s'')))"

datatype seed_exit = NotADirectory | Exclusive | NothingFound | Crashed seed_error | Loaded "load_counts list"

text \<open>A replacement that raises ends the command before the store on disk has committed it.\<close>

definition replace_seeds :: "seed_env \<Rightarrow> path list \<Rightarrow> store_state \<Rightarrow> seed_error + store_state" where
  "replace_seeds env files s =
     rbind (rmap (seed_paper_id env) files) (\<lambda>ids.
       seed_raise (replace_seed_papers (List.map_filter id ids) s))"

definition seed_store_cmd :: "bool \<Rightarrow> seed_env \<Rightarrow> path \<Rightarrow> bool \<Rightarrow> bool \<Rightarrow> store_state \<Rightarrow> seed_exit \<times> store_state" where
  "seed_store_cmd shared env rt reset preserve_community s =
     (if \<not> is_dir (sd_fs env) rt then (NotADirectory, s)
      else if reset \<and> preserve_community then (Exclusive, s)
      else
        let s1 = (if reset then clear_corpus s else s); files = iter_cir_files (sd_fs env) rt
        in case (if preserve_community \<and> files \<noteq> [] then replace_seeds env files s1 else Inr s1) of
             Inl e \<Rightarrow> (Crashed e, s1)
           | Inr s2 \<Rightarrow>
               if files = [] then (NothingFound, s2)
               else (case load_files shared env files s2 of
                       (Inl e, s3) \<Rightarrow> (Crashed e, s3) | (Inr cs, s3) \<Rightarrow> (Loaded cs, s3)))"

text \<open>The first boot: only an empty store is seeded.\<close>

definition boot_seed :: "bool \<Rightarrow> seed_env \<Rightarrow> path \<Rightarrow> store_state \<Rightarrow> (seed_error + nat) \<times> store_state" where
  "boot_seed shared env rt s =
     (if \<not> is_dir (sd_fs env) rt \<or> list_papers s \<noteq> [] then (Inr 0, s)
      else case load_files shared env (iter_cir_files (sd_fs env) rt) s of
          (r, s') \<Rightarrow> (rbind r (\<lambda>cs. Inr (length cs)), s'))"


section \<open>What a load touches\<close>

definition same_corpus_at :: "string \<Rightarrow> store_state \<Rightarrow> store_state \<Rightarrow> bool" where
  "same_corpus_at i s t \<longleftrightarrow> get_paper t i = get_paper s i \<and> get_cir t i = get_cir s i \<and>
     load_source t i = load_source s i \<and> load_rendered_pdf t i = load_rendered_pdf s i"

definition only_adds :: "store_state \<Rightarrow> store_state \<Rightarrow> bool" where
  "only_adds s t \<longleftrightarrow> (\<forall>c. get_claim s c \<noteq> None \<longrightarrow> get_claim t c \<noteq> None) \<and>
     (\<forall>a. get_annotation s a \<noteq> None \<longrightarrow> get_annotation t a \<noteq> None)"

definition same_access :: "store_state \<Rightarrow> store_state \<Rightarrow> bool" where
  "same_access s t \<longleftrightarrow> st_tokens t = st_tokens s \<and> st_agents t = st_agents s \<and> st_orcid_keys t = st_orcid_keys s \<and>
     st_challenges t = st_challenges s \<and> st_paste_codes t = st_paste_codes s \<and> st_idempotency t = st_idempotency s \<and>
     st_latest_snapshot t = st_latest_snapshot s"

definition touches :: "string set \<Rightarrow> store_state \<Rightarrow> store_state \<Rightarrow> bool" where
  "touches P s t \<longleftrightarrow> (\<forall>i. i \<notin> P \<longrightarrow> same_corpus_at i s t) \<and> only_adds s t \<and> same_access s t"

lemmas touches_defs = touches_def same_corpus_at_def only_adds_def same_access_def

lemma touches_refl: "touches P s s"
  by (simp add: touches_defs)

lemma touches_trans: "touches P s t \<Longrightarrow> touches P t u \<Longrightarrow> touches P s u"
  by (simp add: touches_defs)

lemma touches_mono: "touches P s t \<Longrightarrow> P \<subseteq> Q \<Longrightarrow> touches Q s t"
  by (auto simp: touches_def)

lemma touches_claim: "add_claim c s = Inr t \<Longrightarrow> touches P s t"
  by (auto simp: add_claim_def rbind_Inr_iff touches_defs get_paper_def get_cir_def load_source_def
      load_rendered_pdf_def get_claim_def get_annotation_def)

lemma touches_annotation: "add_annotation a s = Inr t \<Longrightarrow> touches P s t"
  by (auto simp: add_annotation_def rbind_Inr_iff touches_defs get_paper_def get_cir_def load_source_def
      load_rendered_pdf_def get_claim_def get_annotation_def)

lemma touches_load_claims: "load_claims owner vs s = (r, ws, t) \<Longrightarrow> touches P s t"
proof (induction vs arbitrary: s r ws t)
  case Nil
  then show ?case by (simp add: touches_refl)
next
  case (Cons v vs)
  from Cons.prems show ?case
    by (auto simp: Let_def touches_refl split: pyval.splits sum.splits prod.splits
        intro: touches_trans [OF touches_claim Cons.IH])
qed

lemma touches_load_annotations: "load_annotations vs s = (r, t) \<Longrightarrow> touches P s t"
proof (induction vs arbitrary: s r t)
  case Nil
  then show ?case by (simp add: touches_refl)
next
  case (Cons v vs)
  from Cons.prems show ?case
    by (auto simp: touches_refl split: pyval.splits sum.splits prod.splits
        intro: touches_trans [OF touches_annotation Cons.IH])
qed

lemma touches_share: "touches {pid} s (share_claims shared pid ws s)"
  by (auto simp: share_claims_def touches_defs get_paper_def get_cir_def load_source_def
      load_rendered_pdf_def get_claim_def get_annotation_def split: option.splits)

lemma touches_files: "save_files fs p pid cir s = (r, t) \<Longrightarrow> touches {pid} s t"
  by (auto simp: save_files_def touches_defs get_paper_def get_cir_def load_source_def save_source_def
      save_rendered_pdf_def load_rendered_pdf_def get_claim_def get_annotation_def
      split: option.splits sum.splits prod.splits)

lemma touches_paper:
  assumes "rbind (add_paper (paper_metadata cir) s) (add_cir cir) = Inr t" "dget cir ''id'' = PStr pid"
  shows "touches {pid} s t"
proof -
  have "dict_get (paper_metadata cir) ''id'' = dict_get cir ''id''"
    by (induction cir) (auto simp: paper_metadata_def)
  with assms show ?thesis
    by (auto simp: add_paper_def add_cir_def rbind_Inr_iff item_id_def dget_def touches_defs get_paper_def get_cir_def
        load_source_def load_rendered_pdf_def get_claim_def get_annotation_def split: option.splits pyval.splits)
qed

lemma touches_records:
  assumes "store_records shared pid owner cir s = (r, t)" "dget cir ''id'' = PStr pid"
  shows "touches {pid} s t"
proof -
  have "touches {pid} s (share_claims shared pid ws s2)"
    if "rbind (add_paper (paper_metadata cir) s) (add_cir cir) = Inr s1" "load_claims owner vs s1 = (q, ws, s2)" for s1 s2 vs q ws
    using that assms(2) by (meson touches_paper touches_load_claims touches_share touches_trans)
  with assms(1) show ?thesis
    by (auto simp: store_records_def Let_def touches_refl split: sum.splits prod.splits
        intro: touches_paper [OF _ assms(2)] dest!: touches_load_annotations [of _ _ _ _ "{pid}"] elim!: touches_trans [rotated])
qed

section \<open>The id of a load\<close>

lemma seed_raise_Inr [simp]: "seed_raise r = Inr a \<longleftrightarrow> r = Inr a"
  by (simp add: seed_raise_def split: sum.splits)

lemma stamp_source_id: "stamp_source k uri cir = Inr c \<Longrightarrow> dget c ''id'' = dget cir ''id''"
  by (auto simp: stamp_source_def Let_def dict_setdefault_def split: pyval.splits if_splits)

lemma save_files_id: "save_files fs p pid cir s = (Inr (c, m, n), t) \<Longrightarrow> dget c ''id'' = dget cir ''id''"
  by (auto simp: save_files_def rbind_Inr_iff split: option.splits sum.splits prod.splits dest!: stamp_source_id)

lemma canonical_id: "canonicalise_claim_ids cir owner = Inr (c, n) \<Longrightarrow> dget c ''id'' = dget cir ''id''"
  by (auto simp: canonicalise_claim_ids_def Let_def rbind_Inr_iff split: if_splits)

lemma with_slug_id: "with_slug env papers cir = Inr (c, slug, n) \<Longrightarrow> dget c ''id'' = dget cir ''id''"
  by (auto simp: with_slug_def rbind_Inr_iff split: if_splits pyval.splits)

lemma dget_setdefault_cases:
  "dget (dict_setdefault k v d) k' = (if k' = k \<and> \<not> dict_has d k then v else dget d k')"
  by (simp add: dict_setdefault_def)

lemma promote_id:
  "dget (promote_meta env p cir) ''id'' = (if dict_has cir ''id'' then dget cir ''id'' else meta_id p cir)"
  by (simp add: promote_meta_def Let_def dget_setdefault_cases)

lemma read_seed_id:
  assumes "read_seed env p papers = Inr (Some (pid, slug, cir, minted))"
  shows "dget cir ''id'' = PStr pid" "seed_paper_id env p = Inr (Some pid)"
proof -
  show "dget cir ''id'' = PStr pid"
    using assms by (auto simp: read_seed_def rbind_Inr_iff Let_def split: if_splits pyval.splits prod.splits
        dest!: canonical_id with_slug_id)
  from assms show "seed_paper_id env p = Inr (Some pid)"
    by (auto simp: read_seed_def seed_paper_id_def rbind_Inr_iff Let_def promote_id meta_id_def py_or_def
        split: if_splits pyval.splits prod.splits)
qed

lemma touches_load:
  assumes "load_cir_into_store shared env p s = (r, t)"
  shows "touches {pid. seed_paper_id env p = Inr (Some pid)} s t"
proof (cases "read_seed env p (list_papers s)")
  case (Inr x)
  show ?thesis
  proof (cases x)
    case (Some y)
    then obtain pid slug cir minted where y: "y = (pid, slug, cir, minted)" by (cases y)
    note id = read_seed_id [OF Inr [unfolded Some y]]
    have "touches {pid} s t"
      if "save_files (sd_fs env) p pid cir s = (Inr (c, m, n), s1)" "store_records shared pid slug c s1 = (q, t)" for c m n s1 q
      using save_files_id [OF that(1)] id(1) touches_trans [OF touches_files [OF that(1)] touches_records [OF that(2)]] by simp
    then have "touches {pid} s t"
      using assms Inr Some y
      by (auto simp: load_cir_into_store_def touches_files split: sum.splits prod.splits)
    with id(2) show ?thesis by (auto elim: touches_mono)
  qed (use assms Inr in \<open>auto simp: load_cir_into_store_def touches_refl\<close>)
qed (use assms in \<open>auto simp: load_cir_into_store_def touches_refl\<close>)

definition seeded_ids :: "seed_env \<Rightarrow> path list \<Rightarrow> string set" where
  "seeded_ids env ps = {pid. \<exists>p \<in> set ps. seed_paper_id env p = Inr (Some pid)}"

lemma touches_load_files: "load_files shared env ps s = (r, t) \<Longrightarrow> touches (seeded_ids env ps) s t"
proof (induction ps arbitrary: s r)
  case (Cons p ps)
  have step: "touches (seeded_ids env (p # ps)) s u" if "load_cir_into_store shared env p s = (q, u)" for q u
    using touches_load [OF that] by (rule touches_mono) (auto simp: seeded_ids_def)
  have rest: "touches (seeded_ids env (p # ps)) u t" if "load_files shared env ps u = (q, t)" for q u
    using Cons.IH [OF that] by (rule touches_mono) (auto simp: seeded_ids_def)
  from Cons.prems show ?case
    by (auto split: sum.splits prod.splits dest: step intro: touches_trans [OF step rest])
qed (simp add: touches_refl)

section \<open>The rows a load writes\<close>

text \<open>
  The claims and annotations a file may write, by their ids: those of the structure it is read as,
  whatever papers are stored when the load reads it (a minted slug depends on them).
\<close>

definition file_lists :: "string \<Rightarrow> seed_env \<Rightarrow> path \<Rightarrow> string \<Rightarrow> bool" where
  "file_lists k env p c \<longleftrightarrow> (\<exists>papers pid slug cir minted vs d. read_seed env p papers = Inr (Some (pid, slug, cir, minted)) \<and>
     py_iter (py_or (dget cir k) (PList [])) = Inr vs \<and> PDict d \<in> set vs \<and> dget d ''id'' = PStr c)"

definition lists_none :: "pyval list \<Rightarrow> string \<Rightarrow> bool" where
  "lists_none vs c \<longleftrightarrow> (\<forall>d. PDict d \<in> set vs \<longrightarrow> dget d ''id'' \<noteq> PStr c)"

lemma item_id_Inr: "item_id d = Inr i \<Longrightarrow> dget d ''id'' = PStr i"
  by (auto simp: item_id_def dget_def split: option.splits pyval.splits)

lemma load_claims_others:
  assumes "load_claims owner vs s = (r, ws, t)"
  shows "lists_none vs c \<longrightarrow> get_claim t c = get_claim s c" "get_annotation t a = get_annotation s a"
proof -
  have "(lists_none vs c \<longrightarrow> get_claim t c = get_claim s c) \<and> get_annotation t a = get_annotation s a"
    using assms
  proof (induction vs arbitrary: s r ws t)
    case (Cons v vs)
    have step: "(dget d ''id'' \<noteq> PStr c \<longrightarrow> get_claim u c = get_claim s c) \<and> get_annotation u a = get_annotation s a"
      if "add_claim (dict_set ''paper_id'' (PStr owner) d) s = Inr u" for d u
      using that by (auto simp: add_claim_def rbind_Inr_iff get_claim_def get_annotation_def dest!: item_id_Inr)
    from Cons.prems show ?case
      by (auto simp: Let_def lists_none_def split: pyval.splits sum.splits prod.splits dest!: step Cons.IH)
  qed simp
  then show "lists_none vs c \<longrightarrow> get_claim t c = get_claim s c" "get_annotation t a = get_annotation s a" by simp_all
qed

lemma load_annotations_others:
  assumes "load_annotations vs s = (r, t)"
  shows "lists_none vs a \<longrightarrow> get_annotation t a = get_annotation s a" "get_claim t c = get_claim s c"
proof -
  have "(lists_none vs a \<longrightarrow> get_annotation t a = get_annotation s a) \<and> get_claim t c = get_claim s c"
    using assms
  proof (induction vs arbitrary: s r t)
    case (Cons v vs)
    have step: "(dget d ''id'' \<noteq> PStr a \<longrightarrow> get_annotation u a = get_annotation s a) \<and> get_claim u c = get_claim s c"
      if "add_annotation d s = Inr u" for d u
      using that by (auto simp: add_annotation_def rbind_Inr_iff get_claim_def get_annotation_def dest!: item_id_Inr)
    from Cons.prems show ?case
      by (auto simp: lists_none_def split: pyval.splits sum.splits prod.splits dest!: step Cons.IH)
  qed simp
  then show "lists_none vs a \<longrightarrow> get_annotation t a = get_annotation s a" "get_claim t c = get_claim s c" by simp_all
qed

lemma share_others: "get_claim (share_claims shared pid ws s) c = get_claim s c"
  "get_annotation (share_claims shared pid ws s) a = get_annotation s a"
  by (auto simp: share_claims_def get_claim_def get_annotation_def split: option.split)

lemma paper_others:
  assumes "rbind (add_paper (paper_metadata cir) s) (add_cir cir) = Inr t"
  shows "get_claim t c = get_claim s c" "get_annotation t a = get_annotation s a"
  using assms by (auto simp: add_paper_def add_cir_def rbind_Inr_iff get_claim_def get_annotation_def)

lemma files_others:
  assumes "save_files fs p pid cir s = (r, t)"
  shows "get_claim t c = get_claim s c" "get_annotation t a = get_annotation s a"
  using assms by (auto simp: save_files_def save_source_def save_rendered_pdf_def get_claim_def get_annotation_def
      split: option.splits sum.splits prod.splits)

lemma store_records_others:
  assumes "store_records shared pid owner cir s = (r, t)"
  shows "(\<forall>vs. py_iter (py_or (dget cir ''claims'') (PList [])) = Inr vs \<longrightarrow> lists_none vs c) \<longrightarrow> get_claim t c = get_claim s c"
    "(\<forall>vs. py_iter (py_or (dget cir ''annotations'') (PList [])) = Inr vs \<longrightarrow> lists_none vs a) \<longrightarrow> get_annotation t a = get_annotation s a"
proof -
  have claims: "(lists_none vs c \<longrightarrow> get_claim u c = get_claim s c) \<and> get_annotation u a = get_annotation s a"
    if "rbind (add_paper (paper_metadata cir) s) (add_cir cir) = Inr s1" "load_claims owner vs s1 = (q, ws, u)" for s1 vs q ws u
    using load_claims_others(1) [OF that(2), of c] load_claims_others(2) [OF that(2), of a] paper_others(1) [OF that(1), of c]
      paper_others(2) [OF that(1), of a] by simp
  have kept_notes: "(lists_none ns a \<longrightarrow> get_annotation t a = get_annotation u a) \<and> get_claim t c = get_claim u c"
    if "load_annotations ns (share_claims shared pid ws u) = (q, t)" for ns ws u q
    using load_annotations_others(1) [OF that, of a] load_annotations_others(2) [OF that, of c] by (simp add: share_others)
  show "(\<forall>vs. py_iter (py_or (dget cir ''claims'') (PList [])) = Inr vs \<longrightarrow> lists_none vs c) \<longrightarrow> get_claim t c = get_claim s c"
    "(\<forall>vs. py_iter (py_or (dget cir ''annotations'') (PList [])) = Inr vs \<longrightarrow> lists_none vs a) \<longrightarrow> get_annotation t a = get_annotation s a"
    using assms
    by (auto simp: store_records_def Let_def share_others paper_others split: sum.splits prod.splits dest!: claims kept_notes)
qed

lemma stamp_source_lists: "stamp_source k uri cir = Inr c \<Longrightarrow> f \<noteq> ''source'' \<Longrightarrow> dget c f = dget cir f"
  by (auto simp: stamp_source_def Let_def dict_setdefault_def split: pyval.splits if_splits)

lemma save_files_lists:
  assumes "save_files fs p pid cir s = (Inr (c, m, n), t)" "f \<noteq> ''source''"
  shows "dget c f = dget cir f"
  using assms by (auto simp: save_files_def rbind_Inr_iff split: option.splits sum.splits prod.splits dest!: stamp_source_lists)

lemma load_others:
  assumes "load_cir_into_store shared env p s = (r, t)"
  shows "\<not> file_lists ''claims'' env p c \<longrightarrow> get_claim t c = get_claim s c"
    "\<not> file_lists ''annotations'' env p a \<longrightarrow> get_annotation t a = get_annotation s a"
proof -
  consider "t = s" | pid slug cir minted q u where "read_seed env p (list_papers s) = Inr (Some (pid, slug, cir, minted))"
      "save_files (sd_fs env) p pid cir s = (q, u)" "t = u"
    | pid slug cir minted c' m n u x where "read_seed env p (list_papers s) = Inr (Some (pid, slug, cir, minted))"
      "save_files (sd_fs env) p pid cir s = (Inr (c', m, n), u)" "store_records shared pid slug c' u = (x, t)"
    using assms by (auto simp: load_cir_into_store_def split: sum.splits option.splits prod.splits)
  then have "(\<not> file_lists ''claims'' env p c \<longrightarrow> get_claim t c = get_claim s c) \<and>
    (\<not> file_lists ''annotations'' env p a \<longrightarrow> get_annotation t a = get_annotation s a)"
  proof cases
    case 2
    then show ?thesis by (simp add: files_others [OF 2(2)])
  next
    case 3
    have lists: "dget c' ''claims'' = dget cir ''claims''" "dget c' ''annotations'' = dget cir ''annotations''"
      by (rule save_files_lists [OF 3(2)]; simp)+
    have "lists_none vs c" if "\<not> file_lists ''claims'' env p c" "py_iter (py_or (dget c' ''claims'') (PList [])) = Inr vs" for vs
      using that 3(1) lists by (force simp: file_lists_def lists_none_def)
    moreover have "lists_none vs a" if "\<not> file_lists ''annotations'' env p a" "py_iter (py_or (dget c' ''annotations'') (PList [])) = Inr vs" for vs
      using that 3(1) lists by (force simp: file_lists_def lists_none_def)
    ultimately show ?thesis using store_records_others(1) [OF 3(3), of c] store_records_others(2) [OF 3(3), of a] by (auto simp: files_others [OF 3(2)])
  qed simp
  then show "\<not> file_lists ''claims'' env p c \<longrightarrow> get_claim t c = get_claim s c"
    "\<not> file_lists ''annotations'' env p a \<longrightarrow> get_annotation t a = get_annotation s a" by simp_all
qed

lemma load_files_others:
  assumes "load_files shared env ps s = (r, t)"
  shows "(\<forall>p \<in> set ps. \<not> file_lists ''claims'' env p c) \<longrightarrow> get_claim t c = get_claim s c"
    "(\<forall>p \<in> set ps. \<not> file_lists ''annotations'' env p a) \<longrightarrow> get_annotation t a = get_annotation s a"
proof -
  have "((\<forall>p \<in> set ps. \<not> file_lists ''claims'' env p c) \<longrightarrow> get_claim t c = get_claim s c) \<and>
    ((\<forall>p \<in> set ps. \<not> file_lists ''annotations'' env p a) \<longrightarrow> get_annotation t a = get_annotation s a)"
    using assms
  proof (induction ps arbitrary: s r)
    case (Cons p ps)
    obtain q u where u: "load_cir_into_store shared env p s = (q, u)" by fastforce
    note one = load_others(1) [OF u, of c] load_others(2) [OF u, of a]
    show ?case
    proof (cases q)
      case (Inl e)
      with Cons.prems u one show ?thesis by simp
    next
      case (Inr x)
      with Cons.prems u obtain r' where "load_files shared env ps u = (r', t)" by (auto split: prod.splits)
      from Cons.IH [OF this] one show ?thesis by simp
    qed
  qed simp
  then show "(\<forall>p \<in> set ps. \<not> file_lists ''claims'' env p c) \<longrightarrow> get_claim t c = get_claim s c"
    "(\<forall>p \<in> set ps. \<not> file_lists ''annotations'' env p a) \<longrightarrow> get_annotation t a = get_annotation s a" by simp_all
qed

section \<open>Reseeding a live instance\<close>

text \<open>No paper of \<open>ids\<close> owns the claim, under its id or under the slug of its stored record.\<close>

definition foreign :: "store_state \<Rightarrow> string set \<Rightarrow> pydict \<Rightarrow> bool" where
  "foreign s ids d \<longleftrightarrow> (\<forall>i \<in> ids. dget d ''paper_id'' \<noteq> PStr i \<and>
     (\<forall>p. get_paper s i = Some p \<longrightarrow> \<not> py_eq (dget d ''paper_id'') (dget p ''id_slug'')))"

lemma stale_not_foreign:
  assumes "owner_keys_of (get_paper s pid) pid = Inr owners" "stale_claim_ids owners (st_claims s) = Inr ids"
    "wf_dict (st_claims s)" "get_claim s c = Some d" "foreign s {pid} d"
  shows "c \<notin> set ids"
proof
  assume "c \<in> set ids"
  with assms(2) obtain e where e: "(c, e) \<in> set (st_claims s)" "list_ex (py_eq (dget e ''paper_id'')) owners"
    by (auto simp: stale_claim_ids_eq split: if_splits)
  with assms(3, 4) have "e = d" by (simp add: get_claim_def)
  with e(2) assms(1, 5) show False
    by (auto simp: owner_keys_of_def foreign_def Let_def split: option.splits if_splits)
qed

lemma replace_one_keeps_claim:
  assumes "replace_seed_paper pid s = Inr t" "wf_dict (st_claims s)" "get_claim s c = Some d" "foreign s {pid} d"
  shows "wf_dict (st_claims t)" "get_claim t c = Some d"
proof -
  from assms(1) obtain owners ids where o: "owner_keys_of (get_paper s pid) pid = Inr owners"
    "stale_claim_ids owners (st_claims s) = Inr ids" and t: "st_claims t = fold dict_pop ids (st_claims s)"
    by (auto simp: replace_seed_paper_def rbind_Inr_iff Let_def fold_drop_claim get_paper_def)
  show "wf_dict (st_claims t)" using assms(2) by (simp add: t wf_fold_pop)
  show "get_claim t c = Some d"
    using stale_not_foreign [OF o assms(2-4)] assms(3) by (simp add: t get_claim_def dict_get_fold_pop)
qed

lemma replace_keeps_claim:
  assumes "replace_seed_papers ids s = Inr t" "wf_dict (st_claims s)" "get_claim s c = Some d" "foreign s (set ids) d"
  shows "get_claim t c = Some d"
  using assms
proof (induction ids arbitrary: s)
  case (Cons pid ids)
  then obtain u where u: "replace_seed_paper pid s = Inr u" "replace_seed_papers ids u = Inr t"
    by (auto simp: rbind_Inr_iff)
  have here: "foreign s {pid} d" using Cons.prems(4) by (simp add: foreign_def)
  have "foreign u (set ids) d"
    using Cons.prems(4) by (auto simp: foreign_def get_paper_def replace_seed_paper_result(1) [OF u(1)] split: if_splits)
  with Cons.IH [OF u(2)] replace_one_keeps_claim [OF u(1) Cons.prems(2, 3) here] show ?case by simp
qed simp

lemma replace_seeds_ids:
  assumes "replace_seeds env files s = Inr t"
  shows "\<exists>ids. set ids = seeded_ids env files \<and> replace_seed_papers ids s = Inr t"
proof -
  from assms obtain ids where ids: "rmap (seed_paper_id env) files = Inr ids"
    and t: "replace_seed_papers (List.map_filter id ids) s = Inr t"
    by (auto simp: replace_seeds_def rbind_Inr_iff)
  have "Some i \<in> set ids \<longleftrightarrow> i \<in> seeded_ids env files" for i
    using ids by (induction files arbitrary: ids) (auto simp: seeded_ids_def rbind_Inr_iff)
  then have "set (List.map_filter id ids) = seeded_ids env files"
    by (force simp: List.map_filter_def)
  with t show ?thesis by blast
qed

text \<open>
  C31: \<open>rrxiv seed-store --preserve-community\<close>, however it ends, changes only what its files name: a
  paper that no file names keeps its record, its structure, its source and its PDF; a claim owned
  by none of the papers named, and an annotation, is still there, and with the content it had unless
  a loaded file lists one of the same id; and tokens, agents, keys, codes and the latest snapshot
  are as they were.
\<close>

theorem reseed_keeps_community:
  assumes "seed_store_cmd shared env rt False True s = (x, t)" "wf_dict (st_claims s)"
  shows "(\<forall>i. i \<notin> seeded_ids env (iter_cir_files (sd_fs env) rt) \<longrightarrow> same_corpus_at i s t) \<and>
    (\<forall>c d. get_claim s c = Some d \<and> foreign s (seeded_ids env (iter_cir_files (sd_fs env) rt)) d \<longrightarrow>
      get_claim t c \<noteq> None \<and>
      ((\<forall>p \<in> set (iter_cir_files (sd_fs env) rt). \<not> file_lists ''claims'' env p c) \<longrightarrow> get_claim t c = Some d)) \<and>
    (\<forall>a b. get_annotation s a = Some b \<longrightarrow> get_annotation t a \<noteq> None \<and>
      ((\<forall>p \<in> set (iter_cir_files (sd_fs env) rt). \<not> file_lists ''annotations'' env p a) \<longrightarrow> get_annotation t a = Some b)) \<and>
    same_access s t"
proof -
  let ?files = "iter_cir_files (sd_fs env) rt"
  consider "t = s" | u r where "replace_seeds env ?files s = Inr u" "load_files shared env ?files u = (r, t)"
    using assms(1) by (fastforce simp: seed_store_cmd_def Let_def split: if_splits sum.splits prod.splits)
  then show ?thesis
  proof cases
    case 2
    then obtain ids where ids: "set ids = seeded_ids env ?files" "replace_seed_papers ids s = Inr u"
      using replace_seeds_ids by blast
    note touched = touches_load_files [OF 2(2)]
    have kept: "get_claim u c = Some d" if "get_claim s c = Some d" "foreign s (seeded_ids env ?files) d" for c d
      using replace_keeps_claim [OF ids(2) assms(2) that(1)] that(2) ids(1) by simp
    have kept_notes: "get_annotation u a = get_annotation s a" for a
      using replace_seed_frame [OF ids(2)] by (simp add: get_annotation_def)
    have papers: "\<forall>i. i \<notin> seeded_ids env ?files \<longrightarrow> same_corpus_at i s t"
      using reseed_removes_exactly [OF ids(2)] ids(1) touched by (auto simp: touches_def same_corpus_at_def)
    have access: "same_access s t"
      using replace_seed_frame [OF ids(2)] touched by (auto simp: touches_def same_access_def)
    have still: "get_claim u c \<noteq> None \<longrightarrow> get_claim t c \<noteq> None" "get_annotation u a \<noteq> None \<longrightarrow> get_annotation t a \<noteq> None" for c a
      using touched by (auto simp: touches_def only_adds_def)
    have claim_kept: "get_claim t c \<noteq> None"
        "\<forall>p \<in> set ?files. \<not> file_lists ''claims'' env p c \<Longrightarrow> get_claim t c = Some d"
      if "get_claim s c = Some d" "foreign s (seeded_ids env ?files) d" for c d
      using kept [OF that] still(1) [of c] load_files_others(1) [OF 2(2), of c] by simp_all
    have note_kept: "get_annotation t a \<noteq> None"
        "\<forall>p \<in> set ?files. \<not> file_lists ''annotations'' env p a \<Longrightarrow> get_annotation t a = Some b"
      if "get_annotation s a = Some b" for a b
      using kept_notes [of a] that still(2) [of a] load_files_others(2) [OF 2(2), of a] by simp_all
    show ?thesis using papers access claim_kept note_kept by blast
  qed (simp add: same_corpus_at_def same_access_def)
qed

section \<open>Loading again\<close>

lemma dict_set_twice: "dict_set k v (dict_set k w d) = dict_set k v d"
  by (induction d) (auto simp: dict_set_def)

lemma dict_set_present: "dict_get d k = Some v \<Longrightarrow> dict_set k v d = d"
  by (induction d) (auto simp: dict_set_def split: if_splits)

lemma dict_set_swap:
  "k \<noteq> k' \<Longrightarrow> dict_get e k \<noteq> None \<Longrightarrow> dict_set k' v' (dict_set k v e) = dict_set k v (dict_set k' v' e)"
  by (induction e) (auto simp: dict_set_def split: if_splits)

definition set_rows :: "('k \<times> 'v) list \<Rightarrow> ('k \<times> 'v) list \<Rightarrow> ('k \<times> 'v) list" where
  "set_rows rows d = fold (\<lambda>(k, v). dict_set k v) rows d"

lemma set_rows_simps [simp]: "set_rows [] d = d" "set_rows ((k, v) # rows) d = set_rows rows (dict_set k v d)"
  by (simp_all add: set_rows_def)

lemma set_rows_get_other: "k \<notin> fst ` set rows \<Longrightarrow> dict_get (set_rows rows d) k = dict_get d k"
  by (induction rows arbitrary: d) auto

lemma set_rows_keeps: "dict_get d k \<noteq> None \<Longrightarrow> dict_get (set_rows rows d) k \<noteq> None"
  by (induction rows arbitrary: d) auto

lemma set_rows_overwrites:
  "k \<in> fst ` set rows \<Longrightarrow> dict_get e k \<noteq> None \<Longrightarrow> set_rows rows (dict_set k v e) = set_rows rows e"
proof (induction rows arbitrary: e)
  case (Cons r rows)
  obtain k' v' where r: "r = (k', v')" by (cases r)
  show ?case
  proof (cases "k' = k")
    case False
    with Cons.prems r have "k \<in> fst ` set rows" "dict_get (dict_set k' v' e) k \<noteq> None" by auto
    from Cons.IH [OF this] show ?thesis using False Cons.prems(2) by (simp add: r dict_set_swap)
  qed (simp add: r dict_set_twice)
qed simp

lemma set_rows_twice: "set_rows rows (set_rows rows d) = set_rows rows d"
proof (induction rows arbitrary: d)
  case (Cons r rows)
  obtain k v where r: "r = (k, v)" by (cases r)
  let ?e = "set_rows rows (dict_set k v d)"
  have e: "set_rows rows ?e = ?e" by (rule Cons.IH)
  show ?case
  proof (cases "k \<in> fst ` set rows")
    case True
    from set_rows_overwrites [OF this, of ?e v] e show ?thesis by (simp add: r set_rows_keeps)
  next
    case False
    then have "dict_set k v ?e = ?e" by (intro dict_set_present) (simp add: set_rows_get_other)
    with e show ?thesis by (simp add: r)
  qed
qed simp

lemma load_claims_rows:
  assumes "load_claims owner vs s = (Inr n, ws, t)"
  obtains rows where "\<And>u. load_claims owner vs u = (Inr n, ws, u\<lparr>st_claims := set_rows rows (st_claims u)\<rparr>)"
proof -
  have "\<exists>rows. \<forall>u. load_claims owner vs u = (Inr n, ws, u\<lparr>st_claims := set_rows rows (st_claims u)\<rparr>)"
    using assms
  proof (induction vs arbitrary: s n ws t)
    case (Cons v vs)
    from Cons.prems obtain c i m ws' s' where v: "v = PDict c" and n: "n = Suc m" and ws: "ws = PDict (dict_set ''paper_id'' (PStr owner) c) # ws'"
      and i: "item_id (dict_set ''paper_id'' (PStr owner) c) = Inr i" and rest: "load_claims owner vs s' = (Inr m, ws', t)"
      by (auto simp: Let_def add_claim_def rbind_Inr_iff split: pyval.splits sum.splits prod.splits)
    from Cons.IH [OF rest] obtain rows where
      "\<forall>u. load_claims owner vs u = (Inr m, ws', u\<lparr>st_claims := set_rows rows (st_claims u)\<rparr>)" by blast
    then show ?case
      by (intro exI [of _ "(i, dict_set ''paper_id'' (PStr owner) c) # rows"]) (simp add: v n ws i Let_def add_claim_def)
  qed (auto intro: exI [of _ "[]"])
  with that show ?thesis by blast
qed

lemma load_annotations_rows:
  assumes "load_annotations vs s = (Inr n, t)"
  obtains rows where "\<And>u. load_annotations vs u = (Inr n, u\<lparr>st_annotations := set_rows rows (st_annotations u)\<rparr>)"
proof -
  have "\<exists>rows. \<forall>u. load_annotations vs u = (Inr n, u\<lparr>st_annotations := set_rows rows (st_annotations u)\<rparr>)"
    using assms
  proof (induction vs arbitrary: s n t)
    case (Cons v vs)
    from Cons.prems obtain a i m s' where v: "v = PDict a" and n: "n = Suc m"
      and i: "item_id a = Inr i" and rest: "load_annotations vs s' = (Inr m, t)"
      by (auto simp: add_annotation_def rbind_Inr_iff split: pyval.splits sum.splits prod.splits)
    from Cons.IH [OF rest] obtain rows where
      "\<forall>u. load_annotations vs u = (Inr m, u\<lparr>st_annotations := set_rows rows (st_annotations u)\<rparr>)" by blast
    then show ?case
      by (intro exI [of _ "(i, a) # rows"]) (simp add: v n i add_annotation_def)
  qed (auto intro: exI [of _ "[]"])
  with that show ?thesis by blast
qed

definition put_blob :: "string \<Rightarrow> bytes option \<Rightarrow> (string \<times> bytes) list \<Rightarrow> (string \<times> bytes) list" where
  "put_blob pid b d = (case b of None \<Rightarrow> d | Some x \<Rightarrow> dict_set pid x d)"

lemma put_blob_twice: "put_blob pid b (put_blob pid b d) = put_blob pid b d"
  by (simp add: put_blob_def dict_set_twice split: option.split)

lemma save_files_rows:
  assumes "save_files fs p pid cir s = (Inr (c, m, n), t)"
  shows "save_files fs p pid cir u = (Inr (c, m, n),
    u\<lparr>st_sources := put_blob pid (sibling_source fs p) (st_sources u),
      st_rendered_pdfs := put_blob pid (sibling_pdf fs p) (st_rendered_pdfs u)\<rparr>)"
  using assms
  by (auto simp: save_files_def save_source_def save_rendered_pdf_def put_blob_def rbind_Inr_iff
      split: option.splits sum.splits prod.splits)

lemma store_paper_rows:
  assumes "dget cir ''id'' = PStr pid"
  shows "rbind (add_paper (paper_metadata cir) u) (add_cir cir) =
    Inr (u\<lparr>st_papers := dict_set pid (paper_metadata cir) (st_papers u), st_cirs := dict_set pid cir (st_cirs u)\<rparr>)"
proof -
  have "dict_get (paper_metadata cir) ''id'' = dict_get cir ''id''"
    by (induction cir) (auto simp: paper_metadata_def)
  with assms have "item_id (paper_metadata cir) = Inr pid" "item_id cir = Inr pid"
    by (auto simp: item_id_def dget_def split: option.splits)
  then show ?thesis by (simp add: add_paper_def add_cir_def)
qed

lemma store_records_rows:
  assumes "store_records shared pid owner cir s = (Inr (n, m), t)" "dget cir ''id'' = PStr pid"
  obtains kept rows anns where
    "\<And>u. store_records shared pid owner cir u = (Inr (n, m),
      u\<lparr>st_papers := dict_set pid (paper_metadata cir) (st_papers u), st_cirs := dict_set pid kept (st_cirs u),
        st_claims := set_rows rows (st_claims u), st_annotations := set_rows anns (st_annotations u)\<rparr>)"
proof -
  from assms obtain vs ws as s1 s2 s3 where vs: "py_iter (py_or (dget cir ''claims'') (PList [])) = Inr vs"
    and c: "load_claims owner vs s1 = (Inr n, ws, s2)"
    and as: "py_iter (py_or (dget cir ''annotations'') (PList [])) = Inr as"
    and a: "load_annotations as s3 = (Inr m, t)"
    by (auto simp: store_records_def store_paper_rows Let_def rbind_Inr_iff split: sum.splits prod.splits)
  obtain rows where rows: "\<And>u. load_claims owner vs u = (Inr n, ws, u\<lparr>st_claims := set_rows rows (st_claims u)\<rparr>)"
    by (rule load_claims_rows [OF c]) blast
  obtain anns where anns: "\<And>u. load_annotations as u = (Inr m, u\<lparr>st_annotations := set_rows anns (st_annotations u)\<rparr>)"
    by (rule load_annotations_rows [OF a]) blast
  have "store_records shared pid owner cir u = (Inr (n, m),
      u\<lparr>st_papers := dict_set pid (paper_metadata cir) (st_papers u),
        st_cirs := dict_set pid (if shared \<and> is_list (dget cir ''claims'') then dict_set ''claims'' (PList ws) cir else cir) (st_cirs u),
        st_claims := set_rows rows (st_claims u), st_annotations := set_rows anns (st_annotations u)\<rparr>)" for u
    by (simp add: store_records_def store_paper_rows [OF assms(2)] vs as rows anns share_claims_def get_cir_def
        dict_set_twice Let_def)
  with that show ?thesis by blast
qed

lemma read_seed_any:
  assumes "read_seed env p papers = Inr (Some (pid, slug, cir, 0))"
  shows "read_seed env p papers' = Inr (Some (pid, slug, cir, 0))"
proof -
  have slug: "with_slug env papers' c = Inr (c', sl, 0)" if "with_slug env papers c = Inr (c', sl, 0)" for c c' sl
    using that by (auto simp: with_slug_def rbind_Inr_iff split: if_splits pyval.splits)
  from assms obtain v c where v: "read_json env p = Inr v" "as_object v = Inr c"
    by (auto simp: read_seed_def rbind_Inr_iff)
  define d where "d = (if path_name p = ''rrxiv-meta.json'' then promote_meta env p c else c)"
  from assms have t: "truthy (dget d ''id'')" by (auto simp: read_seed_def v d_def Let_def split: if_splits)
  have "dget d ''id'' = PStr pid \<and> (\<exists>c1 m. with_slug env papers d = Inr (c1, slug, 0) \<and> canonicalise_claim_ids c1 slug = Inr (cir, m))"
    using assms
    by (auto simp: read_seed_def v rbind_Inr_iff Let_def d_def split: if_splits pyval.splits prod.splits)
  then show ?thesis
    using t by (auto simp: read_seed_def v Let_def seed_raise_def d_def dest!: slug)
qed

text \<open>
  C32: loading a file a second time, when it names its slug so that the first load minted none,
  reports the same counts and leaves every table, the order of its rows included, as the first load
  left it.
\<close>

theorem reload_changes_nothing:
  assumes "load_cir_into_store shared env p s = (Inr (Some c), t)" "lc_slugs_minted c = 0"
  shows "load_cir_into_store shared env p t = (Inr (Some c), t)"
proof -
  from assms obtain pid slug cir cir' m n k l s1 where
    r: "read_seed env p (list_papers s) = Inr (Some (pid, slug, cir, 0))"
    and f: "save_files (sd_fs env) p pid cir s = (Inr (cir', m, n), s1)"
    and g: "store_records shared pid slug cir' s1 = (Inr (k, l), t)"
    and c: "c = \<lparr>lc_paper_id = pid, lc_slug = slug, lc_claims = k, lc_annotations = l, lc_sources = m, lc_pdfs = n, lc_slugs_minted = 0\<rparr>"
    by (auto simp: load_cir_into_store_def split: sum.splits prod.splits option.splits)
  have "dget cir' ''id'' = PStr pid" using save_files_id [OF f] read_seed_id(1) [OF r] by simp
  then obtain kept rows anns where
    rec: "\<And>u. store_records shared pid slug cir' u = (Inr (k, l),
      u\<lparr>st_papers := dict_set pid (paper_metadata cir') (st_papers u), st_cirs := dict_set pid kept (st_cirs u),
        st_claims := set_rows rows (st_claims u), st_annotations := set_rows anns (st_annotations u)\<rparr>)"
    by (rule store_records_rows [OF g]) blast
  have s1: "s1 = s\<lparr>st_sources := put_blob pid (sibling_source (sd_fs env) p) (st_sources s),
      st_rendered_pdfs := put_blob pid (sibling_pdf (sd_fs env) p) (st_rendered_pdfs s)\<rparr>"
    using f save_files_rows [OF f, of s] by simp
  have t: "t = s1\<lparr>st_papers := dict_set pid (paper_metadata cir') (st_papers s1), st_cirs := dict_set pid kept (st_cirs s1),
        st_claims := set_rows rows (st_claims s1), st_annotations := set_rows anns (st_annotations s1)\<rparr>"
    using g rec [of s1] by simp
  show ?thesis
    by (simp add: load_cir_into_store_def read_seed_any [OF r] save_files_rows [OF f] rec c)
      (simp add: t s1 put_blob_twice dict_set_twice set_rows_twice)
qed

section \<open>Examples\<close>

text \<open>A directory \<open>d\<close> with one structure in it, and its claims.\<close>

definition demo_env :: "pydict \<Rightarrow> seed_env" where
  "demo_env cir = \<lparr>sd_fs = \<lparr>sf_content = (\<lambda>p. if p = [''d'', ''p.cir.json''] then Some [] else None),
       sf_entries = (\<lambda>p. if p = [''d''] then Some [''p.cir.json''] else None)\<rparr>,
     sd_decode = (\<lambda>_. Decoded (PDict cir)), sd_today = ''2026-05-01'', sd_year = 2026, sd_month = 5\<rparr>"

definition demo_cir :: pydict where
  "demo_cir = [(''id'', PStr ''p''), (''id_slug'', PStr ''rrxiv:2605.00001''),
     (''claims'', PList [PDict [(''id'', PStr ''rrxiv:2605.00001:c'')]]), (''annotations'', PList [PDict [(''id'', PStr ''n'')]])]"

definition slugless_cir :: pydict where
  "slugless_cir = [(''id'', PStr ''p''), (''claims'', PList [])]"

lemma demo_files: "iter_cir_files (sd_fs (demo_env demo_cir)) [''d''] = [[''d'', ''p.cir.json'']]"
  by code_simp

lemma demo_ids: "seed_paper_id (demo_env demo_cir) [''d'', ''p.cir.json''] = Inr (Some ''p'')"
  by code_simp

text \<open>What the file of the example lists, whatever papers are stored.\<close>

lemma demo_lists:
  "\<not> file_lists ''claims'' (demo_env demo_cir) [''d'', ''p.cir.json''] ''k''"
  "\<not> file_lists ''annotations'' (demo_env demo_cir) [''d'', ''p.cir.json''] ''a''"
proof -
  let ?free = "\<lambda>k c cir. case py_iter (py_or (dget cir k) (PList [])) of
      Inr vs \<Rightarrow> list_all (\<lambda>v. case v of PDict d \<Rightarrow> dget d ''id'' \<noteq> PStr c | _ \<Rightarrow> True) vs | Inl _ \<Rightarrow> True"
  have "case read_seed (demo_env demo_cir) [''d'', ''p.cir.json''] [] of
      Inr (Some (pid, slug, cir, n)) \<Rightarrow> n = 0 \<and> ?free ''claims'' ''k'' cir \<and> ?free ''annotations'' ''a'' cir | _ \<Rightarrow> False"
    by code_simp
  then obtain pid slug cir where r: "read_seed (demo_env demo_cir) [''d'', ''p.cir.json''] [] = Inr (Some (pid, slug, cir, 0))"
    and free: "?free ''claims'' ''k'' cir" "?free ''annotations'' ''a'' cir" by (auto split: sum.splits option.splits)
  have lists: "\<exists>vs d. py_iter (py_or (dget cir f) (PList [])) = Inr vs \<and> PDict d \<in> set vs \<and> dget d ''id'' = PStr c"
    if l: "file_lists f (demo_env demo_cir) [''d'', ''p.cir.json''] c" for f c
  proof -
    from l [unfolded file_lists_def] obtain papers pid' slug' cir' m vs d where
      a: "read_seed (demo_env demo_cir) [''d'', ''p.cir.json''] papers = Inr (Some (pid', slug', cir', m))"
        "py_iter (py_or (dget cir' f) (PList [])) = Inr vs" "PDict d \<in> set vs" "dget d ''id'' = PStr c" by (elim exE conjE)
    have "cir' = cir" using a(1) [unfolded read_seed_any [OF r, of papers]] by (simp only: sum.inject option.inject prod.inject)
    with a(2-4) show ?thesis by blast
  qed
  show "\<not> file_lists ''claims'' (demo_env demo_cir) [''d'', ''p.cir.json''] ''k''"
  proof
    assume "file_lists ''claims'' (demo_env demo_cir) [''d'', ''p.cir.json''] ''k''"
    from lists [OF this] obtain vs d where "py_iter (py_or (dget cir ''claims'') (PList [])) = Inr vs" "PDict d \<in> set vs" "dget d ''id'' = PStr ''k''"
      by blast
    with free(1) show False by (auto simp: list_all_iff dest!: bspec [of _ _ "PDict d"])
  qed
  show "\<not> file_lists ''annotations'' (demo_env demo_cir) [''d'', ''p.cir.json''] ''a''"
  proof
    assume "file_lists ''annotations'' (demo_env demo_cir) [''d'', ''p.cir.json''] ''a''"
    from lists [OF this] obtain vs d where "py_iter (py_or (dget cir ''annotations'') (PList [])) = Inr vs" "PDict d \<in> set vs" "dget d ''id'' = PStr ''a''"
      by blast
    with free(2) show False by (auto simp: list_all_iff dest!: bspec [of _ _ "PDict d"])
  qed
qed

definition community_store :: store_state where
  "community_store = seeded_store\<lparr>st_claims := [(''c'', [(''paper_id'', PStr ''p'')]), (''k'', [(''paper_id'', PStr ''q'')])]\<rparr>"

theorem reseed_keeps_community_witness:
  "let t = snd (seed_store_cmd True (demo_env demo_cir) [''d''] False True community_store)
   in same_corpus_at ''q'' community_store t \<and> get_claim t ''k'' = Some [(''paper_id'', PStr ''q'')] \<and>
      get_annotation t ''a'' = Some [(''target_id'', PStr ''p'')]"
proof -
  let ?files = "iter_cir_files (sd_fs (demo_env demo_cir)) [''d'']"
  have ids: "seeded_ids (demo_env demo_cir) ?files = {''p''}"
    by (simp add: seeded_ids_def demo_files demo_ids)
  have claim: "get_claim community_store ''k'' = Some [(''paper_id'', PStr ''q'')]"
    "foreign community_store {''p''} [(''paper_id'', PStr ''q'')]"
    by (auto simp: community_store_def seeded_store_def get_claim_def foreign_def get_paper_def dget_def)
  have kept_note: "get_annotation community_store ''a'' = Some [(''target_id'', PStr ''p'')]" "wf_dict (st_claims community_store)"
    by (simp_all add: get_annotation_def community_store_def seeded_store_def)
  have lists: "\<forall>p \<in> set ?files. \<not> file_lists ''claims'' (demo_env demo_cir) p ''k''"
    "\<forall>p \<in> set ?files. \<not> file_lists ''annotations'' (demo_env demo_cir) p ''a''"
    by (simp_all add: demo_files demo_lists)
  have other: "''q'' \<notin> seeded_ids (demo_env demo_cir) ?files" by (simp add: ids)
  note all = reseed_keeps_community [of True "demo_env demo_cir" "[''d'']" community_store, OF prod.collapse [symmetric] kept_note(2)]
  note foreign_kept = all [THEN conjunct2, THEN conjunct1, rule_format, of "''k''", unfolded ids, OF conjI [OF claim]]
  note notes_kept = all [THEN conjunct2, THEN conjunct2, THEN conjunct1, rule_format, OF kept_note(1)]
  show ?thesis
    unfolding Let_def
    using all [THEN conjunct1, rule_format, OF other] foreign_kept [THEN conjunct2, THEN mp, OF lists(1)]
      notes_kept [THEN conjunct2, THEN mp, OF lists(2)] by simp
qed

definition demo_loaded :: "(seed_error + load_counts option) \<times> store_state" where
  "demo_loaded = load_cir_into_store True (demo_env demo_cir) [''d'', ''p.cir.json''] empty_store"

theorem reload_changes_nothing_witness:
  "load_cir_into_store True (demo_env demo_cir) [''d'', ''p.cir.json''] (snd demo_loaded) = demo_loaded \<and>
   length (st_claims (snd demo_loaded)) = 1"
proof -
  have ok: "case fst demo_loaded of Inr (Some c) \<Rightarrow> lc_slugs_minted c = 0 \<and> length (st_claims (snd demo_loaded)) = 1 | _ \<Rightarrow> False"
    by code_simp
  then obtain c where c: "fst demo_loaded = Inr (Some c)" "lc_slugs_minted c = 0" "length (st_claims (snd demo_loaded)) = 1"
    by (auto split: sum.splits option.splits)
  then have "load_cir_into_store True (demo_env demo_cir) [''d'', ''p.cir.json''] empty_store = (Inr (Some c), snd demo_loaded)"
    by (simp add: demo_loaded_def prod_eq_iff)
  from reload_changes_nothing [OF this c(2)] c show ?thesis by (simp add: prod_eq_iff)
qed

text \<open>A file without a slug is given another one each time it is loaded.\<close>

lemma slugless_minted_again:
  "case load_cir_into_store True (demo_env slugless_cir) [''d'', ''p.cir.json''] empty_store of
     (Inr (Some c), s) \<Rightarrow> lc_slug c = ''rrxiv:2605.00001'' \<and>
       (case load_cir_into_store True (demo_env slugless_cir) [''d'', ''p.cir.json''] s of
          (Inr (Some c'), t) \<Rightarrow> lc_slug c' = ''rrxiv:2605.00002'' | _ \<Rightarrow> False)
   | _ \<Rightarrow> False"
  by code_simp

text \<open>
  The promoted metadata of a repository whose \<open>id\<close> is there but empty: the replacement takes
  the slug for the id, the load skips the file, so a paper stored under the slug is gone.
\<close>

definition meta_env :: seed_env where
  "meta_env = \<lparr>sd_fs = \<lparr>sf_content = (\<lambda>p. if p \<in> set [[''d'', ''rrxiv-meta.json''], [''d'', ''paper'', ''main.tex'']] then Some [] else None),
       sf_entries = (\<lambda>p. if p = [''d''] then Some [] else None)\<rparr>,
     sd_decode = (\<lambda>_. Decoded (PDict [(''id'', PNone), (''id_slug'', PStr ''q'')])), sd_today = ''2026-05-01'', sd_year = 2026, sd_month = 5\<rparr>"

lemma skipped_file_deletes_paper:
  "case seed_store_cmd True meta_env [''d''] False True seeded_store of
     (Loaded cs, t) \<Rightarrow> cs = [] \<and> get_paper seeded_store ''q'' \<noteq> None \<and> get_paper t ''q'' = None | _ \<Rightarrow> False"
  by code_simp

text \<open>The two stores keep different structures: the one in memory sees the claims' owner.\<close>

lemma structures_differ:
  "st_cirs (snd (load_cir_into_store True (demo_env demo_cir) [''d'', ''p.cir.json''] empty_store)) \<noteq>
   st_cirs (snd (load_cir_into_store False (demo_env demo_cir) [''d'', ''p.cir.json''] empty_store))"
  by code_simp

end
