(* ===== verification/Server.thy ===== *)
theory Server
  imports Submissions Annotations Signature_Middleware Snapshots Seed_Store
begin

text \<open>
  The running server, \<open>server/app.py\<close>: every endpoint that writes to the store, behind the
  signature middleware and the identity dependency as \<open>build_app\<close> and the routers compose
  them, and the operator's seeding of the corpus. A step relation on stores, its reachable states and the
  invariant of the tables. Endpoints that only read are steps that change nothing; a request that
  no route takes changes nothing either and is no step.
\<close>

section \<open>Requests\<close>

text \<open>
  The operations that write, with the parameters of the request and the random identifiers and
  times the handler draws.
\<close>

datatype operation =
    ReadOnly
  | ViewClaim string
  | OrcidCallback string "string option" string
  | OrcidRender string string string
  | ExchangePaste string string
  | AgentEnroll enroll_body string
  | RotateKey string rotate_body
  | AnonymousChallenge string
  | AnonymousVerify string string string
  | Refresh string
  | BindKey key_bind_body string
  | RevokeKey string
  | SubmitPaper submit_env submission
  | CreateAnnotation pydict "string option" string string
  | CreateAnnotationsBulk pydict "nat \<Rightarrow> string"
  | CreateSnapshot string

text \<open>A call: the request as the middleware sees it, the operation, and three readings of the clock.\<close>

record call =
  cl_request :: request
  cl_operation :: operation
  cl_middleware_now :: int
  cl_auth_now :: int
  cl_now :: int

record 'k deployment =
  dp_settings :: settings
  dp_lib :: "'k sig_lib"
  dp_ed_verify :: ed_verify
  dp_email :: email_lib
  dp_orcid_post :: "string \<Rightarrow> string \<Rightarrow> reply"
  dp_siteverify :: "string \<Rightarrow> reply"
  dp_validate :: validator
  dp_archiver :: archiver

definition authorization_of :: "call \<Rightarrow> string" where
  "authorization_of c = (case header (cl_request c) ''authorization'' of None \<Rightarrow> [] | Some v \<Rightarrow> v)"

definition lets_pass :: "'k deployment \<Rightarrow> call \<Rightarrow> store_state \<Rightarrow> bool" where
  "lets_pass D c s =
     (case signature_middleware (dp_lib D) (dp_settings D) (cl_request c) (cl_middleware_now c) s of
        Pass \<Rightarrow> True | PassVerified _ \<Rightarrow> True | _ \<Rightarrow> False)"

section \<open>Handlers\<close>

text \<open>The endpoints without the identity dependency: the store they leave.\<close>

definition open_effect :: "'k deployment \<Rightarrow> call \<Rightarrow> store_state \<Rightarrow> store_state option" where
  "open_effect D c s =
     (let cfg = dp_settings D; now = cl_now c; auth = authorization_of c in
      case cl_operation c of
        ReadOnly \<Rightarrow> Some s
      | ViewClaim i \<Rightarrow> Some (case get_claim s i of None \<Rightarrow> s | Some _ \<Rightarrow> snd (bump_claim_view i s))
      | OrcidCallback code uri fresh \<Rightarrow> Some (snd (orcid_callback (dp_orcid_post D) cfg code uri fresh now s))
      | OrcidRender code url raw \<Rightarrow> Some (snd (orcid_render (dp_orcid_post D) cfg code url raw now s))
      | ExchangePaste code fresh \<Rightarrow> Some (snd (orcid_exchange_paste cfg code fresh now s))
      | AgentEnroll body fresh \<Rightarrow> Some (snd (enroll_endpoint (dp_email D) (dp_ed_verify D) cfg body fresh now s))
      | RotateKey h body \<Rightarrow> Some (snd (agent_rotate_key (dp_ed_verify D) cfg h body auth now s))
      | AnonymousChallenge fresh \<Rightarrow> Some (snd (anonymous_challenge cfg fresh now s))
      | AnonymousVerify i response fresh \<Rightarrow>
          Some (snd (anonymous_verify (dp_siteverify D) cfg i response fresh now s))
      | Refresh fresh \<Rightarrow> Some (snd (refresh_token cfg auth fresh now s))
      | _ \<Rightarrow> None)"

text \<open>
  The endpoints behind \<open>require_identity(allow_anonymous=False)\<close>; nothing when the search
  for an unused paper id does not end.
\<close>

definition named_effect :: "'k deployment \<Rightarrow> call \<Rightarrow> authed_request \<Rightarrow> store_state \<Rightarrow> store_state option" where
  "named_effect D c a s =
     (let cfg = dp_settings D; now = cl_now c in
      case cl_operation c of
        BindKey body fresh \<Rightarrow> Some (snd (bind_endpoint (dp_ed_verify D) cfg a body fresh now s))
      | RevokeKey k \<Rightarrow> Some (snd (revoke_orcid_key_endpoint a k now s))
      | SubmitPaper env r \<Rightarrow> map_option snd (submit_paper env a r s)
      | CreateAnnotation body k h fresh \<Rightarrow> Some (snd (create_annotation (dp_validate D) a body k h fresh now s))
      | CreateAnnotationsBulk body fresh \<Rightarrow> Some (snd (create_annotations_bulk (dp_validate D) a body fresh s))
      | CreateSnapshot fresh \<Rightarrow> Some (snd (create_snapshot (dp_archiver D) a fresh now s))
      | _ \<Rightarrow> None)"

fun needs_name :: "operation \<Rightarrow> bool" where
  "needs_name (BindKey _ _) = True"
| "needs_name (RevokeKey _) = True"
| "needs_name (SubmitPaper _ _) = True"
| "needs_name (CreateAnnotation _ _ _ _) = True"
| "needs_name (CreateAnnotationsBulk _ _) = True"
| "needs_name (CreateSnapshot _) = True"
| "needs_name _ = False"

text \<open>The method each operation is mounted under.\<close>

fun method_of :: "operation \<Rightarrow> string" where
  "method_of ReadOnly = ''GET''"
| "method_of (ViewClaim _) = ''GET''"
| "method_of (OrcidRender _ _ _) = ''GET''"
| "method_of (RevokeKey _) = ''DELETE''"
| "method_of _ = ''POST''"

definition routed :: "call \<Rightarrow> bool" where
  "routed c = (rq_method (cl_request c) = method_of (cl_operation c))"

definition identify :: "'k deployment \<Rightarrow> call \<Rightarrow> store_state \<Rightarrow> (exn + authed_request) \<times> store_state" where
  "identify D c s =
     require_identity False (dp_settings D) (rq_method (cl_request c)) (authorization_of c) (cl_auth_now c) s"

section \<open>Steps\<close>

text \<open>
  What changes the store: a request; the operator's \<open>rrxiv seed-store\<close>, with a directory and its two
  options; and the seeding at the first boot. Each is one step. The first argument of the last two
  says whether the store shares the objects it is given.
\<close>

datatype event = Http call | SeedStore bool seed_env path bool bool | BootSeed bool seed_env path

inductive server_step :: "'k deployment \<Rightarrow> store_state \<Rightarrow> event \<Rightarrow> store_state \<Rightarrow> bool" for D where
  rejected: "\<not> lets_pass D c s \<Longrightarrow> server_step D s (Http c) s"
| opened: "lets_pass D c s \<Longrightarrow> routed c \<Longrightarrow> \<not> needs_name (cl_operation c) \<Longrightarrow> open_effect D c s = Some s' \<Longrightarrow>
    server_step D s (Http c) s'"
| refused: "lets_pass D c s \<Longrightarrow> routed c \<Longrightarrow> needs_name (cl_operation c) \<Longrightarrow> identify D c s = (Inl e, s') \<Longrightarrow>
    server_step D s (Http c) s'"
| admitted: "lets_pass D c s \<Longrightarrow> routed c \<Longrightarrow> needs_name (cl_operation c) \<Longrightarrow> identify D c s = (Inr a, s1) \<Longrightarrow>
    named_effect D c a s1 = Some s' \<Longrightarrow> server_step D s (Http c) s'"
| seeded: "seed_store_cmd shared env rt reset preserve s = (x, s') \<Longrightarrow>
    server_step D s (SeedStore shared env rt reset preserve) s'"
| booted: "boot_seed shared env rt s = (x, s') \<Longrightarrow> server_step D s (BootSeed shared env rt) s'"

inductive_cases http_step: "server_step D s (Http c) s'"
inductive_cases seed_step: "server_step D s (SeedStore shared env rt reset preserve) s'"
inductive_cases boot_step: "server_step D s (BootSeed shared env rt) s'"

inductive reachable :: "'k deployment \<Rightarrow> store_state \<Rightarrow> bool" for D where
  empty: "reachable D empty_store"
| step: "reachable D s \<Longrightarrow> server_step D s ev s' \<Longrightarrow> reachable D s'"

inductive requests :: "'k deployment \<Rightarrow> store_state \<Rightarrow> store_state \<Rightarrow> bool" for D where
  none: "requests D s s"
| more: "requests D s s1 \<Longrightarrow> server_step D s1 (Http c) s2 \<Longrightarrow> requests D s s2"

text \<open>An endpoint has one of the two kinds of effect.\<close>

lemma open_effect_defined: "\<not> needs_name (cl_operation c) \<Longrightarrow> open_effect D c s \<noteq> None"
  by (cases "cl_operation c") (simp_all add: open_effect_def Let_def)

lemma named_effect_defined:
  "needs_name (cl_operation c) \<Longrightarrow> (\<And>env r. cl_operation c = SubmitPaper env r \<Longrightarrow> inj (se_fresh_id env)) \<Longrightarrow>
    named_effect D c a s \<noteq> None"
  using submit_paper_total by (cases "cl_operation c") (simp_all add: named_effect_def Let_def)

section \<open>Tables\<close>

text \<open>A table whose keys are distinct and whose records satisfy a condition on key and record.\<close>

definition table :: "('k \<Rightarrow> 'v \<Rightarrow> bool) \<Rightarrow> ('k \<times> 'v) list \<Rightarrow> bool" where
  "table P t \<longleftrightarrow> wf_dict t \<and> (\<forall>k v. dict_get t k = Some v \<longrightarrow> P k v)"

named_theorems table_intros \<open>what keeps a table\<close>

lemma table_empty [table_intros]: "table P []"
  by (simp add: table_def)

lemma table_set [table_intros]: "table P t \<Longrightarrow> P k v \<Longrightarrow> table P (dict_set k v t)"
  by (simp add: table_def)

lemma table_pop [table_intros]: "table P t \<Longrightarrow> table P (dict_pop k t)"
  by (simp add: table_def)

lemma table_get: "table P t \<Longrightarrow> dict_get t k = Some v \<Longrightarrow> P k v"
  by (simp add: table_def)

lemma table_mono: "table P t \<Longrightarrow> (\<And>k v. P k v \<Longrightarrow> Q k v) \<Longrightarrow> table Q t"
  by (simp add: table_def)

text \<open>The life of a token, by the tier of its identity.\<close>

fun ttl_of :: "settings \<Rightarrow> identity \<Rightarrow> int" where
  "ttl_of cfg (OrcidIdentity _) = token_ttl_seconds_orcid cfg"
| "ttl_of cfg (AgentIdentity _) = token_ttl_seconds_agent cfg"
| "ttl_of cfg (AnonymousIdentity _) = token_ttl_seconds_anonymous cfg"

definition good_token :: "settings \<Rightarrow> (string \<Rightarrow> bool) \<Rightarrow> string \<Rightarrow> token_record \<Rightarrow> bool" where
  "good_token cfg enrolled t r \<longleftrightarrow>
     tr_token r = t \<and> tr_expires_at_unix r = tr_issued_at_unix r + ttl_of cfg (tr_identity r) \<and>
     (\<forall>h. tr_identity r = AgentIdentity h \<longrightarrow> enrolled h)"

definition accounts_ok :: "settings \<Rightarrow> store_state \<Rightarrow> bool" where
  "accounts_ok cfg s \<longleftrightarrow>
     table (good_token cfg (\<lambda>h. get_agent s h \<noteq> None)) (st_tokens s) \<and>
     table (\<lambda>h a. ar_handle a = h) (st_agents s) \<and>
     table (\<lambda>k r. ok_key_id r = k) (st_orcid_keys s) \<and>
     table (\<lambda>i c. ch_challenge_id c = i) (st_challenges s) \<and>
     table (\<lambda>i e. pc_code e = i) (st_paste_codes s)"

definition named :: "string \<Rightarrow> pydict \<Rightarrow> bool" where
  "named i d \<longleftrightarrow> dget d ''id'' = PStr i"

text \<open>A paper has its structure, and a structure its paper.\<close>

definition corpus_ok :: "store_state \<Rightarrow> bool" where
  "corpus_ok s \<longleftrightarrow>
     table (\<lambda>i p. named i p \<and> get_cir s i \<noteq> None) (st_papers s) \<and>
     table (\<lambda>i d. named i d \<and> get_paper s i \<noteq> None) (st_cirs s) \<and> table named (st_claims s) \<and> table named (st_annotations s) \<and>
     table (\<lambda>_ n. 0 < n) (st_claim_views s)"

definition server_ok :: "settings \<Rightarrow> store_state \<Rightarrow> bool" where
  "server_ok cfg s \<longleftrightarrow> accounts_ok cfg s \<and> corpus_ok s"

section \<open>Operations on accounts\<close>

named_theorems account_steps \<open>what keeps the accounts\<close>

lemma accounts_empty: "accounts_ok cfg empty_store"
  by (simp add: accounts_ok_def empty_store_def table_intros)

lemma accounts_add_token [account_steps]:
  assumes "accounts_ok cfg s" "tr_expires_at_unix r = tr_issued_at_unix r + ttl_of cfg (tr_identity r)"
    "\<And>h. tr_identity r = AgentIdentity h \<Longrightarrow> get_agent s h \<noteq> None"
  shows "accounts_ok cfg (add_token r s)"
  using assms by (auto simp: accounts_ok_def add_token_def good_token_def get_agent_def intro!: table_set)

lemma accounts_revoke_token [account_steps]: "accounts_ok cfg s \<Longrightarrow> accounts_ok cfg (revoke_token t s)"
  by (auto simp: accounts_ok_def revoke_token_def get_agent_def intro!: table_pop)

lemma accounts_add_agent [account_steps]: "accounts_ok cfg s \<Longrightarrow> accounts_ok cfg (add_agent a s)"
  by (auto simp: accounts_ok_def add_agent_def get_agent_def good_token_def intro!: table_set elim!: table_mono)

lemma accounts_add_key [account_steps]: "accounts_ok cfg s \<Longrightarrow> accounts_ok cfg (add_orcid_key r s)"
  by (auto simp: accounts_ok_def add_orcid_key_def get_agent_def intro!: table_set)

lemma accounts_revoke_key [account_steps]: "accounts_ok cfg s \<Longrightarrow> accounts_ok cfg (revoke_orcid_key k now s)"
  by (auto simp: accounts_ok_def revoke_orcid_key_def get_agent_def dest: table_get intro!: table_set split: option.split)

lemma accounts_add_challenge [account_steps]: "accounts_ok cfg s \<Longrightarrow> accounts_ok cfg (add_challenge c s)"
  by (auto simp: accounts_ok_def add_challenge_def get_agent_def intro!: table_set)

lemma accounts_consume_challenge [account_steps]: "accounts_ok cfg s \<Longrightarrow> accounts_ok cfg (consume_challenge c s)"
  by (auto simp: accounts_ok_def consume_challenge_def get_agent_def dest: table_get intro!: table_set split: option.split)

lemma accounts_add_paste_code [account_steps]: "accounts_ok cfg s \<Longrightarrow> accounts_ok cfg (add_paste_code e s)"
  by (auto simp: accounts_ok_def add_paste_code_def get_agent_def intro!: table_set)

lemma accounts_consume_paste_code [account_steps]: "accounts_ok cfg s \<Longrightarrow> accounts_ok cfg (consume_paste_code c s)"
  by (auto simp: accounts_ok_def consume_paste_code_def get_agent_def dest: table_get intro!: table_set split: option.split)

text \<open>Everything else leaves the five tables as they are.\<close>

definition same_accounts :: "store_state \<Rightarrow> store_state \<Rightarrow> bool" where
  "same_accounts s s' \<longleftrightarrow> st_tokens s' = st_tokens s \<and> st_agents s' = st_agents s \<and>
     st_orcid_keys s' = st_orcid_keys s \<and> st_challenges s' = st_challenges s \<and> st_paste_codes s' = st_paste_codes s"

lemma accounts_same: "same_accounts s s' \<Longrightarrow> accounts_ok cfg s' = accounts_ok cfg s"
  by (simp add: accounts_ok_def same_accounts_def get_agent_def)

definition same_corpus :: "store_state \<Rightarrow> store_state \<Rightarrow> bool" where
  "same_corpus s s' \<longleftrightarrow> st_papers s' = st_papers s \<and> st_cirs s' = st_cirs s \<and> st_claims s' = st_claims s \<and>
     st_annotations s' = st_annotations s \<and> st_sources s' = st_sources s \<and> st_rendered_pdfs s' = st_rendered_pdfs s"

lemma corpus_same: "same_corpus s s' \<Longrightarrow> st_claim_views s' = st_claim_views s \<Longrightarrow> corpus_ok s' = corpus_ok s"
  by (simp add: corpus_ok_def same_corpus_def get_cir_def get_paper_def)

section \<open>Handlers and the accounts\<close>

lemma get_agent_frames [simp]:
  "get_agent (add_token r s) h = get_agent s h" "get_agent (consume_paste_code i s) h = get_agent s h"
  "get_agent (consume_challenge i s) h = get_agent s h"
  by (simp_all add: get_agent_def add_token_def consume_paste_code_def consume_challenge_def split: option.split)

lemma accounts_issue_token [account_steps]:
  "accounts_ok cfg s \<Longrightarrow> ttl = ttl_of cfg i \<Longrightarrow> (\<And>h. i = AgentIdentity h \<Longrightarrow> get_agent s h \<noteq> None) \<Longrightarrow>
    accounts_ok cfg (issue_token tok i ttl now s)"
  unfolding issue_token_def by (rule accounts_add_token) auto

lemma agent_token_enrolled:
  "accounts_ok cfg s \<Longrightarrow> get_token s t = Some r \<Longrightarrow> tr_identity r = AgentIdentity h \<Longrightarrow> get_agent s h \<noteq> None"
  by (auto simp: accounts_ok_def get_token_def good_token_def dest: table_get)

lemma accounts_orcid_callback: "accounts_ok cfg s \<Longrightarrow> accounts_ok cfg (snd (orcid_callback post cfg code uri fresh now s))"
  by (auto simp: orcid_callback_def intro!: account_steps split: sum.split)

lemma accounts_orcid_render: "accounts_ok cfg s \<Longrightarrow> accounts_ok cfg (snd (orcid_render post cfg code url raw now s))"
  by (auto simp: orcid_render_def intro!: account_steps split: sum.split)

lemma accounts_exchange_paste: "accounts_ok cfg s \<Longrightarrow> accounts_ok cfg (snd (orcid_exchange_paste cfg code fresh now s))"
  by (auto simp: orcid_exchange_paste_def intro!: account_steps split: option.split)

lemma accounts_agent_enroll: "accounts_ok cfg s \<Longrightarrow> accounts_ok cfg (snd (agent_enroll ed cfg body fresh now s))"
  by (auto simp: agent_enroll_def get_agent_def [of "add_agent _ _"] add_agent_def [of _ s, THEN arg_cong [where f = st_agents]]
      intro!: account_steps split: option.split pyval.split)

lemma accounts_enroll_endpoint:
  "accounts_ok cfg s \<Longrightarrow> accounts_ok cfg (snd (enroll_endpoint em ed cfg body fresh now s))"
  by (simp add: enroll_endpoint_def accounts_agent_enroll split: option.split)

lemma accounts_rotate_key: "accounts_ok cfg s \<Longrightarrow> accounts_ok cfg (snd (agent_rotate_key ed cfg h body auth now s))"
  by (auto simp: agent_rotate_key_def Let_def intro!: account_steps split: option.split pyval.split identity.split)

lemma accounts_challenge: "accounts_ok cfg s \<Longrightarrow> accounts_ok cfg (snd (anonymous_challenge cfg fresh now s))"
  by (auto simp: anonymous_challenge_def Let_def intro!: account_steps)

lemma accounts_verify: "accounts_ok cfg s \<Longrightarrow> accounts_ok cfg (snd (anonymous_verify sv cfg i resp fresh now s))"
  by (auto simp: anonymous_verify_def Let_def intro!: account_steps split: option.split sum.split)

lemma accounts_refresh: "accounts_ok cfg s \<Longrightarrow> accounts_ok cfg (snd (refresh_token cfg auth fresh now s))"
  by (auto simp: refresh_token_def Let_def dest: agent_token_enrolled intro!: account_steps split: option.split identity.split)

lemma accounts_bind_key: "accounts_ok cfg s \<Longrightarrow> accounts_ok cfg (snd (bind_orcid_key ed cfg a body fresh now s))"
  by (auto simp: bind_orcid_key_def Let_def intro!: account_steps split: option.split pyval.split identity.split)

lemma accounts_bind_endpoint: "accounts_ok cfg s \<Longrightarrow> accounts_ok cfg (snd (bind_endpoint ed cfg a body fresh now s))"
  by (simp add: bind_endpoint_def accounts_bind_key)

lemma accounts_revoke_endpoint: "accounts_ok cfg s \<Longrightarrow> accounts_ok cfg (snd (revoke_orcid_key_endpoint a k now s))"
  by (auto simp: revoke_orcid_key_endpoint_def intro!: account_steps split: option.split identity.split)

lemma accounts_identify:
  assumes "accounts_ok cfg s" "require_identity allow cfg m auth now s = (res, s')"
  shows "accounts_ok cfg s'"
proof -
  have tok: "accounts_ok cfg s1" if "identity_from_token t now s = (i, s1)" for t i s1
    using that assms(1) by (auto simp: identity_from_token_def intro!: account_steps split: option.splits if_splits)
  have rec: "accounts_ok cfg s2 = accounts_ok cfg s1" if "record_request t now s1 = (n, s2)" for t n s1 s2
    by (rule accounts_same) (use that in \<open>auto simp: record_request_def same_accounts_def Let_def\<close>)
  from assms show ?thesis
    by (auto simp: require_identity_def Let_def tok rec split: if_splits option.splits prod.splits)
qed

section \<open>Handlers and the corpus\<close>

text \<open>Logging in, binding keys and the rate limit do not touch the corpus and the views.\<close>

definition same_data :: "store_state \<Rightarrow> store_state \<Rightarrow> bool" where
  "same_data s s' \<longleftrightarrow> same_corpus s s' \<and> st_claim_views s' = st_claim_views s"

named_theorems data_frames \<open>operations that leave the corpus as it is\<close>

lemma same_data_refl [data_frames]: "same_data s s"
  by (simp add: same_data_def same_corpus_def)

lemma same_data_primitives [data_frames]:
  "same_data s t \<Longrightarrow> same_data s (add_token r t)"
  "same_data s t \<Longrightarrow> same_data s (issue_token tok ident ttl now t)"
  "same_data s t \<Longrightarrow> same_data s (revoke_token tok t)"
  "same_data s t \<Longrightarrow> same_data s (add_agent a t)"
  "same_data s t \<Longrightarrow> same_data s (add_orcid_key k t)"
  "same_data s t \<Longrightarrow> same_data s (revoke_orcid_key i now t)"
  "same_data s t \<Longrightarrow> same_data s (add_challenge ch t)"
  "same_data s t \<Longrightarrow> same_data s (consume_challenge i t)"
  "same_data s t \<Longrightarrow> same_data s (add_paste_code e t)"
  "same_data s t \<Longrightarrow> same_data s (consume_paste_code i t)"
  "same_data s t \<Longrightarrow> same_data s (add_idempotency tok key en t)"
  by (simp_all add: same_data_def same_corpus_def add_token_def issue_token_def revoke_token_def add_agent_def
      add_orcid_key_def revoke_orcid_key_def add_challenge_def consume_challenge_def add_paste_code_def
      consume_paste_code_def add_idempotency_def split: option.split)

lemma data_identify: "require_identity allow cfg m auth now s = (res, s') \<Longrightarrow> same_data s s'"
  by (auto simp: require_identity_def identity_from_token_def record_request_def same_data_def same_corpus_def
      revoke_token_def Let_def split: if_splits option.splits prod.splits)

lemma data_logins:
  "same_data s (snd (orcid_callback post cfg code uri fresh now s))"
  "same_data s (snd (orcid_render post cfg code url raw now s))"
  "same_data s (snd (orcid_exchange_paste cfg code fresh now s))"
  by (auto simp: orcid_callback_def orcid_render_def orcid_exchange_paste_def
      intro!: data_frames split: option.split sum.split)

lemma data_agents:
  "same_data s (snd (enroll_endpoint em ed cfg body fresh now s))"
  "same_data s (snd (agent_rotate_key ed cfg h rbody auth now s))"
  by (auto simp: enroll_endpoint_def agent_enroll_def agent_rotate_key_def Let_def
      intro!: data_frames split: option.split pyval.split identity.split)

lemma data_anonymous:
  "same_data s (snd (anonymous_challenge cfg fresh now s))"
  "same_data s (snd (anonymous_verify sv cfg i resp fresh now s))"
  "same_data s (snd (refresh_token cfg auth fresh now s))"
  by (auto simp: anonymous_challenge_def anonymous_verify_def refresh_token_def Let_def
      intro!: data_frames split: option.split sum.split identity.split)

lemma data_open:
  assumes "open_effect D c s = Some s'" "\<forall>i. cl_operation c \<noteq> ViewClaim i"
  shows "same_data s s'"
  using assms by (auto simp: open_effect_def Let_def data_logins data_agents data_anonymous same_data_refl split: operation.splits)

lemma data_keys:
  "same_data s (snd (bind_endpoint ed cfg a body fresh now s))"
  "same_data s (snd (revoke_orcid_key_endpoint a k now s))"
  by (auto simp: bind_endpoint_def bind_orcid_key_def revoke_orcid_key_endpoint_def Let_def
      intro!: data_frames split: option.split pyval.split identity.split)

lemma data_snapshot: "same_data s (snd (create_snapshot ac a fresh now s)) \<and> same_accounts s (snd (create_snapshot ac a fresh now s))"
  by (auto simp: create_snapshot_def Let_def same_data_def same_corpus_def same_accounts_def set_latest_snapshot_def
      save_snapshot_blob_def split: sum.split)

lemma corpus_data: "same_data s s' \<Longrightarrow> corpus_ok s' = corpus_ok s"
  by (simp add: same_data_def corpus_same)

text \<open>New annotations: entries under their own ids that passed the endpoint's checks.\<close>

definition put_all :: "('k \<times> 'v) list \<Rightarrow> ('k \<times> 'v) list \<Rightarrow> ('k \<times> 'v) list" where
  "put_all bs t = fold (\<lambda>(k, v). dict_set k v) bs t"

lemma put_all_append: "put_all (bs @ cs) t = put_all cs (put_all bs t)"
  by (simp add: put_all_def)

lemma put_all_single [simp]: "put_all [] t = t" "put_all [(k, v)] t = dict_set k v t"
  by (simp_all add: put_all_def)

lemma table_put_all: "table P t \<Longrightarrow> (\<And>k v. (k, v) \<in> set bs \<Longrightarrow> P k v) \<Longrightarrow> table P (put_all bs t)"
  unfolding put_all_def by (induction bs arbitrary: t) (auto intro: table_set)

lemma put_all_keeps: "dict_get t k \<noteq> None \<Longrightarrow> dict_get (put_all bs t) k \<noteq> None"
  unfolding put_all_def by (induction bs arbitrary: t) auto

definition reply_exists :: "store_state \<Rightarrow> pydict \<Rightarrow> bool" where
  "reply_exists s b \<longleftrightarrow> (truthy (dget b ''in_reply_to'') \<longrightarrow>
     (\<exists>i. dget b ''in_reply_to'' = PStr i \<and> get_annotation s i \<noteq> None))"

definition admissible :: "store_state \<Rightarrow> string \<Rightarrow> pydict \<Rightarrow> bool" where
  "admissible s i b \<longleftrightarrow> named i b \<and> check_target s b = None \<and> reply_exists s b \<and> dict_has b ''created_by''"

text \<open>A batch is checked entry by entry: an entry may reply to an earlier one.\<close>

definition put_note :: "string \<Rightarrow> pydict \<Rightarrow> store_state \<Rightarrow> store_state" where
  "put_note i b s = s\<lparr>st_annotations := dict_set i b (st_annotations s)\<rparr>"

fun admissible_all :: "store_state \<Rightarrow> (string \<times> pydict) list \<Rightarrow> bool" where
  "admissible_all s [] = True"
| "admissible_all s ((i, b) # bs) = (admissible s i b \<and> admissible_all (put_note i b s) bs)"

definition annotated :: "store_state \<Rightarrow> store_state \<Rightarrow> bool" where
  "annotated s s' \<longleftrightarrow> same_accounts s s' \<and>
     (\<exists>bs. admissible_all s bs \<and> same_data (s\<lparr>st_annotations := put_all bs (st_annotations s)\<rparr>) s')"

lemma validated_reply: "validate_in_reply_to s b = None \<Longrightarrow> reply_exists s b"
  by (auto simp: validate_in_reply_to_def reply_exists_def find_annotation_def Let_def
      split: if_splits sum.splits option.splits pyval.splits)

lemma put_all_note: "put_note i b s\<lparr>st_annotations := put_all bs (st_annotations (put_note i b s))\<rparr> =
    s\<lparr>st_annotations := put_all ((i, b) # bs) (st_annotations s)\<rparr>"
  by (simp add: put_note_def put_all_def)

lemma admissible_append:
  "admissible_all s (bs @ cs) = (admissible_all s bs \<and> admissible_all (s\<lparr>st_annotations := put_all bs (st_annotations s)\<rparr>) cs)"
proof (induction s bs rule: admissible_all.induct)
  case (2 s i b bs)
  then show ?case by (simp add: put_all_note)
qed simp

lemma admissible_named: "admissible_all s bs \<Longrightarrow> (i, b) \<in> set bs \<Longrightarrow> named i b"
  by (induction s bs rule: admissible_all.induct) (auto simp: admissible_def)

lemma same_accounts_refl [simp]: "same_accounts s s"
  by (simp add: same_accounts_def)

lemma same_accounts_annotations [simp]:
  "same_accounts s (s\<lparr>st_annotations := t\<rparr>)" "same_accounts s (add_idempotency tok k e t') = same_accounts s t'"
  by (simp_all add: same_accounts_def add_idempotency_def)

lemma annotated_refl [simp]: "annotated s s"
  by (auto simp: annotated_def same_data_refl intro: exI [of _ "[]"])

lemma annotated_one:
  assumes "dget b ''id'' = PStr i" "check_target s b = None" "validate_in_reply_to s b = None" "dict_has b ''created_by''"
  shows "annotated s (s\<lparr>st_annotations := dict_set i b (st_annotations s)\<rparr>)"
    and "annotated s (add_idempotency tok key e (s\<lparr>st_annotations := dict_set i b (st_annotations s)\<rparr>))"
  using assms validated_reply by (auto simp: annotated_def admissible_def named_def intro!: exI [of _ "[(i, b)]"] data_frames)

lemma check_target_cong:
  assumes "get_claim s' = get_claim s" "get_paper s' = get_paper s"
  shows "check_target s' = check_target s"
  unfolding check_target_def assms by (rule refl)

lemma admissible_same: "same_data s s' \<Longrightarrow> admissible s' = admissible s"
  using check_target_cong [of s' s]
  by (simp add: admissible_def reply_exists_def same_data_def same_corpus_def get_claim_def get_paper_def get_annotation_def
      fun_eq_iff)

lemma same_data_note: "same_data s s' \<Longrightarrow> same_data (put_note i b s) (put_note i b s')"
  by (simp add: same_data_def same_corpus_def put_note_def)

lemma admissible_all_same: "same_data s s' \<Longrightarrow> admissible_all s' bs = admissible_all s bs"
proof (induction s bs arbitrary: s' rule: admissible_all.induct)
  case (2 s i b bs)
  show ?case using "2.IH" [OF same_data_note [OF "2.prems"]] admissible_same [OF "2.prems"] by simp
qed simp

lemma annotated_trans:
  assumes "annotated s t" "annotated t u"
  shows "annotated s u"
proof -
  from assms(1) obtain bs where bs: "same_accounts s t" "admissible_all s bs"
    "same_data (s\<lparr>st_annotations := put_all bs (st_annotations s)\<rparr>) t" by (auto simp: annotated_def)
  from assms(2) obtain cs where cs: "same_accounts t u" "admissible_all t cs"
    "same_data (t\<lparr>st_annotations := put_all cs (st_annotations t)\<rparr>) u" by (auto simp: annotated_def)
  have "same_accounts s u" using bs(1) cs(1) by (simp add: same_accounts_def)
  moreover have "same_data (s\<lparr>st_annotations := put_all (bs @ cs) (st_annotations s)\<rparr>) u"
    using bs(3) cs(3) by (simp add: same_data_def same_corpus_def put_all_append)
  moreover have "admissible_all s (bs @ cs)"
    using bs(2) cs(2) admissible_all_same [OF bs(3)] by (simp add: admissible_append)
  ultimately show ?thesis unfolding annotated_def by blast
qed

lemma create_annotation_effect: "annotated s (snd (create_annotation v a body k h fresh now s))"
  by (auto simp: create_annotation_def Let_def dest!: add_annotation_stores intro: annotated_one
      split: option.splits if_splits sum.split)

lemma bulk_item_effect: "bulk_item v idx fresh item s = Inr (r, s') \<Longrightarrow> annotated s s'"
  by (auto simp: bulk_item_def Let_def rbind_Inr_iff dest!: add_annotation_stores intro: annotated_one(1)
      split: pyval.splits option.splits if_splits)

lemma bulk_items_effect: "annotated s (snd (bulk_items v fresh idx xs s))"
proof (induction xs arbitrary: idx s)
  case (Cons x xs)
  show ?case
  proof (cases "bulk_item v idx (fresh idx) x s")
    case (Inr b)
    obtain r s1 where b: "b = (r, s1)" by (cases b)
    with Inr have "annotated s s1" by (auto intro: bulk_item_effect)
    with Cons.IH [of s1 "Suc idx"] Inr b show ?thesis
      by (auto intro: annotated_trans split: sum.split prod.split)
  qed simp
qed simp

lemma create_bulk_effect: "annotated s (snd (create_annotations_bulk v a body fresh s))"
  using bulk_items_effect [of s v fresh 0]
  by (auto simp: create_annotations_bulk_def split: pyval.split prod.split) (metis snd_conv)

lemma corpus_annotated:
  assumes "annotated s s'" "corpus_ok s"
  shows "corpus_ok s'"
proof -
  from assms(1) obtain bs where bs: "admissible_all s bs"
    "same_data (s\<lparr>st_annotations := put_all bs (st_annotations s)\<rparr>) s'" by (auto simp: annotated_def)
  have "table named (put_all bs (st_annotations s))"
    by (rule table_put_all) (use assms(2) admissible_named [OF bs(1)] in \<open>auto simp: corpus_ok_def\<close>)
  then have "corpus_ok (s\<lparr>st_annotations := put_all bs (st_annotations s)\<rparr>)"
    using assms(2) by (simp add: corpus_ok_def get_cir_def get_paper_def)
  with corpus_data [OF bs(2)] show ?thesis by simp
qed

section \<open>Submissions and views\<close>

lemma same_accounts_trans: "same_accounts s t \<Longrightarrow> same_accounts t u \<Longrightarrow> same_accounts s u"
  by (simp add: same_accounts_def)

lemma add_claims_named: "add_claims cs s = (x, s') \<Longrightarrow> table named (st_claims s) \<Longrightarrow> table named (st_claims s')"
proof (induction cs s rule: add_claims.induct)
  case (2 c cs s)
  show ?case
  proof (cases "add_claim c s")
    case (Inr s1)
    then obtain i where "item_id c = Inr i" "s1 = s\<lparr>st_claims := dict_set i c (st_claims s)\<rparr>"
      by (auto simp: add_claim_def rbind_Inr_iff)
    moreover from this(1) have "named i c"
      by (auto simp: named_def item_id_def dget_def split: option.splits pyval.splits)
    ultimately have "table named (st_claims s1)" using "2.prems"(2) by (auto intro: table_set)
    with "2.IH" [OF Inr] "2.prems" Inr show ?thesis by auto
  qed (use "2.prems" in auto)
qed auto

lemma add_claims_keeps: "add_claims cs s = (x, s') \<Longrightarrow> get_claim s i \<noteq> None \<Longrightarrow> get_claim s' i \<noteq> None"
proof (induction cs s rule: add_claims.induct)
  case (2 c cs s)
  show ?case
  proof (cases "add_claim c s")
    case (Inr s1)
    then have "get_claim s1 i \<noteq> None" using "2.prems"(2) by (auto simp: add_claim_def rbind_Inr_iff get_claim_def)
    with "2.IH" [OF Inr] "2.prems" Inr show ?thesis by auto
  qed (use "2.prems" in auto)
qed auto

lemma corpus_recorded:
  assumes "corpus_ok s" "dget d ''id'' = PStr i"
  shows "corpus_ok (recorded r i d s)"
proof -
  have p: "named i (paper_metadata (stamped r i d))" "named i (stamped r i d)"
    using assms(2) by (simp_all add: named_def paper_metadata_def dget_def map_of_filter_keys stamped_dget [unfolded dget_def])
  have "st_claims (recorded r i d s) = st_claims s" "st_annotations (recorded r i d s) = st_annotations s"
    "st_claim_views (recorded r i d s) = st_claim_views s"
    "st_papers (recorded r i d s) = dict_set i (paper_metadata (stamped r i d)) (st_papers s)"
    "st_cirs (recorded r i d s) = dict_set i (stamped r i d) (st_cirs s)"
    by (simp_all add: recorded_def uploaded_def Let_def split: option.split)
  then show ?thesis
    using assms(1) p
    by (auto simp: corpus_ok_def recorded_gets intro!: table_set elim!: table_mono)
qed

text \<open>What persisting leaves: the record, more claims, and perhaps a summary of the revision.\<close>

definition summarised :: "store_state \<Rightarrow> string \<Rightarrow> store_state \<Rightarrow> bool" where
  "summarised t i s' \<longleftrightarrow> same_data t s' \<or>
     (\<exists>j b. named j b \<and> dget b ''target_type'' = PStr ''paper'' \<and> dget b ''target_id'' = PStr i \<and>
        dict_has b ''created_by'' \<and> reply_exists t b \<and> same_data (t\<lparr>st_annotations := dict_set j b (st_annotations t)\<rparr>) s')"

lemma summarised_note:
  "summarised t i (t\<lparr>st_annotations := dict_set (''ann-'' @ se_fresh_hex env)
     (revision_summary_annotation env i prev summary ident) (st_annotations t)\<rparr>)"
  unfolding summarised_def
  by (intro disjI2 exI [of _ "''ann-'' @ se_fresh_hex env"] exI [of _ "revision_summary_annotation env i prev summary ident"])
     (simp add: named_def revision_summary_annotation_def reply_exists_def dget_def dict_has_def same_data_refl)

lemma summarised_refl: "summarised t i t"
  by (simp add: summarised_def same_data_refl)

lemma summarised_idempotency: "summarised t i s' \<Longrightarrow> summarised t i (add_idempotency tok k e s')"
  by (auto simp: summarised_def intro: data_frames)

lemma persist_effect:
  assumes "dget d ''id'' = PStr i" "persist_submission env a r i d diff s = (res, s')"
  shows "\<exists>cs x t. add_claims cs (recorded r i d s) = (x, t) \<and> summarised t i s' \<and> same_accounts t s'"
proof (cases "py_iter (py_or (dget d ''claims'') (PList []))")
  case (Inl e)
  with assms have "s' = recorded r i d s" by (simp add: persist_recorded)
  then show ?thesis by (auto simp: summarised_refl intro!: exI [of _ "[]"])
next
  case (Inr cs)
  obtain x t where t: "add_claims cs (recorded r i d s) = (x, t)" by fastforce
  have "summarised t i s' \<and> same_accounts t s'"
  proof (cases x)
    case (Inl e)
    with assms Inr t show ?thesis by (simp add: persist_recorded summarised_refl)
  next
    case x: (Inr u)
    show ?thesis
      using assms Inr t x
      by (auto simp: persist_recorded Let_def summarised_refl
          intro!: summarised_idempotency summarised_note [unfolded append_Cons append_Nil] split: option.splits)
  qed
  with t show ?thesis by blast
qed

lemma submit_effect:
  assumes "submit_paper env a r s = Some (res, s')"
  shows "s' = s \<or> (\<exists>i d cs x t. dget d ''id'' = PStr i \<and> add_claims cs (recorded r i d s) = (x, t) \<and>
    summarised t i s' \<and> same_accounts s s')"
proof -
  have rec: "same_accounts s t" if "add_claims cs (recorded r i d s) = (x, t)" for cs x t i d
  proof -
    have "same_accounts s (recorded r i d s)"
      by (simp add: same_accounts_def recorded_def uploaded_def Let_def split: option.split)
    with add_claims_frame [OF that] show ?thesis by (auto simp: same_accounts_def)
  qed
  show ?thesis
  proof (cases "s' = s")
    case False
    with assms obtain i d diff res' where p: "prepare_submission env a r s = Some (Inr (i, d, diff))"
      and q: "persist_submission env a r i d diff s = (res', s')"
      by (auto simp: submit_paper_def split: option.splits sum.splits if_splits prod.splits)
    from persist_effect [OF prepared(1) [OF p] q] obtain cs x t where
      "add_claims cs (recorded r i d s) = (x, t)" "summarised t i s'" "same_accounts t s'" by blast
    with rec prepared(1) [OF p] show ?thesis by (blast intro: same_accounts_trans)
  qed simp
qed

lemma corpus_summarised: "corpus_ok t \<Longrightarrow> summarised t i s' \<Longrightarrow> corpus_ok s'"
  by (auto simp: summarised_def corpus_data)
     (auto simp: corpus_data [symmetric] corpus_ok_def same_data_def same_corpus_def get_cir_def get_paper_def intro: table_set)

lemma corpus_submitted:
  assumes "corpus_ok s" "submit_paper env a r s = Some (res, s')"
  shows "corpus_ok s'"
  using submit_effect [OF assms(2)]
proof (elim disjE exE conjE)
  assume "s' = s"
  with assms(1) show ?thesis by simp
next
  fix i d cs x t
  assume d: "dget d ''id'' = PStr i" and t: "add_claims cs (recorded r i d s) = (x, t)" and s': "summarised t i s'"
  have rec: "corpus_ok (recorded r i d s)" by (rule corpus_recorded [OF assms(1) d])
  have "table named (st_claims t)" by (rule add_claims_named [OF t]) (use rec in \<open>simp add: corpus_ok_def\<close>)
  with add_claims_frame [OF t] rec have "corpus_ok t" by (auto simp: corpus_ok_def get_cir_def get_paper_def)
  then show ?thesis using s' by (rule corpus_summarised)
qed

section \<open>Seeding\<close>

lemma drop_claims_frame:
  "\<exists>cl vw. fold drop_claim ids s = s\<lparr>st_claims := cl, st_claim_views := vw\<rparr> \<and>
    (table named (st_claims s) \<longrightarrow> table named cl) \<and> (table (\<lambda>_ n. 0 < n) (st_claim_views s) \<longrightarrow> table (\<lambda>_ n. 0 < n) vw)"
proof (induction ids arbitrary: s)
  case Nil
  show ?case by (rule exI [of _ "st_claims s"], rule exI [of _ "st_claim_views s"]) simp
next
  case (Cons i ids)
  from Cons.IH [of "drop_claim i s"] show ?case
    by (auto simp: drop_claim_def intro: table_pop)
qed

lemma reseed_one:
  assumes "replace_seed_paper pid s = Inr s'" "corpus_ok s"
  shows "corpus_ok s' \<and> same_accounts s s'"
proof -
  from assms(1) obtain stale where s': "s' = (let t = fold drop_claim stale s in
      t\<lparr>st_papers := dict_pop pid (st_papers t), st_cirs := dict_pop pid (st_cirs t),
        st_sources := dict_pop pid (st_sources t), st_rendered_pdfs := dict_pop pid (st_rendered_pdfs t)\<rparr>)"
    by (auto simp: replace_seed_paper_def rbind_Inr_iff Let_def)
  obtain cl vw where f: "fold drop_claim stale s = s\<lparr>st_claims := cl, st_claim_views := vw\<rparr>"
    and t: "table named cl" "table (\<lambda>_ n. 0 < n) vw"
    using drop_claims_frame [of stale s] assms(2) by (auto simp: corpus_ok_def)
  have p: "wf_dict (st_papers s)" "\<And>i q. get_paper s i = Some q \<Longrightarrow> named i q \<and> get_cir s i \<noteq> None"
    "wf_dict (st_cirs s)" "\<And>i d. get_cir s i = Some d \<Longrightarrow> named i d \<and> get_paper s i \<noteq> None"
    using assms(2) by (auto simp: corpus_ok_def table_def get_paper_def get_cir_def)
  have "table (\<lambda>i q. named i q \<and> get_cir s' i \<noteq> None) (st_papers s')"
    "table (\<lambda>i d. named i d \<and> get_paper s' i \<noteq> None) (st_cirs s')"
    using p by (auto simp: s' f table_def Let_def get_paper_def get_cir_def split: if_splits)
  then show ?thesis
    using assms(2) t by (auto simp: s' f Let_def corpus_ok_def same_accounts_def)
qed

lemma reseed_all: "replace_seed_papers ids s = Inr s' \<Longrightarrow> corpus_ok s \<Longrightarrow> corpus_ok s' \<and> same_accounts s s'"
proof (induction ids arbitrary: s)
  case (Cons i ids)
  then obtain t where t: "replace_seed_paper i s = Inr t" "replace_seed_papers ids t = Inr s'"
    by (auto simp: rbind_Inr_iff)
  from reseed_one [OF t(1) Cons.prems(2)] Cons.IH [OF t(2)] show ?case by (auto intro: same_accounts_trans)
qed simp

text \<open>A load writes a paper with its structure, claims and annotations, each under its id.\<close>

lemma named_item: "item_id d = Inr i \<Longrightarrow> named i d"
  by (simp add: named_def item_id_Inr)

lemma load_claims_corpus: "load_claims owner vs s = (r, ws, t) \<Longrightarrow> corpus_ok s \<Longrightarrow> corpus_ok t"
proof (induction vs arbitrary: s r ws t)
  case (Cons v vs)
  have one: "corpus_ok u" if "add_claim c s = Inr u" for c u
    using that Cons.prems(2) by (auto simp: add_claim_def rbind_Inr_iff corpus_ok_def get_cir_def get_paper_def
        intro!: table_set dest: named_item)
  from Cons.prems show ?case
    by (auto simp: Let_def split: pyval.splits sum.splits prod.splits dest!: one intro: Cons.IH)
qed simp

lemma load_annotations_corpus: "load_annotations vs s = (r, t) \<Longrightarrow> corpus_ok s \<Longrightarrow> corpus_ok t"
proof (induction vs arbitrary: s r t)
  case (Cons v vs)
  have one: "corpus_ok u" if "add_annotation a s = Inr u" for a u
    using that Cons.prems(2) by (auto simp: add_annotation_def rbind_Inr_iff corpus_ok_def get_cir_def get_paper_def
        intro!: table_set dest: named_item)
  from Cons.prems show ?case
    by (auto split: pyval.splits sum.splits prod.splits dest!: one intro: Cons.IH)
qed simp

lemma share_claims_corpus: "corpus_ok s \<Longrightarrow> corpus_ok (share_claims shared pid ws s)"
proof -
  assume c: "corpus_ok s"
  have n: "named pid d \<and> get_paper s pid \<noteq> None" if "get_cir s pid = Some d" for d
    using c that by (auto simp: corpus_ok_def get_cir_def dest: table_get)
  from c show ?thesis
    by (auto simp: share_claims_def corpus_ok_def get_cir_def get_paper_def named_def split: option.split
        intro!: table_set elim!: table_mono dest: n [unfolded get_cir_def get_paper_def named_def])
qed

lemma store_paper_corpus:
  assumes "dget cir ''id'' = PStr pid" "corpus_ok s"
  shows "corpus_ok (s\<lparr>st_papers := dict_set pid (paper_metadata cir) (st_papers s), st_cirs := dict_set pid cir (st_cirs s)\<rparr>)"
proof -
  have "named pid (paper_metadata cir)"
    using assms(1) by (simp add: named_def paper_metadata_def dget_def map_of_filter_keys)
  then show ?thesis using assms
    by (auto simp: corpus_ok_def get_cir_def get_paper_def named_def intro!: table_set elim!: table_mono)
qed

lemma store_records_corpus:
  assumes "store_records shared pid owner cir s = (r, t)" "dget cir ''id'' = PStr pid" "corpus_ok s"
  shows "corpus_ok t"
proof -
  have "corpus_ok (share_claims shared pid ws u)"
    if "load_claims owner vs (s\<lparr>st_papers := dict_set pid (paper_metadata cir) (st_papers s),
          st_cirs := dict_set pid cir (st_cirs s)\<rparr>) = (q, ws, u)" for vs q ws u
    by (rule share_claims_corpus [OF load_claims_corpus [OF that store_paper_corpus [OF assms(2,3)]]])
  with assms(1) store_paper_corpus [OF assms(2,3)] show ?thesis
    by (auto simp: store_records_def store_paper_rows [OF assms(2)] Let_def split: sum.splits prod.splits
        dest!: load_annotations_corpus)
qed

lemma save_files_corpus: "save_files fs p pid cir s = (r, t) \<Longrightarrow> corpus_ok t = corpus_ok s"
  by (auto simp: save_files_def save_source_def save_rendered_pdf_def corpus_ok_def get_cir_def get_paper_def
      split: option.splits sum.splits prod.splits)

lemma load_cir_corpus:
  assumes "load_cir_into_store shared env p s = (r, t)" "corpus_ok s"
  shows "corpus_ok t"
proof -
  consider "t = s" | pid cir q where "save_files (sd_fs env) p pid cir s = (q, t)"
    | pid slug cir minted c' m n u x where "read_seed env p (list_papers s) = Inr (Some (pid, slug, cir, minted))"
      "save_files (sd_fs env) p pid cir s = (Inr (c', m, n), u)" "store_records shared pid slug c' u = (x, t)"
    using assms(1) by (auto simp: load_cir_into_store_def split: sum.splits option.splits prod.splits)
  then show ?thesis
  proof cases
    case 3
    have "dget c' ''id'' = PStr pid" using save_files_id [OF 3(2)] read_seed_id(1) [OF 3(1)] by simp
    from store_records_corpus [OF 3(3) this] save_files_corpus [OF 3(2)] assms(2) show ?thesis by simp
  qed (use assms(2) save_files_corpus in auto)
qed

lemma load_files_corpus: "load_files shared env ps s = (r, t) \<Longrightarrow> corpus_ok s \<Longrightarrow> corpus_ok t"
proof (induction ps arbitrary: s r)
  case (Cons p ps)
  from Cons.prems show ?case
    by (auto split: sum.splits prod.splits dest: load_cir_corpus intro: Cons.IH)
qed simp

lemma same_access_accounts: "same_access s t \<Longrightarrow> same_accounts s t"
  by (simp add: same_access_def same_accounts_def)

lemma load_files_ok: "load_files shared env ps s = (r, t) \<Longrightarrow> corpus_ok s \<Longrightarrow> corpus_ok t \<and> same_accounts s t"
  using touches_load_files [of shared env ps s r t] load_files_corpus [of shared env ps s r t] same_access_accounts
  by (auto simp: touches_def)

lemma clear_corpus_ok: "corpus_ok (clear_corpus s) \<and> same_accounts s (clear_corpus s)"
  by (simp add: corpus_ok_def clear_corpus_def same_accounts_def table_empty)

lemma seed_store_ok:
  assumes "seed_store_cmd shared env rt reset preserve s = (x, s')" "corpus_ok s"
  shows "corpus_ok s' \<and> same_accounts s s'"
proof -
  let ?files = "iter_cir_files (sd_fs env) rt" and ?s1 = "if reset then clear_corpus s else s"
  have start: "corpus_ok ?s1 \<and> same_accounts s ?s1" using assms(2) clear_corpus_ok by simp
  consider "s' = s" | "s' = ?s1" | u r where "(if preserve \<and> ?files \<noteq> [] then replace_seeds env ?files ?s1 else Inr ?s1) = Inr u"
      "s' = u \<or> load_files shared env ?files u = (r, s')"
    using assms(1) by (fastforce simp: seed_store_cmd_def Let_def split: if_splits sum.splits prod.splits)
  then show ?thesis
  proof cases
    case 3
    have "corpus_ok u \<and> same_accounts ?s1 u"
    proof (cases "preserve \<and> ?files \<noteq> []")
      case True
      with 3(1) obtain ids where "replace_seed_papers ids ?s1 = Inr u" using replace_seeds_ids [of env ?files ?s1 u] by auto
      from reseed_all [OF this] start show ?thesis by blast
    next
      case False
      with 3(1) start have "u = ?s1" by (simp only: if_not_P if_False sum.inject simp_thms)
      with start show ?thesis by simp
    qed
    with start 3(2) load_files_ok [of shared env ?files u r s'] show ?thesis by (blast intro: same_accounts_trans)
  qed (use start assms(2) in auto)
qed

lemma boot_seed_ok:
  assumes "boot_seed shared env rt s = (x, s')" "corpus_ok s"
  shows "corpus_ok s' \<and> same_accounts s s'"
  using assms by (auto simp: boot_seed_def split: if_splits prod.splits dest: load_files_ok)

section \<open>Every step keeps the tables\<close>

lemma accounts_open:
  assumes "open_effect D c s = Some s'" "accounts_ok (dp_settings D) s"
  shows "accounts_ok (dp_settings D) s'"
proof -
  have view: "accounts_ok cfg (snd (bump_claim_view i t)) = accounts_ok cfg t" for cfg i t
    by (rule accounts_same) (simp add: bump_claim_view_def same_accounts_def Let_def)
  show ?thesis
    using assms
    by (auto simp: open_effect_def Let_def view accounts_orcid_callback accounts_orcid_render accounts_exchange_paste
        accounts_enroll_endpoint accounts_rotate_key accounts_challenge accounts_verify accounts_refresh
        split: operation.splits option.splits)
qed

lemma corpus_view: "corpus_ok s \<Longrightarrow> corpus_ok (snd (bump_claim_view i s))"
proof -
  assume c: "corpus_ok s"
  then have "0 \<le> get_claim_views s i" by (auto simp: corpus_ok_def get_claim_views_def dest: table_get split: option.split)
  with c show ?thesis
    by (auto simp: bump_claim_view_def Let_def corpus_ok_def get_cir_def get_paper_def intro: table_set)
qed

lemma corpus_open:
  assumes "open_effect D c s = Some s'" "corpus_ok s"
  shows "corpus_ok s'"
proof (cases "\<exists>i. cl_operation c = ViewClaim i")
  case True
  with assms show ?thesis by (auto simp: open_effect_def Let_def corpus_view split: option.splits)
next
  case False
  with data_open [OF assms(1)] assms(2) show ?thesis by (auto simp: corpus_data)
qed

text \<open>The three kinds of effect of the endpoints for named identities.\<close>

lemma named_effect_cases:
  assumes "named_effect D c a s = Some s'"
  shows "same_data s s' \<and> (accounts_ok (dp_settings D) s \<longrightarrow> accounts_ok (dp_settings D) s') \<or> annotated s s' \<or>
    (\<exists>env r res. submit_paper env a r s = Some (res, s'))"
  using assms data_snapshot [of s, THEN conjunct1] data_snapshot [of s, THEN conjunct2, THEN accounts_same]
  by (auto simp: named_effect_def Let_def data_keys accounts_bind_endpoint accounts_revoke_endpoint create_annotation_effect
      create_bulk_effect accounts_same split: operation.splits)

lemma named_effect_ok:
  assumes "named_effect D c a s = Some s'" "server_ok (dp_settings D) s"
  shows "server_ok (dp_settings D) s'"
  using named_effect_cases [OF assms(1)]
proof (elim disjE exE conjE)
  assume "annotated s s'"
  with assms(2) show ?thesis by (auto simp: server_ok_def corpus_annotated annotated_def accounts_same)
next
  fix env r res
  assume sub: "submit_paper env a r s = Some (res, s')"
  from submit_effect [OF sub] have "same_accounts s s'" by auto
  with corpus_submitted [OF _ sub] assms(2) show ?thesis by (simp add: server_ok_def accounts_same)
qed (use assms(2) in \<open>simp add: server_ok_def corpus_data\<close>)

lemma identify_ok: "identify D c s = (res, s') \<Longrightarrow> server_ok (dp_settings D) s \<Longrightarrow> server_ok (dp_settings D) s'"
  unfolding identify_def by (auto simp: server_ok_def corpus_data dest: accounts_identify data_identify)

lemma step_ok: "server_step D s ev s' \<Longrightarrow> server_ok (dp_settings D) s \<Longrightarrow> server_ok (dp_settings D) s'"
proof (induction rule: server_step.induct)
  case (opened c s s')
  then show ?case by (auto simp: server_ok_def intro: accounts_open corpus_open)
next
  case (seeded shared env rt reset preserve s x s')
  then show ?case using seed_store_ok [OF seeded(1)] by (auto simp: server_ok_def accounts_same)
next
  case (booted shared env rt s x s')
  then show ?case using boot_seed_ok [OF booted(1)] by (auto simp: server_ok_def accounts_same)
qed (auto intro: identify_ok named_effect_ok)

lemma server_ok_empty: "server_ok cfg empty_store"
  by (simp add: server_ok_def accounts_empty) (simp add: corpus_ok_def empty_store_def table_empty)

lemma reachable_ok: "reachable D s \<Longrightarrow> server_ok (dp_settings D) s"
  by (induction rule: reachable.induct) (auto intro: server_ok_empty step_ok)

lemma reachable_ids_match:
  assumes "reachable D s"
  shows "ids_match s"
proof -
  from reachable_ok [OF assms] have w: "wf_dict (st_papers s)" and n: "\<And>i p. get_paper s i = Some p \<Longrightarrow> named i p"
    by (auto simp: server_ok_def corpus_ok_def table_def get_paper_def)
  have "dget p ''id'' = PStr i" if "(i, p) \<in> set (st_papers s)" for i p
    using n [of i p] map_of_is_SomeI [OF w that] by (simp add: get_paper_def named_def)
  then show ?thesis by (auto simp: ids_match_def)
qed

section \<open>Nothing is lost\<close>

definition keeps :: "store_state \<Rightarrow> store_state \<Rightarrow> bool" where
  "keeps s s' \<longleftrightarrow> (\<forall>i.
     (get_paper s i \<noteq> None \<longrightarrow> get_paper s' i \<noteq> None) \<and> (get_cir s i \<noteq> None \<longrightarrow> get_cir s' i \<noteq> None) \<and>
     (load_source s i \<noteq> None \<longrightarrow> load_source s' i \<noteq> None) \<and> (get_claim s i \<noteq> None \<longrightarrow> get_claim s' i \<noteq> None) \<and>
     (get_annotation s i \<noteq> None \<longrightarrow> get_annotation s' i \<noteq> None) \<and> get_claim_views s i \<le> get_claim_views s' i)"

lemma keeps_refl: "keeps s s"
  by (simp add: keeps_def)

lemma keeps_trans: "keeps s t \<Longrightarrow> keeps t u \<Longrightarrow> keeps s u"
  unfolding keeps_def by (meson order_trans)

lemma keeps_data: "same_data s s' \<Longrightarrow> keeps s s'"
  by (simp add: keeps_def same_data_def same_corpus_def get_paper_def get_cir_def load_source_def get_claim_def
      get_annotation_def get_claim_views_def)

lemma keeps_view: "keeps s (snd (bump_claim_view i s))"
  by (simp add: keeps_def bump_claim_view_def Let_def get_paper_def get_cir_def load_source_def get_claim_def
      get_annotation_def get_claim_views_def)

lemma keeps_put_all: "keeps s (s\<lparr>st_annotations := put_all bs (st_annotations s)\<rparr>)"
  using put_all_keeps [of "st_annotations s" _ bs]
  by (simp add: keeps_def get_paper_def get_cir_def load_source_def get_claim_def get_annotation_def get_claim_views_def)

lemma keeps_annotated: "annotated s s' \<Longrightarrow> keeps s s'"
  unfolding annotated_def by (blast intro: keeps_trans keeps_put_all keeps_data)

lemma keeps_note: "keeps s (s\<lparr>st_annotations := dict_set i b (st_annotations s)\<rparr>)"
  using keeps_put_all [of s "[(i, b)]"] by simp

lemma keeps_summarised: "summarised t i s' \<Longrightarrow> keeps t s'"
  unfolding summarised_def by (elim disjE exE conjE) (erule keeps_data, rule keeps_trans [OF keeps_note keeps_data])

lemma keeps_recorded: "keeps s (recorded r i d s)"
proof -
  have "st_claims (recorded r i d s) = st_claims s" "st_annotations (recorded r i d s) = st_annotations s"
    "st_claim_views (recorded r i d s) = st_claim_views s"
    by (simp_all add: recorded_def uploaded_def Let_def split: option.split)
  then show ?thesis
    by (simp add: keeps_def recorded_gets get_claim_def get_annotation_def get_claim_views_def)
qed

lemma keeps_claims: "add_claims cs s = (x, s') \<Longrightarrow> keeps s s'"
  using add_claims_frame [of cs s x s'] add_claims_keeps [of cs s x s']
  by (auto simp: keeps_def get_paper_def get_cir_def load_source_def get_annotation_def get_claim_views_def)

lemma keeps_submit: "submit_paper env a r s = Some (res, s') \<Longrightarrow> keeps s s'"
  using submit_effect [of env a r s res s']
  by (blast intro: keeps_refl keeps_trans keeps_recorded keeps_claims keeps_summarised)

lemma keeps_open: "open_effect D c s = Some s' \<Longrightarrow> keeps s s'"
proof (cases "\<exists>i. cl_operation c = ViewClaim i")
  case True
  moreover assume "open_effect D c s = Some s'"
  ultimately show ?thesis by (auto simp: open_effect_def Let_def keeps_refl keeps_view split: option.splits)
qed (auto intro: keeps_data data_open)

lemma keeps_named: "named_effect D c a s = Some s' \<Longrightarrow> keeps s s'"
  by (drule named_effect_cases) (blast intro: keeps_data keeps_annotated keeps_submit)

lemma keeps_identify: "identify D c s = (res, s') \<Longrightarrow> keeps s s'"
  unfolding identify_def by (blast intro: keeps_data data_identify)

lemma keeps_http: "server_step D s (Http c) s' \<Longrightarrow> keeps s s'"
  by (elim http_step) (auto intro: keeps_refl keeps_open keeps_identify keeps_trans keeps_named)

section \<open>Papers that come by request have their archive\<close>

definition sourced :: "store_state \<Rightarrow> store_state \<Rightarrow> bool" where
  "sourced s s' \<longleftrightarrow> (\<forall>i. get_paper s' i \<noteq> None \<and> load_source s' i = None \<longrightarrow> get_paper s i \<noteq> None)"

lemma sourced_trans: "sourced s t \<Longrightarrow> keeps t u \<Longrightarrow> sourced t u \<Longrightarrow> sourced s u"
  unfolding sourced_def keeps_def by blast

lemma sourced_papers: "st_papers s' = st_papers s \<Longrightarrow> sourced s s'"
  by (simp add: sourced_def get_paper_def)

lemma sourced_data: "same_data s s' \<Longrightarrow> sourced s s'"
  by (rule sourced_papers) (simp add: same_data_def same_corpus_def)

lemma sourced_annotated: "annotated s s' \<Longrightarrow> sourced s s'"
  by (rule sourced_papers) (auto simp: annotated_def same_data_def same_corpus_def)

lemma sourced_submit:
  assumes "submit_paper env a r s = Some (res, s')"
  shows "sourced s s'"
  using submit_effect [OF assms]
proof (elim disjE exE conjE)
  fix i d cs x t
  assume t: "add_claims cs (recorded r i d s) = (x, t)" and s': "summarised t i s'"
  have "sourced s (recorded r i d s)" by (auto simp: sourced_def recorded_gets split: if_splits)
  moreover have "st_papers t = st_papers (recorded r i d s)" "st_sources t = st_sources (recorded r i d s)"
    using add_claims_frame [OF t] by auto
  moreover have "st_papers s' = st_papers t" "st_sources s' = st_sources t"
    using s' by (auto simp: summarised_def same_data_def same_corpus_def)
  ultimately show ?thesis by (simp add: sourced_def get_paper_def load_source_def)
qed (simp add: sourced_papers)

lemma sourced_http:
  assumes "server_step D s (Http c) s'"
  shows "sourced s s'"
proof -
  have nm: "sourced t u" if "named_effect D c a t = Some u" for a t u
    using named_effect_cases [OF that] by (blast intro: sourced_data sourced_annotated sourced_submit)
  have ident: "sourced s t" if "identify D c s = (res, t)" for res t
    using data_identify [OF that [unfolded identify_def]] by (rule sourced_data)
  have op: "sourced s s'" if o: "open_effect D c s = Some s'"
  proof (cases "\<exists>i. cl_operation c = ViewClaim i")
    case True
    with o have "st_papers s' = st_papers s"
      by (auto simp: open_effect_def Let_def bump_claim_view_def split: option.splits)
    then show ?thesis by (rule sourced_papers)
  qed (use o in \<open>blast intro: sourced_data data_open\<close>)
  from assms show ?thesis
    by (elim http_step) (auto intro: sourced_papers ident op sourced_trans [OF ident keeps_named nm])
qed

section \<open>Annotations have targets\<close>

definition target_exists :: "store_state \<Rightarrow> pydict \<Rightarrow> bool" where
  "target_exists s b \<longleftrightarrow>
     (dget b ''target_type'' = PStr ''paper'' \<longrightarrow> (\<exists>t. dget b ''target_id'' = PStr t \<and> get_paper s t \<noteq> None)) \<and>
     (dget b ''target_type'' = PStr ''claim'' \<longrightarrow> (\<exists>t. dget b ''target_id'' = PStr t \<and> get_claim s t \<noteq> None))"

text \<open>What the annotation endpoints check of a body, and what every request keeps of it.\<close>

definition checked :: "store_state \<Rightarrow> pydict \<Rightarrow> bool" where
  "checked s b \<longleftrightarrow> target_exists s b \<and> reply_exists s b \<and> dict_has b ''created_by''"

text \<open>Every annotation is one of the given ones or has been checked.\<close>

definition notes_checked :: "(string \<Rightarrow> pydict \<Rightarrow> bool) \<Rightarrow> store_state \<Rightarrow> bool" where
  "notes_checked P s \<longleftrightarrow> (\<forall>i b. get_annotation s i = Some b \<longrightarrow> P i b \<or> checked s b)"

lemma check_target_exists: "check_target s b = None \<Longrightarrow> target_exists s b"
  by (auto simp: check_target_def target_exists_def Let_def split: pyval.splits if_splits)

lemma checked_kept: "keeps s s' \<Longrightarrow> checked s b \<Longrightarrow> checked s' b"
  unfolding keeps_def checked_def target_exists_def reply_exists_def by blast

lemma notes_kept:
  assumes "keeps s s'" "st_annotations s' = st_annotations s" "notes_checked P s"
  shows "notes_checked P s'"
  using assms(2,3) checked_kept [OF assms(1)] by (auto simp: notes_checked_def get_annotation_def)

lemma notes_data:
  assumes "same_data s s'" "notes_checked P s"
  shows "notes_checked P s'"
  using keeps_data [OF assms(1)] _ assms(2) by (rule notes_kept) (use assms(1) in \<open>simp add: same_data_def same_corpus_def\<close>)

lemma notes_put:
  assumes "notes_checked P s" "checked s b"
  shows "notes_checked P (put_note i b s)"
proof -
  have "keeps s (put_note i b s)" unfolding put_note_def by (rule keeps_note)
  then have kept: "checked s c \<Longrightarrow> checked (put_note i b s) c" for c by (rule checked_kept)
  have "P j c \<or> checked s c" if "get_annotation (put_note i b s) j = Some c" for j c
    using that assms by (auto simp: put_note_def get_annotation_def notes_checked_def split: if_splits)
  with kept show ?thesis unfolding notes_checked_def by blast
qed

lemma notes_put_all:
  "admissible_all s bs \<Longrightarrow> notes_checked P s \<Longrightarrow> notes_checked P (s\<lparr>st_annotations := put_all bs (st_annotations s)\<rparr>)"
proof (induction s bs rule: admissible_all.induct)
  case (2 s i b bs)
  have "checked s b" using "2.prems"(1) by (simp add: admissible_def checked_def check_target_exists)
  from "2.IH" [OF _ notes_put [OF "2.prems"(2) this]] "2.prems"(1) show ?case by (simp add: put_all_note)
qed simp

lemma notes_annotated:
  assumes "annotated s s'" "notes_checked P s"
  shows "notes_checked P s'"
  using assms notes_data notes_put_all unfolding annotated_def by blast

lemma notes_submit:
  assumes "submit_paper env a r s = Some (res, s')" "notes_checked P s"
  shows "notes_checked P s'"
  using submit_effect [OF assms(1)]
proof (elim disjE exE conjE)
  fix i d cs x t
  assume t: "add_claims cs (recorded r i d s) = (x, t)" and s': "summarised t i s'"
  have "st_annotations t = st_annotations s"
    using add_claims_frame [OF t] by (auto simp: recorded_def uploaded_def Let_def split: option.split)
  then have ok: "notes_checked P t"
    using keeps_recorded keeps_claims [OF t] assms(2) by (blast intro: notes_kept keeps_trans)
  have "get_paper t i = get_paper (recorded r i d s) i" using add_claims_frame [OF t] by (auto simp: get_paper_def)
  then have p: "get_paper t i \<noteq> None" by (simp add: recorded_gets)
  have new: "notes_checked P (t\<lparr>st_annotations := dict_set j b (st_annotations t)\<rparr>)"
    if "dget b ''target_type'' = PStr ''paper''" "dget b ''target_id'' = PStr i" "dict_has b ''created_by''" "reply_exists t b" for j b
    using notes_put [OF ok, of b j] that p by (auto simp: checked_def target_exists_def put_note_def)
  from s' show ?thesis unfolding summarised_def by (blast intro: new ok notes_data)
qed (use assms(2) in simp)

lemma notes_http:
  assumes "server_step D s (Http c) s'" "notes_checked P s"
  shows "notes_checked P s'"
proof -
  have ident: "notes_checked P t" if "identify D c s = (res, t)" for res t
    using that assms(2) unfolding identify_def by (blast intro: notes_data data_identify)
  have nm: "notes_checked P u" if "named_effect D c a t = Some u" "notes_checked P t" for a t u
    using named_effect_cases [OF that(1)] that(2)
    by (blast intro: notes_data notes_annotated notes_submit)
  have op: "notes_checked P s'" if o: "open_effect D c s = Some s'"
  proof (cases "\<exists>i. cl_operation c = ViewClaim i")
    case True
    with o have "st_annotations s' = st_annotations s"
      by (auto simp: open_effect_def Let_def bump_claim_view_def split: option.splits)
    with keeps_open [OF o] show ?thesis using assms(2) by (rule notes_kept)
  qed (use o assms(2) in \<open>blast intro: notes_data data_open\<close>)
  from assms show ?thesis by (elim http_step) (auto intro: ident nm op)
qed

end
