(* ===== verification/Server_Safety.thy ===== *)
theory Server_Safety
  imports Server
begin

text \<open>
  What holds of the running server in every state it reaches: consistency of the tables, who can
  change the corpus, that requests lose nothing, what is checked of an annotation and that
  the rate limit opens again; and example runs that show the steps are possible.
\<close>

section \<open>Runs of requests\<close>

lemma requests_keep: "requests D s s' \<Longrightarrow> keeps s s'"
  by (induction rule: requests.induct) (auto intro: keeps_refl keeps_trans keeps_http)

lemma requests_notes: "requests D s s' \<Longrightarrow> notes_checked P s \<Longrightarrow> notes_checked P s'"
  by (induction rule: requests.induct) (auto intro: notes_http)


section \<open>An example run\<close>

text \<open>A login in development mode, then a submission with the token it gave.\<close>

definition deployment_with :: "'k sig_lib \<Rightarrow> 'k deployment" where
  "deployment_with lib = \<lparr>dp_settings = default_settings, dp_lib = lib, dp_ed_verify = (\<lambda>_ _ _. False),
     dp_email = Some, dp_orcid_post = (\<lambda>_ _. Unreachable), dp_siteverify = (\<lambda>_. Unreachable), dp_validate = (\<lambda>_. None),
     dp_archiver = plain_archiver\<rparr>"

definition example_deployment :: "unit deployment" where
  "example_deployment = deployment_with easy_lib"

definition login_call :: call where
  "login_call = \<lparr>cl_request = \<lparr>rq_method = ''POST'', rq_headers = [], rq_body = []\<rparr>,
     cl_operation = OrcidCallback ''dev-1'' None ''tok'', cl_middleware_now = 10, cl_auth_now = 10, cl_now = 10\<rparr>"

definition submit_call :: call where
  "submit_call = \<lparr>cl_request = \<lparr>rq_method = ''POST'', rq_headers = [(''authorization'', ''Bearer tok'')], rq_body = []\<rparr>,
     cl_operation = SubmitPaper example_env example_submission, cl_middleware_now = 20, cl_auth_now = 20, cl_now = 20\<rparr>"

definition logged_in :: store_state where
  "logged_in = snd (orcid_callback (dp_orcid_post example_deployment) default_settings ''dev-1'' None ''tok'' 10 empty_store)"

lemma login_step: "server_step example_deployment empty_store (Http login_call) logged_in"
proof (rule opened)
  show "lets_pass example_deployment login_call empty_store" by code_simp
  show "routed login_call" by code_simp
  show "\<not> needs_name (cl_operation login_call)" by (simp add: login_call_def)
  show "open_effect example_deployment login_call empty_store = Some logged_in"
    by (simp add: open_effect_def login_call_def logged_in_def Let_def) (simp add: example_deployment_def deployment_with_def)
qed

definition admitted_result :: "'k deployment \<Rightarrow> call \<Rightarrow> store_state \<Rightarrow> store_state option" where
  "admitted_result D c s = (case identify D c s of (Inr a, t) \<Rightarrow> named_effect D c a t | _ \<Rightarrow> None)"

lemma admitted_step:
  "lets_pass D c s \<Longrightarrow> routed c \<Longrightarrow> needs_name (cl_operation c) \<Longrightarrow> admitted_result D c s = Some u \<Longrightarrow>
    server_step D s (Http c) u"
  by (auto simp: admitted_result_def intro: admitted split: prod.splits sum.splits)

definition with_paper :: store_state where
  "with_paper = (case admitted_result example_deployment submit_call logged_in of Some u \<Rightarrow> u | None \<Rightarrow> logged_in)"

lemma with_paper_step:
  "server_step example_deployment logged_in (Http submit_call) with_paper" "get_paper with_paper ''p0'' \<noteq> None"
proof -
  have "admitted_result example_deployment submit_call logged_in \<noteq> None" by code_simp
  then have "admitted_result example_deployment submit_call logged_in = Some with_paper"
    by (auto simp: with_paper_def)
  moreover have "lets_pass example_deployment submit_call logged_in" "routed submit_call" by code_simp+
  ultimately show "server_step example_deployment logged_in (Http submit_call) with_paper"
    by (intro admitted_step) (simp_all add: submit_call_def)
  show "get_paper with_paper ''p0'' \<noteq> None" by code_simp
qed

lemma submit_step: "\<exists>s. server_step example_deployment logged_in (Http submit_call) s \<and> get_paper s ''p0'' \<noteq> None"
  using with_paper_step by blast

definition annotate_call :: call where
  "annotate_call = submit_call\<lparr>cl_operation := CreateAnnotation
     [(''target_type'', PStr ''paper''), (''target_id'', PStr ''p0''), (''created_by'', PDict [])] None ''h'' ''ff''\<rparr>"

definition with_note :: store_state where
  "with_note = (case admitted_result example_deployment annotate_call with_paper of Some u \<Rightarrow> u | None \<Rightarrow> with_paper)"

text \<open>A second annotation, which replies to the first.\<close>

definition reply_call :: call where
  "reply_call = submit_call\<lparr>cl_operation := CreateAnnotation
     [(''target_type'', PStr ''paper''), (''target_id'', PStr ''p0''), (''in_reply_to'', PStr ''ann-ff''),
      (''created_by'', PDict [])] None ''h'' ''ee''\<rparr>"

lemma annotate_step: "server_step example_deployment with_paper (Http annotate_call) with_note"
proof -
  have "admitted_result example_deployment annotate_call with_paper \<noteq> None" by code_simp
  then have "admitted_result example_deployment annotate_call with_paper = Some with_note"
    by (auto simp: with_note_def)
  moreover have "lets_pass example_deployment annotate_call with_paper" "routed annotate_call" by code_simp+
  ultimately show ?thesis by (intro admitted_step) (simp_all add: annotate_call_def)
qed

lemma reply_step:
  "\<exists>s b. server_step example_deployment with_note (Http reply_call) s \<and> get_annotation s ''ann-ee'' = Some b \<and>
     dget b ''in_reply_to'' = PStr ''ann-ff''"
proof -
  have "case admitted_result example_deployment reply_call with_note of None \<Rightarrow> False
      | Some u \<Rightarrow> (case get_annotation u ''ann-ee'' of Some b \<Rightarrow> dget b ''in_reply_to'' = PStr ''ann-ff'' | None \<Rightarrow> False)" by code_simp
  then obtain u b where u: "admitted_result example_deployment reply_call with_note = Some u"
    "get_annotation u ''ann-ee'' = Some b" "dget b ''in_reply_to'' = PStr ''ann-ff''" by (auto split: option.splits)
  have "lets_pass example_deployment reply_call with_note" "routed reply_call" by code_simp+
  moreover have "needs_name (cl_operation reply_call)" by (simp add: reply_call_def)
  ultimately have "server_step example_deployment with_note (Http reply_call) u" by (rule admitted_step [OF _ _ _ u(1)])
  with u(2,3) show ?thesis by blast
qed






text \<open>
  An enrolled agent that submits: a library whose keys are the bytes registered, which accepts a
  request when its signature spells out the key of the key id it names.
\<close>

definition keyed_signed :: "bytes \<Rightarrow> request \<Rightarrow> bool" where
  "keyed_signed key rq \<longleftrightarrow> header rq ''signature'' = Some (''signed by '' @ key)"

definition keyed_lib :: "bytes sig_lib" where
  "keyed_lib = \<lparr>read_input = (\<lambda>k. Entry (Some 100) (Some k)), load_key = Some,
     http_verify = (\<lambda>lookup rq. case lookup (the (header rq ''signature-input'')) of
         None \<Rightarrow> None | Some key \<Rightarrow> if keyed_signed key rq then Some [''rrxiv''] else None),
     sha256 = (\<lambda>b. b)\<rparr>"

lemma keyed_sound: "lib_sound keyed_lib keyed_signed"
  by (auto simp: lib_sound_def keyed_lib_def split: option.splits if_splits)

definition agent_call :: call where
  "agent_call = \<lparr>cl_request = \<lparr>rq_method = ''POST'', rq_headers = [(''authorization'', ''Bearer tok''),
       (''signature-input'', ''@a''), (''signature'', ''signed by hi'')], rq_body = []\<rparr>,
     cl_operation = SubmitPaper example_env example_submission, cl_middleware_now = 100, cl_auth_now = 100, cl_now = 100\<rparr>"

lemma agent_step:
  "\<exists>s. server_step (deployment_with keyed_lib) agent_store (Http agent_call) s \<and> get_paper s ''p0'' \<noteq> None"
proof -
  have "case admitted_result (deployment_with keyed_lib) agent_call agent_store of
      None \<Rightarrow> False | Some u \<Rightarrow> get_paper u ''p0'' \<noteq> None" by code_simp
  then obtain u where u: "admitted_result (deployment_with keyed_lib) agent_call agent_store = Some u" "get_paper u ''p0'' \<noteq> None"
    by (auto split: option.splits)
  have "lets_pass (deployment_with keyed_lib) agent_call agent_store" "routed agent_call" by code_simp+
  moreover have "needs_name (cl_operation agent_call)" by (simp add: agent_call_def)
  ultimately have "server_step (deployment_with keyed_lib) agent_store (Http agent_call) u" by (rule admitted_step [OF _ _ _ u(1)])
  with u(2) show ?thesis by blast
qed

section \<open>Properties\<close>

lemma http_writer_identified:
  assumes "lib_sound (dp_lib D) signed_by"
    and "server_step D s (Http c) s'" "\<not> same_corpus s s'"
    and "cl_middleware_now c \<le> cl_auth_now c"
  shows "\<exists>r. get_token s (bearer_token (authorization_of c)) = Some r \<and> cl_auth_now c \<le> tr_expires_at_unix r \<and>
    \<not> is_anonymous (tr_identity r) \<and>
    (\<forall>h. tr_identity r = AgentIdentity h \<longrightarrow>
      (\<exists>a pub key. get_agent s h = Some a \<and> std_b64_decode (ar_public_key_b64 a) = Some pub \<and>
        load_key (dp_lib D) pub = Some key \<and> signed_by key (cl_request c)))"
proof -
  let ?rq = "cl_request c" and ?auth = "authorization_of c"
  have quiet: "same_corpus s t" if "open_effect D c s = Some t" for t
  proof (cases "\<exists>i. cl_operation c = ViewClaim i")
    case True
    with that show ?thesis
      by (auto simp: open_effect_def bump_claim_view_def same_corpus_def Let_def split: option.splits)
  qed (use data_open [OF that] in \<open>auto simp: same_data_def\<close>)
  have asked: "same_corpus s t" if "identify D c s = (res, t)" for res t
    using data_identify [OF that [unfolded identify_def]] by (simp add: same_data_def)
  have same: "same_corpus s s" by (simp add: same_corpus_def)
  obtain a s1 where pass: "lets_pass D c s" and route: "routed c"
    and op: "needs_name (cl_operation c)" and id: "identify D c s = (Inr a, s1)"
    by (rule http_step [OF assms(2)]) (use quiet asked same assms(3) that in blast)+
  from require_identity_live [OF id [unfolded identify_def]] obtain r where
    live: "has_bearer ?auth" "get_token s (bearer_token ?auth) = Some r" "cl_auth_now c \<le> tr_expires_at_unix r"
      "\<not> is_anonymous (tr_identity r)" by auto
  have writes: "upper_method (rq_method ?rq) \<notin> {''GET'', ''HEAD'', ''OPTIONS''}"
    using route op by (cases "cl_operation c") (auto simp: routed_def upper_method_def)
  have bearer: "header ?rq ''authorization'' = Some ?auth"
    using live(1) by (auto simp: authorization_of_def has_bearer_def startswith_def str_lower_def split: option.splits)
  obtain kid where mid: "signature_middleware (dp_lib D) (dp_settings D) ?rq (cl_middleware_now c) s \<in> {Pass, PassVerified kid}"
    using pass by (auto simp: lets_pass_def split: verdict.splits)
  have exp: "cl_middleware_now c \<le> tr_expires_at_unix r" using live(3) assms(4) by simp
  have "\<exists>b pub key. get_agent s h = Some b \<and> std_b64_decode (ar_public_key_b64 b) = Some pub \<and>
      load_key (dp_lib D) pub = Some key \<and> signed_by key ?rq" if "tr_identity r = AgentIdentity h" for h
    using agent_write_signed [OF assms(1) writes bearer live(1,2) exp that mid] by blast
  with live show ?thesis by blast
qed



text \<open>
  C1: Whatever changes a paper, a structure, an archive, a claim or an annotation is the operator's
  seeding of the store, which at boot finds no paper there, or a request by an identified writer: it
  carries a live token of a named identity, and when that is an
  agent the request is signed with the key enrolled for the agent.
\<close>

theorem corpus_writer_identified:
  assumes "lib_sound (dp_lib D) signed_by"
    and "server_step D s ev s'" "\<not> same_corpus s s'"
    and "\<forall>c. ev = Http c \<longrightarrow> cl_middleware_now c \<le> cl_auth_now c"
  shows "(\<exists>shared env rt reset preserve. ev = SeedStore shared env rt reset preserve) \<or>
    (\<exists>shared env rt. ev = BootSeed shared env rt \<and> list_papers s = []) \<or>
    (\<exists>c r. ev = Http c \<and>
      get_token s (bearer_token (authorization_of c)) = Some r \<and> cl_auth_now c \<le> tr_expires_at_unix r \<and>
      \<not> is_anonymous (tr_identity r) \<and>
      (\<forall>h. tr_identity r = AgentIdentity h \<longrightarrow>
        (\<exists>a pub key. get_agent s h = Some a \<and> std_b64_decode (ar_public_key_b64 a) = Some pub \<and>
          load_key (dp_lib D) pub = Some key \<and> signed_by key (cl_request c))))"
proof (cases ev)
  case (Http c)
  from http_writer_identified [OF assms(1) assms(2) [unfolded Http] assms(3)] assms(4) Http show ?thesis by blast
next
  case (BootSeed shared env rt)
  have "same_corpus s s" by (simp add: same_corpus_def)
  with assms(2,3) BootSeed have "list_papers s = []"
    by (auto elim!: boot_step simp: boot_seed_def split: if_splits)
  with BootSeed show ?thesis by blast
qed simp

theorem corpus_writer_identified_witness:
  "(\<exists>a pub key. get_agent agent_store ''@a'' = Some a \<and> std_b64_decode (ar_public_key_b64 a) = Some pub \<and>
     load_key keyed_lib pub = Some key \<and> keyed_signed key (cl_request agent_call)) \<and>
   (\<forall>key. \<not> keyed_signed key (cl_request submit_call))"
proof -
  obtain s where s: "server_step (deployment_with keyed_lib) agent_store (Http agent_call) s" "get_paper s ''p0'' \<noteq> None"
    using agent_step by blast
  have "get_paper agent_store ''p0'' = None" by code_simp
  with s(2) have changed: "\<not> same_corpus agent_store s" by (auto simp: same_corpus_def get_paper_def)
  have clock: "\<forall>c. Http agent_call = Http c \<longrightarrow> cl_middleware_now c \<le> cl_auth_now c" by (simp add: agent_call_def)
  have lib: "dp_lib (deployment_with keyed_lib) = keyed_lib" by (simp add: deployment_with_def)
  have tok: "case get_token agent_store (bearer_token (authorization_of agent_call)) of
      Some r \<Rightarrow> tr_identity r = AgentIdentity ''@a'' | None \<Rightarrow> False" by code_simp
  have plain: "\<forall>key. \<not> keyed_signed key (cl_request submit_call)"
    by (simp add: keyed_signed_def submit_call_def header_def)
  from corpus_writer_identified [of "deployment_with keyed_lib" keyed_signed, unfolded lib, OF keyed_sound s(1) changed clock]
    tok plain show ?thesis by (auto split: option.splits)
qed

text \<open>
  C3: Requests lose nothing: over any sequence of requests, papers, structures, archives,
  claims and annotations that exist go on existing, and no view count falls. Only an
  operator's seeding removes papers.
\<close>

theorem requests_lose_nothing:
  assumes "requests D s s'"
  shows "keeps s s'"
  by (rule requests_keep [OF assms])

theorem requests_lose_nothing_witness:
  "\<exists>s. keeps logged_in s \<and> get_paper s ''p0'' \<noteq> None"
proof -
  obtain s where s: "server_step example_deployment logged_in (Http submit_call) s" "get_paper s ''p0'' \<noteq> None"
    using submit_step by blast
  from requests_lose_nothing [OF requests.more [OF requests.none s(1)]] s(2) show ?thesis by blast
qed

text \<open>
  C4: From any store, seeded or not, every annotation that a sequence of requests has written carries a
  \<open>created_by\<close> field; when it is on a paper or a claim, that paper or claim is stored; and when it
  replies to an annotation, that annotation is stored. (The server does not look up a target that is a
  section, a figure or an annotation, and takes the author as it is sent.)
\<close>

theorem annotations_have_targets:
  assumes "requests D s0 s" "get_annotation s i = Some b" "get_annotation s0 i \<noteq> Some b"
  shows "target_exists s b \<and> reply_exists s b \<and> dict_has b ''created_by''"
proof -
  have "notes_checked (\<lambda>i b. get_annotation s0 i = Some b) s0" by (simp add: notes_checked_def)
  from requests_notes [OF assms(1) this] assms(2,3) show ?thesis by (auto simp: notes_checked_def checked_def)
qed

theorem annotations_have_targets_witness:
  "\<exists>s b. get_annotation s ''ann-ee'' = Some b \<and> target_exists s b \<and> get_annotation s ''ann-ff'' \<noteq> None"
proof -
  obtain s b where s: "server_step example_deployment with_note (Http reply_call) s" "get_annotation s ''ann-ee'' = Some b"
    "dget b ''in_reply_to'' = PStr ''ann-ff''" using reply_step by blast
  have "requests example_deployment empty_store s"
    using requests.more [OF requests.more [OF requests.more [OF requests.more [OF requests.none login_step]
      with_paper_step(1)] annotate_step] s(1)] .
  moreover have "get_annotation empty_store ''ann-ee'' \<noteq> Some b" by (simp add: get_annotation_def empty_store_def)
  ultimately have "target_exists s b" "reply_exists s b" using annotations_have_targets [OF _ s(2)] by blast+
  with s(2,3) show ?thesis by (auto simp: reply_exists_def)
qed

text \<open>
  A request that is routed has a step, if the server's source of fresh identifiers does not repeat
  itself: the search for an unused paper id is the only part of a handler that may not end.
\<close>

lemma server_answers:
  assumes "routed c" "\<forall>env r. cl_operation c = SubmitPaper env r \<longrightarrow> inj (se_fresh_id env)"
  shows "\<exists>s'. server_step D s (Http c) s'"
proof (cases "lets_pass D c s")
  case pass: True
  show ?thesis
  proof (cases "needs_name (cl_operation c)")
    case True
    obtain res s1 where i: "identify D c s = (res, s1)" by fastforce
    show ?thesis
    proof (cases res)
      case (Inl e)
      with i show ?thesis using refused [OF pass assms(1) True] by blast
    next
      case (Inr a)
      from named_effect_defined [OF True] assms(2) obtain u where "named_effect D c a s1 = Some u" by fastforce
      with i Inr show ?thesis using admitted [OF pass assms(1) True] by blast
    qed
  next
    case False
    from open_effect_defined [OF False, of D s] obtain u where "open_effect D c s = Some u" by auto
    with False show ?thesis using opened [OF pass assms(1)] by blast
  qed
qed (auto intro: rejected)

text \<open>
  Nobody is locked out for good: a named client with a live token whose last request is
  more than a minute old is admitted again, whatever its requests before did.
\<close>

lemma limit_reopens:
  assumes "has_bearer auth" "get_token s (bearer_token auth) = Some r" "now \<le> tr_expires_at_unix r"
    and "\<not> is_anonymous (tr_identity r)" "1 \<le> rpm_for (tr_identity r) m cfg"
    and "\<forall>t \<in> set (rate_window_of s (bearer_token auth)). t < now - 60"
  shows "\<exists>s'. require_identity False cfg m auth now s =
    (Inr \<lparr>au_identity = tr_identity r, au_token = bearer_token auth\<rparr>, s')"
proof -
  have "auth \<noteq> []" using assms(1) by (auto simp: has_bearer_def startswith_def str_lower_def)
  moreover have "slide now (rate_window_of s (bearer_token auth)) = [now]"
    using assms(6) by (simp add: slide_def dropWhile_eq_Nil_conv)
  ultimately show ?thesis
    using assms(1-5)
    by (simp add: require_identity_def identity_from_token_def record_request_def rate_window_of_def Let_def)
qed

lemma limit_reopens_witness:
  "\<exists>s'. require_identity False default_settings ''POST'' ''Bearer tok'' 200
     (logged_in\<lparr>st_rate_window := [(''tok'', replicate 500 100)]\<rparr>) =
     (Inr \<lparr>au_identity = OrcidIdentity (orcid_dev_id default_settings), au_token = ''tok''\<rparr>, s')"
proof -
  let ?s = "logged_in\<lparr>st_rate_window := [(''tok'', replicate 500 100)]\<rparr>"
  obtain r where r: "get_token logged_in ''tok'' = Some r" "200 \<le> tr_expires_at_unix r"
    "tr_identity r = OrcidIdentity (orcid_dev_id default_settings)"
  proof -
    have "case get_token logged_in ''tok'' of None \<Rightarrow> False
      | Some r \<Rightarrow> 200 \<le> tr_expires_at_unix r \<and> tr_identity r = OrcidIdentity (orcid_dev_id default_settings)" by code_simp
    then show thesis using that by (auto split: option.splits)
  qed
  have b: "has_bearer ''Bearer tok''" "bearer_token ''Bearer tok'' = ''tok''"
    "1 \<le> rpm_for (tr_identity r) ''POST'' default_settings"
    unfolding r(3) by code_simp+
  have t: "get_token ?s (bearer_token ''Bearer tok'') = Some r" using r(1) by (simp add: b get_token_def)
  from limit_reopens [OF b(1) t _ _ b(3), of 200] r b show ?thesis
    by (simp add: rate_window_of_def)
qed

section \<open>Authorship of annotations\<close>

text \<open>
  The endpoint compares neither the author an annotation names nor the author of the annotation
  whose id it reuses with the caller: one identity replaces another's annotation in its name.
\<close>

definition carols_note :: pydict where
  "carols_note = [(''id'', PStr ''ann-1''), (''annotation_type'', PStr ''claim_retraction''),
     (''created_by'', PDict [(''identity_type'', PStr ''orcid''), (''identity'', PStr ''0000-0002'')])]"

definition forged_note :: pydict where
  "forged_note = dict_set ''annotation_type'' (PStr ''comment'') carols_note"

lemma annotation_forged:
  "case create_annotation (\<lambda>_. None) \<lparr>au_identity = AgentIdentity ''@mallory'', au_token = ''t''\<rparr> forged_note None ''h'' ''ff'' 0
      (empty_store\<lparr>st_annotations := [(''ann-1'', carols_note)]\<rparr>) of
     (Inr _, s) \<Rightarrow> get_annotation s ''ann-1'' = Some forged_note
   | _ \<Rightarrow> False"
  by code_simp

end
