(* ===== verification/Sidecar.thy ===== *)
theory Sidecar
  imports Tex_Match
begin

text \<open>
  The reader of the sidecar file the LaTeX class writes (\<open>parser/sidecar.py\<close>): one marker
  per line for the metadata, the semantic environments, the edges and the authors. Two warnings
  are latches of the run: one for the prefix used before the project was renamed, one for edges
  in the first format, which separates everything by colons.
\<close>

record meta_marker =
  mm_key :: string
  mm_value :: string

record env_marker =
  em_kind :: string
  em_index :: string

record edge_marker =
  eg_type :: string
  eg_source :: string
  eg_target :: string

record author_marker =
  au_index :: int
  au_fields :: "(string \<times> string) list"

record sidecar =
  sc_meta :: "meta_marker list"
  sc_envs :: "env_marker list"
  sc_edges :: "edge_marker list"
  sc_authors :: "author_marker list"

record sidecar_run = sidecar +
  sc_legacy :: bool
  sc_v01 :: bool

definition env_kinds :: "string list" where
  "env_kinds = [''claim'', ''evidence'', ''observation'', ''scope'', ''openquestion'', ''remark'']"

definition edge_kinds :: "string list" where
  "edge_kinds = [''depends_on'', ''supports'', ''contradicts'', ''extends'']"

definition meta_keys :: "string list" where
  "meta_keys = [''id'', ''version'', ''protocol'', ''license'', ''topics'']"

definition author_keys :: "string list" where
  "author_keys =
     [''name'', ''orcid'', ''role'', ''handle'', ''is_agent'', ''affiliation'', ''email'',
      ''model_name'', ''model_vendor'', ''model_family'', ''model_series'', ''model_version'',
      ''model_release_pin'', ''model_release_date'', ''model_slug'', ''inference_environment'']"

text \<open>\<open>meta_dict\<close>: later markers shadow earlier ones. \<open>envs_of_kind\<close>.\<close>

definition meta_dict :: "'a sidecar_scheme \<Rightarrow> (string \<times> string) list" where
  "meta_dict sc = foldl (\<lambda>d m. dict_set (mm_key m) (mm_value m) d) [] (sc_meta sc)"

definition envs_of_kind :: "'a sidecar_scheme \<Rightarrow> string \<Rightarrow> env_marker list" where
  "envs_of_kind sc kind = filter (\<lambda>e. em_kind e = kind) (sc_envs sc)"

text \<open>The text behind the prefix of a marker line, and whether the prefix is the old one.\<close>

definition marker_body :: "string \<Rightarrow> (string \<times> bool) option" where
  "marker_body raw_line =
     (let line = str_strip raw_line
      in if startswith line ''RRXIV:'' then Some (drop 6 line, False)
         else if startswith line ''RRVIX:'' then Some (drop 6 line, True)
         else None)"

text \<open>
  The two ends of an edge: separated by a bar, or, in the first format, the middle of the
  colon-separated parts; the last part alone is the target when their number is odd.
\<close>

definition edge_ends :: "string \<Rightarrow> string list \<Rightarrow> string \<times> string \<times> bool" where
  "edge_ends rest id_tokens =
     (if CHR ''|'' \<in> set rest
      then (takeWhile (\<lambda>c. c \<noteq> CHR ''|'') rest, tl (dropWhile (\<lambda>c. c \<noteq> CHR ''|'') rest), False)
      else if odd (length id_tokens)
      then (join_on '':'' (butlast id_tokens), last id_tokens, True)
      else let mid = length id_tokens div 2
           in (join_on '':'' (take mid id_tokens), join_on '':'' (drop mid id_tokens), True))"

definition add_field :: "(string \<times> string) list \<Rightarrow> string \<Rightarrow> (string \<times> string) list" where
  "add_field d kv =
     (case str_partition (CHR ''='') kv of
        (key, found, val) \<Rightarrow>
          if found \<and> str_strip key \<in> set author_keys \<and> str_strip val \<noteq> []
          then dict_set (str_strip key) (str_strip val) d else d)"

definition author_of_line :: "string \<Rightarrow> string list \<Rightarrow> author_marker option" where
  "author_of_line body parts =
     (if length parts < 2 then None
      else case int_of_str (takeWhile (\<lambda>c. c \<noteq> CHR ''|'') (parts ! 1)) of
          None \<Rightarrow> None
        | Some idx \<Rightarrow>
            let rest = drop (length ''author:'') body
            in if CHR ''|'' \<notin> set rest then None
               else let found = foldl add_field [] (split_on (CHR ''|'') (tl (dropWhile (\<lambda>c. c \<noteq> CHR ''|'') rest)))
                    in if found = [] then None else Some \<lparr>au_index = idx, au_fields = found\<rparr>)"

definition add_marker :: "sidecar_run \<Rightarrow> string \<Rightarrow> sidecar_run" where
  "add_marker q body =
     (let parts = split_on (CHR '':'') body; head = parts ! 0
      in if head = ''meta'' \<and> 3 \<le> length parts \<and> parts ! 1 \<in> set meta_keys
         then q\<lparr>sc_meta := sc_meta q @ [\<lparr>mm_key = parts ! 1, mm_value = join_on '':'' (drop 2 parts)\<rparr>]\<rparr>
         else if head = ''author''
         then (case author_of_line body parts of
                 None \<Rightarrow> q
               | Some a \<Rightarrow> q\<lparr>sc_authors := sc_authors q @ [a]\<rparr>)
         else if head = ''edge'' \<and> 3 \<le> length parts \<and> parts ! 1 \<in> set edge_kinds
         then (case edge_ends (drop (length ''edge:'' + length (parts ! 1) + 1) body) (drop 2 parts) of
                 (source, target, old) \<Rightarrow>
                   let q' = (if old then q\<lparr>sc_v01 := True\<rparr> else q)
                   in if source = [] \<or> target = [] then q'
                      else q'\<lparr>sc_edges := sc_edges q' @
                                [\<lparr>eg_type = parts ! 1, eg_source = source, eg_target = target\<rparr>]\<rparr>)
         else if head \<in> set env_kinds \<and> 2 \<le> length parts
         then q\<lparr>sc_envs := sc_envs q @ [\<lparr>em_kind = head, em_index = join_on '':'' (drop 1 parts)\<rparr>]\<rparr>
         else q)"

definition add_line :: "sidecar_run \<Rightarrow> string \<Rightarrow> sidecar_run" where
  "add_line q raw_line =
     (case marker_body raw_line of
        None \<Rightarrow> q
      | Some (body, legacy) \<Rightarrow> add_marker (if legacy then q\<lparr>sc_legacy := True\<rparr> else q) body)"

definition empty_run :: sidecar_run where
  "empty_run = \<lparr>sc_meta = [], sc_envs = [], sc_edges = [], sc_authors = [], sc_legacy = False, sc_v01 = False\<rparr>"

definition parse_sidecar_text :: "string \<Rightarrow> sidecar_run" where
  "parse_sidecar_text txt = foldl add_line empty_run (splitlines txt)"

section \<open>Round trip of the documented format\<close>

text \<open>The lines of the current format, as the module's documentation gives them.\<close>

datatype marker =
    Meta string string
  | Env string string
  | Edge string string string
  | Author nat "(string \<times> string) list"

definition field_text :: "string \<times> string \<Rightarrow> string" where
  "field_text kv = fst kv @ CHR ''='' # snd kv"

fun marker_line :: "marker \<Rightarrow> string" where
  "marker_line (Meta k v) = ''RRXIV:meta:'' @ k @ CHR '':'' # v"
| "marker_line (Env k i) = ''RRXIV:'' @ k @ CHR '':'' # i"
| "marker_line (Edge t s d) = ''RRXIV:edge:'' @ t @ CHR '':'' # s @ CHR ''|'' # d"
| "marker_line (Author n fs) = ''RRXIV:author:'' @ str_of_nat n @ CHR ''|'' # join_on ''|'' (map field_text fs)"

fun put_marker :: "sidecar_run \<Rightarrow> marker \<Rightarrow> sidecar_run" where
  "put_marker q (Meta k v) = q\<lparr>sc_meta := sc_meta q @ [\<lparr>mm_key = k, mm_value = v\<rparr>]\<rparr>"
| "put_marker q (Env k i) = q\<lparr>sc_envs := sc_envs q @ [\<lparr>em_kind = k, em_index = i\<rparr>]\<rparr>"
| "put_marker q (Edge t s d) = q\<lparr>sc_edges := sc_edges q @ [\<lparr>eg_type = t, eg_source = s, eg_target = d\<rparr>]\<rparr>"
| "put_marker q (Author n fs) = q\<lparr>sc_authors := sc_authors q @ [\<lparr>au_index = int n, au_fields = fs\<rparr>]\<rparr>"

text \<open>What a marker may hold: known keys and kinds, no separator inside a part it ends.\<close>

fun well_formed :: "marker \<Rightarrow> bool" where
  "well_formed (Meta k v) = (k \<in> set meta_keys)"
| "well_formed (Env k i) = (k \<in> set env_kinds)"
| "well_formed (Edge t s d) = (t \<in> set edge_kinds \<and> s \<noteq> [] \<and> CHR ''|'' \<notin> set s \<and> d \<noteq> [])"
| "well_formed (Author n fs) =
     (fs \<noteq> [] \<and> distinct (map fst fs) \<and>
      list_all (\<lambda>(k, v). k \<in> set author_keys \<and> v \<noteq> [] \<and> str_strip v = v \<and> CHR ''|'' \<notin> set v) fs)"

definition writable :: "marker \<Rightarrow> bool" where
  "writable m \<longleftrightarrow> well_formed m \<and> list_all (\<lambda>c. \<not> line_break c) (marker_line m) \<and> str_strip (marker_line m) = marker_line m"

lemma split_on_hd: "hd (split_on c s) = takeWhile (\<lambda>x. x \<noteq> c) s"
  by (induction s) (auto split: list.split)

lemma split_on_len: "Suc 0 \<le> length (split_on c s)"
  by (cases "split_on c s") simp_all

lemma int_of_nat_text: "int_of_str (str_of_nat n) = Some (int n)"
proof -
  have digits: "list_all is_digit (str_of_nat n)" by (rule str_of_nat_digits)
  obtain c r where cr: "str_of_nat n = c # r" by (cases "str_of_nat n") simp_all
  have no_space: "\<not> is_space x" if "is_digit x" for x
    using that by (auto simp: is_digit_def is_space_def Let_def)
  have drop: "dropWhile is_space xs = xs" if "list_all is_digit xs" for xs
    using that no_space by (cases xs) auto
  have "list_all is_digit (rev (str_of_nat n))" using digits by (simp add: list_all_iff)
  then have strip: "str_strip (str_of_nat n) = str_of_nat n"
    using digits by (simp add: str_strip_def drop)
  have "is_digit c" using digits cr by simp
  then have c: "c \<noteq> CHR ''-''" "c \<noteq> CHR ''+''" by (auto simp: is_digit_def)
  have "CHR ''_'' \<notin> set (str_of_nat n)" using digits by (auto simp: list_all_iff is_digit_def)
  then have one: "split_on (CHR ''_'') (str_of_nat n) = [str_of_nat n]" by (rule split_on_no_sep)
  show ?thesis
    unfolding cr using strip [unfolded cr] one [unfolded cr] c digits [unfolded cr] nat_of_str_of_nat [of n, unfolded cr]
    by (simp add: int_of_str_def Let_def del: split_on.simps)
qed

lemma add_field_text:
  assumes "k \<in> set author_keys" "v \<noteq> []" "str_strip v = v"
  shows "add_field d (field_text (k, v)) = dict_set k v d"
proof -
  have "CHR ''='' \<notin> set k \<and> str_strip k = k"
    using assms(1) by (auto simp: author_keys_def str_strip_def is_space_def)
  then show ?thesis using assms by (simp add: add_field_def field_text_def str_partition_def cut_before cut_behind)
qed

lemma add_fields:
  assumes "list_all (\<lambda>(k, v). k \<in> set author_keys \<and> v \<noteq> [] \<and> str_strip v = v \<and> CHR ''|'' \<notin> set v) fs"
    "distinct (map fst (d @ fs))"
  shows "foldl add_field d (map field_text fs) = d @ fs"
  using assms
proof (induction fs arbitrary: d)
  case (Cons kv fs)
  obtain k v where kv: "kv = (k, v)" by (cases kv)
  have new: "dict_get d k = None" using Cons.prems(2) by (auto simp: kv map_of_eq_None_iff)
  have "add_field d (field_text kv) = d @ [kv]"
    using Cons.prems(1) dict_set_fresh [OF new] by (simp add: kv add_field_text)
  with Cons.IH [of "d @ [kv]"] Cons.prems show ?case by simp
qed simp

lemma split_fields:
  "list_all (\<lambda>x. CHR ''|'' \<notin> set x) xs \<Longrightarrow> xs \<noteq> [] \<Longrightarrow> split_on (CHR ''|'') (join_on ''|'' xs) = xs"
  by (induction "''|''" xs rule: join_on.induct) (simp_all add: split_on_no_sep split_on_append)

lemma field_text_bars:
  assumes "list_all (\<lambda>(k, v). k \<in> set author_keys \<and> v \<noteq> [] \<and> str_strip v = v \<and> CHR ''|'' \<notin> set v) fs"
  shows "list_all (\<lambda>x. CHR ''|'' \<notin> set x) (map field_text fs)"
proof -
  have "CHR ''|'' \<notin> set k" if "k \<in> set author_keys" for k using that by (auto simp: author_keys_def)
  with assms show ?thesis by (auto simp: list_all_iff field_text_def)
qed

lemma add_meta: "k \<in> set meta_keys \<Longrightarrow> add_marker q (''meta:'' @ k @ CHR '':'' # v) = put_marker q (Meta k v)"
proof -
  assume k: "k \<in> set meta_keys"
  then have "CHR '':'' \<notin> set k" by (auto simp: meta_keys_def)
  then have "split_on (CHR '':'') (''meta:'' @ k @ CHR '':'' # v) = ''meta'' # k # split_on (CHR '':'') v"
    using split_on_append [of "CHR '':''" "''meta''" "k @ CHR '':'' # v"] by (simp add: split_on_append)
  with k show ?thesis using split_on_len [of "CHR '':''" v] by (simp add: add_marker_def join_split_on)
qed

lemma add_env: "k \<in> set env_kinds \<Longrightarrow> add_marker q (k @ CHR '':'' # i) = put_marker q (Env k i)"
proof -
  assume k: "k \<in> set env_kinds"
  then have "CHR '':'' \<notin> set k" by (auto simp: env_kinds_def)
  then have "split_on (CHR '':'') (k @ CHR '':'' # i) = k # split_on (CHR '':'') i" by (rule split_on_append)
  moreover have "k \<noteq> ''meta''" "k \<noteq> ''author''" "k \<noteq> ''edge''" using k by (auto simp: env_kinds_def)
  ultimately show ?thesis
    using k split_on_len [of "CHR '':''" i] by (simp add: add_marker_def join_split_on)
qed

lemma add_edge:
  assumes "t \<in> set edge_kinds" "s \<noteq> []" "CHR ''|'' \<notin> set s" "d \<noteq> []"
  shows "add_marker q (''edge:'' @ t @ CHR '':'' # s @ CHR ''|'' # d) = put_marker q (Edge t s d)"
proof -
  have "CHR '':'' \<notin> set t" using assms(1) by (auto simp: edge_kinds_def)
  then have parts: "split_on (CHR '':'') (''edge:'' @ t @ CHR '':'' # s @ CHR ''|'' # d)
      = ''edge'' # t # split_on (CHR '':'') (s @ CHR ''|'' # d)"
    using split_on_append [of "CHR '':''" "''edge''" "t @ CHR '':'' # s @ CHR ''|'' # d"] by (simp add: split_on_append)
  have ends: "edge_ends (s @ CHR ''|'' # d) ids = (s, d, False)" for ids
    by (simp add: edge_ends_def cut_before [OF assms(3)] cut_behind [OF assms(3)])
  show ?thesis
    using assms split_on_len [of "CHR '':''" "s @ CHR ''|'' # d"]
    by (simp add: add_marker_def parts [unfolded append_Cons append_Nil] ends del: split_on.simps)
qed

lemma add_author:
  assumes "well_formed (Author n fs)"
  shows "add_marker q (''author:'' @ str_of_nat n @ CHR ''|'' # join_on ''|'' (map field_text fs)) = put_marker q (Author n fs)"
proof -
  let ?rest = "str_of_nat n @ CHR ''|'' # join_on ''|'' (map field_text fs)"
  have digits: "list_all is_digit (str_of_nat n)" by (rule str_of_nat_digits)
  have plain: "\<forall>x \<in> set (str_of_nat n). x \<noteq> CHR ''|'' \<and> x \<noteq> CHR '':''"
    using digits by (auto simp: list_all_iff is_digit_def)
  have parts: "split_on (CHR '':'') (''author:'' @ ?rest) = ''author'' # split_on (CHR '':'') ?rest"
    using split_on_append [of "CHR '':''" "''author''" ?rest] by simp
  have "hd (split_on (CHR '':'') ?rest) = str_of_nat n @ CHR ''|'' # takeWhile (\<lambda>x. x \<noteq> CHR '':'') (join_on ''|'' (map field_text fs))"
    using plain by (simp add: split_on_hd)
  then have "takeWhile (\<lambda>c. c \<noteq> CHR ''|'') (hd (split_on (CHR '':'') ?rest)) = str_of_nat n"
    using plain by simp
  then have idx: "takeWhile (\<lambda>c. c \<noteq> CHR ''|'') (split_on (CHR '':'') ?rest ! 0) = str_of_nat n"
    by (simp add: hd_conv_nth)
  have tail: "tl (dropWhile (\<lambda>c. c \<noteq> CHR ''|'') ?rest) = join_on ''|'' (map field_text fs)"
    using plain by simp
  have "foldl add_field [] (split_on (CHR ''|'') (join_on ''|'' (map field_text fs))) = fs"
    using assms field_text_bars [of fs] by (simp add: split_fields add_fields)
  then have "author_of_line (''author:'' @ ?rest) (''author'' # split_on (CHR '':'') ?rest)
      = Some \<lparr>au_index = int n, au_fields = fs\<rparr>"
    using assms split_on_len [of "CHR '':''" ?rest]
    by (simp add: author_of_line_def idx int_of_nat_text tail del: split_on.simps)
  then show ?thesis
    by (simp add: add_marker_def parts [unfolded append_Cons append_Nil] del: split_on.simps)
qed

lemma add_marker_line: "writable m \<Longrightarrow> add_line q (marker_line m) = put_marker q m"
proof -
  assume m: "writable m"
  have "add_marker q (drop 6 (marker_line m)) = put_marker q m"
    using m add_meta add_env add_edge add_author by (cases m) (auto simp: writable_def)
  moreover have "marker_body (marker_line m) = Some (drop 6 (marker_line m), False)"
    using m by (cases m) (simp_all add: writable_def marker_body_def startswith_def)
  ultimately show ?thesis by (simp add: add_line_def)
qed

text \<open>C26: A sidecar written in the documented format, one marker of metadata, environment, edge
  or author per line, is read back as exactly those markers, in order, and without a warning.\<close>

theorem sidecar_round_trip:
  assumes "list_all writable ms"
  shows "parse_sidecar_text (unlines (map marker_line ms)) = foldl put_marker empty_run ms"
proof -
  have "splitlines (unlines (map marker_line ms)) = map marker_line ms"
    using assms by (intro splitlines_unlines) (auto simp: list_all_iff writable_def)
  moreover have "foldl add_line q (map marker_line ms) = foldl put_marker q ms" for q
    using assms by (induction ms arbitrary: q) (simp_all add: add_marker_line)
  ultimately show ?thesis by (simp add: parse_sidecar_text_def)
qed

theorem sidecar_round_trip_witness:
  "parse_sidecar_text (unlines (map marker_line [Meta ''id'' ''rrxiv:1'', Env ''claim'' ''2'', Edge ''supports'' ''p:c:1'' ''q:c:2'', Author 1 [(''name'', ''Ann'')]]))
     = foldl put_marker empty_run [Meta ''id'' ''rrxiv:1'', Env ''claim'' ''2'', Edge ''supports'' ''p:c:1'' ''q:c:2'', Author 1 [(''name'', ''Ann'')]]"
  by (rule sidecar_round_trip) code_simp

text \<open>An edge of the first format whose ends have different numbers of colons is cut elsewhere.\<close>

lemma old_edge_misread:
  "sc_edges (parse_sidecar_text ''RRXIV:edge:supports:p:claim:a:b'') = [\<lparr>eg_type = ''supports'', eg_source = ''p:claim'', eg_target = ''a:b''\<rparr>]"
  by code_simp

end
