(* ===== verification/Cir_Pairing.thy ===== *)
theory Cir_Pairing
  imports Tex_Walk Sidecar
begin

text \<open>
  How the parts of a paper find each other (\<open>parser/build.py\<close>): claims and their evidence,
  environments and their sidecar markers, and the ends of an edge and the identifiers they mean.
\<close>

definition colon_id :: "string \<Rightarrow> string \<Rightarrow> string" where
  "colon_id paper_id label = paper_id @ CHR '':'' # label"

definition given :: "string option \<Rightarrow> string option" where
  "given label = (case label of Some l \<Rightarrow> if l = [] then None else Some l | None \<Rightarrow> None)"

text \<open>\<open>_claim_id\<close>: the label, or the kind and an index.\<close>

definition claim_id :: "string \<Rightarrow> tex_environment \<Rightarrow> string \<Rightarrow> string" where
  "claim_id paper_id env fallback_index =
     (case given (te_label env) of
        Some l \<Rightarrow> colon_id paper_id l
      | None \<Rightarrow> colon_id paper_id (te_name env @ CHR '':'' # fallback_index))"

text \<open>What follows the first colon of a label; a label without a colon is its own tail.\<close>

definition tail_of :: "string \<Rightarrow> string" where
  "tail_of l = (if CHR '':'' \<in> set l then tl (dropWhile (\<lambda>c. c \<noteq> CHR '':'') l) else l)"

definition label_suffix :: "string option \<Rightarrow> string option" where
  "label_suffix label = map_option tail_of (given label)"

section \<open>Claims and evidence\<close>

text \<open>
  The environments are numbered, the number standing for the identity of the object. The state
  is the dictionary of the pairs, with the number of the evidence, and the numbers used.
\<close>

type_synonym numbered = "nat \<times> tex_environment"

type_synonym evidence_pairs = "(tex_environment \<times> numbered) list"

definition evidence_of :: "numbered list \<Rightarrow> numbered list" where
  "evidence_of envs = filter (\<lambda>(i, e). te_name e = ''evidence'') envs"

definition claims_of :: "numbered list \<Rightarrow> numbered list" where
  "claims_of envs = filter (\<lambda>(i, e). te_name e = ''claim'') envs"

definition by_suffix_candidate :: "numbered list \<Rightarrow> nat list \<Rightarrow> tex_environment \<Rightarrow> numbered option" where
  "by_suffix_candidate envs used claim =
     (case label_suffix (te_label claim) of
        None \<Rightarrow> None
      | Some x \<Rightarrow>
          find (\<lambda>(i, e). label_suffix (te_label e) = Some x \<and> i \<notin> set used \<and> te_offset claim \<le> te_offset e)
            (evidence_of envs))"

definition next_claim_offset :: "numbered list \<Rightarrow> numbered \<Rightarrow> nat option" where
  "next_claim_offset envs claim =
     map_option (te_offset \<circ> snd)
       (find (\<lambda>(i, e). i \<noteq> fst claim \<and> te_offset (snd claim) < te_offset e) (claims_of envs))"

definition positional_candidate :: "numbered list \<Rightarrow> nat list \<Rightarrow> numbered \<Rightarrow> numbered option" where
  "positional_candidate envs used claim =
     find (\<lambda>(i, e). te_name e = ''evidence'' \<and> i \<notin> set used \<and> te_offset (snd claim) < te_offset e \<and>
             (case next_claim_offset envs claim of None \<Rightarrow> True | Some n \<Rightarrow> te_offset e < n)) envs"

definition pair_claim :: "numbered list \<Rightarrow> evidence_pairs \<times> nat list \<Rightarrow> numbered \<Rightarrow> evidence_pairs \<times> nat list" where
  "pair_claim envs q claim =
     (case q of
        (pairs, used) \<Rightarrow>
          case by_suffix_candidate envs used (snd claim) of
            Some c \<Rightarrow> (dict_set (snd claim) c pairs, fst c # used)
          | None \<Rightarrow>
              if dict_has pairs (snd claim) then q
              else case positional_candidate envs used claim of
                  Some c \<Rightarrow> (dict_set (snd claim) c pairs, fst c # used)
                | None \<Rightarrow> q)"

definition pair_claims_with_evidence :: "tex_environment list \<Rightarrow> evidence_pairs" where
  "pair_claims_with_evidence envs =
     (let numbered = enumerate 0 envs in fst (foldl (pair_claim numbered) ([], []) (claims_of numbered)))"

section \<open>Environments and markers\<close>

text \<open>Within a kind, the n-th environment and the n-th marker.\<close>

definition markers_of_kind :: "tex_environment list \<Rightarrow> env_marker list \<Rightarrow> string \<Rightarrow> (tex_environment \<times> env_marker) list" where
  "markers_of_kind tex_envs sidecar_envs kind =
     zip (filter (\<lambda>e. tex_env_to_sidecar_kind (te_name e) = kind) tex_envs)
         (filter (\<lambda>m. em_kind m = kind) sidecar_envs)"

definition pair_envs_with_sidecar :: "tex_environment list \<Rightarrow> env_marker list \<Rightarrow> (tex_environment \<times> env_marker) list" where
  "pair_envs_with_sidecar tex_envs sidecar_envs =
     foldl (\<lambda>d (e, m). dict_set e m d) []
       (concat (map (markers_of_kind tex_envs sidecar_envs) (remdups (map (\<lambda>e. tex_env_to_sidecar_kind (te_name e)) tex_envs))))"

section \<open>Ends of edges\<close>

definition dict_union :: "('k \<times> 'v) list \<Rightarrow> ('k \<times> 'v) list \<Rightarrow> ('k \<times> 'v) list" where
  "dict_union d e = foldl (\<lambda>d (k, v). dict_set k v d) d e"

text \<open>\<open>_build_label_resolver\<close>: full labels, then tails of claims, then tails of the rest.\<close>

record label_tables =
  lt_full :: "(string \<times> string) list"
  lt_claims :: "(string \<times> string) list"
  lt_other :: "(string \<times> string) list"

definition add_label :: "string \<Rightarrow> label_tables \<Rightarrow> tex_environment \<Rightarrow> label_tables" where
  "add_label paper_id t env =
     (case given (te_label env) of
        None \<Rightarrow> t
      | Some l \<Rightarrow>
          let canonical = colon_id paper_id l; t = t\<lparr>lt_full := dict_set l canonical (lt_full t)\<rparr>
          in if te_name env = ''claim'' then t\<lparr>lt_claims := dict_set (tail_of l) canonical (lt_claims t)\<rparr>
             else t\<lparr>lt_other := dict_setdefault (tail_of l) canonical (lt_other t)\<rparr>)"

definition build_label_resolver :: "tex_environment list \<Rightarrow> string \<Rightarrow> (string \<times> string) list" where
  "build_label_resolver tex_envs paper_id =
     (let t = foldl (add_label paper_id) \<lparr>lt_full = [], lt_claims = [], lt_other = []\<rparr> tex_envs
      in dict_union (dict_union (dict_union [] (lt_other t)) (lt_claims t)) (lt_full t))"

definition resolve_edge_endpoint :: "string \<Rightarrow> (string \<times> string) list \<Rightarrow> string \<Rightarrow> string" where
  "resolve_edge_endpoint paper_id resolver raw =
     (if startswith raw (colon_id paper_id []) then raw
      else case dict_get resolver raw of
          Some canonical \<Rightarrow> canonical
        | None \<Rightarrow>
            if CHR '':'' \<in> set raw \<and> takeWhile (\<lambda>c. c \<noteq> CHR '':'') raw \<noteq> paper_id then raw
            else colon_id paper_id raw)"

text \<open>\<open>_claim_ids_from_edge\<close>, kept in the code for old callers.\<close>

definition claim_ids_from_edge :: "edge_marker \<Rightarrow> string \<times> string" where
  "claim_ids_from_edge edge = (eg_source edge, eg_target edge)"

section \<open>Evidence is used once\<close>

definition pairing_ok :: "tex_environment list \<Rightarrow> evidence_pairs \<times> nat list \<Rightarrow> bool" where
  "pairing_ok envs q \<longleftrightarrow>
     (case q of (pairs, used) \<Rightarrow>
        distinct (map (fst \<circ> snd) pairs) \<and> fst ` snd ` set pairs \<subseteq> set used \<and> wf_dict pairs \<and>
        (\<forall>(c, i, e) \<in> set pairs. i < length envs \<and> e = envs ! i \<and> te_name e = ''evidence'' \<and> te_offset c \<le> te_offset e \<and>
           te_name c = ''claim'' \<and> c \<in> set envs))"

lemma enumerate_member: "(i, e) \<in> set (enumerate 0 envs) \<longleftrightarrow> i < length envs \<and> e = envs ! i"
  by (auto simp: in_set_enumerate_eq)

lemma find_member: "find P xs = Some x \<Longrightarrow> x \<in> set xs \<and> P x"
  by (auto simp: find_Some_iff)

lemma by_suffix_candidate_found:
  assumes "by_suffix_candidate (enumerate 0 envs) used c = Some (i, e)"
  shows "i < length envs \<and> e = envs ! i \<and> te_name e = ''evidence'' \<and> i \<notin> set used \<and> te_offset c \<le> te_offset e"
  using assms unfolding by_suffix_candidate_def evidence_of_def
  by (auto simp: enumerate_member split: option.splits dest!: find_member)

lemma positional_candidate_found:
  assumes "positional_candidate (enumerate 0 envs) used c = Some (i, e)"
  shows "i < length envs \<and> e = envs ! i \<and> te_name e = ''evidence'' \<and> i \<notin> set used \<and> te_offset (snd c) \<le> te_offset e"
  using find_member [OF assms [unfolded positional_candidate_def]] by (auto simp: enumerate_member)

lemma pairing_ok_add:
  assumes "pairing_ok envs (pairs, used)" "dict_get pairs c = None" "c \<in> set envs" "te_name c = ''claim''"
    and "i < length envs" "e = envs ! i" "te_name e = ''evidence''" "i \<notin> set used" "te_offset c \<le> te_offset e"
  shows "pairing_ok envs (dict_set c (i, e) pairs, i # used)"
  using assms by (auto simp: pairing_ok_def dict_set_fresh map_of_eq_None_iff)

lemma pair_claim_ok:
  assumes "pairing_ok envs q" "dict_get (fst q) c = None" "c \<in> set envs" "te_name c = ''claim''"
  shows "pairing_ok envs (pair_claim (enumerate 0 envs) q (j, c))"
    and "fst ` set (fst (pair_claim (enumerate 0 envs) q (j, c))) \<subseteq> insert c (fst ` set (fst q))"
proof -
  obtain pairs used where q: "q = (pairs, used)" by (cases q)
  have add: "pairing_ok envs (dict_set c x pairs, fst x # used)"
    if "by_suffix_candidate (enumerate 0 envs) used c = Some x \<or> positional_candidate (enumerate 0 envs) used (j, c) = Some x" for x
    using that assms(1-4) by_suffix_candidate_found [of envs used c "fst x" "snd x"]
      positional_candidate_found [of envs used "(j, c)" "fst x" "snd x"]
    by (cases x) (auto simp: q intro!: pairing_ok_add)
  show "pairing_ok envs (pair_claim (enumerate 0 envs) q (j, c))"
    using assms(1) add by (auto simp: pair_claim_def q split: option.split)
  show "fst ` set (fst (pair_claim (enumerate 0 envs) q (j, c))) \<subseteq> insert c (fst ` set (fst q))"
    by (auto simp: pair_claim_def q dict_set_keys split: option.split)
qed

lemma pair_claims_ok:
  assumes "pairing_ok envs q" "distinct (map snd cs)" "fst ` set (fst q) \<inter> snd ` set cs = {}"
    "\<forall>(i, c) \<in> set cs. c \<in> set envs \<and> te_name c = ''claim''"
  shows "pairing_ok envs (foldl (pair_claim (enumerate 0 envs)) q cs)"
  using assms
proof (induction cs arbitrary: q)
  case (Cons ic cs)
  obtain i c where ic: "ic = (i, c)" by (cases ic)
  have new: "dict_get (fst q) c = None" using Cons.prems(3) by (auto simp: ic map_of_eq_None_iff)
  have c: "c \<in> set envs" "te_name c = ''claim''" using Cons.prems(4) by (auto simp: ic)
  note step = pair_claim_ok [OF Cons.prems(1) new c, of i]
  have "fst ` set (fst (pair_claim (enumerate 0 envs) q (i, c))) \<inter> snd ` set cs = {}"
  proof -
    have "insert c (fst ` set (fst q)) \<inter> snd ` set cs = {}" using Cons.prems(2,3) by (auto simp: ic)
    with step(2) show ?thesis by blast
  qed
  with Cons.IH [OF step(1)] Cons.prems show ?case by (simp add: ic)
qed simp

lemma distinct_claims: "distinct envs \<Longrightarrow> distinct (map snd (claims_of (enumerate 0 envs)))"
  by (simp add: claims_of_def distinct_map_filter)

text \<open>C27: Pairing claims with their evidence uses every evidence block at most once: each pair is a
  claim and an evidence block of the paper that does not stand before it, and neither occurs in
  another pair.\<close>

theorem evidence_used_once:
  assumes "distinct envs" "pairs = pair_claims_with_evidence envs"
  shows "wf_dict pairs \<and> distinct (map (\<lambda>(c, i, e). e) pairs) \<and>
    (\<forall>(c, i, e) \<in> set pairs. {c, e} \<subseteq> set envs \<and> te_name c = ''claim'' \<and> te_name e = ''evidence'' \<and> te_offset c \<le> te_offset e)"
proof -
  let ?q = "foldl (pair_claim (enumerate 0 envs)) ([], []) (claims_of (enumerate 0 envs))"
  have "\<forall>(i, c) \<in> set (claims_of (enumerate 0 envs)). c \<in> set envs \<and> te_name c = ''claim''"
    by (auto simp: claims_of_def enumerate_member)
  then have "pairing_ok envs ?q"
    using distinct_claims [OF assms(1)] by (intro pair_claims_ok) (auto simp: pairing_ok_def)
  then have ok: "distinct (map (fst \<circ> snd) pairs)" "wf_dict pairs"
    "\<forall>(c, i, e) \<in> set pairs. i < length envs \<and> e = envs ! i \<and> te_name e = ''evidence'' \<and> te_offset c \<le> te_offset e \<and>
       te_name c = ''claim'' \<and> c \<in> set envs"
    unfolding assms(2) pair_claims_with_evidence_def pairing_ok_def Let_def by (cases ?q; simp)+
  have "map (\<lambda>(c, i, e). e) pairs = map (\<lambda>i. envs ! i) (map (fst \<circ> snd) pairs)" using ok(3) by auto
  moreover have "inj_on (\<lambda>i. envs ! i) (set (map (fst \<circ> snd) pairs))"
  proof (rule inj_onI)
    fix i j assume "i \<in> set (map (fst \<circ> snd) pairs)" "j \<in> set (map (fst \<circ> snd) pairs)" and same: "envs ! i = envs ! j"
    then have "i < length envs" "j < length envs" using ok(3) by fastforce+
    with same show "i = j" using nth_eq_iff_index_eq [OF assms(1)] by simp
  qed
  ultimately have "distinct (map (\<lambda>(c, i, e). e) pairs)" using ok(1) by (simp only: distinct_map [of _ "map (fst \<circ> snd) pairs"])
  with ok show ?thesis by auto
qed

definition env_at :: "string \<Rightarrow> string option \<Rightarrow> nat \<Rightarrow> tex_environment" where
  "env_at name label pos =
     \<lparr>te_name = name, te_title = None, te_label = label, te_body = [], te_offset = pos, te_end = pos + 5, te_inputs = []\<rparr>"

definition example_envs :: "tex_environment list" where
  "example_envs =
     [env_at ''claim'' (Some ''prop:1'') 0, env_at ''claim'' (Some ''prop:2'') 10, env_at ''evidence'' None 20,
      env_at ''evidence'' (Some ''ev:1'') 30]"

theorem evidence_used_once_witness:
  "map (\<lambda>(c, i, e). (te_offset c, te_offset e)) (pair_claims_with_evidence example_envs) = [(0, 30), (10, 20)] \<and>
   distinct (map (\<lambda>(c, i, e). e) (pair_claims_with_evidence example_envs))"
proof
  show "map (\<lambda>(c, i, e). (te_offset c, te_offset e)) (pair_claims_with_evidence example_envs) = [(0, 30), (10, 20)]" by code_simp
  have "distinct (map te_offset example_envs)" by code_simp
  then have "distinct example_envs" by (simp add: distinct_map)
  from evidence_used_once [OF this refl] show "distinct (map (\<lambda>(c, i, e). e) (pair_claims_with_evidence example_envs))" by blast
qed

section \<open>Resolution is canonical\<close>

lemma dict_union_get:
  "wf_dict e \<Longrightarrow> dict_get (dict_union d e) k = (case dict_get e k of Some v \<Rightarrow> Some v | None \<Rightarrow> dict_get d k)"
proof (induction e arbitrary: d)
  case (Cons kv e)
  obtain k' v where kv: "kv = (k', v)" by (cases kv)
  have "dict_get e k' = None" using Cons.prems by (auto simp: kv map_of_eq_None_iff)
  with Cons show ?case by (auto simp: kv dict_union_def split: option.split)
qed (simp add: dict_union_def)

text \<open>All three tables hold identifiers of the paper, and the first has every label.\<close>

definition tables_ok :: "string \<Rightarrow> label_tables \<Rightarrow> bool" where
  "tables_ok p t \<longleftrightarrow>
     wf_dict (lt_full t) \<and> wf_dict (lt_claims t) \<and> wf_dict (lt_other t) \<and>
     (\<forall>l v. dict_get (lt_full t) l = Some v \<longrightarrow> v = colon_id p l) \<and>
     (\<forall>l v. dict_get (lt_claims t) l = Some v \<or> dict_get (lt_other t) l = Some v \<longrightarrow> (\<exists>m. v = colon_id p m))"

lemma tables_ok_add: "tables_ok p t \<Longrightarrow> tables_ok p (add_label p t env)"
  by (auto simp: tables_ok_def add_label_def dict_setdefault_def Let_def simp del: map_of_eq_Some_iff split: option.split)

lemma full_label_add:
  "dict_get (lt_full t) l \<noteq> None \<or> given (te_label env) = Some l \<Longrightarrow> dict_get (lt_full (add_label p t env)) l \<noteq> None"
  by (auto simp: add_label_def Let_def split: option.split)

lemma full_label_fold:
  "dict_get (lt_full t) l \<noteq> None \<or> (\<exists>env \<in> set envs. given (te_label env) = Some l) \<Longrightarrow>
   dict_get (lt_full (foldl (add_label p) t envs)) l \<noteq> None"
proof (induction envs arbitrary: t)
  case (Cons env envs)
  have "dict_get (lt_full (add_label p t env)) l \<noteq> None \<or> (\<exists>e \<in> set envs. given (te_label e) = Some l)"
    using Cons.prems full_label_add [of t l env p] by auto
  from Cons.IH [OF this] show ?case by simp
qed simp

lemma tables_ok_fold: "tables_ok p t \<Longrightarrow> tables_ok p (foldl (add_label p) t envs)"
  by (induction envs arbitrary: t) (simp_all add: tables_ok_add)

lemma resolver_values:
  "dict_get (build_label_resolver envs p) l = Some v \<Longrightarrow> \<exists>m. v = colon_id p m"
  "env \<in> set envs \<Longrightarrow> given (te_label env) = Some l \<Longrightarrow> dict_get (build_label_resolver envs p) l = Some (colon_id p l)"
proof -
  let ?t = "foldl (add_label p) \<lparr>lt_full = [], lt_claims = [], lt_other = []\<rparr> envs"
  have ok: "tables_ok p ?t" by (rule tables_ok_fold) (simp add: tables_ok_def)
  have get: "dict_get (build_label_resolver envs p) l =
      (case dict_get (lt_full ?t) l of Some v \<Rightarrow> Some v | None \<Rightarrow>
        (case dict_get (lt_claims ?t) l of Some v \<Rightarrow> Some v | None \<Rightarrow> dict_get (lt_other ?t) l))" for l
    using ok by (simp add: build_label_resolver_def dict_union_get tables_ok_def Let_def split: option.split)
  show "dict_get (build_label_resolver envs p) l = Some v \<Longrightarrow> \<exists>m. v = colon_id p m"
    using ok unfolding get tables_ok_def by (auto split: option.splits)
  show "dict_get (build_label_resolver envs p) l = Some (colon_id p l)" if "env \<in> set envs" "given (te_label env) = Some l"
  proof -
    have "dict_get (lt_full ?t) l \<noteq> None" using that by (intro full_label_fold) blast
    with ok show ?thesis unfolding get tables_ok_def by auto
  qed
qed

lemma startswith_colon_id: "startswith (colon_id p m) (colon_id p [])"
  by (simp add: startswith_def colon_id_def)

lemma resolve_cases:
  "resolve_edge_endpoint p (build_label_resolver envs p) raw = raw \<or>
   startswith (resolve_edge_endpoint p (build_label_resolver envs p) raw) (colon_id p [])"
  by (auto simp: resolve_edge_endpoint_def startswith_colon_id split: option.split dest: resolver_values(1))

text \<open>The ends of edges are canonical: resolving a resolved end changes nothing, and the label
  of every environment of the paper means that environment's own identifier.\<close>

lemma endpoints_canonical:
  assumes "r = build_label_resolver envs p" "env \<in> set envs" "given (te_label env) = Some l" "\<not> startswith l (colon_id p [])"
  shows "resolve_edge_endpoint p r (resolve_edge_endpoint p r raw) = resolve_edge_endpoint p r raw \<and>
    resolve_edge_endpoint p r l = colon_id p l"
proof
  show "resolve_edge_endpoint p r (resolve_edge_endpoint p r raw) = resolve_edge_endpoint p r raw"
  proof (cases "resolve_edge_endpoint p r raw = raw")
    case False
    then have "startswith (resolve_edge_endpoint p r raw) (colon_id p [])"
      using resolve_cases [of p envs raw] assms(1) by simp
    then show ?thesis by (subst resolve_edge_endpoint_def) simp
  qed simp
  show "resolve_edge_endpoint p r l = colon_id p l"
    using resolver_values(2) [OF assms(2,3), of p] assms(1,4) by (simp add: resolve_edge_endpoint_def)
qed

lemma endpoints_canonical_witness:
  "resolve_edge_endpoint ''p'' (build_label_resolver example_envs ''p'') ''prop:1'' = ''p:prop:1''"
proof -
  have env: "env_at ''claim'' (Some ''prop:1'') 0 \<in> set example_envs" by (simp add: example_envs_def)
  have "given (te_label (env_at ''claim'' (Some ''prop:1'') 0)) = Some ''prop:1''" "\<not> startswith ''prop:1'' (colon_id ''p'' [])"
    by code_simp+
  from endpoints_canonical [OF refl env this, of "[]"]
  have "resolve_edge_endpoint ''p'' (build_label_resolver example_envs ''p'') ''prop:1'' = colon_id ''p'' ''prop:1''" by blast
  then show ?thesis by (simp add: colon_id_def)
qed

text \<open>Two unlabelled claims whose markers have no index get one identifier.\<close>

lemma empty_indices_collide:
  "claim_id ''p'' (env_at ''claim'' None 0) [] = claim_id ''p'' (env_at ''claim'' None 10) []"
  by code_simp

end
