(* ===== verification/Tex_Clean.thy ===== *)
theory Tex_Clean
  imports Tex_Match
begin

text \<open>
  From LaTeX source to the plain text of a structure (\<open>parser/clean.py\<close>): escaped
  characters, edge macros, style macros, footnotes, font sizes, links, line breaks, dashes and
  white space, in the order of \<open>tex_to_text\<close>. The two dashes the code writes have no code
  point below 256; they are the strings \<open>em\<close> and \<open>en\<close>.
\<close>

definition style_macros :: "string list" where
  "style_macros =
     [''texttt'', ''textit'', ''textbf'', ''textsf'', ''textsc'', ''textmd'', ''textup'', ''textnormal'', ''emph'',
      ''underline'', ''sout'', ''uline'', ''uuline'', ''uwave'', ''mbox'', ''hbox'']"

definition drop_macros :: "string list" where
  "drop_macros = [''thanks'', ''footnote'', ''footnotemark'', ''footnotetext'', ''marginpar'', ''marginnote'']"

definition bare_font_macros :: "string list" where
  "bare_font_macros =
     [''Huge'', ''huge'', ''LARGE'', ''Large'', ''large'', ''normalsize'', ''small'', ''footnotesize'', ''scriptsize'',
      ''tiny'', ''bfseries'', ''itshape'', ''ttfamily'', ''sffamily'', ''rmfamily'', ''upshape'', ''slshape'']"

definition escaped_specials :: "(string \<times> string) list" where
  "escaped_specials = map (\<lambda>c. ([backslash_char, c], [c])) ''&%$#_{}~^''"

text \<open>Up to eight passes, ended by one that changes nothing.\<close>

fun passes :: "nat \<Rightarrow> string matcher \<Rightarrow> string \<Rightarrow> string" where
  "passes 0 m txt = txt"
| "passes (Suc k) m txt = (if find_all m txt = [] then sub_all m txt else passes k m (sub_all m txt))"

definition strip_one_arg_macros :: "string \<Rightarrow> string" where
  "strip_one_arg_macros txt = passes 8 (macro_group style_macros) txt"

definition dropping :: "'a matcher \<Rightarrow> string matcher" where
  "dropping m s = map_option (\<lambda>(_, r). ([], r)) (m s)"

definition drop_one_arg_macros :: "string \<Rightarrow> string" where
  "drop_one_arg_macros txt = passes 8 (dropping (macro_group drop_macros)) txt"

text \<open>\<open>\b\<close> behind a name: the next character is not alphanumeric and no underscore.\<close>

definition word_char :: "char \<Rightarrow> bool" where
  "word_char c =
     (let n = (of_char c :: nat)
      in (48 \<le> n \<and> n \<le> 57) \<or> (65 \<le> n \<and> n \<le> 90) \<or> (97 \<le> n \<and> n \<le> 122) \<or> n = 95 \<or>
         n \<in> {170, 178, 179, 181, 185, 186, 188, 189, 190} \<or> (192 \<le> n \<and> n \<noteq> 215 \<and> n \<noteq> 247))"

definition bare_macro :: "string list \<Rightarrow> string matcher" where
  "bare_macro names s =
     first_match (\<lambda>n. Option.bind (macro_named n s)
       (\<lambda>r. if r \<noteq> [] \<and> word_char (hd r) then None else Some ([], skip_space r))) names"

definition strip_bare_font_macros :: "string \<Rightarrow> string" where
  "strip_bare_font_macros txt = sub_all (bare_macro bare_font_macros) txt"

text \<open>\<open>\href{url}{text}\<close>, and \<open>\cite\<close> with its optional argument.\<close>

definition two_groups :: "string list \<Rightarrow> string matcher" where
  "two_groups names s =
     first_match (\<lambda>n. Option.bind (macro_named n s)
       (\<lambda>r. Option.bind (flat_group (skip_space r)) (\<lambda>(_, r'). flat_group (skip_space r')))) names"

definition cite_match :: "string matcher" where
  "cite_match s =
     Option.bind (macro_named ''cite'' s)
       (\<lambda>r. let r1 = skip_space r;
                r2 = (case bracketed r1 of Some (_, r') \<Rightarrow> r' | None \<Rightarrow> r1)
            in Option.bind (flat_group (skip_space r2)) (\<lambda>(_, r'). Some ([], r')))"

definition strip_special_macros :: "string \<Rightarrow> string" where
  "strip_special_macros txt =
     sub_all (dropping (macro_group [''ref'', ''pageref'', ''label'']))
       (sub_all cite_match
         (sub_all (macro_group [''url''])
           (sub_all (two_groups [''href'']) txt)))"

definition edge_macros :: "string list" where
  "edge_macros = [''dependson'', ''supports'', ''contradicts'', ''extendsclaim'', ''extends'']"

definition strip_edge_macros :: "string \<Rightarrow> string" where
  "strip_edge_macros txt =
     sub_all (dropping (two_groups edge_macros)) txt"

definition strip_input_macros :: "string \<Rightarrow> string" where
  "strip_input_macros txt = sub_all (dropping (macro_group [''input'', ''include''])) txt"

definition line_break_match :: "string matcher" where
  "line_break_match s =
     (if startswith s [backslash_char, backslash_char]
      then let r = skip_space (drop 2 s)
           in Some ('' '', case bracketed r of Some (_, r') \<Rightarrow> r' | None \<Rightarrow> r)
      else None)"

definition strip_line_breaks :: "string \<Rightarrow> string" where
  "strip_line_breaks txt = sub_all line_break_match txt"

definition replace_escaped_specials :: "string \<Rightarrow> string" where
  "replace_escaped_specials txt = foldl (\<lambda>t (esc, plain). replace_all esc plain t) txt escaped_specials"

definition blank :: "char \<Rightarrow> bool" where
  "blank c \<longleftrightarrow> c = CHR '' '' \<or> c = char_of (9 :: nat)"

definition blank_run :: "string matcher" where
  "blank_run s = (if s \<noteq> [] \<and> blank (hd s) then Some ('' '', dropWhile blank s) else None)"

text \<open>\<open>\n[ \t]*\n[ \t]*\n+\<close>.\<close>

definition blank_lines :: "string matcher" where
  "blank_lines s =
     (case s of
        [] \<Rightarrow> None
      | a # r \<Rightarrow>
          if a \<noteq> newline then None
          else case dropWhile blank r of
              [] \<Rightarrow> None
            | b # r1 \<Rightarrow>
                if b \<noteq> newline then None
                else case dropWhile blank r1 of
                    [] \<Rightarrow> None
                  | c # r2 \<Rightarrow>
                      if c \<noteq> newline then None
                      else Some ([newline, newline], dropWhile (\<lambda>x. x = newline) r2))"

definition normalize_whitespace :: "string \<Rightarrow> string" where
  "normalize_whitespace txt =
     str_strip (sub_all blank_lines (sub_all blank_run (replace_all ''~'' '' '' txt)))"

definition convert_dashes :: "string \<Rightarrow> string \<Rightarrow> string \<Rightarrow> string" where
  "convert_dashes em en txt = replace_all ''--'' en (replace_all ''---'' em txt)"

fun style_rounds :: "nat \<Rightarrow> string \<Rightarrow> string" where
  "style_rounds 0 txt = txt"
| "style_rounds (Suc k) txt =
     (let t = strip_one_arg_macros (drop_one_arg_macros txt) in if t = txt then t else style_rounds k t)"

definition tex_to_text :: "string \<Rightarrow> string \<Rightarrow> string \<Rightarrow> string" where
  "tex_to_text em en txt =
     normalize_whitespace
       (convert_dashes em en
         (strip_line_breaks
           (strip_special_macros
             (strip_bare_font_macros
               (style_rounds 8 (strip_edge_macros (replace_escaped_specials txt)))))))"

text \<open>
  \<open>_strip_line_comments\<close>: a percent sign at the start of a line or behind a character
  other than a backslash, up to the end of the line. The flag says that a line starts here.
\<close>

function strip_line_comments :: "bool \<Rightarrow> string \<Rightarrow> string" where
  "strip_line_comments fresh s =
     (case s of
        [] \<Rightarrow> []
      | c # r \<Rightarrow>
          if fresh \<and> c = CHR ''%'' then strip_line_comments False (dropWhile (\<lambda>x. x \<noteq> newline) r)
          else if c \<noteq> backslash_char \<and> r \<noteq> [] \<and> hd r = CHR ''%''
          then c # strip_line_comments False (dropWhile (\<lambda>x. x \<noteq> newline) (tl r))
          else c # strip_line_comments (c = newline) r)"
  by pat_completeness auto
termination
  by (relation "measure (\<lambda>(fresh, s). length s)")
     (auto intro: le_less_trans [OF length_dropWhile_le] simp: less_Suc_eq_le le_trans [OF length_dropWhile_le])

declare strip_line_comments.simps [simp del]

definition tex_to_proof_text :: "string \<Rightarrow> string \<Rightarrow> string \<Rightarrow> string" where
  "tex_to_proof_text em en txt =
     tex_to_text em en (strip_input_macros (strip_edge_macros (strip_line_comments True txt)))"

section \<open>Styled text\<close>

text \<open>Text in which style macros are nested, how it is written and what it says.\<close>

datatype styled = Plain string | Style string "styled list"

fun render :: "styled \<Rightarrow> string" where
  "render (Plain t) = t"
| "render (Style n ts) = backslash_char # n @ CHR ''{'' # concat (map render ts) @ ''}''"

fun content :: "styled \<Rightarrow> string" where
  "content (Plain t) = t"
| "content (Style n ts) = concat (map content ts)"

fun nesting :: "styled \<Rightarrow> nat" where
  "nesting (Plain t) = 0"
| "nesting (Style n ts) = Suc (foldr (\<lambda>x k. max (nesting x) k) ts 0)"

fun styled_ok :: "styled \<Rightarrow> bool" where
  "styled_ok (Plain t) = list_all (\<lambda>c. c \<noteq> backslash_char \<and> c \<noteq> CHR ''{'' \<and> c \<noteq> CHR ''}'') t"
| "styled_ok (Style n ts) = (n \<in> set style_macros \<and> list_all styled_ok ts)"

text \<open>What one pass does: it opens the innermost macros.\<close>

fun is_plain :: "styled \<Rightarrow> bool" where
  "is_plain (Plain t) = True"
| "is_plain (Style n ts) = False"

fun peel :: "styled \<Rightarrow> styled" where
  "peel (Plain t) = Plain t"
| "peel (Style n ts) = (if list_all is_plain ts then Plain (concat (map content ts)) else Style n (map peel ts))"

definition written :: "styled list \<Rightarrow> string" where
  "written ts = concat (map render ts)"

definition says :: "styled list \<Rightarrow> string" where
  "says ts = concat (map content ts)"

definition deepest :: "styled list \<Rightarrow> nat" where
  "deepest ts = foldr (\<lambda>x k. max (nesting x) k) ts 0"

lemma deepest_simps [simp]: "deepest [] = 0" "deepest (t # ts) = max (nesting t) (deepest ts)"
  by (simp_all add: deepest_def)

lemma nesting_Style [simp]: "nesting (Style n ts) = Suc (deepest ts)"
  by (simp add: deepest_def)

declare nesting.simps(2) [simp del]

lemma written_simps [simp]: "written [] = []" "written (t # ts) = render t @ written ts"
  by (simp_all add: written_def)

lemma render_Style: "render (Style n ts) = backslash_char # n @ CHR ''{'' # written ts @ ''}''"
  by (simp add: written_def)

declare render.simps(2) [simp del]

lemma says_simps [simp]: "says [] = []" "says (t # ts) = content t @ says ts"
  by (simp_all add: says_def)

lemma content_Style [simp]: "content (Style n ts) = says ts"
  by (simp add: says_def)

declare content.simps(2) [simp del]

lemma plain_written: "list_all is_plain ts \<Longrightarrow> written ts = says ts"
proof (induction ts)
  case (Cons t ts)
  then show ?case by (cases t) simp_all
qed simp

lemma says_clean: "list_all styled_ok ts \<Longrightarrow> list_all (\<lambda>c. c \<noteq> backslash_char \<and> c \<noteq> CHR ''{'' \<and> c \<noteq> CHR ''}'') (says ts)"
proof (induction "size_list size ts" arbitrary: ts rule: less_induct)
  case less
  show ?case
  proof (cases ts)
    case (Cons t us)
    with less have "list_all (\<lambda>c. c \<noteq> backslash_char \<and> c \<noteq> CHR ''{'' \<and> c \<noteq> CHR ''}'') (says us)" by simp
    moreover have "list_all (\<lambda>c. c \<noteq> backslash_char \<and> c \<noteq> CHR ''{'' \<and> c \<noteq> CHR ''}'') (content t)"
      using less Cons by (cases t) simp_all
    ultimately show ?thesis using Cons by simp
  qed simp
qed

lemma content_peel: "content (peel t) = content t"
  by (induction t rule: peel.induct) (simp_all add: says_def content.simps(2) cong: map_cong)

lemma ok_peel: "styled_ok t \<Longrightarrow> styled_ok (peel t)"
proof (induction t rule: peel.induct)
  case (2 n ts)
  then show ?case using says_clean [of ts] by (auto simp: list_all_iff says_def)
qed simp

lemma deepest_le_iff: "deepest ts \<le> k \<longleftrightarrow> (\<forall>t \<in> set ts. nesting t \<le> k)"
  by (induction ts) auto

lemma nesting_peel: "nesting (peel t) \<le> nesting t - 1"
proof (induction t rule: peel.induct)
  case (2 n ts)
  show ?case
  proof (cases "list_all is_plain ts")
    case False
    have each: "nesting t \<le> deepest ts" if "t \<in> set ts" for t
      using that deepest_le_iff [of ts "deepest ts"] by simp
    have "deepest (map peel ts) \<le> deepest ts - 1"
      unfolding deepest_le_iff using 2 [OF False] each by (fastforce intro: le_trans diff_le_mono)
    moreover obtain t where t: "t \<in> set ts" "\<not> is_plain t" using False by (auto simp: list_all_iff)
    have "0 < nesting t" using t(2) by (cases t) simp_all
    with each [OF t(1)] have "0 < deepest ts" by simp
    ultimately show ?thesis using False by simp
  qed simp
qed simp

section \<open>Matching in styled text\<close>

text \<open>A matcher of macros, and one that overlooks the style macros.\<close>

definition at_backslash :: "'a matcher \<Rightarrow> bool" where
  "at_backslash m \<longleftrightarrow> (\<forall>c r. c \<noteq> backslash_char \<longrightarrow> m (c # r) = None)"

definition overlooks :: "'a matcher \<Rightarrow> bool" where
  "overlooks m \<longleftrightarrow> at_backslash m \<and> (\<forall>n \<in> set style_macros. \<forall>r. m (backslash_char # n @ CHR ''{'' # r) = None)"

named_theorems matchers \<open>matchers that only match at a backslash\<close>

lemma macro_named_other: "c \<noteq> backslash_char \<Longrightarrow> macro_named n (c # r) = None"
  by (auto simp: macro_named_def startswith_def)

lemma first_match_None: "(\<And>x. x \<in> set xs \<Longrightarrow> f x = None) \<Longrightarrow> first_match f xs = None"
  by (induction xs) auto

lemma at_backslash_matchers [matchers]:
  "at_backslash (macro_group names)" "at_backslash (bare_macro names)" "at_backslash (two_groups names)" "at_backslash cite_match"
  by (simp_all add: at_backslash_def macro_group_def bare_macro_def two_groups_def cite_match_def macro_named_other first_match_None)

lemma at_backslash_line_break [matchers]: "at_backslash line_break_match"
  by (auto simp: at_backslash_def line_break_match_def startswith_def)

lemma at_backslash_dropping [matchers]: "at_backslash m \<Longrightarrow> at_backslash (dropping m)"
  by (simp add: at_backslash_def dropping_def)

lemma at_backslash_plain [matchers]: "at_backslash (plain_match (backslash_char # old) new)"
  by (auto simp: at_backslash_def plain_match_def startswith_def)

lemma sub_all_step: "m (c # r) = None \<Longrightarrow> sub_all m (c # r) = c # sub_all m r"
  by (subst sub_all.simps) simp

lemma sub_all_skip: "at_backslash m \<Longrightarrow> backslash_char \<notin> set t \<Longrightarrow> sub_all m (t @ s) = t @ sub_all m s"
  by (induction t) (auto simp: at_backslash_def sub_all_step)

lemma sub_all_clean: "at_backslash m \<Longrightarrow> backslash_char \<notin> set t \<Longrightarrow> sub_all m t = t"
  using sub_all_skip [of m t "[]"] by simp

lemma backslash_braces [simp]:
  "backslash_char \<noteq> CHR ''{''" "backslash_char \<noteq> CHR ''}''" "CHR ''{'' \<noteq> backslash_char" "CHR ''}'' \<noteq> backslash_char"
  by code_simp+

lemma style_names: "list_all (list_all (\<lambda>c. c \<noteq> backslash_char \<and> c \<noteq> CHR ''{'' \<and> c \<noteq> CHR ''}'')) style_macros"
  by code_simp

lemma style_name: "n \<in> set style_macros \<Longrightarrow> list_all (\<lambda>c. c \<noteq> backslash_char \<and> c \<noteq> CHR ''{'' \<and> c \<noteq> CHR ''}'') n"
  using style_names by (simp add: list_all_iff)

lemma written_skip:
  assumes "at_backslash m" "n \<in> set style_macros" "m (backslash_char # n @ CHR ''{'' # r) = None"
  shows "sub_all m (backslash_char # n @ CHR ''{'' # r) = backslash_char # n @ CHR ''{'' # sub_all m r"
proof -
  have "backslash_char \<notin> set (n @ [CHR ''{''])"
    using style_name [OF assms(2)] by (auto simp: list_all_iff)
  from sub_all_skip [OF assms(1) this, of r] show ?thesis by (simp add: sub_all_step assms(3))
qed

lemma close_skip: "at_backslash m \<Longrightarrow> sub_all m (CHR ''}'' # s) = CHR ''}'' # sub_all m s"
  using sub_all_skip [of m "''}''" s] by simp

lemma sub_all_written:
  assumes "\<And>t s. t \<in> set ts \<Longrightarrow> sub_all m (render t @ s) = render (f t) @ sub_all m s"
  shows "sub_all m (written ts @ s) = written (map f ts) @ sub_all m s"
  using assms by (induction ts) simp_all

lemma overlooked:
  assumes m: "overlooks m"
  shows "styled_ok t \<Longrightarrow> sub_all m (render t @ s) = render t @ sub_all m s"
proof (induction t arbitrary: s)
  case (Plain t)
  then show ?case using m by (auto simp: overlooks_def list_all_iff intro: sub_all_skip)
next
  case (Style n ts)
  have inner: "sub_all m (written ts @ s') = written ts @ sub_all m s'" for s'
    using sub_all_written [of ts m "\<lambda>t. t"] Style by (simp add: list_all_iff)
  have "sub_all m (backslash_char # n @ CHR ''{'' # written ts @ CHR ''}'' # s)
      = backslash_char # n @ CHR ''{'' # written ts @ CHR ''}'' # sub_all m s"
    using m Style.prems by (subst written_skip) (auto simp: overlooks_def inner close_skip)
  then show ?case by (simp add: render_Style)
qed

lemma overlooked_written: "overlooks m \<Longrightarrow> list_all styled_ok ts \<Longrightarrow> sub_all m (written ts) = written ts"
  using sub_all_written [of ts m "\<lambda>t. t" "[]"] overlooked [of m] by (simp add: list_all_iff)

text \<open>The style matcher: it looks at the group behind the name.\<close>

abbreviation style_match :: "string matcher" where
  "style_match \<equiv> macro_group style_macros"

lemma macro_named_style:
  assumes "CHR ''{'' \<notin> set m"
  shows "macro_named m (backslash_char # n @ CHR ''{'' # r) = (if prefix m n then Some (drop (length m) (n @ CHR ''{'' # r)) else None)"
proof -
  have "prefix m (n @ CHR ''{'' # r) \<longleftrightarrow> prefix m n"
    using assms by (auto simp: prefix_append prefix_Cons)
  then show ?thesis by (simp add: macro_named_def startswith_def)
qed

lemma first_match_only: "x \<in> set xs \<Longrightarrow> (\<And>y. y \<in> set xs \<Longrightarrow> y \<noteq> x \<Longrightarrow> f y = None) \<Longrightarrow> first_match f xs = f x"
proof (induction xs)
  case (Cons y ys)
  then show ?case by (cases "y = x"; cases "x \<in> set ys") (auto split: option.split intro!: first_match_None)
qed simp

lemma style_prefixes: "list_all (\<lambda>n. list_all (\<lambda>m. prefix m n \<longrightarrow> m = n) style_macros) style_macros"
  by code_simp

lemma style_match_group:
  assumes "n \<in> set style_macros"
  shows "style_match (backslash_char # n @ CHR ''{'' # r) = flat_group (CHR ''{'' # r)"
proof -
  have brace: "CHR ''{'' \<notin> set m" if "m \<in> set style_macros" for m
    using style_name [OF that] by (auto simp: list_all_iff)
  let ?f = "\<lambda>m. Option.bind (macro_named m (backslash_char # n @ CHR ''{'' # r)) (\<lambda>r. flat_group (skip_space r))"
  have "first_match ?f style_macros = ?f n"
    by (rule first_match_only [OF assms]) (use style_prefixes assms brace in \<open>auto simp: list_all_iff macro_named_style\<close>)
  then show ?thesis
    by (simp add: macro_group_def macro_named_style brace [OF assms] skip_space_def is_space_def)
qed

lemma flat_group_plain:
  "list_all (\<lambda>c. c \<noteq> backslash_char \<and> c \<noteq> CHR ''{'' \<and> c \<noteq> CHR ''}'') t \<Longrightarrow> flat_group (CHR ''{'' # t @ CHR ''}'' # s) = Some (t, s)"
proof -
  assume "list_all (\<lambda>c. c \<noteq> backslash_char \<and> c \<noteq> CHR ''{'' \<and> c \<noteq> CHR ''}'') t"
  then have "takeWhile (\<lambda>c. c \<noteq> CHR ''{'' \<and> c \<noteq> CHR ''}'') (t @ CHR ''}'' # s) = t"
    "dropWhile (\<lambda>c. c \<noteq> CHR ''{'' \<and> c \<noteq> CHR ''}'') (t @ CHR ''}'' # s) = CHR ''}'' # s"
    by (induction t) simp_all
  then show ?thesis by (simp add: flat_group_def enclosed_def)
qed

lemma brace_first:
  "\<not> list_all is_plain ts \<Longrightarrow> list_all styled_ok ts \<Longrightarrow>
   \<exists>r. dropWhile (\<lambda>c. c \<noteq> CHR ''{'' \<and> c \<noteq> CHR ''}'') (written ts @ x) = CHR ''{'' # r"
proof (induction ts)
  case (Cons t ts)
  show ?case
  proof (cases t)
    case (Plain u)
    with Cons show ?thesis by (simp add: list_all_iff dropWhile_append2)
  next
    case (Style n us)
    then have n: "\<forall>c \<in> set n. c \<noteq> CHR ''{'' \<and> c \<noteq> CHR ''}''"
      using Cons.prems style_name [of n] by (auto simp: list_all_iff)
    then show ?thesis by (simp add: Style render_Style dropWhile_append2)
  qed
qed simp

lemma flat_group_nested:
  assumes "\<not> list_all is_plain ts" "list_all styled_ok ts"
  shows "flat_group (CHR ''{'' # written ts @ x) = None"
  using brace_first [OF assms, of x] by (auto simp: flat_group_def enclosed_def)

text \<open>One pass over styled text opens the innermost macros.\<close>

lemma pass_render: "styled_ok t \<Longrightarrow> sub_all style_match (render t @ s) = render (peel t) @ sub_all style_match s"
proof (induction t arbitrary: s)
  case (Plain t)
  then show ?case by (auto simp: list_all_iff intro: sub_all_skip matchers)
next
  case (Style n ts)
  have n: "n \<in> set style_macros" and ok: "list_all styled_ok ts" using Style.prems by simp_all
  let ?r = "written ts @ CHR ''}'' # s"
  show ?case
  proof (cases "list_all is_plain ts")
    case True
    have "flat_group (CHR ''{'' # ?r) = Some (says ts, s)"
      using flat_group_plain [OF says_clean [OF ok]] by (simp add: plain_written [OF True])
    then have "sub_all style_match (backslash_char # n @ CHR ''{'' # ?r) = says ts @ sub_all style_match s"
      using style_match_group [OF n, of ?r] by (subst sub_all.simps) simp
    then show ?thesis using True by (simp add: render_Style says_def)
  next
    case False
    have none: "style_match (backslash_char # n @ CHR ''{'' # ?r) = None"
      using style_match_group [OF n, of ?r] flat_group_nested [OF False ok, of "CHR ''}'' # s"] by simp
    have inner: "sub_all style_match (written ts @ s') = written (map peel ts) @ sub_all style_match s'" for s'
      using sub_all_written [of ts style_match peel] Style ok by (simp add: list_all_iff)
    have "sub_all style_match (backslash_char # n @ CHR ''{'' # ?r)
        = backslash_char # n @ CHR ''{'' # written (map peel ts) @ CHR ''}'' # sub_all style_match s"
      by (simp add: written_skip [OF at_backslash_matchers(1) n none] inner close_skip matchers)
    then show ?thesis using False by (simp add: render_Style)
  qed
qed

lemma pass_written: "list_all styled_ok ts \<Longrightarrow> sub_all style_match (written ts) = written (map peel ts)"
  using sub_all_written [of ts style_match peel "[]"] pass_render by (simp add: list_all_iff)

section \<open>Passes\<close>

lemma find_all_step: "m (c # r) = None \<Longrightarrow> find_all m (c # r) = find_all m r"
  by (subst find_all.simps) simp

lemma sub_all_no_match: "find_all m s = [] \<Longrightarrow> sub_all m s = s"
proof (induction m s rule: sub_all.induct)
  case (1 m s)
  show ?case
  proof (cases s)
    case (Cons c r)
    show ?thesis
    proof (cases "m s")
      case None
      with Cons 1(1) [OF Cons None] 1(4) show ?thesis by (simp add: find_all_step sub_all_step)
    next
      case (Some p)
      obtain out r' where p: "p = (out, r')" by (cases p)
      have short: "\<not> length r' < length s" and none: "find_all m r = []"
        using 1(4) Some Cons p by (auto simp: find_all.simps [of m "c # r"] split: if_splits)
      with 1(3) [OF Cons Some p [symmetric] short] have "sub_all m r = r" by simp
      with short Some p Cons show ?thesis by (simp add: sub_all.simps [of m "c # r"])
    qed
  qed simp
qed

lemma funpow_fixed: "f x = x \<Longrightarrow> (f ^^ k) x = x"
  by (induction k) simp_all

lemma passes_funpow: "passes k m s = (sub_all m ^^ k) s"
proof (induction k arbitrary: s)
  case (Suc k)
  show ?case
  proof (cases "find_all m s = []")
    case True
    then show ?thesis using sub_all_no_match [OF True] funpow_fixed [of "sub_all m" s "Suc k"] by simp
  next
    case False
    then show ?thesis by (simp add: Suc funpow_swap1)
  qed
qed simp

lemma style_rounds_funpow: "style_rounds k s = ((\<lambda>t. strip_one_arg_macros (drop_one_arg_macros t)) ^^ k) s"
proof (induction k arbitrary: s)
  case (Suc k)
  let ?f = "\<lambda>t. strip_one_arg_macros (drop_one_arg_macros t)"
  show ?case
  proof (cases "?f s = s")
    case True
    then show ?thesis using funpow_fixed [of ?f s "Suc k"] by simp
  next
    case False
    then show ?thesis using funpow_swap1 [of ?f k s] by (simp add: Suc Let_def)
  qed
qed simp

lemma ok_peels: "list_all styled_ok ts \<Longrightarrow> list_all styled_ok ((map peel ^^ k) ts)"
  by (induction k) (simp_all add: list_all_iff ok_peel)

lemma strip_written:
  assumes "list_all styled_ok ts"
  shows "strip_one_arg_macros (written ts) = written ((map peel ^^ 8) ts)"
proof -
  have "(sub_all style_match ^^ k) (written ts) = written ((map peel ^^ k) ts)" for k
    by (induction k) (simp_all add: pass_written ok_peels [OF assms])
  then show ?thesis by (simp add: strip_one_arg_macros_def passes_funpow)
qed

lemma other_names:
  "list_all (\<lambda>n. list_all (\<lambda>m. CHR ''{'' \<notin> set m \<and> \<not> prefix m n)
     (drop_macros @ edge_macros)) style_macros"
  by code_simp

lemma overlooks_names:
  "overlooks (dropping (macro_group drop_macros))"
  "overlooks (dropping (two_groups edge_macros))"
proof -
  have named: "macro_named m (backslash_char # n @ CHR ''{'' # r) = None"
    if "n \<in> set style_macros" "m \<in> set (drop_macros @ edge_macros)" for m n r
    using other_names [unfolded list_all_iff, rule_format, OF that] by (simp add: macro_named_style)
  show "overlooks (dropping (macro_group drop_macros))"
    "overlooks (dropping (two_groups edge_macros))"
    by (auto simp: overlooks_def dropping_def macro_group_def two_groups_def named matchers
        intro!: matchers first_match_None)
qed

lemma drop_written: "list_all styled_ok ts \<Longrightarrow> drop_one_arg_macros (written ts) = written ts"
  using overlooked_written [OF overlooks_names(1), of ts]
  by (simp add: drop_one_arg_macros_def passes_funpow funpow_fixed)

lemma rounds_written:
  assumes "list_all styled_ok ts"
  shows "style_rounds k (written ts) = written ((map peel ^^ (8 * k)) ts)"
proof -
  have "((\<lambda>t. strip_one_arg_macros (drop_one_arg_macros t)) ^^ k) (written ts) = written ((map peel ^^ (8 * k)) ts)"
  proof (induction k)
    case (Suc k)
    have "(map peel ^^ (8 * Suc k)) ts = (map peel ^^ 8) ((map peel ^^ (8 * k)) ts)"
      by (metis funpow_add mult_Suc_right o_apply)
    with Suc show ?case by (simp only: funpow.simps o_apply drop_written [OF ok_peels [OF assms]] strip_written [OF ok_peels [OF assms]])
  qed simp
  then show ?thesis by (simp add: style_rounds_funpow)
qed

lemma deepest_peels: "deepest ((map peel ^^ k) ts) \<le> deepest ts - k"
proof (induction k)
  case (Suc k)
  have "deepest (map peel us) \<le> deepest us - 1" for us
    unfolding deepest_le_iff
    using nesting_peel deepest_le_iff [of us "deepest us"] by (fastforce intro: le_trans diff_le_mono)
  from this [of "(map peel ^^ k) ts"] Suc show ?case by simp
qed simp

lemma says_peels: "says ((map peel ^^ k) ts) = says ts"
  by (induction k) (simp_all add: says_def content_peel o_def)

lemma flat_plain: "deepest ts = 0 \<Longrightarrow> list_all is_plain ts"
proof (induction ts)
  case (Cons t ts)
  then show ?case by (cases t) simp_all
qed simp

lemma foldl_fixed: "(\<And>x. x \<in> set xs \<Longrightarrow> f z x = z) \<Longrightarrow> foldl f z xs = z"
  by (induction xs) simp_all

lemma special_escapes: "list_all (\<lambda>c. list_all (\<lambda>n. hd n \<noteq> c \<and> n \<noteq> []) style_macros) ''&%$#_{}~^''"
  by code_simp

lemma escapes_overlooked:
  assumes "list_all styled_ok ts"
  shows "replace_escaped_specials (written ts) = written ts"
proof -
  have "overlooks (plain_match [backslash_char, c] [c])" if "c \<in> set ''&%$#_{}~^''" for c
  proof -
    have "\<not> prefix [c] (n @ x)" if "n \<in> set style_macros" for n x
      using special_escapes \<open>c \<in> set ''&%$#_{}~^''\<close> that unfolding list_all_iff by (cases n) fastforce+
    then show ?thesis
      by (auto simp: overlooks_def plain_match_def startswith_def matchers)
  qed
  then have one: "replace_all [backslash_char, c] [c] (written ts) = written ts" if "c \<in> set ''&%$#_{}~^''" for c
    using that overlooked_written [OF _ assms] by (simp only: replace_all_def)
  show ?thesis
    unfolding replace_escaped_specials_def
    by (rule foldl_fixed) (use one in \<open>auto simp: escaped_specials_def\<close>)
qed

text \<open>In text whose only macros are style macros, nested up to sixty-four deep, the cleaner
  removes all of them and keeps all the rest: the result is the content with dashes and white
  space normalised.\<close>

lemma styles_removed:
  assumes "list_all styled_ok ts" "deepest ts \<le> 64"
  shows "tex_to_text em en (written ts) = normalize_whitespace (convert_dashes em en (says ts))"
proof -
  have edges: "strip_edge_macros (written ts) = written ts"
    unfolding strip_edge_macros_def by (rule overlooked_written [OF overlooks_names(2) assms(1)])
  have "list_all is_plain ((map peel ^^ 64) ts)"
    using deepest_peels [of 64 ts] assms(2) by (intro flat_plain) simp
  then have rounds: "style_rounds 8 (written ts) = says ts"
    using rounds_written [OF assms(1), of 8] by (simp add: plain_written says_peels)
  have clean: "backslash_char \<notin> set (says ts)" using says_clean [OF assms(1)] by (auto simp: list_all_iff)
  have "strip_line_breaks (strip_special_macros (strip_bare_font_macros (says ts))) = says ts"
    unfolding strip_line_breaks_def strip_special_macros_def strip_bare_font_macros_def
    by (simp add: sub_all_clean clean matchers)
  then show ?thesis by (simp add: tex_to_text_def escapes_overlooked [OF assms(1)] edges rounds)
qed

lemma styles_removed_witness:
  "tex_to_text ''---'' ''--'' (written [Plain ''a '', Style ''emph'' [Plain ''b'', Style ''textbf'' [Plain ''c'']]])
     = normalize_whitespace (convert_dashes ''---'' ''--'' (says [Plain ''a '', Style ''emph'' [Plain ''b'', Style ''textbf'' [Plain ''c'']]]))"
  by (rule styles_removed) code_simp+

text \<open>
  Formulas are not kept as they are: an escaped brace in math mode loses its backslash. And a
  comment behind a line break is kept, because the percent sign follows a backslash.
\<close>

lemma math_brace_lost:
  "tex_to_text em en (''$'' @ backslash_char # ''{x'' @ backslash_char # ''}$'') = ''${x}$''"
  by code_simp

lemma comment_behind_break_kept:
  "tex_to_proof_text em en (''a '' @ [backslash_char, backslash_char] @ ''% todo'') = ''a '' @ [backslash_char] @ ''% todo''"
  by code_simp

end
