(* ===== verification/Cir_Authors.thy ===== *)
theory Cir_Authors
  imports Tex_Walk Tex_Clean Tex_Inputs Py_Filter
begin

text \<open>
  The authors of a structure (\<open>parser/build.py\<close>): the names in the source, enriched by the
  author lines of the sidecar and then by the authors of the metadata file, which win; and the
  provenance blocks in their flat and in their structured shape.
\<close>

section \<open>Provenance\<close>

text \<open>\<open>d[name] = v\<close> when the source has the field.\<close>

definition put_text_field :: "(string \<times> string) list \<Rightarrow> string \<Rightarrow> string \<Rightarrow> pydict \<Rightarrow> pydict" where
  "put_text_field sa from_key to_key d = (case dict_get sa from_key of Some v \<Rightarrow> dict_set to_key (PStr v) d | None \<Rightarrow> d)"

definition sidecar_descriptor :: "(string \<times> string) list \<Rightarrow> pydict" where
  "sidecar_descriptor sa =
     (let d = put_text_field sa ''model_name'' ''name'' [];
          d = put_text_field sa ''model_vendor'' ''vendor'' d;
          d = put_text_field sa ''model_family'' ''family'' d;
          d = put_text_field sa ''model_series'' ''series'' d;
          d = put_text_field sa ''model_version'' ''version'' d;
          d = (case dict_get sa ''model_release_pin'' of
                 Some v \<Rightarrow> dict_set ''release_pin'' (PStr v) d
               | None \<Rightarrow>
                   (case dict_get sa ''model_slug'' of
                      Some v \<Rightarrow> dict_setdefault ''name'' (PStr v) (dict_set ''release_pin'' (PStr v) d)
                    | None \<Rightarrow> d))
      in put_text_field sa ''model_release_date'' ''release_date'' d)"

definition provenance_from_sidecar :: "(string \<times> string) list \<Rightarrow> pydict option" where
  "provenance_from_sidecar sa =
     (let d = sidecar_descriptor sa
      in if d = [] then None
         else let d = (if dict_has d ''name'' then d
                       else dict_set ''name'' (py_or (dget d ''release_pin'') (PStr ''unknown-model'')) d)
              in Some (put_text_field sa ''inference_environment'' ''inference_environment'' [(''models'', PList [PDict d])]))"

definition flat_fields :: "string list" where
  "flat_fields = [''model_slug'', ''model_family'', ''model_release_date'', ''context_window_tokens'']"

definition put_if :: "bool \<Rightarrow> string \<Rightarrow> pyval \<Rightarrow> pydict \<Rightarrow> pydict" where
  "put_if c k v d = (if c then dict_set k v d else d)"

definition is_int :: "pyval \<Rightarrow> bool" where
  "is_int v = (case v of PInt _ \<Rightarrow> True | PBool _ \<Rightarrow> True | _ \<Rightarrow> False)"

definition lifted_descriptor :: "pydict \<Rightarrow> pydict" where
  "lifted_descriptor prov =
     (let pin = dget prov ''model_slug''; family = dget prov ''model_family'';
          date = dget prov ''model_release_date''; ctx = dget prov ''context_window_tokens'';
          d = put_if (truthy pin) ''name'' pin (put_if (truthy pin) ''release_pin'' pin []);
          d = put_if (truthy family) ''family'' family d;
          d = put_if (truthy date) ''release_date'' date d;
          d = put_if (is_int ctx) ''context_window_tokens'' ctx d
      in put_if (\<not> dict_has d ''name'') ''name'' (PStr ''unknown-model'') d)"

lemma put_if_get: "dget (put_if c k v d) k' = (if c \<and> k' = k then v else dget d k')"
  "dict_has (put_if c k v d) k' = (c \<and> k' = k \<or> dict_has d k')"
  by (simp_all add: put_if_def dict_has_def del: not_None_eq map_of_eq_Some_iff)

definition has_models :: "pydict \<Rightarrow> bool" where
  "has_models prov = (case dget prov ''models'' of PList xs \<Rightarrow> xs \<noteq> [] | _ \<Rightarrow> False)"

definition lift_flat_provenance :: "pydict \<Rightarrow> pydict" where
  "lift_flat_provenance prov =
     (if has_models prov \<or> \<not> list_ex (\<lambda>k. truthy (dget prov k)) flat_fields then prov
      else foldl (\<lambda>d k. dict_pop k d) (dict_set ''models'' (PList [PDict (lifted_descriptor prov)]) prov) flat_fields)"

section \<open>The metadata file\<close>

definition parse_meta_json_authors :: "(string \<Rightarrow> pyval option) \<Rightarrow> reading option \<Rightarrow> pyexn + pydict list" where
  "parse_meta_json_authors json meta =
     (case meta of
        Some (Content body) \<Rightarrow>
          (case json body of
             None \<Rightarrow> Inr []
           | Some data \<Rightarrow>
               rbind (py_get data ''authors'') (\<lambda>raw.
                 case raw of
                   PList items \<Rightarrow>
                     Inr (concat (map (\<lambda>v. case v of PDict d \<Rightarrow> if dict_has d ''name'' then [d] else [] | _ \<Rightarrow> []) items))
                 | _ \<Rightarrow> Inr []))
      | _ \<Rightarrow> Inr [])"

definition parse_meta_json_id_slug :: "(string \<Rightarrow> pyval option) \<Rightarrow> reading option \<Rightarrow> pyexn + string option" where
  "parse_meta_json_id_slug json meta =
     (case meta of
        Some (Content body) \<Rightarrow>
          (case json body of
             None \<Rightarrow> Inr None
           | Some data \<Rightarrow>
               rbind (py_get data ''id_slug'') (\<lambda>v. Inr (case v of PStr s \<Rightarrow> if s = [] then None else Some s | _ \<Rightarrow> None)))
      | _ \<Rightarrow> Inr None)"

definition means_true :: "string \<Rightarrow> bool" where
  "means_true s \<longleftrightarrow> str_lower s \<in> {''true'', ''1'', ''yes''}"

definition author_cir_keys :: "string list" where
  "author_cir_keys =
     [''name'', ''orcid'', ''affiliation'', ''email'', ''is_agent'', ''agent_handle'', ''role'', ''provenance'']"

definition coerce_field :: "pydict \<Rightarrow> string \<times> pyval \<Rightarrow> pydict" where
  "coerce_field out kv =
     (case kv of
        (k, v) \<Rightarrow>
          if k \<notin> set author_cir_keys then out
          else let v = (if k = ''is_agent'' then PBool (case v of PStr s \<Rightarrow> means_true s | _ \<Rightarrow> truthy v) else v)
               in if v = PNone \<and> k \<in> {''orcid'', ''affiliation'', ''email'', ''agent_handle''} then out
                  else dict_set k (case v of PDict d \<Rightarrow> if k = ''provenance'' then PDict (lift_flat_provenance d) else v | _ \<Rightarrow> v) out)"

definition coerce_author_record :: "pydict \<Rightarrow> pydict" where
  "coerce_author_record raw = foldl coerce_field [] raw"

text \<open>Overlaying: the fields of the metadata win, but for the name.\<close>

definition overlay_meta :: "pydict \<Rightarrow> pydict \<Rightarrow> pydict" where
  "overlay_meta author meta =
     foldl (\<lambda>d (k, v). if k = ''name'' then d else dict_set k v d) author (coerce_author_record meta)"

definition meta_name :: "pydict \<Rightarrow> string" where
  "meta_name m = str_strip (py_str (case dict_get m ''name'' of Some v \<Rightarrow> v | None \<Rightarrow> PStr []))"

definition author_name :: "pydict \<Rightarrow> string" where
  "author_name a = str_strip (case dget a ''name'' of PStr s \<Rightarrow> s | _ \<Rightarrow> [])"

text \<open>The parsed authors one by one, with the numbers of the records used.\<close>

definition match_index :: "pydict list \<Rightarrow> nat list \<Rightarrow> string \<Rightarrow> nat option" where
  "match_index meta_authors used target =
     find (\<lambda>i. i \<notin> set used \<and> meta_name (meta_authors ! i) = target) [0..<length meta_authors]"

fun overlay_parsed :: "pydict list \<Rightarrow> nat list \<Rightarrow> pydict list \<Rightarrow> pydict list \<times> nat list \<times> string list" where
  "overlay_parsed metas used [] = ([], used, [])"
| "overlay_parsed metas used (a # parsed) =
     (let target = author_name a
      in case match_index metas used target of
           None \<Rightarrow>
             (case overlay_parsed metas used parsed of
                (out, used', warn) \<Rightarrow>
                  (a # out, used', (''parsed author '' @ repr_str target @ '' has no name-match in rrxiv-meta.json'') # warn))
         | Some i \<Rightarrow>
             (case overlay_parsed metas (i # used) parsed of
                (out, used', warn) \<Rightarrow> (overlay_meta a (metas ! i) # out, used', warn)))"

definition merge_meta_onto_authors :: "pydict list \<Rightarrow> pydict list \<Rightarrow> pydict list \<times> string list" where
  "merge_meta_onto_authors parsed metas =
     (if metas = [] then (parsed, [])
      else case overlay_parsed metas [] parsed of
          (out, used, warn) \<Rightarrow>
            let unused = filter (\<lambda>a. dict_has a ''name'')
                  (map (\<lambda>i. coerce_author_record (metas ! i)) (filter (\<lambda>i. i \<notin> set used) [0..<length metas]))
            in (out @ unused,
                warn @ map (\<lambda>a. ''meta author '' @ py_repr (dget a ''name'') @ '' appended without a parsed-tex counterpart'') unused))"

section \<open>The authors\<close>

text \<open>\<open>re.split\<close> at \<open>\s*\\and\s+\<close>.\<close>

definition and_match :: "unit matcher" where
  "and_match s =
     (case macro_named ''and'' (skip_space s) of
        Some r \<Rightarrow> if r \<noteq> [] \<and> is_space (hd r) then Some ((), skip_space r) else None
      | None \<Rightarrow> None)"

definition split_pieces :: "unit matcher \<Rightarrow> string \<Rightarrow> string list" where
  "split_pieces m s =
     (case foldl (\<lambda>(out, cur) t. case t of Inl c \<Rightarrow> (out, cur @ [c]) | Inr _ \<Rightarrow> (out @ [cur], [])) ([], []) (tokens m s) of
        (out, cur) \<Rightarrow> out @ [cur])"

definition names_of_group :: "string \<Rightarrow> string \<Rightarrow> tex_author \<Rightarrow> string list" where
  "names_of_group em en a =
     (let clean_name = str_strip (tex_to_text em en (ta_name a))
      in if clean_name = [] then [] else filter (\<lambda>p. p \<noteq> []) (map str_strip (split_pieces and_match clean_name)))"

text \<open>The first occurrence of each name.\<close>

fun unseen :: "string list \<Rightarrow> string list \<Rightarrow> string list" where
  "unseen seen [] = []"
| "unseen seen (x # xs) = (if x \<in> set seen then unseen seen xs else x # unseen (x # seen) xs)"

definition parsed_names :: "string \<Rightarrow> string \<Rightarrow> tex_author list \<Rightarrow> string list" where
  "parsed_names em en as = unseen [] (concat (map (names_of_group em en) as))"

definition overlay_sidecar :: "(string \<times> string) list \<Rightarrow> pydict \<Rightarrow> pydict" where
  "overlay_sidecar sa target =
     (let d = put_text_field sa ''orcid'' ''orcid'' target;
          d = put_text_field sa ''role'' ''role'' d;
          d = put_text_field sa ''handle'' ''agent_handle'' d;
          d = (case dict_get sa ''is_agent'' of Some v \<Rightarrow> dict_set ''is_agent'' (PBool (means_true v)) d | None \<Rightarrow> d);
          d = put_text_field sa ''affiliation'' ''affiliation'' d;
          d = put_text_field sa ''email'' ''email'' d
      in case provenance_from_sidecar sa of Some p \<Rightarrow> dict_set ''provenance'' (PDict p) d | None \<Rightarrow> d)"

text \<open>The first author of that name, or a new one at the end.\<close>

fun at_author :: "string \<Rightarrow> (pydict \<Rightarrow> pydict) \<Rightarrow> pydict list \<Rightarrow> pydict list" where
  "at_author name f [] = [f [(''name'', PStr name)]]"
| "at_author name f (a # as) = (if author_name a = name then f a # as else a # at_author name f as)"

definition add_sidecar_author :: "pydict list \<Rightarrow> (string \<times> string) list \<Rightarrow> pydict list" where
  "add_sidecar_author authors sa =
     (let name = str_strip (case dict_get sa ''name'' of Some n \<Rightarrow> n | None \<Rightarrow> [])
      in if name = [] then authors else at_author name (overlay_sidecar sa) authors)"

definition build_authors ::
  "string \<Rightarrow> string \<Rightarrow> tex_author list \<Rightarrow> (string \<times> string) list list \<Rightarrow> pydict list \<Rightarrow> pydict list \<times> string list" where
  "build_authors em en tex_authors sidecar_authors meta_authors =
     (let authors = map (\<lambda>n. [(''name'', PStr n)]) (parsed_names em en tex_authors);
          authors = foldl add_sidecar_author authors sidecar_authors
      in case merge_meta_onto_authors authors meta_authors of
           (authors, warn) \<Rightarrow> (if authors = [] then [[(''name'', PStr ''Unknown'')]] else authors, warn))"

text \<open>\<open>_parse_sidecar_author_line\<close>, which nothing calls.\<close>

definition author_sidecar_fields :: "string list" where
  "author_sidecar_fields =
     [''name'', ''orcid'', ''role'', ''handle'', ''is_agent'', ''affiliation'', ''email'',
      ''model_name'', ''model_vendor'', ''model_family'', ''model_series'', ''model_version'',
      ''model_release_pin'', ''model_release_date'', ''model_slug'', ''inference_environment'']"

definition parse_sidecar_author_line :: "string \<Rightarrow> (string \<times> string) list option" where
  "parse_sidecar_author_line line =
     (if \<not> startswith line ''RRXIV:author:'' then None
      else let parts = split_on (CHR ''|'') (drop (length ''RRXIV:author:'') line)
           in if CHR ''='' \<in> set (hd parts) then None
              else Some (foldl (\<lambda>d p. case str_partition (CHR ''='') p of
                          (k, found, v) \<Rightarrow>
                            if found \<and> str_strip k \<in> set author_sidecar_fields \<and> str_strip v \<noteq> []
                            then dict_set (str_strip k) (str_strip v) d else d) [] (tl parts)))"

section \<open>Properties\<close>

lemma dict_get_pops: "dict_get (foldl (\<lambda>d k. dict_pop k d) d ks) x = (if x \<in> set ks then None else dict_get d x)"
  by (induction ks arbitrary: d) auto

text \<open>Lifting a flat provenance block is idempotent, and loses nothing of it: the identifier, the
  family and the date of the model are fields of the one descriptor, every other field stays.\<close>

lemma lift_keeps_fields:
  assumes "\<not> has_models prov" "truthy (dget prov ''model_slug'')" "k \<notin> set flat_fields" "k \<noteq> ''models''"
  shows "lift_flat_provenance (lift_flat_provenance prov) = lift_flat_provenance prov \<and>
    dget (lift_flat_provenance prov) k = dget prov k \<and>
    (\<exists>d. dget (lift_flat_provenance prov) ''models'' = PList [PDict d] \<and>
       dget d ''release_pin'' = dget prov ''model_slug'' \<and> dget d ''name'' = dget prov ''model_slug'' \<and>
       (truthy (dget prov ''model_family'') \<longrightarrow> dget d ''family'' = dget prov ''model_family'') \<and>
       (truthy (dget prov ''model_release_date'') \<longrightarrow> dget d ''release_date'' = dget prov ''model_release_date''))"
proof -
  have lifted: "lift_flat_provenance prov =
      foldl (\<lambda>d k. dict_pop k d) (dict_set ''models'' (PList [PDict (lifted_descriptor prov)]) prov) flat_fields"
    using assms(1,2) by (simp add: lift_flat_provenance_def flat_fields_def)
  have models: "dget (lift_flat_provenance prov) ''models'' = PList [PDict (lifted_descriptor prov)]"
    unfolding lifted by (simp add: dget_def dict_get_pops flat_fields_def)
  then have "lift_flat_provenance (lift_flat_provenance prov) = lift_flat_provenance prov"
    unfolding lift_flat_provenance_def [of "lift_flat_provenance prov"] by (simp add: has_models_def)
  moreover have "dget (lift_flat_provenance prov) k = dget prov k"
    unfolding lifted using assms(3,4) by (simp add: dget_def dict_get_pops)
  moreover have "dget (lifted_descriptor prov) ''release_pin'' = dget prov ''model_slug''"
    "dget (lifted_descriptor prov) ''name'' = dget prov ''model_slug''"
    "truthy (dget prov ''model_family'') \<Longrightarrow> dget (lifted_descriptor prov) ''family'' = dget prov ''model_family''"
    "truthy (dget prov ''model_release_date'') \<Longrightarrow> dget (lifted_descriptor prov) ''release_date'' = dget prov ''model_release_date''"
    using assms(2) by (simp_all add: lifted_descriptor_def Let_def put_if_get)
  ultimately show ?thesis using models by blast
qed

lemma lift_keeps_fields_witness:
  "lift_flat_provenance [(''model_slug'', PStr ''m-1''), (''note'', PInt 3)]
     = [(''note'', PInt 3), (''models'', PList [PDict [(''release_pin'', PStr ''m-1''), (''name'', PStr ''m-1'')]])] \<and>
   dget (lift_flat_provenance [(''model_slug'', PStr ''m-1''), (''note'', PInt 3)]) ''note'' = PInt 3"
proof
  show "lift_flat_provenance [(''model_slug'', PStr ''m-1''), (''note'', PInt 3)]
     = [(''note'', PInt 3), (''models'', PList [PDict [(''release_pin'', PStr ''m-1''), (''name'', PStr ''m-1'')]])]" by code_simp
  have "\<not> has_models [(''model_slug'', PStr ''m-1''), (''note'', PInt 3)]"
    "truthy (dget [(''model_slug'', PStr ''m-1''), (''note'', PInt 3)] ''model_slug'')"
    "''note'' \<notin> set flat_fields" "''note'' \<noteq> ''models''" by code_simp+
  from lift_keeps_fields [OF this] show "dget (lift_flat_provenance [(''model_slug'', PStr ''m-1''), (''note'', PInt 3)]) ''note'' = PInt 3"
    by (simp add: dget_def)
qed

text \<open>A context window that is not a number is dropped.\<close>

lemma context_window_lost:
  "lift_flat_provenance [(''model_slug'', PStr ''m''), (''context_window_tokens'', PStr ''200k'')]
     = [(''models'', PList [PDict [(''release_pin'', PStr ''m''), (''name'', PStr ''m'')]])]"
  by code_simp

lemma overlay_sidecar_name: "dget (overlay_sidecar sa a) ''name'' = dget a ''name''"
  by (simp add: overlay_sidecar_def put_text_field_def Let_def split: option.split)

lemma author_name_sidecar: "author_name (overlay_sidecar sa a) = author_name a"
  by (simp add: author_name_def overlay_sidecar_name)

lemma overlay_meta_name: "dget (overlay_meta a m) ''name'' = dget a ''name''"
proof -
  have "dget (foldl (\<lambda>d (k, v). if k = ''name'' then d else dict_set k v d) a kvs) ''name'' = dget a ''name''" for kvs
    by (induction kvs arbitrary: a) (auto simp: case_prod_beta)
  then show ?thesis by (simp add: overlay_meta_def)
qed

lemma at_author_names:
  "(\<And>a. dget (f a) ''name'' = dget a ''name'') \<Longrightarrow>
   \<exists>more. map (\<lambda>a. dget a ''name'') (at_author n f as) = map (\<lambda>a. dget a ''name'') as @ more"
  by (induction as) auto

lemma sidecar_author_names: "\<exists>more. map (\<lambda>a. dget a ''name'') (add_sidecar_author as sa) = map (\<lambda>a. dget a ''name'') as @ more"
proof (cases "str_strip (case dict_get sa ''name'' of Some n \<Rightarrow> n | None \<Rightarrow> []) = []")
  case False
  then show ?thesis
    unfolding add_sidecar_author_def Let_def using at_author_names [OF overlay_sidecar_name] by simp
qed (simp add: add_sidecar_author_def)

lemma sidecar_names: "\<exists>more. map (\<lambda>a. dget a ''name'') (foldl add_sidecar_author as sas) = map (\<lambda>a. dget a ''name'') as @ more"
proof (induction sas arbitrary: as)
  case (Cons sa sas)
  obtain m1 where "map (\<lambda>a. dget a ''name'') (add_sidecar_author as sa) = map (\<lambda>a. dget a ''name'') as @ m1"
    using sidecar_author_names [of as sa] by blast
  with Cons [of "add_sidecar_author as sa"] show ?case by auto
qed simp

lemma overlay_parsed_names:
  "overlay_parsed metas used as = (out, used', warn) \<Longrightarrow> map (\<lambda>a. dget a ''name'') out = map (\<lambda>a. dget a ''name'') as"
  by (induction metas used as arbitrary: out used' warn rule: overlay_parsed.induct)
     (auto simp: Let_def overlay_meta_name split: option.splits prod.splits)

lemma merged_names:
  "\<exists>more. map (\<lambda>a. dget a ''name'') (fst (merge_meta_onto_authors as metas)) = map (\<lambda>a. dget a ''name'') as @ more"
proof (cases "metas = []")
  case False
  obtain out used warn where p: "overlay_parsed metas [] as = (out, used, warn)" by (cases "overlay_parsed metas [] as")
  with False overlay_parsed_names [OF p] show ?thesis
    by (simp add: merge_meta_onto_authors_def Let_def)
qed (simp add: merge_meta_onto_authors_def)

text \<open>Every name of the source stays an author: the authors begin with the names parsed from the
  source, in order and spelt as there, whatever the sidecar and the metadata say.\<close>

lemma parsed_authors_kept:
  "\<exists>more. map (\<lambda>a. dget a ''name'') (fst (build_authors em en tex_authors sidecar_authors meta_authors)) =
     map PStr (parsed_names em en tex_authors) @ more"
proof -
  let ?as = "foldl add_sidecar_author (map (\<lambda>n. [(''name'', PStr n)]) (parsed_names em en tex_authors)) sidecar_authors"
  obtain m1 where m1: "map (\<lambda>a. dget a ''name'') ?as = map PStr (parsed_names em en tex_authors) @ m1"
    using sidecar_names [of "map (\<lambda>n. [(''name'', PStr n)]) (parsed_names em en tex_authors)" sidecar_authors]
    by (auto simp: dget_def o_def)
  obtain m2 where m2: "map (\<lambda>a. dget a ''name'') (fst (merge_meta_onto_authors ?as meta_authors)) = map (\<lambda>a. dget a ''name'') ?as @ m2"
    using merged_names [of ?as meta_authors] by blast
  obtain authors warn where merged: "merge_meta_onto_authors ?as meta_authors = (authors, warn)"
    by (cases "merge_meta_onto_authors ?as meta_authors")
  have "fst (build_authors em en tex_authors sidecar_authors meta_authors) = (if authors = [] then [[(''name'', PStr ''Unknown'')]] else authors)"
    by (simp add: build_authors_def Let_def merged)
  with m1 m2 merged show ?thesis by (cases "authors = []") auto
qed

end
