(* ===== verification/Claim_Keys.thy ===== *)
theory Claim_Keys
  imports Tex_Match Py_Filter
begin

text \<open>
  The keys an author may give a claim in the optional argument of its environment
  (\<open>parser/build.py\<close>: \<open>_split_depth0\<close>, \<open>_strip_braces\<close>, \<open>_parse_claim_keys\<close>). The
  conversion of a text to a floating-point number and the test that it lies between 0 and 1
  are parameters.
\<close>

definition claim_types :: "string list" where
  "claim_types = [''empirical'', ''theoretical'', ''definitional'', ''methodological'', ''computational'']"

definition evidence_types :: "string list" where
  "evidence_types =
     [''proof'', ''experiment'', ''simulation'', ''observation'', ''argument'', ''definition'', ''convention'']"

definition scope_keys :: "string list" where
  "scope_keys = [''models'', ''datasets'', ''regimes'', ''assumptions'']"

definition list_keys :: "string list" where
  "list_keys = ''labels'' # scope_keys"

definition float_keys :: "string list" where
  "float_keys = [''confidence'', ''confidence-low'', ''confidence-high'']"

definition text_keys :: "string list" where
  "text_keys = [''title'', ''type'', ''evidence'', ''rationale'']"

definition known_claim_keys :: "string list" where
  "known_claim_keys = text_keys @ list_keys @ float_keys"

text \<open>The reasons for which the parse is refused.\<close>

datatype claim_key_error =
    NotKeyValue string
  | UnknownKey string
  | NotNumber string string
  | OutsideUnit string pyval
  | BadType string
  | BadEvidence string

record number_lib =
  nl_float :: "string \<Rightarrow> pyval option"
  nl_unit :: "pyval \<Rightarrow> bool"

definition brace_depth :: "nat \<Rightarrow> char \<Rightarrow> nat" where
  "brace_depth d c = (if c = CHR ''{'' then Suc d else if c = CHR ''}'' then d - 1 else d)"

fun split_from :: "nat \<Rightarrow> string \<Rightarrow> string \<Rightarrow> string list" where
  "split_from d cur [] = [cur]"
| "split_from d cur (c # cs) =
     (let d' = brace_depth d c
      in if c = CHR '','' \<and> d' = 0 then cur # split_from d' [] cs else split_from d' (cur @ [c]) cs)"

definition split_depth0 :: "string \<Rightarrow> string list" where
  "split_depth0 raw = split_from 0 [] raw"

definition strip_braces :: "string \<Rightarrow> string" where
  "strip_braces val =
     (let v = str_strip val in if startswith v ''{'' \<and> endswith v ''}'' then str_strip (butlast (tl v)) else v)"

fun has_eq :: "nat \<Rightarrow> string \<Rightarrow> bool" where
  "has_eq d [] = False"
| "has_eq d (c # cs) = ((c = CHR ''='' \<and> d = 0) \<or> has_eq (brace_depth d c) cs)"

definition parse_key :: "number_lib \<Rightarrow> string \<Rightarrow> claim_key_error + string \<times> pyval" where
  "parse_key lib part =
     (case str_partition (CHR ''='') part of
        (k, eq, val) \<Rightarrow>
          let key = str_strip k; v = strip_braces val
          in if \<not> eq then Inl (NotKeyValue part)
             else if key \<notin> set known_claim_keys then Inl (UnknownKey key)
             else if key \<in> set float_keys
             then (case nl_float lib v of
                     None \<Rightarrow> Inl (NotNumber key v)
                   | Some num \<Rightarrow> if nl_unit lib num then Inr (key, num) else Inl (OutsideUnit key num))
             else if key \<in> set list_keys
             then Inr (key, PList (map PStr (filter (\<lambda>i. i \<noteq> []) (map str_strip (split_depth0 v)))))
             else Inr (key, PStr v))"

fun parse_keys :: "number_lib \<Rightarrow> pydict \<Rightarrow> string list \<Rightarrow> claim_key_error + pydict" where
  "parse_keys lib out [] = Inr out"
| "parse_keys lib out (p # ps) =
     (let part = str_strip p
      in if part = [] then parse_keys lib out ps
         else case parse_key lib part of
             Inl e \<Rightarrow> Inl e
           | Inr (k, v) \<Rightarrow> parse_keys lib (dict_set k v out) ps)"

text \<open>The test of a chosen value: absent, or one of the allowed ones.\<close>

definition allowed :: "string list \<Rightarrow> pyval \<Rightarrow> string option" where
  "allowed xs v = (case v of PStr s \<Rightarrow> if s \<in> set xs then None else Some s | _ \<Rightarrow> None)"

definition parse_claim_keys :: "number_lib \<Rightarrow> string option \<Rightarrow> claim_key_error + pydict option" where
  "parse_claim_keys lib raw =
     (case raw of
        None \<Rightarrow> Inr None
      | Some r \<Rightarrow>
          if r = [] \<or> \<not> has_eq 0 r then Inr None
          else rbind (parse_keys lib [] (split_depth0 r)) (\<lambda>out.
            case allowed claim_types (dget out ''type'') of
              Some s \<Rightarrow> Inl (BadType s)
            | None \<Rightarrow>
                (case allowed evidence_types (dget out ''evidence'') of
                   Some s \<Rightarrow> Inl (BadEvidence s)
                 | None \<Rightarrow> Inr (Some out))))"

section \<open>Splitting\<close>

lemma join_split_from: "join_on '','' (split_from d cur s) = cur @ s"
proof (induction d cur s rule: split_from.induct)
  case (2 d cur c cs)
  have "split_from d' cur' cs \<noteq> []" for d' cur'
    by (induction cs arbitrary: d' cur') (auto simp: Let_def)
  then have "join_on '','' (cur # split_from (brace_depth d c) [] cs) = cur @ '','' @ join_on '','' (split_from (brace_depth d c) [] cs)"
    by (cases "split_from (brace_depth d c) [] cs") auto
  with 2 show ?case by (auto simp: Let_def)
qed simp

text \<open>Splitting loses nothing.\<close>

lemma split_depth0_join: "join_on '','' (split_depth0 s) = s"
  by (simp add: split_depth0_def join_split_from)

text \<open>Text whose braces match: it returns to the depth it starts at and never goes below it.\<close>

fun balanced :: "nat \<Rightarrow> string \<Rightarrow> bool" where
  "balanced d [] = (d = 0)"
| "balanced d (c # cs) =
     (if c = CHR ''{'' then balanced (Suc d) cs
      else if c = CHR ''}'' then d \<noteq> 0 \<and> balanced (d - 1) cs
      else balanced d cs)"

lemma split_from_balanced:
  "balanced d s \<Longrightarrow> split_from (Suc d) cur (s @ CHR ''}'' # rest) = split_from 0 (cur @ s @ ''}'') rest"
proof (induction d s arbitrary: cur rule: balanced.induct)
  case (2 d c cs)
  then show ?case by (cases d) (auto simp: brace_depth_def Let_def split: if_splits)
qed (simp add: brace_depth_def)

lemma split_from_plain:
  "list_all (\<lambda>c. c \<noteq> CHR ''{'' \<and> c \<noteq> CHR ''}'' \<and> c \<noteq> CHR '','') s \<Longrightarrow> split_from d cur (s @ rest) = split_from d (cur @ s) rest"
  by (induction s arbitrary: cur) (auto simp: brace_depth_def Let_def)

text \<open>An entry as an author writes it, its value in braces.\<close>

definition key_text :: "string \<times> string \<Rightarrow> string" where
  "key_text kv = fst kv @ ''={'' @ snd kv @ ''}''"

lemma known_key: "k \<in> set known_claim_keys \<Longrightarrow>
  list_all (\<lambda>c. c \<noteq> CHR ''{'' \<and> c \<noteq> CHR ''}'' \<and> c \<noteq> CHR '','' \<and> c \<noteq> CHR ''='' \<and> \<not> is_space c) k \<and> k \<noteq> []"
proof -
  have "list_all (\<lambda>k. list_all (\<lambda>c. c \<noteq> CHR ''{'' \<and> c \<noteq> CHR ''}'' \<and> c \<noteq> CHR '','' \<and> c \<noteq> CHR ''='' \<and> \<not> is_space c) k \<and> k \<noteq> [])
      known_claim_keys" by code_simp
  then show "k \<in> set known_claim_keys \<Longrightarrow> ?thesis" by (simp add: list_all_iff)
qed

lemma strip_solid:
  assumes "s \<noteq> []" "\<not> is_space (hd s)" "\<not> is_space (last s)"
  shows "str_strip s = s"
proof -
  have "dropWhile is_space s = s" using assms by (cases s) simp_all
  moreover have "dropWhile is_space (rev s) = rev s"
    using assms by (cases "rev s") (auto simp: hd_rev [symmetric])
  ultimately show ?thesis by (simp add: str_strip_def)
qed

lemma split_keys:
  assumes "kvs \<noteq> []" "list_all (\<lambda>(k, v). k \<in> set known_claim_keys \<and> balanced 0 v) kvs"
  shows "split_depth0 (join_on '','' (map key_text kvs)) = map key_text kvs"
proof -
  have one: "split_from 0 [] (key_text (k, v) @ rest) = split_from 0 (key_text (k, v)) rest"
    if "k \<in> set known_claim_keys" "balanced 0 v" for k v rest
  proof -
    have k: "list_all (\<lambda>c. c \<noteq> CHR ''{'' \<and> c \<noteq> CHR ''}'' \<and> c \<noteq> CHR '','') (k @ ''='')"
      using known_key [OF that(1)] by (auto simp: list_all_iff)
    have "split_from 0 [] (key_text (k, v) @ rest) = split_from 0 (k @ ''='') (CHR ''{'' # v @ CHR ''}'' # rest)"
      using split_from_plain [OF k, of 0 "[]" "CHR ''{'' # v @ CHR ''}'' # rest"] by (simp add: key_text_def)
    also have "\<dots> = split_from (Suc 0) (k @ ''={'') (v @ CHR ''}'' # rest)" by (simp add: brace_depth_def)
    also have "\<dots> = split_from 0 (k @ ''={'' @ v @ ''}'') rest" by (simp add: split_from_balanced that(2))
    finally show ?thesis by (simp add: key_text_def)
  qed
  from assms show ?thesis
  proof (induction kvs)
    case (Cons kv kvs)
    obtain k v where kv: "kv = (k, v)" by (cases kv)
    show ?case
    proof (cases kvs)
      case Nil
      with one [of k v "[]"] Cons.prems kv show ?thesis by (simp add: split_depth0_def)
    next
      case (Cons kv' more)
      have "split_depth0 (join_on '','' (map key_text (kv # kvs))) = split_from 0 [] (key_text (k, v) @ CHR '','' # join_on '','' (map key_text kvs))"
        by (simp add: Cons kv split_depth0_def)
      also have "\<dots> = key_text (k, v) # split_from 0 [] (join_on '','' (map key_text kvs))"
        using one [of k v] Cons.prems kv by (simp add: brace_depth_def)
      finally show ?thesis using Cons.IH Cons.prems kv Cons by (simp add: split_depth0_def)
    qed
  qed simp
qed

lemma parse_key_text:
  assumes "k \<in> set text_keys" "str_strip v = v"
  shows "parse_key lib (str_strip (key_text (k, v))) = Inr (k, PStr v)" "str_strip (key_text (k, v)) \<noteq> []"
proof -
  have known: "k \<in> set known_claim_keys" using assms(1) by (simp add: known_claim_keys_def)
  from known_key [OF known] have k: "k \<noteq> []" "CHR ''='' \<notin> set k" "list_all (\<lambda>c. \<not> is_space c) k"
    by (auto simp: list_all_iff)
  have not_other: "k \<notin> set float_keys" "k \<notin> set list_keys"
    using assms(1) by (auto simp: text_keys_def float_keys_def list_keys_def scope_keys_def)
  have strip_k: "str_strip k = k"
    using k by (intro strip_solid) (auto simp: list_all_iff)
  have strip_all: "str_strip (key_text (k, v)) = key_text (k, v)"
    using k by (intro strip_solid) (auto simp: key_text_def list_all_iff hd_append is_space_def)
  have "str_strip (CHR ''{'' # v @ ''}'') = CHR ''{'' # v @ ''}''"
    by (intro strip_solid) (simp_all add: is_space_def)
  then have braces: "strip_braces (CHR ''{'' # v @ ''}'') = v"
    by (simp add: strip_braces_def startswith_def endswith_def butlast_append suffix_def Let_def assms(2))
  have "str_partition (CHR ''='') (key_text (k, v)) = (k, True, CHR ''{'' # v @ ''}'')"
    by (simp add: str_partition_def key_text_def cut_before [OF k(2)] cut_behind [OF k(2)])
  then show "parse_key lib (str_strip (key_text (k, v))) = Inr (k, PStr v)"
    using known not_other by (simp add: parse_key_def strip_all strip_k braces)
  show "str_strip (key_text (k, v)) \<noteq> []" unfolding strip_all by (simp add: key_text_def)
qed

lemma parse_keys_texts:
  "list_all (\<lambda>(k, v). k \<in> set text_keys \<and> str_strip v = v) kvs \<Longrightarrow> distinct (map fst (out @ kvs)) \<Longrightarrow>
   parse_keys lib (map (\<lambda>(k, v). (k, PStr v)) out) (map key_text kvs) = Inr (map (\<lambda>(k, v). (k, PStr v)) (out @ kvs))"
proof (induction kvs arbitrary: out)
  case (Cons kv kvs)
  obtain k v where kv: "kv = (k, v)" by (cases kv)
  have new: "dict_get (map (\<lambda>(k, v). (k, PStr v)) out) k = None"
    using Cons.prems(2) by (force simp: kv map_of_eq_None_iff)
  have "k \<in> set text_keys" "str_strip v = v" using Cons.prems kv by simp_all
  note key = parse_key_text(1) [OF this, of lib] parse_key_text(2) [OF this]
  from Cons.IH [of "out @ [kv]"] Cons.prems key show ?case
    by (simp add: kv Let_def dict_set_fresh [OF new])
qed simp

lemma has_eq_key: "list_all (\<lambda>c. c \<noteq> CHR ''{'' \<and> c \<noteq> CHR ''}'') k \<Longrightarrow> has_eq 0 (k @ CHR ''='' # rest)"
  by (induction k) (auto simp: brace_depth_def)

text \<open>A list of distinct text keys, each with its value in braces, is read back exactly,
  whatever commas, equals signs and matched braces the values contain.\<close>

lemma claim_keys_round_trip:
  assumes "kvs \<noteq> []" "distinct (map fst kvs)"
    and "list_all (\<lambda>(k, v). k \<in> set text_keys \<and> balanced 0 v \<and> str_strip v = v) kvs"
    and "\<forall>v. (''type'', v) \<in> set kvs \<longrightarrow> v \<in> set claim_types"
    and "\<forall>v. (''evidence'', v) \<in> set kvs \<longrightarrow> v \<in> set evidence_types"
  shows "parse_claim_keys lib (Some (join_on '','' (map key_text kvs))) = Inr (Some (map (\<lambda>(k, v). (k, PStr v)) kvs))"
proof -
  let ?raw = "join_on '','' (map key_text kvs)" and ?out = "map (\<lambda>(k, v). (k, PStr v)) kvs"
  have known: "list_all (\<lambda>(k, v). k \<in> set known_claim_keys \<and> balanced 0 v) kvs"
    using assms(3) by (auto simp: list_all_iff known_claim_keys_def)
  have texts: "list_all (\<lambda>(k, v). k \<in> set text_keys \<and> str_strip v = v) kvs"
    using assms(3) by (auto simp: list_all_iff)
  obtain k v more where first: "kvs = (k, v) # more" using assms(1) by (cases kvs) auto
  have eq: "has_eq 0 (k @ CHR ''='' # rest)" for rest
    using known_key [of k] known first by (intro has_eq_key) (auto simp: list_all_iff)
  obtain rest where "?raw = k @ CHR ''='' # rest" by (cases more) (auto simp: first key_text_def)
  with eq have raw: "has_eq 0 ?raw" "?raw \<noteq> []" by simp_all
  have out: "parse_keys lib [] (split_depth0 ?raw) = Inr ?out"
    using parse_keys_texts [OF texts, of "[]" lib] assms(2) by (simp add: split_keys [OF assms(1) known])
  have get: "dget ?out x = (case map_of kvs x of None \<Rightarrow> PNone | Some v \<Rightarrow> PStr v)" for x
    by (simp add: dget_def map_of_map split: option.split)
  have "allowed claim_types (dget ?out ''type'') = None" "allowed evidence_types (dget ?out ''evidence'') = None"
    using assms(4,5) unfolding get allowed_def by (auto split: option.splits dest: map_of_SomeD)
  with raw out show ?thesis by (simp add: parse_claim_keys_def)
qed

definition no_numbers :: number_lib where
  "no_numbers = \<lparr>nl_float = (\<lambda>_. None), nl_unit = (\<lambda>_. True)\<rparr>"

lemma claim_keys_round_trip_witness:
  "parse_claim_keys no_numbers (Some (join_on '','' (map key_text [(''type'', ''empirical''), (''title'', ''a, b = {c, d}'')])))
     = Inr (Some (map (\<lambda>(k, v). (k, PStr v)) [(''type'', ''empirical''), (''title'', ''a, b = {c, d}'')]))"
  by (rule claim_keys_round_trip) (simp | code_simp)+

lemma parse_keys_known:
  "parse_keys lib out ps = Inr out' \<Longrightarrow> fst ` set out \<subseteq> set known_claim_keys \<Longrightarrow> fst ` set out' \<subseteq> set known_claim_keys"
proof (induction ps arbitrary: out)
  case (Cons p ps)
  have "k \<in> set known_claim_keys" if "parse_key lib q = Inr (k, v)" for q k v
    using that by (auto simp: parse_key_def Let_def split: prod.splits if_splits option.splits)
  with Cons show ?case
    by (auto simp: Let_def dict_set_keys split: if_splits sum.splits prod.splits)
qed simp

text \<open>A key list that is accepted has known keys only, and a type and an evidence of the schema.\<close>

lemma claim_keys_checked:
  assumes "parse_claim_keys lib raw = Inr (Some out)"
  shows "fst ` set out \<subseteq> set known_claim_keys \<and> (\<forall>s. dget out ''type'' = PStr s \<longrightarrow> s \<in> set claim_types) \<and>
    (\<forall>s. dget out ''evidence'' = PStr s \<longrightarrow> s \<in> set evidence_types)"
  using assms parse_keys_known [of lib "[]"]
  by (auto simp: parse_claim_keys_def rbind_Inr_iff allowed_def split: option.splits if_splits)

text \<open>Only braces around the whole value are stripped, but any two at its ends are taken for them.\<close>

lemma outer_braces_misread: "strip_braces ''{a} vs {b}'' = ''a} vs {b''"
  by code_simp

end
