(* ===== verification/Source_Map.thy ===== *)
theory Source_Map
  imports Tex_Match
begin

text \<open>
  From positions in a flattened paper back to files and lines (\<open>parser/source_map.py\<close>). The
  flattening script puts a marker line before and behind the text of a file it inlines, and
  marker lines for files it could not inline. Offsets are integers, lines count from one.
\<close>

record region =
  rg_file :: string
  rg_start :: nat
  rg_end :: nat
  rg_orig :: nat

record source_map =
  sm_text :: string
  sm_default :: string
  sm_regions :: "region list"
  sm_line_starts :: "nat list"
  sm_synthetic :: "nat list"

text \<open>
  The four patterns. The name on a marker line is what is left without the white space at its
  end, but at least one character.
\<close>

definition str_rstrip :: "string \<Rightarrow> string" where
  "str_rstrip s = rev (dropWhile is_space (rev s))"

definition mark_name :: "string \<Rightarrow> string \<Rightarrow> string option" where
  "mark_name mark line =
     (if startswith line mark \<and> length mark < length line
      then let rest = drop (length mark) line
           in Some (if str_rstrip rest = [] then take 1 rest else str_rstrip rest)
      else None)"

definition start_mark :: string where
  "start_mark = ''% [flatten-tex.py] inlined: ''"

definition end_mark :: string where
  "end_mark = ''% [flatten-tex.py] end: ''"

definition is_skipped :: "string \<Rightarrow> bool" where
  "is_skipped line =
     (startswith (str_lstrip line) ''% [flatten-tex.py] MISSING:'' \<or>
      startswith (str_lstrip line) ''% [flatten-tex.py] cycle skipped:'')"

text \<open>
  The scan over the numbered lines: a stack of the open regions, the closed regions, and the
  lines the script added.
\<close>

type_synonym scan = "(string \<times> nat \<times> nat) list \<times> region list \<times> nat list"

definition scan_line :: "scan \<Rightarrow> nat \<times> string \<Rightarrow> scan" where
  "scan_line q numbered =
     (case (q, numbered) of
        ((stack, regions, synthetic), (idx, line)) \<Rightarrow>
          (case mark_name start_mark line of
             Some file \<Rightarrow>
               ((file, idx, 1) # stack, regions, if stack \<noteq> [] then synthetic @ [idx] else synthetic)
           | None \<Rightarrow>
               (case mark_name end_mark line of
                  Some file \<Rightarrow>
                    (case stack of
                       (file_open, flat_open, orig_open) # below \<Rightarrow>
                         if file_open = file
                         then (below, regions @ [\<lparr>rg_file = file_open, rg_start = flat_open, rg_end = idx, rg_orig = orig_open\<rparr>],
                               synthetic @ [idx])
                         else (stack, regions, synthetic @ [idx])
                     | [] \<Rightarrow> (stack, regions, synthetic @ [idx]))
                | None \<Rightarrow> (stack, regions, if is_skipped line then synthetic @ [idx] else synthetic))))"

definition line_starts :: "string \<Rightarrow> nat list" where
  "line_starts txt = 0 # map Suc (filter (\<lambda>i. txt ! i = newline) [0..<length txt])"

definition from_flat_text :: "string \<Rightarrow> string \<Rightarrow> source_map" where
  "from_flat_text flat_text default_file =
     (let ls = splitlines flat_text
      in case foldl scan_line ([], [], []) (enumerate 1 ls) of
           (stack, regions, synthetic) \<Rightarrow>
             let orphans = map (\<lambda>(file, open_at, orig). \<lparr>rg_file = file, rg_start = open_at, rg_end = length ls, rg_orig = orig\<rparr>) stack
             in \<lparr>sm_text = flat_text, sm_default = default_file,
                 sm_regions = sort_key rg_start (regions @ orphans),
                 sm_line_starts = line_starts flat_text, sm_synthetic = sort synthetic\<rparr>)"

text \<open>\<open>_offset_to_flat_line\<close>: a binary search in the starts of the lines.\<close>

function bisect_line :: "nat list \<Rightarrow> int \<Rightarrow> nat \<Rightarrow> nat \<Rightarrow> nat" where
  "bisect_line starts offset lo hi =
     (if lo < hi
      then let mid = (lo + hi + 1) div 2
           in if int (starts ! mid) \<le> offset then bisect_line starts offset mid hi
              else bisect_line starts offset lo (mid - 1)
      else lo)"
  by pat_completeness auto
termination
  by (relation "measure (\<lambda>(starts, offset, lo, hi). hi - lo)") auto

declare bisect_line.simps [simp del]

definition offset_to_flat_line :: "source_map \<Rightarrow> int \<Rightarrow> nat" where
  "offset_to_flat_line m offset =
     (if offset \<le> 0 then 1
      else if int (length (sm_text m)) \<le> offset then max 1 (length (sm_line_starts m))
      else bisect_line (sm_line_starts m) offset 0 (length (sm_line_starts m) - 1) + 1)"

fun count_between :: "nat \<Rightarrow> nat \<Rightarrow> nat list \<Rightarrow> nat" where
  "count_between lo hi [] = 0"
| "count_between lo hi (n # ns) =
     (if lo < n \<and> n \<le> hi then Suc (count_between lo hi ns)
      else if hi < n then 0
      else count_between lo hi ns)"

definition synthetic_between :: "source_map \<Rightarrow> nat \<Rightarrow> nat \<Rightarrow> nat" where
  "synthetic_between m lo hi = (if hi \<le> lo then 0 else count_between lo hi (sm_synthetic m))"

definition inside :: "nat \<Rightarrow> region \<Rightarrow> bool" where
  "inside line r \<longleftrightarrow> rg_start r < line \<and> line \<le> rg_end r"

definition innermost :: "nat \<Rightarrow> region list \<Rightarrow> region option" where
  "innermost line regions =
     foldl (\<lambda>best r. if inside line r \<and> (case best of None \<Rightarrow> True | Some b \<Rightarrow> rg_start b < rg_start r)
                     then Some r else best) None regions"

definition locate :: "source_map \<Rightarrow> int \<Rightarrow> string \<times> int" where
  "locate m offset =
     (let flat_line = offset_to_flat_line m offset
      in case innermost flat_line (sm_regions m) of
           None \<Rightarrow> (sm_default m, int flat_line)
         | Some r \<Rightarrow>
             let delta = int flat_line - int (rg_start r) - 1 - int (synthetic_between m (rg_start r) flat_line)
             in (rg_file r, max 1 (int (rg_orig r) + delta)))"

section \<open>Lines\<close>

lemma bisect_line_spec:
  assumes "lo \<le> hi" "hi < length starts" "int (starts ! lo) \<le> k" "\<And>j. hi < j \<Longrightarrow> j < length starts \<Longrightarrow> k < int (starts ! j)"
    "sorted starts"
  shows "bisect_line starts k lo hi < length starts \<and> int (starts ! bisect_line starts k lo hi) \<le> k \<and>
    (\<forall>j. bisect_line starts k lo hi < j \<longrightarrow> j < length starts \<longrightarrow> k < int (starts ! j))"
  using assms
proof (induction starts k lo hi rule: bisect_line.induct)
  case (1 starts k lo hi)
  let ?mid = "(lo + hi + 1) div 2"
  show ?case
  proof (cases "lo < hi")
    case False
    then have "bisect_line starts k lo hi = lo" by (simp add: bisect_line.simps [of starts k lo hi])
    moreover have "lo = hi" using False 1(3) by simp
    ultimately show ?thesis using 1(4-6) by simp
  next
    case True
    show ?thesis
    proof (cases "int (starts ! ?mid) \<le> k")
      case below: True
      have "?mid \<le> hi" using True by linarith
      from 1(1) [OF True refl below this 1(4) below 1(6) 1(7)] True below
      show ?thesis by (simp add: bisect_line.simps [of starts k lo hi] Let_def)
    next
      case above: False
      have mid: "lo \<le> ?mid - 1" "?mid - 1 < length starts" "0 < ?mid" "?mid < length starts" using True 1(4) by linarith+
      have later: "k < int (starts ! j)" if "?mid - 1 < j" "j < length starts" for j
      proof -
        have "starts ! ?mid \<le> starts ! j" using that mid 1(7) by (intro sorted_nth_mono) linarith+
        with above show ?thesis by linarith
      qed
      from 1(2) [OF True refl above mid(1,2) 1(5) later 1(7)] True above
      show ?thesis by (simp add: bisect_line.simps [of starts k lo hi] Let_def)
    qed
  qed
qed

lemma filter_upto:
  assumes "r < length xs" "\<And>j. j \<le> r \<Longrightarrow> P (xs ! j)" "\<And>j. r < j \<Longrightarrow> j < length xs \<Longrightarrow> \<not> P (xs ! j)"
  shows "length (filter P xs) = Suc r"
proof -
  have "filter P (take (Suc r) xs) = take (Suc r) xs"
    using assms(1,2) by (auto simp: filter_id_conv in_set_conv_nth less_Suc_eq_le)
  moreover have "filter P (drop (Suc r) xs) = []"
    using assms(3) by (auto simp: filter_empty_conv in_set_conv_nth)
  ultimately have "filter P xs = take (Suc r) xs" using filter_append [of P "take (Suc r) xs" "drop (Suc r) xs"] by simp
  with assms(1) show ?thesis by simp
qed

lemma filter_newlines: "k \<le> length t \<Longrightarrow> length (filter (\<lambda>i. t ! i = c) [0..<k]) = count_list (take k t) c"
  by (induction k) (simp_all add: take_Suc_conv_app_nth)

lemma sorted_line_starts: "sorted (line_starts t)"
  by (auto simp: line_starts_def sorted_map sorted_wrt_map strict_sorted_iff intro!: sorted_wrt_filter)

lemma flat_line_count:
  "offset_to_flat_line (from_flat_text t f) off = Suc (count_list (take (nat off) t) newline)"
proof -
  obtain m where m: "from_flat_text t f = m" "sm_text m = t" "sm_line_starts m = line_starts t"
    by (auto simp: from_flat_text_def Let_def split: prod.splits)
  have len: "length (line_starts t) = Suc (count_list t newline)"
    using filter_newlines [of "length t" t newline] by (simp add: line_starts_def)
  consider "off \<le> 0" | "int (length t) \<le> off" "0 < off" | "0 < off" "off < int (length t)" by linarith
  then show ?thesis
  proof cases
    case 1
    then show ?thesis by (simp add: m offset_to_flat_line_def)
  next
    case 2
    then show ?thesis by (simp add: m offset_to_flat_line_def len)
  next
    case 3
    define r where "r = bisect_line (line_starts t) off 0 (length (line_starts t) - 1)"
    have r: "r < length (line_starts t)" "int (line_starts t ! r) \<le> off"
      "\<And>j. r < j \<Longrightarrow> j < length (line_starts t) \<Longrightarrow> off < int (line_starts t ! j)"
      using bisect_line_spec [of 0 "length (line_starts t) - 1" "line_starts t" off] 3 sorted_line_starts
      unfolding r_def by (auto simp: line_starts_def)
    have "length (filter (\<lambda>s. int s \<le> off) (line_starts t)) = Suc r"
    proof (rule filter_upto [OF r(1)])
      show "int (line_starts t ! j) \<le> off" if "j \<le> r" for j
        using that r(1,2) sorted_nth_mono [OF sorted_line_starts, of j r t] by linarith
      show "\<not> int (line_starts t ! j) \<le> off" if "r < j" "j < length (line_starts t)" for j
        using r(3) [OF that] by linarith
    qed
    moreover have "length (filter (\<lambda>s. int s \<le> off) (line_starts t)) = Suc (count_list (take (nat off) t) newline)"
    proof -
      have split: "[0..<length t] = [0..<nat off] @ [nat off..<length t]"
        using 3 by (metis le_add_diff_inverse less_imp_le nat_less_iff upt_add_eq_append zero_le)
      have "filter (\<lambda>i. int (Suc i) \<le> off \<and> t ! i = newline) [0..<nat off] = filter (\<lambda>i. t ! i = newline) [0..<nat off]"
        by (rule filter_cong) auto
      moreover have "filter (\<lambda>i. int (Suc i) \<le> off \<and> t ! i = newline) [nat off..<length t] = []"
        by (auto simp: filter_empty_conv)
      ultimately have "filter (\<lambda>i. int (Suc i) \<le> off \<and> t ! i = newline) [0..<length t] = filter (\<lambda>i. t ! i = newline) [0..<nat off]"
        unfolding split filter_append by (simp only: append_Nil2)
      then have "length (filter (\<lambda>i. int (Suc i) \<le> off \<and> t ! i = newline) [0..<length t]) = count_list (take (nat off) t) newline"
        using filter_newlines [of "nat off" t newline] 3 by simp
      then show ?thesis using 3 by (simp add: line_starts_def filter_map o_def conj_commute)
    qed
    ultimately show ?thesis using 3 by (simp add: m offset_to_flat_line_def r_def)
  qed
qed

section \<open>Flattened papers\<close>

text \<open>
  A paper flattened once: its own lines and the files it includes, in order. No line looks
  like a marker, and none contains a line boundary.
\<close>

datatype segment = Own "string list" | File string "string list"

fun segment_lines :: "segment \<Rightarrow> string list" where
  "segment_lines (Own ls) = ls"
| "segment_lines (File f ls) = (start_mark @ f) # ls @ [end_mark @ f]"

definition flat_lines :: "segment list \<Rightarrow> string list" where
  "flat_lines segs = concat (map segment_lines segs)"

definition ordinary :: "string \<Rightarrow> bool" where
  "ordinary l \<longleftrightarrow> mark_name start_mark l = None \<and> mark_name end_mark l = None \<and> \<not> is_skipped l \<and>
     list_all (\<lambda>c. \<not> line_break c) l"

definition file_name_ok :: "string \<Rightarrow> bool" where
  "file_name_ok f \<longleftrightarrow> f \<noteq> [] \<and> str_rstrip f = f \<and> list_all (\<lambda>c. \<not> line_break c) f"

fun segment_ok :: "segment \<Rightarrow> bool" where
  "segment_ok (Own ls) = list_all ordinary ls"
| "segment_ok (File f ls) = (file_name_ok f \<and> list_all ordinary ls)"

fun regions_of :: "nat \<Rightarrow> segment list \<Rightarrow> region list" where
  "regions_of n [] = []"
| "regions_of n (Own ls # segs) = regions_of (n + length ls) segs"
| "regions_of n (File f ls # segs) =
     \<lparr>rg_file = f, rg_start = n, rg_end = n + length ls + 1, rg_orig = 1\<rparr> # regions_of (n + length ls + 2) segs"

lemma mark_name_itself: "file_name_ok f \<Longrightarrow> mark_name m (m @ f) = Some f"
  by (simp add: mark_name_def file_name_ok_def startswith_def)

lemma end_not_start: "mark_name start_mark (end_mark @ f) = None"
  by (simp add: mark_name_def start_mark_def end_mark_def startswith_def)

lemma scan_ordinary:
  "list_all ordinary ls \<Longrightarrow> foldl scan_line q (enumerate n ls) = q"
  by (induction ls arbitrary: n) (auto simp: scan_line_def ordinary_def split: prod.splits)

lemma scan_segments:
  "list_all segment_ok segs \<Longrightarrow>
   foldl scan_line ([], rs, ys) (enumerate n (flat_lines segs)) = ([], rs @ regions_of n segs, ys @ map rg_end (regions_of n segs))"
proof (induction segs arbitrary: n rs ys)
  case (Cons seg segs)
  show ?case
  proof (cases seg)
    case (Own ls)
    with Cons show ?thesis by (simp add: flat_lines_def enumerate_append_eq scan_ordinary)
  next
    case (File f ls)
    have f: "file_name_ok f" and ls: "list_all ordinary ls" using Cons.prems File by simp_all
    have "foldl scan_line ([], rs, ys) (enumerate n ((start_mark @ f) # ls @ [end_mark @ f]))
        = ([], rs @ [\<lparr>rg_file = f, rg_start = n, rg_end = n + length ls + 1, rg_orig = 1\<rparr>], ys @ [n + length ls + 1])"
      by (simp add: enumerate_append_eq scan_ordinary [OF ls])
         (simp add: scan_line_def mark_name_itself [OF f] end_not_start)
    with Cons.IH [where n = "n + length ls + 2"] Cons.prems File show ?thesis
      by (simp add: flat_lines_def enumerate_append_eq)
  qed
qed (simp add: flat_lines_def)

lemma regions_bounds: "r \<in> set (regions_of n segs) \<Longrightarrow> n \<le> rg_start r \<and> rg_start r < rg_end r \<and> rg_end r < n + length (flat_lines segs)"
proof (induction n segs rule: regions_of.induct)
  case (2 n ls segs)
  then show ?case by (auto simp: flat_lines_def)
next
  case (3 n f ls segs)
  then show ?case by (auto simp: flat_lines_def)
qed simp

lemma later_regions:
  "\<forall>r \<in> set (regions_of (n + length ls + 2) segs). n \<le> rg_start r \<and> n + length ls + 1 \<le> rg_end r"
  using regions_bounds [of _ "n + length ls + 2" segs] by fastforce

lemma sort_key_regions: "sort_key rg_start (regions_of n segs) = regions_of n segs"
proof (induction n segs rule: regions_of.induct)
  case (3 n f ls segs)
  then show ?case using later_regions [of n ls segs] by (simp add: insort_is_Cons)
qed simp_all

lemma sort_regions_end: "sort (map rg_end (regions_of n segs)) = map rg_end (regions_of n segs)"
proof (induction n segs rule: regions_of.induct)
  case (3 n f ls segs)
  then show ?case using later_regions [of n ls segs] by (simp add: insort_is_Cons)
qed simp_all

lemma flat_lines_simps [simp]: "flat_lines (segs @ segs') = flat_lines segs @ flat_lines segs'" "flat_lines (s # segs) = segment_lines s @ flat_lines segs"
  by (simp_all add: flat_lines_def)

lemma regions_of_append: "regions_of n (segs @ segs') = regions_of n segs @ regions_of (n + length (flat_lines segs)) segs'"
  by (induction n segs rule: regions_of.induct) (simp_all add: flat_lines_def add.assoc)

lemma clean_lines: "list_all segment_ok segs \<Longrightarrow> l \<in> set (flat_lines segs) \<Longrightarrow> list_all (\<lambda>c. \<not> line_break c) l"
proof -
  have marks: "list_all (\<lambda>c. \<not> line_break c) start_mark" "list_all (\<lambda>c. \<not> line_break c) end_mark" by code_simp+
  assume "list_all segment_ok segs" "l \<in> set (flat_lines segs)"
  then obtain s where s: "segment_ok s" "l \<in> set (segment_lines s)" by (auto simp: flat_lines_def list_all_iff)
  with marks show ?thesis by (cases s) (auto simp: list_all_iff ordinary_def file_name_ok_def)
qed

lemma flat_map:
  assumes "list_all segment_ok segs"
  shows "from_flat_text (unlines (flat_lines segs)) f =
    \<lparr>sm_text = unlines (flat_lines segs), sm_default = f, sm_regions = regions_of 1 segs,
     sm_line_starts = line_starts (unlines (flat_lines segs)), sm_synthetic = map rg_end (regions_of 1 segs)\<rparr>"
  using scan_segments [OF assms, of "[]" "[]" 1] clean_lines [OF assms]
  by (simp add: from_flat_text_def Let_def splitlines_unlines sort_key_regions sort_regions_end)

lemma newlines_unlines: "(\<And>l. l \<in> set ls \<Longrightarrow> list_all (\<lambda>c. \<not> line_break c) l) \<Longrightarrow> count_list (unlines ls) newline = length ls"
proof (induction ls)
  case (Cons l ls)
  have "newline \<notin> set l" using Cons.prems [of l] by (auto simp: list_all_iff)
  with Cons show ?case by (simp add: count_list_append count_list_0_iff)
qed simp

text \<open>The line of a position in the line that follows \<open>ls\<close>.\<close>

lemma line_behind:
  assumes "\<And>x. x \<in> set ls \<Longrightarrow> list_all (\<lambda>c. \<not> line_break c) x" "list_all (\<lambda>c. \<not> line_break c) l" "j \<le> length l"
  shows "offset_to_flat_line (from_flat_text (unlines (ls @ l # rest)) f) (int (length (unlines ls) + j)) = Suc (length ls)"
proof -
  have "unlines (ls @ l # rest) = unlines ls @ l @ newline # unlines rest" by (simp add: unlines_def)
  then have "take (length (unlines ls) + j) (unlines (ls @ l # rest)) = unlines ls @ take j l" using assms(3) by simp
  moreover have "newline \<notin> set (take j l)" using assms(2) by (auto simp: list_all_iff dest!: in_set_takeD)
  ultimately show ?thesis
    using newlines_unlines [OF assms(1)] by (simp add: flat_line_count count_list_append count_list_0_iff flip: of_nat_add)
qed

lemma innermost_none: "list_all (\<lambda>r. \<not> inside n r) rs \<Longrightarrow> foldl (\<lambda>best r. if inside n r \<and> (case best of None \<Rightarrow> True | Some b \<Rightarrow> rg_start b < rg_start r) then Some r else best) q rs = q"
  by (induction rs) auto

lemma innermost_only:
  "list_all (\<lambda>r. \<not> inside n r) as \<Longrightarrow> inside n r \<Longrightarrow> list_all (\<lambda>r. \<not> inside n r) bs \<Longrightarrow> innermost n (as @ r # bs) = Some r"
  by (simp add: innermost_def innermost_none)

lemma count_between_0: "list_all (\<lambda>n. \<not> (lo < n \<and> n \<le> hi)) ns \<Longrightarrow> count_between lo hi ns = 0"
  by (induction ns) auto

text \<open>In a paper flattened once, every position in line \<open>k\<close> of an included file is
  reported as line \<open>k\<close> of that file, whatever stands before and behind the file.\<close>

lemma locate_included:
  assumes "list_all segment_ok (before @ File f ls # behind)" "k < length ls" "j \<le> length (ls ! k)"
    "pos = length (unlines (flat_lines before @ (start_mark @ f) # take k ls)) + j"
  shows "locate (from_flat_text (unlines (flat_lines (before @ File f ls # behind))) main) (int pos) = (f, int k + 1)"
proof -
  let ?segs = "before @ File f ls # behind" and ?n = "length (flat_lines before)"
  let ?m = "from_flat_text (unlines (flat_lines ?segs)) main"
  have flat: "flat_lines ?segs = (flat_lines before @ (start_mark @ f) # take k ls) @ ls ! k # drop (Suc k) ls @ (end_mark @ f) # flat_lines behind"
    using id_take_nth_drop [OF assms(2)] by simp
  have clean: "list_all (\<lambda>c. \<not> line_break c) l" if "l \<in> set (flat_lines ?segs)" for l
    using clean_lines [OF assms(1) that] .
  have head: "list_all (\<lambda>c. \<not> line_break c) x" if "x \<in> set (flat_lines before @ (start_mark @ f) # take k ls)" for x
    using clean [of x, unfolded flat] that by auto
  have body: "list_all (\<lambda>c. \<not> line_break c) (ls ! k)"
    using clean [of "ls ! k", unfolded flat] by simp
  have line: "offset_to_flat_line ?m (int pos) = ?n + k + 2"
    unfolding flat assms(4)
    by (subst line_behind [OF head body assms(3)]) (use assms(2) in simp_all)
  let ?r = "\<lparr>rg_file = f, rg_start = Suc ?n, rg_end = Suc ?n + length ls + 1, rg_orig = 1\<rparr>"
  have regs: "regions_of 1 ?segs = regions_of 1 before @ ?r # regions_of (?n + length ls + 3) behind"
    by (simp add: regions_of_append eval_nat_numeral)
  have outer: "list_all (\<lambda>r. \<not> inside (?n + k + 2) r) (regions_of 1 before)"
    "list_all (\<lambda>r. \<not> inside (?n + k + 2) r) (regions_of (?n + length ls + 3) behind)"
    using regions_bounds [of _ 1 before] regions_bounds [of _ "?n + length ls + 3" behind] assms(2)
    by (fastforce simp: list_all_iff inside_def)+
  have inner: "innermost (?n + k + 2) (regions_of 1 ?segs) = Some ?r"
    unfolding regs by (rule innermost_only) (use outer assms(2) in \<open>auto simp: inside_def\<close>)
  have "count_between (Suc ?n) (?n + k + 2) (map rg_end (regions_of 1 ?segs)) = 0"
    unfolding regs using regions_bounds [of _ 1 before] regions_bounds [of _ "?n + length ls + 3" behind] assms(2)
    by (intro count_between_0) (fastforce simp: list_all_iff)
  then have syn: "synthetic_between ?m (Suc ?n) (?n + k + 2) = 0"
    by (simp only: synthetic_between_def flat_map [OF assms(1)] source_map.simps) simp
  have regions: "sm_regions ?m = regions_of 1 ?segs"
    by (simp only: flat_map [OF assms(1)] source_map.simps)
  have "locate ?m (int pos) = (f, max 1 (int 1 + (int (?n + k + 2) - int (Suc ?n) - 1 - int 0)))"
    unfolding locate_def Let_def line regions inner option.case region.simps syn ..
  then show ?thesis by simp
qed

lemma locate_included_witness:
  "locate (from_flat_text (unlines (flat_lines ([Own [''a'', ''b'']] @ File ''x.tex'' [''one'', ''two''] # [Own [''c'']]))) ''main.tex'') (int 42)
     = (''x.tex'', int 1 + 1)"
  by (rule locate_included [where j = 0]) code_simp+

text \<open>
  Two limits. Behind a file included by an included file, lines of the outer file are reported
  too high by the lines of the inner one. And a form feed, which ends a line for the scan of the
  markers but not for the offsets, shifts the regions behind it.
\<close>

lemma nested_include_shifts:
  "locate (from_flat_text (unlines [start_mark @ ''book'', ''one'', start_mark @ ''ch'', ''x'', ''y'', ''z'', end_mark @ ''ch'', ''three'', end_mark @ ''book'']) ''main'')
     (int (length (unlines [start_mark @ ''book'', ''one'', start_mark @ ''ch'', ''x'', ''y'', ''z'', end_mark @ ''ch'']))) = (''book'', 5)"
  by code_simp

lemma form_feed_shifts:
  "locate (from_flat_text (char_of (12 :: nat) # unlines [start_mark @ ''book'', ''one'', end_mark @ ''book'']) ''main'')
     (int (length (char_of (12 :: nat) # unlines [start_mark @ ''book'']))) = (''main'', 2)"
  by code_simp

end
