(* ===== verification/Bibliography.thy ===== *)
theory Bibliography
  imports Tex_Match
begin

text \<open>
  Bibliographies (\<open>parser/bibliography.py\<close>): the entries of a BibTeX file, which a library
  parses, and those of a \<open>thebibliography\<close> block in the source, with the identifiers found in
  their text.
\<close>

record bib_entry =
  be_key :: string
  be_type :: string
  be_fields :: "(string \<times> string) list"
  be_raw :: string

text \<open>The text around the first occurrence of a pattern.\<close>

fun around_first :: "string \<Rightarrow> string \<Rightarrow> (string \<times> string) option" where
  "around_first p [] = (if p = [] then Some ([], []) else None)"
| "around_first p (c # s) =
     (if startswith (c # s) p then Some ([], drop (length p) (c # s))
      else map_option (\<lambda>(before, behind). (c # before, behind)) (around_first p s))"

definition rstrip_chars :: "string \<Rightarrow> string \<Rightarrow> string" where
  "rstrip_chars cs s = rev (dropWhile (\<lambda>c. c \<in> set cs) (rev s))"

definition nonempty :: "string option \<Rightarrow> string option" where
  "nonempty v = (case v of Some s \<Rightarrow> if s = [] then None else Some s | None \<Rightarrow> None)"

text \<open>\<open>a or b\<close> on optional strings.\<close>

definition or_text :: "string option \<Rightarrow> string option \<Rightarrow> string option" where
  "or_text a b = (case nonempty a of Some s \<Rightarrow> Some s | None \<Rightarrow> b)"

definition entry_doi :: "bib_entry \<Rightarrow> string option" where
  "entry_doi e = nonempty (dict_get (be_fields e) ''doi'')"

definition entry_arxiv_id :: "bib_entry \<Rightarrow> string option" where
  "entry_arxiv_id e =
     (let archive = or_text (dict_get (be_fields e) ''archivePrefix'') (dict_get (be_fields e) ''archiveprefix'');
          eprint = nonempty (dict_get (be_fields e) ''eprint'');
          url = (case dict_get (be_fields e) ''url'' of Some u \<Rightarrow> u | None \<Rightarrow> [])
      in if (case archive of Some a \<Rightarrow> str_lower a = ''arxiv'' | None \<Rightarrow> False) \<and> eprint \<noteq> None
         then eprint
         else map_option (\<lambda>(_, behind). str_strip (rstrip_chars ''/'' behind)) (around_first ''arxiv.org/abs/'' url))"

definition entry_url :: "bib_entry \<Rightarrow> string option" where
  "entry_url e =
     (case nonempty (or_text (dict_get (be_fields e) ''url'') (dict_get (be_fields e) ''howpublished'')) of
        None \<Rightarrow> None
      | Some raw \<Rightarrow>
          let t = str_strip raw; mark = backslash_char # ''url{'';
              u = (if startswith t mark \<and> endswith t ''}'' then drop (length mark) (butlast t) else t)
          in if str_contains ''://'' u then Some u else None)"

text \<open>The entry text both parsers write.\<close>

definition raw_entry :: "string \<Rightarrow> string \<Rightarrow> (string \<times> string) list \<Rightarrow> string" where
  "raw_entry entry_type key fs =
     ''@'' @ entry_type @ ''{'' @ key @ '','' @ [newline] @
     join_on ('','' @ [newline]) (map (\<lambda>(k, v). ''  '' @ k @ '' = {'' @ v @ ''}'') fs) @ [newline] @ ''}''"

section \<open>BibTeX files\<close>

text \<open>An entry as the library returns it; a missing identifier or type is the empty text.\<close>

record lib_entry =
  le_id :: string
  le_type :: string
  le_fields :: "(string \<times> string option) list"

definition bib_of_lib :: "lib_entry \<Rightarrow> bib_entry" where
  "bib_of_lib e =
     (let entry_type = str_lower (le_type e);
          fs = foldl (\<lambda>d (k, v). case v of None \<Rightarrow> d | Some w \<Rightarrow> dict_set (str_lower k) (str_strip w) d) [] (le_fields e)
      in \<lparr>be_key = le_id e, be_type = entry_type, be_fields = fs, be_raw = raw_entry entry_type (le_id e) fs\<rparr>)"

definition parse_bib :: "(string \<Rightarrow> lib_entry list) \<Rightarrow> string \<Rightarrow> bib_entry list" where
  "parse_bib lib txt = (if str_strip txt = [] then [] else map bib_of_lib (lib txt))"

section \<open>The block in the source\<close>

definition begin_bib :: string where
  "begin_bib = backslash_char # ''begin{thebibliography}''"

definition end_bib :: string where
  "end_bib = backslash_char # ''end{thebibliography}''"

definition bib_item :: string where
  "bib_item = backslash_char # ''bibitem''"

definition thebib_match :: "string matcher" where
  "thebib_match s =
     (if startswith s begin_bib
      then let r = drop (length begin_bib) s;
               r' = (case flat_group r of Some (_, t) \<Rightarrow> t | None \<Rightarrow> r)
           in around_first end_bib r'
      else None)"

text \<open>Label, key and text of an item; the text ends before the next item.\<close>

definition item_match :: "(string \<times> string \<times> string) matcher" where
  "item_match s =
     Option.bind (macro_named ''bibitem'' s) (\<lambda>r.
       let r1 = skip_space r;
           (label, r2) = (case bracketed r1 of Some (l, t) \<Rightarrow> (l, t) | None \<Rightarrow> ([], r1))
       in case flat_group (skip_space r2) of
            Some (key, r3) \<Rightarrow>
              if key = [] then None
              else (case around_first bib_item r3 of
                      Some (body, behind) \<Rightarrow> Some ((label, key, body), bib_item @ behind)
                    | None \<Rightarrow> Some ((label, key, r3), []))
          | None \<Rightarrow> None)"

definition in_class :: "string \<Rightarrow> char \<Rightarrow> bool" where
  "in_class extra c =
     (let n = (of_char c :: nat)
      in is_digit c \<or> (65 \<le> n \<and> n \<le> 90) \<or> (97 \<le> n \<and> n \<le> 122) \<or> c \<in> set extra)"

definition doi_match :: "string matcher" where
  "doi_match s =
     (if startswith s ''10.''
      then let r = drop 3 s; ds = takeWhile is_digit r; t = dropWhile is_digit r
           in if 4 \<le> length ds \<and> length ds \<le> 9 \<and> t \<noteq> [] \<and> hd t = CHR ''/'' \<and> takeWhile (in_class ''-._;()/:'') (tl t) \<noteq> []
              then Some (''10.'' @ ds @ ''/'' @ takeWhile (in_class ''-._;()/:'') (tl t), dropWhile (in_class ''-._;()/:'') (tl t))
              else None
      else None)"

definition arxiv_match :: "string matcher" where
  "arxiv_match s =
     (if str_lower (take 5 s) = ''arxiv''
      then let r = skip_space (drop 5 s);
               r' = skip_space (if r \<noteq> [] \<and> hd r = CHR '':'' then tl r else r);
               a = takeWhile is_digit r'; t = dropWhile is_digit r'; b = takeWhile is_digit (tl t)
           in if length a = 4 \<and> t \<noteq> [] \<and> hd t = CHR ''.'' \<and> 4 \<le> length b
              then Some (a @ ''.'' @ take 5 b, drop (min 5 (length b)) (tl t))
              else None
      else None)"

definition url_match :: "string matcher" where
  "url_match s =
     first_match (\<lambda>p.
       if startswith s p
       then let inner = (\<lambda>c. \<not> is_space c \<and> c \<noteq> CHR '','' \<and> c \<noteq> CHR '')'' \<and> c \<noteq> backslash_char); r = drop (length p) s
            in if takeWhile inner r = [] then None else Some (p @ takeWhile inner r, dropWhile inner r)
       else None) [''https://'', ''http://'']"

definition strip_trailing_punct :: "string \<Rightarrow> string" where
  "strip_trailing_punct s = rstrip_chars ''.,;:)]}'' s"

definition when_found :: "'a option \<Rightarrow> ('a \<Rightarrow> 'd \<Rightarrow> 'd) \<Rightarrow> 'd \<Rightarrow> 'd" where
  "when_found v f d = (case v of None \<Rightarrow> d | Some x \<Rightarrow> f x d)"

definition bib_of_item :: "string \<times> string \<times> string \<Rightarrow> bib_entry" where
  "bib_of_item item =
     (case item of
        (label, key, body) \<Rightarrow>
          let l = str_strip label; k = str_strip key; t = str_strip body;
              fs = (if l = [] then [] else dict_set ''label'' l []);
              fs = (if t = [] then fs else dict_set ''note'' t fs);
              fs = when_found (find_first doi_match t) (\<lambda>x. dict_set ''doi'' (strip_trailing_punct x)) fs;
              fs = when_found (find_first arxiv_match t) (\<lambda>x d. dict_set ''archiveprefix'' ''arXiv'' (dict_set ''eprint'' x d)) fs;
              fs = when_found (find_first url_match t) (\<lambda>x. dict_set ''url'' (strip_trailing_punct x)) fs
          in \<lparr>be_key = k, be_type = ''misc'', be_fields = fs, be_raw = raw_entry ''misc'' k fs\<rparr>)"

definition parse_thebibliography :: "string \<Rightarrow> bib_entry list" where
  "parse_thebibliography tex_source =
     concat (map (\<lambda>body. map bib_of_item (find_all item_match body)) (find_all thebib_match tex_source))"

section \<open>Reading back a block\<close>

text \<open>A block with one item per key, as papers write it.\<close>

definition item_text :: "string \<times> string \<Rightarrow> string" where
  "item_text kb = bib_item @ CHR ''{'' # fst kb @ CHR ''}'' # snd kb"

definition block_text :: "(string \<times> string) list \<Rightarrow> string" where
  "block_text items = begin_bib @ ''{99}'' @ concat (map item_text items) @ end_bib"

definition item_ok :: "string \<times> string \<Rightarrow> bool" where
  "item_ok kb \<longleftrightarrow>
     fst kb \<noteq> [] \<and> list_all (\<lambda>c. c \<noteq> CHR ''{'' \<and> c \<noteq> CHR ''}'' \<and> c \<noteq> backslash_char) (fst kb) \<and>
     backslash_char \<notin> set (snd kb)"

lemma around_first_skip:
  "backslash_char \<notin> set s \<Longrightarrow> around_first (backslash_char # p) (s @ t) =
     map_option (\<lambda>(before, behind). (s @ before, behind)) (around_first (backslash_char # p) t)"
proof (induction s)
  case Nil
  then show ?case by (cases "around_first (backslash_char # p) t") auto
next
  case (Cons c s)
  then show ?case
    by (cases "around_first (backslash_char # p) t") (auto simp: startswith_def)
qed

lemma around_first_here: "p \<noteq> [] \<Longrightarrow> around_first p (p @ t) = Some ([], t)"
  by (cases p) (simp_all add: startswith_def)

lemma around_first_gap:
  assumes "backslash_char \<notin> set s"
  shows "around_first (backslash_char # p) (s @ (backslash_char # p) @ t) = Some (s, t)"
  using around_first_skip [OF assms, of p "(backslash_char # p) @ t"] around_first_here [of "backslash_char # p" t] by simp

lemma around_first_absent: "backslash_char \<notin> set s \<Longrightarrow> around_first (backslash_char # p) s = None"
  using around_first_skip [of s p "[]"] by simp

lemma flat_group_key:
  "list_all (\<lambda>c. c \<noteq> CHR ''{'' \<and> c \<noteq> CHR ''}'' \<and> c \<noteq> backslash_char) t \<Longrightarrow> flat_group (CHR ''{'' # t @ CHR ''}'' # s) = Some (t, s)"
proof -
  assume "list_all (\<lambda>c. c \<noteq> CHR ''{'' \<and> c \<noteq> CHR ''}'' \<and> c \<noteq> backslash_char) t"
  then have "takeWhile (\<lambda>c. c \<noteq> CHR ''{'' \<and> c \<noteq> CHR ''}'') (t @ CHR ''}'' # s) = t"
    "dropWhile (\<lambda>c. c \<noteq> CHR ''{'' \<and> c \<noteq> CHR ''}'') (t @ CHR ''}'' # s) = CHR ''}'' # s"
    by (induction t) simp_all
  then show ?thesis by (simp add: flat_group_def enclosed_def)
qed

lemma item_match_item:
  assumes "item_ok (k, b)"
  shows "item_match (item_text (k, b) @ bib_item @ t) = Some (([], k, b), bib_item @ t)"
    "item_match (item_text (k, b)) = Some (([], k, b), [])"
proof -
  have group: "flat_group (CHR ''{'' # k @ CHR ''}'' # s) = Some (k, s)" for s
    using assms by (intro flat_group_key) (simp add: item_ok_def)
  have named: "macro_named ''bibitem'' (bib_item @ s) = Some s" for s
    by (simp add: macro_named_def bib_item_def startswith_def)
  have open_brace: "skip_space (CHR ''{'' # s) = CHR ''{'' # s" "bracketed (CHR ''{'' # s) = None" for s
    by (simp_all add: skip_space_def is_space_def bracketed_def enclosed_def)
  have body: "around_first bib_item (b @ bib_item @ t) = Some (b, t)" "around_first bib_item b = None"
    using around_first_gap [of b "''bibitem''" t] around_first_absent [of b "''bibitem''"] assms
    by (simp_all add: bib_item_def item_ok_def)
  have key: "k \<noteq> []" using assms by (simp add: item_ok_def)
  show "item_match (item_text (k, b) @ bib_item @ t) = Some (([], k, b), bib_item @ t)"
    "item_match (item_text (k, b)) = Some (([], k, b), [])"
    using key by (simp_all add: item_match_def item_text_def named open_brace group body Let_def)
qed

lemma find_all_here:
  assumes "m s = Some (a, r)" "length r < length s"
  shows "find_all m s = a # find_all m r"
  using assms by (subst find_all.simps) (cases s; simp)

lemma find_items: "list_all item_ok items \<Longrightarrow> find_all item_match (concat (map item_text items)) = map (\<lambda>(k, b). ([], k, b)) items"
proof (induction items)
  case (Cons kb items)
  obtain k b where kb: "kb = (k, b)" by (cases kb)
  have ok: "item_ok (k, b)" using Cons.prems kb by simp
  show ?case
  proof (cases items)
    case Nil
    have "find_all item_match (item_text (k, b)) = [([], k, b)]"
      by (subst find_all_here [where m = item_match, OF item_match_item(2) [OF ok]]) (simp_all add: item_text_def find_all.simps [of item_match "[]"])
    then show ?thesis by (simp add: kb Nil)
  next
    case (Cons kb' more)
    define t where "t = drop (length bib_item) (concat (map item_text items))"
    have t: "concat (map item_text items) = bib_item @ t" by (simp add: t_def Cons item_text_def)
    have "find_all item_match (item_text (k, b) @ bib_item @ t) = ([], k, b) # find_all item_match (bib_item @ t)"
      by (rule find_all_here [where m = item_match, OF item_match_item(1) [OF ok]]) (simp add: item_text_def)
    with Cons.IH Cons.prems t show ?thesis by (simp add: kb)
  qed
qed (simp add: find_all.simps [of item_match "[]"])

lemma around_first_step:
  "\<not> prefix p (c # s) \<Longrightarrow> around_first p (c # s) = map_option (\<lambda>(before, behind). (c # before, behind)) (around_first p s)"
  by (simp add: startswith_def)

lemma around_end_bib:
  "list_all item_ok items \<Longrightarrow> around_first end_bib (concat (map item_text items) @ end_bib @ t) = Some (concat (map item_text items), t)"
proof (induction items)
  case Nil
  have "end_bib \<noteq> []" by (simp add: end_bib_def)
  then show ?case by (simp add: around_first_here del: around_first.simps)
next
  case (Cons kb items)
  let ?rest = "concat (map item_text items) @ end_bib @ t"
  define u where "u = ''bibitem{'' @ fst kb @ CHR ''}'' # snd kb"
  have "backslash_char \<notin> set ''bibitem{}''" by code_simp
  then have u: "backslash_char \<notin> set u" "item_text kb = backslash_char # u"
    using Cons.prems by (auto simp: u_def item_ok_def list_all_iff item_text_def bib_item_def)
  have "\<not> prefix end_bib (backslash_char # u @ ?rest)"
    by (simp add: end_bib_def u_def del: append_assoc)
  then have "around_first end_bib (backslash_char # u @ ?rest) =
      map_option (\<lambda>(before, behind). (backslash_char # before, behind)) (around_first end_bib (u @ ?rest))"
    by (rule around_first_step)
  also have "around_first end_bib (u @ ?rest) = Some (u @ concat (map item_text items), t)"
    using around_first_skip [OF u(1), of "''end{thebibliography}''" ?rest] Cons by (simp add: end_bib_def del: around_first.simps)
  finally show ?case by (simp add: u(2))
qed

lemma find_all_skip: "backslash_char \<notin> set s \<Longrightarrow> find_all thebib_match (s @ t) = find_all thebib_match t"
proof (induction s)
  case (Cons c s)
  then have "thebib_match (c # s @ t) = None" by (simp add: thebib_match_def startswith_def begin_bib_def)
  then have "find_all thebib_match (c # s @ t) = find_all thebib_match (s @ t)" by (subst find_all.simps) simp
  with Cons show ?case by simp
qed simp

lemma when_found_get:
  "(\<And>x d. dict_get (f x d) k = dict_get d k) \<Longrightarrow> dict_get (when_found v f d) k = dict_get d k"
  by (simp add: when_found_def split: option.split)

lemma note_of_item: "dict_get (be_fields (bib_of_item ([], kb))) ''note'' = nonempty (Some (str_strip (snd kb)))"
proof (cases kb)
  case (Pair k b)
  have "str_strip [] = []" by (simp add: str_strip_def)
  then show ?thesis by (simp add: Pair bib_of_item_def Let_def when_found_get nonempty_def)
qed

text \<open>A \<open>thebibliography\<close> block is read back item by item: every key and the text behind it,
  in order, whatever prose surrounds the block.\<close>

lemma thebibliography_round_trip:
  assumes "list_all item_ok items" "backslash_char \<notin> set before" "backslash_char \<notin> set after"
  shows "map (\<lambda>e. (be_key e, dict_get (be_fields e) ''note'')) (parse_thebibliography (before @ block_text items @ after)) =
    map (\<lambda>(k, b). (str_strip k, nonempty (Some (str_strip b)))) items"
proof -
  let ?body = "concat (map item_text items)"
  have number: "list_all (\<lambda>c. c \<noteq> CHR ''{'' \<and> c \<noteq> CHR ''}'' \<and> c \<noteq> backslash_char) ''99''" by code_simp
  have "flat_group (''{99}'' @ ?body @ end_bib @ after) = Some (''99'', ?body @ end_bib @ after)"
    using flat_group_key [OF number, of "?body @ end_bib @ after"] by simp
  then have "thebib_match (block_text items @ after) = Some (?body, after)"
    by (simp add: thebib_match_def block_text_def startswith_def around_end_bib [OF assms(1)] Let_def del: around_first.simps)
  then have "find_all thebib_match (block_text items @ after) = ?body # find_all thebib_match after"
    by (rule find_all_here) (simp add: block_text_def begin_bib_def)
  moreover have "find_all thebib_match after = []"
    using find_all_skip [OF assms(3), of "[]"] by (simp add: find_all.simps [of thebib_match "[]"])
  ultimately have "parse_thebibliography (before @ block_text items @ after) = map bib_of_item (map (\<lambda>(k, b). ([], k, b)) items)"
    by (simp add: parse_thebibliography_def find_all_skip [OF assms(2)] find_items [OF assms(1)])
  moreover have "be_key (bib_of_item ([], kb)) = str_strip (fst kb)" for kb
    by (cases kb) (simp add: bib_of_item_def Let_def)
  ultimately show ?thesis by (simp add: note_of_item case_prod_beta)
qed

lemma thebibliography_round_trip_witness:
  "map (\<lambda>e. (be_key e, dict_get (be_fields e) ''note'')) (parse_thebibliography (''See '' @ block_text [(''a1'', '' Ann, 1999.''), (''b2'', [])] @ [newline])) =
    map (\<lambda>(k, b). (str_strip k, nonempty (Some (str_strip b)))) [(''a1'', '' Ann, 1999.''), (''b2'', [])]"
  by (rule thebibliography_round_trip) code_simp+

end
