(* ===== verification/Cir_Build.thy ===== *)
theory Cir_Build
  imports Cir_Pairing Cir_Authors Claim_Keys Source_Map Bibliography
begin

text \<open>
  From a LaTeX paper to its structure (\<open>parser/build.py\<close>). A structure is a dictionary until it
  is validated. The clock, the uniform identifier of a file, the JSON and BibTeX parsers, the
  nodes of a source, the conversion of numbers and the validation are parameters.
\<close>

record 'cir build_lib =
  bl_em :: string
  bl_en :: string
  bl_numbers :: number_lib
  bl_json :: "string \<Rightarrow> pyval option"
  bl_nodes :: "string \<Rightarrow> tex_node list"
  bl_bib :: "string \<Rightarrow> lib_entry list"
  bl_now :: string
  bl_uri :: "path \<Rightarrow> string"
  bl_validate :: "pydict \<Rightarrow> 'cir option"

definition clean_text :: "'c build_lib \<Rightarrow> string \<Rightarrow> string" where
  "clean_text lib s = tex_to_text (bl_em lib) (bl_en lib) s"

text \<open>What makes a build fail.\<close>

datatype build_error = KeysRefused claim_key_error | Interpreter pyexn | FileMissing | SchemaRefused

definition keys_raise :: "claim_key_error + 'a \<Rightarrow> build_error + 'a" where
  "keys_raise r = (case r of Inl e \<Rightarrow> Inl (KeysRefused e) | Inr a \<Rightarrow> Inr a)"

definition interpreter_raise :: "pyexn + 'a \<Rightarrow> build_error + 'a" where
  "interpreter_raise r = (case r of Inl e \<Rightarrow> Inl (Interpreter e) | Inr a \<Rightarrow> Inr a)"

definition strs :: "string list \<Rightarrow> pyval" where
  "strs xs = PList (map PStr xs)"

section \<open>Figures and positions\<close>

text \<open>\<open>((?:[^{}]|\{[^{}]*\})*)\}\<close> behind the opening brace.\<close>

function caption_body :: "string \<Rightarrow> (string \<times> string) option" where
  "caption_body s =
     (case s of
        [] \<Rightarrow> None
      | c # r \<Rightarrow>
          if c = CHR ''}'' then Some ([], r)
          else if c = CHR ''{'' then
            (case flat_group s of
               Some (t, r') \<Rightarrow>
                 if length r' < length s
                 then map_option (\<lambda>(b, q). (''{'' @ t @ ''}'' @ b, q)) (caption_body r') else None
             | None \<Rightarrow> None)
          else map_option (\<lambda>(b, q). (c # b, q)) (caption_body r))"
  by pat_completeness auto
termination
  by (relation "measure length") auto

declare caption_body.simps [simp del]

definition caption_match :: "string matcher" where
  "caption_match s =
     Option.bind (macro_named ''caption'' s) (\<lambda>r.
       case skip_space r of c # t \<Rightarrow> if c = CHR ''{'' then caption_body t else None | [] \<Rightarrow> None)"

definition extract_figure_caption :: "'c build_lib \<Rightarrow> file_system \<Rightarrow> path \<Rightarrow> string option" where
  "extract_figure_caption lib fs p =
     (case fs_read fs p of
        Content body \<Rightarrow>
          (case find_first caption_match body of
             None \<Rightarrow> None
           | Some t \<Rightarrow> nonempty (Some (clean_text lib (str_strip t))))
      | _ \<Rightarrow> None)"

definition is_figure_ref :: "string \<Rightarrow> bool" where
  "is_figure_ref ref \<longleftrightarrow>
     startswith ref ''figures/'' \<or> str_contains ''/figures/'' ref \<or>
     (endswith ref ''.tex'' \<and> str_contains ''figure'' (str_lower ref))"

definition figure_entry :: "'c build_lib \<Rightarrow> file_system \<Rightarrow> path \<Rightarrow> string \<Rightarrow> pydict" where
  "figure_entry lib fs tex_dir ref =
     (let rel_path = (if endswith ref ''.tex'' then ref else ref @ ''.tex'')
      in (''path'', PStr rel_path) #
         (case extract_figure_caption lib fs (path_join tex_dir rel_path) of
            Some c \<Rightarrow> [(''caption'', PStr c)] | None \<Rightarrow> []))"

definition build_claim_figures :: "'c build_lib \<Rightarrow> file_system \<Rightarrow> path \<Rightarrow> tex_environment option \<Rightarrow> pydict list" where
  "build_claim_figures lib fs tex_dir evidence =
     (case evidence of
        None \<Rightarrow> []
      | Some e \<Rightarrow> map (figure_entry lib fs tex_dir) (filter is_figure_ref (te_inputs e)))"

definition build_source_location :: "tex_environment \<Rightarrow> tex_environment option \<Rightarrow> source_map \<Rightarrow> pydict" where
  "build_source_location claim evidence m =
     (let (start_file, start_line) = locate m (int (te_offset claim));
          end_offset = int (te_end (case evidence of Some e \<Rightarrow> e | None \<Rightarrow> claim)) - 1;
          (end_file, end_line) = locate m end_offset;
          end_line = (if start_file \<noteq> end_file then start_line else end_line)
      in [(''file'', PStr start_file), (''line_start'', PInt (max 1 start_line)), (''line_end'', PInt (max start_line end_line))])"

section \<open>Claims\<close>

text \<open>\<open>^\[([^\[\]]+)\]\s*\<close>; for foundational environments the title stays on its line.\<close>

definition bracket_head :: "bool \<Rightarrow> string matcher" where
  "bracket_head one_line s =
     (case enclosed (CHR ''['') (\<lambda>c. c \<noteq> CHR ''['' \<and> c \<noteq> CHR '']'' \<and> (one_line \<longrightarrow> c \<noteq> newline)) (CHR '']'') s of
        Some (t, r) \<Rightarrow> if t = [] then None else Some (t, skip_space r)
      | None \<Rightarrow> None)"

text \<open>\<open>" ".join(s.split())\<close>.\<close>

definition one_spaced :: "string \<Rightarrow> string" where
  "one_spaced s =
     join_on '' '' (filter (\<lambda>w. w \<noteq> []) (split_on (CHR '' '') (map (\<lambda>c. if is_space c then CHR '' '' else c) s)))"

text \<open>The keys of a claim and its body: the key list may stand at the head of the body.\<close>

definition claim_keys_of :: "number_lib \<Rightarrow> tex_environment \<Rightarrow> claim_key_error + pydict option \<times> string" where
  "claim_keys_of nums env =
     rbind (parse_claim_keys nums (te_title env)) (\<lambda>keys.
       let body = str_strip (te_body env)
       in case (te_title env, bracket_head False body) of
            (None, Some (t, r)) \<Rightarrow>
              rbind (parse_claim_keys nums (Some (one_spaced t))) (\<lambda>inline_keys.
                case inline_keys of Some ks \<Rightarrow> Inr (Some ks, r) | None \<Rightarrow> Inr (keys, body))
          | _ \<Rightarrow> Inr (keys, body))"

definition label_call :: "string \<Rightarrow> string" where
  "label_call l = backslash_char # ''label{'' @ l @ ''}''"

definition without_label :: "string option \<Rightarrow> string \<Rightarrow> string" where
  "without_label label body =
     (case given label of Some l \<Rightarrow> str_strip (replace_all (label_call l) [] body) | None \<Rightarrow> body)"

text \<open>The targets of the edges of one kind from one claim, resolved.\<close>

definition targets :: "string \<Rightarrow> (string \<times> string) list \<Rightarrow> edge_marker list \<Rightarrow> string \<Rightarrow> string \<Rightarrow> string list" where
  "targets paper_id resolver edges cid kind =
     map (\<lambda>e. resolve_edge_endpoint paper_id resolver (eg_target e))
       (filter (\<lambda>e. resolve_edge_endpoint paper_id resolver (eg_source e) = cid \<and> eg_type e = kind) edges)"

definition put_edges :: "(string \<Rightarrow> string list) \<Rightarrow> pydict \<Rightarrow> pydict" where
  "put_edges ts d = foldl (\<lambda>d k. put_if (ts k \<noteq> []) k (strs (ts k)) d) d edge_kinds"

definition confidence_fields :: "(string \<times> string) list" where
  "confidence_fields =
     [(''confidence'', ''point''), (''confidence-low'', ''lower''), (''confidence-high'', ''upper''), (''rationale'', ''rationale'')]"

definition put_keys :: "pydict \<Rightarrow> pydict \<Rightarrow> pydict" where
  "put_keys keys claim =
     (let confidence = concat (map (\<lambda>(k, f). case dict_get keys k of Some v \<Rightarrow> [(f, v)] | None \<Rightarrow> []) confidence_fields);
          scope = concat (map (\<lambda>k. if truthy (dget keys k) then [(k, dget keys k)] else []) scope_keys);
          d = put_if (confidence \<noteq> []) ''confidence'' (PDict confidence) claim;
          d = put_if (truthy (dget keys ''labels'')) ''labels'' (dget keys ''labels'') d
      in put_if (scope \<noteq> []) ''scope'' (PDict scope) d)"

definition key_or :: "pydict option \<Rightarrow> string \<Rightarrow> string \<Rightarrow> pyval" where
  "key_or keys k fallback = (case Option.bind keys (\<lambda>d. dict_get d k) of Some v \<Rightarrow> v | None \<Rightarrow> PStr fallback)"

definition proof_text :: "'c build_lib \<Rightarrow> tex_environment option \<Rightarrow> string" where
  "proof_text lib evidence =
     (case evidence of
        None \<Rightarrow> []
      | Some e \<Rightarrow> tex_to_proof_text (bl_em lib) (bl_en lib) (without_label (te_label e) (str_strip (te_body e))))"

record build_context =
  bc_paper_id :: string
  bc_resolver :: "(string \<times> string) list"
  bc_edges :: "edge_marker list"
  bc_map :: source_map
  bc_dir :: path

definition context_targets :: "build_context \<Rightarrow> string \<Rightarrow> string \<Rightarrow> string list" where
  "context_targets cx cid kind = targets (bc_paper_id cx) (bc_resolver cx) (bc_edges cx) cid kind"

text \<open>The fields in front of the edges.\<close>

definition claim_head :: "'c build_lib \<Rightarrow> build_context \<Rightarrow> string \<Rightarrow> tex_environment \<Rightarrow> pydict option \<Rightarrow> string \<Rightarrow> pydict" where
  "claim_head lib cx cid env keys claim_body =
     (let statement = clean_text lib (without_label (te_label env) claim_body);
          claim = [(''id'', PStr cid), (''paper_id'', PStr (bc_paper_id cx)), (''statement'', PStr statement),
                   (''claim_type'', key_or keys ''type'' ''theoretical''), (''evidence_type'', key_or keys ''evidence'' ''argument''),
                   (''extracted_by'', PStr ''author''), (''canonical'', PBool True)]
      in case keys of Some ks \<Rightarrow> if ks = [] then claim else put_keys ks claim | None \<Rightarrow> claim)"

definition build_claim ::
  "'c build_lib \<Rightarrow> file_system \<Rightarrow> build_context \<Rightarrow> string \<Rightarrow> tex_environment \<Rightarrow> tex_environment option \<Rightarrow> claim_key_error + pydict" where
  "build_claim lib fs cx cid env evidence =
     rbind (claim_keys_of (bl_numbers lib) env) (\<lambda>(keys, claim_body).
       let claim = put_edges (context_targets cx cid) (claim_head lib cx cid env keys claim_body);
           pr = proof_text lib evidence; claim = put_if (pr \<noteq> []) ''proof'' (PStr pr) claim;
           figs = build_claim_figures lib fs (bc_dir cx) evidence;
           claim = put_if (figs \<noteq> []) ''figures'' (PList (map PDict figs)) claim
       in Inr (dict_set ''source_location'' (PDict (build_source_location env evidence (bc_map cx))) claim))"

text \<open>The identifier of the n-th claim: its label, or its marker's index, or its number.\<close>

definition claim_cid :: "(tex_environment \<times> env_marker) list \<Rightarrow> string \<Rightarrow> nat \<times> tex_environment \<Rightarrow> string" where
  "claim_cid pairs paper_id ie =
     (case ie of
        (i, env) \<Rightarrow>
          claim_id paper_id env (case dict_get pairs env of Some m \<Rightarrow> em_index m | None \<Rightarrow> str_of_nat (i + 1)))"

definition evidence_for :: "evidence_pairs \<Rightarrow> tex_environment \<Rightarrow> tex_environment option" where
  "evidence_for pairs env = map_option snd (dict_get pairs env)"

section \<open>Foundational claims\<close>

definition foundational_title_rules :: "(string \<times> string \<times> string) list" where
  "foundational_title_rules =
     [(''definition'', ''definitional'', ''definition''), (''postulate'', ''theoretical'', ''convention''),
      (''common notion'', ''theoretical'', ''convention''), (''axiom'', ''theoretical'', ''convention''),
      (''lemma'', ''theoretical'', ''argument''), (''corollary'', ''theoretical'', ''argument''),
      (''remark'', ''theoretical'', ''argument'')]"

definition classify_foundational :: "tex_environment \<Rightarrow> string option \<Rightarrow> string \<times> string" where
  "classify_foundational env title_override =
     (let title = str_lower (str_strip (case or_text title_override (te_title env) of Some t \<Rightarrow> t | None \<Rightarrow> []))
      in case find (\<lambda>(p, kinds). startswith title p) foundational_title_rules of
           Some (p, kinds) \<Rightarrow> kinds
         | None \<Rightarrow>
             if tex_env_to_sidecar_kind (te_name env) = ''scope'' then (''definitional'', ''definition'')
             else (''theoretical'', ''convention''))"

definition is_foundational :: "tex_environment \<Rightarrow> bool" where
  "is_foundational env \<longleftrightarrow> tex_env_to_sidecar_kind (te_name env) \<in> {''scope'', ''remark''} \<and> given (te_label env) \<noteq> None"

text \<open>The title in the brackets at the head of the body, when the environment has none.\<close>

definition title_and_body :: "tex_environment \<Rightarrow> string option \<times> string option \<times> string" where
  "title_and_body env =
     (let raw_body = str_strip (te_body env)
      in case (te_title env, bracket_head True raw_body) of
           (None, Some (t, r)) \<Rightarrow> (Some t, Some (str_strip t), r)
         | (title, _) \<Rightarrow> (title, title, raw_body))"

definition build_foundational :: "'c build_lib \<Rightarrow> build_context \<Rightarrow> tex_environment \<Rightarrow> pydict option" where
  "build_foundational lib cx env =
     (case title_and_body env of
        (title_peek, effective_title, raw_body) \<Rightarrow>
          let cid = colon_id (bc_paper_id cx) (case te_label env of Some l \<Rightarrow> l | None \<Rightarrow> []);
              (claim_type, evidence_type) = classify_foundational env title_peek;
              statement = clean_text lib (without_label (te_label env) raw_body);
              d = [(''id'', PStr cid), (''paper_id'', PStr (bc_paper_id cx)), (''statement'', PStr statement),
                   (''claim_type'', PStr claim_type), (''evidence_type'', PStr evidence_type),
                   (''extracted_by'', PStr ''author''), (''canonical'', PBool True)];
              d = (case nonempty effective_title of Some t \<Rightarrow> dict_set ''title'' (PStr (clean_text lib t)) d | None \<Rightarrow> d);
              d = put_edges (context_targets cx cid) d
          in if statement = [] then None
             else Some (dict_set ''source_location'' (PDict (build_source_location env None (bc_map cx))) d))"

definition build_foundational_claims :: "'c build_lib \<Rightarrow> build_context \<Rightarrow> tex_environment list \<Rightarrow> pydict list" where
  "build_foundational_claims lib cx envs = List.map_filter (build_foundational lib cx) (filter is_foundational envs)"

definition build_context_of :: "tex_environment list \<Rightarrow> 'a sidecar_scheme \<Rightarrow> string \<Rightarrow> source_map \<Rightarrow> path \<Rightarrow> build_context" where
  "build_context_of envs sc paper_id m dir =
     \<lparr>bc_paper_id = paper_id, bc_resolver = build_label_resolver envs paper_id, bc_edges = sc_edges sc, bc_map = m, bc_dir = dir\<rparr>"

definition claim_envs :: "tex_environment list \<Rightarrow> tex_environment list" where
  "claim_envs envs = filter (\<lambda>e. te_name e = ''claim'') envs"

definition build_claims ::
  "'c build_lib \<Rightarrow> file_system \<Rightarrow> tex_environment list \<Rightarrow> 'a sidecar_scheme \<Rightarrow> string \<Rightarrow> source_map \<Rightarrow> path \<Rightarrow>
   claim_key_error + pydict list" where
  "build_claims lib fs envs sc paper_id m dir =
     (let pairs = pair_envs_with_sidecar envs (sc_envs sc);
          evidence_pairs = pair_claims_with_evidence envs;
          cx = build_context_of envs sc paper_id m dir
      in rbind (rmap (\<lambda>ie. build_claim lib fs cx (claim_cid pairs paper_id ie) (snd ie) (evidence_for evidence_pairs (snd ie)))
                  (enumerate 0 (claim_envs envs)))
           (\<lambda>claims. Inr (claims @ build_foundational_claims lib cx envs)))"

section \<open>Citations and sections\<close>

definition citation_of :: "string \<Rightarrow> (string \<Rightarrow> bib_entry option) \<Rightarrow> string \<Rightarrow> pydict" where
  "citation_of paper_id by_key key =
     (let head = [(''id'', PStr (''cite-'' @ colon_id paper_id key)), (''key'', PStr key)]
      in case by_key key of
           None \<Rightarrow> head @ [(''bibtex_entry'', PStr (''% no .bib entry for '' @ key))]
         | Some e \<Rightarrow>
             head @ [(''bibtex_entry'', PStr (be_raw e))] @
             (case entry_doi e of Some v \<Rightarrow> [(''target_doi'', PStr v)] | None \<Rightarrow> []) @
             (case nonempty (entry_arxiv_id e) of Some v \<Rightarrow> [(''target_arxiv_id'', PStr v)] | None \<Rightarrow> []) @
             (case nonempty (entry_url e) of Some v \<Rightarrow> [(''target_url'', PStr v)] | None \<Rightarrow> []))"

definition build_citations :: "tex_citation list \<Rightarrow> bib_entry list \<Rightarrow> string \<Rightarrow> pydict list" where
  "build_citations cites bib_entries paper_id =
     (let by_key = map_of (rev (map (\<lambda>e. (be_key e, e)) bib_entries));
          all_keys = sort (remdups (concat (map tc_keys cites) @ map be_key bib_entries))
      in map (citation_of paper_id by_key) all_keys)"

definition level_type :: "nat \<Rightarrow> string" where
  "level_type n =
     (if n = 2 then ''subsection'' else if n = 3 then ''subsubsection'' else if n = 4 then ''paragraph'' else ''section'')"

definition build_sections :: "tex_section list \<Rightarrow> pydict list" where
  "build_sections secs =
     map (\<lambda>(i, s). [(''id'', PStr (case given (sec_label s) of Some l \<Rightarrow> l | None \<Rightarrow> ''sec:'' @ str_of_nat i)),
                    (''type'', PStr (level_type (sec_level s))), (''title'', PStr (sec_title s)), (''order'', PInt (int i))])
       (enumerate 0 secs)"

section \<open>The whole structure\<close>

definition read_or_raise :: "file_system \<Rightarrow> path \<Rightarrow> build_error + string" where
  "read_or_raise fs p =
     (case fs_read fs p of Content body \<Rightarrow> Inr body | OsError \<Rightarrow> Inl FileMissing | DecodeError \<Rightarrow> Inl (Interpreter ValueError))"

definition default_sidecar :: "file_system \<Rightarrow> path \<Rightarrow> build_error + path" where
  "default_sidecar fs tex_path =
     rbind (interpreter_raise (with_suffix ''.rrxiv.aux'' tex_path)) (\<lambda>candidate.
       if fs_is_file fs candidate then Inr candidate
       else rbind (interpreter_raise (with_suffix ''.rrvix.aux'' tex_path)) (\<lambda>legacy.
         Inr (if fs_is_file fs legacy then legacy else candidate)))"

definition default_meta :: "file_system \<Rightarrow> path \<Rightarrow> path option" where
  "default_meta fs tex_path =
     find (fs_is_file fs)
       [butlast (butlast tex_path) @ [''rrxiv-meta.json''], butlast tex_path @ [''rrxiv-meta.json'']]"

text \<open>The metadata file is read only when it is a file.\<close>

definition meta_reading :: "file_system \<Rightarrow> path option \<Rightarrow> reading option" where
  "meta_reading fs meta_path =
     (case meta_path of Some p \<Rightarrow> if fs_is_file fs p then Some (fs_read fs p) else None | None \<Rightarrow> None)"

definition bib_entries_of :: "'c build_lib \<Rightarrow> file_system \<Rightarrow> path \<Rightarrow> path option \<Rightarrow> string list \<Rightarrow> build_error + bib_entry list" where
  "bib_entries_of lib fs tex_path bib_path bib_files =
     (case bib_path of
        Some p \<Rightarrow> rbind (read_or_raise fs p) (\<lambda>t. Inr (parse_bib (bl_bib lib) t))
      | None \<Rightarrow>
          if bib_files = [] then Inr []
          else let candidate = path_join (butlast tex_path) (hd bib_files @ ''.bib'')
               in if fs_is_file fs candidate then rbind (read_or_raise fs candidate) (\<lambda>t. Inr (parse_bib (bl_bib lib) t))
                  else Inr [])"

text \<open>The entries of the block in the source join, unless their key is there already.\<close>

definition merge_entries :: "bib_entry list \<Rightarrow> bib_entry list \<Rightarrow> bib_entry list" where
  "merge_entries entries inline = foldl (\<lambda>es e. if be_key e \<in> be_key ` set es then es else es @ [e]) entries inline"

definition text_or :: "string option \<Rightarrow> string \<Rightarrow> string" where
  "text_or v fallback = (case nonempty v of Some t \<Rightarrow> t | None \<Rightarrow> fallback)"

definition cir_fields ::
  "'c build_lib \<Rightarrow> path \<Rightarrow> tex_document \<Rightarrow> (string \<times> string) list \<Rightarrow> string \<Rightarrow> string option \<Rightarrow> pydict list \<Rightarrow> pydict" where
  "cir_fields lib tex_path tex meta paper_id id_slug authors =
     (let md = tf_metadata tex;
          d = [(''rrxiv_version'', PStr (text_or (or_text (dict_get meta ''protocol'') (tm_protocol md)) ''0.1.0'')),
               (''id'', PStr paper_id),
               (''version'', PStr (text_or (or_text (dict_get meta ''version'') (tm_version md)) ''v1'')),
               (''title'', PStr (case nonempty (tf_title tex) of Some t \<Rightarrow> clean_text lib t | None \<Rightarrow> ''Untitled'')),
               (''authors'', PList (map PDict authors)),
               (''abstract'', PStr (case nonempty (tf_abstract tex) of Some t \<Rightarrow> clean_text lib t | None \<Rightarrow> [])),
               (''submitted_at'', PStr (bl_now lib)),
               (''license'', PStr (text_or (or_text (dict_get meta ''license'') (tm_license md)) ''CC-BY-4.0'')),
               (''source'', PDict [(''format'', PStr ''latex''), (''uri'', PStr (bl_uri lib tex_path))])];
          d = (case id_slug of Some s \<Rightarrow> dict_set ''id_slug'' (PStr s) d | None \<Rightarrow> d)
      in case nonempty (dict_get meta ''topics'') of
           Some ts \<Rightarrow> dict_set ''topics'' (strs (comma_parts ts)) d
         | None \<Rightarrow> put_if (tm_topics md \<noteq> []) ''topics'' (strs (tm_topics md)) d)"

text \<open>The lists that are not empty, and the annotations, which a source has none of.\<close>

definition cir_lists :: "pydict \<Rightarrow> pydict list \<Rightarrow> pydict list \<Rightarrow> pydict list \<Rightarrow> pydict" where
  "cir_lists d sections claims citations =
     (let d = put_if (sections \<noteq> []) ''sections'' (PList (map PDict sections)) d;
          d = put_if (claims \<noteq> []) ''claims'' (PList (map PDict claims)) d;
          d = put_if (citations \<noteq> []) ''citations'' (PList (map PDict citations)) d
      in dict_set ''annotations'' (PList []) d)"

definition build_cir ::
  "'c build_lib \<Rightarrow> file_system \<Rightarrow> path \<Rightarrow> path option \<Rightarrow> path option \<Rightarrow> path option \<Rightarrow> build_error + 'c" where
  "build_cir lib fs tex_path sidecar_path bib_path meta_path =
     rbind (case sidecar_path of Some p \<Rightarrow> Inr p | None \<Rightarrow> default_sidecar fs tex_path) (\<lambda>sidecar_path.
     let meta_read = meta_reading fs (case meta_path of Some p \<Rightarrow> Some p | None \<Rightarrow> default_meta fs tex_path) in
     rbind (interpreter_raise (parse_tex_file fs (bl_nodes lib) tex_path)) (\<lambda>tex.
     rbind (read_or_raise fs sidecar_path) (\<lambda>aux.
     let sc = parse_sidecar_text aux; meta = meta_dict sc in
     rbind (read_or_raise fs tex_path) (\<lambda>flat.
     let source_map = from_flat_text flat (path_name tex_path) in
     rbind (interpreter_raise (parse_meta_json_authors (bl_json lib) meta_read)) (\<lambda>meta_authors.
     rbind (bib_entries_of lib fs tex_path bib_path (tf_bib_files tex)) (\<lambda>from_file.
     let bib_entries = merge_entries from_file (parse_thebibliography flat);
         paper_id = text_or (or_text (dict_get meta ''id'') (tm_id (tf_metadata tex))) (stem (path_name tex_path)) in
     rbind (case nonempty (dict_get meta ''id_slug'') of
              Some s \<Rightarrow> Inr (Some s)
            | None \<Rightarrow> interpreter_raise (parse_meta_json_id_slug (bl_json lib) meta_read)) (\<lambda>id_slug.
     let authors = fst (build_authors (bl_em lib) (bl_en lib) (tf_authors tex) (map au_fields (sc_authors sc)) meta_authors);
         d = cir_fields lib tex_path tex meta paper_id id_slug authors in
     rbind (keys_raise (build_claims lib fs (tf_envs tex) sc paper_id source_map (butlast tex_path))) (\<lambda>claims.
     let d = cir_lists d (build_sections (tf_sections tex)) claims (build_citations (td_citations tex) bib_entries paper_id) in
     case bl_validate lib d of Some cir \<Rightarrow> Inr cir | None \<Rightarrow> Inl SchemaRefused))))))))"

section \<open>Edges and citations of the structure\<close>

lemma put_edges_get:
  "dget (put_edges ts d) k = (if k \<in> set edge_kinds \<and> ts k \<noteq> [] then strs (ts k) else dget d k)"
  by (auto simp: put_edges_def edge_kinds_def put_if_get)

lemma edge_kind_names: "k \<in> set edge_kinds \<Longrightarrow>
    k \<notin> {''id'', ''paper_id'', ''statement'', ''claim_type'', ''evidence_type'', ''extracted_by'', ''canonical'',
         ''confidence'', ''labels'', ''scope'', ''title'', ''proof'', ''figures'', ''source_location''}"
  by (auto simp: edge_kinds_def)

text \<open>What a claim says of its edges: the resolved targets of each kind, or nothing.\<close>

definition carries_edges :: "build_context \<Rightarrow> pydict \<Rightarrow> bool" where
  "carries_edges cx c \<longleftrightarrow>
     (\<exists>cid. dget c ''id'' = PStr cid \<and>
        (\<forall>k \<in> set edge_kinds. dget c k =
           (if context_targets cx cid k = [] then PNone else strs (context_targets cx cid k))))"

lemma put_keys_get: "k \<notin> {''confidence'', ''labels'', ''scope''} \<Longrightarrow> dget (put_keys ks d) k = dget d k"
  by (simp add: put_keys_def Let_def put_if_get)

lemma dget_cons: "dget ((a, v) # d) k = (if k = a then v else dget d k)" "dget [] k = PNone"
  by (simp_all add: dget_def)

lemma claim_head_get:
  "dget (claim_head lib cx cid env keys body) ''id'' = PStr cid"
  "dget (claim_head lib cx cid env keys body) ''paper_id'' = PStr (bc_paper_id cx)"
  by (auto simp: claim_head_def put_keys_get Let_def dget_cons split: option.splits)

lemma claim_head_no_edges:
  assumes "k \<in> set edge_kinds"
  shows "dget (claim_head lib cx cid env keys body) k = PNone"
proof -
  note names = edge_kind_names [OF assms]
  then have "k \<notin> {''confidence'', ''labels'', ''scope''}" by simp
  note skip = put_keys_get [OF this]
  show ?thesis
    using names by (auto simp: claim_head_def skip Let_def dget_cons split: option.splits)
qed

lemma carries_edgesI:
  assumes "dget c ''id'' = PStr cid"
    and "\<And>k. k \<in> set edge_kinds \<Longrightarrow> dget c k = dget (put_edges (context_targets cx cid) d) k \<and> dget d k = PNone"
  shows "carries_edges cx c"
  unfolding carries_edges_def using assms by (auto simp: put_edges_get)

lemma id_no_edge: "''id'' \<notin> set edge_kinds" "''paper_id'' \<notin> set edge_kinds"
  by (simp_all add: edge_kinds_def)

lemma build_claim_edges:
  assumes "build_claim lib fs cx cid env ev = Inr c"
  shows "dget c ''id'' = PStr cid" "dget c ''paper_id'' = PStr (bc_paper_id cx)" "carries_edges cx c"
proof -
  from assms obtain keys body where
    c: "c = (let claim = put_edges (context_targets cx cid) (claim_head lib cx cid env keys body);
           pr = proof_text lib ev; claim = put_if (pr \<noteq> []) ''proof'' (PStr pr) claim;
           figs = build_claim_figures lib fs (bc_dir cx) ev;
           claim = put_if (figs \<noteq> []) ''figures'' (PList (map PDict figs)) claim
       in dict_set ''source_location'' (PDict (build_source_location env ev (bc_map cx))) claim)"
    unfolding build_claim_def rbind_def Let_def by (auto split: sum.splits prod.splits)
  show cid: "dget c ''id'' = PStr cid"
    by (simp add: c Let_def put_if_get put_edges_get id_no_edge claim_head_get)
  show "dget c ''paper_id'' = PStr (bc_paper_id cx)"
    by (simp add: c Let_def put_if_get put_edges_get id_no_edge claim_head_get)
  show "carries_edges cx c"
  proof (rule carries_edgesI [OF cid])
    fix k assume k: "k \<in> set edge_kinds"
    note names = edge_kind_names [OF k]
    show "dget c k = dget (put_edges (context_targets cx cid) (claim_head lib cx cid env keys body)) k \<and>
        dget (claim_head lib cx cid env keys body) k = PNone"
      using names by (simp add: c Let_def put_if_get claim_head_no_edges [OF k])
  qed
qed

lemma build_foundational_edges:
  assumes "build_foundational lib cx env = Some c"
  shows "dget c ''paper_id'' = PStr (bc_paper_id cx)" "carries_edges cx c"
proof -
  obtain tp et rb where tb: "title_and_body env = (tp, et, rb)" by (cases "title_and_body env") auto
  obtain ct ev where cl: "classify_foundational env tp = (ct, ev)" by fastforce
  define d0 where "d0 = [(''id'', PStr (colon_id (bc_paper_id cx) (case te_label env of Some l \<Rightarrow> l | None \<Rightarrow> []))),
     (''paper_id'', PStr (bc_paper_id cx)), (''statement'', PStr (clean_text lib (without_label (te_label env) rb))),
     (''claim_type'', PStr ct), (''evidence_type'', PStr ev), (''extracted_by'', PStr ''author''), (''canonical'', PBool True)]"
  define d1 where "d1 = (case nonempty et of Some t \<Rightarrow> dict_set ''title'' (PStr (clean_text lib t)) d0 | None \<Rightarrow> d0)"
  define cid where "cid = colon_id (bc_paper_id cx) (case te_label env of Some l \<Rightarrow> l | None \<Rightarrow> [])"
  have c: "c = dict_set ''source_location'' (PDict (build_source_location env None (bc_map cx)))
      (put_edges (context_targets cx cid) d1)"
    using assms unfolding build_foundational_def tb cl Let_def prod.case d1_def d0_def cid_def by (simp split: if_splits)
  have head: "dget d1 ''id'' = PStr cid" "dget d1 ''paper_id'' = PStr (bc_paper_id cx)"
    by (auto simp: d1_def d0_def cid_def dget_cons split: option.splits)
  show "dget c ''paper_id'' = PStr (bc_paper_id cx)"
    by (simp add: c put_edges_get id_no_edge head)
  have cid: "dget c ''id'' = PStr cid"
    by (simp add: c put_edges_get id_no_edge head)
  show "carries_edges cx c"
  proof (rule carries_edgesI [OF cid])
    fix k assume k: "k \<in> set edge_kinds"
    note names = edge_kind_names [OF k]
    have "dget d1 k = PNone" using names by (auto simp: d1_def d0_def dget_cons split: option.splits)
    with names show "dget c k = dget (put_edges (context_targets cx cid) d1) k \<and> dget d1 k = PNone" by (simp add: c)
  qed
qed

lemma rmap_Inr_all: "rmap f xs = Inr ys \<Longrightarrow> y \<in> set ys \<Longrightarrow> \<exists>x \<in> set xs. f x = Inr y"
  by (induction xs arbitrary: ys) (auto simp: rbind_def split: sum.splits)

lemma rmap_images:
  assumes "rmap f xs = Inr ys" "\<And>x y. x \<in> set xs \<Longrightarrow> f x = Inr y \<Longrightarrow> g y = h x"
  shows "map g ys = map h xs"
  using assms by (induction xs arbitrary: ys) (auto simp: rbind_def split: sum.splits)

lemma build_claims_parts:
  assumes "build_claims lib fs envs sc paper_id m dir = Inr claims"
  obtains core where
    "rmap (\<lambda>ie. build_claim lib fs (build_context_of envs sc paper_id m dir)
        (claim_cid (pair_envs_with_sidecar envs (sc_envs sc)) paper_id ie) (snd ie)
        (evidence_for (pair_claims_with_evidence envs) (snd ie))) (enumerate 0 (claim_envs envs)) = Inr core"
    "claims = core @ build_foundational_claims lib (build_context_of envs sc paper_id m dir) envs"
  using assms by (auto simp: build_claims_def rbind_def Let_def split: sum.splits)

lemma map_filter_member: "y \<in> set (List.map_filter f xs) \<Longrightarrow> \<exists>x \<in> set xs. f x = Some y"
  by (auto simp: List.map_filter_def)

lemma built_claim:
  assumes "build_claims lib fs envs sc paper_id m dir = Inr claims" "c \<in> set claims"
  shows "dget c ''paper_id'' = PStr paper_id" "carries_edges (build_context_of envs sc paper_id m dir) c"
proof -
  let ?cx = "build_context_of envs sc paper_id m dir"
  obtain core where core: "rmap (\<lambda>ie. build_claim lib fs ?cx
        (claim_cid (pair_envs_with_sidecar envs (sc_envs sc)) paper_id ie) (snd ie)
        (evidence_for (pair_claims_with_evidence envs) (snd ie))) (enumerate 0 (claim_envs envs)) = Inr core"
    and all: "claims = core @ build_foundational_claims lib ?cx envs"
    by (rule build_claims_parts [OF assms(1)])
  consider ie where "build_claim lib fs ?cx (claim_cid (pair_envs_with_sidecar envs (sc_envs sc)) paper_id ie) (snd ie)
        (evidence_for (pair_claims_with_evidence envs) (snd ie)) = Inr c"
    | env where "build_foundational lib ?cx env = Some c"
  proof (cases "c \<in> set core")
    case True
    with rmap_Inr_all [OF core] that(1) show thesis by blast
  next
    case False
    with assms(2) all have "c \<in> set (build_foundational_claims lib ?cx envs)" by simp
    from map_filter_member [OF this [unfolded build_foundational_claims_def]] that(2) show thesis by blast
  qed
  moreover have "bc_paper_id ?cx = paper_id" by (simp add: build_context_of_def)
  ultimately show "dget c ''paper_id'' = PStr paper_id" "carries_edges ?cx c"
    by (cases; use build_claim_edges build_foundational_edges in metis)+
qed

lemma context_targets_of:
  "context_targets (build_context_of envs sc paper_id m dir) cid k =
    targets paper_id (build_label_resolver envs paper_id) (sc_edges sc) cid k"
  by (simp add: context_targets_def build_context_of_def)

text \<open>The keys of a claim are the only thing that can stop the building of claims.\<close>

lemma rmap_total: "\<forall>x \<in> set xs. \<exists>y. f x = Inr y \<Longrightarrow> \<exists>ys. rmap f xs = Inr ys"
  by (induction xs) (auto simp: rbind_def)

lemma build_claims_total:
  assumes "\<forall>e \<in> set (claim_envs envs). \<exists>kb. claim_keys_of (bl_numbers lib) e = Inr kb"
  shows "\<exists>claims. build_claims lib fs envs sc paper_id m dir = Inr claims"
proof -
  have *: "\<exists>c. build_claim lib fs cx cid e ev = Inr c" if "e \<in> set (claim_envs envs)" for cx cid e ev
    using assms that by (fastforce simp: build_claim_def rbind_def Let_def split: prod.split)
  have each: "\<forall>ie \<in> set (enumerate 0 (claim_envs envs)). \<exists>c. build_claim lib fs cx (cid ie) (snd ie) (ev ie) = Inr c" for cx cid ev
  proof
    fix ie assume "ie \<in> set (enumerate 0 (claim_envs envs))"
    then have "snd ie \<in> set (map snd (enumerate 0 (claim_envs envs)))" by (simp only: set_map imageI)
    with *(1) show "\<exists>c. build_claim lib fs cx (cid ie) (snd ie) (ev ie) = Inr c" by simp
  qed
  let ?pairs = "pair_envs_with_sidecar envs (sc_envs sc)"
  obtain core where "rmap (\<lambda>ie. build_claim lib fs (build_context_of envs sc paper_id m dir) (claim_cid ?pairs paper_id ie)
      (snd ie) (evidence_for (pair_claims_with_evidence envs) (snd ie))) (enumerate 0 (claim_envs envs)) = Inr core"
    using rmap_total [OF each [of "build_context_of envs sc paper_id m dir" "claim_cid ?pairs paper_id"
      "\<lambda>ie. evidence_for (pair_claims_with_evidence envs) (snd ie)"]] by blast
  then show ?thesis by (simp add: build_claims_def Let_def)
qed

lemma built_claim_ids:
  assumes "build_claims lib fs envs sc paper_id m dir = Inr claims"
  shows "map (\<lambda>c. dget c ''id'') (take (length (claim_envs envs)) claims) =
    map (\<lambda>ie. PStr (claim_cid (pair_envs_with_sidecar envs (sc_envs sc)) paper_id ie)) (enumerate 0 (claim_envs envs))"
proof -
  obtain core where core: "rmap (\<lambda>ie. build_claim lib fs (build_context_of envs sc paper_id m dir)
        (claim_cid (pair_envs_with_sidecar envs (sc_envs sc)) paper_id ie) (snd ie)
        (evidence_for (pair_claims_with_evidence envs) (snd ie))) (enumerate 0 (claim_envs envs)) = Inr core"
    and all: "claims = core @ build_foundational_claims lib (build_context_of envs sc paper_id m dir) envs"
    by (rule build_claims_parts [OF assms])
  have ids: "map (\<lambda>c. dget c ''id'') core =
      map (\<lambda>ie. PStr (claim_cid (pair_envs_with_sidecar envs (sc_envs sc)) paper_id ie)) (enumerate 0 (claim_envs envs))"
    by (rule rmap_images [OF core]) (rule build_claim_edges(1))
  then have "length core = length (claim_envs envs)" by (metis length_map length_enumerate)
  with ids all show ?thesis by simp
qed

text \<open>C6: Every built claim carries exactly its edges: for each of the four kinds the targets of the
  sidecar's edges whose source names the claim, resolved and in the sidecar's order, and no field
  when there are none. The claims of the paper's claim environments come first, in order, under the
  identifiers of their labels or markers.\<close>

theorem edges_faithful:
  assumes "build_claims lib fs envs sc paper_id m dir = Inr claims"
  shows "(\<forall>c \<in> set claims. \<exists>cid. dget c ''id'' = PStr cid \<and>
      (\<forall>k \<in> set edge_kinds. let ts = targets paper_id (build_label_resolver envs paper_id) (sc_edges sc) cid k
         in dget c k = (if ts = [] then PNone else strs ts))) \<and>
    map (\<lambda>c. dget c ''id'') (take (length (claim_envs envs)) claims) =
      map (\<lambda>ie. PStr (claim_cid (pair_envs_with_sidecar envs (sc_envs sc)) paper_id ie)) (enumerate 0 (claim_envs envs))"
proof (intro conjI ballI)
  fix c assume "c \<in> set claims"
  from built_claim(2) [OF assms this] show "\<exists>cid. dget c ''id'' = PStr cid \<and>
      (\<forall>k \<in> set edge_kinds. let ts = targets paper_id (build_label_resolver envs paper_id) (sc_edges sc) cid k
         in dget c k = (if ts = [] then PNone else strs ts))"
    by (simp only: carries_edges_def context_targets_of Let_def)
next
  show "map (\<lambda>c. dget c ''id'') (take (length (claim_envs envs)) claims) =
      map (\<lambda>ie. PStr (claim_cid (pair_envs_with_sidecar envs (sc_envs sc)) paper_id ie)) (enumerate 0 (claim_envs envs))"
    by (rule built_claim_ids [OF assms])
qed

definition plain_lib :: "pydict build_lib" where
  "plain_lib = \<lparr>bl_em = [], bl_en = [], bl_numbers = no_numbers, bl_json = (\<lambda>_. None), bl_nodes = (\<lambda>_. []),
     bl_bib = (\<lambda>_. []), bl_now = ''now'', bl_uri = path_name, bl_validate = Some\<rparr>"

definition example_sidecar :: sidecar where
  "example_sidecar = \<lparr>sc_meta = [], sc_envs = [],
     sc_edges = [\<lparr>eg_type = ''depends_on'', eg_source = ''prop:2'', eg_target = ''prop:1''\<rparr>], sc_authors = []\<rparr>"

theorem edges_faithful_witness:
  "\<exists>claims. build_claims plain_lib two_files example_envs example_sidecar ''p'' (from_flat_text ''text'' ''f'') [] = Inr claims \<and>
     map (\<lambda>c. dget c ''id'') (take 2 claims) = [PStr ''p:prop:1'', PStr ''p:prop:2''] \<and>
     dget (claims ! 1) ''depends_on'' = PList [PStr ''p:prop:1'']"
proof -
  have "list_all (\<lambda>e. te_title e = None \<and> bracket_head False (str_strip (te_body e)) = None) (claim_envs example_envs)"
    by code_simp
  then have "\<forall>e \<in> set (claim_envs example_envs). \<exists>kb. claim_keys_of (bl_numbers plain_lib) e = Inr kb"
    by (auto simp: list_all_iff claim_keys_of_def parse_claim_keys_def rbind_def Let_def)
  from build_claims_total [OF this] obtain claims where
    c: "build_claims plain_lib two_files example_envs example_sidecar ''p'' (from_flat_text ''text'' ''f'') [] = Inr claims" by blast
  have n: "length (claim_envs example_envs) = 2" by code_simp
  have ids: "map (\<lambda>ie. PStr (claim_cid (pair_envs_with_sidecar example_envs (sc_envs example_sidecar)) ''p'' ie))
      (enumerate 0 (claim_envs example_envs)) = [PStr ''p:prop:1'', PStr ''p:prop:2'']" by code_simp
  have deps: "targets ''p'' (build_label_resolver example_envs ''p'') (sc_edges example_sidecar) ''p:prop:2'' ''depends_on'' = [''p:prop:1'']"
    by code_simp
  note all = edges_faithful [OF c, unfolded n ids]
  from all have first: "map (\<lambda>c. dget c ''id'') (take 2 claims) = [PStr ''p:prop:1'', PStr ''p:prop:2'']" by blast
  then obtain x y rest where cl: "claims = x # y # rest" "dget y ''id'' = PStr ''p:prop:2''"
    by (cases claims; cases "tl claims") auto
  have "''depends_on'' \<in> set edge_kinds" by (simp add: edge_kinds_def)
  with all cl deps have "dget y ''depends_on'' = PList [PStr ''p:prop:1'']" by (auto simp: strs_def Let_def)
  with first c cl show ?thesis by simp
qed

section \<open>The whole structure is consistent\<close>

lemma citation_key: "dget (citation_of pid by_key k) ''key'' = PStr k"
  by (simp add: citation_of_def dget_cons Let_def split: option.split)

lemma citation_keys:
  "map (\<lambda>c. dget c ''key'') (build_citations cites bibs pid) =
   map PStr (sort (remdups (concat (map tc_keys cites) @ map be_key bibs)))"
  by (simp add: build_citations_def citation_key Let_def comp_def)

lemma cir_fields_get:
  "dget (cir_fields lib p tex meta pid slug authors) ''id'' = PStr pid"
  "dget (cir_fields lib p tex meta pid slug authors) ''claims'' = PNone"
  "dget (cir_fields lib p tex meta pid slug authors) ''citations'' = PNone"
  by (simp_all add: cir_fields_def Let_def dget_cons put_if_get split: option.split)

lemma rbindE: "rbind r f = Inr y \<Longrightarrow> (\<And>x. r = Inr x \<Longrightarrow> f x = Inr y \<Longrightarrow> thesis) \<Longrightarrow> thesis"
  by (auto simp: rbind_def split: sum.splits)

lemma raised_Inr: "interpreter_raise r = Inr x \<longleftrightarrow> r = Inr x" "keys_raise q = Inr z \<longleftrightarrow> q = Inr z"
  by (auto simp: interpreter_raise_def keys_raise_def split: sum.splits)

lemma validated: "(case v of None \<Rightarrow> Inl e | Some c \<Rightarrow> Inr c) = Inr cir \<longleftrightarrow> v = Some cir"
  by (simp split: option.split)

lemma merge_keys: "be_key ` set (merge_entries entries inline) = be_key ` set entries \<union> be_key ` set inline"
proof -
  have "be_key ` set (foldl (\<lambda>es e. if be_key e \<in> be_key ` set es then es else es @ [e]) entries inline) =
      be_key ` set entries \<union> be_key ` set inline"
    by (induction inline arbitrary: entries) auto
  then show ?thesis by (simp add: merge_entries_def)
qed

lemma read_or_raise_Inr: "read_or_raise fs p = Inr body \<longleftrightarrow> fs_read fs p = Content body"
  by (simp add: read_or_raise_def split: reading.split)

text \<open>
  C5: A structure that is built is the one its files say: with the parsed document, the sidecar,
  the source and the bibliography the build reads, the structure handed to the validation has the
  paper's identifier (the sidecar's, else the source's, else the file's name); its claims begin with
  one per claim environment, in order and under the identifiers of their labels or markers; every
  claim belongs to that paper and carries exactly the sidecar's edges whose source is the claim;
  and its citations are the keys cited in the source or listed in the bibliography file or in the
  source's own block, each once and sorted.
\<close>

theorem cir_consistent:
  assumes "build_cir lib fs tex_path sp bp mp = Inr cir"
  shows "\<exists>tex aux_path aux flat entries d claims cites ks.
    parse_tex_file fs (bl_nodes lib) tex_path = Inr tex \<and>
    (case sp of Some p \<Rightarrow> Inr p | None \<Rightarrow> default_sidecar fs tex_path) = Inr aux_path \<and>
    fs_read fs aux_path = Content aux \<and> fs_read fs tex_path = Content flat \<and>
    bib_entries_of lib fs tex_path bp (tf_bib_files tex) = Inr entries \<and>
    bl_validate lib d = Some cir \<and>
    (let sc = parse_sidecar_text aux;
         pid = text_or (or_text (dict_get (meta_dict sc) ''id'') (tm_id (tf_metadata tex))) (stem (path_name tex_path));
         cx = build_context_of (tf_envs tex) sc pid (from_flat_text flat (path_name tex_path)) (butlast tex_path)
     in dget d ''id'' = PStr pid \<and>
        dget d ''claims'' = (if claims = [] then PNone else PList (map PDict claims)) \<and>
        map (\<lambda>c. dget c ''id'') (take (length (claim_envs (tf_envs tex))) claims) =
          map (\<lambda>ie. PStr (claim_cid (pair_envs_with_sidecar (tf_envs tex) (sc_envs sc)) pid ie)) (enumerate 0 (claim_envs (tf_envs tex))) \<and>
        (\<forall>c \<in> set claims. dget c ''paper_id'' = PStr pid \<and> carries_edges cx c)) \<and>
    dget d ''citations'' = (if cites = [] then PNone else PList (map PDict cites)) \<and>
    map (\<lambda>c. dget c ''key'') cites = map PStr ks \<and> sorted ks \<and> distinct ks \<and>
    set ks = \<Union> (set ` tc_keys ` set (td_citations tex)) \<union> be_key ` set entries \<union> be_key ` set (parse_thebibliography flat)"
proof -
  obtain tex aux_path aux flat entries pid m d0 secs claims where
    tex: "parse_tex_file fs (bl_nodes lib) tex_path = Inr tex"
    and path: "(case sp of Some p \<Rightarrow> Inr p | None \<Rightarrow> default_sidecar fs tex_path) = Inr aux_path"
    and reads: "fs_read fs aux_path = Content aux" "fs_read fs tex_path = Content flat"
    and entries: "bib_entries_of lib fs tex_path bp (tf_bib_files tex) = Inr entries"
    and pid: "pid = text_or (or_text (dict_get (meta_dict (parse_sidecar_text aux)) ''id'') (tm_id (tf_metadata tex)))
        (stem (path_name tex_path))"
    and m: "m = from_flat_text flat (path_name tex_path)"
    and claims: "build_claims lib fs (tf_envs tex) (parse_sidecar_text aux) pid m (butlast tex_path) = Inr claims"
    and valid: "bl_validate lib (cir_lists d0 secs claims
        (build_citations (td_citations tex) (merge_entries entries (parse_thebibliography flat)) pid)) = Some cir"
    and d0: "\<exists>tx meta slug authors. d0 = cir_fields lib tex_path tx meta pid slug authors"
    using assms unfolding build_cir_def Let_def
    apply (elim rbindE)
    apply (simp only: raised_Inr validated read_or_raise_Inr)
    apply (rule that, assumption+, rule refl, rule refl, assumption, assumption, blast)
    done
  let ?cites = "build_citations (td_citations tex) (merge_entries entries (parse_thebibliography flat)) pid"
  let ?d = "cir_lists d0 secs claims ?cites"
  let ?ks = "sort (remdups (concat (map tc_keys (td_citations tex)) @ map be_key (merge_entries entries (parse_thebibliography flat))))"
  have d: "dget ?d ''id'' = PStr pid" "dget ?d ''claims'' = (if claims = [] then PNone else PList (map PDict claims))"
    "dget ?d ''citations'' = (if ?cites = [] then PNone else PList (map PDict ?cites))"
    using d0 cir_fields_get by (auto simp: cir_lists_def Let_def put_if_get)
  have keys: "set ?ks = \<Union> (set ` tc_keys ` set (td_citations tex)) \<union> be_key ` set entries \<union> be_key ` set (parse_thebibliography flat)"
    using merge_keys [of entries "parse_thebibliography flat"] by auto
  show ?thesis
    using tex path reads entries valid d built_claim [OF claims] built_claim_ids [OF claims] keys
    by (intro exI [of _ tex] exI [of _ aux_path] exI [of _ aux] exI [of _ flat] exI [of _ entries] exI [of _ ?d]
        exI [of _ claims] exI [of _ ?cites] exI [of _ ?ks])
      (simp add: Let_def pid m citation_keys)
qed

text \<open>A paper of two claims, the second resting on the first, with two citations.\<close>

definition braced :: "string \<Rightarrow> tex_node option list" where
  "braced s = [Some (GroupNode (''{'', ''}'') [CharsNode s s] (''{'' @ s @ ''}''))]"

definition two_claims :: "tex_node list" where
  "two_claims =
     [EnvNode ''claim'' [] [MacroNode ''label'' (braced ''prop:1'') 0 (label_call ''prop:1''), CharsNode ''One.'' ''One.''] 0 ''0123456789'',
      EnvNode ''claim'' [] [MacroNode ''label'' (braced ''prop:2'') 0 (label_call ''prop:2''), CharsNode ''Two.'' ''Two.''] 12 ''0123456789'',
      MacroNode ''cite'' (braced ''knuth, abel'') 24 (backslash_char # ''cite{knuth, abel}'')]"

definition two_claims_lib :: "pydict build_lib" where
  "two_claims_lib = plain_lib\<lparr>bl_nodes := (\<lambda>_. two_claims)\<rparr>"

definition two_claims_sidecar :: string where
  "two_claims_sidecar = ''RRXIV:meta:id:p'' @ newline # ''RRXIV:edge:depends_on:prop:2|prop:1''"

definition two_claims_paper :: file_system where
  "two_claims_paper =
     \<lparr>fs_read = (\<lambda>p. if p = [''main.rrxiv.aux''] then Content two_claims_sidecar else Content ''One. Two.''),
      fs_is_file = (\<lambda>p. p = [''main.rrxiv.aux''])\<rparr>"

definition two_claims_document :: tex_document where
  "two_claims_document = (case parse_tex (\<lambda>_. two_claims) [] of Inr t \<Rightarrow> t | Inl _ \<Rightarrow> undefined)"

definition two_claims_aux :: sidecar_run where
  "two_claims_aux = parse_sidecar_text two_claims_sidecar"

lemma two_claims_parts:
  "parse_tex_file two_claims_paper (\<lambda>_. two_claims) [''main.tex''] = Inr two_claims_document"
  "default_sidecar two_claims_paper [''main.tex''] = Inr [''main.rrxiv.aux'']"
  "default_meta two_claims_paper [''main.tex''] = None"
  "parse_thebibliography ''One. Two.'' = []"
  "tf_bib_files two_claims_document = []"
  "meta_dict two_claims_aux = [(''id'', ''p'')]"
  "length (claim_envs (tf_envs two_claims_document)) = 2"
  "list_all (\<lambda>e. te_title e = None \<and> bracket_head False (str_strip (te_body e)) = None) (claim_envs (tf_envs two_claims_document))"
  "map (\<lambda>ie. PStr (claim_cid (pair_envs_with_sidecar (tf_envs two_claims_document) (sc_envs two_claims_aux)) ''p'' ie))
      (enumerate 0 (claim_envs (tf_envs two_claims_document))) = [PStr ''p:prop:1'', PStr ''p:prop:2'']"
  "targets ''p'' (build_label_resolver (tf_envs two_claims_document) ''p'') (sc_edges two_claims_aux) ''p:prop:2'' ''depends_on'' = [''p:prop:1'']"
  "map tc_keys (td_citations two_claims_document) = [[''knuth'', ''abel'']]"
  by code_simp+

lemma two_claims_reads:
  "fs_read two_claims_paper [''main.rrxiv.aux''] = Content two_claims_sidecar"
  "fs_read two_claims_paper [''main.tex''] = Content ''One. Two.''"
  by (simp_all add: two_claims_paper_def)

lemma two_claims_lib_fields:
  "bl_nodes two_claims_lib = (\<lambda>_. two_claims)" "bl_validate two_claims_lib = Some" "bl_numbers two_claims_lib = no_numbers"
  by (simp_all add: two_claims_lib_def plain_lib_def)

lemma two_claims_build_claims:
  "\<exists>claims. build_claims two_claims_lib fs (tf_envs two_claims_document) sc pid m dir = Inr claims"
proof (rule build_claims_total, rule ballI)
  fix e assume "e \<in> set (claim_envs (tf_envs two_claims_document))"
  with two_claims_parts(8) have "te_title e = None \<and> bracket_head False (str_strip (te_body e)) = None"
    by (simp add: list_all_iff)
  then show "\<exists>kb. claim_keys_of (bl_numbers two_claims_lib) e = Inr kb"
    by (simp add: claim_keys_of_def parse_claim_keys_def rbind_def Let_def)
qed

lemma two_claims_built: "\<exists>cir. build_cir two_claims_lib two_claims_paper [''main.tex''] None None None = Inr cir"
proof -
  have "meta_reading two_claims_paper None = None" by (simp add: meta_reading_def)
  moreover have "read_or_raise two_claims_paper [''main.rrxiv.aux''] = Inr two_claims_sidecar"
    "read_or_raise two_claims_paper [''main.tex''] = Inr ''One. Two.''"
    by (simp_all add: read_or_raise_def two_claims_reads)
  moreover obtain claims where
    "build_claims two_claims_lib two_claims_paper (tf_envs two_claims_document) two_claims_aux ''p''
      (from_flat_text ''One. Two.'' (path_name [''main.tex''])) (butlast [''main.tex'']) = Inr claims"
    using two_claims_build_claims by blast
  ultimately show ?thesis
    unfolding build_cir_def option.case two_claims_parts two_claims_lib_fields
    by (simp add: interpreter_raise_def keys_raise_def Let_def two_claims_parts two_claims_aux_def [symmetric] bib_entries_of_def
        parse_meta_json_authors_def parse_meta_json_id_slug_def text_or_def or_text_def nonempty_def)
qed

theorem cir_consistent_witness:
  "\<exists>cir claims cites. build_cir two_claims_lib two_claims_paper [''main.tex''] None None None = Inr cir \<and>
     dget cir ''id'' = PStr ''p'' \<and> dget cir ''claims'' = PList (map PDict claims) \<and>
     map (\<lambda>c. dget c ''id'') (take 2 claims) = [PStr ''p:prop:1'', PStr ''p:prop:2''] \<and>
     dget (claims ! 1) ''depends_on'' = PList [PStr ''p:prop:1''] \<and>
     dget cir ''citations'' = PList (map PDict cites) \<and> map (\<lambda>c. dget c ''key'') cites = [PStr ''abel'', PStr ''knuth'']"
proof -
  from two_claims_built obtain cir where
    c: "build_cir two_claims_lib two_claims_paper [''main.tex''] None None None = Inr cir" by blast
  have pid: "text_or (or_text (Some ''p'') i) s = ''p''" for i s
    by (simp add: text_or_def or_text_def nonempty_def)
  have "tc_keys ` set (td_citations two_claims_document) = set (map tc_keys (td_citations two_claims_document))" by simp
  then have cited: "tc_keys ` set (td_citations two_claims_document) = {[''knuth'', ''abel'']}"
    unfolding two_claims_parts by simp
  from cir_consistent [OF c, unfolded two_claims_lib_fields two_claims_parts option.case] obtain claims cites ks where
    top: "dget cir ''id'' = PStr ''p''" "dget cir ''claims'' = (if claims = [] then PNone else PList (map PDict claims))"
      "dget cir ''citations'' = (if cites = [] then PNone else PList (map PDict cites))"
    and ids: "map (\<lambda>c. dget c ''id'') (take 2 claims) = [PStr ''p:prop:1'', PStr ''p:prop:2'']"
    and edges: "\<forall>c \<in> set claims. carries_edges (build_context_of (tf_envs two_claims_document) two_claims_aux ''p''
        (from_flat_text ''One. Two.'' (path_name [''main.tex''])) (butlast [''main.tex''])) c"
    and keys: "map (\<lambda>c. dget c ''key'') cites = map PStr ks" "sorted ks" "distinct ks" "set ks = {''knuth'', ''abel''}"
    by (auto simp: Let_def two_claims_reads two_claims_parts two_claims_aux_def [symmetric] pid bib_entries_of_def cited
        simp del: UN_simps SUP_image)
  have "sorted [''abel'', ''knuth'']" by code_simp
  with keys(2-4) have ks: "ks = [''abel'', ''knuth'']" by (intro sorted_distinct_set_unique) auto
  from ids obtain x y rest where cl: "claims = x # y # rest" "dget y ''id'' = PStr ''p:prop:2''"
    by (cases claims; cases "tl claims") auto
  have "''depends_on'' \<in> set edge_kinds" by (simp add: edge_kinds_def)
  with edges cl two_claims_parts(10) have "dget y ''depends_on'' = PList [PStr ''p:prop:1'']"
    by (auto simp: strs_def carries_edges_def context_targets_of)
  moreover from keys(1) ks have "cites \<noteq> []" by auto
  ultimately show ?thesis using c top ids keys(1) ks cl by (intro exI [of _ cir] exI [of _ claims] exI [of _ cites]) auto
qed

end
