(* ===== verification/Client_Retry.thy ===== *)
theory Client_Retry
  imports Py_Filter
begin

text \<open>
  The HTTP client's treatment of refused requests: the retry policy and the budget
  (\<open>client/retry.py\<close>), the errors by status (\<open>client/errors.py\<close>) and the request loop of
  the clients (\<open>_json\<close> of \<open>client/client.py\<close> and \<open>client/async_client.py\<close>). Seconds are
  rationals; the rounding of floating-point numbers is not modelled. The server's responses and
  the draws of the jitter are parameters, numbered by the request.
\<close>

record retry_policy =
  max_retries :: int
  backoff_initial_seconds :: rat
  backoff_max_seconds :: rat
  total_timeout_seconds :: rat
  retry_on_5xx :: bool
  jitter :: rat

definition default_retry_policy :: retry_policy where
  "default_retry_policy =
     \<lparr>max_retries = 3, backoff_initial_seconds = 1, backoff_max_seconds = 30, total_timeout_seconds = 30,
      retry_on_5xx = False, jitter = 1 / 4\<rparr>"

definition no_retry_policy :: retry_policy where
  "no_retry_policy = default_retry_policy\<lparr>max_retries := 0\<rparr>"

text \<open>The draw \<open>r\<close> is uniform between \<open>1 - jitter\<close> and \<open>1 + jitter\<close>.\<close>

definition compute_wait :: "nat \<Rightarrow> retry_policy \<Rightarrow> rat option \<Rightarrow> rat \<Rightarrow> rat" where
  "compute_wait attempt policy retry_after_seconds r =
     (case retry_after_seconds of
        Some s \<Rightarrow>
          if 0 < s then min s (backoff_max_seconds policy)
          else (let base = min (backoff_initial_seconds policy * 2 ^ (attempt - 1)) (backoff_max_seconds policy)
                in if 0 < jitter policy then max 0 (base * r) else base)
      | None \<Rightarrow>
          (let base = min (backoff_initial_seconds policy * 2 ^ (attempt - 1)) (backoff_max_seconds policy)
           in if 0 < jitter policy then max 0 (base * r) else base))"

definition is_retryable_status :: "int \<Rightarrow> retry_policy \<Rightarrow> bool" where
  "is_retryable_status status_code policy =
     (status_code = 429 \<or> (500 \<le> status_code \<and> status_code < 600 \<and> retry_on_5xx policy))"

text \<open>The conversion of a header to a number is a parameter.\<close>

definition parse_retry_after :: "(string \<Rightarrow> rat option) \<Rightarrow> string option \<Rightarrow> rat option" where
  "parse_retry_after to_float v =
     (case v of
        None \<Rightarrow> None
      | Some t \<Rightarrow> if t = [] then None else map_option (max 0) (to_float t))"

record budget =
  spent_seconds :: rat
  attempts :: nat

definition new_budget :: budget where
  "new_budget = \<lparr>spent_seconds = 0, attempts = 0\<rparr>"

definition spend :: "rat \<Rightarrow> budget \<Rightarrow> budget" where
  "spend seconds b = b\<lparr>spent_seconds := spent_seconds b + seconds, attempts := attempts b + 1\<rparr>"

definition can_retry :: "retry_policy \<Rightarrow> budget \<Rightarrow> rat \<Rightarrow> bool" where
  "can_retry policy b additional_wait =
     (if max_retries policy \<le> int (attempts b) then False
      else spent_seconds b + additional_wait \<le> total_timeout_seconds policy)"

section \<open>Errors by status\<close>

datatype error_class =
    RrxivError | BadRequest | Unauthorized | Forbidden | NotFound | IdempotencyKeyConflict
  | Validation | RateLimited "int option" | ServerError

record client_error =
  ce_class :: error_class
  ce_message :: string
  ce_status :: int
  ce_problem :: pydict

text \<open>A response: the parsed body when it is JSON. A problem document is expected to be an object.\<close>

record response =
  rs_status :: int
  rs_content_type :: string
  rs_json :: "pyval option"
  rs_reason :: string
  rs_retry_after :: "string option"

definition problem_of :: "response \<Rightarrow> pyval" where
  "problem_of rs =
     (if startswith (rs_content_type rs) ''application/problem+json''
      then (case rs_json rs of Some v \<Rightarrow> v | None \<Rightarrow> PDict []) else PDict [])"

text \<open>
  \<open>str.isdigit\<close> also accepts the superscript digits of this range of characters, which
  \<open>int\<close> refuses.
\<close>

definition retry_after_of :: "response \<Rightarrow> pyexn + int option" where
  "retry_after_of rs =
     (case rs_retry_after rs of
        None \<Rightarrow> Inr None
      | Some t \<Rightarrow>
          if t = [] \<or> \<not> list_all (\<lambda>c. is_digit c \<or> of_char c \<in> {178, 179, 185 :: nat}) t then Inr None
          else if list_all is_digit t then Inr (Some (int (nat_of_str t)))
          else Inl ValueError)"

definition error_class_of :: "response \<Rightarrow> pyexn + error_class" where
  "error_class_of rs =
     (let c = rs_status rs
      in if c = 400 then Inr BadRequest else if c = 401 then Inr Unauthorized else if c = 403 then Inr Forbidden
         else if c = 404 then Inr NotFound else if c = 409 then Inr IdempotencyKeyConflict else if c = 422 then Inr Validation
         else if c = 429 then rbind (retry_after_of rs) (\<lambda>r. Inr (RateLimited r))
         else if 500 \<le> c \<and> c < 600 then Inr ServerError else Inr RrxivError)"

definition raise_for_status :: "response \<Rightarrow> pyexn + client_error option" where
  "raise_for_status rs =
     (if 200 \<le> rs_status rs \<and> rs_status rs < 300 then Inr None
      else let problem = problem_of rs
           in rbind (py_get problem ''detail'') (\<lambda>d.
              rbind (py_get problem ''title'') (\<lambda>title.
              rbind (error_class_of rs) (\<lambda>cls.
                let reason = (if rs_reason rs = [] then PStr ''request failed'' else PStr (rs_reason rs));
                    detail = py_str (py_or d reason)
                in Inr (Some \<lparr>ce_class = cls,
                              ce_message = (if truthy title then py_str title @ '': '' @ detail else detail),
                              ce_status = rs_status rs,
                              ce_problem = (case problem of PDict p \<Rightarrow> p | _ \<Rightarrow> [])\<rparr>)))))"

section \<open>The request loop\<close>

text \<open>How a call ends: with a body, with an error of the hierarchy, or with an exception.\<close>

datatype outcome = Body "pyval option" | Failed client_error | Raised pyexn

definition body_of :: "response \<Rightarrow> outcome" where
  "body_of rs =
     (if startswith (rs_content_type rs) ''application/json''
      then (case rs_json rs of Some v \<Rightarrow> Body (Some v) | None \<Rightarrow> Raised ValueError)
      else Body None)"

definition failure_of :: "response \<Rightarrow> outcome" where
  "failure_of rs =
     (case raise_for_status rs of Inl e \<Rightarrow> Raised e | Inr (Some e) \<Rightarrow> Failed e | Inr None \<Rightarrow> Body None)"

definition is_success :: "response \<Rightarrow> bool" where
  "is_success rs \<longleftrightarrow> 200 \<le> rs_status rs \<and> rs_status rs < 300"

text \<open>
  The loop returns what the call ends with and the waits between its requests. The n-th request
  is answered by \<open>respond n\<close>; the loop ends because every further round spends an attempt.
\<close>

function request_loop ::
  "retry_policy \<Rightarrow> (string \<Rightarrow> rat option) \<Rightarrow> (nat \<Rightarrow> response) \<Rightarrow> (nat \<Rightarrow> rat) \<Rightarrow> budget \<Rightarrow> outcome \<times> rat list" where
  "request_loop policy to_float respond draw b =
     (let rs = respond (attempts b)
      in if is_success rs then (body_of rs, [])
         else if \<not> is_retryable_status (rs_status rs) policy then (failure_of rs, [])
         else
           let retry_after = parse_retry_after to_float (rs_retry_after rs);
               wait = compute_wait (attempts b + 1) policy retry_after (draw (attempts b))
           in if \<not> can_retry policy b wait then (failure_of rs, [])
              else case request_loop policy to_float respond draw (spend wait b) of
                  (out, waits) \<Rightarrow> (out, wait # waits))"
  by pat_completeness auto
termination
  by (relation "measure (\<lambda>(policy, to_float, respond, draw, b). nat (max_retries policy - int (attempts b)))")
     (auto simp: can_retry_def spend_def split: if_splits)

declare request_loop.simps [simp del]

definition json_call ::
  "retry_policy \<Rightarrow> (string \<Rightarrow> rat option) \<Rightarrow> (nat \<Rightarrow> response) \<Rightarrow> (nat \<Rightarrow> rat) \<Rightarrow> outcome \<times> rat list" where
  "json_call policy to_float respond draw = request_loop policy to_float respond draw new_budget"

definition drop_nulls :: "pydict \<Rightarrow> pydict" where
  "drop_nulls d = filter (\<lambda>(k, v). v \<noteq> PNone) d"

section \<open>The budget holds\<close>

lemma loop_within_budget:
  assumes "request_loop policy to_float respond draw b = (out, waits)"
  shows "(waits \<noteq> [] \<longrightarrow> int (attempts b + length waits) \<le> max_retries policy \<and>
            spent_seconds b + sum_list waits \<le> total_timeout_seconds policy) \<and>
    (\<forall>i < length waits. is_retryable_status (rs_status (respond (attempts b + i))) policy)"
  using assms
proof (induction policy to_float respond draw b arbitrary: waits rule: request_loop.induct)
  case (1 policy to_float respond draw b)
  let ?rs = "respond (attempts b)"
  let ?wait = "compute_wait (attempts b + 1) policy (parse_retry_after to_float (rs_retry_after ?rs)) (draw (attempts b))"
  show ?case
  proof (cases "is_success ?rs \<or> \<not> is_retryable_status (rs_status ?rs) policy \<or> \<not> can_retry policy b ?wait")
    case True
    then have "waits = []"
      using 1(2) by (auto simp: request_loop.simps [of policy to_float respond draw b] Let_def split: if_splits)
    then show ?thesis by simp
  next
    case False
    then obtain rest where rest: "request_loop policy to_float respond draw (spend ?wait b) = (out, rest)" "waits = ?wait # rest"
      using 1(2) by (auto simp: request_loop.simps [of policy to_float respond draw b] Let_def split: prod.splits)
    from False have ok: "is_retryable_status (rs_status ?rs) policy" "can_retry policy b ?wait" "\<not> is_success ?rs" by auto
    note IH = 1(1) [OF refl ok(3) _ refl refl _ rest(1)]
    have more: "(rest \<noteq> [] \<longrightarrow> int (attempts b + 1 + length rest) \<le> max_retries policy \<and>
            spent_seconds b + ?wait + sum_list rest \<le> total_timeout_seconds policy) \<and>
      (\<forall>i < length rest. is_retryable_status (rs_status (respond (attempts b + 1 + i))) policy)"
      using IH ok by (simp add: spend_def)
    have now: "int (attempts b) < max_retries policy" "spent_seconds b + ?wait \<le> total_timeout_seconds policy"
      using ok(2) by (auto simp: can_retry_def split: if_splits)
    have "is_retryable_status (rs_status (respond (attempts b + i))) policy" if "i < length waits" for i
      using that more ok(1) rest(2) by (cases i) auto
    moreover have "int (attempts b + length waits) \<le> max_retries policy \<and>
        spent_seconds b + sum_list waits \<le> total_timeout_seconds policy"
      using more now rest(2) by (cases "rest = []") (auto simp: add.assoc)
    ultimately show ?thesis by blast
  qed
qed

lemma loop_last:
  "request_loop policy to_float respond draw b = (out, waits) \<Longrightarrow>
   out = (if is_success (respond (attempts b + length waits)) then body_of (respond (attempts b + length waits))
          else failure_of (respond (attempts b + length waits)))"
proof (induction policy to_float respond draw b arbitrary: waits rule: request_loop.induct)
  case (1 policy to_float respond draw b)
  let ?rs = "respond (attempts b)"
  let ?wait = "compute_wait (attempts b + 1) policy (parse_retry_after to_float (rs_retry_after ?rs)) (draw (attempts b))"
  show ?case
  proof (cases "is_success ?rs \<or> \<not> is_retryable_status (rs_status ?rs) policy \<or> \<not> can_retry policy b ?wait")
    case True
    then show ?thesis
      using 1(2) by (auto simp: request_loop.simps [of policy to_float respond draw b] Let_def split: if_splits)
  next
    case False
    then obtain rest where rest: "request_loop policy to_float respond draw (spend ?wait b) = (out, rest)" "waits = ?wait # rest"
      using 1(2) by (auto simp: request_loop.simps [of policy to_float respond draw b] Let_def split: prod.splits)
    from False have ok: "is_retryable_status (rs_status ?rs) policy" "can_retry policy b ?wait" "\<not> is_success ?rs" by auto
    from 1(1) [OF refl ok(3) _ refl refl _ rest(1)] ok rest(2) show ?thesis by (simp add: spend_def)
  qed
qed

text \<open>C40: A call of the client never hangs, whatever the server answers: it makes at most the allowed
  number of retries, waits no longer than the total allowed, only repeats requests the policy
  calls repeatable, and ends with what the last response says.\<close>

theorem retries_bounded:
  assumes "json_call policy to_float respond draw = (out, waits)"
  shows "int (length waits) \<le> max 0 (max_retries policy) \<and>
    (waits = [] \<or> sum_list waits \<le> total_timeout_seconds policy) \<and>
    (\<forall>i < length waits. is_retryable_status (rs_status (respond i)) policy) \<and>
    out = (if is_success (respond (length waits)) then body_of (respond (length waits)) else failure_of (respond (length waits)))"
proof -
  note run = assms [unfolded json_call_def]
  show ?thesis
    using loop_within_budget [OF run] loop_last [OF run] by (cases "waits = []") (auto simp: new_budget_def)
qed

definition busy_twice :: "nat \<Rightarrow> response" where
  "busy_twice n =
     (if n < 2 then \<lparr>rs_status = 429, rs_content_type = [], rs_json = None, rs_reason = [], rs_retry_after = None\<rparr>
      else \<lparr>rs_status = 200, rs_content_type = ''application/json'', rs_json = Some (PInt 1), rs_reason = [], rs_retry_after = None\<rparr>)"

theorem retries_bounded_witness:
  "json_call default_retry_policy (\<lambda>_. None) busy_twice (\<lambda>_. 1) = (Body (Some (PInt 1)), [1, 2]) \<and>
   sum_list [1, 2 :: rat] \<le> total_timeout_seconds default_retry_policy"
proof -
  have run: "json_call default_retry_policy (\<lambda>_. None) busy_twice (\<lambda>_. 1) = (Body (Some (PInt 1)), [1, 2])"
    by (simp add: json_call_def request_loop.simps busy_twice_def is_success_def is_retryable_status_def body_of_def
        can_retry_def spend_def new_budget_def compute_wait_def parse_retry_after_def default_retry_policy_def startswith_def Let_def)
  from retries_bounded [OF run] run show ?thesis by simp
qed

text \<open>One wait may be longer than the cap on a single interval: the jitter is applied behind the cap.\<close>

lemma wait_above_cap:
  "backoff_max_seconds default_retry_policy < compute_wait 6 default_retry_policy None (5 / 4)"
  by (simp add: default_retry_policy_def compute_wait_def)

end
