(* ===== verification/Client_Agent.thy ===== *)
theory Client_Agent
  imports Signature_Middleware
begin

text \<open>
  The client's half of agent authentication: the signed payloads and bodies of enrolment and key
  rotation (\<open>auth/agent.py\<close>) and the signing of requests (\<open>client/signatures.py\<close>). Signing is a
  parameter: \<open>sign\<close> gives the Ed25519 signature of a text under a private key, and \<open>sign_request\<close>
  the two headers the http-message-signatures library adds for the values of the components it covers.
\<close>

section \<open>Enrolment\<close>

definition json_bytes :: "pydict \<Rightarrow> bytes" where
  "json_bytes d = json_dumps (PDict d)"

definition build_enrollment_payload :: "string \<Rightarrow> string \<Rightarrow> int \<Rightarrow> pyexn + bytes" where
  "build_enrollment_payload hdl public_key_b64 issued_at =
     (if \<not> startswith hdl ''@'' then Inl ValueError
      else Inr (json_bytes
        [(''handle'', PStr hdl), (''public_key_b64'', PStr public_key_b64), (''issued_at'', PInt issued_at)]))"

definition sign_enrollment_payload :: "('p \<Rightarrow> string \<Rightarrow> bytes) \<Rightarrow> bytes \<Rightarrow> 'p \<Rightarrow> string" where
  "sign_enrollment_payload sign payload private_key = std_b64_encode (sign private_key (std_b64_encode payload))"

definition build_rotation_payload :: "string \<Rightarrow> string \<Rightarrow> int \<Rightarrow> pyexn + bytes" where
  "build_rotation_payload hdl new_public_key_b64 issued_at =
     (if \<not> startswith hdl ''@'' then Inl ValueError
      else Inr (json_bytes
        [(''handle'', PStr hdl), (''issued_at'', PInt issued_at), (''new_public_key_b64'', PStr new_public_key_b64)]))"

text \<open>A request for enrolment, as the documentation of the two builders has it made.\<close>

definition enrollment_request ::
  "('p \<Rightarrow> string \<Rightarrow> bytes) \<Rightarrow> ('p \<Rightarrow> bytes) \<Rightarrow> 'p \<Rightarrow> string \<Rightarrow> string option \<Rightarrow> int \<Rightarrow> pyexn + enroll_body" where
  "enrollment_request sign raw_public private_key hdl contact issued_at =
     (let pub = std_b64_encode (raw_public private_key)
      in rbind (build_enrollment_payload hdl pub issued_at) (\<lambda>payload.
           Inr \<lparr>en_handle = hdl, en_public_key_b64 = pub, en_payload_b64 = std_b64_encode payload,
                en_signature_b64 = sign_enrollment_payload sign payload private_key, en_contact = contact\<rparr>))"

text \<open>The body \<open>rotate_agent_key\<close> sends, signed with the new key.\<close>

definition rotation_request ::
  "('p \<Rightarrow> string \<Rightarrow> bytes) \<Rightarrow> ('p \<Rightarrow> bytes) \<Rightarrow> 'p \<Rightarrow> string \<Rightarrow> int \<Rightarrow> pyexn + rotate_body" where
  "rotation_request sign raw_public new_private_key hdl issued_at =
     (let pub = std_b64_encode (raw_public new_private_key)
      in rbind (build_rotation_payload hdl pub issued_at) (\<lambda>payload.
           let payload_b64 = std_b64_encode payload
           in Inr \<lparr>ro_new_public_key_b64 = pub, ro_payload_b64 = payload_b64,
                   ro_new_signature_b64 = std_b64_encode (sign new_private_key payload_b64)\<rparr>))"

section \<open>Standard base64, there and back\<close>

definition std_char :: "char \<Rightarrow> char" where
  "std_char c = (if c = CHR ''-'' then CHR ''+'' else if c = CHR ''_'' then CHR ''/'' else c)"

lemma std_b64_encode_alt: "std_b64_encode b = map std_char (b64_encode b) @ b64_padding (b64_encode b)"
  by (simp add: std_b64_encode_def std_char_def [abs_def] Let_def)

lemma std_char_reads: "b64_val (std_char c) = b64_val c" "(of_char (std_char c) = (61 :: nat)) = (of_char c = (61 :: nat))"
  by (auto simp: std_char_def b64_val_def)

lemma std_char_safe: "std_char c \<noteq> CHR ''-''" "std_char c \<noteq> CHR ''_''"
  by (auto simp: std_char_def)

lemma b64_scan_std: "b64_scan pos left pads (map std_char s @ t) = b64_scan pos left pads (s @ t)"
  by (induction s arbitrary: pos left pads) (simp_all add: std_char_reads split: option.splits)

lemma std_char_ascii: "(of_char c :: nat) < 128 \<Longrightarrow> (of_char (std_char c) :: nat) < 128"
  by (simp add: std_char_def)

lemma padding_chars: "c \<in> set (b64_padding s) \<Longrightarrow> c = CHR ''=''"
  by (auto simp: b64_padding_def)

lemma std_b64_ascii: "c \<in> set (std_b64_encode b) \<Longrightarrow> (of_char c :: nat) < 128"
  by (auto simp: std_b64_encode_alt dest!: padding_chars intro: std_char_ascii b64_encode_ascii)

lemma is_ascii_std_b64: "is_ascii (std_b64_encode b)"
  using std_b64_ascii by (auto simp: is_ascii_def list_all_iff)

lemma std_b64_round_trip: "std_b64_decode (std_b64_encode b) = Some b"
proof -
  have "c \<noteq> CHR ''-'' \<and> c \<noteq> CHR ''_''" if "c \<in> set (std_b64_encode b)" for c
    using that std_char_safe by (auto simp: std_b64_encode_alt dest!: padding_chars)
  then have keep: "filter (\<lambda>c. c \<noteq> CHR ''-'' \<and> c \<noteq> CHR ''_'') (std_b64_encode b) = std_b64_encode b"
    by (simp add: filter_id_conv)
  have ascii: "\<not> list_ex (\<lambda>c. 128 \<le> (of_char c :: nat)) (std_b64_encode b)"
    using std_b64_ascii [of _ b] by (auto simp: list_ex_iff not_le)
  have plain: "\<not> list_ex (\<lambda>c. 128 \<le> (of_char c :: nat)) (b64_encode b @ b64_padding (b64_encode b))"
    using b64_encode_ascii [of _ b] padding_chars [of _ "b64_encode b"] by (fastforce simp: list_ex_iff not_le)
  have "b64_scan 0 0 0 (std_b64_encode b) = b64_scan 0 0 0 (b64_encode b @ b64_padding (b64_encode b))"
    by (simp add: std_b64_encode_alt b64_scan_std)
  with b64_round_trip [of b] plain ascii show ?thesis
    by (simp add: std_b64_decode_def keep b64_decode_def)
qed

section \<open>Flat objects, there and back\<close>

definition json_field :: "string \<times> pyval \<Rightarrow> string" where
  "json_field kv = json_str (fst kv) @ '':'' @ json_dumps (snd kv)"

lemma json_punct: "\<not> json_space dq" "\<not> json_space (CHR '':'')" "\<not> json_space (CHR '','')" "\<not> json_space (CHR ''}'')"
    "\<not> json_space (CHR ''{'')"
  by (simp_all add: json_space_code)

lemma read_value_field:
  assumes "atomic v" "c = CHR '','' \<or> (\<exists>s. v = PStr s)"
  shows "read_value (Suc n) (json_dumps v @ c # r) = Some (v, c # r)"
proof (cases "c = CHR '',''")
  case True
  with assms(1) show ?thesis by (intro read_value_atomic) auto
next
  case False
  with assms(2) obtain s where "v = PStr s" by auto
  then show ?thesis by (simp add: json_str_def skip_ws_cons json_punct read_str_json)
qed

lemma read_fields_step:
  assumes "atomic v" "c = CHR '','' \<or> c = CHR ''}'' \<and> (\<exists>s. v = PStr s)"
  shows "read_fields (Suc (Suc m)) acc (json_field (k, v) @ c # t) =
    (if c = CHR ''}'' then Some (dict_set k v acc, t) else read_fields (Suc m) (dict_set k v acc) t)"
proof -
  have val: "read_value (Suc m) (json_dumps v @ c # t) = Some (v, c # t)"
    using assms by (intro read_value_field) auto
  have c: "skip_ws (c # t) = c # t" using assms(2) json_punct by (auto intro!: skip_ws_cons)
  have written: "json_field (k, v) @ c # t = dq # concat (map json_char k) @ dq # CHR '':'' # json_dumps v @ c # t"
    by (simp add: json_field_def json_str_def)
  show ?thesis
    unfolding written using assms(2)
    by (subst read_fields.simps(2)) (auto simp: skip_ws_cons json_punct read_str_json val c simp del: read_value.simps read_fields.simps)
qed

lemma read_fields_flat:
  assumes "xs \<noteq> []" "list_all (\<lambda>kv. atomic (snd kv)) xs" "\<exists>s. snd (last xs) = PStr s" "length xs < n"
  shows "read_fields n acc (join_on '','' (map json_field xs) @ CHR ''}'' # r) =
    Some (foldl (\<lambda>d kv. dict_set (fst kv) (snd kv) d) acc xs, r)"
  using assms
proof (induction xs arbitrary: acc n)
  case (Cons x xs)
  obtain k v where x: "x = (k, v)" by (cases x)
  obtain m where n: "n = Suc (Suc m)" using Cons.prems(4) by (cases n; cases "n - 1") auto
  show ?case
  proof (cases xs)
    case Nil
    with Cons.prems show ?thesis by (simp add: x n read_fields_step del: read_fields.simps)
  next
    case (Cons y ys)
    have "read_fields (Suc m) (dict_set k v acc) (join_on '','' (map json_field xs) @ CHR ''}'' # r) =
        Some (foldl (\<lambda>d kv. dict_set (fst kv) (snd kv) d) (dict_set k v acc) xs, r)"
      using Cons.prems Cons by (intro Cons.IH) (simp_all add: n)
    moreover have "atomic v" using Cons.prems(2) by (simp add: x)
    ultimately show ?thesis
      by (simp add: x n Cons read_fields_step del: read_fields.simps)
  qed
qed simp

lemma fold_fresh_fields:
  assumes "distinct (map fst xs)" "fst ` set acc \<inter> fst ` set xs = {}"
  shows "foldl (\<lambda>d kv. dict_set (fst kv) (snd kv) d) acc xs = acc @ (xs :: pydict)"
  using assms
proof (induction xs arbitrary: acc)
  case (Cons x xs)
  have "dict_get acc (fst x) = None" using Cons.prems(2) by (auto simp: map_of_eq_None_iff)
  then have "dict_set (fst x) (snd x) acc = acc @ [x]" by (simp add: dict_set_fresh)
  moreover have "foldl (\<lambda>d kv. dict_set (fst kv) (snd kv) d) (acc @ [x]) xs = (acc @ [x]) @ xs"
    using Cons.prems by (intro Cons.IH) auto
  ultimately show ?case by simp
qed simp

lemma json_field_ascii: "atomic (snd kv) \<Longrightarrow> c \<in> set (json_field kv) \<Longrightarrow> (of_char c :: nat) < 128"
  by (auto simp: json_field_def json_str_def dest: json_char_ascii json_dumps_ascii)

lemma json_dumps_sorted:
  assumes "sorted (map fst d)"
  shows "json_dumps (PDict d) = CHR ''{'' # join_on '','' (map json_field d) @ ''}''"
proof -
  have sorted: "sort_key fst (map (\<lambda>(k, v). (k, json_dumps v)) d) = map (\<lambda>(k, v). (k, json_dumps v)) d"
    by (rule sort_key_id_if_sorted) (use assms in \<open>simp add: comp_def case_prod_unfold\<close>)
  have texts: "map (\<lambda>(k, t). json_str k @ '':'' @ t) (map (\<lambda>(k, v). (k, json_dumps v)) d) = map json_field d"
    by (auto simp: json_field_def)
  show ?thesis unfolding json_dumps.simps sorted texts by simp
qed

text \<open>An object of strings and numbers with a string behind the last key reads back as itself.\<close>

lemma json_object_round_trip:
  assumes "d \<noteq> []" "sorted (map fst d)" "distinct (map fst d)" "list_all (\<lambda>kv. atomic (snd kv)) d"
    "\<exists>s. snd (last d) = PStr s"
  shows "json_loads (json_dumps (PDict d)) = Some (PDict d)"
proof -
  let ?body = "join_on '','' (map json_field d)"
  let ?s = "json_dumps (PDict d)"
  have s: "?s = CHR ''{'' # ?body @ CHR ''}'' # []" unfolding json_dumps_sorted [OF assms(2)] by simp
  have "(of_char c :: nat) < 128" if "c \<in> set ?body" for c
  proof -
    from that set_join_on [of "'',''" "map json_field d"]
    have "c = CHR '','' \<or> (\<exists>x \<in> set d. c \<in> set (json_field x))" by auto
    with assms(4) json_field_ascii show ?thesis by (auto simp: list_all_iff)
  qed
  then have u: "utf8_decode ?s = Some ?s" unfolding s by (intro utf8_decode_ascii) auto
  have len: "length d \<le> length ?body"
    using length_join_on [of "map json_field d" "'',''"] by (auto simp: json_field_def json_str_def)
  have "length d < 2 * length ?s + 1" using len unfolding s by simp
  then obtain n where n: "2 * length ?s + 2 = Suc n" "length d < n" by simp
  have run: "read_fields n [] (?body @ CHR ''}'' # []) = Some (d, [])"
    using read_fields_flat [OF assms(1,4,5) n(2), of "[]" "[]"] fold_fresh_fields [OF assms(3), of "[]"] by simp
  obtain t where body: "?body = dq # t"
    using assms(1) by (cases d; cases "tl d") (auto simp: json_field_def json_str_def)
  have "CHR ''{'' \<noteq> dq" "CHR ''}'' \<noteq> dq" by (auto simp: dq_def char_of_def)
  then have "read_value (Suc n) ?s = Some (PDict d, [])"
    unfolding s using run [unfolded body] unfolding body
    by (subst read_value.simps(2)) (auto simp: skip_ws_cons json_punct simp del: read_fields.simps)
  moreover have "skip_ws [] = []" by (simp add: skip_ws_def)
  ultimately show ?thesis unfolding json_loads_def u option.case n(1) by simp
qed

section \<open>The server accepts what the client builds\<close>

text \<open>Ed25519: a signature made with a private key is accepted under its public key.\<close>

definition signs_for :: "ed_verify \<Rightarrow> ('p \<Rightarrow> string \<Rightarrow> bytes) \<Rightarrow> ('p \<Rightarrow> bytes) \<Rightarrow> bool" where
  "signs_for ed_verify sign raw_public \<longleftrightarrow> (\<forall>p m. ed_verify (raw_public p) (sign p m) m)"

lemma possession_shown:
  assumes "signs_for ed_verify sign raw_public"
  shows "possession_ok ed_verify (std_b64_encode (raw_public p)) (std_b64_encode (sign p (std_b64_encode b))) (std_b64_encode b)"
  using assms by (simp add: possession_ok_def std_b64_round_trip is_ascii_std_b64 signs_for_def)

lemma enrollment_text:
  "json_bytes [(''handle'', PStr h), (''public_key_b64'', PStr k), (''issued_at'', PInt t)] =
   json_dumps (PDict [(''handle'', PStr h), (''issued_at'', PInt t), (''public_key_b64'', PStr k)])"
proof -
  have order: "''handle'' \<le> ''issued_at''" "''handle'' \<le> ''public_key_b64''" "\<not> ''public_key_b64'' \<le> ''issued_at''"
    "''issued_at'' \<le> ''public_key_b64''"
    by code_simp+
  show ?thesis by (simp add: json_bytes_def order)
qed

lemma enrollment_payload_read:
  "load_payload (std_b64_encode (json_bytes [(''handle'', PStr h), (''public_key_b64'', PStr k), (''issued_at'', PInt t)])) =
   Some (PDict [(''handle'', PStr h), (''issued_at'', PInt t), (''public_key_b64'', PStr k)])"
proof -
  have order: "sorted [''handle'', ''issued_at'', ''public_key_b64'']" by code_simp
  show ?thesis
    unfolding load_payload_def std_b64_round_trip Option.bind.bind_lunit enrollment_text
    by (rule json_object_round_trip) (use order in simp_all)
qed

lemma rotation_payload_read:
  "load_payload (std_b64_encode (json_bytes [(''handle'', PStr h), (''issued_at'', PInt t), (''new_public_key_b64'', PStr k)])) =
   Some (PDict [(''handle'', PStr h), (''issued_at'', PInt t), (''new_public_key_b64'', PStr k)])"
proof -
  have order: "sorted [''handle'', ''issued_at'', ''new_public_key_b64'']" by code_simp
  show ?thesis
    unfolding load_payload_def std_b64_round_trip Option.bind.bind_lunit json_bytes_def
    by (rule json_object_round_trip) (use order in simp_all)
qed

lemma enrollment_goes_through:
  assumes "signs_for ed_verify sign raw_public"
    and "enrollment_request sign raw_public p hdl contact issued_at = Inr body"
    and "get_agent s hdl = None" "abs (now - issued_at) \<le> signature_clock_skew_seconds cfg"
  shows "\<exists>s'. agent_enroll ed_verify cfg body fresh now s =
      (Inr \<lparr>lg_token = fresh, lg_identity = hdl, lg_display_name = None, lg_expires_in = token_ttl_seconds_agent cfg\<rparr>, s') \<and>
    map_option ar_public_key_b64 (get_agent s' hdl) = Some (std_b64_encode (raw_public p)) \<and>
    get_token s' fresh = Some \<lparr>tr_token = fresh, tr_identity = AgentIdentity hdl, tr_issued_at_unix = now,
      tr_expires_at_unix = now + token_ttl_seconds_agent cfg\<rparr>"
proof -
  let ?pub = "std_b64_encode (raw_public p)"
  let ?payload = "json_bytes [(''handle'', PStr hdl), (''public_key_b64'', PStr ?pub), (''issued_at'', PInt issued_at)]"
  have body: "body = \<lparr>en_handle = hdl, en_public_key_b64 = ?pub, en_payload_b64 = std_b64_encode ?payload,
      en_signature_b64 = std_b64_encode (sign p (std_b64_encode ?payload)), en_contact = contact\<rparr>"
    using assms(2) by (auto simp: enrollment_request_def build_enrollment_payload_def sign_enrollment_payload_def Let_def split: if_splits)
  have check: "check_enroll_payload cfg body now
      [(''handle'', PStr hdl), (''issued_at'', PInt issued_at), (''public_key_b64'', PStr ?pub)] = None"
    using assms(4) by (simp add: check_enroll_payload_def body dget_def in_window_def)
  show ?thesis
    using assms(3) possession_shown [OF assms(1)] check
    by (simp add: agent_enroll_def body enrollment_payload_read issue_token_def add_token_def get_token_def
        get_agent_def add_agent_def)
qed

text \<open>Client and server agree on key rotation: the body the client builds for its new key is accepted
  by the server for a caller with a token of that enrolled agent, whatever the hdl and the key
  bytes are, and the new key is the registered one afterwards.\<close>

lemma rotation_accepted:
  assumes "signs_for ed_verify sign raw_public"
    and "rotation_request sign raw_public p hdl issued_at = Inr body"
    and "has_bearer auth" "get_token s (bearer_token auth) = Some r" "tr_identity r = AgentIdentity hdl"
    and "get_agent s hdl = Some a" "abs (now - issued_at) \<le> signature_clock_skew_seconds cfg"
  shows "\<exists>s'. agent_rotate_key ed_verify cfg hdl body auth now s =
      (Inr (a\<lparr>ar_handle := hdl, ar_public_key_b64 := std_b64_encode (raw_public p)\<rparr>), s') \<and>
    map_option ar_public_key_b64 (get_agent s' hdl) = Some (std_b64_encode (raw_public p))"
proof -
  let ?pub = "std_b64_encode (raw_public p)"
  let ?payload = "json_bytes [(''handle'', PStr hdl), (''issued_at'', PInt issued_at), (''new_public_key_b64'', PStr ?pub)]"
  have body: "body = \<lparr>ro_new_public_key_b64 = ?pub, ro_payload_b64 = std_b64_encode ?payload,
      ro_new_signature_b64 = std_b64_encode (sign p (std_b64_encode ?payload))\<rparr>"
    using assms(2) by (auto simp: rotation_request_def build_rotation_payload_def Let_def split: if_splits)
  have check: "check_rotation_payload cfg hdl body now
      [(''handle'', PStr hdl), (''issued_at'', PInt issued_at), (''new_public_key_b64'', PStr ?pub)] = None"
    using assms(7) by (simp add: check_rotation_payload_def body dget_def in_window_def)
  let ?a = "a\<lparr>ar_handle := hdl, ar_public_key_b64 := ?pub\<rparr>"
  have a: "\<lparr>ar_handle = hdl, ar_public_key_b64 = ?pub, ar_contact = ar_contact a, ar_enrolled_at_unix = ar_enrolled_at_unix a\<rparr> = ?a"
    by (cases a) simp
  have "agent_rotate_key ed_verify cfg hdl body auth now s = (Inr ?a, add_agent ?a s)"
    using assms(3-6) possession_shown [OF assms(1)] check
    by (simp add: agent_rotate_key_def body rotation_payload_read Let_def a)
  then show ?thesis by (simp add: get_agent_def add_agent_def)
qed

text \<open>Keys of the example: a private key is its public key, and a signature is the signed text.\<close>

definition toy_verify :: ed_verify where
  "toy_verify pub sig m = (sig = m)"

lemma toy_signs: "signs_for toy_verify (\<lambda>p m. m) (\<lambda>p. p)"
  by (simp add: signs_for_def toy_verify_def)

lemma rotation_accepted_witness:
  "\<exists>body s'. rotation_request (\<lambda>p m. m) (\<lambda>p. p) ''key'' ''@a'' 100 = Inr body \<and>
    map_option ar_public_key_b64 (get_agent s' ''@a'') = Some (std_b64_encode ''key'') \<and>
    snd (agent_rotate_key toy_verify default_settings ''@a'' body ''Bearer tok'' 120 agent_store) = s'"
proof -
  obtain body where b: "rotation_request (\<lambda>p m. m) (\<lambda>p. p) ''key'' ''@a'' 100 = Inr body"
    by (simp add: rotation_request_def build_rotation_payload_def startswith_def Let_def)
  have t: "has_bearer ''Bearer tok''" "get_token agent_store (bearer_token ''Bearer tok'') = Some \<lparr>tr_token = ''tok'',
      tr_identity = AgentIdentity ''@a'', tr_issued_at_unix = 0, tr_expires_at_unix = 1000\<rparr>"
    by code_simp+
  obtain a where a: "get_agent agent_store ''@a'' = Some a"
    by (simp add: agent_store_def get_agent_def add_agent_def)
  have "abs (120 - 100) \<le> signature_clock_skew_seconds default_settings" by code_simp
  from rotation_accepted [OF toy_signs b t _ a this] obtain s' where
    "agent_rotate_key toy_verify default_settings ''@a'' body ''Bearer tok'' 120 agent_store =
       (Inr (a\<lparr>ar_handle := ''@a'', ar_public_key_b64 := std_b64_encode ''key''\<rparr>), s')"
    "map_option ar_public_key_b64 (get_agent s' ''@a'') = Some (std_b64_encode ''key'')" by auto
  with b show ?thesis by (intro exI [of _ body] exI [of _ s']) simp
qed

end
