(* ===== verification/Client_Signing.thy ===== *)
theory Client_Signing
  imports Client_Agent
begin

text \<open>
  Signed requests on the client's side, \<open>client/signatures.py\<close>: the values of the components a
  signature covers and the authentication flow that signs a request with an agent's key.
\<close>

section \<open>Components\<close>

text \<open>The parts of a URL, as \<open>urllib.parse.urlsplit\<close> gives them for an absolute one.\<close>

definition url_scheme :: "string \<Rightarrow> string" where
  "url_scheme u = takeWhile (\<lambda>c. c \<noteq> CHR '':'') u"

definition url_rest :: "string \<Rightarrow> string" where
  "url_rest u = drop 3 (dropWhile (\<lambda>c. c \<noteq> CHR '':'') u)"

definition url_netloc :: "string \<Rightarrow> string" where
  "url_netloc u = takeWhile (\<lambda>c. c \<notin> {CHR ''/'', CHR ''?'', CHR ''#''}) (url_rest u)"

definition url_path :: "string \<Rightarrow> string" where
  "url_path u = takeWhile (\<lambda>c. c \<notin> {CHR ''?'', CHR ''#''}) (dropWhile (\<lambda>c. c \<notin> {CHR ''/'', CHR ''?'', CHR ''#''}) (url_rest u))"

definition url_query :: "string \<Rightarrow> string" where
  "url_query u = takeWhile (\<lambda>c. c \<noteq> CHR ''#'') (drop 1 (dropWhile (\<lambda>c. c \<noteq> CHR ''?'') (takeWhile (\<lambda>c. c \<noteq> CHR ''#'') (url_rest u))))"

text \<open>
  The value of a component without parameters: a derived one, or a header of the message. The
  library's exception is None. (\<open>@query-params\<close> needs a parameter, \<open>@status\<close> has no getter.)
\<close>

definition resolve :: "string \<Rightarrow> request \<Rightarrow> string \<Rightarrow> string option" where
  "resolve url rq cid =
     (if startswith cid ''@'' then
        (if cid = ''@method'' then Some (upper_method (rq_method rq))
         else if cid = ''@target-uri'' then Some url
         else if cid = ''@authority'' then Some (str_lower (url_netloc url))
         else if cid = ''@scheme'' then Some (str_lower (url_scheme url))
         else if cid = ''@path'' then Some (url_path url)
         else if cid = ''@query'' then Some (''?'' @ url_query url)
         else if cid = ''@request-target''
         then Some (url_path url @ (if url_query url = [] then [] else ''?'' @ url_query url))
         else None)
      else header rq cid)"

definition resolve_all :: "string \<Rightarrow> request \<Rightarrow> string list \<Rightarrow> (string \<times> string) list option" where
  "resolve_all url rq cids =
     (if list_all (\<lambda>c. resolve url rq c \<noteq> None) cids then Some (map (\<lambda>c. (c, the (resolve url rq c))) cids) else None)"

section \<open>Signing\<close>

record 'p signing_key =
  sk_handle :: string
  sk_private_key :: 'p

text \<open>
  The library's signer: from the private key, the key id, the covered components with their values
  and the time, the values of Signature-Input and Signature.
\<close>

type_synonym 'p signer = "'p \<Rightarrow> string \<Rightarrow> (string \<times> string) list \<Rightarrow> int \<Rightarrow> string \<times> string"

definition set_header :: "string \<Rightarrow> string \<Rightarrow> request \<Rightarrow> request" where
  "set_header name v rq = rq\<lparr>rq_headers := dict_set name v (rq_headers rq)\<rparr>"

definition with_digest :: "'k sig_lib \<Rightarrow> request \<Rightarrow> request" where
  "with_digest lib rq =
     (if rq_body rq \<noteq> [] then set_header ''content-digest'' (content_digest lib (rq_body rq)) rq else rq)"

definition auth_flow :: "'k sig_lib \<Rightarrow> 'p signer \<Rightarrow> 'p signing_key \<Rightarrow> string \<Rightarrow> int \<Rightarrow> request \<Rightarrow> request option" where
  "auth_flow lib signer key url created rq =
     (let rq = with_digest lib rq
      in case resolve_all url rq (components_for_request rq) of
           None \<Rightarrow> None
         | Some covered \<Rightarrow>
             (case signer (sk_private_key key) (sk_handle key) covered created of
                (sig_input, sig) \<Rightarrow> Some (set_header ''signature'' sig (set_header ''signature-input'' sig_input rq))))"

section \<open>The server accepts what the client signs\<close>

lemma header_set [simp]: "header (set_header n v rq) m = (if m = n then Some v else header rq m)"
  by (simp add: header_def set_header_def)

lemma set_header_frame [simp]: "rq_body (set_header n v rq) = rq_body rq" "rq_method (set_header n v rq) = rq_method rq"
  by (simp_all add: set_header_def)

text \<open>
  What the two libraries promise for the server at a URL: the headers made for covered components
  are not empty, read back as the time and the key id, and verify when the resolver answers the
  key id with the public key and the components still have the values that were sent.
\<close>

definition lib_complete :: "'k sig_lib \<Rightarrow> 'p signer \<Rightarrow> ('p \<Rightarrow> 'k) \<Rightarrow> string \<Rightarrow> bool" where
  "lib_complete lib signer public_of url \<longleftrightarrow> (\<forall>p kid cids covered created rq lookup sig_input sig.
     signer p kid covered created = (sig_input, sig) \<longrightarrow>
     sig_input \<noteq> [] \<and> sig \<noteq> [] \<and> read_input lib sig_input = Entry (Some created) (Some kid) \<and>
     (lookup kid = Some (public_of p) \<longrightarrow> header rq ''signature-input'' = Some sig_input \<longrightarrow>
      header rq ''signature'' = Some sig \<longrightarrow> resolve_all url rq cids = Some covered \<longrightarrow>
      (\<exists>labels. http_verify lib lookup rq = Some labels \<and> ''rrxiv'' \<in> set labels)))"

text \<open>What the flow adds does not change what it covers.\<close>

lemma resolve_frame:
  "c \<notin> {''signature'', ''signature-input''} \<Longrightarrow>
    resolve url (set_header ''signature'' v (set_header ''signature-input'' w rq)) c = resolve url rq c"
  by (simp add: resolve_def)

lemma covered_names: "''signature'' \<notin> set (components_for_request rq)" "''signature-input'' \<notin> set (components_for_request rq)"
  by (auto simp: components_for_request_def)

lemma resolve_all_frame:
  "resolve_all url (set_header ''signature'' v (set_header ''signature-input'' w rq)) (components_for_request rq) =
   resolve_all url rq (components_for_request rq)"
proof -
  have "resolve url (set_header ''signature'' v (set_header ''signature-input'' w rq)) c = resolve url rq c"
    if "c \<in> set (components_for_request rq)" for c
    using that covered_names [of rq] by (intro resolve_frame) auto
  then show ?thesis by (simp add: resolve_all_def list_all_iff cong: map_cong)
qed

lemma digest_stripped: "str_strip (content_digest lib b) = content_digest lib b"
proof -
  have "\<not> is_space (CHR ''s'')" "\<not> is_space (CHR '':'')" by code_simp+
  then show ?thesis by (simp add: content_digest_def str_strip_def)
qed

lemma signed_verifies:
  assumes "lib_complete lib signer public_of url"
    and "auth_flow lib signer key url created rq = Some sent"
    and "lookup (sk_handle key) = Some (public_of (sk_private_key key))"
    and "abs (now - created) \<le> skew"
  shows "verify_request_signature lib sent lookup skew now = Inr \<lparr>vs_keyid = sk_handle key, vs_created_unix = created\<rparr>"
proof -
  let ?dg = "with_digest lib rq"
  obtain covered si sg where cov: "resolve_all url ?dg (components_for_request ?dg) = Some covered"
    and made: "signer (sk_private_key key) (sk_handle key) covered created = (si, sg)"
    and sent: "sent = set_header ''signature'' sg (set_header ''signature-input'' si ?dg)"
    using assms(2) by (auto simp: auth_flow_def Let_def split: option.splits prod.splits)
  have hs: "header sent ''signature-input'' = Some si" "header sent ''signature'' = Some sg"
    by (simp_all add: sent)
  have all: "resolve_all url sent (components_for_request ?dg) = Some covered"
    using cov by (simp add: sent resolve_all_frame)
  from assms(1) [unfolded lib_complete_def, rule_format, OF made]
  have si: "si \<noteq> []" "sg \<noteq> []" "read_input lib si = Entry (Some created) (Some (sk_handle key))" by blast+
  from assms(1) [unfolded lib_complete_def, rule_format, OF made] assms(3) hs all
  obtain labels where labels: "http_verify lib lookup sent = Some labels" "''rrxiv'' \<in> set labels" by blast
  have body: "rq_body sent = rq_body rq" by (simp add: sent with_digest_def)
  have digest: "rq_body rq \<noteq> [] \<Longrightarrow> header sent ''content-digest'' = Some (content_digest lib (rq_body rq))"
    by (simp add: sent with_digest_def)
  have long: "content_digest lib b \<noteq> []" for b by (simp add: content_digest_def)
  show ?thesis
    using assms(4) hs si labels body digest long digest_stripped [of lib "rq_body rq"]
    by (cases "rq_body rq = []") (simp_all add: verify_request_signature_def given_def Let_def)
qed

text \<open>A write signed with a key the server knows for its bearer's identity passes.\<close>

lemma signed_passes:
  assumes "lib_complete lib signer public_of url" "auth_flow lib signer key url created rq = Some sent"
    and "key_lookup lib s (sk_handle key) = Some (public_of (sk_private_key key))"
    and "header rq ''authorization'' = Some auth" "has_bearer auth" "get_token s (bearer_token auth) = Some r"
    and "mismatch_reason s (tr_identity r) (sk_handle key) = None"
    and "upper_method (rq_method rq) \<notin> set [''GET'', ''HEAD'', ''OPTIONS'']"
    and "abs (now - created) \<le> signature_clock_skew_seconds cfg" "now \<le> tr_expires_at_unix r"
  shows "signature_middleware lib cfg sent now s = PassVerified (sk_handle key)"
proof -
  have v: "verify_request_signature lib sent (key_lookup lib s) (signature_clock_skew_seconds cfg) now =
      Inr \<lparr>vs_keyid = sk_handle key, vs_created_unix = created\<rparr>"
    using signed_verifies [OF assms(1,2), of "key_lookup lib s" now] assms(3,9) by simp
  have same: "rq_method sent = rq_method rq" "header sent ''authorization'' = Some auth" "header sent ''signature'' \<noteq> None"
    using assms(2,4) by (auto simp: auth_flow_def with_digest_def Let_def split: option.splits prod.splits)
  show ?thesis using same assms(5-8,10) v by (simp add: signature_middleware_def Let_def)
qed

text \<open>Client and server agree on enrolment and signed writes: the enrolment body the client builds is
  accepted by the server, and from then on every request that carries the issued token and is
  signed by the client with that key passes the signature check as that agent's, while the token
  lives and the clocks agree.\<close>

lemma enrolled_agent_can_write:
  assumes "signs_for ed_verify sign raw_public" "lib_complete lib signer public_of url"
    and "\<forall>p. load_key lib (raw_public p) = Some (public_of p)"
    and "enrollment_request sign raw_public p hdl contact issued_at = Inr body"
    and "get_agent s hdl = None" "abs (enrolled_at - issued_at) \<le> signature_clock_skew_seconds cfg"
    and "agent_enroll ed_verify cfg body fresh enrolled_at s = (outcome, s')"
    and "header rq ''authorization'' = Some auth" "has_bearer auth" "bearer_token auth = fresh"
    and "auth_flow lib signer \<lparr>sk_handle = hdl, sk_private_key = p\<rparr> url created rq = Some sent"
    and "upper_method (rq_method rq) \<notin> set [''GET'', ''HEAD'', ''OPTIONS'']"
    and "abs (now - created) \<le> signature_clock_skew_seconds cfg" "now \<le> enrolled_at + token_ttl_seconds_agent cfg"
  shows "(\<exists>answer. outcome = Inr answer \<and> lg_token answer = fresh \<and> lg_identity answer = hdl) \<and>
    signature_middleware lib cfg sent now s' = PassVerified hdl"
proof -
  from enrollment_goes_through [OF assms(1,4-6), of fresh] assms(7)
  have out: "outcome = Inr \<lparr>lg_token = fresh, lg_identity = hdl, lg_display_name = None, lg_expires_in = token_ttl_seconds_agent cfg\<rparr>"
    and agent: "map_option ar_public_key_b64 (get_agent s' hdl) = Some (std_b64_encode (raw_public p))"
    and tok: "get_token s' fresh = Some \<lparr>tr_token = fresh, tr_identity = AgentIdentity hdl, tr_issued_at_unix = enrolled_at,
      tr_expires_at_unix = enrolled_at + token_ttl_seconds_agent cfg\<rparr>" by auto
  have at: "startswith hdl ''@''"
    using assms(4) by (auto simp: enrollment_request_def build_enrollment_payload_def Let_def split: if_splits)
  then have plain: "\<not> startswith hdl ''key:''" by (cases hdl) (auto simp: startswith_def)
  have key: "key_lookup lib s' hdl = Some (public_of p)"
  proof -
    from agent obtain a where "get_agent s' hdl = Some a" "ar_public_key_b64 a = std_b64_encode (raw_public p)" by auto
    with plain assms(3) show ?thesis by (simp add: key_lookup_def std_b64_round_trip)
  qed
  have "mismatch_reason s' (AgentIdentity hdl) hdl = None" using plain by (simp add: mismatch_reason_def)
  then have "signature_middleware lib cfg sent now s' = PassVerified hdl"
    using signed_passes [OF assms(2,11), of s' auth _ now cfg] key tok assms(8-10,12-14) by simp
  with out show ?thesis by simp
qed

text \<open>
  Libraries of the example: a signature input writes the time in unary and spells out the key id,
  and every signature is accepted.
\<close>

definition toy_lib :: "string sig_lib" where
  "toy_lib = \<lparr>read_input = (\<lambda>t. let n = int (length (takeWhile (\<lambda>c. c = CHR ''x'') (tl t)))
        in Entry (Some (if hd t = CHR ''-'' then - n else n)) (Some (tl (dropWhile (\<lambda>c. c = CHR ''x'') (tl t))))),
     load_key = Some, http_verify = (\<lambda>lookup rq. Some [''rrxiv'']), sha256 = (\<lambda>b. b)\<rparr>"

definition toy_signer :: "string signer" where
  "toy_signer p kid covered created =
     ((if created < 0 then CHR ''-'' else CHR ''+'') # replicate (nat (abs created)) (CHR ''x'') @ '';'' @ kid, ''sig'')"

lemma unary_read: "y \<noteq> x \<Longrightarrow> takeWhile (\<lambda>c. c = x) (replicate n x @ y # r) = replicate n x"
  "y \<noteq> x \<Longrightarrow> dropWhile (\<lambda>c. c = x) (replicate n x @ y # r) = y # r"
  by (induction n) auto

lemma toy_complete: "lib_complete toy_lib toy_signer (\<lambda>p. p) url"
proof -
  have "read_input toy_lib (fst (toy_signer p kid covered created)) = Entry (Some created) (Some kid)" for p kid covered created
    by (simp add: toy_lib_def toy_signer_def unary_read)
  then show ?thesis by (auto simp: lib_complete_def) (auto simp: toy_signer_def toy_lib_def)
qed

definition write_request :: request where
  "write_request = \<lparr>rq_method = ''POST'',
     rq_headers = [(''authorization'', ''Bearer tok''), (''content-type'', ''application/json'')], rq_body = ''{}''\<rparr>"

lemma enrolled_agent_can_write_witness:
  "\<exists>body sent. enrollment_request (\<lambda>p m. m) (\<lambda>p. p) ''key'' ''@a'' None 100 = Inr body \<and>
    auth_flow toy_lib toy_signer \<lparr>sk_handle = ''@a'', sk_private_key = ''key''\<rparr> ''https://h/x'' 130 write_request = Some sent \<and>
    signature_middleware toy_lib default_settings sent 140
      (snd (agent_enroll toy_verify default_settings body ''tok'' 110 empty_store)) = PassVerified ''@a''"
proof -
  obtain body where b: "enrollment_request (\<lambda>p m. m) (\<lambda>p. p) ''key'' ''@a'' None 100 = Inr body"
    by (simp add: enrollment_request_def build_enrollment_payload_def startswith_def Let_def)
  have "auth_flow toy_lib toy_signer \<lparr>sk_handle = ''@a'', sk_private_key = ''key''\<rparr> ''https://h/x'' 130 write_request \<noteq> None"
    by code_simp
  then obtain sent where f: "auth_flow toy_lib toy_signer \<lparr>sk_handle = ''@a'', sk_private_key = ''key''\<rparr> ''https://h/x'' 130 write_request = Some sent"
    by auto
  have facts: "get_agent empty_store ''@a'' = None" "abs (110 - 100) \<le> signature_clock_skew_seconds default_settings"
    "header write_request ''authorization'' = Some ''Bearer tok''" "has_bearer ''Bearer tok''" "bearer_token ''Bearer tok'' = ''tok''"
    "upper_method (rq_method write_request) \<notin> set [''GET'', ''HEAD'', ''OPTIONS'']"
    "abs (140 - 130) \<le> signature_clock_skew_seconds default_settings"
    "140 \<le> 110 + token_ttl_seconds_agent default_settings"
    by code_simp+
  have keys: "\<forall>p. load_key toy_lib ((\<lambda>p. p) p) = Some ((\<lambda>p. p) p)" by (simp add: toy_lib_def)
  obtain outcome s' where e: "agent_enroll toy_verify default_settings body ''tok'' 110 empty_store = (outcome, s')"
    by fastforce
  from enrolled_agent_can_write [OF toy_signs toy_complete keys b facts(1,2) e facts(3-5) f facts(6-8)] b f e
  show ?thesis by auto
qed

end
