(* ===== verification/Cred_Store.thy ===== *)
theory Cred_Store
  imports Codecs
begin

text \<open>
  The credential store of the command line (\<open>cli/credentials.py\<close>): bearers, agent keys and ORCID
  signing keys in the system keyring, with an index file that names them, or in one JSON file.
  The keyring library is a parameter. A password of the keyring and the text of the file stand
  for the JSON value they hold: what \<open>json.dumps\<close> writes \<open>json.loads\<close> reads back, with the keys
  of the file sorted.
\<close>

section \<open>Records\<close>

record stored_bearer =
  sb_api_base :: string
  sb_identity_type :: string
  sb_identity :: "string option"
  sb_token :: string
  sb_issued_at_unix :: int
  sb_expires_at_unix :: "int option"

record stored_agent_key =
  sa_api_base :: string
  sa_handle :: string
  sa_private_key_b64 :: string

record stored_orcid_key =
  so_api_base :: string
  so_orcid_id :: string
  so_key_id :: string
  so_private_key_b64 :: string
  so_label :: string

text \<open>\<open>now_unix or int(time.time())\<close>: the time zero is the clock's time.\<close>

definition is_expired :: "stored_bearer \<Rightarrow> int option \<Rightarrow> int \<Rightarrow> bool" where
  "is_expired r now_unix clock =
     (case sb_expires_at_unix r of
        None \<Rightarrow> False
      | Some e \<Rightarrow> e \<le> (case now_unix of Some n \<Rightarrow> if n \<noteq> 0 then n else clock | None \<Rightarrow> clock))"

definition text_or_none :: "string option \<Rightarrow> pyval" where
  "text_or_none v = (case v of None \<Rightarrow> PNone | Some s \<Rightarrow> PStr s)"

definition opt_int :: "int option \<Rightarrow> pyval" where
  "opt_int v = (case v of None \<Rightarrow> PNone | Some i \<Rightarrow> PInt i)"

definition bearer_to_dict :: "stored_bearer \<Rightarrow> pydict" where
  "bearer_to_dict r =
     [(''api_base'', PStr (sb_api_base r)), (''identity_type'', PStr (sb_identity_type r)),
      (''identity'', text_or_none (sb_identity r)), (''token'', PStr (sb_token r)),
      (''issued_at_unix'', PInt (sb_issued_at_unix r)), (''expires_at_unix'', opt_int (sb_expires_at_unix r))]"

definition agent_key_to_dict :: "stored_agent_key \<Rightarrow> pydict" where
  "agent_key_to_dict r =
     [(''api_base'', PStr (sa_api_base r)), (''handle'', PStr (sa_handle r)), (''private_key_b64'', PStr (sa_private_key_b64 r))]"

definition orcid_key_to_dict :: "stored_orcid_key \<Rightarrow> pydict" where
  "orcid_key_to_dict r =
     [(''api_base'', PStr (so_api_base r)), (''orcid_id'', PStr (so_orcid_id r)), (''key_id'', PStr (so_key_id r)),
      (''private_key_b64'', PStr (so_private_key_b64 r)), (''label'', PStr (so_label r))]"

text \<open>
  The other way. A field of another type than the record declares is kept by the code as it
  is; it is a type error here.
\<close>

definition str_item :: "pydict \<Rightarrow> string \<Rightarrow> pyexn + string" where
  "str_item d k = (case dict_get d k of None \<Rightarrow> Inl KeyError | Some (PStr s) \<Rightarrow> Inr s | Some _ \<Rightarrow> Inl TypeError)"

definition opt_item :: "pydict \<Rightarrow> string \<Rightarrow> pyexn + string option" where
  "opt_item d k = (case dget d k of PNone \<Rightarrow> Inr None | PStr s \<Rightarrow> Inr (Some s) | _ \<Rightarrow> Inl TypeError)"

definition as_items :: "pyval \<Rightarrow> pyexn + pydict" where
  "as_items v = (case v of PDict d \<Rightarrow> Inr d | _ \<Rightarrow> Inl TypeError)"

definition bearer_from_dict :: "pyval \<Rightarrow> pyexn + stored_bearer" where
  "bearer_from_dict v =
     rbind (as_items v) (\<lambda>d.
     rbind (str_item d ''api_base'') (\<lambda>api.
     rbind (str_item d ''identity_type'') (\<lambda>kind.
     rbind (opt_item d ''identity'') (\<lambda>identity.
     rbind (str_item d ''token'') (\<lambda>token.
     rbind (case dict_get d ''issued_at_unix'' of None \<Rightarrow> Inl KeyError | Some i \<Rightarrow> py_int i) (\<lambda>issued.
     rbind (if truthy (dget d ''expires_at_unix'') then rbind (py_int (dget d ''expires_at_unix'')) (\<lambda>i. Inr (Some i)) else Inr None) (\<lambda>expires.
       Inr \<lparr>sb_api_base = api, sb_identity_type = kind, sb_identity = identity, sb_token = token,
            sb_issued_at_unix = issued, sb_expires_at_unix = expires\<rparr>)))))))"

definition agent_key_from_dict :: "pyval \<Rightarrow> pyexn + stored_agent_key" where
  "agent_key_from_dict v =
     rbind (as_items v) (\<lambda>d.
     rbind (str_item d ''api_base'') (\<lambda>api.
     rbind (str_item d ''handle'') (\<lambda>hdl.
     rbind (str_item d ''private_key_b64'') (\<lambda>key.
       Inr \<lparr>sa_api_base = api, sa_handle = hdl, sa_private_key_b64 = key\<rparr>))))"

definition orcid_key_from_dict :: "pyval \<Rightarrow> pyexn + stored_orcid_key" where
  "orcid_key_from_dict v =
     rbind (as_items v) (\<lambda>d.
     rbind (str_item d ''api_base'') (\<lambda>api.
     rbind (str_item d ''orcid_id'') (\<lambda>oid.
     rbind (str_item d ''key_id'') (\<lambda>kid.
     rbind (str_item d ''private_key_b64'') (\<lambda>key.
     rbind (case dict_get d ''label'' of None \<Rightarrow> Inr [] | Some _ \<Rightarrow> str_item d ''label'') (\<lambda>label.
       Inr \<lparr>so_api_base = api, so_orcid_id = oid, so_key_id = kid, so_private_key_b64 = key, so_label = label\<rparr>))))))"

section \<open>Backends\<close>

datatype cred_backend = InKeyring | InFile

definition pick_backend :: "string option \<Rightarrow> bool \<Rightarrow> cred_backend" where
  "pick_backend variable keyring_available =
     (if variable = Some ''file'' then InFile
      else if variable = Some ''keyring'' then InKeyring
      else if keyring_available then InKeyring else InFile)"

text \<open>\<open>BrokenFile\<close> cannot be opened or is not JSON, \<open>BadFile\<close> is not UTF-8.\<close>

datatype cred_file = NoFile | BrokenFile | BadFile | HasFile pyval

text \<open>
  The keyring: what \<open>get_password\<close> gives, \<open>set_password\<close>, and \<open>delete_password\<close> with the error
  for an absent entry caught.
\<close>

record 'k keyring =
  kr_get :: "'k \<Rightarrow> string \<Rightarrow> pyval option"
  kr_put :: "string \<Rightarrow> pyval \<Rightarrow> 'k \<Rightarrow> 'k"
  kr_drop :: "string \<Rightarrow> 'k \<Rightarrow> 'k"

record 'k cred_state =
  cr_file :: cred_file
  cr_ring :: 'k

definition bearer_username :: "string \<Rightarrow> string \<Rightarrow> string" where
  "bearer_username api_base identity_type = api_base @ '':'' @ identity_type"

definition agent_key_username :: "string \<Rightarrow> string \<Rightarrow> string" where
  "agent_key_username api_base hdl = api_base @ '':agent:'' @ hdl @ '':private-key''"

definition orcid_key_username :: "string \<Rightarrow> string \<Rightarrow> string" where
  "orcid_key_username api_base orcid_id = api_base @ '':orcid:'' @ orcid_id @ '':signing-key''"

section \<open>The file\<close>

definition no_credentials :: pyval where
  "no_credentials = PDict [(''version'', PInt 1), (''credentials'', PDict [])]"

definition file_load :: "cred_file \<Rightarrow> pyexn + pyval" where
  "file_load f = (case f of BadFile \<Rightarrow> Inl ValueError | HasFile v \<Rightarrow> Inr v | _ \<Rightarrow> Inr no_credentials)"

fun sort_json :: "pyval \<Rightarrow> pyval" where
  "sort_json (PDict d) = PDict (sort_key fst (map (\<lambda>(k, v). (k, sort_json v)) d))"
| "sort_json (PList xs) = PList (map sort_json xs)"
| "sort_json v = v"

definition file_save :: "pyval \<Rightarrow> cred_file" where
  "file_save v = HasFile (sort_json v)"

type_synonym mutator = "pyval \<Rightarrow> pyexn + pyval"

definition file_update :: "mutator \<Rightarrow> 'k cred_state \<Rightarrow> (pyexn + unit) \<times> 'k cred_state" where
  "file_update f s =
     (case rbind (file_load (cr_file s)) f of
        Inl e \<Rightarrow> (Inl e, s)
      | Inr v \<Rightarrow> (Inr (), s\<lparr>cr_file := file_save v\<rparr>))"

text \<open>\<open>v.get(k, default)\<close>, \<open>v[k] = x\<close> and \<open>v.pop(k, None)\<close> on a value of any type.\<close>

definition get_or :: "pyval \<Rightarrow> string \<Rightarrow> pyval \<Rightarrow> pyexn + pyval" where
  "get_or v k x = (case v of PDict d \<Rightarrow> Inr (case dict_get d k of None \<Rightarrow> x | Some w \<Rightarrow> w) | _ \<Rightarrow> Inl AttributeError)"

definition put_item :: "string \<Rightarrow> pyval \<Rightarrow> mutator" where
  "put_item k x v = (case v of PDict d \<Rightarrow> Inr (PDict (dict_set k x d)) | _ \<Rightarrow> Inl TypeError)"

definition pop_item :: "string \<Rightarrow> mutator" where
  "pop_item k v = (case v of PDict d \<Rightarrow> Inr (PDict (dict_pop k d)) | PList _ \<Rightarrow> Inl TypeError | _ \<Rightarrow> Inl AttributeError)"

text \<open>\<open>v.setdefault(k1, {}).setdefault(k2, {})\<close> down a path, and a change of what is there.\<close>

fun modify_at :: "string list \<Rightarrow> mutator \<Rightarrow> mutator" where
  "modify_at [] f v = f v"
| "modify_at (k # ks) f v =
     (case v of
        PDict d \<Rightarrow> rbind (modify_at ks f (case dict_get d k of None \<Rightarrow> PDict [] | Some w \<Rightarrow> w)) (\<lambda>w. Inr (PDict (dict_set k w d)))
      | _ \<Rightarrow> Inl AttributeError)"

definition file_set_bearer :: "stored_bearer \<Rightarrow> mutator" where
  "file_set_bearer r = modify_at [''credentials'', sb_api_base r] (put_item (sb_identity_type r) (PDict (bearer_to_dict r)))"

definition file_set_agent_key :: "stored_agent_key \<Rightarrow> mutator" where
  "file_set_agent_key r = modify_at [''credentials'', sa_api_base r, ''agent_keys''] (put_item (sa_handle r) (PDict (agent_key_to_dict r)))"

definition file_set_orcid_key :: "stored_orcid_key \<Rightarrow> mutator" where
  "file_set_orcid_key r = modify_at [''credentials'', so_api_base r, ''orcid_keys''] (put_item (so_orcid_id r) (PDict (orcid_key_to_dict r)))"

definition redacted :: string where
  "redacted = ''<in-keyring>''"

definition index_set_bearer :: "stored_bearer \<Rightarrow> mutator" where
  "index_set_bearer r =
     (let entry = dict_set ''token'' (PStr redacted) (bearer_to_dict r)
      in modify_at [''credentials'', sb_api_base r] (put_item (sb_identity_type r) (PDict entry)))"

definition redact :: "pydict \<Rightarrow> string \<Rightarrow> pydict" where
  "redact d k = (if dict_has d k then dict_set k (PStr redacted) d else d)"

definition index_set_agent_key :: "stored_agent_key \<Rightarrow> mutator" where
  "index_set_agent_key r =
     (let entry = foldl redact (agent_key_to_dict r) [''private_key_b64'', ''private_key'', ''secret'']
      in modify_at [''credentials'', sa_api_base r, ''agent_keys''] (put_item (sa_handle r) (PDict entry)))"

text \<open>
  The server's entry and the change of the file when the entry has been changed to \<open>x\<close>: an
  entry that is not in the file is a dictionary of its own, an empty one is dropped.
\<close>

definition server_entry :: "pyval \<Rightarrow> string \<Rightarrow> pyexn + pyval" where
  "server_entry v api = rbind (get_or v ''credentials'' (PDict [])) (\<lambda>c. get_or c api (PDict []))"

definition put_server :: "string \<Rightarrow> pyval \<Rightarrow> pyval \<Rightarrow> pyval" where
  "put_server api x v =
     (case v of
        PDict d \<Rightarrow>
          (case dict_get d ''credentials'' of
             Some (PDict c) \<Rightarrow>
               if \<not> dict_has c api then v
               else PDict (dict_set ''credentials'' (PDict (if truthy x then dict_set api x c else dict_pop api c)) d)
           | _ \<Rightarrow> v)
      | _ \<Rightarrow> v)"

definition file_delete_bearer :: "string \<Rightarrow> string \<Rightarrow> mutator" where
  "file_delete_bearer api identity_type v =
     rbind (server_entry v api) (\<lambda>server. rbind (pop_item identity_type server) (\<lambda>x. Inr (put_server api x v)))"

text \<open>The two maps of keys inside a server's entry are changed alike.\<close>

definition pop_key :: "string \<Rightarrow> string \<Rightarrow> pyval \<Rightarrow> pyexn + pyval" where
  "pop_key table name server =
     rbind (get_or server table (PDict [])) (\<lambda>keys.
     rbind (pop_item name keys) (\<lambda>keys'.
       if \<not> truthy keys' then pop_item table server
       else put_item table keys' server))"

definition file_delete_agent_key :: "string \<Rightarrow> string \<Rightarrow> mutator" where
  "file_delete_agent_key api hdl v =
     rbind (server_entry v api) (\<lambda>server. rbind (pop_key ''agent_keys'' hdl server) (\<lambda>x. Inr (put_server api x v)))"

definition file_delete_orcid_key :: "string \<Rightarrow> string \<Rightarrow> mutator" where
  "file_delete_orcid_key api orcid_id v =
     rbind (server_entry v api) (\<lambda>server. rbind (pop_key ''orcid_keys'' orcid_id server) (\<lambda>x. Inr (put_server api x v)))"

definition found :: "(pyval \<Rightarrow> pyexn + 'r) \<Rightarrow> pyval \<Rightarrow> pyexn + 'r option" where
  "found from raw = (if raw = PNone then Inr None else rbind (from raw) (\<lambda>r. Inr (Some r)))"

definition file_load_bearer :: "cred_file \<Rightarrow> string \<Rightarrow> string \<Rightarrow> pyexn + stored_bearer option" where
  "file_load_bearer f api identity_type =
     rbind (file_load f) (\<lambda>v. rbind (server_entry v api) (\<lambda>server.
     rbind (get_or server identity_type PNone) (found bearer_from_dict)))"

definition file_load_agent_key :: "cred_file \<Rightarrow> string \<Rightarrow> string \<Rightarrow> pyexn + stored_agent_key option" where
  "file_load_agent_key f api hdl =
     rbind (file_load f) (\<lambda>v. rbind (server_entry v api) (\<lambda>server.
     rbind (get_or server ''agent_keys'' (PDict [])) (\<lambda>keys. rbind (get_or keys hdl PNone) (found agent_key_from_dict))))"

definition file_load_orcid_key :: "cred_file \<Rightarrow> string \<Rightarrow> string \<Rightarrow> pyexn + stored_orcid_key option" where
  "file_load_orcid_key f api orcid_id =
     rbind (file_load f) (\<lambda>v. rbind (server_entry v api) (\<lambda>server.
     rbind (get_or server ''orcid_keys'' (PDict [])) (\<lambda>keys. rbind (get_or keys orcid_id PNone) (found orcid_key_from_dict))))"

section \<open>Operations\<close>

definition ring_put :: "'k keyring \<Rightarrow> string \<Rightarrow> pydict \<Rightarrow> 'k cred_state \<Rightarrow> 'k cred_state" where
  "ring_put K user d s = s\<lparr>cr_ring := kr_put K user (PDict d) (cr_ring s)\<rparr>"

definition ring_drop :: "'k keyring \<Rightarrow> string \<Rightarrow> 'k cred_state \<Rightarrow> 'k cred_state" where
  "ring_drop K user s = s\<lparr>cr_ring := kr_drop K user (cr_ring s)\<rparr>"

definition ring_load :: "'k keyring \<Rightarrow> string \<Rightarrow> (pyval \<Rightarrow> pyexn + 'r) \<Rightarrow> 'k cred_state \<Rightarrow> pyexn + 'r option" where
  "ring_load K user from s = (case kr_get K (cr_ring s) user of None \<Rightarrow> Inr None | Some v \<Rightarrow> rbind (from v) (\<lambda>r. Inr (Some r)))"

type_synonym 'k cred_step = "'k cred_state \<Rightarrow> (pyexn + unit) \<times> 'k cred_state"

definition store_bearer :: "'k keyring \<Rightarrow> cred_backend \<Rightarrow> stored_bearer \<Rightarrow> 'k cred_step" where
  "store_bearer K b r s =
     (if b = InKeyring
      then file_update (index_set_bearer r) (ring_put K (bearer_username (sb_api_base r) (sb_identity_type r)) (bearer_to_dict r) s)
      else file_update (file_set_bearer r) s)"

definition load_bearer :: "'k keyring \<Rightarrow> cred_backend \<Rightarrow> string \<Rightarrow> string \<Rightarrow> 'k cred_state \<Rightarrow> pyexn + stored_bearer option" where
  "load_bearer K b api identity_type s =
     (if b = InKeyring then ring_load K (bearer_username api identity_type) bearer_from_dict s
      else file_load_bearer (cr_file s) api identity_type)"

definition delete_bearer :: "'k keyring \<Rightarrow> cred_backend \<Rightarrow> string \<Rightarrow> string \<Rightarrow> 'k cred_step" where
  "delete_bearer K b api identity_type s =
     file_update (file_delete_bearer api identity_type)
       (if b = InKeyring then ring_drop K (bearer_username api identity_type) s else s)"

definition store_agent_key :: "'k keyring \<Rightarrow> cred_backend \<Rightarrow> stored_agent_key \<Rightarrow> 'k cred_step" where
  "store_agent_key K b r s =
     (if b = InKeyring
      then file_update (index_set_agent_key r) (ring_put K (agent_key_username (sa_api_base r) (sa_handle r)) (agent_key_to_dict r) s)
      else file_update (file_set_agent_key r) s)"

definition load_agent_key :: "'k keyring \<Rightarrow> cred_backend \<Rightarrow> string \<Rightarrow> string \<Rightarrow> 'k cred_state \<Rightarrow> pyexn + stored_agent_key option" where
  "load_agent_key K b api hdl s =
     (if b = InKeyring then ring_load K (agent_key_username api hdl) agent_key_from_dict s
      else file_load_agent_key (cr_file s) api hdl)"

definition delete_agent_key :: "'k keyring \<Rightarrow> cred_backend \<Rightarrow> string \<Rightarrow> string \<Rightarrow> 'k cred_step" where
  "delete_agent_key K b api hdl s =
     file_update (file_delete_agent_key api hdl) (if b = InKeyring then ring_drop K (agent_key_username api hdl) s else s)"

definition store_orcid_key :: "'k keyring \<Rightarrow> cred_backend \<Rightarrow> stored_orcid_key \<Rightarrow> 'k cred_step" where
  "store_orcid_key K b r s =
     (if b = InKeyring then (Inr (), ring_put K (orcid_key_username (so_api_base r) (so_orcid_id r)) (orcid_key_to_dict r) s)
      else file_update (file_set_orcid_key r) s)"

definition load_orcid_key :: "'k keyring \<Rightarrow> cred_backend \<Rightarrow> string \<Rightarrow> string \<Rightarrow> 'k cred_state \<Rightarrow> pyexn + stored_orcid_key option" where
  "load_orcid_key K b api orcid_id s =
     (if b = InKeyring then ring_load K (orcid_key_username api orcid_id) orcid_key_from_dict s
      else file_load_orcid_key (cr_file s) api orcid_id)"

definition delete_orcid_key :: "'k keyring \<Rightarrow> cred_backend \<Rightarrow> string \<Rightarrow> string \<Rightarrow> 'k cred_step" where
  "delete_orcid_key K b api orcid_id s =
     (if b = InKeyring then (Inr (), ring_drop K (orcid_key_username api orcid_id) s)
      else file_update (file_delete_orcid_key api orcid_id) s)"

text \<open>The servers and the identities of one, from the file, which is the index of the keyring.\<close>

definition keys_of :: "pyval \<Rightarrow> pyexn + string list" where
  "keys_of v = (case v of PDict d \<Rightarrow> Inr (map fst d) | _ \<Rightarrow> Inl AttributeError)"

definition stored_servers :: "'k cred_state \<Rightarrow> pyexn + string list" where
  "stored_servers s =
     rbind (file_load (cr_file s)) (\<lambda>v. rbind (get_or v ''credentials'' (PDict [])) (\<lambda>c. rbind (keys_of c) (\<lambda>ks. Inr (sort ks))))"

definition stored_identities_for_server :: "string \<Rightarrow> 'k cred_state \<Rightarrow> pyexn + pyval" where
  "stored_identities_for_server api s = rbind (file_load (cr_file s)) (\<lambda>v. server_entry v api)"

end
