(* ===== verification/Client_Login.thy ===== *)
theory Client_Login
  imports Client_Retry Client_Signing Cred_Store
begin

text \<open>
  The client's calls to the authentication endpoints: \<open>auth/agent.py\<close>, \<open>auth/orcid.py\<close>,
  \<open>auth/anonymous.py\<close> and \<open>auth/refresh.py\<close>. Each is the request it sends and what it makes of
  the response; the connection between them is left out.
\<close>

section \<open>Requests and responses\<close>

record bearer =
  bt_token :: string
  bt_identity_type :: string
  bt_identity :: "string option"

datatype call_error = Refused client_error | Broke pyexn

definition broke :: "pyexn + 'a \<Rightarrow> call_error + 'a" where
  "broke r = (case r of Inl e \<Rightarrow> Inl (Broke e) | Inr a \<Rightarrow> Inr a)"

text \<open>\<open>raise_for_status(resp)\<close>, then \<open>resp.json()\<close>.\<close>

definition checked :: "response \<Rightarrow> call_error + pyval" where
  "checked rs =
     (case raise_for_status rs of
        Inl e \<Rightarrow> Inl (Broke e)
      | Inr (Some e) \<Rightarrow> Inl (Refused e)
      | Inr None \<Rightarrow> (case rs_json rs of None \<Rightarrow> Inl (Broke ValueError) | Some v \<Rightarrow> Inr v))"

text \<open>
  \<open>body[k]\<close> where a string is expected, and \<open>int(body[k])\<close>. A token or name of another type
  is kept by the code as it is; it is a type error here.
\<close>

definition str_of :: "pyval \<Rightarrow> string \<Rightarrow> pyexn + string" where
  "str_of v k = rbind (as_items v) (\<lambda>d. str_item d k)"

definition int_of :: "pyval \<Rightarrow> string \<Rightarrow> pyexn + int" where
  "int_of v k = rbind (as_items v) (\<lambda>d. case dict_get d k of None \<Rightarrow> Inl KeyError | Some i \<Rightarrow> py_int i)"

definition rstrip_slash :: "string \<Rightarrow> string" where
  "rstrip_slash s = rev (dropWhile (\<lambda>c. c = CHR ''/'') (rev s))"

definition endpoint :: "string \<Rightarrow> string \<Rightarrow> string" where
  "endpoint api path = rstrip_slash api @ path"

section \<open>Agents\<close>

definition enroll_body_json :: "enroll_body \<Rightarrow> pydict" where
  "enroll_body_json r =
     [(''handle'', PStr (en_handle r)), (''public_key_b64'', PStr (en_public_key_b64 r)),
      (''payload_b64'', PStr (en_payload_b64 r)), (''signature_b64'', PStr (en_signature_b64 r))] @
     (case en_contact r of None \<Rightarrow> [] | Some c \<Rightarrow> [(''contact'', PStr c)])"

definition enroll_answer :: "response \<Rightarrow> call_error + bearer" where
  "enroll_answer rs =
     rbind (checked rs) (\<lambda>v. broke (
       rbind (str_of v ''token'') (\<lambda>t. rbind (str_of v ''handle'') (\<lambda>h.
         Inr \<lparr>bt_token = t, bt_identity_type = ''agent'', bt_identity = Some h\<rparr>))))"

section \<open>ORCID\<close>

definition build_orcid_authorization_url :: "string \<Rightarrow> string \<Rightarrow> string \<Rightarrow> string option \<Rightarrow> string \<Rightarrow> string \<times> string" where
  "build_orcid_authorization_url api redirect_uri scope state fresh =
     (let st = (case state of Some s \<Rightarrow> s | None \<Rightarrow> fresh)
      in (rstrip_slash api @ ''/auth/orcid/start?'' @
            urlencode [(''redirect_uri'', redirect_uri), (''scope'', scope), (''state'', st)], st))"

definition orcid_code_body :: "string \<Rightarrow> string \<Rightarrow> string option \<Rightarrow> pydict" where
  "orcid_code_body code state redirect_uri =
     [(''code'', PStr code), (''state'', PStr state)] @
     (case redirect_uri of None \<Rightarrow> [] | Some u \<Rightarrow> [(''redirect_uri'', PStr u)])"

definition exchange_orcid_code ::
  "(string \<Rightarrow> pydict \<Rightarrow> response) \<Rightarrow> string \<Rightarrow> string \<Rightarrow> string \<Rightarrow> string \<Rightarrow> string option \<Rightarrow> call_error + bearer" where
  "exchange_orcid_code post api code state expected_state redirect_uri =
     (if state \<noteq> expected_state then Inl (Broke ValueError)
      else rbind (checked (post (endpoint api ''/auth/orcid/callback'') (orcid_code_body code state redirect_uri))) (\<lambda>v. broke (
        rbind (str_of v ''token'') (\<lambda>t. rbind (str_of v ''orcid_id'') (\<lambda>i.
          Inr \<lparr>bt_token = t, bt_identity_type = ''orcid'', bt_identity = Some i\<rparr>)))))"

section \<open>Signing keys of an ORCID iD\<close>

definition build_key_binding_payload :: "string \<Rightarrow> string \<Rightarrow> string \<Rightarrow> int \<Rightarrow> bytes" where
  "build_key_binding_payload oid public_key_b64 nonce issued_at =
     json_bytes [(''purpose'', PStr ''orcid_key_binding''), (''orcid_id'', PStr oid),
       (''public_key_b64'', PStr public_key_b64), (''issued_at_unix'', PInt issued_at), (''nonce'', PStr nonce)]"

definition bind_body_json :: "key_bind_body \<Rightarrow> pydict" where
  "bind_body_json r =
     [(''public_key_b64'', PStr (kb_public_key_b64 r)), (''label'', PStr (kb_label r)),
      (''payload_b64'', PStr (kb_payload_b64 r)), (''signature_b64'', PStr (kb_signature_b64 r))]"

text \<open>The record of the answer; the time zero of a revocation is read as none.\<close>

definition orcid_record_from :: "pyval \<Rightarrow> pyexn + orcid_key_record" where
  "orcid_record_from v =
     rbind (as_items v) (\<lambda>d.
     rbind (str_item d ''orcid_id'') (\<lambda>oid.
     rbind (str_item d ''key_id'') (\<lambda>kid.
     rbind (str_item d ''public_key_b64'') (\<lambda>pub.
     rbind (case dict_get d ''label'' of None \<Rightarrow> Inr [] | Some _ \<Rightarrow> str_item d ''label'') (\<lambda>label.
     rbind (int_of v ''created_at_unix'') (\<lambda>created.
     rbind (if truthy (dget d ''revoked_at_unix'') then rbind (py_int (dget d ''revoked_at_unix'')) (\<lambda>i. Inr (Some i)) else Inr None) (\<lambda>revoked.
       Inr \<lparr>ok_orcid_id = oid, ok_key_id = kid, ok_public_key_b64 = pub, ok_label = label,
            ok_created_at_unix = created, ok_revoked_at_unix = revoked\<rparr>)))))))"

definition bind_answer :: "response \<Rightarrow> call_error + orcid_key_record" where
  "bind_answer rs = rbind (checked rs) (\<lambda>v. broke (orcid_record_from v))"

definition list_keys_answer :: "response \<Rightarrow> call_error + orcid_key_record list" where
  "list_keys_answer rs =
     rbind (checked rs) (\<lambda>v. broke (
       rbind (get_or v ''keys'' (PList [])) (\<lambda>ks. rbind (py_iter ks) (rmap orcid_record_from))))"

text \<open>The answer of a revocation is not read.\<close>

definition revoke_answer :: "response \<Rightarrow> call_error + unit" where
  "revoke_answer rs =
     (case raise_for_status rs of Inl e \<Rightarrow> Inl (Broke e) | Inr (Some e) \<Rightarrow> Inl (Refused e) | Inr None \<Rightarrow> Inr ())"

section \<open>Anonymous callers and refreshing\<close>

record received_challenge =
  an_challenge_id :: string
  an_challenge_type :: string
  an_site_key :: string
  an_expires_in_seconds :: int

definition challenge_answer :: "response \<Rightarrow> call_error + received_challenge" where
  "challenge_answer rs =
     rbind (checked rs) (\<lambda>v. broke (
       rbind (str_of v ''challenge_id'') (\<lambda>i. rbind (str_of v ''challenge_type'') (\<lambda>t.
       rbind (str_of v ''site_key'') (\<lambda>k. rbind (int_of v ''expires_in_seconds'') (\<lambda>n.
         Inr \<lparr>an_challenge_id = i, an_challenge_type = t, an_site_key = k, an_expires_in_seconds = n\<rparr>))))))"

definition verify_body_json :: "string \<Rightarrow> string \<Rightarrow> pydict" where
  "verify_body_json cid response = [(''challenge_id'', PStr cid), (''response'', PStr response)]"

definition verify_answer :: "response \<Rightarrow> call_error + bearer" where
  "verify_answer rs =
     rbind (checked rs) (\<lambda>v. broke (rbind (str_of v ''token'') (\<lambda>t.
       Inr \<lparr>bt_token = t, bt_identity_type = ''anonymous'', bt_identity = None\<rparr>)))"

definition refresh_answer :: "bearer \<Rightarrow> response \<Rightarrow> call_error + bearer \<times> int" where
  "refresh_answer current rs =
     rbind (checked rs) (\<lambda>v. broke (rbind (str_of v ''token'') (\<lambda>t. rbind (int_of v ''expires_in_seconds'') (\<lambda>n.
       Inr (current\<lparr>bt_token := t\<rparr>, n)))))"

definition auth_header :: "bearer option \<Rightarrow> (string \<times> string) list" where
  "auth_header token = (case token of None \<Rightarrow> [] | Some t \<Rightarrow> [(''Authorization'', ''Bearer '' @ bt_token t)])"

section \<open>The server's answers\<close>

text \<open>
  What the routes send for the outcomes of the endpoints: the fields of the response models, or
  a problem. The body of another error is left out: the client only reads the status.
\<close>

definition json_response :: "int \<Rightarrow> string \<Rightarrow> pydict \<Rightarrow> response" where
  "json_response status content_type d =
     \<lparr>rs_status = status, rs_content_type = content_type, rs_json = Some (PDict d), rs_reason = [], rs_retry_after = None\<rparr>"

definition enroll_response :: "exn + login_response \<Rightarrow> response" where
  "enroll_response out =
     (case out of
        Inr r \<Rightarrow> json_response 201 ''application/json''
          [(''token'', PStr (lg_token r)), (''handle'', PStr (lg_identity r)), (''expires_in_seconds'', PInt (lg_expires_in r))]
      | Inl (Problem p) \<Rightarrow> json_response (pb_status p) ''application/problem+json'' (problem_body p None)
      | Inl e \<Rightarrow> json_response (exn_status e) ''text/plain'' [])"

definition bind_response :: "exn + orcid_key_record \<Rightarrow> response" where
  "bind_response out =
     (case out of
        Inr r \<Rightarrow> json_response 201 ''application/json''
          [(''orcid_id'', PStr (ok_orcid_id r)), (''key_id'', PStr (ok_key_id r)), (''public_key_b64'', PStr (ok_public_key_b64 r)),
           (''label'', PStr (ok_label r)), (''created_at_unix'', PInt (ok_created_at_unix r)),
           (''revoked_at_unix'', opt_int (ok_revoked_at_unix r))]
      | Inl (Problem p) \<Rightarrow> json_response (pb_status p) ''application/problem+json'' (problem_body p None)
      | Inl e \<Rightarrow> json_response (exn_status e) ''text/plain'' [])"

lemma enroll_understood:
  "enroll_answer (enroll_response (Inr r)) = Inr \<lparr>bt_token = lg_token r, bt_identity_type = ''agent'', bt_identity = Some (lg_identity r)\<rparr>"
  by (simp add: enroll_answer_def enroll_response_def json_response_def checked_def raise_for_status_def broke_def str_of_def
      as_items_def str_item_def)

lemma bind_understood: "ok_revoked_at_unix r = None \<Longrightarrow> bind_answer (bind_response (Inr r)) = Inr r"
  by (cases r) (simp add: bind_answer_def bind_response_def json_response_def checked_def raise_for_status_def broke_def int_of_def
      orcid_record_from_def as_items_def str_item_def dget_def py_int_def opt_int_def)

end
