(* ===== verification/Cred_Table.thy ===== *)
theory Cred_Table
  imports Cred_Store
begin

text \<open>
  What the credential store promises: with either backend it is one table, and the index that
  goes with the keyring holds no secret. The file is a tree of objects, so the laws are those of
  the paths into it: a value is found where it was put, and nothing else moves.
\<close>

section \<open>Paths into the file\<close>

fun look :: "string list \<Rightarrow> pyval \<Rightarrow> pyval option" where
  "look [] v = Some v"
| "look (k # ks) v = (case v of PDict d \<Rightarrow> (case dict_get d k of None \<Rightarrow> None | Some w \<Rightarrow> look ks w) | _ \<Rightarrow> None)"

lemma look_empty [simp]: "look (k # ks) (PDict []) = None"
  by simp

definition apart :: "string list \<Rightarrow> string list \<Rightarrow> bool" where
  "apart p q \<longleftrightarrow> \<not> prefix p q \<and> \<not> prefix q p"

lemma apart_Cons [simp]: "apart (k # p) (k' # q) \<longleftrightarrow> k \<noteq> k' \<or> apart p q"
  "\<not> apart [] q" "\<not> apart p []"
  by (auto simp: apart_def)

lemma look_modify_same:
  "modify_at p (put_item k x) v = Inr w \<Longrightarrow> look (p @ [k]) w = Some x"
  by (induction p arbitrary: v w) (auto simp: put_item_def rbind_Inr_iff split: pyval.splits)

lemma look_put_other: "put_item k x v = Inr w \<Longrightarrow> apart [k] q \<Longrightarrow> look q w = look q v"
  by (cases q) (auto simp: put_item_def split: pyval.splits)

lemma look_modify_other:
  "modify_at p (put_item k x) v = Inr w \<Longrightarrow> apart (p @ [k]) q \<Longrightarrow> look q w = look q v"
proof (induction p arbitrary: v w q)
  case Nil
  then show ?case using look_put_other by simp
next
  case (Cons a p)
  from Cons.prems(1) obtain d u where v: "v = PDict d"
    and u: "modify_at p (put_item k x) (case dict_get d a of None \<Rightarrow> PDict [] | Some w \<Rightarrow> w) = Inr u" "w = PDict (dict_set a u d)"
    by (auto simp: rbind_Inr_iff split: pyval.splits)
  show ?case
  proof (cases q)
    case (Cons b q')
    show ?thesis
    proof (cases "b = a")
      case True
      with Cons Cons.prems(2) have "apart (p @ [k]) q'" by simp
      from Cons.IH [OF u(1) this] this True Cons v u(2) show ?thesis
        by (cases q') (auto split: option.splits)
    qed (use Cons v u(2) in auto)
  qed (use Cons.prems(2) in simp)
qed

text \<open>Objects down to the tables of keys: the form in which the program leaves its file.\<close>

definition sub_dicts :: "string list \<Rightarrow> pydict \<Rightarrow> bool" where
  "sub_dicts ks d \<longleftrightarrow> list_all (\<lambda>k. case dict_get d k of None \<Rightarrow> True | Some w \<Rightarrow> is_dict w) ks"

definition server_form :: "pyval \<Rightarrow> bool" where
  "server_form v = (case v of PDict d \<Rightarrow> sub_dicts [''agent_keys'', ''orcid_keys''] d | _ \<Rightarrow> False)"

definition file_form :: "pyval \<Rightarrow> bool" where
  "file_form v = (case v of
     PDict d \<Rightarrow> (case dict_get d ''credentials'' of
         None \<Rightarrow> True
       | Some (PDict c) \<Rightarrow> (\<forall>api w. dict_get c api = Some w \<longrightarrow> server_form w)
       | Some _ \<Rightarrow> False)
   | _ \<Rightarrow> False)"

definition in_form :: "cred_file \<Rightarrow> bool" where
  "in_form f \<longleftrightarrow> f \<noteq> BadFile \<and> (\<forall>v. f = HasFile v \<longrightarrow> file_form v)"

lemma in_form_load: "in_form f \<longleftrightarrow> (\<exists>v. file_load f = Inr v \<and> file_form v)"
  by (cases f) (auto simp: in_form_def file_load_def no_credentials_def file_form_def)

lemma dict_get_map: "dict_get (map (\<lambda>(k, v). (k, f v)) d) k = map_option f (dict_get d k)"
  by (induction d) auto

lemma dict_get_stable: "dict_get (sort_key fst d) k = dict_get (d :: pydict) k"
proof -
  have hd: "dict_get e k = map_option snd (case filter (\<lambda>kv. fst kv = k) e of [] \<Rightarrow> None | kv # _ \<Rightarrow> Some kv)" for e :: pydict
    by (induction e) auto
  show ?thesis by (simp only: hd [of d] hd [of "sort_key fst d"] sort_key_stable)
qed

lemma sort_json_get:
  "\<exists>e. sort_json (PDict d) = PDict e \<and> (\<forall>k. dict_get e k = map_option sort_json (dict_get d k))"
  by (simp add: dict_get_stable dict_get_map)

lemma look_sort: "look p (sort_json v) = map_option sort_json (look p v)"
proof (induction p arbitrary: v)
  case (Cons k p)
  then show ?case
  proof (cases v)
    case (PDict d)
    then show ?thesis by (simp add: dict_get_stable dict_get_map Cons.IH split: option.split)
  qed simp_all
qed simp

section \<open>The form of the file is kept\<close>

lemma server_form_iff:
  "server_form v \<longleftrightarrow> (\<exists>d. v = PDict d \<and> (\<forall>k \<in> {''agent_keys'', ''orcid_keys''}. \<forall>w. dict_get d k = Some w \<longrightarrow> is_dict w))"
  by (cases v) (auto simp: server_form_def sub_dicts_def split: option.splits)

lemma server_form_empty [simp]: "server_form (PDict [])"
  by (simp add: server_form_iff)

lemma server_form_put:
  "server_form (PDict d) \<Longrightarrow> k \<in> {''agent_keys'', ''orcid_keys''} \<longrightarrow> is_dict w \<Longrightarrow> server_form (PDict (dict_set k w d))"
  by (auto simp: server_form_iff)

lemma server_form_pop: "server_form (PDict d) \<Longrightarrow> server_form (PDict (dict_pop k d))"
  by (auto simp: server_form_iff)

lemma is_dict_sort [simp]: "is_dict (sort_json v) = is_dict v"
  by (cases v) auto

lemma server_form_sort: "server_form v \<Longrightarrow> server_form (sort_json v)"
  by (auto simp: server_form_iff dict_get_stable dict_get_map)

lemma file_form_iff:
  "file_form v \<longleftrightarrow> (\<exists>d. v = PDict d \<and> (\<forall>x. dict_get d ''credentials'' = Some x \<longrightarrow>
     (\<exists>c. x = PDict c \<and> (\<forall>api w. dict_get c api = Some w \<longrightarrow> server_form w))))"
  by (cases v) (auto simp: file_form_def split: option.splits pyval.splits)

lemma file_form_sort: "file_form v \<Longrightarrow> file_form (sort_json v)"
  by (auto simp: file_form_iff dict_get_stable dict_get_map intro!: server_form_sort)

text \<open>The entry of a server, as a value that is there or an empty one.\<close>

definition entry_of :: "string \<Rightarrow> pyval \<Rightarrow> pyval" where
  "entry_of api v = (case look [''credentials'', api] v of None \<Rightarrow> PDict [] | Some w \<Rightarrow> w)"

lemma entry_form: "file_form v \<Longrightarrow> server_form (entry_of api v)"
  by (auto simp: file_form_iff entry_of_def split: option.splits)

lemma server_entry_of: "file_form v \<Longrightarrow> server_entry v api = Inr (entry_of api v)"
  by (auto simp: file_form_iff server_entry_def get_or_def entry_of_def split: option.splits)

lemma look_entry: "file_form v \<Longrightarrow> look (''credentials'' # api # k # q) v = look (k # q) (entry_of api v)"
  by (auto simp: file_form_iff entry_of_def split: option.splits)

lemma modify_server:
  assumes "file_form v" "modify_at ks f (entry_of api v) = Inr x" "server_form x"
  shows "\<exists>w. modify_at (''credentials'' # api # ks) f v = Inr w \<and> file_form w"
  using assms by (fastforce simp: file_form_iff entry_of_def split: option.splits if_splits)

lemma modify_entry:
  assumes "file_form v" "k \<notin> {''agent_keys'', ''orcid_keys''}"
  shows "\<exists>w. modify_at [''credentials'', api] (put_item k x) v = Inr w \<and> file_form w"
proof -
  from entry_form [OF assms(1)] obtain d where d: "entry_of api v = PDict d" "server_form (PDict d)"
    by (force simp: server_form_iff)
  have "modify_at [] (put_item k x) (entry_of api v) = Inr (PDict (dict_set k x d))" by (simp add: d put_item_def)
  from modify_server [OF assms(1) this] server_form_put [OF d(2), of k x] assms(2) show ?thesis by blast
qed

lemma modify_table:
  assumes "file_form v" "t \<in> {''agent_keys'', ''orcid_keys''}"
  shows "\<exists>w. modify_at [''credentials'', api, t] (put_item k x) v = Inr w \<and> file_form w"
proof -
  from entry_form [OF assms(1)] obtain d where d: "entry_of api v = PDict d" "server_form (PDict d)"
    by (force simp: server_form_iff)
  then obtain e where e: "(case dict_get d t of None \<Rightarrow> PDict [] | Some w \<Rightarrow> w) = PDict e"
    using assms(2) by (cases "dict_get d t") (auto simp: server_form_iff is_dict_iff)
  have "modify_at [t] (put_item k x) (entry_of api v) = Inr (PDict (dict_set t (PDict (dict_set k x e)) d))"
    by (simp add: d e put_item_def)
  from modify_server [OF assms(1) this] server_form_put [OF d(2), of t "PDict (dict_set k x e)"] show ?thesis by simp
qed

lemma put_server_form:
  assumes "file_form v" "server_form x"
  shows "file_form (put_server api x v)"
  using assms by (auto simp: put_server_def file_form_iff split: option.splits pyval.splits if_splits)

text \<open>Deleting changes one server's entry, and drops it when nothing is left of it.\<close>

lemma look_put_server:
  assumes "file_form v" "x = PDict d" "entry_of api v = PDict [] \<longrightarrow> d = []"
  shows "look (''credentials'' # a # k # q) (put_server api x v) = (if a = api then look (k # q) x else look (''credentials'' # a # k # q) v)"
  using assms by (auto simp: put_server_def file_form_iff entry_of_def dict_has_def split: option.splits pyval.splits if_splits)

lemma look_put_server_top:
  "file_form v \<Longrightarrow> k \<noteq> ''credentials'' \<Longrightarrow> look (k # q) (put_server api x v) = look (k # q) v"
  by (auto simp: put_server_def file_form_iff split: option.splits pyval.splits)

section \<open>One table of credentials\<close>

datatype cred = Bearer stored_bearer | AgentKey stored_agent_key | OrcidKey stored_orcid_key

datatype cred_key = BearerOf string string | AgentKeyOf string string | OrcidKeyOf string string

fun key_of :: "cred \<Rightarrow> cred_key" where
  "key_of (Bearer r) = BearerOf (sb_api_base r) (sb_identity_type r)"
| "key_of (AgentKey r) = AgentKeyOf (sa_api_base r) (sa_handle r)"
| "key_of (OrcidKey r) = OrcidKeyOf (so_api_base r) (so_orcid_id r)"

fun store_cred :: "'k keyring \<Rightarrow> cred_backend \<Rightarrow> cred \<Rightarrow> 'k cred_step" where
  "store_cred K b (Bearer r) = store_bearer K b r"
| "store_cred K b (AgentKey r) = store_agent_key K b r"
| "store_cred K b (OrcidKey r) = store_orcid_key K b r"

fun delete_cred :: "'k keyring \<Rightarrow> cred_backend \<Rightarrow> cred_key \<Rightarrow> 'k cred_step" where
  "delete_cred K b (BearerOf api t) = delete_bearer K b api t"
| "delete_cred K b (AgentKeyOf api h) = delete_agent_key K b api h"
| "delete_cred K b (OrcidKeyOf api i) = delete_orcid_key K b api i"

definition kind_result :: "('r \<Rightarrow> cred) \<Rightarrow> pyexn + 'r option \<Rightarrow> pyexn + cred option" where
  "kind_result f x = rbind x (\<lambda>r. Inr (map_option f r))"

fun load_cred :: "'k keyring \<Rightarrow> cred_backend \<Rightarrow> cred_key \<Rightarrow> 'k cred_state \<Rightarrow> pyexn + cred option" where
  "load_cred K b (BearerOf api t) s = kind_result Bearer (load_bearer K b api t s)"
| "load_cred K b (AgentKeyOf api h) s = kind_result AgentKey (load_agent_key K b api h s)"
| "load_cred K b (OrcidKeyOf api i) s = kind_result OrcidKey (load_orcid_key K b api i s)"

text \<open>The three identity types and, for a keyring, names that its user names can be told apart by.\<close>

fun valid_key :: "cred_backend \<Rightarrow> cred_key \<Rightarrow> bool" where
  "valid_key b (BearerOf api t) = (t \<in> {''orcid'', ''agent'', ''anonymous''})"
| "valid_key b (AgentKeyOf api h) = (b = InKeyring \<longrightarrow> CHR '':'' \<notin> set h)"
| "valid_key b (OrcidKeyOf api i) = (b = InKeyring \<longrightarrow> CHR '':'' \<notin> set i)"

text \<open>What is read back: an expiry at the time zero is read as no expiry.\<close>

fun read_back :: "cred \<Rightarrow> cred" where
  "read_back (Bearer r) = Bearer (r\<lparr>sb_expires_at_unix := (if sb_expires_at_unix r = Some 0 then None else sb_expires_at_unix r)\<rparr>)"
| "read_back c = c"

fun cred_dict :: "cred \<Rightarrow> pydict" where
  "cred_dict (Bearer r) = bearer_to_dict r"
| "cred_dict (AgentKey r) = agent_key_to_dict r"
| "cred_dict (OrcidKey r) = orcid_key_to_dict r"

fun cred_from :: "cred_key \<Rightarrow> pyval \<Rightarrow> pyexn + cred" where
  "cred_from (BearerOf api t) v = rbind (bearer_from_dict v) (\<lambda>r. Inr (Bearer r))"
| "cred_from (AgentKeyOf api h) v = rbind (agent_key_from_dict v) (\<lambda>r. Inr (AgentKey r))"
| "cred_from (OrcidKeyOf api i) v = rbind (orcid_key_from_dict v) (\<lambda>r. Inr (OrcidKey r))"

fun cred_path :: "cred_key \<Rightarrow> string list" where
  "cred_path (BearerOf api t) = [''credentials'', api, t]"
| "cred_path (AgentKeyOf api h) = [''credentials'', api, ''agent_keys'', h]"
| "cred_path (OrcidKeyOf api i) = [''credentials'', api, ''orcid_keys'', i]"

fun cred_user :: "cred_key \<Rightarrow> string" where
  "cred_user (BearerOf api t) = bearer_username api t"
| "cred_user (AgentKeyOf api h) = agent_key_username api h"
| "cred_user (OrcidKeyOf api i) = orcid_key_username api i"

lemma paths_apart: "valid_key b k \<Longrightarrow> valid_key b k' \<Longrightarrow> k \<noteq> k' \<Longrightarrow> apart (cred_path k) (cred_path k')"
  by (cases k; cases k') auto

lemma last_colon:
  assumes "a @ CHR '':'' # b = c @ CHR '':'' # d" "CHR '':'' \<notin> set b" "CHR '':'' \<notin> set d"
  shows "a = c \<and> b = d"
  using assms by (auto simp: append_eq_append_conv2 Cons_eq_append_conv append_eq_Cons_conv)

lemma key_names: "CHR '':'' \<notin> set ''private-key''" "CHR '':'' \<notin> set ''signing-key''" "CHR '':'' \<notin> set ''orcid''"
    "CHR '':'' \<notin> set ''agent''" "CHR '':'' \<notin> set ''anonymous''"
  by auto

lemma user_last:
  "\<exists>a b. cred_user k = a @ CHR '':'' # b \<and> b = (case k of BearerOf _ t \<Rightarrow> t | AgentKeyOf _ _ \<Rightarrow> ''private-key'' | OrcidKeyOf _ _ \<Rightarrow> ''signing-key'') \<and>
     a = (case k of BearerOf api _ \<Rightarrow> api | AgentKeyOf api h \<Rightarrow> (api @ '':agent'') @ CHR '':'' # h | OrcidKeyOf api i \<Rightarrow> (api @ '':orcid'') @ CHR '':'' # i)"
  by (cases k) (simp_all add: bearer_username_def agent_key_username_def orcid_key_username_def)

lemma users_differ:
  assumes "valid_key InKeyring k" "valid_key InKeyring k'" "cred_user k = cred_user k'"
  shows "k = k'"
proof -
  let ?b = "\<lambda>k. case k of BearerOf _ t \<Rightarrow> t | AgentKeyOf _ _ \<Rightarrow> ''private-key'' | OrcidKeyOf _ _ \<Rightarrow> ''signing-key''"
  let ?a = "\<lambda>k. case k of BearerOf api _ \<Rightarrow> api | AgentKeyOf api h \<Rightarrow> (api @ '':agent'') @ CHR '':'' # h | OrcidKeyOf api i \<Rightarrow> (api @ '':orcid'') @ CHR '':'' # i"
  have free: "CHR '':'' \<notin> set (?b k)" if "valid_key InKeyring k" for k
    using that by (cases k) auto
  have "?a k @ CHR '':'' # ?b k = ?a k' @ CHR '':'' # ?b k'"
    using user_last [of k] user_last [of k'] assms(3) by metis
  from last_colon [OF this free [OF assms(1)] free [OF assms(2)]]
  have ab: "?a k = ?a k'" "?b k = ?b k'" by auto
  show ?thesis
  proof (cases k)
    case (BearerOf api t)
    then show ?thesis using ab assms(1, 2) by (cases k') auto
  next
    case (AgentKeyOf api h)
    then obtain api' h' where k': "k' = AgentKeyOf api' h'" using ab(2) assms(2) by (cases k') auto
    from last_colon [of "api @ '':agent''" h "api' @ '':agent''" h'] show ?thesis
      using ab(1) assms(1, 2) by (simp add: AgentKeyOf k')
  next
    case (OrcidKeyOf api h)
    then obtain api' h' where k': "k' = OrcidKeyOf api' h'" using ab(2) assms(2) by (cases k') auto
    from last_colon [of "api @ '':orcid''" h "api' @ '':orcid''" h'] show ?thesis
      using ab(1) assms(1, 2) by (simp add: OrcidKeyOf k')
  qed
qed

section \<open>Reading records back\<close>

lemma str_item_sort: "str_item (sort_key fst (map (\<lambda>(k, v). (k, sort_json v)) d)) k = str_item d k"
  by (auto simp: str_item_def dict_get_stable dict_get_map split: option.split pyval.splits)

lemma dget_sort: "dget (sort_key fst (map (\<lambda>(k, v). (k, sort_json v)) d)) k = sort_json (dget d k)"
  by (simp add: dget_def dict_get_stable dict_get_map split: option.split)

lemma opt_item_sort: "opt_item (sort_key fst (map (\<lambda>(k, v). (k, sort_json v)) d)) k = opt_item d k"
  by (auto simp: opt_item_def dget_sort split: pyval.split)

lemma truthy_sort: "truthy (sort_json v) = truthy v"
proof (cases v)
  case (PDict d)
  have "sort_key fst (map (\<lambda>(k, v). (k, sort_json v)) d) = [] \<longleftrightarrow> d = []"
    by (metis length_0_conv length_map length_sort)
  then show ?thesis by (simp add: PDict)
qed simp_all

lemma py_int_sort: "py_int (sort_json v) = py_int v"
  by (cases v) (simp_all add: py_int_def)

lemma from_sorted: "cred_from k (sort_json v) = cred_from k v"
proof (cases v)
  case (PDict d)
  show ?thesis
    by (cases k; cases "dict_get d ''issued_at_unix''"; cases "dict_get d ''label''") (simp_all add: PDict bearer_from_dict_def agent_key_from_dict_def orcid_key_from_dict_def as_items_def
        str_item_sort opt_item_sort dget_sort truthy_sort py_int_sort dict_get_stable dict_get_map o_def)
qed (cases k; simp add: bearer_from_dict_def agent_key_from_dict_def orcid_key_from_dict_def as_items_def)+

lemma text_or_none_item: "(case text_or_none v of PNone \<Rightarrow> Inr None | PStr s \<Rightarrow> Inr (Some s) | _ \<Rightarrow> Inl TypeError) = Inr v"
  by (simp add: text_or_none_def split: option.split)

lemma from_dict_back: "cred_from (key_of c) (PDict (cred_dict c)) = Inr (read_back c)"
proof (cases c)
  case (Bearer r)
  then show ?thesis
    by (cases "sb_expires_at_unix r")
      (auto simp: bearer_from_dict_def as_items_def bearer_to_dict_def str_item_def opt_item_def dget_def text_or_none_item opt_int_def py_int_def)
next
  case (AgentKey r)
  then show ?thesis by (simp add: agent_key_from_dict_def as_items_def agent_key_to_dict_def str_item_def)
next
  case (OrcidKey r)
  then show ?thesis by (simp add: orcid_key_from_dict_def as_items_def orcid_key_to_dict_def str_item_def)
qed

definition read_entry :: "cred_key \<Rightarrow> pyval option \<Rightarrow> pyexn + cred option" where
  "read_entry k raw = (case raw of None \<Rightarrow> Inr None | Some v \<Rightarrow> if v = PNone then Inr None else rbind (cred_from k v) (\<lambda>c. Inr (Some c)))"

lemma read_entry_sort: "read_entry k (map_option sort_json raw) = read_entry k raw"
proof -
  have "sort_json v = PNone \<longleftrightarrow> v = PNone" for v by (cases v) auto
  then show ?thesis by (simp add: read_entry_def from_sorted split: option.split)
qed

text \<open>Loading is a look down the path of the key.\<close>

lemma get_or_dict: "get_or (PDict d) k x = Inr (case dict_get d k of None \<Rightarrow> x | Some w \<Rightarrow> w)"
  by (simp add: get_or_def)

lemma rbind_rbind: "rbind (rbind m f) g = rbind m (\<lambda>x. rbind (f x) g)"
  by (cases m) simp_all

lemma kind_result_found:
  "kind_result f (found from raw) = (if raw = PNone then Inr None else rbind (from raw) (\<lambda>r. Inr (Some (f r))))"
  by (cases "from raw") (simp_all add: kind_result_def found_def)

lemma load_from_file:
  assumes "file_load (cr_file s) = Inr v" "file_form v"
  shows "load_cred K InFile k s = read_entry k (look (cred_path k) v)"
proof -
  have form: "\<exists>d. entry_of api v = PDict d \<and> (\<forall>t \<in> {''agent_keys'', ''orcid_keys''}. \<forall>w. dict_get d t = Some w \<longrightarrow> is_dict w)" for api
    using entry_form [OF assms(2)] by (simp add: server_form_iff)
  have table: "kind_result f (rbind (get_or (entry_of api v) t (PDict [])) (\<lambda>keys. rbind (get_or keys h PNone) (found from))) =
      (case look [''credentials'', api, t, h] v of None \<Rightarrow> Inr None | Some raw \<Rightarrow> kind_result f (found from raw))"
    if "t \<in> {''agent_keys'', ''orcid_keys''}" for f :: "'r \<Rightarrow> cred" and api t h "from"
  proof -
    from form [of api] obtain d where d: "entry_of api v = PDict d"
      and tables: "\<forall>t \<in> {''agent_keys'', ''orcid_keys''}. \<forall>w. dict_get d t = Some w \<longrightarrow> is_dict w" by (elim exE conjE)
    have l: "look [''credentials'', api, t, h] v = look [t, h] (PDict d)"
      by (simp only: look_entry [OF assms(2)] d)
    show ?thesis
    proof (cases "dict_get d t")
      case None
      then show ?thesis unfolding l d by (simp add: get_or_dict kind_result_found)
    next
      case (Some w)
      with bspec [OF tables that] obtain e where "w = PDict e" by (auto simp: is_dict_iff)
      with Some show ?thesis unfolding l d by (simp add: get_or_dict kind_result_found split: option.split)
    qed
  qed
  show ?thesis
  proof (cases k)
    case (BearerOf api t)
    from form [of api] obtain d where d: "entry_of api v = PDict d" by blast
    have l: "look [''credentials'', api, t] v = dict_get d t"
      by (simp only: look_entry [OF assms(2)] d) (simp split: option.split)
    show ?thesis
      by (simp add: BearerOf load_bearer_def file_load_bearer_def assms server_entry_of d l get_or_dict read_entry_def
          kind_result_found rbind_rbind del: look.simps split: option.split)
  next
    case (AgentKeyOf api h)
    then show ?thesis
      by (simp only: AgentKeyOf load_cred.simps load_agent_key_def file_load_agent_key_def assms(1) server_entry_of [OF assms(2)] rbind_simps
          cred_backend.simps if_False table insert_iff simp_thms cred_path.simps)
        (simp add: read_entry_def kind_result_found AgentKeyOf rbind_rbind del: look.simps split: option.split)
  next
    case (OrcidKeyOf api h)
    then show ?thesis
      by (simp only: OrcidKeyOf load_cred.simps load_orcid_key_def file_load_orcid_key_def assms(1) server_entry_of [OF assms(2)] rbind_simps
          cred_backend.simps if_False table insert_iff simp_thms cred_path.simps)
        (simp add: read_entry_def kind_result_found OrcidKeyOf rbind_rbind del: look.simps split: option.split)
  qed
qed

section \<open>Deleting from the file\<close>

fun drop_from_file :: "cred_key \<Rightarrow> mutator" where
  "drop_from_file (BearerOf api t) = file_delete_bearer api t"
| "drop_from_file (AgentKeyOf api h) = file_delete_agent_key api h"
| "drop_from_file (OrcidKeyOf api i) = file_delete_orcid_key api i"

lemma pop_nil [simp]: "dict_pop k [] = []"
  by (simp add: dict_pop_def)

lemma look_put_other_server:
  "file_form v \<Longrightarrow> a \<noteq> api \<Longrightarrow> look (''credentials'' # a # q) (put_server api x v) = look (''credentials'' # a # q) v"
  by (auto simp: put_server_def file_form_iff split: option.splits pyval.splits)

text \<open>A change of a server's entry that forgets one path in it.\<close>

definition forgets :: "string list \<Rightarrow> pyval \<Rightarrow> pyval \<Rightarrow> bool" where
  "forgets p v w \<longleftrightarrow> look p w = None \<and> (\<forall>q. apart p q \<longrightarrow> look q w = look q v)"

lemma forgets_item: "forgets [k] (PDict d) (PDict (dict_pop k d))"
proof -
  have "look q (PDict (dict_pop k d)) = look q (PDict d)" if "apart [k] q" for q
    using that by (cases q) auto
  then show ?thesis by (simp add: forgets_def)
qed

lemma pop_empty: "dict_pop k e = [] \<Longrightarrow> k' \<noteq> k \<Longrightarrow> dict_get e k' = None"
  by (metis dict_get_pop map_of.simps(1))

lemma forgets_key:
  assumes "case dict_get d t of None \<Rightarrow> True | Some w \<Rightarrow> is_dict w"
  shows "\<exists>e. pop_key t h (PDict d) = Inr (PDict e) \<and> (d = [] \<longrightarrow> e = []) \<and> forgets [t, h] (PDict d) (PDict e) \<and>
    (\<forall>k. k \<noteq> t \<longrightarrow> dict_get e k = dict_get d k) \<and> (\<forall>w. dict_get e t = Some w \<longrightarrow> is_dict w)"
proof -
  obtain ks where ks: "(case dict_get d t of None \<Rightarrow> PDict [] | Some w \<Rightarrow> w) = PDict ks"
    using assms by (auto simp: is_dict_iff split: option.splits)
  let ?e = "if dict_pop h ks = [] then dict_pop t d else dict_set t (PDict (dict_pop h ks)) d"
  have pop: "pop_key t h (PDict d) = Inr (PDict ?e)"
    by (simp add: pop_key_def get_or_dict ks pop_item_def put_item_def)
  have "look q (PDict ?e) = look q (PDict d)" if apart: "apart [t, h] q" for q
  proof (cases q)
    case (Cons a r)
    show ?thesis
    proof (cases "a = t")
      case True
      with apart Cons obtain b u where r: "r = b # u" "b \<noteq> h" by (cases r) auto
      have "look (t # b # u) (PDict d) = look (b # u) (PDict ks)" for u
        using ks by (auto split: option.splits)
      with r show ?thesis using pop_empty [of h ks b] by (simp add: Cons True split: option.split)
    qed (simp add: Cons)
  qed (use apart in simp)
  then have "forgets [t, h] (PDict d) (PDict ?e)" by (simp add: forgets_def)
  moreover have "d = [] \<longrightarrow> ?e = []" using ks by auto
  ultimately show ?thesis using pop by auto
qed

lemma forgets_server:
  assumes "file_form v" "entry_of api v = PDict d" "d = [] \<longrightarrow> e = []" "forgets (k # p) (PDict d) (PDict e)"
  shows "forgets (''credentials'' # api # k # p) v (put_server api (PDict e) v)"
proof -
  have look: "look (''credentials'' # api # a # r) (put_server api (PDict e) v) = look (a # r) (PDict e)" for a r
    using look_put_server [OF assms(1), of "PDict e" e api api a r] assms(2, 3) by simp
  have "look q (put_server api (PDict e) v) = look q v" if q: "apart (''credentials'' # api # k # p) q" for q
  proof (cases q)
    case (Cons c r)
    show ?thesis
    proof (cases "c = ''credentials''")
      case c: True
      with Cons q obtain a u where r: "r = a # u" by (cases r) auto
      show ?thesis
      proof (cases "a = api")
        case a: True
        with c Cons r q obtain b w where u: "u = b # w" by (cases u) auto
        have "look (b # w) (PDict e) = look (b # w) (PDict d)"
          using assms(4) q by (simp add: forgets_def c Cons r a u del: look.simps)
        then show ?thesis unfolding Cons c r a u look look_entry [OF assms(1)] assms(2) .
      next
        case False
        show ?thesis unfolding Cons c r by (rule look_put_other_server [OF assms(1) False])
      qed
    next
      case False
      show ?thesis unfolding Cons by (rule look_put_server_top [OF assms(1) False])
    qed
  qed (use q in simp)
  moreover have "look (''credentials'' # api # k # p) (put_server api (PDict e) v) = None"
    unfolding look using assms(4) by (simp add: forgets_def)
  ultimately show ?thesis unfolding forgets_def by blast
qed

lemma drop_forgets:
  assumes "file_form v" "valid_key b k"
  shows "\<exists>w. drop_from_file k v = Inr w \<and> file_form w \<and> forgets (cred_path k) v w"
proof -
  have keys: "\<exists>w. rbind (server_entry v api) (\<lambda>server. rbind (pop_key t h server) (\<lambda>x. Inr (put_server api x v))) = Inr w \<and>
      file_form w \<and> forgets [''credentials'', api, t, h] v w" if "t \<in> {''agent_keys'', ''orcid_keys''}" for api t h
  proof -
    from entry_form [OF assms(1), of api] obtain d where d: "entry_of api v = PDict d"
      and tables: "\<forall>t \<in> {''agent_keys'', ''orcid_keys''}. \<forall>w. dict_get d t = Some w \<longrightarrow> is_dict w"
      unfolding server_form_iff by (elim exE conjE)
    have "case dict_get d t of None \<Rightarrow> True | Some w \<Rightarrow> is_dict w"
      using bspec [OF tables that] by (simp split: option.split)
    from forgets_key [OF this, of h] obtain e where e: "pop_key t h (PDict d) = Inr (PDict e)" "d = [] \<longrightarrow> e = []"
      "forgets [t, h] (PDict d) (PDict e)" "\<forall>k. k \<noteq> t \<longrightarrow> dict_get e k = dict_get d k" "\<forall>w. dict_get e t = Some w \<longrightarrow> is_dict w"
      by (elim exE conjE)
    have "server_form (PDict e)"
      unfolding server_form_iff using tables e(4, 5) by (metis)
    from put_server_form [OF assms(1) this, of api] forgets_server [OF assms(1) d e(2, 3)] show ?thesis
      by (simp add: server_entry_of [OF assms(1)] d e(1))
  qed
  show ?thesis
  proof (cases k)
    case (BearerOf api t)
    from entry_form [OF assms(1), of api] obtain d where d: "entry_of api v = PDict d" by (auto simp: server_form_iff)
    have f: "server_form (PDict (dict_pop t d))" using entry_form [OF assms(1), of api] by (simp add: d server_form_pop)
    from put_server_form [OF assms(1) f, of api] forgets_server [OF assms(1) d _ forgets_item] show ?thesis
      by (simp add: BearerOf file_delete_bearer_def server_entry_of [OF assms(1)] d pop_item_def)
  next
    case (AgentKeyOf api h)
    from keys [of "''agent_keys''" api h] show ?thesis by (simp add: AgentKeyOf file_delete_agent_key_def)
  next
    case (OrcidKeyOf api h)
    from keys [of "''orcid_keys''" api h] show ?thesis by (simp add: OrcidKeyOf file_delete_orcid_key_def)
  qed
qed

section \<open>The store is a table\<close>

text \<open>What is relied on of the keyring library: a password is found as it was set, until it is deleted.\<close>

definition keyring_laws :: "'k keyring \<Rightarrow> bool" where
  "keyring_laws K \<longleftrightarrow>
     (\<forall>r u v u'. kr_get K (kr_put K u v r) u' = (if u' = u then Some v else kr_get K r u')) \<and>
     (\<forall>r u u'. kr_get K (kr_drop K u r) u' = (if u' = u then None else kr_get K r u'))"

fun file_entry :: "cred_backend \<Rightarrow> cred \<Rightarrow> mutator option" where
  "file_entry InFile (Bearer r) = Some (file_set_bearer r)"
| "file_entry InFile (AgentKey r) = Some (file_set_agent_key r)"
| "file_entry InFile (OrcidKey r) = Some (file_set_orcid_key r)"
| "file_entry InKeyring (Bearer r) = Some (index_set_bearer r)"
| "file_entry InKeyring (AgentKey r) = Some (index_set_agent_key r)"
| "file_entry InKeyring (OrcidKey r) = None"

definition update_with :: "mutator option \<Rightarrow> 'k cred_step" where
  "update_with f s = (case f of None \<Rightarrow> (Inr (), s) | Some g \<Rightarrow> file_update g s)"

lemma store_cred_steps:
  "store_cred K b c s = update_with (file_entry b c)
     (if b = InKeyring then ring_put K (cred_user (key_of c)) (cred_dict c) s else s)"
  by (cases c; cases b) (simp_all add: store_bearer_def store_agent_key_def store_orcid_key_def update_with_def)

lemma delete_cred_steps:
  "delete_cred K b k s = update_with (if b = InKeyring \<and> (\<exists>api i. k = OrcidKeyOf api i) then None else Some (drop_from_file k))
     (if b = InKeyring then ring_drop K (cred_user k) s else s)"
  by (cases k; cases b) (simp_all add: delete_bearer_def delete_agent_key_def delete_orcid_key_def update_with_def)

lemma load_from_ring:
  "load_cred K InKeyring k s = (case kr_get K (cr_ring s) (cred_user k) of None \<Rightarrow> Inr None | Some v \<Rightarrow> rbind (cred_from k v) (\<lambda>c. Inr (Some c)))"
  by (cases k) (simp_all add: load_bearer_def load_agent_key_def load_orcid_key_def ring_load_def kind_result_def rbind_rbind
      split: option.split)

text \<open>Every change of the file puts one value at the path of its key.\<close>

lemma entry_put:
  assumes "file_form v" "valid_key b (key_of c)" "file_entry b c = Some f"
  shows "\<exists>w. f v = Inr w \<and> file_form w \<and> (\<forall>q. apart (cred_path (key_of c)) q \<longrightarrow> look q w = look q v) \<and>
    (b = InFile \<longrightarrow> look (cred_path (key_of c)) w = Some (PDict (cred_dict c)))"
proof -
  have "\<exists>p k x. f = modify_at p (put_item k x) \<and> cred_path (key_of c) = p @ [k] \<and>
      (\<exists>w. modify_at p (put_item k x) v = Inr w \<and> file_form w) \<and> (b = InFile \<longrightarrow> x = PDict (cred_dict c))"
  proof (cases c)
    case (Bearer r)
    with assms(2) have "sb_identity_type r \<notin> {''agent_keys'', ''orcid_keys''}" by auto
    note ok = modify_entry [OF assms(1) this, of "sb_api_base r"]
    from assms(3) Bearer have f: "f = modify_at [''credentials'', sb_api_base r] (put_item (sb_identity_type r)
        (PDict (if b = InFile then bearer_to_dict r else dict_set ''token'' (PStr redacted) (bearer_to_dict r))))"
      by (cases b) (simp_all add: file_set_bearer_def index_set_bearer_def Let_def)
    show ?thesis unfolding f
      by (rule exI [of _ "[''credentials'', sb_api_base r]"], rule exI [of _ "sb_identity_type r"], rule exI, rule conjI [OF refl])
        (simp only: ok, simp add: Bearer)
  next
    case (AgentKey r)
    from assms(3) AgentKey have f: "f = modify_at [''credentials'', sa_api_base r, ''agent_keys''] (put_item (sa_handle r)
        (PDict (if b = InFile then agent_key_to_dict r else foldl redact (agent_key_to_dict r) [''private_key_b64'', ''private_key'', ''secret''])))"
      by (cases b) (simp_all add: file_set_agent_key_def index_set_agent_key_def Let_def)
    show ?thesis unfolding f
      by (rule exI [of _ "[''credentials'', sa_api_base r, ''agent_keys'']"], rule exI [of _ "sa_handle r"], rule exI, rule conjI [OF refl])
        (use modify_table [OF assms(1), of "''agent_keys''" "sa_api_base r"] in \<open>simp only: insertI1, simp add: AgentKey\<close>)
  next
    case (OrcidKey r)
    from assms(3) OrcidKey have f: "b = InFile" "f = modify_at [''credentials'', so_api_base r, ''orcid_keys''] (put_item (so_orcid_id r) (PDict (orcid_key_to_dict r)))"
      by (cases b; simp add: file_set_orcid_key_def)+
    show ?thesis unfolding f(2)
      by (rule exI [of _ "[''credentials'', so_api_base r, ''orcid_keys'']"], rule exI [of _ "so_orcid_id r"], rule exI, rule conjI [OF refl])
        (use modify_table [OF assms(1), of "''orcid_keys''" "so_api_base r"] in \<open>simp only: insertI1 insertI2, simp add: OrcidKey f(1)\<close>)
  qed
  then show ?thesis using look_modify_same look_modify_other by metis
qed

lemma file_update_result:
  fixes s :: "'k cred_state"
  assumes "file_load (cr_file s) = Inr v" "f v = Inr w" "file_form w"
  shows "file_update f s = (Inr (), s\<lparr>cr_file := HasFile (sort_json w)\<rparr>) \<and> in_form (HasFile (sort_json w)) \<and>
    (\<forall>K k. load_cred K InFile k (s\<lparr>cr_file := HasFile (sort_json w)\<rparr>) = read_entry k (look (cred_path k) w))"
proof -
  have form: "file_form (sort_json w)" using assms(3) by (rule file_form_sort)
  have "load_cred K InFile k (s\<lparr>cr_file := HasFile (sort_json w)\<rparr>) = read_entry k (look (cred_path k) w)" for K :: "'k keyring" and k
    using load_from_file [of "s\<lparr>cr_file := HasFile (sort_json w)\<rparr>" "sort_json w" K k] form
    by (simp add: file_load_def look_sort read_entry_sort)
  then show ?thesis using assms form by (simp add: file_update_def file_save_def in_form_def)
qed

text \<open>What a step does to the credentials that can be loaded, and that it neither raises nor spoils the file.\<close>

definition sets :: "'k keyring \<Rightarrow> cred_backend \<Rightarrow> cred_key \<Rightarrow> cred option \<Rightarrow> 'k cred_state \<Rightarrow> (pyexn + unit) \<times> 'k cred_state \<Rightarrow> bool" where
  "sets K b k c s out \<longleftrightarrow> fst out = Inr () \<and> in_form (cr_file (snd out)) \<and>
     (\<forall>k'. valid_key b k' \<longrightarrow> load_cred K b k' (snd out) = (if k' = k then Inr c else load_cred K b k' s))"

lemma ring_only: "load_cred K InKeyring k (s\<lparr>cr_file := f\<rparr>) = load_cred K InKeyring k s"
  by (simp add: load_from_ring)

lemma update_keeps_ring:
  assumes "in_form (cr_file s)" "\<forall>g v. f = Some g \<and> file_form v \<longrightarrow> (\<exists>w. g v = Inr w \<and> file_form w)"
  shows "\<exists>t. update_with f s = (Inr (), t) \<and> in_form (cr_file t) \<and> (\<forall>k. load_cred K InKeyring k t = load_cred K InKeyring k s)"
proof (cases f)
  case None
  then show ?thesis using assms(1) by (simp add: update_with_def)
next
  case (Some g)
  from assms(1) obtain v where v: "file_load (cr_file s) = Inr v" "file_form v" by (auto simp: in_form_load)
  from assms(2) Some v(2) obtain w where w: "g v = Inr w" "file_form w" by blast
  from file_update_result [where f = g, OF v(1) w(1, 2)] show ?thesis by (simp add: update_with_def Some ring_only)
qed

lemma store_cred_sets:
  assumes "keyring_laws K" "in_form (cr_file s)" "valid_key b (key_of c)"
  shows "sets K b (key_of c) (Some (read_back c)) s (store_cred K b c s)"
proof (cases b)
  case InFile
  from assms(2) obtain v where v: "file_load (cr_file s) = Inr v" "file_form v" by (auto simp: in_form_load)
  obtain f where f: "file_entry InFile c = Some f" by (cases c) auto
  from entry_put [OF v(2) assms(3) [unfolded InFile] f] obtain w where w: "f v = Inr w" "file_form w"
    "\<forall>q. apart (cred_path (key_of c)) q \<longrightarrow> look q w = look q v" "look (cred_path (key_of c)) w = Some (PDict (cred_dict c))" by auto
  have "read_entry k (look (cred_path k) w) = (if k = key_of c then Inr (Some (read_back c)) else read_entry k (look (cred_path k) v))"
    if "valid_key b k" for k
    using w(3, 4) paths_apart [OF assms(3) that] by (auto simp: read_entry_def from_dict_back)
  with file_update_result [where f = f, OF v(1) w(1, 2)] show ?thesis
    by (simp add: sets_def InFile store_cred_steps f update_with_def load_from_file [OF v])
next
  case InKeyring
  let ?s = "ring_put K (cred_user (key_of c)) (cred_dict c) s"
  have form: "in_form (cr_file ?s)" using assms(2) by (simp add: ring_put_def)
  obtain t where t: "update_with (file_entry InKeyring c) ?s = (Inr (), t)" "in_form (cr_file t)"
    "\<forall>k. load_cred K InKeyring k t = load_cred K InKeyring k ?s"
    using update_keeps_ring [OF form, of "file_entry InKeyring c" K] entry_put [OF _ assms(3)] InKeyring by blast
  have "load_cred K InKeyring k ?s = (if k = key_of c then Inr (Some (read_back c)) else load_cred K InKeyring k s)"
    if "valid_key b k" for k
    using assms(1) users_differ [of k "key_of c"] that assms(3) InKeyring by (auto simp: load_from_ring ring_put_def keyring_laws_def from_dict_back)
  with t show ?thesis by (simp add: sets_def InKeyring store_cred_steps)
qed

lemma delete_cred_sets:
  assumes "keyring_laws K" "in_form (cr_file s)" "valid_key b k"
  shows "sets K b k None s (delete_cred K b k s)"
proof (cases b)
  case InFile
  from assms(2) obtain v where v: "file_load (cr_file s) = Inr v" "file_form v" by (auto simp: in_form_load)
  from drop_forgets [OF v(2) assms(3)] obtain w where w: "drop_from_file k v = Inr w" "file_form w" "forgets (cred_path k) v w" by blast
  have "read_entry k' (look (cred_path k') w) = (if k' = k then Inr None else read_entry k' (look (cred_path k') v))"
    if "valid_key b k'" for k'
    using w(3) paths_apart [OF assms(3) that] by (auto simp: forgets_def read_entry_def)
  with file_update_result [where f = "drop_from_file k", OF v(1) w(1, 2)] show ?thesis
    by (simp add: sets_def InFile delete_cred_steps update_with_def load_from_file [OF v])
next
  case InKeyring
  let ?s = "ring_drop K (cred_user k) s"
  let ?f = "if \<exists>api i. k = OrcidKeyOf api i then None else Some (drop_from_file k)"
  have form: "in_form (cr_file ?s)" using assms(2) by (simp add: ring_drop_def)
  have ok: "\<forall>g v. ?f = Some g \<and> file_form v \<longrightarrow> (\<exists>w. g v = Inr w \<and> file_form w)"
    using drop_forgets [OF _ assms(3)] by (fastforce split: if_splits)
  obtain t where t: "update_with ?f ?s = (Inr (), t)" "in_form (cr_file t)"
    "\<forall>k. load_cred K InKeyring k t = load_cred K InKeyring k ?s"
    using update_keeps_ring [OF form ok, of K] by blast
  have "load_cred K InKeyring k' ?s = (if k' = k then Inr None else load_cred K InKeyring k' s)" if "valid_key b k'" for k'
    using assms(1) users_differ [of k' k] that assms(3) InKeyring by (auto simp: load_from_ring ring_drop_def keyring_laws_def)
  with t show ?thesis by (simp add: sets_def InKeyring delete_cred_steps)
qed

datatype cred_op = Store cred | Delete cred_key

fun run_ops :: "'k keyring \<Rightarrow> cred_backend \<Rightarrow> cred_op list \<Rightarrow> 'k cred_step" where
  "run_ops K b [] s = (Inr (), s)"
| "run_ops K b (Store c # ops) s = (case store_cred K b c s of (Inl e, t) \<Rightarrow> (Inl e, t) | (Inr _, t) \<Rightarrow> run_ops K b ops t)"
| "run_ops K b (Delete k # ops) s = (case delete_cred K b k s of (Inl e, t) \<Rightarrow> (Inl e, t) | (Inr _, t) \<Rightarrow> run_ops K b ops t)"

fun op_key :: "cred_op \<Rightarrow> cred_key" where
  "op_key (Store c) = key_of c"
| "op_key (Delete k) = k"

fun op_effect :: "cred_op \<Rightarrow> cred option" where
  "op_effect (Store c) = Some (read_back c)"
| "op_effect (Delete k) = None"

definition table_after :: "cred_op list \<Rightarrow> (cred_key \<Rightarrow> cred option) \<Rightarrow> cred_key \<Rightarrow> cred option" where
  "table_after ops T = fold (\<lambda>op T. T(op_key op := op_effect op)) ops T"

lemma run_op_sets:
  assumes "keyring_laws K" "in_form (cr_file s)" "valid_key b (op_key op)"
  shows "\<exists>t. run_ops K b (op # ops) s = run_ops K b ops t \<and> sets K b (op_key op) (op_effect op) s (Inr (), t)"
proof (cases op)
  case (Store c)
  from store_cred_sets [OF assms(1, 2), where c = c and b = b] assms(3) Store show ?thesis
    by (cases "store_cred K b c s") (auto simp: sets_def split: sum.split)
next
  case (Delete k)
  from delete_cred_sets [OF assms(1, 2), where k = k and b = b] assms(3) Delete show ?thesis
    by (cases "delete_cred K b k s") (auto simp: sets_def split: sum.split)
qed

lemma run_ops_table:
  assumes "keyring_laws K" "in_form (cr_file s)" "\<forall>op \<in> set ops. valid_key b (op_key op)"
    and "\<forall>k. valid_key b k \<longrightarrow> load_cred K b k s = Inr (T k)"
  shows "\<exists>t. run_ops K b ops s = (Inr (), t) \<and> (\<forall>k. valid_key b k \<longrightarrow> load_cred K b k t = Inr (table_after ops T k))"
  using assms(2-)
proof (induction ops arbitrary: s T)
  case Nil
  then show ?case by (simp add: table_after_def)
next
  case (Cons op ops)
  obtain t where t: "run_ops K b (op # ops) s = run_ops K b ops t" "sets K b (op_key op) (op_effect op) s (Inr (), t)"
    using run_op_sets [OF assms(1) Cons.prems(1), of b op ops] Cons.prems(2) by fastforce
  have "load_cred K b k t = Inr ((T(op_key op := op_effect op)) k)" if "valid_key b k" for k
    using t(2) Cons.prems(3) that by (simp add: sets_def)
  then have "\<exists>u. run_ops K b ops t = (Inr (), u) \<and>
      (\<forall>k. valid_key b k \<longrightarrow> load_cred K b k u = Inr (table_after ops (T(op_key op := op_effect op)) k))"
    using t(2) Cons.prems(2) by (intro Cons.IH) (simp_all add: sets_def)
  then show ?case by (simp add: t(1) table_after_def)
qed

text \<open>
  C17: with either backend the credential store is one table from the server and the kind and
  name of a credential to the credential: any sequence of stores and deletions of bearers,
  agent keys and ORCID keys goes through without an exception, and what is loaded afterwards
  under any key is what the last of them for that key stored, unless it deleted it.
\<close>

theorem credentials_refine_table:
  assumes "keyring_laws K" "in_form (cr_file s)" "\<forall>op \<in> set ops. valid_key b (op_key op)"
    and "\<forall>k. valid_key b k \<longrightarrow> load_cred K b k s = Inr (T k)"
  shows "\<exists>t. run_ops K b ops s = (Inr (), t) \<and> (\<forall>k. valid_key b k \<longrightarrow> load_cred K b k t = Inr (table_after ops T k))"
  by (rule run_ops_table [OF assms])

definition toy_keyring :: "(string \<times> pyval) list keyring" where
  "toy_keyring = \<lparr>kr_get = (\<lambda>r u. dict_get r u), kr_put = dict_set, kr_drop = dict_pop\<rparr>"

lemma toy_keyring_laws: "keyring_laws toy_keyring"
  by (simp add: keyring_laws_def toy_keyring_def)

definition example_bearer :: stored_bearer where
  "example_bearer = \<lparr>sb_api_base = ''http://h:1'', sb_identity_type = ''agent'', sb_identity = Some ''@a'', sb_token = ''t'',
     sb_issued_at_unix = 1, sb_expires_at_unix = Some 9\<rparr>"

theorem credentials_refine_table_witness:
  "\<exists>t. run_ops toy_keyring InKeyring
       [Store (Bearer example_bearer), Store (AgentKey \<lparr>sa_api_base = ''http://h:1'', sa_handle = ''@a'', sa_private_key_b64 = ''k''\<rparr>),
        Delete (BearerOf ''http://h:1'' ''agent'')] \<lparr>cr_file = NoFile, cr_ring = []\<rparr> = (Inr (), t) \<and>
     load_cred toy_keyring InKeyring (AgentKeyOf ''http://h:1'' ''@a'') t =
       Inr (Some (AgentKey \<lparr>sa_api_base = ''http://h:1'', sa_handle = ''@a'', sa_private_key_b64 = ''k''\<rparr>)) \<and>
     load_cred toy_keyring InKeyring (BearerOf ''http://h:1'' ''agent'') t = Inr None"
proof -
  let ?ops = "[Store (Bearer example_bearer), Store (AgentKey \<lparr>sa_api_base = ''http://h:1'', sa_handle = ''@a'', sa_private_key_b64 = ''k''\<rparr>),
        Delete (BearerOf ''http://h:1'' ''agent'')]"
  have empty: "\<forall>k. valid_key InKeyring k \<longrightarrow> load_cred toy_keyring InKeyring k \<lparr>cr_file = NoFile, cr_ring = []\<rparr> = Inr ((\<lambda>_. None) k)"
    by (simp add: load_from_ring toy_keyring_def)
  have "\<forall>op \<in> set ?ops. valid_key InKeyring (op_key op)" "in_form NoFile" by (simp_all add: example_bearer_def in_form_def)
  with credentials_refine_table [OF toy_keyring_laws _ _ empty, of ?ops] obtain t where
    "run_ops toy_keyring InKeyring ?ops \<lparr>cr_file = NoFile, cr_ring = []\<rparr> = (Inr (), t)"
    and t: "\<And>k. valid_key InKeyring k \<Longrightarrow> load_cred toy_keyring InKeyring k t = Inr (table_after ?ops (\<lambda>_. None) k)" by auto
  with t [of "AgentKeyOf ''http://h:1'' ''@a''"] t [of "BearerOf ''http://h:1'' ''agent''"] show ?thesis
    by (simp add: table_after_def example_bearer_def)
qed

section \<open>The index holds no secret\<close>

definition shows_secret :: "string \<Rightarrow> pyval \<Rightarrow> bool" where
  "shows_secret k v \<longleftrightarrow> k \<in> {''token'', ''private_key_b64''} \<and> is_str v \<and> v \<noteq> PStr redacted"

fun secret_free :: "pyval \<Rightarrow> bool" where
  "secret_free (PDict d) = list_all (\<lambda>(k, v). \<not> shows_secret k v \<and> secret_free v) d"
| "secret_free (PList xs) = list_all secret_free xs"
| "secret_free v = True"

definition file_secret_free :: "cred_file \<Rightarrow> bool" where
  "file_secret_free f = (case f of HasFile v \<Rightarrow> secret_free v | _ \<Rightarrow> True)"

lemma dict_secret_free: "is_dict v \<Longrightarrow> \<not> shows_secret k v"
  by (cases v) (simp_all add: shows_secret_def)

lemma secret_free_get: "secret_free (PDict d) \<Longrightarrow> dict_get d k = Some v \<Longrightarrow> secret_free v"
  by (auto simp: list_all_iff dest!: map_of_SomeD)

lemma set_dict_set: "set (dict_set k v d) \<subseteq> insert (k, v) (set d)"
  by (induction d) (auto simp: dict_set_def)

lemma secret_free_put:
  "secret_free (PDict d) \<Longrightarrow> secret_free v \<Longrightarrow> is_dict v \<Longrightarrow> secret_free (PDict (dict_set k v d))"
  using set_dict_set [of k v d] by (auto simp: list_all_iff dict_secret_free)

lemma secret_free_pop: "secret_free (PDict d) \<Longrightarrow> secret_free (PDict (dict_pop k d))"
  by (auto simp: list_all_iff dict_pop_def AList.delete_eq)

lemma secret_free_sort: "secret_free v \<Longrightarrow> secret_free (sort_json v)"
proof (induction v rule: sort_json.induct)
  case (1 d)
  have "shows_secret k (sort_json v) = shows_secret k v" for k v by (cases v) (simp_all add: shows_secret_def)
  with 1 show ?case by (fastforce simp: list_all_iff)
qed (auto simp: list_all_iff)

lemma modify_secret_free:
  "modify_at p (put_item k x) v = Inr w \<Longrightarrow> secret_free v \<Longrightarrow> secret_free x \<Longrightarrow> is_dict x \<Longrightarrow> secret_free w \<and> is_dict w"
proof (induction p arbitrary: v w)
  case Nil
  then show ?case by (auto simp: put_item_def secret_free_put simp del: secret_free.simps(1) split: pyval.splits)
next
  case (Cons a p)
  from Cons.prems(1) obtain d u where v: "v = PDict d"
    and u: "modify_at p (put_item k x) (case dict_get d a of None \<Rightarrow> PDict [] | Some w \<Rightarrow> w) = Inr u" and w: "w = PDict (dict_set a u d)"
    by (auto simp: rbind_Inr_iff split: pyval.splits)
  have "secret_free (case dict_get d a of None \<Rightarrow> PDict [] | Some w \<Rightarrow> w)"
    using Cons.prems(2) v secret_free_get [of d a] by (auto split: option.split)
  from Cons.IH [OF u this Cons.prems(3, 4)] Cons.prems(2) show ?case
    by (simp add: v w secret_free_put del: secret_free.simps(1))
qed

lemma index_entries_free:
  "secret_free (PDict (dict_set ''token'' (PStr redacted) (bearer_to_dict r)))"
  "secret_free (PDict (foldl redact (agent_key_to_dict k) [''private_key_b64'', ''private_key'', ''secret'']))"
  by (simp_all add: bearer_to_dict_def agent_key_to_dict_def redact_def dict_has_def dict_set_def shows_secret_def
      text_or_none_def opt_int_def split: option.split)

lemma get_or_free: "get_or v k (PDict []) = Inr w \<Longrightarrow> secret_free v \<Longrightarrow> secret_free w"
  by (auto simp: get_or_def intro: secret_free_get simp del: secret_free.simps(1) split: pyval.splits option.splits)
     simp

lemma pop_free: "pop_item k v = Inr w \<Longrightarrow> secret_free v \<Longrightarrow> secret_free w \<and> is_dict w"
  by (auto simp: pop_item_def secret_free_pop simp del: secret_free.simps(1) split: pyval.splits)

lemma put_server_free:
  assumes "secret_free v" "secret_free x" "is_dict x"
  shows "secret_free (put_server api x v)"
proof -
  have "secret_free (PDict (dict_set ''credentials'' (PDict (if truthy x then dict_set api x c else dict_pop api c)) d))"
    if "v = PDict d" "dict_get d ''credentials'' = Some (PDict c)" for c d
  proof -
    have "secret_free (PDict c)" using secret_free_get that assms(1) by blast
    with secret_free_put [OF this assms(2, 3)] secret_free_pop [OF this] assms(1) that(1) show ?thesis
      by (simp add: secret_free_put del: secret_free.simps(1))
  qed
  then show ?thesis
    using assms(1) by (auto simp: put_server_def simp del: secret_free.simps(1) split: pyval.split option.split)
qed

lemma pop_key_free: "pop_key t h v = Inr w \<Longrightarrow> secret_free v \<Longrightarrow> secret_free w \<and> is_dict w"
  by (auto simp: pop_key_def rbind_Inr_iff put_item_def secret_free_put simp del: secret_free.simps(1) split: if_splits pyval.splits
      dest!: pop_free get_or_free)

lemma drop_free: "drop_from_file k v = Inr w \<Longrightarrow> secret_free v \<Longrightarrow> secret_free w"
  by (cases k)
    (auto simp: file_delete_bearer_def file_delete_agent_key_def file_delete_orcid_key_def server_entry_def rbind_Inr_iff
      dest!: get_or_free pop_free pop_key_free intro: put_server_free)

lemma update_free:
  assumes "file_secret_free (cr_file s)" "\<forall>g v w. f = Some g \<and> g v = Inr w \<and> secret_free v \<longrightarrow> secret_free w"
  shows "file_secret_free (cr_file (snd (update_with f s)))"
proof -
  have load: "secret_free v" if "file_load (cr_file s) = Inr v" for v
    using that assms(1)
    by (auto simp: file_load_def no_credentials_def file_secret_free_def shows_secret_def split: cred_file.splits)
  show ?thesis
  proof (cases f)
    case (Some g)
    then show ?thesis
      using assms load
      by (auto simp: update_with_def file_update_def file_save_def file_secret_free_def [of "HasFile _"] rbind_Inr_iff
          split: sum.split intro!: secret_free_sort)
  qed (simp add: update_with_def assms(1))
qed

lemma index_free:
  "\<forall>g v w. file_entry InKeyring c = Some g \<and> g v = Inr w \<and> secret_free v \<longrightarrow> secret_free w"
  using modify_secret_free index_entries_free
  by (cases c) (fastforce simp: index_set_bearer_def index_set_agent_key_def Let_def simp del: secret_free.simps(1) foldl.simps)+

text \<open>
  C18: with the keyring, the file is an index only: whatever sequence of stores and deletions is
  made, whether it ends in an exception or not, no token and no private key gets into a file
  that had none.
\<close>

theorem index_has_no_secret:
  assumes "file_secret_free (cr_file s)"
  shows "file_secret_free (cr_file (snd (run_ops K InKeyring ops s)))"
  using assms
proof (induction ops arbitrary: s)
  case (Cons op ops)
  have "file_secret_free (cr_file (snd (store_cred K InKeyring c s)))" for c
    unfolding store_cred_steps by (rule update_free [OF _ index_free]) (simp add: ring_put_def Cons.prems)
  moreover have "file_secret_free (cr_file (snd (delete_cred K InKeyring k s)))" for k
    unfolding delete_cred_steps by (rule update_free) (auto simp: ring_drop_def Cons.prems dest: drop_free split: if_splits)
  ultimately show ?case
    by (cases op; simp split: prod.split sum.split; metis snd_conv Cons.IH)
qed simp

theorem index_has_no_secret_witness:
  "file_secret_free (cr_file (snd (run_ops toy_keyring InKeyring [Store (Bearer example_bearer)] \<lparr>cr_file = NoFile, cr_ring = []\<rparr>)))"
  by (rule index_has_no_secret) (simp add: file_secret_free_def)

section \<open>Examples\<close>

text \<open>A token that expired at the time zero is read back as one that never expires.\<close>

lemma zero_expiry_lost:
  "is_expired (example_bearer\<lparr>sb_expires_at_unix := Some 0\<rparr>) None 5 \<and>
   load_cred toy_keyring InFile (BearerOf ''http://h:1'' ''agent'')
     (snd (store_cred toy_keyring InFile (Bearer (example_bearer\<lparr>sb_expires_at_unix := Some 0\<rparr>)) \<lparr>cr_file = NoFile, cr_ring = []\<rparr>)) =
   Inr (Some (Bearer (example_bearer\<lparr>sb_expires_at_unix := None\<rparr>))) \<and>
   \<not> is_expired (example_bearer\<lparr>sb_expires_at_unix := None\<rparr>) None 5"
  by code_simp

text \<open>Under the keyring an ORCID key leaves no trace in the index.\<close>

definition example_orcid :: stored_orcid_key where
  "example_orcid = \<lparr>so_api_base = ''http://h:1'', so_orcid_id = ''0'', so_key_id = ''key:1'', so_private_key_b64 = ''k'', so_label = ''l''\<rparr>"

lemma orcid_key_not_listed:
  "stored_servers (snd (store_cred toy_keyring InKeyring (OrcidKey example_orcid) \<lparr>cr_file = NoFile, cr_ring = []\<rparr>)) = Inr [] \<and>
   stored_servers (snd (store_cred toy_keyring InFile (OrcidKey example_orcid) \<lparr>cr_file = NoFile, cr_ring = []\<rparr>)) = Inr [''http://h:1'']"
  by code_simp

text \<open>A file that is not JSON is taken for an empty one and overwritten by the next store.\<close>

lemma broken_file_overwritten:
  "cr_file (snd (store_cred toy_keyring InFile (OrcidKey example_orcid) \<lparr>cr_file = BrokenFile, cr_ring = []\<rparr>)) =
   cr_file (snd (store_cred toy_keyring InFile (OrcidKey example_orcid) \<lparr>cr_file = NoFile, cr_ring = []\<rparr>))"
  by code_simp

end
