(* ===== verification/Cli_Identity.thy ===== *)
theory Cli_Identity
  imports Client_Login Cred_Table
begin

text \<open>
  The identities of the command line: \<open>rrxiv login\<close> and \<open>logout\<close> (\<open>cli/login.py\<close>), \<open>rrxiv auth\<close>
  (\<open>cli/auth.py\<close>) and the choice of an identity for a write (\<open>cli/submit.py\<close>,
  \<open>cli/annotation_post.py\<close>). Output and the browser are left out; the clock, the fresh keys and the
  answers of the server are parameters.
\<close>

section \<open>How a command ends\<close>

datatype cli_error = Exit int | CallFailed call_error | PyRaised pyexn

definition py :: "pyexn + 'a \<Rightarrow> cli_error + 'a" where
  "py r = (case r of Inl e \<Rightarrow> Inl (PyRaised e) | Inr a \<Rightarrow> Inr a)"

definition called :: "call_error + 'a \<Rightarrow> cli_error + 'a" where
  "called r = (case r of Inl e \<Rightarrow> Inl (CallFailed e) | Inr a \<Rightarrow> Inr a)"

lemma py_simps [simp]: "py (Inr a) = Inr a" "py (Inl e) = Inl (PyRaised e)" "py r = Inr a \<longleftrightarrow> r = Inr a"
  by (simp_all add: py_def split: sum.splits)

lemma called_simps [simp]: "called (Inr a) = Inr a" "called (Inl e) = Inl (CallFailed e)" "called r = Inr a \<longleftrightarrow> r = Inr a"
  by (simp_all add: called_def split: sum.splits)

type_synonym 'k cli_step = "'k cred_state \<Rightarrow> (cli_error + unit) \<times> 'k cred_state"

text \<open>A step of the credential store inside a command, and what follows when it went through.\<close>

definition do_step :: "'k cred_step \<Rightarrow> 'k cli_step" where
  "do_step f s = (case f s of (r, t) \<Rightarrow> (py r, t))"

definition and_then :: "'k cli_step \<Rightarrow> 'k cli_step \<Rightarrow> 'k cli_step" where
  "and_then f g s = (case f s of (Inl e, t) \<Rightarrow> (Inl e, t) | (Inr _, t) \<Rightarrow> g t)"

definition default_server :: string where
  "default_server = ''https://api.rrxiv.com/api/v0''"

definition resolved_server :: "string option \<Rightarrow> string option \<Rightarrow> string" where
  "resolved_server server variable =
     (case server of
        Some u \<Rightarrow> if u \<noteq> [] then rstrip_slash u else rstrip_slash (case variable of None \<Rightarrow> default_server | Some v \<Rightarrow> v)
      | None \<Rightarrow> rstrip_slash (case variable of None \<Rightarrow> default_server | Some v \<Rightarrow> v))"

section \<open>Logging in\<close>

text \<open>The two readings of the clock may differ.\<close>

definition stored_as :: "string \<Rightarrow> bearer \<Rightarrow> int \<Rightarrow> int \<Rightarrow> int \<Rightarrow> stored_bearer" where
  "stored_as api b expires_in now1 now2 =
     \<lparr>sb_api_base = api, sb_identity_type = bt_identity_type b, sb_identity = bt_identity b, sb_token = bt_token b,
      sb_issued_at_unix = now1, sb_expires_at_unix = Some (now2 + expires_in)\<rparr>"

definition persist_bearer :: "'k keyring \<Rightarrow> cred_backend \<Rightarrow> string \<Rightarrow> bearer \<Rightarrow> int \<Rightarrow> int \<Rightarrow> int \<Rightarrow> 'k cli_step" where
  "persist_bearer K b api bearer expires_in now1 now2 = do_step (store_bearer K b (stored_as api bearer expires_in now1 now2))"

definition login_agent ::
  "'k keyring \<Rightarrow> cred_backend \<Rightarrow> ('p \<Rightarrow> string \<Rightarrow> bytes) \<Rightarrow> ('p \<Rightarrow> bytes) \<Rightarrow> ('p \<Rightarrow> bytes) \<Rightarrow> (enroll_body \<Rightarrow> response) \<Rightarrow>
   string \<Rightarrow> string \<Rightarrow> string option \<Rightarrow> 'p \<Rightarrow> int \<Rightarrow> int \<Rightarrow> int \<Rightarrow> 'k cli_step" where
  "login_agent K b sign raw_public raw_private post api hdl contact p now now1 now2 s =
     (if \<not> startswith hdl ''@'' then (Inl (Exit 2), s)
      else case rbind (py (enrollment_request sign raw_public p hdl contact now)) (\<lambda>body. called (enroll_answer (post body))) of
          Inl e \<Rightarrow> (Inl e, s)
        | Inr bearer \<Rightarrow>
            and_then (persist_bearer K b api bearer (86400 * 30) now1 now2)
              (do_step (store_agent_key K b
                 \<lparr>sa_api_base = api, sa_handle = hdl, sa_private_key_b64 = std_b64_encode (raw_private p)\<rparr>)) s)"

text \<open>
  The listener of the OAuth flow: a request is its path and the parameters of its query, as
  \<open>parse_qs\<close> gives them. It serves requests until one carries a code or an error; running out of
  requests is its timeout.
\<close>

record oauth_result =
  or_code :: "string option"
  or_state :: "string option"
  or_error :: "string option"

type_synonym callback = "string \<times> (string \<times> string list) list"

definition first_of :: "(string \<times> string list) list \<Rightarrow> string \<Rightarrow> string option" where
  "first_of qs k = (case dict_get qs k of Some (v # _) \<Rightarrow> Some v | _ \<Rightarrow> None)"

definition do_get :: "callback \<Rightarrow> oauth_result \<Rightarrow> oauth_result" where
  "do_get rq r =
     (if fst rq \<noteq> ''/callback'' then r
      else if dict_has (snd rq) ''error'' then r\<lparr>or_error := first_of (snd rq) ''error''\<rparr>
      else r\<lparr>or_code := first_of (snd rq) ''code'', or_state := first_of (snd rq) ''state''\<rparr>)"

definition nonblank :: "string option \<Rightarrow> bool" where
  "nonblank v \<longleftrightarrow> v \<noteq> None \<and> v \<noteq> Some []"

fun listen :: "callback list \<Rightarrow> oauth_result \<Rightarrow> oauth_result" where
  "listen [] r = r"
| "listen (rq # rqs) r = (let r' = do_get rq r in if nonblank (or_code r') \<or> nonblank (or_error r') then r' else listen rqs r')"

definition listened :: "string \<Rightarrow> callback list \<Rightarrow> cli_error + string \<times> string" where
  "listened expected rqs =
     (let r = listen rqs \<lparr>or_code = None, or_state = None, or_error = None\<rparr>
      in if nonblank (or_error r) \<or> \<not> nonblank (or_code r) \<or> or_state r \<noteq> Some expected then Inl (Exit 2)
         else case or_code r of Some c \<Rightarrow> Inr (c, expected) | None \<Rightarrow> Inl (Exit 2))"

definition login_orcid_listener ::
  "'k keyring \<Rightarrow> cred_backend \<Rightarrow> (string \<Rightarrow> pydict \<Rightarrow> response) \<Rightarrow> string \<Rightarrow> string \<Rightarrow> string \<Rightarrow> callback list \<Rightarrow> int \<Rightarrow> int \<Rightarrow> 'k cli_step" where
  "login_orcid_listener K b post api redirect_uri fresh rqs now1 now2 s =
     (case build_orcid_authorization_url api redirect_uri ''/authenticate'' None fresh of
        (url, expected) \<Rightarrow>
          (case rbind (listened expected rqs) (\<lambda>(code, state). called (exchange_orcid_code post api code state expected (Some redirect_uri))) of
             Inl e \<Rightarrow> (Inl e, s)
           | Inr bearer \<Rightarrow> persist_bearer K b api bearer (3600 * 24) now1 now2 s))"

text \<open>A paste code: an answer without a lifetime makes a bearer that has expired.\<close>

definition lifetime_of :: "pydict \<Rightarrow> pyexn + int" where
  "lifetime_of body = py_int (py_or (dget body ''expires_in_seconds'') (PInt 0))"

definition redeem_orcid_paste_code :: "'k keyring \<Rightarrow> cred_backend \<Rightarrow> (string \<Rightarrow> pydict \<Rightarrow> response) \<Rightarrow> string \<Rightarrow> string \<Rightarrow> int \<Rightarrow> int \<Rightarrow> 'k cli_step" where
  "redeem_orcid_paste_code K b post api code now1 now2 s =
     (let c = str_strip code
      in if c = [] then (Inl (Exit 2), s)
         else let rs = post (api @ ''/auth/orcid/exchange-paste'') [(''code'', PStr c)]
         in if rs_status rs \<noteq> 200 then (Inl (Exit 2), s)
         else case (case rs_json rs of None \<Rightarrow> Inl ValueError | Some (PDict body) \<Rightarrow>
                      rbind (opt_item body ''orcid_id'') (\<lambda>i. rbind (str_item body ''token'') (\<lambda>t. rbind (lifetime_of body) (\<lambda>n.
                        Inr \<lparr>sb_api_base = api, sb_identity_type = ''orcid'', sb_identity = i, sb_token = t,
                             sb_issued_at_unix = now1, sb_expires_at_unix = Some (now2 + n)\<rparr>)))
                    | Some _ \<Rightarrow> Inl AttributeError) of
             Inl e \<Rightarrow> (Inl (PyRaised e), s)
           | Inr r \<Rightarrow> do_step (store_bearer K b r) s)"

definition login_anonymous ::
  "'k keyring \<Rightarrow> cred_backend \<Rightarrow> response \<Rightarrow> (pydict \<Rightarrow> response) \<Rightarrow> string \<Rightarrow> string \<Rightarrow> int \<Rightarrow> int \<Rightarrow> 'k cli_step" where
  "login_anonymous K b challenge post api typed now1 now2 s =
     (case rbind (called (challenge_answer challenge)) (\<lambda>c. called (verify_answer (post (verify_body_json (an_challenge_id c) (str_strip typed))))) of
        Inl e \<Rightarrow> (Inl e, s)
      | Inr bearer \<Rightarrow> persist_bearer K b api bearer 3600 now1 now2 s)"

text \<open>\<open>rrxiv login orcid\<close>: which flow runs. \<open>local\<close> says that the API base names a loopback host.\<close>

datatype orcid_flow = RedeemCode string | PrintUrl | PasteFlow | ListenerFlow

definition choose_flow :: "string option \<Rightarrow> bool \<Rightarrow> bool \<Rightarrow> bool \<Rightarrow> bool \<Rightarrow> orcid_flow" where
  "choose_flow paste_code print_url_only no_browser force_listener is_local =
     (case paste_code of
        Some c \<Rightarrow> RedeemCode c
      | None \<Rightarrow>
          if print_url_only then PrintUrl
          else if no_browser \<or> (\<not> force_listener \<and> \<not> is_local) then PasteFlow else ListenerFlow)"

section \<open>Status and logout\<close>

definition expiry_str :: "stored_bearer option \<Rightarrow> int \<Rightarrow> string" where
  "expiry_str b now =
     (case b of
        None \<Rightarrow> ''no expiry recorded''
      | Some r \<Rightarrow>
          (case sb_expires_at_unix r of
             None \<Rightarrow> ''no expiry recorded''
           | Some e \<Rightarrow>
               let delta = e - now
               in if delta \<le> 0 then ''EXPIRED''
                  else if delta < 3600 then str_of_int (delta div 60) @ ''m left''
                  else if delta < 86400 then str_of_int (delta div 3600) @ ''h '' @ str_of_int ((delta mod 3600) div 60) @ ''m left''
                  else str_of_int (delta div 86400) @ ''d left''))"

text \<open>A loop of deletions.\<close>

fun delete_all :: "'k keyring \<Rightarrow> cred_backend \<Rightarrow> cred_key list \<Rightarrow> 'k cred_step" where
  "delete_all K b [] s = (Inr (), s)"
| "delete_all K b (k # ks) s = (case delete_cred K b k s of (Inl e, t) \<Rightarrow> (Inl e, t) | (Inr _, t) \<Rightarrow> delete_all K b ks t)"

text \<open>\<open>list(info.get(table, {}))\<close>: the names in one table of a server's entry.\<close>

definition names_in :: "string \<Rightarrow> pyval \<Rightarrow> pyexn + string list" where
  "names_in table info =
     rbind (get_or info table (PDict [])) (\<lambda>v. case v of
         PDict d \<Rightarrow> Inr (map fst d) | PStr x \<Rightarrow> Inr (map (\<lambda>c. [c]) x) | PList [] \<Rightarrow> Inr [] | _ \<Rightarrow> Inl TypeError)"

definition forget_orcid_keys :: "'k keyring \<Rightarrow> cred_backend \<Rightarrow> string \<Rightarrow> stored_bearer option \<Rightarrow> pyval \<Rightarrow> 'k cred_step" where
  "forget_orcid_keys K b api orcid_bearer info s =
     (case delete_all K b (case Option.bind orcid_bearer sb_identity of None \<Rightarrow> [] | Some i \<Rightarrow> [OrcidKeyOf api i]) s of
        (Inl e, t) \<Rightarrow> (Inl e, t)
      | (Inr _, t) \<Rightarrow>
          (case names_in ''orcid_keys'' info of Inl e \<Rightarrow> (Inl e, t) | Inr is \<Rightarrow> delete_all K b (map (OrcidKeyOf api) is) t))"

definition forget_agent_keys :: "'k keyring \<Rightarrow> cred_backend \<Rightarrow> string \<Rightarrow> pyval \<Rightarrow> 'k cred_step" where
  "forget_agent_keys K b api info s =
     (case names_in ''agent_keys'' info of Inl e \<Rightarrow> (Inl e, s) | Inr hs \<Rightarrow> delete_all K b (map (AgentKeyOf api) hs) s)"

definition logout_server :: "'k keyring \<Rightarrow> cred_backend \<Rightarrow> string \<Rightarrow> string option \<Rightarrow> 'k cred_step" where
  "logout_server K b api identity_type s =
     (if identity_type = None \<or> identity_type = Some ''orcid'' then
        (case load_bearer K b api ''orcid'' s of
           Inl e \<Rightarrow> (Inl e, s)
         | Inr orcid_bearer \<Rightarrow>
             (case delete_all K b (map (BearerOf api) (if identity_type = None then [''orcid'', ''agent'', ''anonymous''] else [''orcid''])) s of
                (Inl e, t) \<Rightarrow> (Inl e, t)
              | (Inr _, t) \<Rightarrow>
                  (case stored_identities_for_server api t of
                     Inl e \<Rightarrow> (Inl e, t)
                   | Inr info \<Rightarrow>
                       (case (if identity_type = None then forget_agent_keys K b api info t else (Inr (), t)) of
                          (Inl e, u) \<Rightarrow> (Inl e, u)
                        | (Inr _, u) \<Rightarrow> forget_orcid_keys K b api orcid_bearer info u))))
      else
        (case delete_bearer K b api (the identity_type) s of
           (Inl e, t) \<Rightarrow> (Inl e, t)
         | (Inr _, t) \<Rightarrow>
             if identity_type = Some ''agent'' then
               (case stored_identities_for_server api t of Inl e \<Rightarrow> (Inl e, t) | Inr info \<Rightarrow> forget_agent_keys K b api info t)
             else (Inr (), t)))"

fun logout_servers :: "'k keyring \<Rightarrow> cred_backend \<Rightarrow> string list \<Rightarrow> 'k cred_step" where
  "logout_servers K b [] s = (Inr (), s)"
| "logout_servers K b (api # apis) s = (case logout_server K b api None s of (Inl e, t) \<Rightarrow> (Inl e, t) | (Inr _, t) \<Rightarrow> logout_servers K b apis t)"

definition logout :: "'k keyring \<Rightarrow> cred_backend \<Rightarrow> string \<Rightarrow> string option \<Rightarrow> bool \<Rightarrow> 'k cred_step" where
  "logout K b api identity_type all_servers s =
     (if all_servers then (case stored_servers s of Inl e \<Rightarrow> (Inl e, s) | Inr apis \<Rightarrow> logout_servers K b apis s)
      else logout_server K b api identity_type s)"

section \<open>Bound signing keys\<close>

definition require_orcid_login :: "'k keyring \<Rightarrow> cred_backend \<Rightarrow> string \<Rightarrow> int \<Rightarrow> 'k cred_state \<Rightarrow> cli_error + stored_bearer \<times> string" where
  "require_orcid_login K b api now s =
     rbind (py (load_bearer K b api ''orcid'' s)) (\<lambda>found.
       case found of
         None \<Rightarrow> Inl (Exit 2)
       | Some r \<Rightarrow>
           if is_expired r None now then Inl (Exit 2)
           else (case sb_identity r of None \<Rightarrow> Inl (Exit 2) | Some i \<Rightarrow> Inr (r, i)))"

definition bind_request :: "('p \<Rightarrow> string \<Rightarrow> bytes) \<Rightarrow> ('p \<Rightarrow> bytes) \<Rightarrow> 'p \<Rightarrow> string \<Rightarrow> string \<Rightarrow> string \<Rightarrow> int \<Rightarrow> key_bind_body" where
  "bind_request sign raw_public p oid label nonce issued_at =
     (let pub = std_b64_encode (raw_public p); payload = build_key_binding_payload oid pub nonce issued_at
      in \<lparr>kb_public_key_b64 = pub, kb_label = label, kb_payload_b64 = std_b64_encode payload,
          kb_signature_b64 = sign_enrollment_payload sign payload p\<rparr>)"

definition bind_key ::
  "'k keyring \<Rightarrow> cred_backend \<Rightarrow> ('p \<Rightarrow> string \<Rightarrow> bytes) \<Rightarrow> ('p \<Rightarrow> bytes) \<Rightarrow> ('p \<Rightarrow> bytes) \<Rightarrow> (key_bind_body \<Rightarrow> response) \<Rightarrow>
   string \<Rightarrow> string \<Rightarrow> string \<Rightarrow> 'p \<Rightarrow> string \<Rightarrow> int \<Rightarrow> int \<Rightarrow> 'k cli_step" where
  "bind_key K b sign raw_public raw_private post api label hostname p nonce now issued_at s =
     (case require_orcid_login K b api now s of
        Inl e \<Rightarrow> (Inl e, s)
      | Inr (r, oid) \<Rightarrow>
          let name = (if label = [] then hostname else label)
          in if startswith name ''@'' then (Inl (Exit 2), s)
             else case called (bind_answer (post (bind_request sign raw_public p oid name nonce issued_at))) of
                 Inl e \<Rightarrow> (Inl e, s)
               | Inr bound \<Rightarrow>
                   do_step (store_orcid_key K b
                     \<lparr>so_api_base = api, so_orcid_id = oid, so_key_id = ok_key_id bound,
                      so_private_key_b64 = std_b64_encode (raw_private p), so_label = name\<rparr>) s)"

definition keys_list :: "'k keyring \<Rightarrow> cred_backend \<Rightarrow> response \<Rightarrow> string \<Rightarrow> int \<Rightarrow> 'k cred_state \<Rightarrow> cli_error + (orcid_key_record \<times> bool) list" where
  "keys_list K b answer api now s =
     rbind (require_orcid_login K b api now s) (\<lambda>(r, oid).
     rbind (called (list_keys_answer answer)) (\<lambda>records.
       if records = [] then Inr []
       else rbind (py (load_orcid_key K b api oid s)) (\<lambda>here.
         Inr (map (\<lambda>k. (k, map_option so_key_id here = Some (ok_key_id k))) records))))"

definition keys_revoke :: "'k keyring \<Rightarrow> cred_backend \<Rightarrow> response \<Rightarrow> string \<Rightarrow> string \<Rightarrow> int \<Rightarrow> 'k cli_step" where
  "keys_revoke K b answer api kid now s =
     (case rbind (require_orcid_login K b api now s) (\<lambda>(r, oid).
             rbind (called (revoke_answer answer)) (\<lambda>_. rbind (py (load_orcid_key K b api oid s)) (\<lambda>here. Inr (oid, here)))) of
        Inl e \<Rightarrow> (Inl e, s)
      | Inr (oid, here) \<Rightarrow>
          if map_option so_key_id here = Some kid then do_step (delete_orcid_key K b api oid) s else (Inr (), s))"

section \<open>The identity of a write\<close>

text \<open>\<open>from_bytes\<close> reads a private key, \<open>AgentSigningKey.from_private_bytes\<close>.\<close>

definition signing_key_of :: "(bytes \<Rightarrow> 'p option) \<Rightarrow> string \<Rightarrow> string \<Rightarrow> pyexn + 'p signing_key" where
  "signing_key_of from_bytes name key_b64 =
     (case Option.bind (std_b64_decode key_b64) from_bytes of
        None \<Rightarrow> Inl ValueError
      | Some p \<Rightarrow> Inr \<lparr>sk_handle = name, sk_private_key = p\<rparr>)"

fun first_identity ::
  "'k keyring \<Rightarrow> cred_backend \<Rightarrow> (bytes \<Rightarrow> 'p option) \<Rightarrow> string \<Rightarrow> 'k cred_state \<Rightarrow> string list \<Rightarrow>
   pyexn + (string \<times> string \<times> 'p signing_key option) option" where
  "first_identity K b from_bytes server s [] = Inr None"
| "first_identity K b from_bytes server s (kind # kinds) =
     rbind (load_bearer K b server kind s) (\<lambda>found.
       case found of
         None \<Rightarrow> first_identity K b from_bytes server s kinds
       | Some r \<Rightarrow>
           if kind = ''orcid'' then
             (case sb_identity r of
                None \<Rightarrow> Inr (Some (kind, sb_token r, None))
              | Some i \<Rightarrow>
                  rbind (load_orcid_key K b server i s) (\<lambda>k. case k of
                    None \<Rightarrow> Inr (Some (kind, sb_token r, None))
                  | Some k \<Rightarrow> rbind (signing_key_of from_bytes (so_key_id k) (so_private_key_b64 k)) (\<lambda>key. Inr (Some (kind, sb_token r, Some key)))))
           else if kind \<noteq> ''agent'' then Inr (Some (kind, sb_token r, None))
           else
             (case sb_identity r of
                None \<Rightarrow> first_identity K b from_bytes server s kinds
              | Some h \<Rightarrow>
                  rbind (load_agent_key K b server h s) (\<lambda>k. case k of
                    None \<Rightarrow> first_identity K b from_bytes server s kinds
                  | Some k \<Rightarrow> rbind (signing_key_of from_bytes (sa_handle k) (sa_private_key_b64 k)) (\<lambda>key. Inr (Some (kind, sb_token r, Some key))))))"

definition resolve_identity ::
  "'k keyring \<Rightarrow> cred_backend \<Rightarrow> (bytes \<Rightarrow> 'p option) \<Rightarrow> string \<Rightarrow> string option \<Rightarrow> 'k cred_state \<Rightarrow>
   cli_error + (string \<times> string \<times> 'p signing_key option) option" where
  "resolve_identity K b from_bytes server requested s =
     (case requested of
        None \<Rightarrow> py (first_identity K b from_bytes server s [''orcid'', ''agent''])
      | Some k \<Rightarrow> if k \<in> set [''orcid'', ''agent'', ''anonymous''] then py (first_identity K b from_bytes server s [k]) else Inl (Exit 2))"

text \<open>The key a command signs its request with: \<open>rrxiv submit\<close> and \<open>rrxiv annotation post\<close>.\<close>

definition submit_signs_with :: "string \<Rightarrow> 'p signing_key option \<Rightarrow> 'p signing_key option" where
  "submit_signs_with kind key = (if kind = ''agent'' then key else None)"

definition annotation_signs_with :: "string \<Rightarrow> 'p signing_key option \<Rightarrow> 'p signing_key option" where
  "annotation_signs_with kind key = key"

end
