(* ===== verification/Cli_Sessions.thy ===== *)
theory Cli_Sessions
  imports Cli_Identity
begin

text \<open>
  What the identities of the command line come to: what a login leaves is what a later write
  finds and signs with, the server lets that write through, the listener takes no code of another
  login, and a logout forgets its server.
\<close>

section \<open>Logging in as an agent, and writing\<close>

lemma b64_key: "from_bytes (raw p) = Some q \<Longrightarrow> signing_key_of from_bytes name (std_b64_encode (raw p)) = Inr \<lparr>sk_handle = name, sk_private_key = q\<rparr>"
  by (simp add: signing_key_of_def std_b64_round_trip)

lemma load_bearer_of: "load_cred K b (BearerOf api t) s = Inr (Some (Bearer r)) \<Longrightarrow> load_bearer K b api t s = Inr (Some r)"
  by (cases "load_bearer K b api t s") (auto simp: kind_result_def)

lemma load_agent_key_of: "load_cred K b (AgentKeyOf api h) s = Inr (Some (AgentKey r)) \<Longrightarrow> load_agent_key K b api h s = Inr (Some r)"
  by (cases "load_agent_key K b api h s") (auto simp: kind_result_def)

lemma load_orcid_key_of: "load_cred K b (OrcidKeyOf api i) s = Inr (Some (OrcidKey r)) \<Longrightarrow> load_orcid_key K b api i s = Inr (Some r)"
  by (cases "load_orcid_key K b api i s") (auto simp: kind_result_def)

lemma stored_both:
  assumes "keyring_laws K" "in_form (cr_file s)" "valid_key b (key_of c)" "valid_key b (key_of d)" "key_of c \<noteq> key_of d"
    and "and_then (do_step (store_cred K b c)) (do_step (store_cred K b d)) s = (r, t)"
  shows "r = Inr () \<and> load_cred K b (key_of c) t = Inr (Some (read_back c)) \<and> load_cred K b (key_of d) t = Inr (Some (read_back d))"
proof -
  from store_cred_sets [OF assms(1-3)] obtain u where u: "store_cred K b c s = (Inr (), u)" "in_form (cr_file u)"
    "load_cred K b (key_of c) u = Inr (Some (read_back c))"
    using assms(3) by (cases "store_cred K b c s") (auto simp: sets_def)
  from store_cred_sets [OF assms(1) u(2) assms(4)] obtain v where v: "store_cred K b d u = (Inr (), v)"
    "load_cred K b (key_of d) v = Inr (Some (read_back d))" "load_cred K b (key_of c) v = load_cred K b (key_of c) u"
    using assms(3-5) by (cases "store_cred K b d u") (auto simp: sets_def)
  show ?thesis using assms(6) u v by (simp add: and_then_def do_step_def)
qed

text \<open>
  What the server and the command do to log in: the command sends the body, the server enrols
  and answers.
\<close>

lemma login_agent_stores:
  assumes "keyring_laws K" "in_form (cr_file s)" "b = InKeyring \<longrightarrow> CHR '':'' \<notin> set hdl"
    and "enroll_answer (post body) = Inr \<lparr>bt_token = token, bt_identity_type = ''agent'', bt_identity = Some hdl\<rparr>"
    and "enrollment_request sign raw_public p hdl contact now = Inr body" "from_bytes (raw_private p) = Some p"
    and "login_agent K b sign raw_public raw_private post api hdl contact p now now1 now2 s = (r, t)"
  shows "r = Inr () \<and> resolve_identity K b from_bytes api (Some ''agent'') t =
    Inr (Some (''agent'', token, Some \<lparr>sk_handle = hdl, sk_private_key = p\<rparr>))"
proof -
  let ?c = "Bearer (stored_as api \<lparr>bt_token = token, bt_identity_type = ''agent'', bt_identity = Some hdl\<rparr> (86400 * 30) now1 now2)"
  let ?d = "AgentKey \<lparr>sa_api_base = api, sa_handle = hdl, sa_private_key_b64 = std_b64_encode (raw_private p)\<rparr>"
  have h: "startswith hdl ''@''"
    using assms(5) by (auto simp: enrollment_request_def build_enrollment_payload_def Let_def split: if_splits)
  have "login_agent K b sign raw_public raw_private post api hdl contact p now now1 now2 s =
      and_then (do_step (store_cred K b ?c)) (do_step (store_cred K b ?d)) s"
    by (simp add: login_agent_def h assms(4, 5) persist_bearer_def)
  with stored_both [OF assms(1, 2), of b ?c ?d r t] assms(3, 7)
  have rt: "r = Inr ()" "load_cred K b (key_of ?c) t = Inr (Some (read_back ?c))" "load_cred K b (key_of ?d) t = Inr (Some (read_back ?d))"
    by (simp_all add: stored_as_def)
  have bearer: "\<exists>r. load_bearer K b api ''agent'' t = Inr (Some r) \<and> sb_token r = token \<and> sb_identity r = Some hdl"
    using load_bearer_of [of K b api "''agent''" t] rt(2) by (simp add: stored_as_def)
  have key: "load_agent_key K b api hdl t = Inr (Some \<lparr>sa_api_base = api, sa_handle = hdl, sa_private_key_b64 = std_b64_encode (raw_private p)\<rparr>)"
    using load_agent_key_of [of K b api hdl t] rt(3) by simp
  show ?thesis using rt(1) bearer by (auto simp: resolve_identity_def key b64_key [of from_bytes raw_private p, OF assms(6)])
qed

lemma bearer_header: "has_bearer (''Bearer '' @ t)" "str_strip t = t \<Longrightarrow> bearer_token (''Bearer '' @ t) = t"
proof -
  have "str_lower (''Bearer '' @ t) = ''bearer '' @ str_lower t" by (simp add: str_lower_def) code_simp
  then show "has_bearer (''Bearer '' @ t)" by (simp add: has_bearer_def startswith_def)
  show "str_strip t = t \<Longrightarrow> bearer_token (''Bearer '' @ t) = t"
    by (simp add: bearer_token_def split_once_def)
qed

text \<open>What the endpoint checks of the body of an enrollment, in terms of the request.\<close>

definition contact_ok :: "email_lib \<Rightarrow> string option \<Rightarrow> bool" where
  "contact_ok email contact \<longleftrightarrow> (case contact of None \<Rightarrow> True | Some c \<Rightarrow> email c \<noteq> None)"

lemma enrollment_validated:
  assumes "enrollment_request sign raw_public p hdl contact issued_at = Inr body"
  shows "\<not> (handle_ok hdl \<and> contact_ok email contact) \<Longrightarrow> valid_enroll email body = None"
    "handle_ok hdl \<and> contact_ok email contact \<Longrightarrow>
      \<exists>c valid. valid_enroll email body = Some valid \<and> enrollment_request sign raw_public p hdl c issued_at = Inr valid"
  using assms by (auto simp: enrollment_request_def Let_def rbind_Inr_iff valid_enroll_def contact_ok_def split: option.splits)

lemma refused_422: "\<exists>e. checked (json_response 422 m d) = Inl e"
proof -
  let ?rs = "json_response 422 m d"
  have "rs_status ?rs = 422" by (simp add: json_response_def)
  then have "raise_for_status ?rs \<noteq> Inr None" by (simp add: raise_for_status_def Let_def rbind_Inr_iff)
  then show ?thesis by (auto simp: checked_def split: sum.split option.split)
qed

lemma invalid_refused:
  "\<exists>e. enroll_answer (enroll_response (Inl invalid_request)) = Inl e"
  "\<exists>e. bind_answer (bind_response (Inl invalid_request)) = Inl e"
proof -
  obtain m d where "enroll_response (Inl invalid_request) = json_response 422 m d"
    "bind_response (Inl invalid_request) = json_response 422 m d"
    by (simp add: enroll_response_def bind_response_def invalid_request_def validation_error_def problem_error_def)
  with refused_422 [of m d] show "\<exists>e. enroll_answer (enroll_response (Inl invalid_request)) = Inl e"
    "\<exists>e. bind_answer (bind_response (Inl invalid_request)) = Inl e"
    by (auto simp: enroll_answer_def bind_answer_def)
qed

text \<open>
  C8: logging in as an agent is enough to write: when \<open>rrxiv login agent\<close> runs against a server
  that does not have the handle and accepts the handle's form and the contact, it ends well, and
  from then on \<open>rrxiv annotation post\<close> and \<open>rrxiv submit\<close>, asked for the agent's identity, find
  the token and the key in the credential store, with either backend, and a write they sign for a
  URL that the server sees as the client does is let through as that agent's. A handle or a contact
  the server's validation refuses ends the login with an error, and nothing is stored on either side.
\<close>

theorem login_then_write:
  assumes "signs_for ed_verify sign raw_public" "lib_complete lib signer public_of url"
    and "\<forall>p. load_key lib (raw_public p) = Some (public_of p)" "\<forall>p. from_bytes (raw_private p) = Some p"
    and "keyring_laws K" "in_form (cr_file cs)" "b = InKeyring \<longrightarrow> CHR '':'' \<notin> set hdl"
    and "enrollment_request sign raw_public p hdl contact issued_at = Inr body" "get_agent s hdl = None"
    and "abs (enrolled_at - issued_at) \<le> signature_clock_skew_seconds cfg" "str_strip fresh = fresh"
    and "enroll_endpoint email ed_verify cfg body fresh enrolled_at s = (outcome, s')"
    and "post body = enroll_response outcome"
    and "login_agent K b sign raw_public raw_private post api hdl contact p issued_at now1 now2 cs = (r, cs')"
  shows "(if handle_ok hdl \<and> contact_ok email contact
    then r = Inr () \<and> (\<exists>key. resolve_identity K b from_bytes api (Some ''agent'') cs' = Inr (Some (''agent'', fresh, Some key)) \<and>
      submit_signs_with ''agent'' (Some key) = Some key \<and>
      (\<forall>rq created sent now. header rq ''authorization'' = Some (''Bearer '' @ fresh) \<and>
         upper_method (rq_method rq) \<notin> set [''GET'', ''HEAD'', ''OPTIONS''] \<and> auth_flow lib signer key url created rq = Some sent \<and>
         abs (now - created) \<le> signature_clock_skew_seconds cfg \<and> now \<le> enrolled_at + token_ttl_seconds_agent cfg \<longrightarrow>
         signature_middleware lib cfg sent now s' = PassVerified hdl))
    else (\<exists>e. r = Inl e) \<and> cs' = cs \<and> s' = s)"
proof (cases "handle_ok hdl \<and> contact_ok email contact")
  case True
  from enrollment_validated(2) [OF assms(8) True] obtain c valid where
    valid: "valid_enroll email body = Some valid" "enrollment_request sign raw_public p hdl c issued_at = Inr valid" by blast
  have enroll: "agent_enroll ed_verify cfg valid fresh enrolled_at s = (outcome, s')"
    using assms(12) by (simp add: enroll_endpoint_def valid(1))
  have out: "outcome = Inr \<lparr>lg_token = fresh, lg_identity = hdl, lg_display_name = None, lg_expires_in = token_ttl_seconds_agent cfg\<rparr>"
    using enrollment_goes_through [OF assms(1) valid(2) assms(9,10), of fresh] enroll by auto
  then have answer: "enroll_answer (post body) = Inr \<lparr>bt_token = fresh, bt_identity_type = ''agent'', bt_identity = Some hdl\<rparr>"
    by (simp add: assms(13) enroll_understood)
  note stored = login_agent_stores [where post = post and from_bytes = from_bytes and raw_private = raw_private, OF assms(5-7) answer assms(8) spec [OF assms(4), of p] assms(14)]
  let ?key = "\<lparr>sk_handle = hdl, sk_private_key = p\<rparr>"
  have w: "signature_middleware lib cfg sent now s' = PassVerified hdl"
    if "header rq ''authorization'' = Some (''Bearer '' @ fresh)" "upper_method (rq_method rq) \<notin> set [''GET'', ''HEAD'', ''OPTIONS'']"
      "auth_flow lib signer ?key url created rq = Some sent" "abs (now - created) \<le> signature_clock_skew_seconds cfg"
      "now \<le> enrolled_at + token_ttl_seconds_agent cfg" for rq created sent now
    using enrolled_agent_can_write [OF assms(1-3) valid(2) assms(9,10) enroll that(1) bearer_header(1) bearer_header(2) [OF assms(11)] that(3,2,4,5)] by blast
  show ?thesis
    unfolding if_P [OF True]
    by (intro conjI exI [of _ ?key] allI impI; (elim conjE)?)
      (use stored in simp, use stored in simp, simp add: submit_signs_with_def, rule w)
next
  case False
  have "outcome = Inl invalid_request \<and> s' = s"
    using assms(12) enrollment_validated(1) [OF assms(8) False] by (simp add: enroll_endpoint_def)
  moreover obtain e where "enroll_answer (enroll_response (Inl invalid_request)) = Inl e" using invalid_refused(1) by blast
  ultimately show ?thesis
    unfolding if_not_P [OF False] using assms(8,13,14) by (auto simp: login_agent_def split: if_splits)
qed

section \<open>Binding a key to an ORCID iD, and writing\<close>

lemma binding_text:
  "json_bytes [(''purpose'', PStr ''orcid_key_binding''), (''orcid_id'', PStr i), (''public_key_b64'', PStr k),
     (''issued_at_unix'', PInt t), (''nonce'', PStr n)] =
   json_dumps (PDict [(''issued_at_unix'', PInt t), (''nonce'', PStr n), (''orcid_id'', PStr i), (''public_key_b64'', PStr k),
     (''purpose'', PStr ''orcid_key_binding'')])"
proof -
  let ?a = "''issued_at_unix''" and ?b = "''nonce''" and ?c = "''orcid_id''" and ?d = "''public_key_b64''" and ?e = "''purpose''"
  have order: "?a \<le> ?b" "?a \<le> ?c" "?a \<le> ?d" "?a \<le> ?e" "?b \<le> ?c" "?b \<le> ?d" "?b \<le> ?e" "?c \<le> ?d" "?c \<le> ?e" "?d \<le> ?e"
    "\<not> ?b \<le> ?a" "\<not> ?c \<le> ?a" "\<not> ?d \<le> ?a" "\<not> ?e \<le> ?a" "\<not> ?c \<le> ?b" "\<not> ?d \<le> ?b" "\<not> ?e \<le> ?b" "\<not> ?d \<le> ?c" "\<not> ?e \<le> ?c" "\<not> ?e \<le> ?d"
    by code_simp+
  show ?thesis by (simp add: json_bytes_def order)
qed

lemma binding_payload_read:
  "load_payload (std_b64_encode (build_key_binding_payload i k n t)) =
   Some (PDict [(''issued_at_unix'', PInt t), (''nonce'', PStr n), (''orcid_id'', PStr i), (''public_key_b64'', PStr k),
     (''purpose'', PStr ''orcid_key_binding'')])"
proof -
  have order: "sorted [''issued_at_unix'', ''nonce'', ''orcid_id'', ''public_key_b64'', ''purpose'']" by code_simp
  show ?thesis
    unfolding load_payload_def std_b64_round_trip Option.bind.bind_lunit build_key_binding_payload_def binding_text
    by (rule json_object_round_trip) (use order in simp_all)
qed

lemma binding_goes_through:
  assumes "signs_for ed_verify sign raw_public" "au_identity authed = OrcidIdentity oid" "n \<noteq> []" "\<not> startswith label ''@''"
    and "abs (now - issued_at) \<le> signature_clock_skew_seconds cfg"
  shows "bind_orcid_key ed_verify cfg authed (bind_request sign raw_public p oid label n issued_at) hex now s =
    (let r = \<lparr>ok_orcid_id = oid, ok_key_id = ''key:'' @ hex, ok_public_key_b64 = std_b64_encode (raw_public p), ok_label = label,
         ok_created_at_unix = now, ok_revoked_at_unix = None\<rparr> in (Inr r, add_orcid_key r s))"
proof -
  have check: "check_key_payload cfg oid (bind_request sign raw_public p oid label n issued_at) now
      [(''issued_at_unix'', PInt issued_at), (''nonce'', PStr n), (''orcid_id'', PStr oid),
       (''public_key_b64'', PStr (std_b64_encode (raw_public p))), (''purpose'', PStr ''orcid_key_binding'')] = None"
    using assms(3-5) by (simp add: check_key_payload_def bind_request_def Let_def dget_def in_window_def)
  show ?thesis
    using possession_shown [OF assms(1)] check
    by (simp add: bind_orcid_key_def assms(2) bind_request_def Let_def sign_enrollment_payload_def binding_payload_read)
qed

text \<open>
  C9: binding a key is enough to sign with it: when \<open>rrxiv auth bind-key\<close> runs for a stored ORCID
  login against a server that knows the bearer, with a label (the host's name, when none is given) of
  at most 64 characters that does not begin like a handle, it ends well, and from then on \<open>rrxiv
  annotation post\<close> finds the token and the key in the credential store, with either backend, and a
  write it signs for a URL that the server sees as the client does is let through under the key's id
  while the token lives. A longer label ends the command with an error, and nothing is stored on
  either side.
\<close>

theorem bind_then_write:
  assumes "signs_for ed_verify sign raw_public" "lib_complete lib signer public_of url"
    and "\<forall>p. load_key lib (raw_public p) = Some (public_of p)" "\<forall>p. from_bytes (raw_private p) = Some p"
    and "keyring_laws K" "in_form (cr_file cs)" "b = InKeyring \<longrightarrow> CHR '':'' \<notin> set oid"
    and "load_bearer K b api ''orcid'' cs = Inr (Some lg)" "\<not> is_expired lg None now" "sb_identity lg = Some oid"
    and "nonce \<noteq> []" "name = (if label = [] then hostname else label)" "\<not> startswith name ''@''" "abs (bound_at - issued_at) \<le> signature_clock_skew_seconds cfg"
    and "au_identity authed = OrcidIdentity oid" "str_strip (sb_token lg) = sb_token lg"
    and "get_token s (sb_token lg) = Some tok" "tr_identity tok = OrcidIdentity oid"
    and "bind_endpoint ed_verify cfg authed (bind_request sign raw_public p oid name nonce issued_at) hex bound_at s = (outcome, s')"
    and "post (bind_request sign raw_public p oid name nonce issued_at) = bind_response outcome"
    and "bind_key K b sign raw_public raw_private post api label hostname p nonce now issued_at cs = (r, cs')"
  shows "(if length name \<le> 64
    then r = Inr () \<and> (\<exists>key. resolve_identity K b from_bytes api (Some ''orcid'') cs' = Inr (Some (''orcid'', sb_token lg, Some key)) \<and>
    annotation_signs_with ''orcid'' (Some key) = Some key \<and> sk_handle key = ''key:'' @ hex \<and>
    (\<forall>rq created sent now'. header rq ''authorization'' = Some (''Bearer '' @ sb_token lg) \<and>
       upper_method (rq_method rq) \<notin> set [''GET'', ''HEAD'', ''OPTIONS''] \<and> auth_flow lib signer key url created rq = Some sent \<and>
       abs (now' - created) \<le> signature_clock_skew_seconds cfg \<and> now' \<le> tr_expires_at_unix tok \<longrightarrow>
       signature_middleware lib cfg sent now' s' = PassVerified (''key:'' @ hex)))
    else (\<exists>e. r = Inl e) \<and> cs' = cs \<and> s' = s)"
proof (cases "length name \<le> 64")
  case True
  let ?rec = "\<lparr>ok_orcid_id = oid, ok_key_id = ''key:'' @ hex, ok_public_key_b64 = std_b64_encode (raw_public p), ok_label = name,
     ok_created_at_unix = bound_at, ok_revoked_at_unix = None\<rparr>"
  let ?so = "\<lparr>so_api_base = api, so_orcid_id = oid, so_key_id = ''key:'' @ hex, so_private_key_b64 = std_b64_encode (raw_private p), so_label = name\<rparr>"
  let ?key = "\<lparr>sk_handle = ''key:'' @ hex, sk_private_key = p\<rparr>"
  have out: "outcome = Inr ?rec" "s' = add_orcid_key ?rec s"
    using binding_goes_through [OF assms(1,15,11,13,14)] assms(19) True
    by (simp_all add: Let_def bind_endpoint_def label_ok_def bind_request_def)
  have login: "require_orcid_login K b api now cs = Inr (lg, oid)"
    using assms(8-10) by (simp add: require_orcid_login_def)
  have "bind_key K b sign raw_public raw_private post api label hostname p nonce now issued_at cs = do_step (store_cred K b (OrcidKey ?so)) cs"
    using assms(13,20) by (simp add: bind_key_def login out(1) bind_understood Let_def flip: assms(12))
  with assms(21) store_cred_sets [OF assms(5,6), of b "OrcidKey ?so"] assms(7)
  have st: "r = Inr ()" "\<forall>k. valid_key b k \<longrightarrow> load_cred K b k cs' = (if k = OrcidKeyOf api oid then Inr (Some (OrcidKey ?so)) else load_cred K b k cs)"
    by (cases "store_orcid_key K b ?so cs"; auto simp: do_step_def sets_def)+
  have key: "load_orcid_key K b api oid cs' = Inr (Some ?so)"
    using st(2) assms(7) by (intro load_orcid_key_of) (simp del: load_cred.simps)
  have "load_cred K b (BearerOf api ''orcid'') cs' = load_cred K b (BearerOf api ''orcid'') cs"
    using st(2) by (simp del: load_cred.simps)
  then have bearer: "load_bearer K b api ''orcid'' cs' = Inr (Some lg)"
    using assms(8) by (intro load_bearer_of) (simp add: kind_result_def)
  have found: "resolve_identity K b from_bytes api (Some ''orcid'') cs' = Inr (Some (''orcid'', sb_token lg, Some ?key))"
    by (simp add: resolve_identity_def bearer assms(10) key b64_key [of from_bytes raw_private p, OF spec [OF assms(4)]])
  have w: "signature_middleware lib cfg sent now' s' = PassVerified (''key:'' @ hex)"
    if "header rq ''authorization'' = Some (''Bearer '' @ sb_token lg)" "upper_method (rq_method rq) \<notin> set [''GET'', ''HEAD'', ''OPTIONS'']"
      "auth_flow lib signer ?key url created rq = Some sent" "abs (now' - created) \<le> signature_clock_skew_seconds cfg"
      "now' \<le> tr_expires_at_unix tok" for rq created sent now'
  proof -
    have k: "get_orcid_key s' (''key:'' @ hex) = Some ?rec" "startswith (''key:'' @ hex) ''key:''"
      by (simp_all add: out(2) add_orcid_key_def get_orcid_key_def startswith_def)
    have "key_lookup lib s' (sk_handle ?key) = Some (public_of (sk_private_key ?key))"
      using k assms(3) by (simp add: key_lookup_def std_b64_round_trip Let_def)
    moreover have "get_token s' (bearer_token (''Bearer '' @ sb_token lg)) = Some tok"
      unfolding bearer_header(2) [OF assms(16)] using assms(17) by (simp add: out(2) add_orcid_key_def get_token_def)
    moreover have "mismatch_reason s' (tr_identity tok) (sk_handle ?key) = None"
      using k by (simp add: mismatch_reason_def assms(18))
    ultimately show ?thesis
      using signed_passes [OF assms(2) that(3) _ that(1) bearer_header(1) _ _ that(2,4,5), of s'] by simp
  qed
  show ?thesis
    unfolding if_P [OF True]
    by (intro conjI exI [of _ ?key] allI impI; (elim conjE)?)
      (rule st(1), rule found, simp add: annotation_signs_with_def, simp, rule w)
next
  case False
  have login: "require_orcid_login K b api now cs = Inr (lg, oid)"
    using assms(8-10) by (simp add: require_orcid_login_def)
  have "outcome = Inl invalid_request \<and> s' = s"
    using assms(19) False by (simp add: bind_endpoint_def label_ok_def bind_request_def Let_def)
  moreover obtain e where "bind_answer (bind_response (Inl invalid_request)) = Inl e" using invalid_refused(2) by blast
  ultimately show ?thesis
    unfolding if_not_P [OF False] using assms(13,20,21) by (auto simp: bind_key_def login Let_def simp flip: assms(12))
qed

section \<open>The listener\<close>

lemma listen_code:
  assumes "nonblank (or_code (listen rqs r))" "\<not> nonblank (or_error (listen rqs r))" "\<not> nonblank (or_code r)"
  shows "\<exists>rq \<in> set rqs. fst rq = ''/callback'' \<and> \<not> dict_has (snd rq) ''error'' \<and>
    first_of (snd rq) ''code'' = or_code (listen rqs r) \<and> first_of (snd rq) ''state'' = or_state (listen rqs r)"
  using assms
proof (induction rqs arbitrary: r)
  case (Cons rq rqs)
  let ?r = "do_get rq r"
  show ?case
  proof (cases "nonblank (or_code ?r) \<or> nonblank (or_error ?r)")
    case True
    then have l: "listen (rq # rqs) r = ?r" by (simp add: Let_def)
    with Cons.prems have "nonblank (or_code ?r)" "\<not> nonblank (or_code r)" by simp_all
    then have "fst rq = ''/callback''" "\<not> dict_has (snd rq) ''error''" by (auto simp: do_get_def split: if_splits)
    then show ?thesis unfolding l by (intro bexI [of _ rq]) (simp_all add: do_get_def)
  next
    case False
    then have l: "listen (rq # rqs) r = listen rqs ?r" by (simp add: Let_def)
    from Cons.IH [of ?r] Cons.prems False show ?thesis unfolding l by auto
  qed
qed simp

text \<open>
  the ORCID login only exchanges a code that came back with the state of this login: whatever
  requests reach the listener, a code goes to the server only when one request to the callback
  path brought both the code and the state that the authorization URL was made with, and no error.
\<close>

lemma callback_state_checked:
  assumes "listened expected rqs = Inr (code, state)"
  shows "state = expected \<and> (\<exists>rq \<in> set rqs. fst rq = ''/callback'' \<and> first_of (snd rq) ''code'' = Some code \<and>
    first_of (snd rq) ''state'' = Some expected \<and> \<not> dict_has (snd rq) ''error'')"
proof -
  let ?r = "listen rqs \<lparr>or_code = None, or_state = None, or_error = None\<rparr>"
  have r: "\<not> nonblank (or_error ?r)" "nonblank (or_code ?r)" "or_state ?r = Some expected" "or_code ?r = Some code" "state = expected"
    using assms by (auto simp: listened_def Let_def split: if_splits option.splits)
  have "\<not> nonblank (or_code \<lparr>or_code = None, or_state = None, or_error = None\<rparr>)" by (simp add: nonblank_def)
  from listen_code [OF r(2) r(1) this] r(3-5) show ?thesis by auto
qed

lemma callback_state_checked_witness:
  "first_of (snd (''/callback'', [(''code'', [''c'']), (''state'', [''s''])])) ''state'' = Some ''s'' \<and>
   listened ''s'' [(''/favicon.ico'', []), (''/callback'', [(''code'', [''c'']), (''state'', [''s''])])] = Inr (''c'', ''s'') \<and>
   listened ''x'' [(''/callback'', [(''code'', [''c'']), (''state'', [''s''])])] = Inl (Exit 2)"
proof -
  have l: "listened ''s'' [(''/favicon.ico'', []), (''/callback'', [(''code'', [''c'']), (''state'', [''s''])])] = Inr (''c'', ''s'')"
    by code_simp
  from callback_state_checked [OF l] have "first_of (snd (''/callback'', [(''code'', [''c'']), (''state'', [''s''])])) ''state'' = Some ''s''"
    by simp
  moreover have "listened ''x'' [(''/callback'', [(''code'', [''c'']), (''state'', [''s''])])] = Inl (Exit 2)" by code_simp
  ultimately show ?thesis using l by blast
qed

section \<open>Logging out\<close>

fun server_of :: "cred_key \<Rightarrow> string" where
  "server_of (BearerOf api t) = api"
| "server_of (AgentKeyOf api h) = api"
| "server_of (OrcidKeyOf api i) = api"

text \<open>What the file says: the index, or the credentials themselves.\<close>

definition listed :: "cred_file \<Rightarrow> cred_key \<Rightarrow> bool" where
  "listed f k \<longleftrightarrow> (\<exists>v. file_load f = Inr v \<and> look (cred_path k) v \<noteq> None)"

lemma delete_all_sets:
  assumes "keyring_laws K" "in_form (cr_file s)" "\<forall>k \<in> set ks. valid_key b k"
  shows "\<exists>t. delete_all K b ks s = (Inr (), t) \<and> in_form (cr_file t) \<and>
    (\<forall>k. valid_key b k \<longrightarrow> load_cred K b k t = (if k \<in> set ks then Inr None else load_cred K b k s))"
  using assms(2, 3)
proof (induction ks arbitrary: s)
  case (Cons k ks)
  from delete_cred_sets [OF assms(1) Cons.prems(1), of b k] Cons.prems(2) obtain u where
    u: "delete_cred K b k s = (Inr (), u)" "in_form (cr_file u)"
      "\<forall>k'. valid_key b k' \<longrightarrow> load_cred K b k' u = (if k' = k then Inr None else load_cred K b k' s)"
    by (cases "delete_cred K b k s") (auto simp: sets_def)
  from Cons.IH [OF u(2)] Cons.prems(2) obtain t where
    t: "delete_all K b ks u = (Inr (), t)" "in_form (cr_file t)"
      "\<forall>k'. valid_key b k' \<longrightarrow> load_cred K b k' t = (if k' \<in> set ks then Inr None else load_cred K b k' u)" by auto
  show ?case
    using u t by (intro exI [of _ t]) (simp del: load_cred.simps)
qed simp

lemma delete_bearer_listed:
  assumes "in_form (cr_file s)" "valid_key b (BearerOf api t)" "valid_key InFile k" "\<forall>a t. k \<noteq> BearerOf a t"
  shows "listed (cr_file (snd (delete_cred K b (BearerOf api t) s))) k = listed (cr_file s) k"
proof -
  from assms(1) obtain v where v: "file_load (cr_file s) = Inr v" "file_form v" by (auto simp: in_form_load)
  from drop_forgets [OF v(2), of InFile "BearerOf api t"] assms(2) obtain w where
    w: "drop_from_file (BearerOf api t) v = Inr w" "file_form w" "forgets (cred_path (BearerOf api t)) v w" by auto
  let ?s = "if b = InKeyring then ring_drop K (cred_user (BearerOf api t)) s else s"
  have f: "cr_file ?s = cr_file s" by (simp add: ring_drop_def)
  have "cr_file (snd (delete_cred K b (BearerOf api t) s)) = HasFile (sort_json w)"
    unfolding delete_cred_steps using file_update_result [of ?s v "drop_from_file (BearerOf api t)" w] v(1) w(1, 2) f
    by (simp add: update_with_def)
  moreover have "apart (cred_path (BearerOf api t)) (cred_path k)"
    using assms(2-4) by (intro paths_apart [of InFile]) auto
  ultimately show ?thesis
    using v(1) w(3) by (simp add: listed_def file_load_def look_sort forgets_def)
qed

lemma delete_bearers_listed:
  assumes "keyring_laws K" "in_form (cr_file s)" "\<forall>t \<in> set ts. valid_key b (BearerOf api t)" "valid_key InFile k" "\<forall>a t. k \<noteq> BearerOf a t"
  shows "listed (cr_file (snd (delete_all K b (map (BearerOf api) ts) s))) k = listed (cr_file s) k"
  using assms(2, 3)
proof (induction ts arbitrary: s)
  case (Cons t ts)
  from delete_cred_sets [OF assms(1) Cons.prems(1), of b "BearerOf api t"] Cons.prems(2) obtain u where
    u: "delete_cred K b (BearerOf api t) s = (Inr (), u)" "in_form (cr_file u)"
    by (cases "delete_cred K b (BearerOf api t) s") (auto simp: sets_def)
  have "listed (cr_file u) k = listed (cr_file s) k"
    using delete_bearer_listed [OF Cons.prems(1) _ assms(4, 5), of b api t K] Cons.prems(2) u(1) by simp
  with Cons.IH [OF u(2)] Cons.prems(2) u(1) show ?case by (simp del: delete_cred.simps)
qed simp

lemma names_listed:
  assumes "in_form (cr_file s)" "t \<in> {''agent_keys'', ''orcid_keys''}"
  shows "\<exists>v ns. stored_identities_for_server api s = Inr v \<and> names_in t v = Inr ns \<and>
    (\<forall>n. n \<in> set ns \<longleftrightarrow> (\<exists>w. file_load (cr_file s) = Inr w \<and> look [''credentials'', api, t, n] w \<noteq> None))"
proof -
  from assms(1) obtain w where w: "file_load (cr_file s) = Inr w" "file_form w" by (auto simp: in_form_load)
  from entry_form [OF w(2), of api] obtain d where d: "entry_of api w = PDict d"
    and tables: "\<forall>t \<in> {''agent_keys'', ''orcid_keys''}. \<forall>w. dict_get d t = Some w \<longrightarrow> is_dict w"
    unfolding server_form_iff by (elim exE conjE)
  obtain e where e: "(case dict_get d t of None \<Rightarrow> PDict [] | Some w \<Rightarrow> w) = PDict e"
    using bspec [OF tables assms(2)] by (cases "dict_get d t") (auto simp: is_dict_iff)
  have "look [''credentials'', api, t, n] w \<noteq> None \<longleftrightarrow> n \<in> set (map fst e)" for n
  proof -
    have "look [''credentials'', api, t, n] w = look [t, n] (PDict d)" by (simp only: look_entry [OF w(2)] d)
    also have "\<dots> = dict_get e n"
      using e by (cases "dict_get d t") (auto split: option.split)
    finally show ?thesis by (simp add: map_of_eq_None_iff)
  qed
  then show ?thesis
    using w(1) by (intro exI [of _ "PDict d"] exI [of _ "map fst e"])
      (simp add: stored_identities_for_server_def server_entry_of [OF w(2)] d names_in_def get_or_dict e)
qed

text \<open>What \<open>rrxiv logout\<close> forgets of a server: its bearers, the keys the file lists, the key of the ORCID login.\<close>

definition forgotten :: "string \<Rightarrow> stored_bearer option \<Rightarrow> cred_file \<Rightarrow> cred_key \<Rightarrow> bool" where
  "forgotten api login f k \<longleftrightarrow> server_of k = api \<and>
     ((\<exists>t. k = BearerOf api t) \<or> listed f k \<or> (\<exists>i. k = OrcidKeyOf api i \<and> Option.bind login sb_identity = Some i))"

lemma if_chain: "(if a then x else if b then x else y) = (if a \<or> b then x else y)"
  by simp

lemma logout_exactly:
  assumes "keyring_laws K" "in_form (cr_file s)" "load_bearer K b api ''orcid'' s = Inr login"
    and "\<forall>k. server_of k = api \<and> listed (cr_file s) k \<and> (\<forall>t. k \<noteq> BearerOf api t) \<longrightarrow> valid_key b k"
    and "\<forall>i. Option.bind login sb_identity = Some i \<longrightarrow> valid_key b (OrcidKeyOf api i)"
  shows "\<exists>t. logout_server K b api None s = (Inr (), t) \<and> in_form (cr_file t) \<and>
    (\<forall>k. valid_key b k \<longrightarrow> load_cred K b k t = (if forgotten api login (cr_file s) k then Inr None else load_cred K b k s))"
proof -
  let ?bs = "map (BearerOf api) [''orcid'', ''agent'', ''anonymous'']"
  let ?own = "case Option.bind login sb_identity of None \<Rightarrow> [] | Some i \<Rightarrow> [OrcidKeyOf api i]"
  obtain t where t: "delete_all K b ?bs s = (Inr (), t)" "in_form (cr_file t)"
    "\<forall>k. valid_key b k \<longrightarrow> load_cred K b k t = (if k \<in> set ?bs then Inr None else load_cred K b k s)"
    using delete_all_sets [OF assms(1,2), of ?bs b] by auto
  have same: "listed (cr_file t) k = listed (cr_file s) k" if "\<forall>a t. k \<noteq> BearerOf a t" for k
    using delete_bearers_listed [OF assms(1,2), of "[''orcid'', ''agent'', ''anonymous'']" b api k] that t(1) by (cases k) auto
  from names_listed [OF t(2), of "''agent_keys''" api] obtain v hs where v: "stored_identities_for_server api t = Inr v"
    and hs: "names_in ''agent_keys'' v = Inr hs" "\<forall>h. h \<in> set hs \<longleftrightarrow> listed (cr_file t) (AgentKeyOf api h)"
    by (auto simp: listed_def)
  from names_listed [OF t(2), of "''orcid_keys''" api] v obtain "is" where
    "is": "names_in ''orcid_keys'' v = Inr is" "\<forall>i. i \<in> set is \<longleftrightarrow> listed (cr_file t) (OrcidKeyOf api i)"
    by (auto simp: listed_def)
  have valid: "\<forall>k \<in> set (map (AgentKeyOf api) hs). valid_key b k" "\<forall>k \<in> set ?own. valid_key b k" "\<forall>k \<in> set (map (OrcidKeyOf api) is). valid_key b k"
    using assms(4,5) hs(2) "is"(2) same by (auto simp del: valid_key.simps split: option.splits)
  from delete_all_sets [OF assms(1) t(2) valid(1)] obtain u where
    u: "delete_all K b (map (AgentKeyOf api) hs) t = (Inr (), u)" "in_form (cr_file u)"
    "\<forall>k. valid_key b k \<longrightarrow> load_cred K b k u = (if k \<in> set (map (AgentKeyOf api) hs) then Inr None else load_cred K b k t)" by blast
  from delete_all_sets [OF assms(1) u(2) valid(2)] obtain w where
    w: "delete_all K b ?own u = (Inr (), w)" "in_form (cr_file w)"
    "\<forall>k. valid_key b k \<longrightarrow> load_cred K b k w = (if k \<in> set ?own then Inr None else load_cred K b k u)" by blast
  from delete_all_sets [OF assms(1) w(2) valid(3)] obtain x where
    x: "delete_all K b (map (OrcidKeyOf api) is) w = (Inr (), x)" "in_form (cr_file x)"
    "\<forall>k. valid_key b k \<longrightarrow> load_cred K b k x = (if k \<in> set (map (OrcidKeyOf api) is) then Inr None else load_cred K b k w)" by blast
  have run: "logout_server K b api None s = (Inr (), x)"
    using t(1) by (simp add: logout_server_def assms(3) v forget_agent_keys_def hs(1) u(1) forget_orcid_keys_def w(1) "is"(1) x(1))
  have "load_cred K b k x = (if forgotten api login (cr_file s) k then Inr None else load_cred K b k s)" if k: "valid_key b k" for k
  proof -
    have "load_cred K b k x = (if k \<in> set (map (OrcidKeyOf api) is) \<union> set ?own \<union> set (map (AgentKeyOf api) hs) \<union> set ?bs then Inr None else load_cred K b k s)"
      unfolding x(3) [rule_format, OF k] w(3) [rule_format, OF k] u(3) [rule_format, OF k] t(3) [rule_format, OF k]
      by (simp only: if_chain Un_iff disj_assoc)
    moreover have "k \<in> set (map (OrcidKeyOf api) is) \<union> set ?own \<union> set (map (AgentKeyOf api) hs) \<union> set ?bs \<longleftrightarrow> forgotten api login (cr_file s) k"
      using k same [of k] hs(2) "is"(2) by (cases k) (auto simp: forgotten_def split: option.splits)
    ultimately show ?thesis by simp
  qed
  with run x(2) show ?thesis by blast
qed

lemma file_unlisted:
  assumes "in_form (cr_file s)" "\<not> listed (cr_file s) k"
  shows "load_cred K InFile k s = Inr None"
proof -
  from assms(1) obtain v where v: "file_load (cr_file s) = Inr v" "file_form v" by (auto simp: in_form_load)
  with assms(2) show ?thesis by (simp add: load_from_file [OF v] read_entry_def listed_def)
qed

text \<open>
  C13: a complete logout of a server (\<open>rrxiv logout\<close> without \<open>--identity\<close>) goes through and forgets
  exactly this: the bearers of all three kinds, the agent and ORCID keys that the credentials file
  or its index lists for the server, and the signing key of the stored ORCID login. These can no
  longer be loaded; every other credential, of this server or another, loads as before, among them
  a key in the keyring that the index does not list. With the file backend nothing of the server is
  left. The names of the keys to delete are ones the backend can hold (without a colon, in the
  keyring).
\<close>

theorem logout_forgets:
  assumes "keyring_laws K" "in_form (cr_file s)" "load_bearer K b api ''orcid'' s = Inr login"
    and "\<forall>k. server_of k = api \<and> listed (cr_file s) k \<and> (\<forall>t. k \<noteq> BearerOf api t) \<longrightarrow> valid_key b k"
    and "\<forall>i. Option.bind login sb_identity = Some i \<longrightarrow> valid_key b (OrcidKeyOf api i)"
    and "logout_server K b api None s = (r, t)"
  shows "r = Inr () \<and> (\<forall>k. valid_key b k \<longrightarrow> load_cred K b k t = (if forgotten api login (cr_file s) k then Inr None else load_cred K b k s)) \<and>
    (\<forall>k. b = InFile \<and> valid_key b k \<and> server_of k = api \<longrightarrow> load_cred K b k t = Inr None)"
proof -
  from logout_exactly [OF assms(1-5)] assms(6)
  have t: "r = Inr ()" "\<forall>k. valid_key b k \<longrightarrow> load_cred K b k t = (if forgotten api login (cr_file s) k then Inr None else load_cred K b k s)"
    by auto
  have "load_cred K b k t = Inr None" if "b = InFile" "valid_key b k" "server_of k = api" for k
    using t(2) that file_unlisted [OF assms(2), of k K] by (auto simp: forgotten_def simp del: load_cred.simps)
  with t show ?thesis by blast
qed

section \<open>Examples\<close>

definition no_creds :: "(string \<times> pyval) list cred_state" where
  "no_creds = \<lparr>cr_file = NoFile, cr_ring = []\<rparr>"

definition toy_enroll :: "enroll_body \<Rightarrow> (exn + login_response) \<times> store_state" where
  "toy_enroll body = enroll_endpoint Some toy_verify default_settings body ''tok'' 110 empty_store"

definition toy_login :: "(cli_error + unit) \<times> (string \<times> pyval) list cred_state" where
  "toy_login = login_agent toy_keyring InFile (\<lambda>p m. m) (\<lambda>p. p) (\<lambda>p. p) (\<lambda>body. enroll_response (fst (toy_enroll body)))
     ''http://h'' ''@a'' None ''key'' 100 101 102 no_creds"

theorem login_then_write_witness:
  "fst toy_login = Inr () \<and>
   (\<exists>key. resolve_identity toy_keyring InFile Some ''http://h'' (Some ''agent'') (snd toy_login) = Inr (Some (''agent'', ''tok'', Some key)))"
proof -
  obtain body where b: "enrollment_request (\<lambda>p m. m) (\<lambda>p. p) ''key'' ''@a'' None 100 = Inr body"
    by (simp add: enrollment_request_def build_enrollment_payload_def startswith_def Let_def)
  have facts: "get_agent empty_store ''@a'' = None" "abs (110 - 100) \<le> signature_clock_skew_seconds default_settings" "str_strip ''tok'' = ''tok''"
    by code_simp+
  obtain outcome s' where e: "enroll_endpoint Some toy_verify default_settings body ''tok'' 110 empty_store = (outcome, s')"
    by (cases "enroll_endpoint Some toy_verify default_settings body ''tok'' 110 empty_store")
  have keys: "\<forall>p. load_key toy_lib ((\<lambda>p. p) p) = Some ((\<lambda>p. p) p)" by (simp add: toy_lib_def)
  have form: "in_form (cr_file no_creds)" by (simp add: no_creds_def in_form_def)
  have post: "enroll_response (fst (toy_enroll body)) = enroll_response outcome" by (simp add: toy_enroll_def e)
  have run: "login_agent toy_keyring InFile (\<lambda>p m. m) (\<lambda>p. p) (\<lambda>p. p) (\<lambda>body. enroll_response (fst (toy_enroll body)))
     ''http://h'' ''@a'' None ''key'' 100 101 102 no_creds = (fst toy_login, snd toy_login)" by (simp add: toy_login_def)
  have ok: "\<forall>p. Some ((\<lambda>p. p) p) = Some p" "InFile = InKeyring \<longrightarrow> CHR '':'' \<notin> set ''@a''" by simp_all
  have "handle_ok ''@a'' \<and> contact_ok Some None" by code_simp
  then show ?thesis
    using login_then_write [OF toy_signs toy_complete [of "''http://h''"] keys ok(1) toy_keyring_laws form ok(2) b facts e post run] by (simp only: if_True simp_thms) blast
qed

definition logged_in :: "(string \<times> pyval) list cred_state" where
  "logged_in = snd (store_cred toy_keyring InFile (Bearer (example_bearer\<lparr>sb_identity_type := ''orcid'', sb_identity := Some ''0''\<rparr>)) no_creds)"

definition toy_tokens :: store_state where
  "toy_tokens = issue_token ''t'' (OrcidIdentity ''0'') 1000 1 empty_store"

definition toy_bound :: "(exn + orcid_key_record) \<times> store_state" where
  "toy_bound = bind_endpoint toy_verify default_settings \<lparr>au_identity = OrcidIdentity ''0'', au_token = ''t''\<rparr>
     (bind_request (\<lambda>p m. m) (\<lambda>p. p) ''key'' ''0'' ''l'' ''n'' 5) ''ab'' 6 toy_tokens"

definition toy_bind_key :: "(cli_error + unit) \<times> (string \<times> pyval) list cred_state" where
  "toy_bind_key = bind_key toy_keyring InFile (\<lambda>p m. m) (\<lambda>p. p) (\<lambda>p. p) (\<lambda>_. bind_response (fst toy_bound)) ''http://h:1'' ''l'' ''host'' ''key'' ''n'' 5 5 logged_in"

definition orcid_login :: stored_bearer where
  "orcid_login = example_bearer\<lparr>sb_identity_type := ''orcid'', sb_identity := Some ''0''\<rparr>"

theorem bind_then_write_witness:
  "fst toy_bind_key = Inr () \<and>
   (\<exists>key. resolve_identity toy_keyring InFile Some ''http://h:1'' (Some ''orcid'') (snd toy_bind_key) = Inr (Some (''orcid'', ''t'', Some key)) \<and>
     sk_handle key = ''key:ab'')"
proof -
  let ?authed = "\<lparr>au_identity = OrcidIdentity ''0'', au_token = ''t''\<rparr>"
  let ?rq = "bind_request (\<lambda>p m. m) (\<lambda>p. p) ''key'' ''0'' ''l'' ''n'' 5"
  have keys: "\<forall>p. load_key toy_lib ((\<lambda>p. p) p) = Some ((\<lambda>p. p) p)" "\<forall>p. Some ((\<lambda>p. p) p) = Some p" by (simp_all add: toy_lib_def)
  have form: "in_form (cr_file logged_in)"
    using store_cred_sets [OF toy_keyring_laws, of no_creds InFile "Bearer orcid_login"]
    by (simp add: sets_def logged_in_def orcid_login_def no_creds_def in_form_def)
  have login: "load_bearer toy_keyring InFile ''http://h:1'' ''orcid'' logged_in = Inr (Some orcid_login)" by code_simp
  have lg: "\<not> is_expired orcid_login None 5" "sb_identity orcid_login = Some ''0''" by code_simp+
  have args: "''n'' \<noteq> []" "''l'' = (if ''l'' = [] then ''host'' else ''l'')" "\<not> startswith ''l'' ''@''" "abs (6 - 5) \<le> signature_clock_skew_seconds default_settings"
    by code_simp+
  have au: "au_identity ?authed = OrcidIdentity ''0''" by simp
  have strip: "str_strip (sb_token orcid_login) = sb_token orcid_login" by code_simp
  obtain tok where tok: "get_token toy_tokens (sb_token orcid_login) = Some tok" "tr_identity tok = OrcidIdentity ''0''"
    by (simp add: toy_tokens_def issue_token_def add_token_def get_token_def orcid_login_def example_bearer_def)
  have bound: "bind_endpoint toy_verify default_settings ?authed ?rq ''ab'' 6 toy_tokens = (fst toy_bound, snd toy_bound)"
    by (simp add: toy_bound_def)
  have run: "bind_key toy_keyring InFile (\<lambda>p m. m) (\<lambda>p. p) (\<lambda>p. p) (\<lambda>_. bind_response (fst toy_bound)) ''http://h:1'' ''l'' ''host'' ''key'' ''n'' 5 5 logged_in =
      (fst toy_bind_key, snd toy_bind_key)" by (simp add: toy_bind_key_def)
  have t: "sb_token orcid_login = ''t''" by code_simp
  have plain: "InFile = InKeyring \<longrightarrow> CHR '':'' \<notin> set ''0''" by simp
  note result = bind_then_write [OF toy_signs toy_complete [of "''http://h:1''"] keys toy_keyring_laws form plain login lg args au strip tok bound refl run]
  then show ?thesis unfolding t by auto
qed

theorem logout_forgets_witness:
  "load_cred toy_keyring InFile (BearerOf ''http://h:1'' ''orcid'') (snd (logout_server toy_keyring InFile ''http://h:1'' None logged_in)) = Inr None"
proof -
  have form: "in_form (cr_file logged_in)"
    using store_cred_sets [OF toy_keyring_laws, of no_creds InFile "Bearer orcid_login"]
    by (simp add: sets_def logged_in_def orcid_login_def no_creds_def in_form_def)
  have login: "load_bearer toy_keyring InFile ''http://h:1'' ''orcid'' logged_in = Inr (Some orcid_login)" by code_simp
  have valid: "\<forall>k. server_of k = ''http://h:1'' \<and> listed (cr_file logged_in) k \<and> (\<forall>t. k \<noteq> BearerOf ''http://h:1'' t) \<longrightarrow> valid_key InFile k"
  proof (intro allI impI)
    fix k
    assume "server_of k = ''http://h:1'' \<and> listed (cr_file logged_in) k \<and> (\<forall>t. k \<noteq> BearerOf ''http://h:1'' t)"
    then show "valid_key InFile k" by (cases k) auto
  qed
  have own: "\<forall>i. Option.bind (Some orcid_login) sb_identity = Some i \<longrightarrow> valid_key InFile (OrcidKeyOf ''http://h:1'' i)" by simp
  have k: "InFile = InFile \<and> valid_key InFile (BearerOf ''http://h:1'' ''orcid'') \<and> server_of (BearerOf ''http://h:1'' ''orcid'') = ''http://h:1''"
    by simp
  note all = logout_forgets [OF toy_keyring_laws form login valid own prod.collapse [symmetric], THEN conjunct2, THEN conjunct2]
  show ?thesis by (rule all [rule_format, OF k])
qed

text \<open>
  \<open>rrxiv submit\<close> does not sign with the bound key that it looked up, although binding says that it
  will.
\<close>

lemma submit_leaves_orcid_unsigned: "submit_signs_with ''orcid'' key = None" "annotation_signs_with ''orcid'' key = key"
  by (simp_all add: submit_signs_with_def annotation_signs_with_def)

text \<open>A paste code that is answered without a lifetime stores a bearer that has already expired.\<close>

lemma paste_code_without_lifetime:
  "case load_bearer toy_keyring InFile ''http://h'' ''orcid''
      (snd (redeem_orcid_paste_code toy_keyring InFile
        (\<lambda>_ _. json_response 200 ''application/json'' [(''token'', PStr ''t''), (''orcid_id'', PStr ''0'')]) ''http://h'' ''RRXIV'' 7 7 no_creds)) of
     Inr (Some r) \<Rightarrow> is_expired r None 7 | _ \<Rightarrow> False"
  by code_simp

text \<open>Under the keyring, a signing key outlives the logout from all servers once its bearer is gone.\<close>

lemma orcid_key_survives_logout:
  "case logout toy_keyring InKeyring [] None True (snd (store_cred toy_keyring InKeyring (OrcidKey example_orcid) no_creds)) of
     (Inr _, t) \<Rightarrow> load_cred toy_keyring InKeyring (OrcidKeyOf ''http://h:1'' ''0'') t = Inr (Some (OrcidKey example_orcid)) | _ \<Rightarrow> False"
  by code_simp

end
