(* ===== verification/Annotation_Payloads.thy ===== *)
theory Annotation_Payloads
  imports Codecs
begin

text \<open>
  The payloads of annotations, \<open>annotations/payloads.py\<close>: a table of fields for each kind of
  annotation and the validator. The models are pydantic's; what its lax mode makes of a value for
  an integer field is the parameter \<open>as_int\<close> for text, and as documented for the rest: a boolean
  counts as 0 or 1, a string field takes only strings, and a default is not validated.
\<close>

section \<open>Fields\<close>

datatype field_kind =
    Text
  | OneOf "string list"
  | AtLeast int
  | Object
  | Texts nat
  | Objects

text \<open>A field must be there, or has a default; a nullable one may be given as null.\<close>

record payload_field =
  pf_name :: string
  pf_kind :: field_kind
  pf_required :: bool
  pf_nullable :: bool

definition required :: "string \<Rightarrow> field_kind \<Rightarrow> payload_field" where
  "required n k = \<lparr>pf_name = n, pf_kind = k, pf_required = True, pf_nullable = False\<rparr>"

definition optional :: "string \<Rightarrow> field_kind \<Rightarrow> payload_field" where
  "optional n k = \<lparr>pf_name = n, pf_kind = k, pf_required = False, pf_nullable = True\<rparr>"

definition defaulted :: "string \<Rightarrow> field_kind \<Rightarrow> payload_field" where
  "defaulted n k = \<lparr>pf_name = n, pf_kind = k, pf_required = False, pf_nullable = False\<rparr>"

section \<open>The models\<close>

definition replication_payload :: "payload_field list" where
  "replication_payload =
     [required ''outcome'' (OneOf [''supports'', ''contradicts'', ''partial'', ''inconclusive'']),
      required ''method'' (OneOf [''computational'', ''experimental'', ''analytical'', ''theoretical'']),
      optional ''n'' (AtLeast 0), optional ''effect_size'' Object, optional ''code_uri'' Text, optional ''data_uri'' Text]"

definition contradiction_payload :: "payload_field list" where
  "contradiction_payload = [optional ''contradicting_claim_id'' Text, optional ''scope_overlap'' Text, required ''reasoning'' Text]"

definition extension_payload :: "payload_field list" where
  "extension_payload =
     [optional ''extending_claim_id'' Text, required ''kind'' (OneOf [''generalisation'', ''refinement'', ''strengthening'']),
      required ''description'' Text]"

definition erratum_payload :: "payload_field list" where
  "erratum_payload =
     [required ''error_description'' Text, required ''corrected_statement'' Text,
      required ''scope'' (OneOf [''claim'', ''section'', ''paper'']), required ''severity'' (OneOf [''minor'', ''moderate'', ''major''])]"

definition summary_payload :: "payload_field list" where
  "summary_payload =
     [required ''audience'' (OneOf [''expert'', ''general'', ''agent'']), required ''length_words'' (AtLeast 1),
      defaulted ''key_points'' (Texts 1)]"

definition code_link_payload :: "payload_field list" where
  "code_link_payload =
     [required ''uri'' Text, optional ''ref'' Text, required ''role'' (OneOf [''implements'', ''reproduces'', ''extends'', ''tests'']),
      optional ''language'' Text, optional ''license'' Text]"

definition dataset_link_payload :: "payload_field list" where
  "dataset_link_payload =
     [required ''uri'' Text, optional ''checksum'' Text, optional ''format'' Text, optional ''size_bytes'' (AtLeast 0),
      optional ''license'' Text, required ''role'' (OneOf [''input'', ''output'', ''validation''])]"

definition claim_extraction_payload :: "payload_field list" where
  "claim_extraction_payload = [required ''proposed_claim'' Object]"

definition revision_summary_payload :: "payload_field list" where
  "revision_summary_payload = [required ''previous_version_id'' Text, required ''summary'' Text, optional ''highlights'' Objects]"

definition retraction_reasons :: "string list" where
  "retraction_reasons =
     [''data_error'', ''methodological_flaw'', ''fraud'', ''contamination'', ''withdrawn_by_author'', ''superseded_by_revision'']"

definition recommended_actions :: "string list" where
  "recommended_actions = [''use_v2'', ''file_v2'', ''no_action'', ''see_replications'', ''use_superseded_by'']"

definition retraction_payload :: "payload_field list" where
  "retraction_payload =
     [required ''reason'' (OneOf retraction_reasons), optional ''explanation'' Text, optional ''superseded_by_paper'' Text,
      optional ''superseded_by_claim'' Text, optional ''recommended_action'' (OneOf recommended_actions)]"

text \<open>A comment has no model.\<close>

definition payload_models :: "(string \<times> payload_field list option) list" where
  "payload_models =
     [(''replication'', Some replication_payload), (''contradiction'', Some contradiction_payload), (''extension'', Some extension_payload),
      (''erratum'', Some erratum_payload), (''summary'', Some summary_payload), (''comment'', None), (''code_link'', Some code_link_payload),
      (''dataset_link'', Some dataset_link_payload), (''claim_extraction'', Some claim_extraction_payload),
      (''revision_summary'', Some revision_summary_payload), (''claim_retraction'', Some retraction_payload),
      (''paper_retraction'', Some retraction_payload)]"

section \<open>Validation\<close>

definition int_value :: "(string \<Rightarrow> int option) \<Rightarrow> pyval \<Rightarrow> int option" where
  "int_value as_int v = (case v of PInt i \<Rightarrow> Some i | PBool b \<Rightarrow> Some (if b then 1 else 0) | PStr s \<Rightarrow> as_int s | _ \<Rightarrow> None)"

definition value_ok :: "(string \<Rightarrow> int option) \<Rightarrow> field_kind \<Rightarrow> pyval \<Rightarrow> bool" where
  "value_ok as_int k v =
     (case k of
        Text \<Rightarrow> is_str v
      | OneOf choices \<Rightarrow> (case v of PStr s \<Rightarrow> s \<in> set choices | _ \<Rightarrow> False)
      | AtLeast m \<Rightarrow> (case int_value as_int v of Some i \<Rightarrow> m \<le> i | None \<Rightarrow> False)
      | Object \<Rightarrow> is_dict v
      | Texts m \<Rightarrow> (case v of PList xs \<Rightarrow> m \<le> length xs \<and> list_all is_str xs | _ \<Rightarrow> False)
      | Objects \<Rightarrow> (case v of PList xs \<Rightarrow> list_all is_dict xs | _ \<Rightarrow> False))"

definition field_ok :: "(string \<Rightarrow> int option) \<Rightarrow> pydict \<Rightarrow> payload_field \<Rightarrow> bool" where
  "field_ok as_int d f =
     (case dict_get d (pf_name f) of
        None \<Rightarrow> \<not> pf_required f
      | Some v \<Rightarrow> (v = PNone \<and> pf_nullable f) \<or> value_ok as_int (pf_kind f) v)"

text \<open>\<open>model_validate\<close> with extra fields forbidden.\<close>

definition model_accepts :: "(string \<Rightarrow> int option) \<Rightarrow> payload_field list \<Rightarrow> pydict \<Rightarrow> bool" where
  "model_accepts as_int fs d \<longleftrightarrow> list_all (field_ok as_int d) fs \<and> list_all (\<lambda>(k, _). k \<in> pf_name ` set fs) d"

datatype payload_problem = UnknownType | PayloadGiven | PayloadMissing | PayloadInvalid

text \<open>The kind's name behind the last dot: what \<open>str\<close> gives for a member of the enumeration.\<close>

definition behind_last_dot :: "string \<Rightarrow> string" where
  "behind_last_dot s = rev (takeWhile (\<lambda>c. c \<noteq> CHR ''.'') (rev s))"

definition validate_annotation_payload :: "(string \<Rightarrow> int option) \<Rightarrow> string \<Rightarrow> pydict option \<Rightarrow> payload_problem option" where
  "validate_annotation_payload as_int annotation_type payload =
     (case dict_get payload_models (behind_last_dot annotation_type) of
        None \<Rightarrow> Some UnknownType
      | Some None \<Rightarrow> if payload \<noteq> None then Some PayloadGiven else None
      | Some (Some fs) \<Rightarrow>
          (case payload of
             None \<Rightarrow> Some PayloadMissing
           | Some d \<Rightarrow> if model_accepts as_int fs d then None else Some PayloadInvalid))"

section \<open>Files of annotations\<close>

text \<open>\<open>base\<close> is the generated model of an annotation: its kind and its payload, or nothing when it does not fit.\<close>

type_synonym annotation_model = "pyval \<Rightarrow> (string \<times> pydict option) option"

datatype load_problem = NotLoadable | NotAnAnnotation

definition load_annotations_file :: "annotation_model \<Rightarrow> pyval option \<Rightarrow> load_problem + (string \<times> pydict option) list" where
  "load_annotations_file base content =
     (let load = (\<lambda>v. case base v of None \<Rightarrow> Inl NotAnAnnotation | Some a \<Rightarrow> Inr a)
      in case content of
           None \<Rightarrow> Inl NotLoadable
         | Some (PDict d) \<Rightarrow> rbind (load (PDict d)) (\<lambda>a. Inr [a])
         | Some (PList xs) \<Rightarrow> rmap load xs
         | Some _ \<Rightarrow> Inl NotLoadable)"

text \<open>The exit code of \<open>rrxiv annotation validate\<close> and the positions it complains about.\<close>

definition annotation_validate ::
  "(string \<Rightarrow> int option) \<Rightarrow> annotation_model \<Rightarrow> bool \<Rightarrow> pyval option \<Rightarrow> nat \<times> (nat \<times> payload_problem) list" where
  "annotation_validate as_int base strict content =
     (case load_annotations_file base content of
        Inl _ \<Rightarrow> (1, [])
      | Inr anns \<Rightarrow>
          let bad = (if strict then List.map_filter (\<lambda>(i, t, p). map_option (Pair i) (validate_annotation_payload as_int t p)) (enumerate 0 anns) else [])
          in (if bad = [] then 0 else 1, bad))"

text \<open>A summary without key points is accepted, one with an empty list of them is not.\<close>

lemma key_points_may_be_missing:
  "validate_annotation_payload (\<lambda>_. None) ''AnnotationType.summary''
     (Some [(''audience'', PStr ''agent''), (''length_words'', PInt 5)]) = None"
  "validate_annotation_payload (\<lambda>_. None) ''AnnotationType.summary''
     (Some [(''audience'', PStr ''agent''), (''length_words'', PInt 5), (''key_points'', PList [])]) = Some PayloadInvalid"
  by code_simp+

end
