(* ===== verification/Json_Indent.thy ===== *)
theory Json_Indent
  imports Client_Agent
begin

text \<open>
  \<open>json.dumps(v, indent=2)\<close>, the text the command line writes to files, and that the parser
  of \<open>Codecs\<close> reads it back, however deep the value is nested.
\<close>

section \<open>Written over several lines\<close>

definition new_line :: "nat \<Rightarrow> string" where
  "new_line level = char_of (10 :: nat) # replicate (2 * level) (CHR '' '')"

text \<open>Items one level deeper, separated by commas; \<open>[]\<close> and \<open>{}\<close> stay on the line.\<close>

definition spread :: "nat \<Rightarrow> char \<Rightarrow> char \<Rightarrow> string list \<Rightarrow> string" where
  "spread level opening closing ts =
     (if ts = [] then [opening, closing]
      else opening # new_line (Suc level) @ join_on ('','' @ new_line (Suc level)) ts @ new_line level @ [closing])"

fun json_indent :: "nat \<Rightarrow> pyval \<Rightarrow> string" where
  "json_indent level (PList xs) = spread level (CHR ''['') (CHR '']'') (map (json_indent (Suc level)) xs)"
| "json_indent level (PDict d) =
     spread level (CHR ''{'') (CHR ''}'')
       (map (\<lambda>(k, t). json_str k @ '': '' @ t) (map (\<lambda>(k, v). (k, json_indent (Suc level) v)) d))"
| "json_indent level v = json_dumps v"

text \<open>The values a dictionary can hold: no key twice.\<close>

fun json_value :: "pyval \<Rightarrow> bool" where
  "json_value (PList xs) = list_all json_value xs"
| "json_value (PDict d) = (wf_dict d \<and> list_all (\<lambda>(_, b). b) (map (\<lambda>(k, v). (k, json_value v)) d))"
| "json_value _ = True"

section \<open>Read back\<close>

text \<open>The reader skips white space before a value, a comma or a closing bracket.\<close>

definition blank :: "string \<Rightarrow> bool" where
  "blank w \<longleftrightarrow> list_all json_space w"

lemma blank_new_line [simp]: "blank (new_line l)"
  by (auto simp: blank_def new_line_def json_space_code list_all_iff)

lemma skip_blank: "blank w \<Longrightarrow> skip_ws (w @ s) = skip_ws s"
  by (induction w) (simp_all add: blank_def skip_ws_def)

lemma read_value_blank: "blank w \<Longrightarrow> read_value n (w @ s) = read_value n s"
  by (cases n) (simp_all add: skip_blank)

lemma read_items_blank: "blank w \<Longrightarrow> read_items n (w @ s) = read_items n s"
  by (cases n) (simp_all add: read_value_blank)

lemma read_fields_blank: "blank w \<Longrightarrow> read_fields n d (w @ s) = read_fields n d s"
  by (cases n) (simp_all add: skip_blank)

lemma indent_atomic: "atomic v \<Longrightarrow> json_indent l v = json_dumps v"
  by (cases v) simp_all

lemma spread_text:
  "ts \<noteq> [] \<Longrightarrow> spread l a b ts @ r = a # new_line (Suc l) @ join_on ('','' @ new_line (Suc l)) ts @ new_line l @ b # r"
  by (simp add: spread_def)

text \<open>Neither the text of a value nor of a field starts like white space or a closing bracket.\<close>

definition opens :: "string \<Rightarrow> bool" where
  "opens s \<longleftrightarrow> (\<exists>c r. s = c # r \<and> \<not> json_space c \<and> c \<noteq> CHR '']'' \<and> c \<noteq> CHR ''}'')"

lemma atomic_opens: "atomic v \<Longrightarrow> opens (json_dumps v)"
proof (cases v)
  case (PInt i)
  show ?thesis
  proof (cases "i < 0")
    case True
    then show ?thesis by (simp add: PInt opens_def str_of_int_def json_space_code)
  next
    case False
    obtain c r where c: "str_of_nat (nat i) = c # r" by (cases "str_of_nat (nat i)") auto
    then have "is_digit c" using str_of_nat_first by blast
    then have "\<not> json_space c" "c \<noteq> CHR '']''" "c \<noteq> CHR ''}''" by (auto simp: is_digit_def Let_def json_space_code)
    with False c show ?thesis by (simp add: PInt opens_def str_of_int_def)
  qed
next
  case (PStr s)
  have "dq \<noteq> CHR '']''" "dq \<noteq> CHR ''}''" by (auto simp: dq_def char_of_def)
  then show ?thesis by (simp add: PStr opens_def json_str_def json_punct)
qed (auto simp: opens_def json_space_code)

lemma value_opens: "opens (json_indent l v)"
proof (cases v)
  case (PList xs)
  then show ?thesis by (simp add: spread_def opens_def json_space_code)
next
  case (PDict d)
  then show ?thesis by (simp add: spread_def opens_def json_space_code)
qed (simp_all add: atomic_opens del: json_dumps.simps)

text \<open>Enough fuel for a value is more than the length of its text.\<close>

definition reads_back :: "nat \<Rightarrow> pyval \<Rightarrow> bool" where
  "reads_back l v \<longleftrightarrow> (\<forall>n c r. ends_value c \<longrightarrow> length (json_indent l v) < n \<longrightarrow>
     read_value n (json_indent l v @ c # r) = Some (v, c # r))"

lemma reads_backD:
  "reads_back l v \<Longrightarrow> ends_value c \<Longrightarrow> length (json_indent l v) < n \<Longrightarrow> read_value n (json_indent l v @ c # r) = Some (v, c # r)"
  by (simp add: reads_back_def)

lemma atomic_reads_back: "atomic v \<Longrightarrow> reads_back l v"
proof -
  assume v: "atomic v"
  have "read_value n (json_dumps v @ c # r) = Some (v, c # r)" if "ends_value c" "length (json_dumps v) < n" for n c r
    using read_value_atomic [OF v that(1), of "n - 1" r] that(2) by simp
  then show ?thesis by (simp add: reads_back_def indent_atomic [OF v])
qed

lemma new_line_Cons: "new_line l = char_of (10 :: nat) # replicate (2 * l) (CHR '' '')"
  by (simp add: new_line_def)

lemma skip_new_line: "\<not> json_space c \<Longrightarrow> skip_ws (new_line l @ c # r) = c # r"
  by (simp add: skip_blank skip_ws_cons)

lemma read_items_spread:
  assumes "\<And>x. x \<in> set xs \<Longrightarrow> reads_back k x" "xs \<noteq> []"
    and "length (join_on ('','' @ new_line k) (map (json_indent k) xs)) + 1 < n"
  shows "read_items n (join_on ('','' @ new_line k) (map (json_indent k) xs) @ new_line l @ CHR '']'' # r) = Some (xs, r)"
  using assms
proof (induction xs arbitrary: n)
  case (Cons x xs)
  obtain m where n: "n = Suc m" using Cons.prems(3) by (cases n) auto
  have x: "reads_back k x" using Cons.prems(1) by simp
  have sep: "\<not> json_space (CHR '','')" "\<not> json_space (CHR '']'')" by (simp_all add: json_space_code)
  show ?case
  proof (cases xs)
    case Nil
    with Cons.prems(3) have "length (json_indent k x) < m" by (simp add: n)
    then have "read_value m (json_indent k x @ new_line l @ CHR '']'' # r) = Some (x, new_line l @ CHR '']'' # r)"
      using reads_backD [OF x, of "char_of (10 :: nat)" m] by (simp add: new_line_Cons)
    then show ?thesis using sep by (simp add: n Nil skip_new_line)
  next
    case (Cons y ys)
    let ?rest = "join_on ('','' @ new_line k) (map (json_indent k) xs) @ new_line l @ CHR '']'' # r"
    have len: "length (json_indent k x) < m" "length (join_on ('','' @ new_line k) (map (json_indent k) xs)) + 1 < m"
      using Cons.prems(3) by (simp_all add: n Cons)
    have "read_value m (json_indent k x @ CHR '','' # new_line k @ ?rest) = Some (x, CHR '','' # new_line k @ ?rest)"
      by (rule reads_backD [OF x]) (use len in simp_all)
    moreover have "read_items m ?rest = Some (xs, r)"
      using Cons.prems(1) len(2) by (intro Cons.IH) (simp_all add: Cons)
    then have "read_items m (new_line k @ ?rest) = Some (xs, r)" by (simp only: read_items_blank blank_new_line)
    ultimately show ?thesis using sep by (simp add: n Cons skip_ws_cons)
  qed
qed simp

text \<open>The same for the fields of a dictionary.\<close>

definition field_text :: "nat \<Rightarrow> string \<times> pyval \<Rightarrow> string" where
  "field_text k kv = json_str (fst kv) @ '': '' @ json_indent k (snd kv)"

lemma field_key:
  assumes "read_value m (json_indent k v @ u) = Some (v, u)" "skip_ws u = c # t"
  shows "read_fields (Suc m) acc (field_text k (i, v) @ u) =
    (if c = CHR ''}'' then Some (dict_set i v acc, t) else if c = CHR '','' then read_fields m (dict_set i v acc) t else None)"
proof -
  have written: "field_text k (i, v) @ u = dq # concat (map json_char i) @ dq # CHR '':'' # '' '' @ json_indent k v @ u"
    by (simp add: field_text_def json_str_def)
  have "read_value m ('' '' @ json_indent k v @ u) = Some (v, u)"
    using assms(1) by (subst read_value_blank) (simp_all add: blank_def json_space_code)
  then show ?thesis
    unfolding written using assms(2)
    by (subst read_fields.simps(2)) (simp add: skip_ws_cons json_punct read_str_json del: read_value.simps read_fields.simps)
qed

lemma read_fields_spread:
  assumes "\<And>k v. (k, v) \<in> set d \<Longrightarrow> reads_back l v" "d \<noteq> []"
    and "length (join_on ('','' @ new_line l) (map (field_text l) d)) + 1 < n"
  shows "read_fields n acc (join_on ('','' @ new_line l) (map (field_text l) d) @ new_line j @ CHR ''}'' # r) =
    Some (foldl (\<lambda>d kv. dict_set (fst kv) (snd kv) d) acc d, r)"
  using assms
proof (induction d arbitrary: n acc)
  case (Cons x d)
  obtain m where n: "n = Suc m" using Cons.prems(3) by (cases n) auto
  obtain i v where x: "x = (i, v)" by (cases x)
  have v: "reads_back l v" using Cons.prems(1) [of i v] by (simp add: x)
  have sep: "\<not> json_space (CHR '','')" "\<not> json_space (CHR ''}'')" by (simp_all add: json_space_code)
  have shorter: "length (json_indent l v) < length (field_text l x)" by (simp add: field_text_def x)
  show ?case
  proof (cases d)
    case Nil
    then have "length (json_indent l v) < m" using Cons.prems(3) shorter by (simp add: n)
    then have "read_value m (json_indent l v @ new_line j @ CHR ''}'' # r) = Some (v, new_line j @ CHR ''}'' # r)"
      using reads_backD [OF v, of "char_of (10 :: nat)" m] by (simp add: new_line_Cons)
    from field_key [OF this skip_new_line [OF sep(2)]] show ?thesis
      by (simp add: n Nil x del: read_fields.simps)
  next
    case (Cons y ys)
    let ?rest = "join_on ('','' @ new_line l) (map (field_text l) d) @ new_line j @ CHR ''}'' # r"
    have len: "length (json_indent l v) < m" "length (join_on ('','' @ new_line l) (map (field_text l) d)) + 1 < m"
      using Cons.prems(3) shorter by (simp_all add: n Cons)
    have "read_value m (json_indent l v @ CHR '','' # new_line l @ ?rest) = Some (v, CHR '','' # new_line l @ ?rest)"
      by (rule reads_backD [OF v]) (use len in simp_all)
    from field_key [OF this skip_ws_cons [OF sep(1)]]
    have "read_fields n acc (field_text l x @ CHR '','' # new_line l @ ?rest) = read_fields m (dict_set i v acc) (new_line l @ ?rest)"
      by (simp add: n x del: read_fields.simps)
    also have "\<dots> = Some (foldl (\<lambda>d kv. dict_set (fst kv) (snd kv) d) (dict_set i v acc) d, r)"
      unfolding read_fields_blank [OF blank_new_line]
      using Cons.prems(1) len(2) by (intro Cons.IH) (auto simp: Cons)
    finally show ?thesis by (simp add: Cons x)
  qed
qed simp

lemma indent_dict: "json_indent l (PDict d) = spread l (CHR ''{'') (CHR ''}'') (map (field_text (Suc l)) d)"
  by (simp add: field_text_def [abs_def] comp_def case_prod_unfold)

lemma first_skipped: "opens s \<Longrightarrow> \<exists>c u. skip_ws (new_line k @ s @ t) = c # u \<and> c \<noteq> CHR '']'' \<and> c \<noteq> CHR ''}''"
  by (auto simp: opens_def skip_blank skip_ws_cons)

lemma opens_join: "opens x \<Longrightarrow> opens (join_on s (x # xs))"
  by (cases xs) (auto simp: opens_def)

lemma opens_field: "opens (field_text k kv)"
proof -
  have "dq \<noteq> CHR '']''" "dq \<noteq> CHR ''}''" by (auto simp: dq_def char_of_def)
  then show ?thesis by (simp add: field_text_def opens_def json_str_def json_punct)
qed

lemma list_reads_back:
  assumes "\<And>x. x \<in> set xs \<Longrightarrow> reads_back (Suc l) x"
  shows "reads_back l (PList xs)"
proof (cases xs)
  case Nil
  have "CHR ''['' \<noteq> dq" by (auto simp: dq_def char_of_def)
  then have "read_value (Suc m) (''[]'' @ c # r) = Some (PList [], c # r)" for m c r
    by (simp add: skip_ws_cons json_space_code)
  then show ?thesis by (auto simp: reads_back_def Nil spread_def gr0_conv_Suc less_eq_Suc_le Suc_le_D dest!: Suc_le_D)
next
  case (Cons y ys)
  have "read_value n (json_indent l (PList xs) @ c # r) = Some (PList xs, c # r)"
    if fuel: "length (json_indent l (PList xs)) < n" for n c r
  proof -
    let ?items = "join_on ('','' @ new_line (Suc l)) (map (json_indent (Suc l)) xs)"
    have written: "json_indent l (PList xs) @ c # r =
        CHR ''['' # new_line (Suc l) @ ?items @ new_line l @ CHR '']'' # c # r"
      by (simp add: Cons spread_text)
    have len: "length (json_indent l (PList xs)) \<ge> length ?items + 3" by (simp add: Cons spread_def new_line_def)
    obtain m where n: "n = Suc m" "length ?items + 1 < m" using fuel len by (cases n) auto
    have items: "read_items m (?items @ new_line l @ CHR '']'' # c # r) = Some (xs, c # r)"
      by (rule read_items_spread) (use assms n(2) in \<open>simp_all add: Cons\<close>)
    have "opens ?items" unfolding Cons list.map by (rule opens_join [OF value_opens])
    from first_skipped [OF this, of "Suc l" "new_line l @ CHR '']'' # c # r"] obtain c' u where
      first: "skip_ws (new_line (Suc l) @ ?items @ new_line l @ CHR '']'' # c # r) = c' # u" "c' \<noteq> CHR '']''" by auto
    have "CHR ''['' \<noteq> dq" by (auto simp: dq_def char_of_def)
    then show ?thesis
      unfolding written n(1) using first items
      by (subst read_value.simps(2)) (simp add: skip_ws_cons json_space_code read_items_blank del: read_items.simps)
  qed
  then show ?thesis by (simp add: reads_back_def)
qed


text \<open>The text of a dictionary ends with its bracket, whatever follows.\<close>

lemma read_dict_text:
  assumes "\<And>k v. (k, v) \<in> set d \<Longrightarrow> reads_back (Suc l) v" "wf_dict d" "length (json_indent l (PDict d)) < n"
  shows "read_value n (json_indent l (PDict d) @ u) = Some (PDict d, u)"
proof -
  have first: "CHR ''{'' \<noteq> dq" by (auto simp: dq_def char_of_def)
  obtain m where n: "n = Suc m" using assms(3) by (cases n) auto
  show ?thesis
  proof (cases d)
    case Nil
    then show ?thesis using first by (simp add: n spread_def skip_ws_cons json_space_code)
  next
    case (Cons y ys)
    let ?items = "join_on ('','' @ new_line (Suc l)) (map (field_text (Suc l)) d)"
    have written: "json_indent l (PDict d) @ u = CHR ''{'' # new_line (Suc l) @ ?items @ new_line l @ CHR ''}'' # u"
      unfolding indent_dict by (simp add: Cons spread_text)
    have "length (json_indent l (PDict d)) \<ge> length ?items + 3"
      unfolding indent_dict by (simp add: Cons spread_def new_line_def)
    with assms(3) have m: "length ?items + 1 < m" by (simp add: n)
    have "read_fields m [] (?items @ new_line l @ CHR ''}'' # u) = Some (foldl (\<lambda>d kv. dict_set (fst kv) (snd kv) d) [] d, u)"
      by (rule read_fields_spread) (use assms(1) m Cons in auto)
    then have items: "read_fields m [] (?items @ new_line l @ CHR ''}'' # u) = Some (d, u)"
      using fold_fresh_fields [OF assms(2), of "[]"] by simp
    have "opens ?items" unfolding Cons list.map by (rule opens_join [OF opens_field])
    from first_skipped [OF this, of "Suc l" "new_line l @ CHR ''}'' # u"] obtain c' u' where
      "skip_ws (new_line (Suc l) @ ?items @ new_line l @ CHR ''}'' # u) = c' # u'" "c' \<noteq> CHR ''}''" by auto
    then show ?thesis
      unfolding written n using first items
      by (subst read_value.simps(2)) (simp add: skip_ws_cons json_space_code read_fields_blank del: read_fields.simps)
  qed
qed

lemma dict_reads_back:
  assumes "\<And>k v. (k, v) \<in> set d \<Longrightarrow> reads_back (Suc l) v" "wf_dict d"
  shows "reads_back l (PDict d)"
  using read_dict_text [OF assms] by (simp add: reads_back_def)

lemma value_reads_back: "json_value v \<Longrightarrow> reads_back l v"
proof (induction v arbitrary: l)
  case (PList xs)
  then show ?case by (intro list_reads_back) (auto simp: list_all_iff)
next
  case (PDict d)
  have "reads_back (Suc l) v" if "(k, v) \<in> set d" for k v
    using PDict.IH [of "(k, v)" v "Suc l"] PDict.prems that by (auto simp: list_all_iff)
  with PDict.prems show ?case by (intro dict_reads_back) auto
qed (simp_all add: atomic_reads_back)

text \<open>The text is ASCII.\<close>

definition ascii :: "string \<Rightarrow> bool" where
  "ascii s \<longleftrightarrow> (\<forall>c \<in> set s. (of_char c :: nat) < 128)"

lemma ascii_simps [simp]: "ascii []" "ascii (c # s) \<longleftrightarrow> (of_char c :: nat) < 128 \<and> ascii s" "ascii (s @ t) \<longleftrightarrow> ascii s \<and> ascii t"
  by (auto simp: ascii_def)

lemma ascii_join: "ascii sep \<Longrightarrow> (\<And>t. t \<in> set ts \<Longrightarrow> ascii t) \<Longrightarrow> ascii (join_on sep ts)"
  by (induction sep ts rule: join_on.induct) simp_all

lemma ascii_new_line [simp]: "ascii (new_line l)"
  by (auto simp: new_line_def ascii_def)

lemma ascii_spread:
  "(of_char a :: nat) < 128 \<Longrightarrow> (of_char b :: nat) < 128 \<Longrightarrow> (\<And>t. t \<in> set ts \<Longrightarrow> ascii t) \<Longrightarrow> ascii (spread l a b ts)"
  by (simp add: spread_def ascii_join)

lemma ascii_str: "ascii (json_str s)"
  by (auto simp: ascii_def json_str_def dest: json_char_ascii)

lemma ascii_indent: "ascii (json_indent l v)"
proof (induction v arbitrary: l)
  case (PList xs)
  then show ?case by (auto intro!: ascii_spread)
next
  case (PDict d)
  then show ?case unfolding indent_dict by (auto intro!: ascii_spread simp: field_text_def ascii_str)
qed (simp_all add: ascii_str, auto simp: ascii_def dest: str_of_int_ascii)

text \<open>
  What \<open>json.dumps\<close> writes over several lines, \<open>json.loads\<close> reads back as the same value, with
  the keys of every dictionary in their order, for every value without fractions, however deep.
\<close>

lemma indented_json_round_trip:
  assumes "json_value (PDict d)"
  shows "json_loads (json_indent 0 (PDict d)) = Some (PDict d)"
proof -
  let ?t = "json_indent 0 (PDict d)"
  have "json_value v" if "(k, v) \<in> set d" for k v
    using assms that by (auto simp: list_all_iff)
  then have "read_value (2 * length ?t + 2) (?t @ []) = Some (PDict d, [])"
    using assms by (intro read_dict_text value_reads_back) auto
  moreover have "utf8_decode ?t = Some ?t"
    using ascii_indent [of 0 "PDict d"] by (intro utf8_decode_ascii) (simp add: ascii_def)
  ultimately show ?thesis by (simp add: json_loads_def skip_ws_def del: json_indent.simps)
qed

end
