(* ===== verification/Snapshot_Files.thy ===== *)
theory Snapshot_Files
  imports Json_Indent Seed_Store Snapshots
begin

text \<open>
  Snapshots on disk, \<open>snapshot.py\<close> and the commands \<open>snapshot create\<close> and \<open>snapshot validate\<close>: the
  archive of a directory of papers with its manifest, and the check of an archive. Packing and
  reading a compressed archive, the hexadecimal SHA-256, and \<open>json.loads\<close> on texts that have
  fractions are parameters. The ids of papers and snapshots are names of directories.
\<close>

section \<open>Creating\<close>

record snapshot_entry =
  sx_paper_id :: string
  sx_cir_path :: path
  sx_source_blob_path :: "path option"

record snapshot_env =
  sv_fs :: seed_fs
  sv_sha256 :: "bytes \<Rightarrow> string"
  sv_pack :: "tar_member list \<Rightarrow> bytes"
  sv_unpack :: tar_reader
  sv_loads :: "bytes \<Rightarrow> pyval option"

datatype snapshot_error = CannotRead | NotDecodable | NameTaken | SnapshotRaised pyexn

definition read_bytes :: "snapshot_env \<Rightarrow> path \<Rightarrow> snapshot_error + bytes" where
  "read_bytes env p = (case sf_content (sv_fs env) p of None \<Rightarrow> Inl CannotRead | Some b \<Rightarrow> Inr b)"

text \<open>
  \<open>dest.write_text(src.read_text(encoding="utf-8"))\<close>: reading decodes and makes every end of line
  a single newline. In UTF-8 that can be done on the bytes.
\<close>

fun universal_newlines :: "string \<Rightarrow> string" where
  "universal_newlines [] = []"
| "universal_newlines [c] = [if c = char_of (13 :: nat) then char_of (10 :: nat) else c]"
| "universal_newlines (c # d # s) =
     (if c \<noteq> char_of (13 :: nat) then c # universal_newlines (d # s)
      else char_of (10 :: nat) # universal_newlines (if d = char_of (10 :: nat) then s else d # s))"

definition copy_text :: "bytes \<Rightarrow> snapshot_error + bytes" where
  "copy_text b = (if utf8_valid b then Inr (universal_newlines b) else Inl NotDecodable)"

text \<open>\<open>len(cir_data.get("annotations") or [])\<close>, nothing when the text is not JSON.\<close>

definition count_annotations :: "snapshot_env \<Rightarrow> bytes \<Rightarrow> snapshot_error + int" where
  "count_annotations env cir =
     (case sv_loads env cir of
        None \<Rightarrow> Inr 0
      | Some (PDict d) \<Rightarrow>
          (case py_len (py_or (dget d ''annotations'') (PList [])) of Inl e \<Rightarrow> Inl (SnapshotRaised e) | Inr n \<Rightarrow> Inr n)
      | Some _ \<Rightarrow> Inl (SnapshotRaised AttributeError))"

text \<open>A staged paper: its directory, the copy of its structure, its sources and its annotations.\<close>

record staged =
  sg_paper_id :: string
  sg_cir :: bytes
  sg_source :: "bytes option"
  sg_annotations :: int

definition stage_entry :: "snapshot_env \<Rightarrow> string list \<Rightarrow> snapshot_entry \<Rightarrow> snapshot_error + staged" where
  "stage_entry env taken e =
     (if sx_paper_id e \<in> set taken then Inl NameTaken
      else rbind (read_bytes env (sx_cir_path e)) (\<lambda>raw.
           rbind (copy_text raw) (\<lambda>cir.
           rbind (count_annotations env cir) (\<lambda>n.
           rbind (case sx_source_blob_path e of None \<Rightarrow> Inr None | Some p \<Rightarrow> rbind (read_bytes env p) (\<lambda>b. Inr (Some b))) (\<lambda>source.
             Inr \<lparr>sg_paper_id = sx_paper_id e, sg_cir = cir, sg_source = source, sg_annotations = n\<rparr>)))))"

fun stage_entries :: "snapshot_env \<Rightarrow> string list \<Rightarrow> snapshot_entry list \<Rightarrow> snapshot_error + staged list" where
  "stage_entries env taken [] = Inr []"
| "stage_entries env taken (e # es) =
     rbind (stage_entry env taken e) (\<lambda>x. rbind (stage_entries env (sx_paper_id e # taken) es) (\<lambda>xs. Inr (x # xs)))"

text \<open>The files of a paper with their kinds, by path below the snapshot's directory.\<close>

definition paper_files :: "staged \<Rightarrow> (string \<times> string \<times> bytes) list" where
  "paper_files x =
     (''papers/'' @ sg_paper_id x @ ''/cir.json'', ''cir'', sg_cir x) #
     (case sg_source x of None \<Rightarrow> [] | Some b \<Rightarrow> [(''papers/'' @ sg_paper_id x @ ''/source.tar.gz'', ''source-bundle'', b)])"

definition file_record :: "snapshot_env \<Rightarrow> string \<times> string \<times> bytes \<Rightarrow> pyval" where
  "file_record env f =
     (case f of (p, kd, b) \<Rightarrow>
        PDict [(''path'', PStr p), (''sha256'', PStr (sv_sha256 env b)), (''size_bytes'', PInt (int (length b))), (''kind'', PStr kd)])"

definition file_manifest :: "snapshot_env \<Rightarrow> string \<Rightarrow> string \<Rightarrow> string \<Rightarrow> int \<Rightarrow> string \<Rightarrow> staged list \<Rightarrow> pydict" where
  "file_manifest env snap created_at sha sz download_uri xs =
     [(''snapshot_id'', PStr snap), (''created_at'', PStr created_at), (''papers'', PInt (int (length xs))),
      (''annotations'', PInt (sum_list (map sg_annotations xs))), (''sha256'', PStr sha), (''size_bytes'', PInt sz),
      (''download_uri'', PStr download_uri), (''files'', PList (map (file_record env) (concat (map paper_files xs))))]"

definition directory :: "string \<Rightarrow> tar_member" where
  "directory n = \<lparr>tm_name = n, tm_size = 0, tm_isfile = False, tm_content = None\<rparr>"

definition regular :: "string \<Rightarrow> bytes \<Rightarrow> tar_member" where
  "regular n b = \<lparr>tm_name = n, tm_size = int (length b), tm_isfile = True, tm_content = Some b\<rparr>"

text \<open>\<open>tar.add(staging, arcname=snap_id)\<close>: a directory before what it holds, in the order of the names.\<close>

definition paper_members :: "string \<Rightarrow> staged \<Rightarrow> tar_member list" where
  "paper_members snap x =
     directory (snap @ ''/papers/'' @ sg_paper_id x) # map (\<lambda>(p, _, b). regular (snap @ ''/'' @ p) b) (paper_files x)"

definition snapshot_members :: "string \<Rightarrow> bytes \<Rightarrow> staged list \<Rightarrow> tar_member list" where
  "snapshot_members snap manifest_text xs =
     [directory snap, regular (snap @ ''/MANIFEST.json'') manifest_text, directory (snap @ ''/papers'')] @
     concat (map (paper_members snap) (sort_key sg_paper_id xs))"

text \<open>The archive, the manifest beside it and, inside the archive, the one without its digest.\<close>

record written_snapshot =
  ws_manifest :: pydict
  ws_tarball :: bytes
  ws_side_manifest :: bytes

definition inner_manifest :: "snapshot_env \<Rightarrow> string \<Rightarrow> string \<Rightarrow> string \<Rightarrow> staged list \<Rightarrow> bytes" where
  "inner_manifest env snap created_at download_uri xs =
     json_indent 0 (PDict (file_manifest env snap created_at [] 0 download_uri xs))"

definition create_snapshot_file ::
  "snapshot_env \<Rightarrow> snapshot_entry list \<Rightarrow> string \<Rightarrow> string \<Rightarrow> string \<Rightarrow> snapshot_error + written_snapshot" where
  "create_snapshot_file env entries snap created_at download_uri =
     rbind (stage_entries env [] entries) (\<lambda>xs.
       let tarball = sv_pack env (snapshot_members snap (inner_manifest env snap created_at download_uri xs) xs);
           manifest = file_manifest env snap created_at (sv_sha256 env tarball) (int (length tarball)) download_uri xs
       in Inr \<lparr>ws_manifest = manifest, ws_tarball = tarball, ws_side_manifest = json_indent 0 (PDict manifest)\<rparr>)"

text \<open>\<open>snapshot_id or f"snap-{now}-{hex}"\<close>, and \<open>path.with_suffix(".manifest.json")\<close>.\<close>

definition snapshot_name :: "string option \<Rightarrow> string \<Rightarrow> string \<Rightarrow> string" where
  "snapshot_name requested now fresh_hex =
     (if truthy_opt requested then the requested else ''snap-'' @ now @ ''-'' @ fresh_hex)"

definition name_suffix :: "string \<Rightarrow> string" where
  "name_suffix n =
     (if CHR ''.'' \<notin> set n then []
      else let tail = rev (takeWhile (\<lambda>c. c \<noteq> CHR ''.'') (rev n))
           in if tail = [] \<or> length tail + 1 = length n then [] else CHR ''.'' # tail)"

definition side_manifest_path :: "path \<Rightarrow> path" where
  "side_manifest_path p =
     butlast p @ [take (length (last p) - length (name_suffix (last p))) (last p) @ ''.manifest.json'']"

text \<open>\<open>rrxiv snapshot create\<close>: the subdirectories that hold a structure, by name.\<close>

definition directory_entries :: "seed_fs \<Rightarrow> path \<Rightarrow> snapshot_entry list" where
  "directory_entries fs dir =
     (case sf_entries fs dir of
        None \<Rightarrow> []
      | Some names \<Rightarrow>
          map (\<lambda>n. \<lparr>sx_paper_id = n, sx_cir_path = dir @ [n, ''cir.json''],
                   sx_source_blob_path =
                     (if is_file fs (dir @ [n, ''source.tar.gz'']) then Some (dir @ [n, ''source.tar.gz'']) else None)\<rparr>)
            (filter (\<lambda>n. is_dir fs (dir @ [n]) \<and> is_file fs (dir @ [n, ''cir.json''])) (sort names)))"

definition snapshot_create ::
  "snapshot_env \<Rightarrow> path \<Rightarrow> string option \<Rightarrow> string \<Rightarrow> string \<Rightarrow> string \<Rightarrow> string \<Rightarrow> int + (snapshot_error + written_snapshot)" where
  "snapshot_create env dir requested now fresh_hex created_at download_uri =
     (if \<not> is_dir (sv_fs env) dir \<or> directory_entries (sv_fs env) dir = [] then Inl 1
      else Inr (create_snapshot_file env (directory_entries (sv_fs env) dir) (snapshot_name requested now fresh_hex)
                  created_at download_uri))"

section \<open>Validating\<close>

datatype complaint =
    NoSuchArchive | TarProblem | TopLevels "string list" | NoManifest string | ManifestUnreadable | ManifestNotJson
  | MissingMember pyval | UnreadableMember pyval | DigestMismatch pyval pyval string

text \<open>A warning carries the two digests, cut to twelve characters.\<close>

record validation_report =
  vr_ok :: bool
  vr_errors :: "complaint list"
  vr_warnings :: "(string \<times> pyval) list"

definition failed :: "complaint \<Rightarrow> validation_report" where
  "failed c = \<lparr>vr_ok = False, vr_errors = [c], vr_warnings = []\<rparr>"

definition find_member :: "tar_member list \<Rightarrow> string \<Rightarrow> tar_member option" where
  "find_member members n = find (\<lambda>m. tm_name m = n) members"

text \<open>\<open>v[k]\<close> for a text \<open>k\<close>, and \<open>v[:12]\<close>.\<close>

definition item_of :: "pyval \<Rightarrow> string \<Rightarrow> pyexn + pyval" where
  "item_of v k = (case v of PDict d \<Rightarrow> dindex d k | _ \<Rightarrow> Inl TypeError)"

definition first_twelve :: "pyval \<Rightarrow> pyexn + pyval" where
  "first_twelve v = (case v of PStr s \<Rightarrow> Inr (PStr (take 12 s)) | PList xs \<Rightarrow> Inr (PList (take 12 xs)) | _ \<Rightarrow> Inl TypeError)"

definition check_record :: "snapshot_env \<Rightarrow> tar_member list \<Rightarrow> string \<Rightarrow> pyval \<Rightarrow> pyexn + complaint list" where
  "check_record env members snap rec =
     rbind (item_of rec ''path'') (\<lambda>rel_path.
     rbind (item_of rec ''sha256'') (\<lambda>expected.
       Inr (case find_member members (snap @ ''/'' @ py_str rel_path) of
              None \<Rightarrow> [MissingMember rel_path]
            | Some m \<Rightarrow>
                (case tm_content m of
                   None \<Rightarrow> [UnreadableMember rel_path]
                 | Some b \<Rightarrow> if expected = PStr (sv_sha256 env b) then [] else [DigestMismatch rel_path expected (sv_sha256 env b)]))))"

definition outer_warning :: "snapshot_env \<Rightarrow> bytes \<Rightarrow> pydict \<Rightarrow> pyexn + (string \<times> pyval) list" where
  "outer_warning env tarball manifest =
     (let claimed = dget manifest ''sha256''; actual = sv_sha256 env tarball
      in if truthy claimed \<and> claimed \<noteq> PStr actual then rbind (first_twelve claimed) (\<lambda>c. Inr [(take 12 actual, c)]) else Inr [])"

definition check_manifest :: "snapshot_env \<Rightarrow> bytes \<Rightarrow> tar_member list \<Rightarrow> string \<Rightarrow> pyval \<Rightarrow> pyexn + validation_report" where
  "check_manifest env tarball members snap manifest =
     (case manifest of
        PDict d \<Rightarrow>
          rbind (py_iter (case dict_get d ''files'' of None \<Rightarrow> PList [] | Some v \<Rightarrow> v)) (\<lambda>recs.
          rbind (rmap (check_record env members snap) recs) (\<lambda>css.
          rbind (outer_warning env tarball d) (\<lambda>ws.
            Inr \<lparr>vr_ok = (concat css = []), vr_errors = concat css, vr_warnings = ws\<rparr>)))
      | _ \<Rightarrow> Inl AttributeError)"

definition validate_snapshot :: "snapshot_env \<Rightarrow> bytes option \<Rightarrow> pyexn + validation_report" where
  "validate_snapshot env file =
     (case file of
        None \<Rightarrow> Inr (failed NoSuchArchive)
      | Some tarball \<Rightarrow>
          (case sv_unpack env tarball of
             Inl _ \<Rightarrow> Inr (failed TarProblem)
           | Inr members \<Rightarrow>
               (case remdups (map (\<lambda>m. hd (split_once (CHR ''/'') (tm_name m))) members) of
                  [snap] \<Rightarrow>
                    (case find_member members (snap @ ''/MANIFEST.json'') of
                       None \<Rightarrow> Inr (failed (NoManifest snap))
                     | Some m \<Rightarrow>
                         (case tm_content m of
                            None \<Rightarrow> Inr (failed ManifestUnreadable)
                          | Some b \<Rightarrow>
                              (case sv_loads env b of
                                 None \<Rightarrow> Inr (failed ManifestNotJson)
                               | Some manifest \<Rightarrow> check_manifest env tarball members snap manifest)))
                | tops \<Rightarrow> Inr (failed (TopLevels (sort tops))))))"


section \<open>A created snapshot validates\<close>

text \<open>
  What is relied on: reading an archive gives back the members that were packed, when no name
  occurs twice, and \<open>json.loads\<close> reads what the reader without fractions reads.
\<close>

definition archive_laws :: "snapshot_env \<Rightarrow> bool" where
  "archive_laws env \<longleftrightarrow>
     (\<forall>ms. distinct (map tm_name ms) \<and> (\<forall>m \<in> set ms. \<exists>n b. m \<in> {directory n, regular n b}) \<longrightarrow>
        sv_unpack env (sv_pack env ms) = Inr ms) \<and>
     (\<forall>b v. json_loads b = Some v \<longrightarrow> sv_loads env b = Some v)"

definition dir_name :: "string \<Rightarrow> bool" where
  "dir_name n \<longleftrightarrow> CHR ''/'' \<notin> set n"

text \<open>The files of the staged papers, as the archive has to hold them.\<close>

definition packed_files :: "staged list \<Rightarrow> (string \<times> bytes) list" where
  "packed_files xs = map (\<lambda>(p, _, b). (p, b)) (concat (map paper_files xs))"

definition has_contents :: "snapshot_env \<Rightarrow> tar_member list \<Rightarrow> string \<Rightarrow> staged list \<Rightarrow> bool" where
  "has_contents env members snap xs \<longleftrightarrow>
     (\<forall>(p, b) \<in> set (packed_files xs). \<exists>m b'. find_member members (snap @ ''/'' @ p) = Some m \<and> tm_content m = Some b' \<and>
        sv_sha256 env b' = sv_sha256 env b)"

lemma manifest_value: "json_value (PDict (file_manifest env snap created_at sha sz uri xs))"
  by (auto simp: file_manifest_def file_record_def list_all_iff split: prod.split)

lemma inner_manifest_read:
  "archive_laws env \<Longrightarrow>
    sv_loads env (inner_manifest env snap created_at uri xs) = Some (PDict (file_manifest env snap created_at [] 0 uri xs))"
  unfolding archive_laws_def inner_manifest_def by (blast intro: indented_json_round_trip [OF manifest_value])

lemma check_file_record:
  "check_record env members snap (file_record env (p, kd, b)) =
     Inr (case find_member members (snap @ ''/'' @ p) of
            None \<Rightarrow> [MissingMember (PStr p)]
          | Some m \<Rightarrow>
              (case tm_content m of
                 None \<Rightarrow> [UnreadableMember (PStr p)]
               | Some b' \<Rightarrow> if sv_sha256 env b' = sv_sha256 env b then []
                             else [DigestMismatch (PStr p) (PStr (sv_sha256 env b)) (sv_sha256 env b')]))"
  by (auto simp: check_record_def file_record_def item_of_def dindex_def split: option.splits)

lemma check_file_records:
  "\<exists>css. rmap (check_record env members snap) (map (file_record env) fs) = Inr css \<and>
     (concat css = [] \<longleftrightarrow>
        (\<forall>(p, b) \<in> set (map (\<lambda>(p, _, b). (p, b)) fs). \<exists>m b'. find_member members (snap @ ''/'' @ p) = Some m \<and>
           tm_content m = Some b' \<and> sv_sha256 env b' = sv_sha256 env b))"
proof (induction fs)
  case (Cons f fs)
  then obtain css where "rmap (check_record env members snap) (map (file_record env) fs) = Inr css"
    "concat css = [] \<longleftrightarrow> (\<forall>(p, b) \<in> set (map (\<lambda>(p, _, b). (p, b)) fs). \<exists>m b'. find_member members (snap @ ''/'' @ p) = Some m \<and>
       tm_content m = Some b' \<and> sv_sha256 env b' = sv_sha256 env b)" by blast
  then show ?case by (cases f) (auto simp: check_file_record split: option.splits)
qed simp

lemma check_created_manifest:
  "\<exists>r. check_manifest env tarball members snap (PDict (file_manifest env snap' created_at [] 0 uri xs)) = Inr r \<and>
     (vr_ok r \<longleftrightarrow> has_contents env members snap xs) \<and> (vr_ok r \<longleftrightarrow> vr_errors r = []) \<and> vr_warnings r = []"
proof -
  obtain css where css: "rmap (check_record env members snap) (map (file_record env) (concat (map paper_files xs))) = Inr css"
    "concat css = [] \<longleftrightarrow> has_contents env members snap xs"
    using check_file_records [of env members snap "concat (map paper_files xs)"] unfolding has_contents_def packed_files_def by blast
  have "dict_get (file_manifest env snap' created_at [] 0 uri xs) ''files'' =
      Some (PList (map (file_record env) (concat (map paper_files xs))))"
    "dget (file_manifest env snap' created_at [] 0 uri xs) ''sha256'' = PStr []"
    by (simp_all add: file_manifest_def dget_def)
  with css show ?thesis
    by (simp add: check_manifest_def outer_warning_def py_iter_def rbind_simps)
qed

lemma remdups_replicate: "remdups (replicate (Suc n) a) = [a]"
  by (induction n) simp_all

lemma remdups_same:
  assumes "xs \<noteq> []" "\<forall>x \<in> set xs. x = a"
  shows "remdups xs = [a]"
proof -
  obtain n where "length xs = Suc n" using assms(1) by (cases xs) auto
  moreover have "replicate (length xs) a = xs" using assms(2) by (rule replicate_length_same)
  ultimately show ?thesis using remdups_replicate [of n a] by metis
qed

lemma validate_read:
  assumes "archive_laws env" "sv_unpack env tarball = Inr members"
    and "\<forall>m \<in> set members. hd (split_once (CHR ''/'') (tm_name m)) = snap"
    and "find_member members (snap @ ''/MANIFEST.json'') = Some m" "tm_content m = Some (inner_manifest env snap' created_at uri xs)"
  shows "\<exists>r. validate_snapshot env (Some tarball) = Inr r \<and>
     (vr_ok r \<longleftrightarrow> has_contents env members snap xs) \<and> (vr_ok r \<longleftrightarrow> vr_errors r = []) \<and> vr_warnings r = []"
proof -
  from assms(4) have "members \<noteq> []" by (auto simp: find_member_def)
  with assms(3) have tops: "remdups (map (\<lambda>m. hd (split_once (CHR ''/'') (tm_name m))) members) = [snap]"
    by (intro remdups_same) auto
  have "validate_snapshot env (Some tarball) =
      check_manifest env tarball members snap (PDict (file_manifest env snap' created_at [] 0 uri xs))"
    by (simp only: validate_snapshot_def option.case sum.case tops list.case assms(2,4,5) inner_manifest_read [OF assms(1)])
  then show ?thesis using check_created_manifest by simp
qed


lemma stage_entries_ids:
  "stage_entries env taken es = Inr xs \<Longrightarrow>
    map sg_paper_id xs = map sx_paper_id es \<and> distinct (map sg_paper_id xs) \<and> set taken \<inter> sg_paper_id ` set xs = {}"
proof (induction es arbitrary: taken xs)
  case (Cons e es)
  then obtain x ys where x: "stage_entry env taken e = Inr x" and ys: "stage_entries env (sx_paper_id e # taken) es = Inr ys"
    and xs: "xs = x # ys" by (auto simp: rbind_Inr_iff)
  from x have "sg_paper_id x = sx_paper_id e" "sx_paper_id e \<notin> set taken"
    by (auto simp: stage_entry_def rbind_Inr_iff split: if_splits)
  moreover from Cons.IH [OF ys] have "sg_paper_id ` set ys = sx_paper_id ` set es" by (metis list.set_map)
  ultimately show ?case using Cons.IH [OF ys] by (auto simp: xs)
qed simp

lemma distinct_by_key:
  assumes "distinct (map k xs)" "\<And>x. x \<in> set xs \<Longrightarrow> distinct (f x)" "\<And>x t. x \<in> set xs \<Longrightarrow> t \<in> set (f x) \<Longrightarrow> g t = k x"
  shows "distinct (concat (map f xs))"
  using assms by (induction xs) (auto, metis image_eqI)

lemma find_distinct:
  "distinct (map tm_name ms) \<Longrightarrow> m \<in> set ms \<Longrightarrow> find_member ms (tm_name m) = Some m"
  by (induction ms) (auto simp: find_member_def)

lemma snapshot_names:
  "map tm_name (snapshot_members snap text xs) =
     map ((@) snap) ([[], ''/MANIFEST.json'', ''/papers''] @
       map ((@) ''/papers/'') (concat (map (\<lambda>x. sg_paper_id x #
         map ((@) (sg_paper_id x)) (''/cir.json'' # (case sg_source x of None \<Rightarrow> [] | Some _ \<Rightarrow> [''/source.tar.gz'']))) (sort_key sg_paper_id xs))))"
  by (auto simp: snapshot_members_def directory_def regular_def paper_members_def paper_files_def map_concat comp_def
      split: option.splits intro!: arg_cong [where f = concat])

lemma members_distinct:
  assumes "distinct (map sg_paper_id xs)" "\<forall>x \<in> set xs. dir_name (sg_paper_id x)"
  shows "distinct (map tm_name (snapshot_members snap text xs))"
proof -
  let ?g = "takeWhile (\<lambda>c. c \<noteq> CHR ''/'')"
  let ?tails = "\<lambda>x. sg_paper_id x # map ((@) (sg_paper_id x)) (''/cir.json'' # (case sg_source x of None \<Rightarrow> [] | Some _ \<Rightarrow> [''/source.tar.gz'']))"
  have ids: "distinct (map sg_paper_id (sort_key sg_paper_id xs))"
    using assms(1) by (simp add: distinct_map)
  have key: "?g t = sg_paper_id x" if "x \<in> set xs" "t \<in> set (?tails x)" for x t
    using assms(2) that by (auto simp: dir_name_def takeWhile_append takeWhile_eq_all_conv split: option.splits)
  have "distinct (concat (map ?tails (sort_key sg_paper_id xs)))"
    by (rule distinct_by_key [OF ids, where g = ?g]) (use key in \<open>auto split: option.splits\<close>)
  then show ?thesis unfolding snapshot_names by (auto simp: distinct_map inj_on_def)
qed


text \<open>The members of an archive: its directories, the manifest and the packed files.\<close>

definition archive_directories :: "string \<Rightarrow> staged list \<Rightarrow> tar_member set" where
  "archive_directories snap xs =
     {directory snap, directory (snap @ ''/papers'')} \<union> (\<lambda>x. directory (snap @ ''/papers/'' @ sg_paper_id x)) ` set xs"

lemma set_paper_members:
  "set (paper_members snap x) = insert (directory (snap @ ''/papers/'' @ sg_paper_id x))
     ((\<lambda>(p, b). regular (snap @ ''/'' @ p) b) ` set (packed_files [x]))"
  unfolding paper_members_def packed_files_def list.set set_map image_image by (simp add: case_prod_unfold)

lemma set_packed_files: "set (packed_files xs) = (\<Union>x \<in> set xs. set (packed_files [x]))"
  unfolding packed_files_def by (induction xs) simp_all

lemma set_members:
  "set (snapshot_members snap text xs) = insert (regular (snap @ ''/MANIFEST.json'') text)
     (archive_directories snap xs \<union> (\<lambda>(p, b). regular (snap @ ''/'' @ p) b) ` set (packed_files xs))"
proof -
  have "set (snapshot_members snap text xs) =
      {directory snap, regular (snap @ ''/MANIFEST.json'') text, directory (snap @ ''/papers'')} \<union>
      (\<Union>x \<in> set xs. set (paper_members snap x))"
    unfolding snapshot_members_def by simp
  then show ?thesis
    unfolding set_paper_members set_packed_files [of xs] archive_directories_def by blast
qed

lemma members_below:
  assumes "dir_name snap" "m \<in> set (snapshot_members snap text xs)"
  shows "hd (split_once (CHR ''/'') (tm_name m)) = snap"
proof -
  have "tm_name m = snap \<or> (\<exists>r. tm_name m = snap @ CHR ''/'' # r)"
    using assms(2) unfolding set_members archive_directories_def by (auto simp: directory_def regular_def)
  then show ?thesis
    using assms(1) by (auto simp: dir_name_def split_once_append) (simp add: split_once_def)
qed

text \<open>What an archive holds: the name and the content of each file but the manifest.\<close>

definition archive_files :: "tar_member list \<Rightarrow> string \<Rightarrow> (string \<times> bytes) set" where
  "archive_files ms snap = {(tm_name m, b) | m b. m \<in> set ms \<and> tm_content m = Some b \<and> tm_name m \<noteq> snap @ ''/MANIFEST.json''}"

lemma packed_not_manifest: "(p, b) \<in> set (packed_files xs) \<Longrightarrow> p \<noteq> ''MANIFEST.json''"
  by (auto simp: packed_files_def paper_files_def split: option.splits)

lemma snapshot_contents:
  "archive_files (snapshot_members snap text xs) snap = (\<lambda>(p, b). (snap @ ''/'' @ p, b)) ` set (packed_files xs)"
proof -
  have "(snap @ ''/'' @ p, b) \<in> archive_files (snapshot_members snap text xs) snap" if f: "(p, b) \<in> set (packed_files xs)" for p b
  proof -
    have "regular (snap @ ''/'' @ p) b \<in> set (snapshot_members snap text xs)"
      unfolding set_members by (intro insertI2 UnI2 image_eqI [OF _ f]) simp
    moreover have "tm_name (regular (snap @ ''/'' @ p) b) = snap @ ''/'' @ p" "tm_content (regular (snap @ ''/'' @ p) b) = Some b"
      by (simp_all add: regular_def)
    ultimately show ?thesis using packed_not_manifest [OF f] unfolding archive_files_def by force
  qed
  moreover have "\<exists>p. (p, b) \<in> set (packed_files xs) \<and> n = snap @ ''/'' @ p"
    if "(n, b) \<in> archive_files (snapshot_members snap text xs) snap" for n b
    using that unfolding archive_files_def set_members archive_directories_def by (auto simp: directory_def regular_def)
  ultimately show ?thesis by force
qed

lemma created_archive:
  assumes "archive_laws env" "create_snapshot_file env entries snap created_at uri = Inr w"
    and "dir_name snap" "\<forall>e \<in> set entries. dir_name (sx_paper_id e)"
  obtains xs ms where "stage_entries env [] entries = Inr xs" "sv_unpack env (ws_tarball w) = Inr ms"
    "ms = snapshot_members snap (inner_manifest env snap created_at uri xs) xs" "distinct (map tm_name ms)"
    "\<forall>m \<in> set ms. hd (split_once (CHR ''/'') (tm_name m)) = snap"
    "find_member ms (snap @ ''/MANIFEST.json'') = Some (regular (snap @ ''/MANIFEST.json'') (inner_manifest env snap created_at uri xs))"
proof -
  from assms(2) obtain xs where xs: "stage_entries env [] entries = Inr xs"
    and tar: "ws_tarball w = sv_pack env (snapshot_members snap (inner_manifest env snap created_at uri xs) xs)"
    by (auto simp: create_snapshot_file_def rbind_Inr_iff Let_def)
  let ?text = "inner_manifest env snap created_at uri xs"
  let ?ms = "snapshot_members snap ?text xs"
  from stage_entries_ids [OF xs] have ids: "map sg_paper_id xs = map sx_paper_id entries" "distinct (map sg_paper_id xs)" by auto
  from ids(1) have "sg_paper_id ` set xs = sx_paper_id ` set entries" by (metis list.set_map)
  with assms(4) have "\<forall>x \<in> set xs. dir_name (sg_paper_id x)" by (metis imageE image_eqI)
  from members_distinct [OF ids(2) this] have distinct: "distinct (map tm_name ?ms)" .
  have "regular (snap @ ''/MANIFEST.json'') ?text \<in> set ?ms" unfolding set_members by simp
  from find_distinct [OF distinct this]
  have found: "find_member ?ms (snap @ ''/MANIFEST.json'') = Some (regular (snap @ ''/MANIFEST.json'') ?text)"
    by (simp add: regular_def)
  have "\<forall>m \<in> set ?ms. \<exists>n b. m \<in> {directory n, regular n b}"
    unfolding set_members archive_directories_def by auto
  with assms(1) distinct have "sv_unpack env (ws_tarball w) = Inr ?ms" unfolding tar archive_laws_def by blast
  moreover have "\<forall>m \<in> set ?ms. hd (split_once (CHR ''/'') (tm_name m)) = snap"
    by (intro ballI) (rule members_below [OF assms(3)])
  ultimately show thesis using that [OF xs _ refl distinct _ found] by simp
qed

text \<open>
  Members behind those of a created snapshot are not noticed, not even under a name that is taken,
  whose last content is the one an extraction leaves on disk.
\<close>

lemma extra_members_unnoticed:
  assumes "archive_laws env" "create_snapshot_file env entries snap created_at uri = Inr w"
    and "dir_name snap" "\<forall>e \<in> set entries. dir_name (sx_paper_id e)" "sv_unpack env (ws_tarball w) = Inr created"
    and "sv_unpack env received = Inr (created @ extra)" "\<forall>m \<in> set extra. hd (split_once (CHR ''/'') (tm_name m)) = snap"
  shows "\<exists>r. validate_snapshot env (Some received) = Inr r \<and> vr_ok r \<and> vr_warnings r = []"
proof -
  obtain xs ms where u: "sv_unpack env (ws_tarball w) = Inr ms"
    "ms = snapshot_members snap (inner_manifest env snap created_at uri xs) xs" "distinct (map tm_name ms)"
    and below: "\<forall>m \<in> set ms. hd (split_once (CHR ''/'') (tm_name m)) = snap"
    and found: "find_member ms (snap @ ''/MANIFEST.json'') = Some (regular (snap @ ''/MANIFEST.json'') (inner_manifest env snap created_at uri xs))"
    by (rule created_archive [OF assms(1-4)])
  have same: "created = ms" using u(1) assms(5) by simp
  have kept: "find_member ms n = Some m \<Longrightarrow> find_member (ms @ extra) n = Some m" for n m
    unfolding find_member_def by (induction ms) auto
  have "\<exists>m. find_member (ms @ extra) (snap @ ''/'' @ p) = Some m \<and> tm_content m = Some b" if f: "(p, b) \<in> set (packed_files xs)" for p b
  proof -
    have "regular (snap @ ''/'' @ p) b \<in> set ms" unfolding u(2) set_members by (intro insertI2 UnI2 image_eqI [OF _ f]) simp
    from find_distinct [OF u(3) this] have "find_member ms (snap @ ''/'' @ p) = Some (regular (snap @ ''/'' @ p) b)"
      by (simp add: regular_def)
    from kept [OF this] show ?thesis by (simp add: regular_def)
  qed
  then have all: "has_contents env (ms @ extra) snap xs" unfolding has_contents_def by fastforce
  have "\<forall>m \<in> set (ms @ extra). hd (split_once (CHR ''/'') (tm_name m)) = snap" using below assms(7) by auto
  with validate_read [OF assms(1) assms(6) [unfolded same] _ kept [OF found]] all show ?thesis by (force simp: regular_def)
qed

text \<open>
  C34: take an archive all of whose members lie under the one top-level directory of a created
  snapshot, and whose manifest is the snapshot's. Whatever it holds beside the manifest, it is reported as
  valid exactly when each file of the snapshot is in it with content of the same digest; the first
  member of a name counts. (With another entry at the top level it is refused.)
\<close>

theorem validation_compares_digests:
  assumes "archive_laws env" "create_snapshot_file env entries snap created_at uri = Inr w"
    and "dir_name snap" "\<forall>e \<in> set entries. dir_name (sx_paper_id e)" "sv_unpack env (ws_tarball w) = Inr created"
    and "sv_unpack env received = Inr ms" "\<forall>m \<in> set ms. hd (split_once (CHR ''/'') (tm_name m)) = snap"
    and "find_member ms (snap @ ''/MANIFEST.json'') = find_member created (snap @ ''/MANIFEST.json'')"
  shows "\<exists>r. validate_snapshot env (Some received) = Inr r \<and> vr_warnings r = [] \<and>
    (vr_ok r \<longleftrightarrow> (\<forall>(n, b) \<in> archive_files created snap.
       \<exists>m b'. find_member ms n = Some m \<and> tm_content m = Some b' \<and> sv_sha256 env b' = sv_sha256 env b))"
proof -
  obtain xs ms' where u: "sv_unpack env (ws_tarball w) = Inr ms'"
    "ms' = snapshot_members snap (inner_manifest env snap created_at uri xs) xs"
    "find_member ms' (snap @ ''/MANIFEST.json'') = Some (regular (snap @ ''/MANIFEST.json'') (inner_manifest env snap created_at uri xs))"
    by (rule created_archive [OF assms(1-4)])
  then have same: "ms' = created" using assms(5) by simp
  note xs = u(2) [unfolded same] and found = u(3) [unfolded same]
  have content: "tm_content (regular n b) = Some b" for n b by (simp add: regular_def)
  obtain r where "validate_snapshot env (Some received) = Inr r" "vr_ok r \<longleftrightarrow> has_contents env ms snap xs" "vr_warnings r = []"
    using validate_read [OF assms(1,6,7) assms(8) [unfolded found] content] by blast
  then show ?thesis unfolding xs snapshot_contents has_contents_def by auto
qed


text \<open>The copy a snapshot makes of an entry's files.\<close>

definition copied :: "snapshot_env \<Rightarrow> tar_member list \<Rightarrow> string \<Rightarrow> snapshot_entry \<Rightarrow> bool" where
  "copied env ms snap e \<longleftrightarrow>
     (\<exists>raw cir. read_bytes env (sx_cir_path e) = Inr raw \<and> copy_text raw = Inr cir \<and>
        (snap @ ''/papers/'' @ sx_paper_id e @ ''/cir.json'', cir) \<in> archive_files ms snap) \<and>
     (\<forall>p. sx_source_blob_path e = Some p \<longrightarrow>
        (\<exists>b. read_bytes env p = Inr b \<and> (snap @ ''/papers/'' @ sx_paper_id e @ ''/source.tar.gz'', b) \<in> archive_files ms snap))"

lemma stage_entry_files:
  "stage_entry env taken e = Inr x \<Longrightarrow>
    (\<exists>raw cir. read_bytes env (sx_cir_path e) = Inr raw \<and> copy_text raw = Inr cir \<and>
       (''papers/'' @ sx_paper_id e @ ''/cir.json'', cir) \<in> set (packed_files [x])) \<and>
    (\<forall>p. sx_source_blob_path e = Some p \<longrightarrow>
       (\<exists>b. read_bytes env p = Inr b \<and> (''papers/'' @ sx_paper_id e @ ''/source.tar.gz'', b) \<in> set (packed_files [x])))"
  by (auto simp: stage_entry_def rbind_Inr_iff packed_files_def paper_files_def split: if_splits)

lemma stage_entries_member:
  "stage_entries env taken es = Inr xs \<Longrightarrow> e \<in> set es \<Longrightarrow> \<exists>x taken'. x \<in> set xs \<and> stage_entry env taken' e = Inr x"
  by (induction es arbitrary: taken xs) (auto simp: rbind_Inr_iff, metis list.set_intros(2))

lemma staged_copied:
  assumes "stage_entries env [] entries = Inr xs" "e \<in> set entries"
  shows "copied env (snapshot_members snap text xs) snap e"
proof -
  obtain x taken where x: "x \<in> set xs" "stage_entry env taken e = Inr x" using stage_entries_member [OF assms] by blast
  have sub: "(p, b) \<in> set (packed_files [x]) \<Longrightarrow> (snap @ ''/'' @ p, b) \<in> archive_files (snapshot_members snap text xs) snap" for p b
    unfolding snapshot_contents using set_packed_files [of xs] x(1) by force
  from stage_entry_files [OF x(2)] show ?thesis
    unfolding copied_def using sub [of "''papers/'' @ sx_paper_id e @ ''/cir.json''"] sub [of "''papers/'' @ sx_paper_id e @ ''/source.tar.gz''"]
    by fastforce
qed

text \<open>
  C33: a snapshot that was created validates, without errors and without warnings, and holds for each
  entry the copy of its structure and its sources; the manifest beside it is read back with the
  digest and the size of the archive.
\<close>

theorem created_snapshot_validates:
  assumes "archive_laws env" "create_snapshot_file env entries snap created_at uri = Inr w"
    and "dir_name snap" "\<forall>e \<in> set entries. dir_name (sx_paper_id e)"
  shows "validate_snapshot env (Some (ws_tarball w)) = Inr \<lparr>vr_ok = True, vr_errors = [], vr_warnings = []\<rparr> \<and>
    (\<exists>ms. sv_unpack env (ws_tarball w) = Inr ms \<and> (\<forall>e \<in> set entries. copied env ms snap e)) \<and>
    json_loads (ws_side_manifest w) = Some (PDict (ws_manifest w)) \<and>
    dget (ws_manifest w) ''sha256'' = PStr (sv_sha256 env (ws_tarball w)) \<and>
    dget (ws_manifest w) ''size_bytes'' = PInt (int (length (ws_tarball w)))"
proof -
  obtain xs ms where xs: "stage_entries env [] entries = Inr xs" and ms: "sv_unpack env (ws_tarball w) = Inr ms"
    "ms = snapshot_members snap (inner_manifest env snap created_at uri xs) xs" "distinct (map tm_name ms)"
    and below: "\<forall>m \<in> set ms. hd (split_once (CHR ''/'') (tm_name m)) = snap"
    and found: "find_member ms (snap @ ''/MANIFEST.json'') = Some (regular (snap @ ''/MANIFEST.json'') (inner_manifest env snap created_at uri xs))"
    by (rule created_archive [OF assms])
  have content: "tm_content (regular n b) = Some b" for n b by (simp add: regular_def)
  have "\<exists>m. find_member ms (snap @ ''/'' @ p) = Some m \<and> tm_content m = Some b" if f: "(p, b) \<in> set (packed_files xs)" for p b
  proof -
    have "regular (snap @ ''/'' @ p) b \<in> set ms" unfolding ms(2) set_members by (intro insertI2 UnI2 image_eqI [OF _ f]) simp
    from find_distinct [OF ms(3) this] show ?thesis by (simp add: regular_def)
  qed
  then have "has_contents env ms snap xs" unfolding has_contents_def by fastforce
  with validate_read [OF assms(1) ms(1) below found content] obtain r where
    r: "validate_snapshot env (Some (ws_tarball w)) = Inr r" "vr_ok r" "vr_errors r = []" "vr_warnings r = []" by auto
  have "r = \<lparr>vr_ok = True, vr_errors = [], vr_warnings = []\<rparr>" using r(2-4) by (cases r) simp
  moreover have "\<forall>e \<in> set entries. copied env ms snap e" unfolding ms(2) using staged_copied [OF xs] by blast
  moreover have "json_loads (ws_side_manifest w) = Some (PDict (ws_manifest w))"
    "dget (ws_manifest w) ''sha256'' = PStr (sv_sha256 env (ws_tarball w))"
    "dget (ws_manifest w) ''size_bytes'' = PInt (int (length (ws_tarball w)))"
    using assms(2) xs indented_json_round_trip [OF manifest_value]
    by (auto simp: create_snapshot_file_def Let_def, auto simp: file_manifest_def dget_def)
  ultimately show ?thesis using r(1) ms(1) by blast
qed


section \<open>A small archive\<close>

text \<open>An archive format for members that are directories or files, on the texts of \<open>Snapshots\<close>.\<close>

definition toy_entry :: "tar_member \<Rightarrow> archive_file" where
  "toy_entry m = (case tm_content m of None \<Rightarrow> (CHR ''0'' # tm_name m, []) | Some b \<Rightarrow> (CHR ''1'' # tm_name m, b))"

definition toy_member :: "archive_file \<Rightarrow> tar_member" where
  "toy_member f = (if hd (fst f) = CHR ''0'' then directory (tl (fst f)) else regular (tl (fst f)) (snd f))"

definition toy_pack :: "tar_member list \<Rightarrow> bytes" where
  "toy_pack ms = put_files (map toy_entry ms)"

definition toy_unpack :: tar_reader where
  "toy_unpack b = Inr (map toy_member (get_files (length b) b))"

lemma toy_unpack_pack:
  assumes "\<forall>m \<in> set ms. \<exists>n b. m \<in> {directory n, regular n b}"
  shows "toy_unpack (toy_pack ms) = Inr ms"
proof -
  have "toy_member (toy_entry m) = m" if m: "m \<in> set ms" for m
  proof -
    from assms m obtain n b where "m = directory n \<or> m = regular n b" by blast
    then show ?thesis by (auto simp: toy_member_def toy_entry_def directory_def regular_def)
  qed
  then have "map (toy_member \<circ> toy_entry) ms = ms" by (simp add: map_idI)
  then show ?thesis unfolding toy_unpack_def toy_pack_def get_put_files [OF put_files_length] map_map by simp
qed

definition toy_files :: seed_fs where
  "toy_files = \<lparr>sf_content = map_of
       [([''d'', ''a'', ''cir.json''], ''{'' @ json_str ''annotations'' @ '': [1, 2]}'' @ [char_of (13 :: nat), char_of (10 :: nat)]),
        ([''d'', ''a'', ''source.tar.gz''], ''tgz''), ([''d'', ''b'', ''cir.json''], ''{}'')],
     sf_entries = map_of [([''d''], [''b'', ''a'', ''c'']), ([''d'', ''a''], []), ([''d'', ''b''], [])]\<rparr>"

definition toy_snapshots :: snapshot_env where
  "toy_snapshots = \<lparr>sv_fs = toy_files, sv_sha256 = take 6, sv_pack = toy_pack, sv_unpack = toy_unpack, sv_loads = json_loads\<rparr>"

lemma toy_archive_laws: "archive_laws toy_snapshots"
  by (simp add: archive_laws_def toy_snapshots_def toy_unpack_pack)

definition toy_entries :: "snapshot_entry list" where
  "toy_entries = directory_entries toy_files [''d'']"

lemma toy_staged:
  "case stage_entries toy_snapshots [] toy_entries of
     Inr xs \<Rightarrow> map sg_paper_id xs = [''a'', ''b''] \<and> map sg_annotations xs = [2, 0] | _ \<Rightarrow> False"
  "list_all (\<lambda>e. dir_name (sx_paper_id e)) toy_entries" "dir_name ''s''" "map sx_paper_id toy_entries = [''a'', ''b'']"
  by code_simp+

lemma toy_read:
  "list_ex (\<lambda>e. sx_paper_id e = ''b'' \<and> read_bytes toy_snapshots (sx_cir_path e) = Inr ''{}'') toy_entries"
  by code_simp

lemma toy_copy: "copy_text ''{}'' = Inr ''{}''"
  by code_simp

lemma toy_created: "\<exists>w. create_snapshot_file toy_snapshots toy_entries ''s'' ''now'' [] = Inr w"
  using toy_staged(1) by (auto simp: create_snapshot_file_def Let_def split: sum.splits)

lemma created_snapshot_validates_witness:
  "\<exists>w. create_snapshot_file toy_snapshots toy_entries ''s'' ''now'' [] = Inr w \<and>
     validate_snapshot toy_snapshots (Some (ws_tarball w)) = Inr \<lparr>vr_ok = True, vr_errors = [], vr_warnings = []\<rparr>"
proof -
  obtain w where w: "create_snapshot_file toy_snapshots toy_entries ''s'' ''now'' [] = Inr w" using toy_created by blast
  from created_snapshot_validates [OF toy_archive_laws w toy_staged(3)] toy_staged(2) w show ?thesis
    by (auto simp: list_all_iff)
qed

lemma validation_compares_digests_witness:
  "\<exists>w created r. create_snapshot_file toy_snapshots toy_entries ''s'' ''now'' [] = Inr w \<and>
     toy_unpack (ws_tarball w) = Inr created \<and>
     validate_snapshot toy_snapshots (Some (toy_pack (regular ''s/papers/b/cir.json'' ''forged'' # created))) = Inr r \<and> \<not> vr_ok r"
proof -
  have names: "\<forall>e \<in> set toy_entries. dir_name (sx_paper_id e)" using toy_staged(2) by (simp add: list_all_iff)
  obtain w where w: "create_snapshot_file toy_snapshots toy_entries ''s'' ''now'' [] = Inr w" using toy_created by blast
  obtain xs ms where xs: "stage_entries toy_snapshots [] toy_entries = Inr xs" and ms: "sv_unpack toy_snapshots (ws_tarball w) = Inr ms"
    "ms = snapshot_members ''s'' (inner_manifest toy_snapshots ''s'' ''now'' [] xs) xs"
    and below: "\<forall>m \<in> set ms. hd (split_once (CHR ''/'') (tm_name m)) = ''s''"
    by (rule created_archive [OF toy_archive_laws w toy_staged(3) names])
  let ?forged = "regular ''s/papers/b/cir.json'' ''forged'' # ms"
  have "\<forall>m \<in> set ms. \<exists>n b. m \<in> {directory n, regular n b}"
    unfolding ms(2) set_members archive_directories_def by auto
  then have u: "sv_unpack toy_snapshots (toy_pack ?forged) = Inr ?forged"
    by (simp add: toy_snapshots_def) (intro toy_unpack_pack, auto)
  have top: "hd (split_once (CHR ''/'') (tm_name (regular ''s/papers/b/cir.json'' ''forged''))) = ''s''" by code_simp
  have man: "find_member ?forged (''s'' @ ''/MANIFEST.json'') = find_member ms (''s'' @ ''/MANIFEST.json'')"
    by (simp add: find_member_def regular_def)
  obtain e where e: "e \<in> set toy_entries" "sx_paper_id e = ''b''" "read_bytes toy_snapshots (sx_cir_path e) = Inr ''{}''"
    using toy_read by (auto simp: list_ex_iff)
  have "copied toy_snapshots ms ''s'' e" unfolding ms(2) by (rule staged_copied [OF xs e(1)])
  then have packed: "(''s/papers/b/cir.json'', ''{}'') \<in> archive_files ms ''s''"
    using e(2,3) toy_copy by (auto simp: copied_def)
  have "find_member ?forged ''s/papers/b/cir.json'' = Some (regular ''s/papers/b/cir.json'' ''forged'')"
    by (simp add: find_member_def regular_def)
  moreover have "sv_sha256 toy_snapshots ''forged'' \<noteq> sv_sha256 toy_snapshots ''{}''" by code_simp
  moreover have "\<forall>m \<in> set ?forged. hd (split_once (CHR ''/'') (tm_name m)) = ''s''" using below top by simp
  from validation_compares_digests [OF toy_archive_laws w toy_staged(3) names ms(1) u this man] obtain r where
    "validate_snapshot toy_snapshots (Some (toy_pack ?forged)) = Inr r"
    "vr_ok r \<longrightarrow> (\<exists>m b'. find_member ?forged ''s/papers/b/cir.json'' = Some m \<and> tm_content m = Some b' \<and>
        sv_sha256 toy_snapshots b' = sv_sha256 toy_snapshots ''{}'')"
    using packed by blast
  moreover have "toy_unpack (ws_tarball w) = Inr ms" using ms(1) by (simp add: toy_snapshots_def)
  ultimately show ?thesis using w by (intro exI conjI) (auto simp: regular_def)
qed

end
