(* ===== verification/Cli_Write.thy ===== *)
theory Cli_Write
  imports Annotation_Payloads Cli_Identity Annotations Submissions Replication Tex_Walk Tex_Inputs
begin

text \<open>
  The commands that write: \<open>annotation post\<close>, \<open>annotation post-batch\<close>, \<open>retract\<close>, \<open>replicate\<close>,
  \<open>comment\<close> (\<open>cli/annotation_post.py\<close>, \<open>cli/app.py\<close>) and \<open>submit\<close> (\<open>cli/submit.py\<close>): what they send, and
  what they make of the answer. A file option is the text or the bytes of the file; what is
  printed on the way is left out, and \<open>json.loads\<close> on texts that have fractions is a parameter.
\<close>

section \<open>What an annotation is about\<close>

definition after_last :: "char \<Rightarrow> string \<Rightarrow> string" where
  "after_last c s = rev (takeWhile (\<lambda>x. x \<noteq> c) (rev s))"

definition looks_like_claim_id :: "string \<Rightarrow> bool" where
  "looks_like_claim_id target_id =
     (if str_contains '':claim:'' target_id then True
      else if CHR '':'' \<notin> set target_id then False
      else let tail = after_last (CHR '':'') target_id
           in (startswith tail ''c'' \<and> py_isdigit (drop 1 tail)) \<or> py_isdigit tail)"

definition infer_target_type :: "string \<Rightarrow> string \<Rightarrow> string" where
  "infer_target_type target_type target_id =
     (if target_type \<noteq> [] then target_type
      else if str_contains '':claim:'' target_id then ''claim''
      else let tail = (if CHR '':'' \<in> set target_id then after_last (CHR '':'') target_id else [])
           in if tail \<noteq> [] \<and> (startswith tail ''c'' \<or> py_isdigit (dropWhile (\<lambda>c. c = CHR ''c'') tail) \<or> py_isdigit tail)
              then ''claim'' else ''paper'')"

section \<open>Building an annotation\<close>

text \<open>\<open>--field key=value\<close>: a value that is not JSON is taken as text.\<close>

fun parse_field_pairs :: "(string \<Rightarrow> pyval option) \<Rightarrow> pydict \<Rightarrow> string list \<Rightarrow> cli_error + pydict" where
  "parse_field_pairs loads out [] = Inr out"
| "parse_field_pairs loads out (pair # pairs) =
     (case split_once (CHR ''='') pair of
        [k, v] \<Rightarrow> parse_field_pairs loads (dict_set k (case loads v of Some x \<Rightarrow> x | None \<Rightarrow> PStr v) out) pairs
      | _ \<Rightarrow> Inl (Exit 2))"

record annotation_options =
  ao_target_id :: string
  ao_annotation_type :: string
  ao_message :: "string option"
  ao_content_file :: "string option"
  ao_target_type :: string
  ao_fields :: "string list"
  ao_evidence_links :: "string list"
  ao_in_reply_to :: "string option"
  ao_identity :: "string option"

definition annotation_content :: "annotation_options \<Rightarrow> cli_error + string" where
  "annotation_content opts =
     (case (nonempty (ao_message opts), ao_content_file opts) of
        (Some _, Some _) \<Rightarrow> Inl (Exit 2)
      | (None, None) \<Rightarrow> Inl (Exit 2)
      | (Some m, None) \<Rightarrow> Inr m
      | (None, Some t) \<Rightarrow> Inr t)"

text \<open>The author of an annotation; the command counts on the server to replace the \<open>self\<close>, which it does not.\<close>

definition annotation_author :: "string \<Rightarrow> 'p signing_key option \<Rightarrow> pydict" where
  "annotation_author kind key =
     (case key of
        Some k \<Rightarrow> if kind = ''agent'' then [(''identity_type'', PStr ''agent''), (''identity'', PStr (sk_handle k))]
                  else [(''identity_type'', PStr kind), (''identity'', PStr ''self'')]
      | None \<Rightarrow> [(''identity_type'', PStr kind), (''identity'', PStr ''self'')])"

definition annotation_record :: "annotation_options \<Rightarrow> string \<Rightarrow> string \<Rightarrow> string \<Rightarrow> pydict \<Rightarrow> pydict \<Rightarrow> pydict" where
  "annotation_record opts fresh_hex now content created_by structured =
     [(''id'', PStr (''ann-'' @ fresh_hex)), (''target_id'', PStr (ao_target_id opts)),
      (''target_type'', PStr (infer_target_type (ao_target_type opts) (ao_target_id opts))),
      (''annotation_type'', PStr (ao_annotation_type opts)), (''content'', PStr content),
      (''created_at'', PStr now), (''created_by'', PDict created_by)] @
     (if structured = [] then [] else [(''structured_payload'', PDict structured)]) @
     (if ao_evidence_links opts = [] then [] else [(''evidence_links'', PList (map PStr (ao_evidence_links opts)))]) @
     (case nonempty (ao_in_reply_to opts) of None \<Rightarrow> [] | Some i \<Rightarrow> [(''in_reply_to'', PStr i)])"

text \<open>What is sent: the bearer token, the key it is signed with and the annotation.\<close>

definition annotation_request ::
  "'k keyring \<Rightarrow> cred_backend \<Rightarrow> (bytes \<Rightarrow> 'p option) \<Rightarrow> (string \<Rightarrow> pyval option) \<Rightarrow> string \<Rightarrow> annotation_options \<Rightarrow>
   string \<Rightarrow> string \<Rightarrow> 'k cred_state \<Rightarrow> cli_error + string \<times> 'p signing_key option \<times> pydict" where
  "annotation_request K b from_bytes loads server opts fresh_hex now cs =
     rbind (annotation_content opts) (\<lambda>content.
     rbind (resolve_identity K b from_bytes server (ao_identity opts) cs) (\<lambda>resolved.
       case resolved of
         None \<Rightarrow> Inl (Exit 2)
       | Some (kind, token, key) \<Rightarrow>
           rbind (parse_field_pairs loads [] (ao_fields opts)) (\<lambda>structured.
             Inr (token, annotation_signs_with kind key,
                  annotation_record opts fresh_hex now content (annotation_author kind key) structured))))"

text \<open>The exit code, or the id that is printed; nothing of it with \<open>--json\<close>.\<close>

definition report_posted :: "bool \<Rightarrow> pydict \<Rightarrow> response \<Rightarrow> cli_error + pyval" where
  "report_posted json_output annotation resp =
     (if 400 \<le> rs_status resp then Inl (Exit 1)
      else if json_output then Inr PNone
      else case rs_json resp of
          None \<Rightarrow> Inr (dget annotation ''id'')
        | Some (PDict d) \<Rightarrow> Inr (py_or (dget d ''id'') (dget annotation ''id''))
        | Some _ \<Rightarrow> Inl (PyRaised AttributeError))"

section \<open>The short forms\<close>

definition quoted :: "string \<Rightarrow> string \<Rightarrow> string" where
  "quoted k v = k @ CHR ''='' # dq # v @ [dq]"

definition looks_claimish :: "string \<Rightarrow> bool" where
  "looks_claimish target_id =
     (if str_contains '':claim:'' target_id then True
      else if CHR '':'' \<notin> set target_id then False
      else let tail = after_last (CHR '':'') target_id
           in (startswith tail ''c'' \<and> py_isdigit (drop 1 tail)) \<or> py_isdigit tail)"

definition short_form :: "string \<Rightarrow> string \<Rightarrow> string \<Rightarrow> string option \<Rightarrow> annotation_options" where
  "short_form target_id annotation_type message identity =
     \<lparr>ao_target_id = target_id, ao_annotation_type = annotation_type, ao_message = Some message, ao_content_file = None,
      ao_target_type = [], ao_fields = [], ao_evidence_links = [], ao_in_reply_to = None, ao_identity = identity\<rparr>"

definition retract :: "string \<Rightarrow> string \<Rightarrow> string \<Rightarrow> string option \<Rightarrow> string option \<Rightarrow> annotation_options" where
  "retract target_id message reason superseded_by identity =
     (let is_claim = str_contains '':claim:'' target_id \<or> looks_claimish target_id
      in (short_form target_id (if is_claim then ''claim_retraction'' else ''paper_retraction'') message identity)
           \<lparr>ao_fields := quoted ''reason'' reason #
              (case nonempty superseded_by of None \<Rightarrow> [] | Some i \<Rightarrow> [quoted ''superseded_by'' i])\<rparr>)"

definition replicate_claim :: "string \<Rightarrow> string \<Rightarrow> string \<Rightarrow> string \<Rightarrow> string list \<Rightarrow> string option \<Rightarrow> annotation_options" where
  "replicate_claim claim_id message outc kind evidence identity =
     (short_form claim_id ''replication'' message identity)
       \<lparr>ao_target_type := ''claim'', ao_fields := [quoted ''outcome'' outc, quoted ''reproduction_kind'' kind],
        ao_evidence_links := evidence\<rparr>"

definition comment_on :: "string \<Rightarrow> string \<Rightarrow> string option \<Rightarrow> string option \<Rightarrow> annotation_options" where
  "comment_on target_id message in_reply_to identity =
     (short_form target_id ''comment'' message identity)\<lparr>ao_in_reply_to := in_reply_to\<rparr>"

section \<open>Many annotations\<close>

definition batch_items :: "pyval option \<Rightarrow> cli_error + pyval list" where
  "batch_items parsed =
     (case parsed of
        Some (PList xs) \<Rightarrow> Inr xs
      | Some (PDict d) \<Rightarrow> (case dget d ''annotations'' of PList xs \<Rightarrow> Inr xs | _ \<Rightarrow> Inl (Exit 2))
      | _ \<Rightarrow> Inl (Exit 2))"

fun batches :: "nat \<Rightarrow> 'a list \<Rightarrow> 'a list list" where
  "batches 0 xs = []"
| "batches n [] = []"
| "batches (Suc n) (x # xs) = (x # take n xs) # batches (Suc n) (drop n xs)"

definition bulk_cap :: nat where "bulk_cap = 100"

text \<open>One request after the other; the first that is refused ends it.\<close>

fun post_batches :: "(pyval list \<Rightarrow> 's \<Rightarrow> response \<times> 's) \<Rightarrow> pyval list list \<Rightarrow> 's \<Rightarrow> (cli_error + pyval list) \<times> 's" where
  "post_batches post [] s = (Inr [], s)"
| "post_batches post (batch # rest) s =
     (case post batch s of (resp, s1) \<Rightarrow>
        if 400 \<le> rs_status resp then (Inl (Exit 1), s1)
        else case (case rs_json resp of
                     None \<Rightarrow> Inr []
                   | Some (PDict d) \<Rightarrow> py (py_iter (case dict_get d ''results'' of None \<Rightarrow> PList [] | Some v \<Rightarrow> v))
                   | Some _ \<Rightarrow> Inl (PyRaised AttributeError)) of
               Inl e \<Rightarrow> (Inl e, s1)
             | Inr results \<Rightarrow>
                 (case post_batches post rest s1 of
                    (Inl e, s2) \<Rightarrow> (Inl e, s2) | (Inr others, s2) \<Rightarrow> (Inr (results @ others), s2)))"

definition annotation_post_batch ::
  "'k keyring \<Rightarrow> cred_backend \<Rightarrow> (bytes \<Rightarrow> 'p option) \<Rightarrow> string \<Rightarrow> string option \<Rightarrow> 'k cred_state \<Rightarrow>
   (string \<times> 'p signing_key option \<Rightarrow> pyval list \<Rightarrow> 's \<Rightarrow> response \<times> 's) \<Rightarrow> pyval option \<Rightarrow> 's \<Rightarrow>
   (cli_error + pyval list) \<times> 's" where
  "annotation_post_batch K b from_bytes server identity cs post parsed s =
     (case batch_items parsed of
        Inl e \<Rightarrow> (Inl e, s)
      | Inr [] \<Rightarrow> (Inr [], s)
      | Inr items \<Rightarrow>
          (case resolve_identity K b from_bytes server identity cs of
             Inl e \<Rightarrow> (Inl e, s)
           | Inr None \<Rightarrow> (Inl (Exit 2), s)
           | Inr (Some (kind, token, key)) \<Rightarrow>
               post_batches (post (token, annotation_signs_with kind key)) (batches bulk_cap items) s))"

text \<open>\<open>r.get("status", 0) < 300\<close> for each result: how many went well, and which did not.\<close>

definition result_status :: "pyval \<Rightarrow> pyexn + int" where
  "result_status r =
     (case r of
        PDict d \<Rightarrow>
          (case dict_get d ''status'' of
             None \<Rightarrow> Inr 0 | Some (PInt i) \<Rightarrow> Inr i | Some (PBool t) \<Rightarrow> Inr (if t then 1 else 0) | Some _ \<Rightarrow> Inl TypeError)
      | _ \<Rightarrow> Inl AttributeError)"

definition batch_summary :: "pyval list \<Rightarrow> pyexn + int \<times> int" where
  "batch_summary results =
     rbind (rmap result_status results) (\<lambda>sts.
       let n_ok = count_if (\<lambda>i. i < 300) sts in Inr (n_ok, int (length results) - n_ok))"

section \<open>Listing\<close>

definition annotation_list_request :: "string \<Rightarrow> string option \<Rightarrow> string option \<Rightarrow> string \<times> (string \<times> string) list" where
  "annotation_list_request server target_id annotation_type =
     (let base = rstrip_slash server;
          params = (case nonempty annotation_type of None \<Rightarrow> [] | Some t \<Rightarrow> [(''annotation_type'', t)])
      in case nonempty target_id of
           None \<Rightarrow> (base @ ''/annotations'', params)
         | Some t \<Rightarrow>
             if str_contains '':claim:'' t \<or> looks_like_claim_id t then (base @ ''/annotations'', params @ [(''target_id'', t)])
             else (base @ ''/papers/'' @ t @ ''/annotations'', params))"

text \<open>The rows to show: asking a list for \<open>items\<close> fails before the branch for lists.\<close>

definition annotation_rows :: "response \<Rightarrow> cli_error + pyval" where
  "annotation_rows resp =
     (if 400 \<le> rs_status resp then Inl (Exit 1)
      else case rs_json resp of
          None \<Rightarrow> Inl (PyRaised ValueError)
        | Some (PDict d) \<Rightarrow> Inr (case dict_get d ''items'' of None \<Rightarrow> PList [] | Some v \<Rightarrow> v)
        | Some _ \<Rightarrow> Inl (PyRaised AttributeError))"

section \<open>Submitting\<close>

record submit_options =
  su_pdf_path :: "path option"
  su_no_pdf :: bool
  su_revision_of :: "string option"
  su_revision_summary :: "string option"
  su_summary_file :: "string option"
  su_dry_run :: bool
  su_skip_hash :: bool
  su_identity :: "string option"

definition chosen_pdf :: "(path \<Rightarrow> bytes option) \<Rightarrow> path \<Rightarrow> submit_options \<Rightarrow> path option" where
  "chosen_pdf files bundle opts =
     (if su_no_pdf opts then None
      else case su_pdf_path opts of
          Some p \<Rightarrow> Some p
        | None \<Rightarrow> let candidate = butlast bundle @ [''main.pdf''] in if files candidate = None then None else Some candidate)"

definition summary_text :: "submit_options \<Rightarrow> cli_error + string option" where
  "summary_text opts =
     (case (nonempty (su_revision_summary opts), su_summary_file opts) of
        (Some _, Some _) \<Rightarrow> Inl (Exit 2)
      | (Some t, None) \<Rightarrow> Inr (Some t)
      | (None, f) \<Rightarrow> Inr f)"

text \<open>The form: the files, which exist, and the fields that are not empty.\<close>

definition submit_form ::
  "(bytes \<Rightarrow> string) \<Rightarrow> (bytes \<Rightarrow> pyval option) \<Rightarrow> (path \<Rightarrow> bytes option) \<Rightarrow> path \<Rightarrow> path \<Rightarrow> submit_options \<Rightarrow> cli_error + submission" where
  "submit_form digest loads files cir_path bundle_path opts =
     (let bundle = the (files bundle_path); cir = the (files cir_path)
      in if loads cir = None then Inl (Exit 2)
         else rbind (summary_text opts) (\<lambda>summary.
           Inr \<lparr>sm_cir = cir, sm_bundle = bundle, sm_pdf = Option.bind (chosen_pdf files bundle_path opts) files,
                sm_previous_version = nonempty (su_revision_of opts), sm_revision_summary = nonempty summary,
                sm_dry_run = (if su_dry_run opts then Some ''true'' else None),
                sm_client_compile_hash = (if su_skip_hash opts then None else Some (digest bundle)), sm_idempotency_key = None\<rparr>))"

definition submit_request ::
  "'k keyring \<Rightarrow> cred_backend \<Rightarrow> (bytes \<Rightarrow> 'p option) \<Rightarrow> (bytes \<Rightarrow> string) \<Rightarrow> (bytes \<Rightarrow> pyval option) \<Rightarrow> (path \<Rightarrow> bytes option) \<Rightarrow>
   string \<Rightarrow> path \<Rightarrow> path \<Rightarrow> submit_options \<Rightarrow> 'k cred_state \<Rightarrow> cli_error + string \<times> 'p signing_key option \<times> submission" where
  "submit_request K b from_bytes digest loads files server cir_path bundle_path opts cs =
     (if files bundle_path = None \<or> files cir_path = None \<or>
         (case su_pdf_path opts of None \<Rightarrow> False | Some p \<Rightarrow> files p = None) then Inl (Exit 2)
      else rbind (resolve_identity K b from_bytes server (su_identity opts) cs) (\<lambda>resolved.
       case resolved of
         None \<Rightarrow> Inl (Exit 2)
       | Some (kind, token, key) \<Rightarrow>
           rbind (submit_form digest loads files cir_path bundle_path opts) (\<lambda>form.
             Inr (token, submit_signs_with kind key, form))))"

text \<open>The page of a paper: without the API's path, and on the web host of the canonical instance.\<close>

definition replace_first :: "string \<Rightarrow> string \<Rightarrow> string \<Rightarrow> string" where
  "replace_first old new s =
     (case filter (\<lambda>i. startswith (drop i s) old) [0..<Suc (length s)] of
        [] \<Rightarrow> s | i # _ \<Rightarrow> take i s @ new @ drop (i + length old) s)"

definition web_view_url :: "string \<Rightarrow> string \<Rightarrow> string" where
  "web_view_url server slug =
     replace_first ''://api.rrxiv.com'' ''://rrxiv.com'' (rstrip_slash (replace_all ''/api/v0'' [] server)) @ ''/papers/'' @ slug"

end
