(* ===== verification/Cli_Effects.thy ===== *)
theory Cli_Effects
  imports Cli_Write Json_Indent
begin

text \<open>
  What the writing commands bring about: a retraction and a replication posted from the command
  line change the derived status of the claim they name, a batch of any length is processed as
  one sequence, and a submission passes the server's check of its bundle.
\<close>

section \<open>The annotation on the server\<close>



text \<open>Nothing that is stored refers to the id yet.\<close>

definition id_unused :: "store_state \<Rightarrow> string \<Rightarrow> bool" where
  "id_unused s i \<longleftrightarrow> get_annotation s i = None \<and>
     (\<forall>x \<in> set (list_annotations s). dget x ''supersedes'' \<noteq> PStr i \<and> dget x ''in_reply_to'' \<noteq> PStr i)"






text \<open>A value in quotes is JSON when none of its characters has to be escaped.\<close>

definition plain_text :: "string \<Rightarrow> bool" where
  "plain_text v \<longleftrightarrow> list_all (\<lambda>c. 32 \<le> (of_char c :: nat) \<and> (of_char c :: nat) \<le> 126 \<and> c \<noteq> dq \<and> c \<noteq> bsl) v"





section \<open>A batch is one sequence\<close>

text \<open>What the bulk endpoint sends: a result's payload is the annotation, or what was wrong with it.\<close>

definition bulk_result_json :: "bulk_result \<Rightarrow> pyval" where
  "bulk_result_json r =
     PDict [(''index'', PInt (int (br_index r))), (''status'', PInt (br_status r)),
       (if br_status r = 201 then ''body'' else ''error'', br_payload r)]"

definition bulk_response :: "exn + bulk_result list \<Rightarrow> response" where
  "bulk_response out =
     (case out of
        Inr rs \<Rightarrow> json_response 200 ''application/json'' [(''results'', PList (map bulk_result_json rs))]
      | Inl (Problem p) \<Rightarrow> json_response (pb_status p) ''application/problem+json'' (problem_body p None)
      | Inl e \<Rightarrow> json_response (exn_status e) ''text/plain'' [])"

text \<open>The endpoint as the command meets it: the state counts the requests, for the ids it mints.\<close>

definition bulk_endpoint ::
  "validator \<Rightarrow> authed_request \<Rightarrow> (nat \<Rightarrow> nat \<Rightarrow> string) \<Rightarrow> pyval list \<Rightarrow> nat \<times> store_state \<Rightarrow> response \<times> nat \<times> store_state" where
  "bulk_endpoint validate auth fresh items ns =
     (case create_annotations_bulk validate auth [(''annotations'', PList items)] (fresh (fst ns)) (snd ns) of
        (out, s') \<Rightarrow> (bulk_response out, Suc (fst ns), s'))"

lemma batches_concat: "0 < n \<Longrightarrow> concat (batches n xs) = xs"
  by (induction n xs rule: batches.induct) simp_all

lemma batches_sizes: "b \<in> set (batches n xs) \<Longrightarrow> b \<noteq> [] \<and> length b \<le> n"
  by (induction n xs rule: batches.induct) auto

lemma bulk_items_append:
  "bulk_items validate fresh k (xs @ ys) s =
     (case bulk_items validate fresh k xs s of
        (Inl e, s1) \<Rightarrow> (Inl e, s1)
      | (Inr rs, s1) \<Rightarrow>
          (case bulk_items validate fresh (k + length xs) ys s1 of (Inl e, s2) \<Rightarrow> (Inl e, s2) | (Inr ts, s2) \<Rightarrow> (Inr (rs @ ts), s2)))"
  by (induction xs arbitrary: k s) (auto split: sum.splits prod.splits)

text \<open>The position of an item only shows in the index of its result.\<close>

definition moved :: "nat \<Rightarrow> bulk_result \<Rightarrow> bulk_result" where
  "moved k r = r\<lparr>br_index := br_index r + k\<rparr>"

lemma bulk_item_moved:
  "bulk_item validate (k + i) hx x s = map_sum id (map_prod (moved k) id) (bulk_item validate i hx x s)"
  by (auto simp: bulk_item_def moved_def Let_def rbind_def add.commute split: pyval.splits option.splits sum.splits)

lemma bulk_items_moved:
  "bulk_items validate (\<lambda>i. fresh (i - k)) (k + j) xs s =
     map_prod (map_sum id (map (moved k))) id (bulk_items validate fresh j xs s)"
proof (induction xs arbitrary: j s)
  case (Cons x xs)
  show ?case
    using Cons.IH [of "Suc j"]
    by (auto simp: bulk_item_moved split: sum.splits prod.splits)
qed simp

lemma bulk_items_cong:
  "(\<And>i. k \<le> i \<Longrightarrow> i < k + length xs \<Longrightarrow> f i = g i) \<Longrightarrow> bulk_items validate f k xs s = bulk_items validate g k xs s"
proof (induction xs arbitrary: k s)
  case (Cons x xs)
  have "bulk_items validate f (Suc k) xs s1 = bulk_items validate g (Suc k) xs s1" for s1
    by (rule Cons.IH) (use Cons.prems in simp)
  moreover have "f k = g k" using Cons.prems by simp
  ultimately show ?case by (simp split: sum.split prod.split)
qed simp

lemma bulk_item_index: "bulk_item validate j hx x s = Inr (r, s') \<Longrightarrow> br_index r = j"
  by (auto simp: bulk_item_def Let_def rbind_Inr_iff split: pyval.splits if_splits option.splits)

lemma bulk_items_indices: "bulk_items validate fresh j xs s = (Inr rs, s') \<Longrightarrow> map br_index rs = [j..<j + length xs]"
proof (induction xs arbitrary: j s rs)
  case (Cons x xs)
  then show ?case
    by (auto split: sum.splits prod.splits simp: upt_rec [of j] Suc_le_eq dest!: bulk_item_index Cons.IH)
qed simp

text \<open>One request of the command, seen in the numbering of the whole list.\<close>

lemma batch_request:
  assumes "bulk_items validate (\<lambda>i. fresh (i div bulk_cap) (i mod bulk_cap)) (bulk_cap * n) b s = (Inr rs, s')"
    and "b \<noteq> []" "length b \<le> bulk_cap" "\<not> is_anonymous (au_identity auth)"
  shows "bulk_endpoint validate auth fresh b (n, s) =
    (json_response 200 ''application/json''
       [(''results'', PList (map (\<lambda>r. bulk_result_json (r\<lparr>br_index := br_index r mod bulk_cap\<rparr>)) rs))], Suc n, s')"
proof -
  have "bulk_items validate (\<lambda>i. fresh (i div bulk_cap) (i mod bulk_cap)) (bulk_cap * n + 0) b s =
      bulk_items validate (\<lambda>i. fresh n (i - bulk_cap * n)) (bulk_cap * n + 0) b s"
  proof (rule bulk_items_cong)
    fix i assume i: "bulk_cap * n + 0 \<le> i" "i < bulk_cap * n + 0 + length b"
    define d where "d = i - bulk_cap * n"
    from i assms(3) have "i = bulk_cap * n + d" "d < bulk_cap" by (simp_all add: d_def)
    then show "fresh (i div bulk_cap) (i mod bulk_cap) = fresh n (i - bulk_cap * n)" by simp
  qed
  with assms(1) obtain ts where ts: "bulk_items validate (fresh n) 0 b s = (Inr ts, s')" "rs = map (moved (bulk_cap * n)) ts"
    unfolding bulk_items_moved by (cases "bulk_items validate (fresh n) 0 b s"; cases "fst (bulk_items validate (fresh n) 0 b s)") auto
  have "br_index r < bulk_cap" if "r \<in> set ts" for r
  proof -
    have "br_index r \<in> set (map br_index ts)" using that by simp
    then show ?thesis unfolding bulk_items_indices [OF ts(1)] using assms(3) by simp
  qed
  then have "map (\<lambda>r. bulk_result_json (r\<lparr>br_index := br_index r mod bulk_cap\<rparr>)) rs = map bulk_result_json ts"
    unfolding ts(2) by (simp add: moved_def)
  moreover have "create_annotations_bulk validate auth [(''annotations'', PList b)] (fresh n) s = (Inr ts, s')"
    using assms(2-4) ts(1) by (simp add: create_annotations_bulk_def dget_def bulk_max_per_request_def bulk_cap_def raising_def)
  ultimately show ?thesis by (simp add: bulk_endpoint_def bulk_response_def)
qed

lemma batches_cut: "xs \<noteq> [] \<Longrightarrow> batches (Suc k) xs = take (Suc k) xs # batches (Suc k) (drop (Suc k) xs)"
  by (cases xs) simp_all

lemma post_batches_sequence:
  assumes "bulk_items validate (\<lambda>i. fresh (i div bulk_cap) (i mod bulk_cap)) (bulk_cap * n) xs s = (Inr rs, s')"
    and "\<not> is_anonymous (au_identity auth)"
  shows "post_batches (bulk_endpoint validate auth fresh) (batches bulk_cap xs) (n, s) =
    (Inr (map (\<lambda>r. bulk_result_json (r\<lparr>br_index := br_index r mod bulk_cap\<rparr>)) rs), n + length (batches bulk_cap xs), s')"
  using assms(1)
proof (induction "length xs" arbitrary: xs n s rs rule: less_induct)
  case less
  obtain k where k: "bulk_cap = Suc k" by (simp add: bulk_cap_def)
  show ?case
  proof (cases "xs = []")
    case True
    with less.prems show ?thesis by (simp add: k)
  next
    case False
    let ?F = "\<lambda>i. fresh (i div bulk_cap) (i mod bulk_cap)"
    let ?b = "take bulk_cap xs" and ?r = "drop bulk_cap xs"
    have split: "bulk_items validate ?F (bulk_cap * n) (?b @ ?r) s = (Inr rs, s')" using less.prems by simp
    obtain rs1 s1 rs2 where one: "bulk_items validate ?F (bulk_cap * n) ?b s = (Inr rs1, s1)"
      and two: "bulk_items validate ?F (bulk_cap * n + length ?b) ?r s1 = (Inr rs2, s')" and rs: "rs = rs1 @ rs2"
      using split unfolding bulk_items_append by (auto split: sum.splits prod.splits)
    have "bulk_items validate ?F (bulk_cap * Suc n) ?r s1 = (Inr rs2, s')"
    proof (cases "?r = []")
      case True
      then show ?thesis using two by simp
    next
      case False
      then have "length ?b = bulk_cap" by simp
      then show ?thesis using two by (simp add: add.commute)
    qed
    moreover have "length ?r < length xs" using False by (simp add: k)
    ultimately have rest: "post_batches (bulk_endpoint validate auth fresh) (batches bulk_cap ?r) (Suc n, s1) =
        (Inr (map (\<lambda>r. bulk_result_json (r\<lparr>br_index := br_index r mod bulk_cap\<rparr>)) rs2), Suc n + length (batches bulk_cap ?r), s')"
      by (rule less.hyps [rotated])
    have "bulk_endpoint validate auth fresh ?b (n, s) = (json_response 200 ''application/json''
        [(''results'', PList (map (\<lambda>r. bulk_result_json (r\<lparr>br_index := br_index r mod bulk_cap\<rparr>)) rs1))], Suc n, s1)"
      by (rule batch_request [OF one]) (use False assms(2) k in simp_all)
    moreover have "batches bulk_cap xs = ?b # batches bulk_cap ?r" unfolding k by (rule batches_cut [OF False])
    ultimately show ?thesis using rest
      by (simp add: json_response_def py_iter_def rs)
  qed
qed

lemma batches_count: "0 < n \<Longrightarrow> length (batches n xs) = (length xs + n - 1) div n"
proof (induction n xs rule: batches.induct)
  case (3 n x xs)
  show ?case
  proof (cases "length xs \<le> n")
    case True
    then have "drop n xs = []" by simp
    moreover have "(length xs + Suc n) div Suc n = Suc 0"
      using True by (intro div_nat_eqI) auto
    ultimately show ?thesis by simp
  next
    case False
    then have "length xs + Suc n = (length xs - n + n) + Suc n" by simp
    then have "(length xs + Suc n) div Suc n = Suc ((length xs - n + n) div Suc n)" by (metis div_add_self2 Zero_not_Suc Suc_eq_plus1)
    with 3 show ?thesis by simp
  qed
qed simp_all

text \<open>
  C12: a batch of any length is one sequence: \<open>rrxiv annotation post-batch\<close> sends one request per
  hundred annotations, and the server then has processed all of them, in their order, each against
  what the ones before it left; the results come back in order, numbered within their request.
\<close>

theorem batch_is_one_sequence:
  assumes "batch_items parsed = Inr items" "resolve_identity K b from_bytes server identity cs = Inr (Some signer)"
    and "\<not> is_anonymous (au_identity auth)"
    and "bulk_items validate (\<lambda>i. fresh (i div bulk_cap) (i mod bulk_cap)) 0 items s = (Inr rs, s')"
  shows "annotation_post_batch K b from_bytes server identity cs (\<lambda>_. bulk_endpoint validate auth fresh) parsed (0, s) =
    (Inr (map (\<lambda>r. bulk_result_json (r\<lparr>br_index := br_index r mod bulk_cap\<rparr>)) rs), (length items + 99) div 100, s')"
proof -
  obtain kind token key where signer: "signer = (kind, token, key)" by (cases signer)
  have seq: "post_batches (bulk_endpoint validate auth fresh) (batches bulk_cap items) (0, s) =
      (Inr (map (\<lambda>r. bulk_result_json (r\<lparr>br_index := br_index r mod bulk_cap\<rparr>)) rs), (length items + 99) div 100, s')"
    using post_batches_sequence [where n = 0 and xs = items, simplified, OF assms(4,3)] batches_count [of bulk_cap items]
    by (simp add: bulk_cap_def)
  show ?thesis
  proof (cases items)
    case Nil
    with assms(1,4) show ?thesis by (simp add: annotation_post_batch_def)
  next
    case (Cons i is')
    with seq show ?thesis using assms(1,2) by (simp add: annotation_post_batch_def signer)
  qed
qed

section \<open>Examples\<close>


text \<open>A machine with an ORCID login and a store with a claim of a paper on mathematics.\<close>

definition orcid_machine :: "(string \<times> pyval) list cred_state" where
  "orcid_machine = snd (store_bearer toy_keyring InFile (example_bearer\<lparr>sb_identity_type := ''orcid'', sb_identity := Some ''0''\<rparr>)
     \<lparr>cr_file = NoFile, cr_ring = []\<rparr>)"

definition one_claim :: store_state where
  "one_claim = empty_store\<lparr>st_papers := [(''u1'', [(''id'', PStr ''u1''), (''topics'', PList [PStr ''math.HO''])])],
     st_claims := [(''u1:c1'', [(''id'', PStr ''u1:c1''), (''paper_id'', PStr ''u1'')])]\<rparr>"

definition reader :: authed_request where
  "reader = \<lparr>au_identity = OrcidIdentity ''0'', au_token = ''t''\<rparr>"

definition posted :: "annotation_options \<Rightarrow> cli_error + string \<times> string signing_key option \<times> pydict" where
  "posted opts = annotation_request toy_keyring InFile Some json_loads ''http://h:1'' opts ''0'' ''now'' orcid_machine"


lemma one_claim_facts:
  "claim_id_matches ''u1:c1''" "looks_claimish ''u1:c1''" "get_claim one_claim ''u1:c1'' \<noteq> None" "\<not> is_anonymous (au_identity reader)"
  "id_unused one_claim (''ann-'' @ ''0'')" "plain_text ''supports''" "plain_text ''fresh_replication''"
  "list_annotations one_claim = []" "quorum_for_claim (PStr ''u1:c1'') one_claim PNone = Inr 1"
  by code_simp+



lemma batch_is_one_sequence_witness:
  "case annotation_post_batch toy_keyring InFile (Some :: string \<Rightarrow> string option) ''http://h:1'' None orcid_machine
      (\<lambda>_. bulk_endpoint (\<lambda>_. None) reader (\<lambda>_ _. ''x'')) (Some (PList (replicate 101 (PInt 1)))) (0, one_claim) of
     (Inr results, n, s') \<Rightarrow> length results = 101 \<and> n = 2 \<and> s' = one_claim | _ \<Rightarrow> False"
proof -
  have bad: "bulk_items (\<lambda>_. None) f k (replicate n (PInt 1)) one_claim =
      (Inr (map (\<lambda>i. \<lparr>br_index = i, br_status = 422, br_payload = PStr ''annotation must be an object''\<rparr>) [k..<k + n]), one_claim)" for f k n
    by (induction n arbitrary: k) (simp_all add: bulk_item_def Let_def upt_rec [of k for k])
  have signer: "\<exists>r. resolve_identity toy_keyring InFile (Some :: string \<Rightarrow> string option) ''http://h:1'' None orcid_machine = Inr (Some r)"
  proof -
    have "case resolve_identity toy_keyring InFile (Some :: string \<Rightarrow> string option) ''http://h:1'' None orcid_machine of Inr (Some r) \<Rightarrow> True | _ \<Rightarrow> False"
      by code_simp
    then show ?thesis by (auto split: sum.splits option.splits)
  qed
  then obtain r where r: "resolve_identity toy_keyring InFile (Some :: string \<Rightarrow> string option) ''http://h:1'' None orcid_machine = Inr (Some r)" by blast
  have items: "batch_items (Some (PList (replicate 101 (PInt 1)))) = Inr (replicate 101 (PInt 1))" by (simp add: batch_items_def)
  from batch_is_one_sequence [OF items r one_claim_facts(4) bad] show ?thesis by simp
qed

text \<open>The server keeps the author of an annotation as it was sent: the \<open>self\<close> of an ORCID login stays.\<close>

lemma self_is_stored:
  "case posted (retract ''u1:c1'' ''m'' ''fraud'' None None) of
     Inr (t, k, a) \<Rightarrow>
       (case create_annotation (\<lambda>_. None) reader a None [] [] 7 one_claim of
          (Inr _, s') \<Rightarrow> get_annotation s' ''ann-0'' = Some a \<and>
            dget a ''created_by'' = PDict [(''identity_type'', PStr ''orcid''), (''identity'', PStr ''self'')]
        | _ \<Rightarrow> False)
   | _ \<Rightarrow> False"
  by code_simp

text \<open>A submission with its hash passes the server's check of the bundle.\<close>

lemma submitted_fields:
  assumes "submit_form digest loads files cir bundle opts = Inr r"
  shows "sm_client_compile_hash r = None \<or> sm_client_compile_hash r = Some (digest (sm_bundle r))"
    "sm_dry_run r = (if su_dry_run opts then Some ''true'' else None)"
proof -
  from assms obtain summary where "summary_text opts = Inr summary" "r = \<lparr>sm_cir = the (files cir), sm_bundle = the (files bundle),
      sm_pdf = Option.bind (chosen_pdf files bundle opts) files, sm_previous_version = nonempty (su_revision_of opts),
      sm_revision_summary = nonempty summary, sm_dry_run = (if su_dry_run opts then Some ''true'' else None),
      sm_client_compile_hash = (if su_skip_hash opts then None else Some (digest (the (files bundle)))), sm_idempotency_key = None\<rparr>"
    unfolding submit_form_def Let_def by (auto simp: rbind_Inr_iff split: if_splits)
  then show "sm_client_compile_hash r = None \<or> sm_client_compile_hash r = Some (digest (sm_bundle r))"
    "sm_dry_run r = (if su_dry_run opts then Some ''true'' else None)" by simp_all
qed

lemma submitted_bundle_checked:
  assumes "submit_form (se_sha256 env) loads files cir bundle opts = Inr r"
  shows "check_bundle_hash env r = Inr ()"
  using submitted_fields(1) [OF assms] by (elim disjE) (simp_all add: check_bundle_hash_def nonempty_def)

lemma submitted_dry_run:
  assumes "submit_form digest loads files cir bundle opts = Inr r"
  shows "is_dry_run r = su_dry_run opts"
proof -
  have "str_lower ''true'' = ''true''" "str_lower [] = []" by code_simp+
  then show ?thesis by (simp add: is_dry_run_def submitted_fields(2) [OF assms])
qed

lemma canonical_page: "web_view_url ''https://api.rrxiv.com/api/v0'' ''rrxiv:2605.00001'' = ''https://rrxiv.com/papers/rrxiv:2605.00001''"
  by code_simp

text \<open>
  The payload of \<open>rrxiv replicate\<close> lacks the method and has a field too many for its own model, and
  the one of \<open>rrxiv retract\<close> fits only without a survivor and with a known reason.
\<close>

lemma replicate_payload_invalid:
  "validate_annotation_payload as_int ''replication'' (Some [(''outcome'', PStr outc), (''reproduction_kind'', PStr kind)]) = Some PayloadInvalid"
  by (simp add: validate_annotation_payload_def behind_last_dot_def payload_models_def model_accepts_def replication_payload_def
      required_def optional_def field_ok_def)

lemma retract_survivor_invalid:
  "validate_annotation_payload as_int ''claim_retraction'' (Some [(''reason'', PStr r), (''superseded_by'', PStr i)]) = Some PayloadInvalid"
  by (simp add: validate_annotation_payload_def behind_last_dot_def payload_models_def model_accepts_def retraction_payload_def
      required_def optional_def)

lemma retract_reason_checked:
  "validate_annotation_payload as_int ''claim_retraction'' (Some [(''reason'', PStr r)]) = None \<longleftrightarrow> r \<in> set retraction_reasons"
  by (simp add: validate_annotation_payload_def behind_last_dot_def payload_models_def model_accepts_def retraction_payload_def
      required_def optional_def field_ok_def value_ok_def)

text \<open>The two guesses disagree: a label that begins with \<open>c\<close> gets a paper's retraction of a claim.\<close>

lemma guesses_disagree:
  "ao_annotation_type (retract ''p:conclusions'' ''m'' ''fraud'' None None) = ''paper_retraction''"
  "infer_target_type [] ''p:conclusions'' = ''claim''"
  by code_simp+

text \<open>A claim of another kind than \<open>claim\<close> is not recognised as one.\<close>

lemma theorem_taken_for_paper:
  "ao_annotation_type (retract ''rrxiv:2605.00009:prop:I.47'' ''m'' ''fraud'' None None) = ''paper_retraction''"
  "infer_target_type [] ''rrxiv:2605.00009:prop:I.47'' = ''paper''"
  by code_simp+

lemma listed_as_array_fails: "annotation_rows \<lparr>rs_status = 200, rs_content_type = [], rs_json = Some (PList []), rs_reason = [], rs_retry_after = None\<rparr> =
    Inl (PyRaised AttributeError)"
  by (simp add: annotation_rows_def)

end
