(* ===== verification/Client_Api.thy ===== *)
theory Client_Api
  imports Client_Login Claims_Router Annotations Sidecar
begin

text \<open>
  The API clients, \<open>client/client.py\<close> and \<open>client/async_client.py\<close>: the requests their methods make,
  what they do with the answers, the iteration over pages, and how the routes of the server bind
  the parameters they send. What the HTTP library writes for a query parameter and the framework
  reads for a number are parameters, as is the generated model of an annotation.
\<close>

section \<open>Requests\<close>

record api_call =
  ac_verb :: string
  ac_path :: string
  ac_params :: pydict
  ac_body :: "pydict option"
  ac_headers :: "(string \<times> string) list"

definition get_call :: "string \<Rightarrow> pydict \<Rightarrow> api_call" where
  "get_call path params =
     \<lparr>ac_verb = ''GET'', ac_path = path, ac_params = params, ac_body = None, ac_headers = []\<rparr>"

definition opt_param :: "string option \<Rightarrow> pyval" where
  "opt_param v = (case v of None \<Rightarrow> PNone | Some t \<Rightarrow> PStr t)"

definition opt_limit :: "int option \<Rightarrow> pyval" where
  "opt_limit v = (case v of None \<Rightarrow> PNone | Some n \<Rightarrow> PInt n)"

definition list_papers_call ::
  "string option \<Rightarrow> string option \<Rightarrow> string option \<Rightarrow> pyval \<Rightarrow> int option \<Rightarrow> api_call" where
  "list_papers_call author topic since cursor limit =
     get_call ''/papers'' (drop_nulls
       [(''author'', opt_param author), (''topic'', opt_param topic), (''since'', opt_param since),
        (''cursor'', cursor), (''limit'', opt_limit limit)])"

definition get_paper_call :: "string \<Rightarrow> api_call" where
  "get_paper_call paper_id = get_call (''/papers/'' @ paper_id) []"

definition get_cir_call :: "string \<Rightarrow> api_call" where
  "get_cir_call paper_id = get_call (''/papers/'' @ paper_id @ ''/cir'') []"

text \<open>
  The filters of \<open>list_claims\<close>, in the order of its arguments. A cursor is passed on as the server
  sent it, so it is any value there.
\<close>

record claim_filters =
  cf_claim_type :: "string option"
  cf_evidence_type :: "string option"
  cf_replication_status :: "string option"
  cf_paper :: "string option"
  cf_canonical :: "bool option"

definition list_claims_call :: "claim_filters \<Rightarrow> pyval \<Rightarrow> int option \<Rightarrow> api_call" where
  "list_claims_call f cursor limit =
     get_call ''/claims'' (drop_nulls
       [(''claim_type'', opt_param (cf_claim_type f)), (''evidence_type'', opt_param (cf_evidence_type f)),
        (''replication_status'', opt_param (cf_replication_status f)), (''paper'', opt_param (cf_paper f)),
        (''canonical'', case cf_canonical f of None \<Rightarrow> PNone | Some b \<Rightarrow> PBool b),
        (''cursor'', cursor), (''limit'', opt_limit limit)])"

definition get_claim_call :: "string \<Rightarrow> api_call" where
  "get_claim_call claim_id = get_call (''/claims/'' @ claim_id) []"

definition depends_on_call :: "string \<Rightarrow> int \<Rightarrow> api_call" where
  "depends_on_call claim_id depth = get_call (''/claims/'' @ claim_id @ ''/depends-on'') [(''depth'', PInt depth)]"

definition dependents_call :: "string \<Rightarrow> int \<Rightarrow> api_call" where
  "dependents_call claim_id depth = get_call (''/claims/'' @ claim_id @ ''/dependents'') [(''depth'', PInt depth)]"

definition list_annotations_call ::
  "string option \<Rightarrow> string option \<Rightarrow> string option \<Rightarrow> string option \<Rightarrow> string option \<Rightarrow> int option \<Rightarrow> api_call" where
  "list_annotations_call target annotation_type created_by since cursor limit =
     get_call ''/annotations'' (drop_nulls
       [(''target'', opt_param target), (''annotation_type'', opt_param annotation_type),
        (''created_by'', opt_param created_by), (''since'', opt_param since),
        (''cursor'', opt_param cursor), (''limit'', opt_limit limit)])"

definition get_annotation_call :: "string \<Rightarrow> api_call" where
  "get_annotation_call annotation_id = get_call (''/annotations/'' @ annotation_id) []"

definition latest_snapshot_call :: api_call where
  "latest_snapshot_call = get_call ''/snapshots/latest'' []"

definition search_papers_call :: "string \<Rightarrow> string option \<Rightarrow> int option \<Rightarrow> api_call" where
  "search_papers_call q cursor limit =
     get_call ''/search/papers'' (drop_nulls [(''q'', PStr q), (''cursor'', opt_param cursor), (''limit'', opt_limit limit)])"

definition search_claims_call :: "string \<Rightarrow> string option \<Rightarrow> int option \<Rightarrow> api_call" where
  "search_claims_call q cursor limit =
     get_call ''/search/claims'' (drop_nulls [(''q'', PStr q), (''cursor'', opt_param cursor), (''limit'', opt_limit limit)])"

text \<open>
  \<open>create_annotation\<close>: the annotation as its model dumps it, which refuses an invalid one, and a
  key that is made once for all attempts.
\<close>

definition create_annotation_call :: "(pydict \<Rightarrow> pydict option) \<Rightarrow> string \<Rightarrow> string option \<Rightarrow> pydict \<Rightarrow> pyexn + api_call" where
  "create_annotation_call dump fresh_uuid idempotency_key annotation =
     (case dump annotation of
        None \<Rightarrow> Inl ValueError
      | Some body \<Rightarrow>
          Inr \<lparr>ac_verb = ''POST'', ac_path = ''/annotations'', ac_params = [], ac_body = Some body,
               ac_headers = [(''Idempotency-Key'',
                 if truthy_opt idempotency_key then the idempotency_key else ''rrxiv-py-'' @ fresh_uuid)]\<rparr>)"

section \<open>The client\<close>

record 'p api_client =
  cl_base_url :: string
  cl_headers :: "(string \<times> string) list"
  cl_signing_key :: "'p option"
  cl_retry_policy :: retry_policy

definition new_client :: "string \<Rightarrow> bearer option \<Rightarrow> 'p option \<Rightarrow> string \<Rightarrow> retry_policy option \<Rightarrow> 'p api_client" where
  "new_client base_url auth key user_agent policy =
     \<lparr>cl_base_url = rstrip_slash base_url,
      cl_headers = [(''User-Agent'', user_agent), (''Accept'', ''application/json'')] @ auth_header auth,
      cl_signing_key = key,
      cl_retry_policy = (case policy of Some p \<Rightarrow> p | None \<Rightarrow> default_retry_policy)\<rparr>"

text \<open>Reads are not signed.\<close>

definition signs_with :: "'p api_client \<Rightarrow> api_call \<Rightarrow> 'p option" where
  "signs_with cl c = (if ac_verb c = ''GET'' \<or> ac_verb c = ''HEAD'' then None else cl_signing_key cl)"

text \<open>The network: what the n-th request of a call gets, and the draws of the jitter.\<close>

record network =
  nw_respond :: "api_call \<Rightarrow> nat \<Rightarrow> response"
  nw_draw :: "api_call \<Rightarrow> nat \<Rightarrow> rat"
  nw_to_float :: "string \<Rightarrow> rat option"

definition call_json :: "'p api_client \<Rightarrow> network \<Rightarrow> api_call \<Rightarrow> outcome" where
  "call_json cl nw c = fst (json_call (cl_retry_policy cl) (nw_to_float nw) (nw_respond nw c) (nw_draw nw c))"

text \<open>\<open>Model.model_validate(data)\<close>.\<close>

definition model_validate :: "(pyval \<Rightarrow> bool) \<Rightarrow> outcome \<Rightarrow> outcome" where
  "model_validate valid out =
     (case out of Body v \<Rightarrow> if valid (case v of None \<Rightarrow> PNone | Some x \<Rightarrow> x) then out else outcome.Raised ValueError | _ \<Rightarrow> out)"

section \<open>Iterating over pages\<close>

text \<open>
  The items that the generator yields, and how it ends. The loop may not end when a server always
  names a next page; the fuel bounds the pages.
\<close>

datatype iteration_end = Exhausted | Stopped outcome | OutOfFuel

fun iter_pages :: "nat \<Rightarrow> (pyval \<Rightarrow> outcome) \<Rightarrow> pyval \<Rightarrow> pyval list \<times> iteration_end" where
  "iter_pages 0 list_page cursor = ([], OutOfFuel)"
| "iter_pages (Suc n) list_page cursor =
     (case list_page cursor of
        Body (Some (PDict page)) \<Rightarrow>
          (case py_iter (case dict_get page ''items'' of None \<Rightarrow> PList [] | Some v \<Rightarrow> v) of
             Inl e \<Rightarrow> ([], Stopped (outcome.Raised e))
           | Inr items \<Rightarrow>
               (let c = dget page ''next_cursor''
                in if \<not> truthy c then (items, Exhausted)
                   else (case iter_pages n list_page c of (others, e) \<Rightarrow> (items @ others, e))))
      | Body _ \<Rightarrow> ([], Stopped (outcome.Raised AttributeError))
      | out \<Rightarrow> ([], Stopped out))"

definition iter_papers ::
  "nat \<Rightarrow> 'p api_client \<Rightarrow> network \<Rightarrow> string option \<Rightarrow> string option \<Rightarrow> string option \<Rightarrow> pyval \<Rightarrow> int option \<Rightarrow>
   pyval list \<times> iteration_end" where
  "iter_papers fuel cl nw author topic since cursor limit =
     iter_pages fuel (\<lambda>c. call_json cl nw (list_papers_call author topic since c limit)) cursor"

definition iter_claims ::
  "nat \<Rightarrow> 'p api_client \<Rightarrow> network \<Rightarrow> claim_filters \<Rightarrow> pyval \<Rightarrow> int option \<Rightarrow> pyval list \<times> iteration_end" where
  "iter_claims fuel cl nw f cursor limit =
     iter_pages fuel (\<lambda>c. call_json cl nw (list_claims_call f c limit)) cursor"

section \<open>The routes that are called\<close>

text \<open>
  What the framework binds: the parameters a route declares, by name; others are dropped. A limit
  is a number from 1 to 200; the framework's account of one that is not is a parameter.
\<close>

record http_lib =
  hl_text :: "pyval \<Rightarrow> string"
  hl_int :: "string \<Rightarrow> int option"
  hl_errors :: "string \<Rightarrow> pyval"

definition query_of :: "http_lib \<Rightarrow> pydict \<Rightarrow> (string \<times> string) list" where
  "query_of hl params = map (\<lambda>(k, v). (k, hl_text hl v)) params"

definition bind_limit :: "http_lib \<Rightarrow> (string \<times> string) list \<Rightarrow> exn + int option" where
  "bind_limit hl q =
     (case dict_get q ''limit'' of
        None \<Rightarrow> Inr None
      | Some t \<Rightarrow>
          (case hl_int hl t of
             Some n \<Rightarrow> if 1 \<le> n \<and> n \<le> 200 then Inr (Some n) else Inl (validation_error ''request body or params failed validation'' [(''errors'', hl_errors hl t)])
           | None \<Rightarrow> Inl (validation_error ''request body or params failed validation'' [(''errors'', hl_errors hl t)])))"

definition page_json :: "pydict list \<times> string option \<Rightarrow> pydict" where
  "page_json = (\<lambda>(page, c). [(''items'', PList (map PDict page)), (''next_cursor'', opt_param c)])"

definition problem_response :: "exn \<Rightarrow> response" where
  "problem_response e =
     (case e of
        Problem p \<Rightarrow> json_response (pb_status p) ''application/problem+json'' (problem_body p None)
      | _ \<Rightarrow> json_response (exn_status e) ''text/plain'' [])"

definition page_response :: "exn + pydict list \<times> string option \<Rightarrow> response" where
  "page_response out =
     (case out of Inl e \<Rightarrow> problem_response e | Inr r \<Rightarrow> json_response 200 ''application/json'' (page_json r))"

definition claims_route :: "http_lib \<Rightarrow> store_state \<Rightarrow> (string \<times> string) list \<Rightarrow> response" where
  "claims_route hl s q =
     page_response (rbind (bind_limit hl q) (\<lambda>limit. list_claims_endpoint s (dict_get q ''cursor'') limit))"

definition annotations_route :: "http_lib \<Rightarrow> store_state \<Rightarrow> (string \<times> string) list \<Rightarrow> response" where
  "annotations_route hl s q =
     page_response (rbind (bind_limit hl q) (\<lambda>limit.
       list_annotations_endpoint s (dict_get q ''target_id'') (dict_get q ''target_type'') (dict_get q ''annotation_type'')
         (dict_get q ''created_by_identity_type'') (dict_get q ''cursor'') limit))"

section \<open>A call gets through\<close>

definition wait_at :: "retry_policy \<Rightarrow> (string \<Rightarrow> rat option) \<Rightarrow> (nat \<Rightarrow> response) \<Rightarrow> (nat \<Rightarrow> rat) \<Rightarrow> nat \<Rightarrow> rat" where
  "wait_at policy to_float respond draw n =
     compute_wait (n + 1) policy (parse_retry_after to_float (rs_retry_after (respond n))) (draw n)"

text \<open>The first \<open>n\<close> requests are refused for a while, within the budget, and the next one succeeds.\<close>

definition gets_through ::
  "retry_policy \<Rightarrow> (string \<Rightarrow> rat option) \<Rightarrow> (nat \<Rightarrow> response) \<Rightarrow> (nat \<Rightarrow> rat) \<Rightarrow> nat \<Rightarrow> bool" where
  "gets_through policy to_float respond draw n \<longleftrightarrow>
     is_success (respond n) \<and> int n \<le> max_retries policy \<and>
     (\<forall>i < n. \<not> is_success (respond i) \<and> is_retryable_status (rs_status (respond i)) policy \<and>
        sum_list (map (wait_at policy to_float respond draw) [0..<Suc i]) \<le> total_timeout_seconds policy)"

lemma loop_gets_through:
  assumes "gets_through policy to_float respond draw n" "k \<le> n"
    and "b = \<lparr>spent_seconds = sum_list (map (wait_at policy to_float respond draw) [0..<k]), attempts = k\<rparr>"
  shows "fst (request_loop policy to_float respond draw b) = body_of (respond n)"
  using assms(2,3)
proof (induction "n - k" arbitrary: k b)
  case 0
  with assms(1) have "attempts b = n" "is_success (respond n)" by (auto simp: gets_through_def)
  then show ?case by (subst request_loop.simps) (simp add: Let_def)
next
  case (Suc m)
  let ?w = "wait_at policy to_float respond draw k"
  have k: "k < n" using Suc.hyps(2) by simp
  then have refused: "\<not> is_success (respond k)" "is_retryable_status (rs_status (respond k)) policy"
    "sum_list (map (wait_at policy to_float respond draw) [0..<Suc k]) \<le> total_timeout_seconds policy" "int k < max_retries policy"
    using assms(1) by (auto simp: gets_through_def)
  then have again: "can_retry policy b ?w" by (simp add: can_retry_def Suc.prems(2))
  have "spend ?w b = \<lparr>spent_seconds = sum_list (map (wait_at policy to_float respond draw) [0..<Suc k]), attempts = Suc k\<rparr>"
    by (simp add: spend_def Suc.prems(2))
  from Suc.hyps(1) [OF _ _ this] Suc.hyps(2) k
  have "fst (request_loop policy to_float respond draw (spend ?w b)) = body_of (respond n)" by simp
  with refused(1,2) again Suc.prems(2) show ?case
    by (subst request_loop.simps) (simp add: Let_def wait_at_def case_prod_unfold)
qed

lemma call_gets_through:
  assumes "gets_through (cl_retry_policy cl) (nw_to_float nw) (nw_respond nw c) (nw_draw nw c) n"
  shows "call_json cl nw c = body_of (nw_respond nw c n)"
  unfolding call_json_def json_call_def
  by (rule loop_gets_through [OF assms, of 0]) (simp_all add: new_budget_def)

lemma dict_get_drop_nulls:
  "distinct (map fst d) \<Longrightarrow>
    dict_get (drop_nulls d) k = (case dict_get d k of Some v \<Rightarrow> if v = PNone then None else Some v | None \<Rightarrow> None)"
  by (induction d) (auto simp: drop_nulls_def map_of_eq_None_iff split: option.splits)

lemma dict_get_query: "dict_get (query_of hl d) k = map_option (hl_text hl) (dict_get d k)"
  by (induction d) (auto simp: query_of_def)

text \<open>
  The filters whose names the routes do not declare have no effect: all of those of claims, and of
  annotations the target, the author and the time. Only \<open>annotation_type\<close> filters.
\<close>

lemma claim_filters_ignored:
  "claims_route hl s (query_of hl (ac_params (list_claims_call f cursor limit))) =
   claims_route hl s (query_of hl (ac_params (list_claims_call f' cursor limit)))"
  by (simp add: claims_route_def bind_limit_def dict_get_query list_claims_call_def get_call_def dict_get_drop_nulls)

lemma annotation_filters_ignored:
  "annotations_route hl s (query_of hl (ac_params (list_annotations_call target kind created_by since cursor limit))) =
   annotations_route hl s (query_of hl (ac_params (list_annotations_call None kind None None cursor limit)))"
  by (simp add: annotations_route_def bind_limit_def dict_get_query list_annotations_call_def get_call_def dict_get_drop_nulls)

section \<open>Every claim, once\<close>

lemma body_of_page: "body_of (page_response (Inr r)) = Body (Some (PDict (page_json r)))"
  by (simp add: body_of_def page_response_def json_response_def startswith_def)

lemma opt_param_simps: "opt_param None = PNone" "opt_param (Some t) = PStr t"
  by (simp_all add: opt_param_def)

lemma page_json_fields:
  "dict_get (page_json (xs, c)) ''items'' = Some (PList (map PDict xs))"
  "dget (page_json (xs, c)) ''next_cursor'' = opt_param c"
  by (simp_all add: page_json_def dget_def)

lemma iter_follows_cursors:
  assumes "\<And>x. x \<in> set items \<Longrightarrow> shaped sh (key x)" "distinct (map key items)" "clamp_limit limit = Inr sz"
    and "L = sort_by (before key desc) items"
    and answers: "\<And>cursor r. paginate items cursor limit key desc = Inr r \<Longrightarrow> list_page (opt_param cursor) = Body (Some (PDict (page_json r)))"
    and "n = 0 \<and> cursor = None \<or>
      (\<exists>m. n = Suc m \<and> m < length L \<and> cursor = Some (encode_cursor [(''k'', PList (key (L ! m)))]))"
    and "length L - n < fuel"
  shows "iter_pages fuel list_page (opt_param cursor) = (map PDict (drop n L), Exhausted)"
  using assms(6,7)
proof (induction fuel arbitrary: n cursor)
  case 0
  then show ?case by simp
next
  case (Suc fuel)
  have sz: "0 < nat sz" using clamp_limit_bounds [OF assms(3)] by simp
  let ?next = "if n + nat sz < length L then Some (encode_cursor [(''k'', PList (key (L ! (n + nat sz - 1))))]) else None"
  have page: "list_page (opt_param cursor) = Body (Some (PDict (page_json (take (nat sz) (drop n L), ?next))))"
    by (rule answers [OF paginate_at [OF assms(1-4) Suc.prems(1)]])
  show ?case
  proof (cases "n + nat sz < length L")
    case False
    then show ?thesis by (simp add: page page_json_fields py_iter_def opt_param_simps)
  next
    case True
    let ?c = "encode_cursor [(''k'', PList (key (L ! (n + nat sz - 1))))]"
    have more: "iter_pages fuel list_page (opt_param (Some ?c)) = (map PDict (drop (n + nat sz) L), Exhausted)"
    proof (rule Suc.IH)
      show "n + nat sz = 0 \<and> Some ?c = None \<or>
        (\<exists>m. n + nat sz = Suc m \<and> m < length L \<and> Some ?c = Some (encode_cursor [(''k'', PList (key (L ! m)))]))"
        using True sz by (intro disjI2 exI [where x = "n + nat sz - 1"]) simp
      show "length L - (n + nat sz) < fuel" using Suc.prems(2) True sz by simp
    qed
    have "take (nat sz) (drop n L) @ drop (n + nat sz) L = drop n L"
      by (metis append_take_drop_id drop_drop add.commute)
    then have "map PDict (take (nat sz) (drop n L)) @ map PDict (drop (n + nat sz) L) = map PDict (drop n L)"
      by (metis map_append)
    with more True show ?thesis by (simp add: page page_json_fields py_iter_def opt_param_simps)
  qed
qed

definition http_laws :: "http_lib \<Rightarrow> bool" where
  "http_laws hl \<longleftrightarrow> (\<forall>t. hl_text hl (PStr t) = t) \<and> (\<forall>n \<ge> 0. hl_int hl (hl_text hl (PInt n)) = Some n)"

definition claim_order :: "pydict \<Rightarrow> pyval list" where
  "claim_order c = [py_or (dget c ''paper_id'') (PStr []), py_or (dget c ''id'') (PStr [])]"

lemma claims_route_answers:
  assumes "http_laws hl" "rmap (\<lambda>c. apply_derived_status c s) (list_claims s) = Inr items"
    and "\<forall>n. limit = Some n \<longrightarrow> 1 \<le> n \<and> n \<le> 200"
    and "paginate items cursor limit claim_order True = Inr r"
  shows "claims_route hl s (query_of hl (ac_params (list_claims_call f (opt_param cursor) limit))) = page_response (Inr r)"
proof -
  let ?p = "ac_params (list_claims_call f (opt_param cursor) limit)"
  have "dict_get ?p ''cursor'' = map_option PStr cursor" "dict_get ?p ''limit'' = map_option PInt limit"
    by (simp_all add: list_claims_call_def get_call_def dict_get_drop_nulls opt_param_def opt_limit_def split: option.splits)
  then have "dict_get (query_of hl ?p) ''cursor'' = cursor"
    "dict_get (query_of hl ?p) ''limit'' = map_option (\<lambda>n. hl_text hl (PInt n)) limit"
    using assms(1) by (auto simp: dict_get_query http_laws_def option.map_comp comp_def option.map_ident)
  moreover have "bind_limit hl (query_of hl ?p) = Inr limit"
    using calculation(2) assms(1,3) by (cases limit) (auto simp: bind_limit_def http_laws_def)
  ultimately show ?thesis
    using assms(4) by (simp add: claims_route_def list_claims_endpoint_def assms(2) claim_order_def [abs_def] raising_def)
qed

text \<open>
  C19: iterating over the claims ends and yields every claim of the corpus with its derived status
  exactly once, in descending order of paper and claim, also when requests are refused for a while
  and repeated. The filters change nothing: the route declares none of them.
\<close>

theorem iterated_claims_complete:
  assumes "http_laws hl" "rmap (\<lambda>c. apply_derived_status c s) (list_claims s) = Inr items"
    and "\<forall>c \<in> set items. \<exists>p i. dget c ''paper_id'' = PStr p \<and> dget c ''id'' = PStr i" "distinct (map claim_order items)"
    and "\<forall>n. limit = Some n \<longrightarrow> 1 \<le> n \<and> n \<le> 200"
    and "\<forall>c. ac_path c = ''/claims'' \<and> is_success (claims_route hl s (query_of hl (ac_params c))) \<longrightarrow>
      (\<exists>n. gets_through (cl_retry_policy cl) (nw_to_float nw) (nw_respond nw c) (nw_draw nw c) n \<and>
           nw_respond nw c n = claims_route hl s (query_of hl (ac_params c)))"
  shows "\<exists>ys. iter_claims (Suc (length items)) cl nw f PNone limit = (map PDict ys, Exhausted) \<and>
    mset ys = mset items \<and> sorted_wrt (before claim_order True) ys"
proof -
  have sh: "shaped [True, True] (claim_order x)" if "x \<in> set items" for x
    using assms(3) that by (force simp: claim_order_def py_or_def)
  obtain sz where sz: "clamp_limit limit = Inr sz"
    using assms(5) by (cases limit) (auto simp: clamp_limit_def max_limit_def)
  let ?L = "sort_by (before claim_order True) items"
  have "iter_pages (Suc (length items)) (\<lambda>c. call_json cl nw (list_claims_call f c limit)) (opt_param None) = (map PDict (drop 0 ?L), Exhausted)"
  proof (rule iter_follows_cursors [OF sh assms(4) sz refl])
    fix cursor r assume r: "paginate items cursor limit claim_order True = Inr r"
    let ?c = "list_claims_call f (opt_param cursor) limit"
    note route = claims_route_answers [OF assms(1,2,5) r]
    have "ac_path ?c = ''/claims''" by (simp add: list_claims_call_def get_call_def)
    moreover have "is_success (claims_route hl s (query_of hl (ac_params ?c)))"
      unfolding route by (simp add: page_response_def json_response_def is_success_def)
    ultimately obtain n where n: "gets_through (cl_retry_policy cl) (nw_to_float nw) (nw_respond nw ?c) (nw_draw nw ?c) n"
      "nw_respond nw ?c n = claims_route hl s (query_of hl (ac_params ?c))" using assms(6) by blast
    show "call_json cl nw ?c = Body (Some (PDict (page_json r)))"
      unfolding call_gets_through [OF n(1)] n(2) route by (rule body_of_page)
  qed simp_all
  then show ?thesis using sort_strict [OF sh assms(4), of True] by (auto simp: iter_claims_def opt_param_simps)
qed

definition plain_http :: http_lib where
  "plain_http = \<lparr>hl_text = py_str, hl_int = int_of_str, hl_errors = \<lambda>_. PList []\<rparr>"

definition two_claims :: store_state where
  "two_claims = empty_store\<lparr>st_claims :=
     [(''p:c1'', [(''id'', PStr ''p:c1''), (''paper_id'', PStr ''p'')]),
      (''p:c2'', [(''id'', PStr ''p:c2''), (''paper_id'', PStr ''p'')])]\<rparr>"

text \<open>A network on which the first request of each call is refused.\<close>

definition busy_network :: "(api_call \<Rightarrow> response) \<Rightarrow> network" where
  "busy_network route =
     \<lparr>nw_respond = \<lambda>c n. if n = 0 then \<lparr>rs_status = 429, rs_content_type = [], rs_json = None, rs_reason = [], rs_retry_after = None\<rparr>
        else route c,
      nw_draw = \<lambda>_ _. 1, nw_to_float = \<lambda>_. None\<rparr>"

definition plain_client :: "unit api_client" where
  "plain_client = new_client ''https://rrxiv.com/api/v0/'' None None ''test'' None"

definition no_filters :: claim_filters where
  "no_filters = \<lparr>cf_claim_type = None, cf_evidence_type = None, cf_replication_status = Some ''replicated'', cf_paper = None, cf_canonical = None\<rparr>"

lemma busy_gets_through:
  "is_success (route c) \<Longrightarrow>
    gets_through (cl_retry_policy plain_client) (nw_to_float (busy_network route)) (nw_respond (busy_network route) c)
      (nw_draw (busy_network route) c) 1"
  by (simp add: gets_through_def plain_client_def new_client_def busy_network_def default_retry_policy_def is_success_def
      is_retryable_status_def wait_at_def compute_wait_def parse_retry_after_def)

lemma iterated_claims_complete_witness:
  "\<exists>ys. iter_claims 3 plain_client (busy_network (\<lambda>c. claims_route plain_http two_claims (query_of plain_http (ac_params c))))
      no_filters PNone (Some 1) = (map PDict ys, Exhausted) \<and> length ys = 2"
proof -
  let ?route = "\<lambda>c. claims_route plain_http two_claims (query_of plain_http (ac_params c))"
  obtain items where items: "rmap (\<lambda>c. apply_derived_status c two_claims) (list_claims two_claims) = Inr items"
    and facts: "length items = 2 \<and> list_all (\<lambda>c. is_str (dget c ''paper_id'') \<and> is_str (dget c ''id'')) items \<and> distinct (map claim_order items)"
  proof -
    have "case rmap (\<lambda>c. apply_derived_status c two_claims) (list_claims two_claims) of Inl _ \<Rightarrow> False
      | Inr items \<Rightarrow> length items = 2 \<and> list_all (\<lambda>c. is_str (dget c ''paper_id'') \<and> is_str (dget c ''id'')) items \<and> distinct (map claim_order items)"
      by code_simp
    with that show thesis by (auto split: sum.splits)
  qed
  have http: "http_laws plain_http"
    by (auto simp: http_laws_def plain_http_def py_str_def str_of_int_def int_of_nat_text)
  have ids: "\<forall>c \<in> set items. \<exists>p i. dget c ''paper_id'' = PStr p \<and> dget c ''id'' = PStr i"
    using facts by (auto simp: list_all_iff is_str_iff)
  have "\<forall>c. ac_path c = ''/claims'' \<and> is_success (?route c) \<longrightarrow>
      (\<exists>n. gets_through (cl_retry_policy plain_client) (nw_to_float (busy_network ?route)) (nw_respond (busy_network ?route) c)
         (nw_draw (busy_network ?route) c) n \<and> nw_respond (busy_network ?route) c n = ?route c)"
    by (intro allI impI exI [of _ 1] conjI busy_gets_through) (simp_all add: busy_network_def)
  from iterated_claims_complete [OF http items ids _ _ this, of "Some 1"] facts
  obtain ys where "iter_claims (Suc (length items)) plain_client (busy_network ?route) no_filters PNone (Some 1) = (map PDict ys, Exhausted)"
    "mset ys = mset items" by auto
  then show ?thesis using facts mset_eq_length [of ys items] by (intro exI [of _ ys]) (simp add: numeral_3_eq_3 numeral_2_eq_2)
qed

end
