(* ===== verification/Client_Repeat.thy ===== *)
theory Client_Repeat
  imports Client_Api
begin

text \<open>
  A write that the client repeats: \<open>create_annotation\<close> of the clients against the endpoint, over a
  network that loses requests and answers. The idempotency key is made once for a call, so all its
  attempts carry it. The model of an annotation and the digest of a body are parameters.
\<close>

section \<open>Attempts\<close>

text \<open>
  What becomes of an attempt: the endpoint handles it, with its draw of an id and its time, and the
  answer arrives; it handles it and something on the way answers in its place; or it is not reached.
\<close>

datatype delivery = Answered string int | AnswerLost response string int | NotDelivered response

definition created_response :: "exn + pydict \<Rightarrow> response" where
  "created_response out =
     (case out of Inl e \<Rightarrow> problem_response e | Inr b \<Rightarrow> json_response 201 ''application/json'' b)"

definition post_annotation ::
  "validator \<Rightarrow> authed_request \<Rightarrow> (pydict \<Rightarrow> string) \<Rightarrow> api_call \<Rightarrow> string \<Rightarrow> int \<Rightarrow> store_state \<Rightarrow> (exn + pydict) \<times> store_state" where
  "post_annotation validate auth digest c fresh_hex now s =
     (let body = (case ac_body c of None \<Rightarrow> [] | Some b \<Rightarrow> b)
      in create_annotation validate auth body (dict_get (ac_headers c) ''Idempotency-Key'') (digest body) fresh_hex now s)"

fun deliver ::
  "(string \<Rightarrow> int \<Rightarrow> store_state \<Rightarrow> (exn + pydict) \<times> store_state) \<Rightarrow> delivery \<Rightarrow> store_state \<Rightarrow> response \<times> store_state" where
  "deliver post (Answered fresh now) s = (case post fresh now s of (out, s') \<Rightarrow> (created_response out, s'))"
| "deliver post (AnswerLost r fresh now) s = (r, snd (post fresh now s))"
| "deliver post (NotDelivered r) s = (r, s)"

fun store_after ::
  "(string \<Rightarrow> int \<Rightarrow> store_state \<Rightarrow> (exn + pydict) \<times> store_state) \<Rightarrow> (nat \<Rightarrow> delivery) \<Rightarrow> nat \<Rightarrow> store_state \<Rightarrow> store_state" where
  "store_after post d 0 s = s"
| "store_after post d (Suc n) s = snd (deliver post (d n) (store_after post d n s))"

definition answer_at ::
  "(string \<Rightarrow> int \<Rightarrow> store_state \<Rightarrow> (exn + pydict) \<times> store_state) \<Rightarrow> (nat \<Rightarrow> delivery) \<Rightarrow> store_state \<Rightarrow> nat \<Rightarrow> response" where
  "answer_at post d s n = fst (deliver post (d n) (store_after post d n s))"

text \<open>The whole call: how it ends for the caller, and the store it leaves.\<close>

definition create_over_network ::
  "'p api_client \<Rightarrow> (string \<Rightarrow> rat option) \<Rightarrow> (nat \<Rightarrow> rat) \<Rightarrow>
   (string \<Rightarrow> int \<Rightarrow> store_state \<Rightarrow> (exn + pydict) \<times> store_state) \<Rightarrow> (nat \<Rightarrow> delivery) \<Rightarrow> store_state \<Rightarrow> outcome \<times> store_state" where
  "create_over_network cl to_float draw post d s =
     (case json_call (cl_retry_policy cl) to_float (answer_at post d s) draw of
        (out, waits) \<Rightarrow> (out, store_after post d (Suc (length waits)) s))"

section \<open>Stored once\<close>

lemma problem_statuses:
  "exn_status (forbidden d) = 403" "exn_status (conflict d) = 409" "exn_status (bad_request d x) = 400"
  "exn_status (validation_error d x) = 422" "exn_status (not_found d) = 404" "exn_status (Raised r) = 500"
  "exn_status (reply_error k m) = 400"
  by (simp_all add: forbidden_def conflict_def bad_request_def validation_error_def not_found_def problem_error_def
      reply_error_def exn_status_def)

lemma target_status: "check_target s b = Some e \<Longrightarrow> 400 \<le> exn_status e"
  by (auto simp: check_target_def Let_def problem_statuses split: if_splits pyval.splits)

lemma reply_status: "validate_in_reply_to s b = Some e \<Longrightarrow> 400 \<le> exn_status e"
  by (auto simp: validate_in_reply_to_def artefact_mismatch_def claim_mismatch_def problem_statuses Let_def
      split: if_splits sum.splits option.splits)

lemma create_refused:
  assumes "create_annotation validate auth body k h fresh now s = (Inl e, s')"
  shows "s' = s \<and> 400 \<le> exn_status e"
proof (cases "is_anonymous (au_identity auth)")
  case True
  with assms show ?thesis by (auto simp: create_annotation_def problem_statuses)
next
  case False
  define existing where "existing =
    (case (case k of Some k \<Rightarrow> if k = [] then None else Some k | None \<Rightarrow> None) of
       None \<Rightarrow> None | Some k \<Rightarrow> get_idempotency s (au_token auth) k)"
  let ?b = "with_id fresh body"
  note run = assms [unfolded create_annotation_def Let_def, folded existing_def]
  show ?thesis
  proof (cases existing)
    case (Some x)
    with run False show ?thesis by (auto simp: problem_statuses split: if_split_asm)
  next
    case None
    consider "\<not> dict_has ?b ''created_by''" | x where "dict_has ?b ''created_by''" "validate ?b = Some x"
      | x where "dict_has ?b ''created_by''" "validate ?b = None" "check_target s ?b = Some x"
      | x where "dict_has ?b ''created_by''" "validate ?b = None" "check_target s ?b = None" "validate_in_reply_to s ?b = Some x"
      | x where "dict_has ?b ''created_by''" "validate ?b = None" "check_target s ?b = None" "validate_in_reply_to s ?b = None"
          "add_annotation ?b s = Inl x"
      | x where "dict_has ?b ''created_by''" "validate ?b = None" "check_target s ?b = None" "validate_in_reply_to s ?b = None"
          "add_annotation ?b s = Inr x"
      by (cases "validate ?b"; cases "check_target s ?b"; cases "validate_in_reply_to s ?b"; cases "add_annotation ?b s") auto
    then show ?thesis
      using run False None target_status reply_status by cases (auto simp: problem_statuses)
  qed
qed

definition made_once :: "(string \<Rightarrow> int \<Rightarrow> store_state \<Rightarrow> (exn + pydict) \<times> store_state) \<Rightarrow> store_state \<Rightarrow> pydict \<Rightarrow> store_state \<Rightarrow> bool" where
  "made_once post s b s' \<longleftrightarrow> (\<exists>fresh now. post fresh now s = (Inr b, s'))"

text \<open>A handler that is idempotent in its state: what it refuses changes nothing, what it made it repeats.\<close>

lemma post_refused: "post_annotation validate auth digest c f t s = (Inl e, s') \<Longrightarrow> s' = s \<and> 400 \<le> exn_status e"
  unfolding post_annotation_def Let_def by (rule create_refused)

lemma post_again:
  assumes "dict_get (ac_headers c) ''Idempotency-Key'' = Some k" "k \<noteq> []"
    and "made_once (post_annotation validate auth digest c) s b s'"
  shows "post_annotation validate auth digest c f t s' = (Inr b, s')"
proof -
  from assms(3) obtain fresh now where "post_annotation validate auth digest c fresh now s = (Inr b, s')"
    unfolding made_once_def by blast
  then show ?thesis
    unfolding post_annotation_def Let_def assms(1) using idempotency_replay [OF _ assms(2)] by blast
qed

lemma store_after_made_once:
  assumes refuse: "\<And>f t s e s'. post f t s = (Inl e, s') \<Longrightarrow> s' = s"
    and again: "\<And>f t b s'. made_once post s b s' \<Longrightarrow> post f t s' = (Inr b, s')"
  shows "store_after post d n s = s \<or> (\<exists>b. made_once post s b (store_after post d n s))"
proof (induction n)
  case (Suc n)
  let ?s = "store_after post d n s"
  have handled: "snd (post f t ?s) = s \<or> (\<exists>b. made_once post s b (snd (post f t ?s)))" for f t
  proof (cases "?s = s")
    case True
    then show ?thesis
      using refuse [of f t s] by (cases "post f t s"; cases "fst (post f t s)") (auto simp: made_once_def)
  next
    case False
    with Suc.IH again [of _ ?s f t] show ?thesis by auto
  qed
  show ?case
  proof (cases "d n")
    case (Answered f t)
    with handled [of f t] show ?thesis by (simp add: case_prod_unfold)
  next
    case (AnswerLost r f t)
    with handled [of f t] show ?thesis by simp
  next
    case (NotDelivered r)
    with Suc.IH show ?thesis by simp
  qed
qed simp

lemma failure_is_no_body: "\<not> is_success rs \<Longrightarrow> failure_of rs \<noteq> Body v"
  by (auto simp: failure_of_def raise_for_status_def is_success_def rbind_def Let_def split: sum.splits option.splits)

text \<open>With a key that was not used before, what was made is stored under its id, and nothing else changes.\<close>

lemma made_is_stored:
  assumes "dict_get (ac_headers c) ''Idempotency-Key'' = Some k" "k \<noteq> []" "get_idempotency s (au_token auth) k = None"
    and "made_once (post_annotation validate auth digest c) s b s'"
  shows "\<exists>i. dget b ''id'' = PStr i \<and> st_annotations s' = dict_set i b (st_annotations s) \<and>
    st_papers s' = st_papers s \<and> st_claims s' = st_claims s"
proof -
  from assms(4) obtain body fresh now where "create_annotation validate auth body (Some k) (digest body) fresh now s = (Inr b, s')"
    unfolding made_once_def post_annotation_def Let_def assms(1) by blast
  with assms(2,3) obtain s1 where "add_annotation b s = Inr s1" "s' = s1 \<or> (\<exists>e. s' = add_idempotency (au_token auth) k e s1)"
    by (auto simp: create_annotation_def Let_def split: if_split_asm option.split_asm sum.split_asm)
  then show ?thesis using add_annotation_stores [of b s s1] by (auto simp: add_idempotency_def)
qed

lemma refused_is_no_success: "400 \<le> exn_status e \<Longrightarrow> \<not> is_success (created_response (Inl e))"
  by (auto simp: created_response_def problem_response_def json_response_def is_success_def exn_status_def split: exn.splits)

lemma created_is_success: "is_success (created_response (Inr b))" "body_of (created_response (Inr b)) = Body (Some (PDict b))"
  by (simp_all add: created_response_def json_response_def is_success_def body_of_def startswith_def)

definition losses :: "(nat \<Rightarrow> delivery) \<Rightarrow> bool" where
  "losses d \<longleftrightarrow> (\<forall>n r. (d n = NotDelivered r \<or> (\<exists>f t. d n = AnswerLost r f t)) \<longrightarrow> \<not> is_success r)"

text \<open>
  C20: however often the client repeats a create, and whichever of its requests and answers are lost,
  the store in the end is the one before the call or the one after exactly one handling of it; and
  when the call returns an annotation, it is the one that was stored.
\<close>

theorem repeated_create_stores_once:
  assumes "create_annotation_call dump fresh_uuid key annotation = Inr c" "losses d"
    and "create_over_network cl to_float draw (post_annotation validate auth digest c) d s = (out, s')"
  shows "(s' = s \<or> (\<exists>b. made_once (post_annotation validate auth digest c) s b s')) \<and>
    (\<forall>v. out = Body v \<longrightarrow> (\<exists>b. made_once (post_annotation validate auth digest c) s b s' \<and> v = Some (PDict b))) \<and>
    (get_idempotency s (au_token auth) (the (dict_get (ac_headers c) ''Idempotency-Key'')) = None \<longrightarrow>
       st_annotations s' = st_annotations s \<or>
       (\<exists>i b. dget b ''id'' = PStr i \<and> st_annotations s' = dict_set i b (st_annotations s)))"
proof -
  let ?post = "post_annotation validate auth digest c"
  obtain k where k: "dict_get (ac_headers c) ''Idempotency-Key'' = Some k" "k \<noteq> []"
    using assms(1) by (auto simp: create_annotation_call_def truthy_opt_def split: option.splits if_splits)
  have again: "?post f t s1 = (Inr b, s1)" if "made_once ?post s b s1" for f t b s1
    by (rule post_again [OF k that])
  have once: "store_after ?post d n s = s \<or> (\<exists>b. made_once ?post s b (store_after ?post d n s))" for n
    by (rule store_after_made_once) (simp_all add: post_refused again)
  obtain waits where call: "json_call (cl_retry_policy cl) to_float (answer_at ?post d s) draw = (out, waits)"
    and s': "s' = store_after ?post d (Suc (length waits)) s"
    using assms(3) by (auto simp: create_over_network_def split: prod.splits)
  let ?n = "length waits"
  let ?r = "answer_at ?post d s ?n"
  have out: "out = (if is_success ?r then body_of ?r else failure_of ?r)"
    using loop_last [OF call [unfolded json_call_def]] by (simp add: new_budget_def)
  have "\<exists>b. made_once ?post s b s' \<and> v = Some (PDict b)" if "out = Body v" for v
  proof -
    have ok: "is_success ?r" using that out failure_is_no_body by metis
    then obtain f t where d: "d ?n = Answered f t"
      using assms(2) by (cases "d ?n") (auto simp: losses_def answer_at_def)
    let ?s = "store_after ?post d ?n s"
    obtain b where b: "?post f t ?s = (Inr b, s')"
      using ok refused_is_no_success post_refused [of validate auth digest c f t ?s]
      by (cases "?post f t ?s"; cases "fst (?post f t ?s)") (auto simp: answer_at_def d s')
    have v: "v = Some (PDict b)"
      using that out ok b by (simp add: answer_at_def d created_is_success)
    from once [of ?n] consider "?s = s" | b' where "made_once ?post s b' ?s" by blast
    then have "made_once ?post s b s'"
    proof cases
      case 1
      with b show ?thesis by (auto simp: made_once_def)
    next
      case 2
      from again [OF this, of f t] b have "b' = b" "s' = ?s" by auto
      with 2 show ?thesis by simp
    qed
    with v show ?thesis by blast
  qed
  moreover have "s' = s \<or> (\<exists>b. made_once ?post s b s')" using once [of "Suc ?n"] s' by simp
  moreover have "st_annotations s' = st_annotations s \<or> (\<exists>i b. dget b ''id'' = PStr i \<and> st_annotations s' = dict_set i b (st_annotations s))"
    if "get_idempotency s (au_token auth) k = None"
    using calculation(2) made_is_stored [OF k that] by blast
  ultimately show ?thesis using k(1) by simp
qed

text \<open>The second of three answers is lost: the third request gets what the second one stored.\<close>

definition lossy :: "nat \<Rightarrow> delivery" where
  "lossy n =
     (let busy = \<lparr>rs_status = 429, rs_content_type = [], rs_json = None, rs_reason = [], rs_retry_after = None\<rparr>
      in if n = 0 then NotDelivered busy else if n = 1 then AnswerLost busy ''a'' 0 else Answered ''b'' 1)"

definition comment_call :: api_call where
  "comment_call = \<lparr>ac_verb = ''POST'', ac_path = ''/annotations'', ac_params = [], ac_body = Some example_comment,
     ac_headers = [(''Idempotency-Key'', ''rrxiv-py-1'')]\<rparr>"

definition comment_over_network :: "outcome \<times> store_state" where
  "comment_over_network = create_over_network plain_client (\<lambda>_. None) (\<lambda>_. 1)
     (post_annotation (\<lambda>_. None) example_auth (\<lambda>_. ''h'') comment_call) lossy example_paper_store"

lemma repeated_create_stores_once_witness:
  "fst comment_over_network = Body (Some (PDict (example_comment @ [(''id'', PStr ''ann-a'')]))) \<and>
   (\<exists>b. made_once (post_annotation (\<lambda>_. None) example_auth (\<lambda>_. ''h'') comment_call) example_paper_store b (snd comment_over_network))"
proof -
  have call: "create_annotation_call Some ''1'' None example_comment = Inr comment_call"
    by (simp add: create_annotation_call_def truthy_opt_def comment_call_def)
  have "losses lossy" by (auto simp: losses_def lossy_def is_success_def Let_def)
  moreover have "fst comment_over_network = Body (Some (PDict (example_comment @ [(''id'', PStr ''ann-a'')])))"
    by code_simp
  moreover have "create_over_network plain_client (\<lambda>_. None) (\<lambda>_. 1)
     (post_annotation (\<lambda>_. None) example_auth (\<lambda>_. ''h'') comment_call) lossy example_paper_store =
     (fst comment_over_network, snd comment_over_network)"
    by (simp add: comment_over_network_def)
  ultimately show ?thesis
    using repeated_create_stores_once [OF call, THEN conjunct2, THEN conjunct1] by blast
qed

end
