(* ===== verification/Spec2Isabelle.thy ===== *)
theory Spec2Isabelle
  imports Store_Refinement Projection Claims_Router Signature_Middleware Annotations Graph_Cycles Lineage
    Cir_Diff Revision_Diff Submissions Authors Model_Registry Pulse Snapshots Server_Safety
    Cir_Build Client_Retry Client_Signing Seed_Store Cli_Sessions Annotation_Payloads
    Snapshot_Files Cli_Effects Client_Repeat
begin

text \<open>
  Verification of the rrxiv reference implementation (the Python package under
  \<open>src/src/rrxiv\<close>): a server that keeps papers, their claims and the annotations on
  them, derives the replication status of claims, and authenticates people and agents; the
  parser that makes the structure of a paper from its LaTeX sources; the client with its retries,
  signatures and pages; the command line with its credentials; snapshots on disk; and the
  library's graph and diff of claims.

  The parts and how they interact. The routers under \<open>server/\<close> are functions of a
  store and of the typed parameters of a request; the limits the models of bodies and queries set
  beyond their types (the form of a handle, the length of a label, the bounds of a search) are part of
  the functions, and what they refuse is answered with 422. A store is either the in-memory or the
  SQLite one, behind the protocol of \<open>server/store/protocol.py\<close>. A write passes the
  signature middleware, then the authentication dependency, which counts it against the rate
  limit, then the router. Reads derive the status of a claim from the annotations
  (\<open>claims/replication.py\<close>), project papers to list items
  (\<open>papers/projection.py\<close>), filter them and serve them in pages
  (\<open>pagination.py\<close>). What is submitted is a structure that \<open>build_cir\<close> of the parser made
  from the sources, the bibliography, the sidecar the LaTeX class wrote and the metadata file.
  The command line keeps the tokens and keys of its identities in a file or a keyring, reads them
  for each command, builds a request and sends it with a token and, for an agent, a signature; the
  properties that span it take what a command sends to the handler that answers it.

  Conventions. A Python value is a \<open>pyval\<close>, a dictionary an association list in
  insertion order. Code that may raise returns a sum: on the left an exception of the
  interpreter (\<open>pyexn\<close>) or of a handler (\<open>exn\<close>: a problem document, an HTTP
  exception or an interpreter's), on the right the value. A handler that writes takes and
  returns the state. Strings are lists of characters whose codes are the code points 0 to
  255, numbers are integers. The clock, random bytes, digests, Ed25519, replies of foreign
  services, the schema validation, ISO timestamps, rounding, the file system, archives and
  media types are parameters, and so are the keyring of the system, \<open>json.loads\<close> on texts with
  fractions, the sockets of a login, what the HTTP libraries make of a query, and the nodes the LaTeX parser of pylatexenc makes of a
  source and the headers the library for HTTP signatures makes of covered components;
  what a property assumes of them is one of its hypotheses and has a witness.

  The theories and the code.
  \<^item> \<open>Py_Prelude\<close>, \<open>Py_Order\<close>, \<open>Py_Filter\<close>: truth, equality, order, sorting,
    printing and iteration of Python values, strings, comprehensions that may raise.
  \<^item> \<open>Codecs\<close>: the JSON and base64 the program uses, with round trips.
  \<^item> \<open>Store_Contracts\<close>: the interfaces a client relies on, as locales (token table,
    single-use codes, signing keys, request windows). \<open>Store\<close> (\<open>store/protocol.py\<close>,
    \<open>store/memory.py\<close>): the record \<open>store_state\<close> has a field for each dictionary
    of \<open>StoreState\<close>, and every method is a function; it interprets the locales.
    \<open>Sqlite_Store\<close> (\<open>store/sqlite.py\<close>): tables, statements and the JSON columns;
    it interprets them again. \<open>Store_Protocol\<close> makes each method of the protocol a
    command, \<open>Store_Refinement\<close> proves the simulation of the two stores.
  \<^item> \<open>Ids_Slug\<close> (\<open>ids.py\<close>, \<open>papers/slug.py\<close>, \<open>papers/claim_ids.py\<close>),
    \<open>Server_Errors\<close> (\<open>errors.py\<close>), \<open>Pagination\<close>, \<open>Settings\<close>.
  \<^item> \<open>Replication\<close>, \<open>Projection\<close>, \<open>Claims_Router\<close> (\<open>claims/\<close>,
    \<open>papers/projection.py\<close>): derived statuses, statistics, the claims endpoints.
  \<^item> \<open>Scopes\<close>, \<open>Search\<close>, \<open>Papers_Router\<close>: discovery scopes, the search
    endpoints and the papers endpoints, which share the filters of \<open>Search\<close>.
  \<^item> \<open>Cir_Model\<close>, \<open>Cir_Diff\<close> (\<open>diff.py\<close>), \<open>Revision_Diff\<close> and
    \<open>Lineage\<close> (\<open>papers/diff.py\<close>): the diff of two structures, the diff of two
    versions with its matching of claims and word hunks, and the chains of
    \<open>previous_version\<close> pointers.
  \<^item> \<open>Submissions\<close> (\<open>submissions/router.py\<close>): submitting, and the downloads.
  \<^item> \<open>Authors\<close> (\<open>authors/router.py\<close>), \<open>Model_Registry\<close> (\<open>models/router.py\<close>),
    \<open>Pulse\<close> (\<open>stats/\<close>): author profiles, the counts of the declared models, the
    statistics of the community with their cache.
  \<^item> \<open>Snapshots\<close> (\<open>snapshots/router.py\<close>, \<open>discovery/router.py\<close>): the corpus
    download, the featured papers and the topics.
  \<^item> \<open>Server\<close> (\<open>server/app.py\<close>): every call a client can make as a datatype, the
    middleware and the dependency that admit it, the step relation \<open>server_step\<close> of the
    running server with the operator's seeding as steps of its own, its reachable states, and
    what each handler and a seeding keep.
    \<open>Server_Safety\<close>: the properties of every run of the server.
  \<^item> \<open>Annotations\<close> (\<open>annotations/\<close>): threads, the read endpoints, single and bulk
    creation with idempotency keys.
  \<^item> \<open>Auth_Deps\<close> (\<open>deps.py\<close>), \<open>Auth_Router\<close> (\<open>auth/router.py\<close>),
    \<open>Signature_Middleware\<close> (\<open>client/signatures.py\<close>, \<open>auth/signature_middleware.py\<close>):
    bearer tokens, rate limits, the login flows, key binding and rotation, signed writes.
  \<^item> \<open>Claim_Graph\<close>, \<open>Graph_Cycles\<close> (\<open>graph.py\<close>): the graph of claims, reachability,
    exports and the cycle search.
  \<^item> \<open>Tex_Match\<close>: the regular expressions of the parser as functions on strings.
    \<open>Tex_Clean\<close> (\<open>parser/clean.py\<close>): from LaTeX to plain text. \<open>Tex_Walk\<close>,
    \<open>Tex_Inputs\<close> (\<open>parser/tex.py\<close>): what the walk over the nodes records, and the
    inclusion of files, with a file system as a record of functions. \<open>Sidecar\<close>,
    \<open>Source_Map\<close>, \<open>Bibliography\<close>: the modules of the same names.
  \<^item> \<open>Claim_Keys\<close>, \<open>Cir_Pairing\<close>, \<open>Cir_Authors\<close>, \<open>Cir_Build\<close> (\<open>parser/build.py\<close>):
    the keys of a claim, claims and evidence and the ends of edges, the authors from three
    sources, and the whole structure up to its validation.
  \<^item> \<open>Client_Retry\<close> (\<open>client/retry.py\<close>, \<open>client/errors.py\<close>, \<open>_json\<close> of
    \<open>client/client.py\<close>), \<open>Client_Agent\<close> (\<open>auth/agent.py\<close>), \<open>Client_Signing\<close>
    (\<open>client/signatures.py\<close>): the request loop, the payloads of enrolment and rotation, and
    signed requests. \<open>Client_Login\<close> (\<open>auth/\<close>): what the login helpers post and make of the
    answers. \<open>Client_Api\<close> (\<open>client/client.py\<close>, \<open>client/async_client.py\<close>): the request of each
    method, the iteration over pages, and the binding of its parameters by two routes.
    \<open>Client_Repeat\<close>: a create that is repeated over a network that loses messages.
  \<^item> \<open>Cred_Store\<close> (\<open>cli/credentials.py\<close>): the credentials file, its index beside a keyring,
    and every operation on both; \<open>Cred_Table\<close>: the table of credentials it implements.
    \<open>Cli_Identity\<close>, \<open>Cli_Sessions\<close> (\<open>cli/login.py\<close>, \<open>cli/auth.py\<close>, \<open>_resolve_identity\<close>): logging
    in and out, binding keys, and the identity a command takes.
  \<^item> \<open>Annotation_Payloads\<close> (\<open>annotations/\<close> of the package): the models of structured payloads.
    \<open>Cli_Write\<close> (\<open>cli/annotation_post.py\<close>, \<open>cli/submit.py\<close>, the short forms of \<open>cli/app.py\<close>):
    what the writing commands send; \<open>Cli_Effects\<close>: what it does to the server.
  \<^item> \<open>Seed_Store\<close> (\<open>cli/seed.py\<close>, \<open>cli/serve.py\<close>): filling a store from files.
    \<open>Json_Indent\<close>: the indented JSON of the files, with its round trip. \<open>Snapshot_Files\<close>
    (\<open>snapshot.py\<close>): creating and validating an archive on disk.

  What the properties show. The running server: whatever the sequence of requests, boots and
  seedings, the tables stay consistent and the corpus is only written by the operator's seeding or
  by an identified caller; requests never lose a paper, a claim or an annotation, what they
  annotate is stored when it is a paper or a claim, and so is what they reply to; a paper that came by
  request has its archive. Authentication: a write by an agent is signed by that agent's
  key, an authenticated request has a live token, codes and challenges buy at most one
  token, the rate limit is exact, with rejected requests counted. Stores: up to the first exception the
  two backends answer every session alike, with listings compared as multisets, records as values and
  integers unbounded, and each call refines the other store's. Reading: the derived status is total and follows the
  rules of replication; pages serve every item once; a search or listing serves exactly what
  its parameters ask for, related papers are the most similar ones, lineages and versions are
  right also on cyclic pointers; author records, model counts and statistics are those of the
  stored papers. Seeding a file that names its slug a second time changes nothing, and a seeding can keep
  the community's data. Writing: a submission answers, is read back as sent, never
  touches stored papers when it is new, and a dry run foretells it; annotations are stored as
  returned, replays answer alike, bulk items behave as single ones. Graph and diffs: built
  graphs have the declared edges, reachability and the cycle search are exact, diffs restore
  both texts, match one to one and reverse. Parser: inclusions are inlined, environments,
  sidecar markers, claim keys and bibliography entries are read as they were written, no
  evidence serves two claims, positions are those of the included files, and a built structure
  has the claims, the edges and the citations of the files it was built from. Client: a call ends within its budget, what the client
  signs at enrolment and afterwards is what the server accepts, iterating yields every claim once,
  and a repeated create stores once. Command line: a login or a bound key makes the next write
  acceptable, or the server's validation refuses it and nothing is stored, a logout forgets what is
  listed, the index holds no secret and the two places for credentials are
  one table; a retraction or a replication that is posted shows in the derived status, and a batch
  is one sequence. Snapshots: a created archive validates, and validation compares every digest.

  Bounds and fuel. \<open>read_value\<close> of \<open>Codecs\<close> has twice the length of the text
  plus two as its fuel, more than a parse can use. \<open>walk_pages\<close> has one unit per
  request; more units than items are enough, as for \<open>iter_pages\<close>. \<open>chain_from\<close> walks 64 steps, the bound in
  the code. \<open>dfs\<close> has the depth of the interpreter's stack, and its theorems say when
  it suffices. \<open>mint_unused\<close> has one unit more than there are papers, enough when ids
  do not repeat. The cleaner makes eight rounds of eight passes and the inclusion of files
  sixteen levels, the bounds in the code. The other loops (\<open>version_walk\<close>,
  \<open>reach_loop\<close>, \<open>matching_pieces\<close>, \<open>tokenise\<close>, \<open>bisect_line\<close>, \<open>request_loop\<close>)
  terminate by a measure.

  Not modelled: the commands that only read and print, the conformance checks, \<open>scaffold.py\<close> and
  \<open>doctor.py\<close> (templates and probes of the environment), the mirrored methods of the async client,
  metrics, logging and HTML templates, the test doubles, the generated pydantic classes, and the
  registration of handlers with the web framework: input and output, or generated.
  Within the modelled files: connections and migrations of SQLite, the metric counters and
  request ids are left out, and so are the warnings the parser and the status lines the commands print. The dashes the cleaner
  writes are two parameters, since their code points are above 255; seconds of the retry policy
  are rationals. A sort whose keys cannot be compared raises as soon as any two of
  them cannot, where the interpreter raises only if it compares them.
\<close>

end
